(* ===== verification/Prelude.thy ===== *)
theory Prelude
  imports Main "HOL-Library.Char_ord" "HOL-Library.List_Lexorder" "HOL-Library.Product_Lexorder"
begin

text \<open>
  The shared vocabulary of the development. Python code that raises is modelled by functions into
  \<open>exn + 'a\<close>: \<open>Inl\<close> is the raised exception (its class and the fixed part of its message), \<open>Inr\<close> the
  returned value. \<open>res_bind\<close> is sequencing, \<open>require\<close> is \<open>if not c: raise e\<close>, \<open>for_each\<close> is a loop
  whose body only raises. The rules collected in \<open>res_simps\<close> turn "this call returned" into the
  conjunction of all the guards that were passed, and carry most of the component proofs.

  Python strings are HOL strings, that is sequences of the code points 0 to 255, on which the string
  methods used by the sources (strip, lower, isspace, encode) are modelled exactly; the canonical
  encoder of theory \<open>Canonical\<close> works on arbitrary code points. Instants are \<open>int\<close> (microseconds
  of UTC); Python integers are \<open>int\<close>.
\<close>

section \<open>Exceptions as values\<close>

datatype exn_class =
    ValueError | TypeError | PermissionError | RuntimeError | UnicodeError | KeyError | IndexError | OverflowError | ZeroDivisionError
  | CanonicalizationError | AuthorityTypeError | CommandValidationError
  | UnknownCommandDefinition | UnknownPayloadSchema | PayloadSchemaValidationError
  | AuthenticationError | AuthorizationDenied | InvalidCommitCapability
  | IdempotencyIdentityConflict | IdempotencyConflict | ExpectedVersionConflict
  | UnknownCausation | UnsupportedPayloadMode | AuthorityPersistenceError
  | DiagnosticHistoryExpired | ReadPolicyDenied | AuthoritySchemaError
  | RetrievalContractError | RetrievalStateError | ProjectionContractError | OutcomeContractError | SchedulingContractError | VetoError | IntegrityError | RecursionError

datatype exn = Exn (exn_class_of: exn_class) (exn_message: string)

type_synonym 'a res = "exn + 'a"

definition res_bind :: "'e + 'a \<Rightarrow> ('a \<Rightarrow> 'e + 'b) \<Rightarrow> 'e + 'b" where
  "res_bind m k = (case m of Inl e \<Rightarrow> Inl e | Inr x \<Rightarrow> k x)"

definition require :: "bool \<Rightarrow> 'e \<Rightarrow> 'e + 'a \<Rightarrow> 'e + 'a" where
  "require c e k = (if c then k else Inl e)"

fun for_each :: "('a \<Rightarrow> 'e + unit) \<Rightarrow> 'a list \<Rightarrow> 'e + unit" where
  "for_each f [] = Inr ()"
| "for_each f (x # xs) = res_bind (f x) (\<lambda>_. for_each f xs)"

fun res_map :: "('a \<Rightarrow> 'e + 'b) \<Rightarrow> 'a list \<Rightarrow> 'e + 'b list" where
  "res_map f [] = Inr []"
| "res_map f (x # xs) = res_bind (f x) (\<lambda>y. res_bind (res_map f xs) (\<lambda>ys. Inr (y # ys)))"

definition res_of_option :: "'e \<Rightarrow> 'a option \<Rightarrow> 'e + 'a" where
  "res_of_option e m = (case m of None \<Rightarrow> Inl e | Some x \<Rightarrow> Inr x)"

definition rescue :: "('e \<Rightarrow> 'e + 'a) \<Rightarrow> 'e + 'a \<Rightarrow> 'e + 'a" where
  "rescue h m = (case m of Inl e \<Rightarrow> h e | Inr x \<Rightarrow> Inr x)"

named_theorems res_simps \<open>how a sequence of guarded steps returns\<close>

lemma res_bind_simps [simp]:
  "res_bind (Inl e) k = Inl e"
  "res_bind (Inr x) k = k x"
  by (simp_all add: res_bind_def)

lemma res_bind_Inr_iff [res_simps]:
  "res_bind m k = Inr y \<longleftrightarrow> (\<exists>x. m = Inr x \<and> k x = Inr y)"
  by (cases m) simp_all

lemma res_bind_Inl_iff:
  "res_bind m k = Inl e \<longleftrightarrow> m = Inl e \<or> (\<exists>x. m = Inr x \<and> k x = Inl e)"
  by (cases m) auto

lemma res_bind_assoc: "res_bind (res_bind m f) g = res_bind m (\<lambda>x. res_bind (f x) g)"
  by (cases m) simp_all

lemma require_simps [simp]:
  "require True e k = k"
  "require False e k = Inl e"
  by (simp_all add: require_def)

lemma require_Inr_iff [res_simps]: "require c e k = Inr y \<longleftrightarrow> c \<and> k = Inr y"
  by (simp add: require_def)

lemma require_Inl_iff: "require c e k = Inl f \<longleftrightarrow> (\<not> c \<and> f = e) \<or> (c \<and> k = Inl f)"
  by (auto simp: require_def)

lemma for_each_Inr_iff [res_simps]: "for_each f xs = Inr u \<longleftrightarrow> (\<forall>x \<in> set xs. f x = Inr ())"
  by (induction xs) (auto simp: res_bind_Inr_iff)

lemma for_each_Inl: "for_each f xs = Inl e \<Longrightarrow> \<exists>x \<in> set xs. f x = Inl e"
  by (induction xs) (auto simp: res_bind_Inl_iff)

lemma res_map_Inr_iff [res_simps]:
  "res_map f xs = Inr ys \<longleftrightarrow> list_all2 (\<lambda>x y. f x = Inr y) xs ys"
proof (induction xs arbitrary: ys)
  case Nil
  show ?case by auto
next
  case (Cons x xs)
  show ?case
    by (cases ys) (auto simp: res_bind_Inr_iff Cons.IH list_all2_Cons1)
qed

lemma res_of_option_Inr_iff [res_simps]: "res_of_option e m = Inr x \<longleftrightarrow> m = Some x"
  by (cases m) (simp_all add: res_of_option_def)

lemma res_of_option_simps [simp]:
  "res_of_option e None = Inl e"
  "res_of_option e (Some x) = Inr x"
  by (simp_all add: res_of_option_def)

lemma rescue_Inr [simp]: "rescue h (Inr x) = Inr x"
  by (simp add: rescue_def)

lemma rescue_Inl [simp]: "rescue h (Inl e) = h e"
  by (simp add: rescue_def)

section \<open>Lists\<close>

text \<open>Python's \<open>tuple(sorted(set(xs))) == xs\<close>: strictly increasing.\<close>

definition sorted_unique :: "'a::linorder list \<Rightarrow> bool" where
  "sorted_unique xs = (remdups (sort xs) = xs)"

lemma sorted_unique_iff: "sorted_unique xs \<longleftrightarrow> sorted xs \<and> distinct xs"
proof
  assume "sorted_unique xs"
  then have eq: "remdups (sort xs) = xs" by (simp add: sorted_unique_def)
  have "sorted (remdups (sort xs))" by simp
  moreover have "distinct (remdups (sort xs))" by simp
  ultimately show "sorted xs \<and> distinct xs" by (simp only: eq)
next
  assume "sorted xs \<and> distinct xs"
  then show "sorted_unique xs"
    by (simp add: sorted_unique_def sorted_sort_id distinct_remdups_id)
qed

lemma sort_remdups_eq_iff:
  "sort (remdups xs) = sort (remdups ys) \<longleftrightarrow> set xs = set ys" for xs :: "'a::linorder list"
  by (metis set_remdups set_sort sorted_list_of_set_sort_remdups)

text \<open>The last element satisfying a predicate determines a fold; used for first-match lookups.\<close>

lemma find_Some_iff_split:
  "find P xs = Some x \<Longrightarrow> x \<in> set xs \<and> P x"
  by (induction xs) (auto split: if_splits)

lemma find_None_all: "find P xs = None \<longleftrightarrow> (\<forall>x \<in> set xs. \<not> P x)"
  by (induction xs) auto

lemma distinct_map_unique:
  "distinct (map f xs) \<Longrightarrow> x \<in> set xs \<Longrightarrow> y \<in> set xs \<Longrightarrow> f x = f y \<Longrightarrow> x = y"
  by (auto simp: distinct_map inj_on_def)

section \<open>Text\<close>

text \<open>
  The code points of \<open>str.isspace\<close> below 256: tab to carriage return, the four separators 28 to
  31, the space, NEL and the no-break space.
\<close>

definition is_space :: "char \<Rightarrow> bool" where
  "is_space c = (let n = of_char c :: nat in
     (9 \<le> n \<and> n \<le> 13) \<or> (28 \<le> n \<and> n \<le> 32) \<or> n = 133 \<or> n = 160)"

definition lstrip :: "string \<Rightarrow> string" where
  "lstrip s = dropWhile is_space s"

definition strip :: "string \<Rightarrow> string" where
  "strip s = rev (lstrip (rev (lstrip s)))"

text \<open>\<open>str.lower\<close> on code points below 256: A to Z and the Latin-1 capitals, less the multiplication sign.\<close>

definition lower_char :: "char \<Rightarrow> char" where
  "lower_char c = (let n = of_char c :: nat in
     if (65 \<le> n \<and> n \<le> 90) \<or> (192 \<le> n \<and> n \<le> 222 \<and> n \<noteq> 215) then char_of (n + 32) else c)"

definition lower :: "string \<Rightarrow> string" where
  "lower s = map lower_char s"

text \<open>\<open>len(s.encode("utf-8"))\<close>.\<close>

definition utf8_len :: "string \<Rightarrow> nat" where
  "utf8_len s = sum_list (map (\<lambda>c. if (of_char c :: nat) < 128 then 1 else 2) s)"

definition is_digit :: "char \<Rightarrow> bool" where
  "is_digit c = (let n = of_char c :: nat in 48 \<le> n \<and> n \<le> 57)"

definition is_lower_hex :: "char \<Rightarrow> bool" where
  "is_lower_hex c = (let n = of_char c :: nat in (48 \<le> n \<and> n \<le> 57) \<or> (97 \<le> n \<and> n \<le> 102))"

definition is_alpha :: "char \<Rightarrow> bool" where
  "is_alpha c = (let n = of_char c :: nat in (65 \<le> n \<and> n \<le> 90) \<or> (97 \<le> n \<and> n \<le> 122))"

lemma lstrip_Nil_iff: "lstrip s = [] \<longleftrightarrow> (\<forall>c \<in> set s. is_space c)"
  by (simp add: lstrip_def dropWhile_eq_Nil_conv)

lemma strip_Nil_iff: "strip s = [] \<longleftrightarrow> (\<forall>c \<in> set s. is_space c)"
proof -
  have "lstrip (rev (lstrip s)) = [] \<longleftrightarrow> lstrip s = []"
  proof
    assume all: "lstrip (rev (lstrip s)) = []"
    show "lstrip s = []"
    proof (rule ccontr)
      assume ne: "lstrip s \<noteq> []"
      then have "\<not> is_space (hd (lstrip s))"
        by (simp add: lstrip_def hd_dropWhile)
      moreover from all have "\<forall>c \<in> set (lstrip s). is_space c"
        by (simp add: lstrip_Nil_iff)
      ultimately show False using ne hd_in_set by blast
    qed
  qed (auto simp: lstrip_def dest: set_dropWhileD)
  then show ?thesis by (simp add: strip_def lstrip_Nil_iff)
qed

lemma strip_id: "(\<forall>c \<in> set s. \<not> is_space c) \<Longrightarrow> strip s = s"
proof -
  have l: "lstrip t = t" if "\<forall>c \<in> set t. \<not> is_space c" for t
    using that by (cases t) (simp_all add: lstrip_def)
  assume "\<forall>c \<in> set s. \<not> is_space c"
  then show ?thesis by (simp add: strip_def l)
qed

lemma lower_id: "(\<forall>c \<in> set s. lower_char c = c) \<Longrightarrow> lower s = s"
  by (simp add: lower_def map_idI)

end
