(* ===== verification/Canonical.thy ===== *)
theory Canonical
  imports Sha256
begin

text \<open>
  \<open>src/newsroom/authority/canonical.py\<close>: the canonical JSON encoding and the digests that identify
  every authority record, and the inverse direction \<open>json.loads\<close> followed by the re-encoding check
  (\<open>_decode_canonical\<close> of the event store).

  A Python value offered to the encoder is a \<open>pyval\<close>. Integers, strings, sequences and mappings
  say whether their type is the exact built-in, a subclass of it, or (for collections) only an
  abstract \<open>Sequence\<close>/\<open>Mapping\<close>; the fast path of the source tests exactly this. Text is a list of
  code points, so lone surrogates can occur. The native encoder \<open>orjson\<close> is third-party code and a
  parameter of \<open>canonical_json_bytes\<close>; the standard library encoder \<open>json.dumps\<close> is modelled. The
  error paths "$.a[0]" inside the messages are left out. The functions of this theory have no recursion
  limit; theory \<open>Canonical_Limits\<close> has the same functions under the limit of the interpreter and shows
  that they agree on every value that is not too deep.
\<close>

section \<open>Values and text\<close>

type_synonym cps = "nat list"

definition cps_of :: "string \<Rightarrow> cps" where
  "cps_of s = map of_char s"

datatype impl = Exact | Subclass | Abstract

datatype pykey = KStr bool cps | KOther

datatype pyval =
    PNone
  | PBool bool
  | PInt bool int
  | PFloat "cps option"
  | PStr bool cps
  | PSeq impl "pyval list"
  | PMap impl "(pykey \<times> pyval) list"
  | POther

definition MIN_SAFE_INTEGER :: int where "MIN_SAFE_INTEGER = - 9007199254740991"
definition MAX_SAFE_INTEGER :: int where "MAX_SAFE_INTEGER = 9007199254740991"

definition is_surrogate :: "nat \<Rightarrow> bool" where
  "is_surrogate c = (0xD800 \<le> c \<and> c \<le> 0xDFFF)"

definition isascii :: "cps \<Rightarrow> bool" where
  "isascii s = list_all (\<lambda>c. c < 128) s"

section \<open>Validation\<close>

definition canonicalization_error :: "string \<Rightarrow> exn" where
  "canonicalization_error m = Exn CanonicalizationError m"

definition validate_string :: "cps \<Rightarrow> unit res" where
  "validate_string s =
     (if isascii s then Inr ()
      else if list_ex is_surrogate s
        then Inl (canonicalization_error ''lone surrogate is unsupported'') else Inr ())"

definition no_surrogate :: "cps \<Rightarrow> bool" where
  "no_surrogate s = (isascii s \<or> \<not> list_ex is_surrogate s)"

fun is_restricted_builtin :: "pyval \<Rightarrow> bool"
and builtin_all :: "pyval list \<Rightarrow> bool"
and builtin_items :: "(pykey \<times> pyval) list \<Rightarrow> bool" where
  "is_restricted_builtin (PStr exact s) = (exact \<and> no_surrogate s)"
| "is_restricted_builtin PNone = True"
| "is_restricted_builtin (PBool b) = True"
| "is_restricted_builtin (PInt exact n) = (exact \<and> MIN_SAFE_INTEGER \<le> n \<and> n \<le> MAX_SAFE_INTEGER)"
| "is_restricted_builtin (PMap k items) = (k = Exact \<and> builtin_items items)"
| "is_restricted_builtin (PSeq k xs) = (k = Exact \<and> builtin_all xs)"
| "is_restricted_builtin (PFloat t) = False"
| "is_restricted_builtin POther = False"
| "builtin_all [] = True"
| "builtin_all (x # xs) = (is_restricted_builtin x \<and> builtin_all xs)"
| "builtin_items [] = True"
| "builtin_items ((k, v) # items) =
     ((case k of KStr exact s \<Rightarrow> exact \<and> no_surrogate s | KOther \<Rightarrow> False)
      \<and> is_restricted_builtin v \<and> builtin_items items)"

fun validate_restricted_value_with_path :: "pyval \<Rightarrow> unit res"
and validate_all :: "pyval list \<Rightarrow> unit res"
and validate_items :: "(pykey \<times> pyval) list \<Rightarrow> unit res" where
  "validate_restricted_value_with_path PNone = Inr ()"
| "validate_restricted_value_with_path (PBool b) = Inr ()"
| "validate_restricted_value_with_path (PInt exact n) =
     require (MIN_SAFE_INTEGER \<le> n \<and> n \<le> MAX_SAFE_INTEGER)
       (canonicalization_error ''integer outside the interoperable safe range'') (Inr ())"
| "validate_restricted_value_with_path (PFloat t) =
     Inl (canonicalization_error ''floating-point values are unsupported'')"
| "validate_restricted_value_with_path (PStr exact s) = validate_string s"
| "validate_restricted_value_with_path (PMap k items) = validate_items items"
| "validate_restricted_value_with_path (PSeq k xs) = validate_all xs"
| "validate_restricted_value_with_path POther =
     Inl (canonicalization_error ''unsupported value type'')"
| "validate_all [] = Inr ()"
| "validate_all (x # xs) =
     res_bind (validate_restricted_value_with_path x) (\<lambda>_. validate_all xs)"
| "validate_items [] = Inr ()"
| "validate_items ((k, v) # items) =
     (case k of
        KOther \<Rightarrow> Inl (canonicalization_error ''object names must be strings'')
      | KStr exact s \<Rightarrow>
          res_bind (validate_string s) (\<lambda>_.
          res_bind (validate_restricted_value_with_path v) (\<lambda>_. validate_items items)))"

definition validate_restricted_value :: "pyval \<Rightarrow> bool res" where
  "validate_restricted_value v =
     (if is_restricted_builtin v then Inr True
      else res_bind (validate_restricted_value_with_path v) (\<lambda>_. Inr False))"

section \<open>The standard library encoder\<close>

text \<open>\<open>json.dumps(value, ensure_ascii=False, allow_nan=False, sort_keys=True, separators=(",", ":"))\<close>.\<close>

definition hex_cp :: "nat \<Rightarrow> nat" where
  "hex_cp n = (if n < 10 then 48 + n else 87 + n)"

definition escape_char :: "nat \<Rightarrow> cps" where
  "escape_char c =
     (if c = 34 then [92, 34]
      else if c = 92 then [92, 92]
      else if c = 10 then [92, 110]
      else if c = 13 then [92, 114]
      else if c = 9 then [92, 116]
      else if c = 12 then [92, 102]
      else if c = 8 then [92, 98]
      else if c < 32 then [92, 117, 48, 48, hex_cp (c div 16), hex_cp (c mod 16)]
      else [c])"

definition quote :: "cps \<Rightarrow> cps" where
  "quote s = 34 # concat (map escape_char s) @ [34]"

fun nat_repr :: "nat \<Rightarrow> cps" where
  "nat_repr n = (if n < 10 then [48 + n] else nat_repr (n div 10) @ [48 + n mod 10])"

declare nat_repr.simps [simp del]

definition int_repr :: "int \<Rightarrow> cps" where
  "int_repr n = (if n < 0 then 45 # nat_repr (nat (- n)) else nat_repr (nat n))"

fun join_comma :: "cps list \<Rightarrow> cps" where
  "join_comma [] = []"
| "join_comma [t] = t"
| "join_comma (t # u # ts) = t @ 44 # join_comma (u # ts)"

definition member_text :: "cps \<times> cps \<Rightarrow> cps" where
  "member_text = (\<lambda>(k, t). quote k @ 58 # t)"

definition true_text :: cps where "true_text = [116, 114, 117, 101]"
definition false_text :: cps where "false_text = [102, 97, 108, 115, 101]"
definition null_text :: cps where "null_text = [110, 117, 108, 108]"

fun json_dumps :: "pyval \<Rightarrow> cps res"
and dumps_all :: "pyval list \<Rightarrow> cps list res"
and dumps_items :: "(pykey \<times> pyval) list \<Rightarrow> (cps \<times> cps) list res" where
  "json_dumps PNone = Inr null_text"
| "json_dumps (PBool b) = Inr (if b then true_text else false_text)"
| "json_dumps (PInt exact n) = Inr (int_repr n)"
| "json_dumps (PFloat t) =
     res_of_option (Exn ValueError ''Out of range float values are not JSON compliant'') t"
| "json_dumps (PStr exact s) = Inr (quote s)"
| "json_dumps (PSeq k xs) =
     require (k \<noteq> Abstract) (Exn TypeError ''Object is not JSON serializable'')
       (res_bind (dumps_all xs) (\<lambda>ts. Inr (91 # join_comma ts @ [93])))"
| "json_dumps (PMap k items) =
     require (k \<noteq> Abstract) (Exn TypeError ''Object is not JSON serializable'')
       (res_bind (dumps_items items)
          (\<lambda>ts. Inr (123 # join_comma (map member_text (sort_key fst ts)) @ [125])))"
| "json_dumps POther = Inl (Exn TypeError ''Object is not JSON serializable'')"
| "dumps_all [] = Inr []"
| "dumps_all (x # xs) =
     res_bind (json_dumps x) (\<lambda>t. res_bind (dumps_all xs) (\<lambda>ts. Inr (t # ts)))"
| "dumps_items [] = Inr []"
| "dumps_items ((k, v) # items) =
     (case k of
        KOther \<Rightarrow> Inl (Exn TypeError ''keys must be str'')
      | KStr exact s \<Rightarrow>
          res_bind (json_dumps v) (\<lambda>t. res_bind (dumps_items items) (\<lambda>ts. Inr ((s, t) # ts))))"

definition utf8_char :: "nat \<Rightarrow> bytes" where
  "utf8_char c =
     (if c < 0x80 then [c]
      else if c < 0x800 then [0xC0 + c div 64, 0x80 + c mod 64]
      else if c < 0x10000 then [0xE0 + c div 4096, 0x80 + c div 64 mod 64, 0x80 + c mod 64]
      else [0xF0 + c div 262144, 0x80 + c div 4096 mod 64, 0x80 + c div 64 mod 64, 0x80 + c mod 64])"

definition utf8_encode :: "cps \<Rightarrow> bytes res" where
  "utf8_encode s =
     require (\<not> list_ex is_surrogate s) (Exn UnicodeError ''surrogates not allowed'')
       (Inr (concat (map utf8_char s)))"

section \<open>Canonical bytes and digests\<close>

definition canonical_json_bytes_with :: "(pyval \<Rightarrow> bytes option) \<Rightarrow> pyval \<Rightarrow> bytes res" where
  "canonical_json_bytes_with orjson_dumps v =
     res_bind (validate_restricted_value v) (\<lambda>builtin.
       case (if builtin then orjson_dumps v else None) of
         Some b \<Rightarrow> Inr b
       | None \<Rightarrow>
           res_bind
             (case json_dumps v of
                Inl e \<Rightarrow> Inl (canonicalization_error ''canonical JSON encoding failed'')
              | Inr text \<Rightarrow> Inr text)
             utf8_encode)"

text \<open>
  The encoder used by the rest of the development: the one that never takes the native path. Theory
  \<open>Canonical_Limits\<close> shows that the native path gives the same bytes.
\<close>

definition canonical_json_bytes :: "pyval \<Rightarrow> bytes res" where
  "canonical_json_bytes v = canonical_json_bytes_with (\<lambda>_. None) v"

definition digest_bytes :: "bytes \<Rightarrow> string" where
  "digest_bytes b = ''sha256:'' @ hexdigest (sha256 b)"

definition digest_canonical :: "pyval \<Rightarrow> string res" where
  "digest_canonical v = res_bind (canonical_json_bytes v) (\<lambda>b. Inr (digest_bytes b))"

text \<open>
  \<open>int(text, 16)\<close> accepts surrounding white space, a sign, a \<open>0x\<close> prefix and single underscores
  between digits (and after the prefix).
\<close>

definition is_hex :: "char \<Rightarrow> bool" where
  "is_hex c = (is_lower_hex c \<or> (let n = of_char c :: nat in 65 \<le> n \<and> n \<le> 70))"

fun hex_digits_ok :: "string \<Rightarrow> bool" where
  "hex_digits_ok [] = False"
| "hex_digits_ok [c] = is_hex c"
| "hex_digits_ok (c # d # r) =
     (is_hex c \<and> (if d = CHR ''_'' then hex_digits_ok r else hex_digits_ok (d # r)))"

definition drop_sign :: "string \<Rightarrow> string" where
  "drop_sign s = (case s of [] \<Rightarrow> [] | c # r \<Rightarrow> if c = CHR ''+'' \<or> c = CHR ''-'' then r else s)"

definition drop_hex_prefix :: "string \<Rightarrow> string" where
  "drop_hex_prefix s =
     (case s of
        a # b # r \<Rightarrow>
          if a = CHR ''0'' \<and> (b = CHR ''x'' \<or> b = CHR ''X'')
          then (case r of c # r' \<Rightarrow> if c = CHR ''_'' then r' else r | [] \<Rightarrow> r) else s
      | _ \<Rightarrow> s)"

definition int_base16_ok :: "string \<Rightarrow> bool" where
  "int_base16_ok s = hex_digits_ok (drop_hex_prefix (drop_sign (strip s)))"

definition validate_sha256_digest :: "string \<Rightarrow> string res" where
  "validate_sha256_digest value =
     require (value = lower (strip value))
       (canonicalization_error ''digest must be lowercase canonical text'')
     (require (take 7 value = ''sha256:'')
       (canonicalization_error ''digest must use sha256:<hex>'')
     (require (length (drop 7 value) = 64)
       (canonicalization_error ''digest must contain 64 hexadecimal characters'')
     (require (int_base16_ok (drop 7 value))
       (canonicalization_error ''digest contains non-hexadecimal characters'')
     (Inr value))))"

section \<open>Reading canonical bytes back\<close>

datatype json =
    JNull
  | JBool bool
  | JInt int
  | JFloat cps
  | JStr cps
  | JArr "json list"
  | JObj "(cps \<times> json) list"

definition json_space :: "nat \<Rightarrow> bool" where
  "json_space c = (c = 32 \<or> c = 9 \<or> c = 10 \<or> c = 13)"

definition skip_ws :: "cps \<Rightarrow> cps" where
  "skip_ws s = dropWhile json_space s"

definition hex_value :: "nat \<Rightarrow> nat option" where
  "hex_value c =
     (if 48 \<le> c \<and> c \<le> 57 then Some (c - 48)
      else if 97 \<le> c \<and> c \<le> 102 then Some (c - 87)
      else if 65 \<le> c \<and> c \<le> 70 then Some (c - 55)
      else None)"

fun decode_u4 :: "cps \<Rightarrow> (nat \<times> cps) option" where
  "decode_u4 (a # b # c # d # r) =
     (case (hex_value a, hex_value b, hex_value c, hex_value d) of
        (Some w, Some x, Some y, Some z) \<Rightarrow> Some (((w * 16 + x) * 16 + y) * 16 + z, r)
      | _ \<Rightarrow> None)"
| "decode_u4 _ = None"

definition unescape :: "nat \<Rightarrow> nat option" where
  "unescape c =
     (if c = 34 then Some 34 else if c = 92 then Some 92 else if c = 47 then Some 47
      else if c = 98 then Some 8 else if c = 102 then Some 12 else if c = 110 then Some 10
      else if c = 114 then Some 13 else if c = 116 then Some 9 else None)"

definition combine_surrogates :: "nat \<Rightarrow> cps \<Rightarrow> (nat \<times> cps) option" where
  "combine_surrogates u r =
     (if 0xD800 \<le> u \<and> u \<le> 0xDBFF \<and> take 2 r = [92, 117]
      then (case decode_u4 (drop 2 r) of
              None \<Rightarrow> None
            | Some (u2, r2) \<Rightarrow>
                if 0xDC00 \<le> u2 \<and> u2 \<le> 0xDFFF
                then Some (0x10000 + (u - 0xD800) * 1024 + (u2 - 0xDC00), r2)
                else Some (u, r))
      else Some (u, r))"

text \<open>The body of a string up to its closing quote; each call consumes one character or escape.\<close>

fun scan_string :: "nat \<Rightarrow> cps \<Rightarrow> (cps \<times> cps) option" where
  "scan_string 0 s = None"
| "scan_string (Suc f) [] = None"
| "scan_string (Suc f) (c # r) =
     (if c = 34 then Some ([], r)
      else if c = 92 then
        (case r of
           [] \<Rightarrow> None
         | e # r1 \<Rightarrow>
             if e = 117
             then Option.bind (decode_u4 r1) (\<lambda>(u, r2).
                  Option.bind (combine_surrogates u r2) (\<lambda>(x, r3).
                  Option.bind (scan_string f r3) (\<lambda>(s, r4). Some (x # s, r4))))
             else Option.bind (unescape e) (\<lambda>x.
                  Option.bind (scan_string f r1) (\<lambda>(s, r2). Some (x # s, r2))))
      else if c < 32 then None
      else Option.bind (scan_string f r) (\<lambda>(s, r1). Some (c # s, r1)))"

definition digit_cp :: "nat \<Rightarrow> bool" where
  "digit_cp c = (48 \<le> c \<and> c \<le> 57)"

definition nat_of_digits :: "cps \<Rightarrow> nat" where
  "nat_of_digits ds = foldl (\<lambda>n d. n * 10 + (d - 48)) 0 ds"

definition scan_frac :: "cps \<Rightarrow> cps" where
  "scan_frac s =
     (case s of c # r \<Rightarrow> if c = 46 \<and> takeWhile digit_cp r \<noteq> [] then c # takeWhile digit_cp r else []
      | [] \<Rightarrow> [])"

definition scan_exp :: "cps \<Rightarrow> cps" where
  "scan_exp s =
     (case s of
        c # r \<Rightarrow>
          let sg = (case r of d # _ \<Rightarrow> if d = 43 \<or> d = 45 then [d] else [] | [] \<Rightarrow> []);
              ds = takeWhile digit_cp (drop (length sg) r)
          in if (c = 101 \<or> c = 69) \<and> ds \<noteq> [] then c # sg @ ds else []
      | [] \<Rightarrow> [])"

definition scan_sign :: "cps \<Rightarrow> cps" where
  "scan_sign s = (case s of c # _ \<Rightarrow> if c = 45 then [c] else [] | [] \<Rightarrow> [])"

definition scan_int :: "cps \<Rightarrow> cps" where
  "scan_int s = (case s of c # _ \<Rightarrow> if c = 48 then [48] else takeWhile digit_cp s | [] \<Rightarrow> [])"

definition scan_number :: "cps \<Rightarrow> (json \<times> cps) option" where
  "scan_number s =
     (let sg = scan_sign s;
          s1 = drop (length sg) s;
          ds = scan_int s1;
          s2 = drop (length ds) s1;
          fr = scan_frac s2;
          ex = scan_exp (drop (length fr) s2);
          s3 = drop (length fr + length ex) s2
      in if ds = [] then None
         else if fr = [] \<and> ex = []
         then Some (JInt (if sg = [] then int (nat_of_digits ds) else - int (nat_of_digits ds)), s3)
         else Some (JFloat (sg @ ds @ fr @ ex), s3))"

definition scan_word :: "cps \<Rightarrow> json \<Rightarrow> cps \<Rightarrow> (json \<times> cps) option" where
  "scan_word w v s = (if take (length w) s = w then Some (v, drop (length w) s) else None)"

definition nan_text :: cps where "nan_text = [78, 97, 78]"
definition infinity_text :: cps where "infinity_text = [73, 110, 102, 105, 110, 105, 116, 121]"

text \<open>A dictionary built from its pairs: a repeated name keeps its place and takes the last value.\<close>

fun dict_set :: "'k \<Rightarrow> 'v \<Rightarrow> ('k \<times> 'v) list \<Rightarrow> ('k \<times> 'v) list" where
  "dict_set k v [] = [(k, v)]"
| "dict_set k v ((k', v') # d) = (if k = k' then (k', v) # d else (k', v') # dict_set k v d)"

definition dict_of_pairs :: "('k \<times> 'v) list \<Rightarrow> ('k \<times> 'v) list" where
  "dict_of_pairs ps = foldl (\<lambda>d (k, v). dict_set k v d) [] ps"

fun scan_value :: "nat \<Rightarrow> cps \<Rightarrow> (json \<times> cps) option"
and scan_elems :: "nat \<Rightarrow> cps \<Rightarrow> (json list \<times> cps) option"
and scan_members :: "nat \<Rightarrow> cps \<Rightarrow> ((cps \<times> json) list \<times> cps) option" where
  "scan_value 0 s = None"
| "scan_value (Suc f) [] = None"
| "scan_value (Suc f) (c # r) =
     (if c = 34 then Option.bind (scan_string f r) (\<lambda>(t, r1). Some (JStr t, r1))
      else if c = 123 then
        (case skip_ws r of
           [] \<Rightarrow> None
         | d # r1 \<Rightarrow> if d = 125 then Some (JObj [], r1)
             else Option.bind (scan_members f (d # r1))
                    (\<lambda>(ps, r2). Some (JObj (dict_of_pairs ps), r2)))
      else if c = 91 then
        (case skip_ws r of
           [] \<Rightarrow> None
         | d # r1 \<Rightarrow> if d = 93 then Some (JArr [], r1)
             else Option.bind (scan_elems f (d # r1)) (\<lambda>(vs, r2). Some (JArr vs, r2)))
      else if c = 110 then scan_word null_text JNull (c # r)
      else if c = 116 then scan_word true_text (JBool True) (c # r)
      else if c = 102 then scan_word false_text (JBool False) (c # r)
      else if c = 78 then scan_word nan_text (JFloat nan_text) (c # r)
      else if c = 73 then scan_word infinity_text (JFloat infinity_text) (c # r)
      else if c = 45 \<and> take (length infinity_text) r = infinity_text
        then Some (JFloat (45 # infinity_text), drop (length infinity_text) r)
      else scan_number (c # r))"
| "scan_elems 0 s = None"
| "scan_elems (Suc f) s =
     Option.bind (scan_value f s) (\<lambda>(v, r).
       case skip_ws r of
         [] \<Rightarrow> None
       | c # r1 \<Rightarrow>
           if c = 93 then Some ([v], r1)
           else if c = 44
             then Option.bind (scan_elems f (skip_ws r1)) (\<lambda>(vs, r2). Some (v # vs, r2))
           else None)"
| "scan_members 0 s = None"
| "scan_members (Suc f) [] = None"
| "scan_members (Suc f) (q # r) =
     (if q \<noteq> 34 then None
      else Option.bind (scan_string f r) (\<lambda>(k, r1).
        case skip_ws r1 of
          [] \<Rightarrow> None
        | c # r2 \<Rightarrow>
            if c \<noteq> 58 then None
            else Option.bind (scan_value f (skip_ws r2)) (\<lambda>(v, r3).
              case skip_ws r3 of
                [] \<Rightarrow> None
              | d # r4 \<Rightarrow>
                  if d = 125 then Some ([(k, v)], r4)
                  else if d = 44
                    then Option.bind (scan_members f (skip_ws r4))
                           (\<lambda>(ps, r5). Some ((k, v) # ps, r5))
                  else None)))"

text \<open>\<open>json.loads\<close> on text; every call of the scanner consumes at least half a unit of this fuel.\<close>

definition json_loads :: "cps \<Rightarrow> json option" where
  "json_loads s =
     Option.bind (scan_value (2 * length s + 2) (skip_ws s))
       (\<lambda>(v, r). if skip_ws r = [] then Some v else None)"

fun py_of_json :: "json \<Rightarrow> pyval"
and py_of_list :: "json list \<Rightarrow> pyval list"
and py_of_items :: "(cps \<times> json) list \<Rightarrow> (pykey \<times> pyval) list" where
  "py_of_json JNull = PNone"
| "py_of_json (JBool b) = PBool b"
| "py_of_json (JInt n) = PInt True n"
| "py_of_json (JFloat t) = PFloat (Some t)"
| "py_of_json (JStr s) = PStr True s"
| "py_of_json (JArr xs) = PSeq Exact (py_of_list xs)"
| "py_of_json (JObj ps) = PMap Exact (py_of_items ps)"
| "py_of_list [] = []"
| "py_of_list (x # xs) = py_of_json x # py_of_list xs"
| "py_of_items [] = []"
| "py_of_items ((k, v) # ps) = (KStr True k, py_of_json v) # py_of_items ps"

text \<open>\<open>data.decode("utf-8", errors="strict")\<close>: overlong forms, surrogates and values beyond 10FFFF are refused.\<close>

definition utf8_cont :: "nat \<Rightarrow> bool" where
  "utf8_cont b = (0x80 \<le> b \<and> b < 0xC0)"

fun utf8_decode :: "bytes \<Rightarrow> cps option" where
  "utf8_decode [] = Some []"
| "utf8_decode (a # r) =
     (if a < 0x80 then map_option ((#) a) (utf8_decode r)
      else if 0xC2 \<le> a \<and> a < 0xE0 then
        (case r of
           b # r1 \<Rightarrow>
             if utf8_cont b
             then map_option ((#) ((a - 0xC0) * 64 + (b - 0x80))) (utf8_decode r1) else None
         | _ \<Rightarrow> None)
      else if 0xE0 \<le> a \<and> a < 0xF0 then
        (case r of
           b # c # r1 \<Rightarrow>
             let n = (a - 0xE0) * 4096 + (b - 0x80) * 64 + (c - 0x80)
             in if utf8_cont b \<and> utf8_cont c \<and> 0x800 \<le> n \<and> \<not> is_surrogate n
                then map_option ((#) n) (utf8_decode r1) else None
         | _ \<Rightarrow> None)
      else if 0xF0 \<le> a \<and> a < 0xF5 then
        (case r of
           b # c # d # r1 \<Rightarrow>
             let n = (a - 0xF0) * 262144 + (b - 0x80) * 4096 + (c - 0x80) * 64 + (d - 0x80)
             in if utf8_cont b \<and> utf8_cont c \<and> utf8_cont d \<and> 0x10000 \<le> n \<and> n < 0x110000
                then map_option ((#) n) (utf8_decode r1) else None
         | _ \<Rightarrow> None)
      else None)"

text \<open>\<open>_decode_canonical\<close> of \<open>_event_store_commit.py\<close>.\<close>

definition decode_canonical :: "bytes \<Rightarrow> json res" where
  "decode_canonical data =
     res_bind
       (res_of_option (Exn AuthorityPersistenceError ''stored canonical JSON is invalid'')
          (Option.bind (utf8_decode data) json_loads))
       (\<lambda>value.
     res_bind (canonical_json_bytes (py_of_json value)) (\<lambda>again.
     require (again = data) (Exn AuthorityPersistenceError ''stored JSON is not canonical'')
       (Inr value)))"

section \<open>What a value says\<close>

text \<open>
  The JSON content of a value: the concrete collection classes and the order in which a mapping
  was filled are forgotten. \<open>json_text\<close> is the one text for such a content.
\<close>

fun view :: "pyval \<Rightarrow> json"
and view_list :: "pyval list \<Rightarrow> json list"
and view_items :: "(pykey \<times> pyval) list \<Rightarrow> (cps \<times> json) list" where
  "view PNone = JNull"
| "view (PBool b) = JBool b"
| "view (PInt exact n) = JInt n"
| "view (PFloat t) = JFloat (case t of None \<Rightarrow> [] | Some t \<Rightarrow> t)"
| "view (PStr exact s) = JStr s"
| "view (PSeq k xs) = JArr (view_list xs)"
| "view (PMap k items) = JObj (sort_key fst (view_items items))"
| "view POther = JNull"
| "view_list [] = []"
| "view_list (x # xs) = view x # view_list xs"
| "view_items [] = []"
| "view_items ((k, v) # items) =
     (case k of KStr exact s \<Rightarrow> s | KOther \<Rightarrow> [], view v) # view_items items"

fun json_text :: "json \<Rightarrow> cps" where
  "json_text JNull = null_text"
| "json_text (JBool b) = (if b then true_text else false_text)"
| "json_text (JInt n) = int_repr n"
| "json_text (JFloat t) = t"
| "json_text (JStr s) = quote s"
| "json_text (JArr xs) = 91 # join_comma (map json_text xs) @ [93]"
| "json_text (JObj ps) =
     123 # join_comma (map (\<lambda>p. member_text (fst p, json_text (snd p))) ps) @ [125]"

text \<open>A Python value: code points below 110000, the names of a mapping pairwise different.\<close>

definition wf_text :: "cps \<Rightarrow> bool" where
  "wf_text s = list_all (\<lambda>c. c < 0x110000) s"

fun wf_pyval :: "pyval \<Rightarrow> bool"
and wf_list :: "pyval list \<Rightarrow> bool"
and wf_items :: "(pykey \<times> pyval) list \<Rightarrow> bool" where
  "wf_pyval (PStr exact s) = wf_text s"
| "wf_pyval (PSeq k xs) = wf_list xs"
| "wf_pyval (PMap k items) = (wf_items items \<and> distinct (map fst (view_items items)))"
| "wf_pyval _ = True"
| "wf_list [] = True"
| "wf_list (x # xs) = (wf_pyval x \<and> wf_list xs)"
| "wf_items [] = True"
| "wf_items ((k, v) # items) =
     ((case k of KStr exact s \<Rightarrow> wf_text s | KOther \<Rightarrow> True) \<and> wf_pyval v \<and> wf_items items)"

text \<open>Values the standard library can serialise: every collection is a real list, tuple or dict.\<close>

fun serialisable :: "pyval \<Rightarrow> bool"
and serialisable_all :: "pyval list \<Rightarrow> bool"
and serialisable_items :: "(pykey \<times> pyval) list \<Rightarrow> bool" where
  "serialisable (PSeq k xs) = (k \<noteq> Abstract \<and> serialisable_all xs)"
| "serialisable (PMap k items) = (k \<noteq> Abstract \<and> serialisable_items items)"
| "serialisable _ = True"
| "serialisable_all [] = True"
| "serialisable_all (x # xs) = (serialisable x \<and> serialisable_all xs)"
| "serialisable_items [] = True"
| "serialisable_items ((k, v) # items) = (serialisable v \<and> serialisable_items items)"

end
