(* ===== verification/Canonical_Facts.thy ===== *)
theory Canonical_Facts
  imports Canonical
begin

text \<open>
  Correctness of the canonical encoding: the fast validation path accepts nothing the diagnostic
  validator refuses, the encoder only ever raises \<open>CanonicalizationError\<close>, the bytes depend on the
  content of a value only and determine it, and the reader accepts exactly the encoder's outputs.
\<close>

section \<open>Validation\<close>

lemma no_surrogate_validate: "no_surrogate s \<longleftrightarrow> validate_string s = Inr ()"
  by (auto simp: no_surrogate_def validate_string_def)

lemma ascii_no_surrogate: "isascii s \<Longrightarrow> \<not> list_ex is_surrogate s"
  by (induction s) (auto simp: isascii_def is_surrogate_def)

lemma validate_string_iff: "validate_string s = Inr () \<longleftrightarrow> \<not> list_ex is_surrogate s"
  by (auto simp: validate_string_def dest: ascii_no_surrogate)

lemma builtin_validates:
  "is_restricted_builtin v \<Longrightarrow> validate_restricted_value_with_path v = Inr ()"
  "builtin_all vs \<Longrightarrow> validate_all vs = Inr ()"
  "builtin_items items \<Longrightarrow> validate_items items = Inr ()"
  by (induction v and vs and items rule: is_restricted_builtin_builtin_all_builtin_items.induct)
    (auto simp: no_surrogate_validate split: pykey.splits)

lemma builtin_serialisable:
  "is_restricted_builtin v \<Longrightarrow> serialisable v"
  "builtin_all vs \<Longrightarrow> serialisable_all vs"
  "builtin_items items \<Longrightarrow> serialisable_items items"
  by (induction v and vs and items rule: is_restricted_builtin_builtin_all_builtin_items.induct)
    (auto split: pykey.splits)

lemma validate_raises:
  "validate_restricted_value_with_path v = Inl e \<Longrightarrow> exn_class_of e = CanonicalizationError"
  "validate_all vs = Inl e \<Longrightarrow> exn_class_of e = CanonicalizationError"
  "validate_items items = Inl e \<Longrightarrow> exn_class_of e = CanonicalizationError"
  by (induction v and vs and items
      rule: validate_restricted_value_with_path_validate_all_validate_items.induct)
    (auto simp: res_bind_Inl_iff require_Inl_iff validate_string_def canonicalization_error_def
      split: pykey.splits if_splits)

lemma validate_restricted_value_Inr:
  "validate_restricted_value v = Inr b \<longleftrightarrow>
     validate_restricted_value_with_path v = Inr () \<and> b = is_restricted_builtin v"
  by (auto simp: validate_restricted_value_def res_simps builtin_validates)

section \<open>The encoder writes the content\<close>

lemma sort_key_map_snd:
  "sort_key fst (map (\<lambda>p. (fst p, f (snd p))) ps) = map (\<lambda>p. (fst p, f (snd p))) (sort_key fst ps)"
proof -
  have ins: "insort_key fst (fst q, f (snd q)) (map (\<lambda>p. (fst p, f (snd p))) ps)
      = map (\<lambda>p. (fst p, f (snd p))) (insort_key fst q ps)" for q ps
    by (induction ps) auto
  show ?thesis by (induction ps) (simp_all add: ins)
qed

lemma dumps_view:
  "validate_restricted_value_with_path v = Inr () \<Longrightarrow> serialisable v \<Longrightarrow>
     json_dumps v = Inr (json_text (view v))"
  "validate_all vs = Inr () \<Longrightarrow> serialisable_all vs \<Longrightarrow>
     dumps_all vs = Inr (map json_text (view_list vs))"
  "validate_items items = Inr () \<Longrightarrow> serialisable_items items \<Longrightarrow>
     dumps_items items = Inr (map (\<lambda>p. (fst p, json_text (snd p))) (view_items items))"
  by (induction v and vs and items
      rule: validate_restricted_value_with_path_validate_all_validate_items.induct)
    (auto simp: res_simps sort_key_map_snd comp_def split: pykey.splits)

lemma dumps_Inr_serialisable:
  "json_dumps v = Inr t \<Longrightarrow> serialisable v"
  "dumps_all vs = Inr ts \<Longrightarrow> serialisable_all vs"
  "dumps_items items = Inr us \<Longrightarrow> serialisable_items items"
  by (induction v and vs and items arbitrary: t and ts and us
      rule: json_dumps_dumps_all_dumps_items.induct)
    (auto simp: res_simps split: pykey.splits)

section \<open>Scalar text\<close>

definition scalar :: "nat \<Rightarrow> bool" where
  "scalar c = (c < 0x110000 \<and> \<not> is_surrogate c)"

definition scalar_text :: "cps \<Rightarrow> bool" where
  "scalar_text s = (\<forall>c \<in> set s. scalar c)"

fun json_normal :: "json \<Rightarrow> bool" where
  "json_normal (JFloat t) = False"
| "json_normal (JStr s) = scalar_text s"
| "json_normal (JArr xs) = (\<forall>x \<in> set xs. json_normal x)"
| "json_normal (JObj ps) =
     (sorted (map fst ps) \<and> distinct (map fst ps)
      \<and> (\<forall>p \<in> set ps. scalar_text (fst p) \<and> json_normal (snd p)))"
| "json_normal _ = True"

lemma scalar_text_simps [simp]:
  "scalar_text []"
  "scalar_text (c # s) \<longleftrightarrow> scalar c \<and> scalar_text s"
  "scalar_text (s @ t) \<longleftrightarrow> scalar_text s \<and> scalar_text t"
  by (auto simp: scalar_text_def)

lemma scalar_small [simp]: "c < 0xD800 \<Longrightarrow> scalar c"
  by (simp add: scalar_def is_surrogate_def)

lemma wf_validated_scalar: "wf_text s \<Longrightarrow> validate_string s = Inr () \<Longrightarrow> scalar_text s"
  by (auto simp: wf_text_def validate_string_iff scalar_text_def scalar_def list_all_iff list_ex_iff)

lemma view_list_map: "view_list vs = map view vs"
  by (induction vs) simp_all

lemma sort_key_distinct_keys:
  "distinct (map fst ps) \<Longrightarrow> distinct (map fst (sort_key fst ps))"
  by (simp add: distinct_map)

lemma view_normal:
  "validate_restricted_value_with_path v = Inr () \<Longrightarrow> wf_pyval v \<Longrightarrow> json_normal (view v)"
  "validate_all vs = Inr () \<Longrightarrow> wf_list vs \<Longrightarrow> \<forall>x \<in> set (view_list vs). json_normal x"
  "validate_items items = Inr () \<Longrightarrow> wf_items items \<Longrightarrow>
     \<forall>p \<in> set (view_items items). scalar_text (fst p) \<and> json_normal (snd p)"
  by (induction v and vs and items
      rule: validate_restricted_value_with_path_validate_all_validate_items.induct)
    (auto simp: res_simps wf_validated_scalar sort_key_distinct_keys split: pykey.splits)

lemma scalar_escape: "scalar c \<Longrightarrow> scalar_text (escape_char c)"
proof -
  have "hex_cp n < 0xD800" if "n < 16" for n using that by (simp add: hex_cp_def)
  moreover assume "scalar c"
  ultimately show ?thesis by (auto simp: escape_char_def)
qed

lemma scalar_concat_escape: "scalar_text s \<Longrightarrow> scalar_text (concat (map escape_char s))"
  by (induction s) (simp_all add: scalar_escape)

lemma scalar_quote: "scalar_text s \<Longrightarrow> scalar_text (quote s)"
  by (simp add: quote_def scalar_concat_escape)

lemma nat_repr_digits: "\<forall>c \<in> set (nat_repr n). digit_cp c"
proof (induction n rule: nat_repr.induct)
  case (1 n)
  then show ?case
    by (cases "n < 10") (auto simp: nat_repr.simps [of n] digit_cp_def)
qed

lemma scalar_int_repr: "scalar_text (int_repr n)"
proof -
  have "scalar_text (nat_repr m)" for m
    using nat_repr_digits [of m] by (auto simp: scalar_text_def digit_cp_def)
  then show ?thesis by (simp add: int_repr_def)
qed

lemma scalar_join: "(\<forall>t \<in> set ts. scalar_text t) \<Longrightarrow> scalar_text (join_comma ts)"
  by (induction ts rule: join_comma.induct) simp_all

lemma scalar_json_text: "json_normal j \<Longrightarrow> scalar_text (json_text j)"
proof (induction j)
  case (JArr xs)
  then show ?case by (auto intro!: scalar_join)
next
  case (JObj ps)
  then have "\<forall>p \<in> set ps. scalar_text (member_text (fst p, json_text (snd p)))"
    by (auto simp: member_text_def scalar_quote prod_set_defs)
  then show ?case by (auto intro!: scalar_join)
qed (auto simp: null_text_def true_text_def false_text_def scalar_int_repr scalar_quote)

lemma utf8_encode_scalar: "scalar_text s \<Longrightarrow> utf8_encode s = Inr (concat (map utf8_char s))"
  by (auto simp: utf8_encode_def scalar_text_def scalar_def list_ex_iff)

section \<open>UTF-8\<close>

lemma divide_base_64: "c div 4096 * 4096 + c div 64 mod 64 * 64 + c mod 64 = (c::nat)"
proof -
  have "c div 64 div 64 = c div 4096" by (simp add: div_mult2_eq [symmetric])
  then show ?thesis
    using div_mult_mod_eq [of c 64] div_mult_mod_eq [of "c div 64" 64] by linarith
qed

lemma divide_base_64_3:
  "c div 262144 * 262144 + c div 4096 mod 64 * 4096 + c div 64 mod 64 * 64 + c mod 64 = (c::nat)"
proof -
  have "c div 4096 div 64 = c div 262144" by (simp add: div_mult2_eq [symmetric])
  then show ?thesis
    using divide_base_64 [of c] div_mult_mod_eq [of "c div 4096" 64] by linarith
qed

lemma utf8_decode_char:
  assumes "scalar c"
  shows "utf8_decode (utf8_char c @ r) = map_option ((#) c) (utf8_decode r)"
proof -
  consider "c < 0x80" | "0x80 \<le> c" "c < 0x800" | "0x800 \<le> c" "c < 0x10000" | "0x10000 \<le> c" "c < 0x110000"
    using assms unfolding scalar_def by linarith
  then show ?thesis
  proof cases
    case 1
    then show ?thesis by (simp add: utf8_char_def)
  next
    case 2
    then have "2 \<le> c div 64" "c div 64 < 32" by auto
    with 2 show ?thesis by (simp add: utf8_char_def utf8_cont_def)
  next
    case 3
    define x y z where "x = c div 4096" and "y = c div 64 mod 64" and "z = c mod 64"
    have c: "c = x * 4096 + y * 64 + z"
      by (simp add: x_def y_def z_def divide_base_64)
    have "x < 16" "y < 64" "z < 64" using 3 by (auto simp: x_def y_def z_def)
    moreover have "utf8_char c = [0xE0 + x, 0x80 + y, 0x80 + z]"
      using 3 by (simp add: utf8_char_def x_def y_def z_def)
    ultimately show ?thesis
      using 3(1) assms by (simp add: utf8_cont_def Let_def scalar_def flip: c)
  next
    case 4
    define w x y z where "w = c div 262144" and "x = c div 4096 mod 64"
      and "y = c div 64 mod 64" and "z = c mod 64"
    have c: "c = w * 262144 + x * 4096 + y * 64 + z"
      by (simp add: w_def x_def y_def z_def divide_base_64_3)
    have "w < 5" "x < 64" "y < 64" "z < 64" using 4 by (auto simp: w_def x_def y_def z_def)
    moreover have "utf8_char c = [0xF0 + w, 0x80 + x, 0x80 + y, 0x80 + z]"
      using 4 by (simp add: utf8_char_def w_def x_def y_def z_def)
    ultimately show ?thesis
      using 4 by (simp add: utf8_cont_def Let_def flip: c)
  qed
qed

lemma utf8_roundtrip: "scalar_text s \<Longrightarrow> utf8_decode (concat (map utf8_char s)) = Some s"
  by (induction s) (simp_all add: utf8_decode_char)

section \<open>The reader inverts the encoder\<close>

lemma decode_u4_small:
  "c < 32 \<Longrightarrow> decode_u4 (48 # 48 # hex_cp (c div 16) # hex_cp (c mod 16) # r) = Some (c, r)"
proof -
  have h: "hex_value (hex_cp n) = Some n" if "n < 16" for n
    using that by (auto simp: hex_value_def hex_cp_def)
  assume "c < 32"
  then have "c div 16 < 16" by simp
  moreover have "hex_value 48 = Some 0" by (simp add: hex_value_def)
  ultimately show ?thesis by (simp add: h)
qed

lemma scan_escape:
  "scan_string (Suc f) (escape_char c @ r) =
     Option.bind (scan_string f r) (\<lambda>(s, r1). Some (c # s, r1))"
proof -
  have u: "combine_surrogates c r = Some (c, r)" if "c < 32" for r
    using that by (simp add: combine_surrogates_def)
  show ?thesis
    by (auto simp: escape_char_def unescape_def decode_u4_small u simp del: decode_u4.simps)
qed

lemma scan_string_quoted:
  "length s < f \<Longrightarrow> scan_string f (concat (map escape_char s) @ 34 # r) = Some (s, r)"
proof (induction s arbitrary: f)
  case Nil
  then obtain g where "f = Suc g" by (cases f) auto
  then show ?case by simp
next
  case (Cons c s)
  then obtain g where "f = Suc g" "length s < g" by (cases f) auto
  with Cons.IH [of g] show ?case by (simp add: scan_escape)
qed

lemma length_escape: "length s \<le> length (concat (map escape_char s))"
proof (induction s)
  case (Cons c s)
  have "1 \<le> length (escape_char c)" by (simp add: escape_char_def)
  with Cons show ?case by simp
qed simp

definition delimited :: "cps \<Rightarrow> bool" where
  "delimited r = (case r of [] \<Rightarrow> True | c # _ \<Rightarrow> c = 44 \<or> c = 93 \<or> c = 125)"

lemma nat_repr_nonempty: "nat_repr n \<noteq> []"
  by (subst nat_repr.simps) simp

lemma nat_of_digits_snoc: "nat_of_digits (ds @ [d]) = nat_of_digits ds * 10 + (d - 48)"
  by (simp add: nat_of_digits_def)

lemma nat_of_digits_repr: "nat_of_digits (nat_repr n) = n"
proof (induction n rule: nat_repr.induct)
  case (1 n)
  show ?case
  proof (cases "n < 10")
    case True
    then show ?thesis by (simp add: nat_repr.simps [of n] nat_of_digits_def)
  next
    case False
    with 1 show ?thesis by (simp add: nat_repr.simps [of n] nat_of_digits_snoc)
  qed
qed

lemma hd_nat_repr: "0 < n \<Longrightarrow> hd (nat_repr n) \<noteq> 48"
proof (induction n rule: nat_repr.induct)
  case (1 n)
  show ?case
  proof (cases "n < 10")
    case True
    with 1 show ?thesis by (simp add: nat_repr.simps [of n])
  next
    case False
    with 1 show ?thesis by (simp add: nat_repr.simps [of n] nat_repr_nonempty)
  qed
qed

lemma takeWhile_nat_repr:
  "delimited r \<Longrightarrow> takeWhile digit_cp (nat_repr n @ r) = nat_repr n"
  using nat_repr_digits [of n]
  by (auto simp: delimited_def digit_cp_def split: list.splits)

lemma scan_frac_delimited: "delimited r \<Longrightarrow> scan_frac r = []"
  by (auto simp: scan_frac_def delimited_def split: list.splits)

lemma scan_exp_delimited: "delimited r \<Longrightarrow> scan_exp r = []"
  by (auto simp: scan_exp_def delimited_def Let_def split: list.splits)

lemma nat_repr_cases:
  obtains c ds where "nat_repr n = c # ds" "digit_cp c" "c = 48 \<longrightarrow> n = 0 \<and> ds = []"
proof -
  obtain c ds where cds: "nat_repr n = c # ds"
    using nat_repr_nonempty by (cases "nat_repr n") auto
  moreover from cds nat_repr_digits [of n] have "digit_cp c" by simp
  moreover have "n = 0 \<and> ds = []" if "c = 48"
  proof -
    from hd_nat_repr [of n] cds that have "n = 0" by auto
    moreover from this cds have "ds = []" by (simp add: nat_repr.simps [of 0])
    ultimately show ?thesis by simp
  qed
  ultimately show ?thesis using that by blast
qed

lemma scan_number_int: "delimited r \<Longrightarrow> scan_number (int_repr n @ r) = Some (JInt n, r)"
proof -
  assume r: "delimited r"
  obtain c ds where cds: "nat_repr (nat \<bar>n\<bar>) = c # ds" "digit_cp c"
      "c = 48 \<longrightarrow> nat \<bar>n\<bar> = 0 \<and> ds = []"
    by (rule nat_repr_cases [of "nat \<bar>n\<bar>"])
  have tw: "takeWhile digit_cp (c # ds @ r) = c # ds"
    using takeWhile_nat_repr [OF r, of "nat \<bar>n\<bar>"] cds(1) by simp
  have val: "nat_of_digits (c # ds) = nat \<bar>n\<bar>"
    using nat_of_digits_repr [of "nat \<bar>n\<bar>"] cds(1) by simp
  have c: "c \<noteq> 45" using cds(2) by (simp add: digit_cp_def)
  show ?thesis
    using cds c tw val
    by (cases "n < 0"; cases "c = 48")
      (auto simp: int_repr_def scan_number_def scan_sign_def scan_int_def Let_def
        scan_frac_delimited scan_exp_delimited r)
qed

lemma dict_set_new: "k \<notin> fst ` set d \<Longrightarrow> dict_set k v d = d @ [(k, v)]"
  by (induction d) auto

lemma dict_of_pairs_distinct: "distinct (map fst ps) \<Longrightarrow> dict_of_pairs ps = ps"
proof -
  have "distinct (map fst (d @ ps)) \<Longrightarrow> foldl (\<lambda>d (k, v). dict_set k v d) d ps = d @ ps" for d
  proof (induction ps arbitrary: d)
    case (Cons p ps)
    obtain k v where p: "p = (k, v)" by (cases p)
    from Cons.prems p have "k \<notin> fst ` set d" by auto
    then have "dict_set k v d = d @ [p]" by (simp add: p dict_set_new)
    with Cons p show ?case by simp
  qed simp
  from this [of "[]"] show "distinct (map fst ps) \<Longrightarrow> ?thesis" by (simp add: dict_of_pairs_def)
qed

lemma skip_ws_id: "s \<noteq> [] \<Longrightarrow> \<not> json_space (hd s) \<Longrightarrow> skip_ws (s @ r) = s @ r"
  by (cases s) (simp_all add: skip_ws_def)

lemma skip_ws_Cons: "\<not> json_space c \<Longrightarrow> skip_ws (c # r) = c # r"
  by (simp add: skip_ws_def)

lemma json_text_first: "json_normal j \<Longrightarrow> json_text j \<noteq> [] \<and> \<not> json_space (hd (json_text j))"
proof (cases j)
  case (JInt n)
  obtain c ds where cds: "nat_repr (nat \<bar>n\<bar>) = c # ds" "digit_cp c"
    by (rule nat_repr_cases [of "nat \<bar>n\<bar>"])
  then show ?thesis by (auto simp: JInt int_repr_def json_space_def digit_cp_def)
qed (auto simp: null_text_def true_text_def false_text_def quote_def json_space_def)

lemma json_text_not_close: "json_normal j \<Longrightarrow> json_text j = d # u \<Longrightarrow> d \<noteq> 93"
proof (cases j)
  case (JInt n)
  obtain c ds where cds: "nat_repr (nat \<bar>n\<bar>) = c # ds" "digit_cp c"
    by (rule nat_repr_cases [of "nat \<bar>n\<bar>"])
  then show "json_text j = d # u \<Longrightarrow> d \<noteq> 93"
    by (auto simp: JInt int_repr_def digit_cp_def split: if_splits)
qed (auto simp: null_text_def true_text_def false_text_def quote_def split: if_splits)

lemma json_text_length: "json_normal j \<Longrightarrow> 1 \<le> length (json_text j)"
  using json_text_first [of j] by (cases "json_text j") auto

lemma join_comma_first:
  "ts \<noteq> [] \<Longrightarrow> \<forall>t \<in> set ts. t \<noteq> [] \<and> \<not> json_space (hd t) \<Longrightarrow>
     join_comma ts \<noteq> [] \<and> \<not> json_space (hd (join_comma ts))"
  by (induction ts rule: join_comma.induct) auto

lemma hd_join_comma: "t \<noteq> [] \<Longrightarrow> hd (join_comma (t # ts)) = hd t"
  by (cases ts) simp_all

text \<open>Reading a value back under a continuation that starts with a delimiter.\<close>

definition reads_back :: "json \<Rightarrow> bool" where
  "reads_back j = (\<forall>f r. 2 * length (json_text j) \<le> f \<longrightarrow> delimited r \<longrightarrow>
     scan_value f (json_text j @ r) = Some (j, r))"

lemma scan_elems_join:
  assumes "xs \<noteq> []" and "\<forall>x \<in> set xs. json_normal x \<and> reads_back x"
    and "2 * length (join_comma (map json_text xs)) + 1 \<le> f"
  shows "scan_elems f (join_comma (map json_text xs) @ 93 # r) = Some (xs, r)"
  using assms
proof (induction xs arbitrary: f rule: induct_list012)
  case (2 x)
  then obtain g where g: "f = Suc g" "2 * length (json_text x) \<le> g" by (cases f) auto
  with 2 have "scan_value g (json_text x @ 93 # r) = Some (x, 93 # r)"
    by (simp add: reads_back_def delimited_def)
  with g show ?case by (simp add: skip_ws_Cons json_space_def)
next
  case (3 x y zs)
  let ?rest = "join_comma (map json_text (y # zs))"
  from 3(5) obtain g where g: "f = Suc g"
      "2 * length (json_text x) \<le> g" "2 * length ?rest + 1 \<le> g"
    by (cases f) auto
  from 3(4) g have "scan_value g (json_text x @ 44 # ?rest @ 93 # r) = Some (x, 44 # ?rest @ 93 # r)"
    by (simp add: reads_back_def delimited_def)
  moreover have "?rest \<noteq> [] \<and> \<not> json_space (hd ?rest)"
    using 3(4) json_text_first by (intro join_comma_first) auto
  then have "skip_ws (?rest @ 93 # r) = ?rest @ 93 # r"
    using skip_ws_id by blast
  moreover have "scan_elems g (?rest @ 93 # r) = Some (y # zs, r)"
    using 3 g by simp
  ultimately show ?case using g by (simp add: skip_ws_Cons json_space_def)
qed simp

lemma member_text_append:
  "member_text (k, t) @ r = 34 # concat (map escape_char k) @ 34 # 58 # t @ r"
  by (simp add: member_text_def quote_def)

lemma scan_members_step:
  assumes "json_normal v" and "reads_back v" and "delimited r"
    and "2 * length (member_text (k, json_text v)) \<le> f"
  shows "scan_members (Suc f) (member_text (k, json_text v) @ r) =
     (case skip_ws r of
        [] \<Rightarrow> None
      | d # r4 \<Rightarrow>
          if d = 125 then Some ([(k, v)], r4)
          else if d = 44
            then Option.bind (scan_members f (skip_ws r4)) (\<lambda>(ps, r5). Some ((k, v) # ps, r5))
          else None)"
proof -
  have len: "length k < f" "2 * length (json_text v) \<le> f"
    using assms(4) length_escape [of k] by (simp_all add: member_text_def quote_def)
  have "skip_ws (json_text v @ r) = json_text v @ r"
    using json_text_first [OF assms(1)] by (simp add: skip_ws_id)
  moreover have "scan_value f (json_text v @ r) = Some (v, r)"
    using assms(2,3) len by (simp add: reads_back_def)
  moreover have "scan_string f (concat (map escape_char k) @ 34 # 58 # json_text v @ r)
      = Some (k, 58 # json_text v @ r)"
    using len by (simp add: scan_string_quoted)
  ultimately show ?thesis
    by (simp add: member_text_append skip_ws_Cons json_space_def)
qed

lemma scan_members_join:
  assumes "ps \<noteq> []" and "\<forall>p \<in> set ps. json_normal (snd p) \<and> reads_back (snd p)"
    and "2 * length (join_comma (map (\<lambda>p. member_text (fst p, json_text (snd p))) ps)) + 1 \<le> f"
  shows "scan_members f
      (join_comma (map (\<lambda>p. member_text (fst p, json_text (snd p))) ps) @ 125 # r) = Some (ps, r)"
  using assms
proof (induction ps arbitrary: f rule: induct_list012)
  case (2 p)
  then obtain g where g: "f = Suc g" "2 * length (member_text (fst p, json_text (snd p))) \<le> g"
    by (cases f) auto
  with 2 show ?case
    by (simp add: scan_members_step delimited_def skip_ws_Cons json_space_def)
next
  case (3 p q ps)
  let ?t = "\<lambda>p. member_text (fst p, json_text (snd p))"
  let ?rest = "join_comma (map ?t (q # ps))"
  from 3(5) obtain g where g: "f = Suc g"
      "2 * length (?t p) \<le> g" "2 * length ?rest + 1 \<le> g"
    by (cases f) auto
  have "\<forall>t \<in> set (map ?t (q # ps)). t \<noteq> [] \<and> \<not> json_space (hd t)"
    by (auto simp: member_text_def quote_def json_space_def)
  then have "?rest \<noteq> [] \<and> \<not> json_space (hd ?rest)"
    by (intro join_comma_first) simp_all
  then have "skip_ws (?rest @ 125 # r) = ?rest @ 125 # r"
    using skip_ws_id by blast
  moreover have "scan_members g (?rest @ 125 # r) = Some (q # ps, r)"
    using 3 g by simp
  ultimately show ?case
    using 3(4) g by (simp add: scan_members_step delimited_def skip_ws_Cons json_space_def)
qed simp

lemma reads_backI:
  assumes "\<And>f r. 2 * length (json_text j) \<le> Suc f \<Longrightarrow> delimited r \<Longrightarrow>
     scan_value (Suc f) (json_text j @ r) = Some (j, r)"
    and "1 \<le> length (json_text j)"
  shows "reads_back j"
  unfolding reads_back_def
proof (intro allI impI)
  fix f r
  assume "2 * length (json_text j) \<le> f" and "delimited r"
  with assms show "scan_value f (json_text j @ r) = Some (j, r)" by (cases f) auto
qed

lemma reads_back_int: "reads_back (JInt n)"
proof (rule reads_backI)
  fix f r
  assume "delimited r"
  then have num: "scan_number (int_repr n @ r) = Some (JInt n, r)" by (rule scan_number_int)
  obtain c ds where cds: "nat_repr (nat \<bar>n\<bar>) = c # ds" "digit_cp c"
    by (rule nat_repr_cases [of "nat \<bar>n\<bar>"])
  show "scan_value (Suc f) (json_text (JInt n) @ r) = Some (JInt n, r)"
  proof (cases "n < 0")
    case True
    with cds num show ?thesis by (auto simp: int_repr_def digit_cp_def infinity_text_def)
  next
    case False
    with cds num show ?thesis by (auto simp: int_repr_def digit_cp_def)
  qed
qed (use json_text_length [of "JInt n"] in simp)

lemma reads_back_arr:
  assumes "\<forall>x \<in> set xs. json_normal x \<and> reads_back x"
  shows "reads_back (JArr xs)"
proof (rule reads_backI)
  fix f r
  assume f: "2 * length (json_text (JArr xs)) \<le> Suc f"
  show "scan_value (Suc f) (json_text (JArr xs) @ r) = Some (JArr xs, r)"
  proof (cases "xs = []")
    case False
    let ?t = "join_comma (map json_text xs)"
    have first: "?t \<noteq> [] \<and> \<not> json_space (hd ?t)"
      using assms json_text_first False by (intro join_comma_first) auto
    then obtain d u where du: "?t = d # u" by (cases ?t) auto
    obtain x ys where xs: "xs = x # ys" using False by (cases xs) auto
    then have "json_text x = d # tl (json_text x)"
      using du hd_join_comma [of "json_text x" "map json_text ys"] assms json_text_first [of x]
      by (cases "json_text x") auto
    then have "d \<noteq> 93" using assms xs json_text_not_close by auto
    have "scan_elems f (?t @ 93 # r) = Some (xs, r)"
      using assms False f by (intro scan_elems_join) auto
    with du first \<open>d \<noteq> 93\<close> show ?thesis by (simp add: skip_ws_Cons)
  qed (simp add: skip_ws_Cons json_space_def)
qed simp

lemma reads_back_obj:
  assumes "\<forall>p \<in> set ps. json_normal (snd p) \<and> reads_back (snd p)" and "distinct (map fst ps)"
  shows "reads_back (JObj ps)"
proof (rule reads_backI)
  fix f r
  assume f: "2 * length (json_text (JObj ps)) \<le> Suc f"
  show "scan_value (Suc f) (json_text (JObj ps) @ r) = Some (JObj ps, r)"
  proof (cases "ps = []")
    case False
    let ?ts = "map (\<lambda>p. member_text (fst p, json_text (snd p))) ps"
    obtain u where u: "join_comma ?ts = 34 # u"
    proof -
      obtain q qs where "ps = q # qs" using False by (cases ps) auto
      then have "join_comma ?ts \<noteq> [] \<and> hd (join_comma ?ts) = 34"
        using hd_join_comma [of "member_text (fst q, json_text (snd q))"]
        by (cases qs) (simp_all add: member_text_def quote_def)
      then show ?thesis using that by (cases "join_comma ?ts") auto
    qed
    have "scan_members f (join_comma ?ts @ 125 # r) = Some (ps, r)"
      using assms False f by (intro scan_members_join) auto
    with u assms(2) show ?thesis
      by (simp add: skip_ws_Cons json_space_def dict_of_pairs_distinct)
  qed (simp add: skip_ws_Cons json_space_def)
qed simp

lemma json_normal_reads_back: "json_normal j \<Longrightarrow> reads_back j"
proof (induction j)
  case (JStr s)
  show ?case
  proof (rule reads_backI)
    fix f r
    assume "2 * length (json_text (JStr s)) \<le> Suc f"
    then have "length s < f" using length_escape [of s] by (simp add: quote_def)
    then show "scan_value (Suc f) (json_text (JStr s) @ r) = Some (JStr s, r)"
      by (simp add: quote_def scan_string_quoted)
  qed (simp add: quote_def)
next
  case (JArr xs)
  then show ?case by (auto intro!: reads_back_arr)
next
  case (JObj ps)
  then have "\<forall>p \<in> set ps. json_normal (snd p) \<and> reads_back (snd p)"
    by (auto simp: prod_set_defs)
  with JObj show ?case by (auto intro: reads_back_obj)
qed (auto intro!: reads_backI reads_back_int
      simp: scan_word_def null_text_def true_text_def false_text_def)

lemma json_loads_text: "json_normal j \<Longrightarrow> json_loads (json_text j) = Some j"
proof -
  assume j: "json_normal j"
  have "scan_value (2 * length (json_text j) + 2) (json_text j @ []) = Some (j, [])"
    using json_normal_reads_back [OF j, unfolded reads_back_def, rule_format,
        of "2 * length (json_text j) + 2" "[]"] by (simp add: delimited_def)
  moreover have "skip_ws (json_text j) = json_text j"
    using json_text_first [OF j] skip_ws_id [of "json_text j" "[]"] by simp
  ultimately show ?thesis by (simp add: json_loads_def skip_ws_def)
qed

section \<open>Enough fuel\<close>

lemma decode_u4_length: "decode_u4 s = Some (u, r) \<Longrightarrow> length r < length s"
  by (cases s rule: decode_u4.cases) (auto split: option.splits)

lemma combine_surrogates_length: "combine_surrogates u s = Some (x, r) \<Longrightarrow> length r \<le> length s"
  by (auto simp: combine_surrogates_def split: if_splits option.splits dest!: decode_u4_length)

lemma scan_string_length: "scan_string f s = Some (t, r) \<Longrightarrow> length r < length s"
proof (induction f arbitrary: s t r)
  case (Suc f)
  then obtain c r0 where s: "s = c # r0" by (cases s) auto
  show ?case
  proof (cases "c = 92")
    case True
    with Suc.prems s obtain e r1 where r0: "r0 = e # r1" by (cases r0) auto
    show ?thesis
    proof (cases "e = 117")
      case True
      with \<open>c = 92\<close> Suc.prems s r0 obtain u r2 x r3 t' where
        "decode_u4 r1 = Some (u, r2)" "combine_surrogates u r2 = Some (x, r3)"
        "scan_string f r3 = Some (t', r)"
        by (auto simp: bind_eq_Some_conv)
      then show ?thesis
        using Suc.IH [of r3 t' r] decode_u4_length combine_surrogates_length s r0 by fastforce
    next
      case False
      with \<open>c = 92\<close> Suc.prems s r0 obtain t' where "scan_string f r1 = Some (t', r)"
        by (auto simp: bind_eq_Some_conv)
      then show ?thesis using Suc.IH [of r1 t' r] s r0 by simp
    qed
  next
    case False
    with Suc.prems s have "r = r0 \<or> (\<exists>t'. scan_string f r0 = Some (t', r))"
      by (auto simp: bind_eq_Some_conv split: if_splits)
    then show ?thesis using Suc.IH s by fastforce
  qed
qed simp

lemma scan_string_fuel:
  "length s < f \<Longrightarrow> length s < g \<Longrightarrow> scan_string f s = scan_string g s"
proof (induction f arbitrary: g s)
  case (Suc f)
  then obtain h where g: "g = Suc h" by (cases g) auto
  show ?case
  proof (cases s)
    case (Cons c r)
    have eq: "scan_string f r' = scan_string h r'" if "length r' \<le> length r" for r'
      using that Suc g Cons by simp
    have "Option.bind (decode_u4 r1) (\<lambda>(u, r2). Option.bind (combine_surrogates u r2)
          (\<lambda>(x, r3). Option.bind (scan_string f r3) (\<lambda>(s, r4). Some (x # s, r4))))
        = Option.bind (decode_u4 r1) (\<lambda>(u, r2). Option.bind (combine_surrogates u r2)
          (\<lambda>(x, r3). Option.bind (scan_string h r3) (\<lambda>(s, r4). Some (x # s, r4))))"
      if "r = e # r1" for e r1
    proof -
      have "scan_string f r3 = scan_string h r3"
        if "decode_u4 r1 = Some (u, r2)" "combine_surrogates u r2 = Some (x, r3)" for u r2 x r3
        using that \<open>r = e # r1\<close> decode_u4_length [of r1 u r2] combine_surrogates_length [of u r2 x r3]
        by (intro eq) simp
      then show ?thesis by (auto intro!: Option.bind_cong [OF refl])
    qed
    then show ?thesis
      by (simp add: Cons g eq split: list.split)
  qed (simp add: g)
qed simp

lemma skip_ws_length: "length (skip_ws s) \<le> length s"
  by (simp add: skip_ws_def length_dropWhile_le)

lemma skip_ws_tail: "skip_ws s = c # r \<Longrightarrow> length r < length s"
  using skip_ws_length [of s] by simp

lemma scan_word_length: "scan_word w v s = Some (x, r) \<Longrightarrow> w \<noteq> [] \<Longrightarrow> length r < length s"
  by (cases w; cases s) (auto simp: scan_word_def split: if_splits)

lemma scan_int_Nil: "scan_int [] = []"
  by (simp add: scan_int_def)

lemma drop_some_refl: "\<exists>k. xs = drop k xs"
  by (metis drop0)

lemma scan_number_length: "scan_number s = Some (x, r) \<Longrightarrow> length r < length s"
proof -
  define m where "m = length (scan_sign s)"
  define ds where "ds = scan_int (drop m s)"
  assume "scan_number s = Some (x, r)"
  then have "ds \<noteq> []" and "\<exists>k. r = drop k (drop (length ds) (drop m s))"
    unfolding scan_number_def Let_def m_def [symmetric] ds_def [symmetric]
    by (auto split: if_splits simp del: drop_drop simp: drop_some_refl)
  moreover from this(1) have "drop m s \<noteq> []" by (auto simp: scan_int_Nil ds_def)
  ultimately show ?thesis by (cases ds) auto
qed

lemma scan_elems_SomeD:
  assumes "scan_elems (Suc f) s = Some (vs, r)"
  shows "\<exists>x r0 c r1. scan_value f s = Some (x, r0) \<and> skip_ws r0 = c # r1 \<and>
     (r = r1 \<or> (\<exists>ws. scan_elems f (skip_ws r1) = Some (ws, r)))"
proof -
  from assms obtain x r0 where x: "scan_value f s = Some (x, r0)"
    by (auto simp: bind_eq_Some_conv)
  with assms obtain c r1 where c: "skip_ws r0 = c # r1" by (cases "skip_ws r0") auto
  with assms x show ?thesis by (auto simp: bind_eq_Some_conv split: if_splits)
qed

lemma scan_members_SomeD:
  assumes "scan_members (Suc f) s = Some (ps, r)"
  shows "\<exists>q t k r1 c r2 x r3 d r4. s = q # t \<and> scan_string f t = Some (k, r1) \<and>
     skip_ws r1 = c # r2 \<and> scan_value f (skip_ws r2) = Some (x, r3) \<and> skip_ws r3 = d # r4 \<and>
     (r = r4 \<or> (\<exists>qs. scan_members f (skip_ws r4) = Some (qs, r)))"
proof -
  from assms obtain q t k r1 where s: "s = q # t" "q = 34" "scan_string f t = Some (k, r1)"
    by (cases s) (auto simp: bind_eq_Some_conv split: if_splits)
  with assms obtain c r2 where c: "skip_ws r1 = c # r2" "c = 58"
    by (cases "skip_ws r1") (auto split: if_splits)
  with assms s obtain x r3 where x: "scan_value f (skip_ws r2) = Some (x, r3)"
    by (auto simp: bind_eq_Some_conv)
  with assms s c obtain d r4 where d: "skip_ws r3 = d # r4" by (cases "skip_ws r3") auto
  with assms s c x show ?thesis by (auto simp: bind_eq_Some_conv split: if_splits)
qed

lemma scan_lengths:
  "(\<forall>s v r. scan_value f s = Some (v, r) \<longrightarrow> length r < length s) \<and>
   (\<forall>s vs r. scan_elems f s = Some (vs, r) \<longrightarrow> length r < length s) \<and>
   (\<forall>s ps r. scan_members f s = Some (ps, r) \<longrightarrow> length r < length s)"
proof (induction f)
  case (Suc f)
  have v: "length r < length s" if "scan_value f s = Some (v, r)" for s v r
    using Suc that by blast
  have e: "length r < length s" if "scan_elems f s = Some (vs, r)" for s vs r
    using Suc that by blast
  have m: "length r < length s" if "scan_members f s = Some (ps, r)" for s ps r
    using Suc that by blast
  have "length r < length s" if "scan_value (Suc f) s = Some (v, r)" for s v r
  proof (cases s)
    case (Cons c t)
    have "length r < length t"
      if "skip_ws t = d # t1" "scan_members f (d # t1) = Some (ps, r)" for d t1 ps
      using m [OF that(2)] skip_ws_tail [OF that(1)] by simp
    moreover have "length r < length t"
      if "skip_ws t = d # t1" "scan_elems f (d # t1) = Some (vs, r)" for d t1 vs
      using e [OF that(2)] skip_ws_tail [OF that(1)] by simp
    ultimately show ?thesis
      using that scan_word_length [of _ _ "c # t" v r] scan_number_length [of "c # t" v r]
        scan_string_length [of f t _ r]
      by (fastforce simp: Cons bind_eq_Some_conv null_text_def true_text_def false_text_def
          nan_text_def infinity_text_def split: if_splits list.splits dest: skip_ws_tail)
  qed (use that in simp)
  moreover have "length r < length s" if "scan_elems (Suc f) s = Some (vs, r)" for s vs r
  proof -
    from scan_elems_SomeD [OF that] obtain x r0 c r1 where
        x: "scan_value f s = Some (x, r0)" "skip_ws r0 = c # r1"
      and "r = r1 \<or> (\<exists>ws. scan_elems f (skip_ws r1) = Some (ws, r))"
      by blast
    then show ?thesis
      using v [OF x(1)] skip_ws_tail [OF x(2)] e skip_ws_length [of r1] by fastforce
  qed
  moreover have "length r < length s" if "scan_members (Suc f) s = Some (ps, r)" for s ps r
  proof -
    from scan_members_SomeD [OF that] obtain q t k r1 c r2 x r3 d r4 where s: "s = q # t"
      and x: "scan_string f t = Some (k, r1)" "skip_ws r1 = c # r2"
        "scan_value f (skip_ws r2) = Some (x, r3)" "skip_ws r3 = d # r4"
      and "r = r4 \<or> (\<exists>qs. scan_members f (skip_ws r4) = Some (qs, r))"
      by blast
    then show ?thesis
      using scan_string_length [OF x(1)] skip_ws_tail [OF x(2)] v [OF x(3)] skip_ws_tail [OF x(4)]
        skip_ws_length [of r2] m skip_ws_length [of r4] by fastforce
  qed
  ultimately show ?case by blast
qed simp

lemmas scan_value_length = scan_lengths [THEN conjunct1, rule_format]

lemma scan_fuel:
  "(\<forall>s g. 2 * length s < f \<longrightarrow> 2 * length s < g \<longrightarrow> scan_value f s = scan_value g s) \<and>
   (\<forall>s g. 2 * length s + 1 < f \<longrightarrow> 2 * length s + 1 < g \<longrightarrow> scan_elems f s = scan_elems g s) \<and>
   (\<forall>s g. 2 * length s + 1 < f \<longrightarrow> 2 * length s + 1 < g \<longrightarrow> scan_members f s = scan_members g s)"
proof (induction f)
  case (Suc f)
  have v: "scan_value f s = scan_value h s" if "2 * length s < f" "2 * length s < h" for s h
    using Suc that by blast
  have e: "scan_elems f s = scan_elems h s" if "2 * length s + 1 < f" "2 * length s + 1 < h" for s h
    using Suc that by blast
  have m: "scan_members f s = scan_members h s" if "2 * length s + 1 < f" "2 * length s + 1 < h" for s h
    using Suc that by blast
  have "scan_value (Suc f) s = scan_value g s" if "2 * length s < Suc f" "2 * length s < g" for s g
  proof (cases s)
    case (Cons c t)
    with \<open>2 * length s < g\<close> obtain h where
        h: "g = Suc h" "2 * length t < h" "2 * length t + 1 < h"
      by (cases g) auto
    have "scan_members f (d # t1) = scan_members h (d # t1)" if "skip_ws t = d # t1" for d t1
      using skip_ws_tail [OF that] h Cons \<open>2 * length s < Suc f\<close> by (intro m) simp_all
    moreover have "scan_elems f (d # t1) = scan_elems h (d # t1)" if "skip_ws t = d # t1" for d t1
      using skip_ws_tail [OF that] h Cons \<open>2 * length s < Suc f\<close> by (intro e) simp_all
    moreover have "scan_string f t = scan_string h t"
      using h Cons \<open>2 * length s < Suc f\<close> by (intro scan_string_fuel) simp_all
    ultimately show ?thesis by (simp add: Cons h split: list.split)
  qed (use that in \<open>cases g; simp\<close>)
  moreover have "scan_elems (Suc f) s = scan_elems g s"
    if "2 * length s + 1 < Suc f" "2 * length s + 1 < g" for s g
  proof -
    from that obtain h where h: "g = Suc h" "2 * length s < h" by (cases g) auto
    have "scan_elems f (skip_ws r1) = scan_elems h (skip_ws r1)"
      if "scan_value f s = Some (x, r)" "skip_ws r = c # r1" for x r c r1
      using scan_value_length [OF that(1)] skip_ws_tail [OF that(2)] skip_ws_length [of r1] h
        \<open>2 * length s + 1 < Suc f\<close> by (intro e) simp_all
    then show ?thesis
      using v [of s h] h that(1)
      by (auto intro!: Option.bind_cong split: list.split)
  qed
  moreover have "scan_members (Suc f) s = scan_members g s"
    if "2 * length s + 1 < Suc f" "2 * length s + 1 < g" for s g
  proof (cases s)
    case (Cons q t)
    from that Cons obtain h where h: "g = Suc h" "2 * length s < h" by (cases g) auto
    have str: "scan_string f t = scan_string h t"
      using h Cons that by (intro scan_string_fuel) simp_all
    have val: "scan_value f (skip_ws r2) = scan_value h (skip_ws r2)"
      if "scan_string h t = Some (k, r1)" "skip_ws r1 = c # r2" for k r1 c r2
      using scan_string_length [OF that(1)] skip_ws_tail [OF that(2)] skip_ws_length [of r2] h Cons
        \<open>2 * length s + 1 < Suc f\<close> by (intro v) simp_all
    have mem: "scan_members f (skip_ws r4) = scan_members h (skip_ws r4)"
      if "scan_string h t = Some (k, r1)" "skip_ws r1 = c # r2"
        "scan_value h (skip_ws r2) = Some (x, r3)" "skip_ws r3 = d # r4" for k r1 c r2 x r3 d r4
      using scan_string_length [OF that(1)] skip_ws_tail [OF that(2)] skip_ws_length [of r2]
        scan_value_length [OF that(3)] skip_ws_tail [OF that(4)] skip_ws_length [of r4] h Cons
        \<open>2 * length s + 1 < Suc f\<close> by (intro m) simp_all
    show ?thesis
      using str val mem
      by (auto simp: Cons h intro!: Option.bind_cong split: list.split)
  qed (use that in \<open>cases g; simp\<close>)
  ultimately show ?case by blast
qed simp

lemma json_loads_fuel:
  "2 * length s + 2 \<le> f \<Longrightarrow> json_loads s =
     Option.bind (scan_value f (skip_ws s)) (\<lambda>(v, r). if skip_ws r = [] then Some v else None)"
proof -
  assume f: "2 * length s + 2 \<le> f"
  have "scan_value (2 * length s + 2) (skip_ws s) = scan_value f (skip_ws s)"
    using f skip_ws_length [of s] by (intro scan_fuel [THEN conjunct1, rule_format]) simp_all
  then show ?thesis by (simp add: json_loads_def)
qed

section \<open>What the reader returns\<close>

fun json_wf :: "json \<Rightarrow> bool" where
  "json_wf (JStr s) = wf_text s"
| "json_wf (JArr xs) = (\<forall>x \<in> set xs. json_wf x)"
| "json_wf (JObj ps) = (distinct (map fst ps) \<and> (\<forall>p \<in> set ps. wf_text (fst p) \<and> json_wf (snd p)))"
| "json_wf _ = True"

lemma wf_text_simps [simp]:
  "wf_text []"
  "wf_text (c # s) \<longleftrightarrow> c < 0x110000 \<and> wf_text s"
  by (auto simp: wf_text_def)

lemma wf_text_subset: "wf_text s \<Longrightarrow> set r \<subseteq> set s \<Longrightarrow> wf_text r"
  by (auto simp: wf_text_def list_all_iff)

lemma wf_skip_ws: "wf_text s \<Longrightarrow> wf_text (skip_ws s)"
  by (erule wf_text_subset) (auto simp: skip_ws_def dest: set_dropWhileD)

lemma wf_skip_ws_Cons: "wf_text s \<Longrightarrow> skip_ws s = c # r \<Longrightarrow> wf_text r"
  using wf_skip_ws [of s] by simp

lemma dict_set_keys: "fst ` set (dict_set k v d) = insert k (fst ` set d)"
proof (induction d)
  case (Cons p d)
  obtain a b where "p = (a, b)" by (cases p)
  with Cons show ?case by (cases "k = a") (simp_all add: insert_commute)
qed simp

lemma dict_set_distinct: "distinct (map fst d) \<Longrightarrow> distinct (map fst (dict_set k v d))"
proof (induction d)
  case (Cons p d)
  then show ?case by (cases p) (auto simp: dict_set_keys)
qed simp

lemma dict_set_entries: "p \<in> set (dict_set k v d) \<Longrightarrow> p = (k, v) \<or> p \<in> set d"
  by (induction d) (auto split: if_splits)

lemma dict_of_pairs_wf:
  assumes "\<forall>p \<in> set ps. R p"
  shows "distinct (map fst (dict_of_pairs ps)) \<and> (\<forall>p \<in> set (dict_of_pairs ps). R p)"
proof -
  have "distinct (map fst (foldl (\<lambda>d (k, v). dict_set k v d) d ps)) \<and>
      (\<forall>p \<in> set (foldl (\<lambda>d (k, v). dict_set k v d) d ps). R p)"
    if "distinct (map fst d)" "\<forall>p \<in> set d. R p" for d
    using assms that
  proof (induction ps arbitrary: d)
    case (Cons p ps)
    obtain k v where p: "p = (k, v)" by (cases p)
    have R: "R (k, v)" "\<forall>q \<in> set ps. R q" using Cons.prems(1) p by simp_all
    with Cons.prems(3) have "\<forall>q \<in> set (dict_set k v d). R q" using dict_set_entries by metis
    with R Cons.IH [of "dict_set k v d"] dict_set_distinct [OF Cons.prems(2)] p
    show ?case by simp
  qed simp
  from this [of "[]"] show ?thesis by (simp add: dict_of_pairs_def)
qed

lemma hex_value_bound: "hex_value c = Some n \<Longrightarrow> n < 16"
  by (auto simp: hex_value_def split: if_splits)

lemma decode_u4_wf: "decode_u4 s = Some (u, r) \<Longrightarrow> u < 0x10000 \<and> set r \<subseteq> set s"
proof (cases s rule: decode_u4.cases)
  case (1 a b c d t)
  moreover assume "decode_u4 s = Some (u, r)"
  ultimately obtain w x y z where "hex_value a = Some w" "hex_value b = Some x"
      "hex_value c = Some y" "hex_value d = Some z" "u = ((w * 16 + x) * 16 + y) * 16 + z" "r = t"
    by (auto split: option.splits)
  moreover from this have "w < 16" "x < 16" "y < 16" "z < 16" by (simp_all add: hex_value_bound)
  ultimately show ?thesis using 1 by auto
qed auto

lemma combine_surrogates_wf:
  "combine_surrogates u s = Some (x, r) \<Longrightarrow> u < 0x10000 \<Longrightarrow> x < 0x110000 \<and> set r \<subseteq> set s"
  by (auto simp: combine_surrogates_def split: if_splits option.splits dest!: decode_u4_wf
      dest: in_set_dropD)

lemma scan_string_wf:
  "scan_string f s = Some (t, r) \<Longrightarrow> wf_text s \<Longrightarrow> wf_text t \<and> wf_text r"
proof (induction f arbitrary: s t r)
  case (Suc f)
  then obtain c r0 where s: "s = c # r0" by (cases s) auto
  show ?case
  proof (cases "c = 92")
    case True
    with Suc.prems s obtain e r1 where r0: "r0 = e # r1" by (cases r0) auto
    show ?thesis
    proof (cases "e = 117")
      case True
      with \<open>c = 92\<close> Suc.prems s r0 obtain u r2 x r3 t' where
        1: "decode_u4 r1 = Some (u, r2)" "combine_surrogates u r2 = Some (x, r3)"
        "scan_string f r3 = Some (t', r)" "t = x # t'"
        by (auto simp: bind_eq_Some_conv)
      then have "x < 0x110000" "set r3 \<subseteq> set r1"
        using decode_u4_wf [OF 1(1)] combine_surrogates_wf [OF 1(2)] by auto
      then show ?thesis
        using Suc.IH [OF 1(3)] Suc.prems(2) wf_text_subset [of r1 r3] s r0 1(4) by simp
    next
      case False
      with \<open>c = 92\<close> Suc.prems s r0 obtain x t' where
        "unescape e = Some x" "scan_string f r1 = Some (t', r)" "t = x # t'"
        by (auto simp: bind_eq_Some_conv)
      then show ?thesis
        using Suc.IH [of r1 t' r] Suc.prems(2) s r0
        by (auto simp: unescape_def split: if_splits)
    qed
  next
    case False
    with Suc.prems s have "r = r0 \<and> t = [] \<or> (\<exists>t'. t = c # t' \<and> scan_string f r0 = Some (t', r))"
      by (auto simp: bind_eq_Some_conv split: if_splits)
    then show ?thesis using Suc.IH Suc.prems(2) s by auto
  qed
qed simp

lemma scan_number_wf: "scan_number s = Some (x, r) \<Longrightarrow> wf_text s \<Longrightarrow> json_wf x \<and> wf_text r"
proof -
  assume "scan_number s = Some (x, r)" and s: "wf_text s"
  then have "json_wf x" and "\<exists>k m. r = drop k (drop m (drop (length (scan_sign s)) s))"
    by (auto simp: scan_number_def Let_def split: if_splits simp del: drop_drop)
      (metis drop0)+
  then show ?thesis using wf_text_subset [OF s, of r] by (auto dest: in_set_dropD)
qed

lemma scan_word_wf:
  "scan_word w v s = Some (x, r) \<Longrightarrow> wf_text s \<Longrightarrow> x = v \<and> wf_text r"
  by (auto simp: scan_word_def split: if_splits elim: wf_text_subset dest: in_set_dropD)


lemma scan_value_SomeD:
  assumes "scan_value (Suc f) (c # t) = Some (v, r)"
  shows "(\<exists>u. v = JStr u \<and> scan_string f t = Some (u, r)) \<or>
    (\<exists>d t1. skip_ws t = d # t1 \<and> r = t1 \<and> (v = JObj [] \<or> v = JArr [])) \<or>
    (\<exists>d t1 ps. skip_ws t = d # t1 \<and> scan_members f (d # t1) = Some (ps, r) \<and> v = JObj (dict_of_pairs ps)) \<or>
    (\<exists>d t1 vs. skip_ws t = d # t1 \<and> scan_elems f (d # t1) = Some (vs, r) \<and> v = JArr vs) \<or>
    (\<exists>w x. scan_word w x (c # t) = Some (v, r) \<and> json_wf x) \<or>
    (\<exists>k. r = drop k t \<and> json_wf v) \<or> scan_number (c # t) = Some (v, r)"
proof -
  consider "c = 34" | "c = 123" | "c = 91"
    | "c = 110 \<or> c = 116 \<or> c = 102 \<or> c = 78 \<or> c = 73"
    | "c \<notin> {34, 123, 91, 110, 116, 102, 78, 73}" by auto
  then show ?thesis
  proof cases
    case 1
    with assms show ?thesis by (auto simp: bind_eq_Some_conv)
  next
    case 2
    with assms show ?thesis
      by (cases "skip_ws t") (auto simp: bind_eq_Some_conv split: if_splits)
  next
    case 3
    with assms show ?thesis
      by (cases "skip_ws t") (auto simp: bind_eq_Some_conv split: if_splits)
  next
    case 4
    with assms have "\<exists>w x. scan_word w x (c # t) = Some (v, r) \<and> json_wf x"
      by (elim disjE) (simp; metis json_wf.simps(4,5,7))+
    then show ?thesis by blast
  next
    case 5
    with assms show ?thesis by (auto split: if_splits)
  qed
qed

lemma scan_wf:
  "(\<forall>s v r. scan_value f s = Some (v, r) \<longrightarrow> wf_text s \<longrightarrow> json_wf v \<and> wf_text r) \<and>
   (\<forall>s vs r. scan_elems f s = Some (vs, r) \<longrightarrow> wf_text s \<longrightarrow> (\<forall>v \<in> set vs. json_wf v) \<and> wf_text r) \<and>
   (\<forall>s ps r. scan_members f s = Some (ps, r) \<longrightarrow> wf_text s \<longrightarrow>
      (\<forall>p \<in> set ps. wf_text (fst p) \<and> json_wf (snd p)) \<and> wf_text r)"
proof (induction f)
  case (Suc f)
  have v: "json_wf v \<and> wf_text r" if "scan_value f s = Some (v, r)" "wf_text s" for s v r
    using Suc that by blast
  have e: "(\<forall>v \<in> set vs. json_wf v) \<and> wf_text r" if "scan_elems f s = Some (vs, r)" "wf_text s" for s vs r
    using Suc that by blast
  have m: "(\<forall>p \<in> set ps. wf_text (fst p) \<and> json_wf (snd p)) \<and> wf_text r"
    if "scan_members f s = Some (ps, r)" "wf_text s" for s ps r
    using Suc that by blast
  have "json_wf v \<and> wf_text r" if vr: "scan_value (Suc f) s = Some (v, r)" and s: "wf_text s" for s v r
  proof (cases s)
    case (Cons c t)
    with s have t: "wf_text (c # t)" "wf_text t" by simp_all
    have ws: "wf_text (d # t1)" if "skip_ws t = d # t1" for d t1
      using wf_skip_ws [OF t(2)] that by simp
    have drop: "wf_text (drop k t)" for k
      using t(2) by (rule wf_text_subset) (auto dest: in_set_dropD)
    have mem: "json_wf (JObj (dict_of_pairs ps)) \<and> wf_text r"
      if "scan_members f u = Some (ps, r)" "wf_text u" for u ps
      using m [OF that] dict_of_pairs_wf [of ps "\<lambda>p. wf_text (fst p) \<and> json_wf (snd p)"] by simp
    from scan_value_SomeD [OF vr [unfolded Cons]] show ?thesis
    proof (elim disjE exE conjE)
      fix u assume "v = JStr u" "scan_string f t = Some (u, r)"
      then show ?thesis using scan_string_wf [of f t u r] t by simp
    next
      fix d t1 vs assume "skip_ws t = d # t1" "scan_elems f (d # t1) = Some (vs, r)" "v = JArr vs"
      then show ?thesis using e ws by simp
    next
      fix w x assume "scan_word w x (c # t) = Some (v, r)" "json_wf x"
      then show ?thesis using scan_word_wf t by blast
    next
      assume "scan_number (c # t) = Some (v, r)"
      then show ?thesis using scan_number_wf t by blast
    qed (use ws drop mem in auto)
  qed (use vr in simp)
  moreover have "(\<forall>v \<in> set vs. json_wf v) \<and> wf_text r"
    if vr: "scan_elems (Suc f) s = Some (vs, r)" and s: "wf_text s" for s vs r
  proof -
    from vr obtain x r0 where x: "scan_value f s = Some (x, r0)" by (auto simp: bind_eq_Some_conv)
    with vr obtain c r1 where c: "skip_ws r0 = c # r1" by (cases "skip_ws r0") auto
    with v [OF x s] have "json_wf x" "wf_text (skip_ws r1)" "wf_text r1"
      using wf_skip_ws [of r0] wf_skip_ws [of r1] by simp_all
    with vr x c e [of "skip_ws r1"] show ?thesis
      by (auto simp: bind_eq_Some_conv split: if_splits)
  qed
  moreover have "(\<forall>p \<in> set ps. wf_text (fst p) \<and> json_wf (snd p)) \<and> wf_text r"
    if vr: "scan_members (Suc f) s = Some (ps, r)" and s: "wf_text s" for s ps r
  proof -
    from vr obtain q t k r1 where 1: "s = q # t" "q = 34" "scan_string f t = Some (k, r1)"
      by (cases s) (auto simp: bind_eq_Some_conv split: if_splits)
    with vr obtain c r2 where c: "skip_ws r1 = c # r2" "c = 58"
      by (cases "skip_ws r1") (auto split: if_splits)
    with vr 1 obtain x r3 where x: "scan_value f (skip_ws r2) = Some (x, r3)"
      by (auto simp: bind_eq_Some_conv)
    with vr 1 c obtain d r4 where d: "skip_ws r3 = d # r4" by (cases "skip_ws r3") auto
    have "wf_text k" "wf_text r1" using scan_string_wf [OF 1(3)] s 1(1) by simp_all
    then have "wf_text (skip_ws r2)" using wf_skip_ws_Cons [OF _ c(1)] wf_skip_ws by blast
    then have "json_wf x" "wf_text r3" using v [OF x] by simp_all
    then have "wf_text r4" "wf_text (skip_ws r4)" using wf_skip_ws_Cons [OF _ d] wf_skip_ws by blast+
    moreover have "r = r4 \<and> ps = [(k, x)] \<or>
        (\<exists>qs. ps = (k, x) # qs \<and> scan_members f (skip_ws r4) = Some (qs, r))"
      using vr 1 c x d by (auto simp: bind_eq_Some_conv split: if_splits)
    ultimately show ?thesis using \<open>wf_text k\<close> \<open>json_wf x\<close> m [of "skip_ws r4"] by fastforce
  qed
  ultimately show ?case by blast
qed simp

lemma json_loads_wf: "json_loads s = Some v \<Longrightarrow> wf_text s \<Longrightarrow> json_wf v"
  using scan_wf [THEN conjunct1, rule_format] wf_skip_ws
  by (fastforce simp: json_loads_def bind_eq_Some_conv split: if_splits)

end
