(* ===== verification/Canonical_Props.thy ===== *)
theory Canonical_Props
  imports Canonical_Facts
begin

text \<open>
  The properties of the canonical encoding: it depends on the content of a value and nothing else, it
  can be read back, the reader accepts exactly the canonical encodings, and the digests derived from
  it have the form the rest of the authority expects.
\<close>

section \<open>The encoder and the reader together\<close>

lemma canonical_json_bytes_Inr:
  assumes "wf_pyval v"
  shows "canonical_json_bytes v = Inr b \<longleftrightarrow>
    validate_restricted_value_with_path v = Inr () \<and> serialisable v \<and>
    b = concat (map utf8_char (json_text (view v)))"
proof -
  have "utf8_encode (json_text (view v)) = Inr (concat (map utf8_char (json_text (view v))))"
    if "validate_restricted_value_with_path v = Inr ()"
    using that assms by (simp add: utf8_encode_scalar scalar_json_text view_normal)
  then show ?thesis
    using dumps_Inr_serialisable(1) [of v] dumps_view(1) [of v] assms
    by (auto simp: canonical_json_bytes_def canonical_json_bytes_with_def res_simps
        validate_restricted_value_Inr split: sum.splits option.splits)
qed

lemma py_of_list_map: "py_of_list xs = map py_of_json xs"
  by (induction xs) simp_all

lemma py_of_items_map: "py_of_items ps = map (\<lambda>p. (KStr True (fst p), py_of_json (snd p))) ps"
  by (induction ps) auto

lemma view_items_map:
  "view_items (map (\<lambda>p. (KStr True (fst p), f (snd p))) ps) = map (\<lambda>p. (fst p, view (f (snd p)))) ps"
  by (induction ps) simp_all

lemma wf_list_iff: "wf_list vs \<longleftrightarrow> (\<forall>v \<in> set vs. wf_pyval v)"
  by (induction vs) simp_all

lemma wf_items_map:
  "wf_items (map (\<lambda>p. (KStr True (fst p), f (snd p))) ps) \<longleftrightarrow>
     (\<forall>p \<in> set ps. wf_text (fst p) \<and> wf_pyval (f (snd p)))"
  by (induction ps) auto

lemma py_of_json_wf: "json_wf j \<Longrightarrow> wf_pyval (py_of_json j)"
  by (induction j)
    (auto simp: py_of_list_map py_of_items_map wf_list_iff wf_items_map view_items_map comp_def
      prod_set_defs)

lemma scalar_text_wf: "scalar_text s \<Longrightarrow> wf_text s \<and> validate_string s = Inr ()"
  by (auto simp: scalar_text_def scalar_def wf_text_def validate_string_iff list_all_iff list_ex_iff)

lemma json_normal_wf: "json_normal j \<Longrightarrow> json_wf j"
  by (induction j) (auto simp: scalar_text_wf prod_set_defs)

lemma serialisable_all_iff: "serialisable_all vs \<longleftrightarrow> (\<forall>v \<in> set vs. serialisable v)"
  by (induction vs) simp_all

lemma serialisable_items_map:
  "serialisable_items (map (\<lambda>p. (KStr True (fst p), f (snd p))) ps) \<longleftrightarrow> (\<forall>p \<in> set ps. serialisable (f (snd p)))"
  by (induction ps) auto

lemma py_of_json_serialisable: "serialisable (py_of_json j)"
  by (induction j)
    (auto simp: py_of_list_map py_of_items_map serialisable_all_iff serialisable_items_map prod_set_defs)

lemma view_py_of_json: "json_normal j \<Longrightarrow> view (py_of_json j) = j"
proof (induction j)
  case (JArr xs)
  then show ?case by (simp add: py_of_list_map view_list_map map_idI)
next
  case (JObj ps)
  then have "map (\<lambda>p. (fst p, view (py_of_json (snd p)))) ps = ps"
    by (intro map_idI) (auto simp: prod_set_defs prod_eq_iff)
  moreover have "sort_key fst ps = ps"
    using JObj.prems by (intro sort_key_id_if_sorted) simp
  ultimately show ?case by (simp add: py_of_items_map view_items_map)
qed simp_all

lemma validate_all_iff: "validate_all vs = Inr () \<longleftrightarrow> (\<forall>v \<in> set vs. validate_restricted_value_with_path v = Inr ())"
  by (induction vs) (auto simp: res_simps)

lemma validate_items_map:
  "validate_items (map (\<lambda>p. (KStr True (fst p), f (snd p))) ps) = Inr () \<longleftrightarrow>
     (\<forall>p \<in> set ps. validate_string (fst p) = Inr () \<and> validate_restricted_value_with_path (f (snd p)) = Inr ())"
  by (induction ps) (auto simp: res_simps)

lemma view_validates:
  "validate_restricted_value_with_path v = Inr () \<Longrightarrow>
     validate_restricted_value_with_path (py_of_json (view v)) = Inr ()"
  "validate_all vs = Inr () \<Longrightarrow> \<forall>j \<in> set (view_list vs). validate_restricted_value_with_path (py_of_json j) = Inr ()"
  "validate_items items = Inr () \<Longrightarrow> \<forall>p \<in> set (view_items items).
     validate_string (fst p) = Inr () \<and> validate_restricted_value_with_path (py_of_json (snd p)) = Inr ()"
  by (induction v and vs and items
      rule: validate_restricted_value_with_path_validate_all_validate_items.induct)
    (auto simp: res_simps py_of_list_map py_of_items_map validate_all_iff validate_items_map
      split: pykey.splits)

lemma utf8_decode_wf: "utf8_decode b = Some s \<Longrightarrow> wf_text s"
proof (induction b arbitrary: s rule: utf8_decode.induct)
  case (2 a r)
  then show ?case
    by (fastforce simp: Let_def utf8_cont_def split: if_splits list.splits)
qed simp

lemma decode_canonical_view:
  assumes "wf_pyval v" and "canonical_json_bytes v = Inr b"
  shows "decode_canonical b = Inr (view v)"
proof -
  from assms have v: "validate_restricted_value_with_path v = Inr ()" "serialisable v"
      "b = concat (map utf8_char (json_text (view v)))"
    by (simp_all add: canonical_json_bytes_Inr)
  have n: "json_normal (view v)" using v(1) assms(1) by (rule view_normal)
  have "utf8_decode b = Some (json_text (view v))"
    by (simp add: v(3) utf8_roundtrip scalar_json_text n)
  moreover have "json_loads (json_text (view v)) = Some (view v)"
    using n by (rule json_loads_text)
  moreover have "canonical_json_bytes (py_of_json (view v)) = Inr b"
  proof -
    have w: "wf_pyval (py_of_json (view v))" using n by (simp add: json_normal_wf py_of_json_wf)
    moreover have "validate_restricted_value_with_path (py_of_json (view v)) = Inr ()"
      using v(1) by (rule view_validates)
    ultimately show ?thesis
      by (simp add: canonical_json_bytes_Inr v(3) view_py_of_json n py_of_json_serialisable)
  qed
  ultimately show ?thesis by (simp add: decode_canonical_def)
qed

lemma decode_canonical_sound:
  assumes "decode_canonical b = Inr j"
  shows "\<exists>v. wf_pyval v \<and> canonical_json_bytes v = Inr b \<and> view v = j"
proof -
  from assms obtain s where s: "utf8_decode b = Some s" "json_loads s = Some j"
      and enc: "canonical_json_bytes (py_of_json j) = Inr b"
    by (auto simp: decode_canonical_def res_simps bind_eq_Some_conv)
  have wf: "wf_pyval (py_of_json j)"
    using json_loads_wf [OF s(2)] utf8_decode_wf [OF s(1)] by (blast intro: py_of_json_wf)
  have "decode_canonical b = Inr (view (py_of_json j))"
    using wf enc by (rule decode_canonical_view)
  with assms have "view (py_of_json j) = j" by simp
  with wf enc show ?thesis by blast
qed

lemma sum_cases_Inl: "(\<And>x. m \<noteq> Inr x) \<Longrightarrow> \<exists>e. m = Inl e"
  by (cases m) auto

lemma hex_digits_all: "s \<noteq> [] \<Longrightarrow> \<forall>c \<in> set s. is_lower_hex c \<Longrightarrow> hex_digits_ok s"
proof (induction s rule: hex_digits_ok.induct)
  case (3 c d r)
  then have "d \<noteq> CHR ''_''" by (auto simp: is_lower_hex_def)
  with 3 show ?case by (simp add: is_hex_def)
qed (simp_all add: is_hex_def)

lemma lower_hex_plain:
  "is_lower_hex c \<Longrightarrow> \<not> is_space c \<and> lower_char c = c \<and> c \<noteq> CHR ''x'' \<and> c \<noteq> CHR ''X''
     \<and> c \<noteq> CHR ''+'' \<and> c \<noteq> CHR ''-''"
  by (auto simp: is_lower_hex_def is_space_def lower_char_def Let_def)

lemma int_base16_lower_hex:
  assumes "s \<noteq> []" and h: "\<forall>c \<in> set s. is_lower_hex c"
  shows "int_base16_ok s"
proof -
  have "strip s = s" using h lower_hex_plain by (blast intro: strip_id)
  moreover have "drop_sign s = s"
    using h lower_hex_plain by (cases s) (auto simp: drop_sign_def)
  moreover have "drop_hex_prefix s = s"
    using h lower_hex_plain by (auto simp: drop_hex_prefix_def split: list.splits)
  ultimately show ?thesis using hex_digits_all assms by (simp add: int_base16_ok_def)
qed

definition digest_text :: "string \<Rightarrow> bool" where
  "digest_text d = (\<exists>h. d = ''sha256:'' @ h \<and> length h = 64 \<and> (\<forall>c \<in> set h. is_lower_hex c))"

lemma digest_text_accepted: "digest_text d \<Longrightarrow> validate_sha256_digest d = Inr d"
proof -
  assume "digest_text d"
  then obtain h where d: "d = ''sha256:'' @ h" and h: "length h = 64" "\<forall>c \<in> set h. is_lower_hex c"
    by (auto simp: digest_text_def)
  have plain: "\<not> is_space c \<and> lower_char c = c" if "c \<in> set d" for c
  proof -
    from that consider "c \<in> set ''sha256:''" | "c \<in> set h" by (auto simp: d)
    then show ?thesis
    proof cases
      case 1
      then show ?thesis by (auto simp: is_space_def lower_char_def Let_def)
    next
      case 2
      then show ?thesis using h(2) lower_hex_plain by blast
    qed
  qed
  then have "strip d = d" "lower d = d" by (simp_all add: strip_id lower_id)
  moreover have "int_base16_ok h" using h by (intro int_base16_lower_hex) auto
  ultimately show ?thesis using h(1) by (simp add: validate_sha256_digest_def d)
qed

lemma digest_bytes_text: "digest_text (digest_bytes b)"
  by (auto simp: digest_text_def digest_bytes_def length_hexdigest length_sha256 hexdigest_lower_hex)

section \<open>Properties\<close>

text \<open>
  C31. Two values have the same canonical bytes exactly when they say the same: the concrete collection
  classes and the insertion order of mappings never reach the bytes, and no two contents share them.
\<close>

theorem canonical_bytes_identify_content:
  assumes "wf_pyval v" and "wf_pyval w"
    and "canonical_json_bytes v = Inr b" and "canonical_json_bytes w = Inr c"
  shows "b = c \<longleftrightarrow> view v = view w"
proof
  assume "b = c"
  then show "view v = view w"
    using decode_canonical_view [OF assms(1,3)] decode_canonical_view [OF assms(2,4)] by simp
next
  assume "view v = view w"
  moreover have "b = concat (map utf8_char (json_text (view v)))"
    using canonical_json_bytes_Inr [OF assms(1), of b] assms(3) by blast
  moreover have "c = concat (map utf8_char (json_text (view w)))"
    using canonical_json_bytes_Inr [OF assms(2), of c] assms(4) by blast
  ultimately show "b = c" by simp
qed

definition sample_v :: pyval where
  "sample_v = PMap Exact [(KStr True [98], PNone), (KStr False [97], PSeq Subclass [])]"

definition sample_w :: pyval where
  "sample_w = PMap Subclass [(KStr True [97], PSeq Exact []), (KStr True [98], PNone)]"

lemma sample_bytes:
  "canonical_json_bytes sample_v = Inr [123, 34, 97, 34, 58, 91, 93, 44, 34, 98, 34, 58, 110, 117, 108, 108, 125]"
  "canonical_json_bytes sample_w = Inr [123, 34, 97, 34, 58, 91, 93, 44, 34, 98, 34, 58, 110, 117, 108, 108, 125]"
  by (simp_all add: sample_v_def sample_w_def canonical_json_bytes_Inr wf_text_def validate_string_def
      isascii_def res_simps json_text.simps member_text_def quote_def escape_char_def null_text_def
      utf8_char_def)

theorem canonical_bytes_identify_content_witness:
  "wf_pyval sample_v \<and> wf_pyval sample_w \<and> view sample_v = view sample_w"
proof -
  have "wf_pyval sample_v" "wf_pyval sample_w"
    by (simp_all add: sample_v_def sample_w_def wf_text_def)
  then show ?thesis
    using canonical_bytes_identify_content [OF _ _ sample_bytes] by simp
qed

text \<open>
  C32. The reader of stored JSON accepts a byte string exactly when it is the canonical encoding of some
  value, and then returns the content of that value.
\<close>

theorem decode_canonical_accepts:
  "decode_canonical b = Inr j \<longleftrightarrow> (\<exists>v. wf_pyval v \<and> canonical_json_bytes v = Inr b \<and> view v = j)"
  using decode_canonical_sound decode_canonical_view by blast

text \<open>
  Every digest the encoder produces is accepted, unchanged, by the digest validator: the prefix
  "sha256:" and 64 lower-case hexadecimal characters.
\<close>

theorem digest_bytes_valid:
  "validate_sha256_digest (digest_bytes b) = Inr (digest_bytes b) \<and> digest_text (digest_bytes b)"
  using digest_text_accepted digest_bytes_text by blast

text \<open>
  The digest validator is laxer than its message: because it reads the digits with \<open>int(x, 16)\<close> it
  accepts a text with a "0x" prefix, which is not 64 hexadecimal characters.
\<close>

theorem validate_sha256_digest_accepts_prefix:
  "validate_sha256_digest (''sha256:0x'' @ replicate 62 (CHR ''a'')) =
     Inr (''sha256:0x'' @ replicate 62 (CHR ''a'')) \<and>
   \<not> digest_text (''sha256:0x'' @ replicate 62 (CHR ''a''))"
proof
  show "validate_sha256_digest (''sha256:0x'' @ replicate 62 (CHR ''a'')) =
     Inr (''sha256:0x'' @ replicate 62 (CHR ''a''))"
    by code_simp
  show "\<not> digest_text (''sha256:0x'' @ replicate 62 (CHR ''a''))"
    by (auto simp: digest_text_def is_lower_hex_def)
qed

end
