(* ===== verification/Authority_Types.thy ===== *)
theory Authority_Types
  imports Canonical_Props
begin

text \<open>
  \<open>src/newsroom/authority/types.py\<close>: the typed scalar values of the authority. A dataclass whose
  \<open>__post_init__\<close> validates is modelled by its data and by a function that raises or returns; the
  \<open>isinstance\<close> tests of the source hold by typing. Typed identifiers are kept as the text the code
  prints, compares and stores; \<open>UUIDv4Id_parse\<close> models \<open>UUID(text)\<close> and \<open>str(uuid)\<close> of the
  standard library to decide which texts are accepted. An instant is a number of microseconds since
  0001-01-01T00:00:00 UTC. \<open>UtcTimestamp.parse\<close> (\<open>datetime.fromisoformat\<close>) is in \<open>Iso_Time\<close>.
\<close>

section \<open>Tokens and scopes\<close>

definition type_error :: "string \<Rightarrow> exn" where
  "type_error m = Exn AuthorityTypeError m"

definition token_char :: "char \<Rightarrow> bool" where
  "token_char c = (is_alpha c \<or> is_digit c \<or> c \<in> set ''_.:-'')"

definition scope_char :: "char \<Rightarrow> bool" where
  "scope_char c = (is_alpha c \<or> is_digit c \<or> c \<in> set ''_./:-'')"

definition token_match :: "string \<Rightarrow> bool" where
  "token_match s =
     (case s of [] \<Rightarrow> False | c # r \<Rightarrow> is_alpha c \<and> list_all token_char r \<and> length r \<le> 127)"

definition scope_match :: "string \<Rightarrow> bool" where
  "scope_match s =
     (case s of [] \<Rightarrow> False
      | c # r \<Rightarrow> (is_alpha c \<or> is_digit c) \<and> list_all scope_char r \<and> length r \<le> 255)"

definition require_token :: "string \<Rightarrow> unit res" where
  "require_token v = require (token_match v) (type_error ''value is not a valid authority token'') (Inr ())"

definition require_scope :: "string \<Rightarrow> unit res" where
  "require_scope v = require (scope_match v) (type_error ''value is not a valid scope token'') (Inr ())"

definition require_tokens :: "string list \<Rightarrow> unit res" where
  "require_tokens vs = for_each require_token vs"

definition require_scopes :: "string list \<Rightarrow> unit res" where
  "require_scopes vs = for_each require_scope vs"

text \<open>\<open>value or ""\<close> for an optional string.\<close>

definition or_empty :: "string option \<Rightarrow> string" where
  "or_empty m = (case m of None \<Rightarrow> [] | Some s \<Rightarrow> s)"

section \<open>Identifiers\<close>

definition hex_val :: "char \<Rightarrow> nat" where
  "hex_val c = (let n = of_char c in
     if 48 \<le> n \<and> n \<le> 57 then n - 48 else if 97 \<le> n \<and> n \<le> 102 then n - 87
     else if 65 \<le> n \<and> n \<le> 70 then n - 55 else 0)"

definition hex_nat :: "string \<Rightarrow> nat" where
  "hex_nat s = foldl (\<lambda>n c. n * 16 + hex_val c) 0 s"

text \<open>The value of \<open>int(text, 16)\<close> where it does not raise.\<close>

definition int_base16 :: "string \<Rightarrow> int option" where
  "int_base16 s =
     (if int_base16_ok s
      then (let t = strip s;
                n = int (hex_nat (filter (\<lambda>c. c \<noteq> CHR ''_'') (drop_hex_prefix (drop_sign t))))
            in Some (if take 1 t = ''-'' then - n else n))
      else None)"

fun hex_fixed :: "nat \<Rightarrow> nat \<Rightarrow> string" where
  "hex_fixed 0 n = []"
| "hex_fixed (Suc w) n = hex_fixed w (n div 16) @ [hex_digit (n mod 16)]"

definition hyphenate :: "string \<Rightarrow> string" where
  "hyphenate h = take 8 h @ ''-'' @ take 4 (drop 8 h) @ ''-'' @ take 4 (drop 12 h) @ ''-''
     @ take 4 (drop 16 h) @ ''-'' @ drop 20 h"

text \<open>\<open>str(uuid)\<close> for the 128-bit number of the identifier.\<close>

definition uuid_str :: "nat \<Rightarrow> string" where
  "uuid_str n = hyphenate (hex_fixed 32 n)"

fun remove_all :: "string \<Rightarrow> string \<Rightarrow> string" where
  "remove_all p [] = []"
| "remove_all p (c # s) =
     (if take (length p) (c # s) = p then remove_all p (drop (length p - 1) s) else c # remove_all p s)"

definition strip_braces :: "string \<Rightarrow> string" where
  "strip_braces s =
     (let f = dropWhile (\<lambda>c. c = CHR ''{'' \<or> c = CHR ''}'') in rev (f (rev (f s))))"

text \<open>\<open>uuid.UUID(text)\<close>.\<close>

definition uuid_of_text :: "string \<Rightarrow> nat option" where
  "uuid_of_text s =
     (let h = remove_all ''-'' (strip_braces (remove_all ''uuid:'' (remove_all ''urn:'' s)))
      in if length h \<noteq> 32 then None
         else case int_base16 h of
                None \<Rightarrow> None
              | Some n \<Rightarrow> if 0 \<le> n \<and> n < 2 ^ 128 then Some (nat n) else None)"

definition uuid_version4 :: "nat \<Rightarrow> bool" where
  "uuid_version4 n = (n div 16 ^ 19 mod 16 = 4)"

definition uuid_rfc_4122 :: "nat \<Rightarrow> bool" where
  "uuid_rfc_4122 n = (n div 16 ^ 15 mod 16 div 4 = 2)"

definition UUIDv4Id_post_init :: "nat \<Rightarrow> unit res" where
  "UUIDv4Id_post_init n =
     require (uuid_version4 n \<and> uuid_rfc_4122 n)
       (type_error ''typed identifiers must be RFC 9562 UUIDv4 values'') (Inr ())"

definition UUIDv4Id_parse :: "string \<Rightarrow> string res" where
  "UUIDv4Id_parse value =
     require (value = lower (strip value))
       (type_error ''identifier must be lowercase canonical UUID text'')
     (res_bind (res_of_option (type_error ''identifier is not valid UUID text'') (uuid_of_text value))
       (\<lambda>parsed.
     require (uuid_str parsed = value)
       (type_error ''identifier must use canonical hyphenated UUID text'')
     (res_bind (UUIDv4Id_post_init parsed) (\<lambda>_. Inr (uuid_str parsed)))))"

section \<open>Versions, modes and causation\<close>

definition AggregateVersion_post_init :: "int \<Rightarrow> unit res" where
  "AggregateVersion_post_init v =
     require (0 < v) (type_error ''aggregate version must be positive'') (Inr ())"

datatype TrustScope = OBSERVED | PROPOSED | ADMITTED

fun TrustScope_value :: "TrustScope \<Rightarrow> string" where
  "TrustScope_value OBSERVED = ''OBSERVED''"
| "TrustScope_value PROPOSED = ''PROPOSED''"
| "TrustScope_value ADMITTED = ''ADMITTED''"

datatype PayloadMode = INLINE | OBJECT_ADMISSION | NO_PAYLOAD

fun PayloadMode_value :: "PayloadMode \<Rightarrow> string" where
  "PayloadMode_value INLINE = ''INLINE''"
| "PayloadMode_value OBJECT_ADMISSION = ''OBJECT_ADMISSION''"
| "PayloadMode_value NO_PAYLOAD = ''NO_PAYLOAD''"

definition PayloadMode_of :: "string \<Rightarrow> PayloadMode option" where
  "PayloadMode_of s =
     (if s = ''INLINE'' then Some INLINE
      else if s = ''OBJECT_ADMISSION'' then Some OBJECT_ADMISSION
      else if s = ''NO_PAYLOAD'' then Some NO_PAYLOAD else None)"

datatype CausationKind = COMMAND | EVENT | EXTERNAL

fun CausationKind_value :: "CausationKind \<Rightarrow> string" where
  "CausationKind_value COMMAND = ''COMMAND''"
| "CausationKind_value EVENT = ''EVENT''"
| "CausationKind_value EXTERNAL = ''EXTERNAL''"

record CausationRef =
  cr_kind :: CausationKind
  cr_identifier :: string
  cr_external_system :: "string option"

definition CausationRef_post_init :: "CausationRef \<Rightarrow> unit res" where
  "CausationRef_post_init c =
     require (strip (cr_identifier c) \<noteq> []) (type_error ''causation identifier must be non-empty'')
     (case cr_kind c of
        COMMAND \<Rightarrow>
          res_bind (UUIDv4Id_parse (cr_identifier c)) (\<lambda>_.
          require (cr_external_system c = None)
            (type_error ''command causation cannot name an external system'') (Inr ()))
      | EVENT \<Rightarrow>
          res_bind (UUIDv4Id_parse (cr_identifier c)) (\<lambda>_.
          require (cr_external_system c = None)
            (type_error ''event causation cannot name an external system'') (Inr ()))
      | EXTERNAL \<Rightarrow>
          res_bind (require_token (or_empty (cr_external_system c))) (\<lambda>_.
          require_token (cr_identifier c)))"

section \<open>Time\<close>

text \<open>
  A \<open>datetime\<close> is its local clock reading in microseconds since 0001-01-01T00:00:00 and its offset
  from UTC, if it has one. \<open>astimezone(UTC)\<close> raises when the result leaves the years 1 to 9999.
\<close>

record pydatetime =
  local_us :: int
  utcoffset_us :: "int option"

definition MAX_INSTANT :: int where "MAX_INSTANT = 3652059 * 86400000000"

definition astimezone_utc :: "int \<Rightarrow> int \<Rightarrow> int res" where
  "astimezone_utc l off =
     require (0 \<le> l - off \<and> l - off < MAX_INSTANT) (Exn OverflowError ''date value out of range'')
       (Inr (l - off))"

definition UtcTimestamp_post_init :: "pydatetime \<Rightarrow> int res" where
  "UtcTimestamp_post_init d =
     (case utcoffset_us d of
        None \<Rightarrow> Inl (type_error ''UTC timestamp requires an explicit offset'')
      | Some off \<Rightarrow> astimezone_utc (local_us d) off)"

datatype TimePrecision = EXACT | DATE_ONLY | APPROXIMATE | UNKNOWN | CONFLICTING

datatype temporal_point = Date int | Datetime pydatetime

record TemporalValue =
  temporal :: "temporal_point option"
  precision :: TimePrecision
  conflicting_values :: "string list"

definition TemporalValue_post_init :: "TemporalValue \<Rightarrow> TemporalValue res" where
  "TemporalValue_post_init t =
     (if precision t = UNKNOWN then
        require (temporal t = None \<and> conflicting_values t = [])
          (type_error ''UNKNOWN time cannot carry a value'') (Inr t)
      else if precision t = CONFLICTING then
        require (temporal t = None \<and> \<not> length (conflicting_values t) < 2)
          (type_error ''CONFLICTING time requires at least two retained alternatives'') (Inr t)
      else
        require (conflicting_values t = [])
          (type_error ''conflicting alternatives are valid only for CONFLICTING time'')
        (case temporal t of
           None \<Rightarrow> Inl (type_error ''time requires a value'')
         | Some p \<Rightarrow>
             if precision t = DATE_ONLY then
               (case p of Date d \<Rightarrow> Inr t
                | Datetime d \<Rightarrow> Inl (type_error ''DATE_ONLY time requires a date''))
             else
               (case p of
                  Date d \<Rightarrow> Inl (type_error ''time requires an offset-aware datetime'')
                | Datetime d \<Rightarrow>
                    (case utcoffset_us d of
                       None \<Rightarrow> Inl (type_error ''temporal datetime requires an explicit offset'')
                     | Some off \<Rightarrow>
                         res_bind (astimezone_utc (local_us d) off) (\<lambda>u.
                         Inr (t\<lparr>temporal := Some (Datetime \<lparr>local_us = u, utcoffset_us = Some 0\<rparr>)\<rparr>))))))"

text \<open>
  \<open>isoformat(timespec="microseconds")\<close> with the offset written as Z. The civil date of a day number
  is computed by counting years and months from 0001-01-01.
\<close>

definition is_leap :: "nat \<Rightarrow> bool" where
  "is_leap y = (y mod 4 = 0 \<and> (y mod 100 \<noteq> 0 \<or> y mod 400 = 0))"

definition days_before_year :: "nat \<Rightarrow> nat" where
  "days_before_year y = (let z = y - 1 in z * 365 + z div 4 + z div 400 - z div 100)"

definition month_lengths :: "nat \<Rightarrow> nat list" where
  "month_lengths y = [31, if is_leap y then 29 else 28, 31, 30, 31, 30, 31, 31, 30, 31, 30, 31]"

fun month_day :: "nat \<Rightarrow> nat list \<Rightarrow> nat \<Rightarrow> nat \<times> nat" where
  "month_day m [] d = (m, d + 1)"
| "month_day m (l # ls) d = (if d < l \<or> ls = [] then (m, d + 1) else month_day (m + 1) ls (d - l))"

definition year_of_day :: "nat \<Rightarrow> nat" where
  "year_of_day d =
     (let y = d * 400 div 146097 + 1
      in if d < days_before_year y then y - 1 else if days_before_year (y + 1) \<le> d then y + 1 else y)"

fun dec_fixed :: "nat \<Rightarrow> nat \<Rightarrow> string" where
  "dec_fixed 0 n = []"
| "dec_fixed (Suc w) n = dec_fixed w (n div 10) @ [hex_digit (n mod 10)]"

definition UtcTimestamp_to_text :: "int \<Rightarrow> string" where
  "UtcTimestamp_to_text t =
     (let us = nat t;
          d = us div 86400000000;
          r = us mod 86400000000;
          y = year_of_day d;
          md = month_day 1 (month_lengths y) (d - days_before_year y);
          s = r div 1000000
      in dec_fixed 4 y @ ''-'' @ dec_fixed 2 (fst md) @ ''-'' @ dec_fixed 2 (snd md) @ ''T''
         @ dec_fixed 2 (s div 3600) @ '':'' @ dec_fixed 2 (s div 60 mod 60) @ '':''
         @ dec_fixed 2 (s mod 60) @ ''.'' @ dec_fixed 6 (r mod 1000000) @ ''Z'')"

section \<open>Tokens\<close>

lemma require_token_Inr [res_simps]: "require_token v = Inr u \<longleftrightarrow> token_match v"
  by (simp add: require_token_def require_def)

lemma require_scope_Inr [res_simps]: "require_scope v = Inr u \<longleftrightarrow> scope_match v"
  by (simp add: require_scope_def require_def)

lemma require_tokens_Inr [res_simps]: "require_tokens vs = Inr u \<longleftrightarrow> (\<forall>v \<in> set vs. token_match v)"
  by (simp add: require_tokens_def res_simps)

lemma require_scopes_Inr [res_simps]: "require_scopes vs = Inr u \<longleftrightarrow> (\<forall>v \<in> set vs. scope_match v)"
  by (simp add: require_scopes_def res_simps)

lemma token_match_ne: "token_match v \<Longrightarrow> v \<noteq> []"
  by (auto simp: token_match_def)

section \<open>Identifier texts\<close>

lemma hex_val_digit: "is_lower_hex c \<Longrightarrow> hex_val c < 16 \<and> hex_digit (hex_val c) = c"
proof -
  assume h: "is_lower_hex c"
  have lt: "hex_val c < 16" using h by (auto simp: is_lower_hex_def hex_val_def Let_def)
  then have "(of_char (hex_digit (hex_val c)) :: nat) = of_char c"
    using h by (simp add: hex_digit_code) (auto simp: is_lower_hex_def hex_val_def Let_def)
  then have "hex_digit (hex_val c) = c" by (simp only: of_char_eq_iff)
  with lt show ?thesis by blast
qed

lemma hex_digit_val: "n < 16 \<Longrightarrow> hex_val (hex_digit n) = n"
  by (auto simp: hex_val_def hex_digit_code Let_def)

lemma hex_nat_snoc: "hex_nat (s @ [c]) = hex_nat s * 16 + hex_val c"
  by (simp add: hex_nat_def)

lemma length_hex_fixed [simp]: "length (hex_fixed w n) = w"
  by (induction w arbitrary: n) simp_all

lemma hex_fixed_lower_hex: "c \<in> set (hex_fixed w n) \<Longrightarrow> is_lower_hex c"
  by (induction w arbitrary: n) (auto simp: hex_digit_lower_hex)

lemma hex_fixed_nat: "\<forall>c \<in> set h. is_lower_hex c \<Longrightarrow> hex_fixed (length h) (hex_nat h) = h"
proof (induction h rule: rev_induct)
  case (snoc c h)
  then have "hex_val c < 16" "hex_digit (hex_val c) = c" using hex_val_digit by simp_all
  with snoc show ?case by (simp add: hex_nat_snoc)
qed simp

lemma hex_nat_bound: "\<forall>c \<in> set h. is_lower_hex c \<Longrightarrow> hex_nat h < 16 ^ length h"
proof (induction h rule: rev_induct)
  case (snoc c h)
  then have "hex_val c < 16" "hex_nat h < 16 ^ length h" using hex_val_digit by simp_all
  then show ?case by (simp add: hex_nat_snoc)
qed (simp add: hex_nat_def)

lemma nth_hex_fixed: "i < w \<Longrightarrow> hex_fixed w n ! i = hex_digit (n div 16 ^ (w - 1 - i) mod 16)"
proof (induction w arbitrary: n)
  case (Suc w)
  show ?case
  proof (cases "i = w")
    case True
    then show ?thesis by (simp add: nth_append)
  next
    case False
    with Suc.prems have "i < w" by simp
    then have "Suc (w - 1 - i) = w - i" by simp
    then have "n div 16 div 16 ^ (w - 1 - i) = n div 16 ^ (w - i)"
      by (metis div_mult2_eq power_Suc)
    with \<open>i < w\<close> Suc.IH [of "n div 16"] show ?thesis by (simp add: nth_append)
  qed
qed simp

lemma remove_all_absent: "c \<notin> set s \<Longrightarrow> remove_all (c # p) s = s"
  by (induction s) auto

lemma remove_all_single: "remove_all [c] s = filter (\<lambda>x. x \<noteq> c) s"
  by (induction s) auto

lemma strip_braces_absent:
  assumes "CHR ''{'' \<notin> set s" and "CHR ''}'' \<notin> set s"
  shows "strip_braces s = s"
proof -
  have "dropWhile (\<lambda>c. c = CHR ''{'' \<or> c = CHR ''}'') t = t" if "set t \<subseteq> set s" for t
    using that assms by (cases t) auto
  then show ?thesis by (simp add: strip_braces_def Let_def)
qed

text \<open>The five hyphen-separated groups of a canonical identifier text.\<close>

definition canonical_uuid :: "string \<Rightarrow> bool" where
  "canonical_uuid s = (\<exists>h. s = hyphenate h \<and> length h = 32 \<and> (\<forall>c \<in> set h. is_lower_hex c))"

definition version_char :: "string \<Rightarrow> char" where "version_char s = s ! 14"
definition variant_char :: "string \<Rightarrow> char" where "variant_char s = s ! 19"

lemma filter_id: "\<forall>x \<in> set xs. P x \<Longrightarrow> filter P xs = xs"
  by (induction xs) auto

lemma lower_hex_not: "is_lower_hex c \<Longrightarrow> c \<noteq> CHR ''-'' \<and> c \<noteq> CHR ''u'' \<and> c \<noteq> CHR ''{'' \<and> c \<noteq> CHR ''}'' \<and> c \<noteq> CHR ''_''"
  by (auto simp: is_lower_hex_def)

lemma set_take_drop: "x \<in> set (take n (drop m h)) \<Longrightarrow> x \<in> set h"
  by (meson in_set_dropD in_set_takeD)

lemma hyphenate_parts:
  assumes "length h = 32" and h: "\<forall>c \<in> set h. is_lower_hex c"
  shows "filter (\<lambda>c. c \<noteq> CHR ''-'') (hyphenate h) = h"
    and "\<forall>c \<in> set (hyphenate h). is_lower_hex c \<or> c = CHR ''-''"
    and "hyphenate h ! 14 = h ! 12" and "hyphenate h ! 19 = h ! 16"
proof -
  have f: "filter (\<lambda>c. c \<noteq> CHR ''-'') t = t" if "set t \<subseteq> set h" for t
    using that h lower_hex_not by (intro filter_id) auto
  have "filter (\<lambda>c. c \<noteq> CHR ''-'') (hyphenate h) =
      take 8 h @ take 4 (drop 8 h) @ take 4 (drop 12 h) @ take 4 (drop 16 h) @ drop 20 h"
  proof -
    have "set (take n (drop m h)) \<subseteq> set h" "set (take n h) \<subseteq> set h" "set (drop m h) \<subseteq> set h" for n m
      by (auto dest: in_set_takeD in_set_dropD)
    then show ?thesis unfolding hyphenate_def by (simp add: f del: filter_append) (simp add: f)
  qed
  also have "\<dots> = h"
  proof -
    have step: "take n (drop m h) @ drop (n + m) h = drop m h" for n m
      by (metis append_take_drop_id drop_drop)
    show ?thesis
      using step [of 4 16] step [of 4 12] step [of 4 8] step [of 8 0] by simp
  qed
  finally show "filter (\<lambda>c. c \<noteq> CHR ''-'') (hyphenate h) = h" .
  show "\<forall>c \<in> set (hyphenate h). is_lower_hex c \<or> c = CHR ''-''"
    using h by (auto simp: hyphenate_def dest: in_set_takeD in_set_dropD set_take_drop)
  show "hyphenate h ! 14 = h ! 12" "hyphenate h ! 19 = h ! 16"
    using assms(1) by (simp_all add: hyphenate_def nth_append)
qed

lemma uuid_of_text_canonical:
  assumes "length h = 32" and h: "\<forall>c \<in> set h. is_lower_hex c"
  shows "uuid_of_text (hyphenate h) = Some (hex_nat h)"
proof -
  note parts = hyphenate_parts [OF assms]
  have no: "CHR ''u'' \<notin> set (hyphenate h)" "CHR ''{'' \<notin> set (hyphenate h)"
      "CHR ''}'' \<notin> set (hyphenate h)"
    using parts(2) lower_hex_not by fastforce+
  have body: "remove_all ''-'' (strip_braces (remove_all ''uuid:'' (remove_all ''urn:'' (hyphenate h)))) = h"
    by (simp add: remove_all_absent strip_braces_absent no remove_all_single parts(1))
  have ne: "h \<noteq> []" using assms(1) by auto
  have st: "strip h = h" using h lower_hex_plain by (blast intro: strip_id)
  have sg: "drop_sign h = h" "take (Suc 0) h \<noteq> ''-''"
    using h ne lower_hex_plain by (cases h; fastforce simp: drop_sign_def)+
  have px: "drop_hex_prefix h = h"
    using h lower_hex_plain by (auto simp: drop_hex_prefix_def split: list.splits)
  have fl: "filter (\<lambda>c. c \<noteq> CHR ''_'') h = h" using h lower_hex_not by (intro filter_id) auto
  have "int_base16 h = Some (int (hex_nat h))"
    using int_base16_lower_hex [OF ne h] by (simp add: int_base16_def Let_def st sg px fl)
  moreover have "int (hex_nat h) < 2 ^ 128"
  proof -
    have "hex_nat h < 16 ^ 32" using hex_nat_bound [OF h] assms(1) by simp
    also have "(16::nat) ^ 32 = 2 ^ 128" by simp
    finally show ?thesis by (metis of_nat_less_iff of_nat_numeral of_nat_power)
  qed
  ultimately show ?thesis by (simp add: uuid_of_text_def body assms(1))
qed

lemma hex_digit_eq: "k < 16 \<Longrightarrow> hex_digit k = c \<longleftrightarrow> (if k < 10 then 48 + k else 87 + k) = (of_char c :: nat)"
  by (metis hex_digit_code of_char_eq_iff)

lemma hyphen_plain: "\<not> is_space (CHR ''-'') \<and> lower_char (CHR ''-'') = CHR ''-''"
  by (simp add: is_space_def lower_char_def)

lemma version_digit: "uuid_version4 n \<longleftrightarrow> version_char (uuid_str n) = CHR ''4''"
proof -
  have "version_char (uuid_str n) = hex_digit (n div 16 ^ 19 mod 16)"
    using hyphenate_parts(3) [of "hex_fixed 32 n"] hex_fixed_lower_hex nth_hex_fixed [of 12 32 n]
    by (simp add: version_char_def uuid_str_def)
  moreover have "hex_digit k = CHR ''4'' \<longleftrightarrow> k = 4" if "k < 16" for k
    using that by (simp add: hex_digit_eq)
  ultimately show ?thesis by (simp add: uuid_version4_def)
qed

lemma variant_digit: "uuid_rfc_4122 n \<longleftrightarrow> variant_char (uuid_str n) \<in> set ''89ab''"
proof -
  have "variant_char (uuid_str n) = hex_digit (n div 16 ^ 15 mod 16)"
    using hyphenate_parts(4) [of "hex_fixed 32 n"] hex_fixed_lower_hex nth_hex_fixed [of 16 32 n]
    by (simp add: variant_char_def uuid_str_def)
  moreover have "hex_digit k \<in> set ''89ab'' \<longleftrightarrow> k div 4 = 2" if "k < 16" for k
    using that by (simp add: hex_digit_eq) auto
  ultimately show ?thesis by (simp add: uuid_rfc_4122_def)
qed

lemma UUIDv4Id_parse_Inr:
  "UUIDv4Id_parse s = Inr u \<longleftrightarrow>
     canonical_uuid s \<and> version_char s = CHR ''4'' \<and> variant_char s \<in> set ''89ab'' \<and> u = s"
proof
  assume "UUIDv4Id_parse s = Inr u"
  then obtain n where n: "uuid_str n = s" "uuid_version4 n" "uuid_rfc_4122 n" "u = s"
    by (auto simp: UUIDv4Id_parse_def UUIDv4Id_post_init_def res_simps)
  then show "canonical_uuid s \<and> version_char s = CHR ''4'' \<and> variant_char s \<in> set ''89ab'' \<and> u = s"
    using version_digit [of n] variant_digit [of n] hex_fixed_lower_hex
    unfolding canonical_uuid_def uuid_str_def by (metis length_hex_fixed)
next
  assume a: "canonical_uuid s \<and> version_char s = CHR ''4'' \<and> variant_char s \<in> set ''89ab'' \<and> u = s"
  then obtain h where h: "s = hyphenate h" "length h = 32" "\<forall>c \<in> set h. is_lower_hex c"
    by (auto simp: canonical_uuid_def)
  have "\<forall>c \<in> set s. \<not> is_space c \<and> lower_char c = c"
    using hyphenate_parts(2) [OF h(2,3)] lower_hex_plain hyphen_plain h(1) by metis
  then have "lower (strip s) = s" by (simp add: strip_id lower_id)
  moreover have "uuid_of_text s = Some (hex_nat h)" using uuid_of_text_canonical h by simp
  moreover have "uuid_str (hex_nat h) = s" using hex_fixed_nat [OF h(3)] h by (simp add: uuid_str_def)
  ultimately show "UUIDv4Id_parse s = Inr u"
    using a version_digit [of "hex_nat h"] variant_digit [of "hex_nat h"]
    by (simp add: UUIDv4Id_parse_def UUIDv4Id_post_init_def)
qed

section \<open>Timestamp texts\<close>

lemma length_dec_fixed [simp]: "length (dec_fixed w n) = w"
  by (induction w arbitrary: n) simp_all

lemma hex_digit_inj: "a < 16 \<Longrightarrow> b < 16 \<Longrightarrow> hex_digit a = hex_digit b \<longleftrightarrow> a = b"
  using hex_digit_val by metis

lemma dec_fixed_inj: "dec_fixed w a = dec_fixed w b \<Longrightarrow> a mod 10 ^ w = b mod 10 ^ w"
proof (induction w arbitrary: a b)
  case (Suc w)
  from Suc.prems have "dec_fixed w (a div 10) = dec_fixed w (b div 10)"
      and d: "hex_digit (a mod 10) = hex_digit (b mod 10)" by simp_all
  then have "a div 10 mod 10 ^ w = b div 10 mod 10 ^ w" using Suc.IH by blast
  moreover have "a mod 10 = b mod 10"
    using d hex_digit_inj [of "a mod 10" "b mod 10"] by simp
  ultimately show ?case by (simp add: mod_mult2_eq)
qed simp

lemma dec_fixed_inj_small: "a < 10 ^ w \<Longrightarrow> b < 10 ^ w \<Longrightarrow> dec_fixed w a = dec_fixed w b \<longleftrightarrow> a = b"
  using dec_fixed_inj [of w a b] by auto

lemma month_day_fst: "m \<le> fst (month_day m ls d)"
  by (induction m ls d rule: month_day.induct) auto

lemma month_day_inj: "month_day m ls d = month_day m ls e \<Longrightarrow> d = e"
proof (induction m ls d arbitrary: e rule: month_day.induct)
  case (2 m l ls d)
  have ne: "month_day (m + 1) ls x \<noteq> (m, y)" for x y
    using month_day_fst [of "m + 1" ls x] by (metis fst_conv not_less_eq_eq Suc_eq_plus1 order_refl)
  show ?case
  proof (cases "d < l \<or> ls = []"; cases "e < l \<or> ls = []")
    assume a: "\<not> (d < l \<or> ls = [])" "\<not> (e < l \<or> ls = [])"
    then have "month_day (m + 1) ls (d - l) = month_day (m + 1) ls (e - l)" using "2.prems" by simp
    then have "d - l = e - l" using "2.IH" a(1) by blast
    with a show ?thesis by auto
  qed (use "2.prems" ne in \<open>auto simp: eq_commute\<close>)
qed simp

lemma month_day_bound:
  "ls \<noteq> [] \<Longrightarrow> d < sum_list ls \<Longrightarrow> \<forall>l \<in> set ls. l \<le> 31 \<Longrightarrow>
     fst (month_day m ls d) < m + length ls \<and> snd (month_day m ls d) \<le> 31"
proof (induction m ls d rule: month_day.induct)
  case (2 m l ls d)
  show ?case
  proof (cases "d < l \<or> ls = []")
    case True
    with 2 show ?thesis by auto
  next
    case False
    with "2.IH" "2.prems" show ?thesis by fastforce
  qed
qed simp

lemma year_lower: "days_before_year (year_of_day d) \<le> d"
proof -
  define z where "z = d * 400 div 146097"
  have z: "146097 * z \<le> 400 * d" by (simp add: z_def)
  have "days_before_year z \<le> d" if "d < days_before_year (z + 1)"
  proof (cases z)
    case (Suc k)
    have "(z - 1) * 365 + (z - 1) div 4 + (z - 1) div 400 - (z - 1) div 100 \<le> d"
      using z Suc by simp
    then show ?thesis by (simp add: days_before_year_def Let_def)
  qed (simp add: days_before_year_def)
  then show ?thesis by (auto simp: year_of_day_def Let_def z_def [symmetric])
qed

lemma leap_sum: "146097 * w \<le> 400 * (w * 365 + w div 4 + w div 400 - w div 100) + 699" for w :: nat
proof -
  have "100 * (4 * (w div 4)) + 300 \<ge> 100 * w" "400 * (w div 400) + 399 \<ge> w" "400 * (w div 100) \<le> 4 * w"
    by linarith+
  then show ?thesis by linarith
qed

lemma year_upper: "d < days_before_year (year_of_day d + 1)"
proof -
  define z where "z = d * 400 div 146097"
  have z: "400 * d < 146097 * z + 146097" by (simp add: z_def)
  then have "d < (z + 2) * 365 + (z + 2) div 4 + (z + 2) div 400 - (z + 2) div 100"
    using leap_sum [of "z + 2"] by simp
  then have "d < days_before_year (Suc (Suc (Suc z)))" by (simp add: days_before_year_def)
  then show ?thesis
    by (auto simp: year_of_day_def Let_def z_def [symmetric])
qed

lemma leap_arith:
  "b \<le> a \<Longrightarrow> (m400 \<Longrightarrow> m100) \<Longrightarrow> (m100 \<Longrightarrow> m4) \<Longrightarrow>
   z * 365 + 365 + (if m4 then Suc a else a) + (if m400 then Suc c else c) - (if m100 then Suc b else b)
   = z * 365 + a + c - b + (if m4 \<and> (\<not> m100 \<or> m400) then 366 else 365)" for a b c z :: nat
  by auto

lemma days_before_year_step: "1 \<le> y \<Longrightarrow> days_before_year (y + 1) = days_before_year y + sum_list (month_lengths y)"
proof -
  assume "1 \<le> y"
  then obtain z where y: "y = Suc z" by (cases y) auto
  have m: "Suc z mod 400 = 0 \<Longrightarrow> Suc z mod 100 = 0" "Suc z mod 100 = 0 \<Longrightarrow> Suc z mod 4 = 0"
    using mod_mod_cancel [of 100 400 "Suc z"] mod_mod_cancel [of 4 100 "Suc z"] by simp_all
  have "z div 100 \<le> z div 4" by (intro div_le_mono2) simp_all
  from leap_arith [OF this m] have "z * 365 + 365 + Suc z div 4 + Suc z div 400 - Suc z div 100 =
      z * 365 + z div 4 + z div 400 - z div 100 + (if is_leap y then 366 else 365)"
    unfolding is_leap_def y div_Suc .
  moreover have "sum_list (month_lengths y) = (if is_leap y then 366 else 365)"
    by (simp add: month_lengths_def)
  moreover have "days_before_year (y + 1) = z * 365 + 365 + Suc z div 4 + Suc z div 400 - Suc z div 100"
    unfolding days_before_year_def Let_def y diff_add_inverse2 mult_Suc by (simp only: ac_simps)
  moreover have "days_before_year y = z * 365 + z div 4 + z div 400 - z div 100"
    by (simp only: days_before_year_def Let_def y diff_Suc_1)
  ultimately show ?thesis by (simp only:)
qed

lemma year_bound: "d < 3652059 \<Longrightarrow> year_of_day d < 10000"
proof (rule ccontr)
  assume d: "d < 3652059" and "\<not> year_of_day d < 10000"
  then obtain k where k: "year_of_day d = 10000 + k" using le_Suc_ex by (metis not_less)
  have "3652059 \<le> (9999 + k) * 365 + (9999 + k) div 4 + (9999 + k) div 400 - (9999 + k) div 100"
    using leap_sum [of "9999 + k"] by simp
  then have "3652059 \<le> days_before_year (10000 + k)" by (simp add: days_before_year_def Let_def)
  with year_lower [of d] d k show False by simp
qed

lemma year_pos: "1 \<le> year_of_day d"
proof (rule ccontr)
  assume "\<not> 1 \<le> year_of_day d"
  then have "year_of_day d = 0" by simp
  then show False using year_upper [of d] by (simp add: days_before_year_def)
qed

lemma day_offset_bounds:
  "fst (month_day 1 (month_lengths (year_of_day d)) (d - days_before_year (year_of_day d))) < 100"
  "snd (month_day 1 (month_lengths (year_of_day d)) (d - days_before_year (year_of_day d))) < 100"
proof -
  let ?y = "year_of_day d"
  have "d - days_before_year ?y < sum_list (month_lengths ?y)"
    using year_lower [of d] year_upper [of d] days_before_year_step [OF year_pos, of d] by linarith
  moreover have "month_lengths ?y \<noteq> []" "\<forall>l \<in> set (month_lengths ?y). l \<le> 31" "length (month_lengths ?y) = 12"
    by (auto simp: month_lengths_def)
  ultimately show "fst (month_day 1 (month_lengths ?y) (d - days_before_year ?y)) < 100"
    "snd (month_day 1 (month_lengths ?y) (d - days_before_year ?y)) < 100"
    using month_day_bound [of "month_lengths ?y" "d - days_before_year ?y" 1] by auto
qed

lemma civil_inj:
  assumes "year_of_day d = year_of_day e"
    and "month_day 1 (month_lengths (year_of_day d)) (d - days_before_year (year_of_day d)) =
      month_day 1 (month_lengths (year_of_day e)) (e - days_before_year (year_of_day e))"
  shows "d = e"
proof -
  have "d - days_before_year (year_of_day d) = e - days_before_year (year_of_day d)"
    using assms month_day_inj by simp
  then show ?thesis using year_lower [of d] year_lower [of e] assms(1) eq_diff_iff by metis
qed

lemma div_mod_eqI: "a div n = b div n \<Longrightarrow> a mod n = b mod n \<Longrightarrow> a = b" for a b n :: nat
  by (metis div_mult_mod_eq)

lemma clock_parts:
  fixes s t :: nat
  assumes "s div 3600 = t div 3600" and "s div 60 mod 60 = t div 60 mod 60" and "s mod 60 = t mod 60"
  shows "s = t"
proof -
  have "x div 60 div 60 = x div 3600" for x :: nat using div_mult2_eq [of x 60 60] by simp
  then have "s div 60 div 60 = t div 60 div 60" using assms(1) by (simp only:)
  then have "s div 60 = t div 60" using assms(2) by (rule div_mod_eqI)
  then show ?thesis using assms(3) by (rule div_mod_eqI)
qed

lemma text_parts:
  "dec_fixed 4 y @ ''-'' @ dec_fixed 2 m @ ''-'' @ dec_fixed 2 d @ ''T'' @ dec_fixed 2 h @ '':''
     @ dec_fixed 2 i @ '':'' @ dec_fixed 2 s @ ''.'' @ dec_fixed 6 u @ ''Z''
   = dec_fixed 4 y' @ ''-'' @ dec_fixed 2 m' @ ''-'' @ dec_fixed 2 d' @ ''T'' @ dec_fixed 2 h' @ '':''
     @ dec_fixed 2 i' @ '':'' @ dec_fixed 2 s' @ ''.'' @ dec_fixed 6 u' @ ''Z'' \<longleftrightarrow>
   dec_fixed 4 y = dec_fixed 4 y' \<and> dec_fixed 2 m = dec_fixed 2 m' \<and> dec_fixed 2 d = dec_fixed 2 d' \<and>
   dec_fixed 2 h = dec_fixed 2 h' \<and> dec_fixed 2 i = dec_fixed 2 i' \<and> dec_fixed 2 s = dec_fixed 2 s' \<and>
   dec_fixed 6 u = dec_fixed 6 u'"
  by simp

lemma UtcTimestamp_to_text_inj:
  assumes a: "0 \<le> a" "a < MAX_INSTANT" and b: "0 \<le> b" "b < MAX_INSTANT"
    and eq: "UtcTimestamp_to_text a = UtcTimestamp_to_text b"
  shows "a = b"
proof -
  let ?D = "\<lambda>t. nat t div 86400000000"
  let ?R = "\<lambda>t. nat t mod 86400000000"
  let ?S = "\<lambda>t. ?R t div 1000000"
  let ?Y = "\<lambda>t. year_of_day (?D t)"
  let ?M = "\<lambda>t. month_day 1 (month_lengths (?Y t)) (?D t - days_before_year (?Y t))"
  have D: "?D t < 3652059" if "0 \<le> t" "t < MAX_INSTANT" for t
    using that by (simp add: MAX_INSTANT_def)
  have S: "?S t < 86400" for t by (simp add: div_less_iff_less_mult)
  have e: "dec_fixed 4 (?Y a) = dec_fixed 4 (?Y b)"
      "dec_fixed 2 (fst (?M a)) = dec_fixed 2 (fst (?M b))"
      "dec_fixed 2 (snd (?M a)) = dec_fixed 2 (snd (?M b))"
      "dec_fixed 2 (?S a div 3600) = dec_fixed 2 (?S b div 3600)"
      "dec_fixed 2 (?S a div 60 mod 60) = dec_fixed 2 (?S b div 60 mod 60)"
      "dec_fixed 2 (?S a mod 60) = dec_fixed 2 (?S b mod 60)"
      "dec_fixed 6 (?R a mod 1000000) = dec_fixed 6 (?R b mod 1000000)"
    using eq unfolding UtcTimestamp_to_text_def Let_def text_parts by (simp_all only:)
  have "?Y a = ?Y b" using e(1) year_bound [OF D [OF a]] year_bound [OF D [OF b]] by (simp add: dec_fixed_inj_small)
  moreover have "?M a = ?M b" using e(2,3) day_offset_bounds [of "?D a"] day_offset_bounds [of "?D b"]
    by (simp add: dec_fixed_inj_small prod_eq_iff)
  ultimately have d: "?D a = ?D b" by (rule civil_inj)
  have "?S a = ?S b"
  proof (rule clock_parts)
    have "?S t div 3600 < 100" for t using S [of t] by linarith
    then show "?S a div 3600 = ?S b div 3600" using e(4) by (simp add: dec_fixed_inj_small)
    have "x mod 60 < 10 ^ 2" for x :: nat by (rule less_trans [OF mod_less_divisor]) simp_all
    then show "?S a div 60 mod 60 = ?S b div 60 mod 60" "?S a mod 60 = ?S b mod 60"
      using dec_fixed_inj_small e(5,6) by blast+
  qed
  moreover have "?R a mod 1000000 = ?R b mod 1000000" using e(7) by (simp add: dec_fixed_inj_small)
  ultimately have "?R a = ?R b" by (rule div_mod_eqI)
  with d have "nat a = nat b" by (rule div_mod_eqI)
  with a b show ?thesis by simp
qed

section \<open>Properties\<close>

text \<open>
  A text is accepted as a typed identifier exactly when it is five groups of lower-case hexadecimal
  digits (8-4-4-4-12) whose version digit is 4 and whose variant digit is 8, 9, a or b; the identifier
  prints as the text it was parsed from. Braces, "urn:" prefixes, capitals and signs are refused.
\<close>

theorem uuid_parse_accepts:
  "UUIDv4Id_parse s = Inr u \<longleftrightarrow>
     canonical_uuid s \<and> version_char s = CHR ''4'' \<and> variant_char s \<in> set ''89ab'' \<and> u = s"
  by (rule UUIDv4Id_parse_Inr)

text \<open>
  The text of an instant identifies it: within the years 1 to 9999 two timestamps that print the
  same are the same, to the microsecond.
\<close>

theorem timestamp_text_identifies_instant:
  assumes "0 \<le> a" and "a < MAX_INSTANT" and "0 \<le> b" and "b < MAX_INSTANT"
  shows "UtcTimestamp_to_text a = UtcTimestamp_to_text b \<longleftrightarrow> a = b"
  using UtcTimestamp_to_text_inj [OF assms] by blast

theorem timestamp_text_identifies_instant_witness:
  "UtcTimestamp_to_text 0 \<noteq> UtcTimestamp_to_text 1"
  using timestamp_text_identifies_instant [of 0 1] by (simp add: MAX_INSTANT_def)

end
