(* ===== verification/Records.thy ===== *)
theory Records
  imports Authority_Types
begin

text \<open>
  How a dataclass becomes a canonical dictionary. Every \<open>canonical_value\<close>/\<open>unsigned_value\<close> method of
  the authority builds a dict of strings, integers, booleans, optional strings and nested dicts; here
  such dicts are written with \<open>obj\<close>, \<open>jtext\<close>, \<open>jnum\<close>, \<open>jflag\<close> and \<open>jopt\<close>. The locale
  \<open>content_addressed\<close> is the interface between a record type and its digest: whoever gives a faithful
  canonical value gets a digest that binds every field up to an explicit SHA-256 collision.
\<close>

section \<open>Dictionaries of text\<close>

definition jtext :: "string \<Rightarrow> pyval" where "jtext s = PStr True (cps_of s)"
definition jnum :: "int \<Rightarrow> pyval" where "jnum n = PInt True n"
definition jflag :: "bool \<Rightarrow> pyval" where "jflag b = PBool b"
definition jopt :: "string option \<Rightarrow> pyval" where
  "jopt m = (case m of None \<Rightarrow> PNone | Some s \<Rightarrow> jtext s)"
definition jlist :: "pyval list \<Rightarrow> pyval" where "jlist vs = PSeq Exact vs"
definition obj :: "(string \<times> pyval) list \<Rightarrow> pyval" where
  "obj kvs = PMap Exact (map (\<lambda>p. (KStr True (cps_of (fst p)), snd p)) kvs)"

definition encodable :: "pyval \<Rightarrow> bool" where
  "encodable v = (validate_restricted_value_with_path v = Inr () \<and> serialisable v)"

definition safe_int :: "int \<Rightarrow> bool" where
  "safe_int n = (MIN_SAFE_INTEGER \<le> n \<and> n \<le> MAX_SAFE_INTEGER)"

lemma cps_of_inj [simp]: "cps_of s = cps_of t \<longleftrightarrow> s = t"
  by (simp add: cps_of_def inj_map_eq_map inj_def)

lemma cps_of_bound: "c \<in> set (cps_of s) \<Longrightarrow> c < 256"
proof -
  have "(of_char d :: nat) < 256" for d by (metis of_char_mod_256 mod_less_divisor zero_less_numeral)
  then show "c \<in> set (cps_of s) \<Longrightarrow> c < 256" by (auto simp: cps_of_def)
qed

lemma wf_cps_of [simp]: "wf_text (cps_of s)"
  using cps_of_bound [of _ s] by (fastforce simp: wf_text_def list_all_iff)

lemma validate_cps_of [simp]: "validate_string (cps_of s) = Inr ()"
  using cps_of_bound [of _ s] by (fastforce simp: validate_string_iff list_ex_iff is_surrogate_def)

lemma leaf_wf [simp]:
  "wf_pyval (jtext s)" "wf_pyval (jnum n)" "wf_pyval (jflag b)" "wf_pyval (jopt m)"
  by (simp_all add: jtext_def jnum_def jflag_def jopt_def split: option.splits)

lemma leaf_encodable [simp]:
  "encodable (jtext s)" "encodable (jflag b)" "encodable (jopt m)" "encodable (jnum n) = safe_int n"
  by (auto simp: encodable_def jtext_def jnum_def jflag_def jopt_def safe_int_def res_simps
      split: option.splits)

lemma leaf_view [simp]:
  "view (jtext s) = view (jtext t) \<longleftrightarrow> s = t"
  "view (jnum n) = view (jnum k) \<longleftrightarrow> n = k"
  "view (jflag b) = view (jflag c) \<longleftrightarrow> b = c"
  "view (jopt m) = view (jopt o') \<longleftrightarrow> m = o'"
  by (auto simp: jtext_def jnum_def jflag_def jopt_def split: option.splits)

lemma jlist_wf [simp]: "wf_pyval (jlist vs) \<longleftrightarrow> (\<forall>v \<in> set vs. wf_pyval v)"
  by (simp add: jlist_def wf_list_iff)

lemma jlist_encodable [simp]: "encodable (jlist vs) \<longleftrightarrow> (\<forall>v \<in> set vs. encodable v)"
  by (auto simp: jlist_def encodable_def validate_all_iff serialisable_all_iff)

lemma jlist_view [simp]: "view (jlist vs) = view (jlist ws) \<longleftrightarrow> map view vs = map view ws"
  by (simp add: jlist_def view_list_map)

lemma text_list_view [simp]:
  "map view (map jtext ss) = map view (map jtext ts) \<longleftrightarrow> ss = ts"
  by (simp add: comp_def) (rule inj_map_eq_map, simp add: inj_def)

lemma obj_items_view:
  "view_items (map (\<lambda>p. (KStr True (cps_of (fst p)), snd p)) kvs) = map (\<lambda>p. (cps_of (fst p), view (snd p))) kvs"
  by (induction kvs) simp_all

lemma obj_items_wf:
  "wf_items (map (\<lambda>p. (KStr True (cps_of (fst p)), snd p)) kvs) \<longleftrightarrow> (\<forall>p \<in> set kvs. wf_pyval (snd p))"
  by (induction kvs) simp_all

lemma obj_items_encodable:
  "validate_items (map (\<lambda>p. (KStr True (cps_of (fst p)), snd p)) kvs) = Inr () \<longleftrightarrow>
     (\<forall>p \<in> set kvs. validate_restricted_value_with_path (snd p) = Inr ())"
  "serialisable_items (map (\<lambda>p. (KStr True (cps_of (fst p)), snd p)) kvs) \<longleftrightarrow>
     (\<forall>p \<in> set kvs. serialisable (snd p))"
  by (induction kvs) (auto simp: res_simps)

lemma obj_wf: "wf_pyval (obj kvs) \<longleftrightarrow> distinct (map fst kvs) \<and> (\<forall>p \<in> set kvs. wf_pyval (snd p))"
  by (auto simp: obj_def obj_items_view obj_items_wf distinct_map inj_on_def comp_def)

lemma obj_encodable: "encodable (obj kvs) \<longleftrightarrow> (\<forall>p \<in> set kvs. encodable (snd p))"
  by (auto simp: obj_def encodable_def obj_items_encodable)

lemma obj_view: "view (obj kvs) = JObj (sort_key fst (map (\<lambda>p. (cps_of (fst p), view (snd p))) kvs))"
  by (simp add: obj_def obj_items_view)

lemma same_keys_map_eq:
  assumes "map fst ps = map fst qs" and "distinct (map fst ps)" and "set ps = set qs"
  shows "ps = qs"
proof (rule nth_equalityI)
  show len: "length ps = length qs" using assms(1) map_eq_imp_length_eq by blast
  fix i assume i: "i < length ps"
  have "ps ! i \<in> set qs" using i assms(3) nth_mem by blast
  then obtain j where j: "j < length qs" "qs ! j = ps ! i" by (auto simp: in_set_conv_nth)
  have "map fst ps ! j = map fst ps ! i" using assms(1) i j len by (metis nth_map)
  then have "j = i" using nth_eq_iff_index_eq [OF assms(2), of j i] i j len by simp
  with j show "ps ! i = qs ! i" by simp
qed

lemma obj_view_eq:
  assumes "map fst kvs = map fst lvs" and "distinct (map fst kvs)"
  shows "view (obj kvs) = view (obj lvs) \<longleftrightarrow> map (view \<circ> snd) kvs = map (view \<circ> snd) lvs"
proof -
  let ?f = "\<lambda>p. (cps_of (fst p), view (snd p))"
  have "map fst (map ?f xs) = map cps_of (map fst xs)" for xs by simp
  then have "map fst (map ?f kvs) = map cps_of (map fst kvs)" "map fst (map ?f lvs) = map cps_of (map fst kvs)"
    by (simp_all only: assms(1))
  moreover have "distinct (map cps_of (map fst kvs))"
    using assms(2) by (subst distinct_map) (simp add: inj_on_def)
  ultimately have "set (map ?f kvs) = set (map ?f lvs) \<Longrightarrow> map ?f kvs = map ?f lvs"
    by (intro same_keys_map_eq) (simp_all only:)
  moreover have "set (map ?f kvs) = set (map ?f lvs)"
    if "sort_key fst (map ?f kvs) = sort_key fst (map ?f lvs)"
    using arg_cong [OF that, of set] by (simp only: set_sort)
  moreover have "sort_key fst (map ?f kvs) = sort_key fst (map ?f lvs)" if "map ?f kvs = map ?f lvs"
    using that by (simp only:)
  ultimately have "sort_key fst (map ?f kvs) = sort_key fst (map ?f lvs) \<longleftrightarrow> map ?f kvs = map ?f lvs"
    by blast
  also have "\<dots> \<longleftrightarrow> map (view \<circ> snd) kvs = map (view \<circ> snd) lvs"
  proof -
    have "map cps_of (map fst kvs) = map cps_of (map fst lvs)" using assms(1) by simp
    then show ?thesis
      by (auto simp: list_eq_iff_nth_eq)
  qed
  finally show ?thesis by (simp add: obj_view)
qed

section \<open>Leaves that identify what they print\<close>

definition instant :: "int \<Rightarrow> bool" where "instant t = (0 \<le> t \<and> t < MAX_INSTANT)"

lemma timestamp_text_eq: "instant a \<Longrightarrow> instant b \<Longrightarrow> UtcTimestamp_to_text a = UtcTimestamp_to_text b \<longleftrightarrow> a = b"
  using UtcTimestamp_to_text_inj by (auto simp: instant_def)

lemma TrustScope_value_inj [simp]: "TrustScope_value a = TrustScope_value b \<longleftrightarrow> a = b"
  by (cases a; cases b) simp_all

section \<open>Digests of records\<close>

lemma canonical_json_bytes_encodable:
  assumes "wf_pyval v"
  shows "(\<exists>b. canonical_json_bytes v = Inr b) \<longleftrightarrow> encodable v"
  using canonical_json_bytes_Inr [OF assms] by (auto simp: encodable_def)

lemma digest_canonical_encodable:
  assumes "wf_pyval v"
  shows "(\<exists>d. digest_canonical v = Inr d) \<longleftrightarrow> encodable v"
  using canonical_json_bytes_encodable [OF assms] by (auto simp: digest_canonical_def res_simps)

lemma digest_canonical_text: "digest_canonical v = Inr d \<Longrightarrow> digest_text d"
  using digest_bytes_text by (auto simp: digest_canonical_def res_simps)

text \<open>Two different byte strings, both known, with the same SHA-256 value.\<close>

definition collides :: "bytes \<Rightarrow> bytes \<Rightarrow> bool" where
  "collides a b = (a \<noteq> b \<and> sha256 a = sha256 b)"

lemma sha256_bytes: "x \<in> set (sha256 m) \<Longrightarrow> x < 256"
proof -
  have "x \<in> set (be_bytes w n) \<Longrightarrow> x < 256" for w n by (induction w arbitrary: n) auto
  then show "x \<in> set (sha256 m) \<Longrightarrow> x < 256" by (auto simp: sha256_def)
qed

lemma hexdigest_inj:
  "\<lbrakk>length a = length b; \<forall>x \<in> set a. x < 256; \<forall>x \<in> set b. x < 256; hexdigest a = hexdigest b\<rbrakk> \<Longrightarrow> a = b"
proof (induction a b rule: list_induct2)
  case (Cons x xs y ys)
  then have h: "hex_digit (x div 16 mod 16) = hex_digit (y div 16 mod 16)"
      "hex_digit (x mod 16) = hex_digit (y mod 16)" "hexdigest xs = hexdigest ys"
    by (simp_all add: hexdigest_def)
  then have "x div 16 mod 16 = y div 16 mod 16" "x mod 16 = y mod 16" by (simp_all add: hex_digit_inj)
  moreover have "x div 16 < 16" "y div 16 < 16" using Cons.prems by auto
  ultimately have "x = y" using div_mod_eqI [of x 16 y] by simp
  with Cons h(3) show ?case by simp
qed simp

lemma digest_bytes_collides: "digest_bytes a = digest_bytes b \<Longrightarrow> a = b \<or> collides a b"
  using hexdigest_inj [of "sha256 a" "sha256 b"] sha256_bytes by (auto simp: digest_bytes_def collides_def)

lemma digest_canonical_collides:
  assumes "wf_pyval v" and "wf_pyval w" and "digest_canonical v = Inr d" and "digest_canonical w = Inr d"
  shows "view v = view w \<or>
    (\<exists>a b. canonical_json_bytes v = Inr a \<and> canonical_json_bytes w = Inr b \<and> collides a b)"
proof -
  from assms(3,4) obtain a b where ab: "canonical_json_bytes v = Inr a" "canonical_json_bytes w = Inr b"
      "digest_bytes a = digest_bytes b"
    by (auto simp: digest_canonical_def res_simps)
  have "view v = view w" if "a = b"
    using decode_canonical_view [OF assms(1) ab(1)] decode_canonical_view [OF assms(2) ab(2)] that by simp
  then show ?thesis using digest_bytes_collides [OF ab(3)] ab(1,2) by blast
qed

locale content_addressed =
  fixes value_of :: "'a \<Rightarrow> pyval" and valid :: "'a \<Rightarrow> bool"
  assumes value_wf: "wf_pyval (value_of x)"
    and value_faithful: "valid x \<Longrightarrow> valid y \<Longrightarrow> view (value_of x) = view (value_of y) \<Longrightarrow> x = y"
begin

lemma bytes_bind:
  assumes "valid x" and "valid y"
    and "canonical_json_bytes (value_of x) = Inr b" and "canonical_json_bytes (value_of y) = Inr b"
  shows "x = y"
proof -
  have "view (value_of x) = view (value_of y)"
    using decode_canonical_view [OF value_wf assms(3)] decode_canonical_view [OF value_wf assms(4)] by simp
  with assms(1,2) show ?thesis by (rule value_faithful)
qed

lemma digest_binds:
  assumes "valid x" and "valid y"
    and "digest_canonical (value_of x) = Inr d" and "digest_canonical (value_of y) = Inr d"
  shows "x = y \<or> (\<exists>a b. canonical_json_bytes (value_of x) = Inr a \<and>
    canonical_json_bytes (value_of y) = Inr b \<and> collides a b)"
  using digest_canonical_collides [OF value_wf value_wf assms(3,4)] value_faithful [OF assms(1,2)] by blast

end

end
