(* ===== verification/Command_Models.thy ===== *)
theory Command_Models
  imports Records
begin

text \<open>
  \<open>src/newsroom/authority/models.py\<close>: the caller's command, the server's command definition, the
  identity of a committed command and the object-admission descriptor. Each dataclass is a record and
  each \<open>__post_init__\<close> a function that raises or returns. Fields that the source checks to be of a
  typed identifier class hold the text of that identifier.
\<close>

definition command_error :: "string \<Rightarrow> exn" where
  "command_error m = Exn CommandValidationError m"

section \<open>Requests\<close>

datatype PayloadRequest =
    InlinePayload pyval
  | ObjectAdmissionPayload string
  | NoPayload

record SemanticCommand =
  sc_command_type :: string
  sc_aggregate_id :: string
  sc_expected_aggregate_version :: int
  sc_payload :: PayloadRequest
  sc_idempotency_key :: string
  sc_correlation_id :: "string option"
  sc_causation :: "CausationRef option"

definition SemanticCommand_post_init :: "SemanticCommand \<Rightarrow> unit res" where
  "SemanticCommand_post_init c =
     res_bind (require_token (sc_command_type c)) (\<lambda>_.
     require (\<not> sc_expected_aggregate_version c < 0)
       (command_error ''expected_aggregate_version must be a non-negative integer'')
     (require (strip (sc_idempotency_key c) \<noteq> [])
       (command_error ''idempotency_key must be non-empty'')
     (require (\<not> 256 < utf8_len (sc_idempotency_key c))
       (command_error ''idempotency_key exceeds 256 UTF-8 bytes'')
     (Inr ()))))"

section \<open>Definitions\<close>

record CommandDefinition =
  cd_command_type :: string
  cd_definition_version :: string
  cd_aggregate_type :: string
  cd_event_type :: string
  cd_event_schema_version :: int
  cd_payload_mode :: PayloadMode
  cd_payload_schema_version :: string
  cd_payload_schema_contract_version :: string
  cd_payload_schema_contract_digest :: string
  cd_payload_canonicalizer_version :: string
  cd_trust_scope :: TrustScope
  cd_security_scope :: string
  cd_retention_scope :: string
  cd_required_scope :: string
  cd_max_inline_bytes :: int
  cd_required_object_class :: "string option"
  cd_required_allowed_use :: "string option"

definition CommandDefinition_post_init :: "CommandDefinition \<Rightarrow> unit res" where
  "CommandDefinition_post_init d =
     res_bind (require_tokens [cd_command_type d, cd_definition_version d, cd_aggregate_type d,
       cd_event_type d, cd_payload_schema_version d, cd_payload_schema_contract_version d]) (\<lambda>_.
     res_bind (validate_sha256_digest (cd_payload_schema_contract_digest d)) (\<lambda>normalized.
     require (normalized = cd_payload_schema_contract_digest d)
       (command_error ''payload schema contract digest must be canonical lowercase'')
     (res_bind (require_token (cd_payload_canonicalizer_version d)) (\<lambda>_.
     res_bind (require_scopes [cd_security_scope d, cd_retention_scope d, cd_required_scope d]) (\<lambda>_.
     require (\<not> cd_event_schema_version d \<le> 0)
       (command_error ''event_schema_version must be positive'')
     (require (\<not> cd_max_inline_bytes d < 0)
       (command_error ''max_inline_bytes must be non-negative'')
     (require (\<not> (cd_payload_mode d = INLINE \<and> cd_max_inline_bytes d \<le> 0))
       (command_error ''inline commands require a positive byte limit'')
     (require (\<not> (cd_payload_mode d \<noteq> INLINE \<and> cd_max_inline_bytes d \<noteq> 0))
       (command_error ''non-inline commands cannot declare an inline byte limit'')
     (if cd_payload_mode d = OBJECT_ADMISSION then
        res_bind (require_token (or_empty (cd_required_object_class d))) (\<lambda>_.
        require_token (or_empty (cd_required_allowed_use d)))
      else
        require (cd_required_object_class d = None \<and> cd_required_allowed_use d = None)
          (command_error ''object class/use constraints apply only to object-admission payloads'')
          (Inr ()))))))))))"

definition CommandDefinition_canonical_value :: "CommandDefinition \<Rightarrow> pyval" where
  "CommandDefinition_canonical_value d = obj [
     (''command_type'', jtext (cd_command_type d)),
     (''definition_version'', jtext (cd_definition_version d)),
     (''aggregate_type'', jtext (cd_aggregate_type d)),
     (''event_type'', jtext (cd_event_type d)),
     (''event_schema_version'', jnum (cd_event_schema_version d)),
     (''payload_mode'', jtext (PayloadMode_value (cd_payload_mode d))),
     (''payload_schema_version'', jtext (cd_payload_schema_version d)),
     (''payload_schema_contract_version'', jtext (cd_payload_schema_contract_version d)),
     (''payload_schema_contract_digest'', jtext (cd_payload_schema_contract_digest d)),
     (''payload_canonicalizer_version'', jtext (cd_payload_canonicalizer_version d)),
     (''trust_scope'', jtext (TrustScope_value (cd_trust_scope d))),
     (''security_scope'', jtext (cd_security_scope d)),
     (''retention_scope'', jtext (cd_retention_scope d)),
     (''required_scope'', jtext (cd_required_scope d)),
     (''max_inline_bytes'', jnum (cd_max_inline_bytes d)),
     (''required_object_class'', jopt (cd_required_object_class d)),
     (''required_allowed_use'', jopt (cd_required_allowed_use d))]"

definition CommandDefinition_digest :: "CommandDefinition \<Rightarrow> string res" where
  "CommandDefinition_digest d = digest_canonical (CommandDefinition_canonical_value d)"

section \<open>Committed identities and admissions\<close>

record CommittedCommandIdentity =
  ci_command_id :: string
  ci_authority_domain :: string
  ci_principal_id :: string
  ci_command_type :: string
  ci_idempotency_namespace :: string
  ci_idempotency_key :: string
  ci_command_definition_version :: string
  ci_command_definition_digest :: string
  ci_stable_semantic_request_digest :: string
  ci_payload_mode :: string
  ci_payload_digest :: string
  ci_object_admission_id :: "string option"

definition CommittedCommandIdentity_post_init :: "CommittedCommandIdentity \<Rightarrow> unit res" where
  "CommittedCommandIdentity_post_init c =
     res_bind (UUIDv4Id_parse (ci_command_id c)) (\<lambda>_.
     res_bind (require_tokens [ci_authority_domain c, ci_principal_id c, ci_command_type c]) (\<lambda>_.
     res_bind (validate_sha256_digest (ci_idempotency_namespace c)) (\<lambda>_.
     require (ci_idempotency_key c \<noteq> []) (command_error ''idempotency key must be non-empty'')
     (res_bind (require_token (ci_command_definition_version c)) (\<lambda>_.
     res_bind (validate_sha256_digest (ci_command_definition_digest c)) (\<lambda>_.
     res_bind (validate_sha256_digest (ci_stable_semantic_request_digest c)) (\<lambda>_.
     res_bind (res_of_option (command_error ''committed payload mode is invalid'')
       (PayloadMode_of (ci_payload_mode c))) (\<lambda>mode.
     res_bind (validate_sha256_digest (ci_payload_digest c)) (\<lambda>_.
     if mode = OBJECT_ADMISSION
     then require (ci_object_admission_id c \<noteq> None)
       (command_error ''committed object payload requires admission identity'') (Inr ())
     else require (ci_object_admission_id c = None)
       (command_error ''non-object committed payload cannot name an admission'') (Inr ()))))))))))"

record ObjectAdmissionDescriptor =
  oa_admission_id :: string
  oa_blob_digest :: string
  oa_object_class :: string
  oa_allowed_use :: string
  oa_security_scope :: string
  oa_retention_scope :: string
  oa_active :: bool

definition ObjectAdmissionDescriptor_post_init :: "ObjectAdmissionDescriptor \<Rightarrow> unit res" where
  "ObjectAdmissionDescriptor_post_init a =
     res_bind (validate_sha256_digest (oa_blob_digest a)) (\<lambda>normalized.
     require (normalized = oa_blob_digest a) (command_error ''blob digest must be canonical lowercase'')
     (res_bind (require_tokens [oa_object_class a, oa_allowed_use a]) (\<lambda>_.
     require_scopes [oa_security_scope a, oa_retention_scope a])))"

section \<open>The digest of a definition\<close>

lemma validate_sha256_digest_Inr: "validate_sha256_digest v = Inr w \<Longrightarrow> w = v"
  by (auto simp: validate_sha256_digest_def res_simps)

lemma PayloadMode_value_inj [simp]: "PayloadMode_value a = PayloadMode_value b \<longleftrightarrow> a = b"
  by (cases a; cases b) simp_all

lemma PayloadMode_of_value [simp]: "PayloadMode_of (PayloadMode_value m) = Some m"
  by (cases m) (simp_all add: PayloadMode_of_def)

lemma PayloadMode_of_Some: "PayloadMode_of s = Some m \<Longrightarrow> s = PayloadMode_value m"
  by (auto simp: PayloadMode_of_def split: if_splits)

interpretation command_definition: content_addressed CommandDefinition_canonical_value "\<lambda>_. True"
proof
  show "wf_pyval (CommandDefinition_canonical_value x)" for x
    by (simp add: CommandDefinition_canonical_value_def obj_wf)
  show "x = y" if "view (CommandDefinition_canonical_value x) = view (CommandDefinition_canonical_value y)"
    for x y
    using that by (simp add: CommandDefinition_canonical_value_def obj_view_eq)
qed

lemma CommandDefinition_digest_encodable:
  "(\<exists>g. CommandDefinition_digest d = Inr g) \<longleftrightarrow> safe_int (cd_event_schema_version d) \<and> safe_int (cd_max_inline_bytes d)"
  unfolding CommandDefinition_digest_def digest_canonical_encodable [OF command_definition.value_wf]
  by (simp add: CommandDefinition_canonical_value_def obj_encodable)

end
