(* ===== verification/Registries.thy ===== *)
theory Registries
  imports Command_Models
begin

text \<open>
  \<open>src/newsroom/authority/policy.py\<close>: golden vectors, payload-schema contracts and the two immutable
  registries. The constructors of \<open>PayloadSchemaRegistry\<close> and \<open>CommandRegistry\<close> run the same
  algorithm over different keys; it is written once, over a major key (schema version and mode, or
  command type) and a version, and used at both. Dictionaries are association lists in insertion
  order. A canonicaliser is a Python callable: it is a field of the contract, applied to an inline
  value (\<open>None\<close> for NO_PAYLOAD) or to an admission descriptor.
\<close>

section \<open>Contracts\<close>

datatype CanonInput = Plain pyval | Descriptor ObjectAdmissionDescriptor

record PayloadGoldenVector =
  gv_name :: string
  gv_input_identity :: string
  gv_value :: CanonInput
  gv_expected_bytes :: bytes

definition PayloadGoldenVector_post_init :: "PayloadGoldenVector \<Rightarrow> unit res" where
  "PayloadGoldenVector_post_init v = require_tokens [gv_name v, gv_input_identity v]"

definition PayloadGoldenVector_canonical_value :: "PayloadGoldenVector \<Rightarrow> pyval" where
  "PayloadGoldenVector_canonical_value v = obj [
     (''name'', jtext (gv_name v)),
     (''input_identity'', jtext (gv_input_identity v)),
     (''expected_digest'', jtext (digest_bytes (gv_expected_bytes v))),
     (''expected_size'', jnum (int (length (gv_expected_bytes v))))]"

record PayloadSchemaContract =
  ps_schema_version :: string
  ps_payload_mode :: PayloadMode
  ps_contract_version :: string
  ps_canonicalizer_implementation_version :: string
  ps_canonicalizer :: "CanonInput \<Rightarrow> bytes res"
  ps_golden_vectors :: "PayloadGoldenVector list"

definition schema_error :: "string \<Rightarrow> exn" where
  "schema_error m = Exn PayloadSchemaValidationError m"

definition PayloadSchemaContract_canonicalize :: "PayloadSchemaContract \<Rightarrow> CanonInput \<Rightarrow> bytes res" where
  "PayloadSchemaContract_canonicalize s v =
     rescue (\<lambda>e. Inl (if exn_class_of e = PayloadSchemaValidationError then e
                      else schema_error ''payload failed schema''))
       (ps_canonicalizer s v)"

definition check_golden_vector :: "PayloadSchemaContract \<Rightarrow> PayloadGoldenVector \<Rightarrow> unit res" where
  "check_golden_vector s v =
     res_bind (PayloadSchemaContract_canonicalize s (gv_value v)) (\<lambda>actual.
     require (actual = gv_expected_bytes v)
       (schema_error ''payload canonicalizer does not match golden vector'') (Inr ()))"

definition PayloadSchemaContract_post_init :: "PayloadSchemaContract \<Rightarrow> unit res" where
  "PayloadSchemaContract_post_init s =
     res_bind (require_tokens [ps_schema_version s, ps_contract_version s,
       ps_canonicalizer_implementation_version s]) (\<lambda>_.
     require (ps_golden_vectors s \<noteq> [])
       (schema_error ''payload schema requires at least one immutable golden vector'')
     (require (distinct (map gv_name (ps_golden_vectors s)))
       (schema_error ''payload golden-vector names must be unique'')
     (for_each (check_golden_vector s) (ps_golden_vectors s))))"

definition PayloadSchemaContract_canonical_value :: "PayloadSchemaContract \<Rightarrow> pyval" where
  "PayloadSchemaContract_canonical_value s = obj [
     (''schema_version'', jtext (ps_schema_version s)),
     (''payload_mode'', jtext (PayloadMode_value (ps_payload_mode s))),
     (''contract_version'', jtext (ps_contract_version s)),
     (''canonicalizer_implementation_version'', jtext (ps_canonicalizer_implementation_version s)),
     (''golden_vectors'',
        jlist (map PayloadGoldenVector_canonical_value (sort_key gv_name (ps_golden_vectors s))))]"

definition PayloadSchemaContract_contract_digest :: "PayloadSchemaContract \<Rightarrow> string res" where
  "PayloadSchemaContract_contract_digest s = digest_canonical (PayloadSchemaContract_canonical_value s)"

section \<open>Registries\<close>

record ('k, 'v) registry =
  by_key :: "(('k \<times> string) \<times> 'v) list"
  current_versions :: "('k \<times> string) list"

definition value_error :: "string \<Rightarrow> exn" where "value_error m = Exn ValueError m"

text \<open>\<open>versions.setdefault(key, []).append(version)\<close>.\<close>

fun append_version :: "'k \<Rightarrow> string \<Rightarrow> ('k \<times> string list) list \<Rightarrow> ('k \<times> string list) list" where
  "append_version k v [] = [(k, [v])]"
| "append_version k v ((k', vs) # r) =
     (if k = k' then (k', vs @ [v]) # r else (k', vs) # append_version k v r)"

text \<open>The first loop: reject duplicates, fill \<open>by_key\<close> and the versions of each major key.\<close>

fun register_items ::
  "('v \<Rightarrow> 'k) \<Rightarrow> ('v \<Rightarrow> string) \<Rightarrow> 'v list \<Rightarrow> (('k \<times> string) \<times> 'v) list \<Rightarrow> ('k \<times> string list) list
    \<Rightarrow> ((('k \<times> string) \<times> 'v) list \<times> ('k \<times> string list) list) res" where
  "register_items major minor [] keys versions = Inr (keys, versions)"
| "register_items major minor (x # xs) keys versions =
     require (map_of keys (major x, minor x) = None) (value_error ''duplicate definition'')
       (register_items major minor xs (keys @ [((major x, minor x), x)])
          (append_version (major x) (minor x) versions))"

text \<open>The second loop: choose the current version of each major key, consuming the requested ones.\<close>

fun select_versions ::
  "(('k \<times> string) \<times> 'v) list \<Rightarrow> ('k \<times> string list) list \<Rightarrow> ('k \<times> string) list
    \<Rightarrow> (('k \<times> string) list \<times> ('k \<times> string) list) res" where
  "select_versions keys [] requested = Inr ([], requested)"
| "select_versions keys ((k, vs) # r) requested =
     res_bind
       (case map_of requested k of
          Some v \<Rightarrow> Inr (v, filter (\<lambda>p. fst p \<noteq> k) requested)
        | None \<Rightarrow>
            if length vs = 1 then Inr (hd vs, requested)
            else Inl (value_error ''multiple versions require an explicit current version''))
       (\<lambda>(v, requested').
     require (map_of keys (k, v) \<noteq> None) (value_error ''unknown current version'')
     (res_bind (select_versions keys r requested') (\<lambda>(selected, rest).
     Inr ((k, v) # selected, rest))))"

definition registry_init ::
  "('v \<Rightarrow> 'k) \<Rightarrow> ('v \<Rightarrow> string) \<Rightarrow> 'v list \<Rightarrow> ('k \<times> string) list \<Rightarrow> ('k, 'v) registry res" where
  "registry_init major minor items current =
     res_bind (register_items major minor items [] []) (\<lambda>(keys, versions).
     require (keys \<noteq> []) (value_error ''registry requires at least one item'')
     (res_bind (select_versions keys versions current) (\<lambda>(selected, rest).
     require (rest = []) (value_error ''current version declared for unknown keys'')
     (Inr \<lparr>by_key = keys, current_versions = selected\<rparr>))))"

definition registry_resolve :: "exn \<Rightarrow> ('k, 'v) registry \<Rightarrow> 'k \<Rightarrow> string option \<Rightarrow> 'v res" where
  "registry_resolve unknown r k version =
     res_bind
       (res_of_option unknown
          (case version of None \<Rightarrow> map_of (current_versions r) k | Some v \<Rightarrow> Some v))
       (\<lambda>v. res_of_option unknown (map_of (by_key r) (k, v)))"

type_synonym PayloadSchemaRegistry = "(string \<times> PayloadMode, PayloadSchemaContract) registry"
type_synonym CommandRegistry = "(string, CommandDefinition) registry"

definition PayloadSchemaRegistry_init ::
  "PayloadSchemaContract list \<Rightarrow> ((string \<times> PayloadMode) \<times> string) list \<Rightarrow> PayloadSchemaRegistry res" where
  "PayloadSchemaRegistry_init schemas current =
     registry_init (\<lambda>s. (ps_schema_version s, ps_payload_mode s)) ps_contract_version schemas current"

definition PayloadSchemaRegistry_resolve ::
  "PayloadSchemaRegistry \<Rightarrow> string \<Rightarrow> PayloadMode \<Rightarrow> string option \<Rightarrow> PayloadSchemaContract res" where
  "PayloadSchemaRegistry_resolve r schema_version mode contract_version =
     registry_resolve (Exn UnknownPayloadSchema ''unknown payload schema'') r (schema_version, mode)
       contract_version"

definition PayloadSchemaRegistry_resolve_exact ::
  "PayloadSchemaRegistry \<Rightarrow> string \<Rightarrow> PayloadMode \<Rightarrow> string \<Rightarrow> string \<Rightarrow> string \<Rightarrow> PayloadSchemaContract res" where
  "PayloadSchemaRegistry_resolve_exact r schema_version mode contract_version contract_digest canonicalizer =
     res_bind (PayloadSchemaRegistry_resolve r schema_version mode (Some contract_version)) (\<lambda>contract.
     res_bind (PayloadSchemaContract_contract_digest contract) (\<lambda>digest.
     require (digest = contract_digest)
       (Exn UnknownPayloadSchema ''retained payload-schema contract digest does not match command-definition identity'')
     (require (ps_canonicalizer_implementation_version contract = canonicalizer)
       (Exn UnknownPayloadSchema ''retained payload canonicalizer version does not match command-definition identity'')
     (Inr contract))))"

definition PayloadSchemaRegistry_contracts :: "PayloadSchemaRegistry \<Rightarrow> PayloadSchemaContract list" where
  "PayloadSchemaRegistry_contracts r =
     map snd (sort_key (\<lambda>p. case fst p of ((s, m), v) \<Rightarrow> (s, PayloadMode_value m, v)) (by_key r))"

definition CommandRegistry_init ::
  "CommandDefinition list \<Rightarrow> (string \<times> string) list \<Rightarrow> CommandRegistry res" where
  "CommandRegistry_init definitions current =
     registry_init cd_command_type cd_definition_version definitions current"

definition CommandRegistry_resolve :: "CommandRegistry \<Rightarrow> string \<Rightarrow> string option \<Rightarrow> CommandDefinition res" where
  "CommandRegistry_resolve r command_type version =
     registry_resolve (Exn UnknownCommandDefinition ''unknown command definition'') r command_type version"

definition CommandRegistry_resolve_exact ::
  "CommandRegistry \<Rightarrow> string \<Rightarrow> string \<Rightarrow> string \<Rightarrow> CommandDefinition res" where
  "CommandRegistry_resolve_exact r command_type version digest =
     res_bind (CommandRegistry_resolve r command_type (Some version)) (\<lambda>d.
     res_bind (CommandDefinition_digest d) (\<lambda>g.
     require (g = digest)
       (Exn UnknownCommandDefinition ''retained command definition digest does not match committed identity'')
     (Inr d)))"

definition CommandRegistry_definitions :: "CommandRegistry \<Rightarrow> CommandDefinition list" where
  "CommandRegistry_definitions r = map snd (sort_key fst (by_key r))"

section \<open>What the first loop builds\<close>

definition versions_of :: "('v \<Rightarrow> 'k) \<Rightarrow> ('v \<Rightarrow> string) \<Rightarrow> 'v list \<Rightarrow> 'k \<Rightarrow> string list" where
  "versions_of major minor xs k = map minor (filter (\<lambda>x. major x = k) xs)"

lemma append_version_map_of:
  "map_of (append_version k v m) j =
     (if j = k then Some ((case map_of m k of None \<Rightarrow> [] | Some vs \<Rightarrow> vs) @ [v]) else map_of m j)"
  by (induction k v m rule: append_version.induct) auto

lemma append_version_fst:
  "fst ` set (append_version k v m) = insert k (fst ` set m)"
  "distinct (map fst m) \<Longrightarrow> distinct (map fst (append_version k v m))"
  by (induction k v m rule: append_version.induct) (auto simp: image_iff)

text \<open>The state of the first loop after the items \<open>xs\<close>.\<close>

definition registered ::
  "('v \<Rightarrow> 'k) \<Rightarrow> ('v \<Rightarrow> string) \<Rightarrow> 'v list \<Rightarrow> (('k \<times> string) \<times> 'v) list \<Rightarrow> ('k \<times> string list) list \<Rightarrow> bool" where
  "registered major minor xs keys versions \<longleftrightarrow>
     keys = map (\<lambda>x. ((major x, minor x), x)) xs \<and> distinct (map fst keys) \<and>
     distinct (map fst versions) \<and> fst ` set versions = major ` set xs \<and>
     (\<forall>(k, vs) \<in> set versions. vs = versions_of major minor xs k)"

lemma registeredD:
  assumes "registered major minor xs keys versions"
  shows "keys = map (\<lambda>x. ((major x, minor x), x)) xs" and "distinct (map fst keys)"
    and "distinct (map fst versions)" and "fst ` set versions = major ` set xs"
    and "\<forall>(k, vs) \<in> set versions. vs = versions_of major minor xs k"
proof -
  note r = assms [unfolded registered_def]
  show "keys = map (\<lambda>x. ((major x, minor x), x)) xs" by (rule r [THEN conjunct1])
  note r = r [THEN conjunct2]
  show "distinct (map fst keys)" by (rule r [THEN conjunct1])
  note r = r [THEN conjunct2]
  show "distinct (map fst versions)" by (rule r [THEN conjunct1])
  note r = r [THEN conjunct2]
  show "fst ` set versions = major ` set xs" by (rule r [THEN conjunct1])
  show "\<forall>(k, vs) \<in> set versions. vs = versions_of major minor xs k" by (rule r [THEN conjunct2])
qed

lemma registered_snoc:
  assumes "registered major minor xs keys versions" and "map_of keys (major x, minor x) = None"
  shows "registered major minor (xs @ [x]) (keys @ [((major x, minor x), x)])
    (append_version (major x) (minor x) versions)"
proof -
  have "vs = versions_of major minor (xs @ [x]) k"
    if "(k, vs) \<in> set (append_version (major x) (minor x) versions)" for k vs
  proof -
    have d: "distinct (map fst versions)" using assms(1) by (simp add: registered_def)
    then have m: "map_of (append_version (major x) (minor x) versions) k = Some vs"
      using that append_version_fst(2) map_of_is_SomeI by metis
    have old: "map_of versions j = Some us \<Longrightarrow> us = versions_of major minor xs j" for j us
      using assms(1) map_of_SomeD by (fastforce simp: registered_def)
    have none: "map_of versions (major x) = None \<Longrightarrow> versions_of major minor xs (major x) = []"
    proof -
      assume "map_of versions (major x) = None"
      then have "major x \<notin> major ` set xs" using assms(1) by (simp add: registered_def map_of_eq_None_iff)
      then show ?thesis by (metis (mono_tags, lifting) filter_False image_eqI list.simps(8) versions_of_def)
    qed
    show ?thesis
      using m old none
      by (auto simp: append_version_map_of versions_of_def split: if_splits option.splits)
  qed
  moreover have "distinct (map fst (keys @ [((major x, minor x), x)]))"
    using registeredD(2) [OF assms(1)] assms(2) by (simp add: map_of_eq_None_iff)
  ultimately show ?thesis
    unfolding registered_def
    using registeredD(1,4) [OF assms(1)] append_version_fst(1) [of "major x" "minor x" versions]
      append_version_fst(2) [OF registeredD(3) [OF assms(1)], of "major x" "minor x"]
    by (intro conjI) (simp_all add: case_prod_beta)
qed

lemma register_items_Inr:
  "register_items major minor ys keys versions = Inr (keys', versions') \<Longrightarrow>
   registered major minor xs keys versions \<Longrightarrow> registered major minor (xs @ ys) keys' versions'"
proof (induction ys arbitrary: xs keys versions)
  case (Cons y ys)
  then have "registered major minor (xs @ [y]) (keys @ [((major y, minor y), y)])
      (append_version (major y) (minor y) versions)"
    by (auto simp: res_simps intro: registered_snoc)
  with Cons.IH [of "keys @ [((major y, minor y), y)]"] Cons.prems(1) show ?case
    by (fastforce simp: res_simps)
qed simp

lemma register_items_fails:
  "register_items major minor ys keys versions = Inl e \<Longrightarrow>
   registered major minor xs keys versions \<Longrightarrow>
   e = value_error ''duplicate definition'' \<and> \<not> distinct (map (\<lambda>x. (major x, minor x)) (xs @ ys))"
proof (induction ys arbitrary: xs keys versions)
  case (Cons y ys)
  show ?case
  proof (cases "map_of keys (major y, minor y)")
    case None
    with Cons show ?thesis using registered_snoc [OF Cons.prems(2) None] Cons.IH by fastforce
  next
    case (Some z)
    then have "(major y, minor y) \<in> (\<lambda>x. (major x, minor x)) ` set xs"
      using Cons.prems(2) map_of_SomeD by (fastforce simp: registered_def)
    with Some Cons.prems(1) show ?thesis by auto
  qed
qed simp

section \<open>What the second loop selects\<close>

text \<open>The version the second loop takes for a major key, given what was requested.\<close>

definition chosen :: "('k \<times> string) list \<Rightarrow> 'k \<Rightarrow> string list \<Rightarrow> string option" where
  "chosen requested k vs =
     (case map_of requested k of Some v \<Rightarrow> Some v | None \<Rightarrow> if length vs = 1 then Some (hd vs) else None)"

lemma map_of_filter_ne: "map_of (filter (\<lambda>p. fst p \<noteq> k) m) j = (if j = k then None else map_of m j)"
  by (induction m) auto

lemma chosen_filter: "j \<noteq> k \<Longrightarrow> chosen (filter (\<lambda>p. fst p \<noteq> k) requested) j vs = chosen requested j vs"
  by (simp add: chosen_def map_of_filter_ne)

lemma filter_no_key: "map_of requested k = None \<Longrightarrow> filter (\<lambda>p. fst p \<noteq> k) requested = requested"
  by (rule filter_True) (auto simp: map_of_eq_None_iff image_iff)

lemma select_versions_step:
  "select_versions keys ((k, vs) # r) requested =
     (case chosen requested k vs of
        None \<Rightarrow> Inl (value_error ''multiple versions require an explicit current version'')
      | Some v \<Rightarrow>
          require (map_of keys (k, v) \<noteq> None) (value_error ''unknown current version'')
          (res_bind (select_versions keys r (filter (\<lambda>p. fst p \<noteq> k) requested)) (\<lambda>(selected, rest).
           Inr ((k, v) # selected, rest))))"
  by (auto simp: chosen_def filter_no_key split: option.splits)

lemma select_versions_Inr:
  "distinct (map fst versions) \<Longrightarrow>
   select_versions keys versions requested = Inr (selected, rest) \<longleftrightarrow>
     (\<forall>(k, vs) \<in> set versions. \<exists>v. chosen requested k vs = Some v \<and> map_of keys (k, v) \<noteq> None) \<and>
     selected = map (\<lambda>(k, vs). (k, the (chosen requested k vs))) versions \<and>
     rest = filter (\<lambda>p. fst p \<notin> fst ` set versions) requested"
proof (induction versions arbitrary: requested selected rest)
  case (Cons p versions)
  obtain k vs where p: "p = (k, vs)" by fastforce
  let ?req = "filter (\<lambda>p. fst p \<noteq> k) requested"
  have ne: "\<forall>(j, us) \<in> set versions. j \<noteq> k" using Cons.prems p by force
  then have ch: "\<forall>(j, us) \<in> set versions. chosen ?req j us = chosen requested j us"
    using chosen_filter by fastforce
  have m1: "map (\<lambda>(j, us). (j, the (chosen ?req j us))) versions =
      map (\<lambda>(j, us). (j, the (chosen requested j us))) versions"
    using ch by auto
  have m2: "filter (\<lambda>p. fst p \<notin> fst ` set versions) ?req =
      filter (\<lambda>q. fst q \<notin> fst ` set (p # versions)) requested"
    by (simp add: p conj_commute)
  have m3: "(\<forall>(j, us) \<in> set versions. \<exists>v. chosen ?req j us = Some v \<and> map_of keys (j, v) \<noteq> None) \<longleftrightarrow>
      (\<forall>(j, us) \<in> set versions. \<exists>v. chosen requested j us = Some v \<and> map_of keys (j, v) \<noteq> None)"
    using ch by fastforce
  have dv: "distinct (map fst versions)" using Cons.prems by simp
  have IH: "select_versions keys versions ?req = Inr (sel, rst) \<longleftrightarrow>
     (\<forall>(j, us) \<in> set versions. \<exists>v. chosen requested j us = Some v \<and> map_of keys (j, v) \<noteq> None) \<and>
     sel = map (\<lambda>(j, us). (j, the (chosen requested j us))) versions \<and>
     rst = filter (\<lambda>q. fst q \<notin> fst ` set (p # versions)) requested" for sel rst
    using Cons.IH [OF dv, of ?req sel rst] unfolding m1 m2 m3 .
  show ?case
    unfolding p select_versions_step
    by (cases "chosen requested k vs") (auto simp: res_simps IH p)
qed auto

text \<open>
  A list of items and a choice of current versions are acceptable when the keys are distinct, there is
  an item, every requested version exists and every key with several versions is requested.
\<close>

definition registry_ok :: "('v \<Rightarrow> 'k) \<Rightarrow> ('v \<Rightarrow> string) \<Rightarrow> 'v list \<Rightarrow> ('k \<times> string) list \<Rightarrow> bool" where
  "registry_ok major minor items current \<longleftrightarrow>
     items \<noteq> [] \<and> distinct (map (\<lambda>x. (major x, minor x)) items) \<and>
     (\<forall>x \<in> set items. \<exists>v. chosen current (major x) (versions_of major minor items (major x)) = Some v \<and>
        v \<in> set (versions_of major minor items (major x))) \<and>
     (\<forall>p \<in> set current. fst p \<in> major ` set items)"

lemma registered_start: "registered major minor [] [] []"
  by (simp add: registered_def)

lemma registered_lookup:
  assumes "registered major minor items keys versions"
  shows "map_of keys (k, v) \<noteq> None \<longleftrightarrow> v \<in> set (versions_of major minor items k)"
  using assms
  by (auto simp: registered_def map_of_eq_None_iff versions_of_def image_iff)

lemma registered_quantify:
  assumes "registered major minor items keys versions"
  shows "(\<forall>(k, vs) \<in> set versions. P k vs) \<longleftrightarrow>
    (\<forall>x \<in> set items. P (major x) (versions_of major minor items (major x)))"
proof -
  have "(\<forall>(k, vs) \<in> set versions. P k vs) \<longleftrightarrow> (\<forall>k \<in> fst ` set versions. P k (versions_of major minor items k))"
  proof
    assume a: "\<forall>(k, vs) \<in> set versions. P k vs"
    show "\<forall>k \<in> fst ` set versions. P k (versions_of major minor items k)"
    proof
      fix k assume "k \<in> fst ` set versions"
      then obtain vs where "(k, vs) \<in> set versions" by auto
      then show "P k (versions_of major minor items k)" using a assms by (fastforce simp: registered_def)
    qed
  next
    assume a: "\<forall>k \<in> fst ` set versions. P k (versions_of major minor items k)"
    show "\<forall>(k, vs) \<in> set versions. P k vs"
    proof (clarify)
      fix k vs assume m: "(k, vs) \<in> set versions"
      then have "vs = versions_of major minor items k" using assms by (auto simp: registered_def)
      moreover have "k \<in> fst ` set versions" using m by force
      ultimately show "P k vs" using a by blast
    qed
  qed
  moreover have "fst ` set versions = major ` set items" using assms by (simp add: registered_def)
  ultimately show ?thesis by simp
qed

lemma registry_init_Inr:
  "(\<exists>r. registry_init major minor items current = Inr r) \<longleftrightarrow> registry_ok major minor items current"
proof (cases "register_items major minor items [] []")
  case (Inl e)
  then have "\<not> distinct (map (\<lambda>x. (major x, minor x)) items)"
    using register_items_fails [OF Inl registered_start] by simp
  with Inl show ?thesis by (simp add: registry_init_def registry_ok_def)
next
  case (Inr kv)
  obtain keys versions where kv: "kv = (keys, versions)" by fastforce
  have R: "registered major minor items keys versions"
    using register_items_Inr [OF _ registered_start] Inr kv by fastforce
  then have d: "distinct (map fst versions)" "keys = [] \<longleftrightarrow> items = []" "fst ` set versions = major ` set items"
    by (auto simp: registered_def)
  have d2: "distinct (map (\<lambda>x. (major x, minor x)) items)"
  proof -
    have "map fst keys = map (\<lambda>x. (major x, minor x)) items" using R by (simp add: registered_def)
    then show ?thesis using R by (simp add: registered_def)
  qed
  have "filter (\<lambda>p. fst p \<notin> major ` set items) current = [] \<longleftrightarrow> (\<forall>p \<in> set current. fst p \<in> major ` set items)"
    by (simp add: filter_empty_conv)
  moreover have "(\<forall>(k, vs) \<in> set versions. \<exists>v. chosen current k vs = Some v \<and> map_of keys (k, v) \<noteq> None) \<longleftrightarrow>
      (\<forall>x \<in> set items. \<exists>v. chosen current (major x) (versions_of major minor items (major x)) = Some v \<and>
        v \<in> set (versions_of major minor items (major x)))"
    unfolding registered_lookup [OF R] by (rule registered_quantify [OF R])
  ultimately show ?thesis
    using d d2 by (simp add: registry_init_def Inr kv res_simps registry_ok_def select_versions_Inr) 
qed

section \<open>Lookup\<close>

lemma map_of_keyed:
  "distinct (map f xs) \<Longrightarrow> map_of (map (\<lambda>x. (f x, x)) xs) k = Some y \<longleftrightarrow> y \<in> set xs \<and> f y = k"
  by (induction xs) (auto simp: image_iff)

lemma registry_init_fields:
  assumes "registry_init major minor items current = Inr r"
  shows "by_key r = map (\<lambda>x. ((major x, minor x), x)) items"
    and "distinct (map (\<lambda>x. (major x, minor x)) items)"
    and "map_of (current_versions r) k = (if k \<in> major ` set items
      then chosen current k (versions_of major minor items k) else None)"
    and "items \<noteq> []"
proof -
  from assms obtain keys versions selected where
    reg: "register_items major minor items [] [] = Inr (keys, versions)" and "keys \<noteq> []" and
    sel: "select_versions keys versions current = Inr (selected, [])" and
    r: "r = \<lparr>by_key = keys, current_versions = selected\<rparr>"
    by (auto simp: registry_init_def res_simps)
  have R: "registered major minor items keys versions"
    using register_items_Inr [OF reg registered_start] by simp
  note R = registeredD [OF R]
  show "by_key r = map (\<lambda>x. ((major x, minor x), x)) items" by (simp add: r R(1))
  show "items \<noteq> []" using R(1) \<open>keys \<noteq> []\<close> by auto
  show "distinct (map (\<lambda>x. (major x, minor x)) items)" using R(2) unfolding R(1) by (simp add: comp_def)
  note s = sel [unfolded select_versions_Inr [OF R(3)]]
  have all: "\<forall>(k, vs) \<in> set versions. \<exists>v. chosen current k vs = Some v"
    using s [THEN conjunct1] by fast
  have sel: "selected = map (\<lambda>(k, vs). (k, the (chosen current k vs))) versions"
    by (rule s [THEN conjunct2, THEN conjunct1])
  have m: "map_of selected k = map_option (\<lambda>vs. the (chosen current k vs)) (map_of versions k)"
    unfolding sel by (induction versions) auto
  show "map_of (current_versions r) k = (if k \<in> major ` set items
      then chosen current k (versions_of major minor items k) else None)"
  proof (cases "map_of versions k")
    case None
    then have "k \<notin> major ` set items" using R(4) by (simp add: map_of_eq_None_iff)
    then show ?thesis using m None r by simp
  next
    case (Some vs)
    then have kv: "(k, vs) \<in> set versions" by (rule map_of_SomeD)
    then have "vs = versions_of major minor items k" using R(5) by auto
    moreover have "k \<in> major ` set items" using kv R(4) by (metis fst_conv image_eqI)
    moreover obtain v where "chosen current k vs = Some v" using all kv by fastforce
    ultimately show ?thesis using m Some r by simp
  qed
qed

lemma registry_resolve_Inr:
  assumes "registry_init major minor items current = Inr r"
  shows "registry_resolve e r k (Some v) = Inr x \<longleftrightarrow> x \<in> set items \<and> major x = k \<and> minor x = v"
    and "registry_resolve e r k None = Inr x \<longleftrightarrow> x \<in> set items \<and> major x = k \<and>
      chosen current k (versions_of major minor items k) = Some (minor x)"
proof -
  have look: "map_of (by_key r) (k, v) = Some x \<longleftrightarrow> x \<in> set items \<and> major x = k \<and> minor x = v" for v
    using map_of_keyed [OF registry_init_fields(2) [OF assms], of "(k, v)" x]
    unfolding registry_init_fields(1) [OF assms] by simp
  show "registry_resolve e r k (Some v) = Inr x \<longleftrightarrow> x \<in> set items \<and> major x = k \<and> minor x = v"
    by (simp add: registry_resolve_def res_simps look)
  have "registry_resolve e r k None = Inr x \<longleftrightarrow>
      (\<exists>v. map_of (current_versions r) k = Some v \<and> map_of (by_key r) (k, v) = Some x)"
    by (simp add: registry_resolve_def res_simps)
  then show "registry_resolve e r k None = Inr x \<longleftrightarrow> x \<in> set items \<and> major x = k \<and>
      chosen current k (versions_of major minor items k) = Some (minor x)"
    unfolding look registry_init_fields(3) [OF assms] by auto
qed

lemma registry_resolve_unknown:
  assumes "registry_resolve e r k v = Inl f"
  shows "f = e"
  using assms by (auto simp: registry_resolve_def res_bind_Inl_iff res_of_option_def split: option.splits)

text \<open>
  The interface the command service relies on: a registry that was built answers a lookup only with
  the item asked for, the current item can be found again under its own version, and every item that
  was registered can be found (the replay horizon).
\<close>

locale versioned_registry =
  fixes built :: "'r \<Rightarrow> bool"
    and resolve :: "'r \<Rightarrow> 'k \<Rightarrow> string option \<Rightarrow> 'v res"
    and items :: "'r \<Rightarrow> 'v list"
    and major :: "'v \<Rightarrow> 'k" and minor :: "'v \<Rightarrow> string"
  assumes resolve_version: "built r \<Longrightarrow>
      resolve r k (Some v) = Inr x \<longleftrightarrow> x \<in> set (items r) \<and> major x = k \<and> minor x = v"
    and resolve_current: "built r \<Longrightarrow> resolve r k None = Inr x \<Longrightarrow> x \<in> set (items r) \<and> major x = k"
    and current_total: "built r \<Longrightarrow> x \<in> set (items r) \<Longrightarrow> \<exists>y. resolve r (major x) None = Inr y"
begin

lemma current_is_retained: "built r \<Longrightarrow> resolve r k None = Inr x \<Longrightarrow> resolve r k (Some (minor x)) = Inr x"
  using resolve_version resolve_current by blast

lemma item_resolves: "built r \<Longrightarrow> x \<in> set (items r) \<Longrightarrow> resolve r (major x) (Some (minor x)) = Inr x"
  using resolve_version by blast

lemma items_unique:
  "built r \<Longrightarrow> x \<in> set (items r) \<Longrightarrow> y \<in> set (items r) \<Longrightarrow> major x = major y \<Longrightarrow> minor x = minor y \<Longrightarrow> x = y"
  by (metis item_resolves sum.inject(2))

end

definition CommandRegistry_built :: "CommandRegistry \<Rightarrow> bool" where
  "CommandRegistry_built r = (\<exists>ds cur. CommandRegistry_init ds cur = Inr r)"

definition PayloadSchemaRegistry_built :: "PayloadSchemaRegistry \<Rightarrow> bool" where
  "PayloadSchemaRegistry_built r = (\<exists>ss cur. PayloadSchemaRegistry_init ss cur = Inr r)"

lemma registry_resolve_current_total:
  assumes init: "registry_init major minor items current = Inr r" and x: "x \<in> set items"
  shows "\<exists>y. registry_resolve e r (major x) None = Inr y"
proof -
  have "registry_ok major minor items current" using init registry_init_Inr by blast
  then obtain v where v: "chosen current (major x) (versions_of major minor items (major x)) = Some v"
      "v \<in> set (versions_of major minor items (major x))"
    using x by (auto simp: registry_ok_def)
  then obtain y where "y \<in> set items" "major y = major x" "minor y = v" by (auto simp: versions_of_def)
  then have "registry_resolve e r (major x) None = Inr y"
    using registry_resolve_Inr(2) [OF init] v(1) by simp
  then show ?thesis by blast
qed

lemma set_items_sorted: "set (map snd (sort_key f (by_key r))) = snd ` set (by_key r)"
  by simp

interpretation command_registry: versioned_registry CommandRegistry_built CommandRegistry_resolve
  CommandRegistry_definitions cd_command_type cd_definition_version
proof
  fix r k v x assume "CommandRegistry_built r"
  then obtain ds cur where init: "registry_init cd_command_type cd_definition_version ds cur = Inr r"
    by (auto simp: CommandRegistry_built_def CommandRegistry_init_def)
  have ds: "set (CommandRegistry_definitions r) = set ds"
    unfolding CommandRegistry_definitions_def set_items_sorted registry_init_fields(1) [OF init] by force
  note res = registry_resolve_Inr [OF init]
  show "CommandRegistry_resolve r k (Some v) = Inr x \<longleftrightarrow>
      x \<in> set (CommandRegistry_definitions r) \<and> cd_command_type x = k \<and> cd_definition_version x = v"
    by (simp add: CommandRegistry_resolve_def res ds)
  show "CommandRegistry_resolve r k None = Inr x \<Longrightarrow>
      x \<in> set (CommandRegistry_definitions r) \<and> cd_command_type x = k"
    by (simp add: CommandRegistry_resolve_def res ds)
  show "x \<in> set (CommandRegistry_definitions r) \<Longrightarrow> \<exists>y. CommandRegistry_resolve r (cd_command_type x) None = Inr y"
    using registry_resolve_current_total [OF init] by (simp add: CommandRegistry_resolve_def ds)
qed

interpretation schema_registry: versioned_registry PayloadSchemaRegistry_built
  "\<lambda>r k. PayloadSchemaRegistry_resolve r (fst k) (snd k)" PayloadSchemaRegistry_contracts
  "\<lambda>s. (ps_schema_version s, ps_payload_mode s)" ps_contract_version
proof
  fix r k v x assume "PayloadSchemaRegistry_built r"
  then obtain ss cur where
    init: "registry_init (\<lambda>s. (ps_schema_version s, ps_payload_mode s)) ps_contract_version ss cur = Inr r"
    by (auto simp: PayloadSchemaRegistry_built_def PayloadSchemaRegistry_init_def)
  have ss: "set (PayloadSchemaRegistry_contracts r) = set ss"
    unfolding PayloadSchemaRegistry_contracts_def set_items_sorted registry_init_fields(1) [OF init] by force
  note res = registry_resolve_Inr [OF init]
  show "PayloadSchemaRegistry_resolve r (fst k) (snd k) (Some v) = Inr x \<longleftrightarrow>
      x \<in> set (PayloadSchemaRegistry_contracts r) \<and> (ps_schema_version x, ps_payload_mode x) = k \<and>
      ps_contract_version x = v"
    by (simp add: PayloadSchemaRegistry_resolve_def res ss)
  show "PayloadSchemaRegistry_resolve r (fst k) (snd k) None = Inr x \<Longrightarrow>
      x \<in> set (PayloadSchemaRegistry_contracts r) \<and> (ps_schema_version x, ps_payload_mode x) = k"
    by (simp add: PayloadSchemaRegistry_resolve_def res ss)
  show "x \<in> set (PayloadSchemaRegistry_contracts r) \<Longrightarrow>
      \<exists>y. PayloadSchemaRegistry_resolve r (fst (ps_schema_version x, ps_payload_mode x))
        (snd (ps_schema_version x, ps_payload_mode x)) None = Inr y"
    using registry_resolve_current_total [OF init] by (simp add: PayloadSchemaRegistry_resolve_def ss)
qed

section \<open>Properties\<close>

text \<open>
  The command registry is built exactly when there is a definition, no type and version occurs
  twice, every requested current version exists for a known type, and a type with several retained
  versions names its current one.
\<close>

theorem command_registry_accepts:
  "(\<exists>r. CommandRegistry_init definitions current = Inr r) \<longleftrightarrow>
     registry_ok cd_command_type cd_definition_version definitions current"
  unfolding CommandRegistry_init_def by (rule registry_init_Inr)

text \<open>
  A built command registry retains its whole history: a lookup with a version returns exactly the
  definition registered under that type and version, a lookup without one returns the requested
  current version (or the only one), and anything else raises \<open>UnknownCommandDefinition\<close>.
\<close>

theorem command_registry_resolves:
  assumes "CommandRegistry_init definitions current = Inr r"
  shows "case CommandRegistry_resolve r t version of
      Inr d \<Rightarrow> d \<in> set definitions \<and> cd_command_type d = t \<and>
        (case version of
           Some v \<Rightarrow> cd_definition_version d = v
         | None \<Rightarrow> chosen current t (versions_of cd_command_type cd_definition_version definitions t)
             = Some (cd_definition_version d))
    | Inl e \<Rightarrow> exn_class_of e = UnknownCommandDefinition \<and>
        (case version of
           Some v \<Rightarrow> \<forall>d \<in> set definitions. \<not> (cd_command_type d = t \<and> cd_definition_version d = v)
         | None \<Rightarrow> \<forall>d \<in> set definitions. cd_command_type d \<noteq> t)"
proof -
  have init: "registry_init cd_command_type cd_definition_version definitions current = Inr r"
    using assms by (simp add: CommandRegistry_init_def)
  note res = registry_resolve_Inr [OF init]
  show ?thesis
  proof (cases "CommandRegistry_resolve r t version")
    case (Inl e)
    then have "exn_class_of e = UnknownCommandDefinition"
      using registry_resolve_unknown by (fastforce simp: CommandRegistry_resolve_def)
    moreover have "cd_command_type d \<noteq> t" if "version = None" "d \<in> set definitions" for d
      using registry_resolve_current_total [OF init that(2),
          of "Exn UnknownCommandDefinition ''unknown command definition''"] Inl that(1)
      by (auto simp: CommandRegistry_resolve_def)
    moreover have "\<not> (cd_command_type d = t \<and> cd_definition_version d = v)"
      if "version = Some v" "d \<in> set definitions" for d v
      using res(1) [of _ t v d] Inl that by (auto simp: CommandRegistry_resolve_def)
    ultimately show ?thesis using Inl by (simp split: option.splits)
  next
    case (Inr d)
    then show ?thesis using res by (auto simp: CommandRegistry_resolve_def split: option.splits)
  qed
qed

definition sample_definition :: CommandDefinition where
  "sample_definition = \<lparr>cd_command_type = ''note.add'', cd_definition_version = ''v1'',
     cd_aggregate_type = ''note'', cd_event_type = ''note.added'', cd_event_schema_version = 1,
     cd_payload_mode = NO_PAYLOAD, cd_payload_schema_version = ''none'',
     cd_payload_schema_contract_version = ''c1'',
     cd_payload_schema_contract_digest = ''sha256:'' @ replicate 64 (CHR ''0''),
     cd_payload_canonicalizer_version = ''k1'', cd_trust_scope = PROPOSED, cd_security_scope = ''internal'',
     cd_retention_scope = ''short'', cd_required_scope = ''note.write'', cd_max_inline_bytes = 0,
     cd_required_object_class = None, cd_required_allowed_use = None\<rparr>"

lemma sample_registry:
  "CommandRegistry_init [sample_definition] [] =
     Inr \<lparr>by_key = [((''note.add'', ''v1''), sample_definition)], current_versions = [(''note.add'', ''v1'')]\<rparr>"
  by (simp add: CommandRegistry_init_def registry_init_def sample_definition_def)

theorem command_registry_resolves_witness:
  "\<exists>r d. CommandRegistry_init [sample_definition] [] = Inr r \<and>
     CommandRegistry_resolve r ''note.add'' None = Inr d \<and> d = sample_definition"
  using command_registry_resolves [OF sample_registry, of "''note.add''" None] sample_registry
  by (auto simp: sample_definition_def split: sum.splits)

lemma golden_value_wf [simp]: "wf_pyval (PayloadGoldenVector_canonical_value v)"
  by (simp add: PayloadGoldenVector_canonical_value_def obj_wf)

lemma contract_value_wf [simp]: "wf_pyval (PayloadSchemaContract_canonical_value s)"
  by (simp add: PayloadSchemaContract_canonical_value_def obj_wf)

lemma golden_view_eq:
  "view (PayloadGoldenVector_canonical_value v) = view (PayloadGoldenVector_canonical_value w) \<Longrightarrow>
     gv_name v = gv_name w \<and> gv_input_identity v = gv_input_identity w \<and>
     digest_bytes (gv_expected_bytes v) = digest_bytes (gv_expected_bytes w)"
  by (simp add: PayloadGoldenVector_canonical_value_def obj_view_eq)

lemma contract_view_golden:
  assumes "view (PayloadSchemaContract_canonical_value s) = view (PayloadSchemaContract_canonical_value t)"
    and "v \<in> set (ps_golden_vectors s)"
  shows "\<exists>w \<in> set (ps_golden_vectors t).
    view (PayloadGoldenVector_canonical_value v) = view (PayloadGoldenVector_canonical_value w)"
proof -
  have "map view (map PayloadGoldenVector_canonical_value (sort_key gv_name (ps_golden_vectors s))) =
      map view (map PayloadGoldenVector_canonical_value (sort_key gv_name (ps_golden_vectors t)))"
    using assms(1) by (simp add: PayloadSchemaContract_canonical_value_def obj_view_eq del: map_map)
  from arg_cong [OF this, of set]
  have "(\<lambda>v. view (PayloadGoldenVector_canonical_value v)) ` set (ps_golden_vectors s) =
      (\<lambda>v. view (PayloadGoldenVector_canonical_value v)) ` set (ps_golden_vectors t)"
    by (simp add: image_image)
  with assms(2) show ?thesis by auto
qed

text \<open>
  An implementation cannot keep its contract digest while changing covered behaviour: if two
  accepted contracts have the same digest, every golden input of the first is a golden input of the
  second, of the same name and identity, on which both canonicalisers return the same bytes, unless
  the digest of one of the two pairs of byte strings named here collides.
\<close>

theorem contract_digest_covers_behaviour:
  assumes "PayloadSchemaContract_post_init s = Inr ()" and "PayloadSchemaContract_post_init t = Inr ()"
    and "PayloadSchemaContract_contract_digest s = Inr d" and "PayloadSchemaContract_contract_digest t = Inr d"
    and "v \<in> set (ps_golden_vectors s)"
  shows "(\<exists>w \<in> set (ps_golden_vectors t). gv_name w = gv_name v \<and> gv_input_identity w = gv_input_identity v \<and>
       (PayloadSchemaContract_canonicalize t (gv_value w) = PayloadSchemaContract_canonicalize s (gv_value v)
        \<or> collides (gv_expected_bytes v) (gv_expected_bytes w)))
     \<or> (\<exists>a b. canonical_json_bytes (PayloadSchemaContract_canonical_value s) = Inr a \<and>
          canonical_json_bytes (PayloadSchemaContract_canonical_value t) = Inr b \<and> collides a b)"
proof (cases "view (PayloadSchemaContract_canonical_value s) = view (PayloadSchemaContract_canonical_value t)")
  case True
  then obtain w where w: "w \<in> set (ps_golden_vectors t)"
      "view (PayloadGoldenVector_canonical_value v) = view (PayloadGoldenVector_canonical_value w)"
    using contract_view_golden assms(5) by blast
  have out: "PayloadSchemaContract_canonicalize c (gv_value x) = Inr (gv_expected_bytes x)"
    if "PayloadSchemaContract_post_init c = Inr ()" "x \<in> set (ps_golden_vectors c)" for c x
    using that by (auto simp: PayloadSchemaContract_post_init_def check_golden_vector_def res_simps)
  note same = golden_view_eq [OF w(2)]
  have "gv_expected_bytes v = gv_expected_bytes w \<or> collides (gv_expected_bytes v) (gv_expected_bytes w)"
    using same digest_bytes_collides by blast
  then have "gv_name w = gv_name v \<and> gv_input_identity w = gv_input_identity v \<and>
      (PayloadSchemaContract_canonicalize t (gv_value w) = PayloadSchemaContract_canonicalize s (gv_value v)
        \<or> collides (gv_expected_bytes v) (gv_expected_bytes w))"
    using same out [OF assms(1,5)] out [OF assms(2) w(1)] by auto
  with w(1) show ?thesis by blast
next
  case False
  then show ?thesis
    using digest_canonical_collides [OF contract_value_wf contract_value_wf assms(3,4)
      [unfolded PayloadSchemaContract_contract_digest_def]] by blast
qed

definition sample_contract :: PayloadSchemaContract where
  "sample_contract = \<lparr>ps_schema_version = ''none'', ps_payload_mode = NO_PAYLOAD, ps_contract_version = ''c1'',
     ps_canonicalizer_implementation_version = ''k1'', ps_canonicalizer = (\<lambda>_. Inr []),
     ps_golden_vectors = [\<lparr>gv_name = ''empty'', gv_input_identity = ''none'', gv_value = Plain PNone,
       gv_expected_bytes = []\<rparr>]\<rparr>"

lemma sample_contract_ok: "PayloadSchemaContract_post_init sample_contract = Inr ()"
  by (simp add: PayloadSchemaContract_post_init_def sample_contract_def check_golden_vector_def
      PayloadSchemaContract_canonicalize_def res_simps token_match_def is_alpha_def token_char_def is_digit_def)

lemma sample_contract_digest: "\<exists>d. PayloadSchemaContract_contract_digest sample_contract = Inr d"
  unfolding PayloadSchemaContract_contract_digest_def digest_canonical_encodable [OF contract_value_wf]
  by (simp add: PayloadSchemaContract_canonical_value_def sample_contract_def obj_encodable
      PayloadGoldenVector_canonical_value_def safe_int_def MIN_SAFE_INTEGER_def MAX_SAFE_INTEGER_def)

theorem contract_digest_covers_behaviour_witness:
  "\<exists>v \<in> set (ps_golden_vectors sample_contract).
     (\<exists>w \<in> set (ps_golden_vectors sample_contract). gv_name w = gv_name v)"
proof -
  obtain v where v: "v \<in> set (ps_golden_vectors sample_contract)"
    by (simp add: sample_contract_def)
  obtain d where d: "PayloadSchemaContract_contract_digest sample_contract = Inr d"
    using sample_contract_digest by blast
  show ?thesis
    using contract_digest_covers_behaviour [OF sample_contract_ok sample_contract_ok d d v] v
    by (auto simp: collides_def)
qed

end
