(* ===== verification/Security.thy ===== *)
theory Security
  imports Registries
begin

text \<open>
  \<open>src/newsroom/authority/_security.py\<close> and \<open>auth.py\<close>: verified authentication contexts,
  authorization requests and decisions, and the two server-side adapters \<open>StaticAuthenticator\<close> and
  \<open>StaticAuthorizer\<close>. Identifiers drawn with \<open>uuid4\<close> are arguments (\<open>fresh\<close>); instants are
  microseconds; a mapping is an association list and a frozenset of scopes is the list of its elements.
\<close>

section \<open>Authentication contexts\<close>

definition authentication_error :: "string \<Rightarrow> exn" where
  "authentication_error m = Exn AuthenticationError m"

record VerifiedAuthenticationContext =
  vc_authentication_context_id :: string
  vc_principal_id :: string
  vc_authority_domain :: string
  vc_authentication_method :: string
  vc_assurance_class :: string
  vc_credential_binding_digest :: string
  vc_authenticated_at :: int
  vc_expires_at :: int

definition VerifiedAuthenticationContext_post_init :: "VerifiedAuthenticationContext \<Rightarrow> unit res" where
  "VerifiedAuthenticationContext_post_init c =
     res_bind (require_tokens [vc_principal_id c, vc_authority_domain c, vc_authentication_method c,
       vc_assurance_class c]) (\<lambda>_.
     res_bind (validate_sha256_digest (vc_credential_binding_digest c)) (\<lambda>normalized.
     require (normalized = vc_credential_binding_digest c)
       (authentication_error ''credential binding digest must be canonical lowercase'')
     (require (\<not> vc_expires_at c \<le> vc_authenticated_at c)
       (authentication_error ''authentication expiry must follow authentication time'')
     (Inr ()))))"

definition require_current :: "VerifiedAuthenticationContext \<Rightarrow> int \<Rightarrow> unit res" where
  "require_current c now =
     require (\<not> now < vc_authenticated_at c)
       (authentication_error ''authentication context is not yet valid'')
     (require (\<not> vc_expires_at c \<le> now)
       (authentication_error ''authentication context has expired'')
     (Inr ()))"

definition VerifiedAuthenticationContext_canonical_value :: "VerifiedAuthenticationContext \<Rightarrow> pyval" where
  "VerifiedAuthenticationContext_canonical_value c = obj [
     (''authentication_context_id'', jtext (vc_authentication_context_id c)),
     (''principal_id'', jtext (vc_principal_id c)),
     (''authority_domain'', jtext (vc_authority_domain c)),
     (''authentication_method'', jtext (vc_authentication_method c)),
     (''assurance_class'', jtext (vc_assurance_class c)),
     (''credential_binding_digest'', jtext (vc_credential_binding_digest c)),
     (''authenticated_at'', jtext (UtcTimestamp_to_text (vc_authenticated_at c))),
     (''expires_at'', jtext (UtcTimestamp_to_text (vc_expires_at c)))]"

definition VerifiedAuthenticationContext_digest :: "VerifiedAuthenticationContext \<Rightarrow> string res" where
  "VerifiedAuthenticationContext_digest c = digest_canonical (VerifiedAuthenticationContext_canonical_value c)"

section \<open>Authorization requests\<close>

record AuthorizationRequest =
  ar_authentication_context_id :: string
  ar_principal_id :: string
  ar_authority_domain :: string
  ar_operation_type :: string
  ar_required_scope :: string
  ar_stable_semantic_request_digest :: string
  ar_command_definition_digest :: string
  ar_aggregate_type :: string
  ar_aggregate_id :: string
  ar_event_type :: string
  ar_event_schema_version :: int
  ar_payload_mode :: string
  ar_payload_schema_version :: string
  ar_payload_schema_contract_version :: string
  ar_payload_schema_contract_digest :: string
  ar_payload_canonicalizer_version :: string
  ar_trust_scope :: string
  ar_security_scope :: string
  ar_retention_scope :: string
  ar_object_class :: "string option"
  ar_allowed_use :: "string option"
  ar_request_digest :: string

definition request_fields :: "AuthorizationRequest \<Rightarrow> (string \<times> pyval) list" where
  "request_fields r = [
     (''authentication_context_id'', jtext (ar_authentication_context_id r)),
     (''principal_id'', jtext (ar_principal_id r)),
     (''authority_domain'', jtext (ar_authority_domain r)),
     (''operation_type'', jtext (ar_operation_type r)),
     (''required_scope'', jtext (ar_required_scope r)),
     (''stable_semantic_request_digest'', jtext (ar_stable_semantic_request_digest r)),
     (''command_definition_digest'', jtext (ar_command_definition_digest r)),
     (''aggregate_type'', jtext (ar_aggregate_type r)),
     (''aggregate_id'', jtext (ar_aggregate_id r)),
     (''event_type'', jtext (ar_event_type r)),
     (''event_schema_version'', jnum (ar_event_schema_version r)),
     (''payload_mode'', jtext (ar_payload_mode r)),
     (''payload_schema_version'', jtext (ar_payload_schema_version r)),
     (''payload_schema_contract_version'', jtext (ar_payload_schema_contract_version r)),
     (''payload_schema_contract_digest'', jtext (ar_payload_schema_contract_digest r)),
     (''payload_canonicalizer_version'', jtext (ar_payload_canonicalizer_version r)),
     (''trust_scope'', jtext (ar_trust_scope r)),
     (''security_scope'', jtext (ar_security_scope r)),
     (''retention_scope'', jtext (ar_retention_scope r)),
     (''object_class'', jopt (ar_object_class r)),
     (''allowed_use'', jopt (ar_allowed_use r))]"

definition AuthorizationRequest_unsigned_value :: "AuthorizationRequest \<Rightarrow> pyval" where
  "AuthorizationRequest_unsigned_value r = obj (request_fields r)"

definition AuthorizationRequest_computed_digest :: "AuthorizationRequest \<Rightarrow> string res" where
  "AuthorizationRequest_computed_digest r = digest_canonical (AuthorizationRequest_unsigned_value r)"

definition AuthorizationRequest_canonical_value :: "AuthorizationRequest \<Rightarrow> pyval" where
  "AuthorizationRequest_canonical_value r =
     obj (request_fields r @ [(''request_digest'', jtext (ar_request_digest r))])"

definition AuthorizationRequest_digest :: "AuthorizationRequest \<Rightarrow> string res" where
  "AuthorizationRequest_digest r = digest_canonical (AuthorizationRequest_canonical_value r)"

definition require_optional_token :: "string option \<Rightarrow> unit res" where
  "require_optional_token m = (case m of None \<Rightarrow> Inr () | Some s \<Rightarrow> require_token s)"

definition AuthorizationRequest_post_init :: "AuthorizationRequest \<Rightarrow> unit res" where
  "AuthorizationRequest_post_init r =
     res_bind (require_tokens [ar_principal_id r, ar_authority_domain r, ar_operation_type r]) (\<lambda>_.
     res_bind (require_scope (ar_required_scope r)) (\<lambda>_.
     res_bind (validate_sha256_digest (ar_stable_semantic_request_digest r)) (\<lambda>_.
     res_bind (validate_sha256_digest (ar_command_definition_digest r)) (\<lambda>_.
     res_bind (require_token (ar_aggregate_type r)) (\<lambda>_.
     require (ar_aggregate_id r \<noteq> []) (value_error ''aggregate_id must be non-empty'')
     (res_bind (require_token (ar_event_type r)) (\<lambda>_.
     require (\<not> ar_event_schema_version r \<le> 0) (value_error ''event_schema_version must be positive'')
     (res_bind (require_tokens [ar_payload_mode r, ar_payload_schema_version r,
       ar_payload_schema_contract_version r]) (\<lambda>_.
     res_bind (validate_sha256_digest (ar_payload_schema_contract_digest r)) (\<lambda>_.
     res_bind (require_tokens [ar_payload_canonicalizer_version r, ar_trust_scope r]) (\<lambda>_.
     res_bind (require_scopes [ar_security_scope r, ar_retention_scope r]) (\<lambda>_.
     res_bind (require_optional_token (ar_object_class r)) (\<lambda>_.
     res_bind (require_optional_token (ar_allowed_use r)) (\<lambda>_.
     res_bind (validate_sha256_digest (ar_request_digest r)) (\<lambda>_.
     res_bind (AuthorizationRequest_computed_digest r) (\<lambda>computed.
     require (ar_request_digest r = computed)
       (value_error ''authorization request digest does not match exact request'')
     (Inr ())))))))))))))))))"

section \<open>Authorization decisions\<close>

record AuthorizationDecision =
  ad_authorization_decision_id :: string
  ad_authentication_context_id :: string
  ad_authorization_request_digest :: string
  ad_authorization_policy_version :: string
  ad_effective_scopes :: "string list"
  ad_effective_scope_digest :: string
  ad_allowed :: bool
  ad_reason_code :: string
  ad_decided_at :: int

definition AuthorizationDecision_post_init :: "AuthorizationDecision \<Rightarrow> unit res" where
  "AuthorizationDecision_post_init d =
     res_bind (validate_sha256_digest (ad_authorization_request_digest d)) (\<lambda>_.
     res_bind (require_token (ad_authorization_policy_version d)) (\<lambda>_.
     require (sorted_unique (ad_effective_scopes d))
       (value_error ''effective_scopes must be sorted and unique'')
     (res_bind (require_scopes (ad_effective_scopes d)) (\<lambda>_.
     res_bind (validate_sha256_digest (ad_effective_scope_digest d)) (\<lambda>normalized.
     require (normalized = ad_effective_scope_digest d)
       (value_error ''effective scope digest must be canonical lowercase'')
     (require_token (ad_reason_code d)))))))"

definition authorization_denied :: "AuthorizationDecision \<Rightarrow> exn" where
  "authorization_denied d = Exn AuthorizationDenied (''authorization denied: '' @ ad_reason_code d)"

definition require_allowed :: "AuthorizationDecision \<Rightarrow> unit res" where
  "require_allowed d = require (ad_allowed d) (authorization_denied d) (Inr ())"

definition AuthorizationDecision_canonical_value :: "AuthorizationDecision \<Rightarrow> pyval" where
  "AuthorizationDecision_canonical_value d = obj [
     (''authorization_decision_id'', jtext (ad_authorization_decision_id d)),
     (''authentication_context_id'', jtext (ad_authentication_context_id d)),
     (''authorization_request_digest'', jtext (ad_authorization_request_digest d)),
     (''authorization_policy_version'', jtext (ad_authorization_policy_version d)),
     (''effective_scopes'', jlist (map jtext (ad_effective_scopes d))),
     (''effective_scope_digest'', jtext (ad_effective_scope_digest d)),
     (''allowed'', jflag (ad_allowed d)),
     (''reason_code'', jtext (ad_reason_code d)),
     (''decided_at'', jtext (UtcTimestamp_to_text (ad_decided_at d)))]"

definition AuthorizationDecision_digest :: "AuthorizationDecision \<Rightarrow> string res" where
  "AuthorizationDecision_digest d = digest_canonical (AuthorizationDecision_canonical_value d)"

definition effective_scope_digest :: "VerifiedAuthenticationContext \<Rightarrow> string list \<Rightarrow> string res" where
  "effective_scope_digest c scopes =
     res_bind (VerifiedAuthenticationContext_digest c) (\<lambda>d.
     digest_canonical (obj [
       (''authentication_context_digest'', jtext d),
       (''effective_scopes'', jlist (map jtext scopes))]))"

section \<open>The adapters\<close>

record AuthenticationProof =
  ap_method :: string
  ap_credential :: string

definition AuthenticationProof_post_init :: "AuthenticationProof \<Rightarrow> unit res" where
  "AuthenticationProof_post_init p =
     res_bind (require_token (ap_method p)) (\<lambda>_.
     require (ap_credential p \<noteq> []) (authentication_error ''authentication credential must be non-empty'')
       (Inr ()))"

record StaticPrincipal =
  sp_principal_id :: string
  sp_assurance_class :: string
  sp_credential_binding_id :: "string option"

definition StaticPrincipal_post_init :: "StaticPrincipal \<Rightarrow> unit res" where
  "StaticPrincipal_post_init p =
     res_bind (require_tokens [sp_principal_id p, sp_assurance_class p]) (\<lambda>_.
     require_optional_token (sp_credential_binding_id p))"

definition binding_id :: "StaticPrincipal \<Rightarrow> string" where
  "binding_id p = (if or_empty (sp_credential_binding_id p) \<noteq> [] then or_empty (sp_credential_binding_id p)
     else ''static:'' @ sp_principal_id p)"

record StaticAuthenticator =
  sa_credentials :: "(string \<times> StaticPrincipal) list"
  sa_authority_domain :: string
  sa_method :: string
  sa_ttl_seconds :: int

definition StaticAuthenticator_init :: "StaticAuthenticator \<Rightarrow> unit res" where
  "StaticAuthenticator_init a =
     require (sa_credentials a \<noteq> []) (value_error ''static authenticator requires at least one credential'')
     (res_bind (require_tokens [sa_authority_domain a, sa_method a]) (\<lambda>_.
     require (\<not> sa_ttl_seconds a \<le> 0) (value_error ''ttl_seconds must be positive'') (Inr ())))"

definition StaticAuthenticator_authenticate ::
  "StaticAuthenticator \<Rightarrow> string \<Rightarrow> AuthenticationProof \<Rightarrow> int \<Rightarrow> VerifiedAuthenticationContext res" where
  "StaticAuthenticator_authenticate a fresh pf now =
     require (ap_method pf = sa_method a) (authentication_error ''unsupported authentication method'')
     (res_bind (res_of_option (authentication_error ''invalid authentication credential'')
       (map_of (sa_credentials a) (ap_credential pf))) (\<lambda>principal.
     require (now + sa_ttl_seconds a * 1000000 < MAX_INSTANT) (Exn OverflowError ''date value out of range'')
     (res_bind (digest_canonical (obj [
       (''authority_domain'', jtext (sa_authority_domain a)),
       (''method'', jtext (sa_method a)),
       (''credential_binding_id'', jtext (binding_id principal)),
       (''principal_id'', jtext (sp_principal_id principal))])) (\<lambda>binding.
     let c = \<lparr>vc_authentication_context_id = fresh, vc_principal_id = sp_principal_id principal,
              vc_authority_domain = sa_authority_domain a, vc_authentication_method = sa_method a,
              vc_assurance_class = sp_assurance_class principal, vc_credential_binding_digest = binding,
              vc_authenticated_at = now, vc_expires_at = now + sa_ttl_seconds a * 1000000\<rparr>
     in res_bind (VerifiedAuthenticationContext_post_init c) (\<lambda>_. Inr c)))))"

record StaticAuthorizer =
  sz_policy_version :: string
  sz_grants_by_principal :: "(string \<times> string list) list"

definition StaticAuthorizer_init :: "StaticAuthorizer \<Rightarrow> unit res" where
  "StaticAuthorizer_init z =
     res_bind (require_token (sz_policy_version z)) (\<lambda>_.
     for_each (\<lambda>(p, scopes). res_bind (require_token p) (\<lambda>_. require_scopes scopes))
       (sz_grants_by_principal z))"

definition granted_scopes :: "StaticAuthorizer \<Rightarrow> string \<Rightarrow> string list" where
  "granted_scopes z p =
     (case map_of (sz_grants_by_principal z) p of None \<Rightarrow> [] | Some scopes \<Rightarrow> sort (remdups scopes))"

definition make_decision ::
  "StaticAuthorizer \<Rightarrow> string \<Rightarrow> VerifiedAuthenticationContext \<Rightarrow> AuthorizationRequest \<Rightarrow> int \<Rightarrow> string list
    \<Rightarrow> bool \<Rightarrow> string \<Rightarrow> AuthorizationDecision res" where
  "make_decision z fresh c r now scopes allowed reason =
     res_bind (effective_scope_digest c scopes) (\<lambda>sd.
     let d = \<lparr>ad_authorization_decision_id = fresh,
              ad_authentication_context_id = vc_authentication_context_id c,
              ad_authorization_request_digest = ar_request_digest r,
              ad_authorization_policy_version = sz_policy_version z,
              ad_effective_scopes = scopes, ad_effective_scope_digest = sd, ad_allowed = allowed,
              ad_reason_code = reason, ad_decided_at = now\<rparr>
     in res_bind (AuthorizationDecision_post_init d) (\<lambda>_. Inr d))"

definition StaticAuthorizer_denial ::
  "StaticAuthorizer \<Rightarrow> string \<Rightarrow> VerifiedAuthenticationContext \<Rightarrow> AuthorizationRequest \<Rightarrow> int \<Rightarrow> string
    \<Rightarrow> AuthorizationDecision res" where
  "StaticAuthorizer_denial z fresh c r now reason =
     res_bind (make_decision z fresh c r now [] False reason) (\<lambda>d. Inl (authorization_denied d))"

definition StaticAuthorizer_authorize ::
  "StaticAuthorizer \<Rightarrow> string \<Rightarrow> VerifiedAuthenticationContext \<Rightarrow> AuthorizationRequest \<Rightarrow> int
    \<Rightarrow> AuthorizationDecision res" where
  "StaticAuthorizer_authorize z fresh c r now =
     res_bind (require_current c now) (\<lambda>_.
     if ar_authentication_context_id r \<noteq> vc_authentication_context_id c
       then StaticAuthorizer_denial z fresh c r now ''AUTHZ_CONTEXT_MISMATCH''
     else if ar_principal_id r \<noteq> vc_principal_id c
       then StaticAuthorizer_denial z fresh c r now ''AUTHZ_PRINCIPAL_MISMATCH''
     else if ar_authority_domain r \<noteq> vc_authority_domain c
       then StaticAuthorizer_denial z fresh c r now ''AUTHZ_DOMAIN_MISMATCH''
     else
       let scopes = granted_scopes z (vc_principal_id c);
           allowed = ar_required_scope r \<in> set scopes
       in make_decision z fresh c r now scopes allowed
            (if allowed then ''AUTHZ_ALLOWED'' else ''AUTHZ_SCOPE_MISSING''))"

section \<open>What the records identify\<close>

interpretation auth_context: content_addressed VerifiedAuthenticationContext_canonical_value
  "\<lambda>c. instant (vc_authenticated_at c) \<and> instant (vc_expires_at c)"
proof
  show "wf_pyval (VerifiedAuthenticationContext_canonical_value c)" for c
    by (simp add: VerifiedAuthenticationContext_canonical_value_def obj_wf)
  show "x = y" if "instant (vc_authenticated_at x) \<and> instant (vc_expires_at x)"
    "instant (vc_authenticated_at y) \<and> instant (vc_expires_at y)"
    "view (VerifiedAuthenticationContext_canonical_value x) = view (VerifiedAuthenticationContext_canonical_value y)"
    for x y
    using that by (simp add: VerifiedAuthenticationContext_canonical_value_def obj_view_eq timestamp_text_eq)
qed

interpretation auth_request: content_addressed AuthorizationRequest_canonical_value "\<lambda>_. True"
proof
  show "wf_pyval (AuthorizationRequest_canonical_value r)" for r
    by (simp add: AuthorizationRequest_canonical_value_def request_fields_def obj_wf)
  show "x = y" if "view (AuthorizationRequest_canonical_value x) = view (AuthorizationRequest_canonical_value y)"
    for x y
    using that by (simp add: AuthorizationRequest_canonical_value_def request_fields_def obj_view_eq)
qed

interpretation auth_decision: content_addressed AuthorizationDecision_canonical_value
  "\<lambda>d. instant (ad_decided_at d)"
proof
  show "wf_pyval (AuthorizationDecision_canonical_value d)" for d
    by (simp add: AuthorizationDecision_canonical_value_def obj_wf)
  show "x = y" if "instant (ad_decided_at x)" "instant (ad_decided_at y)"
    "view (AuthorizationDecision_canonical_value x) = view (AuthorizationDecision_canonical_value y)" for x y
    using that
    by (simp add: AuthorizationDecision_canonical_value_def obj_view_eq timestamp_text_eq del: map_map)
qed

section \<open>The adapters keep their contracts\<close>

lemma require_current_Inr [res_simps]:
  "require_current c now = Inr u \<longleftrightarrow> vc_authenticated_at c \<le> now \<and> now < vc_expires_at c"
  by (auto simp: require_current_def res_simps)

lemma require_current_Inl: "require_current c now = Inl e \<Longrightarrow> exn_class_of e = AuthenticationError"
  by (auto simp: require_current_def require_Inl_iff authentication_error_def)

lemma require_allowed_Inr [res_simps]: "require_allowed d = Inr u \<longleftrightarrow> ad_allowed d"
  by (auto simp: require_allowed_def res_simps)

lemma digest_canonical_obj_total:
  "wf_pyval (obj kvs) \<Longrightarrow> \<forall>p \<in> set kvs. encodable (snd p) \<Longrightarrow> \<exists>d. digest_canonical (obj kvs) = Inr d \<and> digest_text d"
  using digest_canonical_encodable [of "obj kvs"] digest_canonical_text by (auto simp: obj_encodable)

lemma context_digest_total: "\<exists>d. VerifiedAuthenticationContext_digest c = Inr d \<and> digest_text d"
  unfolding VerifiedAuthenticationContext_digest_def VerifiedAuthenticationContext_canonical_value_def
  by (rule digest_canonical_obj_total) (simp_all add: obj_wf)

lemma effective_scope_digest_total: "\<exists>d. effective_scope_digest c scopes = Inr d \<and> digest_text d"
proof -
  obtain g where g: "VerifiedAuthenticationContext_digest c = Inr g" using context_digest_total by blast
  show ?thesis
    unfolding effective_scope_digest_def g res_bind_simps
    by (rule digest_canonical_obj_total) (simp_all add: obj_wf)
qed

lemma granted_scopes_sorted: "sorted_unique (granted_scopes z p)"
  by (auto simp: granted_scopes_def sorted_unique_iff split: option.splits)

lemma granted_scopes_set:
  "s \<in> set (granted_scopes z p) \<longleftrightarrow> (\<exists>scopes. map_of (sz_grants_by_principal z) p = Some scopes \<and> s \<in> set scopes)"
  by (cases "map_of (sz_grants_by_principal z) p") (simp_all add: granted_scopes_def)

lemma granted_scopes_match:
  assumes "StaticAuthorizer_init z = Inr ()" and "s \<in> set (granted_scopes z p)"
  shows "scope_match s"
proof -
  from assms(2) obtain scopes where "(p, scopes) \<in> set (sz_grants_by_principal z)" "s \<in> set scopes"
    using map_of_SomeD by (fastforce simp: granted_scopes_set)
  then show ?thesis using assms(1) by (fastforce simp: StaticAuthorizer_init_def res_simps)
qed

lemma make_decision_total:
  assumes "StaticAuthorizer_init z = Inr ()" and "validate_sha256_digest (ar_request_digest r) = Inr g"
    and "sorted_unique scopes" and "\<forall>s \<in> set scopes. scope_match s" and "token_match reason"
  shows "\<exists>sd. effective_scope_digest c scopes = Inr sd \<and>
    make_decision z fresh c r now scopes allowed reason = Inr
     \<lparr>ad_authorization_decision_id = fresh, ad_authentication_context_id = vc_authentication_context_id c,
      ad_authorization_request_digest = ar_request_digest r, ad_authorization_policy_version = sz_policy_version z,
      ad_effective_scopes = scopes, ad_effective_scope_digest = sd, ad_allowed = allowed,
      ad_reason_code = reason, ad_decided_at = now\<rparr>"
proof -
  obtain sd where sd: "effective_scope_digest c scopes = Inr sd" "digest_text sd"
    using effective_scope_digest_total by blast
  have "require_token (sz_policy_version z) = Inr ()"
    using assms(1) by (simp add: StaticAuthorizer_init_def res_simps)
  moreover have "require_scopes scopes = Inr ()" "require_token reason = Inr ()"
    using assms(4,5) by (simp_all add: res_simps)
  ultimately show ?thesis
    using sd assms(2,3) digest_text_accepted [OF sd(2)]
    by (simp add: make_decision_def AuthorizationDecision_post_init_def)
qed

lemma make_decision_Inr:
  "make_decision z fresh c r now scopes allowed reason = Inr d \<Longrightarrow>
     effective_scope_digest c scopes = Inr (ad_effective_scope_digest d) \<and>
     ad_authentication_context_id d = vc_authentication_context_id c \<and>
     ad_authorization_request_digest d = ar_request_digest r \<and> ad_effective_scopes d = scopes \<and>
     ad_allowed d = allowed \<and> ad_reason_code d = reason \<and> ad_decided_at d = now"
  by (auto simp: make_decision_def Let_def res_simps)

lemma authorize_Inr:
  assumes "StaticAuthorizer_authorize z fresh c r now = Inr d"
  shows "require_current c now = Inr ()"
    and "ar_authentication_context_id r = vc_authentication_context_id c"
    and "ar_principal_id r = vc_principal_id c" and "ar_authority_domain r = vc_authority_domain c"
    and "make_decision z fresh c r now (granted_scopes z (vc_principal_id c)) (ad_allowed d) (ad_reason_code d) = Inr d"
    and "ad_allowed d \<longleftrightarrow> ar_required_scope r \<in> set (granted_scopes z (vc_principal_id c))"
  using assms make_decision_Inr
  by (auto simp: StaticAuthorizer_authorize_def StaticAuthorizer_denial_def res_simps Let_def
      split: if_splits)

text \<open>
  The interface between the command service and its security adapters: the context is current when it
  is issued, and a decision is bound to the context, to the exact request and to the provenance of its
  scopes, and allows only what the principal's scopes contain.
\<close>

locale security_adapters =
  fixes authenticate :: "'a \<Rightarrow> string \<Rightarrow> AuthenticationProof \<Rightarrow> int \<Rightarrow> VerifiedAuthenticationContext res"
    and authorize :: "'z \<Rightarrow> string \<Rightarrow> VerifiedAuthenticationContext \<Rightarrow> AuthorizationRequest \<Rightarrow> int
      \<Rightarrow> AuthorizationDecision res"
  assumes authenticated_window: "authenticate a fresh pf now = Inr c \<Longrightarrow>
      vc_authentication_context_id c = fresh \<and> vc_authenticated_at c = now \<and> now < vc_expires_at c"
    and decision_bound: "authorize z fresh c r now = Inr d \<Longrightarrow>
      ad_authentication_context_id d = vc_authentication_context_id c \<and>
      ad_authorization_request_digest d = ar_request_digest r \<and>
      effective_scope_digest c (ad_effective_scopes d) = Inr (ad_effective_scope_digest d) \<and>
      ad_decided_at d = now"
    and decision_scoped: "authorize z fresh c r now = Inr d \<Longrightarrow>
      ad_allowed d \<longleftrightarrow> ar_required_scope r \<in> set (ad_effective_scopes d)"
begin

lemma context_current: "authenticate a fresh pf now = Inr c \<Longrightarrow> require_current c now = Inr ()"
  using authenticated_window [of a fresh pf now c] by (simp add: res_simps)

lemma decided_within_context:
  assumes "authenticate a fresh pf now = Inr c" and "authorize z fresh' c r now = Inr d"
  shows "require_current c (ad_decided_at d) = Inr ()"
  using context_current [OF assms(1)] decision_bound [OF assms(2)] by simp

end

interpretation static_security: security_adapters StaticAuthenticator_authenticate StaticAuthorizer_authorize
proof
  fix a fresh pf now c z r d
  show "StaticAuthenticator_authenticate a fresh pf now = Inr c \<Longrightarrow>
      vc_authentication_context_id c = fresh \<and> vc_authenticated_at c = now \<and> now < vc_expires_at c"
    by (auto simp: StaticAuthenticator_authenticate_def VerifiedAuthenticationContext_post_init_def
        Let_def res_simps)
  show "StaticAuthorizer_authorize z fresh c r now = Inr d \<Longrightarrow>
      ad_authentication_context_id d = vc_authentication_context_id c \<and>
      ad_authorization_request_digest d = ar_request_digest r \<and>
      effective_scope_digest c (ad_effective_scopes d) = Inr (ad_effective_scope_digest d) \<and>
      ad_decided_at d = now"
    using make_decision_Inr [OF authorize_Inr(5), of z fresh c r now d] by simp
  show "StaticAuthorizer_authorize z fresh c r now = Inr d \<Longrightarrow>
      ad_allowed d \<longleftrightarrow> ar_required_scope r \<in> set (ad_effective_scopes d)"
    using make_decision_Inr [OF authorize_Inr(5), of z fresh c r now d] authorize_Inr(6) by simp
qed

section \<open>Properties\<close>

text \<open>
  The static authorizer on every branch: outside the validity window it raises
  \<open>AuthenticationError\<close>; a request for another context, principal or domain raises
  \<open>AuthorizationDenied\<close>; otherwise it returns a decision that allows the operation exactly when the
  required scope is granted to the principal, and that is bound to the context, the exact request and
  the digest of the granted scopes.
\<close>

theorem static_authorizer_decides:
  assumes "StaticAuthorizer_init z = Inr ()" and "validate_sha256_digest (ar_request_digest r) = Inr g"
  shows "case StaticAuthorizer_authorize z fresh c r now of
      Inl e \<Rightarrow>
        if vc_authenticated_at c \<le> now \<and> now < vc_expires_at c
        then exn_class_of e = AuthorizationDenied \<and>
          \<not> (ar_authentication_context_id r = vc_authentication_context_id c \<and>
             ar_principal_id r = vc_principal_id c \<and> ar_authority_domain r = vc_authority_domain c)
        else exn_class_of e = AuthenticationError
    | Inr d \<Rightarrow>
        vc_authenticated_at c \<le> now \<and> now < vc_expires_at c \<and>
        ar_principal_id r = vc_principal_id c \<and> ar_authority_domain r = vc_authority_domain c \<and>
        ad_authentication_context_id d = vc_authentication_context_id c \<and>
        ad_authorization_request_digest d = ar_request_digest r \<and>
        effective_scope_digest c (ad_effective_scopes d) = Inr (ad_effective_scope_digest d) \<and>
        (ad_allowed d \<longleftrightarrow> (\<exists>scopes. map_of (sz_grants_by_principal z) (vc_principal_id c) = Some scopes \<and>
           ar_required_scope r \<in> set scopes))"
proof (cases "StaticAuthorizer_authorize z fresh c r now")
  case (Inr d)
  then show ?thesis
    using authorize_Inr [OF Inr] static_security.decision_bound [OF Inr]
    by (simp add: granted_scopes_set res_simps)
next
  case (Inl e)
  have codes: "token_match ''AUTHZ_CONTEXT_MISMATCH''" "token_match ''AUTHZ_PRINCIPAL_MISMATCH''"
      "token_match ''AUTHZ_DOMAIN_MISMATCH''" "token_match ''AUTHZ_ALLOWED''" "token_match ''AUTHZ_SCOPE_MISSING''"
    by (simp_all add: token_match_def token_char_def is_alpha_def is_digit_def)
  have denial: "exn_class_of f = AuthorizationDenied"
    if "StaticAuthorizer_denial z fresh c r now reason = Inl f" "token_match reason" for reason f
    using make_decision_total [OF assms, of "[]" reason c fresh now False] that
    by (auto simp: StaticAuthorizer_denial_def authorization_denied_def sorted_unique_def)
  have total: "make_decision z fresh c r now (granted_scopes z p) a reason \<noteq> Inl f"
    if "token_match reason" for p a reason f
    using make_decision_total [OF assms granted_scopes_sorted, of z p reason c fresh now a] that
      granted_scopes_match [OF assms(1)] by fastforce
  show ?thesis
  proof (cases "require_current c now")
    case Inr': (Inr u)
    then have "vc_authenticated_at c \<le> now \<and> now < vc_expires_at c" by (simp add: res_simps)
    then show ?thesis
      using Inl Inr' denial codes total [OF codes(4)] total [OF codes(5)]
      by (auto simp: StaticAuthorizer_authorize_def Let_def split: if_splits)
  next
    case Inl': (Inl f)
    have "\<not> (vc_authenticated_at c \<le> now \<and> now < vc_expires_at c)"
      using require_current_Inr [of c now "()"] Inl' by auto
    then show ?thesis
      using Inl Inl' require_current_Inl [OF Inl'] by (auto simp: StaticAuthorizer_authorize_def)
  qed
qed

definition sample_authorizer :: StaticAuthorizer where
  "sample_authorizer = \<lparr>sz_policy_version = ''p1'', sz_grants_by_principal = [(''alice'', [''note.write''])]\<rparr>"

definition sample_digest :: string where
  "sample_digest = ''sha256:'' @ replicate 64 (CHR ''0'')"

definition sample_request :: AuthorizationRequest where
  "sample_request = \<lparr>ar_authentication_context_id = ''ctx'', ar_principal_id = ''alice'',
     ar_authority_domain = ''news'', ar_operation_type = ''command:note.add'', ar_required_scope = ''note.write'',
     ar_stable_semantic_request_digest = sample_digest, ar_command_definition_digest = sample_digest,
     ar_aggregate_type = ''note'', ar_aggregate_id = ''n1'', ar_event_type = ''note.added'',
     ar_event_schema_version = 1, ar_payload_mode = ''NO_PAYLOAD'', ar_payload_schema_version = ''none'',
     ar_payload_schema_contract_version = ''c1'', ar_payload_schema_contract_digest = sample_digest,
     ar_payload_canonicalizer_version = ''k1'', ar_trust_scope = ''PROPOSED'', ar_security_scope = ''internal'',
     ar_retention_scope = ''short'', ar_object_class = None, ar_allowed_use = None,
     ar_request_digest = sample_digest\<rparr>"

definition sample_context :: VerifiedAuthenticationContext where
  "sample_context = \<lparr>vc_authentication_context_id = ''ctx'', vc_principal_id = ''alice'',
     vc_authority_domain = ''news'', vc_authentication_method = ''STATIC_TOKEN'', vc_assurance_class = ''TEST'',
     vc_credential_binding_digest = sample_digest, vc_authenticated_at = 0, vc_expires_at = 10\<rparr>"

lemma sample_digest_valid: "validate_sha256_digest sample_digest = Inr sample_digest"
  by (intro digest_text_accepted) (auto simp: sample_digest_def digest_text_def is_lower_hex_def)

theorem static_authorizer_decides_witness:
  "\<exists>d. StaticAuthorizer_authorize sample_authorizer ''dec'' sample_context sample_request 5 = Inr d \<and> ad_allowed d"
proof -
  have "StaticAuthorizer_init sample_authorizer = Inr ()"
    by (simp add: StaticAuthorizer_init_def sample_authorizer_def res_simps token_match_def scope_match_def
        is_alpha_def token_char_def scope_char_def is_digit_def)
  moreover have "validate_sha256_digest (ar_request_digest sample_request) = Inr sample_digest"
    by (simp add: sample_request_def sample_digest_valid)
  ultimately show ?thesis
    using static_authorizer_decides [where z = sample_authorizer and r = sample_request and
        fresh = "''dec''" and c = sample_context and now = 5]
    by (simp add: sample_authorizer_def sample_request_def sample_context_def split: sum.splits)
qed

end
