(* ===== verification/Capability.thy ===== *)
theory Capability
  imports Security
begin

text \<open>
  \<open>src/newsroom/authority/_capability.py\<close>: the resolved payload, the signed commit grant, the
  server-derived identities and the issuer that signs grants with HMAC-SHA-256 and verifies them
  against its snapshot of the registered contracts. \<open>secrets.token_bytes\<close> is an argument of the
  issuer's constructor. A dictionary is an association list and a frozenset a list.
\<close>

section \<open>Grants\<close>

definition invalid_capability :: "string \<Rightarrow> exn" where
  "invalid_capability m = Exn InvalidCommitCapability m"

record ResolvedPayload =
  rp_kind :: string
  rp_schema_version :: string
  rp_schema_contract_version :: string
  rp_schema_contract_digest :: string
  rp_canonicalizer_version :: string
  rp_digest :: string
  rp_inline_bytes :: "bytes option"
  rp_object_admission_id :: "string option"
  rp_blob_digest :: "string option"
  rp_object_class :: "string option"
  rp_allowed_use :: "string option"

definition ResolvedPayload_canonical_value :: "ResolvedPayload \<Rightarrow> pyval" where
  "ResolvedPayload_canonical_value p = obj [
     (''kind'', jtext (rp_kind p)),
     (''schema_version'', jtext (rp_schema_version p)),
     (''schema_contract_version'', jtext (rp_schema_contract_version p)),
     (''schema_contract_digest'', jtext (rp_schema_contract_digest p)),
     (''canonicalizer_version'', jtext (rp_canonicalizer_version p)),
     (''digest'', jtext (rp_digest p)),
     (''inline_digest'', jopt (map_option digest_bytes (rp_inline_bytes p))),
     (''object_admission_id'', jopt (rp_object_admission_id p)),
     (''blob_digest'', jopt (rp_blob_digest p)),
     (''object_class'', jopt (rp_object_class p)),
     (''allowed_use'', jopt (rp_allowed_use p))]"

record AuthorizedCommandGrant =
  g_command_type :: string
  g_aggregate_id :: string
  g_expected_aggregate_version :: int
  g_definition :: CommandDefinition
  g_payload :: ResolvedPayload
  g_authentication :: VerifiedAuthenticationContext
  g_authorization_request :: AuthorizationRequest
  g_authorization :: AuthorizationDecision
  g_idempotency_namespace :: string
  g_idempotency_key :: string
  g_stable_semantic_request_digest :: string
  g_correlation_id :: "string option"
  g_causation_kind :: "string option"
  g_causation_identifier :: "string option"
  g_causation_external_system :: "string option"
  g_signature :: string
  g_replay_of_command_id :: "string option"

definition grant_fields ::
  "AuthorizedCommandGrant \<Rightarrow> string \<Rightarrow> string \<Rightarrow> string \<Rightarrow> string \<Rightarrow> (string \<times> pyval) list" where
  "grant_fields g definition_digest authentication_digest request_record_digest decision_digest = [
     (''operation'', jtext ''COMMAND_COMMIT''),
     (''command_type'', jtext (g_command_type g)),
     (''aggregate_id'', jtext (g_aggregate_id g)),
     (''expected_aggregate_version'', jnum (g_expected_aggregate_version g)),
     (''definition_digest'', jtext definition_digest),
     (''definition_version'', jtext (cd_definition_version (g_definition g))),
     (''payload'', ResolvedPayload_canonical_value (g_payload g)),
     (''authentication_context_digest'', jtext authentication_digest),
     (''authorization_request_record_digest'', jtext request_record_digest),
     (''authorization_request_digest'', jtext (ar_request_digest (g_authorization_request g))),
     (''authorization_decision_digest'', jtext decision_digest),
     (''idempotency_namespace'', jtext (g_idempotency_namespace g)),
     (''idempotency_key'', jtext (g_idempotency_key g)),
     (''stable_semantic_request_digest'', jtext (g_stable_semantic_request_digest g)),
     (''correlation_id'', jopt (g_correlation_id g)),
     (''causation_kind'', jopt (g_causation_kind g)),
     (''causation_identifier'', jopt (g_causation_identifier g)),
     (''causation_external_system'', jopt (g_causation_external_system g)),
     (''replay_of_command_id'', jopt (g_replay_of_command_id g))]"

definition grant_unsigned_value :: "AuthorizedCommandGrant \<Rightarrow> pyval res" where
  "grant_unsigned_value g =
     res_bind (CommandDefinition_digest (g_definition g)) (\<lambda>dd.
     res_bind (VerifiedAuthenticationContext_digest (g_authentication g)) (\<lambda>cd.
     res_bind (AuthorizationRequest_digest (g_authorization_request g)) (\<lambda>rd.
     res_bind (AuthorizationDecision_digest (g_authorization g)) (\<lambda>ad.
     Inr (obj (grant_fields g dd cd rd ad))))))"

section \<open>Server-derived identities\<close>

definition derive_idempotency_namespace ::
  "VerifiedAuthenticationContext \<Rightarrow> CommandDefinition \<Rightarrow> string res" where
  "derive_idempotency_namespace c d = digest_canonical (obj [
     (''authority_domain'', jtext (vc_authority_domain c)),
     (''principal_id'', jtext (vc_principal_id c)),
     (''command_type'', jtext (cd_command_type d))])"

definition semantic_fields ::
  "CommandDefinition \<Rightarrow> string \<Rightarrow> string \<Rightarrow> int \<Rightarrow> ResolvedPayload \<Rightarrow> (string \<times> pyval) list" where
  "semantic_fields d definition_digest aggregate_id expected_version payload = [
     (''command_type'', jtext (cd_command_type d)),
     (''command_definition_version'', jtext (cd_definition_version d)),
     (''command_definition_digest'', jtext definition_digest),
     (''aggregate_type'', jtext (cd_aggregate_type d)),
     (''aggregate_id'', jtext aggregate_id),
     (''expected_aggregate_version'', jnum expected_version),
     (''payload'', ResolvedPayload_canonical_value payload)]"

definition derive_stable_semantic_request_digest ::
  "CommandDefinition \<Rightarrow> string \<Rightarrow> int \<Rightarrow> ResolvedPayload \<Rightarrow> string res" where
  "derive_stable_semantic_request_digest d aggregate_id expected_version payload =
     res_bind (CommandDefinition_digest d) (\<lambda>dd.
     digest_canonical (obj (semantic_fields d dd aggregate_id expected_version payload)))"

section \<open>Payload checks\<close>

definition no_object_fields :: "ResolvedPayload \<Rightarrow> bool" where
  "no_object_fields p = (rp_object_admission_id p = None \<and> rp_blob_digest p = None \<and>
     rp_object_class p = None \<and> rp_allowed_use p = None)"

definition schema_identity_matches :: "ResolvedPayload \<Rightarrow> CommandDefinition \<Rightarrow> bool" where
  "schema_identity_matches p d =
     (rp_kind p = PayloadMode_value (cd_payload_mode d) \<and>
      rp_schema_version p = cd_payload_schema_version d \<and>
      rp_schema_contract_version p = cd_payload_schema_contract_version d \<and>
      rp_schema_contract_digest p = cd_payload_schema_contract_digest d \<and>
      rp_canonicalizer_version p = cd_payload_canonicalizer_version d)"

definition validate_resolved_payload :: "ResolvedPayload \<Rightarrow> CommandDefinition \<Rightarrow> unit res" where
  "validate_resolved_payload p d =
     res_bind (validate_sha256_digest (rp_digest p)) (\<lambda>_.
     res_bind (validate_sha256_digest (rp_schema_contract_digest p)) (\<lambda>_.
     require (schema_identity_matches p d)
       (invalid_capability ''resolved payload schema identity does not match server definition'')
     (case cd_payload_mode d of
        INLINE \<Rightarrow>
          (case rp_inline_bytes p of
             None \<Rightarrow> Inl (invalid_capability ''inline payload must retain immutable canonical bytes'')
           | Some b \<Rightarrow>
               require (no_object_fields p)
                 (invalid_capability ''inline payload cannot carry object-admission fields'')
               (require (digest_bytes b = rp_digest p)
                 (invalid_capability ''inline payload digest does not match retained bytes'')
               (require (\<not> cd_max_inline_bytes d < int (length b))
                 (invalid_capability ''inline payload exceeds server definition limit'')
               (Inr ()))))
      | NO_PAYLOAD \<Rightarrow>
          require (rp_inline_bytes p = Some [])
            (invalid_capability ''NO_PAYLOAD must retain the exact empty payload'')
          (require (no_object_fields p)
            (invalid_capability ''NO_PAYLOAD cannot carry object-admission fields'')
          (require (digest_bytes [] = rp_digest p)
            (invalid_capability ''NO_PAYLOAD digest is not empty'')
          (Inr ())))
      | OBJECT_ADMISSION \<Rightarrow>
          require (rp_inline_bytes p = None)
            (invalid_capability ''object-admission payload cannot carry inline bytes'')
          (require (rp_object_admission_id p \<noteq> None)
            (invalid_capability ''object-admission payload requires typed admission identity'')
          (res_bind (res_of_option (invalid_capability ''object-admission payload requires blob digest'')
            (rp_blob_digest p)) (\<lambda>blob.
          res_bind (validate_sha256_digest blob) (\<lambda>normalized.
          require (normalized = blob \<and> rp_digest p = blob)
            (invalid_capability ''object-admission payload digest is inconsistent'')
          (require (rp_object_class p = cd_required_object_class d \<and>
                    rp_allowed_use p = cd_required_allowed_use d)
            (invalid_capability ''object-admission payload class/use does not match server definition'')
          (Inr ()))))))))) "

section \<open>The issuer\<close>

type_synonym definition_key = "string \<times> string \<times> string"
type_synonym schema_key = "string \<times> string \<times> string \<times> string \<times> string"

record CapabilityIssuer =
  is_secret :: bytes
  is_definition_snapshot :: "(definition_key \<times> CommandDefinition) list option"
  is_schema_snapshot :: "schema_key list option"

definition definition_entry :: "CommandDefinition \<Rightarrow> (definition_key \<times> CommandDefinition) res" where
  "definition_entry d =
     res_bind (CommandDefinition_digest d) (\<lambda>g.
     Inr ((cd_command_type d, cd_definition_version d, g), d))"

definition schema_entry :: "PayloadSchemaContract \<Rightarrow> schema_key res" where
  "schema_entry s =
     res_bind (PayloadSchemaContract_contract_digest s) (\<lambda>g.
     Inr (ps_schema_version s, PayloadMode_value (ps_payload_mode s), ps_contract_version s, g,
          ps_canonicalizer_implementation_version s))"

text \<open>Equality of two dictionaries from keys to canonical definition values.\<close>

definition same_definitions ::
  "(definition_key \<times> CommandDefinition) list \<Rightarrow> (definition_key \<times> CommandDefinition) list \<Rightarrow> bool" where
  "same_definitions previous current =
     (let value = \<lambda>m k. map_option CommandDefinition_canonical_value (map_of m k)
      in list_all (\<lambda>p. value previous (fst p) = value current (fst p)) (previous @ current))"

definition bind_contracts ::
  "CapabilityIssuer \<Rightarrow> CommandRegistry \<Rightarrow> PayloadSchemaRegistry \<Rightarrow> CapabilityIssuer res" where
  "bind_contracts i commands payloads =
     res_bind (res_map definition_entry (CommandRegistry_definitions commands)) (\<lambda>definitions.
     res_bind (res_map schema_entry (PayloadSchemaRegistry_contracts payloads)) (\<lambda>schemas.
     require (definitions \<noteq> [] \<and> schemas \<noteq> [])
       (value_error ''capability contract snapshot cannot be empty'')
     (case is_definition_snapshot i of
        Some previous \<Rightarrow>
          require (same_definitions previous definitions \<and>
                   (case is_schema_snapshot i of None \<Rightarrow> False | Some ss \<Rightarrow> set ss = set schemas))
            (value_error ''capability issuer is already bound to different contracts'')
          (Inr i)
      | None \<Rightarrow>
          Inr (i\<lparr>is_definition_snapshot := Some definitions, is_schema_snapshot := Some schemas\<rparr>))))"

text \<open>\<open>__init__\<close>: \<open>token\<close> is what \<open>secrets.token_bytes(32)\<close> returned.\<close>

definition CapabilityIssuer_init ::
  "bytes \<Rightarrow> bytes option \<Rightarrow> CommandRegistry option \<Rightarrow> PayloadSchemaRegistry option \<Rightarrow> CapabilityIssuer res" where
  "CapabilityIssuer_init token secret commands payloads =
     (let key = (case secret of None \<Rightarrow> token | Some s \<Rightarrow> if s = [] then token else s);
          i = \<lparr>is_secret = key, is_definition_snapshot = None, is_schema_snapshot = None\<rparr>
      in require (\<not> length key < 32) (value_error ''capability secret must be at least 256 bits'')
         (case (commands, payloads) of
            (None, None) \<Rightarrow> Inr i
          | (Some c, Some p) \<Rightarrow> bind_contracts i c p
          | _ \<Rightarrow> Inl (value_error ''capability contract binding requires both registries'')))"

definition require_registered_contracts :: "CapabilityIssuer \<Rightarrow> CommandDefinition \<Rightarrow> unit res" where
  "require_registered_contracts i d =
     (case (is_definition_snapshot i, is_schema_snapshot i) of
        (Some definitions, Some schemas) \<Rightarrow>
          res_bind (CommandDefinition_digest d) (\<lambda>g.
          require (map_option CommandDefinition_canonical_value
                     (map_of definitions (cd_command_type d, cd_definition_version d, g))
                   = Some (CommandDefinition_canonical_value d))
            (invalid_capability ''commit definition is not an exact registered server contract'')
          (require ((cd_payload_schema_version d, PayloadMode_value (cd_payload_mode d),
                     cd_payload_schema_contract_version d, cd_payload_schema_contract_digest d,
                     cd_payload_canonicalizer_version d) \<in> set schemas)
            (invalid_capability ''commit payload schema is not an exact registered server contract'')
          (Inr ())))
      | _ \<Rightarrow> Inl (invalid_capability ''capability issuer is not bound to the server contract registry''))"

definition issuer_signature :: "CapabilityIssuer \<Rightarrow> pyval \<Rightarrow> string res" where
  "issuer_signature i v =
     res_bind (canonical_json_bytes v) (\<lambda>b. Inr (''hmac-sha256:'' @ hexdigest (hmac_sha256 (is_secret i) b)))"

text \<open>\<open>issue(**kwargs)\<close>: the argument carries the keyword arguments, its signature is ignored.\<close>

definition issue :: "CapabilityIssuer \<Rightarrow> AuthorizedCommandGrant \<Rightarrow> AuthorizedCommandGrant res" where
  "issue i g =
     res_bind (grant_unsigned_value (g\<lparr>g_signature := []\<rparr>)) (\<lambda>v.
     res_bind (issuer_signature i v) (\<lambda>s. Inr (g\<lparr>g_signature := s\<rparr>)))"

text \<open>\<open>hmac.compare_digest\<close> on two strings raises \<open>TypeError\<close> unless both are ASCII.\<close>

definition compare_digest :: "string \<Rightarrow> string \<Rightarrow> bool res" where
  "compare_digest a b =
     require (isascii (cps_of a) \<and> isascii (cps_of b))
       (Exn TypeError ''comparing strings with non-ASCII characters is not supported'') (Inr (a = b))"

definition request_matches :: "AuthorizedCommandGrant \<Rightarrow> string \<Rightarrow> string \<Rightarrow> bool" where
  "request_matches g definition_digest semantic_digest =
     (let r = g_authorization_request g; d = g_definition g in
      g_command_type g = cd_command_type d \<and>
      ar_operation_type r = ''command:'' @ cd_command_type d \<and>
      ar_required_scope r = cd_required_scope d \<and>
      ar_command_definition_digest r = definition_digest \<and>
      ar_stable_semantic_request_digest r = semantic_digest \<and>
      ar_aggregate_type r = cd_aggregate_type d \<and>
      ar_aggregate_id r = g_aggregate_id g \<and>
      ar_event_type r = cd_event_type d \<and>
      ar_event_schema_version r = cd_event_schema_version d \<and>
      ar_payload_mode r = PayloadMode_value (cd_payload_mode d) \<and>
      ar_payload_schema_version r = cd_payload_schema_version d \<and>
      ar_payload_schema_contract_version r = cd_payload_schema_contract_version d \<and>
      ar_payload_schema_contract_digest r = cd_payload_schema_contract_digest d \<and>
      ar_payload_canonicalizer_version r = cd_payload_canonicalizer_version d \<and>
      ar_trust_scope r = TrustScope_value (cd_trust_scope d) \<and>
      ar_security_scope r = cd_security_scope d \<and>
      ar_retention_scope r = cd_retention_scope d \<and>
      ar_object_class r = cd_required_object_class d \<and>
      ar_allowed_use r = cd_required_allowed_use d)"

definition verify_provenance :: "AuthorizedCommandGrant \<Rightarrow> unit res" where
  "verify_provenance g =
     (let r = g_authorization_request g; c = g_authentication g; a = g_authorization g in
      res_bind (require_current c (ad_decided_at a)) (\<lambda>_.
      res_bind (AuthorizationRequest_computed_digest r) (\<lambda>computed.
      require (ar_request_digest r = computed)
        (invalid_capability ''authorization request digest changed'')
      (require (ar_authentication_context_id r = vc_authentication_context_id c \<and>
                ar_principal_id r = vc_principal_id c \<and> ar_authority_domain r = vc_authority_domain c)
        (invalid_capability ''authorization request is not bound to authentication context'')
      (require (ad_authentication_context_id a = vc_authentication_context_id c)
        (invalid_capability ''authorization decision is not bound to authentication context'')
      (require (ad_authorization_request_digest a = ar_request_digest r)
        (invalid_capability ''authorization decision is not bound to exact request'')
      (res_bind (effective_scope_digest c (ad_effective_scopes a)) (\<lambda>sd.
      require (ad_effective_scope_digest a = sd)
        (invalid_capability ''authorization scopes are not bound to authentication provenance'')
      (require (ad_allowed a) (invalid_capability ''denied authorization cannot create a grant'')
      (Inr ()))))))))))"

definition verify :: "CapabilityIssuer \<Rightarrow> AuthorizedCommandGrant \<Rightarrow> unit res" where
  "verify i g =
     res_bind (grant_unsigned_value g) (\<lambda>v.
     res_bind (issuer_signature i v) (\<lambda>expected.
     res_bind (compare_digest expected (g_signature g)) (\<lambda>same.
     require same (invalid_capability ''commit capability signature mismatch'')
     (res_bind (require_registered_contracts i (g_definition g)) (\<lambda>_.
     res_bind (UUIDv4Id_parse (g_aggregate_id g)) (\<lambda>_.
     require (\<not> g_expected_aggregate_version g < 0)
       (invalid_capability ''grant expected version must be a non-negative integer'')
     (require (strip (g_idempotency_key g) \<noteq> [] \<and> \<not> 256 < utf8_len (g_idempotency_key g))
       (invalid_capability ''grant idempotency key is invalid'')
     (res_bind (verify_provenance g) (\<lambda>_.
     res_bind (validate_resolved_payload (g_payload g) (g_definition g)) (\<lambda>_.
     res_bind (derive_idempotency_namespace (g_authentication g) (g_definition g)) (\<lambda>namespace.
     res_bind (derive_stable_semantic_request_digest (g_definition g) (g_aggregate_id g)
       (g_expected_aggregate_version g) (g_payload g)) (\<lambda>semantic.
     require (g_idempotency_namespace g = namespace)
       (invalid_capability ''idempotency namespace was not server-derived'')
     (require (g_stable_semantic_request_digest g = semantic)
       (invalid_capability ''stable semantic request digest was not server-derived'')
     (res_bind (CommandDefinition_digest (g_definition g)) (\<lambda>dd.
     require (request_matches g dd semantic)
       (invalid_capability ''commit grant semantics do not match authorised server definition'')
     (Inr ()))))))))))))))))"

section \<open>What signatures and derived digests bind\<close>

text \<open>The canonical bytes of a value the code was able to digest.\<close>

definition bytes_of :: "pyval \<Rightarrow> bytes" where
  "bytes_of v = (case canonical_json_bytes v of Inr b \<Rightarrow> b | Inl e \<Rightarrow> [])"

definition collision_in :: "(bytes \<times> bytes) list \<Rightarrow> bool" where
  "collision_in ps = (\<exists>(a, b) \<in> set ps. collides a b)"

lemma collision_in_simps [simp]:
  "collision_in [] = False" "collision_in ((a, b) # ps) = (collides a b \<or> collision_in ps)"
  by (simp_all add: collision_in_def)

lemma digest_binds_bytes:
  assumes "wf_pyval v" "wf_pyval w" "digest_canonical v = Inr d" "digest_canonical w = Inr d"
    and "\<not> collides (bytes_of v) (bytes_of w)"
  shows "view v = view w"
  using digest_canonical_collides [OF assms(1-4)] assms(5) by (auto simp: bytes_of_def)

lemma payload_value_wf [simp]: "wf_pyval (ResolvedPayload_canonical_value p)"
  by (simp add: ResolvedPayload_canonical_value_def obj_wf)

lemma payload_value_encodable [simp]: "encodable (ResolvedPayload_canonical_value p)"
  by (simp add: ResolvedPayload_canonical_value_def obj_encodable)

definition inline_or_empty :: "ResolvedPayload \<Rightarrow> bytes" where
  "inline_or_empty p = (case rp_inline_bytes p of None \<Rightarrow> [] | Some b \<Rightarrow> b)"

lemma payload_view_binds:
  assumes "view (ResolvedPayload_canonical_value p) = view (ResolvedPayload_canonical_value q)"
    and "\<not> collides (inline_or_empty p) (inline_or_empty q)"
  shows "p = q"
proof -
  have v: "rp_kind p = rp_kind q" "rp_schema_version p = rp_schema_version q"
      "rp_schema_contract_version p = rp_schema_contract_version q"
      "rp_schema_contract_digest p = rp_schema_contract_digest q"
      "rp_canonicalizer_version p = rp_canonicalizer_version q" "rp_digest p = rp_digest q"
      "map_option digest_bytes (rp_inline_bytes p) = map_option digest_bytes (rp_inline_bytes q)"
      "rp_object_admission_id p = rp_object_admission_id q" "rp_blob_digest p = rp_blob_digest q"
      "rp_object_class p = rp_object_class q" "rp_allowed_use p = rp_allowed_use q"
    using assms(1) by (simp_all add: ResolvedPayload_canonical_value_def obj_view_eq)
  have "rp_inline_bytes p = rp_inline_bytes q"
    using v(7) assms(2) digest_bytes_collides
    by (cases "rp_inline_bytes p"; cases "rp_inline_bytes q") (auto simp: inline_or_empty_def)
  with v show ?thesis by simp
qed

lemma grant_fields_wf [simp]: "wf_pyval (obj (grant_fields g a b c d))"
  by (simp add: grant_fields_def obj_wf)

lemma semantic_fields_wf [simp]: "wf_pyval (obj (semantic_fields d g a n p))"
  by (simp add: semantic_fields_def obj_wf)

lemma unsigned_value_ignores_signature [simp]:
  "grant_unsigned_value (g\<lparr>g_signature := s\<rparr>) = grant_unsigned_value g"
  by (simp add: grant_unsigned_value_def grant_fields_def)

lemma issue_Inr:
  "issue i g = Inr h \<longleftrightarrow> (\<exists>v s. grant_unsigned_value g = Inr v \<and> issuer_signature i v = Inr s \<and>
     h = g\<lparr>g_signature := s\<rparr>)"
  by (auto simp: issue_def res_simps)

lemma hexdigest_ascii: "isascii (cps_of (hexdigest b))"
  by (auto simp: isascii_def cps_of_def list_all_iff is_lower_hex_def Let_def dest!: hexdigest_lower_hex)

lemma issuer_signature_ascii: "issuer_signature i v = Inr s \<Longrightarrow> isascii (cps_of s)"
  using hexdigest_ascii by (auto simp: issuer_signature_def res_simps isascii_def cps_of_def)

lemma issuer_signature_binds:
  assumes "issuer_signature i v = Inr s" and "issuer_signature i w = Inr s"
    and "wf_pyval v" and "wf_pyval w"
  shows "view v = view w \<or> (bytes_of v \<noteq> bytes_of w \<and>
    hmac_sha256 (is_secret i) (bytes_of v) = hmac_sha256 (is_secret i) (bytes_of w))"
proof -
  from assms(1,2) obtain a b where ab: "canonical_json_bytes v = Inr a" "canonical_json_bytes w = Inr b"
      "hexdigest (hmac_sha256 (is_secret i) a) = hexdigest (hmac_sha256 (is_secret i) b)"
    by (auto simp: issuer_signature_def res_simps)
  have "hmac_sha256 (is_secret i) a = hmac_sha256 (is_secret i) b"
    using ab(3) sha256_bytes by (intro hexdigest_inj) (auto simp: hmac_sha256_def Let_def)
  moreover have "view v = view w" if "a = b"
    using decode_canonical_view [OF assms(3) ab(1)] decode_canonical_view [OF assms(4) ab(2)] that by simp
  ultimately show ?thesis using ab(1,2) by (auto simp: bytes_of_def)
qed

text \<open>The pairs of byte strings that are hashed when two grants are signed.\<close>

definition grant_pairs :: "AuthorizedCommandGrant \<Rightarrow> AuthorizedCommandGrant \<Rightarrow> (bytes \<times> bytes) list" where
  "grant_pairs g h = [
     (bytes_of (CommandDefinition_canonical_value (g_definition g)),
      bytes_of (CommandDefinition_canonical_value (g_definition h))),
     (bytes_of (VerifiedAuthenticationContext_canonical_value (g_authentication g)),
      bytes_of (VerifiedAuthenticationContext_canonical_value (g_authentication h))),
     (bytes_of (AuthorizationRequest_canonical_value (g_authorization_request g)),
      bytes_of (AuthorizationRequest_canonical_value (g_authorization_request h))),
     (bytes_of (AuthorizationDecision_canonical_value (g_authorization g)),
      bytes_of (AuthorizationDecision_canonical_value (g_authorization h))),
     (inline_or_empty (g_payload g), inline_or_empty (g_payload h))]"

definition grant_instants :: "AuthorizedCommandGrant \<Rightarrow> bool" where
  "grant_instants g = (instant (vc_authenticated_at (g_authentication g)) \<and>
     instant (vc_expires_at (g_authentication g)) \<and> instant (ad_decided_at (g_authorization g)))"

lemma grant_unsigned_value_Inr:
  "grant_unsigned_value g = Inr v \<longleftrightarrow> (\<exists>dd cd rd ad. CommandDefinition_digest (g_definition g) = Inr dd \<and>
     VerifiedAuthenticationContext_digest (g_authentication g) = Inr cd \<and>
     AuthorizationRequest_digest (g_authorization_request g) = Inr rd \<and>
     AuthorizationDecision_digest (g_authorization g) = Inr ad \<and> v = obj (grant_fields g dd cd rd ad))"
  by (auto simp: grant_unsigned_value_def res_simps)

lemma grant_fields_view:
  assumes "view (obj (grant_fields g a b c d)) = view (obj (grant_fields h a' b' c' d'))"
  shows "a = a' \<and> b = b' \<and> c = c' \<and> d = d' \<and> g_command_type g = g_command_type h \<and>
    g_aggregate_id g = g_aggregate_id h \<and> g_expected_aggregate_version g = g_expected_aggregate_version h \<and>
    view (ResolvedPayload_canonical_value (g_payload g)) = view (ResolvedPayload_canonical_value (g_payload h)) \<and>
    g_idempotency_namespace g = g_idempotency_namespace h \<and> g_idempotency_key g = g_idempotency_key h \<and>
    g_stable_semantic_request_digest g = g_stable_semantic_request_digest h \<and>
    g_correlation_id g = g_correlation_id h \<and> g_causation_kind g = g_causation_kind h \<and>
    g_causation_identifier g = g_causation_identifier h \<and>
    g_causation_external_system g = g_causation_external_system h \<and>
    g_replay_of_command_id g = g_replay_of_command_id h"
  using assms by (simp add: grant_fields_def obj_view_eq)

lemma grant_view_binds:
  assumes v: "grant_unsigned_value g = Inr v" "grant_unsigned_value h = Inr w" "view v = view w"
    and t: "grant_instants g" "grant_instants h" and sig: "g_signature g = g_signature h"
    and none: "\<not> collision_in (grant_pairs g h)"
  shows "g = h"
proof -
  from v(1,2) obtain dd cd rd ad dd' cd' rd' ad' where
    g: "CommandDefinition_digest (g_definition g) = Inr dd"
      "VerifiedAuthenticationContext_digest (g_authentication g) = Inr cd"
      "AuthorizationRequest_digest (g_authorization_request g) = Inr rd"
      "AuthorizationDecision_digest (g_authorization g) = Inr ad" "v = obj (grant_fields g dd cd rd ad)"
    and h: "CommandDefinition_digest (g_definition h) = Inr dd'"
      "VerifiedAuthenticationContext_digest (g_authentication h) = Inr cd'"
      "AuthorizationRequest_digest (g_authorization_request h) = Inr rd'"
      "AuthorizationDecision_digest (g_authorization h) = Inr ad'" "w = obj (grant_fields h dd' cd' rd' ad')"
    by (auto simp: grant_unsigned_value_Inr)
  note eq = grant_fields_view [OF v(3) [unfolded g(5) h(5)]]
  have n: "\<not> collides (bytes_of (CommandDefinition_canonical_value (g_definition g)))
        (bytes_of (CommandDefinition_canonical_value (g_definition h)))"
      "\<not> collides (bytes_of (VerifiedAuthenticationContext_canonical_value (g_authentication g)))
        (bytes_of (VerifiedAuthenticationContext_canonical_value (g_authentication h)))"
      "\<not> collides (bytes_of (AuthorizationRequest_canonical_value (g_authorization_request g)))
        (bytes_of (AuthorizationRequest_canonical_value (g_authorization_request h)))"
      "\<not> collides (bytes_of (AuthorizationDecision_canonical_value (g_authorization g)))
        (bytes_of (AuthorizationDecision_canonical_value (g_authorization h)))"
      "\<not> collides (inline_or_empty (g_payload g)) (inline_or_empty (g_payload h))"
    using none by (simp_all add: grant_pairs_def)
  have "g_definition g = g_definition h"
    using digest_binds_bytes [OF command_definition.value_wf command_definition.value_wf
        g(1) [unfolded CommandDefinition_digest_def] _ n(1)] h(1) eq command_definition.value_faithful
    by (simp add: CommandDefinition_digest_def)
  moreover have "g_authentication g = g_authentication h"
    using digest_binds_bytes [OF auth_context.value_wf auth_context.value_wf
        g(2) [unfolded VerifiedAuthenticationContext_digest_def] _ n(2)] h(2) eq t auth_context.value_faithful
    by (simp add: VerifiedAuthenticationContext_digest_def grant_instants_def)
  moreover have "g_authorization_request g = g_authorization_request h"
    using digest_binds_bytes [OF auth_request.value_wf auth_request.value_wf
        g(3) [unfolded AuthorizationRequest_digest_def] _ n(3)] h(3) eq auth_request.value_faithful
    by (simp add: AuthorizationRequest_digest_def)
  moreover have "g_authorization g = g_authorization h"
    using digest_binds_bytes [OF auth_decision.value_wf auth_decision.value_wf
        g(4) [unfolded AuthorizationDecision_digest_def] _ n(4)] h(4) eq t auth_decision.value_faithful
    by (simp add: AuthorizationDecision_digest_def grant_instants_def)
  moreover have "g_payload g = g_payload h"
    using payload_view_binds [OF _ n(5)] eq by blast
  ultimately show ?thesis using eq sig by simp
qed

lemma verify_Inr_signature:
  assumes "verify i g = Inr ()"
  shows "\<exists>v. grant_unsigned_value g = Inr v \<and> issuer_signature i v = Inr (g_signature g)"
  using assms by (auto simp: verify_def compare_digest_def res_simps)

lemma grant_unsigned_value_wf: "grant_unsigned_value g = Inr v \<Longrightarrow> wf_pyval v"
  by (auto simp: grant_unsigned_value_Inr)

end
