(* ===== verification/Command_Service.thy ===== *)
theory Command_Service
  imports Capability
begin

text \<open>
  \<open>src/newsroom/authority/service.py\<close>: the command boundary. \<open>authorize_for_commit\<close> is the whole of
  \<open>_authorize_for_commit\<close>: authentication, selection of the current or retained definition, payload
  resolution, the stable semantic digest, authorization and the signed grant. The security adapters,
  the object-admission resolver and the committed-command lookup are fields of the service, as in the
  code; \<open>now\<close> is what the clock returned.
\<close>

section \<open>The service\<close>

record CommandService =
  cs_registry :: CommandRegistry
  cs_payload_schemas :: PayloadSchemaRegistry
  cs_authenticate :: "AuthenticationProof \<Rightarrow> int \<Rightarrow> VerifiedAuthenticationContext res"
  cs_authorize :: "VerifiedAuthenticationContext \<Rightarrow> AuthorizationRequest \<Rightarrow> int \<Rightarrow> AuthorizationDecision res"
  cs_admission_lookup :: "(string \<Rightarrow> ObjectAdmissionDescriptor res) option"
  cs_committed_lookup :: "(string \<Rightarrow> string \<Rightarrow> CommittedCommandIdentity option res) option"
  cs_issuer :: CapabilityIssuer

definition identity_conflict :: "string \<Rightarrow> exn" where
  "identity_conflict m = Exn IdempotencyIdentityConflict m"

definition resolve_schema :: "CommandService \<Rightarrow> CommandDefinition \<Rightarrow> PayloadSchemaContract res" where
  "resolve_schema s d =
     PayloadSchemaRegistry_resolve_exact (cs_payload_schemas s) (cd_payload_schema_version d)
       (cd_payload_mode d) (cd_payload_schema_contract_version d) (cd_payload_schema_contract_digest d)
       (cd_payload_canonicalizer_version d)"

definition validate_replay_horizon :: "CommandService \<Rightarrow> unit res" where
  "validate_replay_horizon s =
     for_each (\<lambda>d. res_bind (resolve_schema s d) (\<lambda>_. Inr ())) (CommandRegistry_definitions (cs_registry s))"

text \<open>The constructor: without an issuer a new one is made from \<open>token\<close> and bound to the registries.\<close>

definition CommandService_init :: "bytes \<Rightarrow> CapabilityIssuer option \<Rightarrow> CommandService \<Rightarrow> CommandService res" where
  "CommandService_init token given s =
     res_bind
       (case given of
          None \<Rightarrow> CapabilityIssuer_init token None (Some (cs_registry s)) (Some (cs_payload_schemas s))
        | Some i \<Rightarrow> bind_contracts i (cs_registry s) (cs_payload_schemas s))
       (\<lambda>issuer.
     let s' = s\<lparr>cs_issuer := issuer\<rparr>
     in res_bind (validate_replay_horizon s') (\<lambda>_. Inr s'))"

section \<open>Payload resolution\<close>

definition resolve_payload :: "CommandService \<Rightarrow> SemanticCommand \<Rightarrow> CommandDefinition \<Rightarrow> ResolvedPayload res" where
  "resolve_payload s c d =
     res_bind (resolve_schema s d) (\<lambda>schema.
     res_bind (PayloadSchemaContract_contract_digest schema) (\<lambda>contract_digest.
     let payload = \<lambda>kind digest inline admission blob cls use.
           \<lparr>rp_kind = PayloadMode_value kind, rp_schema_version = cd_payload_schema_version d,
            rp_schema_contract_version = ps_contract_version schema,
            rp_schema_contract_digest = contract_digest,
            rp_canonicalizer_version = ps_canonicalizer_implementation_version schema,
            rp_digest = digest, rp_inline_bytes = inline, rp_object_admission_id = admission,
            rp_blob_digest = blob, rp_object_class = cls, rp_allowed_use = use\<rparr>
     in case cd_payload_mode d of
          INLINE \<Rightarrow>
            (case sc_payload c of
               InlinePayload v \<Rightarrow>
                 res_bind (PayloadSchemaContract_canonicalize schema (Plain v)) (\<lambda>b.
                 require (\<not> cd_max_inline_bytes d < int (length b))
                   (value_error ''inline payload exceeds command-definition limit'')
                 (Inr (payload INLINE (digest_bytes b) (Some b) None None None None)))
             | _ \<Rightarrow> Inl (value_error ''command requires bounded inline payload''))
        | NO_PAYLOAD \<Rightarrow>
            (case sc_payload c of
               NoPayload \<Rightarrow>
                 res_bind (PayloadSchemaContract_canonicalize schema (Plain PNone)) (\<lambda>b.
                 require (b = []) (value_error ''NO_PAYLOAD schema must canonicalize to empty bytes'')
                 (Inr (payload NO_PAYLOAD (digest_bytes []) (Some []) None None None None)))
             | _ \<Rightarrow> Inl (value_error ''command requires explicit NO_PAYLOAD''))
        | OBJECT_ADMISSION \<Rightarrow>
            (case sc_payload c of
               ObjectAdmissionPayload admission_id \<Rightarrow>
                 res_bind (res_of_option
                   (value_error ''object-admission command requires an admission resolver'')
                   (cs_admission_lookup s)) (\<lambda>resolve.
                 res_bind (resolve admission_id) (\<lambda>a.
                 require (oa_active a) (value_error ''object admission is not active'')
                 (require (Some (oa_object_class a) = cd_required_object_class d)
                   (value_error ''object admission class is not permitted by command definition'')
                 (require (Some (oa_allowed_use a) = cd_required_allowed_use d)
                   (value_error ''object admission use is not permitted by command definition'')
                 (require (oa_security_scope a = cd_security_scope d)
                   (value_error ''object admission security scope does not match command policy'')
                 (require (oa_retention_scope a = cd_retention_scope d)
                   (value_error ''object admission retention scope does not match command policy'')
                 (res_bind (PayloadSchemaContract_canonicalize schema (Descriptor a)) (\<lambda>_.
                 Inr (payload OBJECT_ADMISSION (oa_blob_digest a) None (Some (oa_admission_id a))
                   (Some (oa_blob_digest a)) (Some (oa_object_class a)) (Some (oa_allowed_use a)))))))))))
             | _ \<Rightarrow> Inl (value_error ''command requires governed object-admission payload''))))"

definition resolve_committed_object_payload ::
  "CommandService \<Rightarrow> SemanticCommand \<Rightarrow> CommandDefinition \<Rightarrow> CommittedCommandIdentity \<Rightarrow> ResolvedPayload res" where
  "resolve_committed_object_payload s c d existing =
     require (ci_payload_mode existing = PayloadMode_value OBJECT_ADMISSION)
       (identity_conflict ''retained command payload mode differs from definition'')
     (case sc_payload c of
        ObjectAdmissionPayload admission_id \<Rightarrow>
          require (ci_object_admission_id existing = Some admission_id)
            (identity_conflict ''idempotency identity belongs to another object admission'')
          (res_bind (resolve_schema s d) (\<lambda>schema.
          res_bind (PayloadSchemaContract_contract_digest schema) (\<lambda>contract_digest.
          Inr \<lparr>rp_kind = PayloadMode_value OBJECT_ADMISSION, rp_schema_version = cd_payload_schema_version d,
               rp_schema_contract_version = ps_contract_version schema,
               rp_schema_contract_digest = contract_digest,
               rp_canonicalizer_version = ps_canonicalizer_implementation_version schema,
               rp_digest = ci_payload_digest existing, rp_inline_bytes = None,
               rp_object_admission_id = ci_object_admission_id existing,
               rp_blob_digest = Some (ci_payload_digest existing),
               rp_object_class = cd_required_object_class d, rp_allowed_use = cd_required_allowed_use d\<rparr>)))
      | _ \<Rightarrow> Inl (identity_conflict ''retry payload is not the retained object admission''))"

section \<open>Authorization for commit\<close>

definition validate_existing_identity ::
  "CommittedCommandIdentity \<Rightarrow> VerifiedAuthenticationContext \<Rightarrow> SemanticCommand \<Rightarrow> string \<Rightarrow> unit res" where
  "validate_existing_identity existing auth c namespace =
     require (ci_authority_domain existing = vc_authority_domain auth)
       (identity_conflict ''existing command authority domain differs'')
     (require (ci_principal_id existing = vc_principal_id auth)
       (identity_conflict ''existing command principal differs'')
     (require (ci_command_type existing = sc_command_type c)
       (identity_conflict ''existing command type differs'')
     (require (ci_idempotency_namespace existing = namespace)
       (identity_conflict ''existing idempotency namespace differs'')
     (require (ci_idempotency_key existing = sc_idempotency_key c)
       (identity_conflict ''existing idempotency key differs'')
     (Inr ())))))"

text \<open>The definition a command runs under: the current one, or on a retry exactly the committed one.\<close>

definition select_definition ::
  "CommandService \<Rightarrow> VerifiedAuthenticationContext \<Rightarrow> SemanticCommand \<Rightarrow> CommandDefinition \<Rightarrow> string
    \<Rightarrow> CommittedCommandIdentity option \<Rightarrow> CommandDefinition res" where
  "select_definition s auth c current namespace existing =
     (case existing of
        None \<Rightarrow> Inr current
      | Some e \<Rightarrow>
          res_bind (validate_existing_identity e auth c namespace) (\<lambda>_.
          res_bind (CommandRegistry_resolve_exact (cs_registry s) (sc_command_type c)
            (ci_command_definition_version e) (ci_command_definition_digest e)) (\<lambda>d.
          res_bind (derive_idempotency_namespace auth d) (\<lambda>retained.
          require (retained = namespace)
            (identity_conflict ''retained definition changed the durable idempotency namespace'')
          (Inr d)))))"

definition request_value ::
  "VerifiedAuthenticationContext \<Rightarrow> CommandDefinition \<Rightarrow> SemanticCommand \<Rightarrow> string \<Rightarrow> string \<Rightarrow> string
    \<Rightarrow> AuthorizationRequest" where
  "request_value auth d c semantic definition_digest request_digest =
     \<lparr>ar_authentication_context_id = vc_authentication_context_id auth,
      ar_principal_id = vc_principal_id auth, ar_authority_domain = vc_authority_domain auth,
      ar_operation_type = ''command:'' @ cd_command_type d, ar_required_scope = cd_required_scope d,
      ar_stable_semantic_request_digest = semantic, ar_command_definition_digest = definition_digest,
      ar_aggregate_type = cd_aggregate_type d, ar_aggregate_id = sc_aggregate_id c,
      ar_event_type = cd_event_type d, ar_event_schema_version = cd_event_schema_version d,
      ar_payload_mode = PayloadMode_value (cd_payload_mode d),
      ar_payload_schema_version = cd_payload_schema_version d,
      ar_payload_schema_contract_version = cd_payload_schema_contract_version d,
      ar_payload_schema_contract_digest = cd_payload_schema_contract_digest d,
      ar_payload_canonicalizer_version = cd_payload_canonicalizer_version d,
      ar_trust_scope = TrustScope_value (cd_trust_scope d),
      ar_security_scope = cd_security_scope d, ar_retention_scope = cd_retention_scope d,
      ar_object_class = cd_required_object_class d, ar_allowed_use = cd_required_allowed_use d,
      ar_request_digest = request_digest\<rparr>"

definition build_request ::
  "VerifiedAuthenticationContext \<Rightarrow> CommandDefinition \<Rightarrow> SemanticCommand \<Rightarrow> string \<Rightarrow> AuthorizationRequest res" where
  "build_request auth d c semantic =
     res_bind (CommandDefinition_digest d) (\<lambda>dd.
     res_bind (digest_canonical (AuthorizationRequest_unsigned_value (request_value auth d c semantic dd [])))
       (\<lambda>digest.
     let r = request_value auth d c semantic dd digest
     in res_bind (AuthorizationRequest_post_init r) (\<lambda>_. Inr r)))"

definition authorize_for_commit ::
  "CommandService \<Rightarrow> SemanticCommand \<Rightarrow> AuthenticationProof \<Rightarrow> int \<Rightarrow> AuthorizedCommandGrant res" where
  "authorize_for_commit s c pf now =
     res_bind (cs_authenticate s pf now) (\<lambda>auth.
     res_bind (require_current auth now) (\<lambda>_.
     res_bind (CommandRegistry_resolve (cs_registry s) (sc_command_type c) None) (\<lambda>current.
     res_bind (derive_idempotency_namespace auth current) (\<lambda>namespace.
     res_bind
       (case cs_committed_lookup s of
          None \<Rightarrow> Inr None
        | Some lookup \<Rightarrow> lookup namespace (sc_idempotency_key c)) (\<lambda>existing.
     res_bind (select_definition s auth c current namespace existing) (\<lambda>d.
     res_bind
       (case existing of
          Some e \<Rightarrow> if cd_payload_mode d = OBJECT_ADMISSION
                     then resolve_committed_object_payload s c d e else resolve_payload s c d
        | None \<Rightarrow> resolve_payload s c d) (\<lambda>payload.
     res_bind (derive_stable_semantic_request_digest d (sc_aggregate_id c)
       (sc_expected_aggregate_version c) payload) (\<lambda>semantic.
     require (case existing of None \<Rightarrow> True | Some e \<Rightarrow> ci_stable_semantic_request_digest e = semantic)
       (identity_conflict ''idempotency identity belongs to a different semantic command'')
     (res_bind (build_request auth d c semantic) (\<lambda>request.
     res_bind (cs_authorize s auth request now) (\<lambda>decision.
     require (ad_authentication_context_id decision = vc_authentication_context_id auth)
       (Exn PermissionError ''authorizer returned a context-mismatched decision'')
     (require (ad_authorization_request_digest decision = ar_request_digest request)
       (Exn PermissionError ''authorizer returned a request-mismatched decision'')
     (res_bind (require_allowed decision) (\<lambda>_.
     issue (cs_issuer s)
       \<lparr>g_command_type = cd_command_type d, g_aggregate_id = sc_aggregate_id c,
        g_expected_aggregate_version = sc_expected_aggregate_version c, g_definition = d,
        g_payload = payload, g_authentication = auth, g_authorization_request = request,
        g_authorization = decision, g_idempotency_namespace = namespace,
        g_idempotency_key = sc_idempotency_key c, g_stable_semantic_request_digest = semantic,
        g_correlation_id = sc_correlation_id c,
        g_causation_kind = map_option (\<lambda>r. CausationKind_value (cr_kind r)) (sc_causation c),
        g_causation_identifier = map_option cr_identifier (sc_causation c),
        g_causation_external_system = Option.bind (sc_causation c) cr_external_system,
        g_signature = [],
        g_replay_of_command_id = map_option ci_command_id existing\<rparr>))))))))))))))"

record AuthorizationReceipt =
  rc_authentication_context_id :: string
  rc_authorization_decision_id :: string
  rc_authorization_request_digest :: string
  rc_authorization_policy_version :: string
  rc_effective_scope_digest :: string
  rc_idempotency_namespace :: string
  rc_stable_semantic_request_digest :: string
  rc_command_definition_version :: string
  rc_command_definition_digest :: string
  rc_aggregate_type :: string
  rc_event_type :: string
  rc_event_schema_version :: int
  rc_payload_mode :: string
  rc_payload_schema_version :: string
  rc_payload_schema_contract_version :: string
  rc_payload_schema_contract_digest :: string
  rc_payload_canonicalizer_version :: string
  rc_payload_digest :: string
  rc_trust_scope :: string
  rc_security_scope :: string
  rc_retention_scope :: string
  rc_replay_of_command_id :: "string option"

definition authorize_command ::
  "CommandService \<Rightarrow> SemanticCommand \<Rightarrow> AuthenticationProof \<Rightarrow> int \<Rightarrow> AuthorizationReceipt res" where
  "authorize_command s c pf now =
     res_bind (authorize_for_commit s c pf now) (\<lambda>g.
     res_bind (CommandDefinition_digest (g_definition g)) (\<lambda>dd.
     Inr \<lparr>rc_authentication_context_id = vc_authentication_context_id (g_authentication g),
          rc_authorization_decision_id = ad_authorization_decision_id (g_authorization g),
          rc_authorization_request_digest = ar_request_digest (g_authorization_request g),
          rc_authorization_policy_version = ad_authorization_policy_version (g_authorization g),
          rc_effective_scope_digest = ad_effective_scope_digest (g_authorization g),
          rc_idempotency_namespace = g_idempotency_namespace g,
          rc_stable_semantic_request_digest = g_stable_semantic_request_digest g,
          rc_command_definition_version = cd_definition_version (g_definition g),
          rc_command_definition_digest = dd,
          rc_aggregate_type = cd_aggregate_type (g_definition g),
          rc_event_type = cd_event_type (g_definition g),
          rc_event_schema_version = cd_event_schema_version (g_definition g),
          rc_payload_mode = rp_kind (g_payload g),
          rc_payload_schema_version = rp_schema_version (g_payload g),
          rc_payload_schema_contract_version = rp_schema_contract_version (g_payload g),
          rc_payload_schema_contract_digest = rp_schema_contract_digest (g_payload g),
          rc_payload_canonicalizer_version = rp_canonicalizer_version (g_payload g),
          rc_payload_digest = rp_digest (g_payload g),
          rc_trust_scope = TrustScope_value (cd_trust_scope (g_definition g)),
          rc_security_scope = cd_security_scope (g_definition g),
          rc_retention_scope = cd_retention_scope (g_definition g),
          rc_replay_of_command_id = g_replay_of_command_id g\<rparr>))"

section \<open>The bound issuer knows the registries\<close>

definition issuer_covers :: "CapabilityIssuer \<Rightarrow> CommandRegistry \<Rightarrow> PayloadSchemaRegistry \<Rightarrow> bool" where
  "issuer_covers i commands payloads \<longleftrightarrow>
     (\<exists>defs schemas. is_definition_snapshot i = Some defs \<and> is_schema_snapshot i = Some schemas \<and>
        (\<forall>d \<in> set (CommandRegistry_definitions commands). \<exists>g. CommandDefinition_digest d = Inr g \<and>
           map_option CommandDefinition_canonical_value
             (map_of defs (cd_command_type d, cd_definition_version d, g))
           = Some (CommandDefinition_canonical_value d)) \<and>
        (\<forall>s \<in> set (PayloadSchemaRegistry_contracts payloads). \<exists>k. schema_entry s = Inr k \<and> k \<in> set schemas))"

lemma list_all2_left: "list_all2 P xs ys \<Longrightarrow> x \<in> set xs \<Longrightarrow> \<exists>y \<in> set ys. P x y"
  by (induction rule: list_all2_induct) auto

lemma list_all2_right: "list_all2 P xs ys \<Longrightarrow> y \<in> set ys \<Longrightarrow> \<exists>x \<in> set xs. P x y"
  by (induction rule: list_all2_induct) auto

lemma definition_entries_lookup:
  assumes built: "CommandRegistry_built r" and defs: "res_map definition_entry (CommandRegistry_definitions r) = Inr defs"
    and d: "d \<in> set (CommandRegistry_definitions r)"
  shows "\<exists>g. CommandDefinition_digest d = Inr g \<and>
    map_of defs (cd_command_type d, cd_definition_version d, g) = Some d"
proof -
  have L: "list_all2 (\<lambda>d e. definition_entry d = Inr e) (CommandRegistry_definitions r) defs"
    using defs by (simp add: res_map_Inr_iff)
  then obtain e where e: "definition_entry d = Inr e" "e \<in> set defs"
    using list_all2_left [OF L d] by blast
  then obtain g where g: "CommandDefinition_digest d = Inr g" "e = ((cd_command_type d, cd_definition_version d, g), d)"
    by (auto simp: definition_entry_def res_simps)
  have entry: "\<exists>x \<in> set (CommandRegistry_definitions r). definition_entry x = Inr e'" if "e' \<in> set defs" for e'
    using list_all2_right [OF L that] .
  obtain d' where d': "map_of defs (cd_command_type d, cd_definition_version d, g) = Some d'"
    using e(2) g(2) weak_map_of_SomeI by fastforce
  then obtain x where x: "x \<in> set (CommandRegistry_definitions r)"
      "definition_entry x = Inr ((cd_command_type d, cd_definition_version d, g), d')"
    using entry [OF map_of_SomeD [OF d']] by blast
  then have "x = d'" "cd_command_type x = cd_command_type d" "cd_definition_version x = cd_definition_version d"
    by (auto simp: definition_entry_def res_simps)
  then have "d' = d" using command_registry.items_unique [OF built x(1) d] by simp
  with d' g(1) show ?thesis by blast
qed

lemma schema_entries_member:
  assumes "res_map schema_entry (PayloadSchemaRegistry_contracts r) = Inr schemas"
    and "s \<in> set (PayloadSchemaRegistry_contracts r)"
  shows "\<exists>k. schema_entry s = Inr k \<and> k \<in> set schemas"
  using list_all2_left [OF assms(1) [unfolded res_map_Inr_iff] assms(2)] by blast

lemma same_definitions_lookup:
  "same_definitions previous current \<Longrightarrow> map_of current k = Some d \<Longrightarrow>
     map_option CommandDefinition_canonical_value (map_of previous k) = Some (CommandDefinition_canonical_value d)"
proof -
  assume same: "same_definitions previous current" and k: "map_of current k = Some d"
  have "(k, d) \<in> set (previous @ current)" using map_of_SomeD [OF k] by simp
  with same have "map_option CommandDefinition_canonical_value (map_of previous k) =
      map_option CommandDefinition_canonical_value (map_of current k)"
    unfolding same_definitions_def Let_def list_all_iff by (metis fst_conv)
  with k show ?thesis by simp
qed

lemma bind_contracts_covers:
  assumes "bind_contracts i commands payloads = Inr i'" and "CommandRegistry_built commands"
  shows "issuer_covers i' commands payloads"
proof -
  from assms(1) obtain defs schemas where
    defs: "res_map definition_entry (CommandRegistry_definitions commands) = Inr defs" and
    schemas: "res_map schema_entry (PayloadSchemaRegistry_contracts payloads) = Inr schemas" and
    i': "case is_definition_snapshot i of
        Some previous \<Rightarrow> same_definitions previous defs \<and> i' = i \<and>
          (\<exists>ss. is_schema_snapshot i = Some ss \<and> set ss = set schemas)
      | None \<Rightarrow> i' = i\<lparr>is_definition_snapshot := Some defs, is_schema_snapshot := Some schemas\<rparr>"
    by (auto simp: bind_contracts_def res_simps split: option.splits)
  note look = definition_entries_lookup [OF assms(2) defs]
  note member = schema_entries_member [OF schemas]
  show ?thesis
  proof (cases "is_definition_snapshot i")
    case None
    with i' look member show ?thesis by (fastforce simp: issuer_covers_def)
  next
    case (Some previous)
    with i' obtain ss where ss: "same_definitions previous defs" "i' = i" "is_schema_snapshot i = Some ss"
        "set ss = set schemas" by auto
    have "\<exists>g. CommandDefinition_digest d = Inr g \<and> map_option CommandDefinition_canonical_value
        (map_of previous (cd_command_type d, cd_definition_version d, g)) = Some (CommandDefinition_canonical_value d)"
      if "d \<in> set (CommandRegistry_definitions commands)" for d
      using look [OF that] same_definitions_lookup [OF ss(1)] by blast
    then show ?thesis
      using ss(2-4) Some member by (simp add: issuer_covers_def)
  qed
qed

lemma CommandService_init_covers:
  assumes "CommandService_init token given s0 = Inr s" and "CommandRegistry_built (cs_registry s0)"
  shows "issuer_covers (cs_issuer s) (cs_registry s) (cs_payload_schemas s)"
    and "cs_registry s = cs_registry s0" and "cs_payload_schemas s = cs_payload_schemas s0"
proof -
  obtain issuer where s: "s = s0\<lparr>cs_issuer := issuer\<rparr>" and
    "\<exists>i. bind_contracts i (cs_registry s0) (cs_payload_schemas s0) = Inr issuer"
    using assms(1)
    by (auto simp: CommandService_init_def CapabilityIssuer_init_def Let_def res_simps split: option.splits)
  then show "issuer_covers (cs_issuer s) (cs_registry s) (cs_payload_schemas s)"
      "cs_registry s = cs_registry s0" "cs_payload_schemas s = cs_payload_schemas s0"
    using bind_contracts_covers assms(2) by auto
qed

section \<open>Resolved payloads are valid\<close>

lemma resolve_schema_Inr:
  assumes "resolve_schema s d = Inr schema" and "PayloadSchemaRegistry_built (cs_payload_schemas s)"
  shows "schema \<in> set (PayloadSchemaRegistry_contracts (cs_payload_schemas s))"
    and "PayloadSchemaContract_contract_digest schema = Inr (cd_payload_schema_contract_digest d)"
    and "ps_schema_version schema = cd_payload_schema_version d" and "ps_payload_mode schema = cd_payload_mode d"
    and "ps_contract_version schema = cd_payload_schema_contract_version d"
    and "ps_canonicalizer_implementation_version schema = cd_payload_canonicalizer_version d"
  using assms schema_registry.resolve_version [OF assms(2),
      of "(cd_payload_schema_version d, cd_payload_mode d)" "cd_payload_schema_contract_version d" schema]
  by (auto simp: resolve_schema_def PayloadSchemaRegistry_resolve_exact_def res_simps)

lemma definition_schema_digest: "CommandDefinition_post_init d = Inr () \<Longrightarrow>
   validate_sha256_digest (cd_payload_schema_contract_digest d) = Inr (cd_payload_schema_contract_digest d)"
  by (auto simp: CommandDefinition_post_init_def res_simps)

lemma descriptor_blob_digest: "ObjectAdmissionDescriptor_post_init a = Inr () \<Longrightarrow>
   validate_sha256_digest (oa_blob_digest a) = Inr (oa_blob_digest a)"
  by (auto simp: ObjectAdmissionDescriptor_post_init_def res_simps)

lemma identity_payload_digest: "CommittedCommandIdentity_post_init e = Inr () \<Longrightarrow>
   validate_sha256_digest (ci_payload_digest e) = Inr (ci_payload_digest e)"
  using validate_sha256_digest_Inr
  by (fastforce simp: CommittedCommandIdentity_post_init_def res_simps)

lemma digest_bytes_accepted: "validate_sha256_digest (digest_bytes b) = Inr (digest_bytes b)"
  using digest_text_accepted digest_bytes_text by blast

lemma resolve_payload_valid:
  assumes "resolve_payload s c d = Inr p" and "PayloadSchemaRegistry_built (cs_payload_schemas s)"
    and "CommandDefinition_post_init d = Inr ()"
    and "\<And>resolve k a. cs_admission_lookup s = Some resolve \<Longrightarrow> resolve k = Inr a \<Longrightarrow>
      ObjectAdmissionDescriptor_post_init a = Inr ()"
  shows "validate_resolved_payload p d = Inr ()"
proof -
  from assms(1) obtain schema where "resolve_schema s d = Inr schema"
    by (auto simp: resolve_payload_def res_simps)
  note sch = resolve_schema_Inr [OF this assms(2)] this
  note valid = definition_schema_digest [OF assms(3)] digest_bytes_accepted
  show ?thesis
  proof (cases "cd_payload_mode d")
    case INLINE
    with assms(1) sch valid show ?thesis
      by (auto simp: resolve_payload_def res_simps Let_def validate_resolved_payload_def
          schema_identity_matches_def no_object_fields_def split: PayloadRequest.splits)
  next
    case NO_PAYLOAD
    with assms(1) sch valid show ?thesis
      by (auto simp: resolve_payload_def res_simps Let_def validate_resolved_payload_def
          schema_identity_matches_def no_object_fields_def split: PayloadRequest.splits)
  next
    case OBJECT_ADMISSION
    with assms(1) sch valid show ?thesis
      by (auto simp: resolve_payload_def res_simps Let_def validate_resolved_payload_def
          schema_identity_matches_def descriptor_blob_digest [OF assms(4)] split: PayloadRequest.splits)
  qed
qed

lemma committed_payload_valid:
  assumes "resolve_committed_object_payload s c d e = Inr p"
    and "PayloadSchemaRegistry_built (cs_payload_schemas s)" and "CommandDefinition_post_init d = Inr ()"
    and "CommittedCommandIdentity_post_init e = Inr ()" and "cd_payload_mode d = OBJECT_ADMISSION"
  shows "validate_resolved_payload p d = Inr ()"
proof -
  from assms(1) obtain schema where "resolve_schema s d = Inr schema"
    by (auto simp: resolve_committed_object_payload_def res_simps split: PayloadRequest.splits)
  note sch = resolve_schema_Inr [OF this assms(2)] this
  show ?thesis
    using assms(1,5) sch definition_schema_digest [OF assms(3)] identity_payload_digest [OF assms(4)]
    by (auto simp: resolve_committed_object_payload_def res_simps validate_resolved_payload_def
        schema_identity_matches_def split: PayloadRequest.splits)
qed

section \<open>Issued grants\<close>

text \<open>
  A service composed from validated parts: built registries of validated definitions, lookups that
  return validated records, and an issuer bound to the registries.
\<close>

definition composed :: "CommandService \<Rightarrow> bool" where
  "composed s \<longleftrightarrow> CommandRegistry_built (cs_registry s) \<and> PayloadSchemaRegistry_built (cs_payload_schemas s) \<and>
     (\<forall>d \<in> set (CommandRegistry_definitions (cs_registry s)). CommandDefinition_post_init d = Inr ()) \<and>
     (\<forall>resolve k a. cs_admission_lookup s = Some resolve \<longrightarrow> resolve k = Inr a \<longrightarrow>
        ObjectAdmissionDescriptor_post_init a = Inr ()) \<and>
     (\<forall>lookup n k e. cs_committed_lookup s = Some lookup \<longrightarrow> lookup n k = Inr (Some e) \<longrightarrow>
        CommittedCommandIdentity_post_init e = Inr ()) \<and>
     issuer_covers (cs_issuer s) (cs_registry s) (cs_payload_schemas s)"

definition existing_command ::
  "CommandService \<Rightarrow> string \<Rightarrow> string \<Rightarrow> CommittedCommandIdentity option res" where
  "existing_command s namespace key =
     (case cs_committed_lookup s of None \<Rightarrow> Inr None | Some lookup \<Rightarrow> lookup namespace key)"

lemma select_definition_Inr:
  assumes "select_definition s auth c current namespace existing = Inr d"
    and "derive_idempotency_namespace auth current = Inr namespace"
  shows "derive_idempotency_namespace auth d = Inr namespace"
    and "existing = None \<longrightarrow> d = current"
    and "\<forall>e. existing = Some e \<longrightarrow>
      CommandRegistry_resolve (cs_registry s) (sc_command_type c) (Some (ci_command_definition_version e)) = Inr d \<and>
      CommandDefinition_digest d = Inr (ci_command_definition_digest e) \<and>
      validate_existing_identity e auth c namespace = Inr ()"
  using assms
  by (auto simp: select_definition_def CommandRegistry_resolve_exact_def res_simps split: option.splits)

text \<open>Everything that was true when a grant left the service.\<close>

definition granted ::
  "CommandService \<Rightarrow> SemanticCommand \<Rightarrow> AuthenticationProof \<Rightarrow> int \<Rightarrow> CommandDefinition
    \<Rightarrow> CommittedCommandIdentity option \<Rightarrow> AuthorizedCommandGrant \<Rightarrow> bool" where
  "granted s c pf now current existing g \<longleftrightarrow>
     cs_authenticate s pf now = Inr (g_authentication g) \<and>
     require_current (g_authentication g) now = Inr () \<and>
     CommandRegistry_resolve (cs_registry s) (sc_command_type c) None = Inr current \<and>
     derive_idempotency_namespace (g_authentication g) current = Inr (g_idempotency_namespace g) \<and>
     existing_command s (g_idempotency_namespace g) (sc_idempotency_key c) = Inr existing \<and>
     select_definition s (g_authentication g) c current (g_idempotency_namespace g) existing = Inr (g_definition g) \<and>
     (case existing of
        Some e \<Rightarrow> if cd_payload_mode (g_definition g) = OBJECT_ADMISSION
                   then resolve_committed_object_payload s c (g_definition g) e
                   else resolve_payload s c (g_definition g)
      | None \<Rightarrow> resolve_payload s c (g_definition g)) = Inr (g_payload g) \<and>
     derive_stable_semantic_request_digest (g_definition g) (sc_aggregate_id c)
       (sc_expected_aggregate_version c) (g_payload g) = Inr (g_stable_semantic_request_digest g) \<and>
     (case existing of None \<Rightarrow> True
      | Some e \<Rightarrow> ci_stable_semantic_request_digest e = g_stable_semantic_request_digest g) \<and>
     build_request (g_authentication g) (g_definition g) c (g_stable_semantic_request_digest g)
       = Inr (g_authorization_request g) \<and>
     cs_authorize s (g_authentication g) (g_authorization_request g) now = Inr (g_authorization g) \<and>
     ad_authentication_context_id (g_authorization g) = vc_authentication_context_id (g_authentication g) \<and>
     ad_authorization_request_digest (g_authorization g) = ar_request_digest (g_authorization_request g) \<and>
     ad_allowed (g_authorization g) \<and>
     (\<exists>v. grant_unsigned_value g = Inr v \<and> issuer_signature (cs_issuer s) v = Inr (g_signature g)) \<and>
     g_command_type g = cd_command_type (g_definition g) \<and> g_aggregate_id g = sc_aggregate_id c \<and>
     g_expected_aggregate_version g = sc_expected_aggregate_version c \<and>
     g_idempotency_key g = sc_idempotency_key c \<and>
     g_replay_of_command_id g = map_option ci_command_id existing"

lemma issue_signed:
  "issue i g = Inr h \<Longrightarrow> \<exists>v. grant_unsigned_value h = Inr v \<and> issuer_signature i v = Inr (g_signature h)"
  by (auto simp: issue_Inr)

lemma authorize_for_commit_Inr:
  assumes "authorize_for_commit s c pf now = Inr g"
  shows "\<exists>current existing. granted s c pf now current existing g"
proof -
  from assms obtain auth current namespace existing d payload semantic request decision u u' where
    1: "cs_authenticate s pf now = Inr auth" "require_current auth now = Inr u"
      "CommandRegistry_resolve (cs_registry s) (sc_command_type c) None = Inr current"
      "derive_idempotency_namespace auth current = Inr namespace"
      "existing_command s namespace (sc_idempotency_key c) = Inr existing"
      "select_definition s auth c current namespace existing = Inr d"
      "(case existing of
          Some e \<Rightarrow> if cd_payload_mode d = OBJECT_ADMISSION
                     then resolve_committed_object_payload s c d e else resolve_payload s c d
        | None \<Rightarrow> resolve_payload s c d) = Inr payload"
      "derive_stable_semantic_request_digest d (sc_aggregate_id c) (sc_expected_aggregate_version c) payload = Inr semantic"
      "case existing of None \<Rightarrow> True | Some e \<Rightarrow> ci_stable_semantic_request_digest e = semantic"
      "build_request auth d c semantic = Inr request" "cs_authorize s auth request now = Inr decision"
      "ad_authentication_context_id decision = vc_authentication_context_id auth"
      "ad_authorization_request_digest decision = ar_request_digest request" "require_allowed decision = Inr u'" and
    2: "issue (cs_issuer s)
       \<lparr>g_command_type = cd_command_type d, g_aggregate_id = sc_aggregate_id c,
        g_expected_aggregate_version = sc_expected_aggregate_version c, g_definition = d,
        g_payload = payload, g_authentication = auth, g_authorization_request = request,
        g_authorization = decision, g_idempotency_namespace = namespace,
        g_idempotency_key = sc_idempotency_key c, g_stable_semantic_request_digest = semantic,
        g_correlation_id = sc_correlation_id c,
        g_causation_kind = map_option (\<lambda>r. CausationKind_value (cr_kind r)) (sc_causation c),
        g_causation_identifier = map_option cr_identifier (sc_causation c),
        g_causation_external_system = Option.bind (sc_causation c) cr_external_system,
        g_signature = [],
        g_replay_of_command_id = map_option ci_command_id existing\<rparr> = Inr g"
    unfolding authorize_for_commit_def existing_command_def [symmetric] res_bind_Inr_iff require_Inr_iff
    by blast
  from 2 have "g_authentication g = auth" "g_definition g = d" "g_payload g = payload"
      "g_authorization_request g = request" "g_authorization g = decision" "g_idempotency_namespace g = namespace"
      "g_stable_semantic_request_digest g = semantic" "g_command_type g = cd_command_type d"
      "g_aggregate_id g = sc_aggregate_id c" "g_expected_aggregate_version g = sc_expected_aggregate_version c"
      "g_idempotency_key g = sc_idempotency_key c" "g_replay_of_command_id g = map_option ci_command_id existing"
    by (auto simp: issue_Inr)
  moreover note issue_signed [OF 2]
  ultimately have "granted s c pf now current existing g"
    unfolding granted_def using 1 by (cases existing) (auto simp: require_allowed_Inr split: if_splits)
  then show ?thesis by blast
qed

lemma build_request_Inr:
  assumes "build_request auth d c semantic = Inr r"
  shows "\<exists>dd. CommandDefinition_digest d = Inr dd \<and>
    r = request_value auth d c semantic dd (ar_request_digest r) \<and>
    AuthorizationRequest_computed_digest r = Inr (ar_request_digest r) \<and> AuthorizationRequest_post_init r = Inr ()"
proof -
  from assms obtain dd digest where dd: "CommandDefinition_digest d = Inr dd"
      "digest_canonical (AuthorizationRequest_unsigned_value (request_value auth d c semantic dd [])) = Inr digest"
      "r = request_value auth d c semantic dd digest" "AuthorizationRequest_post_init r = Inr ()"
    unfolding build_request_def Let_def res_bind_Inr_iff by auto
  have "ar_request_digest r = digest" by (simp add: dd(3) request_value_def)
  moreover have "AuthorizationRequest_unsigned_value r =
      AuthorizationRequest_unsigned_value (request_value auth d c semantic dd [])"
    by (simp add: dd(3) request_value_def AuthorizationRequest_unsigned_value_def request_fields_def)
  ultimately show ?thesis using dd by (simp add: AuthorizationRequest_computed_digest_def)
qed

lemma request_value_matches:
  "r = request_value (g_authentication g) (g_definition g) c semantic dd x \<Longrightarrow> g_authorization_request g = r \<Longrightarrow>
   g_command_type g = cd_command_type (g_definition g) \<Longrightarrow> g_aggregate_id g = sc_aggregate_id c \<Longrightarrow>
   request_matches g dd semantic"
  by (simp add: request_matches_def request_value_def)

lemma covered_definition:
  assumes "issuer_covers i commands payloads" and "d \<in> set (CommandRegistry_definitions commands)"
    and "schema \<in> set (PayloadSchemaRegistry_contracts payloads)"
    and "PayloadSchemaContract_contract_digest schema = Inr (cd_payload_schema_contract_digest d)"
    and "ps_schema_version schema = cd_payload_schema_version d" and "ps_payload_mode schema = cd_payload_mode d"
    and "ps_contract_version schema = cd_payload_schema_contract_version d"
    and "ps_canonicalizer_implementation_version schema = cd_payload_canonicalizer_version d"
  shows "require_registered_contracts i d = Inr ()"
proof -
  from assms(1) obtain defs schemas where i: "is_definition_snapshot i = Some defs"
      "is_schema_snapshot i = Some schemas"
    and d: "\<exists>g. CommandDefinition_digest d = Inr g \<and> map_option CommandDefinition_canonical_value
        (map_of defs (cd_command_type d, cd_definition_version d, g)) = Some (CommandDefinition_canonical_value d)"
    and k: "\<exists>k. schema_entry schema = Inr k \<and> k \<in> set schemas"
    using assms(2,3) unfolding issuer_covers_def by blast
  have "(cd_payload_schema_version d, PayloadMode_value (cd_payload_mode d), cd_payload_schema_contract_version d,
      cd_payload_schema_contract_digest d, cd_payload_canonicalizer_version d) \<in> set schemas"
    using k assms(4-8) by (auto simp: schema_entry_def res_simps)
  then show ?thesis using d by (auto simp: require_registered_contracts_def i)
qed

lemma payload_schema_resolved:
  assumes "(case existing of
        Some e \<Rightarrow> if cd_payload_mode d = OBJECT_ADMISSION
                   then resolve_committed_object_payload s c d e else resolve_payload s c d
      | None \<Rightarrow> resolve_payload s c d) = Inr p"
  shows "\<exists>schema. resolve_schema s d = Inr schema"
  using assms
  by (auto simp: resolve_payload_def resolve_committed_object_payload_def res_simps
      split: option.splits if_splits PayloadRequest.splits)

context security_adapters
begin

lemma issued_grant_verifies:
  assumes s: "composed s" "cs_authenticate s = authenticate a fresh" "cs_authorize s = authorize z fresh'"
    and c: "SemanticCommand_post_init c = Inr ()" "UUIDv4Id_parse (sc_aggregate_id c) = Inr (sc_aggregate_id c)"
    and g: "authorize_for_commit s c pf now = Inr g"
  shows "verify (cs_issuer s) g = Inr ()"
proof -
  obtain current existing where gr: "granted s c pf now current existing g"
    using authorize_for_commit_Inr [OF g] by blast
  from gr have auth: "cs_authenticate s pf now = Inr (g_authentication g)"
    and cur: "CommandRegistry_resolve (cs_registry s) (sc_command_type c) None = Inr current"
    and ns: "derive_idempotency_namespace (g_authentication g) current = Inr (g_idempotency_namespace g)"
    and ex: "existing_command s (g_idempotency_namespace g) (sc_idempotency_key c) = Inr existing"
    and sel: "select_definition s (g_authentication g) c current (g_idempotency_namespace g) existing = Inr (g_definition g)"
    and pay: "(case existing of
        Some e \<Rightarrow> if cd_payload_mode (g_definition g) = OBJECT_ADMISSION
                   then resolve_committed_object_payload s c (g_definition g) e
                   else resolve_payload s c (g_definition g)
      | None \<Rightarrow> resolve_payload s c (g_definition g)) = Inr (g_payload g)"
    and sem: "derive_stable_semantic_request_digest (g_definition g) (sc_aggregate_id c)
       (sc_expected_aggregate_version c) (g_payload g) = Inr (g_stable_semantic_request_digest g)"
    and req: "build_request (g_authentication g) (g_definition g) c (g_stable_semantic_request_digest g)
       = Inr (g_authorization_request g)"
    and dec: "cs_authorize s (g_authentication g) (g_authorization_request g) now = Inr (g_authorization g)"
    and allowed: "ad_allowed (g_authorization g)"
    and sig: "\<exists>v. grant_unsigned_value g = Inr v \<and> issuer_signature (cs_issuer s) v = Inr (g_signature g)"
    and f: "g_command_type g = cd_command_type (g_definition g)" "g_aggregate_id g = sc_aggregate_id c"
      "g_expected_aggregate_version g = sc_expected_aggregate_version c" "g_idempotency_key g = sc_idempotency_key c"
    unfolding granted_def by blast+
  note parts = s(1) [unfolded composed_def]
  note sel = select_definition_Inr [OF sel ns]
  have d: "g_definition g \<in> set (CommandRegistry_definitions (cs_registry s))"
    using parts cur sel command_registry.resolve_current command_registry.resolve_version
    by (cases existing) blast+
  have valid: "validate_resolved_payload (g_payload g) (g_definition g) = Inr ()"
    using pay parts d ex
    by (auto simp: existing_command_def split: option.splits if_splits
        intro: resolve_payload_valid committed_payload_valid)
  obtain schema where schema: "resolve_schema s (g_definition g) = Inr schema"
    using payload_schema_resolved [OF pay] by blast
  have reg: "require_registered_contracts (cs_issuer s) (g_definition g) = Inr ()"
    using covered_definition [OF _ d] resolve_schema_Inr [OF schema] parts by blast
  obtain dd where dd: "CommandDefinition_digest (g_definition g) = Inr dd"
      "g_authorization_request g = request_value (g_authentication g) (g_definition g) c
         (g_stable_semantic_request_digest g) dd (ar_request_digest (g_authorization_request g))"
      "AuthorizationRequest_computed_digest (g_authorization_request g) = Inr (ar_request_digest (g_authorization_request g))"
    using build_request_Inr [OF req] by blast
  have ids: "ar_authentication_context_id (g_authorization_request g) = vc_authentication_context_id (g_authentication g)"
      "ar_principal_id (g_authorization_request g) = vc_principal_id (g_authentication g)"
      "ar_authority_domain (g_authorization_request g) = vc_authority_domain (g_authentication g)"
    by (subst dd(2), simp add: request_value_def)+
  have prov: "verify_provenance g = Inr ()"
    using dd(3) ids allowed decision_bound [OF dec [unfolded s(3)]]
      decided_within_context [OF auth [unfolded s(2)] dec [unfolded s(3)]]
    by (simp add: verify_provenance_def Let_def)
  have match: "request_matches g dd (g_stable_semantic_request_digest g)"
    using request_value_matches [OF dd(2)] f by simp
  obtain v where v: "grant_unsigned_value g = Inr v" "issuer_signature (cs_issuer s) v = Inr (g_signature g)"
    using sig by blast
  have "0 \<le> sc_expected_aggregate_version c" "strip (sc_idempotency_key c) \<noteq> []"
      "utf8_len (sc_idempotency_key c) \<le> 256"
    using c(1) by (auto simp: SemanticCommand_post_init_def res_simps)
  then show "verify (cs_issuer s) g = Inr ()"
    using v reg prov valid dd(1) match sem sel(1) c(2) issuer_signature_ascii [OF v(2)]
    by (simp add: verify_def compare_digest_def f)
qed

end

section \<open>When a command is granted\<close>

lemma token_prefix_command: "token_match t \<Longrightarrow> length t \<le> 120 \<longleftrightarrow> token_match (''command:'' @ t)"
  by (cases t) (auto simp: token_match_def token_char_def is_alpha_def is_digit_def)

lemma mode_token: "token_match (PayloadMode_value m)"
  by (cases m) (simp_all add: token_match_def token_char_def is_alpha_def is_digit_def)

lemma trust_token: "token_match (TrustScope_value t)"
  by (cases t) (simp_all add: token_match_def token_char_def is_alpha_def is_digit_def)

lemma namespace_total: "\<exists>n. derive_idempotency_namespace auth d = Inr n \<and> digest_text n"
  unfolding derive_idempotency_namespace_def by (rule digest_canonical_obj_total) (simp_all add: obj_wf)

lemma semantic_total:
  assumes "CommandDefinition_digest d = Inr dd" and "safe_int n"
  shows "\<exists>g. derive_stable_semantic_request_digest d aid n p = Inr g \<and> digest_text g"
  unfolding derive_stable_semantic_request_digest_def assms(1) res_bind_simps
  by (rule digest_canonical_obj_total) (use assms(2) in \<open>simp_all add: semantic_fields_def obj_wf\<close>)

lemma authenticate_total:
  assumes "StaticAuthenticator_init a = Inr ()" and "ap_method pf = sa_method a"
    and "map_of (sa_credentials a) (ap_credential pf) = Some who"
    and "StaticPrincipal_post_init who = Inr ()" and "now + sa_ttl_seconds a * 1000000 < MAX_INSTANT"
  shows "\<exists>c. StaticAuthenticator_authenticate a fresh pf now = Inr c \<and> vc_principal_id c = sp_principal_id who
    \<and> VerifiedAuthenticationContext_post_init c = Inr ()"
proof -
  obtain b where b: "digest_canonical (obj [
       (''authority_domain'', jtext (sa_authority_domain a)),
       (''method'', jtext (sa_method a)),
       (''credential_binding_id'', jtext (binding_id who)),
       (''principal_id'', jtext (sp_principal_id who))]) = Inr b \<and> digest_text b"
    using digest_canonical_obj_total [of "[
       (''authority_domain'', jtext (sa_authority_domain a)),
       (''method'', jtext (sa_method a)),
       (''credential_binding_id'', jtext (binding_id who)),
       (''principal_id'', jtext (sp_principal_id who))]"] by (auto simp: obj_wf)
  have "0 < sa_ttl_seconds a" "token_match (sa_authority_domain a)" "token_match (sa_method a)"
    using assms(1) by (auto simp: StaticAuthenticator_init_def res_simps)
  moreover have "token_match (sp_principal_id who)" "token_match (sp_assurance_class who)"
    using assms(4) by (auto simp: StaticPrincipal_post_init_def res_simps)
  ultimately show ?thesis
    using assms(2,3,5) b digest_text_accepted [of b]
    by (auto simp: StaticAuthenticator_authenticate_def VerifiedAuthenticationContext_post_init_def Let_def res_simps)
qed

lemma request_wf [simp]: "wf_pyval (AuthorizationRequest_unsigned_value r)"
  by (simp add: AuthorizationRequest_unsigned_value_def request_fields_def obj_wf)

lemma build_request_total:
  assumes d: "CommandDefinition_post_init d = Inr ()" "CommandDefinition_digest d = Inr dd" "digest_text dd"
    and auth: "VerifiedAuthenticationContext_post_init auth = Inr ()"
    and sem: "digest_text semantic" and c: "sc_aggregate_id c \<noteq> []" and len: "length (cd_command_type d) \<le> 120"
  shows "\<exists>r. build_request auth d c semantic = Inr r \<and> digest_text (ar_request_digest r)"
proof -
  have "safe_int (cd_event_schema_version d)" using CommandDefinition_digest_encodable d(2) by blast
  then have "encodable (AuthorizationRequest_unsigned_value (request_value auth d c semantic dd []))"
    by (simp add: AuthorizationRequest_unsigned_value_def request_fields_def request_value_def obj_encodable)
  then obtain g where g: "digest_canonical (AuthorizationRequest_unsigned_value (request_value auth d c semantic dd [])) = Inr g"
    using digest_canonical_encodable [OF request_wf] by blast
  note gt = digest_canonical_text [OF g]
  have same: "AuthorizationRequest_unsigned_value (request_value auth d c semantic dd g) =
      AuthorizationRequest_unsigned_value (request_value auth d c semantic dd [])"
    by (simp add: request_value_def AuthorizationRequest_unsigned_value_def request_fields_def)
  have a: "token_match (vc_principal_id auth)" "token_match (vc_authority_domain auth)"
    using auth by (auto simp: VerifiedAuthenticationContext_post_init_def res_simps)
  have t: "token_match (cd_command_type d)" "token_match (cd_aggregate_type d)" "token_match (cd_event_type d)"
      "token_match (cd_payload_schema_version d)" "token_match (cd_payload_schema_contract_version d)"
      "token_match (cd_payload_canonicalizer_version d)" "scope_match (cd_security_scope d)"
      "scope_match (cd_retention_scope d)" "scope_match (cd_required_scope d)" "0 < cd_event_schema_version d"
      "validate_sha256_digest (cd_payload_schema_contract_digest d) = Inr (cd_payload_schema_contract_digest d)"
      "require_optional_token (cd_required_object_class d) = Inr ()"
      "require_optional_token (cd_required_allowed_use d) = Inr ()"
    using d(1) by (auto simp: CommandDefinition_post_init_def res_simps require_optional_token_def or_empty_def
        split: option.splits if_splits dest: token_match_ne)
  have op: "token_match (''command:'' @ cd_command_type d)" using token_prefix_command [OF t(1)] len by blast
  have "AuthorizationRequest_post_init (request_value auth d c semantic dd g) = Inr ()"
    using a t op c digest_text_accepted [OF sem] digest_text_accepted [OF d(3)] digest_text_accepted [OF gt]
      mode_token trust_token g
    by (simp add: AuthorizationRequest_post_init_def AuthorizationRequest_computed_digest_def same)
      (simp add: request_value_def res_simps)
  then have "build_request auth d c semantic = Inr (request_value auth d c semantic dd g)"
    by (simp add: build_request_def d(2) g Let_def)
  then show ?thesis using gt by (simp add: request_value_def)
qed

lemma issue_total:
  assumes "CommandDefinition_digest (g_definition g) = Inr dd" and "safe_int (g_expected_aggregate_version g)"
    and "safe_int (ar_event_schema_version (g_authorization_request g))"
  shows "\<exists>h. issue i g = Inr h"
proof -
  obtain cd where cd: "VerifiedAuthenticationContext_digest (g_authentication g) = Inr cd"
    using context_digest_total by blast
  obtain rd where rd: "AuthorizationRequest_digest (g_authorization_request g) = Inr rd"
    unfolding AuthorizationRequest_digest_def
    using digest_canonical_encodable [OF auth_request.value_wf] assms(3)
    by (auto simp: AuthorizationRequest_canonical_value_def request_fields_def obj_encodable)
  obtain ad where ad: "AuthorizationDecision_digest (g_authorization g) = Inr ad"
    unfolding AuthorizationDecision_digest_def
    using digest_canonical_encodable [OF auth_decision.value_wf]
    by (auto simp: AuthorizationDecision_canonical_value_def obj_encodable)
  have v: "grant_unsigned_value g = Inr (obj (grant_fields g dd cd rd ad))"
    using assms(1) cd rd ad by (simp add: grant_unsigned_value_Inr)
  have "encodable (obj (grant_fields g dd cd rd ad))"
    using assms(2) by (simp add: grant_fields_def obj_encodable)
  then obtain b where "canonical_json_bytes (obj (grant_fields g dd cd rd ad)) = Inr b"
    using canonical_json_bytes_encodable [OF grant_fields_wf] by blast
  then show ?thesis using v by (simp add: issue_Inr issuer_signature_def)
qed

end
