(* ===== verification/Wire.thy ===== *)
theory Wire
  imports Records
begin

text \<open>
  Reading records back from decoded JSON. A \<open>from_mapping\<close> class method checks that the keys of an
  object are exactly the expected ones and takes its members apart; here \<open>strict_keys\<close> is that check,
  \<open>jfield\<close> is \<open>value[key]\<close> after it and \<open>as_text\<close>, \<open>as_int\<close>, \<dots> are the \<open>isinstance\<close> tests. The locale
  \<open>str_enum\<close> is the contract of a \<open>StrEnum\<close>, the locale \<open>wire_record\<close> that of a record with a
  \<open>canonical_value\<close> and a reader; every wire record is content addressed.
\<close>

section \<open>Objects\<close>

definition jstr :: "string \<Rightarrow> json" where "jstr s = JStr (cps_of s)"

fun is_object :: "json \<Rightarrow> bool" where
  "is_object (JObj ps) = True"
| "is_object j = False"

text \<open>\<open>value.get(key)\<close> on a decoded object.\<close>

fun jget :: "string \<Rightarrow> json \<Rightarrow> json option" where
  "jget k (JObj ps) = map_of ps (cps_of k)"
| "jget k j = None"

lemma map_of_sort: "distinct (map fst xs) \<Longrightarrow> map_of (sort_key fst xs) = map_of xs"
  for xs :: "('a::linorder \<times> 'b) list"
proof -
  assume d: "distinct (map fst xs)"
  then have "distinct (map fst (sort_key fst xs))"
    by (metis distinct_map distinct_sort set_sort)
  with d show ?thesis using map_of_inject_set [of "sort_key fst xs" xs] by simp
qed

lemma map_of_cps: "map_of (map (\<lambda>p. (cps_of (fst p), f (snd p))) kvs) (cps_of k) = map_option f (map_of kvs k)"
  by (induction kvs) auto

lemma jget_obj: "distinct (map fst kvs) \<Longrightarrow> jget k (view (obj kvs)) = map_option view (map_of kvs k)"
proof -
  assume "distinct (map fst kvs)"
  then have "distinct (map fst (map (\<lambda>p. (cps_of (fst p), view (snd p))) kvs))"
    by (auto simp: distinct_map inj_on_def comp_def)
  from map_of_sort [OF this] show ?thesis by (simp add: obj_view map_of_cps)
qed

lemma obj_is_object [simp]: "is_object (view (obj kvs))"
  by (simp add: obj_view)

lemma view_leaves [simp]:
  "view (jtext s) = jstr s" "view (jnum n) = JInt n" "view (jflag b) = JBool b"
  by (simp_all add: jtext_def jstr_def jnum_def jflag_def)

lemma jstr_inj [simp]: "jstr a = jstr b \<longleftrightarrow> a = b"
  by (simp add: jstr_def)

text \<open>\<open>value[key]\<close>, read only after \<open>strict_keys\<close>.\<close>

definition jfield :: "string \<Rightarrow> json \<Rightarrow> json" where
  "jfield k j = (case jget k j of None \<Rightarrow> JNull | Some v \<Rightarrow> v)"

fun strict_keys :: "string list \<Rightarrow> json \<Rightarrow> bool" where
  "strict_keys ks (JObj ps) = (set (map fst ps) = set (map cps_of ks))"
| "strict_keys ks j = False"

lemma jfield_simps:
  "jfield k (view (obj kvs)) = (case map_of kvs k of None \<Rightarrow> JNull | Some v \<Rightarrow> view v)"
  if "distinct (map fst kvs)"
  using that by (simp add: jfield_def jget_obj split: option.splits)

lemma strict_keys_obj: "map fst kvs = ks \<Longrightarrow> strict_keys ks (view (obj kvs))"
  by (force simp: obj_view image_iff)

lemma strict_keys_object: "strict_keys ks j \<Longrightarrow> is_object j"
  by (cases j) simp_all

section \<open>Leaves\<close>

definition as_cps :: "exn \<Rightarrow> json \<Rightarrow> cps res" where
  "as_cps e j = (case j of JStr s \<Rightarrow> Inr s | _ \<Rightarrow> Inl e)"

definition as_text :: "exn \<Rightarrow> json \<Rightarrow> string res" where
  "as_text e j =
     (case j of
        JStr s \<Rightarrow> require (list_all (\<lambda>c. c < 256) s) e (Inr (map char_of s))
      | _ \<Rightarrow> Inl e)"

definition as_int :: "exn \<Rightarrow> json \<Rightarrow> int res" where
  "as_int e j = (case j of JInt n \<Rightarrow> Inr n | _ \<Rightarrow> Inl e)"

definition as_flag :: "exn \<Rightarrow> json \<Rightarrow> bool res" where
  "as_flag e j = (case j of JBool b \<Rightarrow> Inr b | _ \<Rightarrow> Inl e)"

definition as_list :: "exn \<Rightarrow> json \<Rightarrow> json list res" where
  "as_list e j = (case j of JArr xs \<Rightarrow> Inr xs | _ \<Rightarrow> Inl e)"

definition as_opt :: "(json \<Rightarrow> 'a res) \<Rightarrow> json \<Rightarrow> 'a option res" where
  "as_opt read j = (case j of JNull \<Rightarrow> Inr None | _ \<Rightarrow> res_bind (read j) (\<lambda>x. Inr (Some x)))"

definition jcps :: "cps \<Rightarrow> pyval" where "jcps s = PStr True s"
definition jmaybe :: "('a \<Rightarrow> pyval) \<Rightarrow> 'a option \<Rightarrow> pyval" where
  "jmaybe f m = (case m of None \<Rightarrow> PNone | Some x \<Rightarrow> f x)"

lemma as_text_jstr [simp]: "as_text e (jstr s) = Inr s"
proof -
  have "char_of (of_char c :: nat) = c" for c by simp
  moreover have "list_all (\<lambda>c. c < 256) (cps_of s)"
    using cps_of_bound by (simp add: list_all_iff)
  ultimately show ?thesis by (simp add: as_text_def jstr_def) (simp add: cps_of_def comp_def)
qed

lemma as_text_Inr [res_simps]: "as_text e j = Inr s \<longleftrightarrow> j = jstr s"
proof
  assume h: "as_text e j = Inr s"
  then obtain t where j: "j = JStr t" and t: "list_all (\<lambda>c. c < 256) t" "s = map char_of t"
    by (auto simp: as_text_def res_simps split: json.splits)
  have "map (of_char \<circ> char_of) t = t"
    using t(1) by (intro map_idI) (simp add: list_all_iff)
  then show "j = jstr s" by (simp add: j jstr_def cps_of_def t(2))
qed simp

lemma as_leaves [simp]:
  "as_cps e (JStr c) = Inr c" "as_int e (JInt n) = Inr n" "as_flag e (JBool b) = Inr b"
  "as_list e (JArr js) = Inr js"
  by (simp_all add: as_cps_def as_int_def as_flag_def as_list_def)

lemma as_leaves_Inr [res_simps]:
  "as_cps e j = Inr c \<longleftrightarrow> j = JStr c" "as_int e j = Inr n \<longleftrightarrow> j = JInt n"
  "as_flag e j = Inr b \<longleftrightarrow> j = JBool b" "as_list e j = Inr js \<longleftrightarrow> j = JArr js"
  by (auto simp: as_cps_def as_int_def as_flag_def as_list_def split: json.splits)

lemma as_opt_simps [simp]:
  "as_opt read JNull = Inr None"
  "j \<noteq> JNull \<Longrightarrow> as_opt read j = res_bind (read j) (\<lambda>x. Inr (Some x))"
  by (simp_all add: as_opt_def split: json.splits)

lemma view_jopt [simp]: "view (jopt m) = (case m of None \<Rightarrow> JNull | Some s \<Rightarrow> jstr s)"
  by (simp add: jopt_def split: option.splits)

lemma as_opt_text [simp]: "as_opt (as_text e) (case m of None \<Rightarrow> JNull | Some s \<Rightarrow> jstr s) = Inr m"
proof (cases m)
  case (Some s)
  have "jstr s \<noteq> JNull" by (simp add: jstr_def)
  with Some show ?thesis by simp
qed simp

lemma jcps_simps [simp]:
  "view (jcps c) = JStr c" "wf_pyval (jcps c) = wf_text c"
  "encodable (jcps c) \<longleftrightarrow> validate_string c = Inr ()"
  by (simp_all add: jcps_def encodable_def)

lemma jlist_view_eq [simp]: "view (jlist vs) = JArr (map view vs)"
  by (simp add: jlist_def view_list_map)

lemma view_obj_not_null [simp]: "view (obj kvs) \<noteq> JNull"
  by (simp add: obj_view)

section \<open>Enumerations\<close>

text \<open>\<open>E(value)\<close> of a \<open>StrEnum\<close>: the member with that value, or an error.\<close>

definition enum_of :: "('a \<Rightarrow> string) \<Rightarrow> 'a list \<Rightarrow> exn \<Rightarrow> json \<Rightarrow> 'a res" where
  "enum_of value_of members e j = res_of_option e (find (\<lambda>x. jstr (value_of x) = j) members)"

lemma enum_of_Inr [res_simps]: "enum_of v ms e j = Inr x \<Longrightarrow> j = jstr (v x)"
  by (auto simp: enum_of_def res_of_option_Inr_iff dest: find_Some_iff_split)

locale str_enum =
  fixes value_of :: "'a \<Rightarrow> string" and members :: "'a list"
  assumes complete: "x \<in> set members" and distinct_values: "distinct (map value_of members)"
begin

lemma value_inj [simp]: "value_of x = value_of y \<longleftrightarrow> x = y"
  using distinct_map_unique [OF distinct_values complete complete] by blast

lemma read_value [simp]: "enum_of value_of members e (jstr (value_of x)) = Inr x"
proof -
  have "find (\<lambda>y. y = x) ms = Some x" if "x \<in> set ms" for ms
    using that by (induction ms) auto
  then show ?thesis using complete [of x] by (simp add: enum_of_def)
qed

lemma read_iff: "enum_of value_of members e j = Inr x \<longleftrightarrow> j = jstr (value_of x)"
  using enum_of_Inr [of value_of members e j x] by auto

end

section \<open>Records on the wire\<close>

locale wire_record =
  fixes value_of :: "'a \<Rightarrow> pyval" and valid :: "'a \<Rightarrow> bool" and read :: "json \<Rightarrow> 'a res"
  assumes value_wf: "valid x \<Longrightarrow> wf_pyval (value_of x)"
    and reads_back: "valid x \<Longrightarrow> read (view (value_of x)) = Inr x"
begin

lemma faithful:
  assumes "valid x" and "valid y" and "view (value_of x) = view (value_of y)"
  shows "x = y"
proof -
  have "Inr x = read (view (value_of x))" using reads_back [OF assms(1)] by (rule sym)
  also have "\<dots> = Inr y" unfolding assms(3) by (rule reads_back [OF assms(2)])
  finally show ?thesis by simp
qed

lemma reads_list: "\<forall>x \<in> set xs. valid x \<Longrightarrow> res_map read (map (view \<circ> value_of) xs) = Inr xs"
  by (induction xs) (simp_all add: reads_back)



lemma reads_opt:
  "(\<And>x. m = Some x \<Longrightarrow> valid x) \<Longrightarrow> (\<And>x. view (value_of x) \<noteq> JNull) \<Longrightarrow>
     as_opt read (view (jmaybe value_of m)) = Inr m"
  by (cases m) (simp_all add: jmaybe_def reads_back)

lemma bytes_bind:
  assumes "valid x" and "valid y"
    and "canonical_json_bytes (value_of x) = Inr b" and "canonical_json_bytes (value_of y) = Inr b"
  shows "x = y"
proof -
  have "view (value_of x) = view (value_of y)"
    using decode_canonical_view [OF value_wf [OF assms(1)] assms(3)]
      decode_canonical_view [OF value_wf [OF assms(2)] assms(4)] by simp
  with assms(1,2) show ?thesis by (rule faithful)
qed

lemma digest_binds:
  assumes "valid x" and "valid y"
    and "digest_canonical (value_of x) = Inr d" and "digest_canonical (value_of y) = Inr d"
  shows "x = y \<or> (\<exists>a b. canonical_json_bytes (value_of x) = Inr a \<and>
    canonical_json_bytes (value_of y) = Inr b \<and> collides a b)"
  using digest_canonical_collides [OF value_wf value_wf assms(3,4)] faithful [OF assms(1,2)] assms(1,2) by blast

end

text \<open>
  The digest of a record inside another record's dictionary. It is that of the canonical bytes
  whenever the value is encodable, which every constructed record is.
\<close>

definition record_digest :: "pyval \<Rightarrow> string" where
  "record_digest v = (case digest_canonical v of Inl e \<Rightarrow> [] | Inr d \<Rightarrow> d)"

lemma record_digest_text:
  assumes "wf_pyval v" and "encodable v"
  shows "digest_canonical v = Inr (record_digest v)" and "digest_text (record_digest v)"
proof -
  obtain d where d: "digest_canonical v = Inr d" using assms digest_canonical_encodable by blast
  then show "digest_canonical v = Inr (record_digest v)" by (simp add: record_digest_def)
  then show "digest_text (record_digest v)" by (rule digest_canonical_text)
qed

end
