(* ===== verification/Event_Records.thy ===== *)
theory Event_Records
  imports Command_Service Wire
begin

text \<open>
  \<open>src/newsroom/authority/persistence.py\<close>, the tables of \<open>migrations.py\<close> that the event store writes,
  and the functions of \<open>_event_store_read.py\<close> and \<open>_event_store_guards.py\<close> that turn one stored row
  into a checked record. A row is a record of the columns, a table is the list of its rows in the order
  of insertion, a BLOB is a byte list. An immutable frozenset is the list of its elements. The cache of
  already validated scope contents only avoids repeating a check and is left out.
\<close>

section \<open>Read policies\<close>

datatype MetadataClass = ROUTING | PROVENANCE | RESULT

fun MetadataClass_value :: "MetadataClass \<Rightarrow> string" where
  "MetadataClass_value ROUTING = ''ROUTING''"
| "MetadataClass_value PROVENANCE = ''PROVENANCE''"
| "MetadataClass_value RESULT = ''RESULT''"

record EventReadPolicy =
  er_policy_id :: string
  er_purpose :: string
  er_required_scope :: string
  er_allowed_principal_ids :: "string list"
  er_allowed_security_scopes :: "string list"
  er_allowed_trust_scopes :: "TrustScope list"
  er_metadata_classes :: "MetadataClass list"
  er_minimum_ledger_seq :: int
  er_maximum_ledger_seq :: "int option"
  er_max_results :: int

definition EventReadPolicy_post_init :: "EventReadPolicy \<Rightarrow> unit res" where
  "EventReadPolicy_post_init p =
     res_bind (require_tokens [er_policy_id p, er_purpose p]) (\<lambda>_.
     res_bind (require_scope (er_required_scope p)) (\<lambda>_.
     require (er_allowed_principal_ids p \<noteq> [])
       (value_error ''event read policy requires at least one principal'')
     (res_bind (require_tokens (er_allowed_principal_ids p)) (\<lambda>_.
     require (er_allowed_security_scopes p \<noteq> []) (value_error ''event read policy requires security scopes'')
     (res_bind (require_scopes (er_allowed_security_scopes p)) (\<lambda>_.
     require (er_allowed_trust_scopes p \<noteq> []) (value_error ''event read policy requires trust scopes'')
     (require (er_metadata_classes p \<noteq> []) (value_error ''event read policy requires metadata classes'')
     (require (\<not> er_minimum_ledger_seq p \<le> 0) (value_error ''minimum ledger sequence must be positive'')
     (require (case er_maximum_ledger_seq p of None \<Rightarrow> True | Some m \<Rightarrow> \<not> m < er_minimum_ledger_seq p)
       (value_error ''maximum ledger sequence must follow minimum'')
     (require (1 \<le> er_max_results p \<and> er_max_results p \<le> 1000)
       (value_error ''event read result bound must be between 1 and 1000'')
     (Inr ())))))))))))"

definition sorted_set :: "string list \<Rightarrow> pyval" where
  "sorted_set xs = jlist (map jtext (sort (remdups xs)))"

definition EventReadPolicy_canonical_value :: "EventReadPolicy \<Rightarrow> pyval" where
  "EventReadPolicy_canonical_value p = obj [
     (''policy_id'', jtext (er_policy_id p)),
     (''purpose'', jtext (er_purpose p)),
     (''required_scope'', jtext (er_required_scope p)),
     (''allowed_principal_ids'', sorted_set (er_allowed_principal_ids p)),
     (''allowed_security_scopes'', sorted_set (er_allowed_security_scopes p)),
     (''allowed_trust_scopes'', sorted_set (map TrustScope_value (er_allowed_trust_scopes p))),
     (''metadata_classes'', sorted_set (map MetadataClass_value (er_metadata_classes p))),
     (''minimum_ledger_seq'', jnum (er_minimum_ledger_seq p)),
     (''maximum_ledger_seq'', case er_maximum_ledger_seq p of None \<Rightarrow> PNone | Some m \<Rightarrow> jnum m),
     (''max_results'', jnum (er_max_results p))]"

definition EventReadPolicy_digest :: "EventReadPolicy \<Rightarrow> string res" where
  "EventReadPolicy_digest p = digest_canonical (EventReadPolicy_canonical_value p)"

definition policy_denied :: "string \<Rightarrow> exn" where "policy_denied m = Exn ReadPolicyDenied m"

definition require_principal :: "EventReadPolicy \<Rightarrow> string \<Rightarrow> unit res" where
  "require_principal p principal_id =
     require (principal_id \<in> set (er_allowed_principal_ids p))
       (policy_denied ''principal is outside the server read policy'') (Inr ())"

definition require_metadata_class :: "EventReadPolicy \<Rightarrow> MetadataClass \<Rightarrow> unit res" where
  "require_metadata_class p m =
     require (m \<in> set (er_metadata_classes p))
       (policy_denied ''metadata class is outside the server read policy'') (Inr ())"

definition require_window :: "EventReadPolicy \<Rightarrow> int \<Rightarrow> int \<Rightarrow> unit res" where
  "require_window p after_ledger_seq limit =
     require (\<not> after_ledger_seq < 0) (value_error ''after_ledger_seq must be a non-negative integer'')
     (require (\<not> after_ledger_seq < er_minimum_ledger_seq p - 1)
       (policy_denied ''requested sequence precedes the policy window'')
     (require (case er_maximum_ledger_seq p of None \<Rightarrow> True | Some m \<Rightarrow> \<not> m \<le> after_ledger_seq)
       (policy_denied ''requested sequence is outside the policy window'')
     (require (\<not> limit \<le> 0 \<and> \<not> er_max_results p < limit)
       (policy_denied ''requested result limit exceeds server policy'')
     (Inr ()))))"

definition projector_service_read_policy ::
  "string \<Rightarrow> string list \<Rightarrow> TrustScope list \<Rightarrow> int option \<Rightarrow> int \<Rightarrow> EventReadPolicy res" where
  "projector_service_read_policy principal_id security trust maximum max_results =
     (let p = \<lparr>er_policy_id = ''projector-structural-v1'', er_purpose = ''projector.structural'',
        er_required_scope = ''authority.projector.events.read'', er_allowed_principal_ids = [principal_id],
        er_allowed_security_scopes = security, er_allowed_trust_scopes = trust,
        er_metadata_classes = [ROUTING, PROVENANCE], er_minimum_ledger_seq = 1,
        er_maximum_ledger_seq = maximum, er_max_results = max_results\<rparr>
      in res_bind (EventReadPolicy_post_init p) (\<lambda>_. Inr p))"

section \<open>Records and rows\<close>

record CommittedCommand =
  cmt_command_id :: string
  cmt_aggregate_type :: string
  cmt_aggregate_id :: string
  cmt_aggregate_version :: int
  cmt_ledger_seq :: int
  cmt_event_id :: string
  cmt_result_digest :: string
  cmt_replayed :: bool

record CommandResultRecord =
  crr_command_id :: string
  crr_result_digest :: string
  crr_result_bytes :: bytes

record PayloadSchemaContractRecord =
  sr_contract_digest :: string
  sr_schema_version :: string
  sr_payload_mode :: string
  sr_contract_version :: string
  sr_canonicalizer_implementation_version :: string
  sr_canonical_bytes :: bytes

record SchemaRow = PayloadSchemaContractRecord +
  sr_registered_at :: string

record CommandDefinitionRecord =
  dr_definition_digest :: string
  dr_command_type :: string
  dr_definition_version :: string
  dr_payload_schema_contract_digest :: string
  dr_canonical_bytes :: bytes

record DefinitionRow = CommandDefinitionRecord +
  dr_registered_at :: string

record ContextRow =
  xw_authentication_context_id :: string
  xw_principal_id :: string
  xw_authority_domain :: string
  xw_authentication_method :: string
  xw_assurance_class :: string
  xw_credential_binding_digest :: string
  xw_authenticated_at :: string
  xw_expires_at :: string
  xw_storage_context_marker :: bytes
  xw_canonical_digest :: string

record AuthenticationContextRecord =
  xr_authentication_context_id :: string
  xr_principal_id :: string
  xr_authority_domain :: string
  xr_authentication_method :: string
  xr_assurance_class :: string
  xr_credential_binding_digest :: string
  xr_authenticated_at :: string
  xr_expires_at :: string
  xr_canonical_digest :: string
  xr_canonical_bytes :: bytes

record RequestRow =
  qw_request_digest :: string
  qw_authentication_context_id :: string
  qw_principal_id :: string
  qw_authority_domain :: string
  qw_operation_type :: string
  qw_required_scope :: string
  qw_storage_request_residual :: bytes
  qw_canonical_record_digest :: string
  qw_recorded_at :: string
  qw_storage_request_marker :: bytes

record AuthorizationRequestRecord =
  qr_request_digest :: string
  qr_authentication_context_id :: string
  qr_principal_id :: string
  qr_authority_domain :: string
  qr_operation_type :: string
  qr_required_scope :: string
  qr_canonical_record_digest :: string
  qr_canonical_bytes :: bytes

record DecisionRow =
  zw_authorization_decision_id :: string
  zw_authentication_context_id :: string
  zw_authorization_request_digest :: string
  zw_authorization_policy_version :: string
  zw_storage_scope_marker :: bytes
  zw_effective_scope_digest :: string
  zw_allowed :: int
  zw_reason_code :: string
  zw_decided_at :: string
  zw_storage_decision_marker :: bytes
  zw_canonical_digest :: string
  zw_scope_content_digest :: string

record AuthorizationDecisionRecord =
  zr_authorization_decision_id :: string
  zr_authentication_context_id :: string
  zr_authorization_request_digest :: string
  zr_authorization_policy_version :: string
  zr_effective_scopes :: "cps list"
  zr_effective_scope_digest :: string
  zr_allowed :: bool
  zr_reason_code :: string
  zr_decided_at :: string
  zr_canonical_digest :: string
  zr_canonical_bytes :: bytes

record PayloadRow =
  pw_payload_id :: string
  pw_mode :: string
  pw_schema_version :: string
  pw_schema_contract_version :: string
  pw_schema_contract_digest :: string
  pw_canonicalizer_implementation_version :: string
  pw_payload_digest :: string
  pw_payload_bytes :: "bytes option"
  pw_object_admission_id :: "string option"
  pw_created_at :: string

record AggregateRow =
  gw_aggregate_type :: string
  gw_aggregate_id :: string
  gw_current_version :: int
  gw_created_at :: string
  gw_updated_at :: string

record CommandRow =
  cw_command_id :: string
  cw_command_type :: string
  cw_producer_version :: string
  cw_command_definition_version :: string
  cw_command_definition_digest :: string
  cw_aggregate_type :: string
  cw_aggregate_id :: string
  cw_expected_aggregate_version :: int
  cw_payload_id :: string
  cw_idempotency_namespace :: string
  cw_idempotency_key :: string
  cw_stable_semantic_request_digest :: string
  cw_authentication_context_id :: string
  cw_authorization_request_digest :: string
  cw_authorization_decision_id :: string
  cw_result_digest :: string
  cw_result_bytes :: bytes
  cw_committed_at :: string

record VersionRow =
  vw_aggregate_type :: string
  vw_aggregate_id :: string
  vw_aggregate_version :: int
  vw_command_id :: string
  vw_payload_id :: string
  vw_trust_scope :: string
  vw_recorded_at :: string

record AuditRow =
  aw_audit_id :: string
  aw_command_id :: string
  aw_authentication_context_id :: string
  aw_authorization_request_digest :: string
  aw_authorization_decision_id :: string
  aw_event_type :: string
  aw_detail_digest :: string
  aw_recorded_at :: string

record LedgerEventRecord =
  ev_ledger_seq :: int
  ev_event_id :: string
  ev_event_type :: string
  ev_event_schema_version :: int
  ev_aggregate_type :: string
  ev_aggregate_id :: string
  ev_aggregate_version :: int
  ev_recorded_at :: string
  ev_command_id :: string
  ev_producer_version :: string
  ev_command_definition_version :: string
  ev_command_definition_digest :: string
  ev_payload_id :: string
  ev_payload_mode :: string
  ev_payload_schema_version :: string
  ev_payload_schema_contract_version :: string
  ev_payload_schema_contract_digest :: string
  ev_payload_canonicalizer_version :: string
  ev_payload_digest :: string
  ev_object_admission_id :: "string option"
  ev_principal_id :: string
  ev_authentication_context_id :: string
  ev_authorization_request_digest :: string
  ev_authorization_decision_id :: string
  ev_correlation_id :: "string option"
  ev_causation_kind :: "string option"
  ev_causation_identifier :: "string option"
  ev_causation_external_system :: "string option"
  ev_security_scope :: string
  ev_retention_scope :: string
  ev_trust_scope :: string

record RetiredLedgerEventRecord =
  rt_ledger_seq :: int
  rt_event_id :: string
  rt_command_id :: string
  rt_event_type :: string
  rt_aggregate_type :: string
  rt_aggregate_id :: string
  rt_security_scope :: string
  rt_trust_scope :: string
  rt_original_header_digest :: string

text \<open>
  A row of \<open>ledger_events\<close> is either complete or a reservation left by the checked expiry of
  diagnostics: routing columns, the reserved idempotency identity and two digests.
\<close>

record RetiredRow =
  rw_ledger_seq :: int
  rw_event_id :: string
  rw_command_id :: string
  rw_event_type :: string
  rw_aggregate_type :: string
  rw_aggregate_id :: string
  rw_security_scope :: string
  rw_trust_scope :: string
  rw_retired_namespace :: string
  rw_retired_key :: string
  rw_retired_header_digest :: bytes
  rw_retired_record_digest :: bytes

datatype LedgerRow = Live LedgerEventRecord | Retired RetiredRow
datatype EventRecord = LiveEvent LedgerEventRecord | RetiredEvent RetiredLedgerEventRecord

fun row_seq :: "LedgerRow \<Rightarrow> int" where
  "row_seq (Live e) = ev_ledger_seq e"
| "row_seq (Retired r) = rw_ledger_seq r"

fun row_event_id :: "LedgerRow \<Rightarrow> string" where
  "row_event_id (Live e) = ev_event_id e"
| "row_event_id (Retired r) = rw_event_id r"

fun row_command_id :: "LedgerRow \<Rightarrow> string" where
  "row_command_id (Live e) = ev_command_id e"
| "row_command_id (Retired r) = rw_command_id r"

fun row_security_scope :: "LedgerRow \<Rightarrow> string" where
  "row_security_scope (Live e) = ev_security_scope e"
| "row_security_scope (Retired r) = rw_security_scope r"

fun row_trust_scope :: "LedgerRow \<Rightarrow> string" where
  "row_trust_scope (Live e) = ev_trust_scope e"
| "row_trust_scope (Retired r) = rw_trust_scope r"

text \<open>The tables of one authority database that the event store reads and writes.\<close>

record authority_db =
  t_schemas :: "SchemaRow list"
  t_definitions :: "DefinitionRow list"
  t_contexts :: "ContextRow list"
  t_requests :: "RequestRow list"
  t_scopes :: "(string \<times> bytes) list"
  t_decisions :: "DecisionRow list"
  t_payloads :: "PayloadRow list"
  t_aggregates :: "AggregateRow list"
  t_commands :: "CommandRow list"
  t_versions :: "VersionRow list"
  t_audits :: "AuditRow list"
  t_events :: "LedgerRow list"

definition empty_db :: authority_db where
  "empty_db = \<lparr>t_schemas = [], t_definitions = [], t_contexts = [], t_requests = [], t_scopes = [],
     t_decisions = [], t_payloads = [], t_aggregates = [], t_commands = [], t_versions = [],
     t_audits = [], t_events = []\<rparr>"

section \<open>Rows as checked records\<close>

definition persistence_error :: "string \<Rightarrow> exn" where
  "persistence_error m = Exn AuthorityPersistenceError m"

definition history_expired :: "string \<Rightarrow> exn" where
  "history_expired m = Exn DiagnosticHistoryExpired m"

text \<open>\<open>bytes.fromhex(digest_canonical(...)[7:])\<close> is the raw SHA-256 value.\<close>

definition retired_record_digest :: "RetiredRow \<Rightarrow> bytes res" where
  "retired_record_digest r =
     res_bind (canonical_json_bytes (obj [
       (''ledger_seq'', jnum (rw_ledger_seq r)),
       (''event_id'', jtext (rw_event_id r)),
       (''command_id'', jtext (rw_command_id r)),
       (''event_type'', jtext (rw_event_type r)),
       (''aggregate_type'', jtext (rw_aggregate_type r)),
       (''aggregate_id'', jtext (rw_aggregate_id r)),
       (''security_scope'', jtext (rw_security_scope r)),
       (''trust_scope'', jtext (rw_trust_scope r)),
       (''retired_namespace'', jtext (rw_retired_namespace r)),
       (''retired_key'', jtext (rw_retired_key r)),
       (''original_header_digest'', jtext (hexdigest (rw_retired_header_digest r)))])) (\<lambda>b.
     Inr (sha256 b))"

fun event_from_row :: "LedgerRow \<Rightarrow> EventRecord res" where
  "event_from_row (Live e) = Inr (LiveEvent e)"
| "event_from_row (Retired r) =
     res_bind (retired_record_digest r) (\<lambda>d.
     require (d = rw_retired_record_digest r) (persistence_error ''retired record digest differs'')
     (Inr (RetiredEvent \<lparr>rt_ledger_seq = rw_ledger_seq r, rt_event_id = rw_event_id r,
        rt_command_id = rw_command_id r, rt_event_type = rw_event_type r,
        rt_aggregate_type = rw_aggregate_type r, rt_aggregate_id = rw_aggregate_id r,
        rt_security_scope = rw_security_scope r, rt_trust_scope = rw_trust_scope r,
        rt_original_header_digest = ''sha256:'' @ hexdigest (rw_retired_header_digest r)\<rparr>)))"

definition schema_record_from_row :: "SchemaRow \<Rightarrow> PayloadSchemaContractRecord res" where
  "schema_record_from_row row =
     res_bind (decode_canonical (sr_canonical_bytes row)) (\<lambda>value.
     require (digest_bytes (sr_canonical_bytes row) = sr_contract_digest row)
       (persistence_error ''stored payload schema contract digest mismatch'')
     (require (is_object value \<and>
        jget ''schema_version'' value = Some (jstr (sr_schema_version row)) \<and>
        jget ''payload_mode'' value = Some (jstr (sr_payload_mode row)) \<and>
        jget ''contract_version'' value = Some (jstr (sr_contract_version row)) \<and>
        jget ''canonicalizer_implementation_version'' value =
          Some (jstr (sr_canonicalizer_implementation_version row)))
       (persistence_error ''stored payload schema contract fields mismatch'')
     (Inr (PayloadSchemaContractRecord.truncate row))))"

definition definition_record_from_row :: "DefinitionRow \<Rightarrow> CommandDefinitionRecord res" where
  "definition_record_from_row row =
     res_bind (decode_canonical (dr_canonical_bytes row)) (\<lambda>value.
     require (digest_bytes (dr_canonical_bytes row) = dr_definition_digest row)
       (persistence_error ''stored command definition digest mismatch'')
     (require (is_object value \<and>
        jget ''command_type'' value = Some (jstr (dr_command_type row)) \<and>
        jget ''definition_version'' value = Some (jstr (dr_definition_version row)) \<and>
        jget ''payload_schema_contract_digest'' value = Some (jstr (dr_payload_schema_contract_digest row)))
       (persistence_error ''stored command definition fields mismatch'')
     (Inr (CommandDefinitionRecord.truncate row))))"

definition V37 :: bytes where "V37 = [118, 51, 55]"
definition V36 :: bytes where "V36 = [118, 51, 54]"

definition authentication_record_from_row :: "ContextRow \<Rightarrow> AuthenticationContextRecord res" where
  "authentication_record_from_row row =
     require (xw_storage_context_marker row = V37)
       (persistence_error ''stored authentication context format differs'')
     (res_bind (canonical_json_bytes (obj [
       (''authentication_context_id'', jtext (xw_authentication_context_id row)),
       (''principal_id'', jtext (xw_principal_id row)),
       (''authority_domain'', jtext (xw_authority_domain row)),
       (''authentication_method'', jtext (xw_authentication_method row)),
       (''assurance_class'', jtext (xw_assurance_class row)),
       (''credential_binding_digest'', jtext (xw_credential_binding_digest row)),
       (''authenticated_at'', jtext (xw_authenticated_at row)),
       (''expires_at'', jtext (xw_expires_at row))])) (\<lambda>data.
     require (digest_bytes data = xw_canonical_digest row)
       (persistence_error ''stored authentication context is not canonical'')
     (Inr \<lparr>xr_authentication_context_id = xw_authentication_context_id row,
        xr_principal_id = xw_principal_id row, xr_authority_domain = xw_authority_domain row,
        xr_authentication_method = xw_authentication_method row,
        xr_assurance_class = xw_assurance_class row,
        xr_credential_binding_digest = xw_credential_binding_digest row,
        xr_authenticated_at = xw_authenticated_at row, xr_expires_at = xw_expires_at row,
        xr_canonical_digest = xw_canonical_digest row, xr_canonical_bytes = data\<rparr>)))"

fun json_texts :: "json list \<Rightarrow> cps list option" where
  "json_texts [] = Some []"
| "json_texts (JStr s # js) = map_option ((#) s) (json_texts js)"
| "json_texts (j # js) = None"

definition scope_content_from_row :: "string \<times> bytes \<Rightarrow> cps list res" where
  "scope_content_from_row row =
     require (digest_bytes (snd row) = fst row)
       (persistence_error ''stored effective scopes digest differs'')
     (res_bind (decode_canonical (snd row)) (\<lambda>value.
     res_of_option (persistence_error ''stored effective scopes are invalid'')
       (case value of JArr js \<Rightarrow> json_texts js | _ \<Rightarrow> None)))"

text \<open>\<open>scopes\<close> is the table \<open>authorization_scope_contents\<close>.\<close>

definition decision_record_from_row ::
  "(string \<times> bytes) list \<Rightarrow> DecisionRow \<Rightarrow> AuthorizationDecisionRecord res" where
  "decision_record_from_row scopes row =
     require (zw_storage_scope_marker row = V36 \<and> zw_storage_decision_marker row = V36)
       (persistence_error ''stored authorization decision format differs'')
     (res_bind (res_of_option (persistence_error ''stored effective scopes are missing'')
        (map_of scopes (zw_scope_content_digest row))) (\<lambda>content.
     res_bind (scope_content_from_row (zw_scope_content_digest row, content)) (\<lambda>texts.
     res_bind (canonical_json_bytes (obj [
       (''authorization_decision_id'', jtext (zw_authorization_decision_id row)),
       (''authentication_context_id'', jtext (zw_authentication_context_id row)),
       (''authorization_request_digest'', jtext (zw_authorization_request_digest row)),
       (''authorization_policy_version'', jtext (zw_authorization_policy_version row)),
       (''effective_scopes'', jlist (map (PStr True) texts)),
       (''effective_scope_digest'', jtext (zw_effective_scope_digest row)),
       (''allowed'', jflag (zw_allowed row \<noteq> 0)),
       (''reason_code'', jtext (zw_reason_code row)),
       (''decided_at'', jtext (zw_decided_at row))])) (\<lambda>data.
     require (digest_bytes data = zw_canonical_digest row)
       (persistence_error ''stored authorization decision is not canonical'')
     (Inr \<lparr>zr_authorization_decision_id = zw_authorization_decision_id row,
        zr_authentication_context_id = zw_authentication_context_id row,
        zr_authorization_request_digest = zw_authorization_request_digest row,
        zr_authorization_policy_version = zw_authorization_policy_version row,
        zr_effective_scopes = texts, zr_effective_scope_digest = zw_effective_scope_digest row,
        zr_allowed = (zw_allowed row \<noteq> 0), zr_reason_code = zw_reason_code row,
        zr_decided_at = zw_decided_at row, zr_canonical_digest = zw_canonical_digest row,
        zr_canonical_bytes = data\<rparr>)))))"

end
