(* ===== verification/Command_Storage.thy ===== *)
theory Command_Storage
  imports Event_Records
begin

text \<open>
  \<open>src/newsroom/authority/command_bound_storage.py\<close>, the reader functions of
  \<open>authorization_request_storage_migrations.py\<close> and \<open>_request_record_from_row\<close>, \<open>_decode_result\<close>: an
  authorization request and a command result are stored without the fields that the other rows of the
  same command determine, and are rebuilt and authenticated against their digests when they are read.
  The variants of these functions that take rows selected by a join, or definitions verified earlier in
  the same pass, compute the same values and are not separate definitions.
\<close>

section \<open>Names and helpers\<close>

definition V38 :: bytes where "V38 = [118, 51, 56]"
definition COMMAND_REQUEST_MARKER :: bytes where "COMMAND_REQUEST_MARKER = [118, 52, 49]"
definition COMMAND_RESULT_PREFIX :: bytes where
  "COMMAND_RESULT_PREFIX = map of_char ''command-result-v1:''"

definition INDEXED_FIELDS :: "string list" where
  "INDEXED_FIELDS = [''request_digest'', ''authentication_context_id'', ''principal_id'', ''authority_domain'',
     ''operation_type'', ''required_scope'']"

definition EVENT_DEFINITION_FIELDS :: "string list" where
  "EVENT_DEFINITION_FIELDS = [''aggregate_type'', ''event_type'', ''event_schema_version'', ''payload_mode'',
     ''payload_schema_version'', ''payload_schema_contract_version'', ''payload_schema_contract_digest'',
     ''payload_canonicalizer_version'', ''trust_scope'', ''security_scope'', ''retention_scope'']"

definition DERIVED_REQUEST_FIELDS :: "string list" where
  "DERIVED_REQUEST_FIELDS = INDEXED_FIELDS @ EVENT_DEFINITION_FIELDS @
     [''aggregate_id'', ''stable_semantic_request_digest'', ''command_definition_digest'', ''object_class'',
      ''allowed_use'']"

text \<open>The exceptions an \<open>except (KeyError, TypeError, ValueError)\<close> clause of these modules catches.\<close>

definition value_failure :: "exn \<Rightarrow> bool" where
  "value_failure e = (exn_class_of e \<in> {KeyError, TypeError, ValueError, UnicodeError, CanonicalizationError})"

definition as_persistence :: "string \<Rightarrow> 'a res \<Rightarrow> 'a res" where
  "as_persistence m r = rescue (\<lambda>e. Inl (if value_failure e then persistence_error m else e)) r"

definition canonical_object :: "bytes \<Rightarrow> json res" where
  "canonical_object data =
     (case Option.bind (utf8_decode data) json_loads of
        None \<Rightarrow> Inl (value_error ''stored JSON is invalid'')
      | Some value \<Rightarrow>
          require (is_object value) (value_error ''canonical object is required'')
          (res_bind (canonical_json_bytes (py_of_json value)) (\<lambda>again.
          require (again = data) (value_error ''canonical object is required'') (Inr value))))"

definition field :: "string \<Rightarrow> json \<Rightarrow> json res" where
  "field k j = res_of_option (Exn KeyError k) (jget k j)"

definition same :: "json \<Rightarrow> json \<Rightarrow> unit res" where
  "same a b = require (a = b) (value_error ''command-bound backing differs'') (Inr ())"

definition same_field :: "json \<Rightarrow> string \<times> json \<Rightarrow> unit res" where
  "same_field j p = res_bind (field (fst p) j) (\<lambda>v. same v (snd p))"

text \<open>\<open>{**value, **fields}\<close> for disjoint keys, \<open>dict(value)\<close> without one key.\<close>

fun with_fields :: "json \<Rightarrow> (string \<times> json) list \<Rightarrow> json" where
  "with_fields (JObj ps) fs = JObj (ps @ map (\<lambda>p. (cps_of (fst p), snd p)) fs)"
| "with_fields j fs = j"

fun without_field :: "string \<Rightarrow> json \<Rightarrow> json" where
  "without_field k (JObj ps) = JObj (filter (\<lambda>p. fst p \<noteq> cps_of k) ps)"
| "without_field k j = j"

fun has_key_of :: "string list \<Rightarrow> json \<Rightarrow> bool" where
  "has_key_of ks (JObj ps) = list_ex (\<lambda>p. fst p \<in> cps_of ` set ks) ps"
| "has_key_of ks j = False"

section \<open>Backing rows\<close>

definition command_request_backing ::
  "authority_db \<Rightarrow> cps \<Rightarrow> (CommandRow \<times> LedgerRow \<times> DefinitionRow \<times> SchemaRow) res" where
  "command_request_backing db command_id =
     (let missing = persistence_error ''command-bound backing is missing''
      in res_bind (res_of_option missing
           (find (\<lambda>c. cps_of (cw_command_id c) = command_id) (t_commands db))) (\<lambda>c.
         res_bind (res_of_option missing
           (find (\<lambda>e. row_command_id e = cw_command_id c) (t_events db))) (\<lambda>e.
         res_bind (res_of_option missing
           (find (\<lambda>d. dr_definition_digest d = cw_command_definition_digest c) (t_definitions db))) (\<lambda>d.
         res_bind (res_of_option missing
           (find (\<lambda>s. sr_contract_digest s = dr_payload_schema_contract_digest d) (t_schemas db))) (\<lambda>s.
         Inr (c, e, d, s))))))"

text \<open>The columns that a command row and its event share, and what an event repeats of its definition.\<close>

definition command_event_fields :: "CommandRow \<Rightarrow> string list" where
  "command_event_fields c = [cw_command_id c, cw_aggregate_type c, cw_aggregate_id c,
     cw_command_definition_version c, cw_command_definition_digest c, cw_authentication_context_id c,
     cw_authorization_request_digest c, cw_authorization_decision_id c, cw_payload_id c, cw_producer_version c]"

definition event_command_fields :: "LedgerEventRecord \<Rightarrow> string list" where
  "event_command_fields e = [ev_command_id e, ev_aggregate_type e, ev_aggregate_id e,
     ev_command_definition_version e, ev_command_definition_digest e, ev_authentication_context_id e,
     ev_authorization_request_digest e, ev_authorization_decision_id e, ev_payload_id e, ev_producer_version e]"

definition event_definition_fields :: "LedgerEventRecord \<Rightarrow> (string \<times> json) list" where
  "event_definition_fields e = [
     (''aggregate_type'', jstr (ev_aggregate_type e)),
     (''event_type'', jstr (ev_event_type e)),
     (''event_schema_version'', JInt (ev_event_schema_version e)),
     (''payload_mode'', jstr (ev_payload_mode e)),
     (''payload_schema_version'', jstr (ev_payload_schema_version e)),
     (''payload_schema_contract_version'', jstr (ev_payload_schema_contract_version e)),
     (''payload_schema_contract_digest'', jstr (ev_payload_schema_contract_digest e)),
     (''payload_canonicalizer_version'', jstr (ev_payload_canonicalizer_version e)),
     (''trust_scope'', jstr (ev_trust_scope e)),
     (''security_scope'', jstr (ev_security_scope e)),
     (''retention_scope'', jstr (ev_retention_scope e))]"

definition indexed_request_fields :: "RequestRow \<Rightarrow> (string \<times> json) list" where
  "indexed_request_fields q = [
     (''request_digest'', jstr (qw_request_digest q)),
     (''authentication_context_id'', jstr (qw_authentication_context_id q)),
     (''principal_id'', jstr (qw_principal_id q)),
     (''authority_domain'', jstr (qw_authority_domain q)),
     (''operation_type'', jstr (qw_operation_type q)),
     (''required_scope'', jstr (qw_required_scope q))]"

text \<open>An expired event has no values left in the columns to be compared.\<close>

fun live_event :: "LedgerRow \<Rightarrow> LedgerEventRecord res" where
  "live_event (Live e) = Inr e"
| "live_event (Retired r) = Inl (value_error ''command-bound backing differs'')"

definition stored_object :: "bytes \<Rightarrow> string \<Rightarrow> json res" where
  "stored_object data digest =
     res_bind (canonical_object data) (\<lambda>value.
     res_bind (digest_canonical (py_of_json value)) (\<lambda>d.
     res_bind (same (jstr d) (jstr digest)) (\<lambda>_. Inr value)))"

definition prefixed :: "string \<Rightarrow> json \<Rightarrow> json res" where
  "prefixed p j = (case j of JStr t \<Rightarrow> Inr (JStr (cps_of p @ t))
     | _ \<Rightarrow> Inl (Exn TypeError ''can only concatenate str''))"

text \<open>\<open>_request_fields\<close>: the derived fields of a request, after every backing row has been compared.\<close>

definition derived_request_fields ::
  "RequestRow \<Rightarrow> CommandRow \<Rightarrow> LedgerRow \<Rightarrow> DefinitionRow \<Rightarrow> SchemaRow \<Rightarrow> (string \<times> json) list res" where
  "derived_request_fields q c row d s =
     res_bind (stored_object (dr_canonical_bytes d) (dr_definition_digest d)) (\<lambda>definition.
     res_bind (for_each (same_field definition) [
       (''command_type'', jstr (dr_command_type d)),
       (''definition_version'', jstr (dr_definition_version d)),
       (''payload_schema_contract_digest'', jstr (dr_payload_schema_contract_digest d))]) (\<lambda>_.
     res_bind (same (jstr (cw_command_definition_digest c)) (jstr (dr_definition_digest d))) (\<lambda>_.
     res_bind (for_each (same_field definition) [
       (''definition_version'', jstr (cw_command_definition_version c)),
       (''command_type'', jstr (cw_command_type c))]) (\<lambda>_.
     res_bind (live_event row) (\<lambda>e.
     require (command_event_fields c = event_command_fields e) (value_error ''command-bound backing differs'')
     (res_bind (for_each (same_field definition) (event_definition_fields e)) (\<lambda>_.
     require (qw_request_digest q = ev_authorization_request_digest e \<and>
              qw_authentication_context_id q = ev_authentication_context_id e \<and>
              qw_principal_id q = ev_principal_id e) (value_error ''command-bound backing differs'')
     (res_bind (res_bind (field ''command_type'' definition) (prefixed ''command:'')) (\<lambda>operation.
     res_bind (same (jstr (qw_operation_type q)) operation) (\<lambda>_.
     res_bind (same_field definition (''required_scope'', jstr (qw_required_scope q))) (\<lambda>_.
     res_bind (stored_object (sr_canonical_bytes s) (sr_contract_digest s)) (\<lambda>schema.
     res_bind (same_field definition (''payload_schema_contract_digest'', jstr (sr_contract_digest s))) (\<lambda>_.
     res_bind (for_each (same_field schema) [
       (''schema_version'', jstr (sr_schema_version s)),
       (''payload_mode'', jstr (sr_payload_mode s)),
       (''contract_version'', jstr (sr_contract_version s)),
       (''canonicalizer_implementation_version'', jstr (sr_canonicalizer_implementation_version s))]) (\<lambda>_.
     res_bind (for_each (same_field definition) [
       (''payload_schema_version'', jstr (sr_schema_version s)),
       (''payload_mode'', jstr (sr_payload_mode s)),
       (''payload_schema_contract_version'', jstr (sr_contract_version s)),
       (''payload_canonicalizer_version'', jstr (sr_canonicalizer_implementation_version s))]) (\<lambda>_.
     res_bind (res_map (\<lambda>k. res_bind (field k definition) (\<lambda>v. Inr (k, v))) EVENT_DEFINITION_FIELDS) (\<lambda>repeated.
     res_bind (field ''required_object_class'' definition) (\<lambda>object_class.
     res_bind (field ''required_allowed_use'' definition) (\<lambda>allowed_use.
     Inr (indexed_request_fields q @ repeated @ [
       (''aggregate_id'', jstr (cw_aggregate_id c)),
       (''stable_semantic_request_digest'', jstr (cw_stable_semantic_request_digest c)),
       (''command_definition_digest'', jstr (dr_definition_digest d)),
       (''object_class'', object_class),
       (''allowed_use'', allowed_use)])))))))))))))))))))"

section \<open>Requests\<close>

fun residual_items :: "pyval \<Rightarrow> (pykey \<times> pyval) list" where
  "residual_items (PMap c ps) =
     filter (\<lambda>p. case fst p of KStr b k \<Rightarrow> k \<notin> cps_of ` set DERIVED_REQUEST_FIELDS | _ \<Rightarrow> True) ps"
| "residual_items v = []"

definition command_request_storage :: "pyval \<Rightarrow> string \<Rightarrow> bytes res" where
  "command_request_storage value command_id = canonical_json_bytes (obj [
     (''storage_version'', jnum 1),
     (''command_id'', jtext command_id),
     (''residual'', PMap Exact (residual_items value))])"

definition authenticate_request :: "RequestRow \<Rightarrow> bytes \<Rightarrow> unit res" where
  "authenticate_request q data =
     res_bind (canonical_object data) (\<lambda>value.
     res_bind (same (jstr (digest_bytes data)) (jstr (qw_canonical_record_digest q))) (\<lambda>_.
     res_bind (same_field value (''request_digest'', jstr (qw_request_digest q))) (\<lambda>_.
     res_bind (digest_canonical (py_of_json (without_field ''request_digest'' value))) (\<lambda>d.
     same (jstr d) (jstr (qw_request_digest q))))))"

definition pending_command_request_bytes :: "RequestRow \<Rightarrow> bytes \<Rightarrow> string \<Rightarrow> bytes res" where
  "pending_command_request_bytes q original command_id =
     as_persistence ''pending command-bound request differs''
       (require (qw_storage_request_marker q = COMMAND_REQUEST_MARKER)
          (value_error ''command-bound backing differs'')
       (res_bind (authenticate_request q original) (\<lambda>_.
        res_bind (canonical_object original) (\<lambda>value.
        res_bind (command_request_storage (py_of_json value) command_id) (\<lambda>residual.
        require (qw_storage_request_residual q = residual) (value_error ''command-bound backing differs'')
          (Inr original))))))"

text \<open>\<open>_restore_command_request_value\<close>.\<close>

definition restore_command_request_value ::
  "RequestRow \<Rightarrow> bytes \<Rightarrow> CommandRow \<Rightarrow> LedgerRow \<Rightarrow> DefinitionRow \<Rightarrow> SchemaRow \<Rightarrow> json res" where
  "restore_command_request_value q data c e d s =
     as_persistence ''command-bound request representation differs''
       (res_bind (canonical_object data) (\<lambda>stored.
        require (case stored of JObj ps \<Rightarrow>
             set (map fst ps) = cps_of ` {''storage_version'', ''command_id'', ''residual''} | _ \<Rightarrow> False)
          (value_error ''command-bound request shape differs'')
        (res_bind (same_field stored (''storage_version'', JInt 1)) (\<lambda>_.
         res_bind (same_field stored (''command_id'', jstr (cw_command_id c))) (\<lambda>_.
         res_bind (derived_request_fields q c e d s) (\<lambda>derived.
         res_bind (field ''residual'' stored) (\<lambda>residual.
         require (is_object residual \<and> \<not> has_key_of (map fst derived) residual)
           (value_error ''command-bound request residual differs'')
         (Inr (with_fields residual derived))))))))) "

definition request_value_from_v38_row :: "RequestRow \<Rightarrow> json res" where
  "request_value_from_v38_row q =
     require (qw_storage_request_marker q = V38) (value_error ''stored authorization request format differs'')
     (res_bind (rescue (\<lambda>e. Inl (if value_failure e
          then value_error ''stored authorization request is not canonical'' else e))
        (canonical_object (qw_storage_request_residual q))) (\<lambda>residual.
     require (\<not> has_key_of INDEXED_FIELDS residual)
       (value_error ''stored authorization request residual collides'')
     (Inr (with_fields residual (indexed_request_fields q)))))"

definition command_request_value :: "authority_db \<Rightarrow> RequestRow \<Rightarrow> json res" where
  "command_request_value db q =
     as_persistence ''stored command-bound request differs''
       (if qw_storage_request_marker q = V38 then request_value_from_v38_row q
        else
          require (qw_storage_request_marker q = COMMAND_REQUEST_MARKER)
            (value_error ''command-bound backing differs'')
          (res_bind (canonical_object (qw_storage_request_residual q)) (\<lambda>stored.
           res_bind (field ''command_id'' stored) (\<lambda>identity.
           case identity of
             JStr command_id \<Rightarrow>
               res_bind (command_request_backing db command_id) (\<lambda>(c, e, d, s).
               restore_command_request_value q (qw_storage_request_residual q) c e d s)
           | _ \<Rightarrow> Inl (value_error ''command-bound request identity differs'')))))"

text \<open>\<open>_request_record_from_row\<close>.\<close>

definition request_record_from_row :: "authority_db \<Rightarrow> RequestRow \<Rightarrow> AuthorizationRequestRecord res" where
  "request_record_from_row db q =
     res_bind (as_persistence ''stored authorization request representation differs''
       (res_bind (if qw_storage_request_marker q = COMMAND_REQUEST_MARKER
                  then command_request_value db q else request_value_from_v38_row q) (\<lambda>value.
        res_bind (canonical_json_bytes (py_of_json value)) (\<lambda>data. Inr (value, data))))) (\<lambda>(value, data).
     require (digest_bytes data = qw_canonical_record_digest q)
       (persistence_error ''authorization request record digest mismatch'')
     (require (jget ''request_digest'' value = Some (jstr (qw_request_digest q)))
       (persistence_error ''authorization request identity mismatch'')
     (res_bind (digest_canonical (py_of_json (without_field ''request_digest'' value))) (\<lambda>d.
     require (d = qw_request_digest q) (persistence_error ''authorization request digest mismatch'')
     (require (jget ''authentication_context_id'' value = Some (jstr (qw_authentication_context_id q)) \<and>
        jget ''principal_id'' value = Some (jstr (qw_principal_id q)) \<and>
        jget ''authority_domain'' value = Some (jstr (qw_authority_domain q)) \<and>
        jget ''operation_type'' value = Some (jstr (qw_operation_type q)) \<and>
        jget ''required_scope'' value = Some (jstr (qw_required_scope q)))
       (persistence_error ''authorization request fields mismatch'')
     (Inr \<lparr>qr_request_digest = qw_request_digest q,
        qr_authentication_context_id = qw_authentication_context_id q,
        qr_principal_id = qw_principal_id q, qr_authority_domain = qw_authority_domain q,
        qr_operation_type = qw_operation_type q, qr_required_scope = qw_required_scope q,
        qr_canonical_record_digest = qw_canonical_record_digest q, qr_canonical_bytes = data\<rparr>))))))"

section \<open>Results\<close>

text \<open>The six fields of a result; an expired event no longer has a version.\<close>

record ResultFields =
  res_command_id :: string
  res_aggregate_type :: string
  res_aggregate_id :: string
  res_aggregate_version :: "int option"
  res_ledger_seq :: int
  res_event_id :: string

fun event_result_fields :: "LedgerRow \<Rightarrow> ResultFields" where
  "event_result_fields (Live e) = \<lparr>res_command_id = ev_command_id e, res_aggregate_type = ev_aggregate_type e,
     res_aggregate_id = ev_aggregate_id e, res_aggregate_version = Some (ev_aggregate_version e),
     res_ledger_seq = ev_ledger_seq e, res_event_id = ev_event_id e\<rparr>"
| "event_result_fields (Retired r) = \<lparr>res_command_id = rw_command_id r, res_aggregate_type = rw_aggregate_type r,
     res_aggregate_id = rw_aggregate_id r, res_aggregate_version = None,
     res_ledger_seq = rw_ledger_seq r, res_event_id = rw_event_id r\<rparr>"

definition result_value :: "ResultFields \<Rightarrow> pyval" where
  "result_value r = obj [
     (''command_id'', jtext (res_command_id r)),
     (''aggregate_type'', jtext (res_aggregate_type r)),
     (''aggregate_id'', jtext (res_aggregate_id r)),
     (''aggregate_version'', case res_aggregate_version r of None \<Rightarrow> PNone | Some n \<Rightarrow> jnum n),
     (''ledger_seq'', jnum (res_ledger_seq r)),
     (''event_id'', jtext (res_event_id r))]"

definition result_marker :: "string \<Rightarrow> bytes" where
  "result_marker command_id = COMMAND_RESULT_PREFIX @ concat (map utf8_char (cps_of command_id))"

text \<open>\<open>_result_bytes\<close>: identity columns and digest come from the command, the six fields from the event.\<close>

definition event_result_bytes :: "string \<times> string \<times> string \<Rightarrow> string \<Rightarrow> ResultFields \<Rightarrow> bytes res" where
  "event_result_bytes identity result_digest r =
     require (identity = (res_command_id r, res_aggregate_type r, res_aggregate_id r))
       (value_error ''command-bound backing differs'')
     (res_bind (canonical_json_bytes (result_value r)) (\<lambda>original.
     require (digest_bytes original = result_digest) (value_error ''command-bound backing differs'')
     (Inr original)))"

definition compact_command_result ::
  "string \<times> string \<times> string \<Rightarrow> string \<Rightarrow> bytes \<Rightarrow> ResultFields \<Rightarrow> bytes res" where
  "compact_command_result identity result_digest result_bytes r =
     as_persistence ''command-bound result conversion differs''
       (res_bind (event_result_bytes identity result_digest r) (\<lambda>original.
        require (result_bytes = original) (value_error ''command-bound backing differs'')
        (Inr (result_marker (fst identity)))))"

definition restore_command_result :: "CommandRow \<Rightarrow> bytes \<Rightarrow> ResultFields \<Rightarrow> bytes res" where
  "restore_command_result c data r =
     as_persistence ''command-bound result representation differs''
       (require (data = result_marker (cw_command_id c)) (value_error ''command-bound backing differs'')
       (event_result_bytes (cw_command_id c, cw_aggregate_type c, cw_aggregate_id c) (cw_result_digest c) r))"

definition has_result_prefix :: "bytes \<Rightarrow> bool" where
  "has_result_prefix data = (take (length COMMAND_RESULT_PREFIX) data = COMMAND_RESULT_PREFIX)"

definition command_result_bytes :: "authority_db \<Rightarrow> bytes \<Rightarrow> string \<Rightarrow> string option \<Rightarrow> bytes res" where
  "command_result_bytes db data digest command_id =
     (if \<not> has_result_prefix data then Inr data
      else as_persistence ''stored command-bound result differs''
        (res_bind (res_of_option (Exn UnicodeError ''invalid utf-8'')
           (utf8_decode (drop (length COMMAND_RESULT_PREFIX) data))) (\<lambda>stored_id.
         require (case command_id of None \<Rightarrow> True | Some i \<Rightarrow> stored_id = cps_of i)
           (value_error ''command-bound backing differs'')
         (res_bind (res_of_option (persistence_error ''command-bound backing is missing'')
           (find (\<lambda>c. cps_of (cw_command_id c) = stored_id) (t_commands db))) (\<lambda>c.
         require (cw_result_digest c = digest \<and> cw_result_bytes c = data)
           (value_error ''command-bound backing differs'')
         (res_bind (res_of_option (persistence_error ''command-bound backing is missing'')
           (find (\<lambda>e. cps_of (row_command_id e) = stored_id) (t_events db))) (\<lambda>e.
         restore_command_result c data (event_result_fields e))))))))"

text \<open>
  \<open>_decode_result\<close>. The text and integer columns of a result are read back with \<open>str\<close> and \<open>int\<close>; the
  model reads texts of the model's alphabet and integers and treats other JSON values as a
  conversion failure.
\<close>

definition text_value :: "json \<Rightarrow> string res" where
  "text_value j =
     (case j of
        JStr s \<Rightarrow> require (list_all (\<lambda>c. c < 256) s) (value_error ''unsupported text'') (Inr (map char_of s))
      | _ \<Rightarrow> Inl (value_error ''unsupported text''))"

definition int_value :: "json \<Rightarrow> int res" where
  "int_value j = (case j of JInt n \<Rightarrow> Inr n | _ \<Rightarrow> Inl (value_error ''invalid literal for int''))"

definition RESULT_FIELDS :: "string list" where
  "RESULT_FIELDS = [''command_id'', ''aggregate_type'', ''aggregate_id'', ''aggregate_version'', ''ledger_seq'',
     ''event_id'']"

definition decode_result ::
  "authority_db \<Rightarrow> bytes \<Rightarrow> string \<Rightarrow> bool \<Rightarrow> string option \<Rightarrow> CommittedCommand res" where
  "decode_result db stored expected_digest replayed command_id =
     res_bind (command_result_bytes db stored expected_digest command_id) (\<lambda>data.
     require (digest_bytes data = expected_digest)
       (persistence_error ''stored command result digest mismatch'')
     (res_bind (decode_canonical data) (\<lambda>value.
     require (case value of JObj ps \<Rightarrow> set (map fst ps) = cps_of ` set RESULT_FIELDS | _ \<Rightarrow> False)
       (persistence_error ''stored command result shape is invalid'')
     (require (case command_id of None \<Rightarrow> True | Some i \<Rightarrow> jget ''command_id'' value = Some (jstr i))
       (persistence_error ''stored command result identity mismatch'')
     (res_bind (res_bind (field ''command_id'' value) text_value) (\<lambda>ci.
     res_bind (res_bind (field ''aggregate_type'' value) text_value) (\<lambda>at.
     res_bind (res_bind (field ''aggregate_id'' value) text_value) (\<lambda>ai.
     res_bind (res_bind (field ''aggregate_version'' value) int_value) (\<lambda>av.
     res_bind (res_bind (field ''ledger_seq'' value) int_value) (\<lambda>ls.
     res_bind (res_bind (field ''event_id'' value) text_value) (\<lambda>ei.
     Inr \<lparr>cmt_command_id = ci, cmt_aggregate_type = at, cmt_aggregate_id = ai,
        cmt_aggregate_version = av, cmt_ledger_seq = ls, cmt_event_id = ei,
        cmt_result_digest = expected_digest, cmt_replayed = replayed\<rparr>)))))))))))"

end
