(* ===== verification/Event_Store.thy ===== *)
theory Event_Store
  imports Command_Storage
begin

text \<open>
  The transactions of the event store: \<open>_event_store_commit.py\<close>, the parts of \<open>_event_store_base.py\<close>
  and \<open>_event_store_guards.py\<close> that run in a commit or a lookup, with the constraints and triggers of
  the schema as guarded inserts. The class attributes \<open>_current_state_only\<close>, \<open>_native_checkpoint_schema\<close>
  and \<open>_native_marker_codec\<close> have their defaults. Fresh identifiers and the text of the clock are
  arguments. An SQLite error raises \<open>IntegrityError\<close> inside a transaction, which rolls back and reports
  \<open>AuthorityPersistenceError\<close>; the writer lock and its busy error are left out.
\<close>

record EventStore =
  es_issuer :: CapabilityIssuer
  es_command_registry :: CommandRegistry
  es_payload_schemas :: PayloadSchemaRegistry
  es_command_service_version :: string

record FreshIds =
  fid_command :: string
  fid_event :: string
  fid_audit :: string
  fid_payload :: string

section \<open>Guarded inserts\<close>

definition integrity :: "string \<Rightarrow> exn" where "integrity m = Exn IntegrityError m"

definition taken :: "('r \<Rightarrow> 'k) \<Rightarrow> 'r \<Rightarrow> 'r list \<Rightarrow> bool" where
  "taken key r rows = list_ex (\<lambda>x. key x = key r) rows"

definition PAYLOAD_MODES :: "string list" where
  "PAYLOAD_MODES = [''INLINE'', ''OBJECT_ADMISSION'', ''NO_PAYLOAD'']"

definition TRUST_SCOPES :: "string list" where
  "TRUST_SCOPES = [''OBSERVED'', ''PROPOSED'', ''ADMITTED'']"

definition has_context :: "authority_db \<Rightarrow> string \<Rightarrow> bool" where
  "has_context db i = list_ex (\<lambda>x. xw_authentication_context_id x = i) (t_contexts db)"

definition has_request :: "authority_db \<Rightarrow> string \<Rightarrow> string \<Rightarrow> bool" where
  "has_request db digest context =
     list_ex (\<lambda>q. qw_request_digest q = digest \<and> qw_authentication_context_id q = context) (t_requests db)"

definition has_decision :: "authority_db \<Rightarrow> string \<Rightarrow> string \<Rightarrow> string \<Rightarrow> bool" where
  "has_decision db decision context digest =
     list_ex (\<lambda>z. zw_authorization_decision_id z = decision \<and> zw_authentication_context_id z = context \<and>
       zw_authorization_request_digest z = digest) (t_decisions db)"

definition has_schema :: "authority_db \<Rightarrow> string \<Rightarrow> bool" where
  "has_schema db digest = list_ex (\<lambda>s. sr_contract_digest s = digest) (t_schemas db)"

definition has_definition :: "authority_db \<Rightarrow> string \<Rightarrow> bool" where
  "has_definition db digest = list_ex (\<lambda>d. dr_definition_digest d = digest) (t_definitions db)"

definition has_payload :: "authority_db \<Rightarrow> string \<Rightarrow> bool" where
  "has_payload db i = list_ex (\<lambda>p. pw_payload_id p = i) (t_payloads db)"

definition has_command :: "authority_db \<Rightarrow> string \<Rightarrow> bool" where
  "has_command db i = list_ex (\<lambda>c. cw_command_id c = i) (t_commands db)"

text \<open>\<open>INSERT OR IGNORE\<close>: a row that breaks a uniqueness or check constraint is skipped, a foreign key or
  a trigger still raises.\<close>

definition insert_schema :: "SchemaRow \<Rightarrow> authority_db \<Rightarrow> authority_db res" where
  "insert_schema r db =
     Inr (if sr_payload_mode r \<notin> set PAYLOAD_MODES \<or> sr_canonical_bytes r = [] \<or>
            taken sr_contract_digest r (t_schemas db) \<or>
            taken (\<lambda>s. (sr_schema_version s, sr_payload_mode s, sr_contract_version s,
              sr_canonicalizer_implementation_version s)) r (t_schemas db)
          then db else db\<lparr>t_schemas := t_schemas db @ [r]\<rparr>)"

definition insert_definition :: "DefinitionRow \<Rightarrow> authority_db \<Rightarrow> authority_db res" where
  "insert_definition r db =
     (if dr_canonical_bytes r = [] \<or> taken dr_definition_digest r (t_definitions db) \<or>
         taken (\<lambda>d. (dr_command_type d, dr_definition_version d)) r (t_definitions db)
      then Inr db
      else require (has_schema db (dr_payload_schema_contract_digest r))
        (integrity ''FOREIGN KEY constraint failed'')
        (Inr (db\<lparr>t_definitions := t_definitions db @ [r]\<rparr>)))"

definition insert_context :: "ContextRow \<Rightarrow> authority_db \<Rightarrow> authority_db res" where
  "insert_context r db =
     require (xw_storage_context_marker r = V37) (integrity ''authentication context storage differs'')
     (Inr (if taken xw_authentication_context_id r (t_contexts db) then db
           else db\<lparr>t_contexts := t_contexts db @ [r]\<rparr>))"

definition insert_request :: "RequestRow \<Rightarrow> authority_db \<Rightarrow> authority_db res" where
  "insert_request r db =
     require (qw_storage_request_marker r \<in> {V38, COMMAND_REQUEST_MARKER})
       (integrity ''authorization request storage differs'')
     (if taken qw_request_digest r (t_requests db) \<or> qw_storage_request_residual r = [] then Inr db
      else require (has_context db (qw_authentication_context_id r))
        (integrity ''FOREIGN KEY constraint failed'')
        (Inr (db\<lparr>t_requests := t_requests db @ [r]\<rparr>)))"

definition insert_scopes :: "string \<times> bytes \<Rightarrow> authority_db \<Rightarrow> authority_db res" where
  "insert_scopes r db =
     Inr (if snd r = [] \<or> taken fst r (t_scopes db) \<or> taken snd r (t_scopes db) then db
          else db\<lparr>t_scopes := t_scopes db @ [r]\<rparr>)"

definition insert_decision :: "DecisionRow \<Rightarrow> authority_db \<Rightarrow> authority_db res" where
  "insert_decision r db =
     require (zw_storage_scope_marker r = V36 \<and> zw_storage_decision_marker r = V36)
       (integrity ''authorization decision storage differs'')
     (if taken zw_authorization_decision_id r (t_decisions db) \<or> zw_allowed r \<notin> {0, 1} then Inr db
      else require (has_context db (zw_authentication_context_id r) \<and>
          has_request db (zw_authorization_request_digest r) (zw_authentication_context_id r) \<and>
          list_ex (\<lambda>s. fst s = zw_scope_content_digest r) (t_scopes db))
        (integrity ''FOREIGN KEY constraint failed'')
        (Inr (db\<lparr>t_decisions := t_decisions db @ [r]\<rparr>)))"

text \<open>The tables of object admissions are not part of this store, so no admission is active.\<close>

definition insert_payload :: "PayloadRow \<Rightarrow> authority_db \<Rightarrow> authority_db res" where
  "insert_payload r db =
     require (pw_mode r \<noteq> ''OBJECT_ADMISSION'') (integrity ''object payload admission is not active'')
     (require (pw_mode r = ''INLINE'' \<and> pw_payload_bytes r \<notin> {None, Some []} \<and> pw_object_admission_id r = None \<or>
               pw_mode r = ''NO_PAYLOAD'' \<and> pw_payload_bytes r = Some [] \<and> pw_object_admission_id r = None)
       (integrity ''CHECK constraint failed'')
     (require (\<not> taken pw_payload_id r (t_payloads db)) (integrity ''UNIQUE constraint failed'')
     (require (has_schema db (pw_schema_contract_digest r)) (integrity ''FOREIGN KEY constraint failed'')
     (Inr (db\<lparr>t_payloads := t_payloads db @ [r]\<rparr>)))))"

fun reserves :: "string \<Rightarrow> string \<Rightarrow> LedgerRow \<Rightarrow> bool" where
  "reserves namespace key (Live e) = False"
| "reserves namespace key (Retired r) = (rw_retired_namespace r = namespace \<and> rw_retired_key r = key)"

fun is_retired :: "LedgerRow \<Rightarrow> bool" where
  "is_retired (Live e) = False"
| "is_retired (Retired r) = True"

definition insert_command :: "CommandRow \<Rightarrow> authority_db \<Rightarrow> authority_db res" where
  "insert_command r db =
     require (\<not> list_ex (reserves (cw_idempotency_namespace r) (cw_idempotency_key r)) (t_events db) \<and>
              \<not> list_ex (\<lambda>e. is_retired e \<and> row_command_id e = cw_command_id r) (t_events db))
       (integrity ''command diagnostic history expired; identity remains reserved'')
     (require (\<not> cw_expected_aggregate_version r < 0 \<and> cw_result_bytes r \<noteq> [])
       (integrity ''CHECK constraint failed'')
     (require (\<not> taken cw_command_id r (t_commands db) \<and>
               \<not> taken (\<lambda>c. (cw_idempotency_namespace c, cw_idempotency_key c)) r (t_commands db))
       (integrity ''UNIQUE constraint failed'')
     (require (has_definition db (cw_command_definition_digest r) \<and> has_payload db (cw_payload_id r) \<and>
               has_context db (cw_authentication_context_id r) \<and>
               has_request db (cw_authorization_request_digest r) (cw_authentication_context_id r) \<and>
               has_decision db (cw_authorization_decision_id r) (cw_authentication_context_id r)
                 (cw_authorization_request_digest r))
       (integrity ''FOREIGN KEY constraint failed'')
     (Inr (db\<lparr>t_commands := t_commands db @ [r]\<rparr>)))))"

definition insert_aggregate :: "AggregateRow \<Rightarrow> authority_db \<Rightarrow> authority_db res" where
  "insert_aggregate r db =
     require (gw_current_version r = 1) (integrity ''aggregate heads begin at version one'')
     (require (\<not> taken (\<lambda>g. (gw_aggregate_type g, gw_aggregate_id g)) r (t_aggregates db))
       (integrity ''UNIQUE constraint failed'')
     (Inr (db\<lparr>t_aggregates := t_aggregates db @ [r]\<rparr>)))"

definition update_aggregate :: "string \<Rightarrow> string \<Rightarrow> int \<Rightarrow> string \<Rightarrow> authority_db \<Rightarrow> authority_db res" where
  "update_aggregate ty i version at db =
     (let matching = (\<lambda>g. gw_aggregate_type g = ty \<and> gw_aggregate_id g = i)
      in require (list_all (\<lambda>g. matching g \<longrightarrow> version = gw_current_version g + 1) (t_aggregates db))
           (integrity ''invalid aggregate-head update'')
         (Inr (db\<lparr>t_aggregates := map (\<lambda>g. if matching g
            then g\<lparr>gw_current_version := version, gw_updated_at := at\<rparr> else g) (t_aggregates db)\<rparr>)))"

definition insert_version :: "VersionRow \<Rightarrow> authority_db \<Rightarrow> authority_db res" where
  "insert_version r db =
     require (0 < vw_aggregate_version r \<and> vw_trust_scope r \<in> set TRUST_SCOPES)
       (integrity ''CHECK constraint failed'')
     (require (\<not> taken (\<lambda>v. (vw_aggregate_type v, vw_aggregate_id v, vw_aggregate_version v)) r (t_versions db) \<and>
               \<not> taken vw_command_id r (t_versions db))
       (integrity ''UNIQUE constraint failed'')
     (require (has_command db (vw_command_id r) \<and> has_payload db (vw_payload_id r))
       (integrity ''FOREIGN KEY constraint failed'')
     (Inr (db\<lparr>t_versions := t_versions db @ [r]\<rparr>))))"

definition insert_audit :: "AuditRow \<Rightarrow> authority_db \<Rightarrow> authority_db res" where
  "insert_audit r db =
     require (\<not> taken aw_audit_id r (t_audits db) \<and> \<not> taken aw_command_id r (t_audits db))
       (integrity ''UNIQUE constraint failed'')
     (require (has_command db (aw_command_id r) \<and>
               has_request db (aw_authorization_request_digest r) (aw_authentication_context_id r) \<and>
               has_decision db (aw_authorization_decision_id r) (aw_authentication_context_id r)
                 (aw_authorization_request_digest r))
       (integrity ''FOREIGN KEY constraint failed'')
     (Inr (db\<lparr>t_audits := t_audits db @ [r]\<rparr>)))"

definition payload_envelope :: "LedgerEventRecord \<Rightarrow> PayloadRow \<Rightarrow> bool" where
  "payload_envelope e p = (pw_mode p = ev_payload_mode e \<and>
     pw_schema_version p = ev_payload_schema_version e \<and>
     pw_schema_contract_version p = ev_payload_schema_contract_version e \<and>
     pw_schema_contract_digest p = ev_payload_schema_contract_digest e \<and>
     pw_canonicalizer_implementation_version p = ev_payload_canonicalizer_version e \<and>
     pw_payload_digest p = ev_payload_digest e \<and> pw_object_admission_id p = ev_object_admission_id e)"

definition command_envelope :: "LedgerEventRecord \<Rightarrow> CommandRow \<Rightarrow> bool" where
  "command_envelope e c = (cw_producer_version c = ev_producer_version e \<and>
     cw_command_definition_version c = ev_command_definition_version e \<and>
     cw_command_definition_digest c = ev_command_definition_digest e \<and>
     cw_payload_id c = ev_payload_id e)"

definition command_security :: "LedgerEventRecord \<Rightarrow> CommandRow \<Rightarrow> bool" where
  "command_security e c = (cw_authentication_context_id c = ev_authentication_context_id e \<and>
     cw_authorization_request_digest c = ev_authorization_request_digest e \<and>
     cw_authorization_decision_id c = ev_authorization_decision_id e)"

definition causation_shape :: "LedgerEventRecord \<Rightarrow> bool" where
  "causation_shape e =
     (case ev_causation_kind e of
        None \<Rightarrow> ev_causation_identifier e = None \<and> ev_causation_external_system e = None
      | Some k \<Rightarrow>
          k \<in> {''COMMAND'', ''EVENT''} \<and> ev_causation_identifier e \<noteq> None \<and>
            ev_causation_external_system e = None \<or>
          k = ''EXTERNAL'' \<and> ev_causation_identifier e \<noteq> None \<and> ev_causation_external_system e \<noteq> None)"

definition known_causation :: "authority_db \<Rightarrow> LedgerEventRecord \<Rightarrow> bool" where
  "known_causation db e =
     ((ev_causation_kind e = Some ''COMMAND'' \<longrightarrow>
         list_ex (\<lambda>c. Some (cw_command_id c) = ev_causation_identifier e) (t_commands db)) \<and>
      (ev_causation_kind e = Some ''EVENT'' \<longrightarrow>
         list_ex (\<lambda>r. \<not> is_retired r \<and> Some (row_event_id r) = ev_causation_identifier e) (t_events db)))"

definition insert_event :: "LedgerEventRecord \<Rightarrow> authority_db \<Rightarrow> authority_db res" where
  "insert_event e db =
     require (list_ex (\<lambda>p. pw_payload_id p = ev_payload_id e \<and> payload_envelope e p) (t_payloads db))
       (integrity ''event payload envelope mismatch'')
     (require (list_ex (\<lambda>c. cw_command_id c = ev_command_id e \<and> command_envelope e c \<and> command_security e c)
         (t_commands db))
       (integrity ''event command envelope mismatch'')
     (require (known_causation db e) (integrity ''unknown causation'')
     (require (0 < ev_event_schema_version e \<and> 0 < ev_aggregate_version e \<and>
               ev_trust_scope e \<in> set TRUST_SCOPES \<and> causation_shape e)
       (integrity ''CHECK constraint failed'')
     (require (\<not> taken row_seq (Live e) (t_events db) \<and> \<not> taken row_event_id (Live e) (t_events db) \<and>
               \<not> taken row_command_id (Live e) (t_events db))
       (integrity ''UNIQUE constraint failed'')
     (require (has_command db (ev_command_id e) \<and> has_definition db (ev_command_definition_digest e) \<and>
               has_payload db (ev_payload_id e) \<and> has_schema db (ev_payload_schema_contract_digest e) \<and>
               list_ex (\<lambda>v. vw_aggregate_type v = ev_aggregate_type e \<and> vw_aggregate_id v = ev_aggregate_id e \<and>
                 vw_aggregate_version v = ev_aggregate_version e) (t_versions db) \<and>
               has_request db (ev_authorization_request_digest e) (ev_authentication_context_id e) \<and>
               has_decision db (ev_authorization_decision_id e) (ev_authentication_context_id e)
                 (ev_authorization_request_digest e))
       (integrity ''FOREIGN KEY constraint failed'')
     (Inr (db\<lparr>t_events := t_events db @ [Live e]\<rparr>)))))))"

text \<open>The two foreign keys that are checked when the transaction commits.\<close>

definition deferred_foreign_keys :: "authority_db \<Rightarrow> bool" where
  "deferred_foreign_keys db =
     (list_all (\<lambda>g. list_ex (\<lambda>v. vw_aggregate_type v = gw_aggregate_type g \<and>
        vw_aggregate_id v = gw_aggregate_id g \<and> vw_aggregate_version v = gw_current_version g) (t_versions db))
        (t_aggregates db) \<and>
      list_all (\<lambda>v. list_ex (\<lambda>g. gw_aggregate_type g = vw_aggregate_type v \<and>
        gw_aggregate_id g = vw_aggregate_id v) (t_aggregates db)) (t_versions db))"

definition store_transaction ::
  "(authority_db \<Rightarrow> ('a \<times> authority_db) res) \<Rightarrow> authority_db \<Rightarrow> 'a res \<times> authority_db" where
  "store_transaction body db =
     (case body db of
        Inr (x, db') \<Rightarrow>
          if deferred_foreign_keys db' then (Inr x, db')
          else (Inl (persistence_error ''FOREIGN KEY constraint failed''), db)
      | Inl e \<Rightarrow>
          (Inl (if exn_class_of e = IntegrityError then persistence_error (exn_message e) else e), db))"

section \<open>Registered contracts\<close>

definition persist_schema_contract ::
  "EventStore \<Rightarrow> AuthorizedCommandGrant \<Rightarrow> string \<Rightarrow> authority_db \<Rightarrow> authority_db res" where
  "persist_schema_contract st g recorded_at db =
     (let p = g_payload g in
      res_bind (PayloadSchemaRegistry_resolve_exact (es_payload_schemas st) (rp_schema_version p)
        (cd_payload_mode (g_definition g)) (rp_schema_contract_version p) (rp_schema_contract_digest p)
        (rp_canonicalizer_version p)) (\<lambda>contract.
      res_bind (canonical_json_bytes (PayloadSchemaContract_canonical_value contract)) (\<lambda>canonical.
      res_bind (PayloadSchemaContract_contract_digest contract) (\<lambda>digest.
      require (digest_bytes canonical = digest)
        (persistence_error ''payload schema contract digest mismatch'')
      (res_bind (insert_schema \<lparr>sr_contract_digest = digest, sr_schema_version = ps_schema_version contract,
          sr_payload_mode = PayloadMode_value (ps_payload_mode contract),
          sr_contract_version = ps_contract_version contract,
          sr_canonicalizer_implementation_version = ps_canonicalizer_implementation_version contract,
          sr_canonical_bytes = canonical, sr_registered_at = recorded_at\<rparr> db) (\<lambda>db'.
      res_bind (res_of_option (persistence_error ''payload schema contract was not persisted'')
        (find (\<lambda>s. sr_contract_digest s = digest) (t_schemas db'))) (\<lambda>row.
      res_bind (schema_record_from_row row) (\<lambda>_. Inr db'))))))))"

definition persist_definition ::
  "EventStore \<Rightarrow> AuthorizedCommandGrant \<Rightarrow> string \<Rightarrow> authority_db \<Rightarrow> authority_db res" where
  "persist_definition st g recorded_at db =
     res_bind (CommandDefinition_digest (g_definition g)) (\<lambda>wanted.
     res_bind (CommandRegistry_resolve_exact (es_command_registry st) (cd_command_type (g_definition g))
       (cd_definition_version (g_definition g)) wanted) (\<lambda>definition.
     res_bind (canonical_json_bytes (CommandDefinition_canonical_value definition)) (\<lambda>canonical.
     res_bind (CommandDefinition_digest definition) (\<lambda>digest.
     require (digest_bytes canonical = digest) (persistence_error ''command definition digest mismatch'')
     (res_bind (insert_definition \<lparr>dr_definition_digest = digest, dr_command_type = cd_command_type definition,
         dr_definition_version = cd_definition_version definition,
         dr_payload_schema_contract_digest = cd_payload_schema_contract_digest definition,
         dr_canonical_bytes = canonical, dr_registered_at = recorded_at\<rparr> db) (\<lambda>db'.
     res_bind (res_of_option (persistence_error ''command definition was not persisted'')
       (find (\<lambda>d. dr_definition_digest d = digest) (t_definitions db'))) (\<lambda>row.
     res_bind (definition_record_from_row row) (\<lambda>_. Inr db'))))))))"

section \<open>Security records\<close>

definition context_row :: "VerifiedAuthenticationContext \<Rightarrow> string \<Rightarrow> ContextRow" where
  "context_row c digest = \<lparr>xw_authentication_context_id = vc_authentication_context_id c,
     xw_principal_id = vc_principal_id c, xw_authority_domain = vc_authority_domain c,
     xw_authentication_method = vc_authentication_method c, xw_assurance_class = vc_assurance_class c,
     xw_credential_binding_digest = vc_credential_binding_digest c,
     xw_authenticated_at = UtcTimestamp_to_text (vc_authenticated_at c),
     xw_expires_at = UtcTimestamp_to_text (vc_expires_at c), xw_storage_context_marker = V37,
     xw_canonical_digest = digest\<rparr>"

definition request_row ::
  "VerifiedAuthenticationContext \<Rightarrow> AuthorizationRequest \<Rightarrow> string \<Rightarrow> string \<Rightarrow> bytes \<times> bytes \<Rightarrow> RequestRow" where
  "request_row c r digest recorded_at stored = \<lparr>qw_request_digest = ar_request_digest r,
     qw_authentication_context_id = vc_authentication_context_id c, qw_principal_id = vc_principal_id c,
     qw_authority_domain = vc_authority_domain c, qw_operation_type = ar_operation_type r,
     qw_required_scope = ar_required_scope r, qw_storage_request_residual = fst stored,
     qw_canonical_record_digest = digest, qw_recorded_at = recorded_at,
     qw_storage_request_marker = snd stored\<rparr>"

definition decision_row ::
  "VerifiedAuthenticationContext \<Rightarrow> AuthorizationRequest \<Rightarrow> AuthorizationDecision \<Rightarrow> string \<Rightarrow> string \<Rightarrow> DecisionRow" where
  "decision_row c r a digest scope_digest = \<lparr>zw_authorization_decision_id = ad_authorization_decision_id a,
     zw_authentication_context_id = vc_authentication_context_id c,
     zw_authorization_request_digest = ar_request_digest r,
     zw_authorization_policy_version = ad_authorization_policy_version a, zw_storage_scope_marker = V36,
     zw_effective_scope_digest = ad_effective_scope_digest a,
     zw_allowed = (if ad_allowed a then 1 else 0), zw_reason_code = ad_reason_code a,
     zw_decided_at = UtcTimestamp_to_text (ad_decided_at a), zw_storage_decision_marker = V36,
     zw_canonical_digest = digest, zw_scope_content_digest = scope_digest\<rparr>"

text \<open>What is stored of the request: the residual and its marker, compact when a command is pending.\<close>

definition stored_request :: "AuthorizationRequest \<Rightarrow> string option \<Rightarrow> (bytes \<times> bytes) res" where
  "stored_request r pending =
     (case pending of
        None \<Rightarrow>
          res_bind (canonical_json_bytes (obj (filter (\<lambda>p. fst p \<notin> set INDEXED_FIELDS)
            (request_fields r @ [(''request_digest'', jtext (ar_request_digest r))])))) (\<lambda>b. Inr (b, V38))
      | Some command_id \<Rightarrow>
          res_bind (command_request_storage (AuthorizationRequest_canonical_value r) command_id) (\<lambda>b.
          Inr (b, COMMAND_REQUEST_MARKER)))"

text \<open>The canonical bytes of a stored request row, checked as a pending row or with its backing.\<close>

definition retained_request_bytes ::
  "authority_db \<Rightarrow> AuthorizationRequest \<Rightarrow> string option \<Rightarrow> RequestRow \<Rightarrow> bytes res" where
  "retained_request_bytes db r pending q =
     (case pending of
        Some command_id \<Rightarrow>
          if qw_storage_request_marker q = COMMAND_REQUEST_MARKER
          then res_bind (canonical_json_bytes (AuthorizationRequest_canonical_value r)) (\<lambda>original.
            pending_command_request_bytes q original command_id)
          else res_bind (request_record_from_row db q) (\<lambda>record. Inr (qr_canonical_bytes record))
      | None \<Rightarrow> res_bind (request_record_from_row db q) (\<lambda>record. Inr (qr_canonical_bytes record)))"

definition insert_security_records ::
  "VerifiedAuthenticationContext \<Rightarrow> AuthorizationRequest \<Rightarrow> AuthorizationDecision \<Rightarrow> string \<Rightarrow> string option \<Rightarrow>
     authority_db \<Rightarrow> authority_db res" where
  "insert_security_records c r a recorded_at pending db =
     res_bind (stored_request r pending) (\<lambda>stored.
     res_bind (canonical_json_bytes (jlist (map jtext (ad_effective_scopes a)))) (\<lambda>scopes_bytes.
     res_bind (VerifiedAuthenticationContext_digest c) (\<lambda>context_digest.
     res_bind (insert_context (context_row c context_digest) db) (\<lambda>db1.
     res_bind (AuthorizationRequest_digest r) (\<lambda>record_digest.
     res_bind (insert_request (request_row c r record_digest recorded_at stored) db1) (\<lambda>db2.
     res_bind (insert_scopes (digest_bytes scopes_bytes, scopes_bytes) db2) (\<lambda>db3.
     require (map_of (t_scopes db3) (digest_bytes scopes_bytes) = Some scopes_bytes)
       (persistence_error ''authorization scope content differs'')
     (res_bind (AuthorizationDecision_digest a) (\<lambda>decision_digest.
     insert_decision (decision_row c r a decision_digest (digest_bytes scopes_bytes)) db3)))))))))"

text \<open>\<open>_persist_security_records\<close> of the commit mixin and, after it, of \<open>_ExactAuthorityGuards\<close>.\<close>

definition persist_security_records ::
  "VerifiedAuthenticationContext \<Rightarrow> AuthorizationRequest \<Rightarrow> AuthorizationDecision \<Rightarrow> string \<Rightarrow> string option \<Rightarrow>
     authority_db \<Rightarrow> authority_db res" where
  "persist_security_records c r a recorded_at pending db =
     res_bind (insert_security_records c r a recorded_at pending db) (\<lambda>db'.
     case (find (\<lambda>x. xw_authentication_context_id x = vc_authentication_context_id c) (t_contexts db'),
           find (\<lambda>q. qw_request_digest q = ar_request_digest r) (t_requests db'),
           find (\<lambda>z. zw_authorization_decision_id z = ad_authorization_decision_id a) (t_decisions db')) of
       (Some x, Some q, Some z) \<Rightarrow>
         res_bind (authentication_record_from_row x) (\<lambda>xr.
         res_bind (retained_request_bytes db' r pending q) (\<lambda>retained.
         res_bind (decision_record_from_row (t_scopes db') z) (\<lambda>zr.
         res_bind (canonical_json_bytes (VerifiedAuthenticationContext_canonical_value c)) (\<lambda>context_bytes.
         res_bind (VerifiedAuthenticationContext_digest c) (\<lambda>context_digest.
         require (xr_canonical_bytes xr = context_bytes \<and> xw_canonical_digest x = context_digest)
           (persistence_error ''authentication_contexts identity already belongs to different provenance'')
         (res_bind (canonical_json_bytes (AuthorizationRequest_canonical_value r)) (\<lambda>request_bytes.
         res_bind (AuthorizationRequest_digest r) (\<lambda>record_digest.
         require (retained = request_bytes \<and> qw_canonical_record_digest q = record_digest)
           (persistence_error ''authorization_requests identity already belongs to different provenance'')
         (res_bind (canonical_json_bytes (AuthorizationDecision_canonical_value a)) (\<lambda>decision_bytes.
         res_bind (AuthorizationDecision_digest a) (\<lambda>decision_digest.
         require (zr_canonical_bytes zr = decision_bytes \<and> zr_canonical_digest zr = decision_digest)
           (persistence_error ''authorization_decisions identity already belongs to different provenance'')
         (Inr db'))))))))))))
     | _ \<Rightarrow> Inl (persistence_error ''security provenance was not persisted''))"

section \<open>Identity, causation and version\<close>

definition require_unexpired_key :: "authority_db \<Rightarrow> string \<Rightarrow> string \<Rightarrow> unit res" where
  "require_unexpired_key db namespace key =
     (case find (reserves namespace key) (t_events db) of
        None \<Rightarrow> Inr ()
      | Some row \<Rightarrow> res_bind (event_from_row row) (\<lambda>_.
          Inl (history_expired ''command diagnostic history expired; identity remains reserved'')))"

definition command_by_key :: "authority_db \<Rightarrow> string \<Rightarrow> string \<Rightarrow> CommandRow option" where
  "command_by_key db namespace key =
     find (\<lambda>c. cw_idempotency_namespace c = namespace \<and> cw_idempotency_key c = key) (t_commands db)"

definition idempotency_conflict :: "string \<Rightarrow> exn" where
  "idempotency_conflict m = Exn IdempotencyConflict m"

definition replay_existing ::
  "authority_db \<Rightarrow> AuthorizedCommandGrant \<Rightarrow> CommandRow \<Rightarrow> CommittedCommand res" where
  "replay_existing db g row =
     require (cw_stable_semantic_request_digest row = g_stable_semantic_request_digest g)
       (identity_conflict ''idempotency identity belongs to a different semantic command'')
     (res_bind (CommandDefinition_digest (g_definition g)) (\<lambda>digest.
     require (cw_command_definition_version row = cd_definition_version (g_definition g) \<and>
              cw_command_definition_digest row = digest)
       (idempotency_conflict ''replay grant does not use the committed command definition'')
     (require (case g_replay_of_command_id g of None \<Rightarrow> True | Some i \<Rightarrow> cw_command_id row = i)
       (idempotency_conflict ''replay command identity mismatch'')
     (decode_result db (cw_result_bytes row) (cw_result_digest row) True (Some (cw_command_id row))))))"

definition validate_causation :: "authority_db \<Rightarrow> AuthorizedCommandGrant \<Rightarrow> unit res" where
  "validate_causation db g =
     (if g_causation_kind g = Some ''COMMAND'' then
        if list_ex (\<lambda>c. Some (cw_command_id c) = g_causation_identifier g) (t_commands db) then Inr ()
        else require (\<not> list_ex (\<lambda>e. is_retired e \<and> Some (row_command_id e) = g_causation_identifier g) (t_events db))
          (history_expired ''causation command diagnostic history expired'')
          (Inl (Exn UnknownCausation ''causation command does not resolve''))
      else if g_causation_kind g = Some ''EVENT'' then
        case find (\<lambda>e. Some (row_event_id e) = g_causation_identifier g) (t_events db) of
          None \<Rightarrow> Inl (Exn UnknownCausation ''causation event does not resolve'')
        | Some row \<Rightarrow> require (\<not> is_retired row)
            (history_expired ''causation event diagnostic history expired'') (Inr ())
      else Inr ())"

definition aggregate_head :: "authority_db \<Rightarrow> string \<Rightarrow> string \<Rightarrow> int option" where
  "aggregate_head db ty i = map_option gw_current_version
     (find (\<lambda>g. gw_aggregate_type g = ty \<and> gw_aggregate_id g = i) (t_aggregates db))"

definition resolve_version :: "authority_db \<Rightarrow> AuthorizedCommandGrant \<Rightarrow> (int option \<times> int) res" where
  "resolve_version db g =
     (case aggregate_head db (cd_aggregate_type (g_definition g)) (g_aggregate_id g) of
        None \<Rightarrow> require (g_expected_aggregate_version g = 0)
          (Exn ExpectedVersionConflict ''create command requires expected aggregate version 0'')
          (Inr (None, 1))
      | Some current \<Rightarrow> require (g_expected_aggregate_version g = current)
          (Exn ExpectedVersionConflict ''expected aggregate version differs'')
          (Inr (Some current, current + 1)))"

section \<open>Commit\<close>

definition object_payload_commit_guard :: "AuthorizedCommandGrant \<Rightarrow> unit res" where
  "object_payload_commit_guard g =
     require (rp_kind (g_payload g) \<noteq> PayloadMode_value OBJECT_ADMISSION)
       (Exn UnsupportedPayloadMode ''object-admission payload persistence requires the A2b authority store'')
       (Inr ())"

text \<open>The retained payload: its object admission, which this store never pins, or its bytes.\<close>

definition retained_payload :: "PayloadMode \<Rightarrow> ResolvedPayload \<Rightarrow> string option res" where
  "retained_payload mode p =
     (if mode = OBJECT_ADMISSION then
        require (rp_inline_bytes p = None \<and> rp_object_admission_id p \<noteq> None \<and>
                 rp_blob_digest p \<noteq> None \<and> Some (rp_digest p) = rp_blob_digest p)
          (persistence_error ''object-admission payload is not a closed retained reference'')
          (Inl (persistence_error ''object-admission payload lacks a pinned authority guard''))
      else
        res_bind (res_of_option (persistence_error ''retained payload bytes are required'')
          (rp_inline_bytes p)) (\<lambda>b.
        require (digest_bytes b = rp_digest p) (persistence_error ''retained payload digest mismatch'')
          (Inr None)))"

definition next_ledger_seq :: "authority_db \<Rightarrow> int" where
  "next_ledger_seq db = foldr max (map row_seq (t_events db)) 0 + 1"

definition payload_row :: "AuthorizedCommandGrant \<Rightarrow> string \<Rightarrow> string option \<Rightarrow> string \<Rightarrow> PayloadRow" where
  "payload_row g payload_id admission recorded_at =
     (let p = g_payload g in \<lparr>pw_payload_id = payload_id, pw_mode = rp_kind p,
        pw_schema_version = rp_schema_version p, pw_schema_contract_version = rp_schema_contract_version p,
        pw_schema_contract_digest = rp_schema_contract_digest p,
        pw_canonicalizer_implementation_version = rp_canonicalizer_version p, pw_payload_digest = rp_digest p,
        pw_payload_bytes = rp_inline_bytes p, pw_object_admission_id = admission, pw_created_at = recorded_at\<rparr>)"

definition command_row ::
  "EventStore \<Rightarrow> AuthorizedCommandGrant \<Rightarrow> FreshIds \<Rightarrow> string \<Rightarrow> string \<Rightarrow> bytes \<Rightarrow> string \<Rightarrow> CommandRow" where
  "command_row st g ids definition_digest result_digest stored recorded_at =
     \<lparr>cw_command_id = fid_command ids, cw_command_type = g_command_type g,
      cw_producer_version = es_command_service_version st,
      cw_command_definition_version = cd_definition_version (g_definition g),
      cw_command_definition_digest = definition_digest, cw_aggregate_type = cd_aggregate_type (g_definition g),
      cw_aggregate_id = g_aggregate_id g, cw_expected_aggregate_version = g_expected_aggregate_version g,
      cw_payload_id = fid_payload ids, cw_idempotency_namespace = g_idempotency_namespace g,
      cw_idempotency_key = g_idempotency_key g,
      cw_stable_semantic_request_digest = g_stable_semantic_request_digest g,
      cw_authentication_context_id = vc_authentication_context_id (g_authentication g),
      cw_authorization_request_digest = ar_request_digest (g_authorization_request g),
      cw_authorization_decision_id = ad_authorization_decision_id (g_authorization g),
      cw_result_digest = result_digest, cw_result_bytes = stored, cw_committed_at = recorded_at\<rparr>"

definition version_row :: "AuthorizedCommandGrant \<Rightarrow> FreshIds \<Rightarrow> int \<Rightarrow> string \<Rightarrow> VersionRow" where
  "version_row g ids new_version recorded_at =
     \<lparr>vw_aggregate_type = cd_aggregate_type (g_definition g), vw_aggregate_id = g_aggregate_id g,
      vw_aggregate_version = new_version, vw_command_id = fid_command ids, vw_payload_id = fid_payload ids,
      vw_trust_scope = TrustScope_value (cd_trust_scope (g_definition g)), vw_recorded_at = recorded_at\<rparr>"

definition audit_row :: "AuthorizedCommandGrant \<Rightarrow> FreshIds \<Rightarrow> string \<Rightarrow> string \<Rightarrow> AuditRow" where
  "audit_row g ids detail_digest recorded_at =
     \<lparr>aw_audit_id = fid_audit ids, aw_command_id = fid_command ids,
      aw_authentication_context_id = vc_authentication_context_id (g_authentication g),
      aw_authorization_request_digest = ar_request_digest (g_authorization_request g),
      aw_authorization_decision_id = ad_authorization_decision_id (g_authorization g),
      aw_event_type = cd_event_type (g_definition g), aw_detail_digest = detail_digest,
      aw_recorded_at = recorded_at\<rparr>"

definition event_row ::
  "EventStore \<Rightarrow> AuthorizedCommandGrant \<Rightarrow> FreshIds \<Rightarrow> string \<Rightarrow> string option \<Rightarrow> int \<Rightarrow> int \<Rightarrow> string \<Rightarrow> LedgerEventRecord" where
  "event_row st g ids definition_digest admission new_version ledger_seq recorded_at =
     (let d = g_definition g; p = g_payload g in
      \<lparr>ev_ledger_seq = ledger_seq, ev_event_id = fid_event ids, ev_event_type = cd_event_type d,
       ev_event_schema_version = cd_event_schema_version d, ev_aggregate_type = cd_aggregate_type d,
       ev_aggregate_id = g_aggregate_id g, ev_aggregate_version = new_version, ev_recorded_at = recorded_at,
       ev_command_id = fid_command ids, ev_producer_version = es_command_service_version st,
       ev_command_definition_version = cd_definition_version d,
       ev_command_definition_digest = definition_digest, ev_payload_id = fid_payload ids,
       ev_payload_mode = rp_kind p, ev_payload_schema_version = rp_schema_version p,
       ev_payload_schema_contract_version = rp_schema_contract_version p,
       ev_payload_schema_contract_digest = rp_schema_contract_digest p,
       ev_payload_canonicalizer_version = rp_canonicalizer_version p, ev_payload_digest = rp_digest p,
       ev_object_admission_id = admission, ev_principal_id = vc_principal_id (g_authentication g),
       ev_authentication_context_id = vc_authentication_context_id (g_authentication g),
       ev_authorization_request_digest = ar_request_digest (g_authorization_request g),
       ev_authorization_decision_id = ad_authorization_decision_id (g_authorization g),
       ev_correlation_id = g_correlation_id g, ev_causation_kind = g_causation_kind g,
       ev_causation_identifier = g_causation_identifier g,
       ev_causation_external_system = g_causation_external_system g,
       ev_security_scope = cd_security_scope d, ev_retention_scope = cd_retention_scope d,
       ev_trust_scope = TrustScope_value (cd_trust_scope d)\<rparr>)"

definition result_fields :: "AuthorizedCommandGrant \<Rightarrow> FreshIds \<Rightarrow> int \<Rightarrow> int \<Rightarrow> ResultFields" where
  "result_fields g ids new_version ledger_seq = \<lparr>res_command_id = fid_command ids,
     res_aggregate_type = cd_aggregate_type (g_definition g), res_aggregate_id = g_aggregate_id g,
     res_aggregate_version = Some new_version, res_ledger_seq = ledger_seq, res_event_id = fid_event ids\<rparr>"

definition committed :: "AuthorizedCommandGrant \<Rightarrow> FreshIds \<Rightarrow> int \<Rightarrow> int \<Rightarrow> string \<Rightarrow> bool \<Rightarrow> CommittedCommand" where
  "committed g ids new_version ledger_seq result_digest replayed = \<lparr>cmt_command_id = fid_command ids,
     cmt_aggregate_type = cd_aggregate_type (g_definition g), cmt_aggregate_id = g_aggregate_id g,
     cmt_aggregate_version = new_version, cmt_ledger_seq = ledger_seq, cmt_event_id = fid_event ids,
     cmt_result_digest = result_digest, cmt_replayed = replayed\<rparr>"

text \<open>The writes of one command: payload, command, aggregate head, version, audit event, ledger event.\<close>

definition write_aggregate :: "AuthorizedCommandGrant \<Rightarrow> int option \<Rightarrow> int \<Rightarrow> string \<Rightarrow> authority_db \<Rightarrow> authority_db res" where
  "write_aggregate g current new_version recorded_at db =
     (let ty = cd_aggregate_type (g_definition g) in
      case current of
        None \<Rightarrow> insert_aggregate \<lparr>gw_aggregate_type = ty, gw_aggregate_id = g_aggregate_id g,
          gw_current_version = new_version, gw_created_at = recorded_at, gw_updated_at = recorded_at\<rparr> db
      | Some _ \<Rightarrow> update_aggregate ty (g_aggregate_id g) new_version recorded_at db)"

definition write_command ::
  "AuthorizedCommandGrant \<Rightarrow> int option \<Rightarrow> int \<Rightarrow> string \<Rightarrow> PayloadRow \<Rightarrow> CommandRow \<Rightarrow> VersionRow \<Rightarrow> AuditRow \<Rightarrow>
     LedgerEventRecord \<Rightarrow> authority_db \<Rightarrow> authority_db res" where
  "write_command g current new_version recorded_at p c v a e db =
     res_bind (insert_payload p db) (\<lambda>db.
     res_bind (insert_command c db) (\<lambda>db.
     res_bind (write_aggregate g current new_version recorded_at db) (\<lambda>db.
     res_bind (insert_version v db) (\<lambda>db.
     res_bind (insert_audit a db) (\<lambda>db.
     insert_event e db)))))"

text \<open>The body of \<open>_commit_grant_in_transaction\<close> after the checks of version and payload.\<close>

definition append_command ::
  "EventStore \<Rightarrow> AuthorizedCommandGrant \<Rightarrow> FreshIds \<Rightarrow> string \<Rightarrow> string option \<Rightarrow> int option \<times> int \<Rightarrow>
     authority_db \<Rightarrow> (CommittedCommand \<times> authority_db) res" where
  "append_command st g ids recorded_at admission version db =
     (let (current, new_version) = version; ledger_seq = next_ledger_seq db;
          result = result_fields g ids new_version ledger_seq in
      res_bind (canonical_json_bytes (result_value result)) (\<lambda>result_bytes.
      let result_digest = digest_bytes result_bytes in
      res_bind (compact_command_result (res_command_id result, res_aggregate_type result, res_aggregate_id result)
        result_digest result_bytes result) (\<lambda>stored_result.
      res_bind (CommandDefinition_digest (g_definition g)) (\<lambda>definition_digest.
      res_bind (res_bind (grant_unsigned_value g) digest_canonical) (\<lambda>detail_digest.
      res_bind (write_command g current new_version recorded_at
        (payload_row g (fid_payload ids) admission recorded_at)
        (command_row st g ids definition_digest result_digest stored_result recorded_at)
        (version_row g ids new_version recorded_at) (audit_row g ids detail_digest recorded_at)
        (event_row st g ids definition_digest admission new_version ledger_seq recorded_at) db) (\<lambda>db'.
      res_bind (res_of_option (Exn TypeError ''row is missing'')
        (find (\<lambda>q. qw_request_digest q = ar_request_digest (g_authorization_request g)) (t_requests db'))) (\<lambda>q.
      res_bind (request_record_from_row db' q) (\<lambda>_.
      res_bind (decode_result db' stored_result result_digest False (Some (fid_command ids))) (\<lambda>_.
      Inr (committed g ids new_version ledger_seq result_digest False, db'))))))))))"

definition commit_new ::
  "EventStore \<Rightarrow> AuthorizedCommandGrant \<Rightarrow> FreshIds \<Rightarrow> string \<Rightarrow> authority_db \<Rightarrow>
     (CommittedCommand \<times> authority_db) res" where
  "commit_new st g ids recorded_at db =
     require (g_replay_of_command_id g = None)
       (idempotency_conflict ''command boundary expected a replay but no row exists'')
     (res_bind (res_of_option (Exn UnsupportedPayloadMode ''unsupported authority payload mode'')
       (PayloadMode_of (rp_kind (g_payload g)))) (\<lambda>mode.
     res_bind (object_payload_commit_guard g) (\<lambda>_.
     res_bind (persist_schema_contract st g recorded_at db) (\<lambda>db1.
     res_bind (persist_definition st g recorded_at db1) (\<lambda>db2.
     res_bind (persist_security_records (g_authentication g) (g_authorization_request g) (g_authorization g)
       recorded_at (Some (fid_command ids)) db2) (\<lambda>db3.
     res_bind (validate_causation db3 g) (\<lambda>_.
     res_bind (resolve_version db3 g) (\<lambda>version.
     res_bind (retained_payload mode (g_payload g)) (\<lambda>admission.
     append_command st g ids recorded_at admission version db3)))))))))"

definition commit_grant_in_transaction ::
  "EventStore \<Rightarrow> AuthorizedCommandGrant \<Rightarrow> FreshIds \<Rightarrow> string \<Rightarrow> authority_db \<Rightarrow>
     (CommittedCommand \<times> authority_db) res" where
  "commit_grant_in_transaction st g ids recorded_at db =
     res_bind (verify (es_issuer st) g) (\<lambda>_.
     res_bind (require_unexpired_key db (g_idempotency_namespace g) (g_idempotency_key g)) (\<lambda>_.
     case command_by_key db (g_idempotency_namespace g) (g_idempotency_key g) of
       Some existing \<Rightarrow> res_bind (replay_existing db g existing) (\<lambda>c. Inr (c, db))
     | None \<Rightarrow> commit_new st g ids recorded_at db))"

definition commit ::
  "EventStore \<Rightarrow> AuthorizedCommandGrant \<Rightarrow> FreshIds \<Rightarrow> int \<Rightarrow> authority_db \<Rightarrow> CommittedCommand res \<times> authority_db" where
  "commit st g ids now db =
     (case verify (es_issuer st) g of
        Inl e \<Rightarrow> (Inl e, db)
      | Inr _ \<Rightarrow> store_transaction (commit_grant_in_transaction st g ids (UtcTimestamp_to_text now)) db)"

end
