(* ===== verification/Civil_Time.thy ===== *)
theory Civil_Time
  imports Records
begin

text \<open>
  The two text forms of a civil time used by the pure contracts: \<open>%Y-%m-%dT%H:%M:%S\<close> and the same with
  a final \<open>Z\<close>. A civil time is the number of seconds since 0001-01-01T00:00:00. The sources parse with
  \<open>datetime.strptime\<close> and then require that \<open>strftime\<close> gives the same text back, so that exactly the
  zero-padded texts of existing dates are accepted. Whether \<open>strftime\<close> pads a year before 1000 depends on
  the release of CPython: releases that leave the year to the C library of Linux do not, and refuse such
  texts, newer ones pad it and accept them. The model is that of the former, so it accepts exactly the texts
  that every release accepts. \<open>read_civil\<close> is the check, \<open>format_civil\<close> is \<open>strftime\<close>.
\<close>

section \<open>Reading and printing\<close>

definition num_of :: "string \<Rightarrow> nat" where
  "num_of s = foldl (\<lambda>n c. n * 10 + (of_char c - 48)) 0 s"

definition MIN_CIVIL :: int where "MIN_CIVIL = 31525372800"
definition MAX_CIVIL :: int where "MAX_CIVIL = 3652059 * 86400"

text \<open>The civil times of the years 1000 to 9999.\<close>

definition civil :: "int \<Rightarrow> bool" where
  "civil t = (MIN_CIVIL \<le> t \<and> t < MAX_CIVIL)"

definition civil_seconds :: "nat \<Rightarrow> nat \<Rightarrow> nat \<Rightarrow> nat \<Rightarrow> nat \<Rightarrow> nat \<Rightarrow> nat" where
  "civil_seconds y m d h i s =
     (days_before_year y + sum_list (take (m - 1) (month_lengths y)) + (d - 1)) * 86400
       + h * 3600 + i * 60 + s"

definition civil_fields :: "nat \<Rightarrow> nat \<Rightarrow> nat \<Rightarrow> nat \<Rightarrow> nat \<Rightarrow> nat \<Rightarrow> bool" where
  "civil_fields y m d h i s =
     (1000 \<le> y \<and> 1 \<le> m \<and> m \<le> 12 \<and> 1 \<le> d \<and> d \<le> month_lengths y ! (m - 1) \<and> h < 24 \<and> i < 60 \<and> s < 60)"

definition format_fields :: "nat \<Rightarrow> nat \<Rightarrow> nat \<Rightarrow> nat \<Rightarrow> nat \<Rightarrow> nat \<Rightarrow> string" where
  "format_fields y m d h i s =
     dec_fixed 4 y @ ''-'' @ dec_fixed 2 m @ ''-'' @ dec_fixed 2 d @ ''T''
       @ dec_fixed 2 h @ '':'' @ dec_fixed 2 i @ '':'' @ dec_fixed 2 s"

definition format_civil :: "int \<Rightarrow> string" where
  "format_civil t =
     (let n = nat t; d = n div 86400; r = n mod 86400; y = year_of_day d;
          md = month_day 1 (month_lengths y) (d - days_before_year y)
      in format_fields y (fst md) (snd md) (r div 3600) (r div 60 mod 60) (r mod 60))"

definition read_civil :: "string \<Rightarrow> int option" where
  "read_civil t =
     (let y = num_of (take 4 t); m = num_of (take 2 (drop 5 t)); d = num_of (take 2 (drop 8 t));
          h = num_of (take 2 (drop 11 t)); i = num_of (take 2 (drop 14 t)); s = num_of (drop 17 t)
      in if length t = 19 \<and> format_fields y m d h i s = t \<and> civil_fields y m d h i s
         then Some (int (civil_seconds y m d h i s)) else None)"

text \<open>With the final \<open>Z\<close> of UTC.\<close>

definition read_utc :: "string \<Rightarrow> int option" where
  "read_utc t = (if t \<noteq> [] \<and> last t = CHR ''Z'' then read_civil (butlast t) else None)"

definition format_utc :: "int \<Rightarrow> string" where
  "format_utc t = format_civil t @ ''Z''"

section \<open>Reading what was printed\<close>

lemma num_of_snoc [simp]: "num_of (s @ [c]) = num_of s * 10 + (of_char c - 48)"
  by (simp add: num_of_def)

lemma num_of_dec: "num_of (dec_fixed w n) = n mod 10 ^ w"
proof (induction w arbitrary: n)
  case 0
  show ?case by (simp add: num_of_def)
next
  case (Suc w)
  have "(of_char (hex_digit (n mod 10)) :: nat) = 48 + n mod 10"
    by (simp add: hex_digit_def)
  then show ?case by (simp add: Suc.IH mod_mult2_eq)
qed

lemma format_slices:
  "take 4 (format_fields y m d h i s) = dec_fixed 4 y"
  "take 2 (drop 5 (format_fields y m d h i s)) = dec_fixed 2 m"
  "take 2 (drop 8 (format_fields y m d h i s)) = dec_fixed 2 d"
  "take 2 (drop 11 (format_fields y m d h i s)) = dec_fixed 2 h"
  "take 2 (drop 14 (format_fields y m d h i s)) = dec_fixed 2 i"
  "drop 17 (format_fields y m d h i s) = dec_fixed 2 s"
  "length (format_fields y m d h i s) = 19"
  by (simp_all add: format_fields_def)

lemma month_lengths_bounds: "length (month_lengths y) = 12" "l \<in> set (month_lengths y) \<Longrightarrow> l \<le> 31"
  by (auto simp: month_lengths_def)

lemma civil_fields_small:
  "civil_fields y m d h i s \<Longrightarrow> m < 100 \<and> d < 100 \<and> h < 100 \<and> i < 100 \<and> s < 100"
proof -
  assume f: "civil_fields y m d h i s"
  then have "month_lengths y ! (m - 1) \<le> 31"
    by (intro month_lengths_bounds(2) [of _ y] nth_mem) (auto simp: civil_fields_def month_lengths_bounds)
  with f show ?thesis by (auto simp: civil_fields_def)
qed

lemma read_format_fields:
  assumes "civil_fields y m d h i s" and "y < 10000"
  shows "read_civil (format_fields y m d h i s) = Some (int (civil_seconds y m d h i s))"
  using assms civil_fields_small [OF assms(1)]
  by (simp add: read_civil_def Let_def format_slices num_of_dec)

lemma month_day_split:
  "ls \<noteq> [] \<Longrightarrow> d < sum_list ls \<Longrightarrow>
   (case month_day m ls d of (a, b) \<Rightarrow>
      m \<le> a \<and> a < m + length ls \<and> 1 \<le> b \<and> b \<le> ls ! (a - m) \<and> sum_list (take (a - m) ls) + b = d + 1)"
proof (induction m ls d rule: month_day.induct)
  case (2 m l ls d)
  show ?case
  proof (cases "d < l \<or> ls = []")
    case True
    with 2 show ?thesis by auto
  next
    case False
    obtain a b where ab: "month_day (m + 1) ls (d - l) = (a, b)" by fastforce
    have "m + 1 \<le> a \<and> a < m + 1 + length ls \<and> 1 \<le> b \<and> b \<le> ls ! (a - (m + 1)) \<and>
        sum_list (take (a - (m + 1)) ls) + b = d - l + 1"
      using "2.IH" [OF False] False "2.prems" ab by auto
    moreover from this obtain k where "a = Suc (m + k)" using le_Suc_ex by force

    ultimately have "m \<le> a \<and> a < m + length (l # ls) \<and> 1 \<le> b \<and> b \<le> (l # ls) ! (a - m)"
        "sum_list (take (a - m) (l # ls)) = l + sum_list (take (a - (m + 1)) ls)"
        "sum_list (take (a - (m + 1)) ls) + b = d - l + 1"
      by simp_all
    with False ab show ?thesis by auto
  qed
qed simp

lemma day_split:
  assumes "d < sum_list (month_lengths y)"
  shows "1 \<le> fst (month_day 1 (month_lengths y) d)" "fst (month_day 1 (month_lengths y) d) \<le> 12"
    "1 \<le> snd (month_day 1 (month_lengths y) d)"
    "snd (month_day 1 (month_lengths y) d) \<le> month_lengths y ! (fst (month_day 1 (month_lengths y) d) - 1)"
    "sum_list (take (fst (month_day 1 (month_lengths y) d) - 1) (month_lengths y))
       + snd (month_day 1 (month_lengths y) d) = d + 1"
proof -
  have "month_lengths y \<noteq> []" by (simp add: month_lengths_def)
  from month_day_split [OF this assms, of 1]
  show "1 \<le> fst (month_day 1 (month_lengths y) d)" "fst (month_day 1 (month_lengths y) d) \<le> 12"
    "1 \<le> snd (month_day 1 (month_lengths y) d)"
    "snd (month_day 1 (month_lengths y) d) \<le> month_lengths y ! (fst (month_day 1 (month_lengths y) d) - 1)"
    "sum_list (take (fst (month_day 1 (month_lengths y) d) - 1) (month_lengths y))
       + snd (month_day 1 (month_lengths y) d) = d + 1"
    by (auto simp: month_lengths_bounds split: prod.splits)
qed

lemma day_clock: "r < 86400 \<Longrightarrow> (q * 86400 + r) div 86400 = q \<and> (q * 86400 + r) mod 86400 = r" for q r :: nat
  by simp

lemma clock_split: "r div 3600 * 3600 + r div 60 mod 60 * 60 + r mod 60 = (r::nat)"
proof -
  have "r div 3600 = r div 60 div 60" using div_mult2_eq [of r 60 60] by simp
  moreover have "r div 60 div 60 * 60 + r div 60 mod 60 = r div 60" by simp
  moreover have "r div 60 * 60 + r mod 60 = r" by simp
  ultimately show ?thesis by linarith
qed

lemma days_before_year_mono: "1 \<le> a \<Longrightarrow> a \<le> b \<Longrightarrow> days_before_year a \<le> days_before_year b"
proof (induction b)
  case (Suc b)
  show ?case
  proof (cases "a = Suc b")
    case False
    with Suc have "days_before_year a \<le> days_before_year b" "1 \<le> b" by auto
    then show ?thesis using days_before_year_step [of b] by simp
  qed simp
qed simp

lemma year_from: "days_before_year 1000 \<le> d \<Longrightarrow> 1000 \<le> year_of_day d"
proof (rule ccontr)
  assume d: "days_before_year 1000 \<le> d" and "\<not> 1000 \<le> year_of_day d"
  then have "year_of_day d + 1 \<le> 1000" by simp
  then have "days_before_year (year_of_day d + 1) \<le> days_before_year 1000" by (intro days_before_year_mono) simp_all
  with d show False using year_upper [of d] by simp
qed

lemma read_format_civil:
  assumes "civil t"
  shows "read_civil (format_civil t) = Some t"
proof -
  define d where "d = nat t div 86400"
  define r where "r = nat t mod 86400"
  let ?y = "year_of_day d"
  let ?md = "month_day 1 (month_lengths ?y) (d - days_before_year ?y)"
  have d: "days_before_year 1000 \<le> d" "d < 3652059"
    using assms by (auto simp: civil_def MIN_CIVIL_def MAX_CIVIL_def d_def days_before_year_def Let_def
        div_less_iff_less_mult less_eq_div_iff_mult_less_eq)
  have off: "d - days_before_year ?y < sum_list (month_lengths ?y)"
    using year_lower [of d] year_upper [of d] days_before_year_step [OF year_pos, of d] by linarith
  note day = day_split [OF off]
  have r: "r < 86400" by (simp add: r_def)
  have "civil_fields ?y (fst ?md) (snd ?md) (r div 3600) (r div 60 mod 60) (r mod 60)"
    using day year_from [OF d(1)] r by (simp add: civil_fields_def div_less_iff_less_mult)
  from read_format_fields [OF this year_bound [OF d(2)]]
  have "read_civil (format_civil t) =
      Some (int (civil_seconds ?y (fst ?md) (snd ?md) (r div 3600) (r div 60 mod 60) (r mod 60)))"
    by (simp add: format_civil_def Let_def d_def r_def)
  moreover have "civil_seconds ?y (fst ?md) (snd ?md) (r div 3600) (r div 60 mod 60) (r mod 60) = nat t"
  proof -
    have "days_before_year ?y + sum_list (take (fst ?md - 1) (month_lengths ?y)) + (snd ?md - 1) = d"
      using day(3,5) year_lower [of d] by linarith
    then have "civil_seconds ?y (fst ?md) (snd ?md) (r div 3600) (r div 60 mod 60) (r mod 60) =
        d * 86400 + (r div 3600 * 3600 + r div 60 mod 60 * 60 + r mod 60)"
      unfolding civil_seconds_def by (simp only: add.assoc)
    then show ?thesis unfolding clock_split by (simp add: d_def r_def)
  qed
  ultimately show ?thesis using assms by (simp add: civil_def MIN_CIVIL_def)
qed

section \<open>What is read is printed back\<close>

lemma year_unique:
  assumes "1 \<le> y" and "days_before_year y \<le> d" and "d < days_before_year (y + 1)"
  shows "year_of_day d = y"
proof (rule ccontr)
  assume "year_of_day d \<noteq> y"
  then consider "year_of_day d + 1 \<le> y" | "y + 1 \<le> year_of_day d" by linarith
  then show False
  proof cases
    case 1
    from days_before_year_mono [OF _ 1] have "days_before_year (year_of_day d + 1) \<le> days_before_year y" by simp
    with assms(2) year_upper [of d] show False by simp
  next
    case 2
    from days_before_year_mono [OF _ 2] have "days_before_year (y + 1) \<le> days_before_year (year_of_day d)" by simp
    with assms(3) year_lower [of d] show False by simp
  qed
qed

lemma month_day_at:
  "k < length ls \<Longrightarrow> d < ls ! k \<Longrightarrow> month_day m ls (sum_list (take k ls) + d) = (m + k, d + 1)"
proof (induction ls arbitrary: k m)
  case (Cons l ls)
  show ?case
  proof (cases k)
    case (Suc j)
    with Cons have "month_day (m + 1) ls (sum_list (take j ls) + d) = (m + 1 + j, d + 1)" by simp
    with Cons.prems Suc show ?thesis by (auto simp: add.assoc)
  qed (use Cons in simp)
qed simp

lemma format_civil_seconds:
  assumes "civil_fields y m d h i s"
  shows "format_civil (int (civil_seconds y m d h i s)) = format_fields y m d h i s"
proof -
  let ?off = "sum_list (take (m - 1) (month_lengths y)) + (d - 1)"
  have f: "1 \<le> y" "m - 1 < 12" "1 \<le> m" "1 \<le> d" "d - 1 < month_lengths y ! (m - 1)" "h < 24" "i < 60" "s < 60"
    using assms by (auto simp: civil_fields_def)
  have md: "month_day 1 (month_lengths y) ?off = (m, d)"
    using month_day_at [of "m - 1" "month_lengths y" "d - 1" 1] f by (simp add: month_lengths_bounds)
  have "sum_list (take (m - 1) ls) + ls ! (m - 1) \<le> sum_list ls" if "m - 1 < length ls" for ls :: "nat list"
    using that by (metis append_take_drop_id Cons_nth_drop_Suc sum_list_append sum_list.Cons
        add.assoc le_add1 add_le_cancel_left)
  from this [of "month_lengths y"] have "?off < sum_list (month_lengths y)"
    using f(2,5) by (simp add: month_lengths_bounds)
  then have y: "year_of_day (days_before_year y + ?off) = y"
    using f(1) days_before_year_step [OF f(1)] by (intro year_unique) simp_all
  let ?r = "h * 3600 + i * 60 + s"
  have "?r = (h * 60 + i) * 60 + s" by simp
  then have "?r div 60 = h * 60 + i" "?r mod 60 = s" using f(8) by (simp_all only: div_mult_self3 mod_mult_self3, simp_all)
  moreover have "?r div 3600 = ?r div 60 div 60" using div_mult2_eq [of ?r 60 60] by simp
  ultimately have r: "?r div 3600 = h" "?r div 60 mod 60 = i" "?r mod 60 = s" "?r < 86400"
    using f(6-8) by (simp_all add: add.commute)
  have "civil_seconds y m d h i s = (days_before_year y + ?off) * 86400 + ?r"
    by (simp add: civil_seconds_def)
  then have "civil_seconds y m d h i s div 86400 = days_before_year y + ?off"
      "civil_seconds y m d h i s mod 86400 = ?r"
    by (simp_all only: day_clock [OF r(4)])
  then show ?thesis using y md r(1-3) by (simp add: format_civil_def Let_def)
qed

lemma month_offset:
  "m < length ls \<Longrightarrow> d < ls ! m \<Longrightarrow> sum_list (take m ls) + d < sum_list ls" for ls :: "nat list"
proof (induction ls arbitrary: m)
  case (Cons l ls)
  then show ?case by (cases m) auto
qed simp

lemma civil_seconds_civil:
  assumes "civil_fields y m d h i s" and "y < 10000"
  shows "civil (int (civil_seconds y m d h i s))"
proof -
  define day where "day = days_before_year y + sum_list (take (m - 1) (month_lengths y)) + (d - 1)"
  have f: "1 \<le> y" "1000 \<le> y" "m - 1 < 12" "d - 1 < month_lengths y ! (m - 1)" "h < 24" "i < 60" "s < 60"
    using assms by (auto simp: civil_fields_def)
  have "day < days_before_year (y + 1)"
    using month_offset [of "m - 1" "month_lengths y" "d - 1"] f(3,4) days_before_year_step [OF f(1)]
    by (simp add: month_lengths_bounds day_def)
  also have "\<dots> \<le> days_before_year 10000" using assms(2) by (intro days_before_year_mono) simp_all
  also have "\<dots> = 3652059" by (simp add: days_before_year_def)
  finally have day: "day < 3652059" .
  have "days_before_year 1000 \<le> days_before_year y" using f(2) by (intro days_before_year_mono) simp_all
  then have low: "364877 \<le> day" by (simp add: days_before_year_def [of 1000] day_def)
  have "civil_seconds y m d h i s = day * 86400 + (h * 3600 + i * 60 + s)"
    by (simp add: civil_seconds_def day_def)
  then have "31525372800 \<le> civil_seconds y m d h i s" "civil_seconds y m d h i s < 3652059 * 86400"
    using day low f(5-7) by linarith+
  then show ?thesis unfolding civil_def MIN_CIVIL_def MAX_CIVIL_def by linarith
qed

lemma read_civil_format:
  assumes "read_civil t = Some n"
  shows "civil n \<and> format_civil n = t"
proof -
  define y where "y = num_of (take 4 t)"
  from assms obtain m d h i s where c: "civil_fields y m d h i s" "format_fields y m d h i s = t"
      "n = int (civil_seconds y m d h i s)"
    by (auto simp: read_civil_def Let_def y_def split: if_splits)
  have "take 4 t = dec_fixed 4 y" using format_slices(1) [of y m d h i s] by (simp only: c(2))
  then have "y = y mod 10 ^ 4" using num_of_dec [of 4 y] by (simp only: y_def)
  moreover have "y mod 10 ^ 4 < 10 ^ 4" by simp
  ultimately have "y < 10000" by simp
  then show ?thesis
    using civil_seconds_civil [OF c(1)] format_civil_seconds [OF c(1)] c(2,3) by simp
qed

lemma read_utc_format: "read_utc t = Some n \<Longrightarrow> civil n \<and> format_utc n = t"
  by (metis read_utc_def format_utc_def read_civil_format append_butlast_last_id option.distinct(1))

lemma read_format_utc [simp]: "civil t \<Longrightarrow> read_utc (format_utc t) = Some t"
  by (simp add: read_utc_def format_utc_def read_format_civil)

lemma format_utc_inj: "civil a \<Longrightarrow> civil b \<Longrightarrow> format_utc a = format_utc b \<longleftrightarrow> a = b"
  by (metis read_format_utc option.inject)

lemma format_civil_length [simp]: "length (format_civil t) = 19"
  by (simp add: format_civil_def Let_def format_slices)

end
