(* ===== verification/Iso_Time.thy ===== *)
theory Iso_Time
  imports Civil_Time
begin

text \<open>
  \<open>UtcTimestamp.parse\<close> of \<open>src/newsroom/authority/types.py\<close> and the \<open>datetime.fromisoformat\<close> of the
  standard library it rests on: the calendar dates, week dates, basic and extended clock times, fractions
  of a second and offsets that its documentation lists. On texts outside ISO 8601 the releases of CPython
  differ, some accept a stray separator or a fraction after the minutes; the model refuses all of them.
  The text of every timestamp is read back as that timestamp.
\<close>

section \<open>Dates\<close>

definition all_digits :: "string \<Rightarrow> bool" where
  "all_digits t = (t \<noteq> [] \<and> list_all is_digit t)"

text \<open>The number of days since 0001-01-01, where the date exists.\<close>

definition day_of_date :: "nat \<Rightarrow> nat \<Rightarrow> nat \<Rightarrow> nat option" where
  "day_of_date y m d =
     (if 1 \<le> y \<and> y < 10000 \<and> 1 \<le> m \<and> m \<le> 12 \<and> 1 \<le> d \<and> d \<le> month_lengths y ! (m - 1)
      then Some (days_before_year y + sum_list (take (m - 1) (month_lengths y)) + (d - 1)) else None)"

text \<open>0001-01-01 was a Monday. A year has 53 weeks when it starts on a Thursday or is a leap year starting
  on a Wednesday; week one is the week of the first Thursday.\<close>

definition day_of_week_date :: "nat \<Rightarrow> nat \<Rightarrow> nat \<Rightarrow> nat option" where
  "day_of_week_date y w d =
     (let first = days_before_year y; weekday = first mod 7;
          monday = (if weekday \<le> 3 then first - weekday else first + 7 - weekday);
          n = monday + (w - 1) * 7 + (d - 1)
      in if 1 \<le> y \<and> y < 10000 \<and>
            (1 \<le> w \<and> w \<le> 52 \<or> w = 53 \<and> (weekday = 3 \<or> weekday = 2 \<and> is_leap y)) \<and>
            1 \<le> d \<and> d \<le> 7 \<and> n < 3652059
         then Some n else None)"

text \<open>Where the date ends; the next character, whatever it is, separates it from the time.\<close>

definition separator_location :: "string \<Rightarrow> nat" where
  "separator_location s =
     (if length s = 7 then 7
      else if s ! 4 = CHR ''-'' then
        (if s ! 5 = CHR ''W'' then
           (if 8 < length s \<and> s ! 8 = CHR ''-'' then
              (if length s = 9 then 0 else if 10 < length s \<and> is_digit (s ! 10) then 8 else 10)
            else 8)
         else 10)
      else if s ! 4 = CHR ''W'' then
        (let i = 7 + length (takeWhile is_digit (drop 7 s))
         in if i < 9 then i else if even i then 7 else 8)
      else 8)"

definition parse_date :: "string \<Rightarrow> nat option" where
  "parse_date d =
     (let y = num_of (take 4 d) in
      if length d = 10 \<and> all_digits (take 4 d) \<and> d ! 4 = CHR ''-'' \<and> all_digits (take 2 (drop 5 d)) \<and>
         d ! 7 = CHR ''-'' \<and> all_digits (drop 8 d)
        then day_of_date y (num_of (take 2 (drop 5 d))) (num_of (drop 8 d))
      else if length d = 8 \<and> all_digits d
        then day_of_date y (num_of (take 2 (drop 4 d))) (num_of (drop 6 d))
      else if length d = 8 \<and> all_digits (take 4 d) \<and> take 2 (drop 4 d) = ''-W'' \<and> all_digits (drop 6 d)
        then day_of_week_date y (num_of (drop 6 d)) 1
      else if length d = 10 \<and> all_digits (take 4 d) \<and> take 2 (drop 4 d) = ''-W'' \<and>
              all_digits (take 2 (drop 6 d)) \<and> d ! 8 = CHR ''-'' \<and> all_digits (drop 9 d)
        then day_of_week_date y (num_of (take 2 (drop 6 d))) (num_of (drop 9 d))
      else if length d = 7 \<and> all_digits (take 4 d) \<and> d ! 4 = CHR ''W'' \<and> all_digits (drop 5 d)
        then day_of_week_date y (num_of (drop 5 d)) 1
      else if length d = 8 \<and> all_digits (take 4 d) \<and> d ! 4 = CHR ''W'' \<and> all_digits (drop 5 d)
        then day_of_week_date y (num_of (take 2 (drop 5 d))) (num_of (drop 7 d))
      else None)"

section \<open>Times\<close>

definition clock_fields :: "string \<Rightarrow> nat list option" where
  "clock_fields c =
     (if length c \<in> {2, 4, 6} \<and> all_digits c
        then Some (take (length c div 2) [num_of (take 2 c), num_of (take 2 (drop 2 c)), num_of (drop 4 c)])
      else if length c = 5 \<and> all_digits (take 2 c) \<and> c ! 2 = CHR '':'' \<and> all_digits (drop 3 c)
        then Some [num_of (take 2 c), num_of (drop 3 c)]
      else if length c = 8 \<and> all_digits (take 2 c) \<and> c ! 2 = CHR '':'' \<and> all_digits (take 2 (drop 3 c)) \<and>
              c ! 5 = CHR '':'' \<and> all_digits (drop 6 c)
        then Some [num_of (take 2 c), num_of (take 2 (drop 3 c)), num_of (drop 6 c)]
      else None)"

text \<open>Hours, minutes, seconds and microseconds; digits of a fraction after the sixth are dropped.\<close>

definition parse_clock :: "string \<Rightarrow> (nat \<times> nat \<times> nat \<times> nat) option" where
  "parse_clock t =
     (let c = takeWhile (\<lambda>x. x \<notin> {CHR ''.'', CHR '',''}) t; f = drop (length c) t in
      case clock_fields c of
        Some [h] \<Rightarrow> if f = [] then Some (h, 0, 0, 0) else None
      | Some [h, i] \<Rightarrow> if f = [] then Some (h, i, 0, 0) else None
      | Some [h, i, s] \<Rightarrow>
          if f = [] then Some (h, i, s, 0)
          else if all_digits (tl f) then Some (h, i, s, num_of (take 6 (tl f @ ''000000''))) else None
      | _ \<Rightarrow> None)"

text \<open>The offset in microseconds: absent, \<open>Z\<close>, or a sign and a clock time of less than a day.\<close>

definition parse_offset :: "string \<Rightarrow> int option option" where
  "parse_offset z =
     (if z = [] then Some None
      else if z = ''Z'' then Some (Some 0)
      else if hd z = CHR ''Z'' then None
      else case parse_clock (tl z) of
        None \<Rightarrow> None
      | Some (h, i, s, us) \<Rightarrow>
          (let n = h * 3600 + i * 60 + s;
               off = (if n = 0 then 0 else int (n * 1000000 + us))
           in if off < 86400000000 then Some (Some (if hd z = CHR ''-'' then - off else off)) else None))"

definition clock_us :: "nat \<times> nat \<times> nat \<times> nat \<Rightarrow> int option" where
  "clock_us c = (case c of (h, i, s, us) \<Rightarrow>
     if h < 24 \<and> i < 60 \<and> s < 60 then Some (int ((h * 3600 + i * 60 + s) * 1000000 + us)) else None)"

definition fromisoformat :: "string \<Rightarrow> pydatetime option" where
  "fromisoformat s =
     (if length s < 7 then None
      else let l = separator_location s; t = drop (l + 1) s;
               z = dropWhile (\<lambda>x. x \<notin> {CHR ''+'', CHR ''-'', CHR ''Z''}) t;
               c = take (length t - length z) t
           in case parse_date (take l s) of
                None \<Rightarrow> None
              | Some d \<Rightarrow>
                  if length s \<le> l then Some \<lparr>local_us = int d * 86400000000, utcoffset_us = None\<rparr>
                  else case (Option.bind (parse_clock c) clock_us, parse_offset z) of
                    (Some us, Some off) \<Rightarrow> Some \<lparr>local_us = int d * 86400000000 + us, utcoffset_us = off\<rparr>
                  | _ \<Rightarrow> None)"

text \<open>\<open>value.replace("Z", "+00:00")\<close>, then \<open>fromisoformat\<close> and the constructor.\<close>

definition replace_Z :: "string \<Rightarrow> string" where
  "replace_Z s = concat (map (\<lambda>c. if c = CHR ''Z'' then ''+00:00'' else [c]) s)"

definition UtcTimestamp_parse :: "string \<Rightarrow> int res" where
  "UtcTimestamp_parse value =
     res_bind (res_of_option (type_error ''invalid UTC timestamp'') (fromisoformat (replace_Z value)))
       UtcTimestamp_post_init"

section \<open>The text of a timestamp is read back\<close>

lemma is_digit_dec: "list_all is_digit (dec_fixed w n)"
proof (induction w arbitrary: n)
  case (Suc w)
  have "n mod 10 < 10" by simp
  then have "is_digit (hex_digit (n mod 10))" by (auto simp: is_digit_def hex_digit_def)
  with Suc show ?case by simp
qed simp

lemma all_digits_dec [simp]: "all_digits (dec_fixed w n) = (0 < w)"
  using is_digit_dec [of w n] by (cases w) (simp_all add: all_digits_def)

lemma num_of_dec_small: "n < 10 ^ w \<Longrightarrow> num_of (dec_fixed w n) = n"
  by (simp add: num_of_dec)


lemma digit_not_mark: "is_digit c \<Longrightarrow> c \<noteq> CHR ''Z'' \<and> c \<noteq> CHR ''W'' \<and> c \<noteq> CHR ''+'' \<and> c \<noteq> CHR ''-'' \<and>
    c \<noteq> CHR ''.'' \<and> c \<noteq> CHR '',''"
  by (auto simp: is_digit_def Let_def)

lemma dec_fixed_mark: "c \<in> set (dec_fixed w n) \<Longrightarrow> c \<noteq> CHR ''Z'' \<and> c \<noteq> CHR ''W'' \<and> c \<noteq> CHR ''+'' \<and> c \<noteq> CHR ''-'' \<and>
    c \<noteq> CHR ''.'' \<and> c \<noteq> CHR '',''"
  using is_digit_dec [of w n] digit_not_mark by (metis list_all_iff)

definition iso_date :: "nat \<Rightarrow> nat \<Rightarrow> nat \<Rightarrow> string" where
  "iso_date y m d = dec_fixed 4 y @ ''-'' @ dec_fixed 2 m @ ''-'' @ dec_fixed 2 d"

definition iso_time :: "nat \<Rightarrow> nat \<Rightarrow> nat \<Rightarrow> nat \<Rightarrow> string" where
  "iso_time h i s u = dec_fixed 2 h @ '':'' @ dec_fixed 2 i @ '':'' @ dec_fixed 2 s @ ''.'' @ dec_fixed 6 u"

lemma iso_lengths [simp]: "length (iso_date y m d) = 10" "length (iso_time h i s u) = 15"
  by (simp_all add: iso_date_def iso_time_def)

lemma parse_iso_date:
  assumes "y < 10000" and "m < 100" and "d < 100"
  shows "parse_date (iso_date y m d) = day_of_date y m d"
  using assms by (simp add: parse_date_def iso_date_def num_of_dec_small nth_append)

lemma parse_iso_time:
  assumes "h < 100" and "i < 100" and "s < 100" and "u < 1000000"
  shows "parse_clock (iso_time h i s u) = Some (h, i, s, u)"
proof -
  let ?c = "dec_fixed 2 h @ '':'' @ dec_fixed 2 i @ '':'' @ dec_fixed 2 s"
  have t: "iso_time h i s u = ?c @ CHR ''.'' # dec_fixed 6 u" by (simp add: iso_time_def)
  have "takeWhile (\<lambda>x. x \<notin> {CHR ''.'', CHR '',''}) (?c @ CHR ''.'' # dec_fixed 6 u) = ?c"
    by (subst takeWhile_append2) (auto dest: dec_fixed_mark)
  moreover have "clock_fields ?c = Some [h, i, s]"
    using assms by (simp add: clock_fields_def num_of_dec_small nth_append)
  moreover have "take 6 (dec_fixed 6 u @ ''000000'') = dec_fixed 6 u" by simp
  ultimately show ?thesis
    using assms unfolding t parse_clock_def Let_def by (simp add: num_of_dec_small)
qed

lemma replace_Z_append: "replace_Z (a @ b) = replace_Z a @ replace_Z b"
  by (simp add: replace_Z_def)

lemma replace_Z_same: "(\<forall>c \<in> set a. c \<noteq> CHR ''Z'') \<Longrightarrow> replace_Z a = a"
  by (induction a) (auto simp: replace_Z_def)

lemma fromisoformat_text:
  assumes "y < 10000" and "m < 100" and "d < 100" and "h < 24" and "i < 60" and "s < 60" and "u < 1000000"
    and "day_of_date y m d = Some n"
  shows "fromisoformat (replace_Z (iso_date y m d @ ''T'' @ iso_time h i s u @ ''Z'')) =
    Some \<lparr>local_us = int n * 86400000000 + int ((h * 3600 + i * 60 + s) * 1000000 + u), utcoffset_us = Some 0\<rparr>"
proof -
  let ?s = "iso_date y m d @ ''T'' @ iso_time h i s u @ ''+00:00''"
  have r: "replace_Z (iso_date y m d @ ''T'' @ iso_time h i s u @ ''Z'') = ?s"
  proof -
    have "replace_Z (iso_date y m d) = iso_date y m d" "replace_Z (iso_time h i s u) = iso_time h i s u"
      by (intro replace_Z_same, auto simp: iso_date_def iso_time_def dest: dec_fixed_mark)+
    moreover have "replace_Z ''T'' = ''T''" "replace_Z ''Z'' = ''+00:00''" by (simp_all add: replace_Z_def)
    ultimately show ?thesis by (simp only: replace_Z_append)
  qed
  have "?s ! 5 \<in> set (dec_fixed 2 m)"
    by (simp add: iso_date_def nth_append)
  then have "?s ! 5 \<noteq> CHR ''W''" by (auto dest: dec_fixed_mark)
  moreover have "?s ! 4 = CHR ''-''" by (simp add: iso_date_def nth_append)
  ultimately have l: "separator_location ?s = 10" by (simp add: separator_location_def)
  have z: "dropWhile (\<lambda>x. x \<noteq> CHR ''+'' \<and> x \<noteq> CHR ''-'' \<and> x \<noteq> CHR ''Z'') (iso_time h i s u @ ''+00:00'') = ''+00:00''"
    by (subst dropWhile_append2) (auto simp: iso_time_def dest: dec_fixed_mark)
  have o0: "parse_offset ''+00:00'' = Some (Some 0)" by code_simp
  have "clock_us (h, i, s, u) = Some (int ((h * 3600 + i * 60 + s) * 1000000 + u))"
    using assms by (simp add: clock_us_def)
  then have "Option.bind (parse_clock (iso_time h i s u)) clock_us = Some (int ((h * 3600 + i * 60 + s) * 1000000 + u))"
    using assms by (simp add: parse_iso_time)
  then show ?thesis
    using assms(1-3,8) unfolding r fromisoformat_def Let_def l
    by (simp add: z o0 parse_iso_date)
qed


lemma timestamp_round_trip:
  assumes "instant t"
  shows "UtcTimestamp_parse (UtcTimestamp_to_text t) = Inr t"
proof -
  define n where "n = nat t div 86400000000"
  define r where "r = nat t mod 86400000000"
  define q where "q = r div 1000000"
  let ?y = "year_of_day n"
  let ?md = "month_day 1 (month_lengths ?y) (n - days_before_year ?y)"
  have n: "n < 3652059" 
    using assms by (simp add: instant_def MAX_INSTANT_def n_def div_less_iff_less_mult nat_less_iff)
  have off: "n - days_before_year ?y < sum_list (month_lengths ?y)"
    using year_lower [of n] year_upper [of n] days_before_year_step [OF year_pos, of n] by linarith
  note day = day_split [OF off]
  have q: "q < 86400" by (simp add: q_def r_def div_less_iff_less_mult)
  have "days_before_year ?y + sum_list (take (fst ?md - 1) (month_lengths ?y)) + (snd ?md - 1) = n"
    using day(3,5) year_lower [of n] by linarith
  then have "day_of_date ?y (fst ?md) (snd ?md) = Some n"
    using day(1-4) year_pos [of n] year_bound [OF n] by (simp add: day_of_date_def)
  then have "fromisoformat (replace_Z (iso_date ?y (fst ?md) (snd ?md) @ ''T'' @
        iso_time (q div 3600) (q div 60 mod 60) (q mod 60) (r mod 1000000) @ ''Z'')) =
      Some \<lparr>local_us = int n * 86400000000 + int ((q div 3600 * 3600 + q div 60 mod 60 * 60 + q mod 60) * 1000000
        + r mod 1000000), utcoffset_us = Some 0\<rparr>"
    using q by (intro fromisoformat_text year_bound [OF n] day_offset_bounds) (simp_all add: div_less_iff_less_mult)
  moreover have "UtcTimestamp_to_text t = iso_date ?y (fst ?md) (snd ?md) @ ''T'' @
      iso_time (q div 3600) (q div 60 mod 60) (q mod 60) (r mod 1000000) @ ''Z''"
    by (simp add: UtcTimestamp_to_text_def Let_def n_def r_def q_def iso_date_def iso_time_def)
  moreover have "int n * 86400000000 + int ((q div 3600 * 3600 + q div 60 mod 60 * 60 + q mod 60) * 1000000
      + r mod 1000000) = t"
  proof -
    have "q * 1000000 + r mod 1000000 = r" by (simp add: q_def)
    moreover have "n * 86400000000 + r = nat t" by (simp add: n_def r_def)
    ultimately have "n * 86400000000 + (q * 1000000 + r mod 1000000) = nat t" by simp
    then have "int (n * 86400000000 + (q * 1000000 + r mod 1000000)) = t"
      using assms by (simp add: instant_def)
    then show ?thesis unfolding clock_split by simp
  qed
  ultimately show ?thesis
    using assms by (simp add: UtcTimestamp_parse_def UtcTimestamp_post_init_def astimezone_utc_def instant_def)
qed

end
