(* ===== verification/Event_Read.thy ===== *)
theory Event_Read
  imports Event_Store Iso_Time
begin

text \<open>
  Reading the event store: the lookup of a committed identity (\<open>_event_store_base.py\<close>), the policy bound
  reads of \<open>_event_store_read.py\<close>, and the checks that run when a database is opened, from
  \<open>_event_store_base.py\<close>, \<open>_event_store_guards.py\<close> and \<open>_event_store_payload_integrity.py\<close>. A JOIN is
  a conjunction over the rows of both tables; an expired event has NULL in the joined columns and so
  never takes part. The read of the provenance of one event is not modelled.
\<close>

section \<open>The committed identity\<close>

definition find_committed :: "authority_db \<Rightarrow> string \<Rightarrow> string \<Rightarrow> CommittedCommandIdentity option res" where
  "find_committed db namespace key =
     res_bind (require_unexpired_key db namespace key) (\<lambda>_.
     case command_by_key db namespace key of
       None \<Rightarrow> Inr None
     | Some c \<Rightarrow>
         (case (find (\<lambda>p. pw_payload_id p = cw_payload_id c) (t_payloads db),
                find (\<lambda>x. xw_authentication_context_id x = cw_authentication_context_id c) (t_contexts db)) of
            (Some p, Some x) \<Rightarrow>
              res_bind (case pw_object_admission_id p of None \<Rightarrow> Inr None
                | Some i \<Rightarrow> res_bind (UUIDv4Id_parse i) (\<lambda>j. Inr (Some j))) (\<lambda>admission.
              let identity = \<lparr>ci_command_id = cw_command_id c, ci_authority_domain = xw_authority_domain x,
                ci_principal_id = xw_principal_id x, ci_command_type = cw_command_type c,
                ci_idempotency_namespace = cw_idempotency_namespace c,
                ci_idempotency_key = cw_idempotency_key c,
                ci_command_definition_version = cw_command_definition_version c,
                ci_command_definition_digest = cw_command_definition_digest c,
                ci_stable_semantic_request_digest = cw_stable_semantic_request_digest c,
                ci_payload_mode = pw_mode p, ci_payload_digest = pw_payload_digest p,
                ci_object_admission_id = admission\<rparr>
              in res_bind (CommittedCommandIdentity_post_init identity) (\<lambda>_. Inr (Some identity)))
          | _ \<Rightarrow> Inr None))"

section \<open>Policy-bound reads\<close>

definition visible :: "EventReadPolicy \<Rightarrow> LedgerRow \<Rightarrow> bool" where
  "visible p r = (er_minimum_ledger_seq p \<le> row_seq r \<and>
     row_security_scope r \<in> set (er_allowed_security_scopes p) \<and>
     row_trust_scope r \<in> TrustScope_value ` set (er_allowed_trust_scopes p) \<and>
     (case er_maximum_ledger_seq p of None \<Rightarrow> True | Some m \<Rightarrow> row_seq r \<le> m))"

definition events_after :: "authority_db \<Rightarrow> int \<Rightarrow> int \<Rightarrow> EventReadPolicy \<Rightarrow> EventRecord list res" where
  "events_after db ledger_seq limit p =
     res_bind (require_metadata_class p ROUTING) (\<lambda>_.
     res_bind (require_window p ledger_seq limit) (\<lambda>_.
     res_map event_from_row (take (nat limit) (sort_key row_seq
       (filter (\<lambda>r. ledger_seq < row_seq r \<and> visible p r) (t_events db))))))"

definition visible_command_row :: "authority_db \<Rightarrow> EventReadPolicy \<Rightarrow> string \<Rightarrow> LedgerRow res" where
  "visible_command_row db p command_id =
     res_of_option (Exn KeyError command_id)
       (find (\<lambda>r. row_command_id r = command_id \<and> visible p r) (t_events db))"

definition command_result :: "authority_db \<Rightarrow> string \<Rightarrow> EventReadPolicy \<Rightarrow> CommandResultRecord res" where
  "command_result db command_id p =
     res_bind (require_metadata_class p RESULT) (\<lambda>_.
     res_bind (visible_command_row db p command_id) (\<lambda>row.
     if is_retired row then
       res_bind (event_from_row row) (\<lambda>_. Inl (history_expired ''command diagnostic result expired''))
     else
       res_bind (res_of_option (Exn KeyError command_id)
         (find (\<lambda>c. cw_command_id c = command_id) (t_commands db))) (\<lambda>c.
       res_bind (command_result_bytes db (cw_result_bytes c) (cw_result_digest c) (Some (cw_command_id c))) (\<lambda>data.
       res_bind (decode_result db data (cw_result_digest c) False None) (\<lambda>_.
       Inr \<lparr>crr_command_id = cw_command_id c, crr_result_digest = cw_result_digest c,
         crr_result_bytes = data\<rparr>)))))"

section \<open>The checks of an opened database\<close>

definition schema_error' :: "string \<Rightarrow> exn" where "schema_error' m = Exn AuthoritySchemaError m"

definition heads_exact :: "authority_db \<Rightarrow> bool" where
  "heads_exact db = list_all (\<lambda>g. list_ex (\<lambda>v. vw_aggregate_type v = gw_aggregate_type g \<and>
     vw_aggregate_id v = gw_aggregate_id g \<and> vw_aggregate_version v = gw_current_version g) (t_versions db))
     (t_aggregates db)"

definition count_of :: "('r \<Rightarrow> string) \<Rightarrow> string \<Rightarrow> 'r list \<Rightarrow> nat" where
  "count_of key i rows = length (filter (\<lambda>r. key r = i) rows)"

definition command_complete :: "authority_db \<Rightarrow> CommandRow \<Rightarrow> bool" where
  "command_complete db c = (count_of vw_command_id (cw_command_id c) (t_versions db) = 1 \<and>
     count_of row_command_id (cw_command_id c) (t_events db) = 1 \<and>
     count_of aw_command_id (cw_command_id c) (t_audits db) = 1)"

fun routing_exact :: "authority_db \<Rightarrow> LedgerRow \<Rightarrow> bool" where
  "routing_exact db (Live e) =
     list_all (\<lambda>c. cw_command_id c = ev_command_id e \<longrightarrow>
       list_all (\<lambda>p. pw_payload_id p = ev_payload_id e \<longrightarrow> command_envelope e c \<and> payload_envelope e p)
         (t_payloads db)) (t_commands db)"
| "routing_exact db (Retired r) = True"

definition security_exact ::
  "LedgerEventRecord \<Rightarrow> ContextRow \<Rightarrow> RequestRow \<Rightarrow> DecisionRow \<Rightarrow> DefinitionRow \<Rightarrow> bool" where
  "security_exact e x q z d = (ev_principal_id e = xw_principal_id x \<and>
     qw_authentication_context_id q = ev_authentication_context_id e \<and>
     qw_principal_id q = xw_principal_id x \<and> qw_authority_domain q = xw_authority_domain x \<and>
     zw_authentication_context_id z = ev_authentication_context_id e \<and>
     zw_authorization_request_digest z = ev_authorization_request_digest e \<and> zw_allowed z = 1 \<and>
     dr_payload_schema_contract_digest d = ev_payload_schema_contract_digest e)"

fun provenance_exact :: "authority_db \<Rightarrow> LedgerRow \<Rightarrow> bool" where
  "provenance_exact db (Live e) =
     list_all (\<lambda>x. list_all (\<lambda>q. list_all (\<lambda>z. list_all (\<lambda>d.
       xw_authentication_context_id x = ev_authentication_context_id e \<and>
       qw_request_digest q = ev_authorization_request_digest e \<and>
       zw_authorization_decision_id z = ev_authorization_decision_id e \<and>
       dr_definition_digest d = ev_command_definition_digest e \<longrightarrow> security_exact e x q z d)
       (t_definitions db)) (t_decisions db)) (t_requests db)) (t_contexts db)"
| "provenance_exact db (Retired r) = True"

text \<open>\<open>_validate_relational_invariants\<close> of the base class, then of \<open>_ExactAuthorityGuards\<close>.\<close>

definition validate_relational_invariants :: "authority_db \<Rightarrow> unit res" where
  "validate_relational_invariants db =
     require (heads_exact db) (schema_error' ''aggregate head does not reference an exact version'')
     (require (list_all (command_complete db) (t_commands db))
       (schema_error' ''each command must own one version, audit and event'')
     (require (list_all (routing_exact db) (t_events db))
       (schema_error' ''event routing envelope does not match immutable authority'')
     (require (list_all (provenance_exact db) (t_events db))
       (persistence_error ''event security or definition provenance is inconsistent'')
     (Inr ()))))"

definition validate_payload_record :: "authority_db \<Rightarrow> PayloadRow \<Rightarrow> unit res" where
  "validate_payload_record db p =
     res_bind (UUIDv4Id_parse (pw_payload_id p)) (\<lambda>_.
     res_bind (res_of_option (value_error ''not a valid PayloadMode'') (PayloadMode_of (pw_mode p))) (\<lambda>mode.
     require (mode \<noteq> OBJECT_ADMISSION)
       (Exn UnsupportedPayloadMode ''object-admission authority belongs to Increment 1A2b'')
     (res_bind (res_of_option (persistence_error ''A2a retained payload bytes are missing'')
       (pw_payload_bytes p)) (\<lambda>data.
     res_bind (validate_sha256_digest (pw_payload_digest p)) (\<lambda>_.
     require (digest_bytes data = pw_payload_digest p)
       (persistence_error ''retained payload digest does not match exact bytes'')
     (require (\<not> (mode = NO_PAYLOAD \<and> data \<noteq> []))
       (persistence_error ''NO_PAYLOAD authority must retain exact empty bytes'')
     (require (\<not> (mode = INLINE \<and> data = []))
       (persistence_error ''INLINE authority cannot retain an empty payload'')
     (res_bind (res_of_option (persistence_error ''payload schema contract is missing'')
       (find (\<lambda>s. sr_contract_digest s = pw_schema_contract_digest p) (t_schemas db))) (\<lambda>s.
     require (sr_schema_version s = pw_schema_version p \<and> sr_payload_mode s = PayloadMode_value mode \<and>
              sr_contract_version s = pw_schema_contract_version p \<and>
              sr_canonicalizer_implementation_version s = pw_canonicalizer_implementation_version p)
       (persistence_error ''payload does not match its immutable schema contract'')
     (Inr ()))))))))))"

definition skip :: "'a res \<Rightarrow> unit res" where "skip m = res_bind m (\<lambda>_. Inr ())"

text \<open>\<open>_validate_event_types\<close>. The fast path of the source, a regular expression for canonical UUIDv4 texts,
  accepts the texts that \<open>parse\<close> accepts.\<close>

definition TrustScope_of :: "string \<Rightarrow> TrustScope option" where
  "TrustScope_of s = find (\<lambda>m. TrustScope_value m = s) [OBSERVED, PROPOSED, ADMITTED]"

definition CausationKind_of :: "string \<Rightarrow> CausationKind option" where
  "CausationKind_of s = find (\<lambda>m. CausationKind_value m = s) [COMMAND, EVENT, EXTERNAL]"

definition str_or_None :: "string option \<Rightarrow> string" where
  "str_or_None v = (case v of None \<Rightarrow> ''None'' | Some s \<Rightarrow> s)"

definition validate_event_causation :: "LedgerEventRecord \<Rightarrow> unit res" where
  "validate_event_causation e =
     (case ev_causation_kind e of
        None \<Rightarrow> Inr ()
      | Some k \<Rightarrow>
          res_bind (res_of_option (value_error ''not a valid CausationKind'') (CausationKind_of k)) (\<lambda>kind.
          CausationRef_post_init \<lparr>cr_kind = kind, cr_identifier = str_or_None (ev_causation_identifier e),
            cr_external_system = ev_causation_external_system e\<rparr>))"

fun validate_event_types :: "LedgerRow \<Rightarrow> unit res" where
  "validate_event_types (Retired r) =
     res_bind (event_from_row (Retired r)) (\<lambda>_.
     res_bind (for_each (\<lambda>i. skip (UUIDv4Id_parse i))
       [rw_event_id r, rw_command_id r, rw_aggregate_id r]) (\<lambda>_.
     require (\<not> rw_ledger_seq r \<le> 0) (persistence_error ''retired ledger sequence differs'') (Inr ())))"
| "validate_event_types (Live e) =
     require (\<not> (ev_ledger_seq e \<le> 0 \<or> ev_aggregate_version e \<le> 0 \<or> ev_event_schema_version e \<le> 0))
       (persistence_error ''event sequence and versions must be positive'')
     (res_bind (for_each (\<lambda>i. skip (UUIDv4Id_parse i))
       [ev_event_id e, ev_command_id e, ev_payload_id e, ev_aggregate_id e,
        ev_authentication_context_id e, ev_authorization_decision_id e]) (\<lambda>_.
     res_bind (UtcTimestamp_parse (ev_recorded_at e)) (\<lambda>_.
     res_bind (require_tokens
       [ev_event_type e, ev_aggregate_type e, ev_producer_version e, ev_command_definition_version e,
        ev_payload_schema_version e, ev_payload_schema_contract_version e,
        ev_payload_canonicalizer_version e, ev_principal_id e]) (\<lambda>_.
     res_bind (require_scopes [ev_security_scope e, ev_retention_scope e]) (\<lambda>_.
     res_bind (res_of_option (value_error ''not a valid TrustScope'') (TrustScope_of (ev_trust_scope e))) (\<lambda>_.
     res_bind (res_of_option (value_error ''not a valid PayloadMode'') (PayloadMode_of (ev_payload_mode e))) (\<lambda>_.
     res_bind (for_each (\<lambda>d. skip (validate_sha256_digest d))
       [ev_command_definition_digest e, ev_payload_schema_contract_digest e, ev_payload_digest e,
        ev_authorization_request_digest e]) (\<lambda>_.
     res_bind (case ev_correlation_id e of None \<Rightarrow> Inr () | Some i \<Rightarrow> skip (UUIDv4Id_parse i)) (\<lambda>_.
     validate_event_causation e)))))))))"

text \<open>\<open>_validate_immutable_records\<close> of the base class, then the loops over the payloads and the events.\<close>

definition validate_immutable_records :: "authority_db \<Rightarrow> unit res" where
  "validate_immutable_records db =
     res_bind (for_each (\<lambda>r. skip (schema_record_from_row r)) (t_schemas db)) (\<lambda>_.
     res_bind (for_each (\<lambda>r. skip (definition_record_from_row r)) (t_definitions db)) (\<lambda>_.
     res_bind (for_each (\<lambda>r. skip (authentication_record_from_row r)) (t_contexts db)) (\<lambda>_.
     res_bind (for_each (\<lambda>r. skip (request_record_from_row db r)) (t_requests db)) (\<lambda>_.
     res_bind (for_each (\<lambda>r. skip (scope_content_from_row r)) (t_scopes db)) (\<lambda>_.
     res_bind (for_each (\<lambda>r. skip (decision_record_from_row (t_scopes db) r)) (t_decisions db)) (\<lambda>_.
     res_bind (for_each (\<lambda>c. skip (decode_result db (cw_result_bytes c) (cw_result_digest c) False
       (Some (cw_command_id c)))) (t_commands db)) (\<lambda>_.
     res_bind (for_each (validate_payload_record db) (t_payloads db)) (\<lambda>_.
     for_each validate_event_types (sort_key row_seq (t_events db))))))))))"

definition validate_registry_coverage :: "EventStore \<Rightarrow> authority_db \<Rightarrow> unit res" where
  "validate_registry_coverage st db =
     res_bind (for_each (\<lambda>d. skip (CommandRegistry_resolve_exact (es_command_registry st) (dr_command_type d)
       (dr_definition_version d) (dr_definition_digest d))) (t_definitions db)) (\<lambda>_.
     for_each (\<lambda>s. res_bind (res_of_option (value_error ''not a valid PayloadMode'')
         (PayloadMode_of (sr_payload_mode s))) (\<lambda>mode.
       skip (PayloadSchemaRegistry_resolve_exact (es_payload_schemas st) (sr_schema_version s) mode
         (sr_contract_version s) (sr_contract_digest s) (sr_canonicalizer_implementation_version s))))
       (t_schemas db))"

text \<open>What is checked of the rows when a database with an accepted schema is opened.\<close>

definition validate_retained_history :: "EventStore \<Rightarrow> authority_db \<Rightarrow> unit res" where
  "validate_retained_history st db =
     res_bind (validate_relational_invariants db) (\<lambda>_.
     res_bind (validate_immutable_records db) (\<lambda>_.
     validate_registry_coverage st db))"

end
