(* ===== verification/Event_Store_Facts.thy ===== *)
theory Event_Store_Facts
  imports Event_Read "HOL-Library.Sublist"
begin

text \<open>
  How the store grows. \<open>extends\<close> says that one database is another with rows appended (aggregate heads
  may have moved on); every lookup that succeeded and every check that passed keeps its answer in an
  extension. Each insert and each phase of a commit has an effect lemma: what it appends, and that the
  appended rows pass the checks.
\<close>

section \<open>Tables that grow\<close>

lemma find_append: "find P (xs @ ys) = (case find P xs of None \<Rightarrow> find P ys | Some x \<Rightarrow> Some x)"
  by (induction xs) auto

lemma find_prefix: "prefix xs ys \<Longrightarrow> find P xs = Some x \<Longrightarrow> find P ys = Some x"
  by (auto simp: prefix_def find_append)

lemma map_of_prefix: "prefix xs ys \<Longrightarrow> map_of xs k = Some v \<Longrightarrow> map_of ys k = Some v"
  by (auto simp: prefix_def map_add_Some_iff)

lemma find_append_new: "(\<forall>x \<in> set xs. \<not> P x) \<Longrightarrow> P y \<Longrightarrow> find P (xs @ [y]) = Some y"
  by (induction xs) auto

lemma find_unique:
  "distinct (map f xs) \<Longrightarrow> x \<in> set xs \<Longrightarrow> find (\<lambda>y. f y = f x) xs = Some x"
  by (induction xs) auto

lemma find_key: "find (\<lambda>y. f y = k) xs = Some x \<Longrightarrow> x \<in> set xs \<and> f x = k"
  using find_Some_iff_split by fastforce

lemma find_mem: "x \<in> set xs \<Longrightarrow> P x \<Longrightarrow> \<exists>y. find P xs = Some y"
  using find_None_all [of P xs] by (cases "find P xs") auto

lemma taken_iff: "taken key r rows \<longleftrightarrow> key r \<in> key ` set rows"
  by (auto simp: taken_def list_ex_iff image_iff) metis

definition extends :: "authority_db \<Rightarrow> authority_db \<Rightarrow> bool" where
  "extends db db' = (prefix (t_schemas db) (t_schemas db') \<and> prefix (t_definitions db) (t_definitions db') \<and>
     prefix (t_contexts db) (t_contexts db') \<and> prefix (t_requests db) (t_requests db') \<and>
     prefix (t_scopes db) (t_scopes db') \<and> prefix (t_decisions db) (t_decisions db') \<and>
     prefix (t_payloads db) (t_payloads db') \<and> prefix (t_commands db) (t_commands db') \<and>
     prefix (t_versions db) (t_versions db') \<and> prefix (t_audits db) (t_audits db') \<and>
     prefix (t_events db) (t_events db'))"

lemma extends_refl [simp]: "extends db db"
  by (simp add: extends_def)

lemma extends_trans: "extends a b \<Longrightarrow> extends b c \<Longrightarrow> extends a c"
  unfolding extends_def by (meson prefix_order.order_trans)

lemma extendsD:
  assumes "extends db db'"
  shows "prefix (t_schemas db) (t_schemas db')" "prefix (t_definitions db) (t_definitions db')"
    "prefix (t_contexts db) (t_contexts db')" "prefix (t_requests db) (t_requests db')"
    "prefix (t_scopes db) (t_scopes db')" "prefix (t_decisions db) (t_decisions db')"
    "prefix (t_payloads db) (t_payloads db')" "prefix (t_commands db) (t_commands db')"
    "prefix (t_versions db) (t_versions db')" "prefix (t_audits db) (t_audits db')"
    "prefix (t_events db) (t_events db')"
  using assms by (simp_all add: extends_def)

lemma rescue_Inr_iff: "rescue (\<lambda>e. Inl (f e)) m = Inr x \<longleftrightarrow> m = Inr x"
  by (cases m) simp_all

lemma as_persistence_Inr [res_simps]: "as_persistence m r = Inr x \<longleftrightarrow> r = Inr x"
  by (simp add: as_persistence_def rescue_Inr_iff)

section \<open>Checks that keep their answer\<close>

lemma backing_Inr:
  "command_request_backing db i = Inr b \<longleftrightarrow> (\<exists>c e d s. b = (c, e, d, s) \<and>
     find (\<lambda>c. cps_of (cw_command_id c) = i) (t_commands db) = Some c \<and>
     find (\<lambda>e. row_command_id e = cw_command_id c) (t_events db) = Some e \<and>
     find (\<lambda>d. dr_definition_digest d = cw_command_definition_digest c) (t_definitions db) = Some d \<and>
     find (\<lambda>s. sr_contract_digest s = dr_payload_schema_contract_digest d) (t_schemas db) = Some s)"
  by (auto simp: command_request_backing_def Let_def res_simps)

lemma backing_extends:
  assumes x: "extends db db'" and b: "command_request_backing db i = Inr b"
  shows "command_request_backing db' i = Inr b"
proof -
  obtain c e d s where l: "b = (c, e, d, s)"
      "find (\<lambda>c. cps_of (cw_command_id c) = i) (t_commands db) = Some c"
      "find (\<lambda>e. row_command_id e = cw_command_id c) (t_events db) = Some e"
      "find (\<lambda>d. dr_definition_digest d = cw_command_definition_digest c) (t_definitions db) = Some d"
      "find (\<lambda>s. sr_contract_digest s = dr_payload_schema_contract_digest d) (t_schemas db) = Some s"
    using b unfolding backing_Inr by blast
  note f = find_prefix [OF extendsD(8) [OF x] l(2)] find_prefix [OF extendsD(11) [OF x] l(3)]
    find_prefix [OF extendsD(2) [OF x] l(4)] find_prefix [OF extendsD(1) [OF x] l(5)]
  show ?thesis unfolding backing_Inr using l(1) f by blast
qed

lemma request_value_extends:
  assumes x: "extends db db'" and v: "command_request_value db q = Inr v"
  shows "command_request_value db' q = Inr v"
proof (cases "qw_storage_request_marker q = V38")
  case True
  with v show ?thesis by (simp add: command_request_value_def)
next
  case False
  have step: "(case identity of JStr i \<Rightarrow> res_bind (command_request_backing db' i) k
      | _ \<Rightarrow> Inl e) = Inr v"
    if "(case identity of JStr i \<Rightarrow> res_bind (command_request_backing db i) k | _ \<Rightarrow> Inl e) = Inr v"
    for identity k e
    using that backing_extends [OF x] by (cases identity) (auto simp: res_bind_Inr_iff)
  show ?thesis
    using v False step
    unfolding command_request_value_def as_persistence_Inr if_not_P [OF False] require_Inr_iff res_bind_Inr_iff
    by blast
qed

lemma request_record_extends:
  assumes "extends db db'" and "request_record_from_row db q = Inr r"
  shows "request_record_from_row db' q = Inr r"
proof -
  obtain j b where v: "(if qw_storage_request_marker q = COMMAND_REQUEST_MARKER
      then command_request_value db q else request_value_from_v38_row q) = Inr j"
    and d: "canonical_json_bytes (py_of_json j) = Inr b"
    using assms(2) by (auto simp: request_record_from_row_def res_simps)
  have "(if qw_storage_request_marker q = COMMAND_REQUEST_MARKER
      then command_request_value db' q else request_value_from_v38_row q) = Inr j"
    using v request_value_extends [OF assms(1)] by (auto split: if_splits)
  with assms(2) v d show ?thesis
    unfolding request_record_from_row_def by (simp add: as_persistence_def del: if_split)
qed

lemma result_bytes_extends:
  assumes "extends db db'" and "command_result_bytes db b digest i = Inr r"
  shows "command_result_bytes db' b digest i = Inr r"
  using assms(2) find_prefix [OF extendsD(8) [OF assms(1)]] find_prefix [OF extendsD(11) [OF assms(1)]]
  unfolding command_result_bytes_def as_persistence_Inr res_bind_Inr_iff res_of_option_Inr_iff
    require_Inr_iff if_distrib [of "\<lambda>x. x = _"]
  by (auto split: if_splits)

lemma decode_result_extends:
  assumes "extends db db'" and "decode_result db b digest f i = Inr c"
  shows "decode_result db' b digest f i = Inr c"
  using assms(2) result_bytes_extends [OF assms(1)]
  unfolding decode_result_def res_bind_Inr_iff [of "command_result_bytes _ _ _ _"] by blast

lemma decision_record_extends:
  assumes "prefix s s'" and "decision_record_from_row s z = Inr r"
  shows "decision_record_from_row s' z = Inr r"
  using assms(2) map_of_prefix [OF assms(1)]
  unfolding decision_record_from_row_def require_Inr_iff
    res_bind_Inr_iff [of "res_of_option _ _"] res_of_option_Inr_iff by blast

lemma payload_record_extends:
  assumes "extends db db'" and "validate_payload_record db p = Inr ()"
  shows "validate_payload_record db' p = Inr ()"
  using assms(2) find_prefix [OF extendsD(1) [OF assms(1)]]
  unfolding validate_payload_record_def res_bind_Inr_iff res_of_option_Inr_iff require_Inr_iff by metis

lemma canonical_object_Inr: "canonical_object b = Inr j \<longleftrightarrow> decode_canonical b = Inr j \<and> is_object j"
  by (auto simp: canonical_object_def decode_canonical_def res_simps split: option.splits)

lemma canonical_object_bytes:
  "wf_pyval v \<Longrightarrow> canonical_json_bytes v = Inr b \<Longrightarrow> is_object (view v) \<Longrightarrow> canonical_object b = Inr (view v)"
  using decode_canonical_view by (simp add: canonical_object_Inr)

section \<open>The stored form of a request\<close>

definition storage_object :: "string \<Rightarrow> pyval" where
  "storage_object i = obj [(''storage_version'', jnum 1), (''command_id'', jtext i), (''residual'', PMap Exact [])]"

lemma request_keys_derived:
  "p \<in> set (request_fields r @ [(''request_digest'', jtext (ar_request_digest r))]) \<Longrightarrow>
     fst p \<in> set DERIVED_REQUEST_FIELDS"
  by (auto simp: request_fields_def DERIVED_REQUEST_FIELDS_def INDEXED_FIELDS_def EVENT_DEFINITION_FIELDS_def)

lemma storage_of_request:
  "command_request_storage (AuthorizationRequest_canonical_value r) i = canonical_json_bytes (storage_object i)"
proof -
  have "residual_items (AuthorizationRequest_canonical_value r) = []"
    using request_keys_derived [of _ r]
    unfolding AuthorizationRequest_canonical_value_def obj_def residual_items.simps filter_empty_conv
    by fastforce
  then show ?thesis by (simp add: command_request_storage_def storage_object_def)
qed

lemma py_of_items_map': "py_of_items ps = map (\<lambda>p. (KStr True (fst p), py_of_json (snd p))) ps"
  by (induction ps) auto

lemma residual_items_derived:
  "(\<And>p. p \<in> set ps \<Longrightarrow> fst p \<in> cps_of ` set DERIVED_REQUEST_FIELDS) \<Longrightarrow>
     residual_items (PMap c (map (\<lambda>p. (KStr True (fst p), h (snd p))) ps)) = []"
  by (simp add: filter_empty_conv)

lemma storage_of_request_json:
  "command_request_storage (py_of_json (view (AuthorizationRequest_canonical_value r))) i =
     canonical_json_bytes (storage_object i)"
proof -
  let ?rs = "request_fields r @ [(''request_digest'', jtext (ar_request_digest r))]"
  have k: "fst p \<in> cps_of ` set DERIVED_REQUEST_FIELDS"
    if "p \<in> set (sort_key fst (map (\<lambda>p. (cps_of (fst p), view (snd p))) ?rs))" for p
  proof -
    obtain x where "x \<in> set ?rs" "p = (cps_of (fst x), view (snd x))"
      using \<open>p \<in> _\<close> unfolding set_sort set_map by blast
    then show ?thesis using request_keys_derived [of x r] by simp
  qed
  then have "residual_items (py_of_json (JObj (sort_key fst (map (\<lambda>p. (cps_of (fst p), view (snd p))) ?rs)))) = []"
    unfolding py_of_json.simps py_of_items_map' by (intro residual_items_derived) blast
  then have "residual_items (py_of_json (view (AuthorizationRequest_canonical_value r))) = []"
    unfolding AuthorizationRequest_canonical_value_def obj_view .
  then show ?thesis by (simp add: command_request_storage_def storage_object_def)
qed

lemma storage_object_wf [simp]: "wf_pyval (storage_object i)"
  by (simp add: storage_object_def obj_wf)

lemma storage_object_id: "jget ''command_id'' (view (storage_object i)) = Some (jstr i)"
  unfolding storage_object_def by (subst jget_obj) simp_all

lemma request_value_wf [simp]: "wf_pyval (AuthorizationRequest_canonical_value r)"
  by (rule auth_request.value_wf)

lemma pending_residual:
  assumes "pending_command_request_bytes q original i = Inr b"
    and "canonical_json_bytes (AuthorizationRequest_canonical_value r) = Inr original"
  shows "qw_storage_request_marker q = COMMAND_REQUEST_MARKER \<and>
    canonical_json_bytes (storage_object i) = Inr (qw_storage_request_residual q) \<and> b = original"
proof -
  have "canonical_object original = Inr (view (AuthorizationRequest_canonical_value r))"
    using canonical_object_bytes [OF request_value_wf assms(2)]
    by (simp add: AuthorizationRequest_canonical_value_def)
  then show ?thesis
    using assms(1) unfolding pending_command_request_bytes_def
    by (auto simp: res_simps storage_of_request_json)
qed

lemma marker_distinct: "COMMAND_REQUEST_MARKER \<noteq> V38"
  by (simp add: COMMAND_REQUEST_MARKER_def V38_def)

text \<open>A compact request that is checked against its backing names a command that exists.\<close>

lemma compact_request_has_command:
  assumes "request_record_from_row db q = Inr rec"
    and "qw_storage_request_marker q = COMMAND_REQUEST_MARKER"
    and "canonical_json_bytes (storage_object i) = Inr (qw_storage_request_residual q)"
  shows "\<exists>c e d s. command_request_backing db (cps_of i) = Inr (c, e, d, s) \<and> cw_command_id c = i \<and>
    (\<exists>derived. derived_request_fields q c e d s = Inr derived)"
proof -
  have co: "canonical_object (qw_storage_request_residual q) = Inr (view (storage_object i))"
    using canonical_object_bytes [OF storage_object_wf assms(3)] by (simp add: storage_object_def)
  have ci: "field ''command_id'' (view (storage_object i)) = Inr (JStr (cps_of i))"
    by (simp add: field_def storage_object_id jstr_def)
  obtain j where "command_request_value db q = Inr j"
    using assms(1,2) by (auto simp: request_record_from_row_def res_simps)
  then have "\<exists>b. command_request_backing db (cps_of i) = Inr b \<and>
      (case b of (c, e, d, s) \<Rightarrow> restore_command_request_value q (qw_storage_request_residual q) c e d s = Inr j)"
    using assms(2) marker_distinct
    by (auto simp: command_request_value_def res_simps co ci)
  then obtain c e d s where b: "command_request_backing db (cps_of i) = Inr (c, e, d, s)"
      and v: "restore_command_request_value q (qw_storage_request_residual q) c e d s = Inr j"
    by auto
  have "cw_command_id c = i" using b find_Some_iff_split by (fastforce simp: backing_Inr)
  moreover have "\<exists>derived. derived_request_fields q c e d s = Inr derived"
    using v by (auto simp: restore_command_request_value_def res_simps)
  ultimately show ?thesis using b by blast
qed

lemma same_field_Inr [res_simps]: "same_field j p = Inr u \<longleftrightarrow> jget (fst p) j = Some (snd p)"
  by (auto simp: same_field_def field_def same_def res_simps)

lemma same_Inr [res_simps]: "same a b = Inr u \<longleftrightarrow> a = b"
  by (simp add: same_def res_simps)

text \<open>What the rows of a command have in common once its request has been rebuilt.\<close>

lemma derived_request_fields_Inr:
  assumes "derived_request_fields q c row d s = Inr derived"
  shows "\<exists>e. row = Live e \<and> command_event_fields c = event_command_fields e \<and>
    qw_request_digest q = ev_authorization_request_digest e \<and>
    qw_authentication_context_id q = ev_authentication_context_id e \<and>
    qw_principal_id q = ev_principal_id e \<and>
    dr_payload_schema_contract_digest d = ev_payload_schema_contract_digest e \<and>
    sr_contract_digest s = ev_payload_schema_contract_digest e \<and>
    sr_schema_version s = ev_payload_schema_version e \<and> sr_payload_mode s = ev_payload_mode e \<and>
    sr_contract_version s = ev_payload_schema_contract_version e \<and>
    sr_canonicalizer_implementation_version s = ev_payload_canonicalizer_version e"
proof -
  obtain e j where row: "row = Live e" "command_event_fields c = event_command_fields e"
      "qw_request_digest q = ev_authorization_request_digest e \<and>
       qw_authentication_context_id q = ev_authentication_context_id e \<and> qw_principal_id q = ev_principal_id e"
    and def1: "for_each (same_field j) [
       (''command_type'', jstr (dr_command_type d)),
       (''definition_version'', jstr (dr_definition_version d)),
       (''payload_schema_contract_digest'', jstr (dr_payload_schema_contract_digest d))] = Inr ()"
    and def2: "for_each (same_field j) (event_definition_fields e) = Inr ()"
    and def3: "same_field j (''payload_schema_contract_digest'', jstr (sr_contract_digest s)) = Inr ()"
    and def4: "for_each (same_field j) [
       (''payload_schema_version'', jstr (sr_schema_version s)),
       (''payload_mode'', jstr (sr_payload_mode s)),
       (''payload_schema_contract_version'', jstr (sr_contract_version s)),
       (''payload_canonicalizer_version'', jstr (sr_canonicalizer_implementation_version s))] = Inr ()"
    using assms unfolding derived_request_fields_def res_bind_Inr_iff require_Inr_iff
    by (cases row) auto
  show ?thesis
    using row def1 def2 def3 def4
    by (auto simp: res_simps event_definition_fields_def)
qed

lemma event_fields_eq:
  "command_event_fields c = event_command_fields e \<longleftrightarrow>
     cw_command_id c = ev_command_id e \<and> cw_aggregate_type c = ev_aggregate_type e \<and>
     cw_aggregate_id c = ev_aggregate_id e \<and> command_envelope e c \<and> command_security e c"
  by (auto simp: command_event_fields_def event_command_fields_def command_envelope_def command_security_def)

section \<open>Effects of the inserts\<close>

text \<open>A table after an \<open>INSERT OR IGNORE\<close> of one row.\<close>

definition grown :: "('r \<Rightarrow> 'k) \<Rightarrow> 'r list \<Rightarrow> 'r \<Rightarrow> 'r list \<Rightarrow> bool" where
  "grown key old r new = (new = old \<or> (\<not> taken key r old \<and> new = old @ [r]))"

lemma grown_prefix: "grown key old r new \<Longrightarrow> prefix old new"
  by (auto simp: grown_def)

lemma grown_distinct: "grown key old r new \<Longrightarrow> distinct (map key old) \<Longrightarrow> distinct (map key new)"
  by (auto simp: grown_def taken_iff)

lemma grown_mem: "grown key old r new \<Longrightarrow> x \<in> set new \<Longrightarrow> x \<in> set old \<or> (x = r \<and> key r \<notin> key ` set old)"
  by (auto simp: grown_def taken_iff)

lemma insert_schema_grown:
  "insert_schema r db = Inr db' \<Longrightarrow> \<exists>new. grown sr_contract_digest (t_schemas db) r new \<and> db' = db\<lparr>t_schemas := new\<rparr>"
  unfolding insert_schema_def grown_def by (auto split: if_splits)

lemma insert_definition_grown:
  "insert_definition r db = Inr db' \<Longrightarrow>
     \<exists>new. grown dr_definition_digest (t_definitions db) r new \<and> db' = db\<lparr>t_definitions := new\<rparr>"
  unfolding insert_definition_def grown_def by (auto simp: res_simps split: if_splits)

lemma insert_context_grown:
  "insert_context r db = Inr db' \<Longrightarrow>
     \<exists>new. grown xw_authentication_context_id (t_contexts db) r new \<and> db' = db\<lparr>t_contexts := new\<rparr>"
  unfolding insert_context_def grown_def by (auto simp: res_simps split: if_splits)

lemma insert_request_grown:
  "insert_request r db = Inr db' \<Longrightarrow>
     \<exists>new. grown qw_request_digest (t_requests db) r new \<and> db' = db\<lparr>t_requests := new\<rparr>"
  unfolding insert_request_def grown_def by (auto simp: res_simps split: if_splits)

lemma insert_scopes_grown:
  "insert_scopes r db = Inr db' \<Longrightarrow> \<exists>new. grown fst (t_scopes db) r new \<and> db' = db\<lparr>t_scopes := new\<rparr>"
  unfolding insert_scopes_def grown_def by (auto split: if_splits)

lemma insert_decision_grown:
  "insert_decision r db = Inr db' \<Longrightarrow>
     \<exists>new. grown zw_authorization_decision_id (t_decisions db) r new \<and> db' = db\<lparr>t_decisions := new\<rparr>"
  unfolding insert_decision_def grown_def by (auto simp: res_simps split: if_splits)

section \<open>Effects of the phases\<close>

lemma same_bytes_view:
  "\<lbrakk>wf_pyval v; wf_pyval w; canonical_json_bytes v = Inr b; canonical_json_bytes w = Inr b\<rbrakk> \<Longrightarrow> view v = view w"
  using decode_canonical_view [of v b] decode_canonical_view [of w b] by simp

lemma context_record_fields:
  assumes "authentication_record_from_row x = Inr xr"
    and "canonical_json_bytes (VerifiedAuthenticationContext_canonical_value c) = Inr (xr_canonical_bytes xr)"
  shows "xw_authentication_context_id x = vc_authentication_context_id c \<and>
    xw_principal_id x = vc_principal_id c \<and> xw_authority_domain x = vc_authority_domain c"
proof -
  have "canonical_json_bytes (obj [
       (''authentication_context_id'', jtext (xw_authentication_context_id x)),
       (''principal_id'', jtext (xw_principal_id x)),
       (''authority_domain'', jtext (xw_authority_domain x)),
       (''authentication_method'', jtext (xw_authentication_method x)),
       (''assurance_class'', jtext (xw_assurance_class x)),
       (''credential_binding_digest'', jtext (xw_credential_binding_digest x)),
       (''authenticated_at'', jtext (xw_authenticated_at x)),
       (''expires_at'', jtext (xw_expires_at x))]) = Inr (xr_canonical_bytes xr)" (is "canonical_json_bytes ?v = _")
    using assms(1) by (auto simp: authentication_record_from_row_def res_simps)
  then have "view ?v = view (VerifiedAuthenticationContext_canonical_value c)"
    by (rule same_bytes_view [OF _ auth_context.value_wf _ assms(2), rotated 1]) (simp add: obj_wf)
  then show ?thesis by (simp add: VerifiedAuthenticationContext_canonical_value_def obj_view_eq)
qed

lemma decode_canonical_json_wf: "decode_canonical b = Inr j \<Longrightarrow> json_wf j"
  using json_loads_wf utf8_decode_wf by (auto simp: decode_canonical_def res_simps bind_eq_Some_conv)

lemma json_texts_wf: "json_texts js = Some ts \<Longrightarrow> \<forall>j \<in> set js. json_wf j \<Longrightarrow> \<forall>t \<in> set ts. wf_text t"
  by (induction js arbitrary: ts rule: json_texts.induct) auto

lemma scope_content_wf:
  assumes "scope_content_from_row row = Inr ts" and "t \<in> set ts"
  shows "wf_text t"
proof -
  obtain v where v: "decode_canonical (snd row) = Inr v"
      "(case v of JArr js \<Rightarrow> json_texts js | _ \<Rightarrow> None) = Some ts"
    using assms(1) by (auto simp: scope_content_from_row_def res_simps)
  then obtain js where js: "v = JArr js" "json_texts js = Some ts" by (cases v) auto
  then have "\<forall>j \<in> set js. json_wf j" using decode_canonical_json_wf [OF v(1)] by simp
  then show ?thesis using json_texts_wf [OF js(2)] assms(2) by blast
qed

lemma decision_record_fields:
  assumes "decision_record_from_row s z = Inr zr"
    and "canonical_json_bytes (AuthorizationDecision_canonical_value a) = Inr (zr_canonical_bytes zr)"
  shows "zw_authorization_decision_id z = ad_authorization_decision_id a \<and>
    zw_authentication_context_id z = ad_authentication_context_id a \<and>
    zw_authorization_request_digest z = ad_authorization_request_digest a \<and>
    (zw_allowed z \<noteq> 0 \<longleftrightarrow> ad_allowed a)"
proof -
  obtain content texts where t: "scope_content_from_row (zw_scope_content_digest z, content) = Inr texts"
    and b: "canonical_json_bytes (obj [
       (''authorization_decision_id'', jtext (zw_authorization_decision_id z)),
       (''authentication_context_id'', jtext (zw_authentication_context_id z)),
       (''authorization_request_digest'', jtext (zw_authorization_request_digest z)),
       (''authorization_policy_version'', jtext (zw_authorization_policy_version z)),
       (''effective_scopes'', jlist (map (PStr True) texts)),
       (''effective_scope_digest'', jtext (zw_effective_scope_digest z)),
       (''allowed'', jflag (zw_allowed z \<noteq> 0)),
       (''reason_code'', jtext (zw_reason_code z)),
       (''decided_at'', jtext (zw_decided_at z))]) = Inr (zr_canonical_bytes zr)" (is "canonical_json_bytes ?v = _")
    using assms(1) by (auto simp: decision_record_from_row_def res_simps)
  have "wf_pyval ?v" using scope_content_wf [OF t] by (auto simp: obj_wf)
  then have "view ?v = view (AuthorizationDecision_canonical_value a)"
    by (rule same_bytes_view [OF _ auth_decision.value_wf b assms(2)])
  then show ?thesis by (simp add: AuthorizationDecision_canonical_value_def obj_view_eq)
qed

text \<open>The content that a commit stores for a list of scopes is accepted when it is read.\<close>

lemma json_texts_jtext: "json_texts (map (\<lambda>s. view (jtext s)) ss) = Some (map cps_of ss)"
  by (induction ss) (simp_all add: jstr_def)

lemma scope_content_accepted:
  assumes "canonical_json_bytes (jlist (map jtext scopes)) = Inr b"
  shows "scope_content_from_row (digest_bytes b, b) = Inr (map cps_of scopes)"
proof -
  have "wf_pyval (jlist (map jtext scopes))" by auto
  from decode_canonical_view [OF this assms]
  have "decode_canonical b = Inr (JArr (map (\<lambda>s. view (jtext s)) scopes))"
    by (simp add: jlist_def view_list_map comp_def del: view_leaves)
  then show ?thesis by (simp add: scope_content_from_row_def json_texts_jtext del: view_leaves)
qed

lemma insert_security_effect:
  assumes "insert_security_records c r a at pending db = Inr db'"
  shows "\<exists>stored cd rd ad b nx nq ns nz. stored_request r pending = Inr stored \<and>
    grown xw_authentication_context_id (t_contexts db) (context_row c cd) nx \<and>
    grown qw_request_digest (t_requests db) (request_row c r rd at stored) nq \<and>
    grown fst (t_scopes db) (digest_bytes b, b) ns \<and>
    grown zw_authorization_decision_id (t_decisions db) (decision_row c r a ad (digest_bytes b)) nz \<and>
    canonical_json_bytes (jlist (map jtext (ad_effective_scopes a))) = Inr b \<and>
    db' = db\<lparr>t_contexts := nx, t_requests := nq, t_scopes := ns, t_decisions := nz\<rparr>"
proof -
  obtain stored b cd db1 rd db2 db3 ad where
    "stored_request r pending = Inr stored"
    "canonical_json_bytes (jlist (map jtext (ad_effective_scopes a))) = Inr b"
    and ins: "insert_context (context_row c cd) db = Inr db1"
      "insert_request (request_row c r rd at stored) db1 = Inr db2"
      "insert_scopes (digest_bytes b, b) db2 = Inr db3"
      "insert_decision (decision_row c r a ad (digest_bytes b)) db3 = Inr db'"
    using assms unfolding insert_security_records_def res_bind_Inr_iff require_Inr_iff by blast
  moreover obtain nx where x: "grown xw_authentication_context_id (t_contexts db) (context_row c cd) nx"
      "db1 = db\<lparr>t_contexts := nx\<rparr>"
    using insert_context_grown [OF ins(1)] by blast
  moreover obtain nq where q: "grown qw_request_digest (t_requests db1) (request_row c r rd at stored) nq"
      "db2 = db1\<lparr>t_requests := nq\<rparr>"
    using insert_request_grown [OF ins(2)] by blast
  moreover obtain ns where s: "grown fst (t_scopes db2) (digest_bytes b, b) ns" "db3 = db2\<lparr>t_scopes := ns\<rparr>"
    using insert_scopes_grown [OF ins(3)] by blast
  moreover obtain nz where "grown zw_authorization_decision_id (t_decisions db3)
        (decision_row c r a ad (digest_bytes b)) nz" "db' = db3\<lparr>t_decisions := nz\<rparr>"
    using insert_decision_grown [OF ins(4)] by blast
  ultimately show ?thesis by (simp add: q(2) s(2) x(2)) blast
qed

text \<open>A table that grew by rows that passed their check, keys staying unique.\<close>

definition grows :: "('r \<Rightarrow> 'k) \<Rightarrow> ('r \<Rightarrow> bool) \<Rightarrow> 'r list \<Rightarrow> 'r list \<Rightarrow> bool" where
  "grows key good old new = (prefix old new \<and> (distinct (map key old) \<longrightarrow> distinct (map key new)) \<and>
     (\<forall>y \<in> set new. y \<in> set old \<or> good y))"

lemma grown_grows:
  assumes "grown key old r new" and "find (\<lambda>y. key y = key r) new = Some r \<Longrightarrow> good r"
  shows "grows key good old new"
proof (cases "new = old")
  case True
  then show ?thesis by (simp add: grows_def)
next
  case False
  then have n: "\<not> taken key r old" "new = old @ [r]" using assms(1) by (auto simp: grown_def)
  then have "\<forall>x \<in> set old. key x \<noteq> key r" unfolding taken_iff by (metis imageI)
  then have "find (\<lambda>y. key y = key r) new = Some r"
    using find_append_new [of old "\<lambda>y. key y = key r" r] n(2) by simp
  with assms(2) have "good r" by simp
  then show ?thesis
    using n(2) grown_prefix [OF assms(1)] grown_distinct [OF assms(1)] by (simp add: grows_def)
qed

lemma growsD:
  assumes "grows key good old new"
  shows "prefix old new" "distinct (map key old) \<Longrightarrow> distinct (map key new)"
    "y \<in> set new \<Longrightarrow> y \<in> set old \<or> good y"
  using assms by (auto simp: grows_def)

definition requests_ok :: "authority_db \<Rightarrow> bool" where
  "requests_ok db = (\<forall>q \<in> set (t_requests db). qw_storage_request_marker q = COMMAND_REQUEST_MARKER \<and>
     (\<exists>r. request_record_from_row db q = Inr r))"

lemma persist_security_Inr:
  assumes "persist_security_records c r a at (Some i) db = Inr db'"
  shows "\<exists>x q z xr zr b. insert_security_records c r a at (Some i) db = Inr db' \<and>
    find (\<lambda>x. xw_authentication_context_id x = vc_authentication_context_id c) (t_contexts db') = Some x \<and>
    find (\<lambda>q. qw_request_digest q = ar_request_digest r) (t_requests db') = Some q \<and>
    find (\<lambda>z. zw_authorization_decision_id z = ad_authorization_decision_id a) (t_decisions db') = Some z \<and>
    authentication_record_from_row x = Inr xr \<and>
    canonical_json_bytes (VerifiedAuthenticationContext_canonical_value c) = Inr (xr_canonical_bytes xr) \<and>
    retained_request_bytes db' r (Some i) q = Inr b \<and>
    decision_record_from_row (t_scopes db') z = Inr zr \<and>
    canonical_json_bytes (AuthorizationDecision_canonical_value a) = Inr (zr_canonical_bytes zr)"
proof -
  obtain d where i: "insert_security_records c r a at (Some i) db = Inr d"
    using assms by (auto simp: persist_security_records_def res_bind_Inr_iff)
  then obtain x q z where f: "find (\<lambda>x. xw_authentication_context_id x = vc_authentication_context_id c) (t_contexts d) = Some x"
    "find (\<lambda>q. qw_request_digest q = ar_request_digest r) (t_requests d) = Some q"
    "find (\<lambda>z. zw_authorization_decision_id z = ad_authorization_decision_id a) (t_decisions d) = Some z"
    using assms by (auto simp: persist_security_records_def split: option.splits)
  obtain xr b zr where "authentication_record_from_row x = Inr xr" "retained_request_bytes d r (Some i) q = Inr b"
    "decision_record_from_row (t_scopes d) z = Inr zr"
    "canonical_json_bytes (VerifiedAuthenticationContext_canonical_value c) = Inr (xr_canonical_bytes xr)"
    "canonical_json_bytes (AuthorizationDecision_canonical_value a) = Inr (zr_canonical_bytes zr)" "d = db'"
    using assms unfolding persist_security_records_def i res_bind_simps f prod.case option.case
      res_bind_Inr_iff require_Inr_iff sum.inject by blast
  then show ?thesis using i f by blast
qed

lemma retained_compact:
  assumes "retained_request_bytes db r (Some i) q = Inr b"
    and "qw_storage_request_marker q = COMMAND_REQUEST_MARKER"
  shows "canonical_json_bytes (storage_object i) = Inr (qw_storage_request_residual q)"
  using assms pending_residual by (auto simp: retained_request_bytes_def res_simps)

lemma persist_security_effect:
  assumes p: "persist_security_records c r a at (Some i) db = Inr db'"
    and ok: "requests_ok db" and i: "i \<notin> cw_command_id ` set (t_commands db)"
  shows "\<exists>nx q ns nz x z rd resid.
    db' = db\<lparr>t_contexts := nx, t_requests := t_requests db @ [q], t_scopes := ns, t_decisions := nz\<rparr> \<and>
    q = request_row c r rd at (resid, COMMAND_REQUEST_MARKER) \<and>
    canonical_json_bytes (storage_object i) = Inr resid \<and>
    ar_request_digest r \<notin> qw_request_digest ` set (t_requests db) \<and>
    grows xw_authentication_context_id (\<lambda>x. \<exists>xr. authentication_record_from_row x = Inr xr) (t_contexts db) nx \<and>
    grows fst (\<lambda>s. \<exists>ts. scope_content_from_row s = Inr ts) (t_scopes db) ns \<and>
    grows zw_authorization_decision_id 
      (\<lambda>z. (\<exists>zr. decision_record_from_row ns z = Inr zr) \<and> zw_allowed z \<in> {0, 1}) (t_decisions db) nz \<and>
    x \<in> set nx \<and> xw_authentication_context_id x = vc_authentication_context_id c \<and>
    xw_principal_id x = vc_principal_id c \<and> xw_authority_domain x = vc_authority_domain c \<and>
    z \<in> set nz \<and> zw_authorization_decision_id z = ad_authorization_decision_id a \<and>
    zw_authentication_context_id z = ad_authentication_context_id a \<and>
    zw_authorization_request_digest z = ad_authorization_request_digest a \<and> (zw_allowed z \<noteq> 0 \<longleftrightarrow> ad_allowed a)"
proof -
  obtain x q z xr zr rb where f: "insert_security_records c r a at (Some i) db = Inr db'"
    "find (\<lambda>x. xw_authentication_context_id x = vc_authentication_context_id c) (t_contexts db') = Some x"
    "find (\<lambda>q. qw_request_digest q = ar_request_digest r) (t_requests db') = Some q"
    "find (\<lambda>z. zw_authorization_decision_id z = ad_authorization_decision_id a) (t_decisions db') = Some z"
    "authentication_record_from_row x = Inr xr"
    "canonical_json_bytes (VerifiedAuthenticationContext_canonical_value c) = Inr (xr_canonical_bytes xr)"
    "retained_request_bytes db' r (Some i) q = Inr rb"
    "decision_record_from_row (t_scopes db') z = Inr zr"
    "canonical_json_bytes (AuthorizationDecision_canonical_value a) = Inr (zr_canonical_bytes zr)"
    using persist_security_Inr [OF p] by blast
  obtain stored cd rd ad b nx nq ns nz where g: "stored_request r (Some i) = Inr stored"
    "grown xw_authentication_context_id (t_contexts db) (context_row c cd) nx"
    "grown qw_request_digest (t_requests db) (request_row c r rd at stored) nq"
    "grown fst (t_scopes db) (digest_bytes b, b) ns"
    "grown zw_authorization_decision_id (t_decisions db) (decision_row c r a ad (digest_bytes b)) nz"
    "canonical_json_bytes (jlist (map jtext (ad_effective_scopes a))) = Inr b"
    "db' = db\<lparr>t_contexts := nx, t_requests := nq, t_scopes := ns, t_decisions := nz\<rparr>"
    using insert_security_effect [OF f(1)] by blast
  have st: "snd stored = COMMAND_REQUEST_MARKER" "canonical_json_bytes (storage_object i) = Inr (fst stored)"
    using g(1) by (auto simp: stored_request_def res_simps storage_of_request)
  have new: "nq = t_requests db @ [request_row c r rd at stored] \<and>
      ar_request_digest r \<notin> qw_request_digest ` set (t_requests db)"
  proof (rule ccontr)
    assume n: "\<not> ?thesis"
    then have "nq = t_requests db" using g(3) by (auto simp: grown_def taken_iff request_row_def)
    then have q: "q \<in> set (t_requests db)" using find_key [OF f(3)] g(7) by simp
    then obtain rc where "request_record_from_row db q = Inr rc"
        "qw_storage_request_marker q = COMMAND_REQUEST_MARKER"
      using ok by (auto simp: requests_ok_def)
    from compact_request_has_command [OF this retained_compact [OF f(7) this(2)]]
    have "i \<in> cw_command_id ` set (t_commands db)"
      using find_key by (fastforce simp: backing_Inr dest: find_Some_iff_split)
    with i show False by simp
  qed
  have gx: "grows xw_authentication_context_id (\<lambda>x. \<exists>xr. authentication_record_from_row x = Inr xr) (t_contexts db) nx"
    using f(2,5) g(7) by (intro grown_grows [OF g(2)]) (auto simp: context_row_def)
  have gz: "grows zw_authorization_decision_id (\<lambda>z. (\<exists>zr. decision_record_from_row ns z = Inr zr) \<and> zw_allowed z \<in> {0, 1}) (t_decisions db) nz"
    using f(4,8) g(7) by (intro grown_grows [OF g(5)]) (auto simp: decision_row_def)
  have gs: "grows fst (\<lambda>s. \<exists>ts. scope_content_from_row s = Inr ts) (t_scopes db) ns"
    unfolding grows_def
    using grown_prefix [OF g(4)] grown_distinct [OF g(4)] grown_mem [OF g(4)] scope_content_accepted [OF g(6)] by blast
  note xs = find_key [OF f(2)] context_record_fields [OF f(5,6)]
  note zs = find_key [OF f(4)] decision_record_fields [OF f(8,9)]
  have "request_row c r rd at stored = request_row c r rd at (fst stored, COMMAND_REQUEST_MARKER)"
    using st(1) by (cases stored) simp
  then show ?thesis
    using gx gz gs xs zs st new g(7) by simp blast
qed


text \<open>Registered contracts.\<close>

definition schema_covered :: "EventStore \<Rightarrow> SchemaRow \<Rightarrow> bool" where
  "schema_covered st s = (\<exists>m c. PayloadMode_of (sr_payload_mode s) = Some m \<and>
     PayloadSchemaRegistry_resolve_exact (es_payload_schemas st) (sr_schema_version s) m
       (sr_contract_version s) (sr_contract_digest s) (sr_canonicalizer_implementation_version s) = Inr c)"

definition definition_covered :: "EventStore \<Rightarrow> DefinitionRow \<Rightarrow> bool" where
  "definition_covered st d = (\<exists>c. CommandRegistry_resolve_exact (es_command_registry st) (dr_command_type d)
     (dr_definition_version d) (dr_definition_digest d) = Inr c)"

lemma schema_resolved:
  assumes "PayloadSchemaRegistry_built p" and "PayloadSchemaRegistry_resolve_exact p v m w d k = Inr c"
  shows "ps_schema_version c = v" "ps_payload_mode c = m" "ps_contract_version c = w"
    "PayloadSchemaContract_contract_digest c = Inr d" "ps_canonicalizer_implementation_version c = k"
proof -
  have r: "PayloadSchemaRegistry_resolve p v m (Some w) = Inr c" "PayloadSchemaContract_contract_digest c = Inr d"
      "ps_canonicalizer_implementation_version c = k"
    using assms(2) by (auto simp: PayloadSchemaRegistry_resolve_exact_def res_simps)
  then show "PayloadSchemaContract_contract_digest c = Inr d" "ps_canonicalizer_implementation_version c = k" by simp_all
  show "ps_schema_version c = v" "ps_payload_mode c = m" "ps_contract_version c = w"
    using schema_registry.resolve_version [OF assms(1), of "(v, m)" w c] r(1) by auto
qed

lemma definition_resolved:
  assumes "CommandRegistry_built p" and "CommandRegistry_resolve_exact p t v d = Inr c"
  shows "cd_command_type c = t" "cd_definition_version c = v" "CommandDefinition_digest c = Inr d"
proof -
  have r: "CommandRegistry_resolve p t (Some v) = Inr c" "CommandDefinition_digest c = Inr d"
    using assms(2) by (auto simp: CommandRegistry_resolve_exact_def res_simps)
  then show "CommandDefinition_digest c = Inr d" by simp
  show "cd_command_type c = t" "cd_definition_version c = v"
    using command_registry.resolve_version [OF assms(1), of t v c] r(1) by auto
qed

lemma persist_schema_effect:
  assumes "persist_schema_contract st g at db = Inr db'" and "PayloadSchemaRegistry_built (es_payload_schemas st)"
  shows "\<exists>new. db' = db\<lparr>t_schemas := new\<rparr> \<and>
    grows sr_contract_digest (\<lambda>s. (\<exists>r. schema_record_from_row s = Inr r) \<and> schema_covered st s) (t_schemas db) new"
proof -
  let ?p = "g_payload g"
  obtain c b d where r: "PayloadSchemaRegistry_resolve_exact (es_payload_schemas st) (rp_schema_version ?p)
        (cd_payload_mode (g_definition g)) (rp_schema_contract_version ?p) (rp_schema_contract_digest ?p)
        (rp_canonicalizer_version ?p) = Inr c"
    and d: "PayloadSchemaContract_contract_digest c = Inr d"
    and i: "insert_schema \<lparr>sr_contract_digest = d, sr_schema_version = ps_schema_version c,
          sr_payload_mode = PayloadMode_value (ps_payload_mode c), sr_contract_version = ps_contract_version c,
          sr_canonicalizer_implementation_version = ps_canonicalizer_implementation_version c,
          sr_canonical_bytes = b, sr_registered_at = at\<rparr> db = Inr db'" (is "insert_schema ?r _ = _")
    and f: "\<exists>row rec. find (\<lambda>s. sr_contract_digest s = d) (t_schemas db') = Some row \<and>
        schema_record_from_row row = Inr rec"
    using assms(1) unfolding persist_schema_contract_def Let_def res_bind_Inr_iff require_Inr_iff
      res_of_option_Inr_iff by blast
  obtain new where n: "grown sr_contract_digest (t_schemas db) ?r new" "db' = db\<lparr>t_schemas := new\<rparr>"
    using insert_schema_grown [OF i] by blast
  have "schema_covered st ?r"
    using r schema_resolved [OF assms(2) r] d by (auto simp: schema_covered_def)
  then have "grows sr_contract_digest (\<lambda>s. (\<exists>r. schema_record_from_row s = Inr r) \<and> schema_covered st s) (t_schemas db) new"
    using f n(2) by (intro grown_grows [OF n(1)]) auto
  with n(2) show ?thesis by blast
qed

lemma persist_definition_effect:
  assumes "persist_definition st g at db = Inr db'" and "CommandRegistry_built (es_command_registry st)"
  shows "\<exists>new. db' = db\<lparr>t_definitions := new\<rparr> \<and>
    grows dr_definition_digest (\<lambda>d. (\<exists>r. definition_record_from_row d = Inr r) \<and> definition_covered st d)
      (t_definitions db) new"
proof -
  obtain w c b d where r: "CommandRegistry_resolve_exact (es_command_registry st) (cd_command_type (g_definition g))
       (cd_definition_version (g_definition g)) w = Inr c"
    and d: "CommandDefinition_digest c = Inr d"
    and i: "insert_definition \<lparr>dr_definition_digest = d, dr_command_type = cd_command_type c,
         dr_definition_version = cd_definition_version c,
         dr_payload_schema_contract_digest = cd_payload_schema_contract_digest c,
         dr_canonical_bytes = b, dr_registered_at = at\<rparr> db = Inr db'" (is "insert_definition ?r _ = _")
    and f: "\<exists>row rec. find (\<lambda>s. dr_definition_digest s = d) (t_definitions db') = Some row \<and>
        definition_record_from_row row = Inr rec"
    using assms(1) unfolding persist_definition_def res_bind_Inr_iff require_Inr_iff
      res_of_option_Inr_iff by blast
  obtain new where n: "grown dr_definition_digest (t_definitions db) ?r new" "db' = db\<lparr>t_definitions := new\<rparr>"
    using insert_definition_grown [OF i] by blast
  have "definition_covered st ?r"
    using r definition_resolved [OF assms(2) r] d by (auto simp: definition_covered_def)
  then have "grows dr_definition_digest (\<lambda>d. (\<exists>r. definition_record_from_row d = Inr r) \<and> definition_covered st d)
      (t_definitions db) new"
    using f n(2) by (intro grown_grows [OF n(1)]) auto
  with n(2) show ?thesis by blast
qed

end
