(* ===== verification/State_Machine.thy ===== *)
theory State_Machine
  imports Main
begin

text \<open>
  The interface between a step relation and the facts that hold of every reachable state. A component
  that is a state machine supplies its step relation and an invariant that every step keeps; it gets
  the invariant of all reachable states. \<open>ordered_machine\<close> adds a history-like quantity that no step
  moves backwards and gets that no run moves it backwards.
\<close>

locale state_machine =
  fixes step :: "'s \<Rightarrow> 's \<Rightarrow> bool" and invar :: "'s \<Rightarrow> bool"
  assumes step_keeps: "step s s' \<Longrightarrow> invar s \<Longrightarrow> invar s'"
begin

lemma run_keeps: "step\<^sup>*\<^sup>* s s' \<Longrightarrow> invar s \<Longrightarrow> invar s'"
  by (induction rule: rtranclp_induct) (auto intro: step_keeps)

end

locale ordered_machine = state_machine +
  fixes before :: "'a \<Rightarrow> 'a \<Rightarrow> bool"
  assumes before_refl: "before s s"
    and before_trans: "before s t \<Longrightarrow> before t u \<Longrightarrow> before s u"
    and step_advances: "step s s' \<Longrightarrow> invar s \<Longrightarrow> before s s'"
begin

lemma run_advances: "step\<^sup>*\<^sup>* s s' \<Longrightarrow> invar s \<Longrightarrow> before s s'"
proof (induction rule: rtranclp_induct)
  case (step t u)
  then have "invar t" using run_keeps by blast
  with step show ?case using before_trans step_advances by blast
qed (rule before_refl)

end

end
