(* ===== verification/Event_Store_Invariant.thy ===== *)
theory Event_Store_Invariant
  imports Event_Store_Facts State_Machine
begin

text \<open>
  The invariant of the event store and the step relation of its commits. A new command appends one row
  to each of the six tables of a command; \<open>store_ok\<close> says what every database built that way satisfies.
\<close>

section \<open>The writes of one command\<close>

definition same_aggregate :: "string \<Rightarrow> string \<Rightarrow> AggregateRow \<Rightarrow> bool" where
  "same_aggregate ty i g = (gw_aggregate_type g = ty \<and> gw_aggregate_id g = i)"

definition aggregates_written ::
  "AuthorizedCommandGrant \<Rightarrow> int option \<Rightarrow> int \<Rightarrow> string \<Rightarrow> AggregateRow list \<Rightarrow> AggregateRow list \<Rightarrow> bool" where
  "aggregates_written g current new_version at old new =
     (let ty = cd_aggregate_type (g_definition g); i = g_aggregate_id g in
      case current of
        None \<Rightarrow> new_version = 1 \<and> (\<forall>x \<in> set old. \<not> same_aggregate ty i x) \<and>
          new = old @ [\<lparr>gw_aggregate_type = ty, gw_aggregate_id = i, gw_current_version = new_version,
            gw_created_at = at, gw_updated_at = at\<rparr>]
      | Some v \<Rightarrow> (\<forall>x \<in> set old. same_aggregate ty i x \<longrightarrow> new_version = gw_current_version x + 1) \<and>
          new = map (\<lambda>x. if same_aggregate ty i x
            then x\<lparr>gw_current_version := new_version, gw_updated_at := at\<rparr> else x) old)"

lemma list_ex_mem: "list_ex P xs \<longleftrightarrow> (\<exists>x \<in> set xs. P x)"
  by (induction xs) auto

lemma write_aggregate_effect:
  assumes "write_aggregate g current nv at db = Inr db'"
  shows "\<exists>new. aggregates_written g current nv at (t_aggregates db) new \<and> db' = db\<lparr>t_aggregates := new\<rparr>"
proof (cases current)
  case None
  with assms show ?thesis
    by (auto simp: write_aggregate_def Let_def insert_aggregate_def aggregates_written_def res_simps
        taken_def list_ex_mem same_aggregate_def)
next
  case (Some v)
  with assms show ?thesis
    by (auto simp: write_aggregate_def Let_def update_aggregate_def aggregates_written_def res_simps
        same_aggregate_def list_all_iff)
qed

lemma write_command_effect:
  assumes "write_command g current nv at p c v a e db = Inr db'"
  shows "\<exists>aggs.
    db' = db\<lparr>t_payloads := t_payloads db @ [p], t_commands := t_commands db @ [c], t_aggregates := aggs,
      t_versions := t_versions db @ [v], t_audits := t_audits db @ [a], t_events := t_events db @ [Live e]\<rparr> \<and>
    aggregates_written g current nv at (t_aggregates db) aggs \<and>
    pw_payload_id p \<notin> pw_payload_id ` set (t_payloads db) \<and>
    (pw_mode p = ''INLINE'' \<and> pw_payload_bytes p \<notin> {None, Some []} \<or>
     pw_mode p = ''NO_PAYLOAD'' \<and> pw_payload_bytes p = Some []) \<and> pw_object_admission_id p = None \<and>
    cw_command_id c \<notin> cw_command_id ` set (t_commands db) \<and>
    (cw_idempotency_namespace c, cw_idempotency_key c) \<notin>
      (\<lambda>c. (cw_idempotency_namespace c, cw_idempotency_key c)) ` set (t_commands db) \<and>
    row_event_id (Live e) \<notin> row_event_id ` set (t_events db) \<and>
    row_command_id (Live e) \<notin> row_command_id ` set (t_events db) \<and>
    (\<exists>p' \<in> set (t_payloads db @ [p]). pw_payload_id p' = ev_payload_id e \<and> payload_envelope e p') \<and>
    (\<exists>c' \<in> set (t_commands db @ [c]). cw_command_id c' = ev_command_id e \<and> command_envelope e c' \<and> command_security e c')"
proof -
  obtain d1 d2 d3 d4 d5 where w: "insert_payload p db = Inr d1" "insert_command c d1 = Inr d2"
    "write_aggregate g current nv at d2 = Inr d3" "insert_version v d3 = Inr d4" "insert_audit a d4 = Inr d5"
    "insert_event e d5 = Inr db'"
    using assms unfolding write_command_def res_bind_Inr_iff by blast
  obtain aggs where ag: "aggregates_written g current nv at (t_aggregates d2) aggs" "d3 = d2\<lparr>t_aggregates := aggs\<rparr>"
    using write_aggregate_effect [OF w(3)] by blast
  have 1: "d1 = db\<lparr>t_payloads := t_payloads db @ [p]\<rparr>" "pw_payload_id p \<notin> pw_payload_id ` set (t_payloads db)"
      "pw_mode p = ''INLINE'' \<and> pw_payload_bytes p \<notin> {None, Some []} \<or>
       pw_mode p = ''NO_PAYLOAD'' \<and> pw_payload_bytes p = Some []" "pw_object_admission_id p = None"
    using w(1) unfolding insert_payload_def require_Inr_iff taken_iff by auto
  have 2: "d2 = d1\<lparr>t_commands := t_commands d1 @ [c]\<rparr>" "cw_command_id c \<notin> cw_command_id ` set (t_commands d1)"
      "(cw_idempotency_namespace c, cw_idempotency_key c) \<notin>
        (\<lambda>c. (cw_idempotency_namespace c, cw_idempotency_key c)) ` set (t_commands d1)"
    using w(2) unfolding insert_command_def require_Inr_iff taken_iff by auto
  have 4: "d4 = d3\<lparr>t_versions := t_versions d3 @ [v]\<rparr>" "d5 = d4\<lparr>t_audits := t_audits d4 @ [a]\<rparr>"
    using w(4,5) unfolding insert_version_def insert_audit_def require_Inr_iff by auto
  have 6: "db' = d5\<lparr>t_events := t_events d5 @ [Live e]\<rparr>"
      "row_event_id (Live e) \<notin> row_event_id ` set (t_events d5)"
      "row_command_id (Live e) \<notin> row_command_id ` set (t_events d5)"
      "\<exists>p' \<in> set (t_payloads d5). pw_payload_id p' = ev_payload_id e \<and> payload_envelope e p'"
      "\<exists>c' \<in> set (t_commands d5). cw_command_id c' = ev_command_id e \<and> command_envelope e c' \<and> command_security e c'"
    using w(6) unfolding insert_event_def require_Inr_iff taken_iff list_ex_mem by auto
  show ?thesis
    using 1 2 4 6 ag by (intro exI [of _ aggs]) simp
qed

section \<open>The whole of a new command\<close>

lemma verify_bindings:
  assumes "verify i g = Inr ()"
  shows "ar_authentication_context_id (g_authorization_request g) = vc_authentication_context_id (g_authentication g)"
    "ar_principal_id (g_authorization_request g) = vc_principal_id (g_authentication g)"
    "ar_authority_domain (g_authorization_request g) = vc_authority_domain (g_authentication g)"
    "ad_authentication_context_id (g_authorization g) = vc_authentication_context_id (g_authentication g)"
    "ad_authorization_request_digest (g_authorization g) = ar_request_digest (g_authorization_request g)"
    "ad_allowed (g_authorization g)" "validate_resolved_payload (g_payload g) (g_definition g) = Inr ()"
    "0 \<le> g_expected_aggregate_version g"
proof -
  have "verify_provenance g = Inr ()"
    and v: "validate_resolved_payload (g_payload g) (g_definition g) = Inr ()" "\<not> g_expected_aggregate_version g < 0"
    using assms unfolding verify_def res_bind_Inr_iff require_Inr_iff by auto
  from this(1) show "ar_authentication_context_id (g_authorization_request g) = vc_authentication_context_id (g_authentication g)"
    "ar_principal_id (g_authorization_request g) = vc_principal_id (g_authentication g)"
    "ar_authority_domain (g_authorization_request g) = vc_authority_domain (g_authentication g)"
    "ad_authentication_context_id (g_authorization g) = vc_authentication_context_id (g_authentication g)"
    "ad_authorization_request_digest (g_authorization g) = ar_request_digest (g_authorization_request g)"
    "ad_allowed (g_authorization g)"
    unfolding verify_provenance_def Let_def res_bind_Inr_iff require_Inr_iff by auto
  show "validate_resolved_payload (g_payload g) (g_definition g) = Inr ()" "0 \<le> g_expected_aggregate_version g"
    using v by simp_all
qed


text \<open>The five rows that a command adds, one to each table but that of the aggregate heads.\<close>

record CommandUnit =
  u_payload :: PayloadRow
  u_command :: CommandRow
  u_version :: VersionRow
  u_audit :: AuditRow
  u_event :: LedgerEventRecord

definition unit_result :: "bool \<Rightarrow> CommandUnit \<Rightarrow> CommittedCommand" where
  "unit_result replayed h = \<lparr>cmt_command_id = cw_command_id (u_command h),
     cmt_aggregate_type = cw_aggregate_type (u_command h), cmt_aggregate_id = cw_aggregate_id (u_command h),
     cmt_aggregate_version = ev_aggregate_version (u_event h), cmt_ledger_seq = ev_ledger_seq (u_event h),
     cmt_event_id = ev_event_id (u_event h), cmt_result_digest = cw_result_digest (u_command h),
     cmt_replayed = replayed\<rparr>"

definition unit_target :: "CommandUnit \<Rightarrow> string \<times> string" where
  "unit_target h = (cw_aggregate_type (u_command h), cw_aggregate_id (u_command h))"

definition unit_key :: "CommandUnit \<Rightarrow> string \<times> string" where
  "unit_key h = (cw_idempotency_namespace (u_command h), cw_idempotency_key (u_command h))"

text \<open>The rows of one unit describe the same command.\<close>

definition unit_coherent :: "CommandUnit \<Rightarrow> bool" where
  "unit_coherent h = (let p = u_payload h; c = u_command h; v = u_version h; e = u_event h in
     ev_command_id e = cw_command_id c \<and> vw_command_id v = cw_command_id c \<and>
     aw_command_id (u_audit h) = cw_command_id c \<and> cw_payload_id c = pw_payload_id p \<and>
     ev_payload_id e = pw_payload_id p \<and>
     command_envelope e c \<and> command_security e c \<and> payload_envelope e p \<and> pw_object_admission_id p = None \<and>
     (ev_aggregate_type e, ev_aggregate_id e) = unit_target h \<and>
     (vw_aggregate_type v, vw_aggregate_id v) = unit_target h \<and>
     vw_aggregate_version v = ev_aggregate_version e \<and>
     ev_aggregate_version e = cw_expected_aggregate_version c + 1 \<and>
     cw_result_bytes c = result_marker (cw_command_id c))"

definition version_count :: "string \<times> string \<Rightarrow> CommandUnit list \<Rightarrow> nat" where
  "version_count k hs = length (filter (\<lambda>h. unit_target h = k) hs)"

definition caused_by :: "CommandUnit list \<Rightarrow> LedgerEventRecord \<Rightarrow> bool" where
  "caused_by hs e =
     ((ev_causation_kind e = Some ''COMMAND'' \<longrightarrow>
         ev_causation_identifier e \<in> (\<lambda>h. Some (cw_command_id (u_command h))) ` set hs) \<and>
      (ev_causation_kind e = Some ''EVENT'' \<longrightarrow>
         ev_causation_identifier e \<in> (\<lambda>h. Some (ev_event_id (u_event h))) ` set hs))"

text \<open>A unit continues the history: the next ledger sequence, the next version of its aggregate, a cause
  that is already recorded, and identities that are new.\<close>

definition unit_next :: "CommandUnit list \<Rightarrow> CommandUnit \<Rightarrow> bool" where
  "unit_next hs h = (ev_ledger_seq (u_event h) = int (length hs) + 1 \<and>
     ev_aggregate_version (u_event h) = int (version_count (unit_target h) hs) + 1 \<and>
     caused_by hs (u_event h) \<and>
     pw_payload_id (u_payload h) \<notin> (\<lambda>h. pw_payload_id (u_payload h)) ` set hs \<and>
     cw_command_id (u_command h) \<notin> (\<lambda>h. cw_command_id (u_command h)) ` set hs \<and>
     ev_event_id (u_event h) \<notin> (\<lambda>h. ev_event_id (u_event h)) ` set hs \<and>
     unit_key h \<notin> unit_key ` set hs)"

inductive log_ok :: "CommandUnit list \<Rightarrow> bool" where
  log_empty: "log_ok []"
| log_append: "\<lbrakk>log_ok hs; unit_coherent h; unit_next hs h\<rbrakk> \<Longrightarrow> log_ok (hs @ [h])"

text \<open>What the database retains for a unit.\<close>

definition unit_retained :: "authority_db \<Rightarrow> CommandUnit \<Rightarrow> bool" where
  "unit_retained db h = (validate_payload_record db (u_payload h) = Inr () \<and>
     decode_result db (cw_result_bytes (u_command h)) (cw_result_digest (u_command h)) False
       (Some (cw_command_id (u_command h))) = Inr (unit_result False h) \<and>
     (let e = u_event h in
        \<exists>x \<in> set (t_contexts db). \<exists>q \<in> set (t_requests db). \<exists>z \<in> set (t_decisions db). \<exists>d \<in> set (t_definitions db).
          xw_authentication_context_id x = ev_authentication_context_id e \<and>
          qw_request_digest q = ev_authorization_request_digest e \<and>
          zw_authorization_decision_id z = ev_authorization_decision_id e \<and>
          dr_definition_digest d = ev_command_definition_digest e \<and> security_exact e x q z d))"

definition history_of :: "authority_db \<Rightarrow> CommandUnit list \<Rightarrow> bool" where
  "history_of db hs = (t_payloads db = map u_payload hs \<and> t_commands db = map u_command hs \<and>
     t_versions db = map u_version hs \<and> t_audits db = map u_audit hs \<and>
     t_events db = map (\<lambda>h. Live (u_event h)) hs)"

text \<open>The heads count the versions of their aggregates.\<close>

definition head_key :: "AggregateRow \<Rightarrow> string \<times> string" where
  "head_key g = (gw_aggregate_type g, gw_aggregate_id g)"

definition heads_ok :: "CommandUnit list \<Rightarrow> AggregateRow list \<Rightarrow> bool" where
  "heads_ok hs gs = (distinct (map head_key gs) \<and> head_key ` set gs = unit_target ` set hs \<and>
     (\<forall>g \<in> set gs. gw_current_version g = int (version_count (head_key g) hs)))"

definition contracts_ok :: "EventStore \<Rightarrow> authority_db \<Rightarrow> bool" where
  "contracts_ok st db = (
     distinct (map sr_contract_digest (t_schemas db)) \<and>
     (\<forall>s \<in> set (t_schemas db). (\<exists>r. schema_record_from_row s = Inr r) \<and> schema_covered st s) \<and>
     distinct (map dr_definition_digest (t_definitions db)) \<and>
     (\<forall>d \<in> set (t_definitions db). (\<exists>r. definition_record_from_row d = Inr r) \<and> definition_covered st d))"

definition security_ok :: "authority_db \<Rightarrow> bool" where
  "security_ok db = (
     distinct (map xw_authentication_context_id (t_contexts db)) \<and>
     (\<forall>x \<in> set (t_contexts db). \<exists>r. authentication_record_from_row x = Inr r) \<and>
     distinct (map fst (t_scopes db)) \<and> (\<forall>s \<in> set (t_scopes db). \<exists>ts. scope_content_from_row s = Inr ts) \<and>
     distinct (map zw_authorization_decision_id (t_decisions db)) \<and>
     (\<forall>z \<in> set (t_decisions db). (\<exists>r. decision_record_from_row (t_scopes db) z = Inr r) \<and> zw_allowed z \<in> {0, 1}))"

definition tables_ok :: "EventStore \<Rightarrow> authority_db \<Rightarrow> bool" where
  "tables_ok st db = (contracts_ok st db \<and> security_ok db \<and>
     distinct (map qw_request_digest (t_requests db)) \<and> requests_ok db)"

definition store_ok :: "EventStore \<Rightarrow> authority_db \<Rightarrow> bool" where
  "store_ok st db = (tables_ok st db \<and> (\<exists>hs. history_of db hs \<and> log_ok hs \<and> heads_ok hs (t_aggregates db) \<and>
     (\<forall>h \<in> set hs. unit_retained db h)))"

section \<open>Results\<close>

lemma decode_result_flag:
  assumes "decode_result db s d f i = Inr out"
  shows "decode_result db s d f' i = Inr (out\<lparr>cmt_replayed := f'\<rparr>)"
proof -
  from assms show ?thesis
    unfolding decode_result_def res_bind_Inr_iff [of "command_result_bytes _ _ _ _"]
      require_Inr_iff res_bind_Inr_iff by auto
qed

lemma text_value_jstr [simp]: "text_value (jstr s) = Inr s"
proof -
  have "map (char_of \<circ> (of_char :: char \<Rightarrow> nat)) s = s" by (rule map_idI) simp
  then show ?thesis by (auto simp: text_value_def jstr_def cps_of_def list_all_iff)
qed

lemma int_value_JInt [simp]: "int_value (JInt n) = Inr n"
  by (simp add: int_value_def)

lemma result_value_wf: "wf_pyval (result_value r)"
  by (auto simp: result_value_def obj_wf split: option.split)

lemma result_jget:
  "jget ''command_id'' (view (result_value r)) = Some (jstr (res_command_id r))"
  "jget ''aggregate_type'' (view (result_value r)) = Some (jstr (res_aggregate_type r))"
  "jget ''aggregate_id'' (view (result_value r)) = Some (jstr (res_aggregate_id r))"
  "jget ''aggregate_version'' (view (result_value r)) =
     Some (case res_aggregate_version r of None \<Rightarrow> JNull | Some n \<Rightarrow> JInt n)"
  "jget ''ledger_seq'' (view (result_value r)) = Some (JInt (res_ledger_seq r))"
  "jget ''event_id'' (view (result_value r)) = Some (jstr (res_event_id r))"
  unfolding result_value_def by (subst jget_obj; auto split: option.split)+

lemma field_Inr: "jget k j = Some v \<Longrightarrow> field k j = Inr v"
  by (simp add: field_def)

lemma decode_result_outcome:
  assumes "decode_result db (result_marker i) d f (Some i) = Inr out"
  shows "\<exists>e n. find (\<lambda>e. cps_of (row_command_id e) = cps_of i) (t_events db) = Some e \<and>
    res_aggregate_version (event_result_fields e) = Some n \<and>
    out = \<lparr>cmt_command_id = res_command_id (event_result_fields e),
      cmt_aggregate_type = res_aggregate_type (event_result_fields e),
      cmt_aggregate_id = res_aggregate_id (event_result_fields e), cmt_aggregate_version = n,
      cmt_ledger_seq = res_ledger_seq (event_result_fields e),
      cmt_event_id = res_event_id (event_result_fields e), cmt_result_digest = d, cmt_replayed = f\<rparr>"
proof -
  obtain b where b: "command_result_bytes db (result_marker i) d (Some i) = Inr b"
    using assms unfolding decode_result_def res_bind_Inr_iff by blast
  have "has_result_prefix (result_marker i)" by (simp add: has_result_prefix_def result_marker_def)
  then obtain c e where e: "find (\<lambda>e. cps_of (row_command_id e) = cps_of i) (t_events db) = Some e"
      and r: "restore_command_result c (result_marker i) (event_result_fields e) = Inr b"
    using b unfolding command_result_bytes_def by (auto simp: res_simps)
  let ?r = "event_result_fields e"
  have cb: "canonical_json_bytes (result_value ?r) = Inr b"
    using r unfolding restore_command_result_def event_result_bytes_def by (auto simp: res_simps)
  note v = decode_canonical_view [OF result_value_wf cb]
  note j = result_jget [of ?r, THEN field_Inr]
  show ?thesis
  proof (cases "res_aggregate_version ?r")
    case None
    then show ?thesis
      using assms unfolding decode_result_def b v res_bind_simps require_Inr_iff j by (simp add: int_value_def)
  next
    case (Some n)
    then show ?thesis
      using assms e unfolding decode_result_def b v res_bind_simps require_Inr_iff j by simp
  qed
qed

section \<open>What the phases of a commit keep\<close>

lemma contracts_grow:
  assumes "contracts_ok st db"
    and "grows sr_contract_digest (\<lambda>s. (\<exists>r. schema_record_from_row s = Inr r) \<and> schema_covered st s)
      (t_schemas db) (t_schemas db')"
    and "grows dr_definition_digest (\<lambda>d. (\<exists>r. definition_record_from_row d = Inr r) \<and> definition_covered st d)
      (t_definitions db) (t_definitions db')"
  shows "contracts_ok st db'"
  using assms unfolding contracts_ok_def grows_def by blast

lemma security_okD:
  assumes "security_ok db"
  shows "x \<in> set (t_contexts db) \<Longrightarrow> \<exists>r. authentication_record_from_row x = Inr r"
    "s \<in> set (t_scopes db) \<Longrightarrow> \<exists>ts. scope_content_from_row s = Inr ts"
    "z \<in> set (t_decisions db) \<Longrightarrow> \<exists>r. decision_record_from_row (t_scopes db) z = Inr r"
    "z \<in> set (t_decisions db) \<Longrightarrow> zw_allowed z \<in> {0, 1}"
  using assms unfolding security_ok_def by simp_all

lemma security_grow:
  assumes "security_ok db"
    and "grows xw_authentication_context_id (\<lambda>x. \<exists>xr. authentication_record_from_row x = Inr xr)
      (t_contexts db) (t_contexts db')"
    and "grows fst (\<lambda>s. \<exists>ts. scope_content_from_row s = Inr ts) (t_scopes db) (t_scopes db')"
    and "grows zw_authorization_decision_id
      (\<lambda>z. (\<exists>zr. decision_record_from_row (t_scopes db') z = Inr zr) \<and> zw_allowed z \<in> {0, 1})
      (t_decisions db) (t_decisions db')"
  shows "security_ok db'"
proof -
  have "prefix (t_scopes db) (t_scopes db')" using assms(3) by (simp add: grows_def)
  note keeps = decision_record_extends [OF this]
  have "(\<exists>r. decision_record_from_row (t_scopes db') z = Inr r) \<and> zw_allowed z \<in> {0, 1}"
    if "z \<in> set (t_decisions db')" for z
    using growsD(3) [OF assms(4) that] security_okD(3,4) [OF assms(1), of z] keeps [of z] by blast
  moreover have "\<exists>r. authentication_record_from_row x = Inr r" if "x \<in> set (t_contexts db')" for x
    using growsD(3) [OF assms(2) that] security_okD(1) [OF assms(1), of x] by blast
  moreover have "\<exists>ts. scope_content_from_row s = Inr ts" if "s \<in> set (t_scopes db')" for s
    using growsD(3) [OF assms(3) that] security_okD(2) [OF assms(1), of s] by blast
  ultimately show ?thesis
    using assms(1) growsD(2) [OF assms(2)] growsD(2) [OF assms(3)] growsD(2) [OF assms(4)]
    unfolding security_ok_def by simp
qed

lemma persist_effect:
  assumes p: "persist_schema_contract st g at db = Inr db1" "persist_definition st g at db1 = Inr db2"
      "persist_security_records (g_authentication g) (g_authorization_request g) (g_authorization g) at (Some i) db2
         = Inr db3"
    and built: "PayloadSchemaRegistry_built (es_payload_schemas st)" "CommandRegistry_built (es_command_registry st)"
    and ok: "tables_ok st db" and i: "i \<notin> cw_command_id ` set (t_commands db)"
  shows "\<exists>nc nd nx q ns nz x z rd resid.
    db3 = db\<lparr>t_schemas := nc, t_definitions := nd, t_contexts := nx, t_requests := t_requests db @ [q],
      t_scopes := ns, t_decisions := nz\<rparr> \<and>
    extends db db3 \<and> contracts_ok st db3 \<and> security_ok db3 \<and>
    q = request_row (g_authentication g) (g_authorization_request g) rd at (resid, COMMAND_REQUEST_MARKER) \<and>
    canonical_json_bytes (storage_object i) = Inr resid \<and>
    qw_request_digest q \<notin> qw_request_digest ` set (t_requests db) \<and>
    x \<in> set nx \<and> xw_authentication_context_id x = vc_authentication_context_id (g_authentication g) \<and>
    xw_principal_id x = vc_principal_id (g_authentication g) \<and>
    xw_authority_domain x = vc_authority_domain (g_authentication g) \<and>
    z \<in> set nz \<and> zw_authorization_decision_id z = ad_authorization_decision_id (g_authorization g) \<and>
    zw_authentication_context_id z = ad_authentication_context_id (g_authorization g) \<and>
    zw_authorization_request_digest z = ad_authorization_request_digest (g_authorization g) \<and>
    (zw_allowed z \<noteq> 0 \<longleftrightarrow> ad_allowed (g_authorization g))"
proof -
  obtain nc where c: "db1 = db\<lparr>t_schemas := nc\<rparr>"
      "grows sr_contract_digest (\<lambda>s. (\<exists>r. schema_record_from_row s = Inr r) \<and> schema_covered st s) (t_schemas db) nc"
    using persist_schema_effect [OF p(1) built(1)] by blast
  obtain nd where d: "db2 = db1\<lparr>t_definitions := nd\<rparr>"
      "grows dr_definition_digest (\<lambda>d. (\<exists>r. definition_record_from_row d = Inr r) \<and> definition_covered st d)
        (t_definitions db1) nd"
    using persist_definition_effect [OF p(2) built(2)] by blast
  have x: "extends db db2" using c d by (simp add: extends_def grows_def)
  have "t_requests db2 = t_requests db" using c(1) d(1) by simp
  then have r2: "requests_ok db2"
    using ok request_record_extends [OF x] unfolding tables_ok_def requests_ok_def by metis
  have i2: "i \<notin> cw_command_id ` set (t_commands db2)" using i c(1) d(1) by simp
  obtain nx q ns nz x z rd resid where
    s: "db3 = db2\<lparr>t_contexts := nx, t_requests := t_requests db2 @ [q], t_scopes := ns, t_decisions := nz\<rparr>"
    "q = request_row (g_authentication g) (g_authorization_request g) rd at (resid, COMMAND_REQUEST_MARKER)"
    "canonical_json_bytes (storage_object i) = Inr resid"
    "ar_request_digest (g_authorization_request g) \<notin> qw_request_digest ` set (t_requests db2)" and
    gr: "grows xw_authentication_context_id (\<lambda>x. \<exists>xr. authentication_record_from_row x = Inr xr) (t_contexts db2) nx"
    "grows fst (\<lambda>s. \<exists>ts. scope_content_from_row s = Inr ts) (t_scopes db2) ns"
    "grows zw_authorization_decision_id
      (\<lambda>z. (\<exists>zr. decision_record_from_row ns z = Inr zr) \<and> zw_allowed z \<in> {0, 1}) (t_decisions db2) nz" and
    rows: "x \<in> set nx" "xw_authentication_context_id x = vc_authentication_context_id (g_authentication g)"
    "xw_principal_id x = vc_principal_id (g_authentication g)"
    "xw_authority_domain x = vc_authority_domain (g_authentication g)"
    "z \<in> set nz" "zw_authorization_decision_id z = ad_authorization_decision_id (g_authorization g)"
    "zw_authentication_context_id z = ad_authentication_context_id (g_authorization g)"
    "zw_authorization_request_digest z = ad_authorization_request_digest (g_authorization g)"
    "zw_allowed z \<noteq> 0 \<longleftrightarrow> ad_allowed (g_authorization g)"
    using persist_security_effect [OF p(3) r2 i2] by blast
  have t: "t_schemas db3 = nc" "t_definitions db3 = nd" "t_contexts db3 = nx" "t_scopes db3 = ns" "t_decisions db3 = nz"
      "t_definitions db1 = t_definitions db" "t_contexts db2 = t_contexts db" "t_scopes db2 = t_scopes db"
      "t_decisions db2 = t_decisions db"
    using c(1) d(1) s(1) by simp_all
  have "contracts_ok st db" "security_ok db" using ok by (simp_all add: tables_ok_def)
  then have "contracts_ok st db3"
    using contracts_grow [of st db db3] c(2) d(2) unfolding t by blast
  moreover have "security_ok db3"
    using security_grow [of db db3] gr \<open>security_ok db\<close> unfolding t by blast
  moreover have "extends db2 db3"
    using s(1) growsD(1) [OF gr(1)] growsD(1) [OF gr(2)] growsD(1) [OF gr(3)] by (simp add: extends_def)
  from extends_trans [OF x this] have "extends db db3" .
  moreover have "db3 = db\<lparr>t_schemas := nc, t_definitions := nd, t_contexts := nx,
      t_requests := t_requests db @ [q], t_scopes := ns, t_decisions := nz\<rparr>"
    using c(1) d(1) s(1) by simp
  moreover have "qw_request_digest q \<notin> qw_request_digest ` set (t_requests db)"
    using s(2,4) c(1) d(1) by (simp add: request_row_def)
  ultimately show ?thesis
    using s(2,3) rows
    by (intro exI [of _ nc] exI [of _ nd] exI [of _ nx] exI [of _ q] exI [of _ ns] exI [of _ nz]
      exI [of _ x] exI [of _ z] exI [of _ rd] exI [of _ resid] conjI)
qed

section \<open>A new command\<close>

definition grant_unit ::
  "EventStore \<Rightarrow> AuthorizedCommandGrant \<Rightarrow> FreshIds \<Rightarrow> string \<Rightarrow> int \<Rightarrow> int \<Rightarrow> string \<Rightarrow> string \<Rightarrow> string \<Rightarrow> CommandUnit" where
  "grant_unit st g ids at nv seq dd rd detail = \<lparr>u_payload = payload_row g (fid_payload ids) None at,
     u_command = command_row st g ids dd rd (result_marker (fid_command ids)) at,
     u_version = version_row g ids nv at, u_audit = audit_row g ids detail at,
     u_event = event_row st g ids dd None nv seq at\<rparr>"

lemma append_command_Inr:
  assumes "append_command st g ids at None (current, nv) db = Inr (out, db')"
  shows "\<exists>dd rd detail q r dec h. h = grant_unit st g ids at nv (next_ledger_seq db) dd rd detail \<and>
    CommandDefinition_digest (g_definition g) = Inr dd \<and>
    write_command g current nv at (u_payload h) (u_command h) (u_version h) (u_audit h) (u_event h) db = Inr db' \<and>
    find (\<lambda>q. qw_request_digest q = ar_request_digest (g_authorization_request g)) (t_requests db') = Some q \<and>
    request_record_from_row db' q = Inr r \<and>
    decode_result db' (result_marker (fid_command ids)) rd False (Some (fid_command ids)) = Inr dec \<and>
    out = committed g ids nv (next_ledger_seq db) rd False"
proof -
  obtain b stored dd detail q r dec where a:
    "compact_command_result (fid_command ids, cd_aggregate_type (g_definition g), g_aggregate_id g)
        (digest_bytes b) b (result_fields g ids nv (next_ledger_seq db)) = Inr stored"
    "write_command g current nv at (payload_row g (fid_payload ids) None at)
        (command_row st g ids dd (digest_bytes b) stored at) (version_row g ids nv at) (audit_row g ids detail at)
        (event_row st g ids dd None nv (next_ledger_seq db) at) db = Inr db'"
    "find (\<lambda>q. qw_request_digest q = ar_request_digest (g_authorization_request g)) (t_requests db') = Some q"
    "request_record_from_row db' q = Inr r"
    "decode_result db' stored (digest_bytes b) False (Some (fid_command ids)) = Inr dec"
    "out = committed g ids nv (next_ledger_seq db) (digest_bytes b) False"
    "CommandDefinition_digest (g_definition g) = Inr dd"
    using assms unfolding append_command_def Let_def prod.case res_bind_Inr_iff res_of_option_Inr_iff
    by (auto simp: result_fields_def)
  have "stored = result_marker (fid_command ids)"
    using a(1) by (auto simp: compact_command_result_def res_simps)
  then show ?thesis
    using a(2-) by (intro exI [of _ dd] exI [of _ "digest_bytes b"] exI [of _ detail] exI [of _ q] exI [of _ r]
        exI [of _ dec] exI [of _ "grant_unit st g ids at nv (next_ledger_seq db) dd (digest_bytes b) detail"])
      (simp add: grant_unit_def)
qed

lemma grant_unit_fields [simp]:
  "cw_command_id (u_command (grant_unit st g ids at nv seq dd rd detail)) = fid_command ids"
  "ev_command_id (u_event (grant_unit st g ids at nv seq dd rd detail)) = fid_command ids"
  "ev_event_id (u_event (grant_unit st g ids at nv seq dd rd detail)) = fid_event ids"
  "pw_payload_id (u_payload (grant_unit st g ids at nv seq dd rd detail)) = fid_payload ids"
  "ev_ledger_seq (u_event (grant_unit st g ids at nv seq dd rd detail)) = seq"
  "ev_aggregate_version (u_event (grant_unit st g ids at nv seq dd rd detail)) = nv"
  "cw_result_bytes (u_command (grant_unit st g ids at nv seq dd rd detail)) = result_marker (fid_command ids)"
  "cw_result_digest (u_command (grant_unit st g ids at nv seq dd rd detail)) = rd"
  "cw_expected_aggregate_version (u_command (grant_unit st g ids at nv seq dd rd detail)) = g_expected_aggregate_version g"
  "cw_stable_semantic_request_digest (u_command (grant_unit st g ids at nv seq dd rd detail)) =
     g_stable_semantic_request_digest g"
  "cw_command_definition_digest (u_command (grant_unit st g ids at nv seq dd rd detail)) = dd"
  "cw_command_definition_version (u_command (grant_unit st g ids at nv seq dd rd detail)) =
     cd_definition_version (g_definition g)"
  "unit_target (grant_unit st g ids at nv seq dd rd detail) = (cd_aggregate_type (g_definition g), g_aggregate_id g)"
  "unit_key (grant_unit st g ids at nv seq dd rd detail) = (g_idempotency_namespace g, g_idempotency_key g)"
  "unit_result f (grant_unit st g ids at nv seq dd rd detail) = committed g ids nv seq rd f"
  by (simp_all add: grant_unit_def command_row_def event_row_def payload_row_def Let_def unit_target_def unit_key_def
      unit_result_def committed_def)

lemma grant_unit_coherent:
  assumes "nv = g_expected_aggregate_version g + 1"
  shows "unit_coherent (grant_unit st g ids at nv seq dd rd detail)"
  using assms
  by (simp add: unit_coherent_def grant_unit_def command_row_def event_row_def payload_row_def version_row_def
      audit_row_def Let_def unit_target_def command_envelope_def command_security_def payload_envelope_def)

lemma find_last:
  assumes "find (\<lambda>y. f y = k) (xs @ [z]) = Some w" and "k \<notin> f ` set xs"
  shows "w = z"
proof -
  have "find (\<lambda>y. f y = k) xs = None" using assms(2) by (auto simp: find_None_all)
  with assms(1) show ?thesis by (auto simp: find_append split: if_splits)
qed

text \<open>The rows that the stored request of a new command names are the rows of that command.\<close>

lemma new_request_backing:
  assumes h: "h = grant_unit st g ids at nv seq dd rd detail"
    and t: "t_commands db = cs @ [u_command h]" "t_events db = es @ [Live (u_event h)]"
    and fresh: "fid_command ids \<notin> cw_command_id ` set cs" "fid_command ids \<notin> row_command_id ` set es"
    and rec: "request_record_from_row db q = Inr r" "qw_storage_request_marker q = COMMAND_REQUEST_MARKER"
      "canonical_json_bytes (storage_object (fid_command ids)) = Inr (qw_storage_request_residual q)"
  shows "\<exists>d s. d \<in> set (t_definitions db) \<and> dr_definition_digest d = ev_command_definition_digest (u_event h) \<and>
    dr_payload_schema_contract_digest d = ev_payload_schema_contract_digest (u_event h) \<and>
    find (\<lambda>s. sr_contract_digest s = pw_schema_contract_digest (u_payload h)) (t_schemas db) = Some s \<and>
    sr_schema_version s = pw_schema_version (u_payload h) \<and> sr_payload_mode s = pw_mode (u_payload h) \<and>
    sr_contract_version s = pw_schema_contract_version (u_payload h) \<and>
    sr_canonicalizer_implementation_version s = pw_canonicalizer_implementation_version (u_payload h)"
proof -
  let ?i = "fid_command ids"
  obtain c e d s derived where b: "command_request_backing db (cps_of ?i) = Inr (c, e, d, s)"
      "derived_request_fields q c e d s = Inr derived"
    using compact_request_has_command [OF rec] by blast
  then have f: "find (\<lambda>c. cps_of (cw_command_id c) = cps_of ?i) (t_commands db) = Some c"
      "find (\<lambda>e. row_command_id e = cw_command_id c) (t_events db) = Some e"
      "find (\<lambda>d. dr_definition_digest d = cw_command_definition_digest c) (t_definitions db) = Some d"
      "find (\<lambda>s. sr_contract_digest s = dr_payload_schema_contract_digest d) (t_schemas db) = Some s"
    by (auto simp: backing_Inr)
  have c: "c = u_command h"
    using find_last [of "cw_command_id" ?i cs "u_command h" c] f(1) fresh(1) t(1) by auto
  have ci: "cw_command_id c = ?i" using c h by simp
  have e: "e = Live (u_event h)"
    using find_last [of row_command_id ?i es "Live (u_event h)" e] f(2) fresh(2) unfolding t(2) ci by auto
  have ev: "ev_command_definition_digest (u_event h) = cw_command_definition_digest c"
      "ev_payload_schema_contract_digest (u_event h) = pw_schema_contract_digest (u_payload h)"
      "ev_payload_schema_version (u_event h) = pw_schema_version (u_payload h)"
      "ev_payload_mode (u_event h) = pw_mode (u_payload h)"
      "ev_payload_schema_contract_version (u_event h) = pw_schema_contract_version (u_payload h)"
      "ev_payload_canonicalizer_version (u_event h) = pw_canonicalizer_implementation_version (u_payload h)"
    unfolding c h by (simp_all add: grant_unit_def event_row_def payload_row_def command_row_def Let_def)
  show ?thesis
    using derived_request_fields_Inr [OF b(2)] find_key [OF f(3)] f(4) unfolding e by (auto simp: ev)
qed

lemma new_payload_valid:
  assumes h: "h = grant_unit st g ids at nv seq dd rd detail"
    and p: "pw_mode (u_payload h) = ''INLINE'' \<and> pw_payload_bytes (u_payload h) \<notin> {None, Some []} \<or>
      pw_mode (u_payload h) = ''NO_PAYLOAD'' \<and> pw_payload_bytes (u_payload h) = Some []"
    and m: "retained_payload mode (g_payload g) = Inr adm" "PayloadMode_of (rp_kind (g_payload g)) = Some mode"
    and v: "validate_resolved_payload (g_payload g) (g_definition g) = Inr ()"
    and i: "UUIDv4Id_parse (fid_payload ids) = Inr pid"
    and s: "find (\<lambda>s. sr_contract_digest s = pw_schema_contract_digest (u_payload h)) (t_schemas db) = Some s"
      "sr_schema_version s = pw_schema_version (u_payload h)" "sr_payload_mode s = pw_mode (u_payload h)"
      "sr_contract_version s = pw_schema_contract_version (u_payload h)"
      "sr_canonicalizer_implementation_version s = pw_canonicalizer_implementation_version (u_payload h)"
  shows "validate_payload_record db (u_payload h) = Inr ()"
proof -
  have f: "pw_mode (u_payload h) = rp_kind (g_payload g)" "pw_payload_bytes (u_payload h) = rp_inline_bytes (g_payload g)"
      "pw_payload_digest (u_payload h) = rp_digest (g_payload g)" "pw_payload_id (u_payload h) = fid_payload ids"
    unfolding h by (simp_all add: grant_unit_def payload_row_def Let_def)
  have mv: "PayloadMode_value mode = pw_mode (u_payload h)"
    using m(2) unfolding f by (auto simp: PayloadMode_of_def split: if_splits)
  have mo: "mode = INLINE \<and> rp_inline_bytes (g_payload g) \<noteq> Some [] \<or>
      mode = NO_PAYLOAD \<and> rp_inline_bytes (g_payload g) = Some []"
    using p mv f(2) by (cases mode) auto
  then obtain b where b: "rp_inline_bytes (g_payload g) = Some b" "digest_bytes b = rp_digest (g_payload g)"
    using m(1) by (auto simp: retained_payload_def res_simps)
  have d: "\<exists>n. validate_sha256_digest (rp_digest (g_payload g)) = Inr n"
    using v unfolding validate_resolved_payload_def res_bind_Inr_iff by blast
  show ?thesis
    using s m(2) mo b d i mv unfolding validate_payload_record_def f s(1) by (auto simp: res_simps f)
qed

lemma new_result_valid:
  assumes h: "h = grant_unit st g ids at nv seq dd rd detail"
    and t: "t_events db = es @ [Live (u_event h)]" and fresh: "fid_command ids \<notin> row_command_id ` set es"
    and dec: "decode_result db (result_marker (fid_command ids)) rd False (Some (fid_command ids)) = Inr out"
  shows "out = unit_result False h"
proof -
  obtain e n where e: "find (\<lambda>e. cps_of (row_command_id e) = cps_of (fid_command ids)) (t_events db) = Some e"
    and o: "res_aggregate_version (event_result_fields e) = Some n"
      "out = \<lparr>cmt_command_id = res_command_id (event_result_fields e),
      cmt_aggregate_type = res_aggregate_type (event_result_fields e),
      cmt_aggregate_id = res_aggregate_id (event_result_fields e), cmt_aggregate_version = n,
      cmt_ledger_seq = res_ledger_seq (event_result_fields e),
      cmt_event_id = res_event_id (event_result_fields e), cmt_result_digest = rd, cmt_replayed = False\<rparr>"
    using decode_result_outcome [OF dec] by blast
  have "e = Live (u_event h)"
    using find_last [of row_command_id "fid_command ids" es "Live (u_event h)" e] e fresh unfolding t by auto
  with o show ?thesis
    unfolding h by (simp add: grant_unit_def event_row_def unit_result_def command_row_def Let_def)
qed

text \<open>Hypotheses of the store: its registries are built, and the fresh payload identifier, the only one
  that the checks of the relations read, is a UUIDv4 text. \<open>ids_typed\<close> of \<open>Event_Store_Types\<close> says this of
  all four fresh identifiers.\<close>

definition store_built :: "EventStore \<Rightarrow> bool" where
  "store_built st = (PayloadSchemaRegistry_built (es_payload_schemas st) \<and> CommandRegistry_built (es_command_registry st))"

definition fresh_uuid :: "FreshIds \<Rightarrow> bool" where
  "fresh_uuid ids = (\<exists>i. UUIDv4Id_parse (fid_payload ids) = Inr i)"

lemma commit_new_phases:
  assumes "commit_new st g ids at db = Inr (out, db')"
  shows "\<exists>mode db1 db2 db3 current nv. g_replay_of_command_id g = None \<and>
    PayloadMode_of (rp_kind (g_payload g)) = Some mode \<and>
    persist_schema_contract st g at db = Inr db1 \<and> persist_definition st g at db1 = Inr db2 \<and>
    persist_security_records (g_authentication g) (g_authorization_request g) (g_authorization g) at
      (Some (fid_command ids)) db2 = Inr db3 \<and>
    validate_causation db3 g = Inr () \<and> resolve_version db3 g = Inr (current, nv) \<and>
    retained_payload mode (g_payload g) = Inr None \<and>
    append_command st g ids at None (current, nv) db3 = Inr (out, db')"
proof -
  obtain mode db1 db2 db3 version adm where a: "g_replay_of_command_id g = None"
    "PayloadMode_of (rp_kind (g_payload g)) = Some mode"
    "persist_schema_contract st g at db = Inr db1" "persist_definition st g at db1 = Inr db2"
    "persist_security_records (g_authentication g) (g_authorization_request g) (g_authorization g) at
      (Some (fid_command ids)) db2 = Inr db3"
    "validate_causation db3 g = Inr ()" "resolve_version db3 g = Inr version"
    "retained_payload mode (g_payload g) = Inr adm" "append_command st g ids at adm version db3 = Inr (out, db')"
    using assms unfolding commit_new_def res_bind_Inr_iff require_Inr_iff res_of_option_Inr_iff by auto
  have "adm = None" using a(8) by (auto simp: retained_payload_def res_simps split: if_splits)
  with a show ?thesis by (cases version) blast
qed

definition appended :: "authority_db \<Rightarrow> CommandUnit \<Rightarrow> authority_db \<Rightarrow> bool" where
  "appended db h db' = (extends db db' \<and> t_payloads db' = t_payloads db @ [u_payload h] \<and>
     t_commands db' = t_commands db @ [u_command h] \<and> t_versions db' = t_versions db @ [u_version h] \<and>
     t_audits db' = t_audits db @ [u_audit h] \<and> t_events db' = t_events db @ [Live (u_event h)])"

definition identities_new :: "authority_db \<Rightarrow> CommandUnit \<Rightarrow> bool" where
  "identities_new db h = (pw_payload_id (u_payload h) \<notin> pw_payload_id ` set (t_payloads db) \<and>
     cw_command_id (u_command h) \<notin> cw_command_id ` set (t_commands db) \<and>
     unit_key h \<notin> (\<lambda>c. (cw_idempotency_namespace c, cw_idempotency_key c)) ` set (t_commands db) \<and>
     ev_event_id (u_event h) \<notin> row_event_id ` set (t_events db))"

lemma persist_keeps_commands:
  assumes p: "persist_schema_contract st g at db = Inr db1" "persist_definition st g at db1 = Inr db2"
      "persist_security_records (g_authentication g) (g_authorization_request g) (g_authorization g) at (Some i) db2
         = Inr db3"
    and built: "PayloadSchemaRegistry_built (es_payload_schemas st)" "CommandRegistry_built (es_command_registry st)"
  shows "t_commands db3 = t_commands db"
proof -
  have "t_commands db1 = t_commands db" using persist_schema_effect [OF p(1) built(1)] by auto
  moreover have "t_commands db2 = t_commands db1" using persist_definition_effect [OF p(2) built(2)] by auto
  moreover have "insert_security_records (g_authentication g) (g_authorization_request g) (g_authorization g) at
      (Some i) db2 = Inr db3"
    using persist_security_Inr [OF p(3)] by blast
  then have "t_commands db3 = t_commands db2" using insert_security_effect by fastforce
  ultimately show ?thesis by simp
qed

lemma requests_kept:
  assumes "extends db db'" and "tables_ok st db" and "q \<in> set (t_requests db)"
  shows "qw_storage_request_marker q = COMMAND_REQUEST_MARKER \<and> (\<exists>r. request_record_from_row db' q = Inr r)"
  using assms request_record_extends [OF assms(1)] unfolding tables_ok_def requests_ok_def by blast

lemma commit_new_effect:
  assumes c: "commit_new st g ids at db = Inr (out, db')" and v: "verify i g = Inr ()"
    and st: "store_built st" and ok: "tables_ok st db" and uuid: "fresh_uuid ids"
  shows "\<exists>dd rd detail current nv h. h = grant_unit st g ids at nv (next_ledger_seq db) dd rd detail \<and>
    CommandDefinition_digest (g_definition g) = Inr dd \<and>
    g_replay_of_command_id g = None \<and> validate_causation db g = Inr () \<and> resolve_version db g = Inr (current, nv) \<and>
    appended db h db' \<and> identities_new db h \<and>
    aggregates_written g current nv at (t_aggregates db) (t_aggregates db') \<and>
    tables_ok st db' \<and> unit_retained db' h \<and> out = unit_result False h"
proof -
  let ?i = "fid_command ids"
  have built: "PayloadSchemaRegistry_built (es_payload_schemas st)" "CommandRegistry_built (es_command_registry st)"
    using st by (simp_all add: store_built_def)
  obtain mode db1 db2 db3 current nv where p: "g_replay_of_command_id g = None"
    "PayloadMode_of (rp_kind (g_payload g)) = Some mode"
    "persist_schema_contract st g at db = Inr db1" "persist_definition st g at db1 = Inr db2"
    "persist_security_records (g_authentication g) (g_authorization_request g) (g_authorization g) at
      (Some ?i) db2 = Inr db3"
    "validate_causation db3 g = Inr ()" "resolve_version db3 g = Inr (current, nv)"
    "retained_payload mode (g_payload g) = Inr None"
    "append_command st g ids at None (current, nv) db3 = Inr (out, db')"
    using commit_new_phases [OF c] by blast
  obtain dd rd detail q r dec h where a: "h = grant_unit st g ids at nv (next_ledger_seq db3) dd rd detail"
    "write_command g current nv at (u_payload h) (u_command h) (u_version h) (u_audit h) (u_event h) db3 = Inr db'"
    "find (\<lambda>q. qw_request_digest q = ar_request_digest (g_authorization_request g)) (t_requests db') = Some q"
    "request_record_from_row db' q = Inr r"
    "decode_result db' (result_marker ?i) rd False (Some ?i) = Inr dec"
    "out = committed g ids nv (next_ledger_seq db3) rd False" "CommandDefinition_digest (g_definition g) = Inr dd"
    using append_command_Inr [OF p(9)] by blast
  obtain aggs where w: "db' = db3\<lparr>t_payloads := t_payloads db3 @ [u_payload h],
      t_commands := t_commands db3 @ [u_command h], t_aggregates := aggs,
      t_versions := t_versions db3 @ [u_version h], t_audits := t_audits db3 @ [u_audit h],
      t_events := t_events db3 @ [Live (u_event h)]\<rparr>"
    "aggregates_written g current nv at (t_aggregates db3) aggs"
    and fresh: "pw_payload_id (u_payload h) \<notin> pw_payload_id ` set (t_payloads db3)"
    "cw_command_id (u_command h) \<notin> cw_command_id ` set (t_commands db3)"
    "(cw_idempotency_namespace (u_command h), cw_idempotency_key (u_command h)) \<notin>
      (\<lambda>c. (cw_idempotency_namespace c, cw_idempotency_key c)) ` set (t_commands db3)"
    "row_event_id (Live (u_event h)) \<notin> row_event_id ` set (t_events db3)"
    "row_command_id (Live (u_event h)) \<notin> row_command_id ` set (t_events db3)"
    and shape: "pw_mode (u_payload h) = ''INLINE'' \<and> pw_payload_bytes (u_payload h) \<notin> {None, Some []} \<or>
       pw_mode (u_payload h) = ''NO_PAYLOAD'' \<and> pw_payload_bytes (u_payload h) = Some []"
    using write_command_effect [OF a(2)] by blast
  have i: "?i \<notin> cw_command_id ` set (t_commands db)"
    using fresh(2) persist_keeps_commands [OF p(3,4,5) built] a(1) by simp
  obtain nc nd nx q' ns nz x z rdig resid where s: "db3 = db\<lparr>t_schemas := nc, t_definitions := nd, t_contexts := nx,
      t_requests := t_requests db @ [q'], t_scopes := ns, t_decisions := nz\<rparr>"
    "extends db db3" "contracts_ok st db3" "security_ok db3"
    "q' = request_row (g_authentication g) (g_authorization_request g) rdig at (resid, COMMAND_REQUEST_MARKER)"
    "canonical_json_bytes (storage_object ?i) = Inr resid"
    "qw_request_digest q' \<notin> qw_request_digest ` set (t_requests db)"
    and x: "x \<in> set nx" "xw_authentication_context_id x = vc_authentication_context_id (g_authentication g)"
    "xw_principal_id x = vc_principal_id (g_authentication g)"
    "xw_authority_domain x = vc_authority_domain (g_authentication g)"
    and z: "z \<in> set nz" "zw_authorization_decision_id z = ad_authorization_decision_id (g_authorization g)"
    "zw_authentication_context_id z = ad_authentication_context_id (g_authorization g)"
    "zw_authorization_request_digest z = ad_authorization_request_digest (g_authorization g)"
    "zw_allowed z \<noteq> 0 \<longleftrightarrow> ad_allowed (g_authorization g)"
    using persist_effect [OF p(3,4,5) built ok i] by blast
  have t: "t_payloads db3 = t_payloads db" "t_commands db3 = t_commands db" "t_versions db3 = t_versions db"
      "t_audits db3 = t_audits db" "t_events db3 = t_events db" "t_aggregates db3 = t_aggregates db"
    unfolding s(1) by simp_all
  have u: "t_contexts db' = nx" "t_requests db' = t_requests db @ [q']" "t_decisions db' = nz" "t_scopes db' = ns"
      "t_schemas db' = nc" "t_definitions db' = nd"
    unfolding w(1) s(1) by simp_all
  have ap: "appended db h db'"
    using s(2) unfolding appended_def extends_def w(1) by (simp add: t)
  have seq: "next_ledger_seq db3 = next_ledger_seq db" by (simp add: next_ledger_seq_def t)
  have q: "q = q'"
    using find_last [OF a(3) [unfolded u(2)]] s(5,7) by (simp add: request_row_def)
  have qf: "qw_storage_request_marker q = COMMAND_REQUEST_MARKER" "qw_storage_request_residual q = resid"
    unfolding q s(5) by (simp_all add: request_row_def)
  have allowed: "zw_allowed z = 1"
    using security_okD(4) [OF s(4), of z] z(1,5) verify_bindings(6) [OF v] unfolding s(1) by simp
  have ce: "t_commands db' = t_commands db @ [u_command h]" "t_events db' = t_events db @ [Live (u_event h)]"
    using ap by (simp_all add: appended_def)
  have fr: "?i \<notin> row_command_id ` set (t_events db)" using fresh(5) t a(1) by simp
  obtain d sc where d: "d \<in> set (t_definitions db')" "dr_definition_digest d = ev_command_definition_digest (u_event h)"
    "dr_payload_schema_contract_digest d = ev_payload_schema_contract_digest (u_event h)"
    and sc: "find (\<lambda>s. sr_contract_digest s = pw_schema_contract_digest (u_payload h)) (t_schemas db') = Some sc"
     "sr_schema_version sc = pw_schema_version (u_payload h)" "sr_payload_mode sc = pw_mode (u_payload h)"
     "sr_contract_version sc = pw_schema_contract_version (u_payload h)"
     "sr_canonicalizer_implementation_version sc = pw_canonicalizer_implementation_version (u_payload h)"
    using new_request_backing [OF a(1) ce i fr a(4) qf(1)] s(6) unfolding qf(2) by blast
  obtain pid where pid: "UUIDv4Id_parse (fid_payload ids) = Inr pid" using uuid by (auto simp: fresh_uuid_def)
  have pay: "validate_payload_record db' (u_payload h) = Inr ()"
    by (rule new_payload_valid [OF a(1) shape p(8,2) verify_bindings(7) [OF v] pid sc])
  have dec: "dec = unit_result False h" by (rule new_result_valid [OF a(1) ce(2) fr a(5)])
  have ev: "ev_principal_id (u_event h) = vc_principal_id (g_authentication g)"
      "ev_authentication_context_id (u_event h) = vc_authentication_context_id (g_authentication g)"
      "ev_authorization_request_digest (u_event h) = ar_request_digest (g_authorization_request g)"
      "ev_authorization_decision_id (u_event h) = ad_authorization_decision_id (g_authorization g)"
    unfolding a(1) by (simp_all add: grant_unit_def event_row_def Let_def)
  have sec: "security_exact (u_event h) x q z d"
    using x(2-) z(2-) d(3) allowed verify_bindings [OF v] unfolding security_exact_def ev q s(5)
    by (simp add: request_row_def)
  have ret: "unit_retained db' h"
    using pay a(5) sec x(1,2) z(1,2) d(1,2) q s(5)
    unfolding unit_retained_def Let_def u(1-3) ev dec by (auto simp: a(1) request_row_def)
  have "requests_ok db'"
    unfolding requests_ok_def u(2) using requests_kept [OF _ ok] ap a(4) q qf(1) by (auto simp: appended_def)
  then have "tables_ok st db'"
    using ok s(3,4,7) unfolding tables_ok_def contracts_ok_def security_ok_def u(1,3-6)
    by (simp add: u(2) s(1))
  moreover have "resolve_version db g = Inr (current, nv)" "validate_causation db g = Inr ()"
    using p(7,6) unfolding resolve_version_def aggregate_head_def validate_causation_def t .
  moreover have "identities_new db h" using fresh unfolding identities_new_def t by (simp add: unit_key_def)
  moreover have "aggregates_written g current nv at (t_aggregates db) (t_aggregates db')"
    using w t(6) by simp
  moreover have "out = unit_result False h" using a(1,6) by simp
  ultimately show ?thesis
    using a(1,7) p(1) ap ret unfolding seq
    by (intro exI [of _ dd] exI [of _ rd] exI [of _ detail] exI [of _ current] exI [of _ nv] exI [of _ h] conjI)
qed

section \<open>The history\<close>

lemma log_unit:
  "log_ok hs \<Longrightarrow> k < length hs \<Longrightarrow> unit_coherent (hs ! k) \<and> unit_next (take k hs) (hs ! k)"
proof (induction rule: log_ok.induct)
  case (log_append hs h)
  then show ?case by (cases "k < length hs") (auto simp: nth_append less_Suc_eq)
qed simp

lemma log_coherent: "log_ok hs \<Longrightarrow> h \<in> set hs \<Longrightarrow> unit_coherent h"
  using log_unit by (metis in_set_conv_nth)

lemma log_seqs: "log_ok hs \<Longrightarrow> map (\<lambda>h. ev_ledger_seq (u_event h)) hs = map int [1..<length hs + 1]"
  by (induction rule: log_ok.induct) (simp_all add: unit_next_def)

lemma log_distinct:
  "log_ok hs \<Longrightarrow> distinct (map (\<lambda>h. pw_payload_id (u_payload h)) hs) \<and>
     distinct (map (\<lambda>h. cw_command_id (u_command h)) hs) \<and> distinct (map (\<lambda>h. ev_event_id (u_event h)) hs) \<and>
     distinct (map unit_key hs)"
  by (induction rule: log_ok.induct) (auto simp: unit_next_def)

lemma version_count_append [simp]:
  "version_count k (hs @ [h]) = version_count k hs + (if unit_target h = k then 1 else 0)"
  by (simp add: version_count_def)

lemma version_count_pos: "0 < version_count k hs \<longleftrightarrow> k \<in> unit_target ` set hs"
  by (auto simp: version_count_def filter_empty_conv)

lemma foldr_max: "0 \<le> a \<Longrightarrow> foldr max (map int [1..<n + 1]) a = max a (int n)"
  by (induction n arbitrary: a) auto

lemma history_seq:
  assumes "history_of db hs" and "log_ok hs"
  shows "next_ledger_seq db = int (length hs) + 1"
proof -
  have "map row_seq (t_events db) = map int [1..<length hs + 1]"
    using log_seqs [OF assms(2)] assms(1) by (simp add: history_of_def comp_def)
  then show ?thesis unfolding next_ledger_seq_def by (simp only: foldr_max)
qed

lemma head_of_aggregate:
  assumes "heads_ok hs (t_aggregates db)"
  shows "aggregate_head db ty i =
    (if (ty, i) \<in> unit_target ` set hs then Some (int (version_count (ty, i) hs)) else None)"
proof -
  have d: "head_key ` set (t_aggregates db) = unit_target ` set hs"
      "\<forall>g \<in> set (t_aggregates db). gw_current_version g = int (version_count (head_key g) hs)"
    using assms by (simp_all add: heads_ok_def)
  show ?thesis
  proof (cases "find (\<lambda>g. gw_aggregate_type g = ty \<and> gw_aggregate_id g = i) (t_aggregates db)")
    case None
    then have "(ty, i) \<notin> head_key ` set (t_aggregates db)"
      unfolding find_None_all by (auto simp: head_key_def)
    with None d(1) show ?thesis by (simp add: aggregate_head_def)
  next
    case (Some g)
    then have "g \<in> set (t_aggregates db)" "head_key g = (ty, i)"
      using find_Some_iff_split [OF Some] by (auto simp: head_key_def)
    with Some d show ?thesis unfolding aggregate_head_def by force
  qed
qed

lemma resolved_version:
  assumes "heads_ok hs (t_aggregates db)" and "resolve_version db g = Inr (current, nv)"
  shows "nv = g_expected_aggregate_version g + 1"
    "g_expected_aggregate_version g = int (version_count (cd_aggregate_type (g_definition g), g_aggregate_id g) hs)"
    "current = None \<longleftrightarrow> (cd_aggregate_type (g_definition g), g_aggregate_id g) \<notin> unit_target ` set hs"
proof -
  let ?k = "(cd_aggregate_type (g_definition g), g_aggregate_id g)"
  have "version_count ?k hs = 0" if "?k \<notin> unit_target ` set hs"
    using that version_count_pos [of ?k hs] by auto
  then show "nv = g_expected_aggregate_version g + 1"
    "g_expected_aggregate_version g = int (version_count ?k hs)"
    "current = None \<longleftrightarrow> ?k \<notin> unit_target ` set hs"
    using assms(2) unfolding resolve_version_def head_of_aggregate [OF assms(1)]
    by (auto simp: res_simps split: if_splits)
qed

lemma heads_written:
  assumes "heads_ok hs old" and "aggregates_written g current nv at old new"
    and "unit_target h = (cd_aggregate_type (g_definition g), g_aggregate_id g)"
    and "current = None \<longleftrightarrow> unit_target h \<notin> unit_target ` set hs"
  shows "heads_ok (hs @ [h]) new"
proof -
  let ?k = "unit_target h"
  have same: "same_aggregate (cd_aggregate_type (g_definition g)) (g_aggregate_id g) x \<longleftrightarrow> head_key x = ?k" for x
    by (simp add: same_aggregate_def head_key_def assms(3))
  have old: "distinct (map head_key old)" "head_key ` set old = unit_target ` set hs"
      "\<forall>x \<in> set old. gw_current_version x = int (version_count (head_key x) hs)"
    using assms(1) by (simp_all add: heads_ok_def)
  show ?thesis
  proof (cases current)
    case None
    then have n: "nv = 1" "new = old @ [\<lparr>gw_aggregate_type = fst ?k, gw_aggregate_id = snd ?k,
        gw_current_version = 1, gw_created_at = at, gw_updated_at = at\<rparr>]"
      using assms(2) by (auto simp: aggregates_written_def Let_def assms(3))
    have "?k \<notin> unit_target ` set hs" using assms(4) None by simp
    moreover from this have "version_count ?k hs = 0" using version_count_pos [of ?k hs] by auto
    ultimately show ?thesis
      using old unfolding heads_ok_def n by (auto simp: head_key_def)
  next
    case (Some v)
    let ?f = "\<lambda>x. if head_key x = ?k then x\<lparr>gw_current_version := nv, gw_updated_at := at\<rparr> else x"
    have n: "\<forall>x \<in> set old. head_key x = ?k \<longrightarrow> nv = gw_current_version x + 1" "new = map ?f old"
      using assms(2) Some by (auto simp: aggregates_written_def Let_def same)
    have k: "head_key (?f x) = head_key x" for x by (simp add: head_key_def)
    then have m: "map head_key new = map head_key old" by (simp add: n(2))
    have "?k \<in> unit_target ` set hs" using assms(4) Some by simp
    then have "head_key ` set new = unit_target ` set (hs @ [h])"
      using old(2) arg_cong [OF m, of set] by auto
    moreover have "\<forall>y \<in> set new. gw_current_version y = int (version_count (head_key y) (hs @ [h]))"
      using old(3) n(1) unfolding n(2) by (auto simp: head_key_def)
    ultimately show ?thesis using old(1) m by (simp add: heads_ok_def)
  qed
qed

section \<open>A new command keeps the invariant\<close>

lemma prefix_mem: "prefix xs ys \<Longrightarrow> x \<in> set xs \<Longrightarrow> x \<in> set ys"
  by (auto simp: prefix_def)

lemma unit_retained_extends:
  assumes "extends db db'" and "unit_retained db h"
  shows "unit_retained db' h"
proof -
  note m = extendsD(2-4,6) [OF assms(1), THEN prefix_mem]
  show ?thesis
    using assms(2) payload_record_extends [OF assms(1)] decode_result_extends [OF assms(1)] m
    unfolding unit_retained_def Let_def by blast
qed

lemma causation_recorded:
  assumes "validate_causation db g = Inr ()" and "history_of db hs"
    and "ev_causation_kind e = g_causation_kind g" "ev_causation_identifier e = g_causation_identifier g"
  shows "caused_by hs e"
proof -
  have t: "t_commands db = map u_command hs" "t_events db = map (\<lambda>h. Live (u_event h)) hs"
    using assms(2) by (simp_all add: history_of_def)
  have "g_causation_identifier g \<in> (\<lambda>h. Some (cw_command_id (u_command h))) ` set hs"
    if "g_causation_kind g = Some ''COMMAND''"
  proof -
    have "list_ex (\<lambda>c. Some (cw_command_id c) = g_causation_identifier g) (t_commands db)"
      using assms(1) that unfolding validate_causation_def by (auto simp: res_simps split: if_splits)
    then show ?thesis unfolding t list_ex_mem by force
  qed
  moreover have "g_causation_identifier g \<in> (\<lambda>h. Some (ev_event_id (u_event h))) ` set hs"
    if k: "g_causation_kind g = Some ''EVENT''"
  proof -
    obtain r where "find (\<lambda>e. Some (row_event_id e) = g_causation_identifier g) (t_events db) = Some r"
      using assms(1) k unfolding validate_causation_def by (auto split: option.splits)
    from find_Some_iff_split [OF this] show ?thesis unfolding t by force
  qed
  ultimately show ?thesis by (simp add: caused_by_def assms(3,4))
qed

lemma history_appended: "history_of db hs \<Longrightarrow> appended db h db' \<Longrightarrow> history_of db' (hs @ [h])"
  by (simp add: history_of_def appended_def)

lemma identities_unit_next:
  assumes "identities_new db h" and "history_of db hs"
  shows "pw_payload_id (u_payload h) \<notin> (\<lambda>h. pw_payload_id (u_payload h)) ` set hs"
    "cw_command_id (u_command h) \<notin> (\<lambda>h. cw_command_id (u_command h)) ` set hs"
    "ev_event_id (u_event h) \<notin> (\<lambda>h. ev_event_id (u_event h)) ` set hs"
    "unit_key h \<notin> unit_key ` set hs"
  using assms by (auto simp: identities_new_def history_of_def unit_key_def image_image)

definition store_inv :: "EventStore \<Rightarrow> authority_db \<Rightarrow> CommandUnit list \<Rightarrow> bool" where
  "store_inv st db hs = (tables_ok st db \<and> history_of db hs \<and> log_ok hs \<and> heads_ok hs (t_aggregates db) \<and>
     (\<forall>h \<in> set hs. unit_retained db h))"

lemma store_ok_iff: "store_ok st db \<longleftrightarrow> (\<exists>hs. store_inv st db hs)"
  unfolding store_ok_def store_inv_def by blast

lemma commit_new_extends_history:
  assumes c: "commit_new st g ids at db = Inr (out, db')" and v: "verify i g = Inr ()"
    and st: "store_built st" and inv: "store_inv st db hs" and uuid: "fresh_uuid ids"
  shows "\<exists>dd rd detail h. h = grant_unit st g ids at (g_expected_aggregate_version g + 1) (int (length hs) + 1)
        dd rd detail \<and>
    CommandDefinition_digest (g_definition g) = Inr dd \<and>
    g_expected_aggregate_version g = int (version_count (unit_target h) hs) \<and>
    store_inv st db' (hs @ [h]) \<and> extends db db' \<and> out = unit_result False h"
proof -
  have ok: "tables_ok st db" and hi: "history_of db hs" and log: "log_ok hs" and hd: "heads_ok hs (t_aggregates db)"
    and ret: "\<forall>h \<in> set hs. unit_retained db h"
    using inv by (simp_all add: store_inv_def)
  obtain dd rd detail current nv h where h: "h = grant_unit st g ids at nv (next_ledger_seq db) dd rd detail"
    "validate_causation db g = Inr ()" "resolve_version db g = Inr (current, nv)"
    "appended db h db'" "identities_new db h"
    "aggregates_written g current nv at (t_aggregates db) (t_aggregates db')"
    "tables_ok st db'" "unit_retained db' h" "out = unit_result False h"
    "CommandDefinition_digest (g_definition g) = Inr dd"
    using commit_new_effect [OF c v st ok uuid] by blast
  note nv = resolved_version [OF hd h(3)]
  have t: "unit_target h = (cd_aggregate_type (g_definition g), g_aggregate_id g)" unfolding h(1) by simp
  have x: "extends db db'" using h(4) by (simp add: appended_def)
  have ev: "ev_causation_kind (u_event h) = g_causation_kind g"
      "ev_causation_identifier (u_event h) = g_causation_identifier g"
    unfolding h(1) by (simp_all add: grant_unit_def event_row_def Let_def)
  have "unit_next hs h"
    using identities_unit_next [OF h(5) hi] causation_recorded [OF h(2) hi ev] history_seq [OF hi log] nv(1,2)
    unfolding unit_next_def t by (simp add: h(1))
  moreover have "unit_coherent h" unfolding h(1) by (rule grant_unit_coherent [OF nv(1)])
  ultimately have "log_ok (hs @ [h])" using log by (intro log_append)
  moreover have "heads_ok (hs @ [h]) (t_aggregates db')"
    using heads_written [OF hd h(6) t] nv(3) unfolding t by simp
  moreover have "\<forall>u \<in> set (hs @ [h]). unit_retained db' u"
    using ret unit_retained_extends [OF x] h(8) by simp
  ultimately have "store_inv st db' (hs @ [h])"
    using history_appended [OF hi h(4)] h(7) by (simp add: store_inv_def)
  then show ?thesis
    using h(1,9,10) nv(1,2) x history_seq [OF hi log] unfolding t
    by (intro exI [of _ dd] exI [of _ rd] exI [of _ detail] exI [of _ h]) (simp add: t)
qed

end
