(* ===== verification/Event_Store_Steps.thy ===== *)
theory Event_Store_Steps
  imports Event_Store_Invariant
begin

text \<open>
  The step relation of commits by any callers with any grants, as an \<open>ordered_machine\<close>: every commit
  keeps \<open>store_valid\<close> and only extends the database. A store that satisfies the invariant and whose
  events have typed values passes the checks of an opened database.
\<close>

section \<open>What the history says of the rows\<close>

lemma log_head_version:
  "log_ok hs \<Longrightarrow> k \<in> unit_target ` set hs \<Longrightarrow>
     \<exists>h \<in> set hs. unit_target h = k \<and> ev_aggregate_version (u_event h) = int (version_count k hs)"
proof (induction rule: log_ok.induct)
  case (log_append hs h)
  show ?case
  proof (cases "unit_target h = k")
    case True
    then show ?thesis using log_append(3) by (intro bexI [of _ h]) (auto simp: unit_next_def)
  next
    case False
    then show ?thesis using log_append by auto
  qed
qed simp

lemma store_invD:
  assumes "store_inv st db hs"
  shows "tables_ok st db" "history_of db hs" "log_ok hs" "heads_ok hs (t_aggregates db)"
    "h \<in> set hs \<Longrightarrow> unit_retained db h" "h \<in> set hs \<Longrightarrow> unit_coherent h"
  using assms log_coherent by (auto simp: store_inv_def)

lemma inv_heads_exact:
  assumes "store_inv st db hs"
  shows "heads_exact db"
  unfolding heads_exact_def list_all_iff list_ex_mem
proof
  fix g assume g: "g \<in> set (t_aggregates db)"
  note i = store_invD [OF assms]
  have "head_key g \<in> unit_target ` set hs" "gw_current_version g = int (version_count (head_key g) hs)"
    using i(4) g unfolding heads_ok_def by blast+
  then obtain h where h: "h \<in> set hs" "unit_target h = head_key g"
      "ev_aggregate_version (u_event h) = gw_current_version g"
    using log_head_version [OF i(3), of "head_key g"] by auto
  have "u_version h \<in> set (t_versions db)" using i(2) h(1) by (simp add: history_of_def)
  then show "\<exists>v \<in> set (t_versions db). vw_aggregate_type v = gw_aggregate_type g \<and>
      vw_aggregate_id v = gw_aggregate_id g \<and> vw_aggregate_version v = gw_current_version g"
    using i(6) [OF h(1)] h(2,3) by (intro bexI) (auto simp: unit_coherent_def Let_def head_key_def)
qed

lemma count_of_one:
  assumes "distinct (map f rows)" and "x \<in> set rows"
  shows "count_of f (f x) rows = 1"
  using assms
proof (induction rows)
  case (Cons y rows)
  have none: "count_of f v rows = 0" if "v \<notin> f ` set rows" for v
    using that by (auto simp: count_of_def filter_empty_conv)
  show ?case
  proof (cases "x \<in> set rows")
    case True
    then have "f y \<noteq> f x" using Cons.prems(1) by auto
    then show ?thesis using Cons True by (simp add: count_of_def)
  next
    case False
    then have "x = y" using Cons.prems(2) by simp
    then show ?thesis using none [of "f y"] Cons.prems(1) by (simp add: count_of_def)
  qed
qed simp

lemma inv_command_ids:
  assumes "store_inv st db hs"
  shows "map vw_command_id (t_versions db) = map cw_command_id (t_commands db)"
    "map aw_command_id (t_audits db) = map cw_command_id (t_commands db)"
    "map row_command_id (t_events db) = map cw_command_id (t_commands db)"
    "distinct (map cw_command_id (t_commands db))"
    "distinct (map pw_payload_id (t_payloads db))"
    "distinct (map row_event_id (t_events db))"
    "distinct (map (\<lambda>c. (cw_idempotency_namespace c, cw_idempotency_key c)) (t_commands db))"
proof -
  note i = store_invD [OF assms]
  have c: "\<And>h. h \<in> set hs \<Longrightarrow> vw_command_id (u_version h) = cw_command_id (u_command h) \<and>
      aw_command_id (u_audit h) = cw_command_id (u_command h) \<and> ev_command_id (u_event h) = cw_command_id (u_command h)"
    using i(6) by (auto simp: unit_coherent_def Let_def)
  show "map vw_command_id (t_versions db) = map cw_command_id (t_commands db)"
    "map aw_command_id (t_audits db) = map cw_command_id (t_commands db)"
    "map row_command_id (t_events db) = map cw_command_id (t_commands db)"
    using c i(2) by (simp_all add: history_of_def)
  show "distinct (map cw_command_id (t_commands db))" "distinct (map pw_payload_id (t_payloads db))"
    "distinct (map row_event_id (t_events db))"
    "distinct (map (\<lambda>c. (cw_idempotency_namespace c, cw_idempotency_key c)) (t_commands db))"
    using log_distinct [OF i(3)] i(2) by (simp_all add: history_of_def comp_def unit_key_def [abs_def])
qed

lemma inv_command_complete:
  assumes "store_inv st db hs" and "c \<in> set (t_commands db)"
  shows "command_complete db c"
proof -
  note ids = inv_command_ids [OF assms(1)]
  have one: "count_of f (cw_command_id c) rows = 1" if m: "map f rows = map cw_command_id (t_commands db)" for f and rows :: "'r list"
  proof -
    have "cw_command_id c \<in> set (map f rows)" unfolding m using assms(2) by simp
    then obtain x where "x \<in> set rows" "f x = cw_command_id c" by auto
    then show ?thesis using count_of_one [of f rows x] ids(4) m by simp
  qed
  show ?thesis unfolding command_complete_def using one [OF ids(1)] one [OF ids(2)] one [OF ids(3)] by blast
qed

lemma inv_routing_exact:
  assumes "store_inv st db hs" and "r \<in> set (t_events db)"
  shows "routing_exact db r"
proof -
  note i = store_invD [OF assms(1)] and ids = inv_command_ids [OF assms(1)]
  have t: "t_events db = map (\<lambda>h. Live (u_event h)) hs" "t_commands db = map u_command hs"
      "t_payloads db = map u_payload hs"
    using i(2) by (simp_all add: history_of_def)
  obtain h where h: "h \<in> set hs" "r = Live (u_event h)" using assms(2) unfolding t by auto
  note co = i(6) [OF h(1), unfolded unit_coherent_def Let_def]
  have mem: "u_command h \<in> set (t_commands db)" "u_payload h \<in> set (t_payloads db)" using h(1) t by simp_all
  have "c = u_command h" if "c \<in> set (t_commands db)" "cw_command_id c = ev_command_id (u_event h)" for c
    using distinct_map_unique [OF ids(4) that(1) mem(1)] that(2) co by simp
  moreover have "p = u_payload h" if "p \<in> set (t_payloads db)" "pw_payload_id p = ev_payload_id (u_event h)" for p
    using distinct_map_unique [OF ids(5) that(1) mem(2)] that(2) co by simp
  ultimately show ?thesis using co unfolding h(2) by (auto simp: list_all_iff)
qed

lemma inv_provenance_exact:
  assumes "store_inv st db hs" and "r \<in> set (t_events db)"
  shows "provenance_exact db r"
proof -
  note i = store_invD [OF assms(1)]
  have "t_events db = map (\<lambda>h. Live (u_event h)) hs" using i(2) by (simp add: history_of_def)
  then obtain h where h: "h \<in> set hs" "r = Live (u_event h)" using assms(2) by auto
  let ?e = "u_event h"
  obtain x q z d where m: "x \<in> set (t_contexts db)" "q \<in> set (t_requests db)" "z \<in> set (t_decisions db)"
      "d \<in> set (t_definitions db)"
    and k: "xw_authentication_context_id x = ev_authentication_context_id ?e"
      "qw_request_digest q = ev_authorization_request_digest ?e"
      "zw_authorization_decision_id z = ev_authorization_decision_id ?e"
      "dr_definition_digest d = ev_command_definition_digest ?e" "security_exact ?e x q z d"
    using i(5) [OF h(1)] unfolding unit_retained_def Let_def by blast
  have ds: "distinct (map xw_authentication_context_id (t_contexts db))"
      "distinct (map qw_request_digest (t_requests db))"
      "distinct (map zw_authorization_decision_id (t_decisions db))"
      "distinct (map dr_definition_digest (t_definitions db))"
    using i(1) unfolding tables_ok_def security_ok_def contracts_ok_def by blast+
  have "security_exact ?e x' q' z' d'"
    if "x' \<in> set (t_contexts db)" "q' \<in> set (t_requests db)" "z' \<in> set (t_decisions db)"
      "d' \<in> set (t_definitions db)" "xw_authentication_context_id x' = ev_authentication_context_id ?e"
      "qw_request_digest q' = ev_authorization_request_digest ?e"
      "zw_authorization_decision_id z' = ev_authorization_decision_id ?e"
      "dr_definition_digest d' = ev_command_definition_digest ?e" for x' q' z' d'
    using distinct_map_unique [OF ds(1) that(1) m(1)] distinct_map_unique [OF ds(2) that(2) m(2)]
      distinct_map_unique [OF ds(3) that(3) m(3)] distinct_map_unique [OF ds(4) that(4) m(4)] that(5-) k by simp
  then show ?thesis unfolding h(2) by (simp add: list_all_iff)
qed


section \<open>An opened database\<close>

lemma skip_Inr: "skip m = Inr u \<longleftrightarrow> (\<exists>x. m = Inr x)"
  by (auto simp: skip_def res_simps)

definition events_typed :: "authority_db \<Rightarrow> bool" where
  "events_typed db = (\<forall>r \<in> set (t_events db). validate_event_types r = Inr ())"

lemma inv_immutable_records:
  assumes "store_inv st db hs" and "events_typed db"
  shows "validate_immutable_records db = Inr ()"
proof -
  note i = store_invD [OF assms(1)]
  have t: "t_commands db = map u_command hs" "t_payloads db = map u_payload hs"
    using i(2) by (simp_all add: history_of_def)
  have ok: "contracts_ok st db" "security_ok db" "requests_ok db"
    using i(1) by (simp_all add: tables_ok_def)
  have "\<forall>c \<in> set (t_commands db). \<exists>x. decode_result db (cw_result_bytes c) (cw_result_digest c) False
      (Some (cw_command_id c)) = Inr x"
    using i(5) unfolding t unit_retained_def by (auto simp: Let_def)
  moreover have "\<forall>p \<in> set (t_payloads db). validate_payload_record db p = Inr ()"
    using i(5) unfolding t unit_retained_def by (auto simp: Let_def)
  moreover have "\<forall>s \<in> set (t_schemas db). \<exists>x. schema_record_from_row s = Inr x"
    "\<forall>d \<in> set (t_definitions db). \<exists>x. definition_record_from_row d = Inr x"
    using ok(1) unfolding contracts_ok_def by blast+
  moreover have "\<forall>q \<in> set (t_requests db). \<exists>x. request_record_from_row db q = Inr x"
    using ok(3) unfolding requests_ok_def by blast
  ultimately show ?thesis
    using security_okD(1-3) [OF ok(2)] assms(2)
    unfolding validate_immutable_records_def events_typed_def set_sort res_bind_Inr_iff for_each_Inr_iff skip_Inr by simp
qed

lemma inv_registry_coverage:
  assumes "contracts_ok st db"
  shows "validate_registry_coverage st db = Inr ()"
  using assms unfolding contracts_ok_def validate_registry_coverage_def schema_covered_def definition_covered_def
    res_bind_Inr_iff for_each_Inr_iff skip_Inr res_of_option_Inr_iff by simp

lemma inv_opens:
  assumes inv: "store_inv st db hs" and typed: "events_typed db"
  shows "validate_retained_history st db = Inr ()"
proof -
  have "validate_relational_invariants db = Inr ()"
    using inv_heads_exact [OF inv] inv_command_complete [OF inv] inv_routing_exact [OF inv]
      inv_provenance_exact [OF inv]
    unfolding validate_relational_invariants_def require_Inr_iff list_all_iff by simp
  moreover have "contracts_ok st db" using store_invD(1) [OF inv] by (simp add: tables_ok_def)
  ultimately show ?thesis
    using inv_immutable_records [OF inv typed] inv_registry_coverage
    unfolding validate_retained_history_def by simp
qed

section \<open>One commit\<close>

lemma inv_deferred:
  assumes "store_inv st db hs"
  shows "deferred_foreign_keys db"
proof -
  note i = store_invD [OF assms]
  have "\<exists>g \<in> set (t_aggregates db). gw_aggregate_type g = vw_aggregate_type v \<and> gw_aggregate_id g = vw_aggregate_id v"
    if v: "v \<in> set (t_versions db)" for v
  proof -
    obtain h where h: "h \<in> set hs" "v = u_version h" using v i(2) by (auto simp: history_of_def)
    have "unit_target h \<in> head_key ` set (t_aggregates db)" using i(4) h(1) by (auto simp: heads_ok_def)
    then obtain g where "g \<in> set (t_aggregates db)" "unit_target h = head_key g" by blast
    then show ?thesis
      using i(6) [OF h(1)] h(2) by (intro bexI [of _ g]) (auto simp: unit_coherent_def Let_def head_key_def)
  qed
  then show ?thesis
    using inv_heads_exact [OF assms] by (simp add: deferred_foreign_keys_def heads_exact_def list_all_iff list_ex_mem)
qed

lemma inv_not_retired:
  assumes "store_inv st db hs"
  shows "r \<in> set (t_events db) \<Longrightarrow> \<not> is_retired r" "require_unexpired_key db n k = Inr ()"
proof -
  have t: "t_events db = map (\<lambda>h. Live (u_event h)) hs"
    using store_invD(2) [OF assms] by (simp add: history_of_def)
  show "r \<in> set (t_events db) \<Longrightarrow> \<not> is_retired r" unfolding t by auto
  have "find (reserves n k) (t_events db) = None" unfolding t find_None_all by auto
  then show "require_unexpired_key db n k = Inr ()" by (simp add: require_unexpired_key_def)
qed

lemma inv_command_by_key:
  assumes "store_inv st db hs"
  shows "command_by_key db n k = Some c \<longleftrightarrow> (\<exists>h \<in> set hs. c = u_command h \<and> unit_key h = (n, k))"
    "command_by_key db n k = None \<longleftrightarrow> (n, k) \<notin> unit_key ` set hs"
proof -
  have t: "t_commands db = map u_command hs" using store_invD(2) [OF assms] by (simp add: history_of_def)
  show n: "command_by_key db n k = None \<longleftrightarrow> (n, k) \<notin> unit_key ` set hs"
    unfolding command_by_key_def find_None_all t by (auto simp: unit_key_def)
  show "command_by_key db n k = Some c \<longleftrightarrow> (\<exists>h \<in> set hs. c = u_command h \<and> unit_key h = (n, k))"
  proof
    assume "command_by_key db n k = Some c"
    from find_Some_iff_split [OF this [unfolded command_by_key_def]]
    show "\<exists>h \<in> set hs. c = u_command h \<and> unit_key h = (n, k)" unfolding t by (auto simp: unit_key_def)
  next
    assume "\<exists>h \<in> set hs. c = u_command h \<and> unit_key h = (n, k)"
    then obtain h where h: "h \<in> set hs" "c = u_command h" "unit_key h = (n, k)" by blast
    then have "(n, k) \<in> unit_key ` set hs" by force
    then obtain c' where c': "command_by_key db n k = Some c'" using n by (cases "command_by_key db n k") auto
    then obtain h' where h': "h' \<in> set hs" "c' = u_command h'" "unit_key h' = (n, k)"
      using find_Some_iff_split [OF c' [unfolded command_by_key_def]] unfolding t by (auto simp: unit_key_def)
    have "h' = h"
      using distinct_map_unique [of unit_key hs h' h] log_distinct [OF store_invD(3) [OF assms]] h h' by simp
    with c' h h' show "command_by_key db n k = Some c" by simp
  qed
qed

text \<open>A commit either leaves the database as it is or appends one unit.\<close>

lemma commit_effect:
  assumes "commit st g ids now db = (r, db')" and st: "store_built st" and inv: "store_inv st db hs"
    and uuid: "fresh_uuid ids"
  shows "(db' = db \<and> (\<exists>e. r = Inl e)) \<or>
    (db' = db \<and> verify (es_issuer st) g = Inr () \<and> (\<exists>h \<in> set hs. unit_key h = (g_idempotency_namespace g, g_idempotency_key g) \<and>
       replay_existing db g (u_command h) = r \<and> (\<exists>out. r = Inr out))) \<or>
    (verify (es_issuer st) g = Inr () \<and> (g_idempotency_namespace g, g_idempotency_key g) \<notin> unit_key ` set hs \<and>
      (\<exists>dd rd detail h. h = grant_unit st g ids (UtcTimestamp_to_text now) (g_expected_aggregate_version g + 1)
           (int (length hs) + 1) dd rd detail \<and>
         CommandDefinition_digest (g_definition g) = Inr dd \<and>
         g_expected_aggregate_version g = int (version_count (unit_target h) hs) \<and>
         store_inv st db' (hs @ [h]) \<and> extends db db' \<and> r = Inr (unit_result False h)))"
proof (cases r)
  case (Inl e)
  then have "db' = db"
    using assms(1) unfolding commit_def store_transaction_def by (auto split: sum.splits if_splits)
  with Inl show ?thesis by blast
next
  case (Inr out)
  then have v: "verify (es_issuer st) g = Inr ()"
    and c: "commit_grant_in_transaction st g ids (UtcTimestamp_to_text now) db = Inr (out, db')"
    using assms(1) unfolding commit_def store_transaction_def by (auto split: sum.splits if_splits)
  let ?n = "g_idempotency_namespace g" and ?k = "g_idempotency_key g"
  show ?thesis
  proof (cases "command_by_key db ?n ?k")
    case None
    then have "commit_new st g ids (UtcTimestamp_to_text now) db = Inr (out, db')"
      using c v inv_not_retired(2) [OF inv] by (simp add: commit_grant_in_transaction_def)
    from commit_new_extends_history [OF this v st inv uuid] show ?thesis
      using v None inv_command_by_key(2) [OF inv] Inr by blast
  next
    case (Some row)
    then have "replay_existing db g row = Inr out" "db' = db"
      using c v inv_not_retired(2) [OF inv] by (auto simp: commit_grant_in_transaction_def res_simps)
    then show ?thesis using Some v inv_command_by_key(1) [OF inv, of ?n ?k row] Inr by blast
  qed
qed


section \<open>The store as a state machine\<close>

text \<open>A step is a commit by some caller: any grant, any clock reading, fresh identifiers.\<close>

inductive commit_step :: "EventStore \<Rightarrow> authority_db \<Rightarrow> authority_db \<Rightarrow> bool" for st where
  commit_step: "fresh_uuid ids \<Longrightarrow> commit_step st db (snd (commit st g ids now db))"

inductive_cases commit_stepE: "commit_step st db db'"

definition store_valid :: "EventStore \<Rightarrow> authority_db \<Rightarrow> bool" where
  "store_valid st db = (store_built st \<and> store_ok st db)"

lemma store_validE:
  assumes "store_valid st db"
  obtains hs where "store_built st" "store_inv st db hs"
  using assms by (auto simp: store_valid_def store_ok_iff)

lemma commit_keeps:
  assumes "store_valid st db" and "fresh_uuid ids"
  shows "store_valid st (snd (commit st g ids now db)) \<and> extends db (snd (commit st g ids now db))"
proof -
  obtain hs where st: "store_built st" and inv: "store_inv st db hs" using assms(1) by (rule store_validE)
  obtain r db' where c: "commit st g ids now db = (r, db')" by fastforce
  from commit_effect [OF c st inv assms(2)]
  have "(\<exists>hs'. store_inv st db' hs') \<and> extends db db'" using inv extends_refl by blast
  then show ?thesis using st c by (simp add: store_valid_def store_ok_iff)
qed

interpretation event_store: ordered_machine "commit_step st" "store_valid st" extends for st
proof unfold_locales
  fix a b c assume "extends a b" "extends b c"
  then show "extends a c" by (rule extends_trans)
qed (auto elim!: commit_stepE dest: commit_keeps)

lemma empty_db_inv: "store_inv st empty_db []"
  by (simp add: store_inv_def tables_ok_def contracts_ok_def security_ok_def requests_ok_def empty_db_def
      history_of_def heads_ok_def log_empty)

lemma empty_valid: "store_built st \<Longrightarrow> store_valid st empty_db"
  using empty_db_inv by (auto simp: store_valid_def store_ok_iff)

lemma reachable_valid: "store_built st \<Longrightarrow> (commit_step st)\<^sup>*\<^sup>* empty_db db \<Longrightarrow> store_valid st db"
  using event_store.run_keeps empty_valid by blast

text \<open>A unit stays in the history, with its result.\<close>

lemma unit_stays:
  assumes "store_inv st db hs" and "store_inv st db' hs'" and "extends db db'" and "h \<in> set hs"
  shows "\<exists>h' \<in> set hs'. u_command h' = u_command h \<and> u_event h' = u_event h \<and> u_payload h' = u_payload h"
proof -
  have p: "prefix (map u_command hs) (map u_command hs')" "prefix (map (\<lambda>h. Live (u_event h)) hs) (map (\<lambda>h. Live (u_event h)) hs')"
      "prefix (map u_payload hs) (map u_payload hs')"
    using extendsD(7,8,11) [OF assms(3)] store_invD(2) [OF assms(1)] store_invD(2) [OF assms(2)]
    by (simp_all add: history_of_def)
  obtain k where k: "k < length hs" "h = hs ! k" using assms(4) by (auto simp: in_set_conv_nth)
  have l: "length hs \<le> length hs'" using prefix_length_le [OF p(1)] by simp
  have nth: "map f hs ! k = map f hs' ! k" if "prefix (map f hs) (map f hs')" for f :: "CommandUnit \<Rightarrow> 'b"
    using that k(1) by (auto simp: prefix_def nth_append)
  have "u_command (hs' ! k) = u_command h" "u_event (hs' ! k) = u_event h" "u_payload (hs' ! k) = u_payload h"
    using nth [OF p(1)] nth [OF p(2)] nth [OF p(3)] k l by simp_all
  then show ?thesis using k(1) l by (intro bexI [of _ "hs' ! k"]) simp_all
qed

lemma unit_result_cong:
  "u_command h' = u_command h \<Longrightarrow> u_event h' = u_event h \<Longrightarrow> unit_result f h' = unit_result f h"
  by (simp add: unit_result_def)

lemma replay_of_unit:
  assumes "store_inv st db hs" and "h \<in> set hs"
  shows "replay_existing db g (u_command h) = Inr out \<longleftrightarrow>
    cw_stable_semantic_request_digest (u_command h) = g_stable_semantic_request_digest g \<and>
    CommandDefinition_digest (g_definition g) = Inr (cw_command_definition_digest (u_command h)) \<and>
    cw_command_definition_version (u_command h) = cd_definition_version (g_definition g) \<and>
    g_replay_of_command_id g \<in> {None, Some (cw_command_id (u_command h))} \<and> out = unit_result True h"
proof -
  have "decode_result db (cw_result_bytes (u_command h)) (cw_result_digest (u_command h)) True
      (Some (cw_command_id (u_command h))) = Inr (unit_result True h)"
    using decode_result_flag store_invD(5) [OF assms] unfolding unit_retained_def
    by (fastforce simp: unit_result_def)
  then show ?thesis
    unfolding replay_existing_def by (auto simp: res_simps split: option.split)
qed

text \<open>A commit that returns has replayed a recorded unit or appended a new one.\<close>

lemma commit_returned:
  assumes "commit st g ids now db = (Inr out, db')" and st: "store_built st" and inv: "store_inv st db hs"
    and uuid: "fresh_uuid ids"
  obtains (replay) h where "db' = db" "h \<in> set hs" "unit_key h = (g_idempotency_namespace g, g_idempotency_key g)"
      "replay_existing db g (u_command h) = Inr out" "out = unit_result True h"
  | (new) dd rd detail h where "(g_idempotency_namespace g, g_idempotency_key g) \<notin> unit_key ` set hs"
      "h = grant_unit st g ids (UtcTimestamp_to_text now) (g_expected_aggregate_version g + 1)
         (int (length hs) + 1) dd rd detail"
      "CommandDefinition_digest (g_definition g) = Inr dd"
      "g_expected_aggregate_version g = int (version_count (unit_target h) hs)"
      "store_inv st db' (hs @ [h])" "extends db db'" "out = unit_result False h"
  using commit_effect [OF assms] replay_of_unit [OF inv] that by blast

text \<open>What a commit that returned leaves in the history.\<close>

lemma committed_unit:
  assumes "commit st g ids now db = (Inr out, db')" and st: "store_built st" and inv: "store_inv st db hs"
    and uuid: "fresh_uuid ids"
  shows "\<exists>hs' h. store_inv st db' hs' \<and> h \<in> set hs' \<and> out = unit_result (cmt_replayed out) h \<and>
    unit_key h = (g_idempotency_namespace g, g_idempotency_key g) \<and>
    cw_stable_semantic_request_digest (u_command h) = g_stable_semantic_request_digest g \<and>
    CommandDefinition_digest (g_definition g) = Inr (cw_command_definition_digest (u_command h)) \<and>
    cw_command_definition_version (u_command h) = cd_definition_version (g_definition g) \<and> extends db db'"
using assms
proof (cases rule: commit_returned)
  case (replay h)
  then show ?thesis
    using replay_of_unit [OF inv replay(2), of g out] inv by (auto simp: unit_result_def)
next
  case (new dd rd detail h)
  have "unit_key h = (g_idempotency_namespace g, g_idempotency_key g)"
    "cw_stable_semantic_request_digest (u_command h) = g_stable_semantic_request_digest g"
    "cw_command_definition_digest (u_command h) = dd"
    "cw_command_definition_version (u_command h) = cd_definition_version (g_definition g)"
    unfolding new(2) by simp_all
  moreover have "out = unit_result (cmt_replayed out) h" unfolding new(7) by (simp add: unit_result_def)
  ultimately show ?thesis
    using new(3,5,6) by (intro exI [of _ "hs @ [h]"] exI [of _ h]) simp
qed

lemma units_prefix:
  assumes "store_inv st db hs" and "store_inv st db' hs'" and "extends db db'"
  shows "prefix (map (\<lambda>h. (cw_aggregate_type (u_command h), cw_aggregate_id (u_command h))) hs)
    (map (\<lambda>h. (cw_aggregate_type (u_command h), cw_aggregate_id (u_command h))) hs')"
proof -
  have "prefix (map u_command hs) (map u_command hs')"
    using extendsD(8) [OF assms(3)] store_invD(2) [OF assms(1)] store_invD(2) [OF assms(2)]
    by (simp add: history_of_def)
  from map_mono_prefix [OF this, of "\<lambda>c. (cw_aggregate_type c, cw_aggregate_id c)"]
  show ?thesis by (simp add: comp_def)
qed

lemma version_count_targets: "version_count k hs = length (filter (\<lambda>t. t = k) (map unit_target hs))"
  by (simp add: version_count_def filter_map comp_def)

lemma version_count_mono:
  assumes "prefix (map unit_target hs) (map unit_target hs')"
  shows "version_count k hs \<le> version_count k hs'"
proof -
  obtain zs where "map unit_target hs' = map unit_target hs @ zs" using assms by (auto simp: prefix_def)
  then show ?thesis unfolding version_count_targets by (simp del: filter_map)
qed

end
