(* ===== verification/Event_Store_Progress.thy ===== *)
theory Event_Store_Progress
  imports Event_Store_Steps "HOL-Library.Multiset"
begin

text \<open>
  That commits go through. Each phase of a commit is shown to succeed: registered contracts and security
  records are stored and read back, the rows of the command are written, its compact request is rebuilt
  from them without loss and its result decodes. Digests enter only through explicit hypotheses that two
  byte strings do not collide.
\<close>

section \<open>Stored objects\<close>

lemma reencode:
  assumes "wf_pyval v" and "canonical_json_bytes v = Inr b"
  shows "canonical_json_bytes (py_of_json (view v)) = Inr b"
  using decode_canonical_view [OF assms] by (auto simp: decode_canonical_def res_simps)

lemma stored_object_canonical:
  assumes "wf_pyval v" and "canonical_json_bytes v = Inr b" and "is_object (view v)"
  shows "stored_object b (digest_bytes b) = Inr (view v)"
proof -
  show ?thesis
    using canonical_object_bytes [OF assms] reencode [OF assms(1,2)] by (simp add: stored_object_def digest_canonical_def same_def)
qed

lemma definition_value_wf: "wf_pyval (CommandDefinition_canonical_value d)"
  by (rule command_definition.value_wf)

definition definition_fields :: "CommandDefinition \<Rightarrow> (string \<times> json) list" where
  "definition_fields d = [
     (''command_type'', jstr (cd_command_type d)), (''definition_version'', jstr (cd_definition_version d)),
     (''aggregate_type'', jstr (cd_aggregate_type d)), (''event_type'', jstr (cd_event_type d)),
     (''event_schema_version'', JInt (cd_event_schema_version d)),
     (''payload_mode'', jstr (PayloadMode_value (cd_payload_mode d))),
     (''payload_schema_version'', jstr (cd_payload_schema_version d)),
     (''payload_schema_contract_version'', jstr (cd_payload_schema_contract_version d)),
     (''payload_schema_contract_digest'', jstr (cd_payload_schema_contract_digest d)),
     (''payload_canonicalizer_version'', jstr (cd_payload_canonicalizer_version d)),
     (''trust_scope'', jstr (TrustScope_value (cd_trust_scope d))),
     (''security_scope'', jstr (cd_security_scope d)), (''retention_scope'', jstr (cd_retention_scope d)),
     (''required_scope'', jstr (cd_required_scope d)), (''max_inline_bytes'', JInt (cd_max_inline_bytes d)),
     (''required_object_class'', view (jopt (cd_required_object_class d))),
     (''required_allowed_use'', view (jopt (cd_required_allowed_use d)))]"

lemma jget_definition: "jget k (view (CommandDefinition_canonical_value d)) = map_of (definition_fields d) k"
proof -
  have "map_option view (map_of [
       (''command_type'', jtext (cd_command_type d)),
       (''definition_version'', jtext (cd_definition_version d)),
       (''aggregate_type'', jtext (cd_aggregate_type d)),
       (''event_type'', jtext (cd_event_type d)),
       (''event_schema_version'', jnum (cd_event_schema_version d)),
       (''payload_mode'', jtext (PayloadMode_value (cd_payload_mode d))),
       (''payload_schema_version'', jtext (cd_payload_schema_version d)),
       (''payload_schema_contract_version'', jtext (cd_payload_schema_contract_version d)),
       (''payload_schema_contract_digest'', jtext (cd_payload_schema_contract_digest d)),
       (''payload_canonicalizer_version'', jtext (cd_payload_canonicalizer_version d)),
       (''trust_scope'', jtext (TrustScope_value (cd_trust_scope d))),
       (''security_scope'', jtext (cd_security_scope d)),
       (''retention_scope'', jtext (cd_retention_scope d)),
       (''required_scope'', jtext (cd_required_scope d)),
       (''max_inline_bytes'', jnum (cd_max_inline_bytes d)),
       (''required_object_class'', jopt (cd_required_object_class d)),
       (''required_allowed_use'', jopt (cd_required_allowed_use d))] k) = map_of (definition_fields d) k"
    by (simp add: definition_fields_def)
  then show ?thesis unfolding CommandDefinition_canonical_value_def by (subst jget_obj) simp_all
qed

definition schema_fields :: "PayloadSchemaContract \<Rightarrow> (string \<times> json) list" where
  "schema_fields c = [(''schema_version'', jstr (ps_schema_version c)),
     (''payload_mode'', jstr (PayloadMode_value (ps_payload_mode c))),
     (''contract_version'', jstr (ps_contract_version c)),
     (''canonicalizer_implementation_version'', jstr (ps_canonicalizer_implementation_version c))]"

lemma jget_schema:
  "jget ''schema_version'' (view (PayloadSchemaContract_canonical_value c)) = Some (jstr (ps_schema_version c))"
  "jget ''payload_mode'' (view (PayloadSchemaContract_canonical_value c)) = Some (jstr (PayloadMode_value (ps_payload_mode c)))"
  "jget ''contract_version'' (view (PayloadSchemaContract_canonical_value c)) = Some (jstr (ps_contract_version c))"
  "jget ''canonicalizer_implementation_version'' (view (PayloadSchemaContract_canonical_value c)) =
     Some (jstr (ps_canonicalizer_implementation_version c))"
  unfolding PayloadSchemaContract_canonical_value_def by (subst jget_obj; simp)+

lemma contract_is_object: "is_object (view (PayloadSchemaContract_canonical_value c))"
  "is_object (view (CommandDefinition_canonical_value d))"
  by (simp_all add: PayloadSchemaContract_canonical_value_def CommandDefinition_canonical_value_def)

section \<open>Registered contracts are stored\<close>

definition schema_row_of :: "PayloadSchemaContract \<Rightarrow> bytes \<Rightarrow> SchemaRow \<Rightarrow> bool" where
  "schema_row_of c b s = (sr_contract_digest s = digest_bytes b \<and> sr_schema_version s = ps_schema_version c \<and>
     sr_payload_mode s = PayloadMode_value (ps_payload_mode c) \<and> sr_contract_version s = ps_contract_version c \<and>
     sr_canonicalizer_implementation_version s = ps_canonicalizer_implementation_version c \<and> sr_canonical_bytes s = b)"

lemma schema_record_iff:
  assumes "canonical_json_bytes (PayloadSchemaContract_canonical_value c) = Inr b" and "sr_canonical_bytes s = b"
  shows "(\<exists>r. schema_record_from_row s = Inr r) \<longleftrightarrow> schema_row_of c b s"
  using decode_canonical_view [OF contract_value_wf assms(1)] contract_is_object(1) [of c] jget_schema [of c] assms(2)
  by (auto simp: schema_record_from_row_def schema_row_of_def res_simps)

lemma canonical_nonempty: "canonical_json_bytes (obj kvs) = Inr b \<Longrightarrow> wf_pyval (obj kvs) \<Longrightarrow> b \<noteq> []"
  by (auto simp: canonical_json_bytes_Inr obj_view utf8_char_def)

lemma contract_bytes_nonempty:
  "canonical_json_bytes (PayloadSchemaContract_canonical_value c) = Inr b \<Longrightarrow> b \<noteq> []"
  "canonical_json_bytes (CommandDefinition_canonical_value d) = Inr b \<Longrightarrow> b \<noteq> []"
  using canonical_nonempty contract_value_wf [of c] definition_value_wf [of d]
  unfolding PayloadSchemaContract_canonical_value_def CommandDefinition_canonical_value_def by blast+

lemma schema_key_unique:
  assumes built: "PayloadSchemaRegistry_built p" and r: "PayloadSchemaRegistry_resolve_exact p v m w dg k = Inr c"
    and s: "PayloadMode_of (sr_payload_mode s) = Some m'"
      "PayloadSchemaRegistry_resolve_exact p (sr_schema_version s) m' (sr_contract_version s) (sr_contract_digest s)
        (sr_canonicalizer_implementation_version s) = Inr c'"
    and key: "sr_schema_version s = ps_schema_version c" "sr_payload_mode s = PayloadMode_value (ps_payload_mode c)"
      "sr_contract_version s = ps_contract_version c"
  shows "PayloadSchemaContract_contract_digest c = Inr (sr_contract_digest s)"
proof -
  note f = schema_resolved [OF built r]
  have "m' = m" using s(1) key(2) f(2) by simp
  then have "c' = c"
    using r s(2) key(1,3) f(1,3) unfolding PayloadSchemaRegistry_resolve_exact_def by (auto simp: res_simps)
  then show ?thesis using schema_resolved(4) [OF built s(2)] by simp
qed

lemma schema_phase:
  assumes st: "store_built st" and ok: "contracts_ok st db"
    and r: "PayloadSchemaRegistry_resolve_exact (es_payload_schemas st) (rp_schema_version (g_payload g))
      (cd_payload_mode (g_definition g)) (rp_schema_contract_version (g_payload g))
      (rp_schema_contract_digest (g_payload g)) (rp_canonicalizer_version (g_payload g)) = Inr c"
    and b: "canonical_json_bytes (PayloadSchemaContract_canonical_value c) = Inr b"
    and nc: "\<forall>s \<in> set (t_schemas db). \<not> collides (sr_canonical_bytes s) b"
  shows "\<exists>db1. persist_schema_contract st g at db = Inr db1 \<and> (\<exists>s \<in> set (t_schemas db1). schema_row_of c b s)"
proof -
  let ?new = "\<lparr>sr_contract_digest = digest_bytes b, sr_schema_version = ps_schema_version c,
    sr_payload_mode = PayloadMode_value (ps_payload_mode c), sr_contract_version = ps_contract_version c,
    sr_canonicalizer_implementation_version = ps_canonicalizer_implementation_version c,
    sr_canonical_bytes = b, sr_registered_at = at\<rparr>"
  have built: "PayloadSchemaRegistry_built (es_payload_schemas st)" using st by (simp add: store_built_def)
  have d: "PayloadSchemaContract_contract_digest c = Inr (digest_bytes b)"
    by (simp add: PayloadSchemaContract_contract_digest_def digest_canonical_def b)
  have good: "(\<exists>r. schema_record_from_row s = Inr r) \<and> schema_covered st s" if "s \<in> set (t_schemas db)" for s
    using ok that unfolding contracts_ok_def by blast
  have same: "schema_row_of c b s" if s: "s \<in> set (t_schemas db)" "sr_contract_digest s = digest_bytes b" for s
  proof -
    have "digest_bytes (sr_canonical_bytes s) = sr_contract_digest s"
      using good [OF s(1)] by (auto simp: schema_record_from_row_def res_simps)
    then have "sr_canonical_bytes s = b" using nc s digest_bytes_collides by (metis collides_def)
    then show ?thesis using good [OF s(1)] schema_record_iff [OF b] by blast
  qed
  have found: "persist_schema_contract st g at db = Inr db1"
    if i: "insert_schema ?new db = Inr db1" "find (\<lambda>s. sr_contract_digest s = digest_bytes b) (t_schemas db1) = Some s"
      "schema_row_of c b s" for db1 s
  proof -
    obtain rec where "schema_record_from_row s = Inr rec"
      using i(3) schema_record_iff [OF b, of s] unfolding schema_row_of_def by blast
    then show ?thesis using i(1,2) by (simp add: persist_schema_contract_def Let_def r b d)
  qed
  show ?thesis
  proof (cases "\<exists>s \<in> set (t_schemas db). sr_contract_digest s = digest_bytes b")
    case True
    then obtain s where "find (\<lambda>s. sr_contract_digest s = digest_bytes b) (t_schemas db) = Some s"
      using find_mem [of _ "t_schemas db" "\<lambda>s. sr_contract_digest s = digest_bytes b"] by blast
    moreover from this have s: "s \<in> set (t_schemas db)" "schema_row_of c b s"
      using find_key [of sr_contract_digest] same by blast+
    moreover have "insert_schema ?new db = Inr db"
      using True by (auto simp: insert_schema_def taken_def list_ex_mem)
    ultimately show ?thesis using found by blast
  next
    case False
    have key_taken: "\<not> (sr_schema_version s = ps_schema_version c \<and>
        sr_payload_mode s = PayloadMode_value (ps_payload_mode c) \<and> sr_contract_version s = ps_contract_version c)"
      if s: "s \<in> set (t_schemas db)" for s
      using good [OF s] schema_key_unique [OF built r] d False s unfolding schema_covered_def by fastforce
    then have "\<not> taken (\<lambda>s. (sr_schema_version s, sr_payload_mode s, sr_contract_version s,
          sr_canonicalizer_implementation_version s)) ?new (t_schemas db)"
      using False key_taken by (auto simp: taken_def list_ex_mem)
    then have i: "insert_schema ?new db = Inr (db\<lparr>t_schemas := t_schemas db @ [?new]\<rparr>)"
      using False contract_bytes_nonempty(1) [OF b]
      by (cases "ps_payload_mode c") (auto simp: insert_schema_def taken_def list_ex_mem PAYLOAD_MODES_def)
    have "find (\<lambda>s. sr_contract_digest s = digest_bytes b) (t_schemas db @ [?new]) = Some ?new"
      using False by (intro find_append_new) auto
    moreover have "schema_row_of c b ?new" by (simp add: schema_row_of_def)
    ultimately show ?thesis using found [OF i] by auto
  qed
qed

definition definition_row_of :: "CommandDefinition \<Rightarrow> bytes \<Rightarrow> DefinitionRow \<Rightarrow> bool" where
  "definition_row_of c b d = (dr_definition_digest d = digest_bytes b \<and> dr_command_type d = cd_command_type c \<and>
     dr_definition_version d = cd_definition_version c \<and>
     dr_payload_schema_contract_digest d = cd_payload_schema_contract_digest c \<and> dr_canonical_bytes d = b)"

lemma definition_record_iff:
  assumes "canonical_json_bytes (CommandDefinition_canonical_value c) = Inr b" and "dr_canonical_bytes d = b"
  shows "(\<exists>r. definition_record_from_row d = Inr r) \<longleftrightarrow> definition_row_of c b d"
  using decode_canonical_view [OF definition_value_wf assms(1)] contract_is_object(2) [of c] jget_definition [of _ c] assms(2)
  by (auto simp: definition_record_from_row_def definition_row_of_def res_simps definition_fields_def)

lemma definition_key_unique:
  assumes built: "CommandRegistry_built p" and r: "CommandRegistry_resolve_exact p t v dg = Inr c"
    and s: "CommandRegistry_resolve_exact p (dr_command_type d) (dr_definition_version d) (dr_definition_digest d) = Inr c'"
    and key: "dr_command_type d = cd_command_type c" "dr_definition_version d = cd_definition_version c"
  shows "CommandDefinition_digest c = Inr (dr_definition_digest d)"
proof -
  have "c' = c"
    using r s key definition_resolved(1,2) [OF built r] unfolding CommandRegistry_resolve_exact_def
    by (auto simp: res_simps)
  then show ?thesis using definition_resolved(3) [OF built s] by simp
qed

lemma definition_phase:
  assumes st: "store_built st" and ok: "contracts_ok st db"
    and r: "CommandRegistry_resolve_exact (es_command_registry st) (cd_command_type (g_definition g))
      (cd_definition_version (g_definition g)) (digest_bytes b) = Inr (g_definition g)"
    and b: "canonical_json_bytes (CommandDefinition_canonical_value (g_definition g)) = Inr b"
    and nc: "\<forall>d \<in> set (t_definitions db). \<not> collides (dr_canonical_bytes d) b"
    and sch: "has_schema db (cd_payload_schema_contract_digest (g_definition g))"
  shows "\<exists>db1. persist_definition st g at db = Inr db1 \<and>
    (\<exists>d \<in> set (t_definitions db1). definition_row_of (g_definition g) b d)"
proof -
  let ?c = "g_definition g"
  let ?new = "\<lparr>dr_definition_digest = digest_bytes b, dr_command_type = cd_command_type ?c,
    dr_definition_version = cd_definition_version ?c,
    dr_payload_schema_contract_digest = cd_payload_schema_contract_digest ?c,
    dr_canonical_bytes = b, dr_registered_at = at\<rparr>"
  have built: "CommandRegistry_built (es_command_registry st)" using st by (simp add: store_built_def)
  have d: "CommandDefinition_digest ?c = Inr (digest_bytes b)"
    by (simp add: CommandDefinition_digest_def digest_canonical_def b)
  have good: "(\<exists>r. definition_record_from_row d = Inr r) \<and> definition_covered st d" if "d \<in> set (t_definitions db)" for d
    using ok that unfolding contracts_ok_def by blast
  have same: "definition_row_of ?c b d" if s: "d \<in> set (t_definitions db)" "dr_definition_digest d = digest_bytes b" for d
  proof -
    have "digest_bytes (dr_canonical_bytes d) = dr_definition_digest d"
      using good [OF s(1)] by (auto simp: definition_record_from_row_def res_simps)
    then have "dr_canonical_bytes d = b" using nc s digest_bytes_collides by (metis collides_def)
    then show ?thesis using good [OF s(1)] definition_record_iff [OF b] by blast
  qed
  have found: "persist_definition st g at db = Inr db1"
    if i: "insert_definition ?new db = Inr db1" "find (\<lambda>s. dr_definition_digest s = digest_bytes b) (t_definitions db1) = Some s"
      "definition_row_of ?c b s" for db1 s
  proof -
    obtain rec where "definition_record_from_row s = Inr rec"
      using i(3) definition_record_iff [OF b, of s] unfolding definition_row_of_def by blast
    then show ?thesis using i(1,2) by (simp add: persist_definition_def r b d)
  qed
  show ?thesis
  proof (cases "\<exists>s \<in> set (t_definitions db). dr_definition_digest s = digest_bytes b")
    case True
    then obtain s where "find (\<lambda>s. dr_definition_digest s = digest_bytes b) (t_definitions db) = Some s"
      using find_mem [of _ "t_definitions db" "\<lambda>s. dr_definition_digest s = digest_bytes b"] by blast
    moreover from this have s: "s \<in> set (t_definitions db)" "definition_row_of ?c b s"
      using find_key [of dr_definition_digest] same by blast+
    moreover have "insert_definition ?new db = Inr db"
      using True by (auto simp: insert_definition_def taken_def list_ex_mem)
    ultimately show ?thesis using found by blast
  next
    case False
    have "\<not> (dr_command_type s = cd_command_type ?c \<and> dr_definition_version s = cd_definition_version ?c)"
      if s: "s \<in> set (t_definitions db)" for s
      using good [OF s] definition_key_unique [OF built r] d False s unfolding definition_covered_def by fastforce
    then have "\<not> taken (\<lambda>d. (dr_command_type d, dr_definition_version d)) ?new (t_definitions db)"
      by (auto simp: taken_def list_ex_mem)
    then have i: "insert_definition ?new db = Inr (db\<lparr>t_definitions := t_definitions db @ [?new]\<rparr>)"
      using False contract_bytes_nonempty(2) [OF b] sch
      by (auto simp: insert_definition_def taken_def list_ex_mem)
    have "find (\<lambda>s. dr_definition_digest s = digest_bytes b) (t_definitions db @ [?new]) = Some ?new"
      using False by (intro find_append_new) auto
    moreover have "definition_row_of ?c b ?new" by (simp add: definition_row_of_def)
    ultimately show ?thesis using found [OF i] by auto
  qed
qed

section \<open>Security records are stored\<close>

lemma obj_bytes: "wf_pyval v \<Longrightarrow> encodable v \<Longrightarrow> \<exists>b. canonical_json_bytes v = Inr b"
  using canonical_json_bytes_encodable by blast

definition unsigned_request :: "AuthorizationRequest \<Rightarrow> bytes \<Rightarrow> bool" where
  "unsigned_request r b = (canonical_json_bytes (AuthorizationRequest_unsigned_value r) = Inr b \<and>
     ar_request_digest r = digest_bytes b)"

lemma request_digest_not_field: "p \<in> set (request_fields r) \<Longrightarrow> fst p \<noteq> ''request_digest''"
  by (auto simp: request_fields_def)

lemma request_fields_distinct: "distinct (map fst (request_fields r @ [(''request_digest'', v)]))"
  by (simp add: request_fields_def)

lemma without_request_digest:
  "without_field ''request_digest'' (view (AuthorizationRequest_canonical_value r)) =
     view (AuthorizationRequest_unsigned_value r)"
proof -
  let ?f = "\<lambda>p. (cps_of (fst p), view (snd p))"
  have "filter (\<lambda>p. fst p \<noteq> cps_of ''request_digest'') (map ?f (request_fields r)) = map ?f (request_fields r)"
    using request_digest_not_field by (auto simp: filter_id_conv)
  then show ?thesis
    unfolding AuthorizationRequest_canonical_value_def AuthorizationRequest_unsigned_value_def obj_view
    by (simp add: filter_sort)
qed

lemma jget_request:
  assumes "map_of (request_fields r @ [(''request_digest'', jtext (ar_request_digest r))]) k = Some v"
  shows "jget k (view (AuthorizationRequest_canonical_value r)) = Some (view v)"
  unfolding AuthorizationRequest_canonical_value_def using assms
  by (subst jget_obj [OF request_fields_distinct]) simp

lemma authenticated_request:
  assumes "canonical_json_bytes (AuthorizationRequest_canonical_value r) = Inr original"
    and "unsigned_request r b" and "qw_canonical_record_digest q = digest_bytes original"
    and "qw_request_digest q = ar_request_digest r"
  shows "authenticate_request q original = Inr ()"
proof -
  have co: "canonical_object original = Inr (view (AuthorizationRequest_canonical_value r))"
    using canonical_object_bytes [OF request_value_wf assms(1)]
    by (simp add: AuthorizationRequest_canonical_value_def)
  have "jget ''request_digest'' (view (AuthorizationRequest_canonical_value r)) = Some (jstr (ar_request_digest r))"
    by (subst jget_request [where v = "jtext (ar_request_digest r)"]) (simp_all add: request_fields_def)
  moreover have "digest_canonical (py_of_json (view (AuthorizationRequest_unsigned_value r))) = Inr (ar_request_digest r)"
    using assms(2) reencode [of "AuthorizationRequest_unsigned_value r" b]
    by (simp add: unsigned_request_def digest_canonical_def AuthorizationRequest_unsigned_value_def request_wf
        request_wf [unfolded AuthorizationRequest_unsigned_value_def])
  ultimately show ?thesis
    using assms(3,4) by (simp add: authenticate_request_def co without_request_digest same_field_def field_def same_def)
qed

lemma scopes_inserted:
  assumes "\<forall>s \<in> set (t_scopes db). fst s = digest_bytes (snd s) \<and> \<not> collides (snd s) b" and "b \<noteq> []"
    and "distinct (map fst (t_scopes db))"
  shows "\<exists>ns. insert_scopes (digest_bytes b, b) db = Inr (db\<lparr>t_scopes := ns\<rparr>) \<and> map_of ns (digest_bytes b) = Some b \<and>
    prefix (t_scopes db) ns"
proof (cases "(digest_bytes b, b) \<in> set (t_scopes db)")
  case True
  then have "insert_scopes (digest_bytes b, b) db = Inr (db\<lparr>t_scopes := t_scopes db\<rparr>)"
    by (auto simp: insert_scopes_def taken_iff image_iff intro!: bexI)
  then show ?thesis using True assms(3) by (intro exI [of _ "t_scopes db"]) simp
next
  case False
  have "digest_bytes b \<notin> fst ` set (t_scopes db)"
  proof
    assume "digest_bytes b \<in> fst ` set (t_scopes db)"
    then obtain d x where "(d, x) \<in> set (t_scopes db)" "d = digest_bytes b" by force
    moreover from this assms(1) have "digest_bytes x = digest_bytes b" "\<not> collides x b" by force+
    then have "x = b" using digest_bytes_collides by blast
    ultimately show False using False by blast
  qed
  moreover have "b \<notin> snd ` set (t_scopes db)"
    using False assms(1) by force
  ultimately have "insert_scopes (digest_bytes b, b) db = Inr (db\<lparr>t_scopes := t_scopes db @ [(digest_bytes b, b)]\<rparr>)"
    "map_of (t_scopes db) (digest_bytes b) = None"
    using assms(2) by (simp_all add: insert_scopes_def taken_iff map_of_eq_None_iff)
  then show ?thesis by (intro exI [of _ "t_scopes db @ [(digest_bytes b, b)]"]) (simp add: map_add_def)
qed

definition security_bytes ::
  "VerifiedAuthenticationContext \<Rightarrow> AuthorizationRequest \<Rightarrow> AuthorizationDecision \<Rightarrow> string \<Rightarrow> bytes \<Rightarrow> bytes \<Rightarrow> bytes \<Rightarrow>
     bytes \<Rightarrow> bytes \<Rightarrow> bool" where
  "security_bytes c r a i cb ob ab sb resid =
     (canonical_json_bytes (VerifiedAuthenticationContext_canonical_value c) = Inr cb \<and>
      canonical_json_bytes (AuthorizationRequest_canonical_value r) = Inr ob \<and>
      canonical_json_bytes (AuthorizationDecision_canonical_value a) = Inr ab \<and>
      canonical_json_bytes (jlist (map jtext (ad_effective_scopes a))) = Inr sb \<and>
      canonical_json_bytes (storage_object i) = Inr resid)"

lemma security_bytes_exist:
  assumes "safe_int (ar_event_schema_version r)"
  shows "\<exists>cb ob ab sb resid. security_bytes c r a i cb ob ab sb resid"
proof -
  have residual: "encodable (PMap Exact [])" by (simp add: encodable_def)
  have "\<exists>b. canonical_json_bytes (VerifiedAuthenticationContext_canonical_value c) = Inr b"
    by (rule obj_bytes [OF auth_context.value_wf])
      (simp add: VerifiedAuthenticationContext_canonical_value_def obj_encodable)
  moreover have "\<exists>b. canonical_json_bytes (AuthorizationRequest_canonical_value r) = Inr b"
    using assms by (intro obj_bytes [OF auth_request.value_wf])
      (simp add: AuthorizationRequest_canonical_value_def request_fields_def obj_encodable)
  moreover have "\<exists>b. canonical_json_bytes (AuthorizationDecision_canonical_value a) = Inr b"
    by (rule obj_bytes [OF auth_decision.value_wf]) (simp add: AuthorizationDecision_canonical_value_def obj_encodable)
  moreover have "\<exists>b. canonical_json_bytes (jlist (map jtext (ad_effective_scopes a))) = Inr b"
    by (rule obj_bytes) auto
  moreover have "\<exists>b. canonical_json_bytes (storage_object i) = Inr b"
    using residual by (intro obj_bytes [OF storage_object_wf])
      (simp add: storage_object_def obj_encodable safe_int_def MIN_SAFE_INTEGER_def MAX_SAFE_INTEGER_def)
  ultimately show ?thesis unfolding security_bytes_def by blast
qed

lemma list_bytes_nonempty: "canonical_json_bytes (jlist (map jtext ss)) = Inr b \<Longrightarrow> b \<noteq> []"
proof -
  assume "canonical_json_bytes (jlist (map jtext ss)) = Inr b"
  moreover have "wf_pyval (jlist (map jtext ss))" by auto
  ultimately show ?thesis by (auto simp: canonical_json_bytes_Inr jlist_def utf8_char_def)
qed

lemma security_inserts:
  assumes b: "security_bytes c r a i cb ob ab sb resid"
    and fresh: "vc_authentication_context_id c \<notin> xw_authentication_context_id ` set (t_contexts db)"
      "ar_request_digest r \<notin> qw_request_digest ` set (t_requests db)"
      "ad_authorization_decision_id a \<notin> zw_authorization_decision_id ` set (t_decisions db)"
    and sc: "\<forall>s \<in> set (t_scopes db). fst s = digest_bytes (snd s) \<and> \<not> collides (snd s) sb"
      "distinct (map fst (t_scopes db))"
  shows "\<exists>ns. insert_security_records c r a at (Some i) db = Inr (db\<lparr>
      t_contexts := t_contexts db @ [context_row c (digest_bytes cb)],
      t_requests := t_requests db @ [request_row c r (digest_bytes ob) at (resid, COMMAND_REQUEST_MARKER)],
      t_scopes := ns,
      t_decisions := t_decisions db @ [decision_row c r a (digest_bytes ab) (digest_bytes sb)]\<rparr>) \<and>
    map_of ns (digest_bytes sb) = Some sb"
proof -
  have ne: "sb \<noteq> []" "resid \<noteq> []"
    using b list_bytes_nonempty canonical_nonempty [OF _ storage_object_wf [of i, unfolded storage_object_def]]
    by (auto simp: security_bytes_def storage_object_def)
  let ?q = "request_row c r (digest_bytes ob) at (resid, COMMAND_REQUEST_MARKER)"
  let ?d1 = "db\<lparr>t_contexts := t_contexts db @ [context_row c (digest_bytes cb)]\<rparr>"
  let ?d2 = "?d1\<lparr>t_requests := t_requests db @ [?q]\<rparr>"
  obtain ns where ns: "insert_scopes (digest_bytes sb, sb) ?d2 = Inr (?d2\<lparr>t_scopes := ns\<rparr>)"
      "map_of ns (digest_bytes sb) = Some sb"
    using scopes_inserted [of ?d2 sb] sc ne(1) by auto
  have 1: "insert_context (context_row c (digest_bytes cb)) db = Inr ?d1"
    using fresh(1) by (simp add: insert_context_def taken_iff context_row_def)
  have 2: "insert_request ?q ?d1 = Inr ?d2"
    using fresh(2) ne(2) by (auto simp: insert_request_def taken_iff request_row_def has_context_def context_row_def
        list_ex_mem)
  have z: "zw_authorization_decision_id (decision_row c r a x y) = ad_authorization_decision_id a"
    "zw_allowed (decision_row c r a x y) \<in> {0, 1}" "zw_scope_content_digest (decision_row c r a x y) = y"
    "zw_authentication_context_id (decision_row c r a x y) = vc_authentication_context_id c"
    "zw_authorization_request_digest (decision_row c r a x y) = ar_request_digest r"
    "zw_storage_scope_marker (decision_row c r a x y) = V36" "zw_storage_decision_marker (decision_row c r a x y) = V36" for x y
    by (simp_all add: decision_row_def)
  have "(digest_bytes sb, sb) \<in> set ns" using ns(2) by (rule map_of_SomeD)
  then have s: "list_ex (\<lambda>s. fst s = digest_bytes sb) ns" unfolding list_ex_mem by (rule bexI [rotated]) simp
  have 3: "insert_decision (decision_row c r a (digest_bytes ab) (digest_bytes sb)) (?d2\<lparr>t_scopes := ns\<rparr>) =
      Inr (?d2\<lparr>t_scopes := ns, t_decisions := t_decisions db @ [decision_row c r a (digest_bytes ab) (digest_bytes sb)]\<rparr>)"
    using fresh(3) s z(2) [of "digest_bytes ab" "digest_bytes sb"]
    by (simp add: insert_decision_def taken_iff z has_context_def has_request_def context_row_def request_row_def)
  have st: "stored_request r (Some i) = Inr (resid, COMMAND_REQUEST_MARKER)"
    using b by (simp add: stored_request_def storage_of_request security_bytes_def)
  have "insert_security_records c r a at (Some i) db = Inr (?d2\<lparr>t_scopes := ns,
      t_decisions := t_decisions db @ [decision_row c r a (digest_bytes ab) (digest_bytes sb)]\<rparr>)"
    using b 1 2 3 ns st by (simp add: insert_security_records_def security_bytes_def VerifiedAuthenticationContext_digest_def
        AuthorizationRequest_digest_def AuthorizationDecision_digest_def digest_canonical_def)
  then show ?thesis using ns(2) by auto
qed

lemma find_append_key: "k \<notin> f ` set xs \<Longrightarrow> f y = k \<Longrightarrow> find (\<lambda>x. f x = k) (xs @ [y]) = Some y"
  by (rule find_append_new) (auto simp: image_iff)

lemma context_row_record:
  assumes "canonical_json_bytes (VerifiedAuthenticationContext_canonical_value c) = Inr cb"
  shows "\<exists>x. authentication_record_from_row (context_row c (digest_bytes cb)) = Inr x \<and> xr_canonical_bytes x = cb"
  using assms by (simp add: authentication_record_from_row_def context_row_def
      VerifiedAuthenticationContext_canonical_value_def)

lemma decision_row_record:
  assumes "canonical_json_bytes (AuthorizationDecision_canonical_value a) = Inr ab"
    and "canonical_json_bytes (jlist (map jtext (ad_effective_scopes a))) = Inr sb"
    and "map_of ns (digest_bytes sb) = Some sb"
    and "ad_authentication_context_id a = vc_authentication_context_id c"
    and "ad_authorization_request_digest a = ar_request_digest r"
  shows "\<exists>z. decision_record_from_row ns (decision_row c r a (digest_bytes ab) (digest_bytes sb)) = Inr z \<and>
    zr_canonical_bytes z = ab \<and> zr_canonical_digest z = digest_bytes ab"
proof -
  have "PStr True \<circ> cps_of = jtext" by (simp add: fun_eq_iff jtext_def)
  then show ?thesis
    using assms scope_content_accepted [OF assms(2)]
    by (cases "ad_allowed a")
      (simp_all add: decision_record_from_row_def decision_row_def AuthorizationDecision_canonical_value_def)
qed

lemma request_row_pending:
  assumes "security_bytes c r a i cb ob ab sb resid" and "unsigned_request r b"
  shows "pending_command_request_bytes (request_row c r (digest_bytes ob) at (resid, COMMAND_REQUEST_MARKER)) ob i = Inr ob"
proof -
  let ?q = "request_row c r (digest_bytes ob) at (resid, COMMAND_REQUEST_MARKER)"
  have o: "canonical_json_bytes (AuthorizationRequest_canonical_value r) = Inr ob"
    "canonical_json_bytes (storage_object i) = Inr resid"
    using assms(1) by (simp_all add: security_bytes_def)
  have "canonical_object ob = Inr (view (AuthorizationRequest_canonical_value r))"
    using canonical_object_bytes [OF request_value_wf o(1)] by (simp add: AuthorizationRequest_canonical_value_def)
  moreover have "authenticate_request ?q ob = Inr ()"
    by (rule authenticated_request [OF o(1) assms(2)]) (simp_all add: request_row_def)
  ultimately show ?thesis
    using o(2) by (simp add: pending_command_request_bytes_def storage_of_request_json as_persistence_def request_row_def)
qed

lemma security_phase:
  assumes b: "security_bytes c r a i cb ob ab sb resid"
    and fresh: "vc_authentication_context_id c \<notin> xw_authentication_context_id ` set (t_contexts db)"
      "ar_request_digest r \<notin> qw_request_digest ` set (t_requests db)"
      "ad_authorization_decision_id a \<notin> zw_authorization_decision_id ` set (t_decisions db)"
    and sc: "\<forall>s \<in> set (t_scopes db). fst s = digest_bytes (snd s) \<and> \<not> collides (snd s) sb"
      "distinct (map fst (t_scopes db))"
    and u: "unsigned_request r ub"
    and ids: "ad_authentication_context_id a = vc_authentication_context_id c"
      "ad_authorization_request_digest a = ar_request_digest r"
  shows "\<exists>ns. persist_security_records c r a at (Some i) db = Inr (db\<lparr>
      t_contexts := t_contexts db @ [context_row c (digest_bytes cb)],
      t_requests := t_requests db @ [request_row c r (digest_bytes ob) at (resid, COMMAND_REQUEST_MARKER)],
      t_scopes := ns,
      t_decisions := t_decisions db @ [decision_row c r a (digest_bytes ab) (digest_bytes sb)]\<rparr>)"
proof -
  let ?x = "context_row c (digest_bytes cb)"
  let ?q = "request_row c r (digest_bytes ob) at (resid, COMMAND_REQUEST_MARKER)"
  let ?z = "decision_row c r a (digest_bytes ab) (digest_bytes sb)"
  obtain ns where ins: "insert_security_records c r a at (Some i) db = Inr (db\<lparr>
      t_contexts := t_contexts db @ [?x], t_requests := t_requests db @ [?q], t_scopes := ns,
      t_decisions := t_decisions db @ [?z]\<rparr>)" "map_of ns (digest_bytes sb) = Some sb"
    using security_inserts [OF b fresh sc] by blast
  have f: "find (\<lambda>x. xw_authentication_context_id x = vc_authentication_context_id c) (t_contexts db @ [?x]) = Some ?x"
    "find (\<lambda>q. qw_request_digest q = ar_request_digest r) (t_requests db @ [?q]) = Some ?q"
    "find (\<lambda>z. zw_authorization_decision_id z = ad_authorization_decision_id a) (t_decisions db @ [?z]) = Some ?z"
    by (rule find_append_key [OF fresh(1)], simp add: context_row_def)
      (rule find_append_key [OF fresh(2)], simp add: request_row_def,
       rule find_append_key [OF fresh(3)], simp add: decision_row_def)
  have cbs: "canonical_json_bytes (VerifiedAuthenticationContext_canonical_value c) = Inr cb"
    "canonical_json_bytes (AuthorizationRequest_canonical_value r) = Inr ob"
    "canonical_json_bytes (AuthorizationDecision_canonical_value a) = Inr ab"
    "canonical_json_bytes (jlist (map jtext (ad_effective_scopes a))) = Inr sb"
    using b by (simp_all add: security_bytes_def)
  obtain xr where xr: "authentication_record_from_row ?x = Inr xr" "xr_canonical_bytes xr = cb"
    using context_row_record [OF cbs(1)] by blast
  obtain zr where zr: "decision_record_from_row ns ?z = Inr zr" "zr_canonical_bytes zr = ab" "zr_canonical_digest zr = digest_bytes ab"
    using decision_row_record [OF cbs(3,4) ins(2) ids] by blast
  have q: "qw_storage_request_marker ?q = COMMAND_REQUEST_MARKER" "qw_canonical_record_digest ?q = digest_bytes ob"
    "xw_canonical_digest ?x = digest_bytes cb"
    by (simp_all add: request_row_def context_row_def)
  have "retained_request_bytes d r (Some i) ?q = Inr ob" for d
    using request_row_pending [OF b u] by (simp add: retained_request_bytes_def q cbs)
  then show ?thesis
    using ins(1) f xr zr q by (intro exI [of _ ns])
      (simp add: persist_security_records_def cbs VerifiedAuthenticationContext_digest_def
        AuthorizationRequest_digest_def AuthorizationDecision_digest_def digest_canonical_def)
qed

section \<open>The rows of a command are written\<close>

lemma log_versions_below:
  "log_ok hs \<Longrightarrow> h \<in> set hs \<Longrightarrow> ev_aggregate_version (u_event h) \<le> int (version_count (unit_target h) hs)"
proof (induction rule: log_ok.induct)
  case (log_append hs h')
  then show ?case by (auto simp: unit_next_def)
qed simp

lemma next_version_free:
  assumes "store_inv st db hs" and "v \<in> set (t_versions db)"
    and "(vw_aggregate_type v, vw_aggregate_id v) = k"
  shows "vw_aggregate_version v < int (version_count k hs) + 1"
proof -
  obtain h where h: "h \<in> set hs" "v = u_version h"
    using assms(2) store_invD(2) [OF assms(1)] by (auto simp: history_of_def)
  have "unit_target h = k" "vw_aggregate_version v = ev_aggregate_version (u_event h)"
    using store_invD(6) [OF assms(1) h(1)] h(2) assms(3) by (simp_all add: unit_coherent_def Let_def)
  then show ?thesis using log_versions_below [OF store_invD(3) [OF assms(1)] h(1)] by simp
qed

lemma seq_free:
  assumes "store_inv st db hs" and "r \<in> set (t_events db)"
  shows "row_seq r < int (length hs) + 1"
proof -
  have "map row_seq (t_events db) = map int [1..<length hs + 1]"
    using log_seqs [OF store_invD(3) [OF assms(1)]] store_invD(2) [OF assms(1)] by (simp add: history_of_def comp_def)
  then have "row_seq r \<in> set (map int [1..<length hs + 1])" using assms(2) by (metis image_eqI list.set_map)
  then show ?thesis by auto
qed

lemma aggregate_written:
  assumes "heads_ok hs (t_aggregates db)" and "resolve_version db g = Inr (current, nv)"
    and "t_aggregates d = t_aggregates db"
  shows "\<exists>aggs. write_aggregate g current nv at d = Inr (d\<lparr>t_aggregates := aggs\<rparr>)"
proof (cases current)
  case None
  then have "nv = 1" "find (\<lambda>x. gw_aggregate_type x = cd_aggregate_type (g_definition g) \<and>
      gw_aggregate_id x = g_aggregate_id g) (t_aggregates db) = None"
    using assms(2) by (auto simp: resolve_version_def aggregate_head_def res_simps split: option.splits)
  then show ?thesis using None assms(3)
    by (auto simp: write_aggregate_def Let_def insert_aggregate_def taken_def list_ex_mem find_None_all)
next
  case (Some v)
  then obtain x where x: "find (\<lambda>x. gw_aggregate_type x = cd_aggregate_type (g_definition g) \<and>
      gw_aggregate_id x = g_aggregate_id g) (t_aggregates db) = Some x" "nv = gw_current_version x + 1"
    using assms(2) by (auto simp: resolve_version_def aggregate_head_def res_simps split: option.splits)
  have d: "distinct (map head_key (t_aggregates db))" using assms(1) by (simp add: heads_ok_def)
  have "y = x" if "y \<in> set (t_aggregates db)" "gw_aggregate_type y = cd_aggregate_type (g_definition g) \<and>
      gw_aggregate_id y = g_aggregate_id g" for y
    using find_Some_iff_split [OF x(1)] distinct_map_unique [OF d that(1), of x] that(2) by (simp add: head_key_def)
  then have "list_all (\<lambda>y. gw_aggregate_type y = cd_aggregate_type (g_definition g) \<and>
      gw_aggregate_id y = g_aggregate_id g \<longrightarrow> nv = gw_current_version y + 1) (t_aggregates d)"
    using x(2) assms(3) by (auto simp: list_all_iff)
  then show ?thesis using Some by (auto simp: write_aggregate_def Let_def update_aggregate_def)
qed

text \<open>The references of a command are there.\<close>

definition references_stored :: "authority_db \<Rightarrow> AuthorizedCommandGrant \<Rightarrow> string \<Rightarrow> bool" where
  "references_stored db g dd = (has_schema db (rp_schema_contract_digest (g_payload g)) \<and> has_definition db dd \<and>
     has_context db (vc_authentication_context_id (g_authentication g)) \<and>
     has_request db (ar_request_digest (g_authorization_request g)) (vc_authentication_context_id (g_authentication g)) \<and>
     has_decision db (ad_authorization_decision_id (g_authorization g))
       (vc_authentication_context_id (g_authentication g)) (ar_request_digest (g_authorization_request g)))"

lemma references_kept:
  assumes "t_schemas d = t_schemas db" "t_definitions d = t_definitions db" "t_contexts d = t_contexts db"
    "t_requests d = t_requests db" "t_decisions d = t_decisions db"
  shows "references_stored d g dd = references_stored db g dd"
  using assms by (simp add: references_stored_def has_schema_def has_definition_def has_context_def has_request_def
      has_decision_def)

definition grant_causation_shape :: "AuthorizedCommandGrant \<Rightarrow> bool" where
  "grant_causation_shape g =
     (case g_causation_kind g of
        None \<Rightarrow> g_causation_identifier g = None \<and> g_causation_external_system g = None
      | Some k \<Rightarrow>
          k \<in> {''COMMAND'', ''EVENT''} \<and> g_causation_identifier g \<noteq> None \<and> g_causation_external_system g = None \<or>
          k = ''EXTERNAL'' \<and> g_causation_identifier g \<noteq> None \<and> g_causation_external_system g \<noteq> None)"

definition identities_fresh :: "authority_db \<Rightarrow> FreshIds \<Rightarrow> bool" where
  "identities_fresh db ids = (fid_payload ids \<notin> pw_payload_id ` set (t_payloads db) \<and>
     fid_command ids \<notin> cw_command_id ` set (t_commands db) \<and> fid_audit ids \<notin> aw_audit_id ` set (t_audits db) \<and>
     fid_event ids \<notin> row_event_id ` set (t_events db))"

definition payload_storable :: "ResolvedPayload \<Rightarrow> bool" where
  "payload_storable p = (rp_kind p = ''INLINE'' \<and> rp_inline_bytes p \<notin> {None, Some []} \<or>
     rp_kind p = ''NO_PAYLOAD'' \<and> rp_inline_bytes p = Some [])"

lemma TrustScope_value_mem: "TrustScope_value t \<in> set TRUST_SCOPES"
  by (cases t) (simp_all add: TRUST_SCOPES_def)

lemma known_causation_of_grant:
  assumes "validate_causation db g = Inr ()" and "\<forall>r \<in> set (t_events db). \<not> is_retired r"
    and "ev_causation_kind e = g_causation_kind g" "ev_causation_identifier e = g_causation_identifier g"
    and "set (t_commands db) \<subseteq> set (t_commands d)" "set (t_events db) \<subseteq> set (t_events d)"
  shows "known_causation d e"
proof -
  have "list_ex (\<lambda>c. Some (cw_command_id c) = g_causation_identifier g) (t_commands db)"
    if "g_causation_kind g = Some ''COMMAND''"
    using assms(1) that unfolding validate_causation_def by (auto simp: res_simps split: if_splits)
  moreover have "list_ex (\<lambda>r. \<not> is_retired r \<and> Some (row_event_id r) = g_causation_identifier g) (t_events db)"
    if k: "g_causation_kind g = Some ''EVENT''"
  proof -
    obtain r where "find (\<lambda>e. Some (row_event_id e) = g_causation_identifier g) (t_events db) = Some r"
      using assms(1) k unfolding validate_causation_def by (auto split: option.splits)
    from find_Some_iff_split [OF this] show ?thesis using assms(2) unfolding list_ex_mem by blast
  qed
  ultimately show ?thesis
    using assms(5,6) unfolding known_causation_def assms(3,4) list_ex_mem by blast
qed

lemma not_taken: "key r \<notin> key ` set rows \<Longrightarrow> \<not> taken key r rows"
  by (simp add: taken_iff)

definition same_history :: "authority_db \<Rightarrow> authority_db \<Rightarrow> bool" where
  "same_history d db = (t_payloads d = t_payloads db \<and> t_commands d = t_commands db \<and> t_versions d = t_versions db \<and>
     t_audits d = t_audits db \<and> t_events d = t_events db \<and> t_aggregates d = t_aggregates db)"

lemma payload_command_written:
  assumes inv: "store_inv st db hs" and d: "same_history d db"
    and h: "h = grant_unit st g ids at nv seq dd rd detail"
    and refs: "references_stored d g dd" and fresh: "identities_fresh db ids"
    and key: "(g_idempotency_namespace g, g_idempotency_key g) \<notin> unit_key ` set hs"
    and pay: "payload_storable (g_payload g)" and exp: "0 \<le> g_expected_aggregate_version g"
  shows "insert_payload (u_payload h) d = Inr (d\<lparr>t_payloads := t_payloads db @ [u_payload h]\<rparr>)"
    "insert_command (u_command h) (d\<lparr>t_payloads := t_payloads db @ [u_payload h]\<rparr>) =
       Inr (d\<lparr>t_payloads := t_payloads db @ [u_payload h], t_commands := t_commands db @ [u_command h]\<rparr>)"
proof -
  have t: "t_payloads d = t_payloads db" "t_commands d = t_commands db" "t_events d = t_events db"
    using d by (simp_all add: same_history_def)
  have f: "pw_payload_id (u_payload h) = fid_payload ids" "pw_mode (u_payload h) = rp_kind (g_payload g)"
    "pw_payload_bytes (u_payload h) = rp_inline_bytes (g_payload g)" "pw_object_admission_id (u_payload h) = None"
    "pw_schema_contract_digest (u_payload h) = rp_schema_contract_digest (g_payload g)"
    unfolding h by (simp_all add: grant_unit_def payload_row_def Let_def)
  show "insert_payload (u_payload h) d = Inr (d\<lparr>t_payloads := t_payloads db @ [u_payload h]\<rparr>)"
    using pay fresh refs unfolding insert_payload_def f t
    by (auto simp: payload_storable_def taken_iff f identities_fresh_def references_stored_def)
  let ?c = "u_command h" and ?d = "d\<lparr>t_payloads := t_payloads db @ [u_payload h]\<rparr>"
  have c: "cw_command_id ?c = fid_command ids" "cw_idempotency_namespace ?c = g_idempotency_namespace g"
    "cw_idempotency_key ?c = g_idempotency_key g" "cw_payload_id ?c = fid_payload ids"
    "cw_expected_aggregate_version ?c = g_expected_aggregate_version g" "cw_command_definition_digest ?c = dd"
    "cw_result_bytes ?c = result_marker (fid_command ids)"
    "cw_authentication_context_id ?c = vc_authentication_context_id (g_authentication g)"
    "cw_authorization_request_digest ?c = ar_request_digest (g_authorization_request g)"
    "cw_authorization_decision_id ?c = ad_authorization_decision_id (g_authorization g)"
    unfolding h by (simp_all add: grant_unit_def command_row_def)
  have live: "\<not> is_retired r" if "r \<in> set (t_events db)" for r by (rule inv_not_retired(1) [OF inv that])
  then have "\<not> list_ex (reserves n k) (t_events db)" "\<not> list_ex (\<lambda>e. is_retired e \<and> P e) (t_events db)" for n k P
    unfolding list_ex_mem by (metis reserves.simps(1) is_retired.simps(2) LedgerRow.exhaust)+
  moreover have "(cw_idempotency_namespace ?c, cw_idempotency_key ?c) \<notin>
      (\<lambda>c. (cw_idempotency_namespace c, cw_idempotency_key c)) ` set (t_commands db)"
    using key store_invD(2) [OF inv] by (auto simp: history_of_def unit_key_def c)
  moreover have "result_marker (fid_command ids) \<noteq> []" by (simp add: result_marker_def COMMAND_RESULT_PREFIX_def)
  moreover have "references_stored ?d g dd" using refs references_kept [of ?d d] by simp
  moreover have "has_payload ?d (fid_payload ids)" by (simp add: has_payload_def f)
  ultimately show "insert_command ?c ?d =
      Inr (d\<lparr>t_payloads := t_payloads db @ [u_payload h], t_commands := t_commands db @ [?c]\<rparr>)"
    using fresh exp unfolding insert_command_def
    by (simp add: taken_iff c t identities_fresh_def references_stored_def)
qed

lemma version_audit_written:
  assumes inv: "store_inv st db hs"
    and h: "h = grant_unit st g ids at nv (int (length hs) + 1) dd rd detail"
    and nv: "nv = int (version_count (unit_target h) hs) + 1"
    and d: "t_payloads d = t_payloads db @ [u_payload h]" "t_commands d = t_commands db @ [u_command h]"
      "t_versions d = t_versions db" "t_audits d = t_audits db"
    and refs: "references_stored d g dd" and fresh: "identities_fresh db ids"
  shows "insert_version (u_version h) d = Inr (d\<lparr>t_versions := t_versions db @ [u_version h]\<rparr>)"
    "insert_audit (u_audit h) (d\<lparr>t_versions := t_versions db @ [u_version h]\<rparr>) =
       Inr (d\<lparr>t_versions := t_versions db @ [u_version h], t_audits := t_audits db @ [u_audit h]\<rparr>)"
proof -
  let ?v = "u_version h" and ?a = "u_audit h"
  have v: "(vw_aggregate_type ?v, vw_aggregate_id ?v) = unit_target h" "vw_aggregate_version ?v = nv"
    "vw_command_id ?v = fid_command ids" "vw_payload_id ?v = fid_payload ids"
    "vw_trust_scope ?v = TrustScope_value (cd_trust_scope (g_definition g))"
    unfolding h by (simp_all add: grant_unit_def version_row_def unit_target_def command_row_def)
  have p: "pw_payload_id (u_payload h) = fid_payload ids" "cw_command_id (u_command h) = fid_command ids"
    unfolding h by simp_all
  have a: "aw_command_id ?a = fid_command ids" "aw_audit_id ?a = fid_audit ids"
    "aw_authentication_context_id ?a = vc_authentication_context_id (g_authentication g)"
    "aw_authorization_request_digest ?a = ar_request_digest (g_authorization_request g)"
    "aw_authorization_decision_id ?a = ad_authorization_decision_id (g_authorization g)"
    unfolding h by (simp_all add: grant_unit_def audit_row_def)
  have "vw_aggregate_version x \<noteq> nv" if "x \<in> set (t_versions db)"
      "(vw_aggregate_type x, vw_aggregate_id x) = unit_target h" for x
    using next_version_free [OF inv that] nv by simp
  then have "\<not> taken (\<lambda>v. (vw_aggregate_type v, vw_aggregate_id v, vw_aggregate_version v)) ?v (t_versions db)"
    using v(1,2) unfolding taken_def list_ex_mem by (metis Pair_inject)
  moreover have "fid_command ids \<notin> vw_command_id ` set (t_versions db)" "fid_command ids \<notin> aw_command_id ` set (t_audits db)"
    using fresh arg_cong [OF inv_command_ids(1) [OF inv], of set] arg_cong [OF inv_command_ids(2) [OF inv], of set]
    by (simp_all add: identities_fresh_def)
  moreover have "has_command x (fid_command ids)" "has_payload x (fid_payload ids)"
    if "t_commands x = t_commands d" "t_payloads x = t_payloads d" for x
    using that d p by (simp_all add: has_command_def has_payload_def)
  ultimately show "insert_version ?v d = Inr (d\<lparr>t_versions := t_versions db @ [?v]\<rparr>)"
    "insert_audit ?a (d\<lparr>t_versions := t_versions db @ [?v]\<rparr>) =
       Inr (d\<lparr>t_versions := t_versions db @ [?v], t_audits := t_audits db @ [?a]\<rparr>)"
    using fresh refs TrustScope_value_mem nv references_kept [of "d\<lparr>t_versions := t_versions db @ [?v]\<rparr>" d g dd]
    by (simp_all add: insert_version_def insert_audit_def v a d taken_iff identities_fresh_def references_stored_def)
qed

lemma event_written:
  assumes inv: "store_inv st db hs"
    and h: "h = grant_unit st g ids at nv (int (length hs) + 1) dd rd detail"
    and nv: "nv = int (version_count (unit_target h) hs) + 1"
    and d: "t_payloads d = t_payloads db @ [u_payload h]" "t_commands d = t_commands db @ [u_command h]"
      "t_versions d = t_versions db @ [u_version h]" "t_events d = t_events db"
    and refs: "references_stored d g dd" and fresh: "identities_fresh db ids"
    and cause: "validate_causation db g = Inr ()" "grant_causation_shape g"
    and schema: "0 < cd_event_schema_version (g_definition g)" and exp: "nv = g_expected_aggregate_version g + 1"
  shows "insert_event (u_event h) d = Inr (d\<lparr>t_events := t_events db @ [Live (u_event h)]\<rparr>)"
proof -
  let ?e = "u_event h"
  have co: "unit_coherent h"
    unfolding h by (rule grant_unit_coherent [OF exp])
  have e: "ev_command_id ?e = fid_command ids" "ev_event_id ?e = fid_event ids" "ev_payload_id ?e = fid_payload ids"
    "ev_ledger_seq ?e = int (length hs) + 1" "ev_aggregate_version ?e = nv"
    "ev_event_schema_version ?e = cd_event_schema_version (g_definition g)"
    "ev_trust_scope ?e = TrustScope_value (cd_trust_scope (g_definition g))"
    "ev_causation_kind ?e = g_causation_kind g" "ev_causation_identifier ?e = g_causation_identifier g"
    "ev_causation_external_system ?e = g_causation_external_system g"
    "ev_command_definition_digest ?e = dd" "ev_payload_schema_contract_digest ?e = rp_schema_contract_digest (g_payload g)"
    "ev_authentication_context_id ?e = vc_authentication_context_id (g_authentication g)"
    "ev_authorization_request_digest ?e = ar_request_digest (g_authorization_request g)"
    "ev_authorization_decision_id ?e = ad_authorization_decision_id (g_authorization g)"
    unfolding h by (simp_all add: grant_unit_def event_row_def Let_def)
  note co' = co [unfolded unit_coherent_def Let_def]
  have "\<exists>p \<in> set (t_payloads d). pw_payload_id p = ev_payload_id ?e \<and> payload_envelope ?e p"
    using co' d(1) by (intro bexI [of _ "u_payload h"]) simp_all
  moreover have "\<exists>c \<in> set (t_commands d). cw_command_id c = ev_command_id ?e \<and> command_envelope ?e c \<and> command_security ?e c"
    using co' d(2) by (intro bexI [of _ "u_command h"]) simp_all
  moreover have "\<exists>v \<in> set (t_versions d). vw_aggregate_type v = ev_aggregate_type ?e \<and>
      vw_aggregate_id v = ev_aggregate_id ?e \<and> vw_aggregate_version v = ev_aggregate_version ?e"
    using d(3) by (intro bexI [of _ "u_version h"]) (simp_all add: h grant_unit_def version_row_def event_row_def Let_def)
  moreover have "known_causation d ?e"
    using inv_not_retired(1) [OF inv] d(2,4) by (intro known_causation_of_grant [OF cause(1) _ e(8,9)]) auto
  moreover have "causation_shape ?e"
    using cause(2) unfolding causation_shape_def grant_causation_shape_def e(8-10) .
  moreover have "\<not> taken row_seq (Live ?e) (t_events d)"
    using seq_free [OF inv] d(4) by (fastforce simp: taken_def list_ex_mem e(4))
  moreover have "fid_event ids \<notin> row_event_id ` set (t_events d)" "fid_command ids \<notin> row_command_id ` set (t_events d)"
    using fresh d(4) arg_cong [OF inv_command_ids(3) [OF inv], of set] by (simp_all add: identities_fresh_def)
  moreover have "has_command d (fid_command ids)" "has_payload d (fid_payload ids)"
    unfolding has_command_def has_payload_def d(1,2) by (simp_all add: h)
  moreover have "0 < nv" using nv by simp
  ultimately show ?thesis
    using refs schema TrustScope_value_mem [of "cd_trust_scope (g_definition g)"]
    unfolding insert_event_def list_ex_mem references_stored_def
    by (simp add: taken_iff e d(4))
qed

lemma write_phase:
  assumes inv: "store_inv st db hs" and d: "same_history d db"
    and h: "h = grant_unit st g ids at nv (int (length hs) + 1) dd rd detail"
    and ver: "resolve_version db g = Inr (current, nv)"
    and refs: "references_stored d g dd" and fresh: "identities_fresh db ids"
    and key: "(g_idempotency_namespace g, g_idempotency_key g) \<notin> unit_key ` set hs"
    and pay: "payload_storable (g_payload g)"
    and cause: "validate_causation db g = Inr ()" "grant_causation_shape g"
    and schema: "0 < cd_event_schema_version (g_definition g)"
  shows "\<exists>aggs. write_command g current nv at (u_payload h) (u_command h) (u_version h) (u_audit h) (u_event h) d =
    Inr (d\<lparr>t_payloads := t_payloads db @ [u_payload h], t_commands := t_commands db @ [u_command h],
      t_aggregates := aggs, t_versions := t_versions db @ [u_version h], t_audits := t_audits db @ [u_audit h],
      t_events := t_events db @ [Live (u_event h)]\<rparr>)"
proof -
  note rv = resolved_version [OF store_invD(4) [OF inv] ver]
  have k: "unit_target h = (cd_aggregate_type (g_definition g), g_aggregate_id g)" unfolding h by simp
  have nv: "nv = int (version_count (unit_target h) hs) + 1" using rv(1,2) unfolding k by simp
  have exp: "0 \<le> g_expected_aggregate_version g" using rv(2) by simp
  have t: "t_versions d = t_versions db" "t_audits d = t_audits db" "t_events d = t_events db" "t_aggregates d = t_aggregates db"
    using d by (simp_all add: same_history_def)
  note pc = payload_command_written [OF inv d h refs fresh key pay exp]
  let ?d2 = "d\<lparr>t_payloads := t_payloads db @ [u_payload h], t_commands := t_commands db @ [u_command h]\<rparr>"
  obtain aggs where ag: "write_aggregate g current nv at ?d2 = Inr (?d2\<lparr>t_aggregates := aggs\<rparr>)"
    using aggregate_written [OF store_invD(4) [OF inv] ver, of ?d2] t(4) by auto
  let ?d3 = "?d2\<lparr>t_aggregates := aggs\<rparr>"
  have r3: "references_stored ?d3 g dd" using refs references_kept [of ?d3 d] by simp
  note va = version_audit_written [OF inv h nv, of ?d3, simplified, OF t(1,2) r3 fresh]
  let ?d5 = "?d3\<lparr>t_versions := t_versions db @ [u_version h], t_audits := t_audits db @ [u_audit h]\<rparr>"
  have r5: "references_stored ?d5 g dd" using refs references_kept [of ?d5 d] by simp
  have ev: "insert_event (u_event h) ?d5 = Inr (?d5\<lparr>t_events := t_events db @ [Live (u_event h)]\<rparr>)"
    using event_written [OF inv h nv, of ?d5] t(3) r5 fresh cause schema rv(1) by simp
  show ?thesis
    unfolding write_command_def pc(1) res_bind_simps pc(2) ag va ev by auto
qed

section \<open>The compact request is rebuilt\<close>

lemma obj_permuted:
  assumes "mset kvs' = mset kvs" and "wf_pyval (obj kvs)" and "canonical_json_bytes (obj kvs) = Inr b"
  shows "canonical_json_bytes (obj kvs') = Inr b"
proof -
  let ?f = "\<lambda>p. (cps_of (fst p), view (snd p))"
  have d: "distinct (map fst kvs)" and s: "set kvs' = set kvs" and w: "wf_pyval (obj kvs')"
    using assms(2) mset_eq_setD [OF assms(1)] mset_eq_imp_distinct_iff [of "map fst kvs'" "map fst kvs"] assms(1)
    by (auto simp: obj_wf)
  have "inj_on fst (set (map ?f kvs))"
    using d by (auto simp: distinct_map inj_on_def)
  then have "sort_key fst (map ?f kvs') = sort_key fst (map ?f kvs)"
    using assms(1) by (intro sort_key_inj_key_eq [THEN trans]) (simp_all add: s)
  then have "view (obj kvs') = view (obj kvs)" by (simp add: obj_view)
  moreover have "encodable (obj kvs')"
    using assms(3) canonical_json_bytes_encodable [OF assms(2)] s by (auto simp: obj_encodable)
  ultimately show ?thesis
    using assms(3) by (simp add: canonical_json_bytes_Inr [OF w] canonical_json_bytes_Inr [OF assms(2)] encodable_def)
qed

definition rebuilt_fields :: "AuthorizationRequest \<Rightarrow> (string \<times> pyval) list" where
  "rebuilt_fields r = [
     (''request_digest'', jtext (ar_request_digest r)),
     (''authentication_context_id'', jtext (ar_authentication_context_id r)),
     (''principal_id'', jtext (ar_principal_id r)),
     (''authority_domain'', jtext (ar_authority_domain r)),
     (''operation_type'', jtext (ar_operation_type r)),
     (''required_scope'', jtext (ar_required_scope r)),
     (''aggregate_type'', jtext (ar_aggregate_type r)),
     (''event_type'', jtext (ar_event_type r)),
     (''event_schema_version'', jnum (ar_event_schema_version r)),
     (''payload_mode'', jtext (ar_payload_mode r)),
     (''payload_schema_version'', jtext (ar_payload_schema_version r)),
     (''payload_schema_contract_version'', jtext (ar_payload_schema_contract_version r)),
     (''payload_schema_contract_digest'', jtext (ar_payload_schema_contract_digest r)),
     (''payload_canonicalizer_version'', jtext (ar_payload_canonicalizer_version r)),
     (''trust_scope'', jtext (ar_trust_scope r)),
     (''security_scope'', jtext (ar_security_scope r)),
     (''retention_scope'', jtext (ar_retention_scope r)),
     (''aggregate_id'', jtext (ar_aggregate_id r)),
     (''stable_semantic_request_digest'', jtext (ar_stable_semantic_request_digest r)),
     (''command_definition_digest'', jtext (ar_command_definition_digest r)),
     (''object_class'', jopt (ar_object_class r)),
     (''allowed_use'', jopt (ar_allowed_use r))]"

lemma rebuilt_fields_mset:
  "mset (rebuilt_fields r) = mset (request_fields r @ [(''request_digest'', jtext (ar_request_digest r))])"
  by (simp add: rebuilt_fields_def request_fields_def add.commute add.left_commute add_mset_commute)

lemma py_of_leaves [simp]:
  "py_of_json (jstr s) = jtext s" "py_of_json (view (jtext s)) = jtext s" "py_of_json (view (jnum n)) = jnum n"
  "py_of_json (view (jopt m)) = jopt m" "py_of_json (case m of None \<Rightarrow> JNull | Some s \<Rightarrow> jstr s) = jopt m"
  by (auto simp: jtext_def jstr_def jnum_def jopt_def split: option.split)

lemma rebuilt_value:
  "py_of_json (JObj (map (\<lambda>p. (cps_of (fst p), view (snd p))) (rebuilt_fields r))) = obj (rebuilt_fields r)"
  by (simp add: rebuilt_fields_def obj_def del: view_leaves)

lemma rebuilt_bytes:
  assumes "canonical_json_bytes (AuthorizationRequest_canonical_value r) = Inr b"
  shows "canonical_json_bytes (obj (rebuilt_fields r)) = Inr b"
  using obj_permuted [OF rebuilt_fields_mset] request_value_wf [of r] assms
  unfolding AuthorizationRequest_canonical_value_def by blast

lemma rebuilt_unsigned_bytes:
  assumes "unsigned_request r b"
  shows "canonical_json_bytes (obj (filter (\<lambda>p. fst p \<noteq> ''request_digest'') (rebuilt_fields r))) = Inr b"
proof (rule obj_permuted)
  have "mset (filter (\<lambda>p. fst p \<noteq> ''request_digest'') (rebuilt_fields r)) =
      filter_mset (\<lambda>p. fst p \<noteq> ''request_digest'') (mset (request_fields r @ [(''request_digest'', jtext (ar_request_digest r))]))"
    by (simp only: mset_filter rebuilt_fields_mset)
  also have "\<dots> = mset (request_fields r)"
    using request_digest_not_field [of _ r] by (simp add: filter_id_conv flip: mset_filter)
  finally show "mset (filter (\<lambda>p. fst p \<noteq> ''request_digest'') (rebuilt_fields r)) = mset (request_fields r)" .
qed (use assms request_wf [of r] in \<open>simp_all add: unsigned_request_def AuthorizationRequest_unsigned_value_def\<close>)

text \<open>What verification has established of the request of a grant.\<close>

lemma verified_request:
  assumes "verify i g = Inr ()"
  shows "\<exists>ub dd. unsigned_request (g_authorization_request g) ub \<and> CommandDefinition_digest (g_definition g) = Inr dd \<and>
    request_matches g dd (g_stable_semantic_request_digest g)"
proof -
  have m: "\<exists>dd. CommandDefinition_digest (g_definition g) = Inr dd \<and>
      request_matches g dd (g_stable_semantic_request_digest g)"
    using assms unfolding verify_def res_bind_Inr_iff require_Inr_iff by blast
  have "verify_provenance g = Inr ()"
    using assms unfolding verify_def res_bind_Inr_iff require_Inr_iff by auto
  then obtain computed where "AuthorizationRequest_computed_digest (g_authorization_request g) = Inr computed"
      "ar_request_digest (g_authorization_request g) = computed"
    unfolding verify_provenance_def Let_def res_bind_Inr_iff require_Inr_iff by blast
  then have "\<exists>ub. unsigned_request (g_authorization_request g) ub"
    by (auto simp: AuthorizationRequest_computed_digest_def digest_canonical_def unsigned_request_def res_simps)
  with m show ?thesis by blast
qed

lemma payload_identity:
  assumes "validate_resolved_payload p d = Inr ()"
  shows "schema_identity_matches p d"
  using assms unfolding validate_resolved_payload_def res_bind_Inr_iff require_Inr_iff by blast

lemma prefixed_jstr: "prefixed p (jstr t) = Inr (jstr (p @ t))"
  by (simp add: prefixed_def jstr_def cps_of_def)

lemma derived_fields:
  assumes v: "verify i g = Inr ()"
    and h: "h = grant_unit st g ids at nv seq (digest_bytes b) rd detail"
    and b: "canonical_json_bytes (CommandDefinition_canonical_value (g_definition g)) = Inr b"
    and d: "definition_row_of (g_definition g) b d"
    and sb: "canonical_json_bytes (PayloadSchemaContract_canonical_value c) = Inr sb"
    and s: "schema_row_of c sb s"
    and q: "q = request_row (g_authentication g) (g_authorization_request g) qd at (resid, COMMAND_REQUEST_MARKER)"
    and c: "digest_bytes sb = rp_schema_contract_digest (g_payload g)"
      "ps_schema_version c = rp_schema_version (g_payload g)"
      "ps_payload_mode c = cd_payload_mode (g_definition g)"
      "ps_contract_version c = rp_schema_contract_version (g_payload g)"
      "ps_canonicalizer_implementation_version c = rp_canonicalizer_version (g_payload g)"
  shows "derived_request_fields q (u_command h) (Live (u_event h)) d s =
    Inr (map (\<lambda>p. (fst p, view (snd p))) (rebuilt_fields (g_authorization_request g)))"
proof -
  let ?r = "g_authorization_request g" and ?d = "g_definition g" and ?a = "g_authentication g"
  obtain ub dd where m: "CommandDefinition_digest ?d = Inr dd" "request_matches g dd (g_stable_semantic_request_digest g)"
    using verified_request [OF v] by blast
  have dd: "dd = digest_bytes b" using m(1) b by (simp add: CommandDefinition_digest_def digest_canonical_def)
  note ids = verify_bindings [OF v]
  note sm = payload_identity [OF ids(7)]
  have so: "stored_object (dr_canonical_bytes d) (dr_definition_digest d) = Inr (view (CommandDefinition_canonical_value ?d))"
    using stored_object_canonical [OF definition_value_wf b contract_is_object(2)] d by (simp add: definition_row_of_def)
  have ss: "stored_object (sr_canonical_bytes s) (sr_contract_digest s) = Inr (view (PayloadSchemaContract_canonical_value c))"
    using stored_object_canonical [OF contract_value_wf sb contract_is_object(1)] s by (simp add: schema_row_of_def)
  have qf: "qw_request_digest q = ar_request_digest ?r" "qw_authentication_context_id q = vc_authentication_context_id ?a"
    "qw_principal_id q = vc_principal_id ?a" "qw_authority_domain q = vc_authority_domain ?a"
    "qw_operation_type q = ar_operation_type ?r" "qw_required_scope q = ar_required_scope ?r"
    unfolding q by (simp_all add: request_row_def)
  have ev: "command_event_fields (u_command h) = event_command_fields (u_event h)"
    "ev_authorization_request_digest (u_event h) = ar_request_digest ?r"
    "ev_authentication_context_id (u_event h) = vc_authentication_context_id ?a"
    "ev_principal_id (u_event h) = vc_principal_id ?a"
    "event_definition_fields (u_event h) = filter (\<lambda>p. fst p \<in> set EVENT_DEFINITION_FIELDS) (definition_fields ?d)"
    unfolding h using sm
    by (simp_all add: grant_unit_def command_row_def event_row_def Let_def command_event_fields_def
        event_command_fields_def event_definition_fields_def definition_fields_def EVENT_DEFINITION_FIELDS_def
        schema_identity_matches_def)
  have co: "cw_command_definition_digest (u_command h) = digest_bytes b"
    "cw_command_definition_version (u_command h) = cd_definition_version ?d"
    "cw_command_type (u_command h) = g_command_type g" "cw_aggregate_id (u_command h) = g_aggregate_id g"
    "cw_stable_semantic_request_digest (u_command h) = g_stable_semantic_request_digest g"
    unfolding h by (simp_all add: grant_unit_def command_row_def)
  have jd: "field k (view (CommandDefinition_canonical_value ?d)) = res_of_option (Exn KeyError k) (map_of (definition_fields ?d) k)" for k
    by (simp add: field_def jget_definition)
  show ?thesis
    unfolding derived_request_fields_def so ss res_bind_simps
    using m(2) d s sm c ids(1-3)
    by (simp add: qf ev co jd dd jget_schema [THEN field_Inr] prefixed_jstr same_field_def same_def definition_fields_def request_matches_def Let_def
        definition_row_of_def schema_row_of_def schema_identity_matches_def EVENT_DEFINITION_FIELDS_def
        indexed_request_fields_def rebuilt_fields_def)
qed

definition rebuilt_items :: "AuthorizationRequest \<Rightarrow> (cps \<times> json) list" where
  "rebuilt_items r = map (\<lambda>p. (cps_of (fst p), view (snd p))) (rebuilt_fields r)"

lemma map_of_rebuilt: "map_of (rebuilt_items r) (cps_of k) = map_option view (map_of (rebuilt_fields r) k)"
  unfolding rebuilt_items_def by (rule map_of_cps)

lemma py_of_rebuilt: "py_of_json (JObj (rebuilt_items r)) = obj (rebuilt_fields r)"
  unfolding rebuilt_items_def by (rule rebuilt_value)

lemma py_of_rebuilt_unsigned:
  "py_of_json (without_field ''request_digest'' (JObj (rebuilt_items r))) =
     obj (filter (\<lambda>p. fst p \<noteq> ''request_digest'') (rebuilt_fields r))"
  by (simp add: rebuilt_items_def rebuilt_fields_def obj_def del: view_leaves)

lemma obj_keys: "(case view (obj kvs) of JObj ps \<Rightarrow> set (map fst ps) = K | _ \<Rightarrow> False) \<longleftrightarrow> cps_of ` fst ` set kvs = K"
  by (simp add: obj_view image_image)

text \<open>A request that was stored in compact form reads back as the authorised request.\<close>

lemma rebuilt_request:
  assumes "command_request_backing db (cps_of i) = Inr (c, e, d, s)"
    and "derived_request_fields q c e d s = Inr (map (\<lambda>p. (fst p, view (snd p))) (rebuilt_fields r))"
    and "cw_command_id c = i" and "canonical_json_bytes (storage_object i) = Inr resid"
    and "canonical_json_bytes (AuthorizationRequest_canonical_value r) = Inr ob" and "unsigned_request r ub"
    and q: "q = request_row a r (digest_bytes ob) at (resid, COMMAND_REQUEST_MARKER)"
    and ids: "ar_authentication_context_id r = vc_authentication_context_id a" "ar_principal_id r = vc_principal_id a"
      "ar_authority_domain r = vc_authority_domain a"
  shows "\<exists>x. request_record_from_row db q = Inr x \<and> qr_canonical_bytes x = ob"
proof -
  have co: "canonical_object resid = Inr (view (storage_object i))"
    using canonical_object_bytes [OF storage_object_wf assms(4)] by (simp add: storage_object_def)
  have sj: "jget ''storage_version'' (view (storage_object i)) = Some (JInt 1)"
    "jget ''command_id'' (view (storage_object i)) = Some (jstr i)"
    "jget ''residual'' (view (storage_object i)) = Some (JObj [])"
    unfolding storage_object_def by (subst jget_obj; simp)+
  have keys: "case view (storage_object i) of JObj ps \<Rightarrow>
      set (map fst ps) = cps_of ` {''storage_version'', ''command_id'', ''residual''} | _ \<Rightarrow> False"
    by (simp add: storage_object_def obj_keys)
  have qf: "qw_storage_request_marker q = COMMAND_REQUEST_MARKER" "qw_storage_request_residual q = resid"
    "qw_canonical_record_digest q = digest_bytes ob" "qw_request_digest q = ar_request_digest r"
    "qw_authentication_context_id q = ar_authentication_context_id r" "qw_principal_id q = ar_principal_id r"
    "qw_authority_domain q = ar_authority_domain r" "qw_operation_type q = ar_operation_type r"
    "qw_required_scope q = ar_required_scope r"
    unfolding q by (simp_all add: request_row_def ids)
  have "restore_command_request_value q resid c e d s = Inr (JObj (rebuilt_items r))"
    using keys sj unfolding restore_command_request_value_def co res_bind_simps assms(2)
    by (simp add: same_field_def field_def same_def assms(3) as_persistence_def rebuilt_items_def comp_def)
  then have v: "command_request_value db q = Inr (JObj (rebuilt_items r))"
    using assms(1) sj marker_distinct
    by (simp add: command_request_value_def qf co field_def jstr_def as_persistence_def)
  have b: "canonical_json_bytes (py_of_json (JObj (rebuilt_items r))) = Inr ob"
    unfolding py_of_rebuilt by (rule rebuilt_bytes [OF assms(5)])
  have dg: "digest_canonical (py_of_json (without_field ''request_digest'' (JObj (rebuilt_items r)))) = Inr (ar_request_digest r)"
    using rebuilt_unsigned_bytes [OF assms(6)] assms(6)
    unfolding py_of_rebuilt_unsigned by (simp add: digest_canonical_def unsigned_request_def)
  have jg: "jget ''request_digest'' (JObj (rebuilt_items r)) = Some (jstr (ar_request_digest r))"
    "jget ''authentication_context_id'' (JObj (rebuilt_items r)) = Some (jstr (ar_authentication_context_id r))"
    "jget ''principal_id'' (JObj (rebuilt_items r)) = Some (jstr (ar_principal_id r))"
    "jget ''authority_domain'' (JObj (rebuilt_items r)) = Some (jstr (ar_authority_domain r))"
    "jget ''operation_type'' (JObj (rebuilt_items r)) = Some (jstr (ar_operation_type r))"
    "jget ''required_scope'' (JObj (rebuilt_items r)) = Some (jstr (ar_required_scope r))"
    unfolding jget.simps map_of_rebuilt by (simp_all add: rebuilt_fields_def)
  show ?thesis
    unfolding request_record_from_row_def qf v
    by (simp add: b dg jg as_persistence_def del: py_of_json.simps jget.simps without_field.simps)
qed

section \<open>The result decodes\<close>

lemma cps_of_scalar: "scalar_text (cps_of s)"
  using cps_of_bound [of _ s] by (fastforce simp: scalar_text_def scalar_def is_surrogate_def)

lemma marker_names_command:
  "utf8_decode (drop (length COMMAND_RESULT_PREFIX) (result_marker i)) = Some (cps_of i)"
  by (simp add: result_marker_def utf8_roundtrip cps_of_scalar)

lemma marker_expands:
  assumes "find (\<lambda>c. cps_of (cw_command_id c) = cps_of i) (t_commands db) = Some c"
    and "find (\<lambda>e. cps_of (row_command_id e) = cps_of i) (t_events db) = Some e"
    and "cw_command_id c = i" and "cw_result_bytes c = result_marker i" and "cw_result_digest c = digest_bytes b"
    and "(cw_command_id c, cw_aggregate_type c, cw_aggregate_id c) =
      (res_command_id (event_result_fields e), res_aggregate_type (event_result_fields e), res_aggregate_id (event_result_fields e))"
    and "canonical_json_bytes (result_value (event_result_fields e)) = Inr b"
  shows "command_result_bytes db (result_marker i) (digest_bytes b) (Some i) = Inr b"
proof -
  have "has_result_prefix (result_marker i)" by (simp add: has_result_prefix_def result_marker_def)
  moreover have "restore_command_result c (result_marker i) (event_result_fields e) = Inr b"
    using assms(3,5-7) by (simp add: restore_command_result_def event_result_bytes_def as_persistence_def)
  ultimately show ?thesis
    using assms(1-5) by (simp add: command_result_bytes_def marker_names_command as_persistence_def)
qed

lemma result_decodes:
  assumes "command_result_bytes db s d (Some i) = Inr b" and "canonical_json_bytes (result_value r) = Inr b"
    and "digest_bytes b = d" and "res_command_id r = i" and "res_aggregate_version r = Some n"
  shows "\<exists>out. decode_result db s d False (Some i) = Inr out"
proof -
  have k: "case view (result_value r) of JObj ps \<Rightarrow> set (map fst ps) = cps_of ` set RESULT_FIELDS | _ \<Rightarrow> False"
    unfolding result_value_def obj_keys by (simp add: RESULT_FIELDS_def)
  note j = result_jget [of r, THEN field_Inr]
  show ?thesis
    unfolding decode_result_def assms(1) res_bind_simps decode_canonical_view [OF result_value_wf assms(2)]
    using k assms(3-5) by (simp add: j result_jget)
qed

section \<open>A commit goes through\<close>

text \<open>
  What a new command needs: a verified grant whose contracts are registered, whose identity and records
  are new, whose cause is recorded and whose expected version is the current one.
\<close>

definition contracts_registered :: "EventStore \<Rightarrow> AuthorizedCommandGrant \<Rightarrow> PayloadSchemaContract \<Rightarrow> bool" where
  "contracts_registered st g c = (
     PayloadSchemaRegistry_resolve_exact (es_payload_schemas st) (rp_schema_version (g_payload g))
       (cd_payload_mode (g_definition g)) (rp_schema_contract_version (g_payload g))
       (rp_schema_contract_digest (g_payload g)) (rp_canonicalizer_version (g_payload g)) = Inr c \<and>
     (case CommandDefinition_digest (g_definition g) of Inl e \<Rightarrow> False | Inr d \<Rightarrow>
        CommandRegistry_resolve_exact (es_command_registry st) (cd_command_type (g_definition g))
          (cd_definition_version (g_definition g)) d = Inr (g_definition g)))"

definition records_fresh :: "authority_db \<Rightarrow> AuthorizedCommandGrant \<Rightarrow> bool" where
  "records_fresh db g = (
     vc_authentication_context_id (g_authentication g) \<notin> xw_authentication_context_id ` set (t_contexts db) \<and>
     ar_request_digest (g_authorization_request g) \<notin> qw_request_digest ` set (t_requests db) \<and>
     ad_authorization_decision_id (g_authorization g) \<notin> zw_authorization_decision_id ` set (t_decisions db))"

definition no_collisions :: "authority_db \<Rightarrow> AuthorizedCommandGrant \<Rightarrow> PayloadSchemaContract \<Rightarrow> bool" where
  "no_collisions db g c = (
     (\<forall>s \<in> set (t_schemas db). \<not> collides (sr_canonical_bytes s) (bytes_of (PayloadSchemaContract_canonical_value c))) \<and>
     (\<forall>d \<in> set (t_definitions db). \<not> collides (dr_canonical_bytes d) (bytes_of (CommandDefinition_canonical_value (g_definition g)))) \<and>
     (\<forall>s \<in> set (t_scopes db). \<not> collides (snd s)
        (bytes_of (jlist (map jtext (ad_effective_scopes (g_authorization g)))))))"

definition commit_enabled :: "EventStore \<Rightarrow> authority_db \<Rightarrow> AuthorizedCommandGrant \<Rightarrow> FreshIds \<Rightarrow> bool" where
  "commit_enabled st db g ids = (
     verify (es_issuer st) g = Inr () \<and> g_replay_of_command_id g = None \<and>
     command_by_key db (g_idempotency_namespace g) (g_idempotency_key g) = None \<and>
     identities_fresh db ids \<and> records_fresh db g \<and> payload_storable (g_payload g) \<and>
     validate_causation db g = Inr () \<and> grant_causation_shape g \<and>
     aggregate_head db (cd_aggregate_type (g_definition g)) (g_aggregate_id g) =
       (if g_expected_aggregate_version g = 0 then None else Some (g_expected_aggregate_version g)) \<and>
     0 < cd_event_schema_version (g_definition g) \<and>
     safe_int (g_expected_aggregate_version g + 1) \<and> safe_int (next_ledger_seq db))"

lemma enabled_version:
  assumes "commit_enabled st db g ids"
  shows "\<exists>current. resolve_version db g = Inr (current, g_expected_aggregate_version g + 1)"
  using assms unfolding commit_enabled_def resolve_version_def by (auto split: if_splits)

lemma enabled_payload:
  assumes "payload_storable (g_payload g)" and "validate_resolved_payload (g_payload g) (g_definition g) = Inr ()"
  shows "\<exists>mode. PayloadMode_of (rp_kind (g_payload g)) = Some mode \<and> object_payload_commit_guard g = Inr () \<and>
    retained_payload mode (g_payload g) = Inr None"
proof -
  let ?p = "g_payload g"
  have k: "rp_kind ?p = PayloadMode_value (cd_payload_mode (g_definition g))"
    using payload_identity [OF assms(2)] by (simp add: schema_identity_matches_def)
  have m: "cd_payload_mode (g_definition g) \<noteq> OBJECT_ADMISSION"
    using assms(1) k by (cases "cd_payload_mode (g_definition g)") (auto simp: payload_storable_def)
  then obtain b where b: "rp_inline_bytes ?p = Some b" "digest_bytes b = rp_digest ?p"
    using assms(2) unfolding validate_resolved_payload_def
    by (cases "cd_payload_mode (g_definition g)") (auto simp: res_simps split: option.splits)
  have "object_payload_commit_guard g = Inr ()"
    using m k by (cases "cd_payload_mode (g_definition g)") (simp_all add: object_payload_commit_guard_def)
  moreover have "retained_payload (cd_payload_mode (g_definition g)) ?p = Inr None"
    using m b by (simp add: retained_payload_def)
  ultimately show ?thesis by (intro exI [of _ "cd_payload_mode (g_definition g)"]) (simp add: k)
qed

lemma find_distinct_key:
  assumes "distinct (map f xs)" and "x \<in> set xs" and "f x = k"
  shows "find (\<lambda>y. f y = k) xs = Some x"
  using find_unique [OF assms(1,2)] assms(3) by simp

text \<open>The contract rows that the store holds for a grant.\<close>

definition contract_rows ::
  "EventStore \<Rightarrow> authority_db \<Rightarrow> AuthorizedCommandGrant \<Rightarrow> PayloadSchemaContract \<Rightarrow> bytes \<Rightarrow> bytes \<Rightarrow> DefinitionRow \<Rightarrow> SchemaRow \<Rightarrow> bool" where
  "contract_rows st db g c b sb d s = (contracts_ok st db \<and>
     canonical_json_bytes (CommandDefinition_canonical_value (g_definition g)) = Inr b \<and>
     canonical_json_bytes (PayloadSchemaContract_canonical_value c) = Inr sb \<and>
     d \<in> set (t_definitions db) \<and> definition_row_of (g_definition g) b d \<and>
     s \<in> set (t_schemas db) \<and> schema_row_of c sb s \<and>
     digest_bytes sb = rp_schema_contract_digest (g_payload g) \<and>
     ps_schema_version c = rp_schema_version (g_payload g) \<and> ps_payload_mode c = cd_payload_mode (g_definition g) \<and>
     ps_contract_version c = rp_schema_contract_version (g_payload g) \<and>
     ps_canonicalizer_implementation_version c = rp_canonicalizer_version (g_payload g))"

lemma backing_of_new_command:
  assumes "t_commands db' = cs @ [u_command h]" "t_events db' = es @ [Live (u_event h)]"
    and h: "h = grant_unit st g ids at nv seq (digest_bytes b) rd detail"
    and "fid_command ids \<notin> cw_command_id ` set cs" "fid_command ids \<notin> row_command_id ` set es"
    and r: "contract_rows st db g c b sb d s" and t: "t_definitions db' = t_definitions db" "t_schemas db' = t_schemas db"
    and m: "validate_resolved_payload (g_payload g) (g_definition g) = Inr ()"
  shows "command_request_backing db' (cps_of (fid_command ids)) = Inr (u_command h, Live (u_event h), d, s)"
proof -
  have c: "cw_command_id (u_command h) = fid_command ids" "row_command_id (Live (u_event h)) = fid_command ids"
    "cw_command_definition_digest (u_command h) = digest_bytes b"
    unfolding h by simp_all
  have "find (\<lambda>c. cw_command_id c = fid_command ids) (t_commands db') = Some (u_command h)"
    unfolding assms(1) by (rule find_append_key [OF assms(4) c(1)])
  moreover have "find (\<lambda>e. row_command_id e = fid_command ids) (t_events db') = Some (Live (u_event h))"
    unfolding assms(2) by (rule find_append_key [OF assms(5) c(2)])
  moreover have "find (\<lambda>d. dr_definition_digest d = digest_bytes b) (t_definitions db') = Some d"
    using r unfolding t contract_rows_def contracts_ok_def definition_row_of_def by (intro find_distinct_key) blast+
  moreover have "find (\<lambda>s. sr_contract_digest s = dr_payload_schema_contract_digest d) (t_schemas db') = Some s"
    using r payload_identity [OF m]
    unfolding t contract_rows_def contracts_ok_def definition_row_of_def schema_row_of_def schema_identity_matches_def
    by (intro find_distinct_key) auto
  ultimately show ?thesis unfolding backing_Inr using c by simp
qed

lemma append_goes_through:
  assumes inv: "store_inv st db hs" and en: "commit_enabled st db g ids"
    and d: "same_history d3 db" and refs: "references_stored d3 g (digest_bytes b)"
    and rows: "contract_rows st d3 g c b sb d s"
    and sec: "security_bytes (g_authentication g) (g_authorization_request g) a (fid_command ids) cb ob ab scb resid"
    and q: "t_requests d3 = rs @ [request_row (g_authentication g) (g_authorization_request g) (digest_bytes ob) at
        (resid, COMMAND_REQUEST_MARKER)]"
      "ar_request_digest (g_authorization_request g) \<notin> qw_request_digest ` set rs"
    and ver: "resolve_version db g = Inr (current, g_expected_aggregate_version g + 1)"
  shows "\<exists>out db'. append_command st g ids at None (current, g_expected_aggregate_version g + 1) d3 = Inr (out, db')"
proof -
  let ?i = "fid_command ids" and ?nv = "g_expected_aggregate_version g + 1" and ?r = "g_authorization_request g"
  let ?q = "request_row (g_authentication g) ?r (digest_bytes ob) at (resid, COMMAND_REQUEST_MARKER)"
  have v: "verify (es_issuer st) g = Inr ()" using en by (simp add: commit_enabled_def)
  have t: "t_commands d3 = t_commands db" "t_events d3 = t_events db" using d by (simp_all add: same_history_def)
  have seq: "next_ledger_seq d3 = int (length hs) + 1" "next_ledger_seq db = int (length hs) + 1"
    using history_seq [OF store_invD(2,3) [OF inv]] t by (simp_all add: next_ledger_seq_def)
  let ?res = "result_fields g ids ?nv (int (length hs) + 1)"
  have "encodable (result_value ?res)"
    using en seq(2) by (simp add: commit_enabled_def result_value_def result_fields_def obj_encodable)
  then obtain rb where rb: "canonical_json_bytes (result_value ?res) = Inr rb"
    using obj_bytes [OF result_value_wf] by blast
  obtain u sig where u: "grant_unsigned_value g = Inr u" "issuer_signature (es_issuer st) u = Inr sig"
    using v unfolding verify_def res_bind_Inr_iff by blast
  then obtain detail where detail: "res_bind (grant_unsigned_value g) digest_canonical = Inr detail"
    by (auto simp: issuer_signature_def digest_canonical_def res_simps)
  have dd: "CommandDefinition_digest (g_definition g) = Inr (digest_bytes b)"
    using rows by (simp add: contract_rows_def CommandDefinition_digest_def digest_canonical_def)
  define h where h: "h = grant_unit st g ids at ?nv (int (length hs) + 1) (digest_bytes b) (digest_bytes rb) detail"
  have compact: "compact_command_result (?i, cd_aggregate_type (g_definition g), g_aggregate_id g) (digest_bytes rb) rb ?res =
      Inr (result_marker ?i)"
    using rb by (simp add: compact_command_result_def event_result_bytes_def as_persistence_def result_fields_def)
  have key: "(g_idempotency_namespace g, g_idempotency_key g) \<notin> unit_key ` set hs"
    using en inv_command_by_key(2) [OF inv] by (simp add: commit_enabled_def)
  obtain aggs where w: "write_command g current ?nv at (u_payload h) (u_command h) (u_version h) (u_audit h) (u_event h) d3 =
      Inr (d3\<lparr>t_payloads := t_payloads db @ [u_payload h], t_commands := t_commands db @ [u_command h],
      t_aggregates := aggs, t_versions := t_versions db @ [u_version h], t_audits := t_audits db @ [u_audit h],
      t_events := t_events db @ [Live (u_event h)]\<rparr>)" (is "_ = Inr ?d4")
    using write_phase [OF inv d h ver refs _ key] en by (auto simp: commit_enabled_def)
  have fresh: "?i \<notin> cw_command_id ` set (t_commands db)" "?i \<notin> row_command_id ` set (t_events db)"
    using en arg_cong [OF inv_command_ids(3) [OF inv], of set] by (simp_all add: commit_enabled_def identities_fresh_def)
  have bk: "command_request_backing ?d4 (cps_of ?i) = Inr (u_command h, Live (u_event h), d, s)"
    by (rule backing_of_new_command [OF _ _ h fresh rows _ _ verify_bindings(7) [OF v]]) simp_all
  obtain ub where ub: "unsigned_request ?r ub" using verified_request [OF v] by blast
  have derivd: "derived_request_fields ?q (u_command h) (Live (u_event h)) d s =
      Inr (map (\<lambda>p. (fst p, view (snd p))) (rebuilt_fields ?r))"
    using rows unfolding contract_rows_def by (intro derived_fields [OF v h _ _ _ _ refl]) blast+
  have ob: "canonical_json_bytes (storage_object ?i) = Inr resid"
    "canonical_json_bytes (AuthorizationRequest_canonical_value ?r) = Inr ob"
    using sec by (simp_all add: security_bytes_def)
  obtain x where x: "request_record_from_row ?d4 ?q = Inr x"
    using rebuilt_request [OF bk derivd _ ob ub refl verify_bindings(1-3) [OF v]] h by auto
  have "find (\<lambda>q. qw_request_digest q = ar_request_digest ?r) (t_requests ?d4) = Some ?q"
    using q by (simp add: find_append_key request_row_def)
  moreover have hf: "cw_command_id (u_command h) = ?i" "cw_result_bytes (u_command h) = result_marker ?i"
    "cw_result_digest (u_command h) = digest_bytes rb"
    "event_result_fields (Live (u_event h)) = ?res"
    "(cw_command_id (u_command h), cw_aggregate_type (u_command h), cw_aggregate_id (u_command h)) =
      (res_command_id ?res, res_aggregate_type ?res, res_aggregate_id ?res)"
    unfolding h by (simp_all add: result_fields_def grant_unit_def event_row_def command_row_def Let_def)
  have "command_result_bytes ?d4 (result_marker ?i) (digest_bytes rb) (Some ?i) = Inr rb"
    using hf rb fresh by (intro marker_expands [where c = "u_command h" and e = "Live (u_event h)"])
      (simp_all add: find_append_key h)
  then obtain out where "decode_result ?d4 (result_marker ?i) (digest_bytes rb) False (Some ?i) = Inr out"
    using result_decodes [OF _ rb refl, of ?d4 "result_marker ?i" ?i ?nv] by (auto simp: result_fields_def)
  ultimately show ?thesis
    using rb compact dd detail w x
    unfolding append_command_def Let_def seq by (simp add: h grant_unit_def result_fields_def)
qed

lemma scopes_digests:
  assumes "security_ok db" and "s \<in> set (t_scopes db)"
  shows "fst s = digest_bytes (snd s)"
  using security_okD(2) [OF assms] by (auto simp: scope_content_from_row_def res_simps)

lemma contracts_stored:
  assumes st: "store_built st" and ok: "contracts_ok st db"
    and reg: "contracts_registered st g c" and nc: "no_collisions db g c"
    and m: "validate_resolved_payload (g_payload g) (g_definition g) = Inr ()"
  shows "\<exists>db1 db2 b sb d s nc nd. persist_schema_contract st g at db = Inr db1 \<and> persist_definition st g at db1 = Inr db2 \<and>
    contract_rows st db2 g c b sb d s \<and>
    db2 = db\<lparr>t_schemas := nc, t_definitions := nd\<rparr>"
proof -
  have built: "PayloadSchemaRegistry_built (es_payload_schemas st)" "CommandRegistry_built (es_command_registry st)"
    using st by (simp_all add: store_built_def)
  have r: "PayloadSchemaRegistry_resolve_exact (es_payload_schemas st) (rp_schema_version (g_payload g))
       (cd_payload_mode (g_definition g)) (rp_schema_contract_version (g_payload g))
       (rp_schema_contract_digest (g_payload g)) (rp_canonicalizer_version (g_payload g)) = Inr c"
    using reg by (simp add: contracts_registered_def)
  note rs = schema_resolved [OF built(1) r]
  obtain sb where sb: "canonical_json_bytes (PayloadSchemaContract_canonical_value c) = Inr sb"
      "digest_bytes sb = rp_schema_contract_digest (g_payload g)"
    using rs(4) by (auto simp: PayloadSchemaContract_contract_digest_def digest_canonical_def res_simps)
  obtain b where b: "canonical_json_bytes (CommandDefinition_canonical_value (g_definition g)) = Inr b"
      "CommandRegistry_resolve_exact (es_command_registry st) (cd_command_type (g_definition g))
        (cd_definition_version (g_definition g)) (digest_bytes b) = Inr (g_definition g)"
    using reg by (auto simp: contracts_registered_def CommandDefinition_digest_def digest_canonical_def res_bind_Inr_iff
        split: sum.splits)
  have ncs: "\<forall>s \<in> set (t_schemas db). \<not> collides (sr_canonical_bytes s) sb"
    and ncd: "\<forall>d \<in> set (t_definitions db). \<not> collides (dr_canonical_bytes d) b"
    using nc sb(1) b(1) by (simp_all add: no_collisions_def bytes_of_def)
  obtain db1 s where s: "persist_schema_contract st g at db = Inr db1" "s \<in> set (t_schemas db1)" "schema_row_of c sb s"
    using schema_phase [OF st ok r sb(1) ncs] by blast
  obtain nc1 where e1: "db1 = db\<lparr>t_schemas := nc1\<rparr>"
      "grows sr_contract_digest (\<lambda>s. (\<exists>r. schema_record_from_row s = Inr r) \<and> schema_covered st s) (t_schemas db) nc1"
    using persist_schema_effect [OF s(1) built(1)] by blast
  have ok1: "contracts_ok st db1"
    by (rule contracts_grow [OF ok]) (use e1 in \<open>simp_all add: grows_def\<close>)
  have "has_schema db1 (cd_payload_schema_contract_digest (g_definition g))"
    using s(2,3) sb(2) payload_identity [OF m] unfolding has_schema_def list_ex_mem
    by (intro bexI [of _ s]) (simp_all add: schema_row_of_def schema_identity_matches_def)
  moreover have "\<forall>d \<in> set (t_definitions db1). \<not> collides (dr_canonical_bytes d) b" using ncd e1(1) by simp
  ultimately obtain db2 d where d: "persist_definition st g at db1 = Inr db2" "d \<in> set (t_definitions db2)"
      "definition_row_of (g_definition g) b d"
    using definition_phase [OF st ok1 b(2,1)] by blast
  obtain nd where e2: "db2 = db1\<lparr>t_definitions := nd\<rparr>"
      "grows dr_definition_digest (\<lambda>d. (\<exists>r. definition_record_from_row d = Inr r) \<and> definition_covered st d) (t_definitions db1) nd"
    using persist_definition_effect [OF d(1) built(2)] by blast
  have "contracts_ok st db2"
    by (rule contracts_grow [OF ok1]) (use e2 in \<open>simp_all add: grows_def\<close>)
  then have "contract_rows st db2 g c b sb d s"
    using b(1) sb s(2,3) d(2,3) rs e2(1) by (simp add: contract_rows_def)
  moreover have "db2 = db\<lparr>t_schemas := nc1, t_definitions := nd\<rparr>" using e1(1) e2(1) by simp
  ultimately show ?thesis using s(1) d(1) by blast
qed

lemma commit_goes_through:
  assumes st: "store_built st" and inv: "store_inv st db hs" and en: "commit_enabled st db g ids"
    and reg: "contracts_registered st g c" and nc: "no_collisions db g c" and uuid: "fresh_uuid ids"
  shows "\<exists>out db'. commit st g ids now db = (Inr out, db') \<and> \<not> cmt_replayed out"
proof -
  let ?at = "UtcTimestamp_to_text now" and ?a = "g_authentication g" and ?r = "g_authorization_request g"
    and ?z = "g_authorization g" and ?i = "fid_command ids"
  have v: "verify (es_issuer st) g = Inr ()" using en by (simp add: commit_enabled_def)
  note ids = verify_bindings [OF v]
  have ok: "contracts_ok st db" "security_ok db" using store_invD(1) [OF inv] by (simp_all add: tables_ok_def)
  obtain db1 db2 b sb d s nc1 nd where p: "persist_schema_contract st g ?at db = Inr db1" "persist_definition st g ?at db1 = Inr db2"
      and rows: "contract_rows st db2 g c b sb d s"
      and db2: "db2 = db\<lparr>t_schemas := nc1, t_definitions := nd\<rparr>"
    using contracts_stored [OF st ok(1) reg nc ids(7)] by blast
  obtain ub dd where ub: "unsigned_request ?r ub" "CommandDefinition_digest (g_definition g) = Inr dd"
      "request_matches g dd (g_stable_semantic_request_digest g)"
    using verified_request [OF v] by blast
  have "safe_int (ar_event_schema_version ?r)"
    using CommandDefinition_digest_encodable [of "g_definition g"] ub(2,3) by (auto simp: request_matches_def Let_def)
  then obtain cb ob ab scb resid where sec: "security_bytes ?a ?r ?z ?i cb ob ab scb resid"
    using security_bytes_exist by blast
  have t: "t_contexts db2 = t_contexts db" "t_requests db2 = t_requests db" "t_scopes db2 = t_scopes db"
      "t_decisions db2 = t_decisions db"
    by (simp_all add: db2)
  have sc: "\<forall>s \<in> set (t_scopes db2). fst s = digest_bytes (snd s) \<and> \<not> collides (snd s) scb"
    using scopes_digests [OF ok(2)] nc sec unfolding t by (auto simp: no_collisions_def bytes_of_def security_bytes_def)
  have dist: "distinct (map fst (t_scopes db2))" using ok(2) unfolding t by (simp add: security_ok_def)
  have fresh: "vc_authentication_context_id ?a \<notin> xw_authentication_context_id ` set (t_contexts db2)"
    "ar_request_digest ?r \<notin> qw_request_digest ` set (t_requests db2)"
    "ad_authorization_decision_id ?z \<notin> zw_authorization_decision_id ` set (t_decisions db2)"
    using en unfolding t by (simp_all add: commit_enabled_def records_fresh_def)
  let ?q = "request_row ?a ?r (digest_bytes ob) ?at (resid, COMMAND_REQUEST_MARKER)"
  obtain ns where p3: "persist_security_records ?a ?r ?z ?at (Some ?i) db2 = Inr (db2\<lparr>
      t_contexts := t_contexts db2 @ [context_row ?a (digest_bytes cb)], t_requests := t_requests db2 @ [?q],
      t_scopes := ns, t_decisions := t_decisions db2 @ [decision_row ?a ?r ?z (digest_bytes ab) (digest_bytes scb)]\<rparr>)"
      (is "_ = Inr ?d3")
    using security_phase [OF sec fresh sc dist ub(1) ids(4,5)] by blast
  obtain mode where mode: "PayloadMode_of (rp_kind (g_payload g)) = Some mode" "object_payload_commit_guard g = Inr ()"
      "retained_payload mode (g_payload g) = Inr None"
    using enabled_payload [OF _ ids(7)] en by (auto simp: commit_enabled_def)
  obtain current where ver: "resolve_version db g = Inr (current, g_expected_aggregate_version g + 1)"
    using enabled_version [OF en] by blast
  have hist: "t_payloads ?d3 = t_payloads db" "t_commands ?d3 = t_commands db" "t_versions ?d3 = t_versions db"
    "t_audits ?d3 = t_audits db" "t_events ?d3 = t_events db" "t_aggregates ?d3 = t_aggregates db"
    unfolding db2 by simp_all
  have causes: "validate_causation ?d3 g = Inr ()" "resolve_version ?d3 g = Inr (current, g_expected_aggregate_version g + 1)"
    using en ver unfolding commit_enabled_def validate_causation_def resolve_version_def aggregate_head_def hist by blast+
  have rows3: "contract_rows st ?d3 g c b sb d s"
    using rows by (simp add: contract_rows_def contracts_ok_def)
  have refs: "references_stored ?d3 g (digest_bytes b)"
    using rows ids unfolding references_stored_def has_schema_def has_definition_def has_context_def has_request_def
      has_decision_def list_ex_mem contract_rows_def
    by (auto simp: schema_row_of_def definition_row_of_def context_row_def request_row_def decision_row_def intro: bexI)
  have sh: "same_history ?d3 db" by (simp add: same_history_def hist)
  obtain out db' where app: "append_command st g ids ?at None (current, g_expected_aggregate_version g + 1) ?d3 = Inr (out, db')"
    using append_goes_through [OF inv en sh refs rows3 sec _ fresh(2) ver, of ?at] by auto
  have new: "commit_new st g ids ?at db = Inr (out, db')"
    using en mode p p3 causes app by (simp add: commit_new_def commit_enabled_def)
  obtain hs' h where h: "store_inv st db' hs'" "out = unit_result False h"
    using commit_new_extends_history [OF new v st inv uuid] by blast
  have "commit st g ids now db = (Inr out, db')"
    using v en new inv_not_retired(2) [OF inv] inv_deferred [OF h(1)]
    by (simp add: commit_def store_transaction_def commit_grant_in_transaction_def commit_enabled_def)
  then show ?thesis using h(2) by (auto simp: unit_result_def)
qed

end
