(* ===== verification/Command_Service_Props.thy ===== *)
theory Command_Service_Props
  imports Command_Service
begin

text \<open>
  The properties of the command boundary, with a concrete service that runs one command to a grant:
  which commands are granted, that every granted command is accepted by the verifying side, what the
  signature and the semantic digest bind, and which definition a retry runs under.
\<close>

section \<open>A command with the required scope is granted\<close>

lemma covered_digest:
  assumes "issuer_covers i commands payloads" and "d \<in> set (CommandRegistry_definitions commands)"
  shows "\<exists>dd. CommandDefinition_digest d = Inr dd \<and> digest_text dd"
  using assms digest_canonical_text unfolding issuer_covers_def CommandDefinition_digest_def by blast

lemma fresh_command_granted:
  assumes s: "composed s" "cs_authenticate s = StaticAuthenticator_authenticate a fresh"
      "cs_authorize s = StaticAuthorizer_authorize z fresh'"
    and a: "StaticAuthenticator_init a = Inr ()" "ap_method pf = sa_method a"
      "map_of (sa_credentials a) (ap_credential pf) = Some who" "StaticPrincipal_post_init who = Inr ()"
      "now + sa_ttl_seconds a * 1000000 < MAX_INSTANT"
    and z: "StaticAuthorizer_init z = Inr ()"
      "map_of (sz_grants_by_principal z) (sp_principal_id who) = Some scopes" "cd_required_scope d \<in> set scopes"
    and c: "CommandRegistry_resolve (cs_registry s) (sc_command_type c) None = Inr d"
      "\<forall>namespace. existing_command s namespace (sc_idempotency_key c) = Inr None"
      "resolve_payload s c d = Inr p" "safe_int (sc_expected_aggregate_version c)" "sc_aggregate_id c \<noteq> []"
      "length (cd_command_type d) \<le> 120"
  shows "\<exists>g. authorize_for_commit s c pf now = Inr g"
proof -
  note parts = s(1) [unfolded composed_def]
  obtain auth where auth: "StaticAuthenticator_authenticate a fresh pf now = Inr auth"
      "vc_principal_id auth = sp_principal_id who" "VerifiedAuthenticationContext_post_init auth = Inr ()"
    using authenticate_total [OF a] by blast
  have cur: "require_current auth now = Inr ()" using static_security.context_current [OF auth(1)] .
  have d: "d \<in> set (CommandRegistry_definitions (cs_registry s))"
    using parts c(1) command_registry.resolve_current by blast
  then have dp: "CommandDefinition_post_init d = Inr ()" using parts by blast
  obtain dd where dd: "CommandDefinition_digest d = Inr dd" "digest_text dd"
    using covered_digest [OF _ d] parts by blast
  obtain n where n: "derive_idempotency_namespace auth d = Inr n" using namespace_total by blast
  obtain sem where sem: "derive_stable_semantic_request_digest d (sc_aggregate_id c)
      (sc_expected_aggregate_version c) p = Inr sem" "digest_text sem"
    using semantic_total [OF dd(1) c(4)] by blast
  obtain r where r: "build_request auth d c sem = Inr r" "digest_text (ar_request_digest r)"
    using build_request_total [OF dp dd auth(3) sem(2) c(5,6)] by blast
  obtain rdd where rv: "r = request_value auth d c sem rdd (ar_request_digest r)"
    using build_request_Inr [OF r(1)] by blast
  have ids: "ar_authentication_context_id r = vc_authentication_context_id auth"
      "ar_principal_id r = vc_principal_id auth" "ar_authority_domain r = vc_authority_domain auth"
      "ar_required_scope r = cd_required_scope d" "ar_event_schema_version r = cd_event_schema_version d"
    by (subst rv, simp add: request_value_def)+
  have allowed: "cd_required_scope d \<in> set (granted_scopes z (vc_principal_id auth))"
    using z(2,3) auth(2) by (auto simp: granted_scopes_set)
  have "token_match ''AUTHZ_ALLOWED''"
    by (simp add: token_match_def token_char_def is_alpha_def is_digit_def)
  then obtain dec where mk: "make_decision z fresh' auth r now (granted_scopes z (vc_principal_id auth)) True ''AUTHZ_ALLOWED'' = Inr dec"
    using make_decision_total [OF z(1) digest_text_accepted [OF r(2)] granted_scopes_sorted, of z "vc_principal_id auth"]
      granted_scopes_match [OF z(1)] by blast
  then have dec: "StaticAuthorizer_authorize z fresh' auth r now = Inr dec"
    using cur ids allowed by (simp add: StaticAuthorizer_authorize_def Let_def)
  have si: "safe_int (ar_event_schema_version r)"
    using CommandDefinition_digest_encodable [of d] dd(1) ids(5) by auto
  show ?thesis
    unfolding authorize_for_commit_def existing_command_def [symmetric] s(2,3) auth(1) res_bind_simps cur c(1) n
    using c(2,3) sem r(1) dec make_decision_Inr [OF mk] dd(1) si c(4)
    by (simp add: select_definition_def require_allowed_def, intro issue_total) simp_all
qed

section \<open>A concrete service\<close>

definition contract_digest_text :: string where
  "contract_digest_text = (case PayloadSchemaContract_contract_digest sample_contract of Inr d \<Rightarrow> d | Inl e \<Rightarrow> [])"

definition run_definition :: CommandDefinition where
  "run_definition = sample_definition\<lparr>cd_payload_schema_contract_digest := contract_digest_text\<rparr>"

definition run_registry :: CommandRegistry where
  "run_registry = \<lparr>by_key = [((''note.add'', ''v1''), run_definition)], current_versions = [(''note.add'', ''v1'')]\<rparr>"

definition run_schemas :: PayloadSchemaRegistry where
  "run_schemas = \<lparr>by_key = [(((''none'', NO_PAYLOAD), ''c1''), sample_contract)],
     current_versions = [((''none'', NO_PAYLOAD), ''c1'')]\<rparr>"

definition run_authenticator :: StaticAuthenticator where
  "run_authenticator = \<lparr>sa_credentials = [(''secret'', \<lparr>sp_principal_id = ''alice'', sp_assurance_class = ''TEST'',
     sp_credential_binding_id = None\<rparr>)], sa_authority_domain = ''news'', sa_method = ''STATIC_TOKEN'',
     sa_ttl_seconds = 300\<rparr>"

definition run_context_id :: string where "run_context_id = ''123e4567-e89b-42d3-a456-426614174005''"
definition run_decision_id :: string where "run_decision_id = ''123e4567-e89b-42d3-a456-426614174006''"

definition run_parts :: CommandService where
  "run_parts = \<lparr>cs_registry = run_registry, cs_payload_schemas = run_schemas,
     cs_authenticate = StaticAuthenticator_authenticate run_authenticator run_context_id,
     cs_authorize = StaticAuthorizer_authorize sample_authorizer run_decision_id,
     cs_admission_lookup = None, cs_committed_lookup = None,
     cs_issuer = \<lparr>is_secret = [], is_definition_snapshot = None, is_schema_snapshot = None\<rparr>\<rparr>"

definition run_command :: SemanticCommand where
  "run_command = \<lparr>sc_command_type = ''note.add'', sc_aggregate_id = ''123e4567-e89b-42d3-a456-426614174000'',
     sc_expected_aggregate_version = 0, sc_payload = NoPayload, sc_idempotency_key = ''k1'',
     sc_correlation_id = None, sc_causation = None\<rparr>"

definition run_proof :: AuthenticationProof where
  "run_proof = \<lparr>ap_method = ''STATIC_TOKEN'', ap_credential = ''secret''\<rparr>"

lemma contract_digest_text: "PayloadSchemaContract_contract_digest sample_contract = Inr contract_digest_text"
    "digest_text contract_digest_text"
proof -
  obtain d where d: "PayloadSchemaContract_contract_digest sample_contract = Inr d"
    using sample_contract_digest by blast
  then show e: "PayloadSchemaContract_contract_digest sample_contract = Inr contract_digest_text"
    by (simp add: contract_digest_text_def)
  then show "digest_text contract_digest_text"
    using digest_canonical_text unfolding PayloadSchemaContract_contract_digest_def by blast
qed

lemmas token_eval = token_match_def scope_match_def token_char_def scope_char_def is_alpha_def is_digit_def

lemma run_registry_built: "CommandRegistry_built run_registry"
  unfolding CommandRegistry_built_def
  by (rule exI [of _ "[run_definition]"], rule exI [of _ "[]"])
    (simp add: CommandRegistry_init_def registry_init_def run_registry_def run_definition_def sample_definition_def)

lemma run_schemas_built: "PayloadSchemaRegistry_built run_schemas"
  unfolding PayloadSchemaRegistry_built_def
  by (rule exI [of _ "[sample_contract]"], rule exI [of _ "[]"])
    (simp add: PayloadSchemaRegistry_init_def registry_init_def run_schemas_def sample_contract_def)

lemma run_definitions: "CommandRegistry_definitions run_registry = [run_definition]"
  by (simp add: CommandRegistry_definitions_def run_registry_def)

lemma run_contracts: "PayloadSchemaRegistry_contracts run_schemas = [sample_contract]"
  by (simp add: PayloadSchemaRegistry_contracts_def run_schemas_def)

lemma run_definition_valid: "CommandDefinition_post_init run_definition = Inr ()"
  by (simp add: CommandDefinition_post_init_def run_definition_def sample_definition_def res_simps token_eval
      digest_text_accepted contract_digest_text(2))

lemma run_definition_digest: "\<exists>g. CommandDefinition_digest run_definition = Inr g"
  by (simp add: CommandDefinition_digest_encodable run_definition_def sample_definition_def safe_int_def
      MIN_SAFE_INTEGER_def MAX_SAFE_INTEGER_def)

lemma run_resolve_schema: "cs_payload_schemas s = run_schemas \<Longrightarrow> resolve_schema s run_definition = Inr sample_contract"
  by (simp add: resolve_schema_def PayloadSchemaRegistry_resolve_exact_def PayloadSchemaRegistry_resolve_def
      registry_resolve_def run_schemas_def run_definition_def sample_definition_def contract_digest_text(1))
    (simp add: sample_contract_def)

lemma run_service: "\<exists>s. CommandService_init (replicate 32 7) None run_parts = Inr s"
proof -
  obtain g where g: "CommandDefinition_digest run_definition = Inr g" using run_definition_digest by blast
  have "\<exists>i. CapabilityIssuer_init (replicate 32 7) None (Some run_registry) (Some run_schemas) = Inr i"
    by (simp add: CapabilityIssuer_init_def bind_contracts_def run_definitions run_contracts definition_entry_def g
        schema_entry_def contract_digest_text(1) Let_def)
  then obtain i where i: "CapabilityIssuer_init (replicate 32 7) None (Some run_registry) (Some run_schemas) = Inr i"
    by blast
  have "validate_replay_horizon (run_parts\<lparr>cs_issuer := i\<rparr>) = Inr ()"
    using run_resolve_schema [of "run_parts\<lparr>cs_issuer := i\<rparr>"]
    by (simp add: validate_replay_horizon_def run_parts_def run_definitions)
  then show ?thesis using i by (simp add: CommandService_init_def run_parts_def Let_def)
qed

definition run_state :: CommandService where
  "run_state = (case CommandService_init (replicate 32 7) None run_parts of Inr s \<Rightarrow> s | Inl e \<Rightarrow> run_parts)"

lemma run_state: "CommandService_init (replicate 32 7) None run_parts = Inr run_state"
  using run_service by (auto simp: run_state_def)

lemma run_state_fields:
  "cs_registry run_state = run_registry" "cs_payload_schemas run_state = run_schemas"
  "cs_authenticate run_state = StaticAuthenticator_authenticate run_authenticator run_context_id"
  "cs_authorize run_state = StaticAuthorizer_authorize sample_authorizer run_decision_id"
  "cs_admission_lookup run_state = None" "cs_committed_lookup run_state = None"
proof -
  obtain i where "run_parts\<lparr>cs_issuer := i\<rparr> = run_state"
    using run_state by (auto simp: CommandService_init_def Let_def res_simps)
  note eq = this [symmetric]
  show "cs_registry run_state = run_registry" "cs_payload_schemas run_state = run_schemas"
    "cs_authenticate run_state = StaticAuthenticator_authenticate run_authenticator run_context_id"
    "cs_authorize run_state = StaticAuthorizer_authorize sample_authorizer run_decision_id"
    "cs_admission_lookup run_state = None" "cs_committed_lookup run_state = None"
    unfolding eq by (simp_all add: run_parts_def)
qed

lemma run_composed: "composed run_state"
proof -
  have "CommandRegistry_built (cs_registry run_parts)" using run_registry_built by (simp add: run_parts_def)
  then have "issuer_covers (cs_issuer run_state) (cs_registry run_state) (cs_payload_schemas run_state)"
    using CommandService_init_covers(1) [OF run_state] by blast
  then show ?thesis
    by (simp add: composed_def run_state_fields run_registry_built run_schemas_built run_definitions
        run_definition_valid)
qed

lemma run_uuid: "UUIDv4Id_parse (sc_aggregate_id run_command) = Inr (sc_aggregate_id run_command)"
proof -
  have "canonical_uuid ''123e4567-e89b-42d3-a456-426614174000''"
    unfolding canonical_uuid_def
    by (rule exI [of _ "''123e4567e89b42d3a456426614174000''"]) (simp add: hyphenate_def is_lower_hex_def)
  then show ?thesis by (simp add: UUIDv4Id_parse_Inr run_command_def version_char_def variant_char_def)
qed

lemma run_command_valid: "SemanticCommand_post_init run_command = Inr ()"
  by (simp add: SemanticCommand_post_init_def run_command_def res_simps token_eval strip_Nil_iff is_space_def utf8_len_def)

lemma run_payload: "\<exists>p. resolve_payload run_state run_command run_definition = Inr p"
proof -
  have "cd_payload_mode run_definition = NO_PAYLOAD" "sc_payload run_command = NoPayload"
      "PayloadSchemaContract_canonicalize sample_contract (Plain PNone) = Inr []"
    by (simp_all add: run_definition_def sample_definition_def run_command_def sample_contract_def
        PayloadSchemaContract_canonicalize_def)
  then show ?thesis
    by (simp add: resolve_payload_def run_resolve_schema run_state_fields contract_digest_text(1) Let_def)
qed

lemma run_resolve: "CommandRegistry_resolve run_registry ''note.add'' None = Inr run_definition"
  by (simp add: CommandRegistry_resolve_def registry_resolve_def run_registry_def)

section \<open>Properties\<close>

text \<open>
  C10. Liveness of the command boundary: with the static adapters, a principal whose credential is known
  and whose granted scopes contain the definition's required scope gets a grant for every command whose
  payload resolves and whose key has not been used, whenever the command type is at most 120 characters.
\<close>

theorem authorised_command_is_granted:
  assumes "composed s" and "cs_authenticate s = StaticAuthenticator_authenticate a fresh"
    and "cs_authorize s = StaticAuthorizer_authorize z fresh'"
    and "StaticAuthenticator_init a = Inr ()" and "ap_method pf = sa_method a"
    and "map_of (sa_credentials a) (ap_credential pf) = Some who" and "StaticPrincipal_post_init who = Inr ()"
    and "now + sa_ttl_seconds a * 1000000 < MAX_INSTANT" and "StaticAuthorizer_init z = Inr ()"
    and "map_of (sz_grants_by_principal z) (sp_principal_id who) = Some scopes"
    and "cd_required_scope d \<in> set scopes"
    and "CommandRegistry_resolve (cs_registry s) (sc_command_type c) None = Inr d"
    and "\<forall>namespace. existing_command s namespace (sc_idempotency_key c) = Inr None"
    and "resolve_payload s c d = Inr p" and "safe_int (sc_expected_aggregate_version c)"
    and "sc_aggregate_id c \<noteq> []" and "length (cd_command_type d) \<le> 120"
  shows "\<exists>g. authorize_for_commit s c pf now = Inr g"
  by (rule fresh_command_granted [OF assms])

lemma run_adapters:
  "StaticAuthenticator_init run_authenticator = Inr ()" "StaticAuthorizer_init sample_authorizer = Inr ()"
  by (simp_all add: StaticAuthenticator_init_def run_authenticator_def StaticAuthorizer_init_def
      sample_authorizer_def res_simps token_eval)

theorem authorised_command_is_granted_witness:
  "\<exists>g. authorize_for_commit run_state run_command run_proof 0 = Inr g"
proof -
  obtain p where p: "resolve_payload run_state run_command run_definition = Inr p" using run_payload by blast
  have who: "map_of (sa_credentials run_authenticator) (ap_credential run_proof) =
      Some \<lparr>sp_principal_id = ''alice'', sp_assurance_class = ''TEST'', sp_credential_binding_id = None\<rparr>"
    by (simp add: run_authenticator_def run_proof_def)
  show ?thesis
    by (rule authorised_command_is_granted [OF run_composed run_state_fields(3,4) run_adapters(1) _ who _ _
          run_adapters(2) _ _ _ _ p, where scopes = "[''note.write'']"])
      (simp_all add: run_authenticator_def run_proof_def run_command_def run_resolve run_state_fields
        sample_authorizer_def run_definition_def sample_definition_def StaticPrincipal_post_init_def res_simps
        require_optional_token_def existing_command_def safe_int_def MIN_SAFE_INTEGER_def MAX_SAFE_INTEGER_def
        MAX_INSTANT_def token_eval run_resolve [unfolded run_definition_def sample_definition_def])
qed

lemma resolve_payload_key: "resolve_payload s (c\<lparr>sc_idempotency_key := key\<rparr>) d = resolve_payload s c d"
proof -
  have "sc_payload (c\<lparr>sc_idempotency_key := key\<rparr>) = sc_payload c" by simp
  then show ?thesis unfolding resolve_payload_def by (simp only:)
qed

lemma run_granted_key:
  "\<exists>g. authorize_for_commit run_state (run_command\<lparr>sc_idempotency_key := key\<rparr>) run_proof 0 = Inr g"
proof -
  obtain p where "resolve_payload run_state run_command run_definition = Inr p" using run_payload by blast
  then have p: "resolve_payload run_state (run_command\<lparr>sc_idempotency_key := key\<rparr>) run_definition = Inr p"
    by (simp add: resolve_payload_key)
  have who: "map_of (sa_credentials run_authenticator) (ap_credential run_proof) =
      Some \<lparr>sp_principal_id = ''alice'', sp_assurance_class = ''TEST'', sp_credential_binding_id = None\<rparr>"
    by (simp add: run_authenticator_def run_proof_def)
  show ?thesis
    by (rule fresh_command_granted [OF run_composed run_state_fields(3,4) run_adapters(1) _ who _ _
          run_adapters(2) _ _ _ _ p, where scopes = "[''note.write'']"])
      (simp_all add: run_authenticator_def run_proof_def run_command_def run_resolve run_state_fields
        sample_authorizer_def run_definition_def sample_definition_def StaticPrincipal_post_init_def res_simps
        require_optional_token_def existing_command_def safe_int_def MIN_SAFE_INTEGER_def MAX_SAFE_INTEGER_def
        MAX_INSTANT_def token_eval run_resolve [unfolded run_definition_def sample_definition_def])
qed

lemma run_granted: "\<exists>g. authorize_for_commit run_state run_command run_proof 0 = Inr g"
proof -
  have "run_command\<lparr>sc_idempotency_key := ''k1''\<rparr> = run_command" by (simp add: run_command_def)
  then show ?thesis using run_granted_key [of "''k1''"] by simp
qed



text \<open>
  C12. Grants are tamper-evident: a grant accepted by the verifier under the signature of an issued
  grant is that grant, field by field, unless the two signed byte strings collide under the issuer's
  HMAC or one of the hashed pairs (definition, context, request, decision, inline payload) collides
  under SHA-256.
\<close>

theorem signed_grant_is_tamper_evident:
  assumes "issue i g0 = Inr g" and "verify i h = Inr ()" and "g_signature h = g_signature g"
    and "grant_instants g" and "grant_instants h"
    and "\<not> collision_in (grant_pairs g h)"
    and "grant_unsigned_value g = Inr v" and "grant_unsigned_value h = Inr w"
    and "bytes_of v = bytes_of w \<or>
      hmac_sha256 (is_secret i) (bytes_of v) \<noteq> hmac_sha256 (is_secret i) (bytes_of w)"
  shows "h = g"
proof -
  have "issuer_signature i v = Inr (g_signature g)" using issue_signed [OF assms(1)] assms(7) by auto
  moreover have "issuer_signature i w = Inr (g_signature g)"
    using verify_Inr_signature [OF assms(2)] assms(3,8) by auto
  ultimately have "view v = view w"
    using issuer_signature_binds grant_unsigned_value_wf assms(7-9) by blast
  then show ?thesis
    using grant_view_binds [OF assms(7,8) _ assms(4,5) _ assms(6)] assms(3) by simp
qed

lemma run_instants:
  assumes "authorize_for_commit run_state run_command run_proof 0 = Inr g"
  shows "grant_instants g"
proof -
  obtain current existing where "granted run_state run_command run_proof 0 current existing g"
    using authorize_for_commit_Inr [OF assms] by blast
  then have a: "StaticAuthenticator_authenticate run_authenticator run_context_id run_proof 0 = Inr (g_authentication g)"
      and z: "StaticAuthorizer_authorize sample_authorizer run_decision_id (g_authentication g) (g_authorization_request g) 0
        = Inr (g_authorization g)"
    unfolding granted_def run_state_fields by blast+
  have "StaticAuthenticator_authenticate x f pf t = Inr c \<Longrightarrow> vc_expires_at c = t + sa_ttl_seconds x * 1000000"
    for x f pf t c by (auto simp: StaticAuthenticator_authenticate_def Let_def res_simps)
  from this [OF a] have "vc_expires_at (g_authentication g) = 300 * 1000000"
    by (simp add: run_authenticator_def)
  then show ?thesis
    using static_security.authenticated_window [OF a] static_security.decision_bound [OF z]
    by (simp add: grant_instants_def instant_def MAX_INSTANT_def)
qed

lemma run_issued:
  assumes "authorize_for_commit run_state run_command run_proof 0 = Inr g"
  shows "\<exists>v. grant_unsigned_value g = Inr v \<and> issue (cs_issuer run_state) g = Inr g"
proof -
  obtain v where "grant_unsigned_value g = Inr v" "issuer_signature (cs_issuer run_state) v = Inr (g_signature g)"
    using authorize_for_commit_Inr [OF assms] unfolding granted_def by blast
  then show ?thesis by (simp add: issue_Inr)
qed

lemma no_self_collision: "\<not> collision_in (grant_pairs g g)"
  by (simp add: grant_pairs_def collides_def)

theorem signed_grant_is_tamper_evident_witness:
  "\<exists>g h. authorize_for_commit run_state run_command run_proof 0 = Inr g \<and>
     issue (cs_issuer run_state) (g\<lparr>g_signature := ''forged''\<rparr>) = Inr h \<and>
     verify (cs_issuer run_state) h = Inr () \<and> grant_instants g \<and> \<not> collision_in (grant_pairs g h) \<and> h = g"
proof -
  obtain g where g: "authorize_for_commit run_state run_command run_proof 0 = Inr g" using run_granted by blast
  obtain v where v: "grant_unsigned_value g = Inr v" "issue (cs_issuer run_state) g = Inr g"
    using run_issued [OF g] by blast
  then obtain h where h: "issue (cs_issuer run_state) (g\<lparr>g_signature := ''forged''\<rparr>) = Inr h" "h = g"
    by (auto simp: issue_Inr)
  have ok: "verify (cs_issuer run_state) h = Inr ()"
    unfolding h(2)
    by (rule static_security.issued_grant_verifies [OF run_composed run_state_fields(3,4) run_command_valid run_uuid g])
  have "h = g"
    by (rule signed_grant_is_tamper_evident [OF v(2) ok _ run_instants [OF g] _ _ v(1), where w = v])
      (simp_all add: h(2) run_instants [OF g] no_self_collision v(1))
  then show ?thesis using g h(1) ok run_instants [OF g] no_self_collision by blast
qed

text \<open>
  The stable semantic digest identifies the request: two requests with the same digest have the
  same definition, aggregate, expected version and payload, unless one of the hashed pairs of byte
  strings (the two requests, the two definitions, the two inline payloads) collides under SHA-256.
\<close>

theorem semantic_digest_identifies_request:
  assumes "derive_stable_semantic_request_digest d aid n p = Inr g"
    and "derive_stable_semantic_request_digest d' aid' n' p' = Inr g"
    and "CommandDefinition_digest d = Inr dd" and "CommandDefinition_digest d' = Inr dd'"
    and "\<not> collision_in [(bytes_of (obj (semantic_fields d dd aid n p)), bytes_of (obj (semantic_fields d' dd' aid' n' p'))),
      (bytes_of (CommandDefinition_canonical_value d), bytes_of (CommandDefinition_canonical_value d')),
      (inline_or_empty p, inline_or_empty p')]"
  shows "d = d' \<and> aid = aid' \<and> n = n' \<and> p = p'"
proof -
  have n: "\<not> collides (bytes_of (obj (semantic_fields d dd aid n p))) (bytes_of (obj (semantic_fields d' dd' aid' n' p')))"
      "\<not> collides (bytes_of (CommandDefinition_canonical_value d)) (bytes_of (CommandDefinition_canonical_value d'))"
      "\<not> collides (inline_or_empty p) (inline_or_empty p')"
    using assms(5) by simp_all
  have "digest_canonical (obj (semantic_fields d dd aid n p)) = Inr g"
      "digest_canonical (obj (semantic_fields d' dd' aid' n' p')) = Inr g"
    using assms(1-4) by (simp_all add: derive_stable_semantic_request_digest_def)
  then have "view (obj (semantic_fields d dd aid n p)) = view (obj (semantic_fields d' dd' aid' n' p'))"
    using digest_binds_bytes n(1) by simp
  then have eq: "dd = dd'" "aid = aid'" "n = n'"
      "view (ResolvedPayload_canonical_value p) = view (ResolvedPayload_canonical_value p')"
    by (simp_all add: semantic_fields_def obj_view_eq)
  have "view (CommandDefinition_canonical_value d) = view (CommandDefinition_canonical_value d')"
    using digest_binds_bytes [OF command_definition.value_wf command_definition.value_wf _ _ n(2)] assms(3,4) eq(1)
    by (simp add: CommandDefinition_digest_def)
  then have "d = d'" using command_definition.value_faithful by blast
  moreover have "p = p'" using payload_view_binds [OF eq(4) n(3)] .
  ultimately show ?thesis using eq by blast
qed

theorem semantic_digest_identifies_request_witness:
  "\<exists>g n p q. resolve_payload run_state run_command run_definition = Inr p \<and>
     derive_stable_semantic_request_digest run_definition ''x'' 0 p = Inr g \<and>
     derive_stable_semantic_request_digest run_definition ''x'' n q = Inr g \<and> 0 = n \<and> p = q"
proof -
  obtain dd where dd: "CommandDefinition_digest run_definition = Inr dd" using run_definition_digest by blast
  obtain p where p: "resolve_payload run_state run_command run_definition = Inr p" using run_payload by blast
  have "safe_int 0" by (simp add: safe_int_def MIN_SAFE_INTEGER_def MAX_SAFE_INTEGER_def)
  then obtain g where g: "derive_stable_semantic_request_digest run_definition ''x'' 0 p = Inr g"
    using semantic_total [OF dd] by blast
  have "run_definition = run_definition \<and> ''x'' = ''x'' \<and> (0::int) = 0 \<and> p = p"
    by (rule semantic_digest_identifies_request [OF g g dd dd]) (simp add: collides_def)
  with g p show ?thesis by blast
qed

text \<open>
  C13. Which definition a command runs under. A first submission runs under the current definition and
  its grant replays nothing. A retry of a committed command runs under exactly the retained definition
  whose digest was committed, names the committed command, and is refused unless its principal,
  domain, type, namespace, key and stable semantic digest are the committed ones.
\<close>

theorem retry_runs_committed_definition:
  assumes "authorize_for_commit s c pf now = Inr g"
  shows "\<exists>existing. existing_command s (g_idempotency_namespace g) (sc_idempotency_key c) = Inr existing \<and>
    (case existing of
       None \<Rightarrow> g_replay_of_command_id g = None \<and>
         CommandRegistry_resolve (cs_registry s) (sc_command_type c) None = Inr (g_definition g)
     | Some e \<Rightarrow> g_replay_of_command_id g = Some (ci_command_id e) \<and>
         CommandRegistry_resolve (cs_registry s) (sc_command_type c) (Some (ci_command_definition_version e))
           = Inr (g_definition g) \<and>
         CommandDefinition_digest (g_definition g) = Inr (ci_command_definition_digest e) \<and>
         g_stable_semantic_request_digest g = ci_stable_semantic_request_digest e \<and>
         ci_principal_id e = vc_principal_id (g_authentication g) \<and>
         ci_authority_domain e = vc_authority_domain (g_authentication g) \<and>
         ci_command_type e = sc_command_type c \<and> ci_idempotency_namespace e = g_idempotency_namespace g \<and>
         ci_idempotency_key e = sc_idempotency_key c)"
proof -
  obtain current existing where gr: "granted s c pf now current existing g"
    using authorize_for_commit_Inr [OF assms] by blast
  then have sel: "select_definition s (g_authentication g) c current (g_idempotency_namespace g) existing = Inr (g_definition g)"
    and ns: "derive_idempotency_namespace (g_authentication g) current = Inr (g_idempotency_namespace g)"
    and cur: "CommandRegistry_resolve (cs_registry s) (sc_command_type c) None = Inr current"
    and ex: "existing_command s (g_idempotency_namespace g) (sc_idempotency_key c) = Inr existing"
    and sem: "case existing of None \<Rightarrow> True | Some e \<Rightarrow> ci_stable_semantic_request_digest e = g_stable_semantic_request_digest g"
    and rep: "g_replay_of_command_id g = map_option ci_command_id existing"
    unfolding granted_def by blast+
  note d = select_definition_Inr [OF sel ns]
  show ?thesis
  proof (cases existing)
    case None
    then show ?thesis using ex rep d(2) cur by auto
  next
    case (Some e)
    then have "validate_existing_identity e (g_authentication g) c (g_idempotency_namespace g) = Inr ()"
      using d(3) by blast
    then show ?thesis
      using ex rep sem d(3) Some by (auto simp: validate_existing_identity_def res_simps)
  qed
qed

theorem retry_runs_committed_definition_witness:
  "\<exists>g. authorize_for_commit run_state run_command run_proof 0 = Inr g \<and> g_replay_of_command_id g = None \<and>
     CommandRegistry_resolve run_registry ''note.add'' None = Inr (g_definition g)"
proof -
  obtain g where g: "authorize_for_commit run_state run_command run_proof 0 = Inr g" using run_granted by blast
  have "existing_command run_state n k = Inr None" for n k by (simp add: existing_command_def run_state_fields)
  then show ?thesis
    using retry_runs_committed_definition [OF g] g by (auto simp: run_state_fields run_command_def)
qed

text \<open>
  A command type of more than 120 characters passes the validation of definitions (the limit there
  is 128) but can never be granted, because the authorization request names the operation
  "command:<type>" and that is again limited to 128 characters.
\<close>

theorem long_command_type_never_granted:
  assumes "authorize_for_commit s c pf now = Inr g"
  shows "length (cd_command_type (g_definition g)) \<le> 120"
proof -
  obtain current existing where "granted s c pf now current existing g"
    using authorize_for_commit_Inr [OF assms] by blast
  then have "build_request (g_authentication g) (g_definition g) c (g_stable_semantic_request_digest g)
      = Inr (g_authorization_request g)"
    unfolding granted_def by blast
  then obtain dd where r: "g_authorization_request g = request_value (g_authentication g) (g_definition g) c
        (g_stable_semantic_request_digest g) dd (ar_request_digest (g_authorization_request g))"
      "AuthorizationRequest_post_init (g_authorization_request g) = Inr ()"
    using build_request_Inr by blast
  have "token_match (ar_operation_type (g_authorization_request g))"
    using r(2) by (auto simp: AuthorizationRequest_post_init_def res_simps)
  then have "token_match (''command:'' @ cd_command_type (g_definition g))"
    by (subst (asm) r(1)) (simp add: request_value_def)
  then show ?thesis by (simp add: token_match_def)
qed

theorem long_command_type_never_granted_witness:
  "\<exists>g. authorize_for_commit run_state run_command run_proof 0 = Inr g \<and>
     length (cd_command_type (g_definition g)) \<le> 120 \<and> token_match (replicate 121 (CHR ''a''))"
proof -
  have "token_match (replicate 121 (CHR ''a''))"
    by code_simp
  then show ?thesis using run_granted long_command_type_never_granted by blast
qed

end
