(* ===== verification/Event_Store_Runs.thy ===== *)
theory Event_Store_Runs
  imports Event_Store_Progress Command_Service_Props
begin

text \<open>
  The command service in front of the event store: a grant that a composed service issues for a command
  it has not seen meets every condition of \<open>commit_enabled\<close> that is the service's to meet, so the store
  commits it, and its lookup then lets the service grant the same
  command again as a retry. The theory ends with a concrete store and the run of one command through both.
\<close>

section \<open>Grants of the service commit\<close>

lemma granted_causation:
  assumes "authorize_for_commit s c pf now = Inr g"
  shows "g_causation_kind g = map_option (\<lambda>r. CausationKind_value (cr_kind r)) (sc_causation c)"
    and "g_causation_identifier g = map_option cr_identifier (sc_causation c)"
    and "g_causation_external_system g = Option.bind (sc_causation c) cr_external_system"
  using assms unfolding authorize_for_commit_def res_bind_Inr_iff require_Inr_iff
  by (auto simp: issue_Inr)

definition causation_valid :: "SemanticCommand \<Rightarrow> bool" where
  "causation_valid c = (case sc_causation c of None \<Rightarrow> True | Some r \<Rightarrow> CausationRef_post_init r = Inr ())"

lemma valid_causation_shape:
  assumes "authorize_for_commit s c pf now = Inr g" and "causation_valid c"
  shows "grant_causation_shape g"
proof (cases "sc_causation c")
  case None
  then show ?thesis by (simp add: grant_causation_shape_def granted_causation [OF assms(1)])
next
  case (Some r)
  have "\<not> token_match []" by (simp add: token_match_def)
  then show ?thesis
    using assms(2) Some
    by (cases "cr_kind r"; cases "cr_external_system r")
      (auto simp: grant_causation_shape_def granted_causation [OF assms(1)] causation_valid_def
        CausationRef_post_init_def res_simps or_empty_def)
qed

text \<open>The store and the service share one composition: the issuer and both registries.\<close>

definition joined :: "CommandService \<Rightarrow> EventStore \<Rightarrow> bool" where
  "joined s st = (es_issuer st = cs_issuer s \<and> es_command_registry st = cs_registry s \<and>
     es_payload_schemas st = cs_payload_schemas s)"

lemma joined_built: "joined s st \<Longrightarrow> composed s \<Longrightarrow> store_built st"
  by (simp add: joined_def composed_def store_built_def)

lemma granted_definition:
  assumes "composed s" and "granted s c pf now current existing g"
  shows "g_definition g \<in> set (CommandRegistry_definitions (cs_registry s))"
proof -
  from assms(2) have cur: "CommandRegistry_resolve (cs_registry s) (sc_command_type c) None = Inr current"
    and sel: "select_definition s (g_authentication g) c current (g_idempotency_namespace g) existing = Inr (g_definition g)"
    and ns: "derive_idempotency_namespace (g_authentication g) current = Inr (g_idempotency_namespace g)"
    unfolding granted_def by blast+
  note sel = select_definition_Inr [OF sel ns]
  show ?thesis
    using assms(1) [unfolded composed_def] cur sel command_registry.resolve_current command_registry.resolve_version
    by (cases existing) blast+
qed

definition payload_under :: "CommandService \<Rightarrow> CommandDefinition \<Rightarrow> PayloadSchemaContract \<Rightarrow> ResolvedPayload \<Rightarrow> bool" where
  "payload_under s d k p = (resolve_schema s d = Inr k \<and> rp_schema_version p = cd_payload_schema_version d \<and>
     rp_schema_contract_version p = ps_contract_version k \<and>
     PayloadSchemaContract_contract_digest k = Inr (rp_schema_contract_digest p) \<and>
     rp_canonicalizer_version p = ps_canonicalizer_implementation_version k)"

lemma resolved_payload_under: "resolve_payload s c d = Inr p \<Longrightarrow> \<exists>k. payload_under s d k p"
  by (cases "cd_payload_mode d"; cases "sc_payload c")
    (auto simp: payload_under_def resolve_payload_def Let_def res_simps)

lemma committed_payload_under: "resolve_committed_object_payload s c d e = Inr p \<Longrightarrow> \<exists>k. payload_under s d k p"
  by (cases "sc_payload c") (auto simp: payload_under_def resolve_committed_object_payload_def Let_def res_simps)

lemma granted_contracts:
  assumes s: "composed s" "joined s st" and g: "granted s c pf now current existing g"
  shows "\<exists>k. contracts_registered st g k"
proof -
  let ?d = "g_definition g" and ?p = "g_payload g"
  have d: "?d \<in> set (CommandRegistry_definitions (cs_registry s))" by (rule granted_definition [OF s(1) g])
  have built: "CommandRegistry_built (cs_registry s)" using s(1) by (simp add: composed_def)
  have pay: "(case existing of
        Some e \<Rightarrow> if cd_payload_mode ?d = OBJECT_ADMISSION
                   then resolve_committed_object_payload s c ?d e else resolve_payload s c ?d
      | None \<Rightarrow> resolve_payload s c ?d) = Inr ?p"
    using g unfolding granted_def by blast
  have "\<exists>k. payload_under s ?d k ?p"
    using pay resolved_payload_under committed_payload_under by (auto split: option.splits if_splits)
  then obtain k where k: "resolve_schema s ?d = Inr k" "rp_schema_version ?p = cd_payload_schema_version ?d"
      "rp_schema_contract_version ?p = ps_contract_version k"
      "PayloadSchemaContract_contract_digest k = Inr (rp_schema_contract_digest ?p)"
      "rp_canonicalizer_version ?p = ps_canonicalizer_implementation_version k" 
    unfolding payload_under_def by blast
  have "PayloadSchemaRegistry_built (cs_payload_schemas s)" using s(1) by (simp add: composed_def)
  note rs = resolve_schema_Inr [OF k(1) this]
  have "PayloadSchemaRegistry_resolve_exact (es_payload_schemas st) (rp_schema_version ?p) (cd_payload_mode ?d)
      (rp_schema_contract_version ?p) (rp_schema_contract_digest ?p) (rp_canonicalizer_version ?p) = Inr k"
    using k rs s(2) unfolding joined_def resolve_schema_def by simp
  moreover obtain dd where dd: "CommandDefinition_digest ?d = Inr dd"
    using g unfolding granted_def derive_stable_semantic_request_digest_def res_bind_Inr_iff by blast
  moreover have "CommandRegistry_resolve (cs_registry s) (cd_command_type ?d) (Some (cd_definition_version ?d)) = Inr ?d"
    by (rule command_registry.item_resolves [OF built d])
  ultimately show ?thesis
    using s(2) by (auto simp: contracts_registered_def joined_def CommandRegistry_resolve_exact_def)
qed

text \<open>What the store has to offer a new command: its key, its records and its identifiers are free.\<close>

definition store_ready :: "authority_db \<Rightarrow> AuthorizedCommandGrant \<Rightarrow> FreshIds \<Rightarrow> bool" where
  "store_ready db g ids = (
     command_by_key db (g_idempotency_namespace g) (g_idempotency_key g) = None \<and>
     identities_fresh db ids \<and> records_fresh db g \<and> validate_causation db g = Inr () \<and>
     aggregate_head db (cd_aggregate_type (g_definition g)) (g_aggregate_id g) =
       (if g_expected_aggregate_version g = 0 then None else Some (g_expected_aggregate_version g)) \<and>
     safe_int (g_expected_aggregate_version g + 1) \<and> safe_int (next_ledger_seq db))"

lemma service_grant_commits:
  assumes s: "composed s" "cs_authenticate s = StaticAuthenticator_authenticate a fresh"
      "cs_authorize s = StaticAuthorizer_authorize z fresh'" and j: "joined s st"
    and c: "SemanticCommand_post_init c = Inr ()" "UUIDv4Id_parse (sc_aggregate_id c) = Inr (sc_aggregate_id c)"
      "causation_valid c"
    and g: "authorize_for_commit s c pf now = Inr g" "g_replay_of_command_id g = None" "payload_storable (g_payload g)"
    and db: "store_inv st db hs" "store_ready db g ids" "fresh_uuid ids"
    and nc: "\<And>k. contracts_registered st g k \<Longrightarrow> no_collisions db g k"
  shows "\<exists>out db'. commit st g ids at db = (Inr out, db') \<and> \<not> cmt_replayed out"
proof -
  obtain current existing where gr: "granted s c pf now current existing g"
    using authorize_for_commit_Inr [OF g(1)] by blast
  obtain k where k: "contracts_registered st g k" using granted_contracts [OF s(1) j gr] by blast
  have "CommandDefinition_post_init (g_definition g) = Inr ()"
    using s(1) granted_definition [OF s(1) gr] by (simp add: composed_def)
  then have "0 < cd_event_schema_version (g_definition g)" by (auto simp: CommandDefinition_post_init_def res_simps)
  moreover have "verify (es_issuer st) g = Inr ()"
    using static_security.issued_grant_verifies [OF s c(1,2) g(1)] j by (simp add: joined_def)
  moreover note valid_causation_shape [OF g(1) c(3)]
  ultimately have "commit_enabled st db g ids"
    using g(2,3) db(2) by (simp add: commit_enabled_def store_ready_def)
  then show ?thesis by (rule commit_goes_through [OF joined_built [OF j s(1)] db(1) _ k nc [OF k] db(3)])
qed

section \<open>The lookup of a committed command\<close>

lemma new_command_context:
  assumes c: "commit_new st g ids at db = Inr (out, db')" and st: "store_built st" and ok: "tables_ok st db"
    and i: "fid_command ids \<notin> cw_command_id ` set (t_commands db)"
  shows "\<exists>x \<in> set (t_contexts db'). xw_authentication_context_id x = vc_authentication_context_id (g_authentication g) \<and>
    xw_principal_id x = vc_principal_id (g_authentication g) \<and>
    xw_authority_domain x = vc_authority_domain (g_authentication g)"
proof -
  have built: "PayloadSchemaRegistry_built (es_payload_schemas st)" "CommandRegistry_built (es_command_registry st)"
    using st by (simp_all add: store_built_def)
  obtain db1 db2 db3 current nv where p: "persist_schema_contract st g at db = Inr db1"
    "persist_definition st g at db1 = Inr db2"
    "persist_security_records (g_authentication g) (g_authorization_request g) (g_authorization g) at
      (Some (fid_command ids)) db2 = Inr db3" "append_command st g ids at None (current, nv) db3 = Inr (out, db')"
    using commit_new_phases [OF c] by blast
  obtain h :: CommandUnit where w: "write_command g current nv at (u_payload h) (u_command h) (u_version h) (u_audit h)
      (u_event h) db3 = Inr db'"
    using append_command_Inr [OF p(4)] by blast
  have "t_contexts db' = t_contexts db3" using write_command_effect [OF w] by auto
  moreover obtain nc nd nx q ns nz x where e: "db3 = db\<lparr>t_schemas := nc, t_definitions := nd, t_contexts := nx,
      t_requests := t_requests db @ [q], t_scopes := ns, t_decisions := nz\<rparr>"
      "x \<in> set nx" "xw_authentication_context_id x = vc_authentication_context_id (g_authentication g)"
      "xw_principal_id x = vc_principal_id (g_authentication g)"
      "xw_authority_domain x = vc_authority_domain (g_authentication g)"
    using persist_effect [OF p(1-3) built ok i] by blast
  ultimately show ?thesis by (intro bexI [of _ x]) simp_all
qed

text \<open>The identity that the lookup reports for a grant that was committed under a command identifier.\<close>

definition identity_of_grant :: "AuthorizedCommandGrant \<Rightarrow> string \<Rightarrow> string \<Rightarrow> CommittedCommandIdentity" where
  "identity_of_grant g command_id definition_digest = \<lparr>ci_command_id = command_id,
     ci_authority_domain = vc_authority_domain (g_authentication g),
     ci_principal_id = vc_principal_id (g_authentication g), ci_command_type = g_command_type g,
     ci_idempotency_namespace = g_idempotency_namespace g, ci_idempotency_key = g_idempotency_key g,
     ci_command_definition_version = cd_definition_version (g_definition g),
     ci_command_definition_digest = definition_digest,
     ci_stable_semantic_request_digest = g_stable_semantic_request_digest g,
     ci_payload_mode = rp_kind (g_payload g), ci_payload_digest = rp_digest (g_payload g),
     ci_object_admission_id = None\<rparr>"

lemma new_command_found:
  assumes c: "commit st g ids now db = (Inr out, db')" and st: "store_built st" and inv: "store_inv st db hs"
    and uuid: "fresh_uuid ids" and key: "command_by_key db (g_idempotency_namespace g) (g_idempotency_key g) = None"
    and i: "fid_command ids \<notin> cw_command_id ` set (t_commands db)"
    and d: "CommandDefinition_digest (g_definition g) = Inr dd"
    and valid: "CommittedCommandIdentity_post_init (identity_of_grant g (fid_command ids) dd) = Inr ()"
  shows "find_committed db' (g_idempotency_namespace g) (g_idempotency_key g) =
    Inr (Some (identity_of_grant g (fid_command ids) dd))"
proof -
  have nk: "(g_idempotency_namespace g, g_idempotency_key g) \<notin> unit_key ` set hs"
    using inv_command_by_key(2) [OF inv] key by blast
  obtain rd detail h where h: "h = grant_unit st g ids (UtcTimestamp_to_text now) (g_expected_aggregate_version g + 1)
         (int (length hs) + 1) dd rd detail" and inv': "store_inv st db' (hs @ [h])"
    using c st inv uuid
  proof (cases rule: commit_returned)
    case (replay h)
    then show ?thesis using nk by force
  next
    case (new dd' rd detail h)
    then show ?thesis using d that by simp
  qed
  note iv = store_invD [OF inv']
  have new: "commit_new st g ids (UtcTimestamp_to_text now) db = Inr (out, db')"
    using c key
    by (auto simp: commit_def store_transaction_def commit_grant_in_transaction_def res_simps
        split: sum.splits if_splits)
  obtain x where x: "x \<in> set (t_contexts db')"
      "xw_authentication_context_id x = vc_authentication_context_id (g_authentication g)"
      "xw_principal_id x = vc_principal_id (g_authentication g)"
      "xw_authority_domain x = vc_authority_domain (g_authentication g)"
    using new_command_context [OF new st store_invD(1) [OF inv] i] by blast
  have dist: "distinct (map xw_authentication_context_id (t_contexts db'))"
    using iv(1) by (simp add: tables_ok_def security_ok_def)
  have "unit_key h = (g_idempotency_namespace g, g_idempotency_key g)" unfolding h by simp
  then have cb: "command_by_key db' (g_idempotency_namespace g) (g_idempotency_key g) = Some (u_command h)"
    using inv_command_by_key(1) [OF inv'] by (metis in_set_conv_decomp)
  have "find (\<lambda>p. pw_payload_id p = cw_payload_id (u_command h)) (t_payloads db') = Some (u_payload h)"
    using iv(2)
    by (intro find_distinct_key [OF inv_command_ids(5) [OF inv']]) (simp_all add: history_of_def h grant_unit_def command_row_def payload_row_def Let_def)
  moreover have "find (\<lambda>y. xw_authentication_context_id y = cw_authentication_context_id (u_command h)) (t_contexts db') = Some x"
    using x(1,2) by (intro find_distinct_key [OF dist]) (simp_all add: h grant_unit_def command_row_def)
  ultimately show ?thesis
    using valid x(3,4) h unfolding find_committed_def inv_not_retired(2) [OF inv'] cb
    by (simp add: identity_of_grant_def grant_unit_def command_row_def payload_row_def Let_def)
qed

section \<open>A redelivered command is granted again\<close>

text \<open>The service in front of a store looks committed identities up in it.\<close>

definition served :: "CommandService \<Rightarrow> authority_db \<Rightarrow> CommandService" where
  "served s db = s\<lparr>cs_committed_lookup := Some (find_committed db)\<rparr>"

lemma served_fields [simp]:
  "cs_registry (served s db) = cs_registry s" "cs_payload_schemas (served s db) = cs_payload_schemas s"
  "cs_authenticate (served s db) = cs_authenticate s" "cs_authorize (served s db) = cs_authorize s"
  "cs_admission_lookup (served s db) = cs_admission_lookup s" "cs_issuer (served s db) = cs_issuer s"
  "cs_committed_lookup (served s db) = Some (find_committed db)"
  by (simp_all add: served_def)

lemma served_payload [simp]: "resolve_payload (served s db) c d = resolve_payload s c d"
  unfolding resolve_payload_def resolve_schema_def served_fields ..

lemma find_committed_valid: "find_committed db n k = Inr (Some i) \<Longrightarrow> CommittedCommandIdentity_post_init i = Inr ()"
  by (auto simp: find_committed_def Let_def res_simps split: option.splits)

lemma served_composed: "composed s \<Longrightarrow> composed (served s db)"
  by (simp add: composed_def find_committed_valid)

lemma served_joined: "joined (served s db) st \<longleftrightarrow> joined s st"
  by (simp add: joined_def)

lemma grant_identity_valid:
  assumes s: "composed s" and a: "VerifiedAuthenticationContext_post_init (g_authentication g) = Inr ()"
    and c: "SemanticCommand_post_init c = Inr ()" and g: "granted s c pf now current None g"
    and p: "payload_storable (g_payload g)" and m: "validate_resolved_payload (g_payload g) (g_definition g) = Inr ()"
    and d: "CommandDefinition_digest (g_definition g) = Inr dd" and i: "UUIDv4Id_parse i = Inr i"
  shows "CommittedCommandIdentity_post_init (identity_of_grant g i dd) = Inr ()"
proof -
  have dp: "CommandDefinition_post_init (g_definition g) = Inr ()"
    using s granted_definition [OF s g] by (simp add: composed_def)
  have ns: "digest_text (g_idempotency_namespace g)"
    using g namespace_total [of "g_authentication g" current] by (auto simp: granted_def)
  have sem: "digest_text (g_stable_semantic_request_digest g)"
    using g unfolding granted_def derive_stable_semantic_request_digest_def res_bind_Inr_iff
    by (auto dest: digest_canonical_text)
  have "digest_text dd" using d unfolding CommandDefinition_digest_def by (rule digest_canonical_text)
  moreover have "g_idempotency_key g \<noteq> []"
    using g c by (auto simp: granted_def SemanticCommand_post_init_def res_simps strip_Nil_iff)
  moreover have "token_match (vc_authority_domain (g_authentication g))" "token_match (vc_principal_id (g_authentication g))"
    using a by (auto simp: VerifiedAuthenticationContext_post_init_def res_simps)
  moreover have "token_match (g_command_type g)" "token_match (cd_definition_version (g_definition g))"
    using dp g by (auto simp: granted_def CommandDefinition_post_init_def res_simps)
  moreover obtain mode where "PayloadMode_of (rp_kind (g_payload g)) = Some mode" "mode \<noteq> OBJECT_ADMISSION"
    using p by (cases "rp_kind (g_payload g) = ''INLINE''") (auto simp: payload_storable_def PayloadMode_of_def)
  moreover obtain x where x: "validate_sha256_digest (rp_digest (g_payload g)) = Inr x"
    using m by (auto simp: validate_resolved_payload_def res_simps)
  note x [unfolded validate_sha256_digest_Inr [OF x]]
  ultimately show ?thesis
    using i ns sem by (simp add: CommittedCommandIdentity_post_init_def identity_of_grant_def digest_text_accepted res_simps)
qed

text \<open>The service in front of a store, with the identifiers that its adapters draw next.\<close>

definition serving ::
  "CommandService \<Rightarrow> authority_db \<Rightarrow> StaticAuthenticator \<Rightarrow> string \<Rightarrow> StaticAuthorizer \<Rightarrow> string \<Rightarrow> CommandService" where
  "serving s db a fresh z fresh' = (served s db)\<lparr>cs_authenticate := StaticAuthenticator_authenticate a fresh,
     cs_authorize := StaticAuthorizer_authorize z fresh'\<rparr>"

lemma serving_fields [simp]:
  "cs_registry (serving s db a f z f') = cs_registry s" "cs_payload_schemas (serving s db a f z f') = cs_payload_schemas s"
  "cs_authenticate (serving s db a f z f') = StaticAuthenticator_authenticate a f"
  "cs_authorize (serving s db a f z f') = StaticAuthorizer_authorize z f'"
  "cs_admission_lookup (serving s db a f z f') = cs_admission_lookup s" "cs_issuer (serving s db a f z f') = cs_issuer s"
  "cs_committed_lookup (serving s db a f z f') = Some (find_committed db)"
  by (simp_all add: serving_def)

lemma serving_payload [simp]: "resolve_payload (serving s db a f z f') c d = resolve_payload s c d"
  unfolding resolve_payload_def resolve_schema_def serving_fields ..

lemma serving_composed: "composed s \<Longrightarrow> composed (serving s db a f z f')"
  by (simp add: composed_def find_committed_valid)

lemma later_authentication:
  assumes "StaticAuthenticator_authenticate a fresh pf now = Inr x" and "now2 + sa_ttl_seconds a * 1000000 < MAX_INSTANT"
  shows "\<exists>y. StaticAuthenticator_authenticate a f2 pf now2 = Inr y \<and> vc_principal_id y = vc_principal_id x \<and>
    vc_authority_domain y = vc_authority_domain x \<and> VerifiedAuthenticationContext_post_init y = Inr ()"
  using assms by (auto simp: StaticAuthenticator_authenticate_def VerifiedAuthenticationContext_post_init_def Let_def res_simps)

lemma later_authorization:
  assumes z: "StaticAuthorizer_init z = Inr ()" and r: "validate_sha256_digest (ar_request_digest r) = Inr u"
    and ids: "ar_authentication_context_id r = vc_authentication_context_id y" "ar_principal_id r = vc_principal_id y"
      "ar_authority_domain r = vc_authority_domain y"
    and cur: "require_current y now2 = Inr ()"
    and allowed: "ar_required_scope r \<in> set (granted_scopes z (vc_principal_id y))"
  shows "\<exists>d. StaticAuthorizer_authorize z f2 y r now2 = Inr d \<and> ad_allowed d \<and>
    ad_authentication_context_id d = vc_authentication_context_id y \<and> ad_authorization_request_digest d = ar_request_digest r"
proof -
  have "token_match ''AUTHZ_ALLOWED''" by (simp add: token_eval)
  then obtain d where mk: "make_decision z f2 y r now2 (granted_scopes z (vc_principal_id y)) True ''AUTHZ_ALLOWED'' = Inr d"
    using make_decision_total [OF z r granted_scopes_sorted, of z "vc_principal_id y"] granted_scopes_match [OF z] by blast
  then show ?thesis
    using cur ids allowed make_decision_Inr [OF mk] by (simp add: StaticAuthorizer_authorize_def Let_def)
qed

lemma redelivery_granted:
  assumes s: "composed s" "cs_authenticate s = StaticAuthenticator_authenticate a fresh"
      "cs_authorize s = StaticAuthorizer_authorize z fresh'" and z: "StaticAuthorizer_init z = Inr ()"
    and now2: "now2 + sa_ttl_seconds a * 1000000 < MAX_INSTANT"
    and g: "granted s c pf now current None g"
    and e: "CommandDefinition_digest (g_definition g) = Inr dd" "cd_payload_mode (g_definition g) \<noteq> OBJECT_ADMISSION"
    and db: "find_committed db (g_idempotency_namespace g) (g_idempotency_key g) = Inr (Some (identity_of_grant g i dd))"
  shows "\<exists>h. authorize_for_commit (serving s db a f2 z f2') c pf now2 = Inr h \<and>
    g_idempotency_namespace h = g_idempotency_namespace g \<and> g_idempotency_key h = g_idempotency_key g"
proof -
  note gr = g [unfolded granted_def]
  let ?d = "g_definition g"
  have cur: "current = ?d" using gr select_definition_Inr(2) by blast
  have d: "?d \<in> set (CommandRegistry_definitions (cs_registry s))" by (rule granted_definition [OF s(1) g])
  have built: "CommandRegistry_built (cs_registry s)" and dp: "CommandDefinition_post_init ?d = Inr ()"
    using s(1) d by (simp_all add: composed_def)
  have ty: "cd_command_type ?d = sc_command_type c"
    using gr command_registry.resolve_current [OF built] unfolding cur by blast
  obtain y where y: "StaticAuthenticator_authenticate a f2 pf now2 = Inr y" "vc_principal_id y = vc_principal_id (g_authentication g)"
      "vc_authority_domain y = vc_authority_domain (g_authentication g)" "VerifiedAuthenticationContext_post_init y = Inr ()"
    using later_authentication [OF _ now2] gr s(2) by metis
  have yc: "require_current y now2 = Inr ()" using static_security.context_current [OF y(1)] .
  have ns: "derive_idempotency_namespace y ?d = Inr (g_idempotency_namespace g)"
    using gr unfolding cur derive_idempotency_namespace_def y(2,3) by blast
  have "CommandRegistry_resolve_exact (cs_registry s) (sc_command_type c) (cd_definition_version ?d) dd = Inr ?d"
    using command_registry.item_resolves [OF built d] e(1) ty by (simp add: CommandRegistry_resolve_exact_def)
  then have sel: "select_definition (serving s db a f2 z f2') y c ?d (g_idempotency_namespace g)
      (Some (identity_of_grant g i dd)) = Inr ?d"
    using gr ty cur y(2,3) ns
    by (simp add: select_definition_def validate_existing_identity_def identity_of_grant_def)
  have "encodable (obj (semantic_fields ?d dd (sc_aggregate_id c) (sc_expected_aggregate_version c) (g_payload g)))"
    using gr e(1) digest_canonical_encodable [OF semantic_fields_wf, of ?d dd "sc_aggregate_id c"
        "sc_expected_aggregate_version c" "g_payload g"]
    by (simp add: derive_stable_semantic_request_digest_def)
  then have si: "safe_int (sc_expected_aggregate_version c)" by (simp add: semantic_fields_def obj_encodable)
  have sem: "digest_text (g_stable_semantic_request_digest g)"
    using semantic_total [OF e(1) si, of "sc_aggregate_id c" "g_payload g"] gr by auto
  have dt: "digest_text dd" using e(1) digest_canonical_text by (simp add: CommandDefinition_digest_def)
  obtain x where rx: "g_authorization_request g = request_value (g_authentication g) ?d c
      (g_stable_semantic_request_digest g) x (ar_request_digest (g_authorization_request g))"
      "AuthorizationRequest_post_init (g_authorization_request g) = Inr ()"
    using build_request_Inr gr by blast
  have op: "ar_operation_type (g_authorization_request g) = ''command:'' @ cd_command_type ?d"
      "ar_required_scope (g_authorization_request g) = cd_required_scope ?d"
    by (subst rx(1), simp add: request_value_def)+
  have "token_match (cd_command_type ?d)" using dp by (auto simp: CommandDefinition_post_init_def res_simps)
  moreover have "token_match (''command:'' @ cd_command_type ?d)"
    using rx(2) by (auto simp: AuthorizationRequest_post_init_def res_simps op(1))
  ultimately have len: "length (cd_command_type ?d) \<le> 120" using token_prefix_command by blast
  have ne: "sc_aggregate_id c \<noteq> []"
    using rx(2) by (subst (asm) rx(1)) (auto simp: AuthorizationRequest_post_init_def request_value_def res_simps)
  obtain r where r: "build_request y ?d c (g_stable_semantic_request_digest g) = Inr r" "digest_text (ar_request_digest r)"
    using build_request_total [OF dp e(1) dt y(4) sem ne len] by blast
  obtain rdd where rv: "r = request_value y ?d c (g_stable_semantic_request_digest g) rdd (ar_request_digest r)"
    using build_request_Inr [OF r(1)] by blast
  have ids: "ar_authentication_context_id r = vc_authentication_context_id y"
      "ar_principal_id r = vc_principal_id y" "ar_authority_domain r = vc_authority_domain y"
      "ar_required_scope r = cd_required_scope ?d" "ar_event_schema_version r = cd_event_schema_version ?d"
    by (subst rv, simp add: request_value_def)+
  have az: "StaticAuthorizer_authorize z fresh' (g_authentication g) (g_authorization_request g) now = Inr (g_authorization g)"
    using gr s(3) by simp
  have "cd_required_scope ?d \<in> set (granted_scopes z (vc_principal_id y))"
    using authorize_Inr(6) [OF az] gr op(2) y(2) by simp
  then obtain dec where dec: "StaticAuthorizer_authorize z f2' y r now2 = Inr dec" "ad_allowed dec"
      "ad_authentication_context_id dec = vc_authentication_context_id y" "ad_authorization_request_digest dec = ar_request_digest r"
    using later_authorization [OF z digest_text_accepted [OF r(2)] ids(1-3) yc, of f2'] ids(4) by auto
  have "authorize_for_commit (serving s db a f2 z f2') c pf now2 = issue (cs_issuer s)
       \<lparr>g_command_type = cd_command_type ?d, g_aggregate_id = sc_aggregate_id c,
        g_expected_aggregate_version = sc_expected_aggregate_version c, g_definition = ?d,
        g_payload = g_payload g, g_authentication = y, g_authorization_request = r, g_authorization = dec,
        g_idempotency_namespace = g_idempotency_namespace g, g_idempotency_key = sc_idempotency_key c,
        g_stable_semantic_request_digest = g_stable_semantic_request_digest g,
        g_correlation_id = sc_correlation_id c,
        g_causation_kind = map_option (\<lambda>r. CausationKind_value (cr_kind r)) (sc_causation c),
        g_causation_identifier = map_option cr_identifier (sc_causation c),
        g_causation_external_system = Option.bind (sc_causation c) cr_external_system,
        g_signature = [], g_replay_of_command_id = Some i\<rparr>" (is "_ = issue _ ?g")
    using gr db sel e(2) y(1) yc ns r(1) dec unfolding authorize_for_commit_def cur
    by (simp add: require_allowed_def identity_of_grant_def)
  moreover have "safe_int (ar_event_schema_version r)"
    using CommandDefinition_digest_encodable [of ?d] e(1) ids(5) by auto
  then obtain h where h: "issue (cs_issuer s) ?g = Inr h"
    using issue_total [of ?g dd "cs_issuer s"] e(1) si by auto
  moreover have "g_idempotency_namespace h = g_idempotency_namespace g" "g_idempotency_key h = g_idempotency_key g"
    using h gr by (auto simp: issue_Inr)
  ultimately show ?thesis by simp
qed

section \<open>A concrete run\<close>

definition run_store :: EventStore where
  "run_store = \<lparr>es_issuer = cs_issuer run_state, es_command_registry = run_registry,
     es_payload_schemas = run_schemas, es_command_service_version = ''v1''\<rparr>"

definition run_ids :: FreshIds where
  "run_ids = \<lparr>fid_command = ''123e4567-e89b-42d3-a456-426614174001'', fid_event = ''123e4567-e89b-42d3-a456-426614174002'',
     fid_audit = ''123e4567-e89b-42d3-a456-426614174003'', fid_payload = ''123e4567-e89b-42d3-a456-426614174004''\<rparr>"

lemma run_joined: "joined run_state run_store"
  by (simp add: joined_def run_store_def run_state_fields)

lemma run_store_built: "store_built run_store"
  by (rule joined_built [OF run_joined run_composed])

lemma run_ids_fresh: "fresh_uuid run_ids"
proof -
  have "canonical_uuid ''123e4567-e89b-42d3-a456-426614174004''"
    unfolding canonical_uuid_def
    by (rule exI [of _ "''123e4567e89b42d3a456426614174004''"]) (simp add: hyphenate_def is_lower_hex_def)
  then show ?thesis by (simp add: fresh_uuid_def UUIDv4Id_parse_Inr run_ids_def version_char_def variant_char_def)
qed

lemma no_payload_storable:
  assumes "resolve_payload s c d = Inr p" and "cd_payload_mode d = NO_PAYLOAD"
  shows "payload_storable p"
  using assms by (cases "sc_payload c") (auto simp: resolve_payload_def Let_def res_simps payload_storable_def)

lemma run_key_fields:
  assumes "authorize_for_commit run_state (run_command\<lparr>sc_idempotency_key := key\<rparr>) run_proof 0 = Inr g"
  shows "g_replay_of_command_id g = None" "g_definition g = run_definition"
    and "payload_storable (g_payload g)" "g_expected_aggregate_version g = 0"
    and "g_causation_kind g = None" "g_idempotency_key g = key"
    and "g_aggregate_id g = sc_aggregate_id run_command"
proof -
  obtain current existing where gr: "granted run_state (run_command\<lparr>sc_idempotency_key := key\<rparr>) run_proof 0 current existing g"
    using authorize_for_commit_Inr [OF assms] by blast
  have e: "existing = None" using gr by (simp add: granted_def existing_command_def run_state_fields)
  have cur: "current = run_definition"
    using gr by (simp add: granted_def run_state_fields run_command_def run_resolve)
  show d: "g_definition g = run_definition"
    using gr e cur unfolding granted_def by (auto dest!: select_definition_Inr(2))
  have "resolve_payload run_state run_command run_definition = Inr (g_payload g)"
    using gr unfolding granted_def e d by (simp add: resolve_payload_key)
  then show "payload_storable (g_payload g)"
    by (rule no_payload_storable) (simp add: run_definition_def sample_definition_def)
  show "g_replay_of_command_id g = None" "g_expected_aggregate_version g = 0" "g_idempotency_key g = key"
    "g_aggregate_id g = sc_aggregate_id run_command"
    using gr unfolding granted_def e by (simp_all add: run_command_def)
  show "g_causation_kind g = None" by (simp add: granted_causation [OF assms] run_command_def)
qed

lemma run_grant_fields:
  assumes "authorize_for_commit run_state run_command run_proof 0 = Inr g"
  shows "g_replay_of_command_id g = None" "g_definition g = run_definition"
    and "payload_storable (g_payload g)" "g_expected_aggregate_version g = 0"
    and "g_causation_kind g = None" "g_idempotency_key g = ''k1''"
    and "g_aggregate_id g = sc_aggregate_id run_command"
proof -
  have "run_command\<lparr>sc_idempotency_key := ''k1''\<rparr> = run_command" by (simp add: run_command_def)
  with assms have k: "authorize_for_commit run_state (run_command\<lparr>sc_idempotency_key := ''k1''\<rparr>) run_proof 0 = Inr g"
    by simp
  show "g_replay_of_command_id g = None" "g_definition g = run_definition"
    "payload_storable (g_payload g)" "g_expected_aggregate_version g = 0"
    "g_causation_kind g = None" "g_idempotency_key g = ''k1''" "g_aggregate_id g = sc_aggregate_id run_command"
    by (rule run_key_fields [OF k])+
qed

lemma run_ready:
  assumes "authorize_for_commit run_state run_command run_proof 0 = Inr g"
  shows "store_ready empty_db g run_ids" "no_collisions empty_db g k" "causation_valid run_command"
  using run_grant_fields [OF assms]
  by (simp_all add: store_ready_def empty_db_def identities_fresh_def records_fresh_def validate_causation_def
      aggregate_head_def command_by_key_def next_ledger_seq_def safe_int_def MIN_SAFE_INTEGER_def MAX_SAFE_INTEGER_def
      no_collisions_def causation_valid_def run_command_def)

lemma run_commit:
  "\<exists>g out db1. authorize_for_commit run_state run_command run_proof 0 = Inr g \<and>
     commit run_store g run_ids 0 empty_db = (Inr out, db1) \<and> \<not> cmt_replayed out \<and> verify (es_issuer run_store) g = Inr () \<and>
     (commit_step run_store)\<^sup>*\<^sup>* empty_db db1 \<and> g_replay_of_command_id g = None"
proof -
  obtain g where g: "authorize_for_commit run_state run_command run_proof 0 = Inr g" using run_granted by blast
  note ok = run_grant_fields [OF g] run_ready [OF g]
  obtain out db1 where c: "commit run_store g run_ids 0 empty_db = (Inr out, db1)" "\<not> cmt_replayed out"
    using service_grant_commits [OF run_composed run_state_fields(3,4) run_joined run_command_valid run_uuid ok(10) g
        ok(1,3) empty_db_inv ok(8) run_ids_fresh ok(9)] by blast
  have "verify (es_issuer run_store) g = Inr ()"
    using static_security.issued_grant_verifies [OF run_composed run_state_fields(3,4) run_command_valid run_uuid g]
    by (simp add: run_store_def)
  moreover have "commit_step run_store empty_db db1"
    using commit_step.intros [OF run_ids_fresh, of run_store empty_db g 0] c(1) by simp
  ultimately show ?thesis using g c ok(1) by blast
qed

lemma run_ids_valid: "UUIDv4Id_parse (fid_command run_ids) = Inr (fid_command run_ids)"
proof -
  have "canonical_uuid ''123e4567-e89b-42d3-a456-426614174001''"
    unfolding canonical_uuid_def
    by (rule exI [of _ "''123e4567e89b42d3a456426614174001''"]) (simp add: hyphenate_def is_lower_hex_def)
  then show ?thesis by (simp add: UUIDv4Id_parse_Inr run_ids_def version_char_def variant_char_def)
qed

lemma find_committed_empty: "find_committed empty_db n k = Inr None"
  by (simp add: find_committed_def require_unexpired_key_def command_by_key_def empty_db_def)

lemma served_select: "select_definition (served s db) = select_definition s"
  unfolding select_definition_def served_fields ..

lemma served_empty:
  "cs_committed_lookup s = None \<Longrightarrow> authorize_for_commit (served s empty_db) = authorize_for_commit s"
  by (intro ext) (simp add: authorize_for_commit_def find_committed_empty served_select)

lemma run_history:
  assumes "authorize_for_commit run_state run_command run_proof 0 = Inr g"
    and "commit run_store g run_ids 0 empty_db = (Inr out, db1)"
  shows "\<exists>e. t_events db1 = [Live e] \<and> ev_ledger_seq e = 1 \<and> ev_command_id e = cmt_command_id out \<and>
    ev_security_scope e = cd_security_scope run_definition \<and> ev_trust_scope e = TrustScope_value (cd_trust_scope run_definition)"
  using assms(2) run_store_built empty_db_inv run_ids_fresh
proof (cases rule: commit_returned)
  case (replay h)
  then show ?thesis by simp
next
  case (new dd rd detail h)
  have "t_events db1 = [Live (u_event h)]" using store_invD(2) [OF new(5)] by (simp add: history_of_def)
  then show ?thesis
    using run_grant_fields(2) [OF assms(1)] new(2,7)
    by (simp add: grant_unit_def event_row_def command_row_def Let_def unit_result_def)
qed

definition run_policy :: EventReadPolicy where
  "run_policy = \<lparr>er_policy_id = ''reader'', er_purpose = ''REVIEW'', er_required_scope = ''events.read'',
     er_allowed_principal_ids = [''alice''], er_allowed_security_scopes = [cd_security_scope run_definition],
     er_allowed_trust_scopes = [cd_trust_scope run_definition], er_metadata_classes = [ROUTING, RESULT],
     er_minimum_ledger_seq = 1, er_maximum_ledger_seq = None, er_max_results = 10\<rparr>"

lemma run_pages:
  assumes "t_events db1 = [Live e]" and "ev_ledger_seq e = 1"
    and "ev_security_scope e = cd_security_scope run_definition"
    and "ev_trust_scope e = TrustScope_value (cd_trust_scope run_definition)"
  shows "events_after db1 0 1 run_policy = Inr [LiveEvent e]" "events_after db1 1 1 run_policy = Inr []"
    "\<exists>zs. events_after db1 0 2 run_policy = Inr zs" "visible_command_row db1 run_policy (ev_command_id e) = Inr (Live e)"
  using assms by (simp_all add: events_after_def require_metadata_class_def require_window_def run_policy_def
      visible_def visible_command_row_def)

end
