(* ===== verification/Event_Store_Types.thy ===== *)
theory Event_Store_Types
  imports Event_Store_Runs
begin

text \<open>
  Typed inputs of the event store. In the source a grant holds objects of the typed classes and the fresh
  identifiers come from \<open>uuid4\<close>, so each of these values has passed the constructor of its class; the model
  holds their texts, and \<open>ids_typed\<close> and \<open>grant_typed\<close> say that the constructors accept them. Every event that
  a commit of such a grant writes passes \<open>_validate_event_types\<close>, and the grants that the command service
  issues are of this kind.
\<close>

section \<open>Typed values\<close>

definition uuid_text :: "string \<Rightarrow> bool" where
  "uuid_text i = (UUIDv4Id_parse i = Inr i)"

definition ids_typed :: "FreshIds \<Rightarrow> bool" where
  "ids_typed ids = list_all uuid_text [fid_command ids, fid_event ids, fid_audit ids, fid_payload ids]"

definition causation_typed :: "AuthorizedCommandGrant \<Rightarrow> bool" where
  "causation_typed g = (g_causation_kind g = None \<or>
     (\<exists>r. CausationRef_post_init r = Inr () \<and> g_causation_kind g = Some (CausationKind_value (cr_kind r)) \<and>
       g_causation_identifier g = Some (cr_identifier r) \<and>
       g_causation_external_system g = cr_external_system r))"

definition grant_typed :: "AuthorizedCommandGrant \<Rightarrow> bool" where
  "grant_typed g = (CommandDefinition_post_init (g_definition g) = Inr () \<and>
     VerifiedAuthenticationContext_post_init (g_authentication g) = Inr () \<and>
     uuid_text (vc_authentication_context_id (g_authentication g)) \<and>
     uuid_text (ad_authorization_decision_id (g_authorization g)) \<and>
     pred_option uuid_text (g_correlation_id g) \<and> causation_typed g)"

lemma uuid_parsed: "UUIDv4Id_parse i = Inr j \<Longrightarrow> uuid_text i"
  unfolding uuid_text_def UUIDv4Id_parse_Inr by blast

lemma skip_uuid [simp]: "skip (UUIDv4Id_parse i) = Inr u \<longleftrightarrow> uuid_text i"
  unfolding skip_Inr using uuid_parsed uuid_text_def by blast

lemma typed_ids_fresh: "ids_typed ids \<Longrightarrow> fresh_uuid ids"
  by (auto simp: ids_typed_def uuid_text_def fresh_uuid_def)

lemma TrustScope_of_value [simp]: "TrustScope_of (TrustScope_value t) = Some t"
  by (cases t) (simp_all add: TrustScope_of_def)

lemma CausationKind_of_value [simp]: "CausationKind_of (CausationKind_value k) = Some k"
  by (cases k) (simp_all add: CausationKind_of_def)

lemma digest_accepted: "validate_sha256_digest d = Inr e \<Longrightarrow> skip (validate_sha256_digest d) = Inr ()"
  by (simp add: skip_def)

section \<open>Events of typed grants\<close>

lemma typed_causation:
  assumes "causation_typed g"
  shows "validate_event_causation (event_row st g ids dd None nv seq at) = Inr ()"
proof (cases "g_causation_kind g")
  case None
  then show ?thesis by (simp add: validate_event_causation_def event_row_def Let_def)
next
  case (Some k)
  with assms obtain r where "CausationRef_post_init r = Inr ()" "k = CausationKind_value (cr_kind r)"
      "g_causation_identifier g = Some (cr_identifier r)" "g_causation_external_system g = cr_external_system r"
    by (auto simp: causation_typed_def)
  then show ?thesis
    using Some by (cases r) (simp add: validate_event_causation_def event_row_def Let_def str_or_None_def)
qed

lemma verified_digests:
  assumes "verify i g = Inr ()"
  shows "uuid_text (g_aggregate_id g)" "digest_text (ar_request_digest (g_authorization_request g))"
    "schema_identity_matches (g_payload g) (g_definition g)"
    "skip (validate_sha256_digest (rp_digest (g_payload g))) = Inr ()"
    "skip (validate_sha256_digest (rp_schema_contract_digest (g_payload g))) = Inr ()"
proof -
  show "uuid_text (g_aggregate_id g)"
    using assms uuid_parsed unfolding verify_def res_bind_Inr_iff require_Inr_iff by blast
  have "verify_provenance g = Inr ()"
    using assms unfolding verify_def res_bind_Inr_iff require_Inr_iff by auto
  then show "digest_text (ar_request_digest (g_authorization_request g))"
    unfolding verify_provenance_def Let_def res_bind_Inr_iff require_Inr_iff AuthorizationRequest_computed_digest_def
    using digest_canonical_text by auto
  have "validate_resolved_payload (g_payload g) (g_definition g) = Inr ()" by (rule verify_bindings(7) [OF assms])
  then show "schema_identity_matches (g_payload g) (g_definition g)"
    "skip (validate_sha256_digest (rp_digest (g_payload g))) = Inr ()"
    "skip (validate_sha256_digest (rp_schema_contract_digest (g_payload g))) = Inr ()"
    unfolding validate_resolved_payload_def res_bind_Inr_iff require_Inr_iff skip_Inr by blast+
qed

lemma typed_event:
  assumes v: "verify i g = Inr ()" and g: "grant_typed g" and ids: "ids_typed ids" and now: "instant now"
    and st: "token_match (es_command_service_version st)" and dd: "CommandDefinition_digest (g_definition g) = Inr dd"
    and pos: "0 < nv" "0 < seq"
  shows "validate_event_types (Live (event_row st g ids dd None nv seq (UtcTimestamp_to_text now))) = Inr ()"
proof -
  let ?d = "g_definition g" and ?e = "event_row st g ids dd None nv seq (UtcTimestamp_to_text now)"
  note vd = verified_digests [OF v]
  have d: "CommandDefinition_post_init ?d = Inr ()" and c: "VerifiedAuthenticationContext_post_init (g_authentication g) = Inr ()"
    and u: "uuid_text (vc_authentication_context_id (g_authentication g))"
      "uuid_text (ad_authorization_decision_id (g_authorization g))" "pred_option uuid_text (g_correlation_id g)"
      "causation_typed g"
    using g by (simp_all add: grant_typed_def)
  have dt: "token_match (cd_event_type ?d)" "token_match (cd_aggregate_type ?d)" "token_match (cd_definition_version ?d)"
      "token_match (cd_payload_schema_version ?d)" "token_match (cd_payload_schema_contract_version ?d)"
      "token_match (cd_payload_canonicalizer_version ?d)" "scope_match (cd_security_scope ?d)"
      "scope_match (cd_retention_scope ?d)" "0 < cd_event_schema_version ?d"
    using d by (auto simp: CommandDefinition_post_init_def res_simps)
  have p: "token_match (vc_principal_id (g_authentication g))"
    using c by (auto simp: VerifiedAuthenticationContext_post_init_def res_simps)
  have "digest_text dd" using dd digest_canonical_text by (simp add: CommandDefinition_digest_def)
  then have dig: "skip (validate_sha256_digest dd) = Inr ()"
    "skip (validate_sha256_digest (ar_request_digest (g_authorization_request g))) = Inr ()"
    using vd(2) by (simp_all add: skip_def digest_text_accepted)
  have corr: "(case g_correlation_id g of None \<Rightarrow> Inr () | Some i \<Rightarrow> skip (UUIDv4Id_parse i)) = Inr ()"
    using u(3) by (cases "g_correlation_id g") simp_all
  have f: "ev_ledger_seq ?e = seq" "ev_aggregate_version ?e = nv" "ev_event_schema_version ?e = cd_event_schema_version ?d"
      "ev_recorded_at ?e = UtcTimestamp_to_text now" "ev_trust_scope ?e = TrustScope_value (cd_trust_scope ?d)"
      "ev_payload_mode ?e = rp_kind (g_payload g)" "ev_correlation_id ?e = g_correlation_id g"
    by (simp_all add: event_row_def Let_def)
  have m: "rp_kind (g_payload g) = PayloadMode_value (cd_payload_mode ?d)"
    using vd(3) by (simp add: schema_identity_matches_def)
  have "for_each (\<lambda>i. skip (UUIDv4Id_parse i)) [ev_event_id ?e, ev_command_id ?e, ev_payload_id ?e, ev_aggregate_id ?e,
        ev_authentication_context_id ?e, ev_authorization_decision_id ?e] = Inr ()"
    using ids vd(1) u unfolding for_each_Inr_iff skip_uuid by (auto simp: event_row_def Let_def ids_typed_def)
  moreover have "require_tokens [ev_event_type ?e, ev_aggregate_type ?e, ev_producer_version ?e,
        ev_command_definition_version ?e, ev_payload_schema_version ?e, ev_payload_schema_contract_version ?e,
        ev_payload_canonicalizer_version ?e, ev_principal_id ?e] = Inr ()"
    using dt p st vd(3) unfolding require_tokens_Inr by (auto simp: event_row_def Let_def schema_identity_matches_def)
  moreover have "require_scopes [ev_security_scope ?e, ev_retention_scope ?e] = Inr ()"
    using dt(7,8) by (simp add: res_simps event_row_def Let_def)
  moreover have "for_each (\<lambda>d. skip (validate_sha256_digest d)) [ev_command_definition_digest ?e,
        ev_payload_schema_contract_digest ?e, ev_payload_digest ?e, ev_authorization_request_digest ?e] = Inr ()"
    using dig vd(4,5) unfolding for_each_Inr_iff by (auto simp: event_row_def Let_def)
  ultimately show ?thesis
    using pos dt(9) unfolding validate_event_types.simps f m corr
    by (simp add: timestamp_round_trip [OF now] typed_causation [OF u(4)])
qed

section \<open>The store under typed commits\<close>

inductive typed_commit_step :: "EventStore \<Rightarrow> authority_db \<Rightarrow> authority_db \<Rightarrow> bool" for st where
  typed_commit_step: "ids_typed ids \<Longrightarrow> grant_typed g \<Longrightarrow> instant now \<Longrightarrow>
    typed_commit_step st db (snd (commit st g ids now db))"

inductive_cases typed_commit_stepE: "typed_commit_step st db db'"

lemma typed_step_commits: "typed_commit_step st db db' \<Longrightarrow> commit_step st db db'"
  by (auto elim!: typed_commit_stepE intro: commit_step.intros typed_ids_fresh)

text \<open>\<open>__init__\<close> of the store checks the token of the service version.\<close>

definition store_named :: "EventStore \<Rightarrow> bool" where
  "store_named st = token_match (es_command_service_version st)"

definition typed_store :: "EventStore \<Rightarrow> authority_db \<Rightarrow> bool" where
  "typed_store st db = (store_valid st db \<and> store_named st \<and> events_typed db)"

lemma typed_commit_keeps:
  assumes ok: "typed_store st db" and t: "ids_typed ids" "grant_typed g" "instant now"
  shows "typed_store st (snd (commit st g ids now db))"
proof -
  have v: "store_valid st db" and named: "store_named st" and typed: "events_typed db"
    using ok by (simp_all add: typed_store_def)
  obtain hs where st: "store_built st" and inv: "store_inv st db hs" using v by (rule store_validE)
  obtain r db' where c: "commit st g ids now db = (r, db')" by fastforce
  have "events_typed db'"
  proof (cases "db' = db")
    case False
    then obtain dd rd detail h where h: "verify (es_issuer st) g = Inr ()"
        "h = grant_unit st g ids (UtcTimestamp_to_text now) (g_expected_aggregate_version g + 1)
           (int (length hs) + 1) dd rd detail"
        "CommandDefinition_digest (g_definition g) = Inr dd"
        "g_expected_aggregate_version g = int (version_count (unit_target h) hs)" "store_inv st db' (hs @ [h])"
      using commit_effect [OF c st inv typed_ids_fresh [OF t(1)]] by blast
    have "u_event h = event_row st g ids dd None (g_expected_aggregate_version g + 1) (int (length hs) + 1)
        (UtcTimestamp_to_text now)"
      by (simp add: h(2) grant_unit_def)
    then have "validate_event_types (Live (u_event h)) = Inr ()"
      using typed_event [OF h(1) t(2,1,3) _ h(3)] named h(4) by (simp add: store_named_def)
    moreover have "t_events db' = t_events db @ [Live (u_event h)]"
      using store_invD(2) [OF inv] store_invD(2) [OF h(5)] by (simp add: history_of_def)
    ultimately show ?thesis using typed by (simp add: events_typed_def)
  qed (use typed in simp)
  then show ?thesis
    using commit_keeps [OF v typed_ids_fresh [OF t(1)], of g now] named c by (simp add: typed_store_def)
qed

interpretation typed_event_store: state_machine "typed_commit_step st" "typed_store st" for st
  by unfold_locales (auto elim!: typed_commit_stepE dest: typed_commit_keeps)

lemma typed_empty: "store_built st \<Longrightarrow> store_named st \<Longrightarrow> typed_store st empty_db"
  using empty_valid by (simp add: typed_store_def events_typed_def empty_db_def)

lemma typed_reachable:
  "store_built st \<Longrightarrow> store_named st \<Longrightarrow> (typed_commit_step st)\<^sup>*\<^sup>* empty_db db \<Longrightarrow> typed_store st db"
  using typed_event_store.run_keeps typed_empty by blast

section \<open>The grants of the service are typed\<close>

text \<open>The fields of a command that hold typed identifiers, and its causation.\<close>

definition command_typed :: "SemanticCommand \<Rightarrow> bool" where
  "command_typed c = (pred_option uuid_text (sc_correlation_id c) \<and> causation_valid c)"

lemma granted_correlation:
  "authorize_for_commit s c pf now = Inr g \<Longrightarrow> g_correlation_id g = sc_correlation_id c"
  unfolding authorize_for_commit_def res_bind_Inr_iff require_Inr_iff by (auto simp: issue_Inr)

lemma made_decision_id:
  assumes "make_decision z fresh c r now scopes allowed reason = Inr d"
  shows "ad_authorization_decision_id d = fresh"
proof -
  have "\<exists>sd. d = \<lparr>ad_authorization_decision_id = fresh, ad_authentication_context_id = vc_authentication_context_id c,
      ad_authorization_request_digest = ar_request_digest r, ad_authorization_policy_version = sz_policy_version z,
      ad_effective_scopes = scopes, ad_effective_scope_digest = sd, ad_allowed = allowed,
      ad_reason_code = reason, ad_decided_at = now\<rparr>"
    using assms by (auto simp: make_decision_def Let_def res_simps)
  then show ?thesis by auto
qed

lemma service_grants_typed:
  assumes s: "composed s" "cs_authenticate s = StaticAuthenticator_authenticate a fresh"
      "cs_authorize s = StaticAuthorizer_authorize z fresh'"
    and ids: "uuid_text fresh" "uuid_text fresh'" and c: "command_typed c"
    and g: "authorize_for_commit s c pf now = Inr g"
  shows "grant_typed g"
proof -
  obtain current existing where gr: "granted s c pf now current existing g"
    using authorize_for_commit_Inr [OF g] by blast
  have au: "StaticAuthenticator_authenticate a fresh pf now = Inr (g_authentication g)"
    and az: "StaticAuthorizer_authorize z fresh' (g_authentication g) (g_authorization_request g) now = Inr (g_authorization g)"
    using gr s(2,3) by (simp_all add: granted_def)
  have "CommandDefinition_post_init (g_definition g) = Inr ()"
    using s(1) granted_definition [OF s(1) gr] by (simp add: composed_def)
  moreover have "VerifiedAuthenticationContext_post_init (g_authentication g) = Inr ()"
    using au by (auto simp: StaticAuthenticator_authenticate_def Let_def res_simps)
  moreover have "vc_authentication_context_id (g_authentication g) = fresh"
    using static_security.authenticated_window [OF au] by blast
  moreover have "ad_authorization_decision_id (g_authorization g) = fresh'"
    by (rule made_decision_id [OF authorize_Inr(5) [OF az]])
  moreover have "causation_typed g"
  proof (cases "sc_causation c")
    case None
    then show ?thesis by (simp add: causation_typed_def granted_causation [OF g])
  next
    case (Some r)
    then have "CausationRef_post_init r = Inr ()" using c by (simp add: command_typed_def causation_valid_def)
    then show ?thesis
      unfolding causation_typed_def using Some
      by (intro disjI2 exI [of _ r]) (simp add: granted_causation [OF g])
  qed
  ultimately show ?thesis
    using ids c by (simp add: grant_typed_def command_typed_def granted_correlation [OF g])
qed

section \<open>The concrete run is typed\<close>

lemma uuid_textI:
  assumes "s = hyphenate h" and "length h = 32" and "list_all is_lower_hex h"
    and "version_char s = CHR ''4''" and "variant_char s \<in> set ''89ab''"
  shows "uuid_text s"
  unfolding uuid_text_def UUIDv4Id_parse_Inr canonical_uuid_def using assms by (auto simp: list_all_iff)

text \<open>Fresh identifiers for a second command.\<close>

definition next_ids :: FreshIds where
  "next_ids = \<lparr>fid_command = ''123e4567-e89b-42d3-a456-426614174007'', fid_event = ''123e4567-e89b-42d3-a456-426614174008'',
     fid_audit = ''123e4567-e89b-42d3-a456-426614174009'', fid_payload = ''123e4567-e89b-42d3-a456-42661417400a''\<rparr>"

lemma run_uuid_text: "is_lower_hex c \<Longrightarrow> uuid_text (''123e4567-e89b-42d3-a456-42661417400'' @ [c])"
  by (intro uuid_textI [of _ "''123e4567e89b42d3a45642661417400'' @ [c]"])
    (simp_all add: hyphenate_def is_lower_hex_def version_char_def variant_char_def)

lemma run_uuids: "uuid_text run_context_id" "uuid_text run_decision_id" "ids_typed run_ids"
  using run_uuid_text [of "CHR ''1''"] run_uuid_text [of "CHR ''2''"] run_uuid_text [of "CHR ''3''"]
    run_uuid_text [of "CHR ''4''"] run_uuid_text [of "CHR ''5''"] run_uuid_text [of "CHR ''6''"]
  by (simp_all add: run_context_id_def run_decision_id_def ids_typed_def run_ids_def is_lower_hex_def)

lemma next_ids_typed: "ids_typed next_ids"
  using run_uuid_text [of "CHR ''7''"] run_uuid_text [of "CHR ''8''"] run_uuid_text [of "CHR ''9''"]
    run_uuid_text [of "CHR ''a''"]
  by (simp add: ids_typed_def next_ids_def is_lower_hex_def)

lemma run_grant_typed:
  assumes "authorize_for_commit run_state (run_command\<lparr>sc_idempotency_key := key\<rparr>) run_proof 0 = Inr g"
  shows "grant_typed g"
  by (rule service_grants_typed [OF run_composed run_state_fields(3,4) run_uuids(1,2) _ assms])
    (simp add: command_typed_def causation_valid_def run_command_def)

lemma run_store_named: "store_named run_store"
  by (simp add: store_named_def run_store_def token_eval)

lemma typed_run:
  assumes "authorize_for_commit run_state run_command run_proof 0 = Inr g"
    and "commit run_store g run_ids 0 empty_db = (r, db1)"
  shows "typed_commit_step run_store empty_db db1"
proof -
  have "run_command\<lparr>sc_idempotency_key := ''k1''\<rparr> = run_command" by (simp add: run_command_def)
  then have "grant_typed g" using run_grant_typed [of "''k1''"] assms(1) by simp
  then show ?thesis
    using typed_commit_step.intros [OF run_uuids(3), of g 0 run_store empty_db] assms(2)
    by (simp add: instant_def MAX_INSTANT_def)
qed

end
