(* ===== verification/Event_Store_Props.thy ===== *)
theory Event_Store_Props
  imports Event_Store_Types
begin

text \<open>
  The properties of the event store: a reachable store opens, histories are gap-free and causally
  ordered, an identity is committed at most once and its retries return the recorded result, concurrent
  commands on one version conflict, and the store refines an append-only log of commands.
\<close>

section \<open>Histories\<close>

lemma aggregate_versions_log:
  "log_ok hs \<Longrightarrow>
     map (\<lambda>h. ev_aggregate_version (u_event h)) (filter (\<lambda>h. unit_target h = k) hs) =
       map int [1..<version_count k hs + 1]"
proof (induction rule: log_ok.induct)
  case log_empty
  then show ?case by (simp add: version_count_def)
next
  case (log_append hs h)
  then show ?case by (auto simp: unit_next_def)
qed

fun is_on :: "string \<Rightarrow> string \<Rightarrow> LedgerRow \<Rightarrow> bool" where
  "is_on ty i (Live e) = (ev_aggregate_type e = ty \<and> ev_aggregate_id e = i)"
| "is_on ty i (Retired r) = False"

fun row_version :: "LedgerRow \<Rightarrow> int" where
  "row_version (Live e) = ev_aggregate_version e"
| "row_version (Retired r) = 0"

lemma inv_events_on:
  assumes "store_inv st db hs"
  shows "filter (is_on ty i) (t_events db) = map (\<lambda>h. Live (u_event h)) (filter (\<lambda>h. unit_target h = (ty, i)) hs)"
proof -
  note iv = store_invD [OF assms]
  have "is_on ty i (Live (u_event h)) \<longleftrightarrow> unit_target h = (ty, i)" if "h \<in> set hs" for h
    using iv(6) [OF that] by (auto simp: unit_coherent_def Let_def)
  then show ?thesis
    using iv(2) by (simp add: history_of_def filter_map comp_def cong: filter_cong)
qed

lemma inv_versions:
  assumes "store_inv st db hs"
  shows "map row_version (filter (is_on ty i) (t_events db)) = map int [1..<version_count (ty, i) hs + 1]"
    "length (filter (is_on ty i) (t_events db)) = version_count (ty, i) hs"
  using aggregate_versions_log [OF store_invD(3) [OF assms], of "(ty, i)"] inv_events_on [OF assms, of ty i]
  by (simp_all add: comp_def version_count_def)

section \<open>The specification: an append-only log\<close>

text \<open>
  An entry of the abstract log is a command: its idempotency identity, the aggregate it advances and the
  digest of its meaning. A submission is answered from the log when its identity is known, is appended
  when it expects the number of entries of its aggregate, and is refused otherwise.
\<close>

record LogEntry =
  le_identity :: "string \<times> string"
  le_target :: "string \<times> string"
  le_digest :: string

datatype Answer = Appended (ans_seq: nat) (ans_version: nat) | Recorded (ans_seq: nat) (ans_version: nat)

definition entries_on :: "string \<times> string \<Rightarrow> LogEntry list \<Rightarrow> nat" where
  "entries_on t log = length (filter (\<lambda>x. le_target x = t) log)"

fun recorded_at :: "string \<times> string \<Rightarrow> LogEntry list \<Rightarrow> nat option" where
  "recorded_at k [] = None"
| "recorded_at k (x # log) = (if le_identity x = k then Some 0 else map_option Suc (recorded_at k log))"

definition log_submit :: "LogEntry \<Rightarrow> int \<Rightarrow> LogEntry list \<Rightarrow> (Answer \<times> LogEntry list) option" where
  "log_submit x expected log =
     (case recorded_at (le_identity x) log of
        Some k \<Rightarrow> if le_digest (log ! k) = le_digest x
          then Some (Recorded (k + 1) (entries_on (le_target (log ! k)) (take (k + 1) log)), log) else None
      | None \<Rightarrow> if expected = int (entries_on (le_target x) log)
          then Some (Appended (length log + 1) (entries_on (le_target x) log + 1), log @ [x]) else None)"

definition entry_of_row :: "CommandRow \<Rightarrow> LogEntry" where
  "entry_of_row c = \<lparr>le_identity = (cw_idempotency_namespace c, cw_idempotency_key c),
     le_target = (cw_aggregate_type c, cw_aggregate_id c), le_digest = cw_stable_semantic_request_digest c\<rparr>"

definition entry_of_grant :: "AuthorizedCommandGrant \<Rightarrow> LogEntry" where
  "entry_of_grant g = \<lparr>le_identity = (g_idempotency_namespace g, g_idempotency_key g),
     le_target = (cd_aggregate_type (g_definition g), g_aggregate_id g),
     le_digest = g_stable_semantic_request_digest g\<rparr>"

definition log_of :: "authority_db \<Rightarrow> LogEntry list" where
  "log_of db = map entry_of_row (t_commands db)"

definition answer_of :: "CommittedCommand \<Rightarrow> Answer" where
  "answer_of c = (if cmt_replayed c then Recorded else Appended)
     (nat (cmt_ledger_seq c)) (nat (cmt_aggregate_version c))"

lemma recorded_at_None: "recorded_at k log = None \<longleftrightarrow> k \<notin> le_identity ` set log"
  by (induction log) auto

lemma recorded_at_nth:
  "distinct (map le_identity log) \<Longrightarrow> j < length log \<Longrightarrow> recorded_at (le_identity (log ! j)) log = Some j"
proof (induction log arbitrary: j)
  case (Cons x log)
  then show ?case by (cases j) (auto simp: image_iff)
qed simp

lemma log_of_units:
  assumes "store_inv st db hs"
  shows "log_of db = map (\<lambda>h. entry_of_row (u_command h)) hs"
    "distinct (map le_identity (log_of db))" "entries_on t (take j (log_of db)) = version_count t (take j hs)"
proof -
  have c: "t_commands db = map u_command hs" using store_invD(2) [OF assms] by (simp add: history_of_def)
  show l: "log_of db = map (\<lambda>h. entry_of_row (u_command h)) hs" by (simp add: log_of_def c)
  show "distinct (map le_identity (log_of db))"
    using inv_command_ids(7) [OF assms] unfolding log_of_def by (simp add: entry_of_row_def comp_def)
  show "entries_on t (take j (log_of db)) = version_count t (take j hs)"
    by (simp add: l take_map entries_on_def version_count_def filter_map comp_def entry_of_row_def unit_target_def)
qed

lemma unit_position:
  assumes "store_inv st db hs" and "j < length hs"
  shows "ev_ledger_seq (u_event (hs ! j)) = int j + 1"
    "ev_aggregate_version (u_event (hs ! j)) = int (version_count (unit_target (hs ! j)) (take (j + 1) hs))"
proof -
  have u: "unit_next (take j hs) (hs ! j)" using log_unit [OF store_invD(3) [OF assms(1)] assms(2)] by simp
  then show "ev_ledger_seq (u_event (hs ! j)) = int j + 1" using assms(2) by (simp add: unit_next_def)
  show "ev_aggregate_version (u_event (hs ! j)) = int (version_count (unit_target (hs ! j)) (take (j + 1) hs))"
    using u assms(2) by (simp add: unit_next_def take_Suc_conv_app_nth)
qed


lemma log_answer:
  assumes "store_inv st db hs" and "h \<in> set hs" and "unit_key h = k"
  shows "\<exists>j. recorded_at k (log_of db) = Some j \<and> j < length hs \<and> hs ! j = h \<and> log_of db ! j = entry_of_row (u_command h)"
proof -
  note l = log_of_units [OF assms(1)]
  obtain j where j: "j < length hs" "h = hs ! j" using assms(2) by (auto simp: in_set_conv_nth)
  have "le_identity (log_of db ! j) = k"
    using j assms(3) by (simp add: l(1) entry_of_row_def unit_key_def)
  then have "recorded_at k (log_of db) = Some j"
    using recorded_at_nth [OF l(2), of j] j(1) l(1) by simp
  then show ?thesis using j l(1) by simp
qed

lemma grant_unit_entry: "entry_of_row (u_command (grant_unit st g ids at nv seq dd rd detail)) = entry_of_grant g"
  by (simp add: grant_unit_def command_row_def entry_of_row_def entry_of_grant_def)

lemma nat_int_Suc [simp]: "nat (int n + 1) = Suc n"
  by arith

lemma commit_refines_log:
  assumes c: "commit st g ids now db = (Inr out, db')" and st: "store_built st" and inv: "store_inv st db hs"
    and uuid: "fresh_uuid ids"
  shows "log_submit (entry_of_grant g) (g_expected_aggregate_version g) (log_of db) = Some (answer_of out, log_of db')"
proof -
  note l = log_of_units [OF inv]
  let ?k = "(g_idempotency_namespace g, g_idempotency_key g)"
  have k: "le_identity (entry_of_grant g) = ?k" by (simp add: entry_of_grant_def)
  from c st inv uuid show ?thesis
  proof (cases rule: commit_returned)
    case (replay h)
    obtain j where j: "recorded_at ?k (log_of db) = Some j" "j < length hs" "hs ! j = h"
        "log_of db ! j = entry_of_row (u_command h)"
      using log_answer [OF inv replay(2,3)] by blast
    note out = replay(5)
    have digest: "cw_stable_semantic_request_digest (u_command h) = g_stable_semantic_request_digest g"
      using replay_of_unit [OF inv replay(2)] replay(4) by blast
    have "answer_of out = Recorded (j + 1) (entries_on (unit_target h) (take (j + 1) (log_of db)))"
      using unit_position [OF inv j(2)] l(3) [of "unit_target h" "j + 1"] unfolding out j(3)
      by (simp add: answer_of_def unit_result_def)
    then show ?thesis
      using j(1,4) digest replay(1) unfolding log_submit_def k
      by (simp add: entry_of_row_def entry_of_grant_def unit_target_def)
  next
    case (new dd rd detail h)
    have t: "unit_target h = le_target (entry_of_grant g)" unfolding new(2) by (simp add: entry_of_grant_def)
    have "le_identity ` set (log_of db) = unit_key ` set hs"
      by (simp add: l(1) image_image entry_of_row_def unit_key_def [abs_def])
    then have "recorded_at ?k (log_of db) = None" using new(1) by (simp add: recorded_at_None)
    moreover have "log_of db' = log_of db @ [entry_of_grant g]"
      using log_of_units(1) [OF new(5)] l(1) grant_unit_entry unfolding new(2) by simp
    moreover have "entries_on (le_target (entry_of_grant g)) (log_of db) = version_count (unit_target h) hs"
      using l(3) [of "unit_target h" "length hs"] l(1) t by simp
    moreover have "answer_of out = Appended (length hs + 1) (version_count (unit_target h) hs + 1)"
      using new(4) unfolding new(7) by (simp add: answer_of_def unit_result_def new(2))
    ultimately show ?thesis using new(4) l(1) unfolding log_submit_def k by simp
  qed
qed

lemma unit_result_replayed: "(unit_result f h)\<lparr>cmt_replayed := f'\<rparr> = unit_result f' h"
  by (simp add: unit_result_def)

text \<open>What a returned commit recorded is still there in every later store.\<close>

lemma identity_recorded:
  assumes "store_built st" and "(commit_step st)\<^sup>*\<^sup>* empty_db db" and "fresh_uuid ids"
    and "commit st g ids now db = (Inr out, db1)" and "(commit_step st)\<^sup>*\<^sup>* db1 db2"
  shows "\<exists>hs h. store_inv st db2 hs \<and> h \<in> set hs \<and> out = unit_result (cmt_replayed out) h \<and>
    unit_key h = (g_idempotency_namespace g, g_idempotency_key g) \<and>
    cw_stable_semantic_request_digest (u_command h) = g_stable_semantic_request_digest g \<and>
    CommandDefinition_digest (g_definition g) = Inr (cw_command_definition_digest (u_command h)) \<and>
    cw_command_definition_version (u_command h) = cd_definition_version (g_definition g)"
proof -
  obtain hs where inv: "store_inv st db hs" using reachable_valid [OF assms(1,2)] by (rule store_validE)
  obtain hs1 h where h: "store_inv st db1 hs1" "h \<in> set hs1" "out = unit_result (cmt_replayed out) h"
      "unit_key h = (g_idempotency_namespace g, g_idempotency_key g)"
      "cw_stable_semantic_request_digest (u_command h) = g_stable_semantic_request_digest g"
      "CommandDefinition_digest (g_definition g) = Inr (cw_command_definition_digest (u_command h))"
      "cw_command_definition_version (u_command h) = cd_definition_version (g_definition g)"
    using committed_unit [OF assms(4,1) inv assms(3)] by blast
  have v: "store_valid st db1" using h(1) assms(1) by (auto simp: store_valid_def store_ok_iff)
  obtain hs2 where inv2: "store_inv st db2 hs2"
    using event_store.run_keeps [OF assms(5) v] by (rule store_validE)
  obtain h' where "h' \<in> set hs2" "u_command h' = u_command h" "u_event h' = u_event h"
    using unit_stays [OF h(1) inv2 event_store.run_advances [OF assms(5) v] h(2)] by blast
  then show ?thesis
    using h inv2 by (intro exI [of _ hs2] exI [of _ h']) (simp add: unit_result_def unit_key_def)
qed

section \<open>Properties\<close>

text \<open>
  C1. The event store refines its specification, an append-only log of commands: in every store reached
  by commits from an empty database, a commit that returns gives the answer of the log (a new entry with
  the next ledger sequence and the next version of its aggregate, or the recorded entry) and leaves the
  log of the new store; a commit that raises leaves the store as it was.
\<close>

theorem event_store_refines_log:
  assumes "store_built st" and "(commit_step st)\<^sup>*\<^sup>* empty_db db" and "fresh_uuid ids"
  shows "case commit st g ids now db of
      (Inr out, db') \<Rightarrow> log_submit (entry_of_grant g) (g_expected_aggregate_version g) (log_of db) =
        Some (answer_of out, log_of db')
    | (Inl e, db') \<Rightarrow> db' = db"
proof -
  obtain hs where inv: "store_inv st db hs"
    using reachable_valid [OF assms(1,2)] by (rule store_validE)
  obtain r db' where c: "commit st g ids now db = (r, db')" by fastforce
  show ?thesis
  proof (cases r)
    case (Inl e)
    then show ?thesis using commit_effect [OF c assms(1) inv assms(3)] by (simp add: c)
  next
    case (Inr out)
    then show ?thesis using commit_refines_log [OF _ assms(1) inv assms(3)] c by simp
  qed
qed

theorem event_store_refines_log_witness:
  "\<exists>g out db1. commit run_store g run_ids 0 empty_db = (Inr out, db1) \<and>
     log_submit (entry_of_grant g) (g_expected_aggregate_version g) (log_of empty_db) = Some (answer_of out, log_of db1)"
proof -
  obtain g out db1 where r: "authorize_for_commit run_state run_command run_proof 0 = Inr g"
      "commit run_store g run_ids 0 empty_db = (Inr out, db1)" "\<not> cmt_replayed out" "verify (es_issuer run_store) g = Inr ()"
      "(commit_step run_store)\<^sup>*\<^sup>* empty_db db1" "g_replay_of_command_id g = None"
    using run_commit by blast
  show ?thesis
    using event_store_refines_log [OF run_store_built _ run_ids_fresh, of empty_db g 0] r(2) by auto
qed

text \<open>
  C6. A store reached by commits of typed grants with typed fresh identifiers can be opened again: the
  relational checks, the checks of every immutable record, result, payload and ledger event, and the
  registry coverage all accept it. Grants of the command service are typed (\<open>service_grants_typed\<close>).
\<close>

theorem reachable_store_opens:
  assumes "store_built st" and "store_named st" and "(typed_commit_step st)\<^sup>*\<^sup>* empty_db db"
  shows "validate_retained_history st db = Inr ()"
proof -
  have "store_valid st db" and typed: "events_typed db"
    using typed_reachable [OF assms] by (simp_all add: typed_store_def)
  from this(1) obtain hs where "store_inv st db hs" by (rule store_validE)
  then show ?thesis using typed by (rule inv_opens)
qed

theorem reachable_store_opens_witness:
  "\<exists>g out db1. commit run_store g run_ids 0 empty_db = (Inr out, db1) \<and> t_events db1 \<noteq> [] \<and>
     validate_retained_history run_store db1 = Inr ()"
proof -
  obtain g out db1 where r: "authorize_for_commit run_state run_command run_proof 0 = Inr g"
      "commit run_store g run_ids 0 empty_db = (Inr out, db1)"
    using run_commit by blast
  then have "(typed_commit_step run_store)\<^sup>*\<^sup>* empty_db db1" using typed_run by blast
  then have "validate_retained_history run_store db1 = Inr ()"
    by (rule reachable_store_opens [OF run_store_built run_store_named])
  moreover have "t_events db1 \<noteq> []" using run_history [OF r] by auto
  ultimately show ?thesis using r(2) by blast
qed

lemma committed_once:
  assumes "store_built st" and "(commit_step st)\<^sup>*\<^sup>* empty_db db" and "fresh_uuid ids"
    and "commit st g ids now db = (Inr out, db1)" and "(commit_step st)\<^sup>*\<^sup>* db1 db2" and "fresh_uuid ids'"
    and "g_idempotency_namespace g' = g_idempotency_namespace g" and "g_idempotency_key g' = g_idempotency_key g"
  shows "commit st g' ids' now' db2 \<in> {(Inr (out\<lparr>cmt_replayed := True\<rparr>), db2)} \<union> range (\<lambda>e. (Inl e, db2))"
proof -
  obtain hs h hs' where inv: "store_inv st db2 hs'" and h: "h \<in> set hs'" "out = unit_result (cmt_replayed out) h"
      "unit_key h = (g_idempotency_namespace g, g_idempotency_key g)"
    using identity_recorded [OF assms(1-5)] by blast
  obtain r db3 where c: "commit st g' ids' now' db2 = (r, db3)" by fastforce
  have k: "(g_idempotency_namespace g', g_idempotency_key g') \<in> unit_key ` set hs'"
    using h assms(7,8) by force
  from commit_effect [OF c assms(1) inv assms(6)] k
  consider e where "r = Inl e" "db3 = db2"
    | h' out' where "db3 = db2" "h' \<in> set hs'" "unit_key h' = unit_key h" "r = Inr out'"
        "replay_existing db2 g' (u_command h') = Inr out'"
    using h(3) assms(7,8) by auto
  then show ?thesis
  proof cases
    case 1
    then show ?thesis using c by simp
  next
    case 2
    have "h' = h"
      using distinct_map_unique [of unit_key hs' h' h] log_distinct [OF store_invD(3) [OF inv]] 2(2,3) h(1) by blast
    then have "out' = out\<lparr>cmt_replayed := True\<rparr>"
      using replay_of_unit [OF inv h(1)] 2(5) h(2) by (metis unit_result_replayed)
    then show ?thesis using c 2 by simp
  qed
qed


text \<open>
  C2. Exactly once: after a commit has returned, a commit of the same idempotency identity in any later
  store changes nothing, and if it returns, it returns the recorded result marked as replayed.
\<close>

theorem identity_is_committed_once:
  assumes "store_built st" and "(commit_step st)\<^sup>*\<^sup>* empty_db db" and "fresh_uuid ids"
    and "commit st g ids now db = (Inr out, db1)" and "(commit_step st)\<^sup>*\<^sup>* db1 db2" and "fresh_uuid ids'"
    and "g_idempotency_namespace g' = g_idempotency_namespace g" and "g_idempotency_key g' = g_idempotency_key g"
  shows "commit st g' ids' now' db2 \<in> {(Inr (out\<lparr>cmt_replayed := True\<rparr>), db2)} \<union> range (\<lambda>e. (Inl e, db2))"
  by (rule committed_once [OF assms])

theorem identity_is_committed_once_witness:
  "\<exists>g out db1. commit run_store g run_ids 0 empty_db = (Inr out, db1) \<and>
     commit run_store g run_ids 1 db1 \<in> {(Inr (out\<lparr>cmt_replayed := True\<rparr>), db1)} \<union> range (\<lambda>e. (Inl e, db1))"
proof -
  obtain g out db1 where r: "authorize_for_commit run_state run_command run_proof 0 = Inr g"
      "commit run_store g run_ids 0 empty_db = (Inr out, db1)" "\<not> cmt_replayed out" "verify (es_issuer run_store) g = Inr ()"
      "(commit_step run_store)\<^sup>*\<^sup>* empty_db db1" "g_replay_of_command_id g = None"
    using run_commit by blast
  show ?thesis
    using identity_is_committed_once [OF run_store_built _ run_ids_fresh r(2) _ run_ids_fresh refl refl, of db1 1] r(2) by blast
qed

text \<open>
  Retries succeed: in every later store, a verified grant with the identity, the semantic digest and
  the definition of a committed one is answered with the recorded result.
\<close>

theorem retry_returns_recorded_result:
  assumes "store_built st" and "(commit_step st)\<^sup>*\<^sup>* empty_db db" and "fresh_uuid ids"
    and "commit st g ids now db = (Inr out, db1)" and "(commit_step st)\<^sup>*\<^sup>* db1 db2"
    and "verify (es_issuer st) g' = Inr ()"
    and "g_idempotency_namespace g' = g_idempotency_namespace g" and "g_idempotency_key g' = g_idempotency_key g"
    and "g_stable_semantic_request_digest g' = g_stable_semantic_request_digest g"
    and "g_definition g' = g_definition g" and "g_replay_of_command_id g' \<in> {None, Some (cmt_command_id out)}"
  shows "commit st g' ids' now' db2 = (Inr (out\<lparr>cmt_replayed := True\<rparr>), db2)"
proof -
  obtain hs h where inv: "store_inv st db2 hs" and h: "h \<in> set hs" "out = unit_result (cmt_replayed out) h"
      "unit_key h = (g_idempotency_namespace g, g_idempotency_key g)"
      "cw_stable_semantic_request_digest (u_command h) = g_stable_semantic_request_digest g"
      "CommandDefinition_digest (g_definition g) = Inr (cw_command_definition_digest (u_command h))"
      "cw_command_definition_version (u_command h) = cd_definition_version (g_definition g)"
    using identity_recorded [OF assms(1-5)] by blast
  have "cmt_command_id out = cw_command_id (u_command h)" by (subst h(2)) (simp add: unit_result_def)
  then have "replay_existing db2 g' (u_command h) = Inr (unit_result True h)"
    using replay_of_unit [OF inv h(1)] h(4-) assms(9-11) by auto
  moreover have "unit_result True h = out\<lparr>cmt_replayed := True\<rparr>"
    by (subst h(2)) (simp add: unit_result_replayed)
  moreover have "command_by_key db2 (g_idempotency_namespace g') (g_idempotency_key g') = Some (u_command h)"
    using inv_command_by_key(1) [OF inv] h(1,3) assms(7,8) by auto
  ultimately show ?thesis
    using assms(6) inv_not_retired(2) [OF inv] inv_deferred [OF inv]
    by (simp add: commit_def store_transaction_def commit_grant_in_transaction_def)
qed


theorem retry_returns_recorded_result_witness:
  "\<exists>g out db1. commit run_store g run_ids 0 empty_db = (Inr out, db1) \<and>
     commit run_store g run_ids 1 db1 = (Inr (out\<lparr>cmt_replayed := True\<rparr>), db1)"
proof -
  obtain g out db1 where r: "authorize_for_commit run_state run_command run_proof 0 = Inr g"
      "commit run_store g run_ids 0 empty_db = (Inr out, db1)" "\<not> cmt_replayed out" "verify (es_issuer run_store) g = Inr ()"
      "(commit_step run_store)\<^sup>*\<^sup>* empty_db db1" "g_replay_of_command_id g = None"
    using run_commit by blast
  show ?thesis
    using retry_returns_recorded_result [OF run_store_built _ run_ids_fresh r(2) _ r(4) refl refl refl refl, of db1 run_ids 1]
      r(2,6) by blast
qed

text \<open>
  C3. Optimistic concurrency: once a new command has been committed on a version of an aggregate, a commit
  of any grant that expects this version, in any later store, changes nothing. It fails, unless its identity
  is recorded already: then it may return that recorded command, marked as replayed.
\<close>

theorem one_command_per_version:
  assumes "store_built st" and "(commit_step st)\<^sup>*\<^sup>* empty_db db" and "fresh_uuid ids"
    and "commit st g ids now db = (Inr out, db1)" and "\<not> cmt_replayed out" and "(commit_step st)\<^sup>*\<^sup>* db1 db2"
    and "fresh_uuid ids'" and "cd_aggregate_type (g_definition g') = cd_aggregate_type (g_definition g)"
    and "g_aggregate_id g' = g_aggregate_id g"
    and "g_expected_aggregate_version g' = g_expected_aggregate_version g"
  shows "case commit st g' ids' now' db2 of
      (Inl e, db3) \<Rightarrow> db3 = db2
    | (Inr out', db3) \<Rightarrow> db3 = db2 \<and> cmt_replayed out' \<and>
        map_option cw_command_id (command_by_key db2 (g_idempotency_namespace g') (g_idempotency_key g')) =
          Some (cmt_command_id out')"
proof -
  obtain hs where inv: "store_inv st db hs" using reachable_valid [OF assms(1,2)] by (rule store_validE)
  let ?t = "(cd_aggregate_type (g_definition g), g_aggregate_id g)"
  have "\<exists>dd rd detail h. h = grant_unit st g ids (UtcTimestamp_to_text now)
        (g_expected_aggregate_version g + 1) (int (length hs) + 1) dd rd detail \<and>
      g_expected_aggregate_version g = int (version_count (unit_target h) hs) \<and> store_inv st db1 (hs @ [h])"
    using assms(4,1) inv assms(3)
  proof (cases rule: commit_returned)
    case (replay h)
    with assms(5) show ?thesis by (simp add: unit_result_def)
  next
    case (new dd rd detail h)
    show ?thesis using new(2,4,5) by blast
  qed
  then obtain dd rd detail h where h: "h = grant_unit st g ids (UtcTimestamp_to_text now)
        (g_expected_aggregate_version g + 1) (int (length hs) + 1) dd rd detail"
      "g_expected_aggregate_version g = int (version_count (unit_target h) hs)" "store_inv st db1 (hs @ [h])"
    by blast
  have t: "unit_target h = ?t" unfolding h(1) by simp
  have v: "store_valid st db1" using h(3) assms(1) by (auto simp: store_valid_def store_ok_iff)
  obtain hs2 where inv2: "store_inv st db2 hs2"
    using event_store.run_keeps [OF assms(6) v] by (rule store_validE)
  have "prefix (map unit_target (hs @ [h])) (map unit_target hs2)"
    using units_prefix [OF h(3) inv2 event_store.run_advances [OF assms(6) v]]
    by (simp add: unit_target_def [abs_def])
  then have "version_count ?t (hs @ [h]) \<le> version_count ?t hs2" by (rule version_count_mono)
  then have more: "g_expected_aggregate_version g < int (version_count ?t hs2)"
    using h(2) unfolding t by (simp add: t)
  obtain r db3 where c: "commit st g' ids' now' db2 = (r, db3)" by fastforce
  from commit_effect [OF c assms(1) inv2 assms(7)] show ?thesis
  proof (elim disjE conjE exE bexE)
    fix e assume "r = Inl e" "db3 = db2"
    then show ?thesis by (simp add: c)
  next
    fix h' out'
    assume h': "db3 = db2" "h' \<in> set hs2" "unit_key h' = (g_idempotency_namespace g', g_idempotency_key g')"
      "replay_existing db2 g' (u_command h') = r" "r = Inr out'"
    then have "out' = unit_result True h'" using replay_of_unit [OF inv2 h'(2)] by blast
    moreover have "command_by_key db2 (g_idempotency_namespace g') (g_idempotency_key g') = Some (u_command h')"
      using inv_command_by_key(1) [OF inv2] h'(2,3) by blast
    ultimately show ?thesis using c h'(1,5) by (simp add: unit_result_def)
  next
    fix dd' rd' detail' h'
    assume h': "h' = grant_unit st g' ids' (UtcTimestamp_to_text now')
        (g_expected_aggregate_version g' + 1) (int (length hs2) + 1) dd' rd' detail'"
      "g_expected_aggregate_version g' = int (version_count (unit_target h') hs2)"
    have "unit_target h' = ?t" unfolding h'(1) using assms(8,9) by simp
    then show ?thesis using more assms(10) h'(2) by simp
  qed
qed

theorem one_command_per_version_witness:
  "\<exists>g out db1 g' e. commit run_store g run_ids 0 empty_db = (Inr out, db1) \<and>
     authorize_for_commit run_state (run_command\<lparr>sc_idempotency_key := ''k2''\<rparr>) run_proof 0 = Inr g' \<and>
     commit run_store g' next_ids 1 db1 = (Inl e, db1)"
proof -
  obtain g out db1 where r: "authorize_for_commit run_state run_command run_proof 0 = Inr g"
      "commit run_store g run_ids 0 empty_db = (Inr out, db1)" "\<not> cmt_replayed out" "verify (es_issuer run_store) g = Inr ()"
      "(commit_step run_store)\<^sup>*\<^sup>* empty_db db1" "g_replay_of_command_id g = None"
    using run_commit by blast
  obtain g' where g': "authorize_for_commit run_state (run_command\<lparr>sc_idempotency_key := ''k2''\<rparr>) run_proof 0 = Inr g'"
    using run_granted_key by blast
  note f = run_grant_fields [OF r(1)] and f' = run_key_fields [OF g']
  have "\<exists>h. unit_key h = (g_idempotency_namespace g, ''k1'') \<and> store_inv run_store db1 [h]"
    using r(2) run_store_built empty_db_inv run_ids_fresh
  proof (cases rule: commit_returned)
    case (replay h)
    then show ?thesis by simp
  next
    case (new dd rd detail h)
    have "unit_key h = (g_idempotency_namespace g, ''k1'')" unfolding new(2) by (simp add: f(6))
    then show ?thesis using new(5) by auto
  qed
  then have none: "command_by_key db1 (g_idempotency_namespace g') (g_idempotency_key g') = None"
    using inv_command_by_key(2) f'(6) by fastforce
  have "case commit run_store g' next_ids 1 db1 of
      (Inl e, db3) \<Rightarrow> db3 = db1
    | (Inr out', db3) \<Rightarrow> db3 = db1 \<and> cmt_replayed out' \<and>
        map_option cw_command_id (command_by_key db1 (g_idempotency_namespace g') (g_idempotency_key g')) =
          Some (cmt_command_id out')"
    by (rule one_command_per_version [OF run_store_built _ run_ids_fresh r(2,3) _ typed_ids_fresh [OF next_ids_typed]])
      (simp_all add: f f')
  then obtain e where "commit run_store g' next_ids 1 db1 = (Inl e, db1)"
    using none by (auto split: prod.splits sum.splits)
  then show ?thesis using r(2) g' by blast
qed

text \<open>
  C4. No gaps: in every reachable store the ledger sequence runs from one without a gap, the versions of
  every aggregate run from one without a gap in ledger order, and its head is the last of them.
\<close>

theorem histories_have_no_gaps:
  assumes "store_built st" and "(commit_step st)\<^sup>*\<^sup>* empty_db db"
  shows "map row_seq (t_events db) = map int [1..<length (t_events db) + 1] \<and>
    map row_version (filter (is_on ty i) (t_events db)) =
      map int [1..<length (filter (is_on ty i) (t_events db)) + 1] \<and>
    aggregate_head db ty i = (if filter (is_on ty i) (t_events db) = [] then None
      else Some (row_version (last (filter (is_on ty i) (t_events db)))))"
proof -
  obtain hs where inv: "store_inv st db hs" using reachable_valid [OF assms] by (rule store_validE)
  let ?es = "filter (is_on ty i) (t_events db)"
  have t: "t_events db = map (\<lambda>h. Live (u_event h)) hs"
    using store_invD(2) [OF inv] by (simp add: history_of_def)
  have "map row_seq (t_events db) = map int [1..<length (t_events db) + 1]"
    using log_seqs [OF store_invD(3) [OF inv]] by (simp add: t comp_def)
  moreover note vs = inv_versions [OF inv, of ty i]
  moreover have "row_version (last ?es) = int (version_count (ty, i) hs)" if "?es \<noteq> []"
  proof -
    have "row_version (last ?es) = last (map row_version ?es)" using that by (simp add: last_map)
    also have "\<dots> = int (version_count (ty, i) hs)"
      using vs that by (cases "version_count (ty, i) hs") simp_all
    finally show ?thesis .
  qed
  moreover have "?es = [] \<longleftrightarrow> (ty, i) \<notin> unit_target ` set hs"
    using vs(2) version_count_pos [of "(ty, i)" hs] by auto
  ultimately show ?thesis using head_of_aggregate [OF store_invD(4) [OF inv], of ty i] by simp
qed

theorem histories_have_no_gaps_witness:
  "\<exists>g out db1. commit run_store g run_ids 0 empty_db = (Inr out, db1) \<and>
     map row_seq (t_events db1) = map int [1..<length (t_events db1) + 1]"
proof -
  obtain g out db1 where r: "authorize_for_commit run_state run_command run_proof 0 = Inr g"
      "commit run_store g run_ids 0 empty_db = (Inr out, db1)" "\<not> cmt_replayed out" "verify (es_issuer run_store) g = Inr ()"
      "(commit_step run_store)\<^sup>*\<^sup>* empty_db db1" "g_replay_of_command_id g = None"
    using run_commit by blast
  show ?thesis using histories_have_no_gaps [OF run_store_built r(5)] r(2) by blast
qed

text \<open>The cause that a row names is among the rows before it.\<close>

fun cause_known :: "LedgerRow list \<Rightarrow> LedgerRow \<Rightarrow> bool" where
  "cause_known past (Live e) =
     (if ev_causation_kind e = Some ''EVENT'' then list_ex (\<lambda>r. Some (row_event_id r) = ev_causation_identifier e) past
      else if ev_causation_kind e = Some ''COMMAND''
      then list_ex (\<lambda>r. Some (row_command_id r) = ev_causation_identifier e) past else True)"
| "cause_known past (Retired r) = True"

fun causally_ordered :: "LedgerRow list \<Rightarrow> LedgerRow list \<Rightarrow> bool" where
  "causally_ordered past [] = True"
| "causally_ordered past (r # rs) = (cause_known past r \<and> causally_ordered (past @ [r]) rs)"

lemma causally_ordered_snoc:
  "causally_ordered past (rs @ [r]) \<longleftrightarrow> causally_ordered past rs \<and> cause_known (past @ rs) r"
  by (induction rs arbitrary: past) auto

lemma log_causes:
  assumes "log_ok hs" and "\<forall>h \<in> set hs. unit_coherent h"
  shows "causally_ordered [] (map (\<lambda>h. Live (u_event h)) hs)"
  using assms
proof (induction rule: log_ok.induct)
  case (log_append hs h)
  have "caused_by hs (u_event h)" using log_append.hyps by (simp add: unit_next_def)
  moreover have "ev_command_id (u_event x) = cw_command_id (u_command x)" if "x \<in> set hs" for x
    using log_append.prems that by (simp add: unit_coherent_def Let_def)
  ultimately have "cause_known (map (\<lambda>h. Live (u_event h)) hs) (Live (u_event h))"
    by (auto simp: caused_by_def list_ex_iff)
  then show ?case using log_append by (simp add: causally_ordered_snoc)
qed simp

text \<open>
  C5. Causes precede their effects: the command or the event that a ledger event names as its cause is
  that of an event with a smaller ledger position.
\<close>

theorem causes_precede_effects:
  assumes "store_built st" and "(commit_step st)\<^sup>*\<^sup>* empty_db db"
  shows "causally_ordered [] (t_events db)"
proof -
  obtain hs where inv: "store_inv st db hs" using reachable_valid [OF assms] by (rule store_validE)
  note iv = store_invD [OF inv]
  have "t_events db = map (\<lambda>h. Live (u_event h)) hs" using iv(2) by (simp add: history_of_def)
  then show ?thesis using log_causes [OF iv(3)] iv(6) by simp
qed

theorem causes_precede_effects_witness:
  "\<exists>g out db1. commit run_store g run_ids 0 empty_db = (Inr out, db1) \<and> causally_ordered [] (t_events db1)"
proof -
  obtain g out db1 where r: "authorize_for_commit run_state run_command run_proof 0 = Inr g"
      "commit run_store g run_ids 0 empty_db = (Inr out, db1)" "\<not> cmt_replayed out" "verify (es_issuer run_store) g = Inr ()"
      "(commit_step run_store)\<^sup>*\<^sup>* empty_db db1" "g_replay_of_command_id g = None"
    using run_commit by blast
  show ?thesis using causes_precede_effects [OF run_store_built r(5)] r(2) by blast
qed

end
