(* ===== verification/Event_Read_Props.thy ===== *)
theory Event_Read_Props
  imports Event_Store_Props
begin

text \<open>
  Properties of the reads: the lookup of a committed identity agrees with the log and closes the loop
  with the command service, pages of events compose, and a recorded result can be read back.
\<close>

section \<open>The committed identity\<close>

definition identity_of_command :: "CommittedCommandIdentity \<Rightarrow> CommandRow \<Rightarrow> bool" where
  "identity_of_command i c = (ci_command_id i = cw_command_id c \<and>
     ci_command_definition_version i = cw_command_definition_version c \<and>
     ci_command_definition_digest i = cw_command_definition_digest c \<and>
     ci_stable_semantic_request_digest i = cw_stable_semantic_request_digest c)"

lemma found_identity:
  assumes "find_committed db n k = Inr r" and "require_unexpired_key db n k = Inr ()"
    and "command_by_key db n k = Some c"
    and "find (\<lambda>p. pw_payload_id p = cw_payload_id c) (t_payloads db) = Some p"
    and "find (\<lambda>x. xw_authentication_context_id x = cw_authentication_context_id c) (t_contexts db) = Some y"
  shows "\<exists>i. r = Some i \<and> CommittedCommandIdentity_post_init i = Inr () \<and> identity_of_command i c"
  using assms(1) unfolding find_committed_def assms(2-5) res_bind_simps prod.case option.case Let_def
  by (auto simp: res_bind_Inr_iff identity_of_command_def)

lemma find_committed_Inr:
  assumes "store_inv st db hs" and "find_committed db n k = Inr r"
  shows "case r of
      None \<Rightarrow> (n, k) \<notin> unit_key ` set hs
    | Some i \<Rightarrow> \<exists>h \<in> set hs. unit_key h = (n, k) \<and> ci_command_id i = cw_command_id (u_command h) \<and>
        ci_command_definition_version i = cw_command_definition_version (u_command h) \<and>
        ci_command_definition_digest i = cw_command_definition_digest (u_command h) \<and>
        ci_stable_semantic_request_digest i = cw_stable_semantic_request_digest (u_command h) \<and>
        CommittedCommandIdentity_post_init i = Inr ()"
proof (cases "command_by_key db n k")
  case None
  then have "r = None" using assms(2) inv_not_retired(2) [OF assms(1)] by (simp add: find_committed_def)
  then show ?thesis using None inv_command_by_key(2) [OF assms(1)] by simp
next
  case (Some c)
  note iv = store_invD [OF assms(1)]
  obtain h where h: "h \<in> set hs" "c = u_command h" "unit_key h = (n, k)"
    using Some inv_command_by_key(1) [OF assms(1)] by blast
  note co = iv(6) [OF h(1), unfolded unit_coherent_def Let_def]
  have "u_payload h \<in> set (t_payloads db)" using h(1) iv(2) by (simp add: history_of_def)
  moreover have "pw_payload_id (u_payload h) = cw_payload_id c" using co h(2) by simp
  ultimately obtain p where p: "find (\<lambda>p. pw_payload_id p = cw_payload_id c) (t_payloads db) = Some p"
    using find_mem [of "u_payload h" "t_payloads db" "\<lambda>p. pw_payload_id p = cw_payload_id c"] by auto
  obtain x where "x \<in> set (t_contexts db)" "xw_authentication_context_id x = ev_authentication_context_id (u_event h)"
    using iv(5) [OF h(1)] unfolding unit_retained_def Let_def by blast
  then have "x \<in> set (t_contexts db)" "xw_authentication_context_id x = cw_authentication_context_id c"
    using co h(2) by (simp_all add: command_security_def)
  then obtain y where y: "find (\<lambda>x. xw_authentication_context_id x = cw_authentication_context_id c) (t_contexts db) = Some y"
    using find_mem [of x "t_contexts db" "\<lambda>x. xw_authentication_context_id x = cw_authentication_context_id c"] by auto
  obtain i where "r = Some i" "CommittedCommandIdentity_post_init i = Inr ()" "identity_of_command i c"
    using found_identity [OF assms(2) inv_not_retired(2) [OF assms(1)] Some p y] by blast
  then show ?thesis using h by (auto simp: identity_of_command_def)
qed

section \<open>Pages of events\<close>

fun record_seq :: "EventRecord \<Rightarrow> int" where
  "record_seq (LiveEvent e) = ev_ledger_seq e"
| "record_seq (RetiredEvent r) = rt_ledger_seq r"

lemma live_records:
  assumes "\<forall>r \<in> set rs. \<not> is_retired r"
  shows "\<exists>es. res_map event_from_row rs = Inr es \<and> map record_seq es = map row_seq rs"
  using assms
proof (induction rs)
  case (Cons r rs)
  then obtain es where "res_map event_from_row rs = Inr es" "map record_seq es = map row_seq rs" by auto
  with Cons.prems show ?case by (cases r) simp_all
qed simp

lemma res_map_append:
  "res_map f (xs @ ys) = res_bind (res_map f xs) (\<lambda>as. res_bind (res_map f ys) (\<lambda>bs. Inr (as @ bs)))"
proof (induction xs)
  case Nil
  then show ?case by (cases "res_map f ys") simp_all
next
  case (Cons x xs)
  then show ?case by (cases "f x"; cases "res_map f xs"; cases "res_map f ys") simp_all
qed

text \<open>What follows the last of the first \<open>m\<close> of a strictly increasing list is the rest of the list.\<close>

lemma after_page:
  fixes f :: "'a \<Rightarrow> int"
  assumes "sorted_wrt (\<lambda>x y. f x < f y) xs" and "take m (filter (\<lambda>x. s < f x) xs) = ps" and "ps \<noteq> []"
  shows "filter (\<lambda>x. f (last ps) < f x) xs = drop m (filter (\<lambda>x. s < f x) xs)"
proof -
  let ?l = "filter (\<lambda>x. s < f x) xs"
  have l: "ps @ drop m ?l = ?l" unfolding assms(2) [symmetric] by (rule append_take_drop_id)
  have "sorted_wrt (\<lambda>x y. f x < f y) (ps @ drop m ?l)" unfolding l by (rule sorted_wrt_filter [OF assms(1)])
  then have ps: "sorted_wrt (\<lambda>x y. f x < f y) (butlast ps @ [last ps])"
    and hi: "\<forall>x \<in> set ps. \<forall>y \<in> set (drop m ?l). f x < f y"
    unfolding sorted_wrt_append append_butlast_last_id [OF assms(3)] by blast+
  have lo: "\<not> f (last ps) < f x" if "x \<in> set ps" for x
  proof -
    have "x \<in> set (butlast ps @ [last ps])" using that assms(3) by simp
    then show ?thesis using ps unfolding sorted_wrt_append by auto
  qed
  have "last ps \<in> set ?l" using l assms(3) by (metis last_in_set UnI1 set_append)
  then have "filter (\<lambda>x. f (last ps) < f x) xs = filter (\<lambda>x. f (last ps) < f x) ?l"
    by (auto intro: filter_cong)
  also have "\<dots> = filter (\<lambda>x. f (last ps) < f x) ps @ filter (\<lambda>x. f (last ps) < f x) (drop m ?l)"
    by (subst l [symmetric]) (rule filter_append)
  also have "\<dots> = drop m ?l"
    using hi lo assms(3) by (simp add: filter_id_conv filter_empty_conv)
  finally show ?thesis .
qed


lemma inv_rows_sorted:
  assumes "store_inv st db hs"
  shows "sorted_wrt (\<lambda>x y. row_seq x < row_seq y) (t_events db)"
proof -
  have "map row_seq (t_events db) = map int [1..<length hs + 1]"
    using log_seqs [OF store_invD(3) [OF assms]] store_invD(2) [OF assms] by (simp add: history_of_def comp_def)
  moreover have "sorted_wrt (<) (map int [1..<length hs + 1])" by (simp add: sorted_wrt_map del: upt_Suc)
  ultimately show ?thesis by (metis sorted_wrt_map)
qed

text \<open>A read is the first \<open>limit\<close> visible rows after the sequence, in ledger order.\<close>

lemma events_after_rows:
  assumes "store_inv st db hs" and "events_after db s limit p = Inr es"
  shows "res_map event_from_row (take (nat limit) (filter (\<lambda>r. s < row_seq r) (filter (visible p) (t_events db)))) = Inr es"
    "map record_seq es = map row_seq (take (nat limit) (filter (\<lambda>r. s < row_seq r) (filter (visible p) (t_events db))))"
proof -
  have "sorted_wrt (\<lambda>x y. row_seq x < row_seq y) (filter (\<lambda>r. s < row_seq r \<and> visible p r) (t_events db))"
    by (rule sorted_wrt_filter [OF inv_rows_sorted [OF assms(1)]])
  then have "sorted (map row_seq (filter (\<lambda>r. s < row_seq r \<and> visible p r) (t_events db)))"
    by (simp add: sorted_map) (rule sorted_wrt_mono_rel [rotated], assumption, simp)
  then have k: "sort_key row_seq (filter (\<lambda>r. s < row_seq r \<and> visible p r) (t_events db)) =
      filter (\<lambda>r. s < row_seq r) (filter (visible p) (t_events db))"
    by (simp add: sort_key_id_if_sorted conj_commute)
  let ?rs = "take (nat limit) (filter (\<lambda>r. s < row_seq r) (filter (visible p) (t_events db)))"
  show r: "res_map event_from_row ?rs = Inr es"
    using assms(2) unfolding events_after_def k by (auto simp: res_bind_Inr_iff)
  have "\<forall>x \<in> set ?rs. \<not> is_retired x"
    using inv_not_retired(1) [OF assms(1)] in_set_takeD by fastforce
  from live_records [OF this] r show "map record_seq es = map row_seq ?rs" by auto
qed

section \<open>Redelivery\<close>

lemma resubmitted_replay:
  assumes "store_built st" and "(commit_step st)\<^sup>*\<^sup>* empty_db db"
    and "cs_issuer s = es_issuer st" and "cs_committed_lookup s = Some (find_committed db)"
    and "composed s" and "cs_authenticate s = StaticAuthenticator_authenticate a fresh"
    and "cs_authorize s = StaticAuthorizer_authorize z fresh'"
    and "SemanticCommand_post_init c = Inr ()" and "UUIDv4Id_parse (sc_aggregate_id c) = Inr (sc_aggregate_id c)"
    and "authorize_for_commit s c pf now = Inr g"
    and "command_by_key db (g_idempotency_namespace g) (g_idempotency_key g) = Some row"
  shows "\<exists>out. commit st g ids now' db = (Inr out, db) \<and> cmt_replayed out \<and> cmt_command_id out = cw_command_id row \<and>
    cmt_result_digest out = cw_result_digest row"
proof -
  obtain hs where inv: "store_inv st db hs" using reachable_valid [OF assms(1,2)] by (rule store_validE)
  have v: "verify (es_issuer st) g = Inr ()"
    using static_security.issued_grant_verifies [OF assms(5-10)] assms(3) by simp
  obtain h where h: "h \<in> set hs" "row = u_command h" "unit_key h = (g_idempotency_namespace g, g_idempotency_key g)"
    using inv_command_by_key(1) [OF inv] assms(11) by blast
  obtain current existing where gr: "granted s c pf now current existing g"
    using authorize_for_commit_Inr [OF assms(10)] by blast
  note g = gr [unfolded granted_def]
  have fc: "find_committed db (g_idempotency_namespace g) (g_idempotency_key g) = Inr existing"
    using g assms(4) by (simp add: existing_command_def)
  have "(g_idempotency_namespace g, g_idempotency_key g) \<in> unit_key ` set hs" using h(1,3) by force
  then obtain i where i: "existing = Some i"
    using find_committed_Inr [OF inv fc] by (cases existing) simp_all
  obtain h' where "h' \<in> set hs" "unit_key h' = unit_key h" and ic: "identity_of_command i (u_command h')"
    using find_committed_Inr [OF inv fc] h(3) unfolding i by (auto simp: identity_of_command_def)
  then have "h' = h"
    using distinct_map_unique [of unit_key hs h' h] log_distinct [OF store_invD(3) [OF inv]] h(1) by blast
  with ic have ic: "identity_of_command i row" using h(2) by simp
  have d: "CommandDefinition_digest (g_definition g) = Inr (ci_command_definition_digest i)"
    "CommandRegistry_resolve (cs_registry s) (sc_command_type c) (Some (ci_command_definition_version i)) = Inr (g_definition g)"
    using g select_definition_Inr(3) unfolding i by blast+
  have "cd_definition_version (g_definition g) = ci_command_definition_version i"
    using command_registry.resolve_version d(2) assms(5) unfolding composed_def by blast
  then have "replay_existing db g row = Inr (unit_result True h)"
    using replay_of_unit [OF inv h(1)] g ic d(1) unfolding h(2) i by (auto simp: identity_of_command_def)
  then have "commit st g ids now' db = (Inr (unit_result True h), db)"
    using v inv_not_retired(2) [OF inv] inv_deferred [OF inv] assms(11)
    by (simp add: commit_def store_transaction_def commit_grant_in_transaction_def)
  then show ?thesis using h(2) by (simp add: unit_result_def)
qed

lemma commit_reaches: "fresh_uuid ids \<Longrightarrow> commit st g ids now db = (r, db') \<Longrightarrow> commit_step st db db'"
  using commit_step.intros [of ids st db g now] by simp

lemma redelivered:
  assumes s: "composed s" "cs_authenticate s = StaticAuthenticator_authenticate a fresh"
      "cs_authorize s = StaticAuthorizer_authorize z fresh'" and j: "joined s st"
    and c: "SemanticCommand_post_init c = Inr ()" "UUIDv4Id_parse (sc_aggregate_id c) = Inr (sc_aggregate_id c)"
      "causation_valid c"
    and r: "(commit_step st)\<^sup>*\<^sup>* empty_db db" and ready: "store_ready db g ids" "payload_storable (g_payload g)"
      "\<forall>k. contracts_registered st g k \<longrightarrow> no_collisions db g k"
    and ids: "fresh_uuid ids" "UUIDv4Id_parse (fid_command ids) = Inr (fid_command ids)"
      "fresh_uuid ids'"
    and g: "authorize_for_commit (served s db) c pf now = Inr g"
    and later: "StaticAuthorizer_init z = Inr ()" "now' + sa_ttl_seconds a * 1000000 < MAX_INSTANT"
  shows "\<exists>out db' g'. commit st g ids at db = (Inr out, db') \<and> \<not> cmt_replayed out \<and>
    authorize_for_commit (serving s db' a again z again') c pf now' = Inr g' \<and> g_idempotency_namespace g' = g_idempotency_namespace g \<and>
    g_idempotency_key g' = g_idempotency_key g \<and> commit st g' ids' at' db' = (Inr (out\<lparr>cmt_replayed := True\<rparr>), db')"
proof -
  note st = joined_built [OF j s(1)]
  obtain hs where inv: "store_inv st db hs" using reachable_valid [OF st r] by (rule store_validE)
  obtain current existing where gr: "granted (served s db) c pf now current existing g"
    using authorize_for_commit_Inr [OF g] by blast
  have key: "command_by_key db (g_idempotency_namespace g) (g_idempotency_key g) = None"
    "fid_command ids \<notin> cw_command_id ` set (t_commands db)"
    using ready(1) by (simp_all add: store_ready_def identities_fresh_def)
  have none: "existing = None"
    using gr key(1) inv_not_retired(2) [OF inv]
    unfolding granted_def existing_command_def served_fields by (auto simp: find_committed_def)
  have sc: "composed (served s db)" "joined (served s db) st" using s(1) j by (simp_all add: served_composed served_joined)
  have rep: "g_replay_of_command_id g = None" using gr none by (simp add: granted_def)
  obtain out db' where co: "commit st g ids at db = (Inr out, db')" "\<not> cmt_replayed out"
    using service_grant_commits [OF sc(1) _ _ sc(2) c g rep ready(2) inv ready(1) ids(1), of a fresh z fresh' at] ready(3) s(2,3)
    by auto
  obtain dd where dd: "CommandDefinition_digest (g_definition g) = Inr dd"
    using granted_contracts [OF sc gr] by (auto simp: contracts_registered_def split: sum.splits)
  have ver: "verify (cs_issuer s) g = Inr ()"
    using static_security.issued_grant_verifies [OF sc(1) _ _ c(1,2) g, of a fresh z fresh'] s(2,3) by simp
  have m: "validate_resolved_payload (g_payload g) (g_definition g) = Inr ()" by (rule verify_bindings(7) [OF ver])
  have au: "VerifiedAuthenticationContext_post_init (g_authentication g) = Inr ()"
    using gr s(2) by (auto simp: granted_def StaticAuthenticator_authenticate_def Let_def res_simps)
  note val = grant_identity_valid [OF sc(1) au c(1) gr [unfolded none] ready(2) m dd ids(2)]
  note found = new_command_found [OF co(1) st inv ids(1) key dd val]
  have mode: "cd_payload_mode (g_definition g) \<noteq> OBJECT_ADMISSION"
    using ready(2) payload_identity [OF m] by (auto simp: payload_storable_def schema_identity_matches_def)
  have same: "serving (served s db) db' a again z again' = serving s db' a again z again'" by (simp add: serving_def served_def)
  obtain g' where g': "authorize_for_commit (serving s db' a again z again') c pf now' = Inr g'"
      "g_idempotency_namespace g' = g_idempotency_namespace g" "g_idempotency_key g' = g_idempotency_key g"
    using redelivery_granted [OF sc(1) _ _ later gr [unfolded none] dd mode found, of fresh fresh' again again'] s(2,3)
    by (auto simp: same)
  obtain row where row: "command_by_key db' (g_idempotency_namespace g') (g_idempotency_key g') = Some row"
    using found unfolding g'(2,3) find_committed_def by (auto simp: res_simps split: option.splits)
  have r': "(commit_step st)\<^sup>*\<^sup>* empty_db db'" using r commit_reaches [OF ids(1) co(1)] by simp
  obtain out' where out': "commit st g' ids' at' db' = (Inr out', db')"
    using resubmitted_replay [OF st r' _ _ serving_composed [OF s(1)] _ _ c(1,2) g'(1) row, of a again z again' ids' at'] j
    by (auto simp: joined_def)
  have "commit st g' ids' at' db' \<in> {(Inr (out\<lparr>cmt_replayed := True\<rparr>), db')} \<union> range (\<lambda>e. (Inl e, db'))"
    using g'(2,3) by (intro committed_once [OF st r ids(1) co(1) _ ids(3)]) simp_all
  then have "commit st g' ids' at' db' = (Inr (out\<lparr>cmt_replayed := True\<rparr>), db')" using out' by auto
  then show ?thesis using co g' by blast
qed

lemma run_served: "authorize_for_commit (served run_state empty_db) = authorize_for_commit run_state"
  by (rule served_empty [OF run_state_fields(6)])

lemma run_ttl: "0 + sa_ttl_seconds run_authenticator * 1000000 < MAX_INSTANT"
  by (simp add: run_authenticator_def MAX_INSTANT_def)

lemma run_serving: "serving run_state db run_authenticator run_context_id sample_authorizer run_decision_id = served run_state db"
  by (simp add: serving_def served_def run_state_fields [symmetric])

lemma run_redelivered:
  "\<exists>g out db1 g' row i. commit run_store g run_ids 0 empty_db = (Inr out, db1) \<and>
     (commit_step run_store)\<^sup>*\<^sup>* empty_db db1 \<and> authorize_for_commit (served run_state db1) run_command run_proof 0 = Inr g' \<and>
     command_by_key db1 (g_idempotency_namespace g') (g_idempotency_key g') = Some row \<and>
     find_committed db1 (g_idempotency_namespace g') (g_idempotency_key g') = Inr (Some i)"
proof -
  obtain g where g: "authorize_for_commit run_state run_command run_proof 0 = Inr g" using run_granted by blast
  note ok = run_ready [OF g] run_grant_fields(3) [OF g]
  have nc: "\<forall>k. contracts_registered run_store g k \<longrightarrow> no_collisions empty_db g k" using ok(2) by blast
  obtain out db1 g' where r: "commit run_store g run_ids 0 empty_db = (Inr out, db1)"
      "authorize_for_commit (served run_state db1) run_command run_proof 0 = Inr g'"
      "g_idempotency_namespace g' = g_idempotency_namespace g" "g_idempotency_key g' = g_idempotency_key g"
    using redelivered [OF run_composed run_state_fields(3,4) run_joined run_command_valid run_uuid ok(3)
      rtranclp.rtrancl_refl ok(1,4) nc run_ids_fresh run_ids_valid run_ids_fresh g [folded run_served] run_adapters(2) run_ttl, of 0 run_context_id run_decision_id 1]
    unfolding run_serving by blast
  have reach: "(commit_step run_store)\<^sup>*\<^sup>* empty_db db1" using commit_reaches [OF run_ids_fresh r(1)] by simp
  obtain hs h where h: "store_inv run_store db1 hs" "h \<in> set hs" "unit_key h = (g_idempotency_namespace g', g_idempotency_key g')"
    using committed_unit [OF r(1) run_store_built empty_db_inv run_ids_fresh] r(3,4) by metis
  then obtain row where row: "command_by_key db1 (g_idempotency_namespace g') (g_idempotency_key g') = Some row"
    using inv_command_by_key(1) by blast
  obtain current existing where gr: "granted (served run_state db1) run_command run_proof 0 current existing g'"
    using authorize_for_commit_Inr [OF r(2)] by blast
  have "g_idempotency_key g' = sc_idempotency_key run_command" using gr unfolding granted_def by blast
  then have ex: "find_committed db1 (g_idempotency_namespace g') (g_idempotency_key g') = Inr existing"
    using gr unfolding granted_def existing_command_def served_fields by simp
  have "(g_idempotency_namespace g', g_idempotency_key g') \<in> unit_key ` set hs" using h(2,3) by (metis imageI)
  then obtain i where "existing = Some i" using find_committed_Inr [OF h(1) ex] by (cases existing) simp_all
  then show ?thesis using r(1,2) reach row ex by blast
qed

section \<open>Properties\<close>

text \<open>
  C9. Pages compose: in a reachable store, a page of events after a sequence followed by the page after
  its last event is the single longer page; nothing visible is skipped and nothing is read twice.
\<close>

theorem event_pages_compose:
  assumes "store_built st" and "(commit_step st)\<^sup>*\<^sup>* empty_db db"
    and "events_after db s m p = Inr xs" and "xs \<noteq> []" and "events_after db (record_seq (last xs)) n p = Inr ys"
    and "events_after db s (m + n) p = Inr zs"
  shows "zs = xs @ ys"
proof -
  obtain hs where inv: "store_inv st db hs" using reachable_valid [OF assms(1,2)] by (rule store_validE)
  let ?v = "filter (visible p) (t_events db)" and ?after = "\<lambda>s. filter (\<lambda>r. s < row_seq r) (filter (visible p) (t_events db))"
  note x = events_after_rows [OF inv assms(3)] and y = events_after_rows [OF inv assms(5)]
    and z = events_after_rows [OF inv assms(6)]
  have mn: "0 \<le> m" "0 \<le> n"
    using assms(3,5) by (auto simp: events_after_def require_window_def res_simps)
  let ?ps = "take (nat m) (?after s)"
  have ne: "?ps \<noteq> []" using x(2) assms(4) by auto
  then have "record_seq (last xs) = row_seq (last ?ps)"
    using arg_cong [OF x(2), of last] assms(4) ne unfolding last_map [OF ne] last_map [OF assms(4)] by simp
  then have "?after (record_seq (last xs)) = drop (nat m) (?after s)"
    using after_page [OF sorted_wrt_filter [OF inv_rows_sorted [OF inv]] refl ne] by simp
  moreover have "take (nat (m + n)) (?after s) = ?ps @ take (nat n) (drop (nat m) (?after s))"
    using mn by (simp add: nat_add_distrib take_add)
  ultimately show ?thesis using x(1) y(1) z(1) by (simp add: res_map_append)
qed

theorem event_pages_compose_witness:
  "\<exists>g out db1 xs ys zs. commit run_store g run_ids 0 empty_db = (Inr out, db1) \<and>
     events_after db1 0 1 run_policy = Inr xs \<and> xs \<noteq> [] \<and> events_after db1 (record_seq (last xs)) 1 run_policy = Inr ys \<and>
     events_after db1 0 2 run_policy = Inr zs \<and> zs = xs @ ys"
proof -
  obtain g out db1 where r: "authorize_for_commit run_state run_command run_proof 0 = Inr g"
      "commit run_store g run_ids 0 empty_db = (Inr out, db1)" "\<not> cmt_replayed out" "verify (es_issuer run_store) g = Inr ()"
      "(commit_step run_store)\<^sup>*\<^sup>* empty_db db1" "g_replay_of_command_id g = None"
    using run_commit by blast
  obtain e where e: "t_events db1 = [Live e]" "ev_ledger_seq e = 1" "ev_command_id e = cmt_command_id out"
      "ev_security_scope e = cd_security_scope run_definition"
      "ev_trust_scope e = TrustScope_value (cd_trust_scope run_definition)"
    using run_history [OF r(1,2)] by blast
  note pg = run_pages [OF e(1,2,4,5)]
  then obtain zs where zs: "events_after db1 0 (1 + 1) run_policy = Inr zs" by auto
  have ys: "events_after db1 (record_seq (last [LiveEvent e])) 1 run_policy = Inr []" using pg(2) e(2) by simp
  have "zs = [LiveEvent e] @ []"
    by (rule event_pages_compose [OF run_store_built r(5) pg(1) _ ys zs]) simp
  then show ?thesis using r(2) pg(1) ys zs by fastforce
qed

text \<open>
  The lookup of a committed identity and the log agree: in a reachable store it finds nothing exactly
  when the identity is not in the log, and otherwise the command, the definition and the semantic digest
  of the row at the identity's position.
\<close>

theorem committed_lookup_agrees_with_log:
  assumes "store_built st" and "(commit_step st)\<^sup>*\<^sup>* empty_db db" and "find_committed db n k = Inr r"
  shows "case recorded_at (n, k) (log_of db) of
      None \<Rightarrow> r = None
    | Some j \<Rightarrow> (case r of None \<Rightarrow> False | Some i \<Rightarrow> identity_of_command i (t_commands db ! j))"
proof -
  obtain hs where inv: "store_inv st db hs" using reachable_valid [OF assms(1,2)] by (rule store_validE)
  note f = find_committed_Inr [OF inv assms(3)]
  have keys: "le_identity ` set (log_of db) = unit_key ` set hs"
    by (simp add: log_of_units(1) [OF inv] image_image entry_of_row_def unit_key_def [abs_def])
  have c: "t_commands db = map u_command hs" using store_invD(2) [OF inv] by (simp add: history_of_def)
  show ?thesis
  proof (cases r)
    case None
    then have "recorded_at (n, k) (log_of db) = None" using f keys by (simp add: recorded_at_None)
    with None show ?thesis by simp
  next
    case (Some i)
    then obtain h where h: "h \<in> set hs" "unit_key h = (n, k)" "identity_of_command i (u_command h)"
      using f by (auto simp: identity_of_command_def)
    obtain j where "recorded_at (n, k) (log_of db) = Some j" "j < length hs" "hs ! j = h"
      using log_answer [OF inv h(1,2)] by blast
    with h(3) Some show ?thesis by (simp add: c)
  qed
qed

theorem committed_lookup_agrees_with_log_witness:
  "\<exists>g out db1 n k i. commit run_store g run_ids 0 empty_db = (Inr out, db1) \<and> find_committed db1 n k = Inr (Some i) \<and>
     (case recorded_at (n, k) (log_of db1) of None \<Rightarrow> False | Some j \<Rightarrow> identity_of_command i (t_commands db1 ! j))"
proof -
  obtain g out db1 and g' :: AuthorizedCommandGrant and row i where r:
      "commit run_store g run_ids 0 empty_db = (Inr out, db1)" "(commit_step run_store)\<^sup>*\<^sup>* empty_db db1"
      "find_committed db1 (g_idempotency_namespace g') (g_idempotency_key g') = Inr (Some i)"
    using run_redelivered by blast
  show ?thesis
    using committed_lookup_agrees_with_log [OF run_store_built r(2,3)] r(1,3)
    by (intro exI [of _ g] exI [of _ out] exI [of _ db1] exI [of _ "g_idempotency_namespace g'"]
        exI [of _ "g_idempotency_key g'"] exI [of _ i]) (simp split: option.splits)
qed

text \<open>
  C7. Redelivery, end to end: a composed service with the static adapters grants a valid command in front of
  a reachable store, the store is ready for it (its key, identifiers and security records are new, its cause
  is known, its expected version is the version of the aggregate), its payload is inline bytes or no payload,
  and its stored contracts and scopes do not collide under SHA-256. Then the store commits the command; at
  any later reading of the clock the service grants the same command again, with new identifiers, as a retry;
  and the store answers that retry with the recorded result and changes nothing.
\<close>

theorem redelivered_command_commits_once:
  assumes "composed s" and "cs_authenticate s = StaticAuthenticator_authenticate a fresh"
    and "cs_authorize s = StaticAuthorizer_authorize z fresh'" and "joined s st"
    and "SemanticCommand_post_init c = Inr ()" and "UUIDv4Id_parse (sc_aggregate_id c) = Inr (sc_aggregate_id c)"
    and "causation_valid c" and "(commit_step st)\<^sup>*\<^sup>* empty_db db" and "store_ready db g ids"
    and "payload_storable (g_payload g)" and "\<forall>k. contracts_registered st g k \<longrightarrow> no_collisions db g k"
    and "fresh_uuid ids" and "UUIDv4Id_parse (fid_command ids) = Inr (fid_command ids)" and "fresh_uuid ids'"
    and "authorize_for_commit (served s db) c pf now = Inr g"
    and "StaticAuthorizer_init z = Inr ()" and "now' + sa_ttl_seconds a * 1000000 < MAX_INSTANT"
  shows "\<exists>out db' g'. commit st g ids at db = (Inr out, db') \<and> \<not> cmt_replayed out \<and>
    authorize_for_commit (serving s db' a again z again') c pf now' = Inr g' \<and> g_idempotency_namespace g' = g_idempotency_namespace g \<and>
    g_idempotency_key g' = g_idempotency_key g \<and> commit st g' ids' at' db' = (Inr (out\<lparr>cmt_replayed := True\<rparr>), db')"
  by (rule redelivered [OF assms])

theorem redelivered_command_commits_once_witness:
  "\<exists>g out db' g'. authorize_for_commit (served run_state empty_db) run_command run_proof 0 = Inr g \<and>
     commit run_store g run_ids 0 empty_db = (Inr out, db') \<and> \<not> cmt_replayed out \<and>
     authorize_for_commit (serving run_state db' run_authenticator ''123e4567-e89b-42d3-a456-42661417400b''
       sample_authorizer ''123e4567-e89b-42d3-a456-42661417400c'') run_command run_proof 60000000 =
       Inr g' \<and>
     commit run_store g' next_ids 60000000 db' = (Inr (out\<lparr>cmt_replayed := True\<rparr>), db')"
proof -
  obtain g where g: "authorize_for_commit run_state run_command run_proof 0 = Inr g" using run_granted by blast
  note ok = run_ready [OF g] run_grant_fields(3) [OF g]
  have nc: "\<forall>k. contracts_registered run_store g k \<longrightarrow> no_collisions empty_db g k" using ok(2) by blast
  have ttl: "60000000 + sa_ttl_seconds run_authenticator * 1000000 < MAX_INSTANT"
    by (simp add: run_authenticator_def MAX_INSTANT_def)
  show ?thesis
    using redelivered_command_commits_once [OF run_composed run_state_fields(3,4) run_joined run_command_valid run_uuid ok(3)
      rtranclp.rtrancl_refl ok(1,4) nc run_ids_fresh run_ids_valid typed_ids_fresh [OF next_ids_typed] g [folded run_served]
      run_adapters(2) ttl, of 0
        "''123e4567-e89b-42d3-a456-42661417400b''" "''123e4567-e89b-42d3-a456-42661417400c''" 60000000] g
    by (auto simp: run_served)
qed

text \<open>
  The command service and the event store compose: when the service looks identities up in a
  reachable store and shares the store's issuer, every grant it issues for an identity that is already
  committed is answered by the store with the recorded command as a replay, and the store is unchanged.
\<close>

theorem resubmitted_command_is_replayed:
  assumes "store_built st" and "(commit_step st)\<^sup>*\<^sup>* empty_db db"
    and "cs_issuer s = es_issuer st" and "cs_committed_lookup s = Some (find_committed db)"
    and "composed s" and "cs_authenticate s = StaticAuthenticator_authenticate a fresh"
    and "cs_authorize s = StaticAuthorizer_authorize z fresh'"
    and "SemanticCommand_post_init c = Inr ()" and "UUIDv4Id_parse (sc_aggregate_id c) = Inr (sc_aggregate_id c)"
    and "authorize_for_commit s c pf now = Inr g"
    and "command_by_key db (g_idempotency_namespace g) (g_idempotency_key g) = Some row"
  shows "\<exists>out. commit st g ids now' db = (Inr out, db) \<and> cmt_replayed out \<and> cmt_command_id out = cw_command_id row \<and>
    cmt_result_digest out = cw_result_digest row"
  by (rule resubmitted_replay [OF assms])

theorem resubmitted_command_is_replayed_witness:
  "\<exists>g out db1 g' out'. commit run_store g run_ids 0 empty_db = (Inr out, db1) \<and>
     authorize_for_commit (served run_state db1) run_command run_proof 0 = Inr g' \<and>
     commit run_store g' run_ids 1 db1 = (Inr out', db1) \<and> cmt_replayed out'"
proof -
  obtain g out db1 g' row i where r: "commit run_store g run_ids 0 empty_db = (Inr out, db1)"
      "(commit_step run_store)\<^sup>*\<^sup>* empty_db db1" "authorize_for_commit (served run_state db1) run_command run_proof 0 = Inr g'"
      "command_by_key db1 (g_idempotency_namespace g') (g_idempotency_key g') = Some row"
    using run_redelivered by blast
  have "cs_issuer (served run_state db1) = es_issuer run_store" by (simp add: run_store_def)
  from resubmitted_command_is_replayed [OF run_store_built r(2) this _ served_composed [OF run_composed] _ _
      run_command_valid run_uuid r(3,4), of run_authenticator run_context_id sample_authorizer run_decision_id run_ids 1]
  obtain out' where "commit run_store g' run_ids 1 db1 = (Inr out', db1)" "cmt_replayed out'"
    by (auto simp: run_state_fields)
  then show ?thesis using r(1,3) by blast
qed

lemma object_bytes_start: "canonical_json_bytes (obj kvs) = Inr b \<Longrightarrow> wf_pyval (obj kvs) \<Longrightarrow> \<exists>r. b = 123 # r"
  by (auto simp: canonical_json_bytes_Inr obj_view utf8_char_def)

text \<open>The stored marker expands to the canonical result, which is then read without its command.\<close>

lemma expanded_result:
  assumes "decode_result db (result_marker i) d False (Some i) = Inr out"
  shows "\<exists>b e. command_result_bytes db (result_marker i) d (Some i) = Inr b \<and>
    find (\<lambda>e. cps_of (row_command_id e) = cps_of i) (t_events db) = Some e \<and>
    canonical_json_bytes (result_value (event_result_fields e)) = Inr b \<and> digest_bytes b = d \<and>
    decode_result db b d False None = Inr out"
proof -
  obtain b where b: "command_result_bytes db (result_marker i) d (Some i) = Inr b"
    using assms unfolding decode_result_def res_bind_Inr_iff by blast
  have "has_result_prefix (result_marker i)" by (simp add: has_result_prefix_def result_marker_def)
  then obtain c e where e: "find (\<lambda>e. cps_of (row_command_id e) = cps_of i) (t_events db) = Some e"
      and r: "restore_command_result c (result_marker i) (event_result_fields e) = Inr b"
    using b unfolding command_result_bytes_def by (auto simp: res_simps)
  have cb: "canonical_json_bytes (result_value (event_result_fields e)) = Inr b"
    using r unfolding restore_command_result_def event_result_bytes_def by (auto simp: res_simps)
  then obtain t where "b = 123 # t"
    using object_bytes_start result_value_wf unfolding result_value_def by blast
  then have "\<not> has_result_prefix b" by (simp add: has_result_prefix_def COMMAND_RESULT_PREFIX_def)
  then have "command_result_bytes db b d None = Inr b" by (simp add: command_result_bytes_def)
  moreover obtain j where "decode_canonical b = Inr j" "digest_bytes b = d"
    using assms unfolding decode_result_def b res_bind_simps require_Inr_iff res_bind_Inr_iff by blast
  ultimately have "decode_result db b d False None = Inr out" "digest_bytes b = d"
    using assms unfolding decode_result_def by (simp_all add: b require_Inr_iff)
  with b e cb show ?thesis by blast
qed

definition result_record :: "CommittedCommand \<Rightarrow> ResultFields" where
  "result_record c = \<lparr>res_command_id = cmt_command_id c, res_aggregate_type = cmt_aggregate_type c,
     res_aggregate_id = cmt_aggregate_id c, res_aggregate_version = Some (cmt_aggregate_version c),
     res_ledger_seq = cmt_ledger_seq c, res_event_id = cmt_event_id c\<rparr>"

text \<open>
  C8. Results read back: in every later store, a reader whose policy covers results and who can see the
  command's event reads bytes that are the canonical encoding of what the commit returned, under the
  digest that the commit returned.
\<close>

theorem recorded_result_reads_back:
  assumes "store_built st" and "(commit_step st)\<^sup>*\<^sup>* empty_db db" and "fresh_uuid ids"
    and "commit st g ids now db = (Inr out, db1)" and "(commit_step st)\<^sup>*\<^sup>* db1 db2"
    and "RESULT \<in> set (er_metadata_classes p)" and "visible_command_row db2 p (cmt_command_id out) = Inr row"
  shows "\<exists>b. canonical_json_bytes (result_value (result_record out)) = Inr b \<and> digest_bytes b = cmt_result_digest out \<and>
    command_result db2 (cmt_command_id out) p = Inr \<lparr>crr_command_id = cmt_command_id out,
      crr_result_digest = cmt_result_digest out, crr_result_bytes = b\<rparr>"
proof -
  obtain hs h where inv: "store_inv st db2 hs" and h: "h \<in> set hs" "out = unit_result (cmt_replayed out) h"
    using identity_recorded [OF assms(1-5)] by blast
  note iv = store_invD [OF inv]
  let ?c = "u_command h"
  have fo: "cmt_command_id out = cw_command_id ?c" "cmt_result_digest out = cw_result_digest ?c"
      "result_record out = result_record (unit_result False h)"
    by (subst h(2), simp add: unit_result_def result_record_def)+
  have dec: "decode_result db2 (cw_result_bytes ?c) (cw_result_digest ?c) False (Some (cw_command_id ?c)) =
      Inr (unit_result False h)"
    using iv(5) [OF h(1)] unfolding unit_retained_def by blast
  have marker: "cw_result_bytes ?c = result_marker (cw_command_id ?c)"
    using iv(6) [OF h(1)] by (simp add: unit_coherent_def Let_def)
  obtain b e where b: "command_result_bytes db2 (result_marker (cw_command_id ?c)) (cw_result_digest ?c)
        (Some (cw_command_id ?c)) = Inr b"
      "find (\<lambda>e. cps_of (row_command_id e) = cps_of (cw_command_id ?c)) (t_events db2) = Some e"
      "canonical_json_bytes (result_value (event_result_fields e)) = Inr b" "digest_bytes b = cw_result_digest ?c"
      "decode_result db2 b (cw_result_digest ?c) False None = Inr (unit_result False h)"
    using expanded_result [OF dec [unfolded marker]] by blast
  have t: "t_commands db2 = map u_command hs" "t_events db2 = map (\<lambda>h. Live (u_event h)) hs"
    using iv(2) by (simp_all add: history_of_def)
  have "e \<in> set (t_events db2)" "row_command_id e = row_command_id (Live (u_event h))"
    using find_key [OF b(2)] iv(6) [OF h(1)] by (auto simp: unit_coherent_def Let_def)
  moreover have "Live (u_event h) \<in> set (t_events db2)" using h(1) t by simp
  moreover have "distinct (map row_command_id (t_events db2))" using inv_command_ids(3,4) [OF inv] by simp
  ultimately have e: "e = Live (u_event h)"
    using distinct_map_unique [of row_command_id "t_events db2" e "Live (u_event h)"] by blast
  have "event_result_fields e = result_record (unit_result False h)"
    using iv(6) [OF h(1)] unfolding e result_record_def unit_result_def
    by (auto simp: unit_coherent_def Let_def unit_target_def)
  then have fields: "event_result_fields e = result_record out" using fo(3) by simp
  have "find (\<lambda>c. cw_command_id c = cw_command_id ?c) (t_commands db2) = Some ?c"
    using find_unique [OF inv_command_ids(4) [OF inv], of ?c] h(1) t by simp
  moreover have "row \<in> set (t_events db2)"
    using assms(7) find_Some_iff_split unfolding visible_command_row_def res_of_option_Inr_iff by fast
  then have "\<not> is_retired row" by (rule inv_not_retired(1) [OF inv])
  ultimately have "command_result db2 (cmt_command_id out) p = Inr \<lparr>crr_command_id = cmt_command_id out,
      crr_result_digest = cmt_result_digest out, crr_result_bytes = b\<rparr>"
    using assms(6,7) b(1,5) marker unfolding command_result_def fo(1,2)
    by (simp add: require_metadata_class_def)
  with b(3,4) show ?thesis unfolding fo(2) fields by blast
qed

theorem recorded_result_reads_back_witness:
  "\<exists>g out db1 b. commit run_store g run_ids 0 empty_db = (Inr out, db1) \<and>
     canonical_json_bytes (result_value (result_record out)) = Inr b \<and>
     command_result db1 (cmt_command_id out) run_policy = Inr \<lparr>crr_command_id = cmt_command_id out,
       crr_result_digest = cmt_result_digest out, crr_result_bytes = b\<rparr>"
proof -
  obtain g out db1 where r: "authorize_for_commit run_state run_command run_proof 0 = Inr g"
      "commit run_store g run_ids 0 empty_db = (Inr out, db1)" "\<not> cmt_replayed out" "verify (es_issuer run_store) g = Inr ()"
      "(commit_step run_store)\<^sup>*\<^sup>* empty_db db1" "g_replay_of_command_id g = None"
    using run_commit by blast
  obtain e where e: "t_events db1 = [Live e]" "ev_ledger_seq e = 1" "ev_command_id e = cmt_command_id out"
      "ev_security_scope e = cd_security_scope run_definition"
      "ev_trust_scope e = TrustScope_value (cd_trust_scope run_definition)"
    using run_history [OF r(1,2)] by blast
  have "RESULT \<in> set (er_metadata_classes run_policy)" by (simp add: run_policy_def)
  from recorded_result_reads_back [OF run_store_built _ run_ids_fresh r(2) _ this] run_pages(4) [OF e(1,2,4,5)] e(3)
  show ?thesis using r(2) by (metis rtranclp.rtrancl_refl)
qed

end
