(* ===== verification/Control_Ledger.thy ===== *)
theory Control_Ledger
  imports Records
begin

text \<open>
  The control plane's hash-chained ledger: \<open>refuse_public_effect\<close> of
  \<open>src/newsroom/control_plane/veto.py\<close> and \<open>_head_digest\<close>/\<open>append_ledger\<close> of
  \<open>src/newsroom/control_plane/store.py\<close>. The table is the list of its rows in sequence order; a row
  keeps its payload as canonical bytes. The unique index on \<open>prev_digest\<close> makes an insertion raise
  \<open>IntegrityError\<close> when a row already has that predecessor. \<open>at\<close> is the text of the clock reading.
\<close>

definition FORBIDDEN_INTENTS :: "string list" where
  "FORBIDDEN_INTENTS = [''AUTO_PUBLISH'', ''TARGET_OPERATION'', ''PUBLIC_DISPATCH'', ''PRODUCTION_MUTATION'',
     ''IAP'', ''PUBLICATION_ADMISSION'']"

definition refuse_public_effect :: "string \<Rightarrow> unit res" where
  "refuse_public_effect intent =
     require (intent \<notin> set FORBIDDEN_INTENTS) (Exn VetoError (''public effect refused: '' @ intent)) (Inr ())"

record ledger_row =
  lr_at :: string
  lr_kind :: string
  lr_payload_digest :: string
  lr_payload :: bytes
  lr_prev_digest :: string
  lr_digest :: string

type_synonym ledger = "ledger_row list"

definition LEDGER_GENESIS :: string where
  "LEDGER_GENESIS = ''sha256:'' @ replicate 64 (CHR ''0'')"

definition head_digest :: "ledger \<Rightarrow> string" where
  "head_digest l = (if l = [] then LEDGER_GENESIS else lr_digest (last l))"

definition ledger_entry_value :: "string \<Rightarrow> string \<Rightarrow> string \<Rightarrow> string \<Rightarrow> pyval" where
  "ledger_entry_value at kind payload_digest prev = obj [
     (''at'', jtext at), (''kind'', jtext kind), (''payload_digest'', jtext payload_digest),
     (''prev'', jtext prev)]"

definition append_ledger :: "string \<Rightarrow> ledger \<Rightarrow> string \<Rightarrow> pyval \<Rightarrow> ledger res" where
  "append_ledger at l kind payload =
     res_bind (refuse_public_effect kind) (\<lambda>_.
     res_bind (canonical_json_bytes payload) (\<lambda>b.
     res_bind (digest_canonical (ledger_entry_value at kind (digest_bytes b) (head_digest l))) (\<lambda>digest.
     require (head_digest l \<notin> lr_prev_digest ` set l) (Exn IntegrityError ''UNIQUE constraint failed'')
       (Inr (l @ [\<lparr>lr_at = at, lr_kind = kind, lr_payload_digest = digest_bytes b, lr_payload = b,
                   lr_prev_digest = head_digest l, lr_digest = digest\<rparr>])))))"

section \<open>The chain\<close>

definition row_ok :: "ledger_row \<Rightarrow> string \<Rightarrow> bool" where
  "row_ok r prev \<longleftrightarrow> lr_prev_digest r = prev \<and> lr_payload_digest r = digest_bytes (lr_payload r) \<and>
     digest_canonical (ledger_entry_value (lr_at r) (lr_kind r) (lr_payload_digest r) prev) = Inr (lr_digest r) \<and>
     lr_kind r \<notin> set FORBIDDEN_INTENTS"

fun chain_from :: "string \<Rightarrow> ledger \<Rightarrow> bool" where
  "chain_from prev [] = True"
| "chain_from prev (r # l) = (row_ok r prev \<and> chain_from (lr_digest r) l)"

definition chain_ok :: "ledger \<Rightarrow> bool" where
  "chain_ok l = chain_from LEDGER_GENESIS l"

lemma entry_value_wf [simp]: "wf_pyval (ledger_entry_value at kind pd prev)"
  by (simp add: ledger_entry_value_def obj_wf)

lemma entry_value_view:
  "view (ledger_entry_value at kind pd prev) = view (ledger_entry_value at' kind' pd' prev') \<longleftrightarrow>
     at = at' \<and> kind = kind' \<and> pd = pd' \<and> prev = prev'"
  by (simp add: ledger_entry_value_def obj_view_eq)

lemma chain_from_snoc:
  "chain_from prev (l @ [r]) \<longleftrightarrow>
     chain_from prev l \<and> row_ok r (if l = [] then prev else lr_digest (last l))"
  by (induction l arbitrary: prev) auto

lemma chain_ok_snoc: "chain_ok (l @ [r]) \<longleftrightarrow> chain_ok l \<and> row_ok r (head_digest l)"
  by (simp add: chain_ok_def chain_from_snoc head_digest_def)

lemma head_digest_snoc [simp]: "head_digest (l @ [r]) = lr_digest r"
  by (simp add: head_digest_def)

lemma append_ledger_Inr:
  assumes "append_ledger at l kind payload = Inr l'"
  shows "\<exists>r. l' = l @ [r] \<and> row_ok r (head_digest l) \<and> lr_at r = at \<and> lr_kind r = kind \<and>
    canonical_json_bytes payload = Inr (lr_payload r)"
  using assms by (auto simp: append_ledger_def refuse_public_effect_def res_simps row_ok_def)

lemma append_ledger_chain: "append_ledger at l kind payload = Inr l' \<Longrightarrow> chain_ok l \<Longrightarrow> chain_ok l'"
  using append_ledger_Inr [of at l kind payload l'] chain_ok_snoc by blast

text \<open>Whether two rows at the same place were hashed from different bytes to the same digest.\<close>

definition entry_bytes :: "ledger_row \<Rightarrow> bytes" where
  "entry_bytes r = (case canonical_json_bytes (ledger_entry_value (lr_at r) (lr_kind r) (lr_payload_digest r)
     (lr_prev_digest r)) of Inr b \<Rightarrow> b | Inl e \<Rightarrow> [])"

definition row_collision :: "ledger_row \<Rightarrow> ledger_row \<Rightarrow> bool" where
  "row_collision r s \<longleftrightarrow> collides (entry_bytes r) (entry_bytes s) \<or> collides (lr_payload r) (lr_payload s)"

lemma rows_equal:
  assumes "row_ok r p" and "row_ok s q" and "lr_digest r = lr_digest s" and "\<not> row_collision r s"
  shows "r = s"
proof -
  have r: "digest_canonical (ledger_entry_value (lr_at r) (lr_kind r) (lr_payload_digest r) (lr_prev_digest r)) = Inr (lr_digest r)"
    and s: "digest_canonical (ledger_entry_value (lr_at s) (lr_kind s) (lr_payload_digest s) (lr_prev_digest s)) = Inr (lr_digest r)"
    using assms(1-3) unfolding row_ok_def by metis+
  from digest_canonical_collides [OF entry_value_wf entry_value_wf r s] assms(4)
  have v: "lr_at r = lr_at s" "lr_kind r = lr_kind s" "lr_payload_digest r = lr_payload_digest s"
      "lr_prev_digest r = lr_prev_digest s"
    by (auto simp: entry_value_view row_collision_def entry_bytes_def)
  have "digest_bytes (lr_payload r) = digest_bytes (lr_payload s)"
    using assms(1,2) v(3) by (simp add: row_ok_def)
  then have "lr_payload r = lr_payload s"
    using digest_bytes_collides assms(4) by (auto simp: row_collision_def)
  with v assms(3) show ?thesis by simp
qed

lemma rows_prev: "row_ok r p \<Longrightarrow> lr_prev_digest r = p"
  by (simp add: row_ok_def)

lemma heads_equal_ledgers:
  assumes "chain_ok l" and "chain_ok m" and "head_digest l = head_digest m"
    and "\<And>r s. r \<in> set l \<Longrightarrow> s \<in> set m \<Longrightarrow> \<not> row_collision r s"
    and "\<And>r. r \<in> set l \<union> set m \<Longrightarrow> lr_digest r \<noteq> LEDGER_GENESIS"
  shows "l = m"
  using assms
proof (induction l arbitrary: m rule: rev_induct)
  case Nil
  show ?case
  proof (rule ccontr)
    assume "[] \<noteq> m"
    then have "lr_digest (last m) = LEDGER_GENESIS" "last m \<in> set m" using Nil.prems(3) by (simp_all add: head_digest_def)
    then show False using Nil.prems(5) by blast
  qed
next
  case (snoc r l)
  have "m \<noteq> []" using snoc.prems(3,5) by (fastforce simp: head_digest_def)
  then obtain k s where m: "m = k @ [s]" by (metis rev_exhaust)
  have ok: "row_ok r (head_digest l)" "row_ok s (head_digest k)" "chain_ok l" "chain_ok k"
    using snoc.prems(1,2) by (simp_all add: m chain_ok_snoc)
  have "\<not> row_collision r s" using snoc.prems(4) by (simp add: m)
  then have rs: "r = s" using rows_equal [OF ok(1,2)] snoc.prems(3) by (simp add: m)
  then have "head_digest l = head_digest k" using rows_prev [OF ok(1)] rows_prev [OF ok(2)] by simp
  then have "l = k" using snoc.IH [OF ok(3,4)] snoc.prems(4,5) by (simp add: m)
  with rs m show ?case by simp
qed

section \<open>Properties\<close>

text \<open>
  C39. Appending keeps the ledger an append-only hash chain: the old rows stay as they were, exactly
  one row is added, it names the old head as its predecessor, carries the canonical bytes of the
  payload with their digest, and never records a forbidden public effect.
\<close>

theorem append_ledger_extends_chain:
  assumes "append_ledger at l kind payload = Inr l'" and "chain_ok l"
  shows "chain_ok l' \<and> take (length l) l' = l \<and> length l' = length l + 1 \<and>
    lr_prev_digest (last l') = head_digest l \<and> canonical_json_bytes payload = Inr (lr_payload (last l')) \<and>
    lr_payload_digest (last l') = digest_bytes (lr_payload (last l')) \<and> kind \<notin> set FORBIDDEN_INTENTS"
  using append_ledger_Inr [OF assms(1)] append_ledger_chain [OF assms] by (auto simp: row_ok_def)

lemma sample_append: "\<exists>l. append_ledger ''t'' [] ''NOTE'' PNone = Inr l"
proof -
  obtain b where "canonical_json_bytes PNone = Inr b"
    using canonical_json_bytes_encodable [of PNone] by (auto simp: encodable_def)
  moreover have "\<exists>d. digest_canonical (ledger_entry_value ''t'' ''NOTE'' (digest_bytes b) LEDGER_GENESIS) = Inr d"
    unfolding digest_canonical_encodable [OF entry_value_wf] by (simp add: ledger_entry_value_def obj_encodable)
  ultimately show ?thesis
    by (auto simp: append_ledger_def refuse_public_effect_def FORBIDDEN_INTENTS_def head_digest_def)
qed

theorem append_ledger_extends_chain_witness:
  "\<exists>l. append_ledger ''t'' [] ''NOTE'' PNone = Inr l \<and> chain_ok l \<and> length l = 1"
proof -
  have "chain_ok []" by (simp add: chain_ok_def)
  then show ?thesis using sample_append append_ledger_extends_chain [of "''t''" "[]" "''NOTE''" PNone] by fastforce
qed

text \<open>
  The head digest commits to the whole history: two well-formed ledgers with the same head are
  the same ledger, row by row, unless two of their rows collide under SHA-256 or a row hashes to the
  all-zero genesis digest.
\<close>

theorem ledger_head_commits_to_history:
  assumes "chain_ok l" and "chain_ok m"
    and "\<forall>r \<in> set l. \<forall>s \<in> set m. \<not> row_collision r s"
    and "\<forall>r \<in> set l \<union> set m. lr_digest r \<noteq> LEDGER_GENESIS"
  shows "head_digest l = head_digest m \<longleftrightarrow> l = m"
  using heads_equal_ledgers [OF assms(1,2)] assms(3,4) by blast

theorem ledger_head_commits_to_history_witness:
  "head_digest [] = head_digest [] \<longleftrightarrow> ([] :: ledger) = []"
  by (rule ledger_head_commits_to_history) (simp_all add: chain_ok_def)

end
