(* ===== verification/Cycle_Governor.thy ===== *)
theory Cycle_Governor
  imports Control_Ledger
begin

text \<open>
  The durable cycle governor, \<open>src/newsroom/control_plane/cycle_governor.py\<close>: the lease that lets one
  owner run a governed cycle, the cooldown between cycles and the circuit breaker of the CONT writer
  route. The SQLite tables are the record \<open>governor_db\<close>; every operation is one transaction (or a
  sequence of transactions) from a database to a database and a result. A raise inside a transaction
  rolls it back, except the refusals of \<open>claim\<close>, which are committed before they are raised.

  Timestamps are instants (microseconds of UTC) in the columns and their text in ledger payloads;
  monotonic clock readings are microseconds. Clock readings, fresh identifiers, the ledger's own
  timestamps and what the health probe returns are arguments.
\<close>

section \<open>Data\<close>

datatype circuit_state = OPEN | CLOSED
datatype lease_state = ACTIVE | TERMINAL | RECOVERED
datatype outcome_class = IDLE_QUALIFIED_ZERO | PRODUCTIVE | UNPRODUCTIVE_PROVIDER | SYSTEMIC_PROVIDER_FAILURE
datatype probe_state = LEGACY_UNKNOWN | RESERVED | PROBE_TERMINAL
datatype probe_outcome = PASSED | FAILED

type_synonym instant = int

primrec circuit_text :: "circuit_state \<Rightarrow> string" where
  "circuit_text OPEN = ''OPEN''"
| "circuit_text CLOSED = ''CLOSED''"

primrec outcome_text :: "outcome_class \<Rightarrow> string" where
  "outcome_text IDLE_QUALIFIED_ZERO = ''IDLE_QUALIFIED_ZERO''"
| "outcome_text PRODUCTIVE = ''PRODUCTIVE''"
| "outcome_text UNPRODUCTIVE_PROVIDER = ''UNPRODUCTIVE_PROVIDER''"
| "outcome_text SYSTEMIC_PROVIDER_FAILURE = ''SYSTEMIC_PROVIDER_FAILURE''"

primrec probe_outcome_text :: "probe_outcome \<Rightarrow> string" where
  "probe_outcome_text PASSED = ''PASSED''"
| "probe_outcome_text FAILED = ''FAILED''"

definition CONT_WRITER_ROUTE :: string where "CONT_WRITER_ROUTE = ''CONT''"
definition MIN_NORMAL_COOLDOWN_SECONDS :: int where "MIN_NORMAL_COOLDOWN_SECONDS = 300"
definition MIN_UNPRODUCTIVE_COOLDOWN_SECONDS :: int where "MIN_UNPRODUCTIVE_COOLDOWN_SECONDS = 900"
definition MIN_HEALTH_PROBE_INTERVAL_SECONDS :: int where "MIN_HEALTH_PROBE_INTERVAL_SECONDS = 3600"

record EvaluationCyclePolicy =
  policy_name :: string
  normal_cooldown_seconds :: int
  unproductive_cooldown_seconds :: int
  health_probe_interval_seconds :: int

definition EvaluationCyclePolicy_default :: EvaluationCyclePolicy where
  "EvaluationCyclePolicy_default = \<lparr>policy_name = ''newsroom.evaluation-cycle.v1'',
     normal_cooldown_seconds = MIN_NORMAL_COOLDOWN_SECONDS,
     unproductive_cooldown_seconds = MIN_UNPRODUCTIVE_COOLDOWN_SECONDS,
     health_probe_interval_seconds = MIN_HEALTH_PROBE_INTERVAL_SECONDS\<rparr>"

definition EvaluationCyclePolicy_post_init :: "EvaluationCyclePolicy \<Rightarrow> unit res" where
  "EvaluationCyclePolicy_post_init p =
     require (MIN_NORMAL_COOLDOWN_SECONDS \<le> normal_cooldown_seconds p)
       (Exn ValueError ''normal cooldown must be at least 300 seconds'') (
     require (MIN_UNPRODUCTIVE_COOLDOWN_SECONDS \<le> unproductive_cooldown_seconds p)
       (Exn ValueError ''unproductive cooldown must be at least 900 seconds'') (
     require (MIN_HEALTH_PROBE_INTERVAL_SECONDS \<le> health_probe_interval_seconds p)
       (Exn ValueError ''health probe interval must be at least 3600 seconds'') (
     require (strip (policy_name p) \<noteq> []) (Exn ValueError ''cycle policy name is required'') (Inr ()))))"

definition policy_value :: "EvaluationCyclePolicy \<Rightarrow> pyval" where
  "policy_value p = obj [
     (''policy_name'', jtext (policy_name p)),
     (''normal_cooldown_seconds'', jnum (normal_cooldown_seconds p)),
     (''unproductive_cooldown_seconds'', jnum (unproductive_cooldown_seconds p)),
     (''health_probe_interval_seconds'', jnum (health_probe_interval_seconds p))]"

definition policy_version :: "EvaluationCyclePolicy \<Rightarrow> string res" where
  "policy_version p = res_bind (digest_canonical (policy_value p)) (\<lambda>d. Inr (policy_name p @ ''@'' @ d))"

record CycleOutcomeInput =
  write_ready :: "int option"
  provider_dispatches :: "int option"
  accepted_payload_count :: "int option"
  admission_hold :: "int option"
  admission_reject :: "int option"
  systemic_provider_failure_reason :: string
  writer_dispatch_enabled :: bool

definition non_negative :: "int option \<Rightarrow> string \<Rightarrow> unit res" where
  "non_negative m name = (case m of
     None \<Rightarrow> Inr ()
   | Some n \<Rightarrow> require (0 \<le> n) (Exn ValueError (name @ '' must be a non-negative integer'')) (Inr ()))"

definition CycleOutcomeInput_post_init :: "CycleOutcomeInput \<Rightarrow> unit res" where
  "CycleOutcomeInput_post_init o' =
     res_bind (non_negative (write_ready o') ''write_ready'') (\<lambda>_.
     res_bind (non_negative (provider_dispatches o') ''provider_dispatches'') (\<lambda>_.
     res_bind (non_negative (accepted_payload_count o') ''accepted_payload_count'') (\<lambda>_.
     res_bind (non_negative (admission_hold o') ''admission_hold'') (\<lambda>_.
     res_bind (non_negative (admission_reject o') ''admission_reject'') (\<lambda>_.
     require (\<not> ((\<exists>n \<in> set_option (accepted_payload_count o'). 0 < n) \<and> provider_dispatches o' = Some 0))
       (Exn ValueError ''accepted payloads require a retained provider dispatch'') (
     require (\<not> (systemic_provider_failure_reason o' \<noteq> [] \<and> provider_dispatches o' = Some 0))
       (Exn ValueError ''a systemic provider failure requires a provider dispatch'') (
     require (writer_dispatch_enabled o' \<or>
         \<not> (provider_dispatches o' \<noteq> Some 0 \<or> accepted_payload_count o' \<noteq> Some 0 \<or>
            systemic_provider_failure_reason o' \<noteq> []))
       (Exn ValueError ''a disabled writer cannot have provider effects'') (Inr ()))))))))"

record CycleLease =
  cl_cycle_id :: string
  cl_owner_digest :: string
  cl_lease_acquired_at :: instant
  cl_lease_expires_at :: instant
  cl_work_started_at :: instant
  cl_monotonic_started_at :: int
  cl_streak_before :: int
  cl_circuit_state :: circuit_state
  cl_circuit_open_reason :: string
  cl_writer_dispatch_permitted :: bool
  cl_restart_observations :: "string list"
  cl_refused_count_before :: int
  cl_refused_reason_before :: string

record CycleTerminalResult =
  tr_cycle_id :: string
  tr_lease_owner_digest :: string
  tr_lease_state :: lease_state
  tr_terminal_state :: string
  tr_outcome_class :: outcome_class
  tr_write_ready :: "int option"
  tr_hold :: "int option"
  tr_reject :: "int option"
  tr_accepted_payload_count :: "int option"
  tr_dispatch_count :: "int option"
  tr_writer_dispatch_enabled :: bool
  tr_work_started_at :: instant
  tr_terminal_at :: instant
  tr_elapsed :: int
  tr_policy_version :: string
  tr_cooldown_seconds :: int
  tr_cooldown_started_at :: instant
  tr_next_cycle_eligible_at :: instant
  tr_streak_before :: int
  tr_streak_after :: int
  tr_circuit_state :: circuit_state
  tr_circuit_open_reason :: string
  tr_release_evidence :: "pyval option"
  tr_restart_observations :: "string list"
  tr_refused_count :: int
  tr_refused_reason :: string

record CircuitReleaseEvidence =
  ce_release_kind :: string
  ce_released_at :: instant
  ce_policy_version :: string
  ce_bound_failure_reason :: string
  ce_evidence_digest :: string

record OperatorResetRequest =
  or_bound_failure_reason :: string
  or_policy_version :: string
  or_authorised_by :: string
  or_evidence_reference :: string
  or_requested_at :: instant

record WriterRouteHealthProof =
  executable_ok :: bool
  authentication_ok :: bool
  configuration_ok :: bool
  provider_available :: bool
  provider_dispatched :: bool
  provider_receipt_reference :: "string option"

section \<open>Tables\<close>

record governor_state =
  gs_policy_version :: string
  gs_next_cycle_eligible_at :: "instant option"
  gs_last_observed :: "instant option"
  gs_streak :: int
  gs_refused_count :: int
  gs_refused_reason :: string

record route_circuit =
  rc_state :: circuit_state
  rc_open_reason :: string
  rc_opened_at :: "instant option"
  rc_release_evidence :: "pyval option"
  rc_release_digest :: "string option"
  rc_last_probe_at :: "instant option"

record governed_cycle =
  cy_cycle_id :: string
  cy_owner_digest :: string
  cy_lease_state :: lease_state
  cy_lease_acquired_at :: instant
  cy_lease_expires_at :: instant
  cy_work_started_at :: instant
  cy_terminal_at :: "instant option"
  cy_elapsed :: "int option"
  cy_terminal_state :: "string option"
  cy_outcome_class :: "outcome_class option"
  cy_write_ready :: "int option"
  cy_hold :: "int option"
  cy_reject :: "int option"
  cy_accepted_payload_count :: "int option"
  cy_provider_dispatches :: "int option"
  cy_writer_dispatch_enabled :: bool
  cy_policy_version :: string
  cy_cooldown_seconds :: "int option"
  cy_cooldown_started_at :: "instant option"
  cy_next_cycle_eligible_at :: "instant option"
  cy_streak_before :: int
  cy_streak_after :: "int option"
  cy_circuit_state :: circuit_state
  cy_circuit_open_reason :: string
  cy_release_evidence :: "pyval option"
  cy_restart_observations :: "string list"
  cy_refused_count_before :: int
  cy_refused_reason_before :: string
  cy_refused_count :: "int option"
  cy_refused_reason :: "string option"

record health_probe =
  hp_probe_id :: string
  hp_bound_failure_reason :: string
  hp_attempted_at :: instant
  hp_probe_state :: probe_state
  hp_terminal_at :: "instant option"
  hp_outcome :: "probe_outcome option"
  hp_provider_dispatched :: bool
  hp_provider_receipt_reference :: "string option"
  hp_evidence :: pyval
  hp_evidence_digest :: string

record governor_db =
  db_state :: governor_state
  db_circuit :: route_circuit
  db_cycles :: "governed_cycle list"
  db_probes :: "health_probe list"
  db_ledger :: ledger

section \<open>Errors and transactions\<close>

datatype remaining = Infinite | Micros int

datatype gov_error =
    CycleNotEligible string remaining "instant option"
  | CycleLeaseConflict string remaining instant
  | GovExn exn

type_synonym 'a gres = "gov_error + 'a"

definition raised :: "'a res \<Rightarrow> 'a gres" where
  "raised m = (case m of Inl e \<Rightarrow> Inl (GovExn e) | Inr x \<Rightarrow> Inr x)"

abbreviation gov_exn :: "exn_class \<Rightarrow> string \<Rightarrow> gov_error" where
  "gov_exn c m \<equiv> GovExn (Exn c m)"

text \<open>
  The body of a transaction either raises before its commit (\<open>Inl\<close>: rolled back) or commits a database
  and then returns or raises.
\<close>

definition transaction :: "governor_db \<Rightarrow> (governor_db \<times> 'a gres) gres \<Rightarrow> governor_db \<times> 'a gres" where
  "transaction db body = (case body of Inl e \<Rightarrow> (db, Inl e) | Inr r \<Rightarrow> r)"

definition add_seconds :: "instant \<Rightarrow> int \<Rightarrow> instant gres" where
  "add_seconds t s = require (t + s * 1000000 < MAX_INSTANT)
     (gov_exn OverflowError ''date value out of range'') (Inr (t + s * 1000000))"

definition remaining_seconds :: "instant \<Rightarrow> instant \<Rightarrow> remaining" where
  "remaining_seconds now target = Micros (max 0 (target - now))"

definition owner_digest :: "string \<Rightarrow> string res" where
  "owner_digest owner_id =
     require (strip owner_id \<noteq> []) (Exn ValueError ''cycle lease owner is required'')
       (digest_canonical (obj [(''cycle_lease_owner'', jtext owner_id)]))"

definition jnumopt :: "int option \<Rightarrow> pyval" where
  "jnumopt m = (case m of None \<Rightarrow> PNone | Some n \<Rightarrow> jnum n)"

definition jvalopt :: "pyval option \<Rightarrow> pyval" where
  "jvalopt m = (case m of None \<Rightarrow> PNone | Some v \<Rightarrow> v)"

definition jtime :: "instant \<Rightarrow> pyval" where
  "jtime t = jtext (UtcTimestamp_to_text t)"

text \<open>The clock has gone backwards with respect to the last committed observation.\<close>

definition clock_backwards :: "instant \<Rightarrow> governor_db \<Rightarrow> bool" where
  "clock_backwards now db = (case gs_last_observed (db_state db) of None \<Rightarrow> False | Some t \<Rightarrow> now < t)"

definition observe :: "instant \<Rightarrow> governor_state \<Rightarrow> governor_state" where
  "observe now s = s\<lparr>gs_last_observed := Some now\<rparr>"

text \<open>The ledger entry that closes a transaction, its commit, and what is returned or raised after it.\<close>

definition commit_logged ::
  "string \<Rightarrow> string \<Rightarrow> pyval \<Rightarrow> governor_db \<Rightarrow> 'a gres \<Rightarrow> (governor_db \<times> 'a gres) gres" where
  "commit_logged at kind payload db r =
     res_bind (raised (append_ledger at (db_ledger db) kind payload)) (\<lambda>l. Inr (db\<lparr>db_ledger := l\<rparr>, r))"

section \<open>Construction\<close>

record DurableCycleGovernor =
  g_policy :: EvaluationCyclePolicy
  g_lease_seconds :: int
  g_operator_reset_verifier :: "(OperatorResetRequest \<Rightarrow> bool) option"
  g_probe_configured :: bool

text \<open>
  A store without the governor's tables is \<open>None\<close>; its ledger is the argument. The two singleton rows
  are inserted only when they are missing.
\<close>

definition ensure_cycle_governor_schema :: "string \<Rightarrow> ledger \<Rightarrow> governor_db option \<Rightarrow> governor_db" where
  "ensure_cycle_governor_schema version l m = (case m of
     Some db \<Rightarrow> db
   | None \<Rightarrow> \<lparr>db_state = \<lparr>gs_policy_version = version, gs_next_cycle_eligible_at = None, gs_last_observed = None,
                gs_streak = 0, gs_refused_count = 0, gs_refused_reason = ''''\<rparr>,
             db_circuit = \<lparr>rc_state = CLOSED, rc_open_reason = '''', rc_opened_at = None,
                rc_release_evidence = None, rc_release_digest = None, rc_last_probe_at = None\<rparr>,
             db_cycles = [], db_probes = [], db_ledger = l\<rparr>)"

definition DurableCycleGovernor_init ::
  "DurableCycleGovernor \<Rightarrow> ledger \<Rightarrow> governor_db option \<Rightarrow> governor_db option \<times> unit gres" where
  "DurableCycleGovernor_init g l m =
     (if \<not> 0 < g_lease_seconds g
      then (m, Inl (gov_exn ValueError ''cycle lease duration must be a positive integer''))
      else case policy_version (g_policy g) of
        Inl e \<Rightarrow> (m, Inl (GovExn e))
      | Inr version \<Rightarrow>
          (let db = ensure_cycle_governor_schema version l m
           in (Some db, require (gs_policy_version (db_state db) = version)
                (gov_exn ValueError ''retained cycle policy differs from configured policy'') (Inr ()))))"

section \<open>Claiming a lease\<close>

definition refuse :: "string \<Rightarrow> instant option \<Rightarrow> governor_db \<Rightarrow> governor_db" where
  "refuse reason observed_at db =
     (let s = (db_state db)\<lparr>gs_refused_count := gs_refused_count (db_state db) + 1, gs_refused_reason := reason\<rparr>
      in db\<lparr>db_state := (case observed_at of None \<Rightarrow> s | Some t \<Rightarrow> s\<lparr>gs_last_observed := Some t\<rparr>)\<rparr>)"

definition active_cycle :: "governor_db \<Rightarrow> governed_cycle option" where
  "active_cycle db = find (\<lambda>r. cy_lease_state r = ACTIVE) (db_cycles db)"

definition recovered_reason :: string where
  "recovered_reason = ''STALE_LEASE_RECOVERY_AMBIGUOUS''"

definition recover_row :: "DurableCycleGovernor \<Rightarrow> instant \<Rightarrow> instant \<Rightarrow> int \<Rightarrow> governed_cycle \<Rightarrow> governed_cycle" where
  "recover_row g now recovered_next refused_count r = r\<lparr>
     cy_lease_state := RECOVERED, cy_terminal_at := Some now,
     cy_elapsed := Some (max 0 (now - cy_work_started_at r)),
     cy_terminal_state := Some ''RECOVERED_STALE_LEASE'',
     cy_outcome_class := Some SYSTEMIC_PROVIDER_FAILURE, cy_write_ready := None,
     cy_hold := None, cy_reject := None, cy_accepted_payload_count := None, cy_provider_dispatches := None,
     cy_cooldown_seconds := Some (normal_cooldown_seconds (g_policy g)), cy_cooldown_started_at := Some now,
     cy_next_cycle_eligible_at := Some recovered_next, cy_streak_after := Some (cy_streak_before r),
     cy_circuit_state := OPEN, cy_circuit_open_reason := recovered_reason,
     cy_restart_observations := cy_restart_observations r @ [''STALE_LEASE_RECOVERED''],
     cy_refused_count := Some refused_count, cy_refused_reason := Some ''STALE_LEASE_RECOVERED''\<rparr>"

definition recovered_db :: "DurableCycleGovernor \<Rightarrow> instant \<Rightarrow> instant \<Rightarrow> governed_cycle \<Rightarrow> governor_db \<Rightarrow> governor_db" where
  "recovered_db g now recovered_next active db =
     (let refused_count = gs_refused_count (db_state db) + 1;
          upd = (\<lambda>r. if cy_cycle_id r = cy_cycle_id active \<and> cy_lease_state r = ACTIVE
                      then recover_row g now recovered_next refused_count r else r)
      in db\<lparr>
        db_cycles := map upd (db_cycles db),
        db_circuit := (db_circuit db)\<lparr>rc_state := OPEN, rc_open_reason := recovered_reason,
          rc_opened_at := Some now, rc_release_evidence := None, rc_release_digest := None\<rparr>,
        db_state := (db_state db)\<lparr>gs_next_cycle_eligible_at := Some recovered_next, gs_last_observed := Some now,
          gs_refused_count := refused_count, gs_refused_reason := ''STALE_LEASE_RECOVERED''\<rparr>\<rparr>)"

definition recover_stale_lease ::
  "DurableCycleGovernor \<Rightarrow> instant \<Rightarrow> string \<Rightarrow> governed_cycle \<Rightarrow> governor_db \<Rightarrow> (governor_db \<times> CycleLease gres) gres" where
  "recover_stale_lease g now at active db =
     res_bind (add_seconds now (normal_cooldown_seconds (g_policy g))) (\<lambda>recovered_next.
     commit_logged at ''PRIVATE_CYCLE_STALE_LEASE_RECOVERED'' (obj [
         (''cycle_id'', jtext (cy_cycle_id active)), (''terminal_at'', jtime now),
         (''next_cycle_eligible_at'', jtime recovered_next),
         (''writer_circuit_open_reason'', jtext recovered_reason)])
       (recovered_db g now recovered_next active db)
       (Inl (CycleNotEligible ''STALE_LEASE_RECOVERED''
          (Micros (normal_cooldown_seconds (g_policy g) * 1000000)) (Some recovered_next))))"

definition lease_row ::
  "string \<Rightarrow> string \<Rightarrow> instant \<Rightarrow> instant \<Rightarrow> string \<Rightarrow> string list \<Rightarrow> governor_db \<Rightarrow> governed_cycle" where
  "lease_row cycle_id owner now expires version restarts db = \<lparr>
     cy_cycle_id = cycle_id, cy_owner_digest = owner, cy_lease_state = ACTIVE, cy_lease_acquired_at = now,
     cy_lease_expires_at = expires, cy_work_started_at = now, cy_terminal_at = None, cy_elapsed = None,
     cy_terminal_state = None, cy_outcome_class = None, cy_write_ready = None, cy_hold = None,
     cy_reject = None, cy_accepted_payload_count = None, cy_provider_dispatches = None,
     cy_writer_dispatch_enabled = True, cy_policy_version = version, cy_cooldown_seconds = None,
     cy_cooldown_started_at = None, cy_next_cycle_eligible_at = None,
     cy_streak_before = gs_streak (db_state db), cy_streak_after = None,
     cy_circuit_state = rc_state (db_circuit db), cy_circuit_open_reason = rc_open_reason (db_circuit db),
     cy_release_evidence = rc_release_evidence (db_circuit db), cy_restart_observations = restarts,
     cy_refused_count_before = gs_refused_count (db_state db),
     cy_refused_reason_before = gs_refused_reason (db_state db),
     cy_refused_count = None, cy_refused_reason = None\<rparr>"

definition lease_of_row :: "governed_cycle \<Rightarrow> int \<Rightarrow> CycleLease" where
  "lease_of_row r ticks = \<lparr>cl_cycle_id = cy_cycle_id r, cl_owner_digest = cy_owner_digest r,
     cl_lease_acquired_at = cy_lease_acquired_at r, cl_lease_expires_at = cy_lease_expires_at r,
     cl_work_started_at = cy_work_started_at r, cl_monotonic_started_at = ticks,
     cl_streak_before = cy_streak_before r, cl_circuit_state = cy_circuit_state r,
     cl_circuit_open_reason = cy_circuit_open_reason r,
     cl_writer_dispatch_permitted = (cy_circuit_state r = CLOSED),
     cl_restart_observations = cy_restart_observations r,
     cl_refused_count_before = cy_refused_count_before r,
     cl_refused_reason_before = cy_refused_reason_before r\<rparr>"

definition restart_observations :: "governor_db \<Rightarrow> string list" where
  "restart_observations db =
     (if gs_last_observed (db_state db) \<noteq> None then [''RETAINED_STATE_REUSED''] else [''FRESH_STATE''])"

definition grant_lease ::
  "DurableCycleGovernor \<Rightarrow> string \<Rightarrow> string \<Rightarrow> instant \<Rightarrow> string \<Rightarrow> string \<Rightarrow> int \<Rightarrow> governor_db \<Rightarrow>
   (governor_db \<times> CycleLease gres) gres" where
  "grant_lease g version owner now cycle_id at ticks db =
     res_bind (add_seconds now (g_lease_seconds g)) (\<lambda>expires.
     require (cycle_id \<notin> cy_cycle_id ` set (db_cycles db)) (gov_exn IntegrityError ''UNIQUE constraint failed'') (
     let row = lease_row cycle_id owner now expires version (restart_observations db) db
     in commit_logged at ''PRIVATE_GOVERNED_CYCLE_LEASE_CLAIMED'' (obj [
            (''cycle_id'', jtext cycle_id), (''lease_owner_digest'', jtext owner),
            (''lease_state'', jtext ''ACTIVE''), (''lease_acquired_at'', jtime now),
            (''lease_expires_at'', jtime expires),
            (''writer_circuit_state'', jtext (circuit_text (rc_state (db_circuit db)))),
            (''restart_observations'', jlist (map jtext (restart_observations db)))])
          (db\<lparr>db_cycles := db_cycles db @ [row], db_state := observe now (db_state db)\<rparr>)
          (Inr (lease_of_row row ticks))))"

definition claim_body ::
  "DurableCycleGovernor \<Rightarrow> string \<Rightarrow> string \<Rightarrow> instant \<Rightarrow> string \<Rightarrow> string \<Rightarrow> int \<Rightarrow> governor_db \<Rightarrow>
   (governor_db \<times> CycleLease gres) gres" where
  "claim_body g version owner now cycle_id at ticks db =
    (let next = gs_next_cycle_eligible_at (db_state db) in
     if clock_backwards now db
     then Inr (refuse ''UTC_CLOCK_BACKWARDS'' None db, Inl (CycleNotEligible ''UTC_CLOCK_BACKWARDS'' Infinite next))
     else case active_cycle db of
       Some active \<Rightarrow>
         if now < cy_lease_expires_at active
         then Inr (refuse ''ACTIVE_CYCLE_LEASE'' (Some now) db,
                   Inl (CycleLeaseConflict (cy_cycle_id active) (remaining_seconds now (cy_lease_expires_at active))
                          (cy_lease_expires_at active)))
         else recover_stale_lease g now at active db
     | None \<Rightarrow>
         (case next of
            Some t \<Rightarrow>
              if now < t
              then Inr (refuse ''POST_CYCLE_COOLDOWN'' (Some now) db,
                        Inl (CycleNotEligible ''POST_CYCLE_COOLDOWN'' (remaining_seconds now t) next))
              else grant_lease g version owner now cycle_id at ticks db
          | None \<Rightarrow> grant_lease g version owner now cycle_id at ticks db))"

definition claim ::
  "DurableCycleGovernor \<Rightarrow> string \<Rightarrow> instant \<Rightarrow> string \<Rightarrow> string \<Rightarrow> int \<Rightarrow> governor_db \<Rightarrow> governor_db \<times> CycleLease gres" where
  "claim g owner_id now cycle_id at ticks db = transaction db (
     res_bind (raised (owner_digest owner_id)) (\<lambda>owner.
     res_bind (raised (policy_version (g_policy g))) (\<lambda>version.
     claim_body g version owner now cycle_id at ticks db)))"

section \<open>Renewing a lease\<close>

definition find_cycle :: "string \<Rightarrow> governor_db \<Rightarrow> governed_cycle option" where
  "find_cycle cycle_id db = find (\<lambda>r. cy_cycle_id r = cycle_id) (db_cycles db)"

definition owned_active :: "CycleLease \<Rightarrow> governed_cycle \<Rightarrow> bool" where
  "owned_active lease r = (cy_cycle_id r = cl_cycle_id lease \<and> cy_owner_digest r = cl_owner_digest lease \<and>
     cy_lease_state r = ACTIVE)"

definition renewed_db :: "CycleLease \<Rightarrow> instant \<Rightarrow> instant \<Rightarrow> governor_db \<Rightarrow> governor_db" where
  "renewed_db lease now renewed_until db = db\<lparr>
     db_cycles := map (\<lambda>r. if owned_active lease r then r\<lparr>cy_lease_expires_at := renewed_until\<rparr> else r) (db_cycles db),
     db_state := observe now (db_state db)\<rparr>"

definition renew ::
  "DurableCycleGovernor \<Rightarrow> CycleLease \<Rightarrow> instant \<Rightarrow> string \<Rightarrow> governor_db \<Rightarrow> governor_db \<times> instant gres" where
  "renew g lease now at db = transaction db (
     res_bind (add_seconds now (g_lease_seconds g)) (\<lambda>renewed_until.
     res_bind (raised (policy_version (g_policy g))) (\<lambda>_.
     require (\<not> clock_backwards now db)
       (CycleNotEligible ''UTC_CLOCK_BACKWARDS'' Infinite (Some (cl_lease_expires_at lease))) (
     case find_cycle (cl_cycle_id lease) db of
       None \<Rightarrow> Inl (CycleLeaseConflict (cl_cycle_id lease) (Micros 0) (cl_lease_expires_at lease))
     | Some retained \<Rightarrow>
         require (cy_owner_digest retained = cl_owner_digest lease \<and> cy_lease_state retained = ACTIVE)
           (CycleLeaseConflict (cl_cycle_id lease) (Micros 0) (cl_lease_expires_at lease)) (
         require (\<not> cy_lease_expires_at retained \<le> now)
           (CycleNotEligible ''STALE_LEASE_EXPIRED'' (Micros 0) (Some (cy_lease_expires_at retained))) (
         require (length (filter (owned_active lease) (db_cycles db)) = 1)
           (CycleLeaseConflict (cl_cycle_id lease) (Micros 0) (cl_lease_expires_at lease)) (
         commit_logged at ''PRIVATE_GOVERNED_CYCLE_LEASE_RENEWED'' (obj [
             (''cycle_id'', jtext (cl_cycle_id lease)), (''lease_owner_digest'', jtext (cl_owner_digest lease)),
             (''lease_state'', jtext ''ACTIVE''), (''renewed_at'', jtime now),
             (''lease_expires_at'', jtime renewed_until)])
           (renewed_db lease now renewed_until db) (Inr renewed_until))))))))"

section \<open>Completing a cycle\<close>

definition classify :: "CycleLease \<Rightarrow> CycleOutcomeInput \<Rightarrow> (outcome_class \<times> string) res" where
  "classify lease o' =
     (if systemic_provider_failure_reason o' \<noteq> []
      then Inr (SYSTEMIC_PROVIDER_FAILURE, systemic_provider_failure_reason o')
      else if \<exists>n \<in> set_option (accepted_payload_count o'). 0 < n then Inr (PRODUCTIVE, '''')
      else case provider_dispatches o' of
        None \<Rightarrow> Inl (Exn ValueError ''unknown provider state requires a systemic failure reason'')
      | Some n \<Rightarrow>
          if 0 < n then Inr (UNPRODUCTIVE_PROVIDER, '''')
          else if \<not> writer_dispatch_enabled o' then Inr (IDLE_QUALIFIED_ZERO, '''')
          else if write_ready o' = Some 0 then Inr (IDLE_QUALIFIED_ZERO, '''')
          else if cl_circuit_state lease = OPEN then Inr (SYSTEMIC_PROVIDER_FAILURE, cl_circuit_open_reason lease)
          else Inl (Exn ValueError ''WRITE_READY work with no payload and no provider dispatch is inconsistent''))"

text \<open>What a completed cycle decides: the new streak, the cooldown, and the circuit state with its reason.\<close>

record cycle_decision =
  cd_outcome_class :: outcome_class
  cd_streak_after :: int
  cd_cooldown :: int
  cd_circuit_state :: circuit_state
  cd_circuit_reason :: string

definition decide ::
  "EvaluationCyclePolicy \<Rightarrow> CycleLease \<Rightarrow> CycleOutcomeInput \<Rightarrow> outcome_class \<Rightarrow> string \<Rightarrow> cycle_decision" where
  "decide p lease o' c systemic_reason =
     (let before = cl_streak_before lease;
          d = \<lparr>cd_outcome_class = c, cd_streak_after = before, cd_cooldown = normal_cooldown_seconds p,
               cd_circuit_state = cl_circuit_state lease, cd_circuit_reason = cl_circuit_open_reason lease\<rparr>
      in case c of
        PRODUCTIVE \<Rightarrow> d\<lparr>cd_streak_after := 0\<rparr>
      | UNPRODUCTIVE_PROVIDER \<Rightarrow>
          (let e = d\<lparr>cd_streak_after := before + 1, cd_cooldown := unproductive_cooldown_seconds p\<rparr>
           in if 2 \<le> before + 1
              then e\<lparr>cd_circuit_state := OPEN, cd_circuit_reason := ''CONSECUTIVE_UNPRODUCTIVE_PROVIDER''\<rparr> else e)
      | SYSTEMIC_PROVIDER_FAILURE \<Rightarrow>
          d\<lparr>cd_streak_after := (if accepted_payload_count o' \<noteq> None \<and> accepted_payload_count o' \<noteq> Some 0
                                then 0 else before),
            cd_circuit_state := OPEN,
            cd_circuit_reason := (if systemic_reason \<noteq> [] then systemic_reason else ''SYSTEMIC_PROVIDER_FAILURE'')\<rparr>
      | IDLE_QUALIFIED_ZERO \<Rightarrow> d)"

text \<open>An integer parameter of a statement must fit SQLite's 64 bits.\<close>

definition sql_int :: "int option \<Rightarrow> bool" where
  "sql_int m = (case m of None \<Rightarrow> True | Some n \<Rightarrow> - (2 ^ 63) \<le> n \<and> n < 2 ^ 63)"

text \<open>\<open>round(elapsed * 1_000)\<close>, half to even.\<close>

definition elapsed_milliseconds :: "int \<Rightarrow> int" where
  "elapsed_milliseconds us =
     (let q = us div 1000; r = us mod 1000 in if r < 500 \<or> (r = 500 \<and> even q) then q else q + 1)"

definition terminal_row ::
  "CycleOutcomeInput \<Rightarrow> cycle_decision \<Rightarrow> string \<Rightarrow> instant \<Rightarrow> int \<Rightarrow> instant \<Rightarrow> pyval option \<Rightarrow> governor_state \<Rightarrow>
   governed_cycle \<Rightarrow> governed_cycle" where
  "terminal_row o' d terminal_state now elapsed next release s r = r\<lparr>
     cy_lease_state := TERMINAL, cy_terminal_at := Some now, cy_elapsed := Some elapsed,
     cy_terminal_state := Some terminal_state, cy_outcome_class := Some (cd_outcome_class d),
     cy_write_ready := write_ready o', cy_hold := admission_hold o', cy_reject := admission_reject o',
     cy_accepted_payload_count := accepted_payload_count o', cy_provider_dispatches := provider_dispatches o',
     cy_writer_dispatch_enabled := writer_dispatch_enabled o', cy_cooldown_seconds := Some (cd_cooldown d),
     cy_cooldown_started_at := Some now, cy_next_cycle_eligible_at := Some next,
     cy_streak_after := Some (cd_streak_after d), cy_circuit_state := cd_circuit_state d,
     cy_circuit_open_reason := cd_circuit_reason d, cy_release_evidence := release,
     cy_refused_count := Some (gs_refused_count s), cy_refused_reason := Some (gs_refused_reason s)\<rparr>"

definition terminal_result ::
  "string \<Rightarrow> CycleLease \<Rightarrow> CycleOutcomeInput \<Rightarrow> cycle_decision \<Rightarrow> string \<Rightarrow> instant \<Rightarrow> int \<Rightarrow> instant \<Rightarrow> pyval option \<Rightarrow>
   governor_state \<Rightarrow> CycleTerminalResult" where
  "terminal_result version lease o' d terminal_state now elapsed next release s = \<lparr>
     tr_cycle_id = cl_cycle_id lease, tr_lease_owner_digest = cl_owner_digest lease, tr_lease_state = TERMINAL,
     tr_terminal_state = terminal_state, tr_outcome_class = cd_outcome_class d,
     tr_write_ready = write_ready o', tr_hold = admission_hold o', tr_reject = admission_reject o',
     tr_accepted_payload_count = accepted_payload_count o', tr_dispatch_count = provider_dispatches o',
     tr_writer_dispatch_enabled = writer_dispatch_enabled o', tr_work_started_at = cl_work_started_at lease,
     tr_terminal_at = now, tr_elapsed = elapsed, tr_policy_version = version,
     tr_cooldown_seconds = cd_cooldown d, tr_cooldown_started_at = now, tr_next_cycle_eligible_at = next,
     tr_streak_before = cl_streak_before lease, tr_streak_after = cd_streak_after d,
     tr_circuit_state = cd_circuit_state d, tr_circuit_open_reason = cd_circuit_reason d,
     tr_release_evidence = release, tr_restart_observations = cl_restart_observations lease,
     tr_refused_count = gs_refused_count s, tr_refused_reason = gs_refused_reason s\<rparr>"

definition terminal_payload :: "CycleTerminalResult \<Rightarrow> pyval" where
  "terminal_payload r = obj [
     (''cycle_id'', jtext (tr_cycle_id r)), (''lease_owner_digest'', jtext (tr_lease_owner_digest r)),
     (''lease_state'', jtext ''TERMINAL''), (''terminal_state'', jtext (tr_terminal_state r)),
     (''outcome_class'', jtext (outcome_text (tr_outcome_class r))),
     (''work_started_at'', jtime (tr_work_started_at r)), (''terminal_at'', jtime (tr_terminal_at r)),
     (''elapsed_milliseconds'', jnum (elapsed_milliseconds (tr_elapsed r))),
     (''admission_counts'', obj [(''WRITE_READY'', jnumopt (tr_write_ready r)), (''HOLD'', jnumopt (tr_hold r)),
        (''REJECT'', jnumopt (tr_reject r))]),
     (''accepted_payload_count'', jnumopt (tr_accepted_payload_count r)),
     (''writer_provider_dispatch_count'', jnumopt (tr_dispatch_count r)),
     (''writer_dispatch_enabled'', jflag (tr_writer_dispatch_enabled r)),
     (''cooldown_policy_version'', jtext (tr_policy_version r)),
     (''cooldown_seconds'', jnum (tr_cooldown_seconds r)),
     (''cooldown_started_at'', jtime (tr_cooldown_started_at r)),
     (''next_cycle_eligible_at'', jtime (tr_next_cycle_eligible_at r)),
     (''writer_unproductive_streak_before'', jnum (tr_streak_before r)),
     (''writer_unproductive_streak_after'', jnum (tr_streak_after r)),
     (''writer_circuit_state'', jtext (circuit_text (tr_circuit_state r))),
     (''writer_circuit_open_reason'', jtext (tr_circuit_open_reason r)),
     (''writer_circuit_release_evidence'', jvalopt (tr_release_evidence r)),
     (''restart_observations'', jlist (map jtext (tr_restart_observations r))),
     (''refused_early_start_count'', jnum (tr_refused_count r)),
     (''refused_early_start_reason'', jtext (tr_refused_reason r))]"

definition open_circuit :: "string \<Rightarrow> instant \<Rightarrow> route_circuit \<Rightarrow> route_circuit" where
  "open_circuit reason now c = c\<lparr>rc_state := OPEN, rc_open_reason := reason,
     rc_opened_at := Some (case rc_opened_at c of None \<Rightarrow> now | Some t \<Rightarrow> t),
     rc_release_evidence := None, rc_release_digest := None\<rparr>"

text \<open>What \<open>complete\<close> computes before it opens its transaction, and the rows it writes.\<close>

definition completion_plan ::
  "DurableCycleGovernor \<Rightarrow> CycleLease \<Rightarrow> CycleOutcomeInput \<Rightarrow> instant \<Rightarrow> int \<Rightarrow> (cycle_decision \<times> instant) gres" where
  "completion_plan g lease o' now ticks =
     require (\<not> now < cl_work_started_at lease)
       (CycleNotEligible ''UTC_CLOCK_BACKWARDS'' Infinite (Some (cl_lease_expires_at lease))) (
     require (\<not> ticks - cl_monotonic_started_at lease < 0)
       (gov_exn ValueError ''monotonic cycle clock moved backwards'') (
     res_bind (raised (classify lease o')) (\<lambda>c.
     let d = decide (g_policy g) lease o' (fst c) (snd c) in
     res_bind (add_seconds now (cd_cooldown d)) (\<lambda>next. Inr (d, next)))))"

definition completed_db ::
  "CycleLease \<Rightarrow> CycleOutcomeInput \<Rightarrow> cycle_decision \<Rightarrow> string \<Rightarrow> instant \<Rightarrow> int \<Rightarrow> instant \<Rightarrow> governor_db \<Rightarrow> governor_db" where
  "completed_db lease o' d terminal_state now elapsed next db = db\<lparr>
     db_cycles := map (\<lambda>r. if owned_active lease r
       then terminal_row o' d terminal_state now elapsed next (rc_release_evidence (db_circuit db)) (db_state db) r
       else r) (db_cycles db),
     db_circuit := (if cd_circuit_state d = OPEN then open_circuit (cd_circuit_reason d) now (db_circuit db)
       else db_circuit db),
     db_state := (db_state db)\<lparr>gs_next_cycle_eligible_at := Some next, gs_last_observed := Some now,
       gs_streak := cd_streak_after d\<rparr>\<rparr>"

definition complete ::
  "DurableCycleGovernor \<Rightarrow> CycleLease \<Rightarrow> CycleOutcomeInput \<Rightarrow> string \<Rightarrow> instant \<Rightarrow> int \<Rightarrow> string \<Rightarrow> governor_db \<Rightarrow>
   governor_db \<times> CycleTerminalResult gres" where
  "complete g lease o' terminal_state now ticks at db = transaction db (
     res_bind (completion_plan g lease o' now ticks) (\<lambda>plan.
     res_bind (raised (policy_version (g_policy g))) (\<lambda>version.
     require (\<exists>r \<in> set_option (find_cycle (cl_cycle_id lease) db).
                cy_owner_digest r = cl_owner_digest lease \<and> cy_lease_state r = ACTIVE)
       (gov_exn ValueError ''cycle lease is no longer active for this owner'') (
     require (\<not> clock_backwards now db)
       (CycleNotEligible ''UTC_CLOCK_BACKWARDS'' Infinite (Some (cl_lease_expires_at lease))) (
     require (list_all sql_int [write_ready o', admission_hold o', admission_reject o', accepted_payload_count o',
                provider_dispatches o', Some (cd_cooldown (fst plan)), Some (cd_streak_after (fst plan))])
       (gov_exn OverflowError ''Python int too large to convert to SQLite INTEGER'') (
     require (0 \<le> cd_streak_after (fst plan)) (gov_exn IntegrityError ''CHECK constraint failed'') (
     let elapsed = ticks - cl_monotonic_started_at lease;
         result = terminal_result version lease o' (fst plan) terminal_state now elapsed (snd plan)
           (if cd_circuit_state (fst plan) = OPEN then None else rc_release_evidence (db_circuit db)) (db_state db)
     in commit_logged at ''PRIVATE_GOVERNED_CYCLE_TERMINAL'' (terminal_payload result)
          (completed_db lease o' (fst plan) terminal_state now elapsed (snd plan) db) (Inr result))))))))"

definition fail_ambiguous ::
  "DurableCycleGovernor \<Rightarrow> CycleLease \<Rightarrow> string \<Rightarrow> instant \<Rightarrow> int \<Rightarrow> string \<Rightarrow> governor_db \<Rightarrow>
   governor_db \<times> CycleTerminalResult gres" where
  "fail_ambiguous g lease failure_reason now ticks at db =
     (if strip failure_reason = []
      then (db, Inl (gov_exn ValueError ''ambiguous cycle failure reason is required''))
      else complete g lease \<lparr>write_ready = None, provider_dispatches = None, accepted_payload_count = None,
             admission_hold = None, admission_reject = None,
             systemic_provider_failure_reason = failure_reason, writer_dispatch_enabled = True\<rparr>
             ''FAILED_AMBIGUOUS_PROVIDER_STATE'' now ticks at db)"

section \<open>Releasing the circuit\<close>

definition release_record :: "string \<Rightarrow> string \<Rightarrow> string \<Rightarrow> instant \<Rightarrow> (string \<times> pyval) list \<Rightarrow> (string \<times> pyval) list" where
  "release_record version bound release_kind now evidence = dict_of_pairs ([
     (''route'', jtext CONT_WRITER_ROUTE), (''release_kind'', jtext release_kind), (''released_at'', jtime now),
     (''policy_version'', jtext version), (''bound_failure_reason'', jtext bound)] @ evidence)"

definition released_db :: "pyval \<Rightarrow> string \<Rightarrow> instant \<Rightarrow> governor_db \<Rightarrow> governor_db" where
  "released_db rec digest now db = db\<lparr>
     db_circuit := (db_circuit db)\<lparr>rc_state := CLOSED, rc_open_reason := '''', rc_opened_at := None,
       rc_release_evidence := Some rec, rc_release_digest := Some digest\<rparr>,
     db_state := (db_state db)\<lparr>gs_streak := 0, gs_last_observed := Some now\<rparr>\<rparr>"

definition release_circuit ::
  "DurableCycleGovernor \<Rightarrow> string \<Rightarrow> string \<Rightarrow> (string \<times> pyval) list \<Rightarrow> instant \<Rightarrow> string \<Rightarrow> governor_db \<Rightarrow>
   governor_db \<times> CircuitReleaseEvidence gres" where
  "release_circuit g bound release_kind evidence now at db = transaction db (
     res_bind (raised (policy_version (g_policy g))) (\<lambda>version.
     require (rc_state (db_circuit db) = OPEN) (gov_exn ValueError ''route circuit is not open'') (
     require (rc_open_reason (db_circuit db) = bound)
       (gov_exn ValueError ''release is not bound to the current circuit failure'') (
     require (\<not> clock_backwards now db) (CycleNotEligible ''UTC_CLOCK_BACKWARDS'' Infinite None) (
     let pairs = release_record version bound release_kind now evidence in
     res_bind (raised (digest_canonical (obj pairs))) (\<lambda>digest.
     let rec = obj (dict_set ''evidence_digest'' (jtext digest) pairs) in
     res_bind (raised (canonical_json_bytes rec)) (\<lambda>_.
     commit_logged at ''PRIVATE_WRITER_CIRCUIT_RELEASED'' rec (released_db rec digest now db)
       (Inr \<lparr>ce_release_kind = release_kind, ce_released_at = now, ce_policy_version = version,
             ce_bound_failure_reason = bound, ce_evidence_digest = digest\<rparr>))))))))"

text \<open>
  The health probe runs outside any transaction. It returns a proof, raises an exception the governor
  records (\<open>Caught\<close>, with its class name), or raises one that escapes.
\<close>

datatype probe_call = Returned WriterRouteHealthProof | Caught string | Escaped exn

definition failed_proof :: WriterRouteHealthProof where
  "failed_proof = \<lparr>executable_ok = False, authentication_ok = False, configuration_ok = False,
     provider_available = False, provider_dispatched = False, provider_receipt_reference = None\<rparr>"

definition probe_id_of :: "string \<Rightarrow> instant \<Rightarrow> string res" where
  "probe_id_of bound now = digest_canonical (obj [(''route'', jtext CONT_WRITER_ROUTE),
     (''bound_failure_reason'', jtext bound), (''attempted_at'', jtime now)])"

definition reservation_value :: "string \<Rightarrow> string \<Rightarrow> instant \<Rightarrow> pyval" where
  "reservation_value probe_id bound now = obj [
     (''probe_id'', jtext probe_id), (''route'', jtext CONT_WRITER_ROUTE), (''bound_failure_reason'', jtext bound),
     (''attempted_at'', jtime now), (''probe_state'', jtext ''RESERVED''), (''outcome'', PNone),
     (''no_content_probe'', jflag True), (''provider_dispatched'', jflag False)]"

text \<open>The earliest instant of the next probe: one interval after the opening and after the last probe.\<close>

definition probe_earliest :: "DurableCycleGovernor \<Rightarrow> route_circuit \<Rightarrow> instant gres" where
  "probe_earliest g c =
     (let interval = health_probe_interval_seconds (g_policy g) in
     res_bind (res_of_option (gov_exn ValueError ''durable UTC evidence is ambiguous'') (rc_opened_at c)) (\<lambda>opened.
     res_bind (add_seconds opened interval) (\<lambda>earliest.
     case rc_last_probe_at c of
       None \<Rightarrow> Inr earliest
     | Some t \<Rightarrow> res_bind (add_seconds t interval) (\<lambda>e. Inr (max earliest e)))))"

definition reserved_db :: "string \<Rightarrow> string \<Rightarrow> instant \<Rightarrow> string \<Rightarrow> governor_db \<Rightarrow> governor_db" where
  "reserved_db probe_id bound now reservation_digest db = db\<lparr>
     db_probes := db_probes db @ [\<lparr>hp_probe_id = probe_id, hp_bound_failure_reason = bound,
       hp_attempted_at = now, hp_probe_state = RESERVED, hp_terminal_at = None, hp_outcome = None,
       hp_provider_dispatched = False, hp_provider_receipt_reference = None,
       hp_evidence = reservation_value probe_id bound now, hp_evidence_digest = reservation_digest\<rparr>],
     db_circuit := (db_circuit db)\<lparr>rc_last_probe_at := Some now\<rparr>,
     db_state := observe now (db_state db)\<rparr>"

definition reserve_probe ::
  "DurableCycleGovernor \<Rightarrow> string \<Rightarrow> instant \<Rightarrow> string \<Rightarrow> governor_db \<Rightarrow> governor_db \<times> string gres" where
  "reserve_probe g bound now at db = transaction db (
     require (g_probe_configured g) (gov_exn ValueError ''CONT writer route health probe is not configured'') (
     res_bind (raised (probe_id_of bound now)) (\<lambda>probe_id.
     res_bind (raised (digest_canonical (reservation_value probe_id bound now))) (\<lambda>reservation_digest.
     res_bind (raised (policy_version (g_policy g))) (\<lambda>_.
     require (rc_state (db_circuit db) = OPEN) (gov_exn ValueError ''route circuit is not open'') (
     require (rc_open_reason (db_circuit db) = bound)
       (gov_exn ValueError ''release is not bound to the current circuit failure'') (
     require (\<not> clock_backwards now db) (CycleNotEligible ''UTC_CLOCK_BACKWARDS'' Infinite None) (
     res_bind (probe_earliest g (db_circuit db)) (\<lambda>earliest.
     require (\<not> now < earliest)
       (CycleNotEligible ''HEALTH_PROBE_INTERVAL'' (remaining_seconds now earliest) (Some earliest)) (
     require (probe_id \<notin> hp_probe_id ` set (db_probes db)) (gov_exn IntegrityError ''UNIQUE constraint failed'') (
     commit_logged at ''PRIVATE_WRITER_ROUTE_HEALTH_PROBE_RESERVED'' (reservation_value probe_id bound now)
       (reserved_db probe_id bound now reservation_digest db) (Inr probe_id))))))))))))"

definition receipt_complete :: "WriterRouteHealthProof \<Rightarrow> bool" where
  "receipt_complete p = (\<not> provider_dispatched p \<or> provider_receipt_reference p \<noteq> None)"

definition probe_passed :: "WriterRouteHealthProof \<Rightarrow> bool" where
  "probe_passed p = (receipt_complete p \<and> executable_ok p \<and> authentication_ok p \<and> configuration_ok p \<and>
     provider_available p)"

definition probe_evidence ::
  "string \<Rightarrow> string \<Rightarrow> instant \<Rightarrow> instant \<Rightarrow> WriterRouteHealthProof \<Rightarrow> string \<Rightarrow> (string \<times> pyval) list" where
  "probe_evidence probe_id bound now terminal_now p exception_class = [
     (''probe_id'', jtext probe_id), (''route'', jtext CONT_WRITER_ROUTE), (''bound_failure_reason'', jtext bound),
     (''attempted_at'', jtime now), (''terminal_at'', jtime terminal_now), (''probe_state'', jtext ''TERMINAL''),
     (''outcome'', jtext (if probe_passed p then ''PASSED'' else ''FAILED'')), (''no_content_probe'', jflag True),
     (''executable_ok'', jflag (executable_ok p)), (''authentication_ok'', jflag (authentication_ok p)),
     (''configuration_ok'', jflag (configuration_ok p)), (''provider_available'', jflag (provider_available p)),
     (''provider_dispatched'', jflag (provider_dispatched p)),
     (''provider_receipt_reference'', jopt (provider_receipt_reference p)),
     (''provider_receipt_complete'', jflag (receipt_complete p)),
     (''probe_exception_class'', jtext exception_class)]"

definition probe_result :: "probe_call \<Rightarrow> (WriterRouteHealthProof \<times> string) gres" where
  "probe_result call = (case call of
     Returned p \<Rightarrow> Inr (p, '''')
   | Caught exception_class \<Rightarrow> Inr (failed_proof, exception_class)
   | Escaped e \<Rightarrow> Inl (GovExn e))"

definition reserved :: "string \<Rightarrow> health_probe \<Rightarrow> bool" where
  "reserved probe_id r = (hp_probe_id r = probe_id \<and> hp_probe_state r = RESERVED)"

definition finished_db ::
  "string \<Rightarrow> WriterRouteHealthProof \<Rightarrow> pyval \<Rightarrow> string \<Rightarrow> instant \<Rightarrow> governor_db \<Rightarrow> governor_db" where
  "finished_db probe_id p evidence evidence_digest terminal_now db = db\<lparr>
     db_probes := map (\<lambda>r. if reserved probe_id r
       then r\<lparr>hp_probe_state := PROBE_TERMINAL, hp_terminal_at := Some terminal_now,
              hp_outcome := Some (if probe_passed p then PASSED else FAILED),
              hp_provider_dispatched := provider_dispatched p,
              hp_provider_receipt_reference := provider_receipt_reference p,
              hp_evidence := evidence, hp_evidence_digest := evidence_digest\<rparr>
       else r) (db_probes db),
     db_state := observe terminal_now (db_state db)\<rparr>"

definition finish_probe ::
  "DurableCycleGovernor \<Rightarrow> string \<Rightarrow> string \<Rightarrow> instant \<Rightarrow> probe_call \<Rightarrow> instant \<Rightarrow> string \<Rightarrow> governor_db \<Rightarrow>
   governor_db \<times> (string \<times> pyval) list gres" where
  "finish_probe g probe_id bound now call terminal_now at db = transaction db (
     res_bind (probe_result call) (\<lambda>p.
     require (\<not> terminal_now < now) (CycleNotEligible ''UTC_CLOCK_BACKWARDS'' Infinite None) (
     let evidence = probe_evidence probe_id bound now terminal_now (fst p) (snd p) in
     res_bind (raised (digest_canonical (obj evidence))) (\<lambda>evidence_digest.
     res_bind (raised (policy_version (g_policy g))) (\<lambda>_.
     require (\<not> clock_backwards terminal_now db) (CycleNotEligible ''UTC_CLOCK_BACKWARDS'' Infinite None) (
     require (length (filter (reserved probe_id) (db_probes db)) = 1)
       (gov_exn RuntimeError ''health probe reservation is no longer active'') (
     commit_logged at ''PRIVATE_WRITER_ROUTE_HEALTH_PROBE'' (obj evidence)
       (finished_db probe_id (fst p) (obj evidence) evidence_digest terminal_now db)
       (require (probe_passed (fst p))
         (gov_exn ValueError ''health probe did not prove every required route property'') (Inr evidence)))))))))"

text \<open>The three transactions of \<open>release_with_health_probe\<close> in order, stopping at the first that raises.\<close>

definition release_with_health_probe ::
  "DurableCycleGovernor \<Rightarrow> string \<Rightarrow> probe_call \<Rightarrow> instant \<times> string \<Rightarrow> instant \<times> string \<Rightarrow> instant \<times> string \<Rightarrow>
   governor_db \<Rightarrow> governor_db \<times> CircuitReleaseEvidence gres" where
  "release_with_health_probe g bound call t1 t2 t3 db =
     (case reserve_probe g bound (fst t1) (snd t1) db of
        (db1, Inl e) \<Rightarrow> (db1, Inl e)
      | (db1, Inr probe_id) \<Rightarrow>
          (case finish_probe g probe_id bound (fst t1) call (fst t2) (snd t2) db1 of
             (db2, Inl e) \<Rightarrow> (db2, Inl e)
           | (db2, Inr evidence) \<Rightarrow>
               release_circuit g bound ''DETERMINISTIC_HEALTH_PROBE'' evidence (fst t3) (snd t3) db2))"

definition reset_request ::
  "DurableCycleGovernor \<Rightarrow> string \<Rightarrow> string \<Rightarrow> string \<Rightarrow> string \<Rightarrow> instant \<Rightarrow> string gres" where
  "reset_request g bound version authorised_by evidence_reference requested_at =
     res_bind (raised (policy_version (g_policy g))) (\<lambda>current.
     require (version = current) (gov_exn ValueError ''operator reset policy version is not current'') (
     require (strip authorised_by \<noteq> [] \<and> strip evidence_reference \<noteq> [])
       (gov_exn ValueError ''operator reset requires authority and evidence reference'') (
     let request = \<lparr>or_bound_failure_reason = bound, or_policy_version = version, or_authorised_by = authorised_by,
           or_evidence_reference = evidence_reference, or_requested_at = requested_at\<rparr> in
     require (case g_operator_reset_verifier g of None \<Rightarrow> False | Some verifier \<Rightarrow> verifier request)
       (gov_exn ValueError ''operator reset authority proof is absent or invalid'') (
     raised (digest_canonical (obj [(''route'', jtext CONT_WRITER_ROUTE), (''bound_failure_reason'', jtext bound),
       (''policy_version'', jtext version), (''authorised_by'', jtext authorised_by),
       (''evidence_reference'', jtext evidence_reference), (''requested_at'', jtime requested_at)]))))))"

definition reset_evidence :: "string \<Rightarrow> string \<Rightarrow> string \<Rightarrow> (string \<times> pyval) list" where
  "reset_evidence authorised_by evidence_reference request_digest = [(''authorised_by'', jtext authorised_by),
     (''evidence_reference'', jtext evidence_reference), (''authority_request_digest'', jtext request_digest)]"

definition authorised_operator_reset ::
  "DurableCycleGovernor \<Rightarrow> string \<Rightarrow> string \<Rightarrow> string \<Rightarrow> string \<Rightarrow> instant \<Rightarrow> instant \<Rightarrow> string \<Rightarrow> governor_db \<Rightarrow>
   governor_db \<times> CircuitReleaseEvidence gres" where
  "authorised_operator_reset g bound version authorised_by evidence_reference requested_at now at db =
     (case reset_request g bound version authorised_by evidence_reference requested_at of
        Inl e \<Rightarrow> (db, Inl e)
      | Inr request_digest \<Rightarrow>
          release_circuit g bound ''AUTHORISED_OPERATOR_RESET''
            (reset_evidence authorised_by evidence_reference request_digest) now at db)"

section \<open>Status\<close>

record CycleGovernorStatus =
  st_policy_version :: string
  st_next_cycle_eligible_at :: "instant option"
  st_last_observed_utc :: "instant option"
  st_writer_unproductive_streak :: int
  st_writer_circuit_state :: circuit_state
  st_writer_circuit_open_reason :: string
  st_writer_circuit_release_evidence :: "pyval option"
  st_refused_early_start_count :: int
  st_refused_early_start_reason :: string
  st_active_cycle_id :: "string option"
  st_active_lease_state :: "lease_state option"
  st_active_lease_owner_digest :: "string option"
  st_latest_cycle :: "governed_cycle option"

text \<open>The latest cycle is reported as its row; the source copies most of its columns into a dict.\<close>

definition status :: "governor_db \<Rightarrow> CycleGovernorStatus" where
  "status db = (let s = db_state db; c = db_circuit db; a = active_cycle db in \<lparr>
     st_policy_version = gs_policy_version s, st_next_cycle_eligible_at = gs_next_cycle_eligible_at s,
     st_last_observed_utc = gs_last_observed s, st_writer_unproductive_streak = gs_streak s,
     st_writer_circuit_state = rc_state c, st_writer_circuit_open_reason = rc_open_reason c,
     st_writer_circuit_release_evidence = rc_release_evidence c,
     st_refused_early_start_count = gs_refused_count s, st_refused_early_start_reason = gs_refused_reason s,
     st_active_cycle_id = map_option cy_cycle_id a, st_active_lease_state = map_option cy_lease_state a,
     st_active_lease_owner_digest = map_option cy_owner_digest a,
     st_latest_cycle = (if db_cycles db = [] then None else Some (last (db_cycles db)))\<rparr>)"

end
