(* ===== verification/Cycle_Governor_Facts.thy ===== *)
theory Cycle_Governor_Facts
  imports Cycle_Governor State_Machine
begin

text \<open>
  The governor's consistency invariant and what each operation does to the database: for every
  operation either nothing but the refusal counters changes, or the database changes in exactly the way
  its effect lemma states.
\<close>

section \<open>Transactions\<close>

lemma transactionE:
  assumes "transaction db body = (db', r)"
  obtains (rolled_back) e where "body = Inl e" "db' = db" "r = Inl e"
    | (committed) "body = Inr (db', r)"
proof (cases body)
  case (Inl e)
  with assms show thesis by (intro rolled_back) (auto simp: transaction_def)
next
  case (Inr x)
  with assms show thesis by (intro committed) (simp add: transaction_def)
qed

lemma transaction_committed:
  assumes "transaction db body = (db', r)" and "db' \<noteq> db \<or> (\<exists>x. r = Inr x)"
  shows "body = Inr (db', r)"
  using assms(1) by (rule transactionE) (use assms(2) in auto)

lemma raised_Inr [res_simps]: "raised m = Inr x \<longleftrightarrow> m = Inr x"
  by (auto simp: raised_def split: sum.splits)

lemma add_seconds_Inr [res_simps]: "add_seconds t s = Inr u \<longleftrightarrow> u = t + s * 1000000 \<and> u < MAX_INSTANT"
  by (auto simp: add_seconds_def require_Inr_iff)

lemma Bex_set_option: "(\<exists>x \<in> set_option m. P x) \<longleftrightarrow> (\<exists>x. m = Some x \<and> P x)"
  by (cases m) simp_all

lemma option_case_Inr [res_simps]:
  "(case m of None \<Rightarrow> Inl e | Some x \<Rightarrow> k x) = Inr y \<longleftrightarrow> (\<exists>x. m = Some x \<and> k x = Inr y)"
  by (cases m) simp_all

text \<open>\<open>db'\<close> is \<open>db\<close> with one more ledger row, which extends the chain and records the payload.\<close>

definition commits :: "governor_db \<Rightarrow> string \<Rightarrow> pyval \<Rightarrow> governor_db \<Rightarrow> bool" where
  "commits db kind payload db' \<longleftrightarrow> (\<exists>row. db' = db\<lparr>db_ledger := db_ledger db @ [row]\<rparr> \<and>
     row_ok row (head_digest (db_ledger db)) \<and> lr_kind row = kind \<and>
     canonical_json_bytes payload = Inr (lr_payload row))"

lemma commit_logged_Inr:
  assumes "commit_logged at kind payload db r = Inr (db', r')"
  shows "r' = r \<and> commits db kind payload db'"
proof -
  from assms obtain l where "append_ledger at (db_ledger db) kind payload = Inr l" "db' = db\<lparr>db_ledger := l\<rparr>" "r' = r"
    by (auto simp: commit_logged_def res_bind_Inr_iff raised_Inr)
  then show ?thesis using append_ledger_Inr by (fastforce simp: commits_def)
qed

lemma commits_tables:
  "commits db kind payload db' \<Longrightarrow> db_state db' = db_state db \<and> db_circuit db' = db_circuit db \<and>
     db_cycles db' = db_cycles db \<and> db_probes db' = db_probes db"
  by (auto simp: commits_def)

lemma commits_ledger:
  "commits db kind payload db' \<Longrightarrow> \<exists>row. db_ledger db' = db_ledger db @ [row] \<and> lr_kind row = kind \<and>
     canonical_json_bytes payload = Inr (lr_payload row)"
  by (auto simp: commits_def)

lemma commits_chain: "commits db kind payload db' \<Longrightarrow> chain_ok (db_ledger db) \<Longrightarrow> chain_ok (db_ledger db')"
  by (auto simp: commits_def chain_ok_snoc)

section \<open>The invariant\<close>

text \<open>An instant is \<open>seen\<close> when it is not after the last committed clock observation.\<close>

definition seen :: "instant option \<Rightarrow> instant \<Rightarrow> bool" where
  "seen obs t = (case obs of None \<Rightarrow> False | Some u \<Rightarrow> t \<le> u)"

definition later :: "instant option \<Rightarrow> instant option \<Rightarrow> bool" where
  "later obs obs' = (\<forall>t \<in> set_option obs. seen obs' t)"

definition cycle_ok :: "instant option \<Rightarrow> governed_cycle \<Rightarrow> bool" where
  "cycle_ok obs r \<longleftrightarrow> seen obs (cy_lease_acquired_at r) \<and> 0 \<le> cy_streak_before r \<and>
     (cy_lease_state r = ACTIVE \<longleftrightarrow> cy_terminal_at r = None) \<and>
     (\<forall>t \<in> set_option (cy_terminal_at r). seen obs t)"

definition cycles_ok :: "instant option \<Rightarrow> governed_cycle list \<Rightarrow> bool" where
  "cycles_ok obs rs \<longleftrightarrow> distinct (map cy_cycle_id rs) \<and>
     length (filter (\<lambda>r. cy_lease_state r = ACTIVE) rs) \<le> 1 \<and> (\<forall>r \<in> set rs. cycle_ok obs r)"

definition circuit_ok :: "instant option \<Rightarrow> route_circuit \<Rightarrow> bool" where
  "circuit_ok obs c \<longleftrightarrow> (case rc_state c of
       OPEN \<Rightarrow> rc_opened_at c \<noteq> None \<and> rc_release_evidence c = None \<and> rc_release_digest c = None
     | CLOSED \<Rightarrow> rc_opened_at c = None \<and> rc_open_reason c = []) \<and>
     (\<forall>t \<in> set_option (rc_opened_at c). seen obs t) \<and> (\<forall>t \<in> set_option (rc_last_probe_at c). seen obs t)"

definition probe_ok :: "instant option \<Rightarrow> health_probe \<Rightarrow> bool" where
  "probe_ok obs p \<longleftrightarrow> seen obs (hp_attempted_at p) \<and>
     (case hp_probe_state p of
        PROBE_TERMINAL \<Rightarrow> hp_outcome p \<noteq> None \<and> (\<exists>t. hp_terminal_at p = Some t \<and> seen obs t)
      | _ \<Rightarrow> hp_outcome p = None \<and> hp_terminal_at p = None)"

definition probes_ok :: "instant option \<Rightarrow> health_probe list \<Rightarrow> bool" where
  "probes_ok obs ps \<longleftrightarrow> distinct (map hp_probe_id ps) \<and> (\<forall>p \<in> set ps. probe_ok obs p)"

text \<open>
  A cooldown is set whenever a cycle has ended and none is running; while one is running its lease was
  acquired after the previous cooldown had passed.
\<close>

definition cooldown_ok :: "governor_db \<Rightarrow> bool" where
  "cooldown_ok db \<longleftrightarrow> (case active_cycle db of
     None \<Rightarrow> db_cycles db \<noteq> [] \<longrightarrow> gs_next_cycle_eligible_at (db_state db) \<noteq> None
   | Some r \<Rightarrow> \<forall>t \<in> set_option (gs_next_cycle_eligible_at (db_state db)). t \<le> cy_lease_acquired_at r)"

definition governor_ok :: "governor_db \<Rightarrow> bool" where
  "governor_ok db \<longleftrightarrow> (let obs = gs_last_observed (db_state db) in
     cycles_ok obs (db_cycles db) \<and> circuit_ok obs (db_circuit db) \<and> probes_ok obs (db_probes db) \<and>
     0 \<le> gs_streak (db_state db) \<and> 0 \<le> gs_refused_count (db_state db) \<and> cooldown_ok db \<and> chain_ok (db_ledger db))"

lemma later_refl [simp]: "later obs obs"
  by (cases obs) (simp_all add: later_def seen_def)

lemma later_trans: "later a b \<Longrightarrow> later b c \<Longrightarrow> later a c"
  by (cases a; cases b; cases c) (simp_all add: later_def seen_def)

lemma seen_later: "later obs obs' \<Longrightarrow> seen obs t \<Longrightarrow> seen obs' t"
  by (cases obs; cases obs') (auto simp: later_def seen_def)

lemma seen_Some [simp]: "seen (Some u) t \<longleftrightarrow> t \<le> u"
  by (simp add: seen_def)

lemma not_backwards_later: "\<not> clock_backwards now db \<longleftrightarrow> later (gs_last_observed (db_state db)) (Some now)"
  by (simp add: clock_backwards_def later_def split: option.splits) auto

lemma cycles_ok_later: "later obs obs' \<Longrightarrow> cycles_ok obs rs \<Longrightarrow> cycles_ok obs' rs"
  unfolding cycles_ok_def cycle_ok_def using seen_later by blast

lemma circuit_ok_later: "later obs obs' \<Longrightarrow> circuit_ok obs c \<Longrightarrow> circuit_ok obs' c"
  unfolding circuit_ok_def using seen_later by blast

lemma probe_ok_later: "later obs obs' \<Longrightarrow> probe_ok obs p \<Longrightarrow> probe_ok obs' p"
  using seen_later [of obs obs'] by (auto simp: probe_ok_def split: probe_state.splits)

lemma probes_ok_later: "later obs obs' \<Longrightarrow> probes_ok obs ps \<Longrightarrow> probes_ok obs' ps"
  unfolding probes_ok_def using probe_ok_later by blast

text \<open>At most one row passes a filter: it is the one \<open>find\<close> returns.\<close>

lemma at_most_one_find:
  assumes "length (filter P xs) \<le> 1" and "x \<in> set xs" and "P x"
  shows "find P xs = Some x"
proof -
  have "x \<in> set (filter P xs)" using assms(2,3) by simp
  with assms(1) have f: "filter P xs = [x]" by (cases "filter P xs") auto
  obtain y where y: "find P xs = Some y" using assms(2,3) find_None_all [of P xs] by fastforce
  from find_Some_iff_split [OF y] have "y \<in> set (filter P xs)" by simp
  with f y show ?thesis by simp
qed

lemma active_cycle_Some: "active_cycle db = Some r \<Longrightarrow> r \<in> set (db_cycles db) \<and> cy_lease_state r = ACTIVE"
  unfolding active_cycle_def by (rule find_Some_iff_split)

lemma active_cycle_None: "active_cycle db = None \<longleftrightarrow> (\<forall>r \<in> set (db_cycles db). cy_lease_state r \<noteq> ACTIVE)"
  unfolding active_cycle_def by (rule find_None_all)

lemma active_cycle_unique:
  assumes "cycles_ok obs (db_cycles db)" and "r \<in> set (db_cycles db)" and "cy_lease_state r = ACTIVE"
  shows "active_cycle db = Some r"
  using at_most_one_find [of "\<lambda>r. cy_lease_state r = ACTIVE" "db_cycles db" r] assms
  by (simp add: cycles_ok_def active_cycle_def)

lemma find_cycle_unique:
  assumes "cycles_ok obs (db_cycles db)" and "r \<in> set (db_cycles db)"
  shows "find_cycle (cy_cycle_id r) db = Some r"
proof -
  obtain s where s: "find_cycle (cy_cycle_id r) db = Some s"
    using assms(2) find_None_all [of "\<lambda>s. cy_cycle_id s = cy_cycle_id r" "db_cycles db"]
    by (fastforce simp: find_cycle_def)
  then have "s \<in> set (db_cycles db)" "cy_cycle_id s = cy_cycle_id r"
    using find_Some_iff_split by (fastforce simp: find_cycle_def)+
  with distinct_map_unique [of cy_cycle_id "db_cycles db" s r] assms s show ?thesis
    by (simp add: cycles_ok_def)
qed

section \<open>Effects of the operations\<close>

lemma claimE:
  assumes "claim g owner_id now cycle_id at ticks db = (db', r)"
  obtains (rolled_back) e where "db' = db" "r = Inl e"
    | (backwards) "clock_backwards now db" "db' = refuse ''UTC_CLOCK_BACKWARDS'' None db"
        "r = Inl (CycleNotEligible ''UTC_CLOCK_BACKWARDS'' Infinite (gs_next_cycle_eligible_at (db_state db)))"
    | (conflict) active where "\<not> clock_backwards now db" "active_cycle db = Some active"
        "now < cy_lease_expires_at active" "db' = refuse ''ACTIVE_CYCLE_LEASE'' (Some now) db"
        "r = Inl (CycleLeaseConflict (cy_cycle_id active) (remaining_seconds now (cy_lease_expires_at active))
           (cy_lease_expires_at active))"
    | (recovered) active where "\<not> clock_backwards now db" "active_cycle db = Some active"
        "cy_lease_expires_at active \<le> now" "recover_stale_lease g now at active db = Inr (db', r)"
    | (cooldown) t where "\<not> clock_backwards now db" "active_cycle db = None"
        "gs_next_cycle_eligible_at (db_state db) = Some t" "now < t"
        "db' = refuse ''POST_CYCLE_COOLDOWN'' (Some now) db"
        "r = Inl (CycleNotEligible ''POST_CYCLE_COOLDOWN'' (remaining_seconds now t) (Some t))"
    | (granted) version owner where "\<not> clock_backwards now db" "active_cycle db = None"
        "\<And>t. gs_next_cycle_eligible_at (db_state db) = Some t \<Longrightarrow> t \<le> now"
        "owner_digest owner_id = Inr owner" "policy_version (g_policy g) = Inr version"
        "grant_lease g version owner now cycle_id at ticks db = Inr (db', r)"
proof (rule transactionE [OF assms [unfolded claim_def]])
  fix e assume "db' = db" "r = Inl e"
  then show thesis by (rule rolled_back)
next
  let ?next = "gs_next_cycle_eligible_at (db_state db)"
  assume "res_bind (raised (owner_digest owner_id)) (\<lambda>owner. res_bind (raised (policy_version (g_policy g)))
    (\<lambda>version. claim_body g version owner now cycle_id at ticks db)) = Inr (db', r)"
  then obtain owner version where ov: "owner_digest owner_id = Inr owner" "policy_version (g_policy g) = Inr version"
    and b: "claim_body g version owner now cycle_id at ticks db = Inr (db', r)"
    unfolding res_bind_Inr_iff raised_Inr by blast
  note b = b [unfolded claim_body_def Let_def]
  show thesis
  proof (cases "clock_backwards now db")
    case True
    with b show thesis by (intro backwards) simp_all
  next
    case fwd: False
    show thesis
    proof (cases "active_cycle db")
      case (Some active)
      with b fwd show thesis by (cases "now < cy_lease_expires_at active") (auto intro: conflict recovered)
    next
      case none: None
      show thesis
      proof (cases ?next)
        case None
        with b fwd none ov show thesis by (intro granted) simp_all
      next
        case (Some t)
        with b fwd none ov show thesis by (cases "now < t") (auto intro: cooldown granted)
      qed
    qed
  qed
qed

lemma recover_effect:
  assumes "recover_stale_lease g now at active db = Inr (db', r)"
  obtains t payload where "t = now + normal_cooldown_seconds (g_policy g) * 1000000"
    "r = Inl (CycleNotEligible ''STALE_LEASE_RECOVERED'' (Micros (normal_cooldown_seconds (g_policy g) * 1000000)) (Some t))"
    "commits (recovered_db g now t active db) ''PRIVATE_CYCLE_STALE_LEASE_RECOVERED'' payload db'"
  using assms unfolding recover_stale_lease_def res_bind_Inr_iff add_seconds_Inr
  by (blast dest!: commit_logged_Inr)

lemma grant_effect:
  assumes "grant_lease g version owner now cycle_id at ticks db = Inr (db', r)"
  obtains t row payload where "t = now + g_lease_seconds g * 1000000" "t < MAX_INSTANT"
    "row = lease_row cycle_id owner now t version (restart_observations db) db"
    "cycle_id \<notin> cy_cycle_id ` set (db_cycles db)" "r = Inr (lease_of_row row ticks)"
    "commits (db\<lparr>db_cycles := db_cycles db @ [row], db_state := observe now (db_state db)\<rparr>)
       ''PRIVATE_GOVERNED_CYCLE_LEASE_CLAIMED'' payload db'"
  using assms unfolding grant_lease_def Let_def res_bind_Inr_iff add_seconds_Inr require_Inr_iff
  by (blast dest!: commit_logged_Inr)

lemma renew_effect:
  assumes "renew g lease now at db = (db', r)" and "db' \<noteq> db \<or> (\<exists>t. r = Inr t)"
  obtains s t payload where "t = now + g_lease_seconds g * 1000000" "t < MAX_INSTANT" "r = Inr t"
    "\<not> clock_backwards now db" "find_cycle (cl_cycle_id lease) db = Some s"
    "cy_owner_digest s = cl_owner_digest lease" "cy_lease_state s = ACTIVE" "\<not> cy_lease_expires_at s \<le> now"
    "commits (renewed_db lease now t db) ''PRIVATE_GOVERNED_CYCLE_LEASE_RENEWED'' payload db'"
  using transaction_committed [OF assms(1) [unfolded renew_def] assms(2)]
  unfolding res_bind_Inr_iff add_seconds_Inr require_Inr_iff option_case_Inr
  by (blast dest!: commit_logged_Inr)

lemma completion_plan_Inr:
  "completion_plan g lease o' now ticks = Inr (d, t) \<longleftrightarrow>
     cl_work_started_at lease \<le> now \<and> cl_monotonic_started_at lease \<le> ticks \<and>
     (\<exists>c reason. classify lease o' = Inr (c, reason) \<and> d = decide (g_policy g) lease o' c reason) \<and>
     t = now + cd_cooldown d * 1000000 \<and> t < MAX_INSTANT"
  by (auto simp: completion_plan_def Let_def res_bind_Inr_iff require_Inr_iff raised_Inr add_seconds_Inr)

lemma complete_effect:
  assumes "complete g lease o' terminal_state now ticks at db = (db', r)" and "db' \<noteq> db \<or> (\<exists>x. r = Inr x)"
  obtains plan version s result where "completion_plan g lease o' now ticks = Inr plan"
    "policy_version (g_policy g) = Inr version"
    "find_cycle (cl_cycle_id lease) db = Some s" "cy_owner_digest s = cl_owner_digest lease"
    "cy_lease_state s = ACTIVE" "\<not> clock_backwards now db" "0 \<le> cd_streak_after (fst plan)"
    "result = terminal_result version lease o' (fst plan) terminal_state now (ticks - cl_monotonic_started_at lease)
       (snd plan) (if cd_circuit_state (fst plan) = OPEN then None else rc_release_evidence (db_circuit db)) (db_state db)"
    "r = Inr result"
    "commits (completed_db lease o' (fst plan) terminal_state now (ticks - cl_monotonic_started_at lease) (snd plan) db)
       ''PRIVATE_GOVERNED_CYCLE_TERMINAL'' (terminal_payload result) db'"
  using transaction_committed [OF assms(1) [unfolded complete_def Let_def] assms(2)]
  unfolding res_bind_Inr_iff require_Inr_iff raised_Inr Bex_set_option
  by (blast dest!: commit_logged_Inr)

lemma release_effect:
  assumes "release_circuit g bound kind evidence now at db = (db', r)" and "db' \<noteq> db \<or> (\<exists>x. r = Inr x)"
  obtains version pairs rec digest where "policy_version (g_policy g) = Inr version"
    "rc_state (db_circuit db) = OPEN" "rc_open_reason (db_circuit db) = bound" "\<not> clock_backwards now db"
    "pairs = release_record version bound kind now evidence" "digest_canonical (obj pairs) = Inr digest"
    "rec = obj (dict_set ''evidence_digest'' (jtext digest) pairs)"
    "r = Inr \<lparr>ce_release_kind = kind, ce_released_at = now, ce_policy_version = version,
             ce_bound_failure_reason = bound, ce_evidence_digest = digest\<rparr>"
    "commits (released_db rec digest now db) ''PRIVATE_WRITER_CIRCUIT_RELEASED'' rec db'"
  using transaction_committed [OF assms(1) [unfolded release_circuit_def Let_def] assms(2)]
  unfolding res_bind_Inr_iff require_Inr_iff raised_Inr
  by (blast dest!: commit_logged_Inr)

lemma reserve_effect:
  assumes "reserve_probe g bound now at db = (db', r)" and "db' \<noteq> db \<or> (\<exists>x. r = Inr x)"
  obtains probe_id digest earliest where "g_probe_configured g" "probe_id_of bound now = Inr probe_id"
    "rc_state (db_circuit db) = OPEN" "rc_open_reason (db_circuit db) = bound" "\<not> clock_backwards now db"
    "probe_earliest g (db_circuit db) = Inr earliest" "\<not> now < earliest"
    "probe_id \<notin> hp_probe_id ` set (db_probes db)" "r = Inr probe_id"
    "commits (reserved_db probe_id bound now digest db) ''PRIVATE_WRITER_ROUTE_HEALTH_PROBE_RESERVED''
       (reservation_value probe_id bound now) db'"
  using transaction_committed [OF assms(1) [unfolded reserve_probe_def] assms(2)]
  unfolding res_bind_Inr_iff require_Inr_iff raised_Inr
  by (blast dest!: commit_logged_Inr)

lemma finish_effect:
  assumes "finish_probe g probe_id bound now call terminal_now at db = (db', r)" and "db' \<noteq> db \<or> (\<exists>x. r = Inr x)"
  obtains p digest where "probe_result call = Inr p" "\<not> terminal_now < now" "\<not> clock_backwards terminal_now db"
    "length (filter (reserved probe_id) (db_probes db)) = 1"
    "r = require (probe_passed (fst p)) (gov_exn ValueError ''health probe did not prove every required route property'')
       (Inr (probe_evidence probe_id bound now terminal_now (fst p) (snd p)))"
    "commits (finished_db probe_id (fst p) (obj (probe_evidence probe_id bound now terminal_now (fst p) (snd p)))
       digest terminal_now db) ''PRIVATE_WRITER_ROUTE_HEALTH_PROBE''
       (obj (probe_evidence probe_id bound now terminal_now (fst p) (snd p))) db'"
  using transaction_committed [OF assms(1) [unfolded finish_probe_def Let_def] assms(2)]
  unfolding res_bind_Inr_iff require_Inr_iff raised_Inr
  by (blast dest!: commit_logged_Inr)

section \<open>Preservation of the invariant\<close>

lemma length_filter_weaken:
  "(\<And>x. x \<in> set xs \<Longrightarrow> P x \<Longrightarrow> Q x) \<Longrightarrow> length (filter P xs) \<le> length (filter Q xs)"
  by (induction xs) (auto simp: le_SucI)

lemma cycles_ok_map:
  assumes "cycles_ok obs rs"
    and same: "\<And>r. r \<in> set rs \<Longrightarrow> cy_cycle_id (f r) = cy_cycle_id r"
    and act: "\<And>r. r \<in> set rs \<Longrightarrow> cy_lease_state (f r) = ACTIVE \<Longrightarrow> cy_lease_state r = ACTIVE"
    and ok: "\<And>r. r \<in> set rs \<Longrightarrow> cycle_ok obs r \<Longrightarrow> cycle_ok obs' (f r)"
  shows "cycles_ok obs' (map f rs)"
proof -
  have "map cy_cycle_id (map f rs) = map cy_cycle_id rs" using same by simp
  moreover have "length (filter (\<lambda>r. cy_lease_state r = ACTIVE) (map f rs))
      \<le> length (filter (\<lambda>r. cy_lease_state r = ACTIVE) rs)"
    unfolding filter_map length_map by (rule length_filter_weaken) (use act in simp)
  moreover have "\<forall>r \<in> set (map f rs). cycle_ok obs' r" using assms(1) ok by (auto simp: cycles_ok_def)
  moreover have "distinct (map cy_cycle_id rs)" "length (filter (\<lambda>r. cy_lease_state r = ACTIVE) rs) \<le> 1"
    using assms(1) by (simp_all add: cycles_ok_def)
  ultimately show ?thesis unfolding cycles_ok_def using le_trans by (intro conjI) (simp only:, blast+)
qed

lemma cycles_ok_snoc:
  assumes "cycles_ok obs rs" and "\<forall>r \<in> set rs. cy_lease_state r \<noteq> ACTIVE"
    and "cy_cycle_id r \<notin> cy_cycle_id ` set rs" and "cycle_ok obs r"
  shows "cycles_ok obs (rs @ [r])"
  using assms by (simp add: cycles_ok_def)



lemma cooldown_ok_cong:
  "db_cycles db' = db_cycles db \<Longrightarrow>
     gs_next_cycle_eligible_at (db_state db') = gs_next_cycle_eligible_at (db_state db) \<Longrightarrow>
     cooldown_ok db' = cooldown_ok db"
  by (simp add: cooldown_ok_def active_cycle_def cong: option.case_cong)

lemma governor_ok_commits:
  assumes "commits db kind payload db'" and "governor_ok db"
  shows "governor_ok db'"
  using assms(2) commits_tables [OF assms(1)] commits_chain [OF assms(1)]
  by (simp add: governor_ok_def Let_def cooldown_ok_cong [of db' db])

text \<open>The parts of the invariant that do not concern the table an operation writes move on with the clock.\<close>

lemma governor_ok_parts:
  "governor_ok db \<longleftrightarrow> cycles_ok (gs_last_observed (db_state db)) (db_cycles db) \<and>
     circuit_ok (gs_last_observed (db_state db)) (db_circuit db) \<and>
     probes_ok (gs_last_observed (db_state db)) (db_probes db) \<and> 0 \<le> gs_streak (db_state db) \<and>
     0 \<le> gs_refused_count (db_state db) \<and> cooldown_ok db \<and> chain_ok (db_ledger db)"
  by (simp add: governor_ok_def Let_def)

lemma governor_ok_now:
  assumes "governor_ok db" and "\<not> clock_backwards now db"
  shows "cycles_ok (Some now) (db_cycles db)" "circuit_ok (Some now) (db_circuit db)"
    "probes_ok (Some now) (db_probes db)" "0 \<le> gs_streak (db_state db)" "0 \<le> gs_refused_count (db_state db)"
    "cooldown_ok db" "chain_ok (db_ledger db)"
proof -
  let ?obs = "gs_last_observed (db_state db)"
  have l: "later ?obs (Some now)" using assms(2) not_backwards_later by blast
  from assms(1) have p: "cycles_ok ?obs (db_cycles db)" "circuit_ok ?obs (db_circuit db)" "probes_ok ?obs (db_probes db)"
    unfolding governor_ok_parts by simp_all
  show "cycles_ok (Some now) (db_cycles db)" by (rule cycles_ok_later [OF l p(1)])
  show "circuit_ok (Some now) (db_circuit db)" by (rule circuit_ok_later [OF l p(2)])
  show "probes_ok (Some now) (db_probes db)" by (rule probes_ok_later [OF l p(3)])
qed (use assms(1) in \<open>simp_all add: governor_ok_parts\<close>)

lemma refuse_ok:
  assumes "governor_ok db" and "\<And>t. obs = Some t \<Longrightarrow> \<not> clock_backwards t db"
  shows "governor_ok (refuse reason obs db)"
proof (cases obs)
  case None
  have "cooldown_ok (refuse reason obs db) = cooldown_ok db"
    by (rule cooldown_ok_cong) (simp_all add: refuse_def Let_def None)
  with None assms(1) show ?thesis by (simp add: governor_ok_parts) (simp add: refuse_def Let_def)
next
  case (Some t)
  have "cooldown_ok (refuse reason obs db) = cooldown_ok db"
    by (rule cooldown_ok_cong) (simp_all add: refuse_def Let_def Some)
  with governor_ok_now [OF assms(1) assms(2) [OF Some]] Some show ?thesis
    by (simp add: governor_ok_parts) (simp add: refuse_def Let_def)
qed

lemma ended_ok:
  fixes f :: "governed_cycle \<Rightarrow> governed_cycle" and db :: governor_db
  assumes "cycles_ok obs (db_cycles db)" and "r \<in> set (db_cycles db)" and "cy_lease_state r = ACTIVE"
    and "cy_lease_state (f r) \<noteq> ACTIVE" and "\<And>s. cy_lease_state s \<noteq> ACTIVE \<Longrightarrow> cy_lease_state (f s) \<noteq> ACTIVE"
  shows "\<forall>s \<in> set (map f (db_cycles db)). cy_lease_state s \<noteq> ACTIVE"
proof
  fix s' assume "s' \<in> set (map f (db_cycles db))"
  then obtain s where s: "s \<in> set (db_cycles db)" "s' = f s" by auto
  have "s = r" if "cy_lease_state s = ACTIVE"
    using active_cycle_unique [OF assms(1) s(1) that] active_cycle_unique [OF assms(1-3)] by simp
  then show "cy_lease_state s' \<noteq> ACTIVE" using s(2) assms(4,5) by blast
qed

lemma recovered_ends:
  assumes "cycles_ok obs (db_cycles db)" and "active_cycle db = Some active"
  shows "active_cycle (recovered_db g now t active db) = None"
proof -
  let ?f = "\<lambda>r. if cy_cycle_id r = cy_cycle_id active \<and> cy_lease_state r = ACTIVE
    then recover_row g now t (gs_refused_count (db_state db) + 1) r else r"
  have a: "active \<in> set (db_cycles db)" "cy_lease_state active = ACTIVE" using active_cycle_Some [OF assms(2)] by simp_all
  have eq: "db_cycles (recovered_db g now t active db) = map ?f (db_cycles db)" by (simp add: recovered_db_def Let_def)
  show ?thesis unfolding active_cycle_None eq
    by (rule ended_ok [OF assms(1) a]) (simp_all add: a(2) recover_row_def)
qed

lemma recovered_ok:
  assumes "governor_ok db" and "\<not> clock_backwards now db" and "active_cycle db = Some active"
  shows "governor_ok (recovered_db g now t active db)"
proof -
  note n = governor_ok_now [OF assms(1,2)]
  have "cycles_ok (Some now) (db_cycles (recovered_db g now t active db))"
    unfolding recovered_db_def Let_def
    by simp (rule cycles_ok_map [OF n(1)], auto simp: recover_row_def cycle_ok_def split: if_splits)
  moreover have "cooldown_ok (recovered_db g now t active db)"
    unfolding cooldown_ok_def recovered_ends [OF n(1) assms(3)] by (simp add: recovered_db_def Let_def)
  ultimately show ?thesis using n(2-)
    by (simp add: governor_ok_parts) (simp add: recovered_db_def Let_def circuit_ok_def)
qed

lemma find_snoc: "find P (xs @ [x]) = (case find P xs of None \<Rightarrow> if P x then Some x else None | Some y \<Rightarrow> Some y)"
  by (induction xs) auto

lemma find_map_same: "(\<And>x. P (f x) = P x) \<Longrightarrow> find P (map f xs) = map_option f (find P xs)"
  by (induction xs) auto

lemma granted_ok:
  assumes "governor_ok db" and "\<not> clock_backwards now db" and "active_cycle db = None"
    and "cycle_id \<notin> cy_cycle_id ` set (db_cycles db)"
    and "\<And>t. gs_next_cycle_eligible_at (db_state db) = Some t \<Longrightarrow> t \<le> now"
  shows "governor_ok (db\<lparr>db_cycles := db_cycles db @ [lease_row cycle_id owner now t version restarts db],
    db_state := observe now (db_state db)\<rparr>)"
proof -
  note n = governor_ok_now [OF assms(1,2)]
  let ?row = "lease_row cycle_id owner now t version restarts db"
  have "cycles_ok (Some now) (db_cycles db @ [?row])"
    by (rule cycles_ok_snoc [OF n(1)]) (use assms(3,4) n(4) in \<open>simp_all add: active_cycle_None lease_row_def cycle_ok_def\<close>)
  moreover have "active_cycle (db\<lparr>db_cycles := db_cycles db @ [?row], db_state := observe now (db_state db)\<rparr>) = Some ?row"
    using assms(3) by (simp add: active_cycle_def find_snoc) (simp add: lease_row_def)
  ultimately show ?thesis using n(2-) assms(5)
    by (auto simp: governor_ok_parts observe_def cooldown_ok_def lease_row_def)
qed

lemma renewed_ok:
  assumes "governor_ok db" and "\<not> clock_backwards now db"
  shows "governor_ok (renewed_db lease now t db)"
proof -
  note n = governor_ok_now [OF assms]
  let ?f = "\<lambda>r. if owned_active lease r then r\<lparr>cy_lease_expires_at := t\<rparr> else r"
  have "cycles_ok (Some now) (db_cycles (renewed_db lease now t db))"
    unfolding renewed_db_def by simp (rule cycles_ok_map [OF n(1)], auto simp: cycle_ok_def split: if_splits)
  moreover have "active_cycle (renewed_db lease now t db) = map_option ?f (active_cycle db)"
    unfolding active_cycle_def renewed_db_def by simp (rule find_map_same, simp)
  ultimately show ?thesis using n(2-)
    by (simp add: governor_ok_parts renewed_db_def observe_def cooldown_ok_def split: option.splits)
qed

lemma completed_ends:
  assumes "cycles_ok obs (db_cycles db)" and "find_cycle (cl_cycle_id lease) db = Some s"
    and "cy_owner_digest s = cl_owner_digest lease" and "cy_lease_state s = ACTIVE"
  shows "active_cycle (completed_db lease o' d terminal_state now elapsed t db) = None"
proof -
  have s: "s \<in> set (db_cycles db)" "cy_cycle_id s = cl_cycle_id lease"
    using find_Some_iff_split [OF assms(2) [unfolded find_cycle_def]] by simp_all
  let ?f = "\<lambda>r. if owned_active lease r
    then terminal_row o' d terminal_state now elapsed t (rc_release_evidence (db_circuit db)) (db_state db) r else r"
  have eq: "db_cycles (completed_db lease o' d terminal_state now elapsed t db) = map ?f (db_cycles db)"
    by (simp add: completed_db_def)
  show ?thesis unfolding active_cycle_None eq
    by (rule ended_ok [OF assms(1) s(1) assms(4)]) (simp_all add: s(2) assms(3,4) owned_active_def terminal_row_def)
qed

lemma completed_ok:
  assumes "governor_ok db" and "\<not> clock_backwards now db" and "0 \<le> cd_streak_after d"
    and "find_cycle (cl_cycle_id lease) db = Some s"
    and "cy_owner_digest s = cl_owner_digest lease" and "cy_lease_state s = ACTIVE"
  shows "governor_ok (completed_db lease o' d terminal_state now elapsed t db)"
proof -
  note n = governor_ok_now [OF assms(1,2)]
  have "cycles_ok (Some now) (db_cycles (completed_db lease o' d terminal_state now elapsed t db))"
    unfolding completed_db_def
    by simp (rule cycles_ok_map [OF n(1)], auto simp: terminal_row_def cycle_ok_def split: if_splits)
  moreover have "circuit_ok (Some now) (open_circuit reason now (db_circuit db))" for reason
    using n(2) by (auto simp: circuit_ok_def open_circuit_def split: option.splits)
  moreover have "cooldown_ok (completed_db lease o' d terminal_state now elapsed t db)"
    unfolding cooldown_ok_def completed_ends [OF n(1) assms(4-6)] by (simp add: completed_db_def)
  ultimately show ?thesis using n(2-) assms(3)
    by (simp add: governor_ok_parts) (simp add: completed_db_def)
qed

lemma released_ok:
  assumes "governor_ok db" and "\<not> clock_backwards now db"
  shows "governor_ok (released_db rec digest now db)"
proof -
  have "cooldown_ok (released_db rec digest now db) = cooldown_ok db"
    by (rule cooldown_ok_cong) (simp_all add: released_db_def)
  with governor_ok_now [OF assms] show ?thesis
    by (simp add: governor_ok_parts) (simp add: released_db_def circuit_ok_def)
qed

lemma reserved_ok:
  assumes "governor_ok db" and "\<not> clock_backwards now db" and "probe_id \<notin> hp_probe_id ` set (db_probes db)"
  shows "governor_ok (reserved_db probe_id bound now digest db)"
proof -
  note n = governor_ok_now [OF assms(1,2)]
  have "circuit_ok (Some now) ((db_circuit db)\<lparr>rc_last_probe_at := Some now\<rparr>)"
    using n(2) by (cases "rc_state (db_circuit db)") (simp_all add: circuit_ok_def)
  moreover have "cooldown_ok (reserved_db probe_id bound now digest db) = cooldown_ok db"
    by (rule cooldown_ok_cong) (simp_all add: reserved_db_def observe_def)
  ultimately show ?thesis using n assms(3)
    by (simp add: governor_ok_parts) (simp add: reserved_db_def observe_def probes_ok_def probe_ok_def)
qed

lemma finished_ok:
  assumes "governor_ok db" and "\<not> clock_backwards now db"
  shows "governor_ok (finished_db probe_id p evidence digest now db)"
proof -
  note n = governor_ok_now [OF assms]
  have "probes_ok (Some now) (db_probes (finished_db probe_id p evidence digest now db))"
  proof -
    have "map hp_probe_id (db_probes (finished_db probe_id p evidence digest now db)) = map hp_probe_id (db_probes db)"
      by (simp add: finished_db_def)
    moreover have "\<forall>q \<in> set (db_probes (finished_db probe_id p evidence digest now db)). probe_ok (Some now) q"
      using n(3) by (auto simp: finished_db_def probes_ok_def probe_ok_def reserved_def)
    ultimately show ?thesis using n(3) by (simp only: probes_ok_def)
  qed
  moreover have "cooldown_ok (finished_db probe_id p evidence digest now db) = cooldown_ok db"
    by (rule cooldown_ok_cong) (simp_all add: finished_db_def observe_def)
  ultimately show ?thesis using n by (simp add: governor_ok_parts) (simp add: finished_db_def observe_def)
qed

section \<open>History only grows\<close>

text \<open>
  The clock observation and the cooldown never move back, the ledger and the list of cycles only get
  longer, and a cycle that has ended keeps its row unchanged.
\<close>

definition advances :: "governor_db \<Rightarrow> governor_db \<Rightarrow> bool" where
  "advances db db' \<longleftrightarrow>
     later (gs_last_observed (db_state db)) (gs_last_observed (db_state db')) \<and>
     later (gs_next_cycle_eligible_at (db_state db)) (gs_next_cycle_eligible_at (db_state db')) \<and>
     (\<exists>l. db_ledger db' = db_ledger db @ l) \<and>
     (\<exists>ids. map cy_cycle_id (db_cycles db') = map cy_cycle_id (db_cycles db) @ ids) \<and>
     (\<forall>r \<in> set (db_cycles db). cy_lease_state r \<noteq> ACTIVE \<longrightarrow> r \<in> set (db_cycles db'))"

lemma advances_refl [simp]: "advances db db"
  by (simp add: advances_def)

lemma advances_trans:
  assumes "advances a b" and "advances b c"
  shows "advances a c"
  unfolding advances_def
proof (intro conjI)
  show "\<exists>l. db_ledger c = db_ledger a @ l" using assms unfolding advances_def by (metis append.assoc)
  show "\<exists>ids. map cy_cycle_id (db_cycles c) = map cy_cycle_id (db_cycles a) @ ids"
    using assms unfolding advances_def by (metis append.assoc)
  show "\<forall>r \<in> set (db_cycles a). cy_lease_state r \<noteq> ACTIVE \<longrightarrow> r \<in> set (db_cycles c)"
    using assms unfolding advances_def by blast
qed (use assms later_trans in \<open>unfold advances_def, blast+\<close>)

lemma advances_commits: "advances db db1 \<Longrightarrow> commits db1 kind payload db' \<Longrightarrow> advances db db'"
  by (auto simp: advances_def commits_def)

text \<open>An update that leaves ended cycles alone and keeps every identifier.\<close>

lemma advances_cycles:
  assumes "db_cycles db' = map f (db_cycles db)" and "\<And>r. cy_cycle_id (f r) = cy_cycle_id r"
    and "\<And>r. cy_lease_state r \<noteq> ACTIVE \<Longrightarrow> f r = r" and "db_ledger db' = db_ledger db"
    and "later (gs_last_observed (db_state db)) (gs_last_observed (db_state db'))"
    and "later (gs_next_cycle_eligible_at (db_state db)) (gs_next_cycle_eligible_at (db_state db'))"
  shows "advances db db'"
proof -
  have "map cy_cycle_id (db_cycles db') = map cy_cycle_id (db_cycles db)" using assms(1,2) by simp
  moreover have "\<forall>r \<in> set (db_cycles db). cy_lease_state r \<noteq> ACTIVE \<longrightarrow> r \<in> set (db_cycles db')"
    unfolding assms(1) set_map using assms(3) by (metis image_eqI)
  ultimately show ?thesis using assms(4-6) by (simp add: advances_def)
qed

text \<open>While a cycle is running, a new cooldown ends later than the one before it.\<close>

lemma running_cooldown_later:
  assumes "governor_ok db" and "\<not> clock_backwards now db"
    and "r \<in> set (db_cycles db)" and "cy_lease_state r = ACTIVE" and "now \<le> t"
  shows "later (gs_next_cycle_eligible_at (db_state db)) (Some t)"
proof -
  note n = governor_ok_now [OF assms(1,2)]
  from n(1) assms(3) have "cy_lease_acquired_at r \<le> now" by (simp add: cycles_ok_def cycle_ok_def)
  moreover have "\<forall>u \<in> set_option (gs_next_cycle_eligible_at (db_state db)). u \<le> cy_lease_acquired_at r"
    using n(6) unfolding cooldown_ok_def active_cycle_unique [OF n(1) assms(3,4)] by simp
  ultimately show ?thesis using assms(5) by (fastforce simp: later_def)
qed

lemma refuse_advances: "(\<And>t. obs = Some t \<Longrightarrow> \<not> clock_backwards t db) \<Longrightarrow> advances db (refuse reason obs db)"
  by (rule advances_cycles [where f = id])
    (auto simp: refuse_def Let_def not_backwards_later split: option.splits)

lemma recovered_advances:
  assumes "governor_ok db" and "\<not> clock_backwards now db" and "active_cycle db = Some active" and "now \<le> t"
  shows "advances db (recovered_db g now t active db)"
proof (rule advances_cycles)
  have "later (gs_next_cycle_eligible_at (db_state db)) (Some t)"
    using running_cooldown_later [OF assms(1,2)] active_cycle_Some [OF assms(3)] assms(4) by blast
  then show "later (gs_next_cycle_eligible_at (db_state db)) (gs_next_cycle_eligible_at (db_state (recovered_db g now t active db)))"
    by (simp add: recovered_db_def Let_def)
  show "db_cycles (recovered_db g now t active db) = map (\<lambda>r. if cy_cycle_id r = cy_cycle_id active \<and> cy_lease_state r = ACTIVE
    then recover_row g now t (gs_refused_count (db_state db) + 1) r else r) (db_cycles db)"
    by (simp add: recovered_db_def Let_def)
qed (use assms(2) in \<open>simp_all add: recovered_db_def Let_def recover_row_def not_backwards_later\<close>)

lemma granted_advances:
  assumes "\<not> clock_backwards now db"
  shows "advances db (db\<lparr>db_cycles := db_cycles db @ [row], db_state := observe now (db_state db)\<rparr>)"
  using assms by (simp add: advances_def observe_def not_backwards_later)

lemma renewed_advances: "\<not> clock_backwards now db \<Longrightarrow> advances db (renewed_db lease now t db)"
  by (rule advances_cycles [where f = "\<lambda>r. if owned_active lease r then r\<lparr>cy_lease_expires_at := t\<rparr> else r"])
    (simp_all add: renewed_db_def observe_def not_backwards_later owned_active_def)

lemma completed_advances:
  assumes "governor_ok db" and "\<not> clock_backwards now db" and "find_cycle (cl_cycle_id lease) db = Some s"
    and "cy_lease_state s = ACTIVE" and "now \<le> t"
  shows "advances db (completed_db lease o' d terminal_state now elapsed t db)"
proof (rule advances_cycles)
  have "s \<in> set (db_cycles db)" using find_Some_iff_split [OF assms(3) [unfolded find_cycle_def]] by simp
  then have "later (gs_next_cycle_eligible_at (db_state db)) (Some t)"
    using running_cooldown_later [OF assms(1,2) _ assms(4,5)] by blast
  then show "later (gs_next_cycle_eligible_at (db_state db))
      (gs_next_cycle_eligible_at (db_state (completed_db lease o' d terminal_state now elapsed t db)))"
    by (simp add: completed_db_def)
  show "db_cycles (completed_db lease o' d terminal_state now elapsed t db) = map (\<lambda>r. if owned_active lease r
    then terminal_row o' d terminal_state now elapsed t (rc_release_evidence (db_circuit db)) (db_state db) r else r) (db_cycles db)"
    by (simp add: completed_db_def)
qed (use assms(2) in \<open>simp_all add: completed_db_def owned_active_def terminal_row_def not_backwards_later\<close>)

lemma released_advances: "\<not> clock_backwards now db \<Longrightarrow> advances db (released_db rec digest now db)"
  by (rule advances_cycles [where f = id]) (simp_all add: released_db_def not_backwards_later)

lemma reserved_advances: "\<not> clock_backwards now db \<Longrightarrow> advances db (reserved_db probe_id bound now digest db)"
  by (rule advances_cycles [where f = id]) (simp_all add: reserved_db_def observe_def not_backwards_later)

lemma finished_advances: "\<not> clock_backwards now db \<Longrightarrow> advances db (finished_db probe_id p evidence digest now db)"
  by (rule advances_cycles [where f = id]) (simp_all add: finished_db_def observe_def not_backwards_later)

end
