(* ===== verification/Cycle_Governor_Steps.thy ===== *)
theory Cycle_Governor_Steps
  imports Cycle_Governor_Facts
begin

text \<open>
  The governor as a state machine. Several processes share one store; each step is one committed (or
  rolled back) transaction of one of them, with any arguments and in any order. The two transactions of
  a health probe and the release that follows it are separate steps, so the steps of other processes
  may come between them.
\<close>

section \<open>Steps\<close>

text \<open>A governor object that was constructed on this store: \<open>__init__\<close> and the policy's \<open>__post_init__\<close> passed.\<close>

definition attached :: "DurableCycleGovernor \<Rightarrow> governor_db \<Rightarrow> bool" where
  "attached g db \<longleftrightarrow> EvaluationCyclePolicy_post_init (g_policy g) = Inr () \<and> 0 < g_lease_seconds g \<and>
     policy_version (g_policy g) = Inr (gs_policy_version (db_state db))"

inductive governor_step :: "governor_db \<Rightarrow> governor_db \<Rightarrow> bool" where
  step_claim: "attached g db \<Longrightarrow> claim g owner_id now cycle_id at ticks db = (db', r) \<Longrightarrow> governor_step db db'"
| step_renew: "attached g db \<Longrightarrow> renew g lease now at db = (db', r') \<Longrightarrow> governor_step db db'"
| step_complete: "attached g db \<Longrightarrow> complete g lease o' terminal_state now ticks at db = (db', q) \<Longrightarrow> governor_step db db'"
| step_fail: "attached g db \<Longrightarrow> fail_ambiguous g lease reason now ticks at db = (db', q) \<Longrightarrow> governor_step db db'"
| step_reserve: "attached g db \<Longrightarrow> reserve_probe g bound now at db = (db', p) \<Longrightarrow> governor_step db db'"
| step_finish: "attached g db \<Longrightarrow> finish_probe g probe_id bound now call terminal_now at db = (db', e) \<Longrightarrow>
    governor_step db db'"
| step_release: "attached g db \<Longrightarrow> probe \<in> set (db_probes db) \<Longrightarrow> hp_outcome probe = Some PASSED \<Longrightarrow>
    hp_evidence probe = obj evidence \<Longrightarrow>
    release_circuit g (hp_bound_failure_reason probe) ''DETERMINISTIC_HEALTH_PROBE'' evidence now at db = (db', c) \<Longrightarrow>
    governor_step db db'"
| step_reset: "attached g db \<Longrightarrow>
    authorised_operator_reset g bound version authorised_by reference requested_at now at db = (db', c) \<Longrightarrow>
    governor_step db db'"

lemma attached_cooldown:
  assumes "attached g db"
  shows "300 \<le> normal_cooldown_seconds (g_policy g)" "900 \<le> unproductive_cooldown_seconds (g_policy g)"
    "3600 \<le> health_probe_interval_seconds (g_policy g)" "0 < g_lease_seconds g"
  using assms by (simp_all add: attached_def EvaluationCyclePolicy_post_init_def require_Inr_iff
      MIN_NORMAL_COOLDOWN_SECONDS_def MIN_UNPRODUCTIVE_COOLDOWN_SECONDS_def MIN_HEALTH_PROBE_INTERVAL_SECONDS_def)

lemma decide_cooldown:
  "cd_cooldown (decide p lease o' c reason) =
     (if c = UNPRODUCTIVE_PROVIDER then unproductive_cooldown_seconds p else normal_cooldown_seconds p)"
  by (cases c) (simp_all add: decide_def Let_def)

lemma plan_cooldown:
  assumes "attached g db" and "completion_plan g lease o' now ticks = Inr plan"
  shows "now + 300 * 1000000 \<le> snd plan"
proof -
  obtain d t where plan: "plan = (d, t)" by (cases plan)
  with assms(2) obtain c reason where d: "d = decide (g_policy g) lease o' c reason" and t: "t = now + cd_cooldown d * 1000000"
    unfolding plan completion_plan_Inr by blast
  have "300 \<le> cd_cooldown d" using attached_cooldown [OF assms(1)] unfolding d decide_cooldown by simp
  with plan t show ?thesis by simp
qed

section \<open>Every operation keeps the invariant and the history\<close>

definition keeps :: "governor_db \<Rightarrow> governor_db \<Rightarrow> bool" where
  "keeps db db' \<longleftrightarrow> governor_ok db' \<and> advances db db'"

lemma keeps_refl: "governor_ok db \<Longrightarrow> keeps db db"
  by (simp add: keeps_def)

lemma keeps_commits: "commits db1 kind payload db' \<Longrightarrow> governor_ok db1 \<Longrightarrow> advances db db1 \<Longrightarrow> keeps db db'"
  using governor_ok_commits advances_commits by (simp add: keeps_def)

lemma claim_keeps:
  assumes "attached g db" and "governor_ok db" and "claim g owner_id now cycle_id at ticks db = (db', r)"
  shows "keeps db db'"
  using assms(3)
proof (cases rule: claimE)
  case (recovered active)
  from recover_effect [OF recovered(4)] show ?thesis
  proof cases
    case (1 t payload)
    have "now \<le> t" using 1(1) attached_cooldown(1) [OF assms(1)] by simp
    then show ?thesis
      by (intro keeps_commits [OF 1(3)] recovered_ok [OF assms(2) recovered(1,2)] recovered_advances [OF assms(2) recovered(1,2)])
  qed
next
  case (granted version owner)
  show ?thesis
    using grant_effect [OF granted(6)]
  proof cases
    case (1 t row payload)
    show ?thesis
      by (rule keeps_commits [OF 1(6)])
        (unfold 1(3), rule granted_ok [OF assms(2) granted(1,2) 1(4) granted(3)], assumption,
          rule granted_advances [OF granted(1)])
  qed
next
  case backwards
  then show ?thesis using refuse_ok [OF assms(2), of None] refuse_advances [of None db] by (simp add: keeps_def)
next
  case (conflict active)
  then show ?thesis using refuse_ok [OF assms(2), of "Some now"] refuse_advances [of "Some now" db] by (simp add: keeps_def)
next
  case (cooldown t)
  then show ?thesis using refuse_ok [OF assms(2), of "Some now"] refuse_advances [of "Some now" db] by (simp add: keeps_def)
qed (simp add: assms(2) keeps_refl)

lemma renew_keeps:
  assumes "governor_ok db" and "renew g lease now at db = (db', r)"
  shows "keeps db db'"
proof (cases "db' = db")
  case False
  with renew_effect [OF assms(2)] show ?thesis
    using keeps_commits renewed_ok [OF assms(1)] renewed_advances by metis
qed (simp add: assms keeps_refl)

lemma complete_keeps:
  assumes "attached g db" and "governor_ok db" and "complete g lease o' terminal_state now ticks at db = (db', r)"
  shows "keeps db db'"
proof (cases "db' = db")
  case False
  then have "db' \<noteq> db \<or> (\<exists>x. r = Inr x)" by blast
  from complete_effect [OF assms(3) this] show ?thesis
  proof cases
    case (1 plan version s result)
    have "now \<le> snd plan" using plan_cooldown [OF assms(1) 1(1)] by simp
    then show ?thesis
      using keeps_commits [OF 1(10)] completed_ok [OF assms(2) 1(6,7,3,4,5)] completed_advances [OF assms(2) 1(6,3,5)] by blast
  qed
qed (simp add: assms keeps_refl)

lemma release_keeps:
  assumes "governor_ok db" and "release_circuit g bound kind evidence now at db = (db', r)"
  shows "keeps db db'"
proof (cases "db' = db")
  case False
  then have "db' \<noteq> db \<or> (\<exists>x. r = Inr x)" by blast
  from release_effect [OF assms(2) this] show ?thesis
    using keeps_commits released_ok [OF assms(1)] released_advances by metis
qed (simp add: assms keeps_refl)

lemma reserve_keeps:
  assumes "governor_ok db" and "reserve_probe g bound now at db = (db', r)"
  shows "keeps db db'"
proof (cases "db' = db")
  case False
  then have "db' \<noteq> db \<or> (\<exists>x. r = Inr x)" by blast
  from reserve_effect [OF assms(2) this] show ?thesis
    using keeps_commits reserved_ok [OF assms(1)] reserved_advances by metis
qed (simp add: assms keeps_refl)

lemma finish_keeps:
  assumes "governor_ok db" and "finish_probe g probe_id bound now call terminal_now at db = (db', r)"
  shows "keeps db db'"
proof (cases "db' = db")
  case False
  then have "db' \<noteq> db \<or> (\<exists>x. r = Inr x)" by blast
  from finish_effect [OF assms(2) this] show ?thesis
    using keeps_commits finished_ok [OF assms(1)] finished_advances by metis
qed (simp add: assms keeps_refl)

text \<open>An operator reset either leaves the store alone or is a release that the verifier authorised.\<close>

lemma operator_resetE:
  assumes "authorised_operator_reset g bound version authorised_by reference requested_at now at db = (db', r)"
  obtains (refused) e where "db' = db" "r = Inl e"
    | (authorised) verifier evidence where "g_operator_reset_verifier g = Some verifier"
        "verifier \<lparr>or_bound_failure_reason = bound, or_policy_version = version, or_authorised_by = authorised_by,
           or_evidence_reference = reference, or_requested_at = requested_at\<rparr>"
        "strip authorised_by \<noteq> []" "strip reference \<noteq> []" "policy_version (g_policy g) = Inr version"
        "release_circuit g bound ''AUTHORISED_OPERATOR_RESET'' evidence now at db = (db', r)"
proof (cases "reset_request g bound version authorised_by reference requested_at")
  case (Inl e)
  with assms show thesis by (intro refused) (auto simp: authorised_operator_reset_def)
next
  case (Inr digest)
  have "release_circuit g bound ''AUTHORISED_OPERATOR_RESET'' (reset_evidence authorised_by reference digest) now at db = (db', r)"
    using assms Inr by (simp add: authorised_operator_reset_def)
  with Inr show thesis
    unfolding reset_request_def Let_def res_bind_Inr_iff require_Inr_iff raised_Inr
    by (cases "g_operator_reset_verifier g") (auto intro: authorised)
qed

lemma step_keeps_all:
  assumes "governor_step db db'" and "governor_ok db"
  shows "keeps db db'"
  using assms
proof (induction rule: governor_step.induct)
  case (step_fail g db lease reason now ticks at db' q)
  then show ?case using complete_keeps keeps_refl by (auto simp: fail_ambiguous_def split: if_splits)
next
  case (step_reset g db bound version authorised_by reference requested_at now at db' c)
  from step_reset(2) show ?case
    by (cases rule: operator_resetE) (use release_keeps keeps_refl step_reset(3) in blast)+
qed (rule claim_keeps renew_keeps complete_keeps reserve_keeps finish_keeps release_keeps; assumption)+

interpretation governor: ordered_machine governor_step governor_ok advances
proof
  show "governor_step s s' \<Longrightarrow> governor_ok s \<Longrightarrow> governor_ok s'" for s s'
    using step_keeps_all keeps_def by blast
  show "governor_step s s' \<Longrightarrow> governor_ok s \<Longrightarrow> advances s s'" for s s'
    using step_keeps_all keeps_def by blast
qed (auto intro: advances_trans)

section \<open>How the circuit closes\<close>

text \<open>A release is on record between two stores.\<close>

definition released_since :: "governor_db \<Rightarrow> governor_db \<Rightarrow> bool" where
  "released_since db db' = (\<exists>row \<in> set (drop (length (db_ledger db)) (db_ledger db')).
     lr_kind row = ''PRIVATE_WRITER_CIRCUIT_RELEASED'')"

lemma released_since_later:
  assumes "released_since db db1" and "advances db db1" and "advances db1 db2"
  shows "released_since db db2"
  using assms by (auto simp: released_since_def advances_def)

lemma released_since_earlier:
  assumes "released_since db1 db2" and "advances db db1" and "advances db1 db2"
  shows "released_since db db2"
  using assms by (auto simp: released_since_def advances_def)

lemma released_db_since:
  assumes "commits (released_db rec digest now db) ''PRIVATE_WRITER_CIRCUIT_RELEASED'' payload db'"
  shows "released_since db db'"
  using commits_ledger [OF assms] by (auto simp: released_since_def released_db_def)

text \<open>The circuit stays as it is, opens, or is closed by a release bound to the reason it is open for.\<close>

definition circuit_steps :: "governor_db \<Rightarrow> governor_db \<Rightarrow> bool" where
  "circuit_steps db db' \<longleftrightarrow> rc_state (db_circuit db') = OPEN \<or> rc_state (db_circuit db') = rc_state (db_circuit db) \<or>
     released_since db db'"

lemma claim_circuit:
  assumes "claim g owner_id now cycle_id at ticks db = (db', r)"
  shows "circuit_steps db db'"
  using assms
proof (cases rule: claimE)
  case (recovered active)
  from recover_effect [OF recovered(4)] show ?thesis
    by cases (drule commits_tables, simp add: circuit_steps_def recovered_db_def Let_def)
next
  case (granted version owner)
  from grant_effect [OF granted(6)] show ?thesis
    by cases (drule commits_tables, simp add: circuit_steps_def)
qed (simp_all add: circuit_steps_def refuse_def Let_def)

lemma complete_circuit:
  assumes "complete g lease o' terminal_state now ticks at db = (db', r)"
  shows "circuit_steps db db'"
proof (cases "db' = db")
  case False
  then have "db' \<noteq> db \<or> (\<exists>x. r = Inr x)" by blast
  from complete_effect [OF assms this] show ?thesis
    by cases (drule commits_tables, simp add: circuit_steps_def completed_db_def open_circuit_def)
qed (simp add: circuit_steps_def)

lemma release_circuit_steps:
  assumes "release_circuit g bound kind evidence now at db = (db', r)"
  shows "circuit_steps db db'"
proof (cases "db' = db")
  case False
  then have "db' \<noteq> db \<or> (\<exists>x. r = Inr x)" by blast
  from release_effect [OF assms this] show ?thesis
    by cases (drule released_db_since, simp add: circuit_steps_def)
qed (simp add: circuit_steps_def)

lemma renew_circuit:
  assumes "renew g lease now at db = (db', r)"
  shows "circuit_steps db db'"
proof (cases "db' = db")
  case False
  then have "db' \<noteq> db \<or> (\<exists>x. r = Inr x)" by blast
  from renew_effect [OF assms this] show ?thesis
    by cases (drule commits_tables, simp add: circuit_steps_def renewed_db_def)
qed (simp add: circuit_steps_def)

lemma reserve_circuit:
  assumes "reserve_probe g bound now at db = (db', r)"
  shows "circuit_steps db db'"
proof (cases "db' = db")
  case False
  then have "db' \<noteq> db \<or> (\<exists>x. r = Inr x)" by blast
  from reserve_effect [OF assms this] show ?thesis
    by cases (drule commits_tables, simp add: circuit_steps_def reserved_db_def)
qed (simp add: circuit_steps_def)

lemma finish_circuit:
  assumes "finish_probe g probe_id bound now call terminal_now at db = (db', r)"
  shows "circuit_steps db db'"
proof (cases "db' = db")
  case False
  then have "db' \<noteq> db \<or> (\<exists>x. r = Inr x)" by blast
  from finish_effect [OF assms this] show ?thesis
    by cases (drule commits_tables, simp add: circuit_steps_def finished_db_def)
qed (simp add: circuit_steps_def)

lemma step_circuit: "governor_step db db' \<Longrightarrow> circuit_steps db db'"
proof (induction rule: governor_step.induct)
  case (step_fail g db lease reason now ticks at db' q)
  then show ?case using complete_circuit by (auto simp: fail_ambiguous_def circuit_steps_def split: if_splits)
next
  case (step_reset g db bound version authorised_by reference requested_at now at db' c)
  from step_reset(2) show ?case
    by (cases rule: operator_resetE) (use release_circuit_steps in \<open>auto simp: circuit_steps_def\<close>)
qed (rule claim_circuit renew_circuit complete_circuit reserve_circuit finish_circuit release_circuit_steps; assumption)+

lemma open_stays_open:
  assumes "governor_step\<^sup>*\<^sup>* db db'" and "governor_ok db" and "rc_state (db_circuit db) = OPEN"
  shows "rc_state (db_circuit db') = OPEN \<or> released_since db db'"
  using assms
proof (induction rule: rtranclp_induct)
  case (step db1 db2)
  have ok: "governor_ok db1" "advances db db1" using governor.run_keeps governor.run_advances step by blast+
  have a: "advances db1 db2" using step_keeps_all [OF step(2) ok(1)] by (simp add: keeps_def)
  from step(3) [OF step(4,5)] show ?case
  proof
    assume "rc_state (db_circuit db1) = OPEN"
    with step_circuit [OF step(2)] show ?thesis
      using released_since_earlier [OF _ ok(2) a] by (auto simp: circuit_steps_def)
  next
    assume "released_since db db1"
    from released_since_later [OF this ok(2) a] show ?thesis by blast
  qed
qed simp

end
