(* ===== verification/Cycle_Governor_Props.thy ===== *)
theory Cycle_Governor_Props
  imports Cycle_Governor_Steps
begin

text \<open>
  The properties of the cycle governor: consistency of every reachable store, who gets a lease, that
  superseded owners are fenced off, that the cooldown and the circuit breaker are enforced across any
  interleaving of processes, and what a completed cycle decides.
\<close>

section \<open>When the ledger accepts an entry\<close>

lemma transaction_commits: "body = Inr r \<Longrightarrow> transaction db body = r"
  by (simp add: transaction_def)

definition appendable :: "ledger \<Rightarrow> bool" where
  "appendable l = (head_digest l \<notin> lr_prev_digest ` set l)"

lemma append_ledger_total:
  assumes "wf_pyval payload" and "encodable payload" and "kind \<notin> set FORBIDDEN_INTENTS"
  shows "(\<exists>l'. append_ledger at l kind payload = Inr l') \<longleftrightarrow> appendable l"
proof -
  obtain b where b: "canonical_json_bytes payload = Inr b"
    using canonical_json_bytes_encodable [OF assms(1)] assms(2) by blast
  have "\<exists>d. digest_canonical (ledger_entry_value at kind (digest_bytes b) (head_digest l)) = Inr d"
    unfolding digest_canonical_encodable [OF entry_value_wf] by (simp add: ledger_entry_value_def obj_encodable)
  with b assms(3) show ?thesis
    by (auto simp: append_ledger_def refuse_public_effect_def appendable_def res_simps)
qed

lemma commit_logged_total:
  assumes "wf_pyval payload" and "encodable payload" and "kind \<notin> set FORBIDDEN_INTENTS"
  shows "(\<exists>db'. commit_logged at kind payload db r = Inr (db', r)) \<longleftrightarrow> appendable (db_ledger db)"
  unfolding append_ledger_total [OF assms, of at "db_ledger db", symmetric]
  by (auto simp: commit_logged_def res_bind_Inr_iff raised_Inr)

lemma jtime_ok [simp]: "wf_pyval (jtime t)" "encodable (jtime t)"
  by (simp_all add: jtime_def)

lemma private_kinds [simp]:
  "''PRIVATE_GOVERNED_CYCLE_LEASE_CLAIMED'' \<notin> set FORBIDDEN_INTENTS"
  "''PRIVATE_CYCLE_STALE_LEASE_RECOVERED'' \<notin> set FORBIDDEN_INTENTS"
  by (simp_all add: FORBIDDEN_INTENTS_def)

lemma owner_digest_total: "(\<exists>d. owner_digest owner_id = Inr d) \<longleftrightarrow> strip owner_id \<noteq> []"
proof -
  have "\<exists>d. digest_canonical (obj [(''cycle_lease_owner'', jtext owner_id)]) = Inr d"
    using digest_canonical_encodable [of "obj [(''cycle_lease_owner'', jtext owner_id)]"]
    by (simp add: obj_wf obj_encodable)
  then show ?thesis by (auto simp: owner_digest_def require_def)
qed

lemma grant_lease_total:
  "(\<exists>db' lease. grant_lease g version owner now cycle_id at ticks db = Inr (db', Inr lease)) \<longleftrightarrow>
     now + g_lease_seconds g * 1000000 < MAX_INSTANT \<and> cycle_id \<notin> cy_cycle_id ` set (db_cycles db) \<and>
     appendable (db_ledger db)" (is "?L \<longleftrightarrow> ?R")
proof -
  let ?t = "now + g_lease_seconds g * 1000000"
  let ?row = "lease_row cycle_id owner now ?t version (restart_observations db) db"
  let ?payload = "obj [(''cycle_id'', jtext cycle_id), (''lease_owner_digest'', jtext owner),
    (''lease_state'', jtext ''ACTIVE''), (''lease_acquired_at'', jtime now), (''lease_expires_at'', jtime ?t),
    (''writer_circuit_state'', jtext (circuit_text (rc_state (db_circuit db)))),
    (''restart_observations'', jlist (map jtext (restart_observations db)))]"
  let ?db = "db\<lparr>db_cycles := db_cycles db @ [?row], db_state := observe now (db_state db)\<rparr>"
  have "wf_pyval ?payload" "encodable ?payload" by (simp_all add: obj_wf obj_encodable)
  note total = commit_logged_total [OF this private_kinds(1), of at ?db "Inr (lease_of_row ?row ticks)"]
  have "?L \<longleftrightarrow> ?t < MAX_INSTANT \<and> cycle_id \<notin> cy_cycle_id ` set (db_cycles db) \<and>
      (\<exists>db'. commit_logged at ''PRIVATE_GOVERNED_CYCLE_LEASE_CLAIMED'' ?payload ?db
         (Inr (lease_of_row ?row ticks)) = Inr (db', Inr (lease_of_row ?row ticks)))"
    unfolding grant_lease_def Let_def res_bind_Inr_iff add_seconds_Inr require_Inr_iff
    using commit_logged_Inr by fastforce
  then show ?thesis unfolding total by simp
qed

definition payload_ok :: "CycleTerminalResult \<Rightarrow> bool" where
  "payload_ok r \<longleftrightarrow> safe_int (elapsed_milliseconds (tr_elapsed r)) \<and>
     (\<forall>m \<in> {tr_write_ready r, tr_hold r, tr_reject r, tr_accepted_payload_count r, tr_dispatch_count r}.
        \<forall>n \<in> set_option m. safe_int n) \<and>
     safe_int (tr_cooldown_seconds r) \<and> safe_int (tr_streak_before r) \<and> safe_int (tr_streak_after r) \<and>
     safe_int (tr_refused_count r) \<and> (\<forall>v \<in> set_option (tr_release_evidence r). wf_pyval v \<and> encodable v)"

lemma none_ok [simp]: "wf_pyval PNone" "encodable PNone"
  by (simp_all add: encodable_def)

lemma jnumopt_ok [simp]: "wf_pyval (jnumopt m)" "encodable (jnumopt m) \<longleftrightarrow> (\<forall>n \<in> set_option m. safe_int n)"
  by (simp_all add: jnumopt_def split: option.split)

lemma jvalopt_ok [simp]:
  "wf_pyval (jvalopt m) \<longleftrightarrow> (\<forall>v \<in> set_option m. wf_pyval v)" "encodable (jvalopt m) \<longleftrightarrow> (\<forall>v \<in> set_option m. encodable v)"
  by (simp_all add: jvalopt_def split: option.split)

lemma terminal_keys: "distinct [''cycle_id'', ''lease_owner_digest'', ''lease_state'', ''terminal_state'', ''outcome_class'',
  ''work_started_at'', ''terminal_at'', ''elapsed_milliseconds'', ''admission_counts'', ''accepted_payload_count'',
  ''writer_provider_dispatch_count'', ''writer_dispatch_enabled'', ''cooldown_policy_version'', ''cooldown_seconds'',
  ''cooldown_started_at'', ''next_cycle_eligible_at'', ''writer_unproductive_streak_before'',
  ''writer_unproductive_streak_after'', ''writer_circuit_state'', ''writer_circuit_open_reason'',
  ''writer_circuit_release_evidence'', ''restart_observations'', ''refused_early_start_count'',
  ''refused_early_start_reason'']"
  by code_simp

lemma terminal_payload_ok: "payload_ok r \<Longrightarrow> wf_pyval (terminal_payload r) \<and> encodable (terminal_payload r)"
  unfolding terminal_payload_def obj_wf obj_encodable list.map fst_conv
  using terminal_keys by (simp add: payload_ok_def obj_wf obj_encodable)

lemma complete_returns:
  assumes "completion_plan g lease o' now ticks = Inr plan" and "policy_version (g_policy g) = Inr version"
    and "find_cycle (cl_cycle_id lease) db = Some s" and "cy_owner_digest s = cl_owner_digest lease"
    and "cy_lease_state s = ACTIVE" and "\<not> clock_backwards now db"
    and "list_all sql_int [write_ready o', admission_hold o', admission_reject o', accepted_payload_count o',
      provider_dispatches o', Some (cd_cooldown (fst plan)), Some (cd_streak_after (fst plan))]"
    and "0 \<le> cd_streak_after (fst plan)"
    and "result = terminal_result version lease o' (fst plan) terminal_state now (ticks - cl_monotonic_started_at lease)
       (snd plan) (if cd_circuit_state (fst plan) = OPEN then None else rc_release_evidence (db_circuit db)) (db_state db)"
    and "payload_ok result" and "appendable (db_ledger db)"
  shows "\<exists>db'. complete g lease o' terminal_state now ticks at db = (db', Inr result)"
proof -
  let ?db = "completed_db lease o' (fst plan) terminal_state now (ticks - cl_monotonic_started_at lease) (snd plan) db"
  have a: "appendable (db_ledger ?db)" using assms(11) by (simp add: completed_db_def)
  note p = terminal_payload_ok [OF assms(10)]
  have "''PRIVATE_GOVERNED_CYCLE_TERMINAL'' \<notin> set FORBIDDEN_INTENTS" by (simp add: FORBIDDEN_INTENTS_def)
  from commit_logged_total [OF p [THEN conjunct1] p [THEN conjunct2] this, of at ?db "Inr result :: CycleTerminalResult gres"] a
  obtain db' where c: "commit_logged at ''PRIVATE_GOVERNED_CYCLE_TERMINAL'' (terminal_payload result) ?db (Inr result) = Inr (db', Inr result)"
    by blast
  have "complete g lease o' terminal_state now ticks at db = (db', Inr result)"
    unfolding complete_def
    by (rule transaction_commits)
      (unfold Let_def res_bind_Inr_iff require_Inr_iff raised_Inr Bex_set_option assms(9), intro exI conjI,
        rule assms(1), rule assms(2), rule assms(3), rule assms(4), rule assms(5), rule assms(6), rule assms(7),
        rule assms(8), rule c [unfolded assms(9)])
  then show ?thesis by blast
qed

lemma claim_grants:
  assumes "attached g db"
  shows "(\<exists>lease. snd (claim g owner_id now cycle_id at ticks db) = Inr lease) \<longleftrightarrow>
    strip owner_id \<noteq> [] \<and> \<not> clock_backwards now db \<and> active_cycle db = None \<and>
    (case gs_next_cycle_eligible_at (db_state db) of None \<Rightarrow> True | Some t \<Rightarrow> t \<le> now) \<and>
    now + g_lease_seconds g * 1000000 < MAX_INSTANT \<and> cycle_id \<notin> cy_cycle_id ` set (db_cycles db) \<and>
    appendable (db_ledger db)" (is "?L \<longleftrightarrow> ?R")
proof
  obtain db' r where c: "claim g owner_id now cycle_id at ticks db = (db', r)" by (cases "claim g owner_id now cycle_id at ticks db")
  assume ?L
  with c obtain lease where r: "r = Inr lease" by auto
  from c show ?R
  proof (cases rule: claimE)
    case (recovered active)
    from recover_effect [OF recovered(4)] r show ?thesis by auto
  next
    case (granted version owner)
    have "now + g_lease_seconds g * 1000000 < MAX_INSTANT \<and> cycle_id \<notin> cy_cycle_id ` set (db_cycles db) \<and>
        appendable (db_ledger db)"
      unfolding grant_lease_total [of g version owner now cycle_id at ticks db, symmetric] using granted(6) r by blast
    moreover have "strip owner_id \<noteq> []" using owner_digest_total granted(4) by blast
    ultimately show ?thesis using granted(1-3) by (simp split: option.splits)
  qed (simp_all add: r)
next
  assume R: ?R
  then obtain owner where o: "owner_digest owner_id = Inr owner" using owner_digest_total by blast
  obtain version where v: "policy_version (g_policy g) = Inr version" using assms by (simp add: attached_def)
  from R obtain db' lease where "grant_lease g version owner now cycle_id at ticks db = Inr (db', Inr lease)"
    using grant_lease_total by blast
  with R o v have "claim g owner_id now cycle_id at ticks db = (db', Inr lease)"
    by (auto simp: claim_def claim_body_def transaction_def raised_def split: option.splits)
  then show ?L by simp
qed

section \<open>A concrete governor\<close>

definition sample_version :: string where
  "sample_version = (case policy_version EvaluationCyclePolicy_default of Inr v \<Rightarrow> v | Inl e \<Rightarrow> [])"

definition sample_governor :: DurableCycleGovernor where
  "sample_governor = \<lparr>g_policy = EvaluationCyclePolicy_default, g_lease_seconds = 21600,
     g_operator_reset_verifier = None, g_probe_configured = True\<rparr>"

definition fresh_db :: governor_db where
  "fresh_db = ensure_cycle_governor_schema sample_version [] None"

definition sample_row :: governed_cycle where
  "sample_row = lease_row ''cycle-1'' ''owner-1'' 63871200000001000 63871221600001000 sample_version [''FRESH_STATE''] fresh_db"

definition running_db :: governor_db where
  "running_db = fresh_db\<lparr>db_cycles := [sample_row], db_state := observe 63871200000001000 (db_state fresh_db)\<rparr>"

definition sample_lease :: CycleLease where
  "sample_lease = lease_of_row sample_row 0"

definition idle_outcome :: CycleOutcomeInput where
  "idle_outcome = \<lparr>write_ready = Some 0, provider_dispatches = Some 0, accepted_payload_count = Some 0,
     admission_hold = Some 0, admission_reject = Some 0, systemic_provider_failure_reason = '''',
     writer_dispatch_enabled = True\<rparr>"

lemma sample_policy: "policy_version EvaluationCyclePolicy_default = Inr sample_version"
proof -
  have "wf_pyval (policy_value EvaluationCyclePolicy_default)" "encodable (policy_value EvaluationCyclePolicy_default)"
    by (simp_all add: policy_value_def obj_wf obj_encodable EvaluationCyclePolicy_default_def safe_int_def
        MIN_SAFE_INTEGER_def MAX_SAFE_INTEGER_def MIN_NORMAL_COOLDOWN_SECONDS_def
        MIN_UNPRODUCTIVE_COOLDOWN_SECONDS_def MIN_HEALTH_PROBE_INTERVAL_SECONDS_def)
  then obtain d where "digest_canonical (policy_value EvaluationCyclePolicy_default) = Inr d"
    using digest_canonical_encodable by blast
  then show ?thesis by (simp add: policy_version_def sample_version_def)
qed

lemma sample_governor_policy: "policy_version (g_policy sample_governor) = Inr sample_version"
  by (simp add: sample_governor_def sample_policy)

lemma sample_attached: "gs_policy_version (db_state db) = sample_version \<Longrightarrow> attached sample_governor db"
  by (simp add: attached_def sample_governor_def sample_policy EvaluationCyclePolicy_post_init_def
      EvaluationCyclePolicy_default_def MIN_NORMAL_COOLDOWN_SECONDS_def MIN_UNPRODUCTIVE_COOLDOWN_SECONDS_def
      MIN_HEALTH_PROBE_INTERVAL_SECONDS_def strip_def lstrip_def is_space_def require_def)
    (simp add: sample_policy [unfolded EvaluationCyclePolicy_default_def MIN_NORMAL_COOLDOWN_SECONDS_def
      MIN_UNPRODUCTIVE_COOLDOWN_SECONDS_def MIN_HEALTH_PROBE_INTERVAL_SECONDS_def])

lemma fresh_attached: "attached sample_governor fresh_db"
  by (rule sample_attached) (simp add: fresh_db_def ensure_cycle_governor_schema_def)

lemma running_attached: "attached sample_governor running_db"
  by (rule sample_attached) (simp add: running_db_def observe_def fresh_db_def ensure_cycle_governor_schema_def)

lemma fresh_ok: "governor_ok fresh_db"
  by (simp add: fresh_db_def governor_ok_parts ensure_cycle_governor_schema_def cycles_ok_def circuit_ok_def
      probes_ok_def cooldown_ok_def active_cycle_def chain_ok_def)

lemma running_ok: "governor_ok running_db"
  unfolding running_db_def sample_row_def
  using granted_ok [OF fresh_ok, of 63871200000001000 "''cycle-1''" "''owner-1''"]
  by (simp add: fresh_db_def ensure_cycle_governor_schema_def clock_backwards_def active_cycle_def)

lemmas sample_defs = sample_governor_def fresh_db_def ensure_cycle_governor_schema_def running_db_def sample_row_def
  lease_row_def sample_lease_def lease_of_row_def idle_outcome_def observe_def EvaluationCyclePolicy_default_def
  MIN_NORMAL_COOLDOWN_SECONDS_def MIN_UNPRODUCTIVE_COOLDOWN_SECONDS_def MIN_HEALTH_PROBE_INTERVAL_SECONDS_def

lemma sample_plan:
  "completion_plan sample_governor sample_lease idle_outcome 63871200000002000 50 =
     Inr (decide EvaluationCyclePolicy_default sample_lease idle_outcome IDLE_QUALIFIED_ZERO '''', 63871200300002000 :: int)"
  by (simp add: completion_plan_def classify_def raised_def sample_defs decide_def add_seconds_def MAX_INSTANT_def)

lemma sample_complete:
  "\<exists>db' result. complete sample_governor sample_lease idle_outcome ''COMPLETED'' 63871200000002000 50 ''t'' running_db = (db', Inr result)
     \<and> tr_next_cycle_eligible_at result = 63871200300002000"
proof -
  let ?plan = "(decide EvaluationCyclePolicy_default sample_lease idle_outcome IDLE_QUALIFIED_ZERO '''', 63871200300002000 :: int)"
  let ?result = "terminal_result sample_version sample_lease idle_outcome (fst ?plan) ''COMPLETED'' 63871200000002000
    (50 - cl_monotonic_started_at sample_lease) (snd ?plan)
    (if cd_circuit_state (fst ?plan) = OPEN then None else rc_release_evidence (db_circuit running_db)) (db_state running_db)"
  have "\<exists>db'. complete sample_governor sample_lease idle_outcome ''COMPLETED'' 63871200000002000 50 ''t'' running_db = (db', Inr ?result)"
  proof (rule complete_returns [OF sample_plan])
    show "policy_version (g_policy sample_governor) = Inr sample_version" by (rule sample_governor_policy)
    show "find_cycle (cl_cycle_id sample_lease) running_db = Some sample_row"
      by (simp add: find_cycle_def sample_defs)
    show "payload_ok ?result"
      by (simp add: payload_ok_def terminal_result_def decide_def sample_defs elapsed_milliseconds_def safe_int_def
          MIN_SAFE_INTEGER_def MAX_SAFE_INTEGER_def)
  qed (simp_all add: sample_defs clock_backwards_def sql_int_def decide_def appendable_def)
  moreover have "tr_next_cycle_eligible_at ?result = 63871200300002000" by (simp add: terminal_result_def)
  ultimately show ?thesis by blast
qed

definition ended_db :: governor_db where
  "ended_db = completed_db sample_lease idle_outcome
     (decide EvaluationCyclePolicy_default sample_lease idle_outcome IDLE_QUALIFIED_ZERO '''') ''COMPLETED'' 63871200000002000 50 63871200300002000
     running_db"

lemma ended_facts:
  "governor_ok ended_db" "attached sample_governor ended_db" "''cycle-1'' \<in> cy_cycle_id ` set (db_cycles ended_db)"
  "active_cycle ended_db = None"
proof -
  have f: "find_cycle (cl_cycle_id sample_lease) running_db = Some sample_row" "\<not> clock_backwards 63871200000002000 running_db"
    "cy_owner_digest sample_row = cl_owner_digest sample_lease" "cy_lease_state sample_row = ACTIVE"
    by (simp_all add: find_cycle_def sample_defs clock_backwards_def)
  show "governor_ok ended_db" unfolding ended_db_def
    by (rule completed_ok [OF running_ok f(2) _ f(1,3,4)]) (simp add: decide_def sample_defs)
  show "active_cycle ended_db = None" unfolding ended_db_def
    by (rule completed_ends [OF running_ok [unfolded governor_ok_parts, THEN conjunct1] f(1,3,4)])
  show "attached sample_governor ended_db"
    by (rule sample_attached) (simp add: ended_db_def completed_db_def sample_defs)
  show "''cycle-1'' \<in> cy_cycle_id ` set (db_cycles ended_db)"
    by (simp add: ended_db_def completed_db_def sample_defs terminal_row_def)
qed

lemma ended_claim:
  "\<exists>db' lease. claim sample_governor ''owner'' 63871200300002000 ''cycle-2'' ''t'' 0 ended_db = (db', Inr lease)"
proof -
  have "''cycle-2'' \<notin> cy_cycle_id ` set (db_cycles ended_db)" "\<not> clock_backwards 63871200300002000 ended_db"
      "gs_next_cycle_eligible_at (db_state ended_db) = Some 63871200300002000" "appendable (db_ledger ended_db)"
    by (simp_all add: ended_db_def completed_db_def sample_defs terminal_row_def clock_backwards_def appendable_def)
  then have "\<exists>lease. snd (claim sample_governor ''owner'' 63871200300002000 ''cycle-2'' ''t'' 0 ended_db) = Inr lease"
    unfolding claim_grants [OF ended_facts(2)]
    by (simp add: ended_facts(4) strip_def lstrip_def is_space_def sample_governor_def MAX_INSTANT_def)
  then show ?thesis by (metis prod.collapse)
qed

section \<open>Properties\<close>

text \<open>
  C14. Every store that any interleaving of governor processes can reach from a fresh one is
  consistent: at most one lease is active, cycle and probe identifiers are unique, the circuit's columns
  agree with its state, no recorded instant lies after the last clock observation, a cooldown is set
  after every ended cycle, counters are not negative, and the ledger is an intact hash chain.
\<close>

theorem governor_reachable_consistent:
  assumes "governor_step\<^sup>*\<^sup>* (ensure_cycle_governor_schema version l None) db" and "chain_ok l"
  shows "governor_ok db"
proof (rule governor.run_keeps [OF assms(1)])
  show "governor_ok (ensure_cycle_governor_schema version l None)"
    using assms(2)
    by (simp add: governor_ok_parts ensure_cycle_governor_schema_def cycles_ok_def circuit_ok_def probes_ok_def
        cooldown_ok_def active_cycle_def)
qed

theorem governor_reachable_consistent_witness:
  "governor_ok (ensure_cycle_governor_schema ''v'' [] None)"
  by (rule governor_reachable_consistent [of "''v''" "[]"]) (simp_all add: chain_ok_def)

text \<open>
  History is append-only under every interleaving: the last observed instant and the end of the
  cooldown never move back, the old ledger is a prefix of the new one, cycles are never removed or
  reordered, and the row of a cycle that has ended never changes again.
\<close>

theorem governor_history_grows:
  assumes "governor_ok db" and "governor_step\<^sup>*\<^sup>* db db'"
  shows "later (gs_last_observed (db_state db)) (gs_last_observed (db_state db')) \<and>
    later (gs_next_cycle_eligible_at (db_state db)) (gs_next_cycle_eligible_at (db_state db')) \<and>
    take (length (db_ledger db)) (db_ledger db') = db_ledger db \<and>
    take (length (db_cycles db)) (map cy_cycle_id (db_cycles db')) = map cy_cycle_id (db_cycles db) \<and>
    {r \<in> set (db_cycles db). cy_lease_state r \<noteq> ACTIVE} \<subseteq> set (db_cycles db')"
  using governor.run_advances [OF assms(2,1)] by (auto simp: advances_def)

theorem governor_history_grows_witness:
  "take 1 (map cy_cycle_id (db_cycles (fst (claim sample_governor ''other'' 63871200000002000 ''cycle-2'' ''t'' 0 running_db))))
     = [''cycle-1'']"
proof -
  have "governor_step running_db (fst (claim sample_governor ''other'' 63871200000002000 ''cycle-2'' ''t'' 0 running_db))"
    using step_claim [OF running_attached] by (metis prod.collapse)
  from governor_history_grows [OF running_ok r_into_rtranclp [of governor_step, OF this]]
  show ?thesis by (simp add: running_db_def sample_row_def lease_row_def)
qed

text \<open>
  C15. Who gets a lease: a claim is granted exactly when the owner is not blank, the clock has not gone
  backwards, no lease is active, the cooldown has passed, the lease ends before the year 10000, the
  cycle identifier is fresh and the ledger's head has no successor.
\<close>

theorem claim_granted_iff:
  assumes "attached g db"
  shows "(\<exists>lease. snd (claim g owner_id now cycle_id at ticks db) = Inr lease) \<longleftrightarrow>
    strip owner_id \<noteq> [] \<and> \<not> clock_backwards now db \<and> active_cycle db = None \<and>
    (case gs_next_cycle_eligible_at (db_state db) of None \<Rightarrow> True | Some t \<Rightarrow> t \<le> now) \<and>
    now + g_lease_seconds g * 1000000 < MAX_INSTANT \<and> cycle_id \<notin> cy_cycle_id ` set (db_cycles db) \<and>
    appendable (db_ledger db)"
  by (rule claim_grants [OF assms])

theorem claim_granted_iff_witness:
  "\<exists>lease. snd (claim sample_governor ''owner'' 63871200000000005 ''cycle-1'' ''t'' 0 fresh_db) = Inr lease"
  using claim_granted_iff [OF fresh_attached, of "''owner''" 63871200000000005 "''cycle-1''" "''t''" 0]
  by (simp add: strip_def lstrip_def is_space_def fresh_db_def ensure_cycle_governor_schema_def clock_backwards_def
      active_cycle_def appendable_def sample_governor_def MAX_INSTANT_def)

text \<open>Operations with a lease that is not the active one of its owner raise and change nothing.\<close>

lemma ended_lease_refused:
  assumes "governor_ok db" and "r \<in> set (db_cycles db)" and "cy_cycle_id r = cl_cycle_id lease"
    and "cy_lease_state r \<noteq> ACTIVE"
  shows "\<exists>e. complete g lease o' terminal_state now ticks at db = (db, Inl e)"
    and "\<exists>e. renew g lease now at db = (db, Inl e)"
proof -
  have f: "find_cycle (cl_cycle_id lease) db = Some r"
    using find_cycle_unique [OF governor_ok_parts [THEN iffD1, OF assms(1), THEN conjunct1] assms(2)] assms(3) by simp
  obtain db1 x where c: "complete g lease o' terminal_state now ticks at db = (db1, x)" by fastforce
  have "\<not> (db1 \<noteq> db \<or> (\<exists>y. x = Inr y))" using complete_effect [OF c] f assms(4) by (metis option.inject)
  then show "\<exists>e. complete g lease o' terminal_state now ticks at db = (db, Inl e)" using c by (cases x) auto
  obtain db2 y where n: "renew g lease now at db = (db2, y)" by fastforce
  have "\<not> (db2 \<noteq> db \<or> (\<exists>z. y = Inr z))" using renew_effect [OF n] f assms(4) by (metis option.inject)
  then show "\<exists>e. renew g lease now at db = (db, Inl e)" using n by (cases y) auto
qed

lemma claim_success:
  assumes "claim g owner_id now cycle_id at ticks db = (db', Inr lease)"
  obtains t version owner row payload where "\<not> clock_backwards now db" "active_cycle db = None"
    "\<And>u. gs_next_cycle_eligible_at (db_state db) = Some u \<Longrightarrow> u \<le> now"
    "row = lease_row cycle_id owner now t version (restart_observations db) db" "lease = lease_of_row row ticks"
    "commits (db\<lparr>db_cycles := db_cycles db @ [row], db_state := observe now (db_state db)\<rparr>)
       ''PRIVATE_GOVERNED_CYCLE_LEASE_CLAIMED'' payload db'"
  using assms
proof (cases rule: claimE)
  case (recovered active)
  from recover_effect [OF recovered(4)] show ?thesis by auto
next
  case (granted version owner)
  from grant_effect [OF granted(6)] show ?thesis
  proof cases
    case (1 t row payload)
    show ?thesis using that [OF granted(1-3) 1(3) _ 1(6)] 1(5) by simp
  qed
qed simp_all

text \<open>
  C16. A superseded owner is fenced off: once a new lease has been granted, whatever steps follow, every
  lease granted earlier on that store can neither be renewed nor completed; the attempt raises and
  leaves the store untouched.
\<close>

theorem superseded_lease_is_fenced:
  assumes "governor_ok db" and "attached g db" and "claim g owner_id now cycle_id at ticks db = (db1, Inr lease)"
    and "governor_step\<^sup>*\<^sup>* db1 db2" and "cl_cycle_id old \<in> cy_cycle_id ` set (db_cycles db)"
  shows "(\<exists>e. complete g' old o' terminal_state now' ticks' at' db2 = (db2, Inl e)) \<and>
    (\<exists>e. renew g' old now' at' db2 = (db2, Inl e))"
proof -
  have k: "governor_ok db1" "advances db db1" using claim_keeps [OF assms(2,1,3)] by (simp_all add: keeps_def)
  have k2: "governor_ok db2" "advances db db2"
    using governor.run_keeps [OF assms(4) k(1)] governor.run_advances [OF assms(4) k(1)] advances_trans [OF k(2)] by blast+
  from assms(5) obtain r where r: "r \<in> set (db_cycles db)" "cy_cycle_id r = cl_cycle_id old" by force
  have "active_cycle db = None" using assms(3) by (rule claim_success)
  with r have na: "cy_lease_state r \<noteq> ACTIVE" by (simp add: active_cycle_None)
  with r(1) k2(2) have "r \<in> set (db_cycles db2)" by (simp add: advances_def)
  with ended_lease_refused [OF k2(1) _ r(2) na] show ?thesis by blast
qed

theorem superseded_lease_is_fenced_witness:
  "\<exists>db' lease. claim sample_governor ''owner'' 63871200300002000 ''cycle-2'' ''t'' 0 ended_db = (db', Inr lease) \<and>
     (\<exists>e. renew sample_governor sample_lease 63871200300003000 ''t'' db' = (db', Inl e))"
proof -
  obtain db' lease where c: "claim sample_governor ''owner'' 63871200300002000 ''cycle-2'' ''t'' 0 ended_db = (db', Inr lease)"
    using ended_claim by blast
  have "cl_cycle_id sample_lease \<in> cy_cycle_id ` set (db_cycles ended_db)"
    using ended_facts(3) by (simp add: sample_lease_def lease_of_row_def sample_row_def lease_row_def)
  from superseded_lease_is_fenced [OF ended_facts(1,2) c rtranclp.rtrancl_refl this] c show ?thesis by blast
qed

text \<open>
  C17. The cooldown is enforced under every interleaving: after a cycle has completed, no claim of any
  process is granted before the instant the result named, which is at least 300 seconds later.
\<close>

theorem cooldown_is_enforced:
  assumes "governor_ok db" and "attached g db"
    and "complete g lease o' terminal_state now ticks at db = (db1, Inr result)" and "governor_step\<^sup>*\<^sup>* db1 db2"
    and "now' < tr_next_cycle_eligible_at result"
  shows "now + 300 * 1000000 \<le> tr_next_cycle_eligible_at result \<and>
    (\<exists>e. snd (claim g' owner_id now' cycle_id at' ticks' db2) = Inl e)"
proof -
  have k: "governor_ok db1" using complete_keeps [OF assms(2,1,3)] by (simp add: keeps_def)
  have "db1 \<noteq> db \<or> (\<exists>x. (Inr result :: CycleTerminalResult gres) = Inr x)" by blast
  from complete_effect [OF assms(3) this] obtain plan where p: "completion_plan g lease o' now ticks = Inr plan"
    and n: "gs_next_cycle_eligible_at (db_state db1) = Some (snd plan)" and t: "tr_next_cycle_eligible_at result = snd plan"
  proof cases
    case (1 plan version s res)
    have "gs_next_cycle_eligible_at (db_state db1) = Some (snd plan)"
      using commits_tables [OF 1(10)] by (simp add: completed_db_def)
    moreover have "tr_next_cycle_eligible_at result = snd plan" using 1(8,9) by (simp add: terminal_result_def)
    ultimately show ?thesis using that 1(1) by blast
  qed
  have "later (Some (snd plan)) (gs_next_cycle_eligible_at (db_state db2))"
    using governor.run_advances [OF assms(4) k] n by (simp add: advances_def)
  then obtain u where u: "gs_next_cycle_eligible_at (db_state db2) = Some u" "snd plan \<le> u"
    by (cases "gs_next_cycle_eligible_at (db_state db2)") (simp_all add: later_def seen_def)
  obtain db3 r where c: "claim g' owner_id now' cycle_id at' ticks' db2 = (db3, r)" by fastforce
  have "\<exists>e. r = Inl e"
  proof (cases r)
    case (Inr l)
    with claim_success [of g' owner_id now' cycle_id at' ticks' db2 db3 l] c u assms(5) t show ?thesis by force
  qed simp
  with c plan_cooldown [OF assms(2) p] t show ?thesis by simp
qed

theorem cooldown_is_enforced_witness:
  "\<exists>db' result. complete sample_governor sample_lease idle_outcome ''COMPLETED'' 63871200000002000 50 ''t'' running_db = (db', Inr result)
     \<and> (\<exists>e. snd (claim sample_governor ''owner'' 63871200300001999 ''cycle-2'' ''t'' 0 db') = Inl e)"
proof -
  obtain db' result where c: "complete sample_governor sample_lease idle_outcome ''COMPLETED'' 63871200000002000 50 ''t'' running_db = (db', Inr result)"
    and t: "tr_next_cycle_eligible_at result = 63871200300002000" using sample_complete by blast
  have "63871200300001999 < tr_next_cycle_eligible_at result" using t by simp
  from cooldown_is_enforced [OF running_ok running_attached c rtranclp.rtrancl_refl this] c show ?thesis by blast
qed

definition positive :: "int option \<Rightarrow> bool" where
  "positive m = (case m of None \<Rightarrow> False | Some n \<Rightarrow> 0 < n)"

lemma complete_success:
  assumes "complete g lease o' terminal_state now ticks at db = (db', Inr result)"
  obtains d t c reason where "classify lease o' = Inr (c, reason)" "d = decide (g_policy g) lease o' c reason"
    "t = now + cd_cooldown d * 1000000" "tr_outcome_class result = cd_outcome_class d"
    "tr_streak_after result = cd_streak_after d" "tr_cooldown_seconds result = cd_cooldown d"
    "tr_next_cycle_eligible_at result = t" "tr_circuit_state result = cd_circuit_state d"
    "tr_circuit_open_reason result = cd_circuit_reason d"
    "db_state db' = (db_state db)\<lparr>gs_next_cycle_eligible_at := Some t, gs_last_observed := Some now,
       gs_streak := cd_streak_after d\<rparr>"
    "db_circuit db' = (if cd_circuit_state d = OPEN then open_circuit (cd_circuit_reason d) now (db_circuit db)
       else db_circuit db)"
proof -
  have "db' \<noteq> db \<or> (\<exists>x. (Inr result :: CycleTerminalResult gres) = Inr x)" by blast
  from complete_effect [OF assms this] show thesis
  proof cases
    case (1 plan version s res)
    obtain d t where plan: "plan = (d, t)" by (cases plan)
    obtain c reason where c: "classify lease o' = Inr (c, reason)" "d = decide (g_policy g) lease o' c reason"
        "t = now + cd_cooldown d * 1000000"
      using 1(1) unfolding plan completion_plan_Inr by blast
    have "db_state db' = (db_state db)\<lparr>gs_next_cycle_eligible_at := Some t, gs_last_observed := Some now,
        gs_streak := cd_streak_after d\<rparr>"
      "db_circuit db' = (if cd_circuit_state d = OPEN then open_circuit (cd_circuit_reason d) now (db_circuit db)
        else db_circuit db)"
      using commits_tables [OF 1(10)] by (simp_all add: plan completed_db_def)
    with 1(8,9) show thesis by (intro that [OF c]) (simp_all add: plan terminal_result_def)
  qed
qed

text \<open>
  What a completed cycle decides, on every branch: its outcome class, the new streak, the cooldown,
  and the circuit state, with the store agreeing with the returned result.
\<close>

theorem completion_decides:
  assumes "complete g lease o' terminal_state now ticks at db = (db', Inr result)"
  shows "tr_outcome_class result =
      (if systemic_provider_failure_reason o' \<noteq> [] then SYSTEMIC_PROVIDER_FAILURE
       else if positive (accepted_payload_count o') then PRODUCTIVE
       else if positive (provider_dispatches o') then UNPRODUCTIVE_PROVIDER
       else if \<not> writer_dispatch_enabled o' \<or> write_ready o' = Some 0 then IDLE_QUALIFIED_ZERO
       else SYSTEMIC_PROVIDER_FAILURE) \<and>
    tr_streak_after result =
      (case tr_outcome_class result of
         PRODUCTIVE \<Rightarrow> 0 | UNPRODUCTIVE_PROVIDER \<Rightarrow> cl_streak_before lease + 1
       | IDLE_QUALIFIED_ZERO \<Rightarrow> cl_streak_before lease
       | SYSTEMIC_PROVIDER_FAILURE \<Rightarrow> if accepted_payload_count o' \<in> {None, Some 0} then cl_streak_before lease else 0) \<and>
    tr_cooldown_seconds result =
      (if tr_outcome_class result = UNPRODUCTIVE_PROVIDER then unproductive_cooldown_seconds (g_policy g)
       else normal_cooldown_seconds (g_policy g)) \<and>
    (tr_circuit_state result = OPEN \<longleftrightarrow> cl_circuit_state lease = OPEN \<or>
       tr_outcome_class result = SYSTEMIC_PROVIDER_FAILURE \<or>
       tr_outcome_class result = UNPRODUCTIVE_PROVIDER \<and> 2 \<le> tr_streak_after result) \<and>
    gs_streak (db_state db') = tr_streak_after result \<and>
    gs_next_cycle_eligible_at (db_state db') = Some (now + tr_cooldown_seconds result * 1000000)"
  using assms
proof (rule complete_success)
  fix d t c reason
  assume c: "classify lease o' = Inr (c, reason)" and d: "d = decide (g_policy g) lease o' c reason"
    and r: "t = now + cd_cooldown d * 1000000" "tr_outcome_class result = cd_outcome_class d"
      "tr_streak_after result = cd_streak_after d" "tr_cooldown_seconds result = cd_cooldown d"
      "tr_circuit_state result = cd_circuit_state d"
      "db_state db' = (db_state db)\<lparr>gs_next_cycle_eligible_at := Some t, gs_last_observed := Some now,
       gs_streak := cd_streak_after d\<rparr>"
  have oc: "cd_outcome_class d = c" unfolding d by (cases c) (simp_all add: decide_def Let_def)
  have "c = (if systemic_provider_failure_reason o' \<noteq> [] then SYSTEMIC_PROVIDER_FAILURE
       else if positive (accepted_payload_count o') then PRODUCTIVE
       else if positive (provider_dispatches o') then UNPRODUCTIVE_PROVIDER
       else if \<not> writer_dispatch_enabled o' \<or> write_ready o' = Some 0 then IDLE_QUALIFIED_ZERO
       else SYSTEMIC_PROVIDER_FAILURE)"
    using c by (auto simp: classify_def positive_def split: option.splits if_splits)
  moreover have "cd_streak_after d = (case c of
         PRODUCTIVE \<Rightarrow> 0 | UNPRODUCTIVE_PROVIDER \<Rightarrow> cl_streak_before lease + 1
       | IDLE_QUALIFIED_ZERO \<Rightarrow> cl_streak_before lease
       | SYSTEMIC_PROVIDER_FAILURE \<Rightarrow> if accepted_payload_count o' \<in> {None, Some 0} then cl_streak_before lease else 0)"
    unfolding d by (cases c) (simp_all add: decide_def Let_def)
  moreover have "cd_circuit_state d = OPEN \<longleftrightarrow> cl_circuit_state lease = OPEN \<or> c = SYSTEMIC_PROVIDER_FAILURE \<or>
       c = UNPRODUCTIVE_PROVIDER \<and> 2 \<le> cd_streak_after d"
    unfolding d by (cases c) (auto simp: decide_def Let_def)
  moreover have "cd_cooldown d = (if c = UNPRODUCTIVE_PROVIDER then unproductive_cooldown_seconds (g_policy g)
       else normal_cooldown_seconds (g_policy g))"
    unfolding d by (rule decide_cooldown)
  ultimately show ?thesis unfolding r oc by (intro conjI) simp_all
qed

theorem completion_decides_witness:
  "\<exists>db' result. complete sample_governor sample_lease idle_outcome ''COMPLETED'' 63871200000002000 50 ''t'' running_db = (db', Inr result)
     \<and> tr_outcome_class result = IDLE_QUALIFIED_ZERO \<and> tr_cooldown_seconds result = 300"
proof -
  obtain db' result where c: "complete sample_governor sample_lease idle_outcome ''COMPLETED'' 63871200000002000 50 ''t'' running_db = (db', Inr result)"
    using sample_complete by blast
  have "tr_outcome_class result = IDLE_QUALIFIED_ZERO \<and> tr_cooldown_seconds result = 300"
    using completion_decides [OF c] by (simp add: positive_def idle_outcome_def sample_governor_def
        EvaluationCyclePolicy_default_def MIN_NORMAL_COOLDOWN_SECONDS_def)
  with c show ?thesis by blast
qed

text \<open>A completion on the running store, for any lease on its one cycle.\<close>

lemma running_complete:
  assumes "completion_plan sample_governor lease o' 63871200000002000 50 = Inr plan"
    and "cl_cycle_id lease = ''cycle-1''" and "cl_owner_digest lease = ''owner-1''" and "cl_monotonic_started_at lease = 0"
    and "cd_circuit_state (fst plan) = OPEN"
    and "list_all sql_int [write_ready o', admission_hold o', admission_reject o', accepted_payload_count o',
      provider_dispatches o', Some (cd_cooldown (fst plan)), Some (cd_streak_after (fst plan))]"
    and "0 \<le> cd_streak_after (fst plan)"
    and "payload_ok (terminal_result sample_version lease o' (fst plan) ''COMPLETED'' 63871200000002000 50 (snd plan) None (db_state running_db))"
  shows "\<exists>db' result. complete sample_governor lease o' ''COMPLETED'' 63871200000002000 50 ''t'' running_db = (db', Inr result)"
proof -
  have "\<exists>db'. complete sample_governor lease o' ''COMPLETED'' 63871200000002000 50 ''t'' running_db =
      (db', Inr (terminal_result sample_version lease o' (fst plan) ''COMPLETED'' 63871200000002000 50 (snd plan) None (db_state running_db)))"
    by (rule complete_returns [OF assms(1) sample_governor_policy, where s = sample_row])
      (use assms(2-8) in \<open>simp_all add: find_cycle_def sample_defs clock_backwards_def appendable_def\<close>)
  then show ?thesis by blast
qed

definition unproductive_outcome :: CycleOutcomeInput where
  "unproductive_outcome = \<lparr>write_ready = Some 1, provider_dispatches = Some 1, accepted_payload_count = Some 0,
     admission_hold = Some 0, admission_reject = Some 0, systemic_provider_failure_reason = '''',
     writer_dispatch_enabled = True\<rparr>"

lemma second_unproductive_completes:
  "\<exists>db' result. complete sample_governor (sample_lease\<lparr>cl_streak_before := 1\<rparr>) unproductive_outcome ''COMPLETED'' 63871200000002000 50 ''t''
     running_db = (db', Inr result)"
proof (rule running_complete)
  let ?d = "decide EvaluationCyclePolicy_default (sample_lease\<lparr>cl_streak_before := 1\<rparr>) unproductive_outcome UNPRODUCTIVE_PROVIDER ''''"
  show "completion_plan sample_governor (sample_lease\<lparr>cl_streak_before := 1\<rparr>) unproductive_outcome 63871200000002000 50 = Inr (?d, 63871200900002000)"
    by (simp add: completion_plan_def classify_def raised_def sample_defs unproductive_outcome_def decide_def add_seconds_def MAX_INSTANT_def)
  show "payload_ok (terminal_result sample_version (sample_lease\<lparr>cl_streak_before := 1\<rparr>) unproductive_outcome (fst (?d, 63871200900002000))
      ''COMPLETED'' 63871200000002000 50 (snd (?d, 63871200900002000)) None (db_state running_db))"
    by (simp add: payload_ok_def terminal_result_def decide_def sample_defs unproductive_outcome_def elapsed_milliseconds_def
        safe_int_def MIN_SAFE_INTEGER_def MAX_SAFE_INTEGER_def)
qed (simp_all add: sample_defs unproductive_outcome_def sql_int_def decide_def)

text \<open>
  C18. The circuit breaker: when a cycle that dispatched to the provider without an accepted payload
  follows another such cycle, then whatever steps follow, as long as no release is recorded in the
  ledger, no lease that any process is granted permits writer dispatch.
\<close>

theorem second_unproductive_cycle_blocks_writer:
  assumes "governor_ok db" and "attached g db"
    and "complete g lease o' terminal_state now ticks at db = (db1, Inr result)"
    and "1 \<le> cl_streak_before lease" and "tr_outcome_class result = UNPRODUCTIVE_PROVIDER"
    and "governor_step\<^sup>*\<^sup>* db1 db2" and "\<not> released_since db1 db2"
  shows "case snd (claim g' owner_id now' cycle_id at' ticks' db2) of
      Inl e \<Rightarrow> True | Inr lease' \<Rightarrow> \<not> cl_writer_dispatch_permitted lease' \<and> cl_circuit_state lease' = OPEN"
proof -
  have k: "governor_ok db1" using complete_keeps [OF assms(2,1,3)] by (simp add: keeps_def)
  have "rc_state (db_circuit db1) = OPEN"
    using assms(3)
  proof (rule complete_success)
    fix d t c reason
    assume d: "d = decide (g_policy g) lease o' c reason" and r: "tr_outcome_class result = cd_outcome_class d"
      and c: "db_circuit db1 = (if cd_circuit_state d = OPEN then open_circuit (cd_circuit_reason d) now (db_circuit db)
        else db_circuit db)"
    have "c = UNPRODUCTIVE_PROVIDER" using r assms(5) unfolding d by (cases c) (simp_all add: decide_def Let_def)
    with d assms(4) have "cd_circuit_state d = OPEN" by (simp add: decide_def Let_def)
    with c show ?thesis by (simp add: open_circuit_def)
  qed
  from open_stays_open [OF assms(6) k this] assms(7) have o2: "rc_state (db_circuit db2) = OPEN" by blast
  show ?thesis
  proof (cases "claim g' owner_id now' cycle_id at' ticks' db2")
    case (Pair db3 r)
    show ?thesis
    proof (cases r)
      case (Inr lease')
      from Pair [unfolded Inr] show ?thesis
        by (rule claim_success) (simp add: Pair Inr lease_of_row_def lease_row_def o2)
    qed (simp add: Pair)
  qed
qed

theorem second_unproductive_cycle_blocks_writer_witness:
  "\<exists>db1 result. complete sample_governor (sample_lease\<lparr>cl_streak_before := 1\<rparr>) unproductive_outcome ''COMPLETED'' 63871200000002000 50 ''t''
     running_db = (db1, Inr result) \<and>
     (case snd (claim sample_governor ''owner'' 63871200900002000 ''cycle-2'' ''u'' 0 db1) of
      Inl e \<Rightarrow> True | Inr lease' \<Rightarrow> \<not> cl_writer_dispatch_permitted lease' \<and> cl_circuit_state lease' = OPEN)"
proof -
  obtain db1 result where c: "complete sample_governor (sample_lease\<lparr>cl_streak_before := 1\<rparr>) unproductive_outcome ''COMPLETED''
      63871200000002000 50 ''t'' running_db = (db1, Inr result)" using second_unproductive_completes by blast
  have "tr_outcome_class result = UNPRODUCTIVE_PROVIDER"
    using c by (rule complete_success)
      (auto simp: classify_def unproductive_outcome_def decide_def Let_def split: outcome_class.splits if_splits)
  from second_unproductive_cycle_blocks_writer [OF running_ok running_attached c _ this rtranclp.rtrancl_refl] c
  show ?thesis by (fastforce simp: released_since_def)
qed

end
