(* ===== verification/Cycle_Governor_Circuit.thy ===== *)
theory Cycle_Governor_Circuit
  imports Cycle_Governor_Props
begin

text \<open>
  The properties of the writer circuit and of failing operations: how an open circuit closes, what a
  health probe must prove, that a stale lease is recovered, that a failed operation changes nothing, and
  that a completion reopens a circuit that was released while its cycle was running.
\<close>

section \<open>Failed operations\<close>

text \<open>An operation whose every commit is followed by a return is unchanged when it raises.\<close>

definition atomic :: "governor_db \<Rightarrow> governor_db \<times> 'a gres \<Rightarrow> bool" where
  "atomic db out = (case snd out of Inl e \<Rightarrow> fst out = db | Inr x \<Rightarrow> True)"

lemma atomicI: "(\<And>db' e. out = (db', Inl e) \<Longrightarrow> db' \<noteq> db \<Longrightarrow> False) \<Longrightarrow> atomic db out"
  by (cases out; cases "snd out") (auto simp: atomic_def)

lemma release_atomic: "atomic db (release_circuit g bound kind evidence now at db)"
  by (rule atomicI) (erule release_effect, simp_all)

lemma renew_atomic: "atomic db (renew g lease now at db)"
  by (rule atomicI) (erule renew_effect, simp_all)

lemma complete_atomic: "atomic db (complete g lease o' terminal_state now ticks at db)"
  by (rule atomicI) (erule complete_effect, simp_all)

lemma reserve_atomic: "atomic db (reserve_probe g bound now at db)"
  by (rule atomicI) (erule reserve_effect, simp_all)

text \<open>Nothing but the refusal counters and the clock observation differs.\<close>

definition only_counters :: "governor_db \<Rightarrow> governor_db \<Rightarrow> bool" where
  "only_counters db db' \<longleftrightarrow> db_cycles db' = db_cycles db \<and> db_circuit db' = db_circuit db \<and>
     db_probes db' = db_probes db \<and> db_ledger db' = db_ledger db \<and>
     gs_next_cycle_eligible_at (db_state db') = gs_next_cycle_eligible_at (db_state db) \<and>
     gs_streak (db_state db') = gs_streak (db_state db) \<and>
     gs_policy_version (db_state db') = gs_policy_version (db_state db)"

definition stale_recovery :: "gov_error \<Rightarrow> bool" where
  "stale_recovery e = (case e of CycleNotEligible why _ _ \<Rightarrow> why = ''STALE_LEASE_RECOVERED'' | _ \<Rightarrow> False)"

text \<open>
  Failed operations are atomic: a renewal, a completion, an ambiguous failure report, a probe
  reservation or an operator reset that raises leaves the store as it was; and a claim that raises
  changes only the refusal counters and the clock observation, unless it recovered a stale lease.
\<close>

theorem failed_operations_change_nothing:
  "atomic db (renew g lease now at db) \<and> atomic db (complete g lease o' terminal_state now ticks at db) \<and>
   atomic db (fail_ambiguous g lease reason now ticks at db) \<and> atomic db (reserve_probe g bound now at db) \<and>
   atomic db (authorised_operator_reset g bound version authorised_by reference requested_at now at db) \<and>
   (case claim g owner_id now cycle_id at ticks db of
      (db', Inl e) \<Rightarrow> stale_recovery e \<or> only_counters db db' | (db', Inr l) \<Rightarrow> True)"
proof (intro conjI)
  show "atomic db (fail_ambiguous g lease reason now ticks at db)"
    using complete_atomic by (simp add: fail_ambiguous_def) (simp add: atomic_def)
  show "atomic db (authorised_operator_reset g bound version authorised_by reference requested_at now at db)"
    by (cases "reset_request g bound version authorised_by reference requested_at")
      (simp_all add: authorised_operator_reset_def release_atomic, simp add: atomic_def)
  obtain db' r where c: "claim g owner_id now cycle_id at ticks db = (db', r)" by fastforce
  then show "case claim g owner_id now cycle_id at ticks db of
      (db', Inl e) \<Rightarrow> stale_recovery e \<or> only_counters db db' | (db', Inr l) \<Rightarrow> True"
  proof (cases rule: claimE)
    case (recovered active)
    from recover_effect [OF recovered(4)] show ?thesis by cases (simp add: c stale_recovery_def)
  next
    case (granted version owner)
    from grant_effect [OF granted(6)] show ?thesis by cases (simp add: c)
  qed (simp_all add: c only_counters_def refuse_def Let_def)
qed (rule renew_atomic complete_atomic reserve_atomic)+

section \<open>The health probe\<close>

lemma release_open_reason:
  assumes "reserve_probe g bound now at db = (db', r)"
  shows "rc_state (db_circuit db') = rc_state (db_circuit db) \<and> rc_open_reason (db_circuit db') = rc_open_reason (db_circuit db)
    \<and> db_cycles db' = db_cycles db"
proof (cases "db' = db")
  case False
  then have "db' \<noteq> db \<or> (\<exists>x. r = Inr x)" by blast
  from reserve_effect [OF assms this] show ?thesis
    by cases (drule commits_tables, simp add: reserved_db_def)
qed simp

lemma finish_open_reason:
  assumes "finish_probe g probe_id bound now call terminal_now at db = (db', r)"
  shows "db_circuit db' = db_circuit db \<and> db_cycles db' = db_cycles db"
proof (cases "db' = db")
  case False
  then have "db' \<noteq> db \<or> (\<exists>x. r = Inr x)" by blast
  from finish_effect [OF assms this] show ?thesis
    by cases (drule commits_tables, simp add: finished_db_def)
qed simp

lemma finish_needs_proof:
  assumes "finish_probe g probe_id bound now call terminal_now at db = (db', Inr evidence)"
  shows "\<exists>p. call = Returned p \<and> probe_passed p"
proof -
  have "db' \<noteq> db \<or> (\<exists>x. (Inr evidence :: (string \<times> pyval) list gres) = Inr x)" by blast
  from finish_effect [OF assms this] show ?thesis
  proof cases
    case (1 p digest)
    then have "probe_passed (fst p)" by (simp add: require_def split: if_splits)
    moreover have "\<not> probe_passed failed_proof" by (simp add: probe_passed_def failed_proof_def)
    ultimately show ?thesis using 1(1) by (auto simp: probe_result_def split: probe_call.splits)
  qed
qed

text \<open>
  A health probe releases the circuit only with proof: unless the probe returned a proof that the
  executable, the authentication, the configuration and the provider are all in order, with a receipt
  for any dispatch, \<open>release_with_health_probe\<close> raises and the circuit stays open for the same reason.
\<close>

theorem health_probe_needs_proof:
  assumes "\<nexists>p. call = Returned p \<and> executable_ok p \<and> authentication_ok p \<and> configuration_ok p \<and> provider_available p \<and>
      (provider_dispatched p \<longrightarrow> provider_receipt_reference p \<noteq> None)"
    and "rc_state (db_circuit db) = OPEN"
  shows "\<exists>db' e. release_with_health_probe g bound call t1 t2 t3 db = (db', Inl e) \<and>
    rc_state (db_circuit db') = OPEN \<and> rc_open_reason (db_circuit db') = rc_open_reason (db_circuit db) \<and>
    db_cycles db' = db_cycles db"
proof -
  obtain db1 r1 where r: "reserve_probe g bound (fst t1) (snd t1) db = (db1, r1)" by fastforce
  note k1 = release_open_reason [OF r]
  show ?thesis
  proof (cases r1)
    case (Inl e)
    with r k1 assms(2) show ?thesis by (simp add: release_with_health_probe_def)
  next
    case (Inr probe_id)
    obtain db2 r2 where f: "finish_probe g probe_id bound (fst t1) call (fst t2) (snd t2) db1 = (db2, r2)" by fastforce
    have "\<nexists>p. call = Returned p \<and> probe_passed p" using assms(1) by (auto simp: probe_passed_def receipt_complete_def)
    then obtain e where "r2 = Inl e" using finish_needs_proof f by (cases r2) blast+
    with r Inr f k1 finish_open_reason [OF f] assms(2) show ?thesis by (simp add: release_with_health_probe_def)
  qed
qed

lemma sample_open_db: "rc_state (db_circuit (recovered_db sample_governor 63871221600001000 63871221900001000 sample_row running_db)) = OPEN"
  by (simp add: recovered_db_def Let_def)

theorem health_probe_needs_proof_witness:
  "\<exists>db' e. release_with_health_probe sample_governor recovered_reason (Caught ''OSError'') (63871230000000000, ''t'') (63871230000000001, ''t'')
      (63871230000000002, ''t'') (recovered_db sample_governor 63871221600001000 63871221900001000 sample_row running_db) = (db', Inl e) \<and>
    rc_state (db_circuit db') = OPEN"
  using health_probe_needs_proof [OF _ sample_open_db, of "Caught ''OSError''" sample_governor recovered_reason
      "(63871230000000000, ''t'')" "(63871230000000001, ''t'')" "(63871230000000002, ''t'')"] by auto

text \<open>
  Probes are rate limited: less than one interval after the circuit opened, or after the last probe
  of it, a new probe is refused before it is run, and the store is unchanged.
\<close>

theorem health_probe_interval:
  assumes "rc_opened_at (db_circuit db) = Some t \<or> rc_opened_at (db_circuit db) \<noteq> None \<and> rc_last_probe_at (db_circuit db) = Some t"
    and "fst t1 < t + health_probe_interval_seconds (g_policy g) * 1000000"
  shows "\<exists>e. release_with_health_probe g bound call t1 t2 t3 db = (db, Inl e)"
proof -
  have "\<exists>e. reserve_probe g bound (fst t1) (snd t1) db = (db, Inl e)"
  proof (cases "reserve_probe g bound (fst t1) (snd t1) db")
    case (Pair db1 r)
    have "\<not> (db1 \<noteq> db \<or> (\<exists>x. r = Inr x))"
    proof
      assume "db1 \<noteq> db \<or> (\<exists>x. r = Inr x)"
      from reserve_effect [OF Pair this] show False
      proof cases
        case (1 probe_id digest earliest)
        from 1(6) assms(1) have "t + health_probe_interval_seconds (g_policy g) * 1000000 \<le> earliest"
          by (auto simp: probe_earliest_def Let_def res_bind_Inr_iff res_of_option_Inr_iff add_seconds_Inr split: option.splits)
        with 1(7) assms(2) show False by simp
      qed
    qed
    then show ?thesis using Pair by (cases r) auto
  qed
  then show ?thesis by (auto simp: release_with_health_probe_def)
qed

theorem health_probe_interval_witness:
  "\<exists>e. release_with_health_probe sample_governor recovered_reason (Caught ''OSError'') (63871221600001001, ''t'') (63871230000000001, ''t'')
      (63871230000000002, ''t'') (recovered_db sample_governor 63871221600001000 63871221900001000 sample_row running_db) =
      (recovered_db sample_governor 63871221600001000 63871221900001000 sample_row running_db, Inl e)"
  by (rule health_probe_interval [where t = 63871221600001000])
    (simp_all add: recovered_db_def Let_def sample_defs)

section \<open>Closing and reopening the circuit\<close>

lemma release_closes:
  assumes "release_circuit g bound kind evidence now at db = (db', r)" and "rc_state (db_circuit db) = OPEN"
  shows "rc_state (db_circuit db') = OPEN \<or> rc_open_reason (db_circuit db) = bound \<and> gs_streak (db_state db') = 0 \<and>
    rc_release_evidence (db_circuit db') \<noteq> None \<and> lr_kind (last (db_ledger db')) = ''PRIVATE_WRITER_CIRCUIT_RELEASED''"
proof (cases "db' = db")
  case False
  then have "db' \<noteq> db \<or> (\<exists>x. r = Inr x)" by blast
  from release_effect [OF assms(1) this] show ?thesis
  proof cases
    case (1 version pairs rec digest)
    show ?thesis using 1(3) commits_ledger [OF 1(9)] commits_tables [OF 1(9)] by (auto simp: released_db_def)
  qed
qed (simp add: assms(2))

lemma claim_not_released:
  assumes "claim g owner_id now cycle_id at ticks db = (db', r)" and "rc_state (db_circuit db) = OPEN"
  shows "rc_state (db_circuit db') = OPEN"
  using assms(1)
proof (cases rule: claimE)
  case (recovered active)
  from recover_effect [OF recovered(4)] show ?thesis by cases (drule commits_tables, simp add: recovered_db_def Let_def)
next
  case (granted version owner)
  from grant_effect [OF granted(6)] show ?thesis by cases (drule commits_tables, simp add: assms(2))
qed (simp_all add: assms(2) refuse_def Let_def)

lemma complete_not_released:
  assumes "complete g lease o' terminal_state now ticks at db = (db', r)" and "rc_state (db_circuit db) = OPEN"
  shows "rc_state (db_circuit db') = OPEN"
proof (cases "db' = db")
  case False
  then have "db' \<noteq> db \<or> (\<exists>x. r = Inr x)" by blast
  from complete_effect [OF assms(1) this] show ?thesis
    by cases (drule commits_tables, simp add: completed_db_def open_circuit_def assms(2))
qed (simp add: assms(2))

lemma renew_not_released:
  assumes "renew g lease now at db = (db', r)" and "rc_state (db_circuit db) = OPEN"
  shows "rc_state (db_circuit db') = OPEN"
proof (cases "db' = db")
  case False
  then have "db' \<noteq> db \<or> (\<exists>x. r = Inr x)" by blast
  from renew_effect [OF assms(1) this] show ?thesis
    by cases (drule commits_tables, simp add: renewed_db_def assms(2))
qed (simp add: assms(2))

definition closed_by_release :: "string \<Rightarrow> governor_db \<Rightarrow> governor_db \<Rightarrow> bool" where
  "closed_by_release bound db db' \<longleftrightarrow> rc_open_reason (db_circuit db) = bound \<and> gs_streak (db_state db') = 0 \<and>
     rc_release_evidence (db_circuit db') \<noteq> None \<and> lr_kind (last (db_ledger db')) = ''PRIVATE_WRITER_CIRCUIT_RELEASED''"

lemma probe_closes:
  assumes "release_with_health_probe g bound call t1 t2 t3 db = (db', r)" and "rc_state (db_circuit db) = OPEN"
  shows "rc_state (db_circuit db') = OPEN \<or> (\<exists>p. call = Returned p \<and> probe_passed p) \<and> closed_by_release bound db db'"
proof -
  obtain db1 r1 where r: "reserve_probe g bound (fst t1) (snd t1) db = (db1, r1)" by fastforce
  note k1 = release_open_reason [OF r]
  show ?thesis
  proof (cases r1)
    case (Inl e)
    with r k1 assms show ?thesis by (simp add: release_with_health_probe_def)
  next
    case (Inr probe_id)
    obtain db2 r2 where f: "finish_probe g probe_id bound (fst t1) call (fst t2) (snd t2) db1 = (db2, r2)" by fastforce
    note k2 = finish_open_reason [OF f]
    show ?thesis
    proof (cases r2)
      case (Inl e)
      with r Inr f k1 k2 assms show ?thesis by (simp add: release_with_health_probe_def)
    next
      case ev: (Inr evidence)
      have rel: "release_circuit g bound ''DETERMINISTIC_HEALTH_PROBE'' evidence (fst t3) (snd t3) db2 = (db', r)"
        using assms(1) r Inr f ev by (simp add: release_with_health_probe_def)
      from release_closes [OF rel] k1 k2 assms(2) finish_needs_proof f ev show ?thesis
        by (auto simp: closed_by_release_def)
    qed
  qed
qed

lemma reset_closes:
  assumes "authorised_operator_reset g bound version authorised_by reference requested_at now at db = (db', r)"
    and "rc_state (db_circuit db) = OPEN"
  shows "rc_state (db_circuit db') = OPEN \<or> closed_by_release bound db db' \<and>
    strip authorised_by \<noteq> [] \<and> strip reference \<noteq> [] \<and> (\<exists>verifier. g_operator_reset_verifier g = Some verifier \<and>
      verifier \<lparr>or_bound_failure_reason = bound, or_policy_version = version, or_authorised_by = authorised_by,
           or_evidence_reference = reference, or_requested_at = requested_at\<rparr>)"
  using assms(1)
proof (cases rule: operator_resetE)
  case (authorised verifier evidence)
  with release_closes [OF authorised(6) assms(2)] show ?thesis by (auto simp: closed_by_release_def)
qed (simp add: assms(2))

text \<open>
  C37. An open circuit closes only by a release bound to the reason it is open for: by a health probe
  that returned a full proof, or by an operator reset that named its authority and evidence and was
  accepted by the configured verifier. Such a release resets the streak and is the last ledger entry.
  Claims, renewals, completions and failure reports never close it.
\<close>

theorem circuit_closes_only_by_release:
  assumes "rc_state (db_circuit db) = OPEN"
  shows "rc_state (db_circuit (fst (claim g owner_id now cycle_id at ticks db))) = OPEN \<and>
    rc_state (db_circuit (fst (renew g lease now at db))) = OPEN \<and>
    rc_state (db_circuit (fst (complete g lease o' terminal_state now ticks at db))) = OPEN \<and>
    rc_state (db_circuit (fst (fail_ambiguous g lease reason now ticks at db))) = OPEN \<and>
    (let db' = fst (release_with_health_probe g bound call t1 t2 t3 db) in rc_state (db_circuit db') = OPEN \<or>
       (\<exists>p. call = Returned p \<and> probe_passed p) \<and> closed_by_release bound db db') \<and>
    (let db' = fst (authorised_operator_reset g bound version authorised_by reference requested_at now at db)
     in rc_state (db_circuit db') = OPEN \<or> closed_by_release bound db db' \<and>
       strip authorised_by \<noteq> [] \<and> strip reference \<noteq> [] \<and> (\<exists>verifier. g_operator_reset_verifier g = Some verifier \<and>
         verifier \<lparr>or_bound_failure_reason = bound, or_policy_version = version, or_authorised_by = authorised_by,
           or_evidence_reference = reference, or_requested_at = requested_at\<rparr>))"
proof -
  have "rc_state (db_circuit (fst (fail_ambiguous g lease reason now ticks at db))) = OPEN"
    using complete_not_released [OF surjective_pairing assms] assms by (simp add: fail_ambiguous_def)
  then show ?thesis unfolding Let_def
    by (intro conjI claim_not_released [OF surjective_pairing assms] renew_not_released [OF surjective_pairing assms]
        complete_not_released [OF surjective_pairing assms] probe_closes [OF surjective_pairing assms]
        reset_closes [OF surjective_pairing assms])
qed

theorem circuit_closes_only_by_release_witness:
  "rc_state (db_circuit (fst (claim sample_governor ''owner'' 63871230000000000 ''cycle-2'' ''t'' 0
     (recovered_db sample_governor 63871221600001000 63871221900001000 sample_row running_db)))) = OPEN"
  using circuit_closes_only_by_release [OF sample_open_db] by blast

text \<open>
  A completion restores the circuit state its lease was granted with: when the circuit was open at
  the claim and has been released since, completing the cycle opens it again, dated now, and erases the
  release evidence from the circuit, whatever the cycle's outcome was.
\<close>

theorem completion_reopens_released_circuit:
  assumes "complete g lease o' terminal_state now ticks at db = (db', Inr result)"
    and "cl_circuit_state lease = OPEN" and "rc_state (db_circuit db) = CLOSED" and "governor_ok db"
  shows "rc_state (db_circuit db') = OPEN \<and> rc_opened_at (db_circuit db') = Some now \<and>
    rc_release_evidence (db_circuit db') = None \<and> rc_release_digest (db_circuit db') = None"
  using assms(1)
proof (rule complete_success)
  fix d t c reason
  assume d: "d = decide (g_policy g) lease o' c reason"
    and c: "db_circuit db' = (if cd_circuit_state d = OPEN then open_circuit (cd_circuit_reason d) now (db_circuit db)
      else db_circuit db)"
  have "cd_circuit_state d = OPEN" unfolding d using assms(2) by (cases c) (simp_all add: decide_def Let_def)
  moreover have "rc_opened_at (db_circuit db) = None"
    using assms(3,4) by (simp add: governor_ok_parts circuit_ok_def)
  ultimately show ?thesis using c by (simp add: open_circuit_def)
qed

lemma reopening_completes:
  "\<exists>db' result. complete sample_governor (sample_lease\<lparr>cl_circuit_state := OPEN, cl_circuit_open_reason := ''OUTAGE''\<rparr>) idle_outcome
     ''COMPLETED'' 63871200000002000 50 ''t'' running_db = (db', Inr result)"
proof (rule running_complete)
  let ?l = "sample_lease\<lparr>cl_circuit_state := OPEN, cl_circuit_open_reason := ''OUTAGE''\<rparr>"
  let ?d = "decide EvaluationCyclePolicy_default ?l idle_outcome IDLE_QUALIFIED_ZERO ''''"
  show "completion_plan sample_governor ?l idle_outcome 63871200000002000 50 = Inr (?d, 63871200300002000)"
    by (simp add: completion_plan_def classify_def raised_def sample_defs decide_def add_seconds_def MAX_INSTANT_def)
  show "payload_ok (terminal_result sample_version ?l idle_outcome (fst (?d, 63871200300002000))
      ''COMPLETED'' 63871200000002000 50 (snd (?d, 63871200300002000)) None (db_state running_db))"
    by (simp add: payload_ok_def terminal_result_def decide_def sample_defs elapsed_milliseconds_def
        safe_int_def MIN_SAFE_INTEGER_def MAX_SAFE_INTEGER_def)
qed (simp_all add: sample_defs sql_int_def decide_def)

theorem completion_reopens_released_circuit_witness:
  "\<exists>db' result. complete sample_governor (sample_lease\<lparr>cl_circuit_state := OPEN, cl_circuit_open_reason := ''OUTAGE''\<rparr>) idle_outcome
     ''COMPLETED'' 63871200000002000 50 ''t'' running_db = (db', Inr result) \<and> rc_state (db_circuit running_db) = CLOSED \<and>
     rc_state (db_circuit db') = OPEN"
proof -
  obtain db' result where c: "complete sample_governor (sample_lease\<lparr>cl_circuit_state := OPEN, cl_circuit_open_reason := ''OUTAGE''\<rparr>)
      idle_outcome ''COMPLETED'' 63871200000002000 50 ''t'' running_db = (db', Inr result)" using reopening_completes by blast
  have "rc_state (db_circuit running_db) = CLOSED" by (simp add: sample_defs)
  with completion_reopens_released_circuit [OF c _ this running_ok] c show ?thesis by auto
qed

section \<open>Stale leases\<close>

text \<open>
  C38. A lease that expired without a completion does not block the store: the next claim on it ends the
  cycle as recovered, opens the circuit, starts the normal cooldown and tells the claimant when to come
  back; from then on no lease is active.
\<close>

theorem stale_lease_is_recovered:
  assumes "governor_ok db" and "attached g db" and "active_cycle db = Some active"
    and "cy_lease_expires_at active \<le> now" and "\<not> clock_backwards now db" and "strip owner_id \<noteq> []"
    and "now + normal_cooldown_seconds (g_policy g) * 1000000 < MAX_INSTANT" and "appendable (db_ledger db)"
  shows "\<exists>db'. claim g owner_id now cycle_id at ticks db =
      (db', Inl (CycleNotEligible ''STALE_LEASE_RECOVERED'' (Micros (normal_cooldown_seconds (g_policy g) * 1000000))
        (Some (now + normal_cooldown_seconds (g_policy g) * 1000000)))) \<and>
    active_cycle db' = None \<and> rc_state (db_circuit db') = OPEN \<and> rc_open_reason (db_circuit db') = recovered_reason \<and>
    gs_next_cycle_eligible_at (db_state db') = Some (now + normal_cooldown_seconds (g_policy g) * 1000000) \<and>
    (\<exists>r \<in> set (db_cycles db'). cy_cycle_id r = cy_cycle_id active \<and> cy_lease_state r = RECOVERED)"
proof -
  let ?t = "now + normal_cooldown_seconds (g_policy g) * 1000000"
  let ?db = "recovered_db g now ?t active db"
  let ?e = "Inl (CycleNotEligible ''STALE_LEASE_RECOVERED'' (Micros (normal_cooldown_seconds (g_policy g) * 1000000)) (Some ?t))
    :: CycleLease gres"
  let ?payload = "obj [(''cycle_id'', jtext (cy_cycle_id active)), (''terminal_at'', jtime now),
    (''next_cycle_eligible_at'', jtime ?t), (''writer_circuit_open_reason'', jtext recovered_reason)]"
  have "wf_pyval ?payload" "encodable ?payload" by (simp_all add: obj_wf obj_encodable)
  moreover have "appendable (db_ledger ?db)" using assms(8) by (simp add: recovered_db_def Let_def)
  ultimately obtain db' where c: "commit_logged at ''PRIVATE_CYCLE_STALE_LEASE_RECOVERED'' ?payload ?db ?e = Inr (db', ?e)"
    using commit_logged_total [OF _ _ private_kinds(2)] by blast
  have "recover_stale_lease g now at active db = Inr (db', ?e)"
    using assms(7) c by (simp add: recover_stale_lease_def add_seconds_def)
  moreover obtain owner where "owner_digest owner_id = Inr owner" using owner_digest_total assms(6) by blast
  ultimately have "claim g owner_id now cycle_id at ticks db = (db', ?e)"
    using assms(2-5) by (auto simp: claim_def claim_body_def transaction_def raised_def attached_def)
  moreover have t: "db_state db' = db_state ?db" "db_circuit db' = db_circuit ?db" "db_cycles db' = db_cycles ?db"
    using commits_tables [OF commit_logged_Inr [OF c, THEN conjunct2]] by simp_all
  moreover have "active_cycle db' = None"
    using recovered_ends [OF _ assms(3)] assms(1) unfolding active_cycle_def t(3) governor_ok_parts by blast
  moreover have "\<exists>r \<in> set (db_cycles ?db). cy_cycle_id r = cy_cycle_id active \<and> cy_lease_state r = RECOVERED"
    using active_cycle_Some [OF assms(3)] by (force simp: recovered_db_def Let_def recover_row_def simp del: if_image_distrib)
  ultimately show ?thesis by (simp add: recovered_db_def Let_def)
qed

theorem stale_lease_is_recovered_witness:
  "\<exists>db'. claim sample_governor ''owner'' 63871221600001000 ''cycle-2'' ''t'' 0 running_db =
      (db', Inl (CycleNotEligible ''STALE_LEASE_RECOVERED'' (Micros 300000000) (Some 63871221900001000))) \<and>
    active_cycle db' = None"
proof -
  have "active_cycle running_db = Some sample_row" by (simp add: active_cycle_def sample_defs)
  from stale_lease_is_recovered [OF running_ok running_attached this, of 63871221600001000 "''owner''" "''cycle-2''" "''t''" 0]
  show ?thesis by (auto simp: sample_defs clock_backwards_def strip_def lstrip_def is_space_def MAX_INSTANT_def appendable_def)
qed

end
