(* ===== verification/Retrieval_Score.thy ===== *)
theory Retrieval_Score
  imports Complex_Main Authority_Types
begin

text \<open>
  The scores of \<open>src/newsroom/retrieval/models.py\<close>: \<open>canonical_score\<close>, \<open>_validate_score\<close> and the
  pattern \<open>_SCORE\<close>, with what they use of Python's \<open>float\<close>. A finite binary64 value is its sign
  and its magnitude, a rational; \<open>binary64\<close> says which rationals are magnitudes, \<open>round_binary64\<close> is
  rounding to nearest with ties to even, as \<open>float(text)\<close> does, and \<open>format_17g\<close> is
  \<open>format(value, ".17g")\<close>, which is correctly rounded too. The main fact, \<open>score_text_round_trip\<close>,
  is that seventeen significant digits identify a binary64 value, so that every finite score has a
  text and that text is accepted and read back as the same score.
\<close>

section \<open>Binary64 values\<close>

datatype pyfloat = Finite bool rat | Infinite bool | NaN

fun num_digits :: "nat \<Rightarrow> nat \<Rightarrow> nat" where
  "num_digits b n = (if b \<le> 1 \<or> n = 0 then 0 else Suc (num_digits b (n div b)))"

declare num_digits.simps [simp del]

text \<open>The largest \<open>k\<close> with \<open>b ^ k \<le> x\<close>.\<close>

definition floor_log :: "nat \<Rightarrow> rat \<Rightarrow> int" where
  "floor_log b x =
     (let k = int (num_digits b (nat (fst (quotient_of x)))) - int (num_digits b (nat (snd (quotient_of x))))
      in if of_nat b powi k \<le> x then k else k - 1)"

definition round_half_even :: "rat \<Rightarrow> int" where
  "round_half_even x =
     (let n = \<lfloor>x\<rfloor>; d = x - of_int n
      in if d < 1 / 2 then n else if 1 / 2 < d then n + 1 else if even n then n else n + 1)"

text \<open>The exponent of the last place of a positive magnitude: 53 bits, not below the subnormal one.\<close>

definition ulp_exp :: "rat \<Rightarrow> int" where
  "ulp_exp x = max (floor_log 2 x - 52) (- 1074)"

definition binary64 :: "rat \<Rightarrow> bool" where
  "binary64 x =
     (x = 0 \<or> 0 < x \<and> x < 2 ^ 1024 \<and> snd (quotient_of (x / 2 powi ulp_exp x)) = 1)"

definition round_binary64 :: "bool \<Rightarrow> rat \<Rightarrow> pyfloat" where
  "round_binary64 s x =
     (if x = 0 then Finite s 0
      else let u = 2 powi ulp_exp x; r = of_int (round_half_even (x / u)) * u
           in if r < 2 ^ 1024 then Finite s r else Infinite s)"

definition isfinite :: "pyfloat \<Rightarrow> bool" where
  "isfinite v = (case v of Finite s x \<Rightarrow> True | _ \<Rightarrow> False)"

section \<open>Score texts\<close>

definition dec_nat :: "string \<Rightarrow> nat" where
  "dec_nat s = foldl (\<lambda>n c. n * 10 + hex_val c) 0 s"

record score_parts =
  sp_neg :: bool
  sp_int :: string
  sp_frac :: string
  sp_exp_neg :: bool
  sp_exp :: string

definition take_minus :: "string \<Rightarrow> bool \<times> string" where
  "take_minus s = (case s of c # r \<Rightarrow> if c = CHR ''-'' then (True, r) else (False, s) | [] \<Rightarrow> (False, s))"

text \<open>The optional group \<open>(?:\.[0-9]{1,20})?\<close>.\<close>

definition take_frac :: "string \<Rightarrow> string \<times> string" where
  "take_frac s =
     (case s of
        c # r \<Rightarrow> if c = CHR ''.'' \<and> takeWhile is_digit r \<noteq> [] then (takeWhile is_digit r, dropWhile is_digit r)
                 else ([], s)
      | [] \<Rightarrow> ([], s))"

text \<open>The optional group \<open>(?:e-?[0-9]{1,3})?\<close> at the end of the text.\<close>

definition take_exp :: "string \<Rightarrow> (bool \<times> string) option" where
  "take_exp s =
     (case s of
        [] \<Rightarrow> Some (False, [])
      | c # r \<Rightarrow>
          let (n, d) = take_minus r
          in if c = CHR ''e'' \<and> list_all is_digit d \<and> 1 \<le> length d \<and> length d \<le> 3 then Some (n, d) else None)"

text \<open>\<open>_SCORE.fullmatch\<close>: the groups of the match, when there is one.\<close>

definition score_match :: "string \<Rightarrow> score_parts option" where
  "score_match s =
     (let (neg, r) = take_minus s;
          ip = takeWhile is_digit r;
          (fp, t) = take_frac (dropWhile is_digit r)
      in if ip \<noteq> [] \<and> (ip = ''0'' \<or> hd ip \<noteq> CHR ''0'') \<and> length fp \<le> 20
         then (case take_exp t of
                 None \<Rightarrow> None
               | Some (en, ed) \<Rightarrow>
                   Some \<lparr> sp_neg = neg, sp_int = ip, sp_frac = fp, sp_exp_neg = en, sp_exp = ed \<rparr>)
         else None)"

text \<open>The rational a matched text denotes, and \<open>float(text)\<close>.\<close>

definition score_magnitude :: "score_parts \<Rightarrow> rat" where
  "score_magnitude p =
     of_nat (dec_nat (sp_int p @ sp_frac p))
       * 10 powi ((if sp_exp_neg p then - int (dec_nat (sp_exp p)) else int (dec_nat (sp_exp p)))
                    - int (length (sp_frac p)))"

definition float_of_parts :: "score_parts \<Rightarrow> pyfloat" where
  "float_of_parts p = round_binary64 (sp_neg p) (score_magnitude p)"

section \<open>Formatting\<close>

definition strip_zeros :: "string \<Rightarrow> string" where
  "strip_zeros s = rev (dropWhile (\<lambda>c. c = CHR ''0'') (rev s))"

definition with_point :: "string \<Rightarrow> string \<Rightarrow> string" where
  "with_point ip fp = (if fp = [] then ip else ip @ ''.'' @ fp)"

text \<open>At least two digits of the exponent.\<close>

definition exp_text :: "nat \<Rightarrow> string" where
  "exp_text n = (if n < 100 then dec_fixed 2 n else dec_fixed 3 n)"

text \<open>The seventeen digits and the decimal exponent of a positive magnitude.\<close>

definition digits_17 :: "rat \<Rightarrow> nat \<times> int" where
  "digits_17 x =
     (let e = floor_log 10 x; d = round_half_even (x * 10 powi (16 - e))
      in if d = 10 ^ 17 then (10 ^ 16, e + 1) else (nat d, e))"

text \<open>\<open>format(score, ".17g").lower().replace("e+", "e")\<close> without the sign.\<close>

definition format_17g :: "rat \<Rightarrow> string" where
  "format_17g x =
     (if x = 0 then ''0''
      else let (d, e) = digits_17 x; ds = dec_fixed 17 d
           in if 0 \<le> e \<and> e < 17
              then with_point (take (nat (e + 1)) ds) (strip_zeros (drop (nat (e + 1)) ds))
              else if - 4 \<le> e \<and> e < 0
              then with_point ''0'' (strip_zeros (replicate (nat (- e - 1)) (CHR ''0'') @ ds))
              else with_point (take 1 ds) (strip_zeros (drop 1 ds)) @ ''e''
                     @ (if e < 0 then ''-'' else []) @ exp_text (nat \<bar>e\<bar>))"

definition score_error :: "string \<Rightarrow> exn" where
  "score_error m = Exn RetrievalContractError m"

definition canonical_score :: "pyfloat \<Rightarrow> string res" where
  "canonical_score v =
     (case v of
        Finite s x \<Rightarrow>
          (let t = (if s then ''-'' else []) @ format_17g x
           in require (score_match t \<noteq> None) (score_error ''retrieval score is not canonical'') (Inr t))
      | _ \<Rightarrow> Inl (score_error ''retrieval score must be finite''))"

definition validate_score :: "string \<Rightarrow> string res" where
  "validate_score t =
     (case score_match t of
        None \<Rightarrow> Inl (score_error ''retrieval score text is not canonical'')
      | Some p \<Rightarrow>
          (let score = float_of_parts p
           in require (isfinite score) (score_error ''retrieval score text is not canonical'')
                (res_bind (canonical_score score) (\<lambda>u.
                   require (u = t) (score_error ''retrieval score text is not canonical'') (Inr t)))))"

section \<open>Logarithms and rounding\<close>

lemma num_digits_bounds:
  assumes "1 < b" and "0 < n"
  shows "1 \<le> num_digits b n" and "b ^ (num_digits b n - 1) \<le> n" and "n < b ^ num_digits b n"
proof -
  have "1 \<le> num_digits b n \<and> b ^ (num_digits b n - 1) \<le> n \<and> n < b ^ num_digits b n"
    using assms
  proof (induction b n rule: num_digits.induct)
    case (1 b n)
    have u: "num_digits b n = Suc (num_digits b (n div b))"
      using "1.prems" by (subst num_digits.simps) simp
    show ?case
    proof (cases "n div b = 0")
      case True
      then have "n < b" using "1.prems" by (simp add: div_eq_0_iff)
      moreover have "num_digits b n = 1" using u True by (simp add: num_digits.simps [of b 0])
      ultimately show ?thesis using "1.prems" by simp
    next
      case False
      then have ih: "1 \<le> num_digits b (n div b)" "b ^ (num_digits b (n div b) - 1) \<le> n div b"
          "n div b < b ^ num_digits b (n div b)"
        using "1.IH" "1.prems" by simp_all
      have "b ^ num_digits b (n div b) = b * b ^ (num_digits b (n div b) - 1)"
        using ih(1) by (metis Suc_diff_le diff_Suc_1 power_Suc One_nat_def)
      also have "\<dots> \<le> b * (n div b)" using ih(2) by simp
      also have "\<dots> \<le> n" by simp
      finally have "b ^ num_digits b (n div b) \<le> n" .
      moreover have "n < b * b ^ num_digits b (n div b)"
        using ih(3) "1.prems" by (metis div_less_iff_less_mult mult.commute order_less_trans zero_less_one)
      ultimately show ?thesis using u by simp
    qed
  qed
  then show "1 \<le> num_digits b n" and "b ^ (num_digits b n - 1) \<le> n" and "n < b ^ num_digits b n"
    by blast+
qed


lemma of_nat_power_bounds:
  "a \<le> b ^ k \<Longrightarrow> (of_nat a :: rat) \<le> of_nat b ^ k" "a < b ^ k \<Longrightarrow> (of_nat a :: rat) < of_nat b ^ k"
  "b ^ k \<le> a \<Longrightarrow> (of_nat b ^ k :: rat) \<le> of_nat a"
  by (simp_all only: of_nat_le_iff of_nat_less_iff flip: of_nat_power)

lemma floor_log_eqI:
  fixes B x :: rat
  assumes "B ^ (m - 1) \<le> p" and "p < B ^ m" and "B ^ (n - 1) \<le> q" and "q < B ^ n"
    and "1 \<le> m" and "1 \<le> n" and "1 < B" and x: "x = p / q"
  shows "B powi (int m - int n - 1) \<le> x" and "x < B powi (int m - int n + 1)"
proof -
  have pos: "0 < B ^ k" for k using assms(7) by simp
  have q: "0 < q" using assms(3) pos [of "n - 1"] by simp
  have p: "0 < p" using assms(1) pos [of "m - 1"] by simp
  have eq: "B powi (int m - int n - 1) = B ^ (m - 1) / B ^ n" "B powi (int m - int n + 1) = B ^ m / B ^ (n - 1)"
    using assms(5-7) by (simp_all add: power_int_diff power_int_add power_diff)
  show "B powi (int m - int n - 1) \<le> x"
    unfolding eq x using assms(1,4) p q pos by (intro frac_le) simp_all
  have "p / q < B ^ m / q" using assms(2) q by (simp add: divide_strict_right_mono)
  also have "\<dots> \<le> B ^ m / B ^ (n - 1)" using assms(3) pos by (intro divide_left_mono) (simp_all add: q order_less_imp_le)
  finally show "x < B powi (int m - int n + 1)" unfolding eq x .
qed

lemma floor_log_bounds:
  fixes x :: rat
  assumes b: "1 < b" and x: "0 < x"
  shows "of_nat b powi floor_log b x \<le> x" and "x < of_nat b powi (floor_log b x + 1)"
proof -
  obtain p q where pq: "quotient_of x = (p, q)" by fastforce
  have q: "0 < q" using quotient_of_denom_pos [OF pq] .
  have xpq: "x = of_int p / of_int q" using quotient_of_div [OF pq] .
  have p: "0 < p" using x xpq q by (simp add: zero_less_divide_iff)
  define P Q where "P = nat p" and "Q = nat q"
  have PQ: "0 < P" "0 < Q" "of_int p = (of_nat P :: rat)" "of_int q = (of_nat Q :: rat)"
    using p q by (simp_all add: P_def Q_def)
  define k where "k = int (num_digits b P) - int (num_digits b Q)"
  note dP = num_digits_bounds [OF b PQ(1)] and dQ = num_digits_bounds [OF b PQ(2)]
  have B: "(1::rat) < of_nat b" using b by simp
  have "x = of_nat P / of_nat Q" using xpq PQ by simp
  note lu = floor_log_eqI [OF of_nat_power_bounds(3) [OF dP(2)] of_nat_power_bounds(2) [OF dP(3)]
      of_nat_power_bounds(3) [OF dQ(2)] of_nat_power_bounds(2) [OF dQ(3)] dP(1) dQ(1) B this]
  have lu: "of_nat b powi (k - 1) \<le> x" "x < of_nat b powi (k + 1)"
    using lu by (simp_all only: k_def)
  have fl: "floor_log b x = (if of_nat b powi k \<le> x then k else k - 1)"
    by (simp only: floor_log_def pq fst_conv snd_conv Let_def k_def P_def Q_def)
  show "of_nat b powi floor_log b x \<le> x" "x < of_nat b powi (floor_log b x + 1)"
    using lu by (simp_all add: fl)
qed

lemma floor_log_unique:
  fixes x :: rat
  assumes "1 < b" and "of_nat b powi k \<le> x" and "x < of_nat b powi (k + 1)"
  shows "floor_log b x = k"
proof -
  have B: "(1::rat) < of_nat b" using assms(1) by simp
  have x: "0 < x" using assms(2) B zero_less_power_int [of "of_nat b :: rat" k] by linarith
  note fb = floor_log_bounds [OF assms(1) x]
  have "of_nat b powi k < (of_nat b :: rat) powi (floor_log b x + 1)" using assms(2) fb(2) by linarith
  then have "k < floor_log b x + 1" using B power_int_increasing [of "floor_log b x + 1" k "of_nat b :: rat"] by force
  moreover have "of_nat b powi floor_log b x < (of_nat b :: rat) powi (k + 1)" using assms(3) fb(1) by linarith
  then have "floor_log b x < k + 1" using B power_int_increasing [of "k + 1" "floor_log b x" "of_nat b :: rat"] by force
  ultimately show ?thesis by linarith
qed

lemma round_half_even_error: "\<bar>of_int (round_half_even x) - x\<bar> \<le> 1 / 2"
proof -
  have "of_int \<lfloor>x\<rfloor> \<le> x" "x < of_int \<lfloor>x\<rfloor> + 1" by linarith+
  then show ?thesis by (auto simp: round_half_even_def Let_def abs_le_iff)
qed

lemma round_half_even_unique: "\<bar>x - of_int k\<bar> < 1 / 2 \<Longrightarrow> round_half_even x = k"
proof -
  assume a: "\<bar>x - of_int k\<bar> < 1 / 2"
  have "\<bar>of_int (round_half_even x) - (of_int k :: rat)\<bar> < 1"
    using a round_half_even_error [of x] by linarith
  then have "\<bar>round_half_even x - k\<bar> < 1" by (simp flip: of_int_diff of_int_abs)
  then show ?thesis by simp
qed

lemma round_half_even_bounds:
  "of_int a \<le> x \<Longrightarrow> a \<le> round_half_even x" "x \<le> of_int a \<Longrightarrow> round_half_even x \<le> a"
proof -
  have e: "of_int (round_half_even x) \<le> x + 1 / 2" "x - 1 / 2 \<le> of_int (round_half_even x)"
    using round_half_even_error [of x] by linarith+
  show "a \<le> round_half_even x" if "of_int a \<le> x"
  proof -
    have "(of_int a :: rat) - 1 < of_int (round_half_even x)" using that e by linarith
    then show ?thesis by linarith
  qed
  show "round_half_even x \<le> a" if "x \<le> of_int a"
  proof -
    have "(of_int (round_half_even x) :: rat) < of_int a + 1" using that e by linarith
    then show ?thesis by linarith
  qed
qed

section \<open>Seventeen digits identify a binary64 value\<close>

lemma binary64_cases:
  assumes "binary64 x" and "x \<noteq> 0"
  obtains m :: int where "x = of_int m * 2 powi ulp_exp x" "0 < x" "x < 2 ^ 1024" "0 < m" "m < 2 ^ 53"
    "ulp_exp x = - 1074 \<or> 2 ^ 52 \<le> m"
proof -
  let ?u = "2 powi ulp_exp x :: rat"
  have b: "0 < x" "x < 2 ^ 1024" "snd (quotient_of (x / ?u)) = 1" using assms by (auto simp: binary64_def)
  have u: "0 < ?u" by simp
  obtain m where "quotient_of (x / ?u) = (m, 1)" using b(3) by (metis prod.collapse)
  then have "x / ?u = of_int m" using quotient_of_div by force
  then have x: "x = of_int m * ?u" using u by (simp add: field_simps)
  have "0 < of_int m * ?u" by (subst x [symmetric]) (rule b(1))
  then have "0 < m" using u by (simp add: zero_less_mult_iff)
  note fl = floor_log_bounds [of 2 x, OF _ b(1)]
  have "x < 2 powi (floor_log 2 x + 1)" using fl(2) by simp
  also have "\<dots> \<le> 2 powi (ulp_exp x + 53)" by (intro power_int_increasing) (simp_all add: ulp_exp_def)
  also have "\<dots> = 2 ^ 53 * ?u" by (simp add: power_int_add)
  finally have "of_int m * ?u < 2 ^ 53 * ?u" using x by simp
  then have "(of_int m :: rat) < of_int (2 ^ 53)" using u by simp
  then have m53: "m < 2 ^ 53" by (simp only: of_int_less_iff)
  moreover have "2 ^ 52 \<le> m" if "ulp_exp x \<noteq> - 1074"
  proof -
    have "ulp_exp x + 52 = floor_log 2 x" using that by (auto simp: ulp_exp_def max_def split: if_splits)
    then have "2 ^ 52 * ?u = 2 powi floor_log 2 x" by (metis power_int_add power_int_numeral mult.commute zero_neq_numeral)
    then have "2 ^ 52 * ?u \<le> of_int m * ?u" using fl(1) x by simp
    then have "of_int (2 ^ 52) \<le> (of_int m :: rat)" using u by simp
    then show ?thesis by (simp only: of_int_le_iff)
  qed
  ultimately show thesis using that x b \<open>0 < m\<close> by blast
qed


text \<open>Near enough to a multiple of its own last place, a rational rounds to that multiple.\<close>

lemma round_binary64_near:
  assumes "0 < d" and "x = of_int m * 2 powi ulp_exp d" and "\<bar>d - x\<bar> < 2 powi ulp_exp d / 2" and "x < 2 ^ 1024"
  shows "round_binary64 s d = Finite s x"
proof -
  let ?u = "2 powi ulp_exp d :: rat"
  have u: "0 < ?u" by simp
  have "d / ?u - of_int m = (d - x) / ?u" using u by (subst assms(2)) (simp add: field_simps)
  also have "\<bar>\<dots>\<bar> = \<bar>d - x\<bar> / ?u" using u by simp
  also have "\<dots> < 1 / 2" using assms(3) u by (simp add: divide_less_eq)
  finally have "round_half_even (d / ?u) = m" by (rule round_half_even_unique)
  then show ?thesis using assms(1,2,4) by (simp add: round_binary64_def Let_def)
qed

lemma ulp_exp_mono: "0 < x \<Longrightarrow> x \<le> y \<Longrightarrow> ulp_exp x \<le> ulp_exp y"
proof -
  assume x: "0 < x" "x \<le> y"
  have "(2::rat) powi floor_log 2 x < 2 powi (floor_log 2 y + 1)"
    using floor_log_bounds(1) [of 2 x] floor_log_bounds(2) [of 2 y] x by simp
  then have "floor_log 2 x < floor_log 2 y + 1"
    using power_int_increasing [of "floor_log 2 y + 1" "floor_log 2 x" "2 :: rat"] by force
  then show ?thesis by (simp add: ulp_exp_def)
qed

lemma ulp_exp_eqI:
  assumes "2 powi (e + 52) \<le> x" and "x < 2 powi (e + 53)" and "- 1074 \<le> e"
  shows "ulp_exp x = e"
proof -
  have "floor_log 2 x = e + 52" using assms by (intro floor_log_unique) (simp_all add: ac_simps)
  then show ?thesis using assms(3) by (simp add: ulp_exp_def)
qed

lemma ulp_exp_subnormal:
  assumes "0 < x" and "x < 2 powi (- 1021)"
  shows "ulp_exp x = - 1074"
proof -
  have "(2::rat) powi floor_log 2 x < 2 powi (- 1021)"
    using floor_log_bounds(1) [of 2 x] assms by simp
  then have "floor_log 2 x < - 1021"
    using power_int_increasing [of "- 1021" "floor_log 2 x" "2 :: rat"] by force
  then show ?thesis by (simp add: ulp_exp_def)
qed

text \<open>The decimal with 17 significant digits nearest to \<open>x\<close>.\<close>

definition decimal_17 :: "rat \<Rightarrow> rat" where
  "decimal_17 x = of_int (round_half_even (x * 10 powi (16 - floor_log 10 x))) * 10 powi (floor_log 10 x - 16)"

lemma decimal_17_error:
  assumes "0 < x"
  shows "\<bar>decimal_17 x - x\<bar> \<le> x / (2 * 10 ^ 16)"
proof -
  let ?e = "floor_log 10 x"
  let ?t = "10 powi (16 - ?e) :: rat"
  have t: "0 < ?t" by simp
  have inv: "10 powi (?e - 16) = 1 / ?t" by (metis minus_diff_eq power_int_minus_divide)
  have "decimal_17 x - x = (of_int (round_half_even (x * ?t)) - x * ?t) / ?t"
    using t by (simp add: decimal_17_def inv field_simps)
  then have "\<bar>decimal_17 x - x\<bar> = \<bar>of_int (round_half_even (x * ?t)) - x * ?t\<bar> / ?t"
    using t by simp
  also have "\<dots> \<le> (1 / 2) / ?t" using round_half_even_error [of "x * ?t"] t by (intro divide_right_mono) simp_all
  also have "\<dots> = 10 powi ?e / (2 * 10 ^ 16)" by (simp add: power_int_diff)
  also have "\<dots> \<le> x / (2 * 10 ^ 16)"
    using floor_log_bounds(1) [of 10 x] assms by (intro divide_right_mono) simp_all
  finally show ?thesis .
qed

lemma decimal_17_round_trip:
  assumes "binary64 x" and "x \<noteq> 0"
  shows "round_binary64 s (decimal_17 x) = Finite s x"
proof -
  define e u d where "e = ulp_exp x" and "u = (2 powi e :: rat)" and "d = decimal_17 x"
  obtain m where m: "x = of_int m * u" "0 < x" "x < 2 ^ 1024" "0 < m" "m < 2 ^ 53" "e = - 1074 \<or> 2 ^ 52 \<le> m"
    unfolding u_def e_def using binary64_cases [OF assms] by metis
  have u: "0 < u" by (simp add: u_def)
  have e: "- 1074 \<le> e" by (simp add: e_def ulp_exp_def)
  have "(of_int m :: rat) \<le> of_int (2 ^ 53 - 1)" using m(5) by (simp only: of_int_le_iff)
  then have xu: "x \<le> (2 ^ 53 - 1) * u" unfolding m(1) using u by (intro mult_right_mono) simp_all
  have err: "\<bar>d - x\<bar> \<le> x / (2 * 10 ^ 16)" using decimal_17_error m(2) by (simp add: d_def)
  have "x / (2 * 10 ^ 16) < u / 2" using xu u by simp
  then have du: "\<bar>d - x\<bar> < u / 2" using err by linarith
  have dpos: "0 < d" using err m(2) by (simp add: abs_if split: if_splits)
  have p52: "2 powi (e + 52) = 2 ^ 52 * u" and p53: "2 powi (e + 53) = 2 ^ 53 * u"
    by (simp_all add: u_def power_int_add)
  have below: "d < 2 ^ 53 * u" using du xu u unfolding left_diff_distrib by linarith
  show ?thesis
  proof (cases "ulp_exp d = e")
    case True
    then show ?thesis
      using round_binary64_near [of d x m s] dpos m(1,3) du by (simp add: u_def d_def)
  next
    case False
    have lt: "d < 2 ^ 52 * u" using False ulp_exp_eqI [of e d] below e p52 p53 by force
    have ne: "e \<noteq> - 1074"
    proof
      assume "e = - 1074"
      moreover from this have "d < 2 powi (- 1021)" using below p53 by simp
      ultimately show False using False ulp_exp_subnormal [OF dpos] by simp
    qed
    with m(6) have "2 ^ 52 \<le> m" by simp
    then have "of_int (2 ^ 52) \<le> (of_int m :: rat)" by (simp only: of_int_le_iff)
    then have ge: "2 ^ 52 * u \<le> x" unfolding m(1) using u by (intro mult_right_mono) simp_all
    have "of_int m * u < (2 ^ 52 + 1) * u" using lt du u unfolding m(1) distrib_right by linarith
    then have "(of_int m :: rat) < of_int (2 ^ 52 + 1)" using u by simp
    then have "m < 2 ^ 52 + 1" by (simp only: of_int_less_iff)
    with m(6) ne have m52: "m = 2 ^ 52" by simp
    have x52: "x = 2 ^ 52 * u" using m(1) m52 by simp
    have h: "2 powi (e - 1) = u / 2" by (simp add: u_def power_int_diff)
    have q: "\<bar>d - x\<bar> < u / 4" using err u by (simp add: x52)
    have "ulp_exp d = e - 1"
    proof (rule ulp_exp_eqI)
      have "2 powi (e - 1 + 52) = 2 ^ 51 * u" using p52 by (simp add: u_def power_int_add power_int_diff)
      then show "2 powi (e - 1 + 52) \<le> d" using q u x52 by (simp add: abs_if split: if_splits)
      show "d < 2 powi (e - 1 + 53)" using lt p52 by (simp add: add.commute)
      show "- 1074 \<le> e - 1" using ne e by simp
    qed
    then show ?thesis
      using round_binary64_near [of d x "2 ^ 53" s] dpos m(3) q x52 h by (simp add: d_def)
  qed
qed

section \<open>Reading back a formatted score\<close>

lemma dec_nat_append: "dec_nat (a @ b) = dec_nat a * 10 ^ length b + dec_nat b"
proof -
  have "foldl (\<lambda>n c. n * 10 + hex_val c) k b = k * 10 ^ length b + dec_nat b" for k
  proof (induction b rule: rev_induct)
    case (snoc c b)
    then show ?case by (simp add: dec_nat_def distrib_right)
  qed (simp add: dec_nat_def)
  from this [of "dec_nat a"] show ?thesis by (simp add: dec_nat_def)
qed

lemma dec_nat_zeros [simp]: "dec_nat (replicate k (CHR ''0'')) = 0"
  by (induction k) (simp_all add: dec_nat_def hex_val_def)

lemma dec_nat_zero_Cons [simp]: "dec_nat (CHR ''0'' # s) = dec_nat s"
  by (simp add: dec_nat_def hex_val_def)

lemma dec_nat_fixed: "dec_nat (dec_fixed w n) = n mod 10 ^ w"
proof (induction w arbitrary: n)
  case (Suc w)
  have "hex_val (hex_digit (n mod 10)) = n mod 10" by (simp add: hex_val_def hex_digit_def Let_def)
  then have "dec_nat [hex_digit (n mod 10)] = n mod 10" by (simp add: dec_nat_def)
  then show ?case using Suc [of "n div 10"] by (simp add: dec_nat_append mod_mult2_eq)
qed (simp add: dec_nat_def)

lemma dec_fixed_digits: "c \<in> set (dec_fixed w n) \<Longrightarrow> is_digit c"
  by (induction w arbitrary: n) (auto simp: is_digit_def hex_digit_def)

lemma dec_fixed_hd: "10 ^ w \<le> n \<Longrightarrow> n < 10 ^ Suc w \<Longrightarrow> hd (dec_fixed (Suc w) n) \<noteq> CHR ''0''"
proof (induction w arbitrary: n)
  case 0
  have z: "CHR ''0'' = hex_digit 0" by code_simp
  have "hex_digit n \<noteq> CHR ''0''" unfolding z using 0 hex_digit_inj [of n 0] by simp
  then show ?case using 0 by simp
next
  case (Suc w)
  have "dec_fixed (Suc w) (n div 10) \<noteq> []" by (metis length_dec_fixed list.size(3) nat.distinct(1))
  moreover have "hd (dec_fixed (Suc w) (n div 10)) \<noteq> CHR ''0''"
    using Suc.prems by (intro Suc.IH) (simp_all add: div_less_iff_less_mult less_eq_div_iff_mult_less_eq)
  ultimately show ?case by (simp add: dec_fixed.simps(2) [of "Suc w"] del: dec_fixed.simps)
qed

lemma strip_zeros_append: "s = strip_zeros s @ replicate (length s - length (strip_zeros s)) (CHR ''0'')"
proof -
  let ?z = "takeWhile (\<lambda>c. c = CHR ''0'') (rev s)"
  have "rev s = ?z @ dropWhile (\<lambda>c. c = CHR ''0'') (rev s)" by simp
  then have s: "s = strip_zeros s @ rev ?z" unfolding strip_zeros_def by (metis rev_append rev_rev_ident)
  have "?z = replicate (length ?z) (CHR ''0'')" by (intro replicate_eqI) (auto dest: set_takeWhileD)
  moreover have "length ?z = length s - length (strip_zeros s)" using arg_cong [OF s, of length] by simp
  ultimately show ?thesis using s by (metis rev_replicate)
qed

lemma strip_zeros_length: "length (strip_zeros s) \<le> length s"
  using arg_cong [OF strip_zeros_append [of s], of length] by simp

lemma strip_zeros_digits: "c \<in> set (strip_zeros s) \<Longrightarrow> c \<in> set s"
  by (subst strip_zeros_append) simp

lemma strip_zeros_value:
  "of_nat (dec_nat (a @ strip_zeros b)) * 10 powi (k - int (length (strip_zeros b)))
     = (of_nat (dec_nat (a @ b)) * 10 powi (k - int (length b)) :: rat)"
proof -
  define z where "z = length b - length (strip_zeros b)"
  have b: "b = strip_zeros b @ replicate z (CHR ''0'')" unfolding z_def by (rule strip_zeros_append)
  have l: "int (length b) = int (length (strip_zeros b)) + int z"
    using strip_zeros_length [of b] by (simp add: z_def)
  have "dec_nat (a @ b) = dec_nat (a @ strip_zeros b) * 10 ^ z"
    by (subst b) (simp add: dec_nat_append [of "a @ strip_zeros b", simplified])
  then show ?thesis by (simp add: l power_int_diff power_int_add)
qed

lemma take_exp_head: "take_exp es = Some r \<Longrightarrow> es = [] \<or> hd es = CHR ''e''"
  by (auto simp: take_exp_def split: list.splits prod.splits if_splits)

lemma digits_prefix:
  assumes "list_all is_digit a" and "b = [] \<or> \<not> is_digit (hd b)"
  shows "takeWhile is_digit (a @ b) = a" and "dropWhile is_digit (a @ b) = b"
  using assms by (cases b; simp add: list_all_iff)+

lemma score_match_printed:
  assumes ip: "list_all is_digit ip" "ip \<noteq> []" "ip = ''0'' \<or> hd ip \<noteq> CHR ''0''"
    and fp: "list_all is_digit fp" "length fp \<le> 20" and ex: "take_exp es = Some (en, ed)"
  shows "score_match ((if s then ''-'' else []) @ with_point ip fp @ es) =
    Some \<lparr> sp_neg = s, sp_int = ip, sp_frac = fp, sp_exp_neg = en, sp_exp = ed \<rparr>"
proof -
  have hd: "es = [] \<or> hd es = CHR ''e''" using take_exp_head [OF ex] .
  have nd: "\<not> is_digit (CHR ''e'')" "\<not> is_digit (CHR ''.'')" "\<not> is_digit (CHR ''-'')"
    by (simp_all add: is_digit_def)
  have "hd ip \<noteq> CHR ''-''" using ip(1,2) nd(3) by (cases ip) auto
  then have sg: "take_minus ((if s then ''-'' else []) @ ip @ r) = (s, ip @ r)" for r
    using ip(2) by (cases ip) (auto simp: take_minus_def)
  define r where "r = (if fp = [] then es else ''.'' @ fp @ es)"
  have w: "with_point ip fp @ es = ip @ r" by (simp add: with_point_def r_def)
  have "r = [] \<or> \<not> is_digit (hd r)" using hd nd by (auto simp: r_def)
  note pr = digits_prefix [OF ip(1) this]
  have "take_frac r = (fp, es)"
  proof (cases "fp = []")
    case True
    then show ?thesis using hd by (cases es) (auto simp: take_frac_def r_def)
  next
    case False
    have "es = [] \<or> \<not> is_digit (hd es)" using hd nd by auto
    from False digits_prefix [OF fp(1) this] show ?thesis by (simp add: take_frac_def r_def)
  qed
  then show ?thesis using ip(2,3) fp(2) ex by (simp add: score_match_def w sg pr)
qed

lemma take_exp_text:
  assumes "n < 1000"
  shows "take_exp (''e'' @ (if neg then ''-'' else []) @ exp_text n) = Some (neg, exp_text n)"
    and "dec_nat (exp_text n) = n"
proof -
  have d: "list_all is_digit (exp_text n)" and l: "1 \<le> length (exp_text n)" "length (exp_text n) \<le> 3"
    by (auto simp: exp_text_def list_all_iff dec_fixed_digits)
  have "\<not> is_digit (CHR ''-'')" by (simp add: is_digit_def)
  then have "take_minus ((if neg then ''-'' else []) @ exp_text n) = (neg, exp_text n)"
    using d by (cases "exp_text n") (auto simp: take_minus_def)
  with d l show "take_exp (''e'' @ (if neg then ''-'' else []) @ exp_text n) = Some (neg, exp_text n)"
    by (simp add: take_exp_def)
  show "dec_nat (exp_text n) = n" using assms by (simp add: exp_text_def dec_nat_fixed del: dec_fixed.simps)
qed

lemma digits_17_value:
  assumes x: "0 < x" and de: "digits_17 x = (d, e)"
  shows "10 ^ 16 \<le> d" and "d < 10 ^ 17" and "of_nat d * 10 powi (e - 16) = decimal_17 x"
    and "10 powi (e - 1) \<le> x" and "x < 10 powi (e + 1)"
proof -
  let ?e = "floor_log 10 x"
  let ?r = "round_half_even (x * 10 powi (16 - ?e))"
  have b: "10 powi ?e \<le> x" "x < 10 powi (?e + 1)" using floor_log_bounds [of 10 x] x by simp_all
  have up: "10 powi (16 - ?e) * 10 powi ?e = (10 ^ 16 :: rat)" "10 powi (16 - ?e) * 10 powi (?e + 1) = (10 ^ 17 :: rat)"
    by (simp_all flip: power_int_add)
  have pos: "(0::rat) < 10 powi (16 - ?e)" by simp
  have "10 ^ 16 \<le> x * 10 powi (16 - ?e)" "x * 10 powi (16 - ?e) \<le> 10 ^ 17"
    using mult_left_mono [OF b(1) less_imp_le [OF pos]] mult_strict_left_mono [OF b(2) pos]
    unfolding up mult.commute [of x] by simp_all
  then have r: "10 ^ 16 \<le> ?r" "?r \<le> 10 ^ 17"
    using round_half_even_bounds(1) [of "10 ^ 16" "x * 10 powi (16 - ?e)"]
      round_half_even_bounds(2) [of "x * 10 powi (16 - ?e)" "10 ^ 17"] by simp_all
  show "10 ^ 16 \<le> d" "d < 10 ^ 17"
    using de r by (auto simp: digits_17_def Let_def nat_less_iff le_nat_iff split: if_splits)
  show "of_nat d * 10 powi (e - 16) = decimal_17 x"
  proof (cases "?r = 10 ^ 17")
    case True
    then have "d = 10 ^ 16" "e = ?e + 1" using de by (simp_all add: digits_17_def Let_def)
    then show ?thesis using True by (simp add: decimal_17_def power_int_diff power_int_add)
  next
    case False
    then have "d = nat ?r" "e = ?e" using de by (auto simp: digits_17_def Let_def)
    then show ?thesis using r by (simp add: decimal_17_def)
  qed
  have "e = ?e \<or> e = ?e + 1" using de by (auto simp: digits_17_def Let_def split: if_splits)
  then show "10 powi (e - 1) \<le> x" "x < 10 powi (e + 1)"
    using b power_int_increasing [of "?e - 1" "?e" "10 :: rat"] power_int_increasing [of "?e + 1" "?e + 2" "10 :: rat"]
    by (auto simp: add.commute)
qed

lemma pow2_le_pow10: "n \<le> 3 * k \<Longrightarrow> (2::rat) ^ n \<le> 10 ^ k"
proof -
  assume "n \<le> 3 * k"
  then have "(2::rat) ^ n \<le> 2 ^ (3 * k)" by (intro power_increasing) simp_all
  also have "\<dots> = 8 ^ k" by (simp add: power_mult)
  also have "\<dots> \<le> 10 ^ k" by (intro power_mono) simp_all
  finally show ?thesis .
qed

lemma powi_10_less: "(10::rat) powi a < 10 powi b \<Longrightarrow> a < b"
  using power_int_increasing [of b a "10 :: rat"] by force

lemma binary64_exponent:
  assumes "binary64 x" and "x \<noteq> 0" and "10 powi (e - 1) \<le> x" and "x < 10 powi (e + 1)"
  shows "\<bar>e\<bar> < 1000"
proof -
  obtain m where m: "x = of_int m * 2 powi ulp_exp x" "x < 2 ^ 1024" "0 < m"
    using binary64_cases [OF assms(1,2)] by metis
  have "10 powi (- int 358) \<le> (2::rat) powi (- int 1074)"
    unfolding power_int_minus power_int_of_nat using pow2_le_pow10 [of 1074 358] by (intro le_imp_inverse_le) auto
  also have "(2::rat) powi (- int 1074) \<le> 2 powi ulp_exp x" by (intro power_int_increasing) (simp_all add: ulp_exp_def)
  also have "\<dots> \<le> of_int m * 2 powi ulp_exp x" using m(3) by simp
  also have "\<dots> = x" using m(1) by (rule sym)
  also have "x < 10 powi (e + 1)" by (rule assms(4))
  finally have lo: "- int 358 < e + 1" by (rule powi_10_less)
  have "10 powi (e - 1) \<le> x" by (rule assms(3))
  also have "x < 2 ^ 1024" by (rule m(2))
  also have "2 ^ 1024 \<le> (10::rat) powi int 342" unfolding power_int_of_nat by (intro pow2_le_pow10) simp
  finally have "e - 1 < int 342" by (rule powi_10_less)
  with lo show ?thesis by simp
qed

lemma dec_fixed_split:
  "list_all is_digit (take k (dec_fixed w n))" "list_all is_digit (strip_zeros (drop k (dec_fixed w n)))"
  by (auto simp: list_all_iff dec_fixed_digits dest!: in_set_takeD strip_zeros_digits in_set_dropD)

lemma format_17g_parts:
  assumes x: "binary64 x" "x \<noteq> 0"
  shows "\<exists>p. score_match ((if s then ''-'' else []) @ format_17g x) = Some p \<and> sp_neg p = s
    \<and> score_magnitude p = decimal_17 x"
proof -
  obtain d e where de: "digits_17 x = (d, e)" by fastforce
  have pos: "0 < x" using x by (auto simp: binary64_def)
  note v = digits_17_value [OF pos de]
  have e: "\<bar>e\<bar> < 1000" using binary64_exponent [OF x v(4,5)] .
  let ?ds = "dec_fixed 17 d"
  have len17: "length ?ds = 17" by (rule length_dec_fixed)
  then have "?ds \<noteq> []" by (metis list.size(3) zero_neq_numeral)
  then have ds: "length ?ds = 17" "dec_nat ?ds = d" "hd ?ds \<noteq> CHR ''0''" "?ds \<noteq> []"
    using v(1,2) dec_fixed_hd [of 16 d] len17 by (simp_all add: dec_nat_fixed del: dec_fixed.simps)
  have lead: "take k ?ds \<noteq> []" "hd (take k ?ds) \<noteq> CHR ''0''" if "0 < k" for k
    using that ds(3,4) by (simp_all add: hd_take del: dec_fixed.simps)
  have fmt: "format_17g x = (if 0 \<le> e \<and> e < 17
      then with_point (take (nat (e + 1)) ?ds) (strip_zeros (drop (nat (e + 1)) ?ds))
      else if - 4 \<le> e \<and> e < 0
      then with_point ''0'' (strip_zeros (replicate (nat (- e - 1)) (CHR ''0'') @ ?ds))
      else with_point (take 1 ?ds) (strip_zeros (drop 1 ?ds)) @ ''e''
             @ (if e < 0 then ''-'' else []) @ exp_text (nat \<bar>e\<bar>))"
    using x(2) by (simp only: format_17g_def de Let_def split_conv if_False)
  have no_exp: "take_exp [] = Some (False, [])" "dec_nat [] = 0" by (simp_all add: take_exp_def dec_nat_def)
  consider "0 \<le> e" "e < 17" | "- 4 \<le> e" "e < 0" | "\<not> (0 \<le> e \<and> e < 17)" "\<not> (- 4 \<le> e \<and> e < 0)" by linarith
  then show ?thesis
  proof cases
    case 1
    let ?k = "nat (e + 1)"
    let ?f = "strip_zeros (drop ?k ?ds)"
    have len: "length ?f \<le> 20" using strip_zeros_length [of "drop ?k ?ds"] ds(1) by simp
    have k: "0 < ?k" using 1 by simp
    have "of_nat (dec_nat (take ?k ?ds @ ?f)) * 10 powi (0 - int (length ?f)) = decimal_17 x"
      unfolding strip_zeros_value append_take_drop_id ds(2) v(3) [symmetric] length_drop ds(1)
      using 1 by (simp add: algebra_simps)
    then show ?thesis
      using score_match_printed [OF dec_fixed_split(1) lead(1) [OF k] disjI2 [OF lead(2) [OF k]] dec_fixed_split(2) len no_exp(1), of s]
        1 no_exp(2) by (auto simp: fmt score_magnitude_def simp del: dec_fixed.simps)
  next
    case 2
    let ?b = "replicate (nat (- e - 1)) (CHR ''0'') @ ?ds"
    let ?f = "strip_zeros ?b"
    have len: "length ?f \<le> 20" using strip_zeros_length [of ?b] ds(1) 2 by simp
    have z: "is_digit (CHR ''0'')" by (simp add: is_digit_def)
    have dig: "list_all is_digit ''0''" "list_all is_digit ?f"
      using z by (auto simp: list_all_iff dec_fixed_digits dest!: strip_zeros_digits)
    have "of_nat (dec_nat (''0'' @ ?f)) * 10 powi (0 - int (length ?f)) = decimal_17 x"
      unfolding strip_zeros_value v(3) [symmetric]
      using 2 ds(1,2) by (simp add: dec_nat_append del: dec_fixed.simps)
    then show ?thesis
      using score_match_printed [OF dig(1) _ disjI1 [OF refl] dig(2) len no_exp(1), of s] 2 no_exp(2)
      by (auto simp: fmt score_magnitude_def simp del: dec_fixed.simps)
  next
    case 3
    let ?f = "strip_zeros (drop 1 ?ds)"
    have len: "length ?f \<le> 20" using strip_zeros_length [of "drop 1 ?ds"] ds(1) by simp
    have n: "nat \<bar>e\<bar> < 1000" using e by simp
    have "of_nat (dec_nat (take 1 ?ds @ ?f)) * 10 powi (e - int (length ?f)) = decimal_17 x"
      unfolding strip_zeros_value append_take_drop_id ds(2) v(3) [symmetric] length_drop ds(1) by simp
    moreover have "(if e < 0 then - int (nat \<bar>e\<bar>) else int (nat \<bar>e\<bar>)) = e" by simp
    ultimately show ?thesis
      using score_match_printed [OF dec_fixed_split(1) lead(1) [OF zero_less_one] disjI2 [OF lead(2) [OF zero_less_one]]
          dec_fixed_split(2) len take_exp_text(1) [OF n, of "e < 0"], of s] 3 take_exp_text(2) [OF n]
      by (simp only: fmt score_magnitude_def append_assoc if_False) (auto simp del: dec_fixed.simps)
  qed
qed

lemma canonical_score_finite:
  assumes "binary64 x"
  shows "\<exists>t. canonical_score (Finite s x) = Inr t \<and> (\<exists>p. score_match t = Some p \<and> float_of_parts p = Finite s x)"
proof (cases "x = 0")
  case True
  have "score_match ((if s then ''-'' else []) @ with_point ''0'' [] @ []) =
      Some \<lparr> sp_neg = s, sp_int = ''0'', sp_frac = [], sp_exp_neg = False, sp_exp = [] \<rparr>"
    by (rule score_match_printed) (simp_all add: is_digit_def take_exp_def)
  then show ?thesis
    by (simp add: True canonical_score_def format_17g_def with_point_def float_of_parts_def score_magnitude_def
        round_binary64_def dec_nat_zeros [of 0, simplified])
next
  case False
  obtain p where p: "score_match ((if s then ''-'' else []) @ format_17g x) = Some p" "sp_neg p = s"
      "score_magnitude p = decimal_17 x"
    using format_17g_parts [OF assms False] by blast
  then have "float_of_parts p = Finite s x"
    using decimal_17_round_trip [OF assms False] by (simp add: float_of_parts_def)
  then show ?thesis using p(1) by (simp add: canonical_score_def)
qed

lemma validate_score_iff:
  "validate_score t = Inr u \<longleftrightarrow>
     u = t \<and> (\<exists>p. score_match t = Some p \<and> canonical_score (float_of_parts p) = Inr t)"
  by (auto simp: validate_score_def isfinite_def canonical_score_def res_simps split: option.splits pyfloat.splits)

text \<open>
  C40. Scores round-trip: every finite binary64 score has a canonical text, the validator accepts that
  text, and reading it gives the same score back, sign of zero included. In particular the pattern
  admits every text the formatter can produce.
\<close>

theorem score_text_round_trip:
  assumes "binary64 x"
  shows "\<exists>t p. canonical_score (Finite s x) = Inr t \<and> validate_score t = Inr t
    \<and> score_match t = Some p \<and> float_of_parts p = Finite s x"
proof -
  from canonical_score_finite [OF assms] obtain t p where
    t: "canonical_score (Finite s x) = Inr t" "score_match t = Some p" "float_of_parts p = Finite s x" by blast
  then have "validate_score t = Inr t" by (simp add: validate_score_iff)
  with t show ?thesis by blast
qed

lemma half_binary64: "binary64 (1 / 2)"
proof -
  have "ulp_exp (1 / 2) = - 53" by (rule ulp_exp_eqI) (simp_all add: power_int_minus)
  then have "(1 / 2 :: rat) / 2 powi ulp_exp (1 / 2) = 4503599627370496" by (simp add: power_int_minus)
  then have "quotient_of ((1 / 2) / 2 powi ulp_exp (1 / 2)) = (4503599627370496, 1)" by (simp only: quotient_of_number)
  then show ?thesis by (simp add: binary64_def)
qed

theorem score_text_round_trip_witness:
  "binary64 (1 / 2) \<and> (\<exists>t p. canonical_score (Finite True (1 / 2)) = Inr t \<and> validate_score t = Inr t
    \<and> score_match t = Some p \<and> float_of_parts p = Finite True (1 / 2))"
  using half_binary64 score_text_round_trip [OF half_binary64, of True] by blast

end
