(* ===== verification/Retrieval_Models.thy ===== *)
theory Retrieval_Models
  imports Retrieval_Score Records
begin

text \<open>
  \<open>src/newsroom/retrieval/models.py\<close>: the records of bounded hybrid retrieval. Each dataclass is a
  record, each \<open>__post_init__\<close> a function that raises or returns, each \<open>canonical_value\<close> the dict
  that is hashed; the \<open>isinstance\<close> tests hold by typing, typed identifiers are their texts, instants
  are microseconds. The score texts are those of theory \<open>Retrieval_Score\<close>. Also here:
  \<open>CompleteProjectionIdentity\<close> of \<open>src/newsroom/projection/neo4j/complete_models.py\<close> and
  \<open>ProjectionGenerationState\<close> of \<open>src/newsroom/projection/models.py\<close>, which the records contain.
\<close>

definition retrieval_error :: "string \<Rightarrow> exn" where
  "retrieval_error m = Exn RetrievalContractError m"

definition retrieval_state_error :: "string \<Rightarrow> exn" where
  "retrieval_state_error m = Exn RetrievalStateError m"

definition require_passage_identity :: "string \<Rightarrow> unit res" where
  "require_passage_identity v =
     (case require_token v of
        Inr _ \<Rightarrow> Inr ()
      | Inl _ \<Rightarrow>
          (case uuid_of_text v of
             None \<Rightarrow> Inl (retrieval_error ''value is not a valid authority token or canonical UUID'')
           | Some n \<Rightarrow> require (uuid_str n = v)
               (retrieval_error ''value is not a valid authority token or canonical UUID'') (Inr ())))"

section \<open>Enumerations\<close>

datatype RetrievalBranch = EXACT | ADMITTED_GRAPH | FULL_TEXT | VECTOR

fun RetrievalBranch_value :: "RetrievalBranch \<Rightarrow> string" where
  "RetrievalBranch_value EXACT = ''EXACT''"
| "RetrievalBranch_value ADMITTED_GRAPH = ''ADMITTED_GRAPH''"
| "RetrievalBranch_value FULL_TEXT = ''FULL_TEXT''"
| "RetrievalBranch_value VECTOR = ''VECTOR''"

text \<open>\<open>tuple(RetrievalBranch)\<close>.\<close>

definition all_branches :: "RetrievalBranch list" where
  "all_branches = [EXACT, ADMITTED_GRAPH, FULL_TEXT, VECTOR]"

datatype RetrievalOutcome = COMPLETE | DEGRADED | STALE | UNAVAILABLE | INCOMPLETE | POLICY_BLOCKED

fun RetrievalOutcome_value :: "RetrievalOutcome \<Rightarrow> string" where
  "RetrievalOutcome_value COMPLETE = ''COMPLETE''"
| "RetrievalOutcome_value DEGRADED = ''DEGRADED''"
| "RetrievalOutcome_value STALE = ''STALE''"
| "RetrievalOutcome_value UNAVAILABLE = ''UNAVAILABLE''"
| "RetrievalOutcome_value INCOMPLETE = ''INCOMPLETE''"
| "RetrievalOutcome_value POLICY_BLOCKED = ''POLICY_BLOCKED''"

datatype RetrievalExclusionReason =
    SELF_QUERY | INCOMPATIBLE_FORMAL_ID | INCOMPATIBLE_JURISDICTION | OUTSIDE_TEMPORAL_SCOPE
  | UNADMITTED_RELATION | RIGHTS_NOT_CURRENT | TOMBSTONED | DEPENDENCY_DUPLICATE | RESULT_BOUND
  | HYDRATION_FAILED

fun RetrievalExclusionReason_value :: "RetrievalExclusionReason \<Rightarrow> string" where
  "RetrievalExclusionReason_value SELF_QUERY = ''SELF_QUERY''"
| "RetrievalExclusionReason_value INCOMPATIBLE_FORMAL_ID = ''INCOMPATIBLE_FORMAL_ID''"
| "RetrievalExclusionReason_value INCOMPATIBLE_JURISDICTION = ''INCOMPATIBLE_JURISDICTION''"
| "RetrievalExclusionReason_value OUTSIDE_TEMPORAL_SCOPE = ''OUTSIDE_TEMPORAL_SCOPE''"
| "RetrievalExclusionReason_value UNADMITTED_RELATION = ''UNADMITTED_RELATION''"
| "RetrievalExclusionReason_value RIGHTS_NOT_CURRENT = ''RIGHTS_NOT_CURRENT''"
| "RetrievalExclusionReason_value TOMBSTONED = ''TOMBSTONED''"
| "RetrievalExclusionReason_value DEPENDENCY_DUPLICATE = ''DEPENDENCY_DUPLICATE''"
| "RetrievalExclusionReason_value RESULT_BOUND = ''RESULT_BOUND''"
| "RetrievalExclusionReason_value HYDRATION_FAILED = ''HYDRATION_FAILED''"

datatype ProjectionGenerationState = BUILDING | VALIDATING | ACTIVE | RETIRED | FAILED

fun ProjectionGenerationState_value :: "ProjectionGenerationState \<Rightarrow> string" where
  "ProjectionGenerationState_value BUILDING = ''BUILDING''"
| "ProjectionGenerationState_value VALIDATING = ''VALIDATING''"
| "ProjectionGenerationState_value ACTIVE = ''ACTIVE''"
| "ProjectionGenerationState_value RETIRED = ''RETIRED''"
| "ProjectionGenerationState_value FAILED = ''FAILED''"

section \<open>Bounded texts\<close>

definition bounded_text :: "nat \<Rightarrow> string \<Rightarrow> string res" where
  "bounded_text maximum v =
     require (v \<noteq> [] \<and> v = strip v \<and> utf8_len v \<le> maximum)
       (retrieval_error ''value must be bounded canonical text'') (Inr v)"

definition check_bounded_text :: "nat \<Rightarrow> string \<Rightarrow> unit res" where
  "check_bounded_text maximum v = res_bind (bounded_text maximum v) (\<lambda>_. Inr ())"

definition sorted_unique_text :: "bool \<Rightarrow> nat \<Rightarrow> nat \<Rightarrow> string list \<Rightarrow> string list res" where
  "sorted_unique_text allow_empty maximum_items maximum_item_bytes vs =
     require (allow_empty \<or> vs \<noteq> []) (retrieval_error ''value cannot be empty'')
     (require (length vs \<le> maximum_items) (retrieval_error ''value exceeds its item bound'')
     (res_bind (res_map (bounded_text maximum_item_bytes) vs) (\<lambda>normalized.
        require (sorted_unique normalized) (retrieval_error ''value must be sorted and unique'')
          (Inr normalized))))"

section \<open>Requests\<close>

record FindRelatedEventCandidatesRequest =
  rq_request_id :: string
  rq_context_id :: string
  rq_fixture_id :: string
  rq_query_revision_id :: string
  rq_query_hypothesis_version_id :: string
  rq_query_valid_time :: int
  rq_idempotency_key :: string

definition FindRelatedEventCandidatesRequest_post_init :: "FindRelatedEventCandidatesRequest \<Rightarrow> unit res" where
  "FindRelatedEventCandidatesRequest_post_init r =
     res_bind (for_each (check_bounded_text 128)
                 [rq_fixture_id r, rq_query_revision_id r, rq_query_hypothesis_version_id r]) (\<lambda>_.
     check_bounded_text 256 (rq_idempotency_key r))"

definition FindRelatedEventCandidatesRequest_canonical_value :: "FindRelatedEventCandidatesRequest \<Rightarrow> pyval" where
  "FindRelatedEventCandidatesRequest_canonical_value r = obj
     [(''contract'', jtext ''newsroom-find-related-event-candidates-request-v1''),
      (''request_id'', jtext (rq_request_id r)),
      (''context_id'', jtext (rq_context_id r)),
      (''fixture_id'', jtext (rq_fixture_id r)),
      (''query_revision_id'', jtext (rq_query_revision_id r)),
      (''query_hypothesis_version_id'', jtext (rq_query_hypothesis_version_id r)),
      (''query_valid_time'', jtext (UtcTimestamp_to_text (rq_query_valid_time r))),
      (''idempotency_key'', jtext (rq_idempotency_key r))]"

section \<open>Projection metadata\<close>

record CompleteProjectionIdentity =
  ci_generation_id :: string
  ci_family_id :: string
  ci_family_definition_version :: string
  ci_projector_version :: string
  ci_ontology_contract_digest :: string
  ci_mapping_contract_digest :: string
  ci_complete_contract_digest :: string
  ci_fulltext_contract_digest :: string
  ci_vector_contract_digest :: string
  ci_fixture_vector_manifest_digest :: string

definition CompleteProjectionIdentity_post_init :: "CompleteProjectionIdentity \<Rightarrow> unit res" where
  "CompleteProjectionIdentity_post_init i =
     res_bind (require_tokens [ci_family_id i, ci_family_definition_version i, ci_projector_version i]) (\<lambda>_.
     for_each (\<lambda>v. res_bind (validate_sha256_digest v) (\<lambda>w.
         require (w = v) (Exn ProjectionContractError ''value must be canonical'') (Inr ())))
       [ci_ontology_contract_digest i, ci_mapping_contract_digest i, ci_complete_contract_digest i,
        ci_fulltext_contract_digest i, ci_vector_contract_digest i, ci_fixture_vector_manifest_digest i])"

definition CompleteProjectionIdentity_canonical_value :: "CompleteProjectionIdentity \<Rightarrow> pyval" where
  "CompleteProjectionIdentity_canonical_value i = obj
     [(''generation_id'', jtext (ci_generation_id i)),
      (''family_id'', jtext (ci_family_id i)),
      (''family_definition_version'', jtext (ci_family_definition_version i)),
      (''projector_version'', jtext (ci_projector_version i)),
      (''ontology_contract_digest'', jtext (ci_ontology_contract_digest i)),
      (''mapping_contract_digest'', jtext (ci_mapping_contract_digest i)),
      (''complete_contract_digest'', jtext (ci_complete_contract_digest i)),
      (''fulltext_contract_digest'', jtext (ci_fulltext_contract_digest i)),
      (''vector_contract_digest'', jtext (ci_vector_contract_digest i)),
      (''fixture_vector_manifest_digest'', jtext (ci_fixture_vector_manifest_digest i))]"

record RetrievalProjectionMetadata =
  pm_identity :: CompleteProjectionIdentity
  pm_generation_state :: ProjectionGenerationState
  pm_contiguous_ledger_seq :: int
  pm_open_gap_count :: int
  pm_dead_letter_count :: int
  pm_validation_recorded_at :: int
  pm_date_window_start :: int
  pm_query_valid_time :: int
  pm_freshness_deadline :: int
  pm_serving_time :: int
  pm_authoritative_system :: string
  pm_projection_role :: string

definition RetrievalProjectionMetadata_post_init :: "RetrievalProjectionMetadata \<Rightarrow> unit res" where
  "RetrievalProjectionMetadata_post_init m =
     require (pm_generation_state m = ACTIVE)
       (retrieval_state_error ''hybrid retrieval requires an ACTIVE generation'')
     (res_bind (for_each (\<lambda>v. require (\<not> v < 0) (retrieval_error ''value must be non-negative'') (Inr ()))
         [pm_contiguous_ledger_seq m, pm_open_gap_count m, pm_dead_letter_count m]) (\<lambda>_.
     require (0 < pm_contiguous_ledger_seq m)
       (retrieval_state_error ''hybrid retrieval requires a positive watermark'')
     (require (pm_open_gap_count m = 0 \<and> pm_dead_letter_count m = 0)
       (retrieval_state_error ''hybrid retrieval cannot conceal gaps or dead letters'')
     (require (\<not> pm_query_valid_time m < pm_date_window_start m)
       (retrieval_state_error ''retrieval date window starts after query-valid time'')
     (require (\<not> pm_serving_time m < pm_query_valid_time m)
       (retrieval_state_error ''query-valid time exceeds serving time'')
     (require (\<not> pm_serving_time m < pm_validation_recorded_at m)
       (retrieval_state_error ''projection validation time exceeds serving time'')
     (require (\<not> pm_freshness_deadline m < pm_validation_recorded_at m)
       (retrieval_state_error ''projection freshness deadline precedes validation'')
     (require (\<not> pm_freshness_deadline m < pm_serving_time m)
       (retrieval_state_error ''retrieval projection freshness is stale'')
     (require (pm_authoritative_system m = ''sqlite-ledger-and-governed-objects'')
       (retrieval_state_error ''retrieval must return to SQLite/object authority'')
     (require (pm_projection_role m = ''non-authoritative-rebuildable-context'')
       (retrieval_state_error ''retrieval projection role is not non-authoritative'')
     (Inr ())))))))))))"

definition RetrievalProjectionMetadata_canonical_value :: "RetrievalProjectionMetadata \<Rightarrow> pyval" where
  "RetrievalProjectionMetadata_canonical_value m = obj
     [(''identity'', CompleteProjectionIdentity_canonical_value (pm_identity m)),
      (''generation_state'', jtext (ProjectionGenerationState_value (pm_generation_state m))),
      (''contiguous_ledger_seq'', jnum (pm_contiguous_ledger_seq m)),
      (''open_gap_count'', jnum (pm_open_gap_count m)),
      (''dead_letter_count'', jnum (pm_dead_letter_count m)),
      (''validation_recorded_at'', jtext (UtcTimestamp_to_text (pm_validation_recorded_at m))),
      (''date_window_start'', jtext (UtcTimestamp_to_text (pm_date_window_start m))),
      (''query_valid_time'', jtext (UtcTimestamp_to_text (pm_query_valid_time m))),
      (''freshness_deadline'', jtext (UtcTimestamp_to_text (pm_freshness_deadline m))),
      (''serving_time'', jtext (UtcTimestamp_to_text (pm_serving_time m))),
      (''authoritative_system'', jtext (pm_authoritative_system m)),
      (''projection_role'', jtext (pm_projection_role m))]"

section \<open>Branch evidence\<close>

record RetrievalBranchHit =
  bh_branch :: RetrievalBranch
  bh_query_id :: string
  bh_query_digest :: string
  bh_rank :: int
  bh_raw_score :: string
  bh_result_key :: string
  bh_dependency_root_id :: string
  bh_passage_id :: "string option"
  bh_trust_scope :: TrustScope
  bh_source_kind :: string
  bh_source_identity :: string

text \<open>\<open>float(raw_score)\<close> of a validated score text, as a signed rational.\<close>

definition score_value :: "string \<Rightarrow> rat" where
  "score_value t =
     (case map_option float_of_parts (score_match t) of
        Some (Finite s x) \<Rightarrow> if s then - x else x
      | _ \<Rightarrow> 0)"

definition RetrievalBranchHit_post_init :: "RetrievalBranchHit \<Rightarrow> unit res" where
  "RetrievalBranchHit_post_init h =
     res_bind (require_token (bh_query_id h)) (\<lambda>_.
     res_bind (validate_sha256_digest (bh_query_digest h)) (\<lambda>_.
     require (1 \<le> bh_rank h \<and> bh_rank h \<le> 8) (retrieval_error ''branch rank exceeds the fixed bound'')
     (res_bind (validate_score (bh_raw_score h)) (\<lambda>_.
     let score = score_value (bh_raw_score h) in
     require (\<not> (bh_branch h = EXACT \<and> score \<noteq> 1)) (retrieval_error ''exact retrieval score must be one'')
     (require (\<not> (bh_branch h = ADMITTED_GRAPH \<and> \<not> (0 < score \<and> score \<le> 1)))
       (retrieval_error ''admitted graph retrieval score must be in (0, 1]'')
     (require (\<not> (bh_branch h = FULL_TEXT \<and> score < 0))
       (retrieval_error ''full-text retrieval score must be non-negative'')
     (require (\<not> (bh_branch h = VECTOR \<and> \<not> (0 \<le> score \<and> score \<le> 1)))
       (retrieval_error ''vector retrieval score must be in [0, 1]'')
     (res_bind (for_each (check_bounded_text 256)
                  [bh_result_key h, bh_dependency_root_id h, bh_source_identity h]) (\<lambda>_.
     res_bind (case bh_passage_id h of None \<Rightarrow> Inr () | Some p \<Rightarrow> require_passage_identity p) (\<lambda>_.
     require (bh_trust_scope h \<in> {OBSERVED, ADMITTED})
       (retrieval_error ''retrieval hit trust scope is not permitted'')
     (require_token (bh_source_kind h))))))))))))"

definition RetrievalBranchHit_canonical_value :: "RetrievalBranchHit \<Rightarrow> pyval" where
  "RetrievalBranchHit_canonical_value h = obj
     [(''branch'', jtext (RetrievalBranch_value (bh_branch h))),
      (''query_id'', jtext (bh_query_id h)),
      (''query_digest'', jtext (bh_query_digest h)),
      (''rank'', jnum (bh_rank h)),
      (''raw_score'', jtext (bh_raw_score h)),
      (''result_key'', jtext (bh_result_key h)),
      (''dependency_root_id'', jtext (bh_dependency_root_id h)),
      (''passage_id'', jopt (bh_passage_id h)),
      (''trust_scope'', jtext (TrustScope_value (bh_trust_scope h))),
      (''source_kind'', jtext (bh_source_kind h)),
      (''source_identity'', jtext (bh_source_identity h))]"

record RetrievalBranchExecution =
  be_branch :: RetrievalBranch
  be_query_id :: string
  be_query_digest :: string
  be_result_limit :: int
  be_elapsed_ms :: int
  be_hits :: "RetrievalBranchHit list"

definition RetrievalBranchExecution_post_init :: "RetrievalBranchExecution \<Rightarrow> unit res" where
  "RetrievalBranchExecution_post_init e =
     res_bind (require_token (be_query_id e)) (\<lambda>_.
     res_bind (validate_sha256_digest (be_query_digest e)) (\<lambda>_.
     require (be_result_limit e = 8) (retrieval_error ''branch execution limit must remain fixed at 8'')
     (require (\<not> be_elapsed_ms e < 0) (retrieval_error ''branch elapsed time must be non-negative'')
     (require (int (length (be_hits e)) \<le> be_result_limit e)
       (retrieval_error ''branch hits exceed their fixed result bound'')
     (require (list_all (\<lambda>h. bh_branch h = be_branch e \<and> bh_query_id h = be_query_id e
                  \<and> bh_query_digest h = be_query_digest e) (be_hits e))
       (retrieval_error ''branch hit identity differs from execution'')
     (require (map bh_rank (be_hits e) = [1..int (length (be_hits e))])
       (retrieval_error ''branch ranks must be contiguous'')
     (require (distinct (map bh_result_key (be_hits e)))
       (retrieval_error ''branch result keys must be unique'')
     (Inr ()))))))))"

definition RetrievalBranchExecution_canonical_value :: "RetrievalBranchExecution \<Rightarrow> pyval" where
  "RetrievalBranchExecution_canonical_value e = obj
     [(''branch'', jtext (RetrievalBranch_value (be_branch e))),
      (''query_id'', jtext (be_query_id e)),
      (''query_digest'', jtext (be_query_digest e)),
      (''result_limit'', jnum (be_result_limit e)),
      (''elapsed_ms'', jnum (be_elapsed_ms e)),
      (''hits'', jlist (map RetrievalBranchHit_canonical_value (be_hits e)))]"

section \<open>Fused candidates and exclusions\<close>

record ReciprocalRankScore =
  rs_numerator :: int
  rs_denominator :: int

definition ReciprocalRankScore_post_init :: "ReciprocalRankScore \<Rightarrow> unit res" where
  "ReciprocalRankScore_post_init r =
     require (0 < rs_numerator r \<and> 0 < rs_denominator r)
       (retrieval_error ''fusion score must be a positive fraction'')
     (require (quotient_of (Fract (rs_numerator r) (rs_denominator r)) = (rs_numerator r, rs_denominator r))
       (retrieval_error ''fusion score must be reduced'')
     (Inr ()))"

definition ReciprocalRankScore_from_fraction :: "rat \<Rightarrow> ReciprocalRankScore res" where
  "ReciprocalRankScore_from_fraction v =
     require (0 < v) (retrieval_error ''fusion score fraction must be positive'')
     (let r = \<lparr> rs_numerator = fst (quotient_of v), rs_denominator = snd (quotient_of v) \<rparr>
      in res_bind (ReciprocalRankScore_post_init r) (\<lambda>_. Inr r))"

definition ReciprocalRankScore_fraction :: "ReciprocalRankScore \<Rightarrow> rat" where
  "ReciprocalRankScore_fraction r = Fract (rs_numerator r) (rs_denominator r)"

definition ReciprocalRankScore_canonical_value :: "ReciprocalRankScore \<Rightarrow> pyval" where
  "ReciprocalRankScore_canonical_value r = obj
     [(''numerator'', jnum (rs_numerator r)), (''denominator'', jnum (rs_denominator r))]"

record FusedRetrievalCandidate =
  fc_dependency_root_id :: string
  fc_candidate_version_id :: "string option"
  fc_contributing_branches :: "RetrievalBranch list"
  fc_branch_hits :: "RetrievalBranchHit list"
  fc_dependency_ids :: "string list"
  fc_score :: ReciprocalRankScore
  fc_final_rank :: int

text \<open>\<open>(item.branch.value, item.rank, item.result_key)\<close>.\<close>

definition hit_key :: "RetrievalBranchHit \<Rightarrow> string \<times> int \<times> string" where
  "hit_key h = (RetrievalBranch_value (bh_branch h), bh_rank h, bh_result_key h)"

text \<open>\<open>tuple(sorted(set(bs), key=lambda item: item.value))\<close>.\<close>

definition sorted_branches :: "RetrievalBranch list \<Rightarrow> RetrievalBranch list" where
  "sorted_branches bs = sort_key RetrievalBranch_value (remdups bs)"

definition FusedRetrievalCandidate_post_init :: "FusedRetrievalCandidate \<Rightarrow> FusedRetrievalCandidate res" where
  "FusedRetrievalCandidate_post_init c =
     res_bind (check_bounded_text 256 (fc_dependency_root_id c)) (\<lambda>_.
     res_bind (case fc_candidate_version_id c of None \<Rightarrow> Inr () | Some v \<Rightarrow> check_bounded_text 128 v) (\<lambda>_.
     require (fc_contributing_branches c \<noteq> []
         \<and> fc_contributing_branches c = sorted_branches (fc_contributing_branches c))
       (retrieval_error ''candidate branches must be sorted and unique'')
     (require (fc_branch_hits c \<noteq> []) (retrieval_error ''fused candidate requires branch evidence'')
     (require (sorted_unique (map hit_key (fc_branch_hits c)))
       (retrieval_error ''candidate branch evidence must be sorted and unique'')
     (require (set (map bh_branch (fc_branch_hits c)) = set (fc_contributing_branches c))
       (retrieval_error ''candidate branches differ from branch evidence'')
     (res_bind (sorted_unique_text False 64 256 (fc_dependency_ids c)) (\<lambda>ids.
     require (1 \<le> fc_final_rank c \<and> fc_final_rank c \<le> 12)
       (retrieval_error ''candidate final rank exceeds retained bound'')
     (Inr (c\<lparr> fc_dependency_ids := ids \<rparr>)))))))))"

definition FusedRetrievalCandidate_canonical_value :: "FusedRetrievalCandidate \<Rightarrow> pyval" where
  "FusedRetrievalCandidate_canonical_value c = obj
     [(''dependency_root_id'', jtext (fc_dependency_root_id c)),
      (''candidate_version_id'', jopt (fc_candidate_version_id c)),
      (''contributing_branches'', jlist (map jtext (map RetrievalBranch_value (fc_contributing_branches c)))),
      (''branch_hits'', jlist (map RetrievalBranchHit_canonical_value (fc_branch_hits c))),
      (''dependency_ids'', jlist (map jtext (fc_dependency_ids c))),
      (''score'', ReciprocalRankScore_canonical_value (fc_score c)),
      (''final_rank'', jnum (fc_final_rank c))]"

record RetrievalExclusion =
  ex_dependency_root_id :: string
  ex_reason :: RetrievalExclusionReason
  ex_branch_hits :: "RetrievalBranchHit list"
  ex_detail :: string

definition RetrievalExclusion_post_init :: "RetrievalExclusion \<Rightarrow> unit res" where
  "RetrievalExclusion_post_init x =
     res_bind (check_bounded_text 256 (ex_dependency_root_id x)) (\<lambda>_.
     check_bounded_text 2048 (ex_detail x))"

definition RetrievalExclusion_canonical_value :: "RetrievalExclusion \<Rightarrow> pyval" where
  "RetrievalExclusion_canonical_value x = obj
     [(''dependency_root_id'', jtext (ex_dependency_root_id x)),
      (''reason'', jtext (RetrievalExclusionReason_value (ex_reason x))),
      (''branch_hits'', jlist (map RetrievalBranchHit_canonical_value (ex_branch_hits x))),
      (''detail'', jtext (ex_detail x))]"

section \<open>Hydrated passages\<close>

record HydratedRetrievalPassage =
  hp_passage_id :: string
  hp_admission_id :: string
  hp_blob_digest :: string
  hp_language :: string
  hp_text :: string
  hp_text_digest :: string
  hp_hydration_policy_contract_digest :: string
  hp_access_decision_id :: string
  hp_byte_start :: int
  hp_byte_end :: int
  hp_rights_state :: string
  hp_lifecycle_state :: string
  hp_trust_scope :: TrustScope

definition HydratedRetrievalPassage_post_init :: "HydratedRetrievalPassage \<Rightarrow> unit res" where
  "HydratedRetrievalPassage_post_init p =
     res_bind (require_passage_identity (hp_passage_id p)) (\<lambda>_.
     res_bind (for_each (\<lambda>v. res_bind (validate_sha256_digest v) (\<lambda>_. Inr ()))
         [hp_blob_digest p, hp_text_digest p, hp_hydration_policy_contract_digest p]) (\<lambda>_.
     require (hp_language p \<in> {''en-GB'', ''zh-HK''}) (retrieval_error ''hydrated passage language is invalid'')
     (res_bind (check_bounded_text (256 * 1024) (hp_text p)) (\<lambda>_.
     res_bind (utf8_encode (cps_of (hp_text p))) (\<lambda>encoded.
     require (digest_bytes encoded = hp_text_digest p) (retrieval_error ''hydrated passage text digest differs'')
     (res_bind (for_each (\<lambda>v. require (\<not> v < 0) (retrieval_error ''value must be non-negative'') (Inr ()))
         [hp_byte_start p, hp_byte_end p]) (\<lambda>_.
     require (hp_byte_start p = 0 \<and> hp_byte_end p = int (length encoded))
       (retrieval_error ''fixture hydration must cover the exact governed object bytes'')
     (res_bind (require_token (hp_rights_state p)) (\<lambda>_.
     res_bind (require_token (hp_lifecycle_state p)) (\<lambda>_.
     require (hp_trust_scope p = OBSERVED) (retrieval_error ''hydrated factual bytes require OBSERVED trust'')
     (Inr ())))))))))))"

definition HydratedRetrievalPassage_canonical_value :: "HydratedRetrievalPassage \<Rightarrow> pyval" where
  "HydratedRetrievalPassage_canonical_value p = obj
     [(''passage_id'', jtext (hp_passage_id p)),
      (''admission_id'', jtext (hp_admission_id p)),
      (''blob_digest'', jtext (hp_blob_digest p)),
      (''language'', jtext (hp_language p)),
      (''text'', jtext (hp_text p)),
      (''text_digest'', jtext (hp_text_digest p)),
      (''hydration_policy_contract_digest'', jtext (hp_hydration_policy_contract_digest p)),
      (''access_decision_id'', jtext (hp_access_decision_id p)),
      (''byte_start'', jnum (hp_byte_start p)),
      (''byte_end'', jnum (hp_byte_end p)),
      (''rights_state'', jtext (hp_rights_state p)),
      (''lifecycle_state'', jtext (hp_lifecycle_state p)),
      (''trust_scope'', jtext (TrustScope_value (hp_trust_scope p)))]"

section \<open>Contexts, failures and results\<close>

record RetrievalContextV2 =
  rc_context_id :: string
  rc_request_id :: string
  rc_tool_name :: string
  rc_tool_version :: string
  rc_policy_digest :: string
  rc_query_digest :: string
  rc_outcome :: RetrievalOutcome
  rc_projection :: RetrievalProjectionMetadata
  rc_branches :: "RetrievalBranchExecution list"
  rc_retained_candidates :: "FusedRetrievalCandidate list"
  rc_exclusions :: "RetrievalExclusion list"
  rc_hydrated_passages :: "HydratedRetrievalPassage list"
  rc_total_context_bytes :: int
  rc_truncated :: bool
  rc_recorded_at :: int

text \<open>The checks on the retained candidates and the exclusions.\<close>

definition context_ranking_ok :: "FusedRetrievalCandidate list \<Rightarrow> RetrievalExclusion list \<Rightarrow> unit res" where
  "context_ranking_ok retained exclusions =
     (let roots = map fc_dependency_root_id retained;
          exclusion_roots = map ex_dependency_root_id exclusions
      in require (\<not> 12 < length retained)
           (retrieval_error ''retained candidates exceed fixed context bound'')
         (require (map fc_final_rank retained = [1..int (length retained)])
           (retrieval_error ''retained candidate ranks must be contiguous'')
         (require (distinct roots)
           (retrieval_error ''retained candidates must be dependency-deduplicated'')
         (require (sorted_unique exclusion_roots)
           (retrieval_error ''retrieval exclusions must be sorted and unique'')
         (require (set roots \<inter> set exclusion_roots = {})
           (retrieval_error ''a dependency root cannot be retained and excluded'')
         (Inr ()))))))"

definition RetrievalContextV2_post_init :: "RetrievalContextV2 \<Rightarrow> unit res" where
  "RetrievalContextV2_post_init c =
     require (rc_tool_name c = ''find_related_event_candidates'') (retrieval_error ''unknown retrieval tool'')
     (res_bind (require_token (rc_tool_version c)) (\<lambda>_.
     res_bind (for_each (\<lambda>v. res_bind (validate_sha256_digest v) (\<lambda>_. Inr ()))
         [rc_policy_digest c, rc_query_digest c]) (\<lambda>_.
     require (map be_branch (rc_branches c) = all_branches)
       (retrieval_error ''all four retrieval branches must execute exactly once'')
     (require (\<not> 5000 < sum_list (map be_elapsed_ms (rc_branches c)))
       (retrieval_error ''retrieval branch evidence exceeds the shared tool timeout'')
     (res_bind (context_ranking_ok (rc_retained_candidates c) (rc_exclusions c)) (\<lambda>_.
     require (sorted_unique (map hp_passage_id (rc_hydrated_passages c)))
       (retrieval_error ''hydrated passages must be sorted and unique'')
     (require (\<not> rc_total_context_bytes c < 0)
       (retrieval_error ''context byte count must be non-negative'')
     (require (\<not> 262144 < rc_total_context_bytes c)
       (retrieval_error ''retrieval context exceeds fixed byte bound'')
     (require (\<not> rc_truncated c)
       (retrieval_state_error ''a truncated fixture context cannot be complete'')
     (require (\<not> (rc_outcome c = COMPLETE \<and> rc_retained_candidates c = []))
       (retrieval_state_error ''complete retrieval requires a retained candidate'')
     (require (rc_recorded_at c = pm_serving_time (rc_projection c))
       (retrieval_state_error ''context time differs from projection serving time'')
     (Inr ()))))))))))))"

definition RetrievalContextV2_canonical_value :: "RetrievalContextV2 \<Rightarrow> pyval" where
  "RetrievalContextV2_canonical_value c = obj
     [(''contract'', jtext ''newsroom-retrieval-context-v2''),
      (''context_id'', jtext (rc_context_id c)),
      (''request_id'', jtext (rc_request_id c)),
      (''tool_name'', jtext (rc_tool_name c)),
      (''tool_version'', jtext (rc_tool_version c)),
      (''policy_digest'', jtext (rc_policy_digest c)),
      (''query_digest'', jtext (rc_query_digest c)),
      (''outcome'', jtext (RetrievalOutcome_value (rc_outcome c))),
      (''projection'', RetrievalProjectionMetadata_canonical_value (rc_projection c)),
      (''branches'', jlist (map RetrievalBranchExecution_canonical_value (rc_branches c))),
      (''retained_candidates'', jlist (map FusedRetrievalCandidate_canonical_value (rc_retained_candidates c))),
      (''exclusions'', jlist (map RetrievalExclusion_canonical_value (rc_exclusions c))),
      (''hydrated_passages'', jlist (map HydratedRetrievalPassage_canonical_value (rc_hydrated_passages c))),
      (''total_context_bytes'', jnum (rc_total_context_bytes c)),
      (''truncated'', jflag (rc_truncated c)),
      (''recorded_at'', jtext (UtcTimestamp_to_text (rc_recorded_at c)))]"

definition context_digest :: "RetrievalContextV2 \<Rightarrow> string res" where
  "context_digest c = digest_canonical (RetrievalContextV2_canonical_value c)"

record RetrievalFailure =
  rf_request_id :: string
  rf_context_id :: string
  rf_outcome :: RetrievalOutcome
  rf_reason_code :: string
  rf_policy_digest :: string
  rf_recorded_at :: int

definition RetrievalFailure_post_init :: "RetrievalFailure \<Rightarrow> unit res" where
  "RetrievalFailure_post_init f =
     require (rf_outcome f \<noteq> COMPLETE) (retrieval_error ''retrieval failure requires a non-complete outcome'')
     (res_bind (require_token (rf_reason_code f)) (\<lambda>_.
     res_bind (validate_sha256_digest (rf_policy_digest f)) (\<lambda>_. Inr ())))"

definition RetrievalFailure_canonical_value :: "RetrievalFailure \<Rightarrow> pyval" where
  "RetrievalFailure_canonical_value f = obj
     [(''contract'', jtext ''newsroom-retrieval-failure-v1''),
      (''request_id'', jtext (rf_request_id f)),
      (''context_id'', jtext (rf_context_id f)),
      (''outcome'', jtext (RetrievalOutcome_value (rf_outcome f))),
      (''reason_code'', jtext (rf_reason_code f)),
      (''policy_digest'', jtext (rf_policy_digest f)),
      (''recorded_at'', jtext (UtcTimestamp_to_text (rf_recorded_at f)))]"

record FindRelatedEventCandidatesResult =
  fr_request :: FindRelatedEventCandidatesRequest
  fr_context :: "RetrievalContextV2 option"
  fr_failure :: "RetrievalFailure option"
  fr_replayed :: bool

definition FindRelatedEventCandidatesResult_post_init :: "FindRelatedEventCandidatesResult \<Rightarrow> unit res" where
  "FindRelatedEventCandidatesResult_post_init r =
     require ((fr_context r = None) \<noteq> (fr_failure r = None))
       (retrieval_error ''retrieval result requires exactly one context or failure'')
     (res_bind (case fr_context r of
         None \<Rightarrow> Inr ()
       | Some c \<Rightarrow>
           require (rc_request_id c = rq_request_id (fr_request r) \<and> rc_context_id c = rq_context_id (fr_request r))
             (retrieval_error ''retrieval result context identity differs from request'') (Inr ())) (\<lambda>_.
     (case fr_failure r of
         None \<Rightarrow> Inr ()
       | Some f \<Rightarrow>
           require (rf_request_id f = rq_request_id (fr_request r) \<and> rf_context_id f = rq_context_id (fr_request r))
             (retrieval_error ''retrieval result failure identity differs from request'') (Inr ()))))"

text \<open>A result that satisfies its own checks has one of the two; \<open>None\<close> is the failed \<open>assert\<close>.\<close>

definition result_outcome :: "FindRelatedEventCandidatesResult \<Rightarrow> RetrievalOutcome option" where
  "result_outcome r =
     (case fr_context r of Some c \<Rightarrow> Some (rc_outcome c) | None \<Rightarrow> map_option rf_outcome (fr_failure r))"

definition sorted_branch_hits :: "RetrievalBranchHit list \<Rightarrow> RetrievalBranchHit list" where
  "sorted_branch_hits hs = sort_key hit_key hs"

end
