(* ===== verification/Retrieval_Fusion.thy ===== *)
theory Retrieval_Fusion
  imports Retrieval_Models
begin

text \<open>
  \<open>src/newsroom/retrieval/policy.py\<close>, the fixture records of \<open>src/newsroom/retrieval/fixture_v2.py\<close>
  and \<open>src/newsroom/retrieval/fusion.py\<close>: the server-owned bounds of hybrid retrieval and reciprocal
  rank fusion of the four branches. Fractions are HOL rationals; a dict is an association list in
  insertion order; \<open>sorted\<close> is \<open>sort_key\<close>, stable as in Python. What the fixture contract checks
  against the generated fixture files is not modelled: fusion is proved for every fixture.
\<close>

section \<open>The policy\<close>

datatype RelationRecordType = SOURCE_REVISION | EVENT_HYPOTHESIS_VERSION | STORY_CANDIDATE_VERSION

fun RelationRecordType_value :: "RelationRecordType \<Rightarrow> string" where
  "RelationRecordType_value SOURCE_REVISION = ''SOURCE_REVISION''"
| "RelationRecordType_value EVENT_HYPOTHESIS_VERSION = ''EVENT_HYPOTHESIS_VERSION''"
| "RelationRecordType_value STORY_CANDIDATE_VERSION = ''STORY_CANDIDATE_VERSION''"

datatype RelationPredicate =
    SAME_EVENT_AS | DEVELOPMENT_OF | SAME_PROCESS_AS | CORRECTS | SUPERSEDES | SUPPORTS | DISPUTES
  | CONTRADICTS | ABOUT_EVENT

fun RelationPredicate_value :: "RelationPredicate \<Rightarrow> string" where
  "RelationPredicate_value SAME_EVENT_AS = ''SAME_EVENT_AS''"
| "RelationPredicate_value DEVELOPMENT_OF = ''DEVELOPMENT_OF''"
| "RelationPredicate_value SAME_PROCESS_AS = ''SAME_PROCESS_AS''"
| "RelationPredicate_value CORRECTS = ''CORRECTS''"
| "RelationPredicate_value SUPERSEDES = ''SUPERSEDES''"
| "RelationPredicate_value SUPPORTS = ''SUPPORTS''"
| "RelationPredicate_value DISPUTES = ''DISPUTES''"
| "RelationPredicate_value CONTRADICTS = ''CONTRADICTS''"
| "RelationPredicate_value ABOUT_EVENT = ''ABOUT_EVENT''"

record HybridRetrievalPolicy =
  po_policy_id :: string
  po_policy_version :: string
  po_tool_name :: string
  po_tool_version :: string
  po_purpose :: string
  po_fusion_version :: string
  po_graph_depth :: int
  po_relation_fanout :: int
  po_branch_result_limit :: int
  po_retained_candidate_limit :: int
  po_date_window_seconds :: int
  po_max_projection_age_seconds :: int
  po_timeout_ms :: int
  po_response_byte_limit :: int
  po_reciprocal_rank_k :: int
  po_allowed_endpoint_types :: "RelationRecordType set"
  po_allowed_predicates :: "RelationPredicate set"
  po_allowed_trust_scopes :: "TrustScope set"

definition HybridRetrievalPolicy_post_init :: "HybridRetrievalPolicy \<Rightarrow> unit res" where
  "HybridRetrievalPolicy_post_init p =
     res_bind (require_tokens [po_policy_id p, po_policy_version p, po_tool_name p, po_tool_version p,
                               po_purpose p, po_fusion_version p]) (\<lambda>_.
     require (po_tool_name p = ''find_related_event_candidates'')
       (retrieval_error ''retrieval policy exposes an unknown tool'')
     (res_bind (for_each (\<lambda>(actual, expected). require (actual = expected)
          (retrieval_error ''value differs from the accepted fixture bound'') (Inr ()))
        [(po_graph_depth p, 2), (po_relation_fanout p, 32), (po_branch_result_limit p, 8),
         (po_retained_candidate_limit p, 12), (po_date_window_seconds p, 31 * 24 * 60 * 60),
         (po_max_projection_age_seconds p, 60 * 60), (po_timeout_ms p, 5000),
         (po_response_byte_limit p, 262144), (po_reciprocal_rank_k p, 60)]) (\<lambda>_.
     require (po_allowed_endpoint_types p = {EVENT_HYPOTHESIS_VERSION})
       (retrieval_error ''retrieval endpoint allow-list is not exact'')
     (require (po_allowed_predicates p = {DEVELOPMENT_OF})
       (retrieval_error ''retrieval predicate allow-list is not exact'')
     (require (po_allowed_trust_scopes p = {OBSERVED, ADMITTED})
       (retrieval_error ''retrieval trust allow-list is not exact'')
     (Inr ()))))))"

definition required_branches :: "HybridRetrievalPolicy \<Rightarrow> RetrievalBranch list" where
  "required_branches p = all_branches"

text \<open>\<open>datetime\<close> arithmetic raises outside the years 1 to 9999.\<close>

definition shift_instant :: "int \<Rightarrow> int \<Rightarrow> int res" where
  "shift_instant t seconds =
     require (instant (t + seconds * 1000000)) (Exn OverflowError ''date value out of range'')
       (Inr (t + seconds * 1000000))"

definition date_window_start :: "HybridRetrievalPolicy \<Rightarrow> int \<Rightarrow> int res" where
  "date_window_start p query_valid_time = shift_instant query_valid_time (- po_date_window_seconds p)"

definition projection_freshness_deadline :: "HybridRetrievalPolicy \<Rightarrow> int \<Rightarrow> int res" where
  "projection_freshness_deadline p validation_recorded_at =
     shift_instant validation_recorded_at (po_max_projection_age_seconds p)"

definition HybridRetrievalPolicy_canonical_value :: "HybridRetrievalPolicy \<Rightarrow> pyval" where
  "HybridRetrievalPolicy_canonical_value p = obj
     [(''policy_id'', jtext (po_policy_id p)),
      (''policy_version'', jtext (po_policy_version p)),
      (''tool_name'', jtext (po_tool_name p)),
      (''tool_version'', jtext (po_tool_version p)),
      (''purpose'', jtext (po_purpose p)),
      (''fusion_version'', jtext (po_fusion_version p)),
      (''graph_depth'', jnum (po_graph_depth p)),
      (''relation_fanout'', jnum (po_relation_fanout p)),
      (''branch_result_limit'', jnum (po_branch_result_limit p)),
      (''retained_candidate_limit'', jnum (po_retained_candidate_limit p)),
      (''date_window_seconds'', jnum (po_date_window_seconds p)),
      (''max_projection_age_seconds'', jnum (po_max_projection_age_seconds p)),
      (''timeout_ms'', jnum (po_timeout_ms p)),
      (''response_byte_limit'', jnum (po_response_byte_limit p)),
      (''reciprocal_rank_k'', jnum (po_reciprocal_rank_k p)),
      (''allowed_endpoint_types'',
         jlist (map jtext (sorted_list_of_set (RelationRecordType_value ` po_allowed_endpoint_types p)))),
      (''allowed_predicates'',
         jlist (map jtext (sorted_list_of_set (RelationPredicate_value ` po_allowed_predicates p)))),
      (''allowed_trust_scopes'',
         jlist (map jtext (sorted_list_of_set (TrustScope_value ` po_allowed_trust_scopes p)))),
      (''required_branches'', jlist (map jtext (map RetrievalBranch_value (required_branches p)))),
      (''generation_selection'', jtext ''AUTHORITY_SELECTED_ACTIVE_COMPLETE''),
      (''required_gap_count'', jnum 0),
      (''required_dead_letter_count'', jnum 0),
      (''hydration_authority'', jtext ''sqlite-ledger-and-governed-objects''),
      (''fusion_is_authority'', jflag False)]"

definition HybridRetrievalPolicy_contract_digest :: "HybridRetrievalPolicy \<Rightarrow> string res" where
  "HybridRetrievalPolicy_contract_digest p = digest_canonical (HybridRetrievalPolicy_canonical_value p)"

definition HYBRID_FIXTURE_POLICY_V1 :: HybridRetrievalPolicy where
  "HYBRID_FIXTURE_POLICY_V1 =
     \<lparr> po_policy_id = ''hybrid_fixture_retrieval_v1'',
       po_policy_version = ''hybrid-fixture-retrieval-policy-v1'',
       po_tool_name = ''find_related_event_candidates'',
       po_tool_version = ''find-related-event-candidates-v1'',
       po_purpose = ''development-context-retrieval'',
       po_fusion_version = ''hybrid_fixture_fusion_v1'',
       po_graph_depth = 2, po_relation_fanout = 32, po_branch_result_limit = 8,
       po_retained_candidate_limit = 12, po_date_window_seconds = 31 * 24 * 60 * 60,
       po_max_projection_age_seconds = 60 * 60, po_timeout_ms = 5000, po_response_byte_limit = 262144,
       po_reciprocal_rank_k = 60,
       po_allowed_endpoint_types = {EVENT_HYPOTHESIS_VERSION},
       po_allowed_predicates = {DEVELOPMENT_OF},
       po_allowed_trust_scopes = {OBSERVED, ADMITTED} \<rparr>"

section \<open>The fixture\<close>

record FixtureDependencyRoot =
  fd_root_id :: string
  fd_candidate_version_id :: "string option"
  fd_dependency_ids :: "string list"
  fd_passage_ids :: "string list"
  fd_observed_at :: int
  fd_exclusion_reason :: "RetrievalExclusionReason option"

definition FixtureDependencyRoot_post_init :: "FixtureDependencyRoot \<Rightarrow> unit res" where
  "FixtureDependencyRoot_post_init r =
     require (fd_root_id r \<noteq> []) (retrieval_error ''fixture dependency root is invalid'')
     (res_bind (for_each (\<lambda>v. require (sorted_unique v)
          (retrieval_error ''fixture value must be sorted and unique'') (Inr ()))
        [fd_dependency_ids r, fd_passage_ids r]) (\<lambda>_.
     require (\<not> (fd_candidate_version_id r = None \<and> fd_exclusion_reason r = None))
       (retrieval_error ''non-candidate fixture roots require an exclusion reason'')
     (Inr ())))"

record IntegratedFixtureV2RetrievalContract =
  fx_contract_id :: string
  fx_contract_version :: string
  fx_source_fixture_digest :: string
  fx_projection_fixture_digest :: string
  fx_policy_digest :: string
  fx_fixture_id :: string
  fx_relation_fixture_binding_id :: string
  fx_canonical_process_id :: string
  fx_query_revision_id :: string
  fx_prior_revision_id :: string
  fx_query_valid_time :: int
  fx_query_hypothesis_version_id :: string
  fx_prior_hypothesis_version_id :: string
  fx_prior_candidate_version_id :: string
  fx_fulltext_query_ids :: "string list"
  fx_vector_query_id :: string
  fx_roots :: "FixtureDependencyRoot list"

text \<open>A dict comprehension: the last entry of a key wins.\<close>

definition root_by_id :: "IntegratedFixtureV2RetrievalContract \<Rightarrow> (string \<rightharpoonup> FixtureDependencyRoot)" where
  "root_by_id f = map_of (rev (map (\<lambda>r. (fd_root_id r, r)) (fx_roots f)))"

section \<open>Fusion\<close>

text \<open>\<open>grouped[key].append(value)\<close> on a \<open>defaultdict(list)\<close>.\<close>

fun dict_append :: "'k \<Rightarrow> 'v \<Rightarrow> ('k \<times> 'v list) list \<Rightarrow> ('k \<times> 'v list) list" where
  "dict_append k v [] = [(k, [v])]"
| "dict_append k v ((k', vs) # d) = (if k' = k then (k', vs @ [v]) # d else (k', vs) # dict_append k v d)"

fun group_hits :: "(string \<rightharpoonup> FixtureDependencyRoot) \<Rightarrow> RetrievalBranchHit list
    \<Rightarrow> (string \<times> RetrievalBranchHit list) list \<Rightarrow> (string \<times> RetrievalBranchHit list) list res" where
  "group_hits roots [] grouped = Inr grouped"
| "group_hits roots (hit # hits) grouped =
     require (roots (bh_dependency_root_id hit) \<noteq> None)
       (retrieval_error ''branch hit has no checked dependency root'')
     (group_hits roots hits (dict_append (bh_dependency_root_id hit) hit grouped))"

definition select_hit :: "(RetrievalBranch \<times> RetrievalBranchHit) list \<Rightarrow> RetrievalBranchHit
    \<Rightarrow> (RetrievalBranch \<times> RetrievalBranchHit) list" where
  "select_hit selected hit =
     (case map_of selected (bh_branch hit) of
        None \<Rightarrow> dict_set (bh_branch hit) hit selected
      | Some current \<Rightarrow>
          if (bh_rank hit, bh_result_key hit) < (bh_rank current, bh_result_key current)
          then dict_set (bh_branch hit) hit selected else selected)"

definition best_hit_per_branch :: "RetrievalBranchHit list \<Rightarrow> RetrievalBranchHit list" where
  "best_hit_per_branch hits = sort_key hit_key (map snd (foldl select_hit [] hits))"

definition outside_date_window :: "int \<Rightarrow> int \<Rightarrow> int \<Rightarrow> bool" where
  "outside_date_window observed_at window_start query_valid_time =
     (observed_at < window_start \<or> query_valid_time < observed_at)"

fun exclusion_detail :: "RetrievalExclusionReason \<Rightarrow> string" where
  "exclusion_detail SELF_QUERY = ''The result belongs to the current query revision and cannot be prior context.''"
| "exclusion_detail INCOMPATIBLE_FORMAL_ID = ''The formal process identifier differs from the checked query authority.''"
| "exclusion_detail INCOMPATIBLE_JURISDICTION = ''The result belongs to a different checked jurisdiction/year lineage.''"
| "exclusion_detail _ = ''The checked fixture policy excluded this dependency root.''"

definition make_exclusion :: "string \<Rightarrow> RetrievalExclusionReason \<Rightarrow> RetrievalBranchHit list \<Rightarrow> string
    \<Rightarrow> RetrievalExclusion res" where
  "make_exclusion root_id reason hits detail =
     (let x = \<lparr> ex_dependency_root_id = root_id, ex_reason = reason, ex_branch_hits = hits, ex_detail = detail \<rparr>
      in res_bind (RetrievalExclusion_post_init x) (\<lambda>_. Inr x))"

type_synonym fusion_candidate = "rat \<times> string \<times> RetrievalBranchHit list"

definition reciprocal_rank_sum :: "int \<Rightarrow> RetrievalBranchHit list \<Rightarrow> rat res" where
  "reciprocal_rank_sum k hits =
     require (list_all (\<lambda>h. k + bh_rank h \<noteq> 0) hits) (Exn ZeroDivisionError ''Fraction(1, 0)'')
       (Inr (sum_list (map (\<lambda>h. Fract 1 (k + bh_rank h)) hits)))"

text \<open>The body of the loop over the sorted roots: an exclusion or a scored candidate.\<close>

definition classify_root :: "HybridRetrievalPolicy \<Rightarrow> IntegratedFixtureV2RetrievalContract \<Rightarrow> int
    \<Rightarrow> (string \<times> RetrievalBranchHit list) list \<Rightarrow> string \<Rightarrow> (RetrievalExclusion + fusion_candidate) res" where
  "classify_root policy fixture window_start grouped root_id =
     res_bind (res_of_option (Exn KeyError root_id) (root_by_id fixture root_id)) (\<lambda>root.
     res_bind (res_of_option (Exn KeyError root_id) (map_of grouped root_id)) (\<lambda>group.
     let hits = best_hit_per_branch group in
     if outside_date_window (fd_observed_at root) window_start (fx_query_valid_time fixture)
     then res_bind (make_exclusion root_id OUTSIDE_TEMPORAL_SCOPE hits
            ''The dependency root falls outside the server-owned retrieval date window.'') (\<lambda>x. Inr (Inl x))
     else case fd_exclusion_reason root of
       Some reason \<Rightarrow>
         res_bind (make_exclusion root_id reason hits (exclusion_detail reason)) (\<lambda>x. Inr (Inl x))
     | None \<Rightarrow>
         res_bind (reciprocal_rank_sum (po_reciprocal_rank_k policy) hits) (\<lambda>score.
         require (\<not> score \<le> 0) (retrieval_error ''retained candidate has no fusion evidence'')
           (Inr (Inr (score, root_id, hits))))))"

definition candidate_order :: "fusion_candidate \<Rightarrow> rat \<times> string" where
  "candidate_order c = (- fst c, fst (snd c))"

definition retain_candidate :: "IntegratedFixtureV2RetrievalContract \<Rightarrow> nat \<times> fusion_candidate
    \<Rightarrow> FusedRetrievalCandidate res" where
  "retain_candidate fixture = (\<lambda>(final_rank, score, root_id, hits).
     res_bind (res_of_option (Exn KeyError root_id) (root_by_id fixture root_id)) (\<lambda>root.
     res_bind (ReciprocalRankScore_from_fraction score) (\<lambda>s.
     FusedRetrievalCandidate_post_init
       \<lparr> fc_dependency_root_id = root_id,
         fc_candidate_version_id = fd_candidate_version_id root,
         fc_contributing_branches = sorted_branches (map bh_branch hits),
         fc_branch_hits = hits,
         fc_dependency_ids = fd_dependency_ids root,
         fc_score = s,
         fc_final_rank = int final_rank \<rparr>)))"

definition bound_exclusion :: "fusion_candidate \<Rightarrow> RetrievalExclusion res" where
  "bound_exclusion = (\<lambda>(score, root_id, hits).
     make_exclusion root_id RESULT_BOUND hits
       ''The server-owned retained-candidate bound excluded this dependency root.'')"

definition fuse_fixture_candidates :: "RetrievalBranchExecution list \<Rightarrow> HybridRetrievalPolicy
    \<Rightarrow> IntegratedFixtureV2RetrievalContract \<Rightarrow> (FusedRetrievalCandidate list \<times> RetrievalExclusion list) res" where
  "fuse_fixture_candidates executions policy fixture =
     require (map be_branch executions = required_branches policy)
       (retrieval_error ''fusion requires all four branches exactly once'')
     (res_bind (group_hits (root_by_id fixture) (concat (map be_hits executions)) []) (\<lambda>grouped.
     res_bind (date_window_start policy (fx_query_valid_time fixture)) (\<lambda>window_start.
     res_bind (res_map (classify_root policy fixture window_start grouped) (sort (map fst grouped))) (\<lambda>entries.
     let candidates = sort_key candidate_order (concat (map (\<lambda>e. case e of Inl x \<Rightarrow> [] | Inr c \<Rightarrow> [c]) entries));
         excluded = concat (map (\<lambda>e. case e of Inl x \<Rightarrow> [x] | Inr c \<Rightarrow> []) entries);
         bound = nat (po_retained_candidate_limit policy)
     in res_bind (res_map (retain_candidate fixture) (List.enumerate 1 (take bound candidates))) (\<lambda>retained.
        res_bind (res_map bound_exclusion (drop bound candidates)) (\<lambda>bounded.
        Inr (retained, sort_key ex_dependency_root_id (excluded @ bounded))))))))"

end
