(* ===== verification/Retrieval_Fusion_Facts.thy ===== *)
theory Retrieval_Fusion_Facts
  imports Retrieval_Fusion "HOL-Library.Multiset"
begin

text \<open>
  What reciprocal rank fusion computes. The specification is \<open>root_score\<close> (one reciprocal per branch,
  of the best rank that branch gave) and \<open>ranking\<close> (the eligible roots by decreasing score, then by
  identity); \<open>fused_retained\<close> and \<open>fused_exclusions\<close> say that a fusion that returns has retained a
  prefix of the ranking and excluded everything else.
\<close>

lemma branch_value_inj [simp]: "RetrievalBranch_value a = RetrievalBranch_value b \<longleftrightarrow> a = b"
  by (cases a; cases b) simp_all

section \<open>Grouping\<close>

lemma map_of_dict_append:
  "map_of (dict_append k v d) = (map_of d)(k \<mapsto> (case map_of d k of None \<Rightarrow> [v] | Some vs \<Rightarrow> vs @ [v]))"
  by (induction k v d rule: dict_append.induct) (auto simp: fun_eq_iff)

lemma dict_append_keys: "fst ` set (dict_append k v d) = insert k (fst ` set d)"
  by (induction k v d rule: dict_append.induct) auto

lemma dict_append_distinct: "distinct (map fst d) \<Longrightarrow> distinct (map fst (dict_append k v d))"
proof (induction k v d rule: dict_append.induct)
  case (2 k v k' vs d)
  then show ?case using dict_append_keys [of k v d] by auto
qed simp

abbreviation group_all :: "RetrievalBranchHit list \<Rightarrow> (string \<times> RetrievalBranchHit list) list" where
  "group_all hits \<equiv> foldl (\<lambda>g h. dict_append (bh_dependency_root_id h) h g) [] hits"

lemma group_hits_Inr_iff:
  "group_hits roots hits [] = Inr g \<longleftrightarrow>
     (\<forall>h \<in> set hits. roots (bh_dependency_root_id h) \<noteq> None) \<and> g = group_all hits"
proof -
  have "group_hits roots hits d = Inr g \<longleftrightarrow> (\<forall>h \<in> set hits. roots (bh_dependency_root_id h) \<noteq> None) \<and>
      g = foldl (\<lambda>g h. dict_append (bh_dependency_root_id h) h g) d hits" for d
    by (induction hits arbitrary: d) (auto simp: res_simps)
  then show ?thesis .
qed

lemma group_hits_Inl:
  "group_hits roots hits d = Inl e \<Longrightarrow> e = retrieval_error ''branch hit has no checked dependency root''"
  by (induction hits arbitrary: d) (auto simp: require_def split: if_splits)

lemma group_all_map:
  "map_of (group_all hits) r =
     (let hs = filter (\<lambda>h. bh_dependency_root_id h = r) hits in if hs = [] then None else Some hs)"
  by (induction hits rule: rev_induct) (auto simp: map_of_dict_append Let_def)

lemma group_all_keys: "fst ` set (group_all hits) = bh_dependency_root_id ` set hits"
  by (induction hits rule: rev_induct) (auto simp: dict_append_keys)

lemma group_all_distinct: "distinct (map fst (group_all hits))"
  by (induction hits rule: rev_induct) (auto simp: dict_append_distinct)

section \<open>The best hit of each branch\<close>

abbreviation hit_pos :: "RetrievalBranchHit \<Rightarrow> int \<times> string" where
  "hit_pos h \<equiv> (bh_rank h, bh_result_key h)"

definition best_of :: "RetrievalBranchHit list \<Rightarrow> RetrievalBranch \<times> RetrievalBranchHit \<Rightarrow> bool" where
  "best_of hits p = (snd p \<in> set hits \<and> bh_branch (snd p) = fst p \<and>
     (\<forall>h \<in> set hits. bh_branch h = fst p \<longrightarrow> hit_pos (snd p) \<le> hit_pos h))"

definition selection_ok :: "RetrievalBranchHit list \<Rightarrow> (RetrievalBranch \<times> RetrievalBranchHit) list \<Rightarrow> bool" where
  "selection_ok hits d = (distinct (map fst d) \<and> fst ` set d = bh_branch ` set hits \<and> (\<forall>p \<in> set d. best_of hits p))"

lemma dict_set_distinct_entries:
  "distinct (map fst d) \<Longrightarrow> set (dict_set k v d) = insert (k, v) {p \<in> set d. fst p \<noteq> k}"
proof (induction d)
  case (Cons p d)
  then show ?case by (cases p) (auto simp: image_iff)
qed simp

lemma select_hit_ok:
  assumes "selection_ok hits d"
  shows "selection_ok (hits @ [h]) (select_hit d h)"
proof -
  have d: "distinct (map fst d)" "fst ` set d = bh_branch ` set hits" "\<And>p. p \<in> set d \<Longrightarrow> best_of hits p"
    using assms by (auto simp: selection_ok_def)
  have set: "selection_ok (hits @ [h]) (dict_set (bh_branch h) h d)"
    if new: "\<And>c. map_of d (bh_branch h) = Some c \<Longrightarrow> hit_pos h < hit_pos c"
  proof -
    have "hit_pos h \<le> hit_pos k" if k: "k \<in> set hits" "bh_branch k = bh_branch h" for k
    proof -
      have "bh_branch h \<in> fst ` set d" unfolding d(2) using k by (metis imageI)
      then obtain c where c: "(bh_branch h, c) \<in> set d" by force
      then have "hit_pos h < hit_pos c" using new map_of_is_SomeI [OF d(1) c] by blast
      moreover have "hit_pos c \<le> hit_pos k" using d(3) [OF c] k by (simp add: best_of_def del: less_eq_prod_simp)
      ultimately show ?thesis by (meson order.trans less_imp_le)
    qed
    then have "best_of (hits @ [h]) (bh_branch h, h)" by (auto simp: best_of_def simp del: less_eq_prod_simp)
    moreover have "best_of (hits @ [h]) p" if "p \<in> set d" "fst p \<noteq> bh_branch h" for p
      using d(3) [OF that(1)] that(2) by (auto simp: best_of_def simp del: less_eq_prod_simp)
    ultimately show ?thesis
      using dict_set_distinct [OF d(1)] d(2) dict_set_keys [of "bh_branch h" h d]
      by (auto simp: selection_ok_def dict_set_distinct_entries [OF d(1)])
  qed
  show ?thesis
  proof (cases "map_of d (bh_branch h)")
    case None
    then show ?thesis using set by (simp add: select_hit_def)
  next
    case (Some c)
    then have c: "(bh_branch h, c) \<in> set d" by (rule map_of_SomeD)
    show ?thesis
    proof (cases "hit_pos h < hit_pos c")
      case True
      then show ?thesis using set Some by (simp add: select_hit_def)
    next
      case False
      then have le: "hit_pos c \<le> hit_pos h" by (rule leI)
      have "best_of (hits @ [h]) p" if "p \<in> set d" for p
      proof -
        have "snd p = c" if "fst p = bh_branch h"
          using that c \<open>p \<in> set d\<close> d(1) by (metis map_of_is_SomeI option.inject prod.collapse)
        then show ?thesis using d(3) [OF that] le by (auto simp: best_of_def simp del: less_eq_prod_simp)
      qed
      moreover have "bh_branch h \<in> fst ` set d" using c by force
      ultimately have "selection_ok (hits @ [h]) d" using d(1,2) by (auto simp: selection_ok_def)
      then show ?thesis using Some False by (simp add: select_hit_def del: less_prod_simp)
    qed
  qed
qed

lemma selection_all: "selection_ok hits (foldl select_hit [] hits)"
proof (induction hits rule: rev_induct)
  case (snoc h hits)
  then show ?case using select_hit_ok by simp
qed (simp add: selection_ok_def)


lemma best_hits:
  shows best_hits_branches: "bh_branch ` set (best_hit_per_branch hits) = bh_branch ` set hits"
    and best_hits_distinct: "distinct (map bh_branch (best_hit_per_branch hits))"
    and best_hits_least: "h \<in> set (best_hit_per_branch hits) \<Longrightarrow>
      h \<in> set hits \<and> (\<forall>k \<in> set hits. bh_branch k = bh_branch h \<longrightarrow> hit_pos h \<le> hit_pos k)"
    and best_hits_sorted: "sorted_unique (map hit_key (best_hit_per_branch hits))"
proof -
  define d where "d = foldl select_hit [] hits"
  have d: "distinct (map fst d)" "fst ` set d = bh_branch ` set hits" "\<And>p. p \<in> set d \<Longrightarrow> best_of hits p"
    using selection_all [of hits] by (auto simp: selection_ok_def d_def)
  have set: "set (best_hit_per_branch hits) = snd ` set d" by (simp add: best_hit_per_branch_def d_def)
  have br: "bh_branch (snd p) = fst p" if "p \<in> set d" for p using d(3) [OF that] by (simp add: best_of_def)
  then have keys: "map bh_branch (map snd d) = map fst d" by simp
  show "bh_branch ` set (best_hit_per_branch hits) = bh_branch ` set hits"
    unfolding set d(2) [symmetric] image_image using br by (auto intro: image_cong)
  have dm: "distinct (map bh_branch (map snd d))" unfolding keys by (rule d(1))
  have "mset (map bh_branch (best_hit_per_branch hits)) = mset (map bh_branch (map snd d))"
    by (simp only: best_hit_per_branch_def d_def [symmetric] mset_map mset_sort)
  then show dist: "distinct (map bh_branch (best_hit_per_branch hits))"
    using dm mset_eq_imp_distinct_iff by blast
  show "h \<in> set hits \<and> (\<forall>k \<in> set hits. bh_branch k = bh_branch h \<longrightarrow> hit_pos h \<le> hit_pos k)"
    if "h \<in> set (best_hit_per_branch hits)" for h
    using that d(3) unfolding set best_of_def by force
  have "distinct (map hit_key (best_hit_per_branch hits))"
    using dist by (auto simp: distinct_map inj_on_def hit_key_def)
  then show "sorted_unique (map hit_key (best_hit_per_branch hits))"
    by (simp add: sorted_unique_iff best_hit_per_branch_def)
qed


section \<open>Scores\<close>

text \<open>
  The specification: a root's score adds, for every branch that found it, the reciprocal of \<open>k\<close> plus
  the best rank that branch gave it.
\<close>

definition branch_ranks :: "RetrievalBranchHit list \<Rightarrow> string \<Rightarrow> RetrievalBranch \<Rightarrow> int list" where
  "branch_ranks hits r b = map bh_rank (filter (\<lambda>h. bh_dependency_root_id h = r \<and> bh_branch h = b) hits)"

definition root_score :: "int \<Rightarrow> RetrievalBranchHit list \<Rightarrow> string \<Rightarrow> rat" where
  "root_score k hits r =
     (\<Sum>b \<leftarrow> all_branches. if branch_ranks hits r b = [] then 0 else Fract 1 (k + Min (set (branch_ranks hits r b))))"

lemma all_branches_set: "set all_branches = UNIV" "distinct all_branches"
  by (auto simp: all_branches_def intro: RetrievalBranch.exhaust)

lemma best_rank:
  assumes "h \<in> set (best_hit_per_branch (filter (\<lambda>h. bh_dependency_root_id h = r) hits))"
  shows "branch_ranks hits r (bh_branch h) \<noteq> []" and "Min (set (branch_ranks hits r (bh_branch h))) = bh_rank h"
proof -
  have h: "h \<in> set hits" "bh_dependency_root_id h = r"
      "\<And>k. k \<in> set hits \<Longrightarrow> bh_dependency_root_id k = r \<Longrightarrow> bh_branch k = bh_branch h \<Longrightarrow> hit_pos h \<le> hit_pos k"
    using best_hits_least [OF assms] by auto
  then show "branch_ranks hits r (bh_branch h) \<noteq> []" by (auto simp: branch_ranks_def filter_empty_conv)
  show "Min (set (branch_ranks hits r (bh_branch h))) = bh_rank h"
  proof (rule Min_eqI)
    show "bh_rank h \<le> y" if "y \<in> set (branch_ranks hits r (bh_branch h))" for y
      using that h(3) by (fastforce simp: branch_ranks_def)
  qed (use h in \<open>auto simp: branch_ranks_def\<close>)
qed

lemma best_score:
  "sum_list (map (\<lambda>h. Fract 1 (k + bh_rank h)) (best_hit_per_branch (filter (\<lambda>h. bh_dependency_root_id h = r) hits)))
     = root_score k hits r"
proof -
  let ?hs = "filter (\<lambda>h. bh_dependency_root_id h = r) hits"
  let ?best = "best_hit_per_branch ?hs"
  define f where "f = (\<lambda>b. if branch_ranks hits r b = [] then 0 else Fract 1 (k + Min (set (branch_ranks hits r b))))"
  have eq: "Fract 1 (k + bh_rank h) = f (bh_branch h)" if "h \<in> set ?best" for h
    using best_rank [OF that] by (simp add: f_def)
  have zero: "f b = 0" if "b \<notin> bh_branch ` set ?best" for b
  proof -
    have "branch_ranks hits r b = []"
      using that unfolding best_hits_branches by (auto simp: branch_ranks_def filter_empty_conv)
    then show ?thesis by (simp add: f_def)
  qed
  have "sum_list (map (\<lambda>h. Fract 1 (k + bh_rank h)) ?best) = sum_list (map (f \<circ> bh_branch) ?best)"
    using eq by (intro arg_cong [of _ _ sum_list] map_cong) simp_all
  also have "\<dots> = sum_list (map f (map bh_branch ?best))" by (simp only: map_map)
  also have "\<dots> = sum f (set (map bh_branch ?best))"
    by (rule sum_list_distinct_conv_sum_set [OF best_hits_distinct])
  also have "\<dots> = sum f UNIV" using zero finite_set [of all_branches] by (intro sum.mono_neutral_left) (auto simp: all_branches_set)
  also have "\<dots> = sum_list (map f all_branches)"
    using all_branches_set by (metis sum_list_distinct_conv_sum_set)
  finally show ?thesis by (simp add: root_score_def f_def)
qed


section \<open>The ranking\<close>

lemma map_sort_key:
  assumes "\<And>x. x \<in> set xs \<Longrightarrow> k x = g (f x)"
  shows "map f (sort_key k xs) = sort_key g (map f xs)"
proof -
  have ins: "map f (insort_key k a ys) = insort_key g (f a) (map f ys)"
    if "k a = g (f a)" "\<And>y. y \<in> set ys \<Longrightarrow> k y = g (f y)" for a ys
    using that by (induction ys) auto
  show ?thesis using assms
  proof (induction xs)
    case (Cons x xs)
    then show ?case using ins [of x "sort_key k xs"] by simp
  qed simp
qed

definition eligible :: "IntegratedFixtureV2RetrievalContract \<Rightarrow> int \<Rightarrow> string \<Rightarrow> bool" where
  "eligible fixture window_start r =
     (case root_by_id fixture r of
        None \<Rightarrow> False
      | Some rt \<Rightarrow> \<not> outside_date_window (fd_observed_at rt) window_start (fx_query_valid_time fixture)
          \<and> fd_exclusion_reason rt = None)"

definition hit_roots :: "RetrievalBranchHit list \<Rightarrow> string list" where
  "hit_roots hits = sorted_list_of_set (bh_dependency_root_id ` set hits)"

definition root_order :: "int \<Rightarrow> RetrievalBranchHit list \<Rightarrow> string \<Rightarrow> rat \<times> string" where
  "root_order k hits r = (- root_score k hits r, r)"

definition ranking :: "int \<Rightarrow> IntegratedFixtureV2RetrievalContract \<Rightarrow> int \<Rightarrow> RetrievalBranchHit list \<Rightarrow> string list" where
  "ranking k fixture window_start hits =
     sort_key (root_order k hits) (filter (eligible fixture window_start) (hit_roots hits))"

text \<open>What the loop makes of one rt.\<close>

definition classified :: "int \<Rightarrow> IntegratedFixtureV2RetrievalContract \<Rightarrow> int \<Rightarrow> RetrievalBranchHit list \<Rightarrow> string
    \<Rightarrow> RetrievalExclusion + fusion_candidate \<Rightarrow> bool" where
  "classified k fixture window_start hits r e =
     (case e of
        Inl x \<Rightarrow> \<not> eligible fixture window_start r \<and> ex_dependency_root_id x = r \<and>
          (\<exists>rt. root_by_id fixture r = Some rt \<and>
             (if outside_date_window (fd_observed_at rt) window_start (fx_query_valid_time fixture)
              then ex_reason x = OUTSIDE_TEMPORAL_SCOPE else fd_exclusion_reason rt = Some (ex_reason x)))
      | Inr c \<Rightarrow> eligible fixture window_start r \<and> 0 < root_score k hits r \<and>
          c = (root_score k hits r, r, best_hit_per_branch (filter (\<lambda>h. bh_dependency_root_id h = r) hits)))"

lemma make_exclusion_Inr:
  "make_exclusion r reason hits detail = Inr x \<longleftrightarrow>
     x = \<lparr> ex_dependency_root_id = r, ex_reason = reason, ex_branch_hits = hits, ex_detail = detail \<rparr>
     \<and> RetrievalExclusion_post_init x = Inr ()"
  by (auto simp: make_exclusion_def Let_def res_simps)

lemma classify_root_Inr:
  assumes "classify_root policy fixture window_start (group_all hits) r = Inr e"
  shows "classified (po_reciprocal_rank_k policy) fixture window_start hits r e"
proof -
  obtain rt g where rt: "root_by_id fixture r = Some rt" and g: "map_of (group_all hits) r = Some g"
    using assms by (auto simp: classify_root_def res_simps)
  note body = assms [unfolded classify_root_def rt g res_of_option_simps res_bind_simps Let_def]
  have g': "g = filter (\<lambda>h. bh_dependency_root_id h = r) hits"
    using g by (auto simp: group_all_map Let_def split: if_splits)
  show ?thesis
    using body rt best_score [of "po_reciprocal_rank_k policy" r hits]
    by (auto simp: Let_def classified_def eligible_def res_simps make_exclusion_Inr reciprocal_rank_sum_def g'
        split: if_splits option.splits)
qed


abbreviation all_hits :: "RetrievalBranchExecution list \<Rightarrow> RetrievalBranchHit list" where
  "all_hits executions \<equiv> concat (map be_hits executions)"

definition candidates_of :: "(RetrievalExclusion + fusion_candidate) list \<Rightarrow> fusion_candidate list" where
  "candidates_of entries = concat (map (\<lambda>e. case e of Inl x \<Rightarrow> [] | Inr c \<Rightarrow> [c]) entries)"

definition exclusions_of :: "(RetrievalExclusion + fusion_candidate) list \<Rightarrow> RetrievalExclusion list" where
  "exclusions_of entries = concat (map (\<lambda>e. case e of Inl x \<Rightarrow> [x] | Inr c \<Rightarrow> []) entries)"

lemma group_all_sorted: "sort (map fst (group_all hits)) = hit_roots hits"
proof -
  have "set (map fst (group_all hits)) = bh_dependency_root_id ` set hits"
    unfolding set_map by (rule group_all_keys)
  then have "hit_roots hits = sort (remdups (map fst (group_all hits)))"
    unfolding hit_roots_def by (simp only: sorted_list_of_set_sort_remdups [symmetric])
  then show ?thesis by (simp only: distinct_remdups_id [OF group_all_distinct])
qed

lemma hit_roots [simp]: "set (hit_roots hits) = bh_dependency_root_id ` set hits" "distinct (hit_roots hits)"
    "sorted (hit_roots hits)"
  by (simp_all add: hit_roots_def)

lemma entries_sets:
  "c \<in> set (candidates_of entries) \<longleftrightarrow> Inr c \<in> set entries"
  "x \<in> set (exclusions_of entries) \<longleftrightarrow> Inl x \<in> set entries"
proof (induction entries)
  case (Cons e entries)
  {
    case 1
    show ?case using Cons(1) by (cases e) (simp_all add: candidates_of_def del: set_concat)
  next
    case 2
    show ?case using Cons(2) by (cases e) (simp_all add: exclusions_of_def del: set_concat)
  }
qed (simp_all add: candidates_of_def exclusions_of_def)

lemma classified_lists:
  assumes "list_all2 (classified k fixture ws hits) roots entries"
  shows "map (\<lambda>c. fst (snd c)) (candidates_of entries) = filter (eligible fixture ws) roots"
    and "map ex_dependency_root_id (exclusions_of entries) = filter (\<lambda>r. \<not> eligible fixture ws r) roots"
  using assms
  by (induction roots entries rule: list_all2_induct)
     (simp_all add: candidates_of_def exclusions_of_def classified_def split: sum.splits)

lemma classified_entry:
  assumes "list_all2 (classified k fixture ws hits) roots entries" and "e \<in> set entries"
  obtains r where "r \<in> set roots" and "classified k fixture ws hits r e"
  using assms by (induction roots entries rule: list_all2_induct) auto

lemma classified_candidate:
  assumes "list_all2 (classified k fixture ws hits) roots entries" and "c \<in> set (candidates_of entries)"
  obtains r where "r \<in> set roots" and "0 < root_score k hits r"
    and "c = (root_score k hits r, r, best_hit_per_branch (filter (\<lambda>h. bh_dependency_root_id h = r) hits))"
proof -
  have "Inr c \<in> set entries" using assms(2) by (simp only: entries_sets)
  then obtain r where "r \<in> set roots" "classified k fixture ws hits r (Inr c)"
    by (rule classified_entry [OF assms(1)])
  then show thesis using that by (simp add: classified_def)
qed

lemma classified_exclusion:
  assumes "list_all2 (classified k fixture ws hits) roots entries" and "x \<in> set (exclusions_of entries)"
  shows "classified k fixture ws hits (ex_dependency_root_id x) (Inl x)"
proof -
  obtain r where "classified k fixture ws hits r (Inl x)"
    using classified_entry [OF assms(1)] assms(2) unfolding entries_sets by blast
  moreover from this have "ex_dependency_root_id x = r" by (simp add: classified_def)
  ultimately show ?thesis by simp
qed

text \<open>Everything a fusion that returned has computed.\<close>

definition fused :: "RetrievalBranchExecution list \<Rightarrow> HybridRetrievalPolicy \<Rightarrow> IntegratedFixtureV2RetrievalContract
    \<Rightarrow> int \<Rightarrow> (RetrievalExclusion + fusion_candidate) list \<Rightarrow> fusion_candidate list \<Rightarrow> RetrievalExclusion list
    \<Rightarrow> FusedRetrievalCandidate list \<Rightarrow> RetrievalExclusion list \<Rightarrow> bool" where
  "fused executions policy fixture ws entries candidates bounded retained exclusions =
     (map be_branch executions = all_branches \<and>
      (\<forall>h \<in> set (all_hits executions). root_by_id fixture (bh_dependency_root_id h) \<noteq> None) \<and>
      date_window_start policy (fx_query_valid_time fixture) = Inr ws \<and>
      list_all2 (classified (po_reciprocal_rank_k policy) fixture ws (all_hits executions))
        (hit_roots (all_hits executions)) entries \<and>
      candidates = sort_key candidate_order (candidates_of entries) \<and>
      list_all2 (\<lambda>c r. retain_candidate fixture c = Inr r)
        (List.enumerate 1 (take (nat (po_retained_candidate_limit policy)) candidates)) retained \<and>
      list_all2 (\<lambda>c x. bound_exclusion c = Inr x) (drop (nat (po_retained_candidate_limit policy)) candidates) bounded \<and>
      exclusions = sort_key ex_dependency_root_id (exclusions_of entries @ bounded))"

lemma fuse_Inr:
  assumes "fuse_fixture_candidates executions policy fixture = Inr (retained, exclusions)"
  obtains ws entries candidates bounded where
    "fused executions policy fixture ws entries candidates bounded retained exclusions"
proof -
  obtain ws entries bounded where
    a: "map be_branch executions = required_branches policy"
      "\<forall>h \<in> set (all_hits executions). root_by_id fixture (bh_dependency_root_id h) \<noteq> None"
      "date_window_start policy (fx_query_valid_time fixture) = Inr ws" and
    b: "list_all2 (\<lambda>r e. classify_root policy fixture ws (group_all (all_hits executions)) r = Inr e)
        (sort (map fst (group_all (all_hits executions)))) entries" and
    c: "list_all2 (\<lambda>c r. retain_candidate fixture c = Inr r) (List.enumerate 1
        (take (nat (po_retained_candidate_limit policy)) (sort_key candidate_order (candidates_of entries)))) retained"
      "list_all2 (\<lambda>c x. bound_exclusion c = Inr x)
        (drop (nat (po_retained_candidate_limit policy)) (sort_key candidate_order (candidates_of entries))) bounded"
      "exclusions = sort_key ex_dependency_root_id (exclusions_of entries @ bounded)"
    using assms
    unfolding fuse_fixture_candidates_def candidates_of_def [symmetric] exclusions_of_def [symmetric] Let_def
      res_bind_Inr_iff require_Inr_iff group_hits_Inr_iff res_map_Inr_iff by (auto simp only: sum.inject prod.inject)
  have "list_all2 (classified (po_reciprocal_rank_k policy) fixture ws (all_hits executions))
      (hit_roots (all_hits executions)) entries"
    using list_all2_mono [OF b classify_root_Inr] by (simp only: group_all_sorted)
  then show thesis using that a c by (simp add: fused_def required_branches_def)
qed


lemma policy_bounds:
  assumes "HybridRetrievalPolicy_post_init p = Inr u"
  shows "po_retained_candidate_limit p = 12" and "po_reciprocal_rank_k p = 60"
    and "po_date_window_seconds p = 2678400"
  using assms by (auto simp: HybridRetrievalPolicy_post_init_def res_simps)

lemma retain_candidate_Inr:
  assumes "retain_candidate fixture (i, s, r, hits) = Inr c"
  shows "fc_dependency_root_id c = r" and "fc_final_rank c = int i" and "fc_branch_hits c = hits"
    and "ReciprocalRankScore_fraction (fc_score c) = s"
proof -
  from assms obtain rt sc where rt: "root_by_id fixture r = Some rt" and sc: "ReciprocalRankScore_from_fraction s = Inr sc"
    and c: "c = \<lparr> fc_dependency_root_id = r, fc_candidate_version_id = fd_candidate_version_id rt,
         fc_contributing_branches = sorted_branches (map bh_branch hits), fc_branch_hits = hits,
         fc_dependency_ids = fc_dependency_ids c, fc_score = sc, fc_final_rank = int i \<rparr>"
    unfolding retain_candidate_def FusedRetrievalCandidate_post_init_def by (auto simp: res_simps)
  show "fc_dependency_root_id c = r" "fc_final_rank c = int i" "fc_branch_hits c = hits" by (subst c, simp)+
  have "sc = \<lparr> rs_numerator = fst (quotient_of s), rs_denominator = snd (quotient_of s) \<rparr>"
    using sc by (auto simp: ReciprocalRankScore_from_fraction_def Let_def res_simps)
  then have "ReciprocalRankScore_fraction sc = s"
    by (metis Fract_of_int_quotient ReciprocalRankScore.select_convs ReciprocalRankScore_fraction_def
        prod.collapse quotient_of_div)
  then show "ReciprocalRankScore_fraction (fc_score c) = s" by (subst c) simp
qed

lemma bound_exclusion_Inr:
  "bound_exclusion c = Inr x \<Longrightarrow> ex_dependency_root_id x = fst (snd c) \<and> ex_reason x = RESULT_BOUND"
  by (cases c) (auto simp: bound_exclusion_def make_exclusion_Inr)

lemma fused_candidates:
  assumes "fused executions policy fixture ws entries candidates bounded retained exclusions"
  defines "hits \<equiv> all_hits executions" and "k \<equiv> po_reciprocal_rank_k policy"
  shows "map (\<lambda>c. fst (snd c)) candidates = ranking k fixture ws hits"
    and "c \<in> set candidates \<Longrightarrow> fst c = root_score k hits (fst (snd c))"
proof -
  have e: "list_all2 (classified k fixture ws hits) (hit_roots hits) entries"
      and c: "candidates = sort_key candidate_order (candidates_of entries)"
    using assms(1) unfolding fused_def hits_def k_def by blast+
  have form: "fst c = root_score k hits (fst (snd c))" if "c \<in> set (candidates_of entries)" for c
    by (rule classified_candidate [OF e that]) simp
  then have order: "candidate_order c = root_order k hits (fst (snd c))" if "c \<in> set (candidates_of entries)" for c
    using that by (simp add: candidate_order_def root_order_def)
  show "map (\<lambda>c. fst (snd c)) candidates = ranking k fixture ws hits"
    unfolding c ranking_def classified_lists(1) [OF e, symmetric] using order by (intro map_sort_key)
  show "fst c = root_score k hits (fst (snd c))" if "c \<in> set candidates"
    using that unfolding c set_sort by (rule form)
qed

lemma fused_retained:
  assumes "fused executions policy fixture ws entries candidates bounded retained exclusions"
  defines "n \<equiv> nat (po_retained_candidate_limit policy)" and "k \<equiv> po_reciprocal_rank_k policy"
  shows "map fc_dependency_root_id retained = take n (ranking k fixture ws (all_hits executions))"
    and "map fc_final_rank retained = [1..int (length retained)]"
    and "c \<in> set retained \<Longrightarrow>
      ReciprocalRankScore_fraction (fc_score c) = root_score k (all_hits executions) (fc_dependency_root_id c)"
proof -
  let ?cs = "take n candidates"
  have r: "list_all2 (\<lambda>c r. retain_candidate fixture c = Inr r) (List.enumerate 1 ?cs) retained"
    using assms(1) unfolding fused_def n_def by blast
  have len: "length retained = length ?cs" using list_all2_lengthD [OF r] by simp
  have each: "retain_candidate fixture (Suc i, fst (?cs ! i), fst (snd (?cs ! i)), snd (snd (?cs ! i))) = Inr (retained ! i)"
    if "i < length retained" for i
    using list_all2_nthD2 [OF r that] that len by (simp add: nth_enumerate_eq)
  note part = retain_candidate_Inr [OF each]
  have "map fc_dependency_root_id retained = map (\<lambda>c. fst (snd c)) ?cs"
    using part(1) len by (intro nth_equalityI) auto
  also have "\<dots> = take n (ranking k fixture ws (all_hits executions))"
    unfolding k_def by (simp only: take_map [symmetric] fused_candidates(1) [OF assms(1)])
  finally show "map fc_dependency_root_id retained = take n (ranking k fixture ws (all_hits executions))" .
  show "map fc_final_rank retained = [1..int (length retained)]"
    using part(2) by (intro nth_equalityI) auto
  show "ReciprocalRankScore_fraction (fc_score c) = root_score k (all_hits executions) (fc_dependency_root_id c)"
    if "c \<in> set retained"
  proof -
    from that obtain i where i: "i < length retained" "c = retained ! i" by (auto simp: in_set_conv_nth)
    have "?cs ! i \<in> set ?cs" using i(1) unfolding len by (rule nth_mem)
    then have "?cs ! i \<in> set candidates" by (rule in_set_takeD)
    from fused_candidates(2) [OF assms(1) this] show ?thesis
      unfolding i(2) part(1) [OF i(1)] part(4) [OF i(1)] k_def .
  qed
qed

lemma fused_exclusions:
  assumes "fused executions policy fixture ws entries candidates bounded retained exclusions"
  defines "n \<equiv> nat (po_retained_candidate_limit policy)" and "k \<equiv> po_reciprocal_rank_k policy"
  shows "map ex_dependency_root_id exclusions =
      sort (filter (\<lambda>r. \<not> eligible fixture ws r) (hit_roots (all_hits executions))
        @ drop n (ranking k fixture ws (all_hits executions)))"
    and "x \<in> set exclusions \<Longrightarrow> classified k fixture ws (all_hits executions) (ex_dependency_root_id x) (Inl x) \<or>
      ex_dependency_root_id x \<in> set (drop n (ranking k fixture ws (all_hits executions))) \<and> ex_reason x = RESULT_BOUND"
proof -
  have e: "list_all2 (classified k fixture ws (all_hits executions)) (hit_roots (all_hits executions)) entries"
      and b: "list_all2 (\<lambda>c x. bound_exclusion c = Inr x) (drop n candidates) bounded"
      and x: "exclusions = sort_key ex_dependency_root_id (exclusions_of entries @ bounded)"
    using assms(1) unfolding fused_def n_def k_def by blast+
  have len: "length bounded = length (drop n candidates)" using list_all2_lengthD [OF b] by simp
  have each: "ex_dependency_root_id (bounded ! i) = fst (snd (drop n candidates ! i))" "ex_reason (bounded ! i) = RESULT_BOUND"
    if "i < length bounded" for i
    using bound_exclusion_Inr [OF list_all2_nthD2 [OF b that]] by simp_all
  have "map ex_dependency_root_id bounded = map (\<lambda>c. fst (snd c)) (drop n candidates)"
    using each(1) len by (intro nth_equalityI) auto
  then have m: "map ex_dependency_root_id bounded = drop n (ranking k fixture ws (all_hits executions))"
    unfolding k_def by (simp only: drop_map [symmetric] fused_candidates(1) [OF assms(1)])
  have "map ex_dependency_root_id exclusions = sort (map ex_dependency_root_id (exclusions_of entries @ bounded))"
    unfolding x by (rule map_sort_key) simp
  then show "map ex_dependency_root_id exclusions =
      sort (filter (\<lambda>r. \<not> eligible fixture ws r) (hit_roots (all_hits executions))
        @ drop n (ranking k fixture ws (all_hits executions)))"
    by (simp only: map_append classified_lists(2) [OF e] m)
  show "classified k fixture ws (all_hits executions) (ex_dependency_root_id x) (Inl x) \<or>
      ex_dependency_root_id x \<in> set (drop n (ranking k fixture ws (all_hits executions))) \<and> ex_reason x = RESULT_BOUND"
    if "x \<in> set exclusions"
  proof (cases "x \<in> set bounded")
    case True
    then have "ex_dependency_root_id x \<in> set (map ex_dependency_root_id bounded)" by simp
    moreover have "ex_reason x = RESULT_BOUND" using True each(2) by (auto simp: in_set_conv_nth)
    ultimately show ?thesis unfolding m by blast
  next
    case False
    then have "x \<in> set (exclusions_of entries)" using that x by simp
    then show ?thesis using classified_exclusion [OF e] by blast
  qed
qed

end
