(* ===== verification/Retrieval_Props.thy ===== *)
theory Retrieval_Props
  imports Retrieval_Fusion_Facts
begin

text \<open>
  The properties of hybrid retrieval: fusion returns on checked evidence, refines its ranking, accounts
  for every root; and the digest of a retrieval context commits to everything in it, an instance of the
  locale \<open>content_addressed\<close> over the nested canonical dictionaries.
\<close>

lemma sort_key_distinct_roots:
  "distinct (ranking k fixture ws hits)"
  "set (ranking k fixture ws hits) = {r \<in> bh_dependency_root_id ` set hits. eligible fixture ws r}"
  by (auto simp: ranking_def distinct_sort)


section \<open>Fusion returns\<close>

text \<open>What a fixture root needs to become a candidate.\<close>

definition root_ready :: "FixtureDependencyRoot \<Rightarrow> bool" where
  "root_ready r =
     ((case fd_candidate_version_id r of None \<Rightarrow> True | Some v \<Rightarrow> check_bounded_text 128 v = Inr ()) \<and>
      sorted_unique_text False 64 256 (fd_dependency_ids r) = Inr (fd_dependency_ids r))"

lemma res_map_returns: "(\<And>x. x \<in> set xs \<Longrightarrow> \<exists>y. f x = Inr y) \<Longrightarrow> \<exists>ys. res_map f xs = Inr ys"
  by (induction xs) fastforce+

lemma details_bounded:
  "check_bounded_text 2048 (exclusion_detail reason) = Inr ()"
  "check_bounded_text 2048 ''The dependency root falls outside the server-owned retrieval date window.'' = Inr ()"
  "check_bounded_text 2048 ''The server-owned retained-candidate bound excluded this dependency root.'' = Inr ()"
proof -
  show "check_bounded_text 2048 (exclusion_detail reason) = Inr ()"
    by (induction reason; code_simp)
qed code_simp+

lemma hit_facts:
  assumes "RetrievalBranchHit_post_init h = Inr ()"
  shows "1 \<le> bh_rank h" and "check_bounded_text 256 (bh_dependency_root_id h) = Inr ()"
  using assms by (simp_all add: RetrievalBranchHit_post_init_def res_simps Let_def)

lemma sum_list_pos:
  fixes xs :: "'a :: linordered_idom list"
  shows "xs \<noteq> [] \<Longrightarrow> (\<And>x. x \<in> set xs \<Longrightarrow> 0 < x) \<Longrightarrow> 0 < sum_list xs"
proof (induction xs)
  case (Cons x xs)
  then show ?case by (cases "xs = []") (auto intro: add_pos_pos)
qed simp

lemma rank_sum_positive:
  assumes "\<And>h. h \<in> set hs \<Longrightarrow> 1 \<le> bh_rank h" and "hs \<noteq> []"
  shows "\<exists>s. reciprocal_rank_sum 60 hs = Inr s \<and> 0 < s"
proof -
  have "0 < sum_list (map (\<lambda>h. Fract 1 (60 + bh_rank h)) hs)"
    using assms by (intro sum_list_pos) (fastforce simp: zero_less_Fract_iff)+
  moreover have "list_all (\<lambda>h. 60 + bh_rank h \<noteq> 0) hs" using assms(1) by (fastforce simp: list_all_iff)
  ultimately show ?thesis by (simp add: reciprocal_rank_sum_def)
qed

lemma score_from_fraction:
  assumes "0 < v"
  shows "\<exists>s. ReciprocalRankScore_from_fraction v = Inr s"
proof -
  obtain a b where ab: "quotient_of v = (a, b)" by fastforce
  have b: "0 < b" using quotient_of_denom_pos [OF ab] .
  have v: "v = Fract a b" using quotient_of_div [OF ab] by (simp add: Fract_of_int_quotient)
  then have "0 < a" using assms b by (simp add: zero_less_Fract_iff)
  then show ?thesis
    using assms b ab v by (simp add: ReciprocalRankScore_from_fraction_def ReciprocalRankScore_post_init_def Let_def)
qed

lemma sorted_branches_idem: "sorted_branches (sorted_branches bs) = sorted_branches bs"
proof -
  have "distinct (sorted_branches bs)" by (simp add: sorted_branches_def)
  then have "remdups (sorted_branches bs) = sorted_branches bs" by (rule distinct_remdups_id)
  then have "sorted_branches (sorted_branches bs) = sort_key RetrievalBranch_value (sorted_branches bs)"
    by (simp only: sorted_branches_def [of "sorted_branches bs"])
  also have "\<dots> = sorted_branches bs"
    by (rule sort_key_id_if_sorted) (simp add: sorted_branches_def)
  finally show ?thesis .
qed

lemma sorted_branches_set [simp]: "set (sorted_branches bs) = set bs" "sorted_branches bs = [] \<longleftrightarrow> bs = []"
proof -
  show s: "set (sorted_branches bs) = set bs" by (simp add: sorted_branches_def)
  show "sorted_branches bs = [] \<longleftrightarrow> bs = []" using s by (metis set_empty)
qed

lemma best_hits_nonempty: "hs \<noteq> [] \<Longrightarrow> best_hit_per_branch hs \<noteq> []"
  using best_hits_branches [of hs] by auto

lemma retain_candidate_returns:
  assumes "root_by_id fixture r = Some rt" and "root_ready rt" and "check_bounded_text 256 r = Inr ()"
    and "0 < s" and "hs \<noteq> []" and "1 \<le> i" and "i \<le> 12"
  shows "\<exists>c. retain_candidate fixture (i, s, r, best_hit_per_branch hs) = Inr c"
proof -
  obtain sc where "ReciprocalRankScore_from_fraction s = Inr sc" using score_from_fraction [OF assms(4)] ..
  then show ?thesis
    using assms best_hits_nonempty [OF assms(5)] best_hits_sorted [of hs]
    by (simp add: retain_candidate_def FusedRetrievalCandidate_post_init_def root_ready_def sorted_branches_idem
        split: option.splits)
qed

lemma make_exclusion_returns:
  assumes "check_bounded_text 256 r = Inr ()" and "check_bounded_text 2048 detail = Inr ()"
  shows "\<exists>x. make_exclusion r reason hits detail = Inr x"
  using assms by (simp add: make_exclusion_def RetrievalExclusion_post_init_def)

lemma classify_root_returns:
  assumes "HybridRetrievalPolicy_post_init policy = Inr ()"
    and hits: "\<forall>h \<in> set hits. RetrievalBranchHit_post_init h = Inr ()"
    and "\<forall>h \<in> set hits. \<exists>rt. root_by_id fixture (bh_dependency_root_id h) = Some rt \<and> root_ready rt"
    and r: "r \<in> bh_dependency_root_id ` set hits"
  shows "\<exists>e. classify_root policy fixture ws (group_all hits) r = Inr e"
proof -
  let ?g = "filter (\<lambda>h. bh_dependency_root_id h = r) hits"
  from r assms(3) obtain rt where rt: "root_by_id fixture r = Some rt" by blast
  have ne: "?g \<noteq> []" using r by (auto simp: filter_empty_conv)
  then have g: "map_of (group_all hits) r = Some ?g" by (simp add: group_all_map)
  have b: "check_bounded_text 256 r = Inr ()" using r hits hit_facts(2) by auto
  have "1 \<le> bh_rank h" if "h \<in> set (best_hit_per_branch ?g)" for h
    using best_hits_least [OF that] hits hit_facts(1) by auto
  from rank_sum_positive [OF this best_hits_nonempty [OF ne]] obtain s where
    s: "reciprocal_rank_sum 60 (best_hit_per_branch ?g) = Inr s" "0 < s" by blast
  obtain x where x: "make_exclusion r OUTSIDE_TEMPORAL_SCOPE (best_hit_per_branch ?g)
      ''The dependency root falls outside the server-owned retrieval date window.'' = Inr x"
    using make_exclusion_returns [OF b details_bounded(2)] by blast
  show ?thesis
  proof (cases "fd_exclusion_reason rt")
    case None
    then show ?thesis
      using s x unfolding classify_root_def rt g res_of_option_simps res_bind_simps Let_def policy_bounds(2) [OF assms(1)]
      by simp
  next
    case (Some reason)
    obtain y where "make_exclusion r reason (best_hit_per_branch ?g) (exclusion_detail reason) = Inr y"
      using make_exclusion_returns [OF b details_bounded(1)] by blast
    with Some show ?thesis
      using x unfolding classify_root_def rt g res_of_option_simps res_bind_simps Let_def by simp
  qed
qed

lemma fusion_total:
  assumes "HybridRetrievalPolicy_post_init policy = Inr ()"
    and "map be_branch executions = all_branches"
    and "\<forall>h \<in> set (all_hits executions). RetrievalBranchHit_post_init h = Inr ()"
    and "\<forall>h \<in> set (all_hits executions). \<exists>rt. root_by_id fixture (bh_dependency_root_id h) = Some rt \<and> root_ready rt"
    and "date_window_start policy (fx_query_valid_time fixture) = Inr ws"
  shows "\<exists>retained exclusions. fuse_fixture_candidates executions policy fixture = Inr (retained, exclusions)"
proof -
  let ?hits = "all_hits executions"
  have g: "group_hits (root_by_id fixture) ?hits [] = Inr (group_all ?hits)"
    using assms(4) by (auto simp: group_hits_Inr_iff)
  have "\<exists>entries. res_map (classify_root policy fixture ws (group_all ?hits)) (hit_roots ?hits) = Inr entries"
    using classify_root_returns [OF assms(1,3,4)] by (intro res_map_returns) (simp only: hit_roots)
  then obtain entries where en: "res_map (classify_root policy fixture ws (group_all ?hits)) (hit_roots ?hits) = Inr entries" ..
  then have "list_all2 (\<lambda>r e. classify_root policy fixture ws (group_all ?hits) r = Inr e) (hit_roots ?hits) entries"
    by (simp only: res_map_Inr_iff)
  then have cl: "list_all2 (classified 60 fixture ws ?hits) (hit_roots ?hits) entries"
    by (rule list_all2_mono) (drule classify_root_Inr, simp only: policy_bounds(2) [OF assms(1)])
  define cs where "cs = sort_key candidate_order (candidates_of entries)"
  have cand: "\<exists>hs rt. c = (fst c, fst (snd c), best_hit_per_branch hs) \<and> hs \<noteq> [] \<and> 0 < fst c
      \<and> root_by_id fixture (fst (snd c)) = Some rt \<and> root_ready rt \<and> check_bounded_text 256 (fst (snd c)) = Inr ()"
    if "c \<in> set cs" for c
  proof -
    have "c \<in> set (candidates_of entries)" using that by (simp add: cs_def)
    from classified_candidate [OF cl this] obtain r where r: "r \<in> bh_dependency_root_id ` set ?hits"
      "0 < root_score 60 ?hits r"
      "c = (root_score 60 ?hits r, r, best_hit_per_branch (filter (\<lambda>h. bh_dependency_root_id h = r) ?hits))"
      unfolding hit_roots by blast
    from r(1) obtain h where h: "h \<in> set ?hits" "bh_dependency_root_id h = r" by blast
    have "filter (\<lambda>h. bh_dependency_root_id h = r) ?hits \<noteq> []" using h unfolding filter_empty_conv by blast
    moreover obtain rt where "root_by_id fixture r = Some rt" "root_ready rt" using assms(4) h by blast
    moreover have "check_bounded_text 256 r = Inr ()" using hit_facts(2) assms(3) h by blast
    ultimately show ?thesis using r(2) unfolding r(3) fst_conv snd_conv by blast
  qed
  have "\<exists>c. retain_candidate fixture p = Inr c" if "p \<in> set (List.enumerate 1 (take 12 cs))" for p
  proof -
    from that obtain i where i: "i < length (take 12 cs)" "p = (1 + i, take 12 cs ! i)"
      by (auto simp: in_set_conv_nth nth_enumerate_eq)
    have "take 12 cs ! i \<in> set cs" using i(1) by (metis in_set_takeD nth_mem)
    from cand [OF this] obtain hs rt where c: "p = (1 + i, fst (take 12 cs ! i), fst (snd (take 12 cs ! i)), best_hit_per_branch hs)"
      "hs \<noteq> []" "0 < fst (take 12 cs ! i)" "root_by_id fixture (fst (snd (take 12 cs ! i))) = Some rt" "root_ready rt"
      "check_bounded_text 256 (fst (snd (take 12 cs ! i))) = Inr ()" using i(2) by metis
    have "1 + i \<le> 12" using i(1) by simp
    then show ?thesis unfolding c(1) using retain_candidate_returns [OF c(4,5,6,3,2)] by simp
  qed
  then obtain retained where re: "res_map (retain_candidate fixture) (List.enumerate 1 (take 12 cs)) = Inr retained"
    using res_map_returns by metis
  have "\<exists>x. bound_exclusion c = Inr x" if "c \<in> set (drop 12 cs)" for c
    using cand [OF in_set_dropD [OF that]] make_exclusion_returns [OF _ details_bounded(3)]
    by (cases c) (auto simp: bound_exclusion_def)
  then obtain bounded where bo: "res_map bound_exclusion (drop 12 cs) = Inr bounded" using res_map_returns by metis
  have n: "nat (12 :: int) = 12" by simp
  show ?thesis
    unfolding fuse_fixture_candidates_def required_branches_def assms(2) g assms(5) group_all_sorted en
      candidates_of_def [symmetric] exclusions_of_def [symmetric] Let_def policy_bounds(1) [OF assms(1)] n
      res_bind_simps cs_def [symmetric] re bo by simp
qed

section \<open>Properties\<close>

text \<open>
  C36. Fusion is total on checked evidence: with the accepted policy, the four branches in order, hits
  that passed their own checks, and fixture roots that are known and fit a candidate, it returns. No
  input of that kind raises, whatever the number of hits and however the scores tie.
\<close>

theorem fusion_returns:
  assumes "HybridRetrievalPolicy_post_init policy = Inr ()"
    and "map be_branch executions = all_branches"
    and "\<forall>h \<in> set (all_hits executions). RetrievalBranchHit_post_init h = Inr ()"
    and "\<forall>h \<in> set (all_hits executions). \<exists>rt. root_by_id fixture (bh_dependency_root_id h) = Some rt \<and> root_ready rt"
    and "date_window_start policy (fx_query_valid_time fixture) = Inr ws"
  shows "\<exists>retained exclusions. fuse_fixture_candidates executions policy fixture = Inr (retained, exclusions)"
  using assms by (rule fusion_total)

text \<open>
  C35. Fusion refines its specification: when it returns, the retained roots are the first twelve of the
  ranking by decreasing score and then by identity, each with exactly the score of the specification
  (one reciprocal of 60 plus the best rank, per branch that found the root), and the excluded roots are
  all the others, sorted.
\<close>

theorem fusion_refines_ranking:
  assumes "HybridRetrievalPolicy_post_init policy = Inr ()"
    and "fuse_fixture_candidates executions policy fixture = Inr (retained, exclusions)"
  shows "\<exists>ws. date_window_start policy (fx_query_valid_time fixture) = Inr ws
    \<and> map fc_dependency_root_id retained = take 12 (ranking 60 fixture ws (all_hits executions))
    \<and> (\<forall>c \<in> set retained. ReciprocalRankScore_fraction (fc_score c)
         = root_score 60 (all_hits executions) (fc_dependency_root_id c))
    \<and> map ex_dependency_root_id exclusions =
        sort (filter (\<lambda>r. \<not> eligible fixture ws r) (hit_roots (all_hits executions))
          @ drop 12 (ranking 60 fixture ws (all_hits executions)))"
proof -
  obtain ws entries candidates bounded where
    f: "fused executions policy fixture ws entries candidates bounded retained exclusions"
    using fuse_Inr [OF assms(2)] .
  have ws: "date_window_start policy (fx_query_valid_time fixture) = Inr ws" using f unfolding fused_def by blast
  have n: "nat (12 :: int) = 12" by simp
  show ?thesis
    using ws fused_retained(1,3) [OF f] fused_exclusions(1) [OF f]
    unfolding policy_bounds [OF assms(1)] n by blast
qed

text \<open>
  What fusion returns is what a retrieval context accepts: at most twelve retained candidates with
  contiguous ranks and no root twice, exclusions sorted and unique, no root both retained and excluded;
  and no root is lost, every root that a branch hit is retained or excluded. Every exclusion carries the
  reason that holds: outside the date window, the fixture's own reason, or the result bound.
\<close>

theorem fusion_accounts_for_every_root:
  assumes "HybridRetrievalPolicy_post_init policy = Inr ()"
    and "fuse_fixture_candidates executions policy fixture = Inr (retained, exclusions)"
    and "date_window_start policy (fx_query_valid_time fixture) = Inr ws"
  shows "context_ranking_ok retained exclusions = Inr ()
    \<and> set (map fc_dependency_root_id retained) \<union> set (map ex_dependency_root_id exclusions)
      = bh_dependency_root_id ` set (all_hits executions)
    \<and> (\<forall>x \<in> set exclusions. \<exists>rt. root_by_id fixture (ex_dependency_root_id x) = Some rt \<and>
      (if outside_date_window (fd_observed_at rt) ws (fx_query_valid_time fixture)
       then ex_reason x = OUTSIDE_TEMPORAL_SCOPE
       else ex_reason x = (case fd_exclusion_reason rt of None \<Rightarrow> RESULT_BOUND | Some reason \<Rightarrow> reason)))"
proof (intro conjI)
  obtain w entries candidates bounded where
    f: "fused executions policy fixture w entries candidates bounded retained exclusions"
    using fuse_Inr [OF assms(2)] .
  have "date_window_start policy (fx_query_valid_time fixture) = Inr w" using f unfolding fused_def by blast
  then have w: "w = ws" using assms(3) by simp
  have n: "nat (12 :: int) = 12" by simp
  let ?hits = "all_hits executions"
  let ?rank = "ranking 60 fixture ws ?hits"
  note r = fused_retained [OF f, unfolded policy_bounds [OF assms(1)] n w]
  note x = fused_exclusions [OF f, unfolded policy_bounds [OF assms(1)] n w]
  have td: "set (take 12 ?rank) \<union> set (drop 12 ?rank) = set ?rank" "set (take 12 ?rank) \<inter> set (drop 12 ?rank) = {}"
    using sort_key_distinct_roots(1) set_append append_take_drop_id set_take_disj_set_drop_if_distinct
    by (metis, metis order_refl)
  have xs: "set (map ex_dependency_root_id exclusions) =
      {r \<in> bh_dependency_root_id ` set ?hits. \<not> eligible fixture ws r} \<union> set (drop 12 ?rank)"
    unfolding x(1) by auto
  have rs: "set (map fc_dependency_root_id retained) = set (take 12 ?rank)" by (simp only: r(1))
  have dist: "distinct (map ex_dependency_root_id exclusions)"
    unfolding x(1) using sort_key_distinct_roots(2) [of 60 fixture ws ?hits] td(1)
    by (auto simp: distinct_sort sort_key_distinct_roots(1))
  have "length retained \<le> 12" using arg_cong [OF r(1), of length] by simp
  moreover have "distinct (map fc_dependency_root_id retained)" unfolding r(1) by (simp add: sort_key_distinct_roots(1))
  moreover have "sorted_unique (map ex_dependency_root_id exclusions)"
    using dist by (simp add: sorted_unique_iff x(1))
  moreover have "set (map fc_dependency_root_id retained) \<inter> set (map ex_dependency_root_id exclusions) = {}"
    unfolding rs xs using td sort_key_distinct_roots(2) [of 60 fixture ws ?hits] by blast
  ultimately show "context_ranking_ok retained exclusions = Inr ()"
    using r(2) by (simp add: context_ranking_ok_def Let_def)
  show "set (map fc_dependency_root_id retained) \<union> set (map ex_dependency_root_id exclusions)
      = bh_dependency_root_id ` set ?hits"
    unfolding rs xs using td(1) sort_key_distinct_roots(2) [of 60 fixture ws ?hits] by blast
  show "\<forall>x \<in> set exclusions. \<exists>rt. root_by_id fixture (ex_dependency_root_id x) = Some rt \<and>
      (if outside_date_window (fd_observed_at rt) ws (fx_query_valid_time fixture)
       then ex_reason x = OUTSIDE_TEMPORAL_SCOPE
       else ex_reason x = (case fd_exclusion_reason rt of None \<Rightarrow> RESULT_BOUND | Some reason \<Rightarrow> reason))"
  proof
    fix y assume y: "y \<in> set exclusions"
    consider "classified 60 fixture ws ?hits (ex_dependency_root_id y) (Inl y)"
      | "eligible fixture ws (ex_dependency_root_id y)" "ex_reason y = RESULT_BOUND"
      using x(2) [OF y] td(1) sort_key_distinct_roots(2) [of 60 fixture ws ?hits] by blast
    then show "\<exists>rt. root_by_id fixture (ex_dependency_root_id y) = Some rt \<and>
      (if outside_date_window (fd_observed_at rt) ws (fx_query_valid_time fixture)
       then ex_reason y = OUTSIDE_TEMPORAL_SCOPE
       else ex_reason y = (case fd_exclusion_reason rt of None \<Rightarrow> RESULT_BOUND | Some reason \<Rightarrow> reason))"
    proof cases
      case 1
      then obtain rt where "root_by_id fixture (ex_dependency_root_id y) = Some rt"
        "if outside_date_window (fd_observed_at rt) ws (fx_query_valid_time fixture)
         then ex_reason y = OUTSIDE_TEMPORAL_SCOPE else fd_exclusion_reason rt = Some (ex_reason y)"
        by (auto simp: classified_def)
      then show ?thesis by (intro exI [of _ rt]) (simp split: if_splits)
    next
      case 2
      then obtain rt where "root_by_id fixture (ex_dependency_root_id y) = Some rt"
        "\<not> outside_date_window (fd_observed_at rt) ws (fx_query_valid_time fixture)" "fd_exclusion_reason rt = None"
        unfolding eligible_def by (cases "root_by_id fixture (ex_dependency_root_id y)") auto
      with 2(2) show ?thesis by (intro exI [of _ rt]) simp
    qed
  qed
qed

section \<open>What a context digest identifies\<close>

lemma outcome_value_inj [simp]: "RetrievalOutcome_value a = RetrievalOutcome_value b \<longleftrightarrow> a = b"
  by (cases a; cases b) simp_all

lemma reason_value_inj [simp]: "RetrievalExclusionReason_value a = RetrievalExclusionReason_value b \<longleftrightarrow> a = b"
  by (cases a; cases b) simp_all

lemma generation_value_inj [simp]: "ProjectionGenerationState_value a = ProjectionGenerationState_value b \<longleftrightarrow> a = b"
  by (cases a; cases b) simp_all

text \<open>A list of canonical values identifies the list of records, when each value does.\<close>

lemma view_list_inj:
  assumes "\<And>x y. view (f x) = view (f y) \<longleftrightarrow> x = y"
  shows "view (jlist (map f xs)) = view (jlist (map f ys)) \<longleftrightarrow> xs = ys"
proof -
  have "inj (\<lambda>x. view (f x))" using assms by (auto simp: inj_def)
  then show ?thesis by (simp add: comp_def inj_map_eq_map)
qed

lemma identity_value [simp]:
  "wf_pyval (CompleteProjectionIdentity_canonical_value i)"
  "view (CompleteProjectionIdentity_canonical_value i) = view (CompleteProjectionIdentity_canonical_value j) \<longleftrightarrow> i = j"
  by (auto simp: CompleteProjectionIdentity_canonical_value_def obj_wf obj_view_eq)

definition metadata_instants :: "RetrievalProjectionMetadata \<Rightarrow> bool" where
  "metadata_instants m = (instant (pm_validation_recorded_at m) \<and> instant (pm_date_window_start m)
     \<and> instant (pm_query_valid_time m) \<and> instant (pm_freshness_deadline m) \<and> instant (pm_serving_time m))"

lemma metadata_wf [simp]: "wf_pyval (RetrievalProjectionMetadata_canonical_value m)"
  by (simp add: RetrievalProjectionMetadata_canonical_value_def obj_wf)

lemma metadata_value:
  "metadata_instants m \<Longrightarrow> metadata_instants n \<Longrightarrow>
   view (RetrievalProjectionMetadata_canonical_value m) = view (RetrievalProjectionMetadata_canonical_value n)
     \<longleftrightarrow> m = n"
  by (auto simp: RetrievalProjectionMetadata_canonical_value_def obj_view_eq metadata_instants_def timestamp_text_eq)

lemma hit_value [simp]:
  "wf_pyval (RetrievalBranchHit_canonical_value h)"
  "view (RetrievalBranchHit_canonical_value h) = view (RetrievalBranchHit_canonical_value k) \<longleftrightarrow> h = k"
  by (auto simp: RetrievalBranchHit_canonical_value_def obj_wf obj_view_eq)

lemma execution_value [simp]:
  "wf_pyval (RetrievalBranchExecution_canonical_value e)"
  "view (RetrievalBranchExecution_canonical_value e) = view (RetrievalBranchExecution_canonical_value f) \<longleftrightarrow> e = f"
  by (auto simp: RetrievalBranchExecution_canonical_value_def obj_wf obj_view_eq view_list_inj simp del: jlist_view)


lemma candidate_value [simp]:
  "wf_pyval (FusedRetrievalCandidate_canonical_value c)"
  "view (FusedRetrievalCandidate_canonical_value c) = view (FusedRetrievalCandidate_canonical_value d) \<longleftrightarrow> c = d"
proof -
  have r: "wf_pyval (ReciprocalRankScore_canonical_value a)"
    "view (ReciprocalRankScore_canonical_value a) = view (ReciprocalRankScore_canonical_value b) \<longleftrightarrow> a = b" for a b
    by (auto simp: ReciprocalRankScore_canonical_value_def obj_wf obj_view_eq)
  show "wf_pyval (FusedRetrievalCandidate_canonical_value c)"
    by (simp add: FusedRetrievalCandidate_canonical_value_def obj_wf r)
  have b: "view (jlist (map jtext (map RetrievalBranch_value xs))) =
      view (jlist (map jtext (map RetrievalBranch_value ys))) \<longleftrightarrow> xs = ys" for xs ys
    unfolding map_map by (intro view_list_inj) simp
  show "view (FusedRetrievalCandidate_canonical_value c) = view (FusedRetrievalCandidate_canonical_value d) \<longleftrightarrow> c = d"
    by (auto simp: FusedRetrievalCandidate_canonical_value_def obj_view_eq view_list_inj b r
        simp del: jlist_view map_map)
qed

lemma exclusion_value [simp]:
  "wf_pyval (RetrievalExclusion_canonical_value x)"
  "view (RetrievalExclusion_canonical_value x) = view (RetrievalExclusion_canonical_value y) \<longleftrightarrow> x = y"
  by (auto simp: RetrievalExclusion_canonical_value_def obj_wf obj_view_eq view_list_inj simp del: jlist_view)

lemma passage_value [simp]:
  "wf_pyval (HydratedRetrievalPassage_canonical_value p)"
  "view (HydratedRetrievalPassage_canonical_value p) = view (HydratedRetrievalPassage_canonical_value q) \<longleftrightarrow> p = q"
  by (auto simp: HydratedRetrievalPassage_canonical_value_def obj_wf obj_view_eq)

definition context_instants :: "RetrievalContextV2 \<Rightarrow> bool" where
  "context_instants c = (metadata_instants (rc_projection c) \<and> instant (rc_recorded_at c))"

interpretation retrieval_context: content_addressed RetrievalContextV2_canonical_value context_instants
proof
  show "wf_pyval (RetrievalContextV2_canonical_value c)" for c
    by (auto simp: RetrievalContextV2_canonical_value_def obj_wf)
  show "x = y" if "context_instants x" "context_instants y"
    "view (RetrievalContextV2_canonical_value x) = view (RetrievalContextV2_canonical_value y)" for x y
    using that
    by (simp add: RetrievalContextV2_canonical_value_def obj_view_eq view_list_inj metadata_value timestamp_text_eq
        context_instants_def del: jlist_view)
qed

text \<open>
  The digest of a retrieval context commits to all of it: two contexts that differ anywhere, down to
  a hit of a branch, a fused candidate, an exclusion or a hydrated passage, have different digests, or
  their canonical texts are an explicit SHA-256 collision.
\<close>

theorem context_digest_commits:
  assumes "context_instants c" and "context_instants d" and "c \<noteq> d"
    and "context_digest c = Inr g" and "context_digest d = Inr h"
  shows "g \<noteq> h \<or> (\<exists>a b. canonical_json_bytes (RetrievalContextV2_canonical_value c) = Inr a
    \<and> canonical_json_bytes (RetrievalContextV2_canonical_value d) = Inr b \<and> collides a b)"
  using retrieval_context.digest_binds [OF assms(1,2)] assms(3-5) by (auto simp: context_digest_def)

section \<open>A concrete run\<close>

definition sample_root :: "string \<Rightarrow> RetrievalExclusionReason option \<Rightarrow> FixtureDependencyRoot" where
  "sample_root r x = \<lparr> fd_root_id = r, fd_candidate_version_id = Some ''v1'', fd_dependency_ids = [r],
     fd_passage_ids = [], fd_observed_at = 63871200000000000, fd_exclusion_reason = x \<rparr>"

definition sample_fixture :: IntegratedFixtureV2RetrievalContract where
  "sample_fixture = \<lparr> fx_contract_id = ''integrated_fixture_v2_retrieval'',
     fx_contract_version = ''integrated-fixture-v2-retrieval-v1'', fx_source_fixture_digest = '''',
     fx_projection_fixture_digest = '''', fx_policy_digest = '''', fx_fixture_id = ''fixture'',
     fx_relation_fixture_binding_id = '''', fx_canonical_process_id = ''p'', fx_query_revision_id = ''q'',
     fx_prior_revision_id = ''r'', fx_query_valid_time = 63871200000000000,
     fx_query_hypothesis_version_id = ''h2'', fx_prior_hypothesis_version_id = ''h1'',
     fx_prior_candidate_version_id = ''v1'', fx_fulltext_query_ids = [], fx_vector_query_id = ''v'',
     fx_roots = [sample_root ''a'' None, sample_root ''b'' None, sample_root ''q'' (Some SELF_QUERY)] \<rparr>"

definition sample_hit :: "RetrievalBranch \<Rightarrow> int \<Rightarrow> string \<Rightarrow> RetrievalBranchHit" where
  "sample_hit b n r = \<lparr> bh_branch = b, bh_query_id = ''query'', bh_query_digest = ''sha256:'' @ replicate 64 (CHR ''a''),
     bh_rank = n, bh_raw_score = ''1'', bh_result_key = r, bh_dependency_root_id = r, bh_passage_id = None,
     bh_trust_scope = ADMITTED, bh_source_kind = ''GOVERNED_PASSAGE'', bh_source_identity = r \<rparr>"

definition sample_execution :: "RetrievalBranch \<Rightarrow> string list \<Rightarrow> RetrievalBranchExecution" where
  "sample_execution b rs = \<lparr> be_branch = b, be_query_id = ''query'', be_query_digest = ''sha256:'' @ replicate 64 (CHR ''a''),
     be_result_limit = 8, be_elapsed_ms = 5,
     be_hits = map (\<lambda>(n, r). sample_hit b (int n) r) (List.enumerate 1 rs) \<rparr>"

definition sample_executions :: "RetrievalBranchExecution list" where
  "sample_executions = [sample_execution EXACT [''a''], sample_execution ADMITTED_GRAPH [],
     sample_execution FULL_TEXT [''b'', ''a''], sample_execution VECTOR [''q'', ''b'']]"


lemma dec_fixed_numeral:
  "dec_fixed (numeral k) n = dec_fixed (pred_numeral k) (n div 10) @ [hex_digit (n mod 10)]"
  by (simp only: numeral_eq_Suc [of k] dec_fixed.simps)

lemma score_one: "validate_score ''1'' = Inr ''1''" "score_value ''1'' = 1"
proof -
  have f10: "floor_log 10 1 = 0" by (rule floor_log_unique) simp_all
  have f2: "ulp_exp 1 = - 52" by (rule ulp_exp_eqI) simp_all
  have r: "round_half_even (10 ^ 16) = 10 ^ 16" "round_half_even (2 ^ 52) = 2 ^ 52"
    by (rule round_half_even_unique, simp)+
  have m: "score_match ''1'' = Some \<lparr> sp_neg = False, sp_int = ''1'', sp_frac = [], sp_exp_neg = False, sp_exp = [] \<rparr>"
    by code_simp
  have v: "dec_nat ''1'' = 1" by code_simp
  have fl: "float_of_parts \<lparr> sp_neg = False, sp_int = ''1'', sp_frac = [], sp_exp_neg = False, sp_exp = [] \<rparr>
      = Finite False 1"
    using r(2) by (simp add: float_of_parts_def score_magnitude_def v dec_nat_zeros [of 0, simplified]
        round_binary64_def Let_def f2 power_int_minus)
  have c: "hex_digit 0 = CHR ''0''" "hex_digit (Suc 0) = CHR ''1''" by code_simp+
  have "digits_17 1 = (10 ^ 16, 0)" using r(1) by (simp add: digits_17_def Let_def f10)
  moreover have "dec_fixed 17 (10 ^ 16) = ''10000000000000000''"
    by (simp add: dec_fixed_numeral c)
  ultimately have "format_17g 1 = ''1''"
    by (simp add: format_17g_def with_point_def strip_zeros_def)
  then have "canonical_score (Finite False 1) = Inr ''1''" by (simp add: canonical_score_def m)
  then show "validate_score ''1'' = Inr ''1''" "score_value ''1'' = 1"
    by (simp_all add: validate_score_iff m fl score_value_def)
qed

lemma sample_fusion:
  obtains retained exclusions where
    "fuse_fixture_candidates sample_executions HYBRID_FIXTURE_POLICY_V1 sample_fixture = Inr (retained, exclusions)"
    "map fc_dependency_root_id retained = [''a'', ''b'']" "map ex_dependency_root_id exclusions = [''q'']"
proof -
  let ?r = "fuse_fixture_candidates sample_executions HYBRID_FIXTURE_POLICY_V1 sample_fixture"
  have "\<not> isl ?r \<and> map fc_dependency_root_id (fst (projr ?r)) = [''a'', ''b'']
      \<and> map ex_dependency_root_id (snd (projr ?r)) = [''q'']" by code_simp
  then show thesis using that by (metis prod.collapse sum.collapse(2))
qed

lemma sample_fusion_policy: "HybridRetrievalPolicy_post_init HYBRID_FIXTURE_POLICY_V1 = Inr ()" by code_simp


lemma sample_hit_ok:
  assumes "1 \<le> n" and "n \<le> 8" and "r \<in> {''a'', ''b'', ''q''}"
  shows "RetrievalBranchHit_post_init (sample_hit b n r) = Inr ()"
proof -
  have t: "require_token ''query'' = Inr ()" "require_token ''GOVERNED_PASSAGE'' = Inr ()" by code_simp+
  have d: "validate_sha256_digest (''sha256:'' @ replicate 64 (CHR ''a'')) = Inr (''sha256:'' @ replicate 64 (CHR ''a''))"
    by code_simp
  have "check_bounded_text 256 ''a'' = Inr ()" "check_bounded_text 256 ''b'' = Inr ()" "check_bounded_text 256 ''q'' = Inr ()"
    by code_simp+
  then have r: "check_bounded_text 256 r = Inr ()" using assms(3) by blast
  show ?thesis
    using assms(1,2) unfolding RetrievalBranchHit_post_init_def sample_hit_def RetrievalBranchHit.simps t d r
      score_one res_bind_simps Let_def for_each.simps by simp
qed

lemma sample_hits:
  "all_hits sample_executions = [sample_hit EXACT 1 ''a'', sample_hit FULL_TEXT 1 ''b'', sample_hit FULL_TEXT 2 ''a'',
     sample_hit VECTOR 1 ''q'', sample_hit VECTOR 2 ''b'']"
  by (simp add: sample_executions_def sample_execution_def)

lemma sample_checked:
  "map be_branch sample_executions = all_branches"
  "\<forall>h \<in> set (all_hits sample_executions). RetrievalBranchHit_post_init h = Inr ()"
  "\<forall>h \<in> set (all_hits sample_executions).
     \<exists>rt. root_by_id sample_fixture (bh_dependency_root_id h) = Some rt \<and> root_ready rt"
  "date_window_start HYBRID_FIXTURE_POLICY_V1 (fx_query_valid_time sample_fixture) = Inr 63868521600000000"
proof -
  show "map be_branch sample_executions = all_branches"
    by (simp add: sample_executions_def sample_execution_def all_branches_def)
  show "\<forall>h \<in> set (all_hits sample_executions). RetrievalBranchHit_post_init h = Inr ()"
    unfolding sample_hits by (simp add: sample_hit_ok)
  have ready: "root_ready (sample_root ''a'' x)" "root_ready (sample_root ''b'' x)" "root_ready (sample_root ''q'' x)" for x
    unfolding root_ready_def sample_root_def by (simp; code_simp)+
  show "\<forall>h \<in> set (all_hits sample_executions).
     \<exists>rt. root_by_id sample_fixture (bh_dependency_root_id h) = Some rt \<and> root_ready rt"
    unfolding sample_hits by (simp add: sample_hit_def root_by_id_def sample_fixture_def ready) (simp add: sample_root_def)
  show "date_window_start HYBRID_FIXTURE_POLICY_V1 (fx_query_valid_time sample_fixture) = Inr 63868521600000000"
    by code_simp
qed

theorem fusion_returns_witness:
  "HybridRetrievalPolicy_post_init HYBRID_FIXTURE_POLICY_V1 = Inr () \<and> length (all_hits sample_executions) = 5 \<and>
   (\<exists>retained exclusions.
      fuse_fixture_candidates sample_executions HYBRID_FIXTURE_POLICY_V1 sample_fixture = Inr (retained, exclusions))"
  using sample_fusion_policy fusion_returns [OF sample_fusion_policy sample_checked] by (simp add: sample_hits)

theorem fusion_refines_ranking_witness:
  "\<exists>retained exclusions ws.
     fuse_fixture_candidates sample_executions HYBRID_FIXTURE_POLICY_V1 sample_fixture = Inr (retained, exclusions)
     \<and> map fc_dependency_root_id retained = [''a'', ''b'']
     \<and> [''a'', ''b''] = take 12 (ranking 60 sample_fixture ws (all_hits sample_executions))"
  using sample_fusion fusion_refines_ranking [OF sample_fusion_policy] by metis

theorem fusion_accounts_for_every_root_witness:
  "\<exists>retained exclusions.
     fuse_fixture_candidates sample_executions HYBRID_FIXTURE_POLICY_V1 sample_fixture = Inr (retained, exclusions)
     \<and> map ex_dependency_root_id exclusions = [''q''] \<and> context_ranking_ok retained exclusions = Inr ()
     \<and> {''a'', ''b''} \<union> {''q''} = bh_dependency_root_id ` set (all_hits sample_executions)"
proof -
  obtain retained exclusions where
    f: "fuse_fixture_candidates sample_executions HYBRID_FIXTURE_POLICY_V1 sample_fixture = Inr (retained, exclusions)"
    "map fc_dependency_root_id retained = [''a'', ''b'']" "map ex_dependency_root_id exclusions = [''q'']"
    by (rule sample_fusion)
  note all = fusion_accounts_for_every_root [OF sample_fusion_policy f(1) sample_checked(4), unfolded f(2,3)]
  have "{''a'', ''b''} \<union> {''q''} = bh_dependency_root_id ` set (all_hits sample_executions)"
    using conjunct1 [OF conjunct2 [OF all]] by (simp only: list.set)
  then show ?thesis
    using f(1,3) conjunct1 [OF all] by (intro exI [of _ retained] exI [of _ exclusions] conjI)
qed

definition sample_metadata :: RetrievalProjectionMetadata where
  "sample_metadata = \<lparr> pm_identity = \<lparr> ci_generation_id = ''g'', ci_family_id = ''f'', ci_family_definition_version = ''v'',
       ci_projector_version = ''v'', ci_ontology_contract_digest = ''d'', ci_mapping_contract_digest = ''d'',
       ci_complete_contract_digest = ''d'', ci_fulltext_contract_digest = ''d'', ci_vector_contract_digest = ''d'',
       ci_fixture_vector_manifest_digest = ''d'' \<rparr>,
     pm_generation_state = ACTIVE, pm_contiguous_ledger_seq = 7, pm_open_gap_count = 0, pm_dead_letter_count = 0,
     pm_validation_recorded_at = 63871200000000000, pm_date_window_start = 63868521600000000,
     pm_query_valid_time = 63871200000000000, pm_freshness_deadline = 63871203600000000,
     pm_serving_time = 63871200000000000, pm_authoritative_system = ''sqlite-ledger-and-governed-objects'',
     pm_projection_role = ''non-authoritative-rebuildable-context'' \<rparr>"

definition sample_context :: "RetrievalBranchExecution list \<Rightarrow> RetrievalContextV2" where
  "sample_context es = \<lparr> rc_context_id = ''c'', rc_request_id = ''r'', rc_tool_name = ''find_related_event_candidates'',
     rc_tool_version = ''v'', rc_policy_digest = ''d'', rc_query_digest = ''d'', rc_outcome = DEGRADED,
     rc_projection = sample_metadata, rc_branches = es, rc_retained_candidates = [], rc_exclusions = [],
     rc_hydrated_passages = [], rc_total_context_bytes = 0, rc_truncated = False,
     rc_recorded_at = 63871200000000000 \<rparr>"

lemma sample_context_digest:
  assumes "es \<in> {sample_executions, [sample_execution EXACT [''a'']]}"
  shows "context_instants (sample_context es)" and "\<exists>g. context_digest (sample_context es) = Inr g"
proof -
  show "context_instants (sample_context es)"
    by (simp add: context_instants_def metadata_instants_def sample_context_def sample_metadata_def instant_def MAX_INSTANT_def)
  have m: "encodable (RetrievalProjectionMetadata_canonical_value sample_metadata)"
    by (simp add: RetrievalProjectionMetadata_canonical_value_def CompleteProjectionIdentity_canonical_value_def
        sample_metadata_def obj_encodable safe_int_def MIN_SAFE_INTEGER_def MAX_SAFE_INTEGER_def)
  have e: "encodable (RetrievalBranchExecution_canonical_value (sample_execution b rs))" if "length rs \<le> 8" for b rs
    using that
    by (auto simp: RetrievalBranchExecution_canonical_value_def RetrievalBranchHit_canonical_value_def
        sample_execution_def sample_hit_def obj_encodable safe_int_def MIN_SAFE_INTEGER_def MAX_SAFE_INTEGER_def
        in_set_enumerate_eq)
  show "\<exists>g. context_digest (sample_context es) = Inr g"
    unfolding context_digest_def digest_canonical_encodable [OF retrieval_context.value_wf]
    using assms by (auto simp: RetrievalContextV2_canonical_value_def sample_context_def sample_executions_def
        obj_encodable m e safe_int_def MIN_SAFE_INTEGER_def MAX_SAFE_INTEGER_def)
qed

theorem context_digest_commits_witness:
  "\<exists>g h. context_digest (sample_context sample_executions) = Inr g
     \<and> context_digest (sample_context [sample_execution EXACT [''a'']]) = Inr h
     \<and> (g \<noteq> h \<or> (\<exists>a b. canonical_json_bytes (RetrievalContextV2_canonical_value (sample_context sample_executions)) = Inr a
         \<and> canonical_json_bytes (RetrievalContextV2_canonical_value (sample_context [sample_execution EXACT [''a'']])) = Inr b
         \<and> collides a b))"
proof -
  have ne: "sample_context sample_executions \<noteq> sample_context [sample_execution EXACT [''a'']]"
    by (simp add: sample_context_def sample_executions_def)
  obtain g h where "context_digest (sample_context sample_executions) = Inr g"
    "context_digest (sample_context [sample_execution EXACT [''a'']]) = Inr h"
    using sample_context_digest(2) by blast
  with context_digest_commits [OF sample_context_digest(1) sample_context_digest(1) ne this] show ?thesis by blast
qed

end
