(* ===== verification/Triage_Vocabulary.thy ===== *)
theory Triage_Vocabulary
  imports Wire
begin

text \<open>
  The closed vocabularies of \<open>src/newsroom/increment6/outcomes.py\<close>: each \<open>StrEnum\<close> is a datatype with its
  values, the list of its members in declaration order and an interpretation of \<open>str_enum\<close>; then the
  tables between them. Members of different enumerations that share a name carry a suffix here.
\<close>

section \<open>Enumerations\<close>

datatype OutcomeFamily =
    CHECK | SIGNAL | LEAD | RELATIONSHIP | CANDIDATE_HANDOFF | HEALTH | COVERAGE

primrec OutcomeFamily_value :: "OutcomeFamily \<Rightarrow> string" where
  "OutcomeFamily_value CHECK = ''CHECK''"
| "OutcomeFamily_value SIGNAL = ''SIGNAL''"
| "OutcomeFamily_value LEAD = ''LEAD''"
| "OutcomeFamily_value RELATIONSHIP = ''RELATIONSHIP''"
| "OutcomeFamily_value CANDIDATE_HANDOFF = ''CANDIDATE_HANDOFF''"
| "OutcomeFamily_value HEALTH = ''HEALTH''"
| "OutcomeFamily_value COVERAGE = ''COVERAGE''"

definition OutcomeFamily_members :: "OutcomeFamily list" where
  "OutcomeFamily_members =
    [CHECK, SIGNAL, LEAD, RELATIONSHIP, CANDIDATE_HANDOFF, HEALTH, COVERAGE]"

lemma OutcomeFamily_complete: "x \<in> set OutcomeFamily_members"
  by (cases x) (simp_all add: OutcomeFamily_members_def)

lemma OutcomeFamily_distinct: "distinct (map OutcomeFamily_value OutcomeFamily_members)"
  by (simp add: OutcomeFamily_members_def)

interpretation outcomeFamily: str_enum OutcomeFamily_value OutcomeFamily_members
  by unfold_locales (rule OutcomeFamily_complete, rule OutcomeFamily_distinct)

datatype (plugins only: size) CanonicalOutcome =
    NO_WORK_DUE | PREFLIGHT_BLOCKED | CHECK_UNCHANGED | CHECK_CHANGED | CHECK_PARTIAL |
    CHECK_FAILED_RETRYABLE | CHECK_FAILED_BLOCKING | CHECK_QUARANTINED | SIGNAL_SUPPRESSED_DUPLICATE |
    SIGNAL_SUPPRESSED_NON_CHANGE | SIGNAL_REJECTED_CLEAR_EXCLUSION | SIGNAL_PROMOTED_TO_LEAD |
    SIGNAL_OPERATIONAL_HOLD | LEAD_EDITORIAL_REJECT | LEAD_QUEUED_FOR_TRIAGE | LEAD_WATCH_DEFER |
    LEAD_ASSOCIATE_WITHOUT_CANDIDATE | LEAD_SUPPLEMENTAL_DISCOVERY | LEAD_OPERATIONAL_HOLD |
    LEAD_ADMIT_NEW_CANDIDATE | LEAD_ADMIT_DEVELOPMENT_CANDIDATE | LEAD_ADMIT_CORRECTION_CANDIDATE |
    REL_SAME_STATE | REL_DEVELOPMENT_OF | REL_CORRECTION_REVERSAL_OF | REL_RELATED_DISTINCT |
    REL_NO_ADEQUATE_PRIOR_MATCH | REL_UNCERTAIN | CANDIDATE_ADMITTED | CANDIDATE_ADMISSION_INVALID |
    CANDIDATE_ADMISSION_BLOCKED | CANDIDATE_VERSION_SUPERSEDED | HANDOFF_PENDING |
    HANDOFF_ACKNOWLEDGED | HANDOFF_RETRY_REQUIRED | HANDOFF_OPERATIONAL_HOLD |
    EVIDENCE_FEEDBACK_RECEIVED | HEALTH_HEALTHY | HEALTH_DEGRADED | HEALTH_STALE | HEALTH_UNAVAILABLE |
    HEALTH_QUARANTINED | HEALTH_BLOCKED | HEALTH_UNKNOWN | COVERAGE_AVAILABLE | COVERAGE_DEGRADED |
    COVERAGE_BLOCKED | COVERAGE_UNKNOWN

primrec CanonicalOutcome_value :: "CanonicalOutcome \<Rightarrow> string" where
  "CanonicalOutcome_value NO_WORK_DUE = ''NO_WORK_DUE''"
| "CanonicalOutcome_value PREFLIGHT_BLOCKED = ''PREFLIGHT_BLOCKED''"
| "CanonicalOutcome_value CHECK_UNCHANGED = ''CHECK_UNCHANGED''"
| "CanonicalOutcome_value CHECK_CHANGED = ''CHECK_CHANGED''"
| "CanonicalOutcome_value CHECK_PARTIAL = ''CHECK_PARTIAL''"
| "CanonicalOutcome_value CHECK_FAILED_RETRYABLE = ''CHECK_FAILED_RETRYABLE''"
| "CanonicalOutcome_value CHECK_FAILED_BLOCKING = ''CHECK_FAILED_BLOCKING''"
| "CanonicalOutcome_value CHECK_QUARANTINED = ''CHECK_QUARANTINED''"
| "CanonicalOutcome_value SIGNAL_SUPPRESSED_DUPLICATE = ''SIGNAL_SUPPRESSED_DUPLICATE''"
| "CanonicalOutcome_value SIGNAL_SUPPRESSED_NON_CHANGE = ''SIGNAL_SUPPRESSED_NON_CHANGE''"
| "CanonicalOutcome_value SIGNAL_REJECTED_CLEAR_EXCLUSION = ''SIGNAL_REJECTED_CLEAR_EXCLUSION''"
| "CanonicalOutcome_value SIGNAL_PROMOTED_TO_LEAD = ''SIGNAL_PROMOTED_TO_LEAD''"
| "CanonicalOutcome_value SIGNAL_OPERATIONAL_HOLD = ''SIGNAL_OPERATIONAL_HOLD''"
| "CanonicalOutcome_value LEAD_EDITORIAL_REJECT = ''LEAD_EDITORIAL_REJECT''"
| "CanonicalOutcome_value LEAD_QUEUED_FOR_TRIAGE = ''LEAD_QUEUED_FOR_TRIAGE''"
| "CanonicalOutcome_value LEAD_WATCH_DEFER = ''LEAD_WATCH_DEFER''"
| "CanonicalOutcome_value LEAD_ASSOCIATE_WITHOUT_CANDIDATE = ''LEAD_ASSOCIATE_WITHOUT_CANDIDATE''"
| "CanonicalOutcome_value LEAD_SUPPLEMENTAL_DISCOVERY = ''LEAD_SUPPLEMENTAL_DISCOVERY''"
| "CanonicalOutcome_value LEAD_OPERATIONAL_HOLD = ''LEAD_OPERATIONAL_HOLD''"
| "CanonicalOutcome_value LEAD_ADMIT_NEW_CANDIDATE = ''LEAD_ADMIT_NEW_CANDIDATE''"
| "CanonicalOutcome_value LEAD_ADMIT_DEVELOPMENT_CANDIDATE = ''LEAD_ADMIT_DEVELOPMENT_CANDIDATE''"
| "CanonicalOutcome_value LEAD_ADMIT_CORRECTION_CANDIDATE = ''LEAD_ADMIT_CORRECTION_CANDIDATE''"
| "CanonicalOutcome_value REL_SAME_STATE = ''REL_SAME_STATE''"
| "CanonicalOutcome_value REL_DEVELOPMENT_OF = ''REL_DEVELOPMENT_OF''"
| "CanonicalOutcome_value REL_CORRECTION_REVERSAL_OF = ''REL_CORRECTION_REVERSAL_OF''"
| "CanonicalOutcome_value REL_RELATED_DISTINCT = ''REL_RELATED_DISTINCT''"
| "CanonicalOutcome_value REL_NO_ADEQUATE_PRIOR_MATCH = ''REL_NO_ADEQUATE_PRIOR_MATCH''"
| "CanonicalOutcome_value REL_UNCERTAIN = ''REL_UNCERTAIN''"
| "CanonicalOutcome_value CANDIDATE_ADMITTED = ''CANDIDATE_ADMITTED''"
| "CanonicalOutcome_value CANDIDATE_ADMISSION_INVALID = ''CANDIDATE_ADMISSION_INVALID''"
| "CanonicalOutcome_value CANDIDATE_ADMISSION_BLOCKED = ''CANDIDATE_ADMISSION_BLOCKED''"
| "CanonicalOutcome_value CANDIDATE_VERSION_SUPERSEDED = ''CANDIDATE_VERSION_SUPERSEDED''"
| "CanonicalOutcome_value HANDOFF_PENDING = ''HANDOFF_PENDING''"
| "CanonicalOutcome_value HANDOFF_ACKNOWLEDGED = ''HANDOFF_ACKNOWLEDGED''"
| "CanonicalOutcome_value HANDOFF_RETRY_REQUIRED = ''HANDOFF_RETRY_REQUIRED''"
| "CanonicalOutcome_value HANDOFF_OPERATIONAL_HOLD = ''HANDOFF_OPERATIONAL_HOLD''"
| "CanonicalOutcome_value EVIDENCE_FEEDBACK_RECEIVED = ''EVIDENCE_FEEDBACK_RECEIVED''"
| "CanonicalOutcome_value HEALTH_HEALTHY = ''HEALTH_HEALTHY''"
| "CanonicalOutcome_value HEALTH_DEGRADED = ''HEALTH_DEGRADED''"
| "CanonicalOutcome_value HEALTH_STALE = ''HEALTH_STALE''"
| "CanonicalOutcome_value HEALTH_UNAVAILABLE = ''HEALTH_UNAVAILABLE''"
| "CanonicalOutcome_value HEALTH_QUARANTINED = ''HEALTH_QUARANTINED''"
| "CanonicalOutcome_value HEALTH_BLOCKED = ''HEALTH_BLOCKED''"
| "CanonicalOutcome_value HEALTH_UNKNOWN = ''HEALTH_UNKNOWN''"
| "CanonicalOutcome_value COVERAGE_AVAILABLE = ''COVERAGE_AVAILABLE''"
| "CanonicalOutcome_value COVERAGE_DEGRADED = ''COVERAGE_DEGRADED''"
| "CanonicalOutcome_value COVERAGE_BLOCKED = ''COVERAGE_BLOCKED''"
| "CanonicalOutcome_value COVERAGE_UNKNOWN = ''COVERAGE_UNKNOWN''"

definition CanonicalOutcome_members :: "CanonicalOutcome list" where
  "CanonicalOutcome_members =
    [NO_WORK_DUE, PREFLIGHT_BLOCKED, CHECK_UNCHANGED, CHECK_CHANGED, CHECK_PARTIAL,
    CHECK_FAILED_RETRYABLE, CHECK_FAILED_BLOCKING, CHECK_QUARANTINED, SIGNAL_SUPPRESSED_DUPLICATE,
    SIGNAL_SUPPRESSED_NON_CHANGE, SIGNAL_REJECTED_CLEAR_EXCLUSION, SIGNAL_PROMOTED_TO_LEAD,
    SIGNAL_OPERATIONAL_HOLD, LEAD_EDITORIAL_REJECT, LEAD_QUEUED_FOR_TRIAGE, LEAD_WATCH_DEFER,
    LEAD_ASSOCIATE_WITHOUT_CANDIDATE, LEAD_SUPPLEMENTAL_DISCOVERY, LEAD_OPERATIONAL_HOLD,
    LEAD_ADMIT_NEW_CANDIDATE, LEAD_ADMIT_DEVELOPMENT_CANDIDATE, LEAD_ADMIT_CORRECTION_CANDIDATE,
    REL_SAME_STATE, REL_DEVELOPMENT_OF, REL_CORRECTION_REVERSAL_OF, REL_RELATED_DISTINCT,
    REL_NO_ADEQUATE_PRIOR_MATCH, REL_UNCERTAIN, CANDIDATE_ADMITTED, CANDIDATE_ADMISSION_INVALID,
    CANDIDATE_ADMISSION_BLOCKED, CANDIDATE_VERSION_SUPERSEDED, HANDOFF_PENDING, HANDOFF_ACKNOWLEDGED,
    HANDOFF_RETRY_REQUIRED, HANDOFF_OPERATIONAL_HOLD, EVIDENCE_FEEDBACK_RECEIVED, HEALTH_HEALTHY,
    HEALTH_DEGRADED, HEALTH_STALE, HEALTH_UNAVAILABLE, HEALTH_QUARANTINED, HEALTH_BLOCKED,
    HEALTH_UNKNOWN, COVERAGE_AVAILABLE, COVERAGE_DEGRADED, COVERAGE_BLOCKED, COVERAGE_UNKNOWN]"

lemma CanonicalOutcome_complete: "x \<in> set CanonicalOutcome_members"
  by (cases x) (simp_all add: CanonicalOutcome_members_def)

lemma CanonicalOutcome_distinct: "distinct (map CanonicalOutcome_value CanonicalOutcome_members)"
  by (simp add: CanonicalOutcome_members_def)

interpretation canonicalOutcome: str_enum CanonicalOutcome_value CanonicalOutcome_members
  by unfold_locales (rule CanonicalOutcome_complete, rule CanonicalOutcome_distinct)

datatype DecisionTerminality =
    TERMINAL_EXACT_VERSION | PENDING_CONDITION | RETRYABLE_SAME_REQUEST | OCCURRENCE_ONLY

primrec DecisionTerminality_value :: "DecisionTerminality \<Rightarrow> string" where
  "DecisionTerminality_value TERMINAL_EXACT_VERSION = ''TERMINAL_EXACT_VERSION''"
| "DecisionTerminality_value PENDING_CONDITION = ''PENDING_CONDITION''"
| "DecisionTerminality_value RETRYABLE_SAME_REQUEST = ''RETRYABLE_SAME_REQUEST''"
| "DecisionTerminality_value OCCURRENCE_ONLY = ''OCCURRENCE_ONLY''"

definition DecisionTerminality_members :: "DecisionTerminality list" where
  "DecisionTerminality_members =
    [TERMINAL_EXACT_VERSION, PENDING_CONDITION, RETRYABLE_SAME_REQUEST, OCCURRENCE_ONLY]"

lemma DecisionTerminality_complete: "x \<in> set DecisionTerminality_members"
  by (cases x) (simp_all add: DecisionTerminality_members_def)

lemma DecisionTerminality_distinct: "distinct (map DecisionTerminality_value DecisionTerminality_members)"
  by (simp add: DecisionTerminality_members_def)

interpretation decisionTerminality: str_enum DecisionTerminality_value DecisionTerminality_members
  by unfold_locales (rule DecisionTerminality_complete, rule DecisionTerminality_distinct)

datatype ReasonBasisClass =
    DETERMINISTIC_OBSERVATION | DETERMINISTIC_POLICY | SOURCE_ASSERTION | EDITORIAL_ASSESSMENT |
    OPERATIONAL_ASSESSMENT | HUMAN_ADJUDICATION | DOWNSTREAM_FEEDBACK

primrec ReasonBasisClass_value :: "ReasonBasisClass \<Rightarrow> string" where
  "ReasonBasisClass_value DETERMINISTIC_OBSERVATION = ''DETERMINISTIC_OBSERVATION''"
| "ReasonBasisClass_value DETERMINISTIC_POLICY = ''DETERMINISTIC_POLICY''"
| "ReasonBasisClass_value SOURCE_ASSERTION = ''SOURCE_ASSERTION''"
| "ReasonBasisClass_value EDITORIAL_ASSESSMENT = ''EDITORIAL_ASSESSMENT''"
| "ReasonBasisClass_value OPERATIONAL_ASSESSMENT = ''OPERATIONAL_ASSESSMENT''"
| "ReasonBasisClass_value HUMAN_ADJUDICATION = ''HUMAN_ADJUDICATION''"
| "ReasonBasisClass_value DOWNSTREAM_FEEDBACK = ''DOWNSTREAM_FEEDBACK''"

definition ReasonBasisClass_members :: "ReasonBasisClass list" where
  "ReasonBasisClass_members =
    [DETERMINISTIC_OBSERVATION, DETERMINISTIC_POLICY, SOURCE_ASSERTION, EDITORIAL_ASSESSMENT,
    OPERATIONAL_ASSESSMENT, HUMAN_ADJUDICATION, DOWNSTREAM_FEEDBACK]"

lemma ReasonBasisClass_complete: "x \<in> set ReasonBasisClass_members"
  by (cases x) (simp_all add: ReasonBasisClass_members_def)

lemma ReasonBasisClass_distinct: "distinct (map ReasonBasisClass_value ReasonBasisClass_members)"
  by (simp add: ReasonBasisClass_members_def)

interpretation reasonBasisClass: str_enum ReasonBasisClass_value ReasonBasisClass_members
  by unfold_locales (rule ReasonBasisClass_complete, rule ReasonBasisClass_distinct)

datatype ReasonFamily =
    AUTH | SCOPE | CHANGE | NOVELTY | UTILITY | REL | TIME | SOURCE | RIGHTS | OPS | CAPACITY |
    SEARCH | EVAL

primrec ReasonFamily_value :: "ReasonFamily \<Rightarrow> string" where
  "ReasonFamily_value AUTH = ''AUTH''"
| "ReasonFamily_value SCOPE = ''SCOPE''"
| "ReasonFamily_value CHANGE = ''CHANGE''"
| "ReasonFamily_value NOVELTY = ''NOVELTY''"
| "ReasonFamily_value UTILITY = ''UTILITY''"
| "ReasonFamily_value REL = ''REL''"
| "ReasonFamily_value TIME = ''TIME''"
| "ReasonFamily_value SOURCE = ''SOURCE''"
| "ReasonFamily_value RIGHTS = ''RIGHTS''"
| "ReasonFamily_value OPS = ''OPS''"
| "ReasonFamily_value CAPACITY = ''CAPACITY''"
| "ReasonFamily_value SEARCH = ''SEARCH''"
| "ReasonFamily_value EVAL = ''EVAL''"

definition ReasonFamily_members :: "ReasonFamily list" where
  "ReasonFamily_members =
    [AUTH, SCOPE, CHANGE, NOVELTY, UTILITY, REL, TIME, SOURCE, RIGHTS, OPS, CAPACITY, SEARCH, EVAL]"

lemma ReasonFamily_complete: "x \<in> set ReasonFamily_members"
  by (cases x) (simp_all add: ReasonFamily_members_def)

lemma ReasonFamily_distinct: "distinct (map ReasonFamily_value ReasonFamily_members)"
  by (simp add: ReasonFamily_members_def)

interpretation reasonFamily: str_enum ReasonFamily_value ReasonFamily_members
  by unfold_locales (rule ReasonFamily_complete, rule ReasonFamily_distinct)

datatype (plugins only: size) ReasonCode =
    AUTH_VERSION_CURRENT | AUTH_PROFILE_CURRENT | AUTH_POLICY_CURRENT | AUTH_STATE_STORE_AVAILABLE |
    AUTH_AUDIT_AVAILABLE | SCOPE_ACTIVE | SCOPE_BEST_EFFORT | SCOPE_DEFERRED | SCOPE_EXCLUDED |
    SCOPE_GEOGRAPHICALLY_QUALIFIED | CHANGE_UNCHANGED | CHANGE_NEW_ITEM | CHANGE_REVISION |
    CHANGE_GENUINE_TRANSITION | CHANGE_WITHDRAWAL | CHANGE_AGENDA_CHANGE | CHANGE_LEAD_CREATED |
    NOVELTY_EXACT_DUPLICATE | NOVELTY_SAME_STATE_REPEAT | NOVELTY_LIKELY_DEVELOPMENT |
    NOVELTY_LIKELY_NEW_EVENT | NOVELTY_INSUFFICIENT_INFORMATION | UTILITY_ACTION | UTILITY_SAFETY |
    UTILITY_SERVICE | UTILITY_HOUSEHOLD | UTILITY_TRAVEL | UTILITY_EDITORIAL_MATERIALITY |
    REL_SAME_STATE_REASON | REL_DEVELOPMENT | REL_CORRECTION_REVERSAL | REL_RELATED_DISTINCT_REASON |
    REL_NO_ADEQUATE_PRIOR_MATCH_REASON | REL_UNCERTAIN_REASON | TIME_URGENT | TIME_DEADLINE |
    TIME_PLANNED_WINDOW | TIME_WATCH_REVIEW | TIME_STALE_WORK | SOURCE_ROLE | SOURCE_DIRECTNESS |
    SOURCE_DEPENDENCY | SOURCE_IDENTITY | SOURCE_PUBLISHER_CHECK | RIGHTS_RETRIEVAL |
    RIGHTS_RETENTION | RIGHTS_MODEL | RIGHTS_QUERY_DATA | RIGHTS_USE_SCOPE | OPS_TRANSPORT |
    OPS_PARSER | OPS_PARTIAL | OPS_RETRIEVAL | OPS_COLLISION | OPS_MODEL | OPS_QUEUE | OPS_HANDOFF |
    OPS_QUARANTINE | OPS_STALE_STATE | CAPACITY_SEARCH | CAPACITY_MODEL | CAPACITY_QUEUE |
    CAPACITY_URGENT_RESERVE | CAPACITY_REVIEWER | SEARCH_ZERO_RESULTS | SEARCH_PARTIAL_RESULTS |
    SEARCH_PROVIDER_FAILURE | SEARCH_ALTERED_QUERY | SEARCH_COMPARATOR_ONLY | SEARCH_LEAD_ONLY |
    EVAL_EXPOSURE | EVAL_REVIEWABILITY | EVAL_BLOCKER | EVAL_SLICE_FAILURE | EVAL_RELEASE_EVIDENCE

primrec ReasonCode_value :: "ReasonCode \<Rightarrow> string" where
  "ReasonCode_value AUTH_VERSION_CURRENT = ''AUTH.VERSION_CURRENT''"
| "ReasonCode_value AUTH_PROFILE_CURRENT = ''AUTH.PROFILE_CURRENT''"
| "ReasonCode_value AUTH_POLICY_CURRENT = ''AUTH.POLICY_CURRENT''"
| "ReasonCode_value AUTH_STATE_STORE_AVAILABLE = ''AUTH.STATE_STORE_AVAILABLE''"
| "ReasonCode_value AUTH_AUDIT_AVAILABLE = ''AUTH.AUDIT_AVAILABLE''"
| "ReasonCode_value SCOPE_ACTIVE = ''SCOPE.ACTIVE''"
| "ReasonCode_value SCOPE_BEST_EFFORT = ''SCOPE.BEST_EFFORT''"
| "ReasonCode_value SCOPE_DEFERRED = ''SCOPE.DEFERRED''"
| "ReasonCode_value SCOPE_EXCLUDED = ''SCOPE.EXCLUDED''"
| "ReasonCode_value SCOPE_GEOGRAPHICALLY_QUALIFIED = ''SCOPE.GEOGRAPHICALLY_QUALIFIED''"
| "ReasonCode_value CHANGE_UNCHANGED = ''CHANGE.UNCHANGED''"
| "ReasonCode_value CHANGE_NEW_ITEM = ''CHANGE.NEW_ITEM''"
| "ReasonCode_value CHANGE_REVISION = ''CHANGE.REVISION''"
| "ReasonCode_value CHANGE_GENUINE_TRANSITION = ''CHANGE.GENUINE_TRANSITION''"
| "ReasonCode_value CHANGE_WITHDRAWAL = ''CHANGE.WITHDRAWAL''"
| "ReasonCode_value CHANGE_AGENDA_CHANGE = ''CHANGE.AGENDA_CHANGE''"
| "ReasonCode_value CHANGE_LEAD_CREATED = ''CHANGE.LEAD_CREATED''"
| "ReasonCode_value NOVELTY_EXACT_DUPLICATE = ''NOVELTY.EXACT_DUPLICATE''"
| "ReasonCode_value NOVELTY_SAME_STATE_REPEAT = ''NOVELTY.SAME_STATE_REPEAT''"
| "ReasonCode_value NOVELTY_LIKELY_DEVELOPMENT = ''NOVELTY.LIKELY_DEVELOPMENT''"
| "ReasonCode_value NOVELTY_LIKELY_NEW_EVENT = ''NOVELTY.LIKELY_NEW_EVENT''"
| "ReasonCode_value NOVELTY_INSUFFICIENT_INFORMATION = ''NOVELTY.INSUFFICIENT_INFORMATION''"
| "ReasonCode_value UTILITY_ACTION = ''UTILITY.ACTION''"
| "ReasonCode_value UTILITY_SAFETY = ''UTILITY.SAFETY''"
| "ReasonCode_value UTILITY_SERVICE = ''UTILITY.SERVICE''"
| "ReasonCode_value UTILITY_HOUSEHOLD = ''UTILITY.HOUSEHOLD''"
| "ReasonCode_value UTILITY_TRAVEL = ''UTILITY.TRAVEL''"
| "ReasonCode_value UTILITY_EDITORIAL_MATERIALITY = ''UTILITY.EDITORIAL_MATERIALITY''"
| "ReasonCode_value REL_SAME_STATE_REASON = ''REL.SAME_STATE''"
| "ReasonCode_value REL_DEVELOPMENT = ''REL.DEVELOPMENT''"
| "ReasonCode_value REL_CORRECTION_REVERSAL = ''REL.CORRECTION_REVERSAL''"
| "ReasonCode_value REL_RELATED_DISTINCT_REASON = ''REL.RELATED_DISTINCT''"
| "ReasonCode_value REL_NO_ADEQUATE_PRIOR_MATCH_REASON = ''REL.NO_ADEQUATE_PRIOR_MATCH''"
| "ReasonCode_value REL_UNCERTAIN_REASON = ''REL.UNCERTAIN''"
| "ReasonCode_value TIME_URGENT = ''TIME.URGENT''"
| "ReasonCode_value TIME_DEADLINE = ''TIME.DEADLINE''"
| "ReasonCode_value TIME_PLANNED_WINDOW = ''TIME.PLANNED_WINDOW''"
| "ReasonCode_value TIME_WATCH_REVIEW = ''TIME.WATCH_REVIEW''"
| "ReasonCode_value TIME_STALE_WORK = ''TIME.STALE_WORK''"
| "ReasonCode_value SOURCE_ROLE = ''SOURCE.ROLE''"
| "ReasonCode_value SOURCE_DIRECTNESS = ''SOURCE.DIRECTNESS''"
| "ReasonCode_value SOURCE_DEPENDENCY = ''SOURCE.DEPENDENCY''"
| "ReasonCode_value SOURCE_IDENTITY = ''SOURCE.IDENTITY''"
| "ReasonCode_value SOURCE_PUBLISHER_CHECK = ''SOURCE.PUBLISHER_CHECK''"
| "ReasonCode_value RIGHTS_RETRIEVAL = ''RIGHTS.RETRIEVAL''"
| "ReasonCode_value RIGHTS_RETENTION = ''RIGHTS.RETENTION''"
| "ReasonCode_value RIGHTS_MODEL = ''RIGHTS.MODEL''"
| "ReasonCode_value RIGHTS_QUERY_DATA = ''RIGHTS.QUERY_DATA''"
| "ReasonCode_value RIGHTS_USE_SCOPE = ''RIGHTS.USE_SCOPE''"
| "ReasonCode_value OPS_TRANSPORT = ''OPS.TRANSPORT''"
| "ReasonCode_value OPS_PARSER = ''OPS.PARSER''"
| "ReasonCode_value OPS_PARTIAL = ''OPS.PARTIAL''"
| "ReasonCode_value OPS_RETRIEVAL = ''OPS.RETRIEVAL''"
| "ReasonCode_value OPS_COLLISION = ''OPS.COLLISION''"
| "ReasonCode_value OPS_MODEL = ''OPS.MODEL''"
| "ReasonCode_value OPS_QUEUE = ''OPS.QUEUE''"
| "ReasonCode_value OPS_HANDOFF = ''OPS.HANDOFF''"
| "ReasonCode_value OPS_QUARANTINE = ''OPS.QUARANTINE''"
| "ReasonCode_value OPS_STALE_STATE = ''OPS.STALE_STATE''"
| "ReasonCode_value CAPACITY_SEARCH = ''CAPACITY.SEARCH''"
| "ReasonCode_value CAPACITY_MODEL = ''CAPACITY.MODEL''"
| "ReasonCode_value CAPACITY_QUEUE = ''CAPACITY.QUEUE''"
| "ReasonCode_value CAPACITY_URGENT_RESERVE = ''CAPACITY.URGENT_RESERVE''"
| "ReasonCode_value CAPACITY_REVIEWER = ''CAPACITY.REVIEWER''"
| "ReasonCode_value SEARCH_ZERO_RESULTS = ''SEARCH.ZERO_RESULTS''"
| "ReasonCode_value SEARCH_PARTIAL_RESULTS = ''SEARCH.PARTIAL_RESULTS''"
| "ReasonCode_value SEARCH_PROVIDER_FAILURE = ''SEARCH.PROVIDER_FAILURE''"
| "ReasonCode_value SEARCH_ALTERED_QUERY = ''SEARCH.ALTERED_QUERY''"
| "ReasonCode_value SEARCH_COMPARATOR_ONLY = ''SEARCH.COMPARATOR_ONLY''"
| "ReasonCode_value SEARCH_LEAD_ONLY = ''SEARCH.LEAD_ONLY''"
| "ReasonCode_value EVAL_EXPOSURE = ''EVAL.EXPOSURE''"
| "ReasonCode_value EVAL_REVIEWABILITY = ''EVAL.REVIEWABILITY''"
| "ReasonCode_value EVAL_BLOCKER = ''EVAL.BLOCKER''"
| "ReasonCode_value EVAL_SLICE_FAILURE = ''EVAL.SLICE_FAILURE''"
| "ReasonCode_value EVAL_RELEASE_EVIDENCE = ''EVAL.RELEASE_EVIDENCE''"

definition ReasonCode_members :: "ReasonCode list" where
  "ReasonCode_members =
    [AUTH_VERSION_CURRENT, AUTH_PROFILE_CURRENT, AUTH_POLICY_CURRENT, AUTH_STATE_STORE_AVAILABLE,
    AUTH_AUDIT_AVAILABLE, SCOPE_ACTIVE, SCOPE_BEST_EFFORT, SCOPE_DEFERRED, SCOPE_EXCLUDED,
    SCOPE_GEOGRAPHICALLY_QUALIFIED, CHANGE_UNCHANGED, CHANGE_NEW_ITEM, CHANGE_REVISION,
    CHANGE_GENUINE_TRANSITION, CHANGE_WITHDRAWAL, CHANGE_AGENDA_CHANGE, CHANGE_LEAD_CREATED,
    NOVELTY_EXACT_DUPLICATE, NOVELTY_SAME_STATE_REPEAT, NOVELTY_LIKELY_DEVELOPMENT,
    NOVELTY_LIKELY_NEW_EVENT, NOVELTY_INSUFFICIENT_INFORMATION, UTILITY_ACTION, UTILITY_SAFETY,
    UTILITY_SERVICE, UTILITY_HOUSEHOLD, UTILITY_TRAVEL, UTILITY_EDITORIAL_MATERIALITY,
    REL_SAME_STATE_REASON, REL_DEVELOPMENT, REL_CORRECTION_REVERSAL, REL_RELATED_DISTINCT_REASON,
    REL_NO_ADEQUATE_PRIOR_MATCH_REASON, REL_UNCERTAIN_REASON, TIME_URGENT, TIME_DEADLINE,
    TIME_PLANNED_WINDOW, TIME_WATCH_REVIEW, TIME_STALE_WORK, SOURCE_ROLE, SOURCE_DIRECTNESS,
    SOURCE_DEPENDENCY, SOURCE_IDENTITY, SOURCE_PUBLISHER_CHECK, RIGHTS_RETRIEVAL, RIGHTS_RETENTION,
    RIGHTS_MODEL, RIGHTS_QUERY_DATA, RIGHTS_USE_SCOPE, OPS_TRANSPORT, OPS_PARSER, OPS_PARTIAL,
    OPS_RETRIEVAL, OPS_COLLISION, OPS_MODEL, OPS_QUEUE, OPS_HANDOFF, OPS_QUARANTINE, OPS_STALE_STATE,
    CAPACITY_SEARCH, CAPACITY_MODEL, CAPACITY_QUEUE, CAPACITY_URGENT_RESERVE, CAPACITY_REVIEWER,
    SEARCH_ZERO_RESULTS, SEARCH_PARTIAL_RESULTS, SEARCH_PROVIDER_FAILURE, SEARCH_ALTERED_QUERY,
    SEARCH_COMPARATOR_ONLY, SEARCH_LEAD_ONLY, EVAL_EXPOSURE, EVAL_REVIEWABILITY, EVAL_BLOCKER,
    EVAL_SLICE_FAILURE, EVAL_RELEASE_EVIDENCE]"

lemma ReasonCode_complete: "x \<in> set ReasonCode_members"
  by (cases x) (simp_all add: ReasonCode_members_def)

lemma ReasonCode_distinct: "distinct (map ReasonCode_value ReasonCode_members)"
  by (simp add: ReasonCode_members_def)

interpretation reasonCode: str_enum ReasonCode_value ReasonCode_members
  by unfold_locales (rule ReasonCode_complete, rule ReasonCode_distinct)

datatype PriorityLane =
    CONTAINMENT | URGENT | TIME_SENSITIVE | PLANNED_WINDOW | ROUTINE | OPTIONAL_EVALUATION

primrec PriorityLane_value :: "PriorityLane \<Rightarrow> string" where
  "PriorityLane_value CONTAINMENT = ''CONTAINMENT''"
| "PriorityLane_value URGENT = ''URGENT''"
| "PriorityLane_value TIME_SENSITIVE = ''TIME_SENSITIVE''"
| "PriorityLane_value PLANNED_WINDOW = ''PLANNED_WINDOW''"
| "PriorityLane_value ROUTINE = ''ROUTINE''"
| "PriorityLane_value OPTIONAL_EVALUATION = ''OPTIONAL_EVALUATION''"

definition PriorityLane_members :: "PriorityLane list" where
  "PriorityLane_members =
    [CONTAINMENT, URGENT, TIME_SENSITIVE, PLANNED_WINDOW, ROUTINE, OPTIONAL_EVALUATION]"

lemma PriorityLane_complete: "x \<in> set PriorityLane_members"
  by (cases x) (simp_all add: PriorityLane_members_def)

lemma PriorityLane_distinct: "distinct (map PriorityLane_value PriorityLane_members)"
  by (simp add: PriorityLane_members_def)

interpretation priorityLane: str_enum PriorityLane_value PriorityLane_members
  by unfold_locales (rule PriorityLane_complete, rule PriorityLane_distinct)

datatype NextActionKind =
    CLOSE | QUEUE_TRIAGE | RETRY | REVIEW | WAIT_DEPENDENCY | RESUME_ON_WATCH | HANDOFF |
    REQUEST_SUPPLEMENTAL_DISCOVERY_KIND

primrec NextActionKind_value :: "NextActionKind \<Rightarrow> string" where
  "NextActionKind_value CLOSE = ''CLOSE''"
| "NextActionKind_value QUEUE_TRIAGE = ''QUEUE_TRIAGE''"
| "NextActionKind_value RETRY = ''RETRY''"
| "NextActionKind_value REVIEW = ''REVIEW''"
| "NextActionKind_value WAIT_DEPENDENCY = ''WAIT_DEPENDENCY''"
| "NextActionKind_value RESUME_ON_WATCH = ''RESUME_ON_WATCH''"
| "NextActionKind_value HANDOFF = ''HANDOFF''"
| "NextActionKind_value REQUEST_SUPPLEMENTAL_DISCOVERY_KIND = ''REQUEST_SUPPLEMENTAL_DISCOVERY''"

definition NextActionKind_members :: "NextActionKind list" where
  "NextActionKind_members =
    [CLOSE, QUEUE_TRIAGE, RETRY, REVIEW, WAIT_DEPENDENCY, RESUME_ON_WATCH, HANDOFF,
    REQUEST_SUPPLEMENTAL_DISCOVERY_KIND]"

lemma NextActionKind_complete: "x \<in> set NextActionKind_members"
  by (cases x) (simp_all add: NextActionKind_members_def)

lemma NextActionKind_distinct: "distinct (map NextActionKind_value NextActionKind_members)"
  by (simp add: NextActionKind_members_def)

interpretation nextActionKind: str_enum NextActionKind_value NextActionKind_members
  by unfold_locales (rule NextActionKind_complete, rule NextActionKind_distinct)

datatype CanonicalNextAction =
    CLOSE_DECISION | QUEUE_FOR_TRIAGE | RETRY_SAME_REQUEST | REQUEST_REVIEW | WAIT_FOR_DEPENDENCY |
    AWAIT_WATCH_CONDITION | HANDOFF_FOR_EVALUATION | REQUEST_SUPPLEMENTAL_DISCOVERY

primrec CanonicalNextAction_value :: "CanonicalNextAction \<Rightarrow> string" where
  "CanonicalNextAction_value CLOSE_DECISION = ''CLOSE_DECISION''"
| "CanonicalNextAction_value QUEUE_FOR_TRIAGE = ''QUEUE_FOR_TRIAGE''"
| "CanonicalNextAction_value RETRY_SAME_REQUEST = ''RETRY_SAME_REQUEST''"
| "CanonicalNextAction_value REQUEST_REVIEW = ''REQUEST_REVIEW''"
| "CanonicalNextAction_value WAIT_FOR_DEPENDENCY = ''WAIT_FOR_DEPENDENCY''"
| "CanonicalNextAction_value AWAIT_WATCH_CONDITION = ''AWAIT_WATCH_CONDITION''"
| "CanonicalNextAction_value HANDOFF_FOR_EVALUATION = ''HANDOFF_FOR_EVALUATION''"
| "CanonicalNextAction_value REQUEST_SUPPLEMENTAL_DISCOVERY = ''REQUEST_SUPPLEMENTAL_DISCOVERY''"

definition CanonicalNextAction_members :: "CanonicalNextAction list" where
  "CanonicalNextAction_members =
    [CLOSE_DECISION, QUEUE_FOR_TRIAGE, RETRY_SAME_REQUEST, REQUEST_REVIEW, WAIT_FOR_DEPENDENCY,
    AWAIT_WATCH_CONDITION, HANDOFF_FOR_EVALUATION, REQUEST_SUPPLEMENTAL_DISCOVERY]"

lemma CanonicalNextAction_complete: "x \<in> set CanonicalNextAction_members"
  by (cases x) (simp_all add: CanonicalNextAction_members_def)

lemma CanonicalNextAction_distinct: "distinct (map CanonicalNextAction_value CanonicalNextAction_members)"
  by (simp add: CanonicalNextAction_members_def)

interpretation canonicalNextAction: str_enum CanonicalNextAction_value CanonicalNextAction_members
  by unfold_locales (rule CanonicalNextAction_complete, rule CanonicalNextAction_distinct)

text \<open>\<open>ContractAuthority\<close> and \<open>ContractEffect\<close> have the one member NONE.\<close>

datatype ContractAuthority = NoAuthority
datatype ContractEffect = NoEffect

primrec ContractAuthority_value :: "ContractAuthority \<Rightarrow> string" where
  "ContractAuthority_value NoAuthority = ''NONE''"

primrec ContractEffect_value :: "ContractEffect \<Rightarrow> string" where
  "ContractEffect_value NoEffect = ''NONE''"

section \<open>Tables\<close>

definition starts_with :: "string \<Rightarrow> string \<Rightarrow> bool" where
  "starts_with p s = (take (length p) s = p)"

text \<open>The dictionary \<open>_OUTCOME_FAMILIES\<close>; its parts are disjoint.\<close>

definition outcome_family :: "CanonicalOutcome \<Rightarrow> OutcomeFamily res" where
  "outcome_family o' =
     (let v = CanonicalOutcome_value o' in
      if starts_with ''CHECK_'' v \<or> o' = NO_WORK_DUE \<or> o' = PREFLIGHT_BLOCKED then Inr CHECK
      else if starts_with ''SIGNAL_'' v then Inr SIGNAL
      else if starts_with ''LEAD_'' v then Inr LEAD
      else if starts_with ''REL_'' v then Inr RELATIONSHIP
      else if starts_with ''CANDIDATE_'' v \<or> starts_with ''HANDOFF_'' v \<or> starts_with ''EVIDENCE_'' v
        then Inr CANDIDATE_HANDOFF
      else if starts_with ''HEALTH_'' v then Inr HEALTH
      else if starts_with ''COVERAGE_'' v then Inr COVERAGE
      else Inl (Exn KeyError v))"

definition ReasonCode_family :: "ReasonCode \<Rightarrow> ReasonFamily res" where
  "ReasonCode_family c =
     enum_of ReasonFamily_value ReasonFamily_members (Exn ValueError ''not a valid ReasonFamily'')
       (jstr (takeWhile (\<lambda>x. x \<noteq> CHR ''.'') (ReasonCode_value c)))"

primrec lane_ordinal :: "PriorityLane \<Rightarrow> int" where
  "lane_ordinal CONTAINMENT = 1"
| "lane_ordinal URGENT = 2"
| "lane_ordinal TIME_SENSITIVE = 3"
| "lane_ordinal PLANNED_WINDOW = 4"
| "lane_ordinal ROUTINE = 5"
| "lane_ordinal OPTIONAL_EVALUATION = 6"

primrec next_action_kind :: "CanonicalNextAction \<Rightarrow> NextActionKind" where
  "next_action_kind CLOSE_DECISION = CLOSE"
| "next_action_kind QUEUE_FOR_TRIAGE = QUEUE_TRIAGE"
| "next_action_kind RETRY_SAME_REQUEST = RETRY"
| "next_action_kind REQUEST_REVIEW = REVIEW"
| "next_action_kind WAIT_FOR_DEPENDENCY = WAIT_DEPENDENCY"
| "next_action_kind AWAIT_WATCH_CONDITION = RESUME_ON_WATCH"
| "next_action_kind HANDOFF_FOR_EVALUATION = HANDOFF"
| "next_action_kind REQUEST_SUPPLEMENTAL_DISCOVERY = REQUEST_SUPPLEMENTAL_DISCOVERY_KIND"

definition PENDING_OUTCOMES :: "CanonicalOutcome list" where
  "PENDING_OUTCOMES = [PREFLIGHT_BLOCKED, SIGNAL_OPERATIONAL_HOLD, LEAD_QUEUED_FOR_TRIAGE,
     LEAD_WATCH_DEFER, LEAD_SUPPLEMENTAL_DISCOVERY, CANDIDATE_ADMISSION_BLOCKED, HANDOFF_PENDING,
     HANDOFF_OPERATIONAL_HOLD]"

definition RETRYABLE_OUTCOMES :: "CanonicalOutcome list" where
  "RETRYABLE_OUTCOMES = [CHECK_FAILED_RETRYABLE, HANDOFF_RETRY_REQUIRED]"

definition OCCURRENCE_OUTCOMES :: "CanonicalOutcome list" where
  "OCCURRENCE_OUTCOMES =
     filter (\<lambda>o'. outcome_family o' \<in> {Inr RELATIONSHIP, Inr HEALTH, Inr COVERAGE}) CanonicalOutcome_members
       @ [CHECK_CHANGED, CHECK_PARTIAL, EVIDENCE_FEEDBACK_RECEIVED]"

definition permitted_terminality :: "CanonicalOutcome \<Rightarrow> DecisionTerminality list" where
  "permitted_terminality o' =
     (if o' = LEAD_OPERATIONAL_HOLD then [PENDING_CONDITION, RETRYABLE_SAME_REQUEST]
      else if o' \<in> set PENDING_OUTCOMES then [PENDING_CONDITION]
      else if o' \<in> set RETRYABLE_OUTCOMES then [RETRYABLE_SAME_REQUEST]
      else if o' \<in> set OCCURRENCE_OUTCOMES then [OCCURRENCE_ONLY, TERMINAL_EXACT_VERSION]
      else [TERMINAL_EXACT_VERSION])"

text \<open>The values of \<open>_DiscoveryDispositionMapping\<close>, with the source outcome as its value.\<close>

record DiscoveryDispositionMapping =
  dm_source_outcome :: string
  dm_outcome :: CanonicalOutcome
  dm_terminality :: DecisionTerminality
  dm_next_action :: CanonicalNextAction
  dm_requires_exact_watch_condition :: bool
  dm_requires_bounded_supplemental_action :: bool

definition WATCH_CONDITION_MAPPING :: "string \<rightharpoonup> DiscoveryDispositionMapping" where
  "WATCH_CONDITION_MAPPING =
     [''LEAD_WATCH_DEFER'' \<mapsto>
        \<lparr>dm_source_outcome = ''LEAD_WATCH_DEFER'', dm_outcome = LEAD_WATCH_DEFER,
         dm_terminality = PENDING_CONDITION, dm_next_action = AWAIT_WATCH_CONDITION,
         dm_requires_exact_watch_condition = True, dm_requires_bounded_supplemental_action = False\<rparr>]"

definition SUPPLEMENTAL_ACTION_MAPPING :: "string \<rightharpoonup> DiscoveryDispositionMapping" where
  "SUPPLEMENTAL_ACTION_MAPPING =
     [''LEAD_SUPPLEMENTAL_DISCOVERY'' \<mapsto>
        \<lparr>dm_source_outcome = ''LEAD_SUPPLEMENTAL_DISCOVERY'', dm_outcome = LEAD_SUPPLEMENTAL_DISCOVERY,
         dm_terminality = PENDING_CONDITION, dm_next_action = REQUEST_SUPPLEMENTAL_DISCOVERY,
         dm_requires_exact_watch_condition = False, dm_requires_bounded_supplemental_action = True\<rparr>]"

definition mapped_action :: "DiscoveryDispositionMapping option \<Rightarrow> (DecisionTerminality \<times> CanonicalNextAction) list" where
  "mapped_action m = (case m of None \<Rightarrow> [] | Some d \<Rightarrow> [(dm_terminality d, dm_next_action d)])"

text \<open>\<open>_DISCOVERY_LEAD_SEMANTIC_MATRIX\<close>: what may follow each Lead outcome.\<close>

definition LEAD_MATRIX :: "CanonicalOutcome \<rightharpoonup> (DecisionTerminality \<times> CanonicalNextAction) list" where
  "LEAD_MATRIX =
     [LEAD_QUEUED_FOR_TRIAGE \<mapsto> [(PENDING_CONDITION, QUEUE_FOR_TRIAGE)],
      LEAD_EDITORIAL_REJECT \<mapsto> [(TERMINAL_EXACT_VERSION, CLOSE_DECISION)],
      LEAD_WATCH_DEFER \<mapsto> mapped_action (WATCH_CONDITION_MAPPING ''LEAD_WATCH_DEFER''),
      LEAD_ASSOCIATE_WITHOUT_CANDIDATE \<mapsto> [(TERMINAL_EXACT_VERSION, CLOSE_DECISION)],
      LEAD_SUPPLEMENTAL_DISCOVERY \<mapsto>
        mapped_action (SUPPLEMENTAL_ACTION_MAPPING ''LEAD_SUPPLEMENTAL_DISCOVERY''),
      LEAD_OPERATIONAL_HOLD \<mapsto>
        [(PENDING_CONDITION, RETRY_SAME_REQUEST), (PENDING_CONDITION, REQUEST_REVIEW),
         (PENDING_CONDITION, WAIT_FOR_DEPENDENCY), (RETRYABLE_SAME_REQUEST, RETRY_SAME_REQUEST)],
      LEAD_ADMIT_NEW_CANDIDATE \<mapsto> [(TERMINAL_EXACT_VERSION, HANDOFF_FOR_EVALUATION)],
      LEAD_ADMIT_DEVELOPMENT_CANDIDATE \<mapsto> [(TERMINAL_EXACT_VERSION, HANDOFF_FOR_EVALUATION)],
      LEAD_ADMIT_CORRECTION_CANDIDATE \<mapsto> [(TERMINAL_EXACT_VERSION, HANDOFF_FOR_EVALUATION)]]"

section \<open>The tables agree\<close>

lemma family_total: "\<exists>f. outcome_family o' = Inr f"
  by (cases o') (simp_all add: outcome_family_def starts_with_def Let_def)

lemma LEAD_MATRIX_total: "outcome_family o' = Inr LEAD \<longleftrightarrow> o' \<in> dom LEAD_MATRIX"
  by (cases o') (simp_all add: outcome_family_def starts_with_def Let_def LEAD_MATRIX_def)

lemma OCCURRENCE_OUTCOMES_iff:
  "o' \<in> set OCCURRENCE_OUTCOMES \<longleftrightarrow> outcome_family o' \<in> {Inr RELATIONSHIP, Inr HEALTH, Inr COVERAGE} \<or>
     o' \<in> {CHECK_CHANGED, CHECK_PARTIAL, EVIDENCE_FEEDBACK_RECEIVED}"
  using CanonicalOutcome_complete [of o'] by (simp add: OCCURRENCE_OUTCOMES_def) blast

lemma LEAD_MATRIX_permitted:
  assumes "LEAD_MATRIX o' = Some ps" and "(t, a) \<in> set ps"
  shows "t \<in> set (permitted_terminality o')"
proof -
  have "outcome_family o' = Inr LEAD" using assms(1) LEAD_MATRIX_total [of o'] by blast
  then have "o' \<notin> set OCCURRENCE_OUTCOMES \<or> o' \<in> {CHECK_CHANGED, CHECK_PARTIAL, EVIDENCE_FEEDBACK_RECEIVED}"
    unfolding OCCURRENCE_OUTCOMES_iff by auto
  then show ?thesis
    using assms unfolding LEAD_MATRIX_def permitted_terminality_def PENDING_OUTCOMES_def RETRYABLE_OUTCOMES_def
      WATCH_CONDITION_MAPPING_def SUPPLEMENTAL_ACTION_MAPPING_def mapped_action_def
    by (auto split: if_splits)
qed

lemma lane_ordinal_inj [simp]: "lane_ordinal a = lane_ordinal b \<longleftrightarrow> a = b"
  by (cases a; cases b) simp_all

lemma lane_ordinal_bounds: "1 \<le> lane_ordinal a" "lane_ordinal a \<le> 6"
  by (cases a; simp)+

end
