(* ===== verification/Triage_Outcomes.thy ===== *)
theory Triage_Outcomes
  imports Triage_Vocabulary
begin

text \<open>
  The contract values of \<open>src/newsroom/increment6/outcomes.py\<close>: references, structured reasons, next
  actions, outcome selections and priority selections. For each class \<open>C_post_init\<close> is
  \<open>__post_init__\<close>, \<open>C_value\<close> is \<open>canonical_value\<close>, \<open>C_read\<close> is \<open>from_mapping\<close>, and \<open>C_valid\<close> says that
  the object and the objects inside it were constructed. Free text is a sequence of code points. A
  reader reports an ill-typed field before an ill-valued one; the exception class is the same.
\<close>

section \<open>Checks\<close>

definition OUTCOME_TAXONOMY_VERSION :: string where
  "OUTCOME_TAXONOMY_VERSION = ''newsroom.increment6.outcomes.v1''"
definition REASON_TAXONOMY_VERSION :: string where
  "REASON_TAXONOMY_VERSION = ''newsroom.increment6.reasons.v1''"

definition outcome_error :: "string \<Rightarrow> exn" where
  "outcome_error m = Exn OutcomeContractError m"

definition contract_token_char :: "char \<Rightarrow> bool" where
  "contract_token_char c = (is_alpha c \<or> is_digit c \<or> c \<in> set ''._:-'')"

definition contract_token :: "string \<Rightarrow> bool" where
  "contract_token s =
     (case s of [] \<Rightarrow> False
      | c # r \<Rightarrow> (is_alpha c \<or> is_digit c) \<and> list_all contract_token_char r \<and> length r \<le> 255)"

definition require_contract_token :: "string \<Rightarrow> unit res" where
  "require_contract_token v =
     require (contract_token v) (outcome_error ''value must be canonical token text'') (Inr ())"

definition control_character :: "nat \<Rightarrow> bool" where
  "control_character c = (c < 32 \<and> c \<notin> {10, 13, 9})"

definition require_text :: "bool \<Rightarrow> cps \<Rightarrow> unit res" where
  "require_text allow_empty v =
     require (allow_empty \<or> v \<noteq> []) (outcome_error ''value must be text'')
     (res_bind (utf8_encode v) (\<lambda>b.
     require (length b \<le> 4096) (outcome_error ''text exceeds 4096 bytes'')
     (require (\<not> list_ex control_character v) (outcome_error ''text contains control characters'')
     (Inr ()))))"

definition value_enum :: "('a \<Rightarrow> string) \<Rightarrow> 'a list \<Rightarrow> json \<Rightarrow> 'a res" where
  "value_enum v ms j =
     (case j of
        JStr s \<Rightarrow> enum_of v ms (outcome_error ''unknown value'') j
      | _ \<Rightarrow> Inl (outcome_error ''value must be text''))"

text \<open>A string member that must equal a constant.\<close>

definition require_const :: "string \<Rightarrow> json \<Rightarrow> 'a res \<Rightarrow> 'a res" where
  "require_const c j k = require (j = jstr c) (outcome_error ''unsupported constant'') k"

section \<open>References\<close>

record ReasonReference =
  rr_reference_type :: string
  rr_identifier :: cps
  rr_digest :: "string option"

definition ReasonReference_post_init :: "ReasonReference \<Rightarrow> unit res" where
  "ReasonReference_post_init r =
     res_bind (require_contract_token (rr_reference_type r)) (\<lambda>_.
     res_bind (require_text False (rr_identifier r)) (\<lambda>_.
       case rr_digest r of
         None \<Rightarrow> Inr ()
       | Some d \<Rightarrow>
           rescue (\<lambda>e. Inl (outcome_error (exn_message e)))
             (res_bind (validate_sha256_digest d) (\<lambda>_. Inr ()))))"

definition ReasonReference_value :: "ReasonReference \<Rightarrow> pyval" where
  "ReasonReference_value r = obj [
     (''reference_type'', jtext (rr_reference_type r)),
     (''identifier'', jcps (rr_identifier r)),
     (''digest'', jopt (rr_digest r))]"

definition ReasonReference_read :: "json \<Rightarrow> ReasonReference res" where
  "ReasonReference_read j =
     require (strict_keys [''reference_type'', ''identifier'', ''digest''] j)
       (outcome_error ''reason reference fields differ'')
     (res_bind (as_opt (as_text (outcome_error ''reason reference digest must be text or null'')) (jfield ''digest'' j)) (\<lambda>digest.
     res_bind (as_text (outcome_error ''reference type must be token text'') (jfield ''reference_type'' j)) (\<lambda>t.
     res_bind (require_contract_token t) (\<lambda>_.
     res_bind (as_cps (outcome_error ''identifier must be text'') (jfield ''identifier'' j)) (\<lambda>i.
     res_bind (require_text False i) (\<lambda>_.
     let r = \<lparr>rr_reference_type = t, rr_identifier = i, rr_digest = digest\<rparr>
     in res_bind (ReasonReference_post_init r) (\<lambda>_. Inr r)))))))"

definition ReasonReference_valid :: "ReasonReference \<Rightarrow> bool" where
  "ReasonReference_valid r = (ReasonReference_post_init r = Inr () \<and> wf_text (rr_identifier r))"

definition reference_key :: "ReasonReference \<Rightarrow> string \<times> cps \<times> string" where
  "reference_key r = (rr_reference_type r, rr_identifier r, or_empty (rr_digest r))"

definition require_references :: "ReasonReference list \<Rightarrow> unit res" where
  "require_references rs =
     require (rs \<noteq> []) (outcome_error ''exact references are required'')
     (require (sorted (map reference_key rs) \<and> distinct (map reference_key rs))
       (outcome_error ''references must be sorted and unique'') (Inr ()))"

lemma require_contract_token_Inr [res_simps]: "require_contract_token v = Inr u \<longleftrightarrow> contract_token v"
  by (simp add: require_contract_token_def require_def)

lemma require_references_Inr [res_simps]:
  "require_references rs = Inr u \<longleftrightarrow>
     rs \<noteq> [] \<and> sorted (map reference_key rs) \<and> distinct (map reference_key rs)"
  by (simp add: require_references_def res_simps)

lemma require_text_Inr [res_simps]:
  "require_text b v = Inr u \<longleftrightarrow>
     (b \<or> v \<noteq> []) \<and> \<not> list_ex is_surrogate v \<and> length (concat (map utf8_char v)) \<le> 4096 \<and>
     \<not> list_ex control_character v"
  by (auto simp: require_text_def utf8_encode_def res_simps)

lemma require_text_validates: "require_text b v = Inr u \<Longrightarrow> validate_string v = Inr ()"
  by (simp add: require_text_Inr validate_string_iff)

lemma ReasonReference_read_value:
  assumes "ReasonReference_valid r"
  shows "ReasonReference_read (view (ReasonReference_value r)) = Inr r"
proof -
  have k: "strict_keys [''reference_type'', ''identifier'', ''digest''] (view (ReasonReference_value r))"
    unfolding ReasonReference_value_def by (rule strict_keys_obj) simp
  have a: "jfield ''reference_type'' (view (ReasonReference_value r)) = jstr (rr_reference_type r)"
    "jfield ''identifier'' (view (ReasonReference_value r)) = JStr (rr_identifier r)"
    "jfield ''digest'' (view (ReasonReference_value r)) = view (jopt (rr_digest r))"
    unfolding ReasonReference_value_def by (subst jfield_simps; simp)+
  from assms show ?thesis
    unfolding ReasonReference_read_def
    by (simp add: k a ReasonReference_valid_def Let_def)
      (auto simp: ReasonReference_post_init_def res_simps)
qed

interpretation reference: wire_record ReasonReference_value ReasonReference_valid ReasonReference_read
proof
  show "wf_pyval (ReasonReference_value r)" if "ReasonReference_valid r" for r
    using that by (simp add: ReasonReference_value_def ReasonReference_valid_def obj_wf)
qed (rule ReasonReference_read_value)

lemma reference_value_not_null [simp]: "view (ReasonReference_value r) \<noteq> JNull"
  by (simp add: ReasonReference_value_def)

lemma reference_value_encodable: "ReasonReference_valid r \<Longrightarrow> encodable (ReasonReference_value r)"
  by (auto simp: ReasonReference_value_def ReasonReference_valid_def ReasonReference_post_init_def
      obj_encodable res_simps validate_string_iff)

section \<open>Structured reasons\<close>

record StructuredReason =
  rs_code :: ReasonCode
  rs_basis :: ReasonBasisClass
  rs_references :: "ReasonReference list"
  rs_explanation :: cps
  rs_schema_version :: string

definition StructuredReason_post_init :: "StructuredReason \<Rightarrow> unit res" where
  "StructuredReason_post_init r =
     require (rs_schema_version r = REASON_TAXONOMY_VERSION) (outcome_error ''unsupported reason schema version'')
     (res_bind (require_references (rs_references r)) (\<lambda>_.
     require_text False (rs_explanation r)))"

definition StructuredReason_value :: "StructuredReason \<Rightarrow> pyval" where
  "StructuredReason_value r = obj [
     (''schema_version'', jtext (rs_schema_version r)),
     (''code'', jtext (ReasonCode_value (rs_code r))),
     (''basis'', jtext (ReasonBasisClass_value (rs_basis r))),
     (''references'', jlist (map ReasonReference_value (rs_references r))),
     (''explanation'', jcps (rs_explanation r))]"

definition StructuredReason_read :: "json \<Rightarrow> StructuredReason res" where
  "StructuredReason_read j =
     require (strict_keys [''schema_version'', ''code'', ''basis'', ''references'', ''explanation''] j)
       (outcome_error ''structured reason fields differ'')
     (require_const REASON_TAXONOMY_VERSION (jfield ''schema_version'' j)
     (res_bind (as_list (outcome_error ''reason references must be an array'') (jfield ''references'' j)) (\<lambda>raw.
     res_bind (value_enum ReasonCode_value ReasonCode_members (jfield ''code'' j)) (\<lambda>code.
     res_bind (value_enum ReasonBasisClass_value ReasonBasisClass_members (jfield ''basis'' j)) (\<lambda>basis.
     res_bind (res_map ReasonReference_read raw) (\<lambda>references.
     res_bind (as_cps (outcome_error ''reason explanation must be text'') (jfield ''explanation'' j)) (\<lambda>explanation.
     res_bind (require_text False explanation) (\<lambda>_.
     let r = \<lparr>rs_code = code, rs_basis = basis, rs_references = references,
       rs_explanation = explanation, rs_schema_version = REASON_TAXONOMY_VERSION\<rparr>
     in res_bind (StructuredReason_post_init r) (\<lambda>_. Inr r)))))))))"

definition StructuredReason_valid :: "StructuredReason \<Rightarrow> bool" where
  "StructuredReason_valid r =
     (StructuredReason_post_init r = Inr () \<and> list_all ReasonReference_valid (rs_references r) \<and>
      wf_text (rs_explanation r))"

section \<open>Next actions\<close>

record NextAction =
  na_kind :: NextActionKind
  na_action_code :: CanonicalNextAction
  na_condition_reference :: "cps option"
  na_instructions :: cps

definition NextAction_post_init :: "NextAction \<Rightarrow> unit res" where
  "NextAction_post_init a =
     require (next_action_kind (na_action_code a) = na_kind a)
       (outcome_error ''next action code does not match its kind'')
     (res_bind (case na_condition_reference a of None \<Rightarrow> Inr () | Some c \<Rightarrow> require_text False c) (\<lambda>_.
     res_bind (require_text True (na_instructions a)) (\<lambda>_.
     require (\<not> (na_kind a \<in> {RETRY, REVIEW, WAIT_DEPENDENCY, RESUME_ON_WATCH,
           REQUEST_SUPPLEMENTAL_DISCOVERY_KIND} \<and> na_condition_reference a = None))
       (outcome_error ''pending next action requires a condition reference'')
     (require (\<not> (na_kind a = CLOSE \<and> na_condition_reference a \<noteq> None))
       (outcome_error ''close action cannot retain a condition reference'') (Inr ())))))"

definition NextAction_value :: "NextAction \<Rightarrow> pyval" where
  "NextAction_value a = obj [
     (''kind'', jtext (NextActionKind_value (na_kind a))),
     (''action_code'', jtext (CanonicalNextAction_value (na_action_code a))),
     (''condition_reference'', jmaybe jcps (na_condition_reference a)),
     (''instructions'', jcps (na_instructions a))]"

definition NextAction_read :: "json \<Rightarrow> NextAction res" where
  "NextAction_read j =
     require (strict_keys [''kind'', ''action_code'', ''condition_reference'', ''instructions''] j)
       (outcome_error ''next action fields differ'')
     (res_bind (as_opt (as_cps (outcome_error ''next action condition reference must be text or null''))
        (jfield ''condition_reference'' j)) (\<lambda>condition.
     res_bind (value_enum NextActionKind_value NextActionKind_members (jfield ''kind'' j)) (\<lambda>kind.
     res_bind (value_enum CanonicalNextAction_value CanonicalNextAction_members (jfield ''action_code'' j)) (\<lambda>code.
     res_bind (as_cps (outcome_error ''next action instructions must be text'') (jfield ''instructions'' j)) (\<lambda>instructions.
     res_bind (require_text True instructions) (\<lambda>_.
     let a = \<lparr>na_kind = kind, na_action_code = code, na_condition_reference = condition,
       na_instructions = instructions\<rparr>
     in res_bind (NextAction_post_init a) (\<lambda>_. Inr a)))))))"

definition NextAction_valid :: "NextAction \<Rightarrow> bool" where
  "NextAction_valid a =
     (NextAction_post_init a = Inr () \<and> wf_text (na_instructions a) \<and>
      (case na_condition_reference a of None \<Rightarrow> True | Some c \<Rightarrow> wf_text c))"

lemma value_enum_simps:
  "str_enum v ms \<Longrightarrow> value_enum v ms (jstr (v x)) = Inr x"
  by (simp add: value_enum_def jstr_def) (simp add: jstr_def [symmetric] str_enum.read_value)

lemmas read_members =
  value_enum_simps [OF reasonCode.str_enum_axioms]
  value_enum_simps [OF reasonBasisClass.str_enum_axioms]
  value_enum_simps [OF nextActionKind.str_enum_axioms]
  value_enum_simps [OF canonicalNextAction.str_enum_axioms]
  value_enum_simps [OF canonicalOutcome.str_enum_axioms]
  value_enum_simps [OF decisionTerminality.str_enum_axioms]
  value_enum_simps [OF priorityLane.str_enum_axioms]

lemma require_const_simps [simp]: "require_const c (jstr c) k = k"
  by (simp add: require_const_def)

lemma as_opt_cps [simp]: "as_opt (as_cps e) (view (jmaybe jcps m)) = Inr m"
  by (cases m) (simp_all add: jmaybe_def)

lemma StructuredReason_read_value:
  assumes "StructuredReason_valid r"
  shows "StructuredReason_read (view (StructuredReason_value r)) = Inr r"
proof -
  let ?j = "view (StructuredReason_value r)"
  have k: "strict_keys [''schema_version'', ''code'', ''basis'', ''references'', ''explanation''] ?j"
    unfolding StructuredReason_value_def by (rule strict_keys_obj) simp
  have v: "rs_schema_version r = REASON_TAXONOMY_VERSION"
    using assms by (simp add: StructuredReason_valid_def StructuredReason_post_init_def res_simps)
  have a: "jfield ''schema_version'' ?j = jstr REASON_TAXONOMY_VERSION"
    "jfield ''code'' ?j = jstr (ReasonCode_value (rs_code r))"
    "jfield ''basis'' ?j = jstr (ReasonBasisClass_value (rs_basis r))"
    "jfield ''references'' ?j = JArr (map (view \<circ> ReasonReference_value) (rs_references r))"
    "jfield ''explanation'' ?j = JStr (rs_explanation r)"
    unfolding StructuredReason_value_def by (subst jfield_simps; simp add: v)+
  have l: "res_map ReasonReference_read (map (view \<circ> ReasonReference_value) (rs_references r)) = Inr (rs_references r)"
    using assms by (intro reference.reads_list) (simp add: StructuredReason_valid_def list_all_iff)
  have t: "require_text False (rs_explanation r) = Inr ()"
    using assms by (simp add: StructuredReason_valid_def StructuredReason_post_init_def res_simps)
  have p: "StructuredReason_post_init r = Inr ()" using assms by (simp add: StructuredReason_valid_def)
  show ?thesis
    unfolding StructuredReason_read_def
    by (simp add: k a l t read_members Let_def v [symmetric]) (cases r, use p in simp)
qed

interpretation reason: wire_record StructuredReason_value StructuredReason_valid StructuredReason_read
proof
  show "wf_pyval (StructuredReason_value r)" if "StructuredReason_valid r" for r
    using that
    by (simp add: StructuredReason_value_def StructuredReason_valid_def obj_wf list_all_iff reference.value_wf)
qed (rule StructuredReason_read_value)

lemma NextAction_read_value:
  assumes "NextAction_valid a"
  shows "NextAction_read (view (NextAction_value a)) = Inr a"
proof -
  let ?j = "view (NextAction_value a)"
  have k: "strict_keys [''kind'', ''action_code'', ''condition_reference'', ''instructions''] ?j"
    unfolding NextAction_value_def by (rule strict_keys_obj) simp
  have m: "jfield ''kind'' ?j = jstr (NextActionKind_value (na_kind a))"
    "jfield ''action_code'' ?j = jstr (CanonicalNextAction_value (na_action_code a))"
    "jfield ''condition_reference'' ?j = view (jmaybe jcps (na_condition_reference a))"
    "jfield ''instructions'' ?j = JStr (na_instructions a)"
    unfolding NextAction_value_def by (subst jfield_simps; simp)+
  have p: "NextAction_post_init a = Inr ()" using assms by (simp add: NextAction_valid_def)
  then have t: "require_text True (na_instructions a) = Inr ()"
    by (simp add: NextAction_post_init_def res_simps)
  show ?thesis
    unfolding NextAction_read_def by (simp add: k m t read_members Let_def) (cases a, use p in simp)
qed

interpretation next_action: wire_record NextAction_value NextAction_valid NextAction_read
proof
  show "wf_pyval (NextAction_value a)" if "NextAction_valid a" for a
    using that by (auto simp: NextAction_value_def NextAction_valid_def obj_wf jmaybe_def split: option.splits)
qed (rule NextAction_read_value)

lemma reason_value_encodable: "StructuredReason_valid r \<Longrightarrow> encodable (StructuredReason_value r)"
  by (auto simp: StructuredReason_value_def StructuredReason_valid_def StructuredReason_post_init_def
      obj_encodable res_simps validate_string_iff list_all_iff intro: reference_value_encodable)

lemma action_value_encodable: "NextAction_valid a \<Longrightarrow> encodable (NextAction_value a)"
proof -
  have null: "encodable PNone" by (simp add: encodable_def)
  show "NextAction_valid a \<Longrightarrow> encodable (NextAction_value a)"
    by (auto simp: NextAction_value_def NextAction_valid_def NextAction_post_init_def jmaybe_def null
        obj_encodable res_simps validate_string_iff split: option.splits)
qed

section \<open>Outcome selections\<close>

record OutcomeSelection =
  os_outcome :: CanonicalOutcome
  os_terminality :: DecisionTerminality
  os_primary_reason :: StructuredReason
  os_supporting_reasons :: "StructuredReason list"
  os_next_action :: "NextAction option"
  os_schema_version :: string
  os_outcome_taxonomy_version :: string
  os_reason_taxonomy_version :: string
  os_authority :: ContractAuthority
  os_effect :: ContractEffect

definition reason_key :: "StructuredReason \<Rightarrow> bytes res" where
  "reason_key r = canonical_json_bytes (StructuredReason_value r)"

definition require_supporting :: "StructuredReason \<Rightarrow> StructuredReason list \<Rightarrow> unit res" where
  "require_supporting primary supporting =
     res_bind (res_map reason_key supporting) (\<lambda>keys.
     require (sorted keys) (outcome_error ''supporting reasons must be canonically sorted'')
     (res_bind (reason_key primary) (\<lambda>key.
     require (distinct keys \<and> key \<notin> set keys)
       (outcome_error ''primary and supporting reasons must not duplicate'') (Inr ()))))"

definition require_lead_action :: "OutcomeSelection \<Rightarrow> unit res" where
  "require_lead_action s =
     (case os_next_action s of
        None \<Rightarrow> Inl (outcome_error ''Lead outcome requires its canonical next action'')
      | Some a \<Rightarrow>
          res_bind (res_of_option (Exn KeyError (CanonicalOutcome_value (os_outcome s))) (LEAD_MATRIX (os_outcome s)))
            (\<lambda>permitted.
          require ((os_terminality s, na_action_code a) \<in> set permitted)
            (outcome_error ''outcome does not permit next action with terminality'') (Inr ())))"

definition OutcomeSelection_post_init :: "OutcomeSelection \<Rightarrow> unit res" where
  "OutcomeSelection_post_init s =
     require (os_schema_version s = OUTCOME_TAXONOMY_VERSION)
       (outcome_error ''unsupported outcome-selection schema version'')
     (require (os_outcome_taxonomy_version s = OUTCOME_TAXONOMY_VERSION)
       (outcome_error ''unsupported outcome taxonomy version'')
     (require (os_reason_taxonomy_version s = REASON_TAXONOMY_VERSION)
       (outcome_error ''unsupported reason taxonomy version'')
     (require (os_authority s = NoAuthority) (outcome_error ''outcome selection cannot carry authority'')
     (require (os_effect s = NoEffect) (outcome_error ''outcome selection cannot carry an effect'')
     (res_bind (require_supporting (os_primary_reason s) (os_supporting_reasons s)) (\<lambda>_.
     require (os_terminality s \<in> set (permitted_terminality (os_outcome s)))
       (outcome_error ''outcome does not permit terminality'')
     (require (os_terminality s = PENDING_CONDITION \<longrightarrow>
         (case os_next_action s of None \<Rightarrow> False
          | Some a \<Rightarrow> na_kind a \<in> {QUEUE_TRIAGE, RETRY, REVIEW, WAIT_DEPENDENCY, RESUME_ON_WATCH,
              REQUEST_SUPPLEMENTAL_DISCOVERY_KIND}))
       (outcome_error ''pending outcome requires a pending next action'')
     (require (os_terminality s = RETRYABLE_SAME_REQUEST \<longrightarrow>
         (case os_next_action s of None \<Rightarrow> False | Some a \<Rightarrow> na_kind a = RETRY))
       (outcome_error ''retryable outcome requires a retry next action'')
     (res_bind (outcome_family (os_outcome s)) (\<lambda>family.
     if family = LEAD then require_lead_action s else Inr ()))))))))))"

definition OutcomeSelection_value :: "OutcomeSelection \<Rightarrow> pyval" where
  "OutcomeSelection_value s = obj [
     (''schema_version'', jtext (os_schema_version s)),
     (''outcome_taxonomy_version'', jtext (os_outcome_taxonomy_version s)),
     (''reason_taxonomy_version'', jtext (os_reason_taxonomy_version s)),
     (''authority'', jtext (ContractAuthority_value (os_authority s))),
     (''effect'', jtext (ContractEffect_value (os_effect s))),
     (''outcome'', jtext (CanonicalOutcome_value (os_outcome s))),
     (''terminality'', jtext (DecisionTerminality_value (os_terminality s))),
     (''primary_reason'', StructuredReason_value (os_primary_reason s)),
     (''supporting_reasons'', jlist (map StructuredReason_value (os_supporting_reasons s))),
     (''next_action'', jmaybe NextAction_value (os_next_action s))]"

definition OutcomeSelection_read :: "json \<Rightarrow> OutcomeSelection res" where
  "OutcomeSelection_read j =
     require (strict_keys [''schema_version'', ''outcome_taxonomy_version'', ''reason_taxonomy_version'',
         ''authority'', ''effect'', ''outcome'', ''terminality'', ''primary_reason'',
         ''supporting_reasons'', ''next_action''] j)
       (outcome_error ''outcome selection fields differ'')
     (require_const OUTCOME_TAXONOMY_VERSION (jfield ''schema_version'' j)
     (require_const OUTCOME_TAXONOMY_VERSION (jfield ''outcome_taxonomy_version'' j)
     (require_const REASON_TAXONOMY_VERSION (jfield ''reason_taxonomy_version'' j)
     (require_const ''NONE'' (jfield ''authority'' j)
     (require_const ''NONE'' (jfield ''effect'' j)
     (res_bind (as_list (outcome_error ''supporting reasons must be an array'') (jfield ''supporting_reasons'' j)) (\<lambda>raw.
     res_bind (value_enum CanonicalOutcome_value CanonicalOutcome_members (jfield ''outcome'' j)) (\<lambda>outcome.
     res_bind (value_enum DecisionTerminality_value DecisionTerminality_members (jfield ''terminality'' j)) (\<lambda>terminality.
     res_bind (StructuredReason_read (jfield ''primary_reason'' j)) (\<lambda>primary.
     res_bind (res_map StructuredReason_read raw) (\<lambda>supporting.
     res_bind (as_opt NextAction_read (jfield ''next_action'' j)) (\<lambda>action.
     let s = \<lparr>os_outcome = outcome, os_terminality = terminality, os_primary_reason = primary,
       os_supporting_reasons = supporting, os_next_action = action,
       os_schema_version = OUTCOME_TAXONOMY_VERSION,
       os_outcome_taxonomy_version = OUTCOME_TAXONOMY_VERSION,
       os_reason_taxonomy_version = REASON_TAXONOMY_VERSION,
       os_authority = NoAuthority, os_effect = NoEffect\<rparr>
     in res_bind (OutcomeSelection_post_init s) (\<lambda>_. Inr s)))))))))))))"

definition OutcomeSelection_valid :: "OutcomeSelection \<Rightarrow> bool" where
  "OutcomeSelection_valid s =
     (OutcomeSelection_post_init s = Inr () \<and> StructuredReason_valid (os_primary_reason s) \<and>
      list_all StructuredReason_valid (os_supporting_reasons s) \<and>
      (case os_next_action s of None \<Rightarrow> True | Some a \<Rightarrow> NextAction_valid a))"

section \<open>Priority selections\<close>

record PrioritySelection =
  pr_work_identity :: string
  pr_work_version :: string
  pr_lane :: PriorityLane
  pr_basis_references :: "ReasonReference list"
  pr_schema_version :: string
  pr_authority :: ContractAuthority
  pr_effect :: ContractEffect

definition PrioritySelection_post_init :: "PrioritySelection \<Rightarrow> unit res" where
  "PrioritySelection_post_init p =
     require (pr_schema_version p = OUTCOME_TAXONOMY_VERSION)
       (outcome_error ''unsupported priority-selection schema version'')
     (require (pr_authority p = NoAuthority) (outcome_error ''priority selection cannot carry authority'')
     (require (pr_effect p = NoEffect) (outcome_error ''priority selection cannot carry an effect'')
     (res_bind (require_contract_token (pr_work_identity p)) (\<lambda>_.
     res_bind (require_contract_token (pr_work_version p)) (\<lambda>_.
     require_references (pr_basis_references p))))))"

definition PrioritySelection_value :: "PrioritySelection \<Rightarrow> pyval" where
  "PrioritySelection_value p = obj [
     (''schema_version'', jtext (pr_schema_version p)),
     (''authority'', jtext (ContractAuthority_value (pr_authority p))),
     (''effect'', jtext (ContractEffect_value (pr_effect p))),
     (''work_identity'', jtext (pr_work_identity p)),
     (''work_version'', jtext (pr_work_version p)),
     (''lane'', jtext (PriorityLane_value (pr_lane p))),
     (''lane_ordinal'', jnum (lane_ordinal (pr_lane p))),
     (''basis_references'', jlist (map ReasonReference_value (pr_basis_references p)))]"

definition PrioritySelection_read :: "json \<Rightarrow> PrioritySelection res" where
  "PrioritySelection_read j =
     require (strict_keys [''schema_version'', ''authority'', ''effect'', ''work_identity'',
         ''work_version'', ''lane'', ''lane_ordinal'', ''basis_references''] j)
       (outcome_error ''priority selection fields differ'')
     (require_const OUTCOME_TAXONOMY_VERSION (jfield ''schema_version'' j)
     (require_const ''NONE'' (jfield ''authority'' j)
     (require_const ''NONE'' (jfield ''effect'' j)
     (res_bind (value_enum PriorityLane_value PriorityLane_members (jfield ''lane'' j)) (\<lambda>lane.
     res_bind (as_int (outcome_error ''priority lane ordinal must be an integer'') (jfield ''lane_ordinal'' j)) (\<lambda>ordinal.
     require (ordinal = lane_ordinal lane) (outcome_error ''priority lane ordinal does not match its lane'')
     (res_bind (as_list (outcome_error ''priority basis references must be an array'') (jfield ''basis_references'' j)) (\<lambda>raw.
     res_bind (as_text (outcome_error ''work identity must be token text'') (jfield ''work_identity'' j)) (\<lambda>identity.
     res_bind (require_contract_token identity) (\<lambda>_.
     res_bind (as_text (outcome_error ''work version must be token text'') (jfield ''work_version'' j)) (\<lambda>version.
     res_bind (require_contract_token version) (\<lambda>_.
     res_bind (res_map ReasonReference_read raw) (\<lambda>references.
     let p = \<lparr>pr_work_identity = identity, pr_work_version = version, pr_lane = lane,
       pr_basis_references = references, pr_schema_version = OUTCOME_TAXONOMY_VERSION,
       pr_authority = NoAuthority, pr_effect = NoEffect\<rparr>
     in res_bind (PrioritySelection_post_init p) (\<lambda>_. Inr p))))))))))))))"

definition PrioritySelection_valid :: "PrioritySelection \<Rightarrow> bool" where
  "PrioritySelection_valid p =
     (PrioritySelection_post_init p = Inr () \<and> list_all ReasonReference_valid (pr_basis_references p))"

section \<open>Canonical bytes\<close>

text \<open>\<open>_decode_canonical\<close> of \<open>outcomes.py\<close>; a repeated name, refused there, is refused by the comparison.\<close>

definition decode_contract :: "bytes \<Rightarrow> json res" where
  "decode_contract raw =
     res_bind (res_of_option (outcome_error ''canonical input must be valid UTF-8 JSON'')
       (Option.bind (utf8_decode raw) json_loads)) (\<lambda>j.
     require (is_object j) (outcome_error ''canonical input must contain one object'') (Inr j))"

text \<open>\<open>from_canonical_bytes\<close> of the classes that have it.\<close>

definition read_canonical :: "(json \<Rightarrow> 'a res) \<Rightarrow> ('a \<Rightarrow> pyval) \<Rightarrow> bytes \<Rightarrow> 'a res" where
  "read_canonical read value raw =
     res_bind (decode_contract raw) (\<lambda>j.
     res_bind (read j) (\<lambda>x.
     res_bind (canonical_json_bytes (value x)) (\<lambda>b.
     require (b = raw) (outcome_error ''value is not canonical JSON'') (Inr x))))"

definition StructuredReason_from_canonical_bytes :: "bytes \<Rightarrow> StructuredReason res" where
  "StructuredReason_from_canonical_bytes = read_canonical StructuredReason_read StructuredReason_value"
definition OutcomeSelection_from_canonical_bytes :: "bytes \<Rightarrow> OutcomeSelection res" where
  "OutcomeSelection_from_canonical_bytes = read_canonical OutcomeSelection_read OutcomeSelection_value"
definition PrioritySelection_from_canonical_bytes :: "bytes \<Rightarrow> PrioritySelection res" where
  "PrioritySelection_from_canonical_bytes = read_canonical PrioritySelection_read PrioritySelection_value"

section \<open>Selections read back\<close>

lemma OutcomeSelection_read_value:
  assumes "OutcomeSelection_valid s"
  shows "OutcomeSelection_read (view (OutcomeSelection_value s)) = Inr s"
proof -
  let ?j = "view (OutcomeSelection_value s)"
  have k: "strict_keys [''schema_version'', ''outcome_taxonomy_version'', ''reason_taxonomy_version'',
      ''authority'', ''effect'', ''outcome'', ''terminality'', ''primary_reason'',
      ''supporting_reasons'', ''next_action''] ?j"
    unfolding OutcomeSelection_value_def by (rule strict_keys_obj) simp
  have p: "OutcomeSelection_post_init s = Inr ()"
    and valid: "StructuredReason_valid (os_primary_reason s)" "list_all StructuredReason_valid (os_supporting_reasons s)"
      "\<And>a. os_next_action s = Some a \<Longrightarrow> NextAction_valid a"
    using assms by (auto simp: OutcomeSelection_valid_def)
  have v: "os_schema_version s = OUTCOME_TAXONOMY_VERSION" "os_outcome_taxonomy_version s = OUTCOME_TAXONOMY_VERSION"
      "os_reason_taxonomy_version s = REASON_TAXONOMY_VERSION" "os_authority s = NoAuthority" "os_effect s = NoEffect"
    using p unfolding OutcomeSelection_post_init_def by (simp_all only: require_Inr_iff)
  have a: "jfield ''schema_version'' ?j = jstr OUTCOME_TAXONOMY_VERSION"
    "jfield ''outcome_taxonomy_version'' ?j = jstr OUTCOME_TAXONOMY_VERSION"
    "jfield ''reason_taxonomy_version'' ?j = jstr REASON_TAXONOMY_VERSION"
    "jfield ''authority'' ?j = jstr ''NONE''" "jfield ''effect'' ?j = jstr ''NONE''"
    "jfield ''outcome'' ?j = jstr (CanonicalOutcome_value (os_outcome s))"
    "jfield ''terminality'' ?j = jstr (DecisionTerminality_value (os_terminality s))"
    "jfield ''primary_reason'' ?j = view (StructuredReason_value (os_primary_reason s))"
    "jfield ''supporting_reasons'' ?j = JArr (map (view \<circ> StructuredReason_value) (os_supporting_reasons s))"
    "jfield ''next_action'' ?j = view (jmaybe NextAction_value (os_next_action s))"
    unfolding OutcomeSelection_value_def by (subst jfield_simps; simp add: v)+
  have l: "res_map StructuredReason_read (map (view \<circ> StructuredReason_value) (os_supporting_reasons s))
      = Inr (os_supporting_reasons s)"
    using valid(2) by (intro reason.reads_list) (simp add: list_all_iff)
  have n: "as_opt NextAction_read (view (jmaybe NextAction_value (os_next_action s))) = Inr (os_next_action s)"
    using valid(3) by (intro next_action.reads_opt) (simp_all add: NextAction_value_def)
  show ?thesis
    unfolding OutcomeSelection_read_def
    by (simp add: k a l n read_members Let_def reason.reads_back [OF valid(1)])
      (cases s, use p v in simp)
qed

lemma PrioritySelection_read_value:
  assumes "PrioritySelection_valid p"
  shows "PrioritySelection_read (view (PrioritySelection_value p)) = Inr p"
proof -
  let ?j = "view (PrioritySelection_value p)"
  have k: "strict_keys [''schema_version'', ''authority'', ''effect'', ''work_identity'',
      ''work_version'', ''lane'', ''lane_ordinal'', ''basis_references''] ?j"
    unfolding PrioritySelection_value_def by (rule strict_keys_obj) simp
  have i: "PrioritySelection_post_init p = Inr ()" and valid: "list_all ReasonReference_valid (pr_basis_references p)"
    using assms by (auto simp: PrioritySelection_valid_def)
  then have v: "pr_schema_version p = OUTCOME_TAXONOMY_VERSION" "pr_authority p = NoAuthority" "pr_effect p = NoEffect"
      "contract_token (pr_work_identity p)" "contract_token (pr_work_version p)"
    by (simp_all add: PrioritySelection_post_init_def res_simps)
  have a: "jfield ''schema_version'' ?j = jstr OUTCOME_TAXONOMY_VERSION"
    "jfield ''authority'' ?j = jstr ''NONE''" "jfield ''effect'' ?j = jstr ''NONE''"
    "jfield ''work_identity'' ?j = jstr (pr_work_identity p)" "jfield ''work_version'' ?j = jstr (pr_work_version p)"
    "jfield ''lane'' ?j = jstr (PriorityLane_value (pr_lane p))" "jfield ''lane_ordinal'' ?j = JInt (lane_ordinal (pr_lane p))"
    "jfield ''basis_references'' ?j = JArr (map (view \<circ> ReasonReference_value) (pr_basis_references p))"
    unfolding PrioritySelection_value_def by (subst jfield_simps; simp add: v)+
  have l: "res_map ReasonReference_read (map (view \<circ> ReasonReference_value) (pr_basis_references p))
      = Inr (pr_basis_references p)"
    using valid by (intro reference.reads_list) (simp add: list_all_iff)
  have t: "require_contract_token (pr_work_identity p) = Inr ()" "require_contract_token (pr_work_version p) = Inr ()"
    using v by (simp_all add: res_simps)
  show ?thesis
    unfolding PrioritySelection_read_def by (simp add: k a l t read_members Let_def) (cases p, use i v in simp)
qed

interpretation outcome: wire_record OutcomeSelection_value OutcomeSelection_valid OutcomeSelection_read
proof
  show "wf_pyval (OutcomeSelection_value s)" if "OutcomeSelection_valid s" for s
    using that
    by (auto simp: OutcomeSelection_value_def OutcomeSelection_valid_def obj_wf list_all_iff jmaybe_def
        reason.value_wf next_action.value_wf split: option.splits)
qed (rule OutcomeSelection_read_value)

interpretation priority: wire_record PrioritySelection_value PrioritySelection_valid PrioritySelection_read
proof
  show "wf_pyval (PrioritySelection_value p)" if "PrioritySelection_valid p" for p
    using that
    by (simp add: PrioritySelection_value_def PrioritySelection_valid_def obj_wf list_all_iff reference.value_wf)
qed (rule PrioritySelection_read_value)

lemma lane_ordinal_safe [simp]: "safe_int (lane_ordinal l)"
  by (cases l) (simp_all add: safe_int_def MIN_SAFE_INTEGER_def MAX_SAFE_INTEGER_def)

lemma outcome_value_encodable: "OutcomeSelection_valid s \<Longrightarrow> encodable (OutcomeSelection_value s)"
proof -
  have null: "encodable PNone" by (simp add: encodable_def)
  show "OutcomeSelection_valid s \<Longrightarrow> encodable (OutcomeSelection_value s)"
    by (auto simp: OutcomeSelection_value_def OutcomeSelection_valid_def jmaybe_def null obj_encodable
        list_all_iff reason_value_encodable action_value_encodable split: option.splits)
qed

lemma priority_value_encodable: "PrioritySelection_valid p \<Longrightarrow> encodable (PrioritySelection_value p)"
  by (auto simp: PrioritySelection_value_def PrioritySelection_valid_def obj_encodable list_all_iff
      intro: reference_value_encodable)

lemma decode_contract_view:
  assumes "wf_pyval v" and "canonical_json_bytes v = Inr b" and "is_object (view v)"
  shows "decode_contract b = Inr (view v)"
  using decode_canonical_view [OF assms(1,2)] assms(3)
  by (auto simp: decode_contract_def decode_canonical_def res_simps)

lemma read_canonical_back:
  assumes "wire_record value valid read" and "valid x" and "encodable (value x)" and "is_object (view (value x))"
  shows "\<exists>b. canonical_json_bytes (value x) = Inr b \<and> read_canonical read value b = Inr x"
proof -
  have wf: "wf_pyval (value x)" by (rule wire_record.value_wf [OF assms(1,2)])
  then obtain b where b: "canonical_json_bytes (value x) = Inr b"
    using canonical_json_bytes_encodable assms(3) by blast
  have "read_canonical read value b = Inr x"
    by (simp add: read_canonical_def decode_contract_view [OF wf b assms(4)] b
        wire_record.reads_back [OF assms(1,2)])
  with b show ?thesis by blast
qed

end
