(* ===== verification/Scheduling.thy ===== *)
theory Scheduling
  imports Triage_Outcomes Civil_Time
begin

text \<open>
  The first half of \<open>src/newsroom/increment6/scheduling.py\<close>: deadlines, urgency policies, scheduling
  inputs and the starvation observation computed from them. Instants are civil times (\<open>Civil_Time\<close>); the
  time-zone database is the parameter \<open>zones\<close>. \<open>C_post_init\<close>, \<open>C_value\<close>, \<open>C_read\<close> and \<open>C_valid\<close> are
  as in \<open>Triage_Outcomes\<close>. A reader reports an ill-typed field before an ill-valued one; every error of
  this module is a \<open>SchedulingContractError\<close>.
\<close>

section \<open>Checks\<close>

definition SCHEDULING_POLICY_SCHEMA_VERSION :: string where
  "SCHEDULING_POLICY_SCHEMA_VERSION = ''newsroom.increment6.triage-scheduling-policy.v1''"
definition TIE_BREAK :: string where "TIE_BREAK = ''WORK_ITEM_VERSION_ID_ASC''"
definition MAX_CAPACITY_ITEM_BYTES :: nat where "MAX_CAPACITY_ITEM_BYTES = 16384"
definition MAX_CAPACITY_POPULATION :: nat where "MAX_CAPACITY_POPULATION = 48"
definition MAX_CANONICAL_OVERHEAD_BYTES :: nat where "MAX_CANONICAL_OVERHEAD_BYTES = 131072"
definition MAX_JSON_DEPTH :: int where "MAX_JSON_DEPTH = 64"
definition MAX_CANONICAL_BYTES :: nat where
  "MAX_CANONICAL_BYTES = MAX_CAPACITY_POPULATION * MAX_CAPACITY_ITEM_BYTES + MAX_CANONICAL_OVERHEAD_BYTES"
definition MAX_STARVATION_OBSERVATION_BYTES :: nat where
  "MAX_STARVATION_OBSERVATION_BYTES = MAX_CANONICAL_BYTES"
definition MAX_INTEGER :: int where "MAX_INTEGER = 2147483647"
definition MAX_DURATION_SECONDS :: int where "MAX_DURATION_SECONDS = 315576000"

definition scheduling_error :: "string \<Rightarrow> exn" where
  "scheduling_error m = Exn SchedulingContractError m"

definition require_sched_token :: "string \<Rightarrow> unit res" where
  "require_sched_token v =
     require (contract_token v) (scheduling_error ''value must be a bounded canonical token'') (Inr ())"

definition zone_char :: "char \<Rightarrow> bool" where
  "zone_char c = (is_alpha c \<or> is_digit c \<or> c \<in> set ''._+-/'')"

definition zone_name :: "string \<Rightarrow> bool" where
  "zone_name s =
     (case s of [] \<Rightarrow> False
      | c # r \<Rightarrow> (is_alpha c \<or> is_digit c) \<and> list_all zone_char r \<and> length r \<le> 255)"

definition plain_digest :: "string \<Rightarrow> bool" where
  "plain_digest d = (take 7 d = ''sha256:'' \<and> length d = 71 \<and> list_all is_lower_hex (drop 7 d))"

definition require_sched_digest :: "string \<Rightarrow> unit res" where
  "require_sched_digest v =
     require (plain_digest v) (scheduling_error ''value must be a canonical SHA-256 digest'') (Inr ())"

definition require_non_negative_int :: "int \<Rightarrow> unit res" where
  "require_non_negative_int n =
     require (0 \<le> n \<and> n \<le> MAX_INTEGER) (scheduling_error ''value must be a bounded non-negative integer'') (Inr ())"

definition require_positive_int :: "int \<Rightarrow> unit res" where
  "require_positive_int n =
     res_bind (require_non_negative_int n) (\<lambda>_.
     require (n \<noteq> 0) (scheduling_error ''value must be positive'') (Inr ()))"

definition parse_utc :: "string \<Rightarrow> int res" where
  "parse_utc t = res_of_option (scheduling_error ''value must be canonical UTC'') (read_utc t)"

text \<open>\<open>int(value.timestamp())\<close>.\<close>

definition timestamp :: "int \<Rightarrow> int" where "timestamp t = t - 62135596800"

text \<open>\<open>except (TypeError, ValueError)\<close> around a constructor: every error of the contracts is a \<open>ValueError\<close>.\<close>

definition malformed :: "string \<Rightarrow> 'a res \<Rightarrow> 'a res" where
  "malformed m = rescue (\<lambda>e. Inl (scheduling_error m))"

lemma malformed_Inr [res_simps]: "malformed m r = Inr x \<longleftrightarrow> r = Inr x"
  by (cases r) (simp_all add: malformed_def)

lemma malformed_simp [simp]: "malformed m (Inr x) = Inr x"
  by (simp add: malformed_def)

lemma sched_checks_Inr [res_simps]:
  "require_sched_token v = Inr u \<longleftrightarrow> contract_token v"
  "require_sched_digest v = Inr u \<longleftrightarrow> plain_digest v"
  "require_non_negative_int n = Inr u \<longleftrightarrow> 0 \<le> n \<and> n \<le> MAX_INTEGER"
  "require_positive_int n = Inr u \<longleftrightarrow> 0 < n \<and> n \<le> MAX_INTEGER"
  "parse_utc t = Inr c \<longleftrightarrow> read_utc t = Some c"
  by (auto simp: require_sched_token_def require_sched_digest_def require_non_negative_int_def
      require_positive_int_def parse_utc_def res_simps)

lemma plain_digest_text: "digest_text d \<Longrightarrow> plain_digest d"
  by (auto simp: digest_text_def plain_digest_def list_all_iff)

section \<open>Deadlines\<close>

datatype DeadlineKind = HARD_ACTION | LEGAL_OR_REGULATORY | PLANNED_WINDOW_END | WATCH_REVIEW

primrec DeadlineKind_value :: "DeadlineKind \<Rightarrow> string" where
  "DeadlineKind_value HARD_ACTION = ''HARD_ACTION''"
| "DeadlineKind_value LEGAL_OR_REGULATORY = ''LEGAL_OR_REGULATORY''"
| "DeadlineKind_value PLANNED_WINDOW_END = ''PLANNED_WINDOW_END''"
| "DeadlineKind_value WATCH_REVIEW = ''WATCH_REVIEW''"

definition DeadlineKind_members :: "DeadlineKind list" where
  "DeadlineKind_members = [HARD_ACTION, LEGAL_OR_REGULATORY, PLANNED_WINDOW_END, WATCH_REVIEW]"

text \<open>
  A zone of the \<open>zoneinfo\<close> database: the offset in seconds of a wall time with its fold, and the wall
  time and fold of an instant (\<open>None\<close> where the result leaves the years 1 to 9999).
\<close>

record zone =
  zi_utcoffset :: "int \<Rightarrow> int \<Rightarrow> int option"
  zi_fromutc :: "int \<Rightarrow> (int \<times> int) option"

type_synonym zone_db = "string \<rightharpoonup> zone"

record DeadlineBoundary =
  db_kind :: DeadlineKind
  db_due_at :: string
  db_source_time_zone :: string
  db_source_local_time :: string
  db_source_utc_offset_minutes :: int
  db_source_fold :: int

text \<open>The block that resolves the wall time; all its errors are replaced by one.\<close>

definition resolve_boundary :: "zone \<Rightarrow> DeadlineBoundary \<Rightarrow> int \<Rightarrow> int \<Rightarrow> (int \<times> int) res" where
  "resolve_boundary z d local due =
     malformed ''deadline boundary is not representable''
       (case zi_utcoffset z local (db_source_fold d) of
          None \<Rightarrow> Inl (scheduling_error ''deadline UTC offset cannot be resolved'')
        | Some off \<Rightarrow>
            require (off mod 60 = 0) (scheduling_error ''deadline UTC offset cannot be resolved'')
            (require (off div 60 = db_source_utc_offset_minutes d)
              (scheduling_error ''deadline UTC offset differs'')
            (require (0 \<le> local - off \<and> local - off < MAX_CIVIL) (Exn OverflowError ''date value out of range'')
            (require (local - off = due) (scheduling_error ''deadline UTC and local boundary differ'')
            (res_of_option (Exn OverflowError ''date value out of range'') (zi_fromutc z due))))))"

definition DeadlineBoundary_post_init :: "zone_db \<Rightarrow> DeadlineBoundary \<Rightarrow> unit res" where
  "DeadlineBoundary_post_init zones d =
     res_bind (parse_utc (db_due_at d)) (\<lambda>due.
     require (zone_name (db_source_time_zone d))
       (scheduling_error ''deadline source time zone must be a canonical IANA name'')
     (res_bind (res_of_option (scheduling_error ''deadline source time zone is not available'')
        (zones (db_source_time_zone d))) (\<lambda>z.
     res_bind (res_of_option (scheduling_error ''deadline source local time is not canonical'')
        (read_civil (db_source_local_time d))) (\<lambda>local.
     require (db_source_fold d \<in> {0, 1}) (scheduling_error ''deadline fold must be zero or one'')
     (require (- 1440 < db_source_utc_offset_minutes d \<and> db_source_utc_offset_minutes d < 1440)
       (scheduling_error ''deadline UTC offset is invalid'')
     (res_bind (resolve_boundary z d local due) (\<lambda>back.
     require (back = (local, db_source_fold d))
       (scheduling_error ''deadline local boundary is ambiguous or nonexistent'') (Inr ()))))))))"

definition DeadlineBoundary_value :: "DeadlineBoundary \<Rightarrow> pyval" where
  "DeadlineBoundary_value d = obj [
     (''kind'', jtext (DeadlineKind_value (db_kind d))),
     (''due_at'', jtext (db_due_at d)),
     (''source_time_zone'', jtext (db_source_time_zone d)),
     (''source_local_time'', jtext (db_source_local_time d)),
     (''source_utc_offset_minutes'', jnum (db_source_utc_offset_minutes d)),
     (''source_fold'', jnum (db_source_fold d))]"

definition boundary_malformed :: exn where "boundary_malformed = scheduling_error ''deadline boundary is malformed''"

definition DeadlineBoundary_read :: "zone_db \<Rightarrow> json \<Rightarrow> DeadlineBoundary res" where
  "DeadlineBoundary_read zones j =
     require (strict_keys [''kind'', ''due_at'', ''source_time_zone'', ''source_local_time'',
         ''source_utc_offset_minutes'', ''source_fold''] j)
       (scheduling_error ''deadline_boundary keys are not exact'')
     (malformed ''deadline boundary is malformed''
       (res_bind (enum_of DeadlineKind_value DeadlineKind_members boundary_malformed (jfield ''kind'' j)) (\<lambda>kind.
        res_bind (as_text boundary_malformed (jfield ''due_at'' j)) (\<lambda>due.
        res_bind (as_text boundary_malformed (jfield ''source_time_zone'' j)) (\<lambda>zone.
        res_bind (as_text boundary_malformed (jfield ''source_local_time'' j)) (\<lambda>local.
        res_bind (as_int boundary_malformed (jfield ''source_utc_offset_minutes'' j)) (\<lambda>off.
        res_bind (as_int boundary_malformed (jfield ''source_fold'' j)) (\<lambda>fold.
        let d = \<lparr>db_kind = kind, db_due_at = due, db_source_time_zone = zone, db_source_local_time = local,
          db_source_utc_offset_minutes = off, db_source_fold = fold\<rparr>
        in res_bind (DeadlineBoundary_post_init zones d) (\<lambda>_. Inr d)))))))))"

definition DeadlineBoundary_valid :: "zone_db \<Rightarrow> DeadlineBoundary \<Rightarrow> bool" where
  "DeadlineBoundary_valid zones d = (DeadlineBoundary_post_init zones d = Inr ())"

section \<open>Urgency policies\<close>

record LaneTimingRule =
  lt_lane :: PriorityLane
  lt_starvation_warning_seconds :: int
  lt_starvation_limit_seconds :: int
  lt_explicit_deadline_required :: bool

definition LaneTimingRule_post_init :: "LaneTimingRule \<Rightarrow> unit res" where
  "LaneTimingRule_post_init r =
     res_bind (require_positive_int (lt_starvation_warning_seconds r)) (\<lambda>_.
     res_bind (require_positive_int (lt_starvation_limit_seconds r)) (\<lambda>_.
     require (lt_starvation_warning_seconds r < lt_starvation_limit_seconds r)
       (scheduling_error ''starvation warning must precede the starvation limit'')
     (require (lt_starvation_limit_seconds r \<le> MAX_DURATION_SECONDS)
       (scheduling_error ''starvation duration exceeds the representable policy bound'') (Inr ()))))"

definition LaneTimingRule_value :: "LaneTimingRule \<Rightarrow> pyval" where
  "LaneTimingRule_value r = obj [
     (''lane'', jtext (PriorityLane_value (lt_lane r))),
     (''lane_ordinal'', jnum (lane_ordinal (lt_lane r))),
     (''starvation_warning_seconds'', jnum (lt_starvation_warning_seconds r)),
     (''starvation_limit_seconds'', jnum (lt_starvation_limit_seconds r)),
     (''explicit_deadline_required'', jflag (lt_explicit_deadline_required r))]"

definition rule_malformed :: exn where "rule_malformed = scheduling_error ''lane timing rule is malformed''"

definition LaneTimingRule_read :: "json \<Rightarrow> LaneTimingRule res" where
  "LaneTimingRule_read j =
     require (strict_keys [''lane'', ''lane_ordinal'', ''starvation_warning_seconds'',
         ''starvation_limit_seconds'', ''explicit_deadline_required''] j)
       (scheduling_error ''lane_timing_rule keys are not exact'')
     (res_bind (malformed ''lane timing rule is malformed''
       (res_bind (enum_of PriorityLane_value PriorityLane_members rule_malformed (jfield ''lane'' j)) (\<lambda>lane.
        res_bind (as_int rule_malformed (jfield ''starvation_warning_seconds'' j)) (\<lambda>warning.
        res_bind (as_int rule_malformed (jfield ''starvation_limit_seconds'' j)) (\<lambda>limit.
        res_bind (as_flag rule_malformed (jfield ''explicit_deadline_required'' j)) (\<lambda>explicit.
        let r = \<lparr>lt_lane = lane, lt_starvation_warning_seconds = warning,
          lt_starvation_limit_seconds = limit, lt_explicit_deadline_required = explicit\<rparr>
        in res_bind (LaneTimingRule_post_init r) (\<lambda>_. Inr r))))))) (\<lambda>r.
     require (jfield ''lane_ordinal'' j = JInt (lane_ordinal (lt_lane r)))
       (scheduling_error ''lane timing ordinal differs'') (Inr r)))"

definition LaneTimingRule_valid :: "LaneTimingRule \<Rightarrow> bool" where
  "LaneTimingRule_valid r = (LaneTimingRule_post_init r = Inr ())"

record UrgencyDeadlinePolicy =
  up_policy_id :: string
  up_policy_version :: string
  up_clock_time_zone :: string
  up_tie_break :: string
  up_lane_rules :: "LaneTimingRule list"
  up_schema_version :: string
  up_authority :: string
  up_effect :: string
  up_production_activation_authorised :: bool

definition UrgencyDeadlinePolicy_post_init :: "UrgencyDeadlinePolicy \<Rightarrow> unit res" where
  "UrgencyDeadlinePolicy_post_init p =
     res_bind (require_sched_token (up_policy_id p)) (\<lambda>_.
     res_bind (require_sched_token (up_policy_version p)) (\<lambda>_.
     require (up_schema_version p = SCHEDULING_POLICY_SCHEMA_VERSION)
       (scheduling_error ''scheduling policy schema differs'')
     (require (up_clock_time_zone p = ''UTC'')
       (scheduling_error ''scheduling calculation clock must be exact UTC'')
     (require (up_tie_break p = TIE_BREAK)
       (scheduling_error ''scheduling policy tie-break must remain exact'')
     (require (map lt_lane (up_lane_rules p) = PriorityLane_members)
       (scheduling_error ''lane timing rules must cover every lane in ordinal order'')
     (require (up_authority p = ''NONE'' \<and> up_effect p = ''NONE'' \<and> \<not> up_production_activation_authorised p)
       (scheduling_error ''scheduling policy cannot claim authority, effect or activation'')
     (Inr ())))))))"

definition rule_for :: "UrgencyDeadlinePolicy \<Rightarrow> PriorityLane \<Rightarrow> LaneTimingRule res" where
  "rule_for p lane =
     (case drop (nat (lane_ordinal lane - 1)) (up_lane_rules p) of
        r # _ \<Rightarrow> Inr r
      | [] \<Rightarrow> Inl (Exn IndexError ''tuple index out of range''))"

definition UrgencyDeadlinePolicy_value :: "UrgencyDeadlinePolicy \<Rightarrow> pyval" where
  "UrgencyDeadlinePolicy_value p = obj [
     (''schema_version'', jtext (up_schema_version p)),
     (''record_type'', jtext ''urgency_deadline_policy''),
     (''policy_id'', jtext (up_policy_id p)),
     (''policy_version'', jtext (up_policy_version p)),
     (''clock_time_zone'', jtext (up_clock_time_zone p)),
     (''tie_break'', jtext (up_tie_break p)),
     (''lane_rules'', jlist (map LaneTimingRule_value (up_lane_rules p))),
     (''authority'', jtext (up_authority p)),
     (''effect'', jtext (up_effect p)),
     (''production_activation_authorised'', jflag (up_production_activation_authorised p))]"

definition urgency_policy_digest :: "UrgencyDeadlinePolicy \<Rightarrow> string" where
  "urgency_policy_digest p = record_digest (UrgencyDeadlinePolicy_value p)"

definition UrgencyDeadlinePolicy_read :: "json \<Rightarrow> UrgencyDeadlinePolicy res" where
  "UrgencyDeadlinePolicy_read j =
     require (strict_keys [''schema_version'', ''record_type'', ''policy_id'', ''policy_version'',
         ''clock_time_zone'', ''tie_break'', ''lane_rules'', ''authority'', ''effect'',
         ''production_activation_authorised''] j)
       (scheduling_error ''urgency_deadline_policy keys are not exact'')
     (require (jfield ''record_type'' j = jstr ''urgency_deadline_policy'')
       (scheduling_error ''urgency deadline record type differs'')
     (res_bind (as_list (scheduling_error ''lane timing rules must be objects'') (jfield ''lane_rules'' j)) (\<lambda>raw.
     require (list_all is_object raw) (scheduling_error ''lane timing rules must be objects'')
     (res_bind (as_text (scheduling_error ''scheduling_policy_id must be a bounded canonical token'') (jfield ''policy_id'' j)) (\<lambda>i.
     res_bind (as_text (scheduling_error ''scheduling_policy_version must be a bounded canonical token'') (jfield ''policy_version'' j)) (\<lambda>version.
     res_bind (as_text (scheduling_error ''scheduling calculation clock must be exact UTC'') (jfield ''clock_time_zone'' j)) (\<lambda>clock.
     res_bind (as_text (scheduling_error ''scheduling policy tie-break must remain exact'') (jfield ''tie_break'' j)) (\<lambda>tie.
     res_bind (res_map LaneTimingRule_read raw) (\<lambda>rules.
     res_bind (as_text (scheduling_error ''scheduling policy schema differs'') (jfield ''schema_version'' j)) (\<lambda>schema.
     res_bind (as_text (scheduling_error ''scheduling policy cannot claim authority, effect or activation'') (jfield ''authority'' j)) (\<lambda>authority.
     res_bind (as_text (scheduling_error ''scheduling policy cannot claim authority, effect or activation'') (jfield ''effect'' j)) (\<lambda>effect.
     res_bind (as_flag (scheduling_error ''scheduling policy cannot claim authority, effect or activation'')
        (jfield ''production_activation_authorised'' j)) (\<lambda>active.
     let p = \<lparr>up_policy_id = i, up_policy_version = version, up_clock_time_zone = clock, up_tie_break = tie,
       up_lane_rules = rules, up_schema_version = schema, up_authority = authority, up_effect = effect,
       up_production_activation_authorised = active\<rparr>
     in res_bind (UrgencyDeadlinePolicy_post_init p) (\<lambda>_. Inr p))))))))))))))"

definition UrgencyDeadlinePolicy_valid :: "UrgencyDeadlinePolicy \<Rightarrow> bool" where
  "UrgencyDeadlinePolicy_valid p =
     (UrgencyDeadlinePolicy_post_init p = Inr () \<and> list_all LaneTimingRule_valid (up_lane_rules p))"

section \<open>Scheduling inputs\<close>

datatype SchedulingEligibility = CURRENT_ELIGIBLE | CURRENT_DEPENDENCY_BLOCKED | STALE | CLOSED | POLICY_BLOCKED

primrec SchedulingEligibility_value :: "SchedulingEligibility \<Rightarrow> string" where
  "SchedulingEligibility_value CURRENT_ELIGIBLE = ''CURRENT_ELIGIBLE''"
| "SchedulingEligibility_value CURRENT_DEPENDENCY_BLOCKED = ''CURRENT_DEPENDENCY_BLOCKED''"
| "SchedulingEligibility_value STALE = ''STALE''"
| "SchedulingEligibility_value CLOSED = ''CLOSED''"
| "SchedulingEligibility_value POLICY_BLOCKED = ''POLICY_BLOCKED''"

definition SchedulingEligibility_members :: "SchedulingEligibility list" where
  "SchedulingEligibility_members =
     [CURRENT_ELIGIBLE, CURRENT_DEPENDENCY_BLOCKED, STALE, CLOSED, POLICY_BLOCKED]"

record UrgencyDeadlineInput =
  ui_work_item_id :: string
  ui_work_item_version_id :: string
  ui_work_item_version_digest :: string
  ui_priority_selection :: PrioritySelection
  ui_lane :: PriorityLane
  ui_enqueued_at :: string
  ui_observed_at :: string
  ui_deadline :: "DeadlineBoundary option"
  ui_eligibility :: SchedulingEligibility
  ui_delay_consequence_ordinal :: int
  ui_staleness_risk_ordinal :: int
  ui_dependency_ready :: bool

definition require_ordinal :: "int \<Rightarrow> unit res" where
  "require_ordinal n =
     res_bind (require_non_negative_int n) (\<lambda>_.
     require (n \<le> 3) (scheduling_error ''ordinal must be between zero and three'') (Inr ()))"

definition UrgencyDeadlineInput_post_init :: "UrgencyDeadlineInput \<Rightarrow> unit res" where
  "UrgencyDeadlineInput_post_init i =
     res_bind (require_sched_token (ui_work_item_id i)) (\<lambda>_.
     res_bind (require_sched_token (ui_work_item_version_id i)) (\<lambda>_.
     res_bind (require_sched_digest (ui_work_item_version_digest i)) (\<lambda>_.
     require (pr_work_identity (ui_priority_selection i) = ui_work_item_id i \<and>
         pr_work_version (ui_priority_selection i) = ui_work_item_version_id i \<and>
         pr_lane (ui_priority_selection i) = ui_lane i)
       (scheduling_error ''scheduling input differs from its exact priority selection'')
     (res_bind (parse_utc (ui_enqueued_at i)) (\<lambda>enqueued.
     res_bind (parse_utc (ui_observed_at i)) (\<lambda>observed.
     require (enqueued \<le> observed)
       (scheduling_error ''scheduling observation cannot precede queue admission'')
     (res_bind (require_ordinal (ui_delay_consequence_ordinal i)) (\<lambda>_.
     require_ordinal (ui_staleness_risk_ordinal i)))))))))"

definition UrgencyDeadlineInput_value :: "UrgencyDeadlineInput \<Rightarrow> pyval" where
  "UrgencyDeadlineInput_value i = obj [
     (''work_item_id'', jtext (ui_work_item_id i)),
     (''work_item_version_id'', jtext (ui_work_item_version_id i)),
     (''work_item_version_digest'', jtext (ui_work_item_version_digest i)),
     (''priority_selection'', PrioritySelection_value (ui_priority_selection i)),
     (''priority_selection_digest'', jtext (record_digest (PrioritySelection_value (ui_priority_selection i)))),
     (''lane'', jtext (PriorityLane_value (ui_lane i))),
     (''lane_ordinal'', jnum (lane_ordinal (ui_lane i))),
     (''enqueued_at'', jtext (ui_enqueued_at i)),
     (''observed_at'', jtext (ui_observed_at i)),
     (''deadline'', jmaybe DeadlineBoundary_value (ui_deadline i)),
     (''eligibility'', jtext (SchedulingEligibility_value (ui_eligibility i))),
     (''delay_consequence_ordinal'', jnum (ui_delay_consequence_ordinal i)),
     (''staleness_risk_ordinal'', jnum (ui_staleness_risk_ordinal i)),
     (''dependency_ready'', jflag (ui_dependency_ready i))]"

definition input_digest :: "UrgencyDeadlineInput \<Rightarrow> string" where
  "input_digest i = record_digest (obj [
     (''schema_version'', jtext SCHEDULING_POLICY_SCHEMA_VERSION),
     (''record_type'', jtext ''urgency_deadline_input''),
     (''input'', UrgencyDeadlineInput_value i)])"

definition input_malformed :: exn where "input_malformed = scheduling_error ''urgency deadline input is malformed''"

definition UrgencyDeadlineInput_read :: "zone_db \<Rightarrow> json \<Rightarrow> UrgencyDeadlineInput res" where
  "UrgencyDeadlineInput_read zones j =
     require (strict_keys [''work_item_id'', ''work_item_version_id'', ''work_item_version_digest'',
         ''priority_selection'', ''priority_selection_digest'', ''lane'', ''lane_ordinal'', ''enqueued_at'',
         ''observed_at'', ''deadline'', ''eligibility'', ''delay_consequence_ordinal'',
         ''staleness_risk_ordinal'', ''dependency_ready''] j)
       (scheduling_error ''urgency_deadline_input keys are not exact'')
     (require (jfield ''deadline'' j = JNull \<or> is_object (jfield ''deadline'' j))
       (scheduling_error ''scheduling deadline must be an object or null'')
     (require (is_object (jfield ''priority_selection'' j))
       (scheduling_error ''scheduling priority selection must be an object'')
     (res_bind (malformed ''urgency deadline input is malformed''
       (res_bind (enum_of PriorityLane_value PriorityLane_members input_malformed (jfield ''lane'' j)) (\<lambda>lane.
        res_bind (PrioritySelection_read (jfield ''priority_selection'' j)) (\<lambda>priority.
        res_bind (as_text input_malformed (jfield ''work_item_id'' j)) (\<lambda>identity.
        res_bind (as_text input_malformed (jfield ''work_item_version_id'' j)) (\<lambda>version.
        res_bind (as_text input_malformed (jfield ''work_item_version_digest'' j)) (\<lambda>digest.
        res_bind (as_text input_malformed (jfield ''enqueued_at'' j)) (\<lambda>enqueued.
        res_bind (as_text input_malformed (jfield ''observed_at'' j)) (\<lambda>observed.
        res_bind (as_opt (DeadlineBoundary_read zones) (jfield ''deadline'' j)) (\<lambda>deadline.
        res_bind (enum_of SchedulingEligibility_value SchedulingEligibility_members input_malformed
          (jfield ''eligibility'' j)) (\<lambda>eligibility.
        res_bind (as_int input_malformed (jfield ''delay_consequence_ordinal'' j)) (\<lambda>delay.
        res_bind (as_int input_malformed (jfield ''staleness_risk_ordinal'' j)) (\<lambda>staleness.
        res_bind (as_flag input_malformed (jfield ''dependency_ready'' j)) (\<lambda>ready.
        let i = \<lparr>ui_work_item_id = identity, ui_work_item_version_id = version,
          ui_work_item_version_digest = digest, ui_priority_selection = priority, ui_lane = lane,
          ui_enqueued_at = enqueued, ui_observed_at = observed, ui_deadline = deadline,
          ui_eligibility = eligibility, ui_delay_consequence_ordinal = delay,
          ui_staleness_risk_ordinal = staleness, ui_dependency_ready = ready\<rparr>
        in res_bind (UrgencyDeadlineInput_post_init i) (\<lambda>_. Inr i))))))))))))))) (\<lambda>i.
     require (jfield ''lane_ordinal'' j = JInt (lane_ordinal (ui_lane i)))
       (scheduling_error ''scheduling lane ordinal differs'')
     (require (jfield ''priority_selection_digest'' j =
         jstr (record_digest (PrioritySelection_value (ui_priority_selection i))))
       (scheduling_error ''priority selection digest differs'') (Inr i))))))"

definition UrgencyDeadlineInput_valid :: "zone_db \<Rightarrow> UrgencyDeadlineInput \<Rightarrow> bool" where
  "UrgencyDeadlineInput_valid zones i =
     (UrgencyDeadlineInput_post_init i = Inr () \<and> PrioritySelection_valid (ui_priority_selection i) \<and>
      (case ui_deadline i of None \<Rightarrow> True | Some d \<Rightarrow> DeadlineBoundary_valid zones d))"

section \<open>Starvation\<close>

datatype StarvationState = WITHIN_BOUND | AT_RISK | STARVED | NOT_CURRENT | NOT_APPLICABLE

primrec StarvationState_value :: "StarvationState \<Rightarrow> string" where
  "StarvationState_value WITHIN_BOUND = ''WITHIN_BOUND''"
| "StarvationState_value AT_RISK = ''AT_RISK''"
| "StarvationState_value STARVED = ''STARVED''"
| "StarvationState_value NOT_CURRENT = ''NOT_CURRENT''"
| "StarvationState_value NOT_APPLICABLE = ''NOT_APPLICABLE''"

definition StarvationState_members :: "StarvationState list" where
  "StarvationState_members = [WITHIN_BOUND, AT_RISK, STARVED, NOT_CURRENT, NOT_APPLICABLE]"

definition STARVATION_ORDER :: "StarvationState \<rightharpoonup> int" where
  "STARVATION_ORDER = [STARVED \<mapsto> 0, AT_RISK \<mapsto> 1, WITHIN_BOUND \<mapsto> 2]"

text \<open>
  The ordering tuple: lane, explicit deadline first, deadline, delay consequence and staleness risk
  (larger first), starvation, admission, readiness and the tie-break on the version identity. Python
  compares tuples as \<open>Product_Lexorder\<close> does.
\<close>

type_synonym order_key = "int \<times> int \<times> int \<times> int \<times> int \<times> int \<times> int \<times> int \<times> string"

record DeadlineValues =
  so_effective_deadline :: string
  so_deadline_source :: string
  so_queue_age_seconds :: int
  so_deadline_overdue :: bool
  so_starvation_state :: StarvationState
  so_starvation_overrun_seconds :: int
  so_revalidation_required :: bool
  so_schedulable :: bool
  so_order_key :: "order_key option"

record StarvationObservation = DeadlineValues +
  so_policy :: UrgencyDeadlinePolicy
  so_item :: UrgencyDeadlineInput
  so_authority :: string
  so_effect :: string
  so_production_activation_authorised :: bool

definition starvation_state :: "LaneTimingRule \<Rightarrow> SchedulingEligibility \<Rightarrow> int \<Rightarrow> StarvationState" where
  "starvation_state rule eligibility age =
     (if eligibility = STALE then NOT_CURRENT
      else if eligibility \<in> {CLOSED, POLICY_BLOCKED} then NOT_APPLICABLE
      else if lt_starvation_limit_seconds rule \<le> age then STARVED
      else if lt_starvation_warning_seconds rule \<le> age then AT_RISK
      else WITHIN_BOUND)"

definition effective_deadline :: "LaneTimingRule \<Rightarrow> DeadlineBoundary option \<Rightarrow> int \<Rightarrow> int res" where
  "effective_deadline rule deadline enqueued =
     (case deadline of
        Some d \<Rightarrow> parse_utc (db_due_at d)
      | None \<Rightarrow>
          require (enqueued + lt_starvation_limit_seconds rule < MAX_CIVIL)
            (scheduling_error ''derived starvation deadline is not representable'')
            (Inr (enqueued + lt_starvation_limit_seconds rule)))"

definition order_key_for :: "UrgencyDeadlineInput \<Rightarrow> int \<Rightarrow> int \<Rightarrow> StarvationState \<Rightarrow> order_key res" where
  "order_key_for i effective enqueued starvation =
     res_bind (res_of_option (Exn KeyError ''starvation state'') (STARVATION_ORDER starvation)) (\<lambda>rank.
     Inr (lane_ordinal (ui_lane i), if ui_deadline i \<noteq> None then 0 else 1, timestamp effective,
       - ui_delay_consequence_ordinal i, - ui_staleness_risk_ordinal i, rank, timestamp enqueued,
       if ui_dependency_ready i then 0 else 1, ui_work_item_version_id i))"

definition urgency_deadline_values :: "UrgencyDeadlinePolicy \<Rightarrow> UrgencyDeadlineInput \<Rightarrow> DeadlineValues res" where
  "urgency_deadline_values p i =
     res_bind (rule_for p (ui_lane i)) (\<lambda>rule.
     require (\<not> (lt_explicit_deadline_required rule \<and> ui_deadline i = None))
       (scheduling_error ''lane requires an exact deadline boundary'')
     (res_bind (parse_utc (ui_enqueued_at i)) (\<lambda>enqueued.
     res_bind (parse_utc (ui_observed_at i)) (\<lambda>observed.
     let queue_age = observed - enqueued in
     require (queue_age \<le> MAX_INTEGER)
       (scheduling_error ''queue age exceeds the representable policy bound'')
     (res_bind (effective_deadline rule (ui_deadline i) enqueued) (\<lambda>effective.
     let starvation = starvation_state rule (ui_eligibility i) queue_age;
         overdue = effective < observed;
         schedulable = (ui_eligibility i = CURRENT_ELIGIBLE \<and> ui_dependency_ready i)
     in res_bind (if schedulable
          then res_bind (order_key_for i effective enqueued starvation) (\<lambda>k. Inr (Some k))
          else Inr None) (\<lambda>key.
     Inr \<lparr>so_effective_deadline = format_utc effective,
       so_deadline_source = (if ui_deadline i \<noteq> None then ''EXPLICIT'' else ''STARVATION_LIMIT''),
       so_queue_age_seconds = queue_age,
       so_deadline_overdue = overdue,
       so_starvation_state = starvation,
       so_starvation_overrun_seconds = max 0 (queue_age - lt_starvation_limit_seconds rule),
       so_revalidation_required = (ui_eligibility i = STALE \<or> starvation = STARVED \<or> overdue),
       so_schedulable = schedulable,
       so_order_key = key\<rparr>)))))))"

definition order_key_value :: "order_key \<Rightarrow> pyval" where
  "order_key_value k =
     (case k of (a, b, c, d, e, f, g, h, t) \<Rightarrow> jlist (map jnum [a, b, c, d, e, f, g, h] @ [jtext t]))"

definition StarvationObservation_value :: "StarvationObservation \<Rightarrow> pyval" where
  "StarvationObservation_value s = obj [
     (''schema_version'', jtext SCHEDULING_POLICY_SCHEMA_VERSION),
     (''record_type'', jtext ''starvation_observation''),
     (''policy'', UrgencyDeadlinePolicy_value (so_policy s)),
     (''policy_digest'', jtext (urgency_policy_digest (so_policy s))),
     (''input'', UrgencyDeadlineInput_value (so_item s)),
     (''input_digest'', jtext (input_digest (so_item s))),
     (''effective_deadline'', jtext (so_effective_deadline s)),
     (''deadline_source'', jtext (so_deadline_source s)),
     (''queue_age_seconds'', jnum (so_queue_age_seconds s)),
     (''deadline_overdue'', jflag (so_deadline_overdue s)),
     (''starvation_state'', jtext (StarvationState_value (so_starvation_state s))),
     (''starvation_overrun_seconds'', jnum (so_starvation_overrun_seconds s)),
     (''revalidation_required'', jflag (so_revalidation_required s)),
     (''schedulable'', jflag (so_schedulable s)),
     (''order_key'', jmaybe order_key_value (so_order_key s)),
     (''authority'', jtext (so_authority s)),
     (''effect'', jtext (so_effect s)),
     (''production_activation_authorised'', jflag (so_production_activation_authorised s))]"

definition decision_digest :: "StarvationObservation \<Rightarrow> string" where
  "decision_digest s = record_digest (StarvationObservation_value s)"

definition StarvationObservation_post_init :: "StarvationObservation \<Rightarrow> unit res" where
  "StarvationObservation_post_init s =
     res_bind (parse_utc (so_effective_deadline s)) (\<lambda>_.
     require (so_deadline_source s \<in> {''EXPLICIT'', ''STARVATION_LIMIT''})
       (scheduling_error ''starvation deadline source differs'')
     (res_bind (require_non_negative_int (so_queue_age_seconds s)) (\<lambda>_.
     res_bind (require_non_negative_int (so_starvation_overrun_seconds s)) (\<lambda>_.
     res_bind (case so_order_key s of
         None \<Rightarrow> Inr ()
       | Some (_, _, _, _, _, _, _, _, t) \<Rightarrow> require_sched_token t) (\<lambda>_.
     res_bind (urgency_deadline_values (so_policy s) (so_item s)) (\<lambda>expected.
     require (DeadlineValues.truncate s = expected)
       (scheduling_error ''starvation observation differs from deterministic policy'')
     (require (so_authority s = ''NONE'' \<and> so_effect s = ''NONE'' \<and> \<not> so_production_activation_authorised s)
       (scheduling_error ''starvation observation cannot claim authority, effect or activation'')
     (res_bind (malformed ''starvation observation is not canonically representable''
         (canonical_json_bytes (StarvationObservation_value s))) (\<lambda>canonical.
     require (length canonical \<le> MAX_STARVATION_OBSERVATION_BYTES)
       (scheduling_error ''starvation observation exceeds the canonical byte bound'') (Inr ()))))))))))"

definition StarvationObservation_valid :: "zone_db \<Rightarrow> StarvationObservation \<Rightarrow> bool" where
  "StarvationObservation_valid zones s =
     (StarvationObservation_post_init s = Inr () \<and> UrgencyDeadlinePolicy_valid (so_policy s) \<and>
      UrgencyDeadlineInput_valid zones (so_item s))"

definition observation_of :: "UrgencyDeadlinePolicy \<Rightarrow> UrgencyDeadlineInput \<Rightarrow> DeadlineValues \<Rightarrow> StarvationObservation" where
  "observation_of p i v = DeadlineValues.extend v
     (StarvationObservation.fields p i ''NONE'' ''NONE'' False)"

definition calculate_urgency_deadline ::
  "UrgencyDeadlinePolicy \<Rightarrow> UrgencyDeadlineInput \<Rightarrow> StarvationObservation res" where
  "calculate_urgency_deadline p i =
     res_bind (urgency_deadline_values p i) (\<lambda>v.
     let s = observation_of p i v
     in res_bind (StarvationObservation_post_init s) (\<lambda>_. Inr s))"

section \<open>Observations read back\<close>

text \<open>The scan of \<open>_decode_canonical_object\<close> over the raw bytes: brackets outside strings.\<close>

fun scan_depth :: "int \<Rightarrow> bool \<Rightarrow> bool \<Rightarrow> bytes \<Rightarrow> unit res" where
  "scan_depth depth in_string escaped [] = Inr ()"
| "scan_depth depth in_string escaped (b # r) =
     (if in_string then
        if escaped then scan_depth depth True False r
        else if b = 92 then scan_depth depth True True r
        else if b = 34 then scan_depth depth False False r
        else scan_depth depth True False r
      else if b = 34 then scan_depth depth True escaped r
      else if b = 123 \<or> b = 91 then
        require (depth + 1 \<le> MAX_JSON_DEPTH) (scheduling_error ''record exceeds the JSON depth bound'')
          (scan_depth (depth + 1) False escaped r)
      else if b = 125 \<or> b = 93 then
        require (0 \<le> depth - 1) (scheduling_error ''record has invalid JSON depth'')
          (scan_depth (depth - 1) False escaped r)
      else scan_depth depth False escaped r)"

text \<open>A repeated name, refused there while decoding, is refused by the comparison.\<close>

definition decode_canonical_object :: "bytes \<Rightarrow> json res" where
  "decode_canonical_object raw =
     require (raw \<noteq> [] \<and> length raw \<le> MAX_CANONICAL_BYTES)
       (scheduling_error ''bounded bytes are required'')
     (res_bind (scan_depth 0 False False raw) (\<lambda>_.
     res_bind (res_of_option (scheduling_error ''record is not JSON'')
       (Option.bind (utf8_decode raw) json_loads)) (\<lambda>j.
     require (is_object j) (scheduling_error ''record must be an object'')
     (res_bind (malformed ''record is not canonical JSON'' (canonical_json_bytes (py_of_json j))) (\<lambda>canonical.
     require (canonical = raw) (scheduling_error ''record is not canonical JSON'') (Inr j))))))"

definition observation_malformed :: exn where
  "observation_malformed = scheduling_error ''starvation observation is malformed''"

definition order_key_read :: "json \<Rightarrow> order_key res" where
  "order_key_read j =
     res_bind (as_list observation_malformed j) (\<lambda>js.
     require (length js = 9) observation_malformed
     (res_bind (res_map (as_int observation_malformed) (take 8 js)) (\<lambda>n.
     res_bind (as_text observation_malformed (js ! 8)) (\<lambda>t.
     Inr (n ! 0, n ! 1, n ! 2, n ! 3, n ! 4, n ! 5, n ! 6, n ! 7, t)))))"

text \<open>The rest of \<open>from_canonical_bytes\<close> on the decoded object.\<close>

definition StarvationObservation_read :: "zone_db \<Rightarrow> json \<Rightarrow> StarvationObservation res" where
  "StarvationObservation_read zones j =
     require (strict_keys [''schema_version'', ''record_type'', ''policy'', ''policy_digest'', ''input'',
         ''input_digest'', ''effective_deadline'', ''deadline_source'', ''queue_age_seconds'',
         ''deadline_overdue'', ''starvation_state'', ''starvation_overrun_seconds'',
         ''revalidation_required'', ''schedulable'', ''order_key'', ''authority'', ''effect'',
         ''production_activation_authorised''] j)
       (scheduling_error ''starvation_observation keys are not exact'')
     (require (jfield ''schema_version'' j = jstr SCHEDULING_POLICY_SCHEMA_VERSION \<and>
         jfield ''record_type'' j = jstr ''starvation_observation'')
       (scheduling_error ''starvation observation schema differs'')
     (require (is_object (jfield ''policy'' j) \<and> is_object (jfield ''input'' j))
       (scheduling_error ''starvation observation policy and input must be objects'')
     (res_bind (UrgencyDeadlinePolicy_read (jfield ''policy'' j)) (\<lambda>policy.
     res_bind (UrgencyDeadlineInput_read zones (jfield ''input'' j)) (\<lambda>item.
     require (jfield ''policy_digest'' j = jstr (urgency_policy_digest policy))
       (scheduling_error ''starvation policy digest differs'')
     (require (jfield ''input_digest'' j = jstr (input_digest item))
       (scheduling_error ''starvation input digest differs'')
     (require (case jfield ''order_key'' j of JNull \<Rightarrow> True | JArr _ \<Rightarrow> True | _ \<Rightarrow> False)
       (scheduling_error ''starvation order key must be a list or null'')
     (malformed ''starvation observation is malformed''
       (res_bind (as_text observation_malformed (jfield ''effective_deadline'' j)) (\<lambda>effective.
        res_bind (as_text observation_malformed (jfield ''deadline_source'' j)) (\<lambda>source.
        res_bind (as_int observation_malformed (jfield ''queue_age_seconds'' j)) (\<lambda>age.
        res_bind (as_flag observation_malformed (jfield ''deadline_overdue'' j)) (\<lambda>overdue.
        res_bind (enum_of StarvationState_value StarvationState_members observation_malformed
          (jfield ''starvation_state'' j)) (\<lambda>state.
        res_bind (as_int observation_malformed (jfield ''starvation_overrun_seconds'' j)) (\<lambda>overrun.
        res_bind (as_flag observation_malformed (jfield ''revalidation_required'' j)) (\<lambda>revalidation.
        res_bind (as_flag observation_malformed (jfield ''schedulable'' j)) (\<lambda>schedulable.
        res_bind (as_opt order_key_read (jfield ''order_key'' j)) (\<lambda>key.
        res_bind (as_text observation_malformed (jfield ''authority'' j)) (\<lambda>authority.
        res_bind (as_text observation_malformed (jfield ''effect'' j)) (\<lambda>effect.
        res_bind (as_flag observation_malformed (jfield ''production_activation_authorised'' j)) (\<lambda>active.
        let s = \<lparr>so_effective_deadline = effective, so_deadline_source = source, so_queue_age_seconds = age,
          so_deadline_overdue = overdue, so_starvation_state = state, so_starvation_overrun_seconds = overrun,
          so_revalidation_required = revalidation, so_schedulable = schedulable, so_order_key = key,
          so_policy = policy, so_item = item, so_authority = authority, so_effect = effect,
          so_production_activation_authorised = active\<rparr>
        in res_bind (StarvationObservation_post_init s) (\<lambda>_. Inr s))))))))))))))))))))))"

definition StarvationObservation_from_canonical_bytes :: "zone_db \<Rightarrow> bytes \<Rightarrow> StarvationObservation res" where
  "StarvationObservation_from_canonical_bytes zones raw =
     require (length raw \<le> MAX_STARVATION_OBSERVATION_BYTES)
       (scheduling_error ''starvation observation exceeds the canonical byte bound'')
     (res_bind (decode_canonical_object raw) (\<lambda>j.
     res_bind (StarvationObservation_read zones j) (\<lambda>s.
     res_bind (canonical_json_bytes (StarvationObservation_value s)) (\<lambda>b.
     require (b = raw) (scheduling_error ''starvation observation is not canonical'') (Inr s)))))"

end
