(* ===== verification/Scheduling_Wire.thy ===== *)
theory Scheduling_Wire
  imports Scheduling
begin

text \<open>
  The wire forms of the records of \<open>Scheduling\<close>: the dictionary of every constructed record can be
  encoded, and its reader returns the record. Each record interprets \<open>wire_record\<close>.
\<close>

section \<open>Enumerations\<close>

interpretation deadlineKind: str_enum DeadlineKind_value DeadlineKind_members
proof
  show "x \<in> set DeadlineKind_members" for x by (cases x) (simp_all add: DeadlineKind_members_def)
qed (simp add: DeadlineKind_members_def)

interpretation eligibility: str_enum SchedulingEligibility_value SchedulingEligibility_members
proof
  show "x \<in> set SchedulingEligibility_members" for x by (cases x) (simp_all add: SchedulingEligibility_members_def)
qed (simp add: SchedulingEligibility_members_def)

interpretation starvation: str_enum StarvationState_value StarvationState_members
proof
  show "x \<in> set StarvationState_members" for x by (cases x) (simp_all add: StarvationState_members_def)
qed (simp add: StarvationState_members_def)

section \<open>Numbers that can be encoded\<close>

lemma safe_small: "- 4611686018427 \<le> n \<Longrightarrow> n \<le> 4611686018427 \<Longrightarrow> safe_int n"
  by (simp add: safe_int_def MIN_SAFE_INTEGER_def MAX_SAFE_INTEGER_def)

lemma bounded_safe: "0 \<le> n \<Longrightarrow> n \<le> MAX_INTEGER \<Longrightarrow> safe_int n"
  by (simp add: safe_small MAX_INTEGER_def)

lemma timestamp_safe: "civil t \<Longrightarrow> safe_int (timestamp t)"
  by (simp add: safe_small timestamp_def civil_def MIN_CIVIL_def MAX_CIVIL_def)

lemma encodable_null [simp]: "encodable PNone"
  by (simp add: encodable_def)

lemma jmaybe_encodable: "encodable (jmaybe f m) \<longleftrightarrow> (\<forall>x. m = Some x \<longrightarrow> encodable (f x))"
  by (cases m) (simp_all add: jmaybe_def)

lemma jmaybe_wf: "wf_pyval (jmaybe f m) \<longleftrightarrow> (\<forall>x. m = Some x \<longrightarrow> wf_pyval (f x))"
  by (cases m) (simp_all add: jmaybe_def)

section \<open>Deadlines\<close>

lemma DeadlineBoundary_read_value:
  assumes "DeadlineBoundary_valid zones d"
  shows "DeadlineBoundary_read zones (view (DeadlineBoundary_value d)) = Inr d"
proof -
  let ?j = "view (DeadlineBoundary_value d)"
  have k: "strict_keys [''kind'', ''due_at'', ''source_time_zone'', ''source_local_time'',
      ''source_utc_offset_minutes'', ''source_fold''] ?j"
    unfolding DeadlineBoundary_value_def by (rule strict_keys_obj) simp
  have a: "jfield ''kind'' ?j = jstr (DeadlineKind_value (db_kind d))" "jfield ''due_at'' ?j = jstr (db_due_at d)"
    "jfield ''source_time_zone'' ?j = jstr (db_source_time_zone d)"
    "jfield ''source_local_time'' ?j = jstr (db_source_local_time d)"
    "jfield ''source_utc_offset_minutes'' ?j = JInt (db_source_utc_offset_minutes d)"
    "jfield ''source_fold'' ?j = JInt (db_source_fold d)"
    unfolding DeadlineBoundary_value_def by (subst jfield_simps; simp)+
  show ?thesis
    unfolding DeadlineBoundary_read_def
    by (simp add: k a Let_def) (cases d, use assms in \<open>simp add: DeadlineBoundary_valid_def\<close>)
qed

lemma DeadlineBoundary_wf [simp]: "wf_pyval (DeadlineBoundary_value d)"
  by (simp add: DeadlineBoundary_value_def obj_wf)

interpretation boundary: wire_record DeadlineBoundary_value "DeadlineBoundary_valid zones" "DeadlineBoundary_read zones"
  for zones
  by unfold_locales (simp_all add: DeadlineBoundary_read_value)

lemma boundary_encodable: "DeadlineBoundary_valid zones d \<Longrightarrow> encodable (DeadlineBoundary_value d)"
  by (auto simp: DeadlineBoundary_value_def DeadlineBoundary_valid_def DeadlineBoundary_post_init_def
      obj_encodable res_simps intro!: safe_small)

section \<open>Policies\<close>

lemma LaneTimingRule_read_value:
  assumes "LaneTimingRule_valid r"
  shows "LaneTimingRule_read (view (LaneTimingRule_value r)) = Inr r"
proof -
  let ?j = "view (LaneTimingRule_value r)"
  have k: "strict_keys [''lane'', ''lane_ordinal'', ''starvation_warning_seconds'',
      ''starvation_limit_seconds'', ''explicit_deadline_required''] ?j"
    unfolding LaneTimingRule_value_def by (rule strict_keys_obj) simp
  have a: "jfield ''lane'' ?j = jstr (PriorityLane_value (lt_lane r))"
    "jfield ''lane_ordinal'' ?j = JInt (lane_ordinal (lt_lane r))"
    "jfield ''starvation_warning_seconds'' ?j = JInt (lt_starvation_warning_seconds r)"
    "jfield ''starvation_limit_seconds'' ?j = JInt (lt_starvation_limit_seconds r)"
    "jfield ''explicit_deadline_required'' ?j = JBool (lt_explicit_deadline_required r)"
    unfolding LaneTimingRule_value_def by (subst jfield_simps; simp)+
  show ?thesis
    unfolding LaneTimingRule_read_def
    by (simp add: k a Let_def) (cases r, use assms in \<open>simp add: LaneTimingRule_valid_def\<close>)
qed

lemma LaneTimingRule_wf [simp]: "wf_pyval (LaneTimingRule_value r)"
  by (simp add: LaneTimingRule_value_def obj_wf)

interpretation rule: wire_record LaneTimingRule_value LaneTimingRule_valid LaneTimingRule_read
  by unfold_locales (simp_all add: LaneTimingRule_read_value)

lemma rule_encodable: "LaneTimingRule_valid r \<Longrightarrow> encodable (LaneTimingRule_value r)"
  by (auto simp: LaneTimingRule_value_def LaneTimingRule_valid_def LaneTimingRule_post_init_def
      obj_encodable res_simps intro!: bounded_safe)

lemma rule_value_object [simp]: "is_object (view (LaneTimingRule_value r))"
  by (simp add: LaneTimingRule_value_def)

lemma UrgencyDeadlinePolicy_read_value:
  assumes "UrgencyDeadlinePolicy_valid p"
  shows "UrgencyDeadlinePolicy_read (view (UrgencyDeadlinePolicy_value p)) = Inr p"
proof -
  let ?j = "view (UrgencyDeadlinePolicy_value p)"
  have k: "strict_keys [''schema_version'', ''record_type'', ''policy_id'', ''policy_version'',
      ''clock_time_zone'', ''tie_break'', ''lane_rules'', ''authority'', ''effect'',
      ''production_activation_authorised''] ?j"
    unfolding UrgencyDeadlinePolicy_value_def by (rule strict_keys_obj) simp
  have a: "jfield ''schema_version'' ?j = jstr (up_schema_version p)"
    "jfield ''record_type'' ?j = jstr ''urgency_deadline_policy''"
    "jfield ''policy_id'' ?j = jstr (up_policy_id p)" "jfield ''policy_version'' ?j = jstr (up_policy_version p)"
    "jfield ''clock_time_zone'' ?j = jstr (up_clock_time_zone p)" "jfield ''tie_break'' ?j = jstr (up_tie_break p)"
    "jfield ''lane_rules'' ?j = JArr (map (view \<circ> LaneTimingRule_value) (up_lane_rules p))"
    "jfield ''authority'' ?j = jstr (up_authority p)" "jfield ''effect'' ?j = jstr (up_effect p)"
    "jfield ''production_activation_authorised'' ?j = JBool (up_production_activation_authorised p)"
    unfolding UrgencyDeadlinePolicy_value_def by (subst jfield_simps; simp)+
  have l: "res_map LaneTimingRule_read (map (view \<circ> LaneTimingRule_value) (up_lane_rules p)) = Inr (up_lane_rules p)"
    using assms by (intro rule.reads_list) (simp add: UrgencyDeadlinePolicy_valid_def list_all_iff)
  have o: "list_all is_object (map (view \<circ> LaneTimingRule_value) (up_lane_rules p))"
    by (simp add: list_all_iff)
  show ?thesis
    unfolding UrgencyDeadlinePolicy_read_def
    by (simp add: k a l o Let_def) (cases p, use assms in \<open>simp add: UrgencyDeadlinePolicy_valid_def\<close>)
qed

lemma UrgencyDeadlinePolicy_wf [simp]: "wf_pyval (UrgencyDeadlinePolicy_value p)"
  by (simp add: UrgencyDeadlinePolicy_value_def obj_wf)

interpretation urgency_policy:
  wire_record UrgencyDeadlinePolicy_value UrgencyDeadlinePolicy_valid UrgencyDeadlinePolicy_read
  by unfold_locales (simp_all add: UrgencyDeadlinePolicy_read_value)

lemma urgency_policy_encodable: "UrgencyDeadlinePolicy_valid p \<Longrightarrow> encodable (UrgencyDeadlinePolicy_value p)"
  by (auto simp: UrgencyDeadlinePolicy_value_def UrgencyDeadlinePolicy_valid_def obj_encodable list_all_iff
      intro: rule_encodable)

lemma urgency_policy_object [simp]: "is_object (view (UrgencyDeadlinePolicy_value p))"
  by (simp add: UrgencyDeadlinePolicy_value_def)

text \<open>A constructed policy has a rule for every lane.\<close>

lemma rule_for_valid:
  assumes "UrgencyDeadlinePolicy_valid p"
  shows "\<exists>r. rule_for p lane = Inr r \<and> lt_lane r = lane \<and> LaneTimingRule_valid r"
proof -
  have m: "map lt_lane (up_lane_rules p) = PriorityLane_members" and v: "\<forall>r \<in> set (up_lane_rules p). LaneTimingRule_valid r"
    using assms by (auto simp: UrgencyDeadlinePolicy_valid_def UrgencyDeadlinePolicy_post_init_def res_simps list_all_iff)
  let ?n = "nat (lane_ordinal lane - 1)"
  have n: "?n < length PriorityLane_members \<and> PriorityLane_members ! ?n = lane"
    by (cases lane) (simp_all add: PriorityLane_members_def)
  then have len: "?n < length (up_lane_rules p)" using m by (metis length_map)
  then have "lt_lane (up_lane_rules p ! ?n) = lane" using n m by (metis nth_map)
  moreover have "rule_for p lane = Inr (up_lane_rules p ! ?n)"
    using len by (simp add: rule_for_def Cons_nth_drop_Suc [symmetric])
  ultimately show ?thesis using v len nth_mem by blast
qed

section \<open>Inputs\<close>

lemma UrgencyDeadlineInput_wf: "UrgencyDeadlineInput_valid zones i \<Longrightarrow> wf_pyval (UrgencyDeadlineInput_value i)"
  by (simp add: UrgencyDeadlineInput_value_def UrgencyDeadlineInput_valid_def obj_wf jmaybe_wf priority.value_wf)

lemma UrgencyDeadlineInput_read_value:
  assumes "UrgencyDeadlineInput_valid zones i"
  shows "UrgencyDeadlineInput_read zones (view (UrgencyDeadlineInput_value i)) = Inr i"
proof -
  let ?j = "view (UrgencyDeadlineInput_value i)"
  have k: "strict_keys [''work_item_id'', ''work_item_version_id'', ''work_item_version_digest'',
      ''priority_selection'', ''priority_selection_digest'', ''lane'', ''lane_ordinal'', ''enqueued_at'',
      ''observed_at'', ''deadline'', ''eligibility'', ''delay_consequence_ordinal'',
      ''staleness_risk_ordinal'', ''dependency_ready''] ?j"
    unfolding UrgencyDeadlineInput_value_def by (rule strict_keys_obj) simp
  have a: "jfield ''work_item_id'' ?j = jstr (ui_work_item_id i)"
    "jfield ''work_item_version_id'' ?j = jstr (ui_work_item_version_id i)"
    "jfield ''work_item_version_digest'' ?j = jstr (ui_work_item_version_digest i)"
    "jfield ''priority_selection'' ?j = view (PrioritySelection_value (ui_priority_selection i))"
    "jfield ''priority_selection_digest'' ?j = jstr (record_digest (PrioritySelection_value (ui_priority_selection i)))"
    "jfield ''lane'' ?j = jstr (PriorityLane_value (ui_lane i))"
    "jfield ''lane_ordinal'' ?j = JInt (lane_ordinal (ui_lane i))"
    "jfield ''enqueued_at'' ?j = jstr (ui_enqueued_at i)" "jfield ''observed_at'' ?j = jstr (ui_observed_at i)"
    "jfield ''deadline'' ?j = view (jmaybe DeadlineBoundary_value (ui_deadline i))"
    "jfield ''eligibility'' ?j = jstr (SchedulingEligibility_value (ui_eligibility i))"
    "jfield ''delay_consequence_ordinal'' ?j = JInt (ui_delay_consequence_ordinal i)"
    "jfield ''staleness_risk_ordinal'' ?j = JInt (ui_staleness_risk_ordinal i)"
    "jfield ''dependency_ready'' ?j = JBool (ui_dependency_ready i)"
    unfolding UrgencyDeadlineInput_value_def by (subst jfield_simps; simp)+
  have p: "PrioritySelection_read (view (PrioritySelection_value (ui_priority_selection i))) = Inr (ui_priority_selection i)"
    using assms by (intro priority.reads_back) (simp add: UrgencyDeadlineInput_valid_def)
  have d: "as_opt (DeadlineBoundary_read zones) (view (jmaybe DeadlineBoundary_value (ui_deadline i))) = Inr (ui_deadline i)"
    using assms by (intro boundary.reads_opt) (auto simp: UrgencyDeadlineInput_valid_def DeadlineBoundary_value_def)
  have o: "view (jmaybe DeadlineBoundary_value (ui_deadline i)) = JNull \<or>
      is_object (view (jmaybe DeadlineBoundary_value (ui_deadline i)))"
    by (cases "ui_deadline i") (simp_all add: jmaybe_def DeadlineBoundary_value_def)
  have po: "is_object (view (PrioritySelection_value (ui_priority_selection i)))"
    by (simp add: PrioritySelection_value_def)
  show ?thesis
    unfolding UrgencyDeadlineInput_read_def
    by (simp add: k a p d o po Let_def) (cases i, use assms in \<open>simp add: UrgencyDeadlineInput_valid_def\<close>)
qed

interpretation scheduling_input: wire_record UrgencyDeadlineInput_value "UrgencyDeadlineInput_valid zones"
  "UrgencyDeadlineInput_read zones" for zones
  by unfold_locales (simp_all add: UrgencyDeadlineInput_wf UrgencyDeadlineInput_read_value)

lemma input_encodable:
  assumes "UrgencyDeadlineInput_valid zones i"
  shows "encodable (UrgencyDeadlineInput_value i)"
proof -
  have "safe_int (ui_delay_consequence_ordinal i)" "safe_int (ui_staleness_risk_ordinal i)"
    using assms
    by (auto simp: UrgencyDeadlineInput_valid_def UrgencyDeadlineInput_post_init_def require_ordinal_def res_simps
        intro!: safe_small)
  then show ?thesis
    using assms by (auto simp: UrgencyDeadlineInput_value_def UrgencyDeadlineInput_valid_def obj_encodable
        jmaybe_encodable priority_value_encodable intro: boundary_encodable)
qed

lemma input_object [simp]: "is_object (view (UrgencyDeadlineInput_value i))"
  by (simp add: UrgencyDeadlineInput_value_def)

section \<open>What the calculation returns\<close>

lemma effective_deadline_civil:
  assumes "effective_deadline rule deadline enqueued = Inr e" and "civil enqueued"
    and "0 < lt_starvation_limit_seconds rule"
  shows "civil e"
  using assms read_utc_format
  by (auto simp: effective_deadline_def civil_def res_simps split: option.splits)

text \<open>Everything that is known when the calculation has returned.\<close>

lemma urgency_values_Inr:
  assumes "urgency_deadline_values p i = Inr v"
  obtains rule enqueued observed effective where
    "rule_for p (ui_lane i) = Inr rule"
    "lt_explicit_deadline_required rule \<Longrightarrow> ui_deadline i \<noteq> None"
    "read_utc (ui_enqueued_at i) = Some enqueued" "read_utc (ui_observed_at i) = Some observed"
    "observed - enqueued \<le> MAX_INTEGER"
    "effective_deadline rule (ui_deadline i) enqueued = Inr effective"
    "so_effective_deadline v = format_utc effective"
    "so_deadline_source v = (if ui_deadline i \<noteq> None then ''EXPLICIT'' else ''STARVATION_LIMIT'')"
    "so_queue_age_seconds v = observed - enqueued"
    "so_deadline_overdue v = (effective < observed)"
    "so_starvation_state v = starvation_state rule (ui_eligibility i) (observed - enqueued)"
    "so_starvation_overrun_seconds v = max 0 (observed - enqueued - lt_starvation_limit_seconds rule)"
    "so_revalidation_required v = (ui_eligibility i = STALE \<or>
       starvation_state rule (ui_eligibility i) (observed - enqueued) = STARVED \<or> effective < observed)"
    "so_schedulable v = (ui_eligibility i = CURRENT_ELIGIBLE \<and> ui_dependency_ready i)"
    "(if ui_eligibility i = CURRENT_ELIGIBLE \<and> ui_dependency_ready i
      then \<exists>k. order_key_for i effective enqueued
        (starvation_state rule (ui_eligibility i) (observed - enqueued)) = Inr k \<and> so_order_key v = Some k
      else so_order_key v = None)"
proof -
  let ?ready = "ui_eligibility i = CURRENT_ELIGIBLE \<and> ui_dependency_ready i"
  from assms obtain rule enqueued observed effective key where
    h: "rule_for p (ui_lane i) = Inr rule" "\<not> (lt_explicit_deadline_required rule \<and> ui_deadline i = None)"
      "parse_utc (ui_enqueued_at i) = Inr enqueued" "parse_utc (ui_observed_at i) = Inr observed"
      "observed - enqueued \<le> MAX_INTEGER" "effective_deadline rule (ui_deadline i) enqueued = Inr effective"
    and key: "(if ?ready then res_bind (order_key_for i effective enqueued
        (starvation_state rule (ui_eligibility i) (observed - enqueued))) (\<lambda>k. Inr (Some k)) else Inr None) = Inr key"
    and v: "v = \<lparr>so_effective_deadline = format_utc effective,
       so_deadline_source = (if ui_deadline i \<noteq> None then ''EXPLICIT'' else ''STARVATION_LIMIT''),
       so_queue_age_seconds = observed - enqueued, so_deadline_overdue = effective < observed,
       so_starvation_state = starvation_state rule (ui_eligibility i) (observed - enqueued),
       so_starvation_overrun_seconds = max 0 (observed - enqueued - lt_starvation_limit_seconds rule),
       so_revalidation_required = (ui_eligibility i = STALE \<or>
         starvation_state rule (ui_eligibility i) (observed - enqueued) = STARVED \<or> effective < observed),
       so_schedulable = ?ready, so_order_key = key\<rparr>"
    unfolding urgency_deadline_values_def Let_def
    by (simp only: res_bind_Inr_iff require_Inr_iff sum.inject) blast
  have k: "if ?ready
      then \<exists>k. order_key_for i effective enqueued
        (starvation_state rule (ui_eligibility i) (observed - enqueued)) = Inr k \<and> key = Some k
      else key = None"
    using key by (auto simp: res_bind_Inr_iff split: if_splits)
  have kv: "if ?ready
      then \<exists>k. order_key_for i effective enqueued
        (starvation_state rule (ui_eligibility i) (observed - enqueued)) = Inr k \<and> so_order_key v = Some k
      else so_order_key v = None"
    using k by (simp only: v DeadlineValues.simps)
  show thesis
    by (rule that [OF h(1) _ h(3,4) [unfolded sched_checks_Inr] h(5,6) _ _ _ _ _ _ _ _ kv])
      (use h(2) in \<open>simp_all add: v\<close>)
qed

lemma starvation_rank:
  "ui_eligibility i = CURRENT_ELIGIBLE \<Longrightarrow>
     \<exists>n. STARVATION_ORDER (starvation_state rule (ui_eligibility i) age) = Some n \<and> 0 \<le> n \<and> n \<le> 2"
  by (simp add: starvation_state_def STARVATION_ORDER_def)

lemma observation_of_simps [simp]:
  "so_policy (observation_of p i v) = p" "so_item (observation_of p i v) = i"
  "so_authority (observation_of p i v) = ''NONE''" "so_effect (observation_of p i v) = ''NONE''"
  "so_production_activation_authorised (observation_of p i v) = False"
  "DeadlineValues.truncate (observation_of p i v) = v"
  "so_effective_deadline (observation_of p i v) = so_effective_deadline v"
  "so_deadline_source (observation_of p i v) = so_deadline_source v"
  "so_queue_age_seconds (observation_of p i v) = so_queue_age_seconds v"
  "so_deadline_overdue (observation_of p i v) = so_deadline_overdue v"
  "so_starvation_state (observation_of p i v) = so_starvation_state v"
  "so_starvation_overrun_seconds (observation_of p i v) = so_starvation_overrun_seconds v"
  "so_revalidation_required (observation_of p i v) = so_revalidation_required v"
  "so_schedulable (observation_of p i v) = so_schedulable v"
  "so_order_key (observation_of p i v) = so_order_key v"
  by (simp_all add: observation_of_def StarvationObservation.defs DeadlineValues.defs)

lemma input_times:
  assumes "UrgencyDeadlineInput_valid zones i"
  obtains e b where "read_utc (ui_enqueued_at i) = Some e" "read_utc (ui_observed_at i) = Some b" "e \<le> b"
    "civil e" "civil b" "contract_token (ui_work_item_version_id i)"
    "0 \<le> ui_delay_consequence_ordinal i" "ui_delay_consequence_ordinal i \<le> 3"
    "0 \<le> ui_staleness_risk_ordinal i" "ui_staleness_risk_ordinal i \<le> 3"
  using assms read_utc_format
  by (auto simp: UrgencyDeadlineInput_valid_def UrgencyDeadlineInput_post_init_def require_ordinal_def res_simps)

definition key_safe :: "order_key \<Rightarrow> bool" where
  "key_safe k = (case k of (a, b, c, d, e, f, g, h, t) \<Rightarrow>
     list_all safe_int [a, b, c, d, e, f, g, h] \<and> contract_token t)"

text \<open>The checks of an observation's fields hold for every calculated value.\<close>

lemma calculated_fields:
  assumes p: "UrgencyDeadlinePolicy_valid p" and i: "UrgencyDeadlineInput_valid zones i"
    and v: "urgency_deadline_values p i = Inr v"
  shows "\<exists>t. read_utc (so_effective_deadline v) = Some t"
    and "so_deadline_source v \<in> {''EXPLICIT'', ''STARVATION_LIMIT''}"
    and "0 \<le> so_queue_age_seconds v" "so_queue_age_seconds v \<le> MAX_INTEGER"
    and "0 \<le> so_starvation_overrun_seconds v" "so_starvation_overrun_seconds v \<le> MAX_INTEGER"
    and "so_order_key v = Some k \<Longrightarrow> key_safe k"
proof -
  from v obtain rule enqueued observed effective where
    h: "rule_for p (ui_lane i) = Inr rule" "read_utc (ui_enqueued_at i) = Some enqueued"
      "read_utc (ui_observed_at i) = Some observed" "observed - enqueued \<le> MAX_INTEGER"
      "effective_deadline rule (ui_deadline i) enqueued = Inr effective"
      "so_effective_deadline v = format_utc effective"
      "so_deadline_source v = (if ui_deadline i \<noteq> None then ''EXPLICIT'' else ''STARVATION_LIMIT'')"
      "so_queue_age_seconds v = observed - enqueued"
      "so_starvation_overrun_seconds v = max 0 (observed - enqueued - lt_starvation_limit_seconds rule)"
    and key: "if ui_eligibility i = CURRENT_ELIGIBLE \<and> ui_dependency_ready i
      then \<exists>k. order_key_for i effective enqueued
        (starvation_state rule (ui_eligibility i) (observed - enqueued)) = Inr k \<and> so_order_key v = Some k
      else so_order_key v = None"
    by (rule urgency_values_Inr)
  from i obtain e b where t: "read_utc (ui_enqueued_at i) = Some e" "read_utc (ui_observed_at i) = Some b" "e \<le> b"
      "civil e" "civil b" "contract_token (ui_work_item_version_id i)"
      "0 \<le> ui_delay_consequence_ordinal i" "ui_delay_consequence_ordinal i \<le> 3"
      "0 \<le> ui_staleness_risk_ordinal i" "ui_staleness_risk_ordinal i \<le> 3"
    by (rule input_times)
  have eo: "enqueued \<le> observed" "civil enqueued" using t(1-5) h(2,3) by auto
  obtain r where "rule_for p (ui_lane i) = Inr r" "LaneTimingRule_valid r" using rule_for_valid [OF p] by blast
  then have lim: "0 < lt_starvation_limit_seconds rule"
    using h(1) by (auto simp: LaneTimingRule_valid_def LaneTimingRule_post_init_def res_simps)
  have eff: "civil effective" by (rule effective_deadline_civil [OF h(5) eo(2) lim])
  show "\<exists>t. read_utc (so_effective_deadline v) = Some t" using eff by (simp add: h(6))
  show "so_deadline_source v \<in> {''EXPLICIT'', ''STARVATION_LIMIT''}" by (simp add: h(7))
  show "0 \<le> so_queue_age_seconds v" "so_queue_age_seconds v \<le> MAX_INTEGER" using eo h(4) by (simp_all add: h(8))
  show "0 \<le> so_starvation_overrun_seconds v" "so_starvation_overrun_seconds v \<le> MAX_INTEGER"
    using lim eo h(4) by (simp_all add: h(9) MAX_INTEGER_def)
  show "key_safe k" if "so_order_key v = Some k"
  proof -
    have "order_key_for i effective enqueued
        (starvation_state rule (ui_eligibility i) (observed - enqueued)) = Inr k"
      and el: "ui_eligibility i = CURRENT_ELIGIBLE"
      using key that by (auto split: if_splits)
    moreover obtain n where "STARVATION_ORDER (starvation_state rule (ui_eligibility i) (observed - enqueued)) = Some n"
        "0 \<le> n" "n \<le> 2"
      using starvation_rank [OF el] by blast
    ultimately show ?thesis
      using t(6-10) timestamp_safe [OF eff] timestamp_safe [OF eo(2)]
      by (auto simp: order_key_for_def key_safe_def safe_small)
  qed
qed

section \<open>Observations\<close>

lemma order_key_wf [simp]: "wf_pyval (order_key_value k)"
  by (simp add: order_key_value_def split: prod.splits)

lemma order_key_encodable: "key_safe k \<Longrightarrow> encodable (order_key_value k)"
  by (auto simp: order_key_value_def key_safe_def split: prod.splits)

lemma order_key_not_null [simp]: "view (order_key_value k) \<noteq> JNull"
  by (simp add: order_key_value_def split: prod.splits)

lemma order_key_read_value: "order_key_read (view (order_key_value k)) = Inr k"
  by (simp add: order_key_read_def order_key_value_def split: prod.splits)

interpretation order_key: wire_record order_key_value "\<lambda>_. True" order_key_read
  by unfold_locales (simp_all add: order_key_read_value)

lemma StarvationObservation_wf:
  "UrgencyDeadlineInput_valid zones (so_item s) \<Longrightarrow> wf_pyval (StarvationObservation_value s)"
  by (simp add: StarvationObservation_value_def obj_wf jmaybe_wf UrgencyDeadlineInput_wf)

lemma observation_encodable:
  assumes p: "UrgencyDeadlinePolicy_valid (so_policy s)" and i: "UrgencyDeadlineInput_valid zones (so_item s)"
    and v: "urgency_deadline_values (so_policy s) (so_item s) = Inr (DeadlineValues.truncate s)"
  shows "encodable (StarvationObservation_value s)"
proof -
  note f = calculated_fields [OF p i v]
  have "safe_int (so_queue_age_seconds s)" "safe_int (so_starvation_overrun_seconds s)"
      "so_order_key s = Some k \<Longrightarrow> key_safe k" for k
    using f(3-7) bounded_safe by (simp_all add: DeadlineValues.defs)
  then show ?thesis
    using urgency_policy_encodable [OF p] input_encodable [OF i]
    by (auto simp: StarvationObservation_value_def obj_encodable jmaybe_encodable intro: order_key_encodable)
qed

lemma observation_valid_fields:
  assumes "StarvationObservation_valid zones s"
  shows "UrgencyDeadlinePolicy_valid (so_policy s)" "UrgencyDeadlineInput_valid zones (so_item s)"
    "urgency_deadline_values (so_policy s) (so_item s) = Inr (DeadlineValues.truncate s)"
    "so_authority s = ''NONE''" "so_effect s = ''NONE''" "so_production_activation_authorised s = False"
    "StarvationObservation_post_init s = Inr ()"
  using assms unfolding StarvationObservation_valid_def StarvationObservation_post_init_def
  by (auto simp: res_simps)

lemma StarvationObservation_read_value:
  assumes "StarvationObservation_valid zones s"
  shows "StarvationObservation_read zones (view (StarvationObservation_value s)) = Inr s"
proof -
  let ?j = "view (StarvationObservation_value s)"
  note f = observation_valid_fields [OF assms]
  have k: "strict_keys [''schema_version'', ''record_type'', ''policy'', ''policy_digest'', ''input'',
      ''input_digest'', ''effective_deadline'', ''deadline_source'', ''queue_age_seconds'',
      ''deadline_overdue'', ''starvation_state'', ''starvation_overrun_seconds'',
      ''revalidation_required'', ''schedulable'', ''order_key'', ''authority'', ''effect'',
      ''production_activation_authorised''] ?j"
    unfolding StarvationObservation_value_def by (rule strict_keys_obj) simp
  have a: "jfield ''schema_version'' ?j = jstr SCHEDULING_POLICY_SCHEMA_VERSION"
    "jfield ''record_type'' ?j = jstr ''starvation_observation''"
    "jfield ''policy'' ?j = view (UrgencyDeadlinePolicy_value (so_policy s))"
    "jfield ''policy_digest'' ?j = jstr (urgency_policy_digest (so_policy s))"
    "jfield ''input'' ?j = view (UrgencyDeadlineInput_value (so_item s))"
    "jfield ''input_digest'' ?j = jstr (input_digest (so_item s))"
    "jfield ''effective_deadline'' ?j = jstr (so_effective_deadline s)"
    "jfield ''deadline_source'' ?j = jstr (so_deadline_source s)"
    "jfield ''queue_age_seconds'' ?j = JInt (so_queue_age_seconds s)"
    "jfield ''deadline_overdue'' ?j = JBool (so_deadline_overdue s)"
    "jfield ''starvation_state'' ?j = jstr (StarvationState_value (so_starvation_state s))"
    "jfield ''starvation_overrun_seconds'' ?j = JInt (so_starvation_overrun_seconds s)"
    "jfield ''revalidation_required'' ?j = JBool (so_revalidation_required s)"
    "jfield ''schedulable'' ?j = JBool (so_schedulable s)"
    "jfield ''order_key'' ?j = view (jmaybe order_key_value (so_order_key s))"
    "jfield ''authority'' ?j = jstr (so_authority s)" "jfield ''effect'' ?j = jstr (so_effect s)"
    "jfield ''production_activation_authorised'' ?j = JBool (so_production_activation_authorised s)"
    unfolding StarvationObservation_value_def by (subst jfield_simps; simp)+
  have o: "as_opt order_key_read (view (jmaybe order_key_value (so_order_key s))) = Inr (so_order_key s)"
    by (rule order_key.reads_opt) simp_all
  have l: "case view (jmaybe order_key_value (so_order_key s)) of JNull \<Rightarrow> True | JArr _ \<Rightarrow> True | _ \<Rightarrow> False"
    by (cases "so_order_key s") (auto simp: jmaybe_def order_key_value_def split: prod.splits)
  have p: "UrgencyDeadlinePolicy_read (view (UrgencyDeadlinePolicy_value (so_policy s))) = Inr (so_policy s)"
    by (rule urgency_policy.reads_back [OF f(1)])
  have i: "UrgencyDeadlineInput_read zones (view (UrgencyDeadlineInput_value (so_item s))) = Inr (so_item s)"
    by (rule scheduling_input.reads_back [OF f(2)])
  show ?thesis
    unfolding StarvationObservation_read_def
    by (simp only: k a urgency_policy_object input_object p i o l res_bind_simps require_simps simp_thms
        as_text_jstr as_leaves starvation.read_value Let_def malformed_Inr if_True)
      (cases s, use f(7) in simp)
qed

interpretation observation: wire_record StarvationObservation_value "StarvationObservation_valid zones"
  "StarvationObservation_read zones" for zones
  by unfold_locales
    (simp_all add: StarvationObservation_read_value StarvationObservation_wf [OF observation_valid_fields(2)])

section \<open>The calculation\<close>

text \<open>A calculated observation passes the checks of its constructor unless its text is too long.\<close>

lemma calculation_Inr:
  assumes p: "UrgencyDeadlinePolicy_valid p" and i: "UrgencyDeadlineInput_valid zones i"
  shows "calculate_urgency_deadline p i = Inr s \<longleftrightarrow>
    (\<exists>v b. urgency_deadline_values p i = Inr v \<and> s = observation_of p i v \<and>
      canonical_json_bytes (StarvationObservation_value s) = Inr b \<and> length b \<le> MAX_STARVATION_OBSERVATION_BYTES)"
proof (cases "urgency_deadline_values p i")
  case (Inr v)
  let ?s = "observation_of p i v"
  note f = calculated_fields [OF p i Inr]
  have enc: "encodable (StarvationObservation_value ?s)"
    using p i Inr by (intro observation_encodable) simp_all
  then obtain b where b: "canonical_json_bytes (StarvationObservation_value ?s) = Inr b"
    using canonical_json_bytes_encodable [OF StarvationObservation_wf] i by fastforce
  have key: "(case so_order_key v of None \<Rightarrow> Inr () | Some (_, _, _, _, _, _, _, _, t) \<Rightarrow> require_sched_token t) = Inr ()"
    using f(7) by (auto simp: key_safe_def res_simps split: option.splits)
  from f(1) obtain t where t: "parse_utc (so_effective_deadline v) = Inr t" by (auto simp: res_simps)
  have n: "require_non_negative_int (so_queue_age_seconds v) = Inr ()"
      "require_non_negative_int (so_starvation_overrun_seconds v) = Inr ()"
    using f(3-6) by (simp_all add: res_simps)
  have "StarvationObservation_post_init ?s =
      require (length b \<le> MAX_STARVATION_OBSERVATION_BYTES)
       (scheduling_error ''starvation observation exceeds the canonical byte bound'') (Inr ())"
    using f(2) unfolding StarvationObservation_post_init_def observation_of_simps
    by (simp only: t n key Inr b res_bind_simps require_simps malformed_simp simp_thms)
  then show ?thesis
    using b by (auto simp: calculate_urgency_deadline_def Inr Let_def res_simps)
qed (simp add: calculate_urgency_deadline_def)

end
