(* ===== verification/Capacity.thy ===== *)
theory Capacity
  imports Scheduling "HOL-Library.Option_ord"
begin

text \<open>
  The second half of \<open>src/newsroom/increment6/scheduling.py\<close>: reserved capacity. A snapshot holds the
  active and pending work of one instant; \<open>capacity_values\<close> is \<open>_capacity_values\<close>, the deterministic
  allocation of the free slots, and \<open>allocate_reserved_capacity\<close> wraps it in a decision. Members of a
  population are compared by value: their identities are unique, so equal members are the same object.
\<close>

section \<open>Classes and dispositions\<close>

datatype CapacityPathState = AVAILABLE | DEGRADED | UNAVAILABLE
datatype CapacityClass = URGENT_RESERVED | ORDINARY
datatype ReservedCapacityDisposition =
  ADMITTED | NO_PENDING_WORK | ALL_CAPACITY_DEFERRED | ALL_URGENT_VISIBLE_OPERATIONAL_HOLD
datatype CapacityWorkState = ACTIVE | PENDING
datatype CapacityRevalidationResult = REVALIDATED | EXPIRED | RESULT_CLOSED
datatype CapacityAllocationDisposition = GRANTED | CAPACITY_DEFERRED | URGENT_VISIBLE_OPERATIONAL_HOLD

primrec CapacityPathState_value :: "CapacityPathState \<Rightarrow> string" where
  "CapacityPathState_value AVAILABLE = ''AVAILABLE''"
| "CapacityPathState_value DEGRADED = ''DEGRADED''"
| "CapacityPathState_value UNAVAILABLE = ''UNAVAILABLE''"

primrec CapacityClass_value :: "CapacityClass \<Rightarrow> string" where
  "CapacityClass_value URGENT_RESERVED = ''URGENT_RESERVED''"
| "CapacityClass_value ORDINARY = ''ORDINARY''"

primrec ReservedCapacityDisposition_value :: "ReservedCapacityDisposition \<Rightarrow> string" where
  "ReservedCapacityDisposition_value ADMITTED = ''ADMITTED''"
| "ReservedCapacityDisposition_value NO_PENDING_WORK = ''NO_PENDING_WORK''"
| "ReservedCapacityDisposition_value ALL_CAPACITY_DEFERRED = ''CAPACITY_DEFERRED''"
| "ReservedCapacityDisposition_value ALL_URGENT_VISIBLE_OPERATIONAL_HOLD = ''URGENT_VISIBLE_OPERATIONAL_HOLD''"

primrec CapacityWorkState_value :: "CapacityWorkState \<Rightarrow> string" where
  "CapacityWorkState_value ACTIVE = ''ACTIVE''"
| "CapacityWorkState_value PENDING = ''PENDING''"

primrec CapacityRevalidationResult_value :: "CapacityRevalidationResult \<Rightarrow> string" where
  "CapacityRevalidationResult_value REVALIDATED = ''REVALIDATED''"
| "CapacityRevalidationResult_value EXPIRED = ''EXPIRED''"
| "CapacityRevalidationResult_value RESULT_CLOSED = ''CLOSED''"

primrec CapacityAllocationDisposition_value :: "CapacityAllocationDisposition \<Rightarrow> string" where
  "CapacityAllocationDisposition_value GRANTED = ''GRANTED''"
| "CapacityAllocationDisposition_value CAPACITY_DEFERRED = ''CAPACITY_DEFERRED''"
| "CapacityAllocationDisposition_value URGENT_VISIBLE_OPERATIONAL_HOLD = ''URGENT_VISIBLE_OPERATIONAL_HOLD''"

definition CapacityPathState_members :: "CapacityPathState list" where
  "CapacityPathState_members = [AVAILABLE, DEGRADED, UNAVAILABLE]"
definition ReservedCapacityDisposition_members :: "ReservedCapacityDisposition list" where
  "ReservedCapacityDisposition_members =
     [ADMITTED, NO_PENDING_WORK, ALL_CAPACITY_DEFERRED, ALL_URGENT_VISIBLE_OPERATIONAL_HOLD]"
definition CapacityWorkState_members :: "CapacityWorkState list" where
  "CapacityWorkState_members = [ACTIVE, PENDING]"
definition CapacityRevalidationResult_members :: "CapacityRevalidationResult list" where
  "CapacityRevalidationResult_members = [REVALIDATED, EXPIRED, RESULT_CLOSED]"

definition capacity_class_for_lane :: "PriorityLane \<Rightarrow> CapacityClass" where
  "capacity_class_for_lane lane = (if lane \<in> {CONTAINMENT, URGENT} then URGENT_RESERVED else ORDINARY)"

section \<open>Reserved capacity policies\<close>

record ReservedCapacityPolicy =
  rp_policy_id :: string
  rp_policy_version :: string
  rp_total_slots :: int
  rp_urgent_reserved_slots :: int
  rp_minimum_ordinary_slots :: int
  rp_degraded_urgent_disposition :: ReservedCapacityDisposition
  rp_schema_version :: string
  rp_authority :: string
  rp_effect :: string
  rp_production_activation_authorised :: bool

definition ReservedCapacityPolicy_post_init :: "ReservedCapacityPolicy \<Rightarrow> unit res" where
  "ReservedCapacityPolicy_post_init p =
     res_bind (require_sched_token (rp_policy_id p)) (\<lambda>_.
     res_bind (require_sched_token (rp_policy_version p)) (\<lambda>_.
     res_bind (require_positive_int (rp_total_slots p)) (\<lambda>_.
     res_bind (require_positive_int (rp_urgent_reserved_slots p)) (\<lambda>_.
     res_bind (require_positive_int (rp_minimum_ordinary_slots p)) (\<lambda>_.
     require (rp_urgent_reserved_slots p + rp_minimum_ordinary_slots p \<le> rp_total_slots p)
       (scheduling_error ''urgent and ordinary reservations exceed total capacity'')
     (require (rp_degraded_urgent_disposition p = ALL_URGENT_VISIBLE_OPERATIONAL_HOLD)
       (scheduling_error ''degraded Urgent work must remain a visible operational hold'')
     (require (rp_schema_version p = SCHEDULING_POLICY_SCHEMA_VERSION)
       (scheduling_error ''reserved capacity schema differs'')
     (require (rp_authority p = ''NONE'' \<and> rp_effect p = ''NONE'' \<and> \<not> rp_production_activation_authorised p)
       (scheduling_error ''reserved capacity policy cannot claim authority or effect'')
     (Inr ())))))))))"

definition max_urgent_slots :: "ReservedCapacityPolicy \<Rightarrow> int" where
  "max_urgent_slots p = rp_total_slots p - rp_minimum_ordinary_slots p"

definition ordinary_capacity_ceiling :: "ReservedCapacityPolicy \<Rightarrow> int" where
  "ordinary_capacity_ceiling p = rp_total_slots p - rp_urgent_reserved_slots p"

definition ReservedCapacityPolicy_value :: "ReservedCapacityPolicy \<Rightarrow> pyval" where
  "ReservedCapacityPolicy_value p = obj [
     (''schema_version'', jtext (rp_schema_version p)),
     (''record_type'', jtext ''reserved_capacity_policy''),
     (''policy_id'', jtext (rp_policy_id p)),
     (''policy_version'', jtext (rp_policy_version p)),
     (''total_slots'', jnum (rp_total_slots p)),
     (''urgent_reserved_slots'', jnum (rp_urgent_reserved_slots p)),
     (''minimum_ordinary_slots'', jnum (rp_minimum_ordinary_slots p)),
     (''max_urgent_slots'', jnum (max_urgent_slots p)),
     (''ordinary_capacity_ceiling'', jnum (ordinary_capacity_ceiling p)),
     (''degraded_urgent_disposition'', jtext (ReservedCapacityDisposition_value (rp_degraded_urgent_disposition p))),
     (''authority'', jtext (rp_authority p)),
     (''effect'', jtext (rp_effect p)),
     (''production_activation_authorised'', jflag (rp_production_activation_authorised p))]"

definition capacity_policy_digest :: "ReservedCapacityPolicy \<Rightarrow> string" where
  "capacity_policy_digest p = record_digest (ReservedCapacityPolicy_value p)"

definition capacity_malformed :: exn where
  "capacity_malformed = scheduling_error ''reserved capacity policy is malformed''"

definition ReservedCapacityPolicy_read :: "json \<Rightarrow> ReservedCapacityPolicy res" where
  "ReservedCapacityPolicy_read j =
     require (strict_keys [''schema_version'', ''record_type'', ''policy_id'', ''policy_version'',
         ''total_slots'', ''urgent_reserved_slots'', ''minimum_ordinary_slots'', ''max_urgent_slots'',
         ''ordinary_capacity_ceiling'', ''degraded_urgent_disposition'', ''authority'', ''effect'',
         ''production_activation_authorised''] j)
       (scheduling_error ''reserved_capacity_policy keys are not exact'')
     (require (jfield ''record_type'' j = jstr ''reserved_capacity_policy'')
       (scheduling_error ''reserved capacity record type differs'')
     (res_bind (malformed ''reserved capacity policy is malformed''
       (res_bind (as_text capacity_malformed (jfield ''policy_id'' j)) (\<lambda>i.
        res_bind (as_text capacity_malformed (jfield ''policy_version'' j)) (\<lambda>version.
        res_bind (as_int capacity_malformed (jfield ''total_slots'' j)) (\<lambda>total.
        res_bind (as_int capacity_malformed (jfield ''urgent_reserved_slots'' j)) (\<lambda>urgent.
        res_bind (as_int capacity_malformed (jfield ''minimum_ordinary_slots'' j)) (\<lambda>ordinary.
        res_bind (enum_of ReservedCapacityDisposition_value ReservedCapacityDisposition_members capacity_malformed
          (jfield ''degraded_urgent_disposition'' j)) (\<lambda>degraded.
        res_bind (as_text capacity_malformed (jfield ''schema_version'' j)) (\<lambda>schema.
        res_bind (as_text capacity_malformed (jfield ''authority'' j)) (\<lambda>authority.
        res_bind (as_text capacity_malformed (jfield ''effect'' j)) (\<lambda>effect.
        res_bind (as_flag capacity_malformed (jfield ''production_activation_authorised'' j)) (\<lambda>active.
        let p = \<lparr>rp_policy_id = i, rp_policy_version = version, rp_total_slots = total,
          rp_urgent_reserved_slots = urgent, rp_minimum_ordinary_slots = ordinary,
          rp_degraded_urgent_disposition = degraded, rp_schema_version = schema, rp_authority = authority,
          rp_effect = effect, rp_production_activation_authorised = active\<rparr>
        in res_bind (ReservedCapacityPolicy_post_init p) (\<lambda>_. Inr p))))))))))))) (\<lambda>p.
     require (jfield ''max_urgent_slots'' j = JInt (max_urgent_slots p) \<and>
         jfield ''ordinary_capacity_ceiling'' j = JInt (ordinary_capacity_ceiling p))
       (scheduling_error ''reserved capacity derived bounds differ'') (Inr p))))"

definition ReservedCapacityPolicy_valid :: "ReservedCapacityPolicy \<Rightarrow> bool" where
  "ReservedCapacityPolicy_valid p = (ReservedCapacityPolicy_post_init p = Inr ())"

section \<open>Revalidation evidence\<close>

record CapacityRevalidationEvidence =
  re_work_item_id :: string
  re_work_item_version_id :: string
  re_work_item_version_digest :: string
  re_starvation_observation_digest :: string
  re_governing_policy_digest :: string
  re_snapshot_observed_at :: string
  re_currentness_basis :: "ReasonReference list"
  re_result :: CapacityRevalidationResult
  re_authority :: string
  re_effect :: string

text \<open>
  The basis has exactly one element, so that the check that it is sorted and unique, which follows
  it, always passes.
\<close>

definition CapacityRevalidationEvidence_post_init :: "CapacityRevalidationEvidence \<Rightarrow> unit res" where
  "CapacityRevalidationEvidence_post_init e =
     res_bind (require_sched_token (re_work_item_id e)) (\<lambda>_.
     res_bind (require_sched_token (re_work_item_version_id e)) (\<lambda>_.
     res_bind (require_sched_digest (re_work_item_version_digest e)) (\<lambda>_.
     res_bind (require_sched_digest (re_starvation_observation_digest e)) (\<lambda>_.
     res_bind (require_sched_digest (re_governing_policy_digest e)) (\<lambda>_.
     res_bind (parse_utc (re_snapshot_observed_at e)) (\<lambda>_.
     case re_currentness_basis e of
       [r] \<Rightarrow>
         res_bind (res_map (\<lambda>r. canonical_json_bytes (ReasonReference_value r)) [r]) (\<lambda>basis.
         require (sorted basis \<and> distinct basis)
           (scheduling_error ''revalidation currentness basis must be sorted and unique'')
         (require (rr_reference_type r = ''revalidation-'' @ lower (CapacityRevalidationResult_value (re_result e)))
           (scheduling_error ''revalidation result differs from its currentness basis'')
         (require (re_authority e = ''NONE'' \<and> re_effect e = ''NONE'')
           (scheduling_error ''revalidation evidence cannot claim authority or effect'') (Inr ()))))
     | _ \<Rightarrow> Inl (scheduling_error ''revalidation currentness basis must be an immutable typed tuple'')))))))"

definition CapacityRevalidationEvidence_value :: "CapacityRevalidationEvidence \<Rightarrow> pyval" where
  "CapacityRevalidationEvidence_value e = obj [
     (''work_item_id'', jtext (re_work_item_id e)),
     (''work_item_version_id'', jtext (re_work_item_version_id e)),
     (''work_item_version_digest'', jtext (re_work_item_version_digest e)),
     (''starvation_observation_digest'', jtext (re_starvation_observation_digest e)),
     (''governing_policy_digest'', jtext (re_governing_policy_digest e)),
     (''snapshot_observed_at'', jtext (re_snapshot_observed_at e)),
     (''currentness_basis'', jlist (map ReasonReference_value (re_currentness_basis e))),
     (''result'', jtext (CapacityRevalidationResult_value (re_result e))),
     (''authority'', jtext (re_authority e)),
     (''effect'', jtext (re_effect e))]"

definition evidence_digest :: "CapacityRevalidationEvidence \<Rightarrow> string" where
  "evidence_digest e = record_digest (CapacityRevalidationEvidence_value e)"

definition evidence_malformed :: exn where
  "evidence_malformed = scheduling_error ''capacity revalidation evidence is malformed''"

definition CapacityRevalidationEvidence_read :: "json \<Rightarrow> CapacityRevalidationEvidence res" where
  "CapacityRevalidationEvidence_read j =
     require (strict_keys [''work_item_id'', ''work_item_version_id'', ''work_item_version_digest'',
         ''starvation_observation_digest'', ''governing_policy_digest'', ''snapshot_observed_at'',
         ''currentness_basis'', ''result'', ''authority'', ''effect''] j)
       (scheduling_error ''capacity_revalidation_evidence keys are not exact'')
     (res_bind (as_list (scheduling_error ''revalidation currentness basis must be an array of objects'')
        (jfield ''currentness_basis'' j)) (\<lambda>raw.
     require (list_all is_object raw)
       (scheduling_error ''revalidation currentness basis must be an array of objects'')
     (malformed ''capacity revalidation evidence is malformed''
       (res_bind (as_text evidence_malformed (jfield ''work_item_id'' j)) (\<lambda>identity.
        res_bind (as_text evidence_malformed (jfield ''work_item_version_id'' j)) (\<lambda>version.
        res_bind (as_text evidence_malformed (jfield ''work_item_version_digest'' j)) (\<lambda>digest.
        res_bind (as_text evidence_malformed (jfield ''starvation_observation_digest'' j)) (\<lambda>observation.
        res_bind (as_text evidence_malformed (jfield ''governing_policy_digest'' j)) (\<lambda>policy.
        res_bind (as_text evidence_malformed (jfield ''snapshot_observed_at'' j)) (\<lambda>observed.
        res_bind (res_map ReasonReference_read raw) (\<lambda>basis.
        res_bind (enum_of CapacityRevalidationResult_value CapacityRevalidationResult_members evidence_malformed
          (jfield ''result'' j)) (\<lambda>result.
        res_bind (as_text evidence_malformed (jfield ''authority'' j)) (\<lambda>authority.
        res_bind (as_text evidence_malformed (jfield ''effect'' j)) (\<lambda>effect.
        let e = \<lparr>re_work_item_id = identity, re_work_item_version_id = version,
          re_work_item_version_digest = digest, re_starvation_observation_digest = observation,
          re_governing_policy_digest = policy, re_snapshot_observed_at = observed,
          re_currentness_basis = basis, re_result = result, re_authority = authority, re_effect = effect\<rparr>
        in res_bind (CapacityRevalidationEvidence_post_init e) (\<lambda>_. Inr e)))))))))))))))"

definition CapacityRevalidationEvidence_valid :: "CapacityRevalidationEvidence \<Rightarrow> bool" where
  "CapacityRevalidationEvidence_valid e =
     (CapacityRevalidationEvidence_post_init e = Inr () \<and>
      list_all ReasonReference_valid (re_currentness_basis e))"

section \<open>Population\<close>

record CapacityPopulationItem =
  ci_observation :: StarvationObservation
  ci_state :: CapacityWorkState
  ci_revalidation_evidence :: "CapacityRevalidationEvidence option"

definition ci_work_item_id :: "CapacityPopulationItem \<Rightarrow> string" where
  "ci_work_item_id c = ui_work_item_id (so_item (ci_observation c))"
definition ci_work_item_version_id :: "CapacityPopulationItem \<Rightarrow> string" where
  "ci_work_item_version_id c = ui_work_item_version_id (so_item (ci_observation c))"
definition ci_work_item_version_digest :: "CapacityPopulationItem \<Rightarrow> string" where
  "ci_work_item_version_digest c = ui_work_item_version_digest (so_item (ci_observation c))"
definition ci_priority_selection :: "CapacityPopulationItem \<Rightarrow> PrioritySelection" where
  "ci_priority_selection c = ui_priority_selection (so_item (ci_observation c))"
definition ci_lane :: "CapacityPopulationItem \<Rightarrow> PriorityLane" where
  "ci_lane c = pr_lane (ci_priority_selection c)"
definition ci_capacity_class :: "CapacityPopulationItem \<Rightarrow> CapacityClass" where
  "ci_capacity_class c = capacity_class_for_lane (ci_lane c)"
definition identity_key :: "CapacityPopulationItem \<Rightarrow> string \<times> string" where
  "identity_key c = (ci_work_item_id c, ci_work_item_version_id c)"
definition ci_revalidation_result :: "CapacityPopulationItem \<Rightarrow> CapacityRevalidationResult option" where
  "ci_revalidation_result c = map_option re_result (ci_revalidation_evidence c)"

definition CapacityPopulationItem_value :: "CapacityPopulationItem \<Rightarrow> pyval" where
  "CapacityPopulationItem_value c = obj [
     (''observation'', StarvationObservation_value (ci_observation c)),
     (''observation_digest'', jtext (decision_digest (ci_observation c))),
     (''state'', jtext (CapacityWorkState_value (ci_state c))),
     (''revalidation_evidence'', jmaybe CapacityRevalidationEvidence_value (ci_revalidation_evidence c)),
     (''revalidation_evidence_digest'', jopt (map_option evidence_digest (ci_revalidation_evidence c)))]"

definition require_item_bytes :: "pyval \<Rightarrow> unit res" where
  "require_item_bytes v =
     res_bind (malformed ''capacity item is not canonically representable'' (canonical_json_bytes v)) (\<lambda>b.
     require (length b \<le> MAX_CAPACITY_ITEM_BYTES)
       (scheduling_error ''capacity item is not canonically representable'') (Inr ()))"

text \<open>Evidence speaks about the exact observation it revalidates.\<close>

definition evidence_binds :: "CapacityRevalidationEvidence \<Rightarrow> StarvationObservation \<Rightarrow> bool" where
  "evidence_binds e s =
     (re_work_item_id e = ui_work_item_id (so_item s) \<and>
      re_work_item_version_id e = ui_work_item_version_id (so_item s) \<and>
      re_work_item_version_digest e = ui_work_item_version_digest (so_item s) \<and>
      re_starvation_observation_digest e = decision_digest s \<and>
      re_governing_policy_digest e = urgency_policy_digest (so_policy s) \<and>
      re_snapshot_observed_at e = ui_observed_at (so_item s))"

definition CapacityPopulationItem_post_init :: "CapacityPopulationItem \<Rightarrow> unit res" where
  "CapacityPopulationItem_post_init c =
     (let s = ci_observation c in
      res_bind (require_item_bytes (StarvationObservation_value s)) (\<lambda>_.
      require (so_schedulable s)
        (scheduling_error ''capacity population may contain only canonical schedulable work'')
      (require (\<not> (so_revalidation_required s \<and> ci_revalidation_evidence c = None))
        (scheduling_error ''capacity item must expose exact revalidation evidence'')
      (require (\<not> (\<not> so_revalidation_required s \<and> ci_revalidation_evidence c \<noteq> None))
        (scheduling_error ''capacity item has conflicting revalidation evidence'')
      (res_bind (case ci_revalidation_evidence c of
          None \<Rightarrow> Inr ()
        | Some e \<Rightarrow>
            require (evidence_binds e s)
              (scheduling_error ''revalidation evidence differs from its exact observation'')
            (require (\<not> (ci_state c = ACTIVE \<and> re_result e \<noteq> REVALIDATED))
              (scheduling_error ''active work requires current revalidated evidence'') (Inr ()))) (\<lambda>_.
      require_item_bytes (CapacityPopulationItem_value c)))))))"

definition item_malformed :: exn where
  "item_malformed = scheduling_error ''capacity population item is malformed''"

definition CapacityPopulationItem_read :: "zone_db \<Rightarrow> json \<Rightarrow> CapacityPopulationItem res" where
  "CapacityPopulationItem_read zones j =
     require (strict_keys [''observation'', ''observation_digest'', ''state'', ''revalidation_evidence'',
         ''revalidation_evidence_digest''] j)
       (scheduling_error ''capacity_population_item keys are not exact'')
     (require (is_object (jfield ''observation'' j) \<and>
         (jfield ''revalidation_evidence'' j = JNull \<or> is_object (jfield ''revalidation_evidence'' j)))
       (scheduling_error ''capacity item observation and evidence are malformed'')
     (res_bind (malformed ''capacity population item is malformed''
       (res_bind (canonical_json_bytes (py_of_json (jfield ''observation'' j))) (\<lambda>raw.
        res_bind (StarvationObservation_from_canonical_bytes zones raw) (\<lambda>observation.
        res_bind (as_opt CapacityRevalidationEvidence_read (jfield ''revalidation_evidence'' j)) (\<lambda>evidence.
        res_bind (enum_of CapacityWorkState_value CapacityWorkState_members item_malformed (jfield ''state'' j)) (\<lambda>state.
        let c = \<lparr>ci_observation = observation, ci_state = state, ci_revalidation_evidence = evidence\<rparr>
        in res_bind (CapacityPopulationItem_post_init c) (\<lambda>_. Inr c))))))) (\<lambda>c.
     require (jfield ''observation_digest'' j = jstr (decision_digest (ci_observation c)) \<and>
         jfield ''revalidation_evidence_digest'' j =
           view (jopt (map_option evidence_digest (ci_revalidation_evidence c))))
       (scheduling_error ''capacity item derived binding differs'') (Inr c))))"

definition CapacityPopulationItem_valid :: "zone_db \<Rightarrow> CapacityPopulationItem \<Rightarrow> bool" where
  "CapacityPopulationItem_valid zones c =
     (CapacityPopulationItem_post_init c = Inr () \<and> StarvationObservation_valid zones (ci_observation c) \<and>
      (case ci_revalidation_evidence c of None \<Rightarrow> True | Some e \<Rightarrow> CapacityRevalidationEvidence_valid e))"

section \<open>Snapshots\<close>

record CapacitySnapshot =
  cs_observed_at :: string
  cs_urgency_policy :: UrgencyDeadlinePolicy
  cs_population :: "CapacityPopulationItem list"
  cs_urgent_path_state :: CapacityPathState

text \<open>The loop over the population, with the identities and versions seen so far.\<close>

fun check_population ::
  "CapacitySnapshot \<Rightarrow> string list \<Rightarrow> (string \<times> string) list \<Rightarrow> CapacityPopulationItem list \<Rightarrow> unit res" where
  "check_population s identities versions [] = Inr ()"
| "check_population s identities versions (c # cs) =
     require (so_policy (ci_observation c) = cs_urgency_policy s)
       (scheduling_error ''capacity item uses a different exact urgency policy'')
     (require (ui_observed_at (so_item (ci_observation c)) = cs_observed_at s)
       (scheduling_error ''capacity item observation time differs from snapshot'')
     (require (\<not> (ci_work_item_id c \<in> set identities \<or> identity_key c \<in> set versions))
       (scheduling_error ''duplicate or conflicting capacity population identity'')
     (check_population s (ci_work_item_id c # identities) (identity_key c # versions) cs)))"

definition CapacitySnapshot_post_init :: "CapacitySnapshot \<Rightarrow> unit res" where
  "CapacitySnapshot_post_init s =
     res_bind (parse_utc (cs_observed_at s)) (\<lambda>_.
     require (length (cs_population s) \<le> MAX_CAPACITY_POPULATION)
       (scheduling_error ''capacity population exceeds the bounded size'')
     (res_bind (check_population s [] [] (cs_population s)) (\<lambda>_.
     require (map identity_key (cs_population s) = sort (map identity_key (cs_population s)))
       (scheduling_error ''capacity population must use canonical identity order'') (Inr ()))))"

definition snapshot_items ::
  "CapacityWorkState \<Rightarrow> CapacityClass \<Rightarrow> CapacitySnapshot \<Rightarrow> CapacityPopulationItem list" where
  "snapshot_items state class s =
     filter (\<lambda>c. ci_state c = state \<and> ci_capacity_class c = class) (cs_population s)"

definition active_urgent_slots :: "CapacitySnapshot \<Rightarrow> int" where
  "active_urgent_slots s = int (length (snapshot_items ACTIVE URGENT_RESERVED s))"
definition active_ordinary_slots :: "CapacitySnapshot \<Rightarrow> int" where
  "active_ordinary_slots s = int (length (snapshot_items ACTIVE ORDINARY s))"
definition pending_urgent :: "CapacitySnapshot \<Rightarrow> int" where
  "pending_urgent s = int (length (snapshot_items PENDING URGENT_RESERVED s))"
definition pending_ordinary :: "CapacitySnapshot \<Rightarrow> int" where
  "pending_ordinary s = int (length (snapshot_items PENDING ORDINARY s))"

definition CapacitySnapshot_value :: "CapacitySnapshot \<Rightarrow> pyval" where
  "CapacitySnapshot_value s = obj [
     (''observed_at'', jtext (cs_observed_at s)),
     (''urgency_policy'', UrgencyDeadlinePolicy_value (cs_urgency_policy s)),
     (''urgency_policy_digest'', jtext (urgency_policy_digest (cs_urgency_policy s))),
     (''population'', jlist (map CapacityPopulationItem_value (cs_population s))),
     (''urgent_path_state'', jtext (CapacityPathState_value (cs_urgent_path_state s))),
     (''active_urgent_slots'', jnum (active_urgent_slots s)),
     (''active_ordinary_slots'', jnum (active_ordinary_slots s)),
     (''pending_urgent'', jnum (pending_urgent s)),
     (''pending_ordinary'', jnum (pending_ordinary s))]"

definition snapshot_malformed :: exn where
  "snapshot_malformed = scheduling_error ''capacity snapshot is malformed''"

definition CapacitySnapshot_read :: "zone_db \<Rightarrow> json \<Rightarrow> CapacitySnapshot res" where
  "CapacitySnapshot_read zones j =
     require (strict_keys [''observed_at'', ''urgency_policy'', ''urgency_policy_digest'', ''population'',
         ''urgent_path_state'', ''active_urgent_slots'', ''active_ordinary_slots'', ''pending_urgent'',
         ''pending_ordinary''] j)
       (scheduling_error ''capacity_snapshot keys are not exact'')
     (require (is_object (jfield ''urgency_policy'' j))
       (scheduling_error ''capacity snapshot urgency policy must be an object'')
     (res_bind (as_list (scheduling_error ''capacity population must be an array of objects'') (jfield ''population'' j)) (\<lambda>raw.
     require (list_all is_object raw) (scheduling_error ''capacity population must be an array of objects'')
     (res_bind (malformed ''capacity snapshot is malformed''
       (res_bind (UrgencyDeadlinePolicy_read (jfield ''urgency_policy'' j)) (\<lambda>policy.
        res_bind (as_text snapshot_malformed (jfield ''observed_at'' j)) (\<lambda>observed.
        res_bind (res_map (CapacityPopulationItem_read zones) raw) (\<lambda>population.
        res_bind (enum_of CapacityPathState_value CapacityPathState_members snapshot_malformed
          (jfield ''urgent_path_state'' j)) (\<lambda>path.
        let s = \<lparr>cs_observed_at = observed, cs_urgency_policy = policy, cs_population = population,
          cs_urgent_path_state = path\<rparr>
        in res_bind (CapacitySnapshot_post_init s) (\<lambda>_. Inr s))))))) (\<lambda>s.
     require (jfield ''urgency_policy_digest'' j = jstr (urgency_policy_digest (cs_urgency_policy s)))
       (scheduling_error ''capacity snapshot urgency policy digest differs'')
     (require (jfield ''active_urgent_slots'' j = JInt (active_urgent_slots s) \<and>
         jfield ''active_ordinary_slots'' j = JInt (active_ordinary_slots s) \<and>
         jfield ''pending_urgent'' j = JInt (pending_urgent s) \<and>
         jfield ''pending_ordinary'' j = JInt (pending_ordinary s))
       (scheduling_error ''capacity snapshot derived count differs'') (Inr s)))))))"

definition CapacitySnapshot_valid :: "zone_db \<Rightarrow> CapacitySnapshot \<Rightarrow> bool" where
  "CapacitySnapshot_valid zones s =
     (CapacitySnapshot_post_init s = Inr () \<and> UrgencyDeadlinePolicy_valid (cs_urgency_policy s) \<and>
      list_all (CapacityPopulationItem_valid zones) (cs_population s))"

section \<open>Allocation\<close>

record CapacityItemAllocation =
  ca_item :: CapacityPopulationItem
  ca_disposition :: CapacityAllocationDisposition
  ca_protected_routine_grant :: bool

definition protected_eligible :: "CapacityPopulationItem \<Rightarrow> bool" where
  "protected_eligible c =
     (ci_lane c = ROUTINE \<and> so_starvation_state (ci_observation c) = STARVED \<and>
      ci_revalidation_result c = Some REVALIDATED)"

definition CapacityItemAllocation_post_init :: "CapacityItemAllocation \<Rightarrow> unit res" where
  "CapacityItemAllocation_post_init a =
     require (ci_state (ca_item a) = PENDING)
       (scheduling_error ''capacity allocation must bind one pending item'')
     (require (\<not> (ca_protected_routine_grant a \<and>
         (ca_disposition a \<noteq> GRANTED \<or> \<not> protected_eligible (ca_item a))))
       (scheduling_error ''protected Routine grant is not eligible'') (Inr ()))"

definition canonical_pending :: "CapacityPopulationItem list \<Rightarrow> CapacityPopulationItem list" where
  "canonical_pending items = sort_key (\<lambda>c. so_order_key (ci_observation c)) items"

definition capacity_eligible :: "CapacityPopulationItem \<Rightarrow> bool" where
  "capacity_eligible c = (ci_revalidation_result c \<in> {None, Some REVALIDATED})"

definition urgent_limit :: "ReservedCapacityPolicy \<Rightarrow> CapacitySnapshot \<Rightarrow> int \<Rightarrow> int" where
  "urgent_limit p s available =
     (if cs_urgent_path_state s \<noteq> AVAILABLE then 0
      else min available (max_urgent_slots p - active_urgent_slots s))"

definition select_urgent :: "ReservedCapacityPolicy \<Rightarrow> CapacitySnapshot \<Rightarrow> int \<Rightarrow> CapacityPopulationItem list" where
  "select_urgent p s available =
     take (nat (urgent_limit p s available))
       (filter capacity_eligible (canonical_pending (snapshot_items PENDING URGENT_RESERVED s)))"

definition protected_item :: "CapacitySnapshot \<Rightarrow> CapacityPopulationItem option" where
  "protected_item s =
     find protected_eligible
       (filter capacity_eligible (canonical_pending (snapshot_items PENDING ORDINARY s)))"

definition select_ordinary :: "CapacitySnapshot \<Rightarrow> int \<Rightarrow> CapacityPopulationItem list" where
  "select_ordinary s limit =
     (let eligible = filter capacity_eligible (canonical_pending (snapshot_items PENDING ORDINARY s));
          first = (case protected_item s of
                     Some c \<Rightarrow> if limit \<noteq> 0 then [c] else []
                   | None \<Rightarrow> [])
      in take (nat limit) (first @ filter (\<lambda>c. Some c \<noteq> protected_item s) eligible))"

definition allocate_item ::
  "CapacitySnapshot \<Rightarrow> (string \<times> string) list \<Rightarrow> CapacityPopulationItem \<Rightarrow> CapacityItemAllocation res" where
  "allocate_item s selected c =
     (let disposition =
        (if ci_capacity_class c = URGENT_RESERVED \<and> cs_urgent_path_state s \<noteq> AVAILABLE
         then URGENT_VISIBLE_OPERATIONAL_HOLD
         else if identity_key c \<in> set selected then GRANTED
         else CAPACITY_DEFERRED);
        a = \<lparr>ca_item = c, ca_disposition = disposition,
          ca_protected_routine_grant = (protected_item s = Some c \<and> disposition = GRANTED)\<rparr>
      in res_bind (CapacityItemAllocation_post_init a) (\<lambda>_. Inr a))"

definition granted :: "CapacityItemAllocation list \<Rightarrow> CapacityItemAllocation list" where
  "granted allocations = filter (\<lambda>a. ca_disposition a = GRANTED) allocations"

definition capacity_values ::
  "ReservedCapacityPolicy \<Rightarrow> CapacitySnapshot \<Rightarrow> (CapacityItemAllocation list \<times> int) res" where
  "capacity_values p s =
     (let active_total = active_urgent_slots s + active_ordinary_slots s in
      require (active_total \<le> rp_total_slots p) (scheduling_error ''active work exceeds total capacity'')
      (require (active_urgent_slots s \<le> max_urgent_slots p)
        (scheduling_error ''active Urgent work consumed ordinary reserve'')
      (require (active_ordinary_slots s \<le> ordinary_capacity_ceiling p)
        (scheduling_error ''active ordinary work consumed Urgent reserve'')
      (let available = rp_total_slots p - active_total;
           urgent_selected = remdups (map identity_key (select_urgent p s available));
           remaining = available - int (length urgent_selected);
           ordinary_limit = min remaining (ordinary_capacity_ceiling p - active_ordinary_slots s);
           ordinary_selected = map identity_key (select_ordinary s ordinary_limit);
           pending = canonical_pending (snapshot_items PENDING URGENT_RESERVED s)
             @ canonical_pending (snapshot_items PENDING ORDINARY s)
       in res_bind (res_map (allocate_item s (urgent_selected @ ordinary_selected)) pending) (\<lambda>allocations.
          Inr (allocations, available - int (length (granted allocations))))))))"

section \<open>Decisions\<close>

record ReservedCapacityDecision =
  cd_policy :: ReservedCapacityPolicy
  cd_snapshot :: CapacitySnapshot
  cd_allocations :: "CapacityItemAllocation list"
  cd_unallocated_slots :: int
  cd_authority :: string
  cd_effect :: string
  cd_production_activation_authorised :: bool

definition ReservedCapacityDecision_post_init :: "ReservedCapacityDecision \<Rightarrow> unit res" where
  "ReservedCapacityDecision_post_init d =
     res_bind (require_non_negative_int (cd_unallocated_slots d)) (\<lambda>_.
     res_bind (capacity_values (cd_policy d) (cd_snapshot d)) (\<lambda>expected.
     require ((cd_allocations d, cd_unallocated_slots d) = expected)
       (scheduling_error ''capacity decision differs from deterministic policy'')
     (require (cd_authority d = ''NONE'' \<and> cd_effect d = ''NONE'' \<and> \<not> cd_production_activation_authorised d)
       (scheduling_error ''capacity decision cannot claim authority, effect or activation'') (Inr ()))))"

definition granted_items :: "ReservedCapacityDecision \<Rightarrow> CapacityPopulationItem list" where
  "granted_items d = map ca_item (granted (cd_allocations d))"

definition class_grants :: "CapacityClass \<Rightarrow> ReservedCapacityDecision \<Rightarrow> int" where
  "class_grants class d = int (length (filter (\<lambda>c. ci_capacity_class c = class) (granted_items d)))"

definition urgent_grants :: "ReservedCapacityDecision \<Rightarrow> int" where
  "urgent_grants d = class_grants URGENT_RESERVED d"
definition ordinary_grants :: "ReservedCapacityDecision \<Rightarrow> int" where
  "ordinary_grants d = class_grants ORDINARY d"
definition active_after_urgent :: "ReservedCapacityDecision \<Rightarrow> int" where
  "active_after_urgent d = active_urgent_slots (cd_snapshot d) + urgent_grants d"
definition active_after_ordinary :: "ReservedCapacityDecision \<Rightarrow> int" where
  "active_after_ordinary d = active_ordinary_slots (cd_snapshot d) + ordinary_grants d"

definition urgent_disposition :: "ReservedCapacityDecision \<Rightarrow> ReservedCapacityDisposition" where
  "urgent_disposition d =
     (let pending = filter (\<lambda>a. ci_capacity_class (ca_item a) = URGENT_RESERVED) (cd_allocations d) in
      if pending = [] then NO_PENDING_WORK
      else if list_ex (\<lambda>a. ca_disposition a = GRANTED) pending then ADMITTED
      else if list_ex (\<lambda>a. ca_disposition a = URGENT_VISIBLE_OPERATIONAL_HOLD) pending
        then ALL_URGENT_VISIBLE_OPERATIONAL_HOLD
      else ALL_CAPACITY_DEFERRED)"

definition ordinary_disposition :: "ReservedCapacityDecision \<Rightarrow> ReservedCapacityDisposition" where
  "ordinary_disposition d =
     (let pending = filter (\<lambda>a. ci_capacity_class (ca_item a) = ORDINARY) (cd_allocations d) in
      if pending = [] then NO_PENDING_WORK
      else if list_ex (\<lambda>a. ca_disposition a = GRANTED) pending then ADMITTED
      else ALL_CAPACITY_DEFERRED)"

definition allocate_reserved_capacity ::
  "ReservedCapacityPolicy \<Rightarrow> CapacitySnapshot \<Rightarrow> ReservedCapacityDecision res" where
  "allocate_reserved_capacity p s =
     res_bind (capacity_values p s) (\<lambda>(allocations, unallocated).
     let d = \<lparr>cd_policy = p, cd_snapshot = s, cd_allocations = allocations,
       cd_unallocated_slots = unallocated, cd_authority = ''NONE'', cd_effect = ''NONE'',
       cd_production_activation_authorised = False\<rparr>
     in res_bind (ReservedCapacityDecision_post_init d) (\<lambda>_. Inr d))"

definition CapacityItemAllocation_value :: "CapacityItemAllocation \<Rightarrow> pyval" where
  "CapacityItemAllocation_value a = obj [
     (''work_item_id'', jtext (ci_work_item_id (ca_item a))),
     (''work_item_version_id'', jtext (ci_work_item_version_id (ca_item a))),
     (''work_item_version_digest'', jtext (ci_work_item_version_digest (ca_item a))),
     (''priority_selection_digest'', jtext (record_digest (PrioritySelection_value (ci_priority_selection (ca_item a))))),
     (''observation_digest'', jtext (decision_digest (ci_observation (ca_item a)))),
     (''lane'', jtext (PriorityLane_value (ci_lane (ca_item a)))),
     (''capacity_class'', jtext (CapacityClass_value (ci_capacity_class (ca_item a)))),
     (''disposition'', jtext (CapacityAllocationDisposition_value (ca_disposition a))),
     (''revalidation_result'',
       jopt (map_option CapacityRevalidationResult_value (ci_revalidation_result (ca_item a)))),
     (''revalidation_evidence_digest'', jopt (map_option evidence_digest (ci_revalidation_evidence (ca_item a)))),
     (''protected_routine_grant'', jflag (ca_protected_routine_grant a))]"

definition item_keys_value :: "CapacityPopulationItem \<Rightarrow> pyval" where
  "item_keys_value c =
     jlist [jtext (ci_work_item_id c), jtext (ci_work_item_version_id c), jtext (ci_work_item_version_digest c)]"

definition ReservedCapacityDecision_value :: "ReservedCapacityDecision \<Rightarrow> pyval" where
  "ReservedCapacityDecision_value d = obj [
     (''schema_version'', jtext SCHEDULING_POLICY_SCHEMA_VERSION),
     (''record_type'', jtext ''reserved_capacity_decision''),
     (''policy'', ReservedCapacityPolicy_value (cd_policy d)),
     (''policy_digest'', jtext (capacity_policy_digest (cd_policy d))),
     (''snapshot'', CapacitySnapshot_value (cd_snapshot d)),
     (''allocations'', jlist (map CapacityItemAllocation_value (cd_allocations d))),
     (''granted_item_keys'', jlist (map item_keys_value (granted_items d))),
     (''urgent_grants'', jnum (urgent_grants d)),
     (''ordinary_grants'', jnum (ordinary_grants d)),
     (''unallocated_slots'', jnum (cd_unallocated_slots d)),
     (''active_after_urgent'', jnum (active_after_urgent d)),
     (''active_after_ordinary'', jnum (active_after_ordinary d)),
     (''urgent_disposition'', jtext (ReservedCapacityDisposition_value (urgent_disposition d))),
     (''ordinary_disposition'', jtext (ReservedCapacityDisposition_value (ordinary_disposition d))),
     (''downgraded_urgent_to_ordinary'', jflag False),
     (''authority'', jtext (cd_authority d)),
     (''effect'', jtext (cd_effect d)),
     (''production_activation_authorised'', jflag (cd_production_activation_authorised d))]"

definition decision_malformed :: exn where
  "decision_malformed = scheduling_error ''reserved capacity decision is malformed''"

definition ReservedCapacityDecision_read :: "zone_db \<Rightarrow> json \<Rightarrow> ReservedCapacityDecision res" where
  "ReservedCapacityDecision_read zones j =
     require (strict_keys [''schema_version'', ''record_type'', ''policy'', ''policy_digest'', ''snapshot'',
         ''allocations'', ''granted_item_keys'', ''urgent_grants'', ''ordinary_grants'', ''unallocated_slots'',
         ''active_after_urgent'', ''active_after_ordinary'', ''urgent_disposition'', ''ordinary_disposition'',
         ''downgraded_urgent_to_ordinary'', ''authority'', ''effect'', ''production_activation_authorised''] j)
       (scheduling_error ''reserved_capacity_decision keys are not exact'')
     (require (jfield ''schema_version'' j = jstr SCHEDULING_POLICY_SCHEMA_VERSION \<and>
         jfield ''record_type'' j = jstr ''reserved_capacity_decision'')
       (scheduling_error ''reserved capacity decision schema differs'')
     (require (is_object (jfield ''policy'' j) \<and> is_object (jfield ''snapshot'' j) \<and>
         (case jfield ''allocations'' j of JArr _ \<Rightarrow> True | _ \<Rightarrow> False))
       (scheduling_error ''capacity decision nested values are malformed'')
     (res_bind (ReservedCapacityPolicy_read (jfield ''policy'' j)) (\<lambda>policy.
     res_bind (CapacitySnapshot_read zones (jfield ''snapshot'' j)) (\<lambda>snapshot.
     require (jfield ''policy_digest'' j = jstr (capacity_policy_digest policy))
       (scheduling_error ''capacity policy digest differs'')
     (res_bind (capacity_values policy snapshot) (\<lambda>expected.
     malformed ''reserved capacity decision is malformed''
       (res_bind (as_int decision_malformed (jfield ''unallocated_slots'' j)) (\<lambda>unallocated.
        res_bind (as_text decision_malformed (jfield ''authority'' j)) (\<lambda>authority.
        res_bind (as_text decision_malformed (jfield ''effect'' j)) (\<lambda>effect.
        res_bind (as_flag decision_malformed (jfield ''production_activation_authorised'' j)) (\<lambda>active.
        let d = \<lparr>cd_policy = policy, cd_snapshot = snapshot, cd_allocations = fst expected,
          cd_unallocated_slots = unallocated, cd_authority = authority, cd_effect = effect,
          cd_production_activation_authorised = active\<rparr>
        in res_bind (ReservedCapacityDecision_post_init d) (\<lambda>_. Inr d)))))))))))))"

definition ReservedCapacityDecision_from_canonical_bytes :: "zone_db \<Rightarrow> bytes \<Rightarrow> ReservedCapacityDecision res" where
  "ReservedCapacityDecision_from_canonical_bytes zones raw =
     res_bind (decode_canonical_object raw) (\<lambda>j.
     res_bind (ReservedCapacityDecision_read zones j) (\<lambda>d.
     res_bind (canonical_json_bytes (ReservedCapacityDecision_value d)) (\<lambda>b.
     require (b = raw) (scheduling_error ''reserved capacity decision is not canonical'') (Inr d))))"

definition ReservedCapacityDecision_valid :: "zone_db \<Rightarrow> ReservedCapacityDecision \<Rightarrow> bool" where
  "ReservedCapacityDecision_valid zones d =
     (ReservedCapacityDecision_post_init d = Inr () \<and> ReservedCapacityPolicy_valid (cd_policy d) \<and>
      CapacitySnapshot_valid zones (cd_snapshot d))"

end
