(* ===== verification/Capacity_Facts.thy ===== *)
theory Capacity_Facts
  imports Capacity
begin

text \<open>
  What the allocation of reserved capacity computes. \<open>capacity_values_Inr\<close> says when it returns and what
  the disposition of every pending member is; the rest follows: the counts of granted members, that a
  class is served in the order of the keys, and that no usable slot stays free.
\<close>

section \<open>Populations\<close>

lemma check_population_Inr:
  "check_population s is vs cs = Inr () \<longleftrightarrow>
     (\<forall>c \<in> set cs. so_policy (ci_observation c) = cs_urgency_policy s \<and>
        ui_observed_at (so_item (ci_observation c)) = cs_observed_at s) \<and>
     distinct (map ci_work_item_id cs) \<and> distinct (map identity_key cs) \<and>
     set (map ci_work_item_id cs) \<inter> set is = {} \<and> set (map identity_key cs) \<inter> set vs = {}"
  by (induction cs arbitrary: "is" vs) (auto simp: res_simps)

lemma snapshot_keys:
  assumes "CapacitySnapshot_post_init s = Inr ()"
  shows "distinct (map identity_key (cs_population s))" and "length (cs_population s) \<le> 48"
    and "\<And>c. c \<in> set (cs_population s) \<Longrightarrow> so_policy (ci_observation c) = cs_urgency_policy s"
    and "\<And>c. c \<in> set (cs_population s) \<Longrightarrow> ui_observed_at (so_item (ci_observation c)) = cs_observed_at s"
  using assms
  by (auto simp: CapacitySnapshot_post_init_def res_simps check_population_Inr MAX_CAPACITY_POPULATION_def)

abbreviation pending_of :: "CapacityClass \<Rightarrow> CapacitySnapshot \<Rightarrow> CapacityPopulationItem list" where
  "pending_of class s \<equiv> canonical_pending (snapshot_items PENDING class s)"

lemma set_canonical_pending [simp]: "set (canonical_pending cs) = set cs"
  by (simp add: canonical_pending_def)

lemma pending_of_set: "c \<in> set (pending_of class s) \<longleftrightarrow>
    c \<in> set (cs_population s) \<and> ci_state c = PENDING \<and> ci_capacity_class c = class"
  by (auto simp: snapshot_items_def)

lemma pending_of_sorted: "sorted (map (\<lambda>c. so_order_key (ci_observation c)) (pending_of class s))"
  by (simp add: canonical_pending_def)

lemma same_member:
  assumes "distinct (map identity_key (cs_population s))"
    and "c \<in> set (cs_population s)" and "c' \<in> set (cs_population s)" and "identity_key c = identity_key c'"
  shows "c = c'"
  using distinct_map_unique [OF assms] .

lemma pending_of_distinct:
  assumes "distinct (map identity_key (cs_population s))"
  shows "distinct (pending_of class s)"
proof -
  have "distinct (cs_population s)" using assms by (simp add: distinct_map)
  then show ?thesis by (simp add: canonical_pending_def snapshot_items_def)
qed

section \<open>The first so many\<close>

lemma taken_first:
  assumes "sorted (map k xs)" and "x \<in> set xs" and "x \<notin> set (take n xs)"
  shows "length (take n xs) = n" and "y \<in> set (take n xs) \<Longrightarrow> k y \<le> k x"
proof -
  have x: "x \<in> set (drop n xs)" using assms(2,3) by (metis Un_iff append_take_drop_id set_append)
  then show "length (take n xs) = n" by (cases "n \<le> length xs") auto
  have "sorted (map k (take n xs) @ map k (drop n xs))"
    using assms(1) by (metis append_take_drop_id map_append)
  then show "y \<in> set (take n xs) \<Longrightarrow> k y \<le> k x" using x by (auto simp: sorted_append)
qed

lemma take_filter_subset: "c \<in> set (take n (filter P xs)) \<Longrightarrow> c \<in> set xs \<and> P c"
  by (metis filter_is_subset in_set_takeD mem_Collect_eq set_filter subsetD)

section \<open>Selections\<close>

lemma select_urgent_pending:
  "c \<in> set (select_urgent p s n) \<Longrightarrow> c \<in> set (pending_of URGENT_RESERVED s) \<and> capacity_eligible c"
  unfolding select_urgent_def by (rule take_filter_subset)

lemma protected_item_Some:
  "protected_item s = Some c \<Longrightarrow> c \<in> set (pending_of ORDINARY s) \<and> capacity_eligible c \<and> protected_eligible c"
  unfolding protected_item_def using find_Some_iff_split by fastforce

lemma protected_eligible_capacity: "protected_eligible c \<Longrightarrow> capacity_eligible c"
  by (simp add: protected_eligible_def capacity_eligible_def)

definition ordinary_queue :: "CapacitySnapshot \<Rightarrow> int \<Rightarrow> CapacityPopulationItem list" where
  "ordinary_queue s limit =
     (case protected_item s of Some c \<Rightarrow> if limit \<noteq> 0 then [c] else [] | None \<Rightarrow> [])
       @ filter (\<lambda>c. Some c \<noteq> protected_item s) (filter capacity_eligible (pending_of ORDINARY s))"

lemma select_ordinary_queue: "select_ordinary s limit = take (nat limit) (ordinary_queue s limit)"
  by (simp add: select_ordinary_def ordinary_queue_def Let_def)

lemma ordinary_queue_set: "limit \<noteq> 0 \<Longrightarrow>
    set (ordinary_queue s limit) = {c \<in> set (pending_of ORDINARY s). capacity_eligible c}"
  using protected_item_Some [of s] by (auto simp: ordinary_queue_def split: option.splits)

lemma ordinary_queue_pending: "c \<in> set (ordinary_queue s limit) \<Longrightarrow>
    c \<in> set (pending_of ORDINARY s) \<and> capacity_eligible c"
  using protected_item_Some [of s] by (auto simp: ordinary_queue_def split: option.splits if_splits)

lemma ordinary_queue_distinct:
  "distinct (map identity_key (cs_population s)) \<Longrightarrow> distinct (ordinary_queue s limit)"
  using pending_of_distinct [of s ORDINARY] by (auto simp: ordinary_queue_def split: option.splits)

lemma select_ordinary_pending:
  "c \<in> set (select_ordinary s n) \<Longrightarrow> c \<in> set (pending_of ORDINARY s) \<and> capacity_eligible c"
  unfolding select_ordinary_queue using in_set_takeD ordinary_queue_pending by metis

lemma select_distinct:
  assumes "distinct (map identity_key (cs_population s))"
  shows "distinct (select_urgent p s n)" and "distinct (select_ordinary s n)"
  using pending_of_distinct [OF assms] ordinary_queue_distinct [OF assms]
  by (simp_all add: select_urgent_def select_ordinary_queue)

section \<open>What the allocation returns\<close>

text \<open>The free slots, the slots left to ordinary work and the members that get one.\<close>

definition free_slots :: "ReservedCapacityPolicy \<Rightarrow> CapacitySnapshot \<Rightarrow> int" where
  "free_slots p s = rp_total_slots p - (active_urgent_slots s + active_ordinary_slots s)"

definition urgent_chosen :: "ReservedCapacityPolicy \<Rightarrow> CapacitySnapshot \<Rightarrow> CapacityPopulationItem list" where
  "urgent_chosen p s = select_urgent p s (free_slots p s)"

definition ordinary_limit :: "ReservedCapacityPolicy \<Rightarrow> CapacitySnapshot \<Rightarrow> int" where
  "ordinary_limit p s = min (free_slots p s - int (length (urgent_chosen p s)))
     (ordinary_capacity_ceiling p - active_ordinary_slots s)"

definition ordinary_chosen :: "ReservedCapacityPolicy \<Rightarrow> CapacitySnapshot \<Rightarrow> CapacityPopulationItem list" where
  "ordinary_chosen p s = select_ordinary s (ordinary_limit p s)"

definition within_reserves :: "ReservedCapacityPolicy \<Rightarrow> CapacitySnapshot \<Rightarrow> bool" where
  "within_reserves p s =
     (active_urgent_slots s + active_ordinary_slots s \<le> rp_total_slots p \<and>
      active_urgent_slots s \<le> max_urgent_slots p \<and> active_ordinary_slots s \<le> ordinary_capacity_ceiling p)"

definition disposition_of ::
  "ReservedCapacityPolicy \<Rightarrow> CapacitySnapshot \<Rightarrow> CapacityPopulationItem \<Rightarrow> CapacityAllocationDisposition" where
  "disposition_of p s c =
     (if ci_capacity_class c = URGENT_RESERVED \<and> cs_urgent_path_state s \<noteq> AVAILABLE
      then URGENT_VISIBLE_OPERATIONAL_HOLD
      else if c \<in> set (urgent_chosen p s @ ordinary_chosen p s) then GRANTED
      else CAPACITY_DEFERRED)"

definition allocation_of ::
  "ReservedCapacityPolicy \<Rightarrow> CapacitySnapshot \<Rightarrow> CapacityPopulationItem \<Rightarrow> CapacityItemAllocation" where
  "allocation_of p s c = \<lparr>ca_item = c, ca_disposition = disposition_of p s c,
     ca_protected_routine_grant = (protected_item s = Some c \<and> disposition_of p s c = GRANTED)\<rparr>"

lemma chosen_pending:
  "c \<in> set (urgent_chosen p s) \<Longrightarrow> c \<in> set (pending_of URGENT_RESERVED s) \<and> capacity_eligible c"
  "c \<in> set (ordinary_chosen p s) \<Longrightarrow> c \<in> set (pending_of ORDINARY s) \<and> capacity_eligible c"
  by (simp_all only: urgent_chosen_def ordinary_chosen_def select_urgent_pending select_ordinary_pending)

lemma allocate_item_chosen:
  assumes d: "distinct (map identity_key (cs_population s))"
    and c: "c \<in> set (pending_of class s)"
    and sel: "set keys = identity_key ` set (urgent_chosen p s @ ordinary_chosen p s)"
  shows "allocate_item s keys c = Inr (allocation_of p s c)"
proof -
  have "identity_key c \<in> set keys \<longleftrightarrow> c \<in> set (urgent_chosen p s @ ordinary_chosen p s)"
  proof
    assume "identity_key c \<in> set keys"
    then obtain c' where c': "c' \<in> set (urgent_chosen p s @ ordinary_chosen p s)" "identity_key c = identity_key c'"
      using sel by auto
    then have "c' \<in> set (cs_population s)" using chosen_pending pending_of_set by auto
    with d c c' show "c \<in> set (urgent_chosen p s @ ordinary_chosen p s)"
      using same_member pending_of_set by metis
  qed (simp add: sel)
  moreover have "ci_state c = PENDING" using c by (simp only: pending_of_set)
  moreover have "protected_item s = Some c \<Longrightarrow> protected_eligible c" using protected_item_Some by blast
  ultimately show ?thesis
    by (auto simp: allocate_item_def allocation_of_def disposition_of_def CapacityItemAllocation_post_init_def
        Let_def res_simps res_bind_def require_def)
qed

definition allocations_of :: "ReservedCapacityPolicy \<Rightarrow> CapacitySnapshot \<Rightarrow> CapacityItemAllocation list" where
  "allocations_of p s = map (allocation_of p s) (pending_of URGENT_RESERVED s @ pending_of ORDINARY s)"

lemma chosen_keys_distinct:
  assumes d: "distinct (map identity_key (cs_population s))"
  shows "distinct (map identity_key (urgent_chosen p s))"
proof -
  have "inj_on identity_key (set (urgent_chosen p s))"
  proof (rule inj_onI)
    fix a b assume a: "a \<in> set (urgent_chosen p s)" and b: "b \<in> set (urgent_chosen p s)"
      and eq: "identity_key a = identity_key b"
    have "a \<in> set (cs_population s)" "b \<in> set (cs_population s)"
      using chosen_pending(1) [OF a] chosen_pending(1) [OF b] pending_of_set by blast+
    from same_member [OF d this eq] show "a = b" .
  qed
  moreover have "distinct (urgent_chosen p s)"
    unfolding urgent_chosen_def by (rule select_distinct(1) [OF d])
  ultimately show ?thesis by (simp add: distinct_map)
qed

lemma capacity_values_within:
  assumes d: "distinct (map identity_key (cs_population s))" and w: "within_reserves p s"
  shows "capacity_values p s = Inr (allocations_of p s, free_slots p s - int (length (granted (allocations_of p s))))"
proof -
  let ?u = "remdups (map identity_key (urgent_chosen p s))"
  let ?o = "map identity_key (ordinary_chosen p s)"
  have "length ?u = length (urgent_chosen p s)"
    using chosen_keys_distinct [OF d] by (simp add: distinct_remdups_id)
  then have limit: "min (free_slots p s - int (length ?u)) (ordinary_capacity_ceiling p - active_ordinary_slots s)
      = ordinary_limit p s"
    by (simp add: ordinary_limit_def)
  have one: "allocate_item s (?u @ ?o) c = Inr (allocation_of p s c)"
    if "c \<in> set (pending_of URGENT_RESERVED s @ pending_of ORDINARY s)" for c
  proof -
    have "set (?u @ ?o) = identity_key ` set (urgent_chosen p s @ ordinary_chosen p s)" by (simp add: image_Un)
    with that show ?thesis using allocate_item_chosen [OF d] by (metis Un_iff set_append)
  qed
  have "res_map (allocate_item s (?u @ ?o)) cs = Inr (map (allocation_of p s) cs)"
    if "set cs \<subseteq> set (pending_of URGENT_RESERVED s @ pending_of ORDINARY s)" for cs
    using that by (induction cs) (simp_all add: one)
  then have all: "res_map (allocate_item s (?u @ ?o)) (pending_of URGENT_RESERVED s @ pending_of ORDINARY s)
      = Inr (allocations_of p s)"
    by (simp add: allocations_of_def)
  have "capacity_values p s = res_bind
      (res_map (allocate_item s (?u @ ?o)) (pending_of URGENT_RESERVED s @ pending_of ORDINARY s))
      (\<lambda>as. Inr (as, free_slots p s - int (length (granted as))))"
    using w unfolding capacity_values_def Let_def within_reserves_def
    by (simp add: free_slots_def [symmetric] urgent_chosen_def [symmetric] limit ordinary_chosen_def [symmetric])
  then show ?thesis by (simp only: all res_bind_simps)
qed

lemma capacity_values_outside:
  "\<not> within_reserves p s \<Longrightarrow> \<exists>m. capacity_values p s = Inl (scheduling_error m)"
  by (auto simp: capacity_values_def within_reserves_def Let_def require_def)

section \<open>Counting\<close>

lemma limits_nonneg:
  assumes "within_reserves p s"
  shows "0 \<le> urgent_limit p s (free_slots p s)" and "0 \<le> ordinary_limit p s"
    and "int (length (urgent_chosen p s)) \<le> urgent_limit p s (free_slots p s)"
    and "int (length (ordinary_chosen p s)) \<le> ordinary_limit p s"
proof -
  show u: "0 \<le> urgent_limit p s (free_slots p s)"
    using assms by (simp add: urgent_limit_def within_reserves_def free_slots_def)
  then show l: "int (length (urgent_chosen p s)) \<le> urgent_limit p s (free_slots p s)"
    by (simp add: urgent_chosen_def select_urgent_def)
  moreover have "urgent_limit p s (free_slots p s) \<le> free_slots p s"
    using assms by (simp add: urgent_limit_def within_reserves_def free_slots_def)
  ultimately show o: "0 \<le> ordinary_limit p s"
    using assms by (simp add: ordinary_limit_def within_reserves_def)
  then show "int (length (ordinary_chosen p s)) \<le> ordinary_limit p s"
    by (simp add: ordinary_chosen_def select_ordinary_queue)
qed

lemma urgent_hold_none: "cs_urgent_path_state s \<noteq> AVAILABLE \<Longrightarrow> urgent_chosen p s = []"
  by (simp add: urgent_chosen_def select_urgent_def urgent_limit_def)

lemma granted_members:
  "map ca_item (granted (allocations_of p s)) =
     filter (\<lambda>c. c \<in> set (urgent_chosen p s)) (pending_of URGENT_RESERVED s)
       @ filter (\<lambda>c. c \<in> set (ordinary_chosen p s)) (pending_of ORDINARY s)"
proof -
  have m: "map ca_item (granted (map (allocation_of p s) cs)) = filter (\<lambda>c. disposition_of p s c = GRANTED) cs" for cs
    by (induction cs) (simp_all add: granted_def allocation_of_def)
  have u: "disposition_of p s c = GRANTED \<longleftrightarrow> c \<in> set (urgent_chosen p s)"
    if "c \<in> set (pending_of URGENT_RESERVED s)" for c
  proof -
    have "ci_capacity_class c = URGENT_RESERVED" using that by (simp only: pending_of_set)
    moreover from this have "c \<notin> set (ordinary_chosen p s)"
      using chosen_pending(2) pending_of_set by fastforce
    ultimately show ?thesis using urgent_hold_none [of s p] by (auto simp: disposition_of_def)
  qed
  have o: "disposition_of p s c = GRANTED \<longleftrightarrow> c \<in> set (ordinary_chosen p s)"
    if "c \<in> set (pending_of ORDINARY s)" for c
  proof -
    have "ci_capacity_class c = ORDINARY" using that by (simp only: pending_of_set)
    moreover from this have "c \<notin> set (urgent_chosen p s)"
      using chosen_pending(1) pending_of_set by fastforce
    ultimately show ?thesis by (auto simp: disposition_of_def)
  qed
  show ?thesis
    unfolding allocations_of_def m filter_append
    by (intro arg_cong2 [where f = append] filter_cong refl) (erule u, erule o)
qed

lemma filter_chosen_length:
  "distinct xs \<Longrightarrow> distinct ys \<Longrightarrow> set ys \<subseteq> set xs \<Longrightarrow> length (filter (\<lambda>c. c \<in> set ys) xs) = length ys"
  by (metis distinct_card distinct_filter inf.absorb_iff2 inf_commute set_filter Collect_conj_eq Collect_mem_eq)

lemma granted_class:
  assumes d: "distinct (map identity_key (cs_population s))"
  shows "length (filter (\<lambda>c. ci_capacity_class c = URGENT_RESERVED) (map ca_item (granted (allocations_of p s))))
      = length (urgent_chosen p s)"
    and "length (filter (\<lambda>c. ci_capacity_class c = ORDINARY) (map ca_item (granted (allocations_of p s))))
      = length (ordinary_chosen p s)"
    and "length (granted (allocations_of p s)) = length (urgent_chosen p s) + length (ordinary_chosen p s)"
proof -
  let ?u = "filter (\<lambda>c. c \<in> set (urgent_chosen p s)) (pending_of URGENT_RESERVED s)"
  let ?o = "filter (\<lambda>c. c \<in> set (ordinary_chosen p s)) (pending_of ORDINARY s)"
  have du: "distinct (urgent_chosen p s)" and do: "distinct (ordinary_chosen p s)"
    by (simp_all only: urgent_chosen_def ordinary_chosen_def select_distinct [OF d])
  have u: "length ?u = length (urgent_chosen p s)"
    using chosen_pending(1) by (intro filter_chosen_length pending_of_distinct [OF d] du) blast
  have o: "length ?o = length (ordinary_chosen p s)"
    using chosen_pending(2) by (intro filter_chosen_length pending_of_distinct [OF d] do) blast
  have "filter (\<lambda>c. ci_capacity_class c = URGENT_RESERVED) ?u = ?u" "filter (\<lambda>c. ci_capacity_class c = ORDINARY) ?u = []"
    by (simp_all only: filter_id_conv filter_empty_conv) (auto simp: snapshot_items_def)
  moreover have "filter (\<lambda>c. ci_capacity_class c = ORDINARY) ?o = ?o" "filter (\<lambda>c. ci_capacity_class c = URGENT_RESERVED) ?o = []"
    by (simp_all only: filter_id_conv filter_empty_conv) (auto simp: snapshot_items_def)
  ultimately show "length (filter (\<lambda>c. ci_capacity_class c = URGENT_RESERVED) (map ca_item (granted (allocations_of p s))))
      = length (urgent_chosen p s)"
    "length (filter (\<lambda>c. ci_capacity_class c = ORDINARY) (map ca_item (granted (allocations_of p s))))
      = length (ordinary_chosen p s)"
    by (simp_all only: granted_members filter_append length_append u o append_Nil append_Nil2)
  have "length (granted (allocations_of p s)) = length (map ca_item (granted (allocations_of p s)))" by simp
  then show "length (granted (allocations_of p s)) = length (urgent_chosen p s) + length (ordinary_chosen p s)"
    by (simp only: granted_members length_append u o)
qed

section \<open>Order of service\<close>

abbreviation item_key :: "CapacityPopulationItem \<Rightarrow> order_key option" where
  "item_key c \<equiv> so_order_key (ci_observation c)"

lemma eligible_sorted: "sorted (map item_key (filter capacity_eligible (pending_of class s)))"
  using pending_of_sorted sorted_filter by blast

lemma urgent_in_order:
  assumes w: "within_reserves p s" and av: "cs_urgent_path_state s = AVAILABLE"
    and c: "c \<in> set (pending_of URGENT_RESERVED s)" "capacity_eligible c" "c \<notin> set (urgent_chosen p s)"
  shows "int (length (urgent_chosen p s)) = min (free_slots p s) (max_urgent_slots p - active_urgent_slots s)"
    and "g \<in> set (urgent_chosen p s) \<Longrightarrow> item_key g \<le> item_key c"
proof -
  let ?q = "filter capacity_eligible (pending_of URGENT_RESERVED s)"
  let ?n = "nat (urgent_limit p s (free_slots p s))"
  have ch: "urgent_chosen p s = take ?n ?q" by (simp add: urgent_chosen_def select_urgent_def)
  have q: "c \<in> set ?q" "c \<notin> set (take ?n ?q)" using c by (simp_all only: ch set_filter mem_Collect_eq simp_thms)
  note first = taken_first [OF eligible_sorted q]
  have "length (urgent_chosen p s) = ?n" using first(1) by (simp only: ch)
  then show "int (length (urgent_chosen p s)) = min (free_slots p s) (max_urgent_slots p - active_urgent_slots s)"
    using limits_nonneg(1) [OF w] av by (simp add: urgent_limit_def)
  show "item_key g \<le> item_key c" if "g \<in> set (urgent_chosen p s)"
    using first(2) that by (simp only: ch)
qed

lemma ordinary_in_order:
  assumes w: "within_reserves p s"
    and c: "c \<in> set (pending_of ORDINARY s)" "capacity_eligible c" "c \<notin> set (ordinary_chosen p s)"
  shows "int (length (ordinary_chosen p s)) = ordinary_limit p s"
    and "g \<in> set (ordinary_chosen p s) \<Longrightarrow> protected_item s = Some g \<or> item_key g \<le> item_key c"
proof -
  let ?rest = "filter (\<lambda>c. Some c \<noteq> protected_item s) (filter capacity_eligible (pending_of ORDINARY s))"
  have sorted: "sorted (map item_key ?rest)" using eligible_sorted sorted_filter by blast
  have "int (length (ordinary_chosen p s)) = ordinary_limit p s \<and>
      (g \<in> set (ordinary_chosen p s) \<longrightarrow> protected_item s = Some g \<or> item_key g \<le> item_key c)"
  proof (cases "ordinary_limit p s = 0")
    case True
    then show ?thesis by (simp add: ordinary_chosen_def select_ordinary_queue)
  next
    case False
    then obtain n where n: "nat (ordinary_limit p s) = Suc n" using limits_nonneg(2) [OF w] by (cases "nat (ordinary_limit p s)") auto
    then have lim: "ordinary_limit p s = int (Suc n)" by linarith
    show ?thesis
    proof (cases "protected_item s")
      case None
      then have ch: "ordinary_chosen p s = take (Suc n) ?rest"
        by (simp add: ordinary_chosen_def select_ordinary_queue ordinary_queue_def n)
      have q: "c \<in> set ?rest" using c None by simp
      have "c \<notin> set (take (Suc n) ?rest)" using c(3) unfolding ch .
      note first = taken_first [OF sorted q this]
      show ?thesis unfolding ch lim first(1) using first(2) by blast
    next
      case (Some f)
      then have ch: "ordinary_chosen p s = f # take n ?rest"
        using False by (simp add: ordinary_chosen_def select_ordinary_queue ordinary_queue_def n)
      have q: "c \<in> set ?rest" "c \<notin> set (take n ?rest)" using c Some by (auto simp: ch)
      from taken_first [OF sorted q] show ?thesis unfolding ch lim using Some by auto
    qed
  qed
  then show "int (length (ordinary_chosen p s)) = ordinary_limit p s"
    and "g \<in> set (ordinary_chosen p s) \<Longrightarrow> protected_item s = Some g \<or> item_key g \<le> item_key c"
    by blast+
qed

lemma protected_chosen:
  assumes "protected_item s = Some f" and "0 < ordinary_limit p s"
  shows "f \<in> set (ordinary_chosen p s)"
proof -
  obtain n where "nat (ordinary_limit p s) = Suc n" using assms(2) by (cases "nat (ordinary_limit p s)") auto
  then show ?thesis using assms by (simp add: ordinary_chosen_def select_ordinary_queue ordinary_queue_def)
qed

lemma find_first:
  "sorted (map k xs) \<Longrightarrow> find P xs = Some x \<Longrightarrow> y \<in> set xs \<Longrightarrow> P y \<Longrightarrow> k x \<le> k y"
  by (induction xs) (auto split: if_splits)

lemma protected_first:
  assumes "c \<in> set (pending_of ORDINARY s)" and "protected_eligible c"
  shows "\<exists>f. protected_item s = Some f \<and> item_key f \<le> item_key c"
proof -
  let ?q = "filter capacity_eligible (pending_of ORDINARY s)"
  have c: "c \<in> set ?q" using assms protected_eligible_capacity by auto
  then have "find protected_eligible ?q \<noteq> None" using assms(2) find_None_all by metis
  then obtain f where f: "find protected_eligible ?q = Some f" by blast
  then have "item_key f \<le> item_key c" using find_first [OF eligible_sorted f c assms(2)] by simp
  with f show ?thesis by (auto simp: protected_item_def)
qed

section \<open>Decisions\<close>

definition decision_of :: "ReservedCapacityPolicy \<Rightarrow> CapacitySnapshot \<Rightarrow> ReservedCapacityDecision" where
  "decision_of p s = \<lparr>cd_policy = p, cd_snapshot = s, cd_allocations = allocations_of p s,
     cd_unallocated_slots = free_slots p s - int (length (urgent_chosen p s) + length (ordinary_chosen p s)),
     cd_authority = ''NONE'', cd_effect = ''NONE'', cd_production_activation_authorised = False\<rparr>"

lemma policy_slots:
  assumes "ReservedCapacityPolicy_valid p"
  shows "0 < rp_total_slots p" "rp_total_slots p \<le> MAX_INTEGER" "0 < rp_urgent_reserved_slots p"
    "0 < rp_minimum_ordinary_slots p" "rp_urgent_reserved_slots p + rp_minimum_ordinary_slots p \<le> rp_total_slots p"
  using assms by (auto simp: ReservedCapacityPolicy_valid_def ReservedCapacityPolicy_post_init_def res_simps)

lemma unallocated_bounds:
  assumes "within_reserves p s"
  shows "0 \<le> cd_unallocated_slots (decision_of p s)"
    and "cd_unallocated_slots (decision_of p s) \<le> rp_total_slots p"
proof -
  have "int (length (ordinary_chosen p s)) \<le> free_slots p s - int (length (urgent_chosen p s))"
    using limits_nonneg(4) [OF assms] by (simp add: ordinary_limit_def)
  then show "0 \<le> cd_unallocated_slots (decision_of p s)" by (simp add: decision_of_def)
  have "free_slots p s \<le> rp_total_slots p"
    by (simp add: free_slots_def active_urgent_slots_def active_ordinary_slots_def)
  then show "cd_unallocated_slots (decision_of p s) \<le> rp_total_slots p" by (simp add: decision_of_def)
qed

lemma decision_values:
  assumes "distinct (map identity_key (cs_population s))" and "within_reserves p s"
  shows "capacity_values p s = Inr (allocations_of p s, cd_unallocated_slots (decision_of p s))"
  using capacity_values_within [OF assms] granted_class(3) [OF assms(1)] by (simp add: decision_of_def)

lemma allocate_within:
  assumes "ReservedCapacityPolicy_valid p" and "distinct (map identity_key (cs_population s))"
    and w: "within_reserves p s"
  shows "allocate_reserved_capacity p s = Inr (decision_of p s)"
proof -
  have "ReservedCapacityDecision_post_init (decision_of p s) = Inr ()"
    using decision_values [OF assms(2,3)] unallocated_bounds [OF w] policy_slots(2) [OF assms(1)]
    by (simp add: ReservedCapacityDecision_post_init_def res_simps) (simp add: decision_of_def)
  then show ?thesis
    using decision_values [OF assms(2,3)]
    by (simp add: allocate_reserved_capacity_def Let_def) (simp add: decision_of_def)
qed

lemma allocate_Inr:
  assumes "ReservedCapacityPolicy_valid p" and "distinct (map identity_key (cs_population s))"
  shows "allocate_reserved_capacity p s = Inr d \<longleftrightarrow> within_reserves p s \<and> d = decision_of p s"
proof (cases "within_reserves p s")
  case True
  then show ?thesis using allocate_within [OF assms] by auto
next
  case False
  then show ?thesis using capacity_values_outside [OF False]
    by (auto simp: allocate_reserved_capacity_def)
qed

lemma allocate_outside:
  "\<not> within_reserves p s \<Longrightarrow> \<exists>m. allocate_reserved_capacity p s = Inl (scheduling_error m)"
  using capacity_values_outside [of p s] by (auto simp: allocate_reserved_capacity_def)

lemma decision_grants:
  assumes "distinct (map identity_key (cs_population s))"
  shows "urgent_grants (decision_of p s) = int (length (urgent_chosen p s))"
    and "ordinary_grants (decision_of p s) = int (length (ordinary_chosen p s))"
  using granted_class(1,2) [OF assms]
  by (simp_all add: urgent_grants_def ordinary_grants_def class_grants_def granted_items_def decision_of_def)

lemma decision_allocations:
  "a \<in> set (cd_allocations (decision_of p s)) \<longleftrightarrow>
     (\<exists>c. c \<in> set (cs_population s) \<and> ci_state c = PENDING \<and> a = allocation_of p s c)"
proof -
  have "set (pending_of URGENT_RESERVED s @ pending_of ORDINARY s) =
      {c \<in> set (cs_population s). ci_state c = PENDING}"
    using CapacityClass.exhaust by (auto simp: snapshot_items_def)
  then show ?thesis by (auto simp: decision_of_def allocations_of_def)
qed

lemma granted_iff:
  "c \<in> set (granted_items (decision_of p s)) \<longleftrightarrow>
     c \<in> set (urgent_chosen p s) \<or> c \<in> set (ordinary_chosen p s)"
proof -
  have "granted_items (decision_of p s) = map ca_item (granted (allocations_of p s))"
    by (simp add: granted_items_def decision_of_def)
  then show ?thesis unfolding granted_members using chosen_pending [of c p s] by auto
qed

end
