(* ===== verification/Canonical_Limits.thy ===== *)
theory Canonical_Limits
  imports Canonical_Props
begin

text \<open>
  The two things around the canonical encoder that the rest of the development does not see: the native
  encoder \<open>orjson\<close>, which is third-party code and enters through its documented contract, and the
  recursion limit of the interpreter. \<open>canonical_json_bytes_in\<close> is \<open>canonical_json_bytes\<close> of
  \<open>src/newsroom/authority/canonical.py\<close> with both.
\<close>

section \<open>Code points and their bytes are ordered alike\<close>

definition text_bytes :: "cps \<Rightarrow> bytes" where "text_bytes s = concat (map utf8_char s)"

lemma text_bytes_simps [simp]:
  "text_bytes [] = []" "text_bytes (c # s) = utf8_char c @ text_bytes s"
  "text_bytes (s @ t) = text_bytes s @ text_bytes t"
  by (simp_all add: text_bytes_def)

lemma join_bytes: "text_bytes (join_comma ts) = join_comma (map text_bytes ts)"
  by (induction ts rule: join_comma.induct) (simp_all add: utf8_char_def)

lemma append_less_iff: "u @ x < u @ y \<longleftrightarrow> x < y" for u x y :: "'a::linorder list"
  by (induction u) simp_all

lemma utf8_char_nonempty: "utf8_char c \<noteq> []"
  by (simp add: utf8_char_def)

lemma digits_less: "c < d \<Longrightarrow> c div m < d div m \<or> c div m = d div m \<and> c mod m < d mod m" for c d m :: nat
proof -
  assume l: "c < d"
  show ?thesis
  proof (cases "c div m = d div m")
    case True
    have "m * (c div m) + c mod m < m * (d div m) + d mod m" unfolding mult_div_mod_eq by (rule l)
    then have "c mod m < d mod m" unfolding True nat_add_left_cancel_less .
    with True show ?thesis by blast
  next
    case False
    moreover have "c div m \<le> d div m" using l by (intro div_le_mono) simp
    ultimately show ?thesis by linarith
  qed
qed

lemma utf8_char_forms:
  "c < 0x80 \<Longrightarrow> utf8_char c = [c]"
  "0x80 \<le> c \<Longrightarrow> c < 0x800 \<Longrightarrow> utf8_char c = [0xC0 + c div 64, 0x80 + c mod 64]"
  "0x800 \<le> c \<Longrightarrow> c < 0x10000 \<Longrightarrow>
     utf8_char c = [0xE0 + c div 64 div 64, 0x80 + c div 64 mod 64, 0x80 + c mod 64]"
  "0x10000 \<le> c \<Longrightarrow> utf8_char c =
     [0xF0 + c div 64 div 64 div 64, 0x80 + c div 64 div 64 mod 64, 0x80 + c div 64 mod 64, 0x80 + c mod 64]"
  by (simp_all add: utf8_char_def div_mult2_eq [symmetric])

text \<open>The smallest and the largest first byte of each form.\<close>

lemma utf8_char_lead:
  "c < 0x80 \<Longrightarrow> hd (utf8_char c) < 0x80"
  "0x80 \<le> c \<Longrightarrow> c < 0x800 \<Longrightarrow> 0xC0 \<le> hd (utf8_char c) \<and> hd (utf8_char c) < 0xE0"
  "0x800 \<le> c \<Longrightarrow> c < 0x10000 \<Longrightarrow> 0xE0 \<le> hd (utf8_char c) \<and> hd (utf8_char c) < 0xF0"
  "0x10000 \<le> c \<Longrightarrow> 0xF0 \<le> hd (utf8_char c)"
  by (simp_all add: utf8_char_forms div_less_iff_less_mult)

lemma hd_less: "u \<noteq> [] \<Longrightarrow> v \<noteq> [] \<Longrightarrow> hd u < hd v \<Longrightarrow> u @ x < v @ y" for u v :: "'a::linorder list"
  by (cases u; cases v) simp_all

lemma utf8_char_less:
  assumes "c < d" and "d < 0x110000"
  shows "utf8_char c @ x < utf8_char d @ y"
proof -
  note 1 = digits_less [OF assms(1), of 64] and 2 = digits_less [of "c div 64" "d div 64" 64]
    and 3 = digits_less [of "c div 64 div 64" "d div 64 div 64" 64]
  have other: ?thesis if "hd (utf8_char c) < hd (utf8_char d)"
    using that utf8_char_nonempty by (intro hd_less)
  consider (ascii) "d < 0x80" | (two) "0x80 \<le> c" "d < 0x800" | (three) "0x800 \<le> c" "d < 0x10000"
    | (four) "0x10000 \<le> c" | (mixed) "c < 0x80" "0x80 \<le> d" | (mixed2) "0x80 \<le> c" "c < 0x800" "0x800 \<le> d"
    | (mixed3) "0x800 \<le> c" "c < 0x10000" "0x10000 \<le> d"
    by linarith
  then show ?thesis
  proof cases
    case ascii
    then show ?thesis using assms(1) by (simp add: utf8_char_forms)
  next
    case two
    have "c < 0x800" "0x80 \<le> d" using two assms(1) by simp_all
    with two show ?thesis using 1 by (simp only: utf8_char_forms append.simps Cons_less_Cons add_less_cancel_left add_left_cancel) metis
  next
    case three
    have "c < 0x10000" "0x800 \<le> d" using three assms(1) by simp_all
    with three show ?thesis using 1 2
      by (simp only: utf8_char_forms append.simps Cons_less_Cons add_less_cancel_left add_left_cancel) metis
  next
    case four
    have "0x10000 \<le> d" using four assms(1) by simp
    with four show ?thesis using 1 2 3
      by (simp only: utf8_char_forms append.simps Cons_less_Cons add_less_cancel_left add_left_cancel) metis
  next
    case mixed
    show ?thesis
      using utf8_char_lead(1) [OF mixed(1)] utf8_char_lead(2-4) [of d] mixed by (intro other) linarith
  next
    case mixed2
    show ?thesis
      using utf8_char_lead(2) [OF mixed2(1,2)] utf8_char_lead(3,4) [of d] mixed2 by (intro other) linarith
  next
    case mixed3
    show ?thesis
      using utf8_char_lead(3) [OF mixed3(1,2)] utf8_char_lead(4) [of d] mixed3 by (intro other) linarith
  qed
qed

lemma text_bytes_less:
  "s < t \<Longrightarrow> wf_text t \<Longrightarrow> text_bytes s < text_bytes t"
proof (induction s arbitrary: t)
  case Nil
  then obtain d u where "t = d # u" by (cases t) auto
  then show ?case using utf8_char_nonempty [of d] by (cases "utf8_char d") simp_all
next
  case (Cons c s)
  then obtain d u where t: "t = d # u" by (cases t) auto
  show ?case
  proof (cases "c = d")
    case True
    then show ?thesis using Cons t by (simp add: append_less_iff)
  next
    case False
    then have "c < d" using Cons.prems(1) t by simp
    then show ?thesis using utf8_char_less [of c d] Cons.prems(2) t by simp
  qed
qed

lemma text_bytes_le: "wf_text s \<Longrightarrow> wf_text t \<Longrightarrow> text_bytes s \<le> text_bytes t \<longleftrightarrow> s \<le> t"
  using text_bytes_less [of s t] text_bytes_less [of t s] by (metis less_le_not_le linear order_antisym_conv)

section \<open>The native encoder\<close>

text \<open>
  What the documentation of \<open>orjson\<close> says of \<open>dumps(value, option=OPT_SORT_KEYS | OPT_STRICT_INTEGER)\<close>,
  clause by clause. It may raise \<open>JSONEncodeError\<close> (\<open>None\<close>), for example on a value nested too deeply.
  Otherwise the scalars have their JSON texts, strings are quoted with the short escapes and written in
  UTF-8, an array is the comma-separated sequence of what it writes for the elements, and an object is
  the sequence of its members ordered by the bytes of their names, without any white space. How nested
  values combine, and that ordering bytes is ordering code points, is not part of the contract.
\<close>

definition orjson_contract :: "(pyval \<Rightarrow> bytes option) \<Rightarrow> bool" where
  "orjson_contract orjson_dumps = (
     (\<forall>b. orjson_dumps PNone = Some b \<longrightarrow> b = null_text) \<and>
     (\<forall>x b. orjson_dumps (PBool x) = Some b \<longrightarrow> b = (if x then true_text else false_text)) \<and>
     (\<forall>n b. orjson_dumps (PInt True n) = Some b \<longrightarrow> b = int_repr n) \<and>
     (\<forall>s b. orjson_dumps (PStr True s) = Some b \<longrightarrow> b = 34 # concat (map (text_bytes \<circ> escape_char) s) @ [34]) \<and>
     (\<forall>xs b. orjson_dumps (PSeq Exact xs) = Some b \<longrightarrow>
        (\<exists>bs. list_all2 (\<lambda>x t. orjson_dumps x = Some t) xs bs \<and> b = 91 # join_comma bs @ [93])) \<and>
     (\<forall>items b. orjson_dumps (PMap Exact items) = Some b \<longrightarrow>
        (\<exists>ms. list_all2 (\<lambda>p m. \<exists>s k t. fst p = KStr True s \<and> orjson_dumps (PStr True s) = Some k \<and>
             orjson_dumps (snd p) = Some t \<and> m = (text_bytes s, k @ 58 # t)) items ms \<and>
           b = 123 # join_comma (map snd (sort_key fst ms)) @ [125])))"

lemma contractD:
  assumes "orjson_contract f"
  shows "f PNone = Some b \<Longrightarrow> b = null_text"
    "f (PBool x) = Some b \<Longrightarrow> b = (if x then true_text else false_text)"
    "f (PInt True n) = Some b \<Longrightarrow> b = int_repr n"
    "f (PStr True s) = Some b \<Longrightarrow> b = text_bytes (quote s)"
    "f (PSeq Exact xs) = Some b \<Longrightarrow>
       \<exists>bs. list_all2 (\<lambda>x t. f x = Some t) xs bs \<and> b = 91 # join_comma bs @ [93]"
    "f (PMap Exact items) = Some b \<Longrightarrow>
       \<exists>ms. list_all2 (\<lambda>p m. \<exists>s k t. fst p = KStr True s \<and> f (PStr True s) = Some k \<and>
             f (snd p) = Some t \<and> m = (text_bytes s, k @ 58 # t)) items ms \<and>
           b = 123 # join_comma (map snd (sort_key fst ms)) @ [125]"
proof -
  have "text_bytes (concat (map escape_char s)) = concat (map (text_bytes \<circ> escape_char) s)"
    by (induction s) simp_all
  then have "text_bytes (quote s) = 34 # concat (map (text_bytes \<circ> escape_char) s) @ [34]"
    by (simp add: quote_def utf8_char_def)
  then show "f (PStr True s) = Some b \<Longrightarrow> b = text_bytes (quote s)" using assms by (simp add: orjson_contract_def)
qed (use assms in \<open>simp_all add: orjson_contract_def\<close>)

lemma sort_key_map_mono:
  assumes "\<And>p q. p \<in> set ps \<Longrightarrow> q \<in> set ps \<Longrightarrow> fst (f p) \<le> fst (f q) \<longleftrightarrow> fst p \<le> fst q"
  shows "sort_key fst (map f ps) = map f (sort_key fst ps)"
proof -
  have "insort_key fst (f p) (map f qs) = map f (insort_key fst p qs)" if "set (p # qs) \<subseteq> set ps" for p qs
    using that assms by (induction qs) auto
  then have "set qs \<subseteq> set ps \<Longrightarrow> sort_key fst (map f qs) = map f (sort_key fst qs)" for qs
    by (induction qs) auto
  then show ?thesis by simp
qed

lemma ascii_bytes: "\<forall>c \<in> set s. c < 128 \<Longrightarrow> text_bytes s = s"
  by (induction s) (simp_all add: utf8_char_def)

lemma int_repr_ascii: "\<forall>c \<in> set (int_repr n). c < 128"
proof -
  have "c < 128" if "c \<in> set (nat_repr m)" for c m
    using nat_repr_digits [of m] that by (auto simp: digit_cp_def)
  then show ?thesis by (auto simp: int_repr_def)
qed

text \<open>The members of an object, written one by one and ordered by bytes, are those of its content.\<close>

definition member_bytes :: "cps \<times> json \<Rightarrow> bytes \<times> bytes" where
  "member_bytes = (\<lambda>(s, j). (text_bytes s, text_bytes (member_text (s, json_text j))))"

lemma sorted_members:
  assumes "\<forall>p \<in> set ps. wf_text (fst p)"
  shows "join_comma (map snd (sort_key fst (map member_bytes ps))) =
    text_bytes (join_comma (map (\<lambda>p. member_text (fst p, json_text (snd p))) (sort_key fst ps)))"
proof -
  have "sort_key fst (map member_bytes ps) = map member_bytes (sort_key fst ps)"
    using assms by (intro sort_key_map_mono) (simp add: member_bytes_def text_bytes_le split_beta)
  then show ?thesis by (simp add: join_bytes comp_def member_bytes_def split_beta)
qed

lemma native_content:
  assumes "orjson_contract f"
  shows "is_restricted_builtin v \<Longrightarrow> wf_pyval v \<Longrightarrow> f v = Some b \<Longrightarrow> b = text_bytes (json_text (view v))"
    "builtin_all vs \<Longrightarrow> wf_list vs \<Longrightarrow> list_all2 (\<lambda>x t. f x = Some t) vs bs \<Longrightarrow>
       bs = map (text_bytes \<circ> json_text) (view_list vs)"
    "builtin_items items \<Longrightarrow> wf_items items \<Longrightarrow>
       list_all2 (\<lambda>p m. \<exists>s k t. fst p = KStr True s \<and> f (PStr True s) = Some k \<and>
         f (snd p) = Some t \<and> m = (text_bytes s, k @ 58 # t)) items ms \<Longrightarrow>
       ms = map member_bytes (view_items items) \<and> (\<forall>p \<in> set (view_items items). wf_text (fst p))"
proof (induction v and vs and items arbitrary: b and bs and ms
    rule: is_restricted_builtin_builtin_all_builtin_items.induct)
  case (5 k items)
  then obtain ms where m: "list_all2 (\<lambda>p m. \<exists>s k t. fst p = KStr True s \<and> f (PStr True s) = Some k \<and>
       f (snd p) = Some t \<and> m = (text_bytes s, k @ 58 # t)) items ms"
      "b = 123 # join_comma (map snd (sort_key fst ms)) @ [125]"
    using contractD(6) [OF assms] by fastforce
  with 5 have "ms = map member_bytes (view_items items)" "\<forall>p \<in> set (view_items items). wf_text (fst p)" by simp_all
  then show ?case using sorted_members m(2) by (simp add: utf8_char_def)
next
  case (6 k xs)
  then obtain bs where "list_all2 (\<lambda>x t. f x = Some t) xs bs" "b = 91 # join_comma bs @ [93]"
    using contractD(5) [OF assms] by fastforce
  with 6 show ?case by (simp add: join_bytes utf8_char_def comp_def)
next
  case (1 exact s)
  then show ?case using contractD(4) [OF assms] by simp
next
  case 2
  then show ?case using contractD(1) [OF assms] by (simp add: null_text_def utf8_char_def)
next
  case (3 x)
  then show ?case using contractD(2) [OF assms, of x b] by (simp add: true_text_def false_text_def utf8_char_def)
next
  case (4 exact n)
  have "text_bytes (int_repr n) = int_repr n" by (rule ascii_bytes [OF int_repr_ascii])
  with 4 show ?case using contractD(3) [OF assms, of n b] by simp
next
  case (10 x xs)
  then show ?case by (auto simp: list_all2_Cons1)
next
  case (12 k v items)
  then show ?case
    using contractD(4) [OF assms]
    by (fastforce simp: list_all2_Cons1 member_bytes_def member_text_def utf8_char_def split: pykey.splits)
qed simp_all

text \<open>A native encoder that keeps the contract and only refuses values outside its domain.\<close>

fun native_dumps :: "pyval \<Rightarrow> bytes option"
and native_all :: "pyval list \<Rightarrow> bytes list option"
and native_items :: "(pykey \<times> pyval) list \<Rightarrow> (bytes \<times> bytes) list option" where
  "native_dumps PNone = Some null_text"
| "native_dumps (PBool b) = Some (if b then true_text else false_text)"
| "native_dumps (PInt exact n) = (if exact then Some (int_repr n) else None)"
| "native_dumps (PFloat t) = None"
| "native_dumps (PStr exact s) =
     (if exact then Some (34 # concat (map (text_bytes \<circ> escape_char) s) @ [34]) else None)"
| "native_dumps (PSeq k xs) =
     (if k = Exact then map_option (\<lambda>bs. 91 # join_comma bs @ [93]) (native_all xs) else None)"
| "native_dumps (PMap k items) =
     (if k = Exact then map_option (\<lambda>ms. 123 # join_comma (map snd (sort_key fst ms)) @ [125]) (native_items items)
      else None)"
| "native_dumps POther = None"
| "native_all [] = Some []"
| "native_all (x # xs) =
     (case (native_dumps x, native_all xs) of (Some t, Some ts) \<Rightarrow> Some (t # ts) | _ \<Rightarrow> None)"
| "native_items [] = Some []"
| "native_items ((k, v) # items) =
     (case (k, native_dumps v, native_items items) of
        (KStr True s, Some t, Some ms) \<Rightarrow>
          Some ((text_bytes s, 34 # concat (map (text_bytes \<circ> escape_char) s) @ [34] @ 58 # t) # ms)
      | _ \<Rightarrow> None)"

lemma native_all_parts: "native_all xs = Some bs \<Longrightarrow> list_all2 (\<lambda>x t. native_dumps x = Some t) xs bs"
  by (induction xs arbitrary: bs) (auto split: option.splits)

lemma native_items_parts:
  "native_items items = Some ms \<Longrightarrow>
     list_all2 (\<lambda>p m. \<exists>s k t. fst p = KStr True s \<and> native_dumps (PStr True s) = Some k \<and>
       native_dumps (snd p) = Some t \<and> m = (text_bytes s, k @ 58 # t)) items ms"
proof (induction items arbitrary: ms)
  case (Cons p items)
  obtain k v where "p = (k, v)" by fastforce
  with Cons show ?case by (auto split: option.splits pykey.splits bool.splits)
qed simp

lemma native_dumps_contract: "orjson_contract native_dumps"
proof -
  have "\<exists>bs. list_all2 (\<lambda>x t. native_dumps x = Some t) xs bs \<and> b = 91 # join_comma bs @ [93]"
    if "native_dumps (PSeq Exact xs) = Some b" for xs b
    using that native_all_parts by auto
  moreover have "\<exists>ms. list_all2 (\<lambda>p m. \<exists>s k t. fst p = KStr True s \<and> native_dumps (PStr True s) = Some k \<and>
       native_dumps (snd p) = Some t \<and> m = (text_bytes s, k @ 58 # t)) items ms \<and>
      b = 123 # join_comma (map snd (sort_key fst ms)) @ [125]"
    if "native_dumps (PMap Exact items) = Some b" for items b
  proof -
    obtain ms where "native_items items = Some ms" "b = 123 # join_comma (map snd (sort_key fst ms)) @ [125]"
      using \<open>native_dumps (PMap Exact items) = Some b\<close> by auto
    then show ?thesis using native_items_parts by blast
  qed
  ultimately show ?thesis unfolding orjson_contract_def by simp
qed

text \<open>\<open>{"b": [true, null], "\<dots>": {}, "a": -1}\<close> with a name outside ASCII.\<close>

definition mixed_value :: pyval where
  "mixed_value = PMap Exact [(KStr True [98], PSeq Exact [PBool True, PNone]),
     (KStr True [0x20AC], PMap Exact []), (KStr True [97], PInt True (- 1))]"

lemma mixed_native:
  "native_dumps mixed_value = Some [123, 34, 97, 34, 58, 45, 49, 44, 34, 98, 34, 58, 91, 116, 114, 117, 101,
     44, 110, 117, 108, 108, 93, 44, 34, 226, 130, 172, 34, 58, 123, 125, 125]"
  by (simp add: mixed_value_def escape_char_def utf8_char_def true_text_def null_text_def int_repr_def
      nat_repr.simps)

lemma native_path_equivalent_all:
  assumes "orjson_contract orjson_dumps" and "wf_pyval v"
  shows "canonical_json_bytes_with orjson_dumps v = canonical_json_bytes v"
proof (cases "is_restricted_builtin v")
  case True
  have "canonical_json_bytes v = Inr (text_bytes (json_text (view v)))"
    using True builtin_validates(1) builtin_serialisable(1) canonical_json_bytes_Inr [OF assms(2)]
    by (simp add: text_bytes_def)
  moreover have "b = text_bytes (json_text (view v))" if "orjson_dumps v = Some b" for b
    by (rule native_content(1) [OF assms(1) True assms(2) that])
  ultimately show ?thesis
    using True by (cases "orjson_dumps v")
      (simp_all add: canonical_json_bytes_def canonical_json_bytes_with_def validate_restricted_value_def)
next
  case False
  then have "validate_restricted_value v = Inr b \<Longrightarrow> \<not> b" for b
    by (auto simp: validate_restricted_value_def res_simps)
  then show ?thesis
    by (cases "validate_restricted_value v")
      (auto simp: canonical_json_bytes_def canonical_json_bytes_with_def)
qed

text \<open>
  C34. The native fast path changes nothing: with any \<open>orjson\<close> that keeps its documented contract, on
  whatever values it raises, the encoder returns on every value what the standard library path returns.
  In particular its order of the names by bytes is the order of the standard library by code points.
\<close>

theorem native_path_equivalent:
  assumes "orjson_contract orjson_dumps" and "wf_pyval v"
  shows "canonical_json_bytes_with orjson_dumps v = canonical_json_bytes v"
  by (rule native_path_equivalent_all [OF assms])

theorem native_path_equivalent_witness:
  "canonical_json_bytes_with native_dumps mixed_value = canonical_json_bytes mixed_value \<and>
   native_dumps mixed_value \<noteq> None"
  using native_path_equivalent [OF native_dumps_contract, of mixed_value] mixed_native
  by (simp add: mixed_value_def wf_text_def)

section \<open>The recursion limit\<close>

text \<open>
  A call that would exceed the recursion limit of the interpreter raises \<open>RecursionError\<close>, which no handler
  of the encoder catches. The three recursive routines take the number of nested calls that are left to
  them as their first argument: calls of \<open>_is_restricted_builtin\<close>, calls of
  \<open>_validate_restricted_value_with_path\<close> and \<open>_validate_string\<close>, and nested collections in \<open>json.dumps\<close>.
  How many these are depends on the stack of the caller, so they are arguments; calls inside the standard
  library's own class tests are not counted. A cyclic Python value has no finite tree: for it each routine
  runs as on a tree deeper than its limit.
\<close>

definition recursion_error :: exn where
  "recursion_error = Exn RecursionError ''maximum recursion depth exceeded''"

fun is_restricted_builtin_in :: "nat \<Rightarrow> pyval \<Rightarrow> bool res"
and builtin_all_in :: "nat \<Rightarrow> pyval list \<Rightarrow> bool res"
and builtin_items_in :: "nat \<Rightarrow> (pykey \<times> pyval) list \<Rightarrow> bool res" where
  "is_restricted_builtin_in 0 v = Inl recursion_error"
| "is_restricted_builtin_in (Suc n) (PSeq k xs) = (if k = Exact then builtin_all_in n xs else Inr False)"
| "is_restricted_builtin_in (Suc n) (PMap k items) = (if k = Exact then builtin_items_in n items else Inr False)"
| "is_restricted_builtin_in (Suc n) v = Inr (is_restricted_builtin v)"
| "builtin_all_in n [] = Inr True"
| "builtin_all_in n (x # xs) =
     res_bind (is_restricted_builtin_in n x) (\<lambda>b. if b then builtin_all_in n xs else Inr False)"
| "builtin_items_in n [] = Inr True"
| "builtin_items_in n ((k, v) # items) =
     (if (case k of KStr exact s \<Rightarrow> exact \<and> no_surrogate s | KOther \<Rightarrow> False)
      then res_bind (is_restricted_builtin_in n v) (\<lambda>b. if b then builtin_items_in n items else Inr False)
      else Inr False)"

definition validate_string_in :: "nat \<Rightarrow> cps \<Rightarrow> unit res" where
  "validate_string_in n s = (case n of 0 \<Rightarrow> Inl recursion_error | Suc m \<Rightarrow> validate_string s)"

fun validate_with_path_in :: "nat \<Rightarrow> pyval \<Rightarrow> unit res"
and validate_all_in :: "nat \<Rightarrow> pyval list \<Rightarrow> unit res"
and validate_items_in :: "nat \<Rightarrow> (pykey \<times> pyval) list \<Rightarrow> unit res" where
  "validate_with_path_in 0 v = Inl recursion_error"
| "validate_with_path_in (Suc n) (PStr exact s) = validate_string_in n s"
| "validate_with_path_in (Suc n) (PMap k items) = validate_items_in n items"
| "validate_with_path_in (Suc n) (PSeq k xs) = validate_all_in n xs"
| "validate_with_path_in (Suc n) v = validate_restricted_value_with_path v"
| "validate_all_in n [] = Inr ()"
| "validate_all_in n (x # xs) = res_bind (validate_with_path_in n x) (\<lambda>_. validate_all_in n xs)"
| "validate_items_in n [] = Inr ()"
| "validate_items_in n ((k, v) # items) =
     (case k of
        KOther \<Rightarrow> Inl (canonicalization_error ''object names must be strings'')
      | KStr exact s \<Rightarrow>
          res_bind (validate_string_in n s) (\<lambda>_.
          res_bind (validate_with_path_in n v) (\<lambda>_. validate_items_in n items)))"

text \<open>The members of an object are encoded in the order of their names.\<close>

fun json_dumps_in :: "nat \<Rightarrow> pyval \<Rightarrow> cps res"
and dumps_all_in :: "nat \<Rightarrow> pyval list \<Rightarrow> cps list res"
and dumps_items_in :: "nat \<Rightarrow> (pykey \<times> pyval) list \<Rightarrow> (cps \<times> cps res) list res" where
  "json_dumps_in n (PSeq k xs) =
     (if k = Abstract then Inl (Exn TypeError ''Object is not JSON serializable'')
      else case n of
        0 \<Rightarrow> Inl recursion_error
      | Suc m \<Rightarrow> res_bind (dumps_all_in m xs) (\<lambda>ts. Inr (91 # join_comma ts @ [93])))"
| "json_dumps_in n (PMap k items) =
     (if k = Abstract then Inl (Exn TypeError ''Object is not JSON serializable'')
      else case n of
        0 \<Rightarrow> Inl recursion_error
      | Suc m \<Rightarrow> res_bind (dumps_items_in m items) (\<lambda>rs.
          res_bind (res_map (\<lambda>(s, r). res_bind r (\<lambda>t. Inr (s, t))) (sort_key fst rs)) (\<lambda>ts.
          Inr (123 # join_comma (map member_text ts) @ [125]))))"
| "json_dumps_in n v = json_dumps v"
| "dumps_all_in n [] = Inr []"
| "dumps_all_in n (x # xs) =
     res_bind (json_dumps_in n x) (\<lambda>t. res_bind (dumps_all_in n xs) (\<lambda>ts. Inr (t # ts)))"
| "dumps_items_in n [] = Inr []"
| "dumps_items_in n ((k, v) # items) =
     (case k of
        KOther \<Rightarrow> Inl (Exn TypeError ''keys must be str'')
      | KStr exact s \<Rightarrow> res_bind (dumps_items_in n items) (\<lambda>rs. Inr ((s, json_dumps_in n v) # rs)))"

record recursion_limits =
  calls_builtin :: nat
  calls_validate :: nat
  calls_dumps :: nat

definition canonical_json_bytes_in ::
  "recursion_limits \<Rightarrow> (pyval \<Rightarrow> bytes option) \<Rightarrow> pyval \<Rightarrow> bytes res" where
  "canonical_json_bytes_in l orjson_dumps v =
     res_bind (is_restricted_builtin_in (calls_builtin l) v) (\<lambda>builtin.
     res_bind (if builtin then Inr () else validate_with_path_in (calls_validate l) v) (\<lambda>_.
       case (if builtin then orjson_dumps v else None) of
         Some b \<Rightarrow> Inr b
       | None \<Rightarrow>
           res_bind
             (case json_dumps_in (calls_dumps l) v of
                Inl e \<Rightarrow> Inl (if exn_class_of e = RecursionError then e
                  else canonicalization_error ''canonical JSON encoding failed'')
              | Inr text \<Rightarrow> Inr text)
             utf8_encode))"

text \<open>The number of nested calls a value needs.\<close>

fun height :: "pyval \<Rightarrow> nat"
and height_all :: "pyval list \<Rightarrow> nat"
and height_items :: "(pykey \<times> pyval) list \<Rightarrow> nat" where
  "height (PSeq k xs) = Suc (height_all xs)"
| "height (PMap k items) = Suc (height_items items)"
| "height v = 1"
| "height_all [] = 0"
| "height_all (x # xs) = max (height x) (height_all xs)"
| "height_items [] = 0"
| "height_items ((k, v) # items) = max (height v) (height_items items)"

definition within :: "nat \<Rightarrow> nat \<Rightarrow> 'a res \<Rightarrow> 'a res \<Rightarrow> bool" where
  "within n h r s = (r = s \<or> r = Inl recursion_error \<and> n < h)"

lemma withinI: "r = s \<Longrightarrow> within n h r s" by (simp add: within_def)

lemma within_bind:
  "within n h m m' \<Longrightarrow> (\<And>x. m' = Inr x \<Longrightarrow> within n h' (k x) (k' x)) \<Longrightarrow>
     within n (max h h') (res_bind m k) (res_bind m' k')"
  by (cases m') (auto simp: within_def)

lemma within_Suc: "within n h r s \<Longrightarrow> within (Suc n) (Suc h) r s"
  by (simp add: within_def)

lemma within_and:
  "within n h m (Inr b) \<Longrightarrow> (b \<Longrightarrow> within n h' k (Inr c)) \<Longrightarrow>
     within n (max h h') (res_bind m (\<lambda>b. if b then k else Inr False)) (Inr (b \<and> c))"
  by (cases b) (auto simp: within_def)

lemma builtin_within:
  "within n (height v) (is_restricted_builtin_in n v) (Inr (is_restricted_builtin v))"
  "within n (height_all vs) (builtin_all_in n vs) (Inr (builtin_all vs))"
  "within n (height_items items) (builtin_items_in n items) (Inr (builtin_items items))"
proof (induction n v and n vs and n items
    rule: is_restricted_builtin_in_builtin_all_in_builtin_items_in.induct)
  case (1 v)
  then show ?case by (cases v) (simp_all add: within_def)
next
  case (2 n k xs)
  then show ?case by (cases "k = Exact") (simp_all add: within_Suc withinI)
next
  case (3 n k items)
  then show ?case by (cases "k = Exact") (simp_all add: within_Suc withinI)
next
  case (6 n x xs)
  then show ?case by (simp only: builtin_all_in.simps builtin_all.simps height_all.simps) (rule within_and)
next
  case (8 n k v items)
  show ?case
  proof (cases "case k of KStr exact s \<Rightarrow> exact \<and> no_surrogate s | KOther \<Rightarrow> False")
    case True
    with 8 show ?thesis
      by (simp only: builtin_items_in.simps builtin_items.simps height_items.simps if_True simp_thms) (rule within_and; simp)
  next
    case False
    then show ?thesis by (auto simp: within_def split: pykey.splits)
  qed
qed (simp_all add: withinI)

lemma within_mono: "within n h r s \<Longrightarrow> h \<le> h' \<Longrightarrow> within n h' r s"
  by (auto simp: within_def)

lemma validate_string_within: "within n (Suc h) (validate_string_in n s) (validate_string s)"
  by (cases n) (simp_all add: within_def validate_string_in_def)

lemma max_Suc: "max (Suc a) (Suc b) = Suc (max a b)"
  by simp

lemma validate_within:
  "within n (Suc (height v)) (validate_with_path_in n v) (validate_restricted_value_with_path v)"
  "within n (Suc (height_all vs)) (validate_all_in n vs) (validate_all vs)"
  "within n (Suc (height_items items)) (validate_items_in n items) (validate_items items)"
proof (induction n v and n vs and n items
    rule: validate_with_path_in_validate_all_in_validate_items_in.induct)
  case (1 v)
  then show ?case by (simp add: within_def)
next
  case (2 n exact s)
  then show ?case using within_Suc [OF validate_string_within [of n 0]] by (simp add: numeral_2_eq_2)
next
  case (3 n k items)
  then show ?case by (simp add: within_Suc)
next
  case (4 n k xs)
  then show ?case by (simp add: within_Suc)
next
  case (7 n x xs)
  have "within n (max (Suc (height x)) (Suc (height_all xs)))
      (res_bind (validate_with_path_in n x) (\<lambda>_. validate_all_in n xs))
      (res_bind (validate_restricted_value_with_path x) (\<lambda>_. validate_all xs))"
    using 7 by (intro within_bind)
  then show ?case by (simp only: validate_all_in.simps validate_all.simps height_all.simps max_Suc)
next
  case (9 n k v items)
  show ?case
  proof (cases k)
    case (KStr exact s)
    have "within n (max (Suc 0) (max (Suc (height v)) (Suc (height_items items))))
        (res_bind (validate_string_in n s) (\<lambda>_. res_bind (validate_with_path_in n v) (\<lambda>_. validate_items_in n items)))
        (res_bind (validate_string s) (\<lambda>_. res_bind (validate_restricted_value_with_path v) (\<lambda>_. validate_items items)))"
      using 9 KStr by (intro within_bind validate_string_within) simp_all
    then show ?thesis using KStr
      by (simp only: validate_items_in.simps validate_items.simps height_items.simps max_Suc pykey.case max_0L)
  qed (simp add: within_def)
qed (simp_all add: withinI)

text \<open>The encoder: the same text, or an error wherever \<open>json_dumps\<close> has one, or a collection too deep.\<close>

definition agrees :: "bool \<Rightarrow> 'a res \<Rightarrow> 'a res \<Rightarrow> bool" where
  "agrees deep r s = (case r of
     Inr t \<Rightarrow> s = Inr t
   | Inl e \<Rightarrow> e = recursion_error \<and> deep \<or> exn_class_of e \<noteq> RecursionError \<and> (\<exists>e'. s = Inl e'))"

lemma agrees_bind:
  "agrees d m m' \<Longrightarrow> (\<And>x. m' = Inr x \<Longrightarrow> agrees d (k x) (k' x)) \<Longrightarrow> agrees d (res_bind m k) (res_bind m' k')"
  by (cases m) (auto simp: agrees_def)

lemma agrees_Inr: "agrees d (Inr x) (Inr x)"
  by (simp add: agrees_def)

lemma agrees_mono: "agrees d r s \<Longrightarrow> (d \<Longrightarrow> d') \<Longrightarrow> agrees d' r s"
  by (cases r) (auto simp: agrees_def)

definition members_of :: "(cps \<times> cps res) list \<Rightarrow> (cps \<times> cps) list res" where
  "members_of rs = res_map (\<lambda>(s, r). res_bind r (\<lambda>t. Inr (s, t))) rs"

lemma members_of_Inr: "members_of rs = Inr ts \<longleftrightarrow> rs = map (\<lambda>p. (fst p, Inr (snd p))) ts"
proof -
  have "members_of rs = Inr ts \<longleftrightarrow> list_all2 (\<lambda>q p. q = (fst p, Inr (snd p))) rs ts"
    unfolding members_of_def res_map_Inr_iff by (intro arg_cong3 [where f = list_all2]) (auto simp: res_simps fun_eq_iff)
  also have "\<dots> \<longleftrightarrow> rs = map (\<lambda>p. (fst p, Inr (snd p))) ts"
    by (induction rs arbitrary: ts) (auto simp: list_all2_Cons1 list_all2_Cons2)
  finally show ?thesis .
qed

lemma members_of_Inl: "members_of rs = Inl e \<Longrightarrow> \<exists>s. (s, Inl e) \<in> set rs"
  by (induction rs) (auto simp: members_of_def res_bind_Inl_iff)

lemma members_of_sorted: "members_of rs = Inr ts \<Longrightarrow> members_of (sort_key fst rs) = Inr (sort_key fst ts)"
  unfolding members_of_Inr by (simp add: sort_key_map_snd [of Inr])

lemma agrees_Inl: "agrees d (Inl e) s \<longleftrightarrow>
    e = recursion_error \<and> d \<or> exn_class_of e \<noteq> RecursionError \<and> (\<exists>e'. s = Inl e')"
  by (simp add: agrees_def)

lemma agrees_sorted:
  assumes "agrees d (members_of rs) s"
    and "\<And>n e. (n, Inl e) \<in> set rs \<Longrightarrow> agrees d (Inl e) s"
  shows "agrees d (members_of (sort_key fst rs)) (res_bind s (\<lambda>ts. Inr (sort_key fst ts)))"
proof (cases "members_of (sort_key fst rs)")
  case (Inl e)
  then obtain n where "(n, Inl e) \<in> set rs" using members_of_Inl by fastforce
  with assms(2) have "agrees d (Inl e) s" by blast
  with Inl show ?thesis by (auto simp: agrees_Inl)
next
  case (Inr us)
  have "\<exists>ts. members_of rs = Inr ts"
  proof (cases "members_of rs")
    case (Inl e)
    then obtain n where "(n, Inl e) \<in> set (sort_key fst rs)" using members_of_Inl by fastforce
    with Inr show ?thesis unfolding members_of_Inr by auto
  qed simp
  then obtain ts where ts: "members_of rs = Inr ts" by blast
  with assms(1) have "s = Inr ts" by (simp add: agrees_def)
  then show ?thesis using members_of_sorted [OF ts] by (simp add: agrees_def)
qed

lemma dumps_agree:
  "agrees (n < height v) (json_dumps_in n v) (json_dumps v)"
  "agrees (n < height_all vs) (dumps_all_in n vs) (dumps_all vs)"
  "agrees (n < height_items items) (res_bind (dumps_items_in n items) members_of) (dumps_items items) \<and>
    (\<forall>rs s e. dumps_items_in n items = Inr rs \<longrightarrow> (s, Inl e) \<in> set rs \<longrightarrow>
       agrees (n < height_items items) (Inl e) (dumps_items items))"
proof (induction n v and n vs and n items rule: json_dumps_in_dumps_all_in_dumps_items_in.induct)
  case (1 n k xs)
  show ?case
  proof (cases "k = Abstract \<or> n = 0")
    case False
    then obtain m where "n = Suc m" by (cases n) auto
    with 1 False have "agrees (m < height_all xs) (dumps_all_in m xs) (dumps_all xs)" by blast
    then have "agrees (m < height_all xs) (res_bind (dumps_all_in m xs) (\<lambda>ts. Inr (91 # join_comma ts @ [93])))
        (res_bind (dumps_all xs) (\<lambda>ts. Inr (91 # join_comma ts @ [93])))"
      by (rule agrees_bind) (rule agrees_Inr)
    with False show ?thesis by (simp add: \<open>n = Suc m\<close>)
  qed (auto simp: agrees_def)
next
  case (2 n k items)
  show ?case
  proof (cases "k = Abstract \<or> n = 0")
    case False
    then obtain m where m: "n = Suc m" by (cases n) auto
    with 2 False have ih: "agrees (m < height_items items) (res_bind (dumps_items_in m items) members_of) (dumps_items items)"
      "\<And>rs s e. dumps_items_in m items = Inr rs \<Longrightarrow> (s, Inl e) \<in> set rs \<Longrightarrow>
         agrees (m < height_items items) (Inl e) (dumps_items items)"
      by blast+
    show ?thesis
    proof (cases "dumps_items_in m items")
      case (Inl e)
      with ih(1) m False show ?thesis by (auto simp: agrees_Inl)
    next
      case (Inr rs)
      from agrees_sorted [of "m < height_items items" rs "dumps_items items"] ih Inr
      have "agrees (m < height_items items) (members_of (sort_key fst rs))
          (res_bind (dumps_items items) (\<lambda>ts. Inr (sort_key fst ts)))" by auto
      then have "agrees (m < height_items items)
          (res_bind (members_of (sort_key fst rs)) (\<lambda>ts. Inr (123 # join_comma (map member_text ts) @ [125])))
          (res_bind (res_bind (dumps_items items) (\<lambda>ts. Inr (sort_key fst ts)))
             (\<lambda>ts. Inr (123 # join_comma (map member_text ts) @ [125])))"
        by (rule agrees_bind) (simp add: agrees_def)
      then show ?thesis using m False Inr by (simp add: members_of_def res_bind_assoc)
    qed
  qed (auto simp: agrees_def)
next
  case "3_4"
  then show ?case by (auto simp: agrees_def res_of_option_def split: option.splits)
next
  case (5 n x xs)
  then have "agrees (n < max (height x) (height_all xs)) (json_dumps_in n x) (json_dumps x)"
    "\<And>t. json_dumps x = Inr t \<Longrightarrow> agrees (n < max (height x) (height_all xs)) (dumps_all_in n xs) (dumps_all xs)"
    by (auto simp: less_max_iff_disj agrees_def split: sum.splits)
  then show ?case
    by (simp only: dumps_all_in.simps dumps_all.simps height_all.simps)
      (intro agrees_bind agrees_Inr)
next
  case (7 n k v items)
  show ?case
  proof (cases k)
    case KOther
    then show ?thesis by (simp add: agrees_def)
  next
    case (KStr exact s)
    have iv: "agrees (n < height v) (json_dumps_in n v) (json_dumps v)"
      by (rule 7) (rule KStr)
    have i: "agrees (n < height_items items) (res_bind (dumps_items_in n items) members_of) (dumps_items items) \<and>
      (\<forall>rs s e. dumps_items_in n items = Inr rs \<longrightarrow> (s, Inl e) \<in> set rs \<longrightarrow>
         agrees (n < height_items items) (Inl e) (dumps_items items))"
      by (rule 7) (rule KStr)
    note ii = i [THEN conjunct1] and im = i [THEN conjunct2, rule_format]
    show ?thesis
    proof (cases "dumps_items_in n items")
      case (Inl e)
      with ii have "exn_class_of e \<noteq> RecursionError \<and> (\<exists>e'. dumps_items items = Inl e') \<or> e = recursion_error \<and> n < height_items items"
        by (auto simp: agrees_Inl)
      then show ?thesis using Inl KStr by (cases "json_dumps v") (auto simp: agrees_Inl)
    next
      case (Inr rs)
      have a: "agrees (n < max (height v) (height_items items)) (members_of ((s, json_dumps_in n v) # rs))
          (res_bind (json_dumps v) (\<lambda>t. res_bind (dumps_items items) (\<lambda>ts. Inr ((s, t) # ts))))"
      proof -
        have "members_of ((s, json_dumps_in n v) # rs) =
            res_bind (json_dumps_in n v) (\<lambda>t. res_bind (members_of rs) (\<lambda>ts. Inr ((s, t) # ts)))"
          by (simp add: members_of_def res_bind_assoc)
        moreover have "agrees (n < max (height v) (height_items items)) (json_dumps_in n v) (json_dumps v)"
          using iv by (rule agrees_mono) simp
        moreover have "agrees (n < max (height v) (height_items items)) (members_of rs) (dumps_items items)"
          using ii [unfolded Inr res_bind_simps] by (rule agrees_mono) simp
        ultimately show ?thesis by (simp only:) (intro agrees_bind agrees_Inr)
      qed
      have "agrees (n < max (height v) (height_items items)) (Inl e)
          (res_bind (json_dumps v) (\<lambda>t. res_bind (dumps_items items) (\<lambda>ts. Inr ((s, t) # ts))))"
        if "(u, Inl e) \<in> set ((s, json_dumps_in n v) # rs)" for u e
      proof -
        have "agrees (n < height v) (Inl e) (json_dumps v) \<or> agrees (n < height_items items) (Inl e) (dumps_items items)"
          using \<open>(u, Inl e) \<in> set ((s, json_dumps_in n v) # rs)\<close> iv im [OF Inr] by auto
        then show ?thesis by (cases "json_dumps v") (auto simp: agrees_Inl)
      qed
      with a show ?thesis using KStr Inr by simp
    qed
  qed
qed (simp_all add: agrees_def members_of_def)

lemma builtin_in_height:
  "is_restricted_builtin_in n v = Inr True \<Longrightarrow> height v \<le> n"
  "builtin_all_in n vs = Inr True \<Longrightarrow> height_all vs \<le> n"
  "builtin_items_in n items = Inr True \<Longrightarrow> height_items items \<le> n"
  by (induction n v and n vs and n items
      rule: is_restricted_builtin_in_builtin_all_in_builtin_items_in.induct)
    (simp_all add: res_simps split: if_splits)

lemma dumps_no_recursion:
  "json_dumps v = Inl e \<Longrightarrow> exn_class_of e \<noteq> RecursionError"
  "dumps_all vs = Inl e \<Longrightarrow> exn_class_of e \<noteq> RecursionError"
  "dumps_items items = Inl e \<Longrightarrow> exn_class_of e \<noteq> RecursionError"
  by (induction v and vs and items rule: json_dumps_dumps_all_dumps_items.induct)
    (auto simp: res_bind_Inl_iff require_Inl_iff res_of_option_def split: option.splits pykey.splits)

definition too_deep :: "recursion_limits \<Rightarrow> pyval \<Rightarrow> bool" where
  "too_deep l v = (calls_builtin l < height v \<or> calls_validate l < Suc (height v) \<or> calls_dumps l < height v)"

lemma limited_cases:
  "canonical_json_bytes_in l f v = canonical_json_bytes_with f v \<or>
   canonical_json_bytes_in l f v = Inl recursion_error \<and> too_deep l v"
proof (cases "is_restricted_builtin_in (calls_builtin l) v = Inl recursion_error")
  case True
  then show ?thesis
    using builtin_within(1) [of "calls_builtin l" v] by (simp add: canonical_json_bytes_in_def within_def too_deep_def)
next
  case False
  then have b: "is_restricted_builtin_in (calls_builtin l) v = Inr (is_restricted_builtin v)"
    using builtin_within(1) [of "calls_builtin l" v] by (simp add: within_def)
  show ?thesis
  proof (cases "\<not> is_restricted_builtin v \<and> validate_with_path_in (calls_validate l) v = Inl recursion_error \<and> too_deep l v")
    case True
    then show ?thesis by (simp add: canonical_json_bytes_in_def b)
  next
    case False
    then have "(if is_restricted_builtin v then Inr () else validate_with_path_in (calls_validate l) v) =
        (if is_restricted_builtin v then Inr () else validate_restricted_value_with_path v)"
      using validate_within(1) [of "calls_validate l" v] by (auto simp: within_def too_deep_def)
    moreover have "json_dumps_in (calls_dumps l) v = json_dumps v \<or>
        json_dumps_in (calls_dumps l) v = Inl recursion_error \<and> too_deep l v \<or>
        (\<exists>e e'. json_dumps_in (calls_dumps l) v = Inl e \<and> exn_class_of e \<noteq> RecursionError \<and> json_dumps v = Inl e')"
      using dumps_agree(1) [of "calls_dumps l" v]
      by (cases "json_dumps_in (calls_dumps l) v") (auto simp: agrees_def too_deep_def)
    moreover have "exn_class_of recursion_error = RecursionError" by (simp add: recursion_error_def)
    moreover have "json_dumps v = Inl e \<Longrightarrow> exn_class_of e \<noteq> RecursionError" for e
      by (rule dumps_no_recursion(1))
    ultimately show ?thesis
      by (cases "validate_restricted_value_with_path v")
        (auto simp: canonical_json_bytes_in_def canonical_json_bytes_with_def validate_restricted_value_def b
          res_bind_assoc split: option.splits sum.splits)
  qed
qed

lemma encoder_outcome:
  assumes "wf_pyval v"
  shows "case canonical_json_bytes v of
      Inr b \<Rightarrow> validate_restricted_value_with_path v = Inr () \<and> serialisable v
    | Inl e \<Rightarrow> exn_class_of e = CanonicalizationError \<and>
        \<not> (validate_restricted_value_with_path v = Inr () \<and> serialisable v)"
proof (cases "canonical_json_bytes v")
  case (Inr b)
  then show ?thesis using canonical_json_bytes_Inr [OF assms, of b] by simp
next
  case (Inl e)
  have c: "exn_class_of e = CanonicalizationError"
  proof (cases "validate_restricted_value_with_path v")
    case (Inl f)
    with \<open>canonical_json_bytes v = Inl e\<close> have "e = f"
      using builtin_validates(1) [of v]
      by (auto simp: canonical_json_bytes_def canonical_json_bytes_with_def validate_restricted_value_def
          split: if_splits)
    then show ?thesis using Inl validate_raises by auto
  next
    case (Inr u)
    then have "\<not> serialisable v"
      using canonical_json_bytes_Inr [OF assms] \<open>canonical_json_bytes v = Inl e\<close> by auto
    with Inr show ?thesis
      using dumps_Inr_serialisable(1) [of v] \<open>canonical_json_bytes v = Inl e\<close>
      by (auto simp: canonical_json_bytes_def canonical_json_bytes_with_def validate_restricted_value_def
          canonicalization_error_def res_bind_Inl_iff split: sum.splits if_splits)
  qed
  with Inl show ?thesis using canonical_json_bytes_Inr [OF assms] by auto
qed

text \<open>
  C33. How the encoder ends, whatever the recursion limits and whatever values the native encoder
  refuses: it returns the canonical bytes, and then the value is restricted and built from real
  collections; or it raises \<open>CanonicalizationError\<close>, exactly because the value is not; or it raises
  \<open>RecursionError\<close>, and then the value is nested deeper than one of the limits. An ordinary value
  nested deeper than its check may recurse always raises \<open>RecursionError\<close>, and a value within all the
  limits never does.
\<close>

theorem canonical_json_bytes_total:
  assumes "orjson_contract orjson_dumps" and "wf_pyval v"
  shows "(case canonical_json_bytes_in l orjson_dumps v of
      Inr b \<Rightarrow> canonical_json_bytes v = Inr b \<and>
        validate_restricted_value_with_path v = Inr () \<and> serialisable v
    | Inl e \<Rightarrow> e = recursion_error \<and> too_deep l v \<or>
        exn_class_of e = CanonicalizationError \<and> canonical_json_bytes v = Inl e \<and>
        \<not> (validate_restricted_value_with_path v = Inr () \<and> serialisable v)) \<and>
    (is_restricted_builtin v \<and> calls_builtin l < height v \<longrightarrow>
       canonical_json_bytes_in l orjson_dumps v = Inl recursion_error) \<and>
    (\<not> too_deep l v \<longrightarrow> canonical_json_bytes_in l orjson_dumps v = canonical_json_bytes v)"
proof -
  note native = native_path_equivalent_all [OF assms]
  have "canonical_json_bytes_in l orjson_dumps v = Inl recursion_error"
    if "is_restricted_builtin v" "calls_builtin l < height v"
  proof -
    have "is_restricted_builtin_in (calls_builtin l) v \<noteq> Inr True"
      using builtin_in_height(1) that(2) by fastforce
    then have "is_restricted_builtin_in (calls_builtin l) v = Inl recursion_error"
      using builtin_within(1) [of "calls_builtin l" v] that(1) by (simp add: within_def)
    then show ?thesis by (simp add: canonical_json_bytes_in_def)
  qed
  moreover have "canonical_json_bytes_in l orjson_dumps v = canonical_json_bytes v \<or>
      canonical_json_bytes_in l orjson_dumps v = Inl recursion_error \<and> too_deep l v"
    using limited_cases [of l orjson_dumps v] by (simp only: native)
  ultimately show ?thesis
    using encoder_outcome [OF assms(2)]
    by (cases "canonical_json_bytes_in l orjson_dumps v"; cases "canonical_json_bytes v") auto
qed

text \<open>An array nested eighty deep under a limit of fifty calls, and the same array under a thousand.\<close>

definition nested_arrays :: "nat \<Rightarrow> pyval" where
  "nested_arrays n = ((\<lambda>v. PSeq Exact [v]) ^^ n) PNone"

lemma nested_arrays_simps:
  "height (nested_arrays n) = Suc n" "is_restricted_builtin (nested_arrays n)" "wf_pyval (nested_arrays n)"
  by (induction n) (simp_all add: nested_arrays_def)

theorem canonical_json_bytes_total_witness:
  "canonical_json_bytes_in \<lparr>calls_builtin = 50, calls_validate = 50, calls_dumps = 50\<rparr> native_dumps (nested_arrays 80)
     = Inl recursion_error \<and>
   canonical_json_bytes_in \<lparr>calls_builtin = 1000, calls_validate = 1000, calls_dumps = 1000\<rparr> native_dumps (nested_arrays 80)
     = canonical_json_bytes (nested_arrays 80)"
  using canonical_json_bytes_total [OF native_dumps_contract nested_arrays_simps(3),
      of "\<lparr>calls_builtin = 50, calls_validate = 50, calls_dumps = 50\<rparr>" 80]
    canonical_json_bytes_total [OF native_dumps_contract nested_arrays_simps(3),
      of "\<lparr>calls_builtin = 1000, calls_validate = 1000, calls_dumps = 1000\<rparr>" 80]
  by (simp add: nested_arrays_simps too_deep_def)

end
