(* ===== verification/Wire_Size.thy ===== *)
theory Wire_Size
  imports Wire Canonical_Limits "HOL-Library.Multiset"
begin

text \<open>
  How long the canonical bytes of a value are and how deep its brackets nest: \<open>json_size\<close> is the exact
  number of bytes of a content, and \<open>nested n\<close> says that at most \<open>n\<close> brackets are open at a time. The
  bounds are compositional in the dictionaries of records.
\<close>

section \<open>Sizes\<close>

definition json_size :: "json \<Rightarrow> nat" where "json_size j = length (text_bytes (json_text j))"

lemma canonical_size:
  assumes "wf_pyval v" and "canonical_json_bytes v = Inr b"
  shows "b = text_bytes (json_text (view v))" and "length b = json_size (view v)"
  using assms by (simp_all add: canonical_json_bytes_Inr text_bytes_def json_size_def)

text \<open>Printable ASCII without the two characters that JSON escapes.\<close>

definition plain_char :: "char \<Rightarrow> bool" where
  "plain_char c = (let n = of_char c :: nat in 32 \<le> n \<and> n < 127 \<and> n \<noteq> 34 \<and> n \<noteq> 92)"

definition plain :: "string \<Rightarrow> bool" where "plain s = list_all plain_char s"

lemma plain_bytes: "plain s \<Longrightarrow> text_bytes (concat (map escape_char (cps_of s))) = cps_of s"
  by (induction s) (auto simp: plain_def plain_char_def cps_of_def Let_def escape_char_def utf8_char_def)

lemma plain_append [simp]: "plain (s @ t) \<longleftrightarrow> plain s \<and> plain t"
  by (simp add: plain_def)

lemma length_cps_of [simp]: "length (cps_of s) = length s"
  by (simp add: cps_of_def)

lemma quote_bytes: "plain s \<Longrightarrow> length (text_bytes (quote (cps_of s))) = length s + 2"
  by (simp add: quote_def plain_bytes utf8_char_def)

lemma size_leaves [simp]:
  "json_size JNull = 4" "json_size (JBool True) = 4" "json_size (JBool False) = 5"
  by (simp_all add: json_size_def null_text_def true_text_def false_text_def utf8_char_def)

lemma size_flag: "json_size (JBool b) \<le> 5"
  by (cases b) simp_all

lemma size_text: "plain s \<Longrightarrow> json_size (jstr s) = length s + 2"
  by (simp add: json_size_def jstr_def quote_bytes)

lemma nat_repr_length: "n < 10 ^ Suc k \<Longrightarrow> length (nat_repr n) \<le> Suc k"
proof (induction k arbitrary: n)
  case 0
  then show ?case by (simp add: nat_repr.simps [of n])
next
  case (Suc k)
  show ?case
  proof (cases "n < 10")
    case False
    have "n div 10 < 10 ^ Suc k" using Suc.prems by (simp add: div_less_iff_less_mult mult.commute)
    then have "length (nat_repr (n div 10)) \<le> Suc k" by (rule Suc.IH)
    with False show ?thesis by (subst nat_repr.simps) simp
  qed (simp add: nat_repr.simps [of n])
qed

lemma size_int: "0 \<le> n \<Longrightarrow> n < 10 ^ Suc k \<Longrightarrow> json_size (JInt n) \<le> Suc k"
proof -
  assume n: "0 \<le> n" "n < 10 ^ Suc k"
  have "int (nat n) < int (10 ^ Suc k)" using n by simp
  then have "nat n < 10 ^ Suc k" by (simp only: of_nat_less_iff)
  then show ?thesis
    using n nat_repr_length [of "nat n" k] int_repr_ascii [of n] ascii_bytes [of "int_repr n"]
    by (simp add: json_size_def int_repr_def)
qed

lemma join_size: "length (text_bytes (join_comma ts)) \<le> sum_list (map (\<lambda>t. length (text_bytes t) + 1) ts)"
  by (induction ts rule: join_comma.induct) (simp_all add: utf8_char_def)

lemma size_arr: "json_size (JArr js) \<le> 2 + sum_list (map (\<lambda>j. json_size j + 1) js)"
  using join_size [of "map json_text js"] by (simp add: json_size_def utf8_char_def comp_def)

lemma size_obj:
  "json_size (JObj ps) \<le> 2 + sum_list (map (\<lambda>p. length (text_bytes (quote (fst p))) + json_size (snd p) + 2) ps)"
  using join_size [of "map (\<lambda>p. member_text (fst p, json_text (snd p))) ps"]
  by (simp add: json_size_def utf8_char_def comp_def member_text_def algebra_simps)

lemma sum_sorted: "sum_list (map f (sort_key g xs)) = (sum_list (map f xs) :: nat)"
  by (metis mset_map mset_sort sum_mset_sum_list)

lemma size_record:
  assumes "\<forall>p \<in> set kvs. plain (fst p)"
  shows "json_size (view (obj kvs)) \<le> 2 + sum_list (map (\<lambda>p. length (fst p) + 4 + json_size (view (snd p))) kvs)"
proof -
  let ?f = "\<lambda>p. length (text_bytes (quote (fst p))) + json_size (snd p) + 2"
  have "sum_list (map ?f (map (\<lambda>p. (cps_of (fst p), view (snd p))) kvs)) =
      sum_list (map (\<lambda>p. length (fst p) + 4 + json_size (view (snd p))) kvs)"
    using assms by (induction kvs) (simp_all add: quote_bytes)
  then show ?thesis
    using size_obj [of "sort_key fst (map (\<lambda>p. (cps_of (fst p), view (snd p))) kvs)"]
    by (simp only: obj_view sum_sorted)
qed

lemma sum_list_bound: "\<forall>x \<in> set xs. f x \<le> k \<Longrightarrow> sum_list (map f xs) \<le> length xs * (k::nat)"
  by (induction xs) (auto simp: add_mono)

lemma size_jlist:
  assumes "\<forall>v \<in> set vs. json_size (view v) \<le> k"
  shows "json_size (view (jlist vs)) \<le> 2 + length vs * (k + 1)"
proof -
  have "sum_list (map (\<lambda>v. json_size (view v) + 1) vs) \<le> length vs * (k + 1)"
    using assms by (intro sum_list_bound) simp
  then show ?thesis using size_arr [of "map view vs"] by (simp add: comp_def)
qed

lemma plain_digest_size: "digest_text d \<Longrightarrow> plain d \<and> length d = 71"
proof -
  assume "digest_text d"
  then obtain h where h: "d = ''sha256:'' @ h" "length h = 64" "\<forall>c \<in> set h. is_lower_hex c"
    by (auto simp: digest_text_def)
  have "plain_char c" if "is_lower_hex c" for c
    using that by (auto simp: is_lower_hex_def plain_char_def Let_def)
  with h show ?thesis by (simp add: plain_def list_all_iff plain_char_def)
qed

section \<open>Nesting\<close>

fun nested :: "nat \<Rightarrow> json \<Rightarrow> bool" where
  "nested 0 (JArr xs) = False"
| "nested (Suc n) (JArr xs) = (\<forall>x \<in> set xs. nested n x)"
| "nested 0 (JObj ps) = False"
| "nested (Suc n) (JObj ps) = (\<forall>p \<in> set ps. nested n (snd p))"
| "nested n j = True"

lemma nested_obj: "nested (Suc n) (view (obj kvs)) \<longleftrightarrow> (\<forall>p \<in> set kvs. nested n (view (snd p)))"
  by (auto simp: obj_view)

lemma nested_leaves [simp]: "nested n (jstr s)"
  by (cases n) (simp_all add: jstr_def)

lemma nested_mono: "nested n j \<Longrightarrow> n \<le> m \<Longrightarrow> nested m j"
proof (induction n arbitrary: j m)
  case 0
  then show ?case by (cases j; cases m) simp_all
next
  case (Suc n)
  then obtain k where "m = Suc k" "n \<le> k" by (cases m) auto
  with Suc show ?case by (cases j) auto
qed

end
