(* ===== verification/Capacity_Wire.thy ===== *)
theory Capacity_Wire
  imports Scheduling_Wire Capacity_Facts Wire_Size
begin

text \<open>
  The wire form of capacity decisions. A canonical text passes the bracket scan of the reader up to its
  nesting, the texts of all records fit the byte bounds, and every record that was constructed is read
  back from its canonical bytes.
\<close>

section \<open>The bracket scan\<close>

definition quiet :: "bytes \<Rightarrow> bool" where
  "quiet b = (\<forall>x \<in> set b. x \<notin> {34, 91, 93, 123, 125})"

lemma scan_quiet: "quiet b \<Longrightarrow> scan_depth d False e (b @ r) = scan_depth d False e r"
  by (induction b) (auto simp: quiet_def)

definition inner :: "bytes \<Rightarrow> bool" where
  "inner b = (\<forall>x \<in> set b. x \<noteq> 34 \<and> x \<noteq> 92)"

lemma scan_inner: "inner b \<Longrightarrow> scan_depth d True False (b @ r) = scan_depth d True False r"
  by (induction b) (auto simp: inner_def)

lemma utf8_char_high: "x \<in> set (utf8_char c) \<Longrightarrow> x = c \<or> 128 \<le> x"
  unfolding utf8_char_def
  by (cases "c < 0x80"; cases "c < 0x800"; cases "c < 0x10000"; simp) (elim disjE; simp)+

lemma utf8_char_inner: "c \<noteq> 34 \<Longrightarrow> c \<noteq> 92 \<Longrightarrow> inner (utf8_char c)"
  unfolding inner_def using utf8_char_high by fastforce

lemma scan_depth_escape: "scan_depth d True False (text_bytes (escape_char c) @ r) = scan_depth d True False r"
proof (cases "c \<in> {34, 92, 10, 13, 9, 12, 8}")
  case True
  then show ?thesis by (elim insertE emptyE; simp add: escape_char_def utf8_char_def)
next
  case False
  show ?thesis
  proof (cases "c < 32")
    case True
    define x y where "x = hex_cp (c div 16)" and "y = hex_cp (c mod 16)"
    have h: "hex_cp n \<noteq> 34 \<and> hex_cp n \<noteq> 92 \<and> hex_cp n < 128" if "n < 16" for n
      using that by (simp add: hex_cp_def)
    have "c div 16 < 16" "c mod 16 < 16" using True by simp_all
    then have xy: "x \<noteq> 34" "x \<noteq> 92" "x < 128" "y \<noteq> 34" "y \<noteq> 92" "y < 128"
      using h unfolding x_def y_def by blast+
    have "escape_char c = [92, 117, 48, 48, x, y]"
      using True False by (simp add: escape_char_def x_def y_def)
    then show ?thesis using xy by (simp add: utf8_char_def)
  next
    case c: False
    then have "text_bytes (escape_char c) = utf8_char c" using False by (simp add: escape_char_def)
    then show ?thesis using False by (simp add: scan_inner utf8_char_inner)
  qed
qed

lemma scan_quoted: "scan_depth d False False (text_bytes (quote s) @ r) = scan_depth d False False r"
proof -
  have "scan_depth d True False (text_bytes (concat (map escape_char s)) @ 34 # r) = scan_depth d False False r"
    by (induction s) (simp_all add: scan_depth_escape)
  then show ?thesis by (simp add: quote_def utf8_char_def)
qed

lemma scan_join:
  assumes "\<forall>t \<in> set ts. \<forall>r. scan_depth d False False (text_bytes t @ r) = scan_depth d False False r"
  shows "scan_depth d False False (text_bytes (join_comma ts) @ r) = scan_depth d False False r"
  using assms by (induction ts rule: join_comma.induct) (simp_all add: utf8_char_def)

lemma quiet_words: "quiet (text_bytes null_text)" "quiet (text_bytes true_text)" "quiet (text_bytes false_text)"
  by (simp_all add: quiet_def null_text_def true_text_def false_text_def utf8_char_def)

lemma quiet_int: "quiet (text_bytes (int_repr n))"
proof -
  have "\<forall>c \<in> set (int_repr n). c = 45 \<or> digit_cp c"
    using nat_repr_digits by (auto simp: int_repr_def)
  moreover have "text_bytes (int_repr n) = int_repr n" by (rule ascii_bytes [OF int_repr_ascii])
  ultimately show ?thesis by (fastforce simp: quiet_def digit_cp_def)
qed

lemma scan_json:
  "nested n j \<Longrightarrow> json_normal j \<Longrightarrow> 0 \<le> d \<Longrightarrow> d + int n \<le> MAX_JSON_DEPTH \<Longrightarrow>
     scan_depth d False False (text_bytes (json_text j) @ r) = scan_depth d False False r"
proof (induction j arbitrary: n d r)
  case JNull
  then show ?case by (simp add: scan_quiet quiet_words)
next
  case (JBool b)
  then show ?case by (simp add: scan_quiet quiet_words)
next
  case (JInt x)
  then show ?case by (simp add: scan_quiet quiet_int)
next
  case (JStr s)
  then show ?case by (simp add: scan_quoted)
next
  case (JArr xs)
  then obtain m where n: "n = Suc m" by (cases n) auto
  have "scan_depth (d + 1) False False (text_bytes (json_text x) @ r') = scan_depth (d + 1) False False r'"
    if "x \<in> set xs" for x r'
    using JArr.IH [OF that, of m "d + 1" r'] JArr.prems that by (simp add: n)
  then have "scan_depth (d + 1) False False (text_bytes (join_comma (map json_text xs)) @ 93 # r)
      = scan_depth (d + 1) False False (93 # r)"
    by (intro scan_join) auto
  then show ?case using JArr.prems by (simp add: n utf8_char_def)
next
  case (JObj ps)
  then obtain m where n: "n = Suc m" by (cases n) auto
  have v: "scan_depth (d + 1) False False (text_bytes (json_text (snd p)) @ r') = scan_depth (d + 1) False False r'"
    if "p \<in> set ps" for p r'
  proof -
    have "snd p \<in> Basic_BNFs.snds p" by (cases p) (simp add: snds.simps)
    then show ?thesis
      using JObj.IH [OF that _, of "snd p" m "d + 1" r'] JObj.prems that by (simp add: n)
  qed
  have "scan_depth (d + 1) False False (text_bytes (member_text (fst p, json_text (snd p))) @ r') =
      scan_depth (d + 1) False False r'" if "p \<in> set ps" for p r'
    using v [OF that] by (simp add: member_text_def scan_quoted utf8_char_def)
  then have "scan_depth (d + 1) False False
      (text_bytes (join_comma (map (\<lambda>p. member_text (fst p, json_text (snd p))) ps)) @ 125 # r)
      = scan_depth (d + 1) False False (125 # r)"
    by (intro scan_join) auto
  then show ?case using JObj.prems by (simp add: n utf8_char_def)
qed simp

text \<open>The reader gives back what a canonical text says.\<close>

lemma decode_canonical_object_view:
  assumes wf: "wf_pyval v" and b: "canonical_json_bytes v = Inr b" and obj: "is_object (view v)"
    and n: "nested 64 (view v)" and len: "length b \<le> MAX_CANONICAL_BYTES"
  shows "decode_canonical_object b = Inr (view v)"
proof -
  have d: "decode_canonical b = Inr (view v)" by (rule decode_canonical_view [OF wf b])
  then have j: "Option.bind (utf8_decode b) json_loads = Some (view v)"
      "canonical_json_bytes (py_of_json (view v)) = Inr b"
    by (auto simp: decode_canonical_def res_simps)
  have normal: "json_normal (view v)"
    using b wf view_normal(1) by (simp add: canonical_json_bytes_Inr)
  have "scan_depth 0 False False (text_bytes (json_text (view v)) @ []) = scan_depth 0 False False []"
    by (rule scan_json [OF n normal]) (simp_all add: MAX_JSON_DEPTH_def)
  then have s: "scan_depth 0 False False b = Inr ()"
    by (simp only: append_Nil2 canonical_size(1) [OF wf b] scan_depth.simps)
  have "b \<noteq> []"
  proof -
    have "json_text (view v) \<noteq> []" using json_text_first [OF normal] by blast
    then show ?thesis
      unfolding canonical_size(1) [OF wf b] by (cases "json_text (view v)") (auto simp: utf8_char_def)
  qed
  then show ?thesis using len by (simp add: decode_canonical_object_def s j obj)
qed

section \<open>Nesting of the records\<close>

lemma nested_jopt [simp]: "nested n (case m of None \<Rightarrow> JNull | Some s \<Rightarrow> jstr s)"
  by (cases m; cases n) simp_all

lemma nested_jopt_map [simp]: "nested n (case m of None \<Rightarrow> JNull | Some x \<Rightarrow> (jstr \<circ> f) x)"
  by (cases m; cases n) simp_all

lemma nested_small [simp]: "nested n JNull" "nested n (JInt i)" "nested n (JBool b)" "nested n (JStr s)"
  by (cases n; simp)+

lemma nested_maybe: "(\<And>x. nested n (view (f x))) \<Longrightarrow> nested n (view (jmaybe f m))"
  by (cases m) (simp_all add: jmaybe_def)

lemma nested_jlist: "(\<And>x. nested n (view (f x))) \<Longrightarrow> nested (Suc n) (view (jlist (map f xs)))"
  by simp

lemma nested_reference: "nested (Suc n) (view (ReasonReference_value r))"
  unfolding ReasonReference_value_def nested_obj by simp

lemma nested_priority: "nested (Suc (Suc (Suc n))) (view (PrioritySelection_value p))"
  unfolding PrioritySelection_value_def nested_obj by (simp add: nested_reference)

lemma nested_boundary: "nested (Suc n) (view (DeadlineBoundary_value d))"
  unfolding DeadlineBoundary_value_def nested_obj by simp

lemma nested_policy: "nested (Suc (Suc (Suc n))) (view (UrgencyDeadlinePolicy_value p))"
proof -
  have "nested (Suc n) (view (LaneTimingRule_value r))" for r
    unfolding LaneTimingRule_value_def nested_obj by simp
  then show ?thesis unfolding UrgencyDeadlinePolicy_value_def nested_obj by simp
qed

lemma nested_input: "nested (Suc (Suc (Suc (Suc n)))) (view (UrgencyDeadlineInput_value i))"
  unfolding UrgencyDeadlineInput_value_def nested_obj
  by (simp add: nested_priority nested_maybe nested_boundary)

lemma nested_observation: "nested (Suc (Suc (Suc (Suc (Suc n))))) (view (StarvationObservation_value s))"
proof -
  have "nested (Suc m) (view (order_key_value k))" for m k
    by (simp add: order_key_value_def split: prod.splits)
  then show ?thesis
    unfolding StarvationObservation_value_def nested_obj
    by (simp add: nested_policy nested_input nested_maybe)
qed

lemma nested_item: "nested (Suc (Suc (Suc (Suc (Suc (Suc n)))))) (view (CapacityPopulationItem_value c))"
proof -
  have "nested (Suc (Suc (Suc m))) (view (CapacityRevalidationEvidence_value e))" for m e
    unfolding CapacityRevalidationEvidence_value_def nested_obj by (simp add: nested_reference)
  then show ?thesis
    unfolding CapacityPopulationItem_value_def nested_obj by (simp add: nested_observation nested_maybe)
qed

lemma nested_snapshot:
  "nested (Suc (Suc (Suc (Suc (Suc (Suc (Suc (Suc n)))))))) (view (CapacitySnapshot_value s))"
  unfolding CapacitySnapshot_value_def nested_obj by (simp add: nested_policy nested_item)

lemma nested_decision: "nested 64 (view (ReservedCapacityDecision_value d))"
proof -
  have a: "nested (Suc (Suc n)) (view (jlist (map CapacityItemAllocation_value as)))" for n as
    by (rule nested_jlist) (simp add: CapacityItemAllocation_value_def nested_obj)
  have g: "nested (Suc (Suc n)) (view (jlist (map item_keys_value cs)))" for n cs
    by (rule nested_jlist) (simp add: item_keys_value_def)
  have p: "nested (Suc n) (view (ReservedCapacityPolicy_value p))" for n p
    unfolding ReservedCapacityPolicy_value_def nested_obj by simp
  have "nested (Suc (Suc (Suc (Suc (Suc (Suc (Suc (Suc (Suc 0))))))))) (view (ReservedCapacityDecision_value d))"
    unfolding ReservedCapacityDecision_value_def nested_obj
    by (simp add: nested_snapshot p a g del: jlist_view_eq)
  then show ?thesis by (rule nested_mono) simp
qed

section \<open>Observations from their bytes\<close>

lemma StarvationObservation_bytes_back:
  assumes "StarvationObservation_valid zones s" and b: "canonical_json_bytes (StarvationObservation_value s) = Inr b"
  shows "StarvationObservation_from_canonical_bytes zones b = Inr s"
proof -
  have len: "length b \<le> MAX_STARVATION_OBSERVATION_BYTES"
    using observation_valid_fields(7) [OF assms(1)] b
    by (auto simp: StarvationObservation_post_init_def res_simps)
  have n: "nested 64 (view (StarvationObservation_value s))"
    by (rule nested_mono [OF nested_observation [where n = 0]]) simp
  have "decode_canonical_object b = Inr (view (StarvationObservation_value s))"
    using len by (intro decode_canonical_object_view observation.value_wf [OF assms(1)] b n)
      (simp_all add: MAX_STARVATION_OBSERVATION_BYTES_def StarvationObservation_value_def)
  then show ?thesis
    using len by (simp add: StarvationObservation_from_canonical_bytes_def StarvationObservation_read_value [OF assms(1)] b)
qed

section \<open>Policies and evidence\<close>

interpretation pathState: str_enum CapacityPathState_value CapacityPathState_members
proof
  show "x \<in> set CapacityPathState_members" for x by (cases x) (simp_all add: CapacityPathState_members_def)
qed (simp add: CapacityPathState_members_def)

interpretation reservedDisposition: str_enum ReservedCapacityDisposition_value ReservedCapacityDisposition_members
proof
  show "x \<in> set ReservedCapacityDisposition_members" for x
    by (cases x) (simp_all add: ReservedCapacityDisposition_members_def)
qed (simp add: ReservedCapacityDisposition_members_def)

interpretation workState: str_enum CapacityWorkState_value CapacityWorkState_members
proof
  show "x \<in> set CapacityWorkState_members" for x by (cases x) (simp_all add: CapacityWorkState_members_def)
qed (simp add: CapacityWorkState_members_def)

interpretation revalidationResult: str_enum CapacityRevalidationResult_value CapacityRevalidationResult_members
proof
  show "x \<in> set CapacityRevalidationResult_members" for x
    by (cases x) (simp_all add: CapacityRevalidationResult_members_def)
qed (simp add: CapacityRevalidationResult_members_def)

lemma ReservedCapacityPolicy_wf [simp]: "wf_pyval (ReservedCapacityPolicy_value p)"
  by (simp add: ReservedCapacityPolicy_value_def obj_wf)

lemma ReservedCapacityPolicy_read_value:
  assumes "ReservedCapacityPolicy_valid p"
  shows "ReservedCapacityPolicy_read (view (ReservedCapacityPolicy_value p)) = Inr p"
proof -
  let ?j = "view (ReservedCapacityPolicy_value p)"
  have k: "strict_keys [''schema_version'', ''record_type'', ''policy_id'', ''policy_version'',
      ''total_slots'', ''urgent_reserved_slots'', ''minimum_ordinary_slots'', ''max_urgent_slots'',
      ''ordinary_capacity_ceiling'', ''degraded_urgent_disposition'', ''authority'', ''effect'',
      ''production_activation_authorised''] ?j"
    unfolding ReservedCapacityPolicy_value_def by (rule strict_keys_obj) simp
  have a: "jfield ''schema_version'' ?j = jstr (rp_schema_version p)"
    "jfield ''record_type'' ?j = jstr ''reserved_capacity_policy''"
    "jfield ''policy_id'' ?j = jstr (rp_policy_id p)" "jfield ''policy_version'' ?j = jstr (rp_policy_version p)"
    "jfield ''total_slots'' ?j = JInt (rp_total_slots p)"
    "jfield ''urgent_reserved_slots'' ?j = JInt (rp_urgent_reserved_slots p)"
    "jfield ''minimum_ordinary_slots'' ?j = JInt (rp_minimum_ordinary_slots p)"
    "jfield ''max_urgent_slots'' ?j = JInt (max_urgent_slots p)"
    "jfield ''ordinary_capacity_ceiling'' ?j = JInt (ordinary_capacity_ceiling p)"
    "jfield ''degraded_urgent_disposition'' ?j =
      jstr (ReservedCapacityDisposition_value (rp_degraded_urgent_disposition p))"
    "jfield ''authority'' ?j = jstr (rp_authority p)" "jfield ''effect'' ?j = jstr (rp_effect p)"
    "jfield ''production_activation_authorised'' ?j = JBool (rp_production_activation_authorised p)"
    unfolding ReservedCapacityPolicy_value_def by (subst jfield_simps; simp)+
  show ?thesis
    unfolding ReservedCapacityPolicy_read_def
    by (simp add: k a Let_def) (cases p, use assms in \<open>simp add: ReservedCapacityPolicy_valid_def\<close>)
qed

interpretation capacity_policy: wire_record ReservedCapacityPolicy_value ReservedCapacityPolicy_valid
  ReservedCapacityPolicy_read
  by unfold_locales (simp_all add: ReservedCapacityPolicy_read_value)

lemma capacity_policy_encodable:
  assumes "ReservedCapacityPolicy_valid p"
  shows "encodable (ReservedCapacityPolicy_value p)"
proof -
  have "safe_int (rp_total_slots p)" "safe_int (rp_urgent_reserved_slots p)" "safe_int (rp_minimum_ordinary_slots p)"
      "safe_int (max_urgent_slots p)" "safe_int (ordinary_capacity_ceiling p)"
    using policy_slots [OF assms]
    by (auto simp: max_urgent_slots_def ordinary_capacity_ceiling_def MAX_INTEGER_def intro!: safe_small)
  then show ?thesis by (simp add: ReservedCapacityPolicy_value_def obj_encodable)
qed

lemma CapacityRevalidationEvidence_wf:
  "CapacityRevalidationEvidence_valid e \<Longrightarrow> wf_pyval (CapacityRevalidationEvidence_value e)"
  by (simp add: CapacityRevalidationEvidence_value_def CapacityRevalidationEvidence_valid_def obj_wf list_all_iff
      reference.value_wf)

lemma CapacityRevalidationEvidence_read_value:
  assumes "CapacityRevalidationEvidence_valid e"
  shows "CapacityRevalidationEvidence_read (view (CapacityRevalidationEvidence_value e)) = Inr e"
proof -
  let ?j = "view (CapacityRevalidationEvidence_value e)"
  have k: "strict_keys [''work_item_id'', ''work_item_version_id'', ''work_item_version_digest'',
      ''starvation_observation_digest'', ''governing_policy_digest'', ''snapshot_observed_at'',
      ''currentness_basis'', ''result'', ''authority'', ''effect''] ?j"
    unfolding CapacityRevalidationEvidence_value_def by (rule strict_keys_obj) simp
  have a: "jfield ''work_item_id'' ?j = jstr (re_work_item_id e)"
    "jfield ''work_item_version_id'' ?j = jstr (re_work_item_version_id e)"
    "jfield ''work_item_version_digest'' ?j = jstr (re_work_item_version_digest e)"
    "jfield ''starvation_observation_digest'' ?j = jstr (re_starvation_observation_digest e)"
    "jfield ''governing_policy_digest'' ?j = jstr (re_governing_policy_digest e)"
    "jfield ''snapshot_observed_at'' ?j = jstr (re_snapshot_observed_at e)"
    "jfield ''currentness_basis'' ?j = JArr (map (view \<circ> ReasonReference_value) (re_currentness_basis e))"
    "jfield ''result'' ?j = jstr (CapacityRevalidationResult_value (re_result e))"
    "jfield ''authority'' ?j = jstr (re_authority e)" "jfield ''effect'' ?j = jstr (re_effect e)"
    unfolding CapacityRevalidationEvidence_value_def by (subst jfield_simps; simp)+
  have l: "res_map ReasonReference_read (map (view \<circ> ReasonReference_value) (re_currentness_basis e))
      = Inr (re_currentness_basis e)"
    using assms by (intro reference.reads_list) (simp add: CapacityRevalidationEvidence_valid_def list_all_iff)
  have o: "list_all is_object (map (view \<circ> ReasonReference_value) (re_currentness_basis e))"
    by (simp add: list_all_iff ReasonReference_value_def)
  show ?thesis
    unfolding CapacityRevalidationEvidence_read_def
    by (simp add: k a l o Let_def) (cases e, use assms in \<open>simp add: CapacityRevalidationEvidence_valid_def\<close>)
qed

interpretation evidence: wire_record CapacityRevalidationEvidence_value CapacityRevalidationEvidence_valid
  CapacityRevalidationEvidence_read
  by unfold_locales (simp_all add: CapacityRevalidationEvidence_wf CapacityRevalidationEvidence_read_value)

lemma evidence_encodable:
  "CapacityRevalidationEvidence_valid e \<Longrightarrow> encodable (CapacityRevalidationEvidence_value e)"
  by (auto simp: CapacityRevalidationEvidence_value_def CapacityRevalidationEvidence_valid_def obj_encodable
      list_all_iff intro: reference_value_encodable)

section \<open>Population members\<close>

lemma item_valid_fields:
  assumes "CapacityPopulationItem_valid zones c"
  shows "CapacityPopulationItem_post_init c = Inr ()" "StarvationObservation_valid zones (ci_observation c)"
    "\<And>e. ci_revalidation_evidence c = Some e \<Longrightarrow> CapacityRevalidationEvidence_valid e"
  using assms by (auto simp: CapacityPopulationItem_valid_def)

lemma CapacityPopulationItem_wf:
  assumes "CapacityPopulationItem_valid zones c"
  shows "wf_pyval (CapacityPopulationItem_value c)"
  using item_valid_fields [OF assms]
  by (simp add: CapacityPopulationItem_value_def obj_wf jmaybe_wf observation.value_wf CapacityRevalidationEvidence_wf)

lemma observation_bytes:
  assumes "StarvationObservation_valid zones s"
  obtains b where "canonical_json_bytes (StarvationObservation_value s) = Inr b"
  using observation_encodable [OF observation_valid_fields(1-3) [OF assms]]
    canonical_json_bytes_encodable [OF observation.value_wf [OF assms]] by blast

lemma CapacityPopulationItem_read_value:
  assumes "CapacityPopulationItem_valid zones c"
  shows "CapacityPopulationItem_read zones (view (CapacityPopulationItem_value c)) = Inr c"
proof -
  let ?j = "view (CapacityPopulationItem_value c)"
  note f = item_valid_fields [OF assms]
  have k: "strict_keys [''observation'', ''observation_digest'', ''state'', ''revalidation_evidence'',
      ''revalidation_evidence_digest''] ?j"
    unfolding CapacityPopulationItem_value_def by (rule strict_keys_obj) simp
  have a: "jfield ''observation'' ?j = view (StarvationObservation_value (ci_observation c))"
    "jfield ''observation_digest'' ?j = jstr (decision_digest (ci_observation c))"
    "jfield ''state'' ?j = jstr (CapacityWorkState_value (ci_state c))"
    "jfield ''revalidation_evidence'' ?j = view (jmaybe CapacityRevalidationEvidence_value (ci_revalidation_evidence c))"
    "jfield ''revalidation_evidence_digest'' ?j = view (jopt (map_option evidence_digest (ci_revalidation_evidence c)))"
    unfolding CapacityPopulationItem_value_def by (subst jfield_simps; simp del: view_jopt)+
  obtain b where b: "canonical_json_bytes (StarvationObservation_value (ci_observation c)) = Inr b"
    using observation_bytes [OF f(2)] .
  have raw: "canonical_json_bytes (py_of_json (view (StarvationObservation_value (ci_observation c)))) = Inr b"
    using decode_canonical_view [OF observation.value_wf [OF f(2)] b] by (auto simp: decode_canonical_def res_simps)
  have rd: "StarvationObservation_from_canonical_bytes zones b = Inr (ci_observation c)"
    by (rule StarvationObservation_bytes_back [OF f(2) b])
  have e: "as_opt CapacityRevalidationEvidence_read
      (view (jmaybe CapacityRevalidationEvidence_value (ci_revalidation_evidence c))) = Inr (ci_revalidation_evidence c)"
    using f(3) by (rule evidence.reads_opt) (simp_all add: CapacityRevalidationEvidence_value_def)
  have o: "is_object (view (StarvationObservation_value (ci_observation c)))"
    by (simp add: StarvationObservation_value_def)
  have o': "view (jmaybe CapacityRevalidationEvidence_value (ci_revalidation_evidence c)) = JNull \<or>
       is_object (view (jmaybe CapacityRevalidationEvidence_value (ci_revalidation_evidence c)))"
    by (cases "ci_revalidation_evidence c") (simp_all add: jmaybe_def CapacityRevalidationEvidence_value_def)
  show ?thesis
    unfolding CapacityPopulationItem_read_def
    by (simp only: k a raw rd e o o' res_bind_simps require_simps simp_thms workState.read_value Let_def
        malformed_Inr if_True)
      (cases c, use f(1) in simp)
qed

interpretation population_item: wire_record CapacityPopulationItem_value "CapacityPopulationItem_valid zones"
  "CapacityPopulationItem_read zones" for zones
  by unfold_locales (simp_all add: CapacityPopulationItem_read_value CapacityPopulationItem_wf)

lemma item_bytes:
  assumes "CapacityPopulationItem_valid zones c"
  obtains b where "canonical_json_bytes (CapacityPopulationItem_value c) = Inr b" "length b \<le> MAX_CAPACITY_ITEM_BYTES"
  using item_valid_fields(1) [OF assms]
  by (auto simp: CapacityPopulationItem_post_init_def require_item_bytes_def Let_def res_simps)

lemma item_encodable: "CapacityPopulationItem_valid zones c \<Longrightarrow> encodable (CapacityPopulationItem_value c)"
  using item_bytes canonical_json_bytes_encodable [OF CapacityPopulationItem_wf] by metis

section \<open>Snapshots\<close>

lemma snapshot_valid_fields:
  assumes "CapacitySnapshot_valid zones s"
  shows "CapacitySnapshot_post_init s = Inr ()" "UrgencyDeadlinePolicy_valid (cs_urgency_policy s)"
    "\<And>c. c \<in> set (cs_population s) \<Longrightarrow> CapacityPopulationItem_valid zones c"
  using assms by (auto simp: CapacitySnapshot_valid_def list_all_iff)

lemma CapacitySnapshot_wf:
  assumes "CapacitySnapshot_valid zones s"
  shows "wf_pyval (CapacitySnapshot_value s)"
  using CapacityPopulationItem_wf [OF snapshot_valid_fields(3) [OF assms]]
  by (auto simp: CapacitySnapshot_value_def obj_wf)

lemma item_object [simp]: "is_object (view (CapacityPopulationItem_value c))"
  by (simp add: CapacityPopulationItem_value_def)

lemma CapacitySnapshot_read_value:
  assumes "CapacitySnapshot_valid zones s"
  shows "CapacitySnapshot_read zones (view (CapacitySnapshot_value s)) = Inr s"
proof -
  let ?j = "view (CapacitySnapshot_value s)"
  note f = snapshot_valid_fields [OF assms]
  have k: "strict_keys [''observed_at'', ''urgency_policy'', ''urgency_policy_digest'', ''population'',
      ''urgent_path_state'', ''active_urgent_slots'', ''active_ordinary_slots'', ''pending_urgent'',
      ''pending_ordinary''] ?j"
    unfolding CapacitySnapshot_value_def by (rule strict_keys_obj) simp
  have a: "jfield ''observed_at'' ?j = jstr (cs_observed_at s)"
    "jfield ''urgency_policy'' ?j = view (UrgencyDeadlinePolicy_value (cs_urgency_policy s))"
    "jfield ''urgency_policy_digest'' ?j = jstr (urgency_policy_digest (cs_urgency_policy s))"
    "jfield ''population'' ?j = JArr (map (view \<circ> CapacityPopulationItem_value) (cs_population s))"
    "jfield ''urgent_path_state'' ?j = jstr (CapacityPathState_value (cs_urgent_path_state s))"
    "jfield ''active_urgent_slots'' ?j = JInt (active_urgent_slots s)"
    "jfield ''active_ordinary_slots'' ?j = JInt (active_ordinary_slots s)"
    "jfield ''pending_urgent'' ?j = JInt (pending_urgent s)" "jfield ''pending_ordinary'' ?j = JInt (pending_ordinary s)"
    unfolding CapacitySnapshot_value_def by (subst jfield_simps; simp)+
  have l: "res_map (CapacityPopulationItem_read zones) (map (view \<circ> CapacityPopulationItem_value) (cs_population s))
      = Inr (cs_population s)"
    using f(3) by (intro population_item.reads_list) simp
  have o: "list_all is_object (map (view \<circ> CapacityPopulationItem_value) (cs_population s))"
    by (simp add: list_all_iff)
  have p: "UrgencyDeadlinePolicy_read (view (UrgencyDeadlinePolicy_value (cs_urgency_policy s))) = Inr (cs_urgency_policy s)"
    by (rule urgency_policy.reads_back [OF f(2)])
  show ?thesis
    unfolding CapacitySnapshot_read_def
    by (simp add: k a l o p Let_def) (cases s, use f(1) in simp)
qed

interpretation snapshot: wire_record CapacitySnapshot_value "CapacitySnapshot_valid zones" "CapacitySnapshot_read zones"
  for zones
  by unfold_locales (simp_all add: CapacitySnapshot_read_value CapacitySnapshot_wf)

lemma snapshot_counts:
  assumes "CapacitySnapshot_valid zones s"
  shows "0 \<le> active_urgent_slots s" "active_urgent_slots s \<le> 48" "0 \<le> active_ordinary_slots s"
    "active_ordinary_slots s \<le> 48" "0 \<le> pending_urgent s" "pending_urgent s \<le> 48"
    "0 \<le> pending_ordinary s" "pending_ordinary s \<le> 48"
proof -
  have "length (cs_population s) \<le> 48" by (rule snapshot_keys(2) [OF snapshot_valid_fields(1) [OF assms]])
  then have "length (snapshot_items st cl s) \<le> 48" for st cl
    using length_filter_le [of _ "cs_population s"] le_trans unfolding snapshot_items_def by blast
  then show "0 \<le> active_urgent_slots s" "active_urgent_slots s \<le> 48" "0 \<le> active_ordinary_slots s"
    "active_ordinary_slots s \<le> 48" "0 \<le> pending_urgent s" "pending_urgent s \<le> 48"
    "0 \<le> pending_ordinary s" "pending_ordinary s \<le> 48"
    by (simp_all add: active_urgent_slots_def active_ordinary_slots_def pending_urgent_def pending_ordinary_def)
qed

lemma snapshot_encodable:
  assumes "CapacitySnapshot_valid zones s"
  shows "encodable (CapacitySnapshot_value s)"
  using snapshot_counts [OF assms] urgency_policy_encodable [OF snapshot_valid_fields(2) [OF assms]]
    item_encodable [OF snapshot_valid_fields(3) [OF assms]]
  by (auto simp: CapacitySnapshot_value_def obj_encodable safe_small)

section \<open>Decisions\<close>

lemma decision_valid_iff:
  assumes "ReservedCapacityDecision_valid zones d"
  shows "d = decision_of (cd_policy d) (cd_snapshot d)" and "within_reserves (cd_policy d) (cd_snapshot d)"
    and "ReservedCapacityPolicy_valid (cd_policy d)" and "CapacitySnapshot_valid zones (cd_snapshot d)"
    and "ReservedCapacityDecision_post_init d = Inr ()"
proof -
  show v: "ReservedCapacityPolicy_valid (cd_policy d)" "CapacitySnapshot_valid zones (cd_snapshot d)"
      "ReservedCapacityDecision_post_init d = Inr ()"
    using assms by (simp_all add: ReservedCapacityDecision_valid_def)
  have keys: "distinct (map identity_key (cs_population (cd_snapshot d)))"
    by (rule snapshot_keys(1) [OF snapshot_valid_fields(1) [OF v(2)]])
  from v(3) have c: "capacity_values (cd_policy d) (cd_snapshot d) = Inr (cd_allocations d, cd_unallocated_slots d)"
      "cd_authority d = ''NONE''" "cd_effect d = ''NONE''" "\<not> cd_production_activation_authorised d"
    by (auto simp: ReservedCapacityDecision_post_init_def res_simps)
  show w: "within_reserves (cd_policy d) (cd_snapshot d)"
    using c(1) capacity_values_outside by fastforce
  show "d = decision_of (cd_policy d) (cd_snapshot d)"
    using c decision_values [OF keys w] by (cases d) (simp add: decision_of_def)
qed

lemma decision_numbers:
  assumes "ReservedCapacityDecision_valid zones d"
  shows "0 \<le> urgent_grants d" "urgent_grants d \<le> MAX_INTEGER" "0 \<le> ordinary_grants d" "ordinary_grants d \<le> MAX_INTEGER"
    "0 \<le> cd_unallocated_slots d" "cd_unallocated_slots d \<le> MAX_INTEGER"
    "0 \<le> active_after_urgent d" "active_after_urgent d \<le> MAX_INTEGER"
    "0 \<le> active_after_ordinary d" "active_after_ordinary d \<le> MAX_INTEGER"
proof -
  note v = decision_valid_iff [OF assms]
  let ?p = "cd_policy d" and ?s = "cd_snapshot d"
  have keys: "distinct (map identity_key (cs_population ?s))"
    by (rule snapshot_keys(1) [OF snapshot_valid_fields(1) [OF v(4)]])
  note g = decision_grants [OF keys, of ?p, folded v(1)]
  note l = limits_nonneg [OF v(2)] and p = policy_slots [OF v(3)] and u = unallocated_bounds [OF v(2), folded v(1)]
  have a: "0 \<le> active_urgent_slots ?s" "0 \<le> active_ordinary_slots ?s"
    by (simp_all add: active_urgent_slots_def active_ordinary_slots_def)
  have "urgent_limit ?p ?s (free_slots ?p ?s) \<le> free_slots ?p ?s"
    using v(2) a by (simp add: urgent_limit_def free_slots_def within_reserves_def)
  moreover have "ordinary_limit ?p ?s \<le> free_slots ?p ?s - int (length (urgent_chosen ?p ?s))"
    by (simp add: ordinary_limit_def)
  ultimately show "0 \<le> urgent_grants d" "urgent_grants d \<le> MAX_INTEGER" "0 \<le> ordinary_grants d" "ordinary_grants d \<le> MAX_INTEGER"
    "0 \<le> cd_unallocated_slots d" "cd_unallocated_slots d \<le> MAX_INTEGER"
    "0 \<le> active_after_urgent d" "active_after_urgent d \<le> MAX_INTEGER"
    "0 \<le> active_after_ordinary d" "active_after_ordinary d \<le> MAX_INTEGER"
    using g l p u a unfolding free_slots_def active_after_urgent_def active_after_ordinary_def by linarith+
qed

lemma ReservedCapacityDecision_wf:
  "ReservedCapacityDecision_valid zones d \<Longrightarrow> wf_pyval (ReservedCapacityDecision_value d)"
  using CapacitySnapshot_wf [OF decision_valid_iff(4)]
  by (auto simp: ReservedCapacityDecision_value_def CapacityItemAllocation_value_def item_keys_value_def obj_wf)

lemma decision_encodable:
  assumes "ReservedCapacityDecision_valid zones d"
  shows "encodable (ReservedCapacityDecision_value d)"
  using decision_numbers [OF assms] snapshot_encodable [OF decision_valid_iff(4) [OF assms]]
    capacity_policy_encodable [OF decision_valid_iff(3) [OF assms]]
  by (auto simp: ReservedCapacityDecision_value_def CapacityItemAllocation_value_def item_keys_value_def
      obj_encodable bounded_safe)

lemma ReservedCapacityDecision_read_value:
  assumes "ReservedCapacityDecision_valid zones d"
  shows "ReservedCapacityDecision_read zones (view (ReservedCapacityDecision_value d)) = Inr d"
proof -
  let ?j = "view (ReservedCapacityDecision_value d)"
  note v = decision_valid_iff [OF assms]
  have k: "strict_keys [''schema_version'', ''record_type'', ''policy'', ''policy_digest'', ''snapshot'',
      ''allocations'', ''granted_item_keys'', ''urgent_grants'', ''ordinary_grants'', ''unallocated_slots'',
      ''active_after_urgent'', ''active_after_ordinary'', ''urgent_disposition'', ''ordinary_disposition'',
      ''downgraded_urgent_to_ordinary'', ''authority'', ''effect'', ''production_activation_authorised''] ?j"
    unfolding ReservedCapacityDecision_value_def by (rule strict_keys_obj) simp
  have a: "jfield ''schema_version'' ?j = jstr SCHEDULING_POLICY_SCHEMA_VERSION"
    "jfield ''record_type'' ?j = jstr ''reserved_capacity_decision''"
    "jfield ''policy'' ?j = view (ReservedCapacityPolicy_value (cd_policy d))"
    "jfield ''policy_digest'' ?j = jstr (capacity_policy_digest (cd_policy d))"
    "jfield ''snapshot'' ?j = view (CapacitySnapshot_value (cd_snapshot d))"
    "jfield ''allocations'' ?j = JArr (map (view \<circ> CapacityItemAllocation_value) (cd_allocations d))"
    "jfield ''unallocated_slots'' ?j = JInt (cd_unallocated_slots d)"
    "jfield ''authority'' ?j = jstr (cd_authority d)" "jfield ''effect'' ?j = jstr (cd_effect d)"
    "jfield ''production_activation_authorised'' ?j = JBool (cd_production_activation_authorised d)"
    unfolding ReservedCapacityDecision_value_def by (subst jfield_simps; simp)+
  have p: "ReservedCapacityPolicy_read (view (ReservedCapacityPolicy_value (cd_policy d))) = Inr (cd_policy d)"
    by (rule capacity_policy.reads_back [OF v(3)])
  have s: "CapacitySnapshot_read zones (view (CapacitySnapshot_value (cd_snapshot d))) = Inr (cd_snapshot d)"
    by (rule snapshot.reads_back [OF v(4)])
  have o: "is_object (view (ReservedCapacityPolicy_value (cd_policy d)))" "is_object (view (CapacitySnapshot_value (cd_snapshot d)))"
    by (simp_all add: ReservedCapacityPolicy_value_def CapacitySnapshot_value_def)
  have c: "capacity_values (cd_policy d) (cd_snapshot d) = Inr (cd_allocations d, cd_unallocated_slots d)"
    using v(5) by (auto simp: ReservedCapacityDecision_post_init_def res_simps)
  show ?thesis
    unfolding ReservedCapacityDecision_read_def
    by (simp add: k a p s o c Let_def) (cases d, use v(5) in simp)
qed

interpretation decision: wire_record ReservedCapacityDecision_value "ReservedCapacityDecision_valid zones"
  "ReservedCapacityDecision_read zones" for zones
  by unfold_locales (simp_all add: ReservedCapacityDecision_read_value ReservedCapacityDecision_wf)

end
