(* ===== verification/Capacity_Size.thy ===== *)
theory Capacity_Size
  imports Capacity_Wire
begin

text \<open>
  The canonical bytes of a capacity decision fit the byte bound of its reader: the population takes at
  most \<open>48 * 16384\<close> bytes by the check of every item, and the rest stays below the overhead bound.
\<close>

section \<open>Short texts\<close>

definition short :: "nat \<Rightarrow> string \<Rightarrow> bool" where
  "short k s = (plain s \<and> length s \<le> k)"

lemma size_short: "short k s \<Longrightarrow> json_size (jstr s) \<le> k + 2"
  by (simp add: short_def size_text)

lemma plain_alpha: "is_alpha c \<or> is_digit c \<Longrightarrow> plain_char c"
  unfolding is_alpha_def is_digit_def plain_char_def Let_def by (elim disjE conjE; intro conjI; linarith)

lemma plain_token_char: "contract_token_char c \<Longrightarrow> plain_char c"
proof -
  assume "contract_token_char c"
  then have "is_alpha c \<or> is_digit c \<or> c \<in> {CHR ''.'', CHR ''_'', CHR '':'', CHR ''-''}"
    by (simp add: contract_token_char_def)
  moreover have "plain_char c" if "c \<in> {CHR ''.'', CHR ''_'', CHR '':'', CHR ''-''}"
    using that by (elim insertE emptyE; simp add: plain_char_def)
  ultimately show ?thesis using plain_alpha by blast
qed

lemma short_token: "contract_token s \<Longrightarrow> short 256 s"
  by (auto simp: contract_token_def short_def plain_def list_all_iff plain_token_char plain_alpha split: list.splits)

lemma short_digest_text: "digest_text d \<Longrightarrow> short 71 d"
  using plain_digest_size by (simp add: short_def)

lemma short_digest: "plain_digest d \<Longrightarrow> short 71 d"
proof -
  assume d: "plain_digest d"
  have "plain_char c" if "is_lower_hex c" for c
    using that by (auto simp: is_lower_hex_def plain_char_def Let_def)
  then have "plain (drop 7 d)" using d by (simp add: plain_def plain_digest_def list_all_iff)
  moreover have "plain (take 7 d)" using d by (simp add: plain_digest_def) (simp add: plain_def plain_char_def)
  ultimately have "plain (take 7 d @ drop 7 d)" by (simp only: plain_append simp_thms)
  then show ?thesis using d by (simp add: short_def plain_digest_def)
qed

lemma plain_hex_digit: "plain_char (hex_digit (n mod 10))"
proof -
  have "n mod 10 < 10" by simp
  then have "n mod 10 < 79 \<and> n mod 10 \<noteq> 44" by linarith
  with \<open>n mod 10 < 10\<close> show ?thesis by (simp add: hex_digit_def plain_char_def Let_def)
qed

lemma short_digit: "plain (dec_fixed k n)"
  by (induction k arbitrary: n) (simp_all add: plain_def plain_hex_digit)

lemma short_utc: "read_utc t = Some n \<Longrightarrow> short 20 t"
proof -
  assume r: "read_utc t = Some n"
  then have t: "t = format_utc n" using read_utc_format by simp
  have "plain t" unfolding t format_utc_def format_civil_def Let_def format_fields_def
    by (simp only: plain_append short_digit simp_thms) (simp add: plain_def plain_char_def)
  moreover have "length t = 20"
    using r by (auto simp: read_utc_def read_civil_def Let_def split: if_splits)
  ultimately show ?thesis by (simp add: short_def)
qed

lemma short_values [simp]:
  "short 31 (ReservedCapacityDisposition_value x1)" "short 15 (CapacityClass_value x2)"
  "short 31 (CapacityAllocationDisposition_value x3)" "short 11 (CapacityRevalidationResult_value x4)"
  "short 11 (CapacityPathState_value x5)" "short 19 (PriorityLane_value x6)"
       apply (cases x1; simp add: short_def plain_def plain_char_def)
      apply (cases x2; simp add: short_def plain_def plain_char_def)
     apply (cases x3; simp add: short_def plain_def plain_char_def)
    apply (cases x4; simp add: short_def plain_def plain_char_def)
   apply (cases x5; simp add: short_def plain_def plain_char_def)
  apply (cases x6; simp add: short_def plain_def plain_char_def)
  done


section \<open>Sizes of the parts\<close>

lemma size_count: "0 \<le> n \<Longrightarrow> n \<le> MAX_INTEGER \<Longrightarrow> json_size (JInt n) \<le> 10"
  using size_int [of n 9] by (simp add: MAX_INTEGER_def)

lemma size_record_le:
  assumes "list_all (\<lambda>p. plain (fst p)) kvs"
    and "2 + sum_list (map (\<lambda>p. length (fst p) + 4 + json_size (view (snd p))) kvs) \<le> n"
  shows "json_size (view (obj kvs)) \<le> n"
  using size_record [of kvs] assms by (auto simp: list_all_iff)

lemma size_digest:
  "wf_pyval v \<Longrightarrow> encodable v \<Longrightarrow> json_size (jstr (record_digest v)) \<le> 73"
  using size_short [OF short_digest_text [OF record_digest_text(2)]] by simp

lemma size_value:
  "json_size (jstr (ReservedCapacityDisposition_value x1)) \<le> 33" "json_size (jstr (CapacityClass_value x2)) \<le> 17"
  "json_size (jstr (CapacityAllocationDisposition_value x3)) \<le> 33"
  "json_size (jstr (CapacityRevalidationResult_value x4)) \<le> 13"
  "json_size (jstr (CapacityPathState_value x5)) \<le> 13" "json_size (jstr (PriorityLane_value x6)) \<le> 21"
  using short_values [THEN size_short] by simp_all

lemma size_rule:
  assumes "LaneTimingRule_valid r"
  shows "json_size (view (LaneTimingRule_value r)) \<le> 200"
proof -
  have "0 \<le> lane_ordinal (lt_lane r) \<and> lane_ordinal (lt_lane r) \<le> MAX_INTEGER"
    by (cases "lt_lane r") (simp_all add: MAX_INTEGER_def)
  moreover have "0 \<le> lt_starvation_warning_seconds r \<and> lt_starvation_warning_seconds r \<le> MAX_INTEGER"
    "0 \<le> lt_starvation_limit_seconds r \<and> lt_starvation_limit_seconds r \<le> MAX_INTEGER"
    using assms by (auto simp: LaneTimingRule_valid_def LaneTimingRule_post_init_def res_simps)
  ultimately show ?thesis
    using size_value(6) [of "lt_lane r"] size_flag [of "lt_explicit_deadline_required r"]
      size_count [of "lane_ordinal (lt_lane r)"] size_count [of "lt_starvation_warning_seconds r"]
      size_count [of "lt_starvation_limit_seconds r"]
    unfolding LaneTimingRule_value_def by (intro size_record_le) (simp_all add: plain_def plain_char_def)
qed

lemma size_urgency_policy:
  assumes "UrgencyDeadlinePolicy_valid p"
  shows "json_size (view (UrgencyDeadlinePolicy_value p)) \<le> 2300"
proof -
  have f: "contract_token (up_policy_id p)" "contract_token (up_policy_version p)"
      "up_schema_version p = SCHEDULING_POLICY_SCHEMA_VERSION" "up_clock_time_zone p = ''UTC''"
      "up_tie_break p = TIE_BREAK" "map lt_lane (up_lane_rules p) = PriorityLane_members"
      "up_authority p = ''NONE''" "up_effect p = ''NONE''" "list_all LaneTimingRule_valid (up_lane_rules p)"
    using assms by (auto simp: UrgencyDeadlinePolicy_valid_def UrgencyDeadlinePolicy_post_init_def res_simps)
  have "length (up_lane_rules p) = length (map lt_lane (up_lane_rules p))" by simp
  then have "length (up_lane_rules p) = 6" by (simp only: f PriorityLane_members_def) simp
  then have "json_size (view (jlist (map LaneTimingRule_value (up_lane_rules p)))) \<le> 1208"
    using size_jlist [of "map LaneTimingRule_value (up_lane_rules p)" 200] f(9) size_rule
    by (simp add: list_all_iff)
  then show ?thesis
    using f size_short [OF short_token [OF f(1)]] size_short [OF short_token [OF f(2)]]
      size_flag [of "up_production_activation_authorised p"]
    unfolding UrgencyDeadlinePolicy_value_def
    by (intro size_record_le)
      (simp_all add: plain_def plain_char_def size_text SCHEDULING_POLICY_SCHEMA_VERSION_def TIE_BREAK_def
        del: jlist_view_eq)
qed

lemma size_capacity_policy:
  assumes "ReservedCapacityPolicy_valid p"
  shows "json_size (view (ReservedCapacityPolicy_value p)) \<le> 1100"
proof -
  have f: "contract_token (rp_policy_id p)" "contract_token (rp_policy_version p)"
      "rp_schema_version p = SCHEDULING_POLICY_SCHEMA_VERSION" "rp_authority p = ''NONE''" "rp_effect p = ''NONE''"
    and n: "0 \<le> rp_total_slots p" "rp_total_slots p \<le> MAX_INTEGER" "0 \<le> rp_urgent_reserved_slots p"
      "0 \<le> rp_minimum_ordinary_slots p" "rp_urgent_reserved_slots p + rp_minimum_ordinary_slots p \<le> rp_total_slots p"
    using assms by (auto simp: ReservedCapacityPolicy_valid_def ReservedCapacityPolicy_post_init_def res_simps)
  have "json_size (JInt (rp_total_slots p)) \<le> 10" "json_size (JInt (rp_urgent_reserved_slots p)) \<le> 10"
      "json_size (JInt (rp_minimum_ordinary_slots p)) \<le> 10" "json_size (JInt (max_urgent_slots p)) \<le> 10"
      "json_size (JInt (ordinary_capacity_ceiling p)) \<le> 10"
    using n unfolding max_urgent_slots_def ordinary_capacity_ceiling_def by (intro size_count; linarith)+
  then show ?thesis
    using f size_short [OF short_token [OF f(1)]] size_short [OF short_token [OF f(2)]]
      size_flag [of "rp_production_activation_authorised p"] size_value(1) [of "rp_degraded_urgent_disposition p"]
    unfolding ReservedCapacityPolicy_value_def
    by (intro size_record_le)
      (simp_all add: plain_def plain_char_def size_text SCHEDULING_POLICY_SCHEMA_VERSION_def)
qed


lemma item_tokens:
  assumes "CapacityPopulationItem_valid zones c"
  shows "json_size (jstr (ci_work_item_id c)) \<le> 258" "json_size (jstr (ci_work_item_version_id c)) \<le> 258"
    "json_size (jstr (ci_work_item_version_digest c)) \<le> 73"
proof -
  let ?i = "so_item (ci_observation c)"
  have "UrgencyDeadlineInput_post_init ?i = Inr ()"
    using observation_valid_fields(2) [OF item_valid_fields(2) [OF assms]]
    by (simp add: UrgencyDeadlineInput_valid_def)
  then have "contract_token (ui_work_item_id ?i)" "contract_token (ui_work_item_version_id ?i)"
      "plain_digest (ui_work_item_version_digest ?i)"
    by (auto simp: UrgencyDeadlineInput_post_init_def res_simps)
  then have "short 256 (ci_work_item_id c)" "short 256 (ci_work_item_version_id c)"
      "short 71 (ci_work_item_version_digest c)"
    by (simp_all add: ci_work_item_id_def ci_work_item_version_id_def ci_work_item_version_digest_def
        short_token short_digest)
  from this [THEN size_short] show "json_size (jstr (ci_work_item_id c)) \<le> 258"
    "json_size (jstr (ci_work_item_version_id c)) \<le> 258"
    "json_size (jstr (ci_work_item_version_digest c)) \<le> 73" by simp_all
qed

lemma item_digests:
  assumes "CapacityPopulationItem_valid zones c"
  shows "json_size (jstr (record_digest (PrioritySelection_value (ci_priority_selection c)))) \<le> 73"
    "json_size (jstr (decision_digest (ci_observation c))) \<le> 73"
    "json_size (view (jopt (map_option evidence_digest (ci_revalidation_evidence c)))) \<le> 73"
    "json_size (view (jopt (map_option CapacityRevalidationResult_value (ci_revalidation_result c)))) \<le> 13"
proof -
  note o = item_valid_fields(2) [OF assms] and e = item_valid_fields(3) [OF assms]
  have p: "PrioritySelection_valid (ci_priority_selection c)"
    using observation_valid_fields(2) [OF o] by (simp add: UrgencyDeadlineInput_valid_def ci_priority_selection_def)
  show "json_size (jstr (record_digest (PrioritySelection_value (ci_priority_selection c)))) \<le> 73"
    by (rule size_digest [OF priority.value_wf [OF p] priority_value_encodable [OF p]])
  show "json_size (jstr (decision_digest (ci_observation c))) \<le> 73"
    unfolding decision_digest_def
    by (rule size_digest [OF observation.value_wf [OF o] observation_encodable [OF observation_valid_fields(1-3) [OF o]]])
  show "json_size (view (jopt (map_option evidence_digest (ci_revalidation_evidence c)))) \<le> 73"
  proof (cases "ci_revalidation_evidence c")
    case (Some x)
    then show ?thesis
      using size_digest [OF evidence.value_wf [OF e [OF Some]] evidence_encodable [OF e [OF Some]]]
      by (simp add: evidence_digest_def)
  qed simp
  show "json_size (view (jopt (map_option CapacityRevalidationResult_value (ci_revalidation_result c)))) \<le> 13"
    using size_value(4) by (cases "ci_revalidation_result c") simp_all
qed

lemma size_allocation:
  assumes "CapacityPopulationItem_valid zones (ca_item a)"
  shows "json_size (view (CapacityItemAllocation_value a)) \<le> 1150"
  using item_tokens [OF assms] item_digests [OF assms] size_flag [of "ca_protected_routine_grant a"]
    size_value(6) [of "ci_lane (ca_item a)"] size_value(2) [of "ci_capacity_class (ca_item a)"]
    size_value(3) [of "ca_disposition a"]
  unfolding CapacityItemAllocation_value_def
  by (intro size_record_le) (simp_all add: plain_def plain_char_def del: view_jopt)

lemma size_item_keys:
  assumes "CapacityPopulationItem_valid zones c"
  shows "json_size (view (item_keys_value c)) \<le> 594"
proof -
  have "view (item_keys_value c) = JArr [jstr (ci_work_item_id c), jstr (ci_work_item_version_id c), jstr (ci_work_item_version_digest c)]"
    by (simp add: item_keys_value_def)
  then show ?thesis
    using size_arr [of "[jstr (ci_work_item_id c), jstr (ci_work_item_version_id c), jstr (ci_work_item_version_digest c)]"]
      item_tokens [OF assms] by simp
qed

lemma size_item:
  assumes "CapacityPopulationItem_valid zones c"
  shows "json_size (view (CapacityPopulationItem_value c)) \<le> 16384"
proof -
  obtain b where b: "canonical_json_bytes (CapacityPopulationItem_value c) = Inr b" "length b \<le> MAX_CAPACITY_ITEM_BYTES"
    using item_bytes [OF assms] .
  then show ?thesis
    using canonical_size(2) [OF CapacityPopulationItem_wf [OF assms] b(1)] by (simp add: MAX_CAPACITY_ITEM_BYTES_def)
qed


lemma size_list_le:
  assumes "\<And>x. x \<in> set xs \<Longrightarrow> json_size (view (f x)) \<le> k" and "length xs \<le> 48"
  shows "json_size (view (jlist (map f xs))) \<le> 2 + 48 * (k + 1)"
proof -
  have "json_size (view (jlist (map f xs))) \<le> 2 + length (map f xs) * (k + 1)"
    using assms(1) by (intro size_jlist) auto
  also have "\<dots> \<le> 2 + 48 * (k + 1)" using mult_le_mono1 [OF assms(2), of "k + 1"] by simp
  finally show ?thesis .
qed

lemma size_snapshot:
  assumes "CapacitySnapshot_valid zones s"
  shows "json_size (view (CapacitySnapshot_value s)) \<le> 789500"
proof -
  note f = snapshot_valid_fields [OF assms] and n = snapshot_counts [OF assms]
  have p: "json_size (view (jlist (map CapacityPopulationItem_value (cs_population s)))) \<le> 2 + 48 * (16384 + 1)"
    by (rule size_list_le [OF size_item [OF f(3)] snapshot_keys(2) [OF f(1)]])
  have t: "json_size (jstr (cs_observed_at s)) \<le> 22"
    using f(1) size_short [OF short_utc] by (fastforce simp: CapacitySnapshot_post_init_def res_simps)
  have c: "json_size (JInt (active_urgent_slots s)) \<le> 10" "json_size (JInt (active_ordinary_slots s)) \<le> 10"
      "json_size (JInt (pending_urgent s)) \<le> 10" "json_size (JInt (pending_ordinary s)) \<le> 10"
    using n by (simp_all add: size_count MAX_INTEGER_def)
  have d: "json_size (jstr (urgency_policy_digest (cs_urgency_policy s))) \<le> 73"
    unfolding urgency_policy_digest_def
    by (rule size_digest [OF UrgencyDeadlinePolicy_wf urgency_policy_encodable [OF f(2)]])
  show ?thesis
    using p t c d size_urgency_policy [OF f(2)] size_value(5) [of "cs_urgent_path_state s"]
    unfolding CapacitySnapshot_value_def
    by (intro size_record_le) (simp_all add: plain_def plain_char_def del: jlist_view_eq)
qed

lemma decision_items:
  assumes "ReservedCapacityDecision_valid zones d"
  shows "a \<in> set (cd_allocations d) \<Longrightarrow> CapacityPopulationItem_valid zones (ca_item a)"
    and "c \<in> set (granted_items d) \<Longrightarrow> CapacityPopulationItem_valid zones c"
    and "length (cd_allocations d) \<le> 48" and "length (granted_items d) \<le> 48"
proof -
  note v = decision_valid_iff [OF assms]
  note s = snapshot_valid_fields [OF v(4)]
  have as: "cd_allocations d = allocations_of (cd_policy d) (cd_snapshot d)"
    by (subst v(1)) (simp add: decision_of_def)
  show i: "CapacityPopulationItem_valid zones (ca_item a)" if "a \<in> set (cd_allocations d)" for a
    using that s(3) by (auto simp: as allocations_of_def allocation_of_def snapshot_items_def)
  show "c \<in> set (granted_items d) \<Longrightarrow> CapacityPopulationItem_valid zones c"
    using i by (auto simp: granted_items_def granted_def)
  let ?cs = "cs_population (cd_snapshot d)"
  have "length (filter (\<lambda>c. ci_state c = PENDING \<and> ci_capacity_class c = URGENT_RESERVED) cs)
      + length (filter (\<lambda>c. ci_state c = PENDING \<and> ci_capacity_class c = ORDINARY) cs) \<le> length cs" for cs
    by (induction cs) auto
  then have "length (pending_of URGENT_RESERVED (cd_snapshot d)) + length (pending_of ORDINARY (cd_snapshot d)) \<le> length ?cs"
    by (simp add: canonical_pending_def snapshot_items_def)
  then show l: "length (cd_allocations d) \<le> 48"
    using snapshot_keys(2) [OF s(1)] by (simp add: as allocations_of_def)
  have "length (granted_items d) \<le> length (cd_allocations d)" by (simp add: granted_items_def granted_def)
  with l show "length (granted_items d) \<le> 48" by linarith
qed

lemma size_decision:
  assumes "ReservedCapacityDecision_valid zones d"
  shows "json_size (view (ReservedCapacityDecision_value d)) \<le> MAX_CANONICAL_BYTES"
proof -
  note v = decision_valid_iff [OF assms] and n = decision_numbers [OF assms] and i = decision_items [OF assms]
  have c: "json_size (JInt (urgent_grants d)) \<le> 10" "json_size (JInt (ordinary_grants d)) \<le> 10"
      "json_size (JInt (cd_unallocated_slots d)) \<le> 10" "json_size (JInt (active_after_urgent d)) \<le> 10"
      "json_size (JInt (active_after_ordinary d)) \<le> 10"
    using n by (simp_all add: size_count)
  have a: "json_size (view (jlist (map CapacityItemAllocation_value (cd_allocations d)))) \<le> 2 + 48 * (1150 + 1)"
    by (rule size_list_le [OF size_allocation [OF i(1)] i(3)])
  have g: "json_size (view (jlist (map item_keys_value (granted_items d)))) \<le> 2 + 48 * (594 + 1)"
    by (rule size_list_le [OF size_item_keys [OF i(2)] i(4)])
  have p: "json_size (jstr (capacity_policy_digest (cd_policy d))) \<le> 73"
    unfolding capacity_policy_digest_def
    by (rule size_digest [OF ReservedCapacityPolicy_wf capacity_policy_encodable [OF v(3)]])
  have e: "cd_authority d = ''NONE''" "cd_effect d = ''NONE''"
    using v(5) by (auto simp: ReservedCapacityDecision_post_init_def res_simps)
  show ?thesis
    using a g c p e size_snapshot [OF v(4)] size_capacity_policy [OF v(3)]
      size_value(1) [of "urgent_disposition d"] size_value(1) [of "ordinary_disposition d"]
      size_flag [of "cd_production_activation_authorised d"]
    unfolding ReservedCapacityDecision_value_def
    by (intro size_record_le)
      (simp_all add: plain_def plain_char_def size_text SCHEDULING_POLICY_SCHEMA_VERSION_def MAX_CANONICAL_BYTES_def
        MAX_CAPACITY_POPULATION_def MAX_CAPACITY_ITEM_BYTES_def MAX_CANONICAL_OVERHEAD_BYTES_def
        del: jlist_view_eq)
qed

lemma ReservedCapacityDecision_bytes_back:
  assumes "ReservedCapacityDecision_valid zones d" and b: "canonical_json_bytes (ReservedCapacityDecision_value d) = Inr b"
  shows "length b \<le> MAX_CANONICAL_BYTES" and "ReservedCapacityDecision_from_canonical_bytes zones b = Inr d"
proof -
  note wf = decision.value_wf [OF assms(1)]
  show len: "length b \<le> MAX_CANONICAL_BYTES"
    using size_decision [OF assms(1)] canonical_size(2) [OF wf b] by simp
  have "decode_canonical_object b = Inr (view (ReservedCapacityDecision_value d))"
    by (rule decode_canonical_object_view [OF wf b _ nested_decision len]) (simp add: ReservedCapacityDecision_value_def)
  then show "ReservedCapacityDecision_from_canonical_bytes zones b = Inr d"
    by (simp add: ReservedCapacityDecision_from_canonical_bytes_def ReservedCapacityDecision_read_value [OF assms(1)] b)
qed

lemma decision_bytes:
  assumes "ReservedCapacityDecision_valid zones d"
  obtains b where "canonical_json_bytes (ReservedCapacityDecision_value d) = Inr b"
  using canonical_json_bytes_encodable [OF decision.value_wf [OF assms]] decision_encodable [OF assms] by blast

end
