(* ===== verification/Observation_Size.thy ===== *)
theory Observation_Size
  imports Capacity_Size
begin

text \<open>
  The canonical bytes of an observation are those of its priority selection and at most 5000 more, so
  that the byte bounds of observations and population members only limit priority selections.
\<close>

lemma size_nat_repr: "n < 10 ^ Suc k \<Longrightarrow> length (text_bytes (nat_repr n)) \<le> Suc k"
  using nat_repr_length int_repr_ascii [of "int n"] ascii_bytes [of "nat_repr n"] by (simp add: int_repr_def)

lemma size_safe: "safe_int n \<Longrightarrow> json_size (JInt n) \<le> 17"
proof -
  assume "safe_int n"
  then have "\<bar>n\<bar> < 10 ^ 16" by (auto simp: safe_int_def MIN_SAFE_INTEGER_def MAX_SAFE_INTEGER_def)
  then have "nat \<bar>n\<bar> < 10 ^ Suc 15" by simp
  from size_nat_repr [OF this] show ?thesis
    by (cases "n < 0") (simp_all add: json_size_def int_repr_def utf8_char_def)
qed

lemma short_zone: "zone_name s \<Longrightarrow> short 256 s"
proof -
  have "plain_char c" if "zone_char c" for c
  proof -
    from that have "is_alpha c \<or> is_digit c \<or> c \<in> {CHR ''.'', CHR ''_'', CHR ''+'', CHR ''-'', CHR ''/''}"
      by (simp add: zone_char_def)
    moreover have "plain_char c" if "c \<in> {CHR ''.'', CHR ''_'', CHR ''+'', CHR ''-'', CHR ''/''}"
      using that by (elim insertE emptyE; simp add: plain_char_def)
    ultimately show ?thesis using plain_alpha by blast
  qed
  then show "zone_name s \<Longrightarrow> short 256 s"
    by (auto simp: zone_name_def short_def plain_def list_all_iff plain_alpha split: list.splits)
qed

lemma short_civil: "read_civil t = Some n \<Longrightarrow> short 19 t"
proof -
  assume "read_civil t = Some n"
  then have "read_utc (t @ ''Z'') = Some n" by (simp add: read_utc_def)
  from short_utc [OF this] show ?thesis by (simp add: short_def)
qed

lemma size_values:
  "json_size (jstr (DeadlineKind_value x1)) \<le> 21" "json_size (jstr (SchedulingEligibility_value x2)) \<le> 29"
  "json_size (jstr (StarvationState_value x3)) \<le> 16" "json_size (JInt (lane_ordinal x4)) \<le> 10"
     apply (cases x1; simp add: size_text plain_def plain_char_def)
    apply (cases x2; simp add: size_text plain_def plain_char_def)
   apply (cases x3; simp add: size_text plain_def plain_char_def)
  apply (rule size_count; cases x4; simp add: MAX_INTEGER_def)
  done

lemma size_boundary:
  assumes "DeadlineBoundary_valid zones d"
  shows "json_size (view (DeadlineBoundary_value d)) \<le> 500"
proof -
  obtain due local where d: "read_utc (db_due_at d) = Some due" "zone_name (db_source_time_zone d)"
      "read_civil (db_source_local_time d) = Some local" "db_source_fold d \<in> {0, 1}"
      "- 1440 < db_source_utc_offset_minutes d" "db_source_utc_offset_minutes d < 1440"
    using assms by (auto simp: DeadlineBoundary_valid_def DeadlineBoundary_post_init_def res_simps)
  have "safe_int (db_source_fold d)" "safe_int (db_source_utc_offset_minutes d)"
    using d(4-6) by (auto intro!: safe_small)
  then show ?thesis
    using size_values(1) [of "db_kind d"] size_short [OF short_utc [OF d(1)]] size_short [OF short_zone [OF d(2)]]
      size_short [OF short_civil [OF d(3)]] size_safe [of "db_source_fold d"]
      size_safe [of "db_source_utc_offset_minutes d"]
    unfolding DeadlineBoundary_value_def by (intro size_record_le) (simp_all add: plain_def plain_char_def)
qed

lemma size_input:
  assumes i: "UrgencyDeadlineInput_valid zones i"
  shows "json_size (view (UrgencyDeadlineInput_value i))
    \<le> json_size (view (PrioritySelection_value (ui_priority_selection i))) + 1700"
proof -
  obtain e b where t: "read_utc (ui_enqueued_at i) = Some e" "read_utc (ui_observed_at i) = Some b"
    and n: "0 \<le> ui_delay_consequence_ordinal i" "ui_delay_consequence_ordinal i \<le> 3"
      "0 \<le> ui_staleness_risk_ordinal i" "ui_staleness_risk_ordinal i \<le> 3"
    using input_times [OF i] by metis
  have c: "contract_token (ui_work_item_id i)" "contract_token (ui_work_item_version_id i)"
      "plain_digest (ui_work_item_version_digest i)" "PrioritySelection_valid (ui_priority_selection i)"
    using i by (auto simp: UrgencyDeadlineInput_valid_def UrgencyDeadlineInput_post_init_def res_simps)
  have dl: "json_size (view (jmaybe DeadlineBoundary_value (ui_deadline i))) \<le> 500"
    using i size_boundary
    by (cases "ui_deadline i") (auto simp: jmaybe_def UrgencyDeadlineInput_valid_def)
  have o: "json_size (JInt (ui_delay_consequence_ordinal i)) \<le> 10" "json_size (JInt (ui_staleness_risk_ordinal i)) \<le> 10"
    using n by (simp_all add: size_count MAX_INTEGER_def)
  show ?thesis
    using dl o size_short [OF short_token [OF c(1)]] size_short [OF short_token [OF c(2)]]
      size_short [OF short_digest [OF c(3)]] size_short [OF short_utc [OF t(1)]] size_short [OF short_utc [OF t(2)]]
      size_digest [OF priority.value_wf [OF c(4)] priority_value_encodable [OF c(4)]]
      size_value(6) [of "ui_lane i"] size_values(4) [of "ui_lane i"] size_values(2) [of "ui_eligibility i"]
      size_flag [of "ui_dependency_ready i"]
    unfolding UrgencyDeadlineInput_value_def
    by (intro size_record_le) (simp_all add: plain_def plain_char_def)
qed

lemma size_order_key: "key_safe k \<Longrightarrow> json_size (view (order_key_value k)) \<le> 413"
proof -
  assume k: "key_safe k"
  obtain a b c d e f g h t where e: "k = (a, b, c, d, e, f, g, h, t)" by (metis prod.exhaust)
  from k have s: "safe_int a" "safe_int b" "safe_int c" "safe_int d" "safe_int e" "safe_int f" "safe_int g" "safe_int h"
      "contract_token t"
    by (simp_all add: e key_safe_def)
  have v: "view (order_key_value k) =
      JArr [JInt a, JInt b, JInt c, JInt d, JInt e, JInt f, JInt g, JInt h, jstr t]"
    by (simp add: e order_key_value_def)
  show ?thesis
    using size_arr [of "[JInt a, JInt b, JInt c, JInt d, JInt e, JInt f, JInt g, JInt h, jstr t]"]
      s(1-8) [THEN size_safe] size_short [OF short_token [OF s(9)]]
    by (simp add: v)
qed

lemma size_observation:
  assumes p: "UrgencyDeadlinePolicy_valid p" and i: "UrgencyDeadlineInput_valid zones i"
    and v: "urgency_deadline_values p i = Inr v"
  shows "json_size (view (StarvationObservation_value (observation_of p i v)))
    \<le> json_size (view (PrioritySelection_value (ui_priority_selection i))) + 5400"
proof -
  note f = calculated_fields [OF p i v]
  have k: "json_size (view (jmaybe order_key_value (so_order_key v))) \<le> 413"
    using f(7) size_order_key by (cases "so_order_key v") (auto simp: jmaybe_def)
  from f(1) obtain t where t: "read_utc (so_effective_deadline v) = Some t" by blast
  have s: "json_size (jstr (so_deadline_source v)) \<le> 18"
    using f(2) by (auto simp: size_text plain_def plain_char_def)
  have n: "json_size (JInt (so_queue_age_seconds v)) \<le> 10" "json_size (JInt (so_starvation_overrun_seconds v)) \<le> 10"
    using f(3-6) by (simp_all add: size_count)
  have pd: "json_size (jstr (urgency_policy_digest p)) \<le> 73"
    unfolding urgency_policy_digest_def
    by (rule size_digest [OF UrgencyDeadlinePolicy_wf urgency_policy_encodable [OF p]])
  have id: "json_size (jstr (input_digest i)) \<le> 73"
    unfolding input_digest_def
    by (rule size_digest) (simp_all add: obj_wf obj_encodable UrgencyDeadlineInput_wf [OF i] input_encodable [OF i])
  show ?thesis
    using k s n pd id size_short [OF short_utc [OF t]] size_urgency_policy [OF p] size_input [OF i]
      size_values(3) [of "so_starvation_state v"] size_flag [of "so_deadline_overdue v"]
      size_flag [of "so_revalidation_required v"] size_flag [of "so_schedulable v"]
    unfolding StarvationObservation_value_def
    by (intro size_record_le)
      (simp_all add: plain_def plain_char_def size_text SCHEDULING_POLICY_SCHEMA_VERSION_def)
qed

text \<open>So a calculation fails only where its values cannot be computed, or where the priority selection is huge.\<close>

lemma calculation_returns:
  assumes p: "UrgencyDeadlinePolicy_valid p" and i: "UrgencyDeadlineInput_valid zones i"
    and len: "json_size (view (PrioritySelection_value (ui_priority_selection i))) \<le> 900000"
    and v: "urgency_deadline_values p i = Inr v"
  shows "calculate_urgency_deadline p i = Inr (observation_of p i v)"
    and "StarvationObservation_valid zones (observation_of p i v)"
proof -
  let ?s = "observation_of p i v"
  have wf: "wf_pyval (StarvationObservation_value ?s)" using i by (intro StarvationObservation_wf) simp
  have "encodable (StarvationObservation_value ?s)"
    using p i v by (intro observation_encodable) simp_all
  then obtain b where b: "canonical_json_bytes (StarvationObservation_value ?s) = Inr b"
    using canonical_json_bytes_encodable [OF wf] by blast
  have "length b \<le> MAX_STARVATION_OBSERVATION_BYTES"
    using canonical_size(2) [OF wf b] size_observation [OF p i v] len
    by (simp add: MAX_STARVATION_OBSERVATION_BYTES_def MAX_CANONICAL_BYTES_def MAX_CAPACITY_POPULATION_def
        MAX_CAPACITY_ITEM_BYTES_def MAX_CANONICAL_OVERHEAD_BYTES_def)
  then show c: "calculate_urgency_deadline p i = Inr ?s" using v b by (simp add: calculation_Inr [OF p i])
  then have "StarvationObservation_post_init ?s = Inr ()"
    using v by (auto simp: calculate_urgency_deadline_def Let_def res_simps)
  then show "StarvationObservation_valid zones ?s" using p i by (simp add: StarvationObservation_valid_def)
qed

end
