(* ===== verification/Capacity_Example.thy ===== *)
theory Capacity_Example
  imports Observation_Size
begin

text \<open>
  A small deployment on which the properties of scheduling and reserved capacity are evaluated: two
  slots, one of them reserved for urgent work, and three pending members, an urgent one, a
  routine one with a deadline and a starved routine one with its revalidation evidence. The zone database knows UTC.
\<close>

definition ex_zones :: zone_db where
  "ex_zones = [''Etc/UTC'' \<mapsto> \<lparr>zi_utcoffset = \<lambda>_ _. Some 0, zi_fromutc = \<lambda>t. Some (t, 0)\<rparr>]"

definition ex_reference :: "string \<Rightarrow> ReasonReference" where
  "ex_reference t = \<lparr>rr_reference_type = t, rr_identifier = [114], rr_digest = None\<rparr>"

definition ex_rule :: "PriorityLane \<Rightarrow> LaneTimingRule" where
  "ex_rule lane = \<lparr>lt_lane = lane, lt_starvation_warning_seconds = 3600,
     lt_starvation_limit_seconds = 86400, lt_explicit_deadline_required = (lane = URGENT)\<rparr>"

definition ex_urgency :: UrgencyDeadlinePolicy where
  "ex_urgency = \<lparr>up_policy_id = ''u'', up_policy_version = ''v1'', up_clock_time_zone = ''UTC'',
     up_tie_break = TIE_BREAK, up_lane_rules = map ex_rule PriorityLane_members,
     up_schema_version = SCHEDULING_POLICY_SCHEMA_VERSION, up_authority = ''NONE'', up_effect = ''NONE'',
     up_production_activation_authorised = False\<rparr>"

definition ex_policy :: ReservedCapacityPolicy where
  "ex_policy = \<lparr>rp_policy_id = ''c'', rp_policy_version = ''v1'', rp_total_slots = 2,
     rp_urgent_reserved_slots = 1, rp_minimum_ordinary_slots = 1,
     rp_degraded_urgent_disposition = ALL_URGENT_VISIBLE_OPERATIONAL_HOLD,
     rp_schema_version = SCHEDULING_POLICY_SCHEMA_VERSION, rp_authority = ''NONE'', rp_effect = ''NONE'',
     rp_production_activation_authorised = False\<rparr>"

definition ex_deadline :: DeadlineBoundary where
  "ex_deadline = \<lparr>db_kind = HARD_ACTION, db_due_at = ''2026-01-05T00:00:00Z'', db_source_time_zone = ''Etc/UTC'',
     db_source_local_time = ''2026-01-05T00:00:00'', db_source_utc_offset_minutes = 0, db_source_fold = 0\<rparr>"

definition ex_now :: string where "ex_now = ''2026-01-04T00:00:00Z''"

definition ex_priority :: "string \<Rightarrow> PriorityLane \<Rightarrow> PrioritySelection" where
  "ex_priority w lane = \<lparr>pr_work_identity = w, pr_work_version = w @ ''.1'', pr_lane = lane,
     pr_basis_references = [ex_reference ''policy''], pr_schema_version = OUTCOME_TAXONOMY_VERSION,
     pr_authority = NoAuthority, pr_effect = NoEffect\<rparr>"

definition ex_input :: "string \<Rightarrow> PriorityLane \<Rightarrow> string \<Rightarrow> UrgencyDeadlineInput" where
  "ex_input w lane enqueued = \<lparr>ui_work_item_id = w, ui_work_item_version_id = w @ ''.1'',
     ui_work_item_version_digest = ''sha256:'' @ replicate 64 (CHR ''0''),
     ui_priority_selection = ex_priority w lane, ui_lane = lane, ui_enqueued_at = enqueued,
     ui_observed_at = ex_now, ui_deadline = (if w = ''c'' then None else Some ex_deadline),
     ui_eligibility = CURRENT_ELIGIBLE, ui_delay_consequence_ordinal = 1,
     ui_staleness_risk_ordinal = 1, ui_dependency_ready = True\<rparr>"

definition ex_values :: "UrgencyDeadlineInput \<Rightarrow> DeadlineValues" where
  "ex_values i = projr (urgency_deadline_values ex_urgency i)"

definition ex_observation :: "UrgencyDeadlineInput \<Rightarrow> StarvationObservation" where
  "ex_observation i = observation_of ex_urgency i (ex_values i)"

definition ex_evidence :: "StarvationObservation \<Rightarrow> CapacityRevalidationEvidence" where
  "ex_evidence s = \<lparr>re_work_item_id = ui_work_item_id (so_item s),
     re_work_item_version_id = ui_work_item_version_id (so_item s),
     re_work_item_version_digest = ui_work_item_version_digest (so_item s),
     re_starvation_observation_digest = decision_digest s,
     re_governing_policy_digest = urgency_policy_digest (so_policy s),
     re_snapshot_observed_at = ui_observed_at (so_item s),
     re_currentness_basis = [ex_reference ''revalidation-revalidated''], re_result = REVALIDATED,
     re_authority = ''NONE'', re_effect = ''NONE''\<rparr>"

definition ex_urgent :: UrgencyDeadlineInput where "ex_urgent = ex_input ''a'' URGENT ''2026-01-04T00:00:00Z''"
definition ex_routine :: UrgencyDeadlineInput where "ex_routine = ex_input ''b'' ROUTINE ''2026-01-03T23:30:00Z''"
definition ex_starved :: UrgencyDeadlineInput where "ex_starved = ex_input ''c'' ROUTINE ''2026-01-02T00:00:00Z''"

definition ex_pending :: "UrgencyDeadlineInput \<Rightarrow> CapacityPopulationItem" where
  "ex_pending i = (let s = ex_observation i in \<lparr>ci_observation = s, ci_state = PENDING,
     ci_revalidation_evidence = (if so_revalidation_required s then Some (ex_evidence s) else None)\<rparr>)"

definition ex_snapshot :: "CapacityPathState \<Rightarrow> CapacitySnapshot" where
  "ex_snapshot path = \<lparr>cs_observed_at = ex_now, cs_urgency_policy = ex_urgency,
     cs_population = map ex_pending [ex_urgent, ex_routine, ex_starved], cs_urgent_path_state = path\<rparr>"

section \<open>Validity\<close>

lemma dec_fixed_2: "dec_fixed 2 n = [hex_digit (n div 10 mod 10), hex_digit (n mod 10)]"
proof -
  have "dec_fixed (Suc (Suc 0)) n = [hex_digit (n div 10 mod 10), hex_digit (n mod 10)]" by simp
  then show ?thesis by (simp only: numeral_2_eq_2)
qed
lemma dec_fixed_4: "dec_fixed 4 n = dec_fixed 2 (n div 10 div 10) @ dec_fixed 2 n"
proof -
  have "dec_fixed (Suc (Suc 2)) n = dec_fixed 2 (n div 10 div 10) @ dec_fixed 2 n"
    by (simp only: dec_fixed.simps dec_fixed_2 append_assoc append.simps)
  moreover have "Suc (Suc 2) = 4" by simp
  ultimately show ?thesis by (simp only:)
qed

lemmas civil_eval = read_civil_def Let_def num_of_def format_fields_def civil_fields_def civil_seconds_def
  days_before_year_def month_lengths_def dec_fixed_2 dec_fixed_4 hex_digit_eq

lemma ex_times [simp]:
  "read_civil ''2026-01-04T00:00:00'' = Some 63903081600" "read_civil ''2026-01-05T00:00:00'' = Some 63903168000"
  "read_civil ''2026-01-03T23:30:00'' = Some 63903079800" "read_civil ''2026-01-02T00:00:00'' = Some 63902908800"
  by (simp_all add: civil_eval del: dec_fixed.simps)

lemma ex_instants [simp]:
  "read_utc ''2026-01-04T00:00:00Z'' = Some 63903081600" "read_utc ''2026-01-05T00:00:00Z'' = Some 63903168000"
  "read_utc ''2026-01-03T23:30:00Z'' = Some 63903079800" "read_utc ''2026-01-02T00:00:00Z'' = Some 63902908800"
  "read_utc ex_now = Some 63903081600"
  by (simp_all add: read_utc_def ex_now_def)

lemma ex_token: "contract_token ''u''" "contract_token ''v1''" "contract_token ''c''" "contract_token ''a''"
  "contract_token ''b''" "contract_token ''a.1''" "contract_token ''b.1''" "contract_token ''c.1''"
  "contract_token ''policy''" "contract_token ''revalidation-revalidated''"
  by (simp_all add: contract_token_def contract_token_char_def is_alpha_def is_digit_def Let_def)

lemma ex_policy_valid: "ReservedCapacityPolicy_valid ex_policy"
  by (simp add: ReservedCapacityPolicy_valid_def ReservedCapacityPolicy_post_init_def ex_policy_def
      res_simps ex_token MAX_INTEGER_def)

lemma ex_urgency_valid: "UrgencyDeadlinePolicy_valid ex_urgency"
  by (simp add: UrgencyDeadlinePolicy_valid_def UrgencyDeadlinePolicy_post_init_def ex_urgency_def ex_rule_def
      PriorityLane_members_def LaneTimingRule_valid_def LaneTimingRule_post_init_def res_simps ex_token
      MAX_INTEGER_def MAX_DURATION_SECONDS_def)

lemma ex_reference_valid: "ReasonReference_valid (ex_reference ''policy'')"
  "ReasonReference_valid (ex_reference ''revalidation-revalidated'')"
  by (simp_all add: ReasonReference_valid_def ReasonReference_post_init_def ex_reference_def res_simps ex_token
      control_character_def is_surrogate_def utf8_char_def wf_text_def)

lemma ex_priority_valid: "contract_token w \<Longrightarrow> contract_token (w @ ''.1'') \<Longrightarrow> PrioritySelection_valid (ex_priority w lane)"
  using ex_reference_valid(1)
  by (simp add: PrioritySelection_valid_def PrioritySelection_post_init_def ex_priority_def res_simps)

lemma ex_deadline_valid: "DeadlineBoundary_valid ex_zones ex_deadline"
  by (simp add: DeadlineBoundary_valid_def DeadlineBoundary_post_init_def ex_deadline_def ex_zones_def
      zone_name_def zone_char_def is_alpha_def is_digit_def Let_def resolve_boundary_def MAX_CIVIL_def res_simps)

lemma ex_digest: "plain_digest (''sha256:'' @ replicate 64 (CHR ''0''))"
  by (simp add: plain_digest_def is_lower_hex_def Let_def list_all_iff)

lemma ex_input_valid:
  assumes "contract_token w" "contract_token (w @ ''.1'')" "read_utc e = Some n" "n \<le> 63903081600"
  shows "UrgencyDeadlineInput_valid ex_zones (ex_input w lane e)"
  using assms ex_digest ex_priority_valid ex_deadline_valid
  by (simp add: UrgencyDeadlineInput_valid_def UrgencyDeadlineInput_post_init_def ex_input_def ex_priority_def
      require_ordinal_def res_simps MAX_INTEGER_def)

lemma ex_inputs_valid:
  "UrgencyDeadlineInput_valid ex_zones ex_urgent" "UrgencyDeadlineInput_valid ex_zones ex_routine"
  "UrgencyDeadlineInput_valid ex_zones ex_starved"
  by (simp_all add: ex_urgent_def ex_routine_def ex_starved_def
      ex_input_valid [of _ _ 63903081600] ex_input_valid [of _ _ 63903079800] ex_input_valid [of _ _ 63902908800]
      ex_token)

lemmas ex_value_eval = urgency_deadline_values_def ex_urgency_def ex_input_def rule_for_def PriorityLane_members_def
  ex_rule_def ex_deadline_def effective_deadline_def starvation_state_def order_key_for_def STARVATION_ORDER_def
  timestamp_def parse_utc_def MAX_INTEGER_def MAX_CIVIL_def Let_def

lemma ex_values_Inr:
  "urgency_deadline_values ex_urgency ex_urgent = Inr \<lparr>
     so_effective_deadline = format_utc 63903168000, so_deadline_source = ''EXPLICIT'',
     so_queue_age_seconds = 0, so_deadline_overdue = False, so_starvation_state = WITHIN_BOUND,
     so_starvation_overrun_seconds = 0, so_revalidation_required = False, so_schedulable = True,
     so_order_key = Some (2, 0, 1767571200, -1, -1, 2, 1767484800, 0, ''a.1'')\<rparr>"
  "urgency_deadline_values ex_urgency ex_routine = Inr \<lparr>
     so_effective_deadline = format_utc 63903168000, so_deadline_source = ''EXPLICIT'',
     so_queue_age_seconds = 1800, so_deadline_overdue = False, so_starvation_state = WITHIN_BOUND,
     so_starvation_overrun_seconds = 0, so_revalidation_required = False, so_schedulable = True,
     so_order_key = Some (5, 0, 1767571200, -1, -1, 2, 1767483000, 0, ''b.1'')\<rparr>"
  "urgency_deadline_values ex_urgency ex_starved = Inr \<lparr>
     so_effective_deadline = format_utc 63902995200, so_deadline_source = ''STARVATION_LIMIT'',
     so_queue_age_seconds = 172800, so_deadline_overdue = True, so_starvation_state = STARVED,
     so_starvation_overrun_seconds = 86400, so_revalidation_required = True, so_schedulable = True,
     so_order_key = Some (5, 1, 1767398400, -1, -1, 0, 1767312000, 0, ''c.1'')\<rparr>"
  by (simp_all add: ex_value_eval ex_urgent_def ex_routine_def ex_starved_def)

lemma ex_values:
  "urgency_deadline_values ex_urgency ex_urgent = Inr (ex_values ex_urgent)"
  "urgency_deadline_values ex_urgency ex_routine = Inr (ex_values ex_routine)"
  "urgency_deadline_values ex_urgency ex_starved = Inr (ex_values ex_starved)"
  by (simp_all add: ex_values_def ex_values_Inr)

lemma size_reference: "json_size (view (ReasonReference_value (ex_reference t))) \<le> length t + 60" if "plain t" for t
proof -
  have "json_size (JStr [114]) = 3" by (simp add: json_size_def quote_def escape_char_def utf8_char_def)
  then show ?thesis
    using that unfolding ReasonReference_value_def
    by (intro size_record_le) (simp_all add: plain_def plain_char_def ex_reference_def size_text)
qed

lemma size_priority:
  assumes "plain w" "length w \<le> 8"
  shows "json_size (view (PrioritySelection_value (ex_priority w lane))) \<le> 500"
proof -
  have "json_size (view (ReasonReference_value (ex_reference ''policy''))) \<le> 66"
    using size_reference [of "''policy''"] by (simp add: plain_def plain_char_def)
  moreover have "json_size (jstr w) = length w + 2" "json_size (jstr (w @ ''.1'')) = length w + 4"
    using assms by (simp_all add: size_text plain_def plain_char_def)
  ultimately show ?thesis
    using assms size_values(4) [of lane] size_value(6) [of lane]
      size_arr [of "[view (ReasonReference_value (ex_reference ''policy''))]"]
    unfolding PrioritySelection_value_def
    by (intro size_record_le)
      (simp_all add: plain_def plain_char_def ex_priority_def size_text OUTCOME_TAXONOMY_VERSION_def)
qed


lemma item_bytes_small:
  assumes "wf_pyval v" and "encodable v" and "json_size (view v) \<le> 16384"
  shows "require_item_bytes v = Inr ()"
proof -
  obtain b where b: "canonical_json_bytes v = Inr b"
    using canonical_json_bytes_encodable [OF assms(1)] assms(2) by blast
  then show ?thesis
    using canonical_size(2) [OF assms(1) b] assms(3)
    by (simp add: require_item_bytes_def MAX_CAPACITY_ITEM_BYTES_def)
qed

lemma lower_eval: "lower ''REVALIDATED'' = ''revalidated''"
  by code_simp

lemma size_example_evidence:
  assumes "UrgencyDeadlineInput_valid ex_zones i" and "StarvationObservation_valid ex_zones (observation_of ex_urgency i v)"
  shows "json_size (view (CapacityRevalidationEvidence_value (ex_evidence (observation_of ex_urgency i v)))) \<le> 1500"
    and "CapacityRevalidationEvidence_valid (ex_evidence (observation_of ex_urgency i v))"
proof -
  let ?s = "observation_of ex_urgency i v"
  have c: "contract_token (ui_work_item_id i)" "contract_token (ui_work_item_version_id i)"
      "plain_digest (ui_work_item_version_digest i)"
    using assms(1) by (auto simp: UrgencyDeadlineInput_valid_def UrgencyDeadlineInput_post_init_def res_simps)
  obtain e b where t: "read_utc (ui_observed_at i) = Some b" using input_times [OF assms(1)] by metis
  have d: "digest_text (decision_digest ?s)" unfolding decision_digest_def
    by (rule record_digest_text(2) [OF observation.value_wf [OF assms(2)]
          observation_encodable [OF observation_valid_fields(1-3) [OF assms(2)]]])
  have u: "digest_text (urgency_policy_digest ex_urgency)" unfolding urgency_policy_digest_def
    by (rule record_digest_text(2) [OF UrgencyDeadlinePolicy_wf urgency_policy_encodable [OF ex_urgency_valid]])
  have "json_size (view (ReasonReference_value (ex_reference ''revalidation-revalidated''))) \<le> 84"
    using size_reference [of "''revalidation-revalidated''"] by (simp add: plain_def plain_char_def)
  then show "json_size (view (CapacityRevalidationEvidence_value (ex_evidence ?s))) \<le> 1500"
    using size_short [OF short_token [OF c(1)]] size_short [OF short_token [OF c(2)]]
      size_short [OF short_digest [OF c(3)]] size_short [OF short_utc [OF t]]
      size_short [OF short_digest_text [OF d]] size_short [OF short_digest_text [OF u]]
      size_arr [of "[view (ReasonReference_value (ex_reference ''revalidation-revalidated''))]"]
    unfolding CapacityRevalidationEvidence_value_def
    by (intro size_record_le) (simp_all add: plain_def plain_char_def ex_evidence_def size_text)
  obtain kb where k: "canonical_json_bytes (ReasonReference_value (ex_reference ''revalidation-revalidated'')) = Inr kb"
    using reference_value_encodable [OF ex_reference_valid(2)]
      canonical_json_bytes_encodable [OF reference.value_wf [OF ex_reference_valid(2)]] by blast
  show "CapacityRevalidationEvidence_valid (ex_evidence ?s)"
    using c d u t k ex_reference_valid(2)
    by (simp add: CapacityRevalidationEvidence_valid_def CapacityRevalidationEvidence_post_init_def ex_evidence_def
        plain_digest_text res_simps)
      (simp add: ex_reference_def lower_eval)
qed

lemma ex_pending_valid:
  assumes i: "UrgencyDeadlineInput_valid ex_zones i"
    and len: "json_size (view (PrioritySelection_value (ui_priority_selection i))) \<le> 500"
    and v: "urgency_deadline_values ex_urgency i = Inr (ex_values i)" and s: "so_schedulable (ex_values i)"
  shows "CapacityPopulationItem_valid ex_zones (ex_pending i)"
proof -
  let ?s = "observation_of ex_urgency i (ex_values i)"
  have o: "StarvationObservation_valid ex_zones ?s"
    by (rule calculation_returns(2) [OF ex_urgency_valid i _ v]) (use len in simp)
  note e = size_example_evidence [OF i o]
  have os: "json_size (view (StarvationObservation_value ?s)) \<le> 5900"
    using size_observation [OF ex_urgency_valid i v] len by simp
  have ew: "wf_pyval (StarvationObservation_value ?s)" "encodable (StarvationObservation_value ?s)"
    using observation.value_wf [OF o] observation_encodable [OF observation_valid_fields(1-3) [OF o]] by simp_all
  let ?e = "if so_revalidation_required (ex_values i) then Some (ex_evidence ?s) else None"
  have dg: "json_size (jstr (decision_digest ?s)) \<le> 73" unfolding decision_digest_def by (rule size_digest [OF ew])
  have ed: "json_size (jstr (evidence_digest (ex_evidence ?s))) \<le> 73"
    unfolding evidence_digest_def by (rule size_digest [OF evidence.value_wf [OF e(2)] evidence_encodable [OF e(2)]])
  define c where "c = ex_pending i"
  have c: "ci_observation c = ?s" "ci_state c = PENDING" "ci_revalidation_evidence c = ?e"
    by (simp_all add: c_def ex_pending_def ex_observation_def Let_def)
  have "wf_pyval (CapacityPopulationItem_value c)" "encodable (CapacityPopulationItem_value c)"
    using ew e(2) evidence.value_wf [OF e(2)] evidence_encodable [OF e(2)]
    by (auto simp: CapacityPopulationItem_value_def c obj_wf obj_encodable jmaybe_wf jmaybe_encodable split: if_splits)
  moreover have "json_size (view (CapacityPopulationItem_value c)) \<le> 16384"
    using os dg ed e(1)
    unfolding CapacityPopulationItem_value_def c
    by (intro size_record_le) (simp_all add: plain_def plain_char_def size_text jmaybe_def)
  ultimately have "require_item_bytes (CapacityPopulationItem_value c) = Inr ()" by (rule item_bytes_small)
  moreover have "require_item_bytes (StarvationObservation_value ?s) = Inr ()"
    using os by (intro item_bytes_small ew) simp
  ultimately have "CapacityPopulationItem_post_init c = Inr ()"
    using s by (simp add: CapacityPopulationItem_post_init_def Let_def c evidence_binds_def ex_evidence_def res_simps)
  then show ?thesis
    using o e(2) by (simp add: CapacityPopulationItem_valid_def c flip: c_def)
qed

lemma ex_items_valid:
  "CapacityPopulationItem_valid ex_zones (ex_pending ex_urgent)"
  "CapacityPopulationItem_valid ex_zones (ex_pending ex_routine)"
  "CapacityPopulationItem_valid ex_zones (ex_pending ex_starved)"
proof -
  have "json_size (view (PrioritySelection_value (ui_priority_selection i))) \<le> 500" and "so_schedulable (ex_values i)"
    if "i \<in> {ex_urgent, ex_routine, ex_starved}" for i
    using that by (auto simp: ex_values_def ex_values_Inr)
      (auto simp: ex_urgent_def ex_routine_def ex_starved_def ex_input_def size_priority plain_def plain_char_def)
  then show "CapacityPopulationItem_valid ex_zones (ex_pending ex_urgent)"
    "CapacityPopulationItem_valid ex_zones (ex_pending ex_routine)"
    "CapacityPopulationItem_valid ex_zones (ex_pending ex_starved)"
    using ex_pending_valid [OF ex_inputs_valid(1) _ ex_values(1)]
      ex_pending_valid [OF ex_inputs_valid(2) _ ex_values(2)]
      ex_pending_valid [OF ex_inputs_valid(3) _ ex_values(3)] by simp_all
qed

lemma ex_pending_fields [simp]:
  "ci_state (ex_pending i) = PENDING" "ci_observation (ex_pending i) = ex_observation i"
  "ci_work_item_id (ex_pending i) = ui_work_item_id i" "identity_key (ex_pending i) = (ui_work_item_id i, ui_work_item_version_id i)"
  "ci_lane (ex_pending i) = pr_lane (ui_priority_selection i)"
  "ci_revalidation_result (ex_pending i) = (if so_revalidation_required (ex_values i) then Some REVALIDATED else None)"
  by (simp_all add: ex_pending_def ex_observation_def Let_def ci_work_item_id_def identity_key_def
      ci_work_item_version_id_def ci_lane_def ci_priority_selection_def ci_revalidation_result_def ex_evidence_def)

lemma ex_snapshot_valid: "CapacitySnapshot_valid ex_zones (ex_snapshot path)"
  using ex_items_valid ex_urgency_valid
  by (simp add: CapacitySnapshot_valid_def CapacitySnapshot_post_init_def ex_snapshot_def res_simps
      MAX_CAPACITY_POPULATION_def ex_observation_def)
    (simp add: ex_urgent_def ex_routine_def ex_starved_def ex_input_def)

lemma ex_within: "within_reserves ex_policy (ex_snapshot path)"
  by (simp add: within_reserves_def active_urgent_slots_def active_ordinary_slots_def snapshot_items_def
      ex_snapshot_def ex_policy_def max_urgent_slots_def ordinary_capacity_ceiling_def)

lemma ex_allocated: "allocate_reserved_capacity ex_policy (ex_snapshot path) = Inr (decision_of ex_policy (ex_snapshot path))"
  by (rule allocate_within [OF ex_policy_valid snapshot_keys(1) [OF snapshot_valid_fields(1) [OF ex_snapshot_valid]] ex_within])


section \<open>The allocation\<close>

lemma ex_item_keys:
  "so_order_key (ex_observation ex_urgent) = Some (2, 0, 1767571200, -1, -1, 2, 1767484800, 0, ''a.1'')"
  "so_order_key (ex_observation ex_routine) = Some (5, 0, 1767571200, -1, -1, 2, 1767483000, 0, ''b.1'')"
  "so_order_key (ex_observation ex_starved) = Some (5, 1, 1767398400, -1, -1, 0, 1767312000, 0, ''c.1'')"
  by (simp_all add: ex_observation_def ex_values_def ex_values_Inr)

lemma ex_item_fields:
  "ci_capacity_class (ex_pending ex_urgent) = URGENT_RESERVED" "ci_capacity_class (ex_pending ex_routine) = ORDINARY"
  "ci_capacity_class (ex_pending ex_starved) = ORDINARY" "capacity_eligible (ex_pending ex_urgent)"
  "capacity_eligible (ex_pending ex_routine)" "capacity_eligible (ex_pending ex_starved)"
  "\<not> protected_eligible (ex_pending ex_routine)" "protected_eligible (ex_pending ex_starved)"
  by (simp_all add: ci_capacity_class_def capacity_class_for_lane_def capacity_eligible_def protected_eligible_def
      ex_values_def ex_values_Inr ex_observation_def)
    (simp_all add: ex_urgent_def ex_routine_def ex_starved_def ex_input_def ex_priority_def)

lemma ex_pending_distinct: "ex_pending ex_routine \<noteq> ex_pending ex_starved" "ex_pending ex_urgent \<noteq> ex_pending ex_starved"
proof -
  have "ci_work_item_id (ex_pending ex_routine) \<noteq> ci_work_item_id (ex_pending ex_starved)"
    "ci_work_item_id (ex_pending ex_urgent) \<noteq> ci_work_item_id (ex_pending ex_starved)"
    by (simp_all add: ex_urgent_def ex_routine_def ex_starved_def ex_input_def)
  then show "ex_pending ex_routine \<noteq> ex_pending ex_starved" "ex_pending ex_urgent \<noteq> ex_pending ex_starved" by fastforce+
qed

lemma ex_queues:
  "pending_of URGENT_RESERVED (ex_snapshot path) = [ex_pending ex_urgent]"
  "pending_of ORDINARY (ex_snapshot path) = [ex_pending ex_routine, ex_pending ex_starved]"
  by (simp_all add: snapshot_items_def ex_snapshot_def ex_item_fields canonical_pending_def ex_item_keys less_eq_prod_def)

lemma ex_counts [simp]:
  "active_urgent_slots (ex_snapshot path) = 0" "active_ordinary_slots (ex_snapshot path) = 0"
  "pending_urgent (ex_snapshot path) = 1" "rp_total_slots ex_policy = 2" "max_urgent_slots ex_policy = 1"
  "ordinary_capacity_ceiling ex_policy = 1" "cs_urgent_path_state (ex_snapshot path) = path"
  "rp_minimum_ordinary_slots ex_policy = 1" "rp_urgent_reserved_slots ex_policy = 1"
  by (simp_all add: active_urgent_slots_def active_ordinary_slots_def pending_urgent_def snapshot_items_def ex_snapshot_def
      ex_item_fields ex_policy_def max_urgent_slots_def ordinary_capacity_ceiling_def)

lemma ex_chosen:
  "urgent_chosen ex_policy (ex_snapshot AVAILABLE) = [ex_pending ex_urgent]"
  "protected_item (ex_snapshot path) = Some (ex_pending ex_starved)"
  "ordinary_chosen ex_policy (ex_snapshot AVAILABLE) = [ex_pending ex_starved]"
proof -
  show u: "urgent_chosen ex_policy (ex_snapshot AVAILABLE) = [ex_pending ex_urgent]"
    by (simp add: urgent_chosen_def select_urgent_def ex_queues ex_item_fields urgent_limit_def free_slots_def)
  show p: "protected_item (ex_snapshot path) = Some (ex_pending ex_starved)" for path
    by (simp add: protected_item_def ex_queues ex_item_fields)
  show "ordinary_chosen ex_policy (ex_snapshot AVAILABLE) = [ex_pending ex_starved]"
    by (simp add: ordinary_chosen_def select_ordinary_def p ordinary_limit_def free_slots_def u)
qed

definition ex_allocation :: "UrgencyDeadlineInput \<Rightarrow> CapacityItemAllocation" where
  "ex_allocation i = allocation_of ex_policy (ex_snapshot AVAILABLE) (ex_pending i)"

definition ex_decision :: "CapacityPathState \<Rightarrow> ReservedCapacityDecision" where
  "ex_decision path = decision_of ex_policy (ex_snapshot path)"

lemma ex_decided:
  "ex_allocation ex_routine \<in> set (cd_allocations (ex_decision AVAILABLE))"
  "ex_allocation ex_starved \<in> set (cd_allocations (ex_decision AVAILABLE))"
  "ca_item (ex_allocation i) = ex_pending i"
  "ca_disposition (ex_allocation ex_routine) = CAPACITY_DEFERRED"
  "ca_disposition (ex_allocation ex_starved) = GRANTED"
  "urgent_grants (ex_decision AVAILABLE) = 1" "ordinary_grants (ex_decision AVAILABLE) = 1"
proof -
  have k: "distinct (map identity_key (cs_population (ex_snapshot path)))" for path
    by (rule snapshot_keys(1) [OF snapshot_valid_fields(1) [OF ex_snapshot_valid]])
  have "ex_pending ex_routine \<noteq> ex_pending ex_urgent"
    using ex_item_fields(1,2) by (metis CapacityClass.distinct(1))
  then show "ca_disposition (ex_allocation ex_routine) = CAPACITY_DEFERRED"
    "ca_disposition (ex_allocation ex_starved) = GRANTED"
    using ex_pending_distinct
    by (simp_all add: ex_allocation_def allocation_of_def disposition_of_def ex_item_fields ex_chosen)
  show "urgent_grants (ex_decision AVAILABLE) = 1" "ordinary_grants (ex_decision AVAILABLE) = 1"
    by (simp_all add: ex_decision_def decision_grants [OF k] ex_chosen)
  show "ca_item (ex_allocation i) = ex_pending i" by (simp add: ex_allocation_def allocation_of_def)
  have "ex_pending i \<in> set (cs_population (ex_snapshot path))" if "i \<in> {ex_urgent, ex_routine, ex_starved}" for i path
    using that by (auto simp: ex_snapshot_def)
  then have "ex_allocation i \<in> set (cd_allocations (ex_decision AVAILABLE))" if "i \<in> {ex_urgent, ex_routine, ex_starved}" for i
    using that ex_pending_fields(1) unfolding ex_decision_def ex_allocation_def decision_allocations by blast
  then show "ex_allocation ex_routine \<in> set (cd_allocations (ex_decision AVAILABLE))"
    "ex_allocation ex_starved \<in> set (cd_allocations (ex_decision AVAILABLE))" by blast+
qed

lemma ex_decision_Inr: "allocate_reserved_capacity ex_policy (ex_snapshot path) = Inr (ex_decision path)"
  unfolding ex_decision_def by (rule ex_allocated)

end
