(* ===== verification/Scheduling_Props.thy ===== *)
theory Scheduling_Props
  imports Capacity_Example
begin

text \<open>
  Properties of the scheduling calculation: when it returns, how an observation changes while the work
  waits, and that accepted UTC texts are exactly the printed instants.
\<close>

section \<open>Waiting\<close>

lemma starvation_later:
  assumes "age \<le> age'" and "el = CURRENT_ELIGIBLE"
    and "STARVATION_ORDER (starvation_state rule el age) = Some n"
    and "STARVATION_ORDER (starvation_state rule el age') = Some n'"
  shows "n' \<le> n"
  using assms by (auto simp: starvation_state_def STARVATION_ORDER_def split: if_splits)

lemma starved_later:
  "age \<le> age' \<Longrightarrow> starvation_state rule el age = STARVED \<Longrightarrow> starvation_state rule el age' = STARVED"
  by (auto simp: starvation_state_def split: if_splits)

lemma key_later:
  assumes "order_key_for i effective enqueued (starvation_state rule (ui_eligibility i) age) = Inr k"
    and "order_key_for (i\<lparr>ui_observed_at := t\<rparr>) effective enqueued (starvation_state rule (ui_eligibility i) age') = Inr k'"
    and "age \<le> age'" and "ui_eligibility i = CURRENT_ELIGIBLE"
  shows "k' \<le> k"
proof -
  from assms(1,2) obtain n n' where
    n: "STARVATION_ORDER (starvation_state rule (ui_eligibility i) age) = Some n"
      "STARVATION_ORDER (starvation_state rule (ui_eligibility i) age') = Some n'"
    by (auto simp: order_key_for_def res_simps)
  have "n' \<le> n" by (rule starvation_later [OF assms(3,4) n])
  with assms(1,2) n show ?thesis by (auto simp: order_key_for_def less_eq_prod_def)
qed

lemma values_later:
  assumes v: "urgency_deadline_values p i = Inr v" and w: "urgency_deadline_values p (i\<lparr>ui_observed_at := t\<rparr>) = Inr w"
    and ab: "read_utc (ui_observed_at i) = Some a" "read_utc t = Some b" "a \<le> b"
  shows "so_schedulable w = so_schedulable v" "so_order_key w \<le> so_order_key v"
    "so_deadline_overdue v \<Longrightarrow> so_deadline_overdue w" "so_starvation_state v = STARVED \<Longrightarrow> so_starvation_state w = STARVED"
    "so_starvation_overrun_seconds v \<le> so_starvation_overrun_seconds w" "so_effective_deadline w = so_effective_deadline v"
proof -
  let ?i = "i\<lparr>ui_observed_at := t\<rparr>" and ?st = "\<lambda>rule. starvation_state rule (ui_eligibility i)"
  from v obtain rule e o1 f where r: "rule_for p (ui_lane i) = Inr rule" "read_utc (ui_enqueued_at i) = Some e"
      "read_utc (ui_observed_at i) = Some o1" "effective_deadline rule (ui_deadline i) e = Inr f"
    and s: "so_effective_deadline v = format_utc f" "so_deadline_overdue v = (f < o1)"
      "so_starvation_state v = ?st rule (o1 - e)"
      "so_starvation_overrun_seconds v = max 0 (o1 - e - lt_starvation_limit_seconds rule)"
      "so_schedulable v = (ui_eligibility i = CURRENT_ELIGIBLE \<and> ui_dependency_ready i)"
    and k: "if ui_eligibility i = CURRENT_ELIGIBLE \<and> ui_dependency_ready i
        then \<exists>k. order_key_for i f e (?st rule (o1 - e)) = Inr k \<and> so_order_key v = Some k
        else so_order_key v = None"
    by (rule urgency_values_Inr)
  from w obtain rule' e' o2 f' where r': "rule_for p (ui_lane ?i) = Inr rule'" "read_utc (ui_enqueued_at ?i) = Some e'"
      "read_utc (ui_observed_at ?i) = Some o2" "effective_deadline rule' (ui_deadline ?i) e' = Inr f'"
    and s': "so_effective_deadline w = format_utc f'" "so_deadline_overdue w = (f' < o2)"
      "so_starvation_state w = starvation_state rule' (ui_eligibility ?i) (o2 - e')"
      "so_starvation_overrun_seconds w = max 0 (o2 - e' - lt_starvation_limit_seconds rule')"
      "so_schedulable w = (ui_eligibility ?i = CURRENT_ELIGIBLE \<and> ui_dependency_ready ?i)"
    and k': "if ui_eligibility ?i = CURRENT_ELIGIBLE \<and> ui_dependency_ready ?i
        then \<exists>k. order_key_for ?i f' e' (starvation_state rule' (ui_eligibility ?i) (o2 - e')) = Inr k \<and> so_order_key w = Some k
        else so_order_key w = None"
    by (rule urgency_values_Inr)
  have same: "rule' = rule" "e' = e" "f' = f" "o1 = a" "o2 = b" using r r' ab by simp_all
  have age: "a - e \<le> b - e" using ab(3) by simp
  show "so_schedulable w = so_schedulable v" "so_effective_deadline w = so_effective_deadline v"
    "so_starvation_overrun_seconds v \<le> so_starvation_overrun_seconds w"
    using s s' same age by simp_all
  show "so_deadline_overdue v \<Longrightarrow> so_deadline_overdue w" using s(2) s'(2) same ab(3) by simp
  show "so_starvation_state v = STARVED \<Longrightarrow> so_starvation_state w = STARVED"
    using s(3) s'(3) same starved_later [OF age] by simp
  show "so_order_key w \<le> so_order_key v"
  proof (cases "ui_eligibility i = CURRENT_ELIGIBLE \<and> ui_dependency_ready i")
    case True
    then obtain x y where x: "order_key_for i f e (?st rule (a - e)) = Inr x" "so_order_key v = Some x"
      and y: "order_key_for ?i f e (?st rule (b - e)) = Inr y" "so_order_key w = Some y"
      using k k' unfolding same by auto
    have "y \<le> x" using True by (intro key_later [OF x(1) y(1) age]) simp
    then show ?thesis by (simp add: x y)
  next
    case False
    then have "so_order_key w = None" "so_order_key v = None" using k k' by auto
    then show ?thesis by simp
  qed
qed

lemma calculated:
  "calculate_urgency_deadline p i = Inr s \<Longrightarrow> \<exists>v. urgency_deadline_values p i = Inr v \<and> s = observation_of p i v"
  by (auto simp: calculate_urgency_deadline_def Let_def res_simps)

text \<open>
  C27. Waiting never demotes: when the same work is observed later, its place in the order is the same or
  an earlier one, starved work stays starved, overdue work stays overdue, and the effective deadline does
  not move.
\<close>

theorem waiting_never_demotes:
  assumes s: "calculate_urgency_deadline p i = Inr s"
    and s': "calculate_urgency_deadline p (i\<lparr>ui_observed_at := t\<rparr>) = Inr s'"
    and "read_utc (ui_observed_at i) = Some a" and "read_utc t = Some b" and "a \<le> b"
  shows "so_order_key s' \<le> so_order_key s \<and> so_effective_deadline s' = so_effective_deadline s \<and>
    (so_starvation_state s = STARVED \<longrightarrow> so_starvation_state s' = STARVED) \<and>
    (so_deadline_overdue s \<longrightarrow> so_deadline_overdue s') \<and>
    so_starvation_overrun_seconds s \<le> so_starvation_overrun_seconds s' \<and> so_schedulable s' = so_schedulable s"
proof -
  obtain v w where v: "urgency_deadline_values p i = Inr v" "s = observation_of p i v"
    and w: "urgency_deadline_values p (i\<lparr>ui_observed_at := t\<rparr>) = Inr w" "s' = observation_of p (i\<lparr>ui_observed_at := t\<rparr>) w"
    using calculated [OF s] calculated [OF s'] by blast
  show ?thesis unfolding v(2) w(2) observation_of_simps using values_later [OF v(1) w(1) assms(3-5)] by blast
qed

lemma ex_priority_small:
  "plain w \<Longrightarrow> length w \<le> 8 \<Longrightarrow> json_size (view (PrioritySelection_value (ex_priority w lane))) \<le> 900000"
  using size_priority [of w lane] by simp

lemma ex_calculated:
  "calculate_urgency_deadline ex_urgency ex_routine = Inr (ex_observation ex_routine)"
  "calculate_urgency_deadline ex_urgency ex_starved = Inr (ex_observation ex_starved)"
proof -
  have "json_size (view (PrioritySelection_value (ui_priority_selection i))) \<le> 900000" if "i \<in> {ex_routine, ex_starved}" for i
    using that by (auto simp: ex_routine_def ex_starved_def ex_input_def ex_priority_small plain_def plain_char_def)
  then show "calculate_urgency_deadline ex_urgency ex_routine = Inr (ex_observation ex_routine)"
    "calculate_urgency_deadline ex_urgency ex_starved = Inr (ex_observation ex_starved)"
    using calculation_returns(1) [OF ex_urgency_valid ex_inputs_valid(2) _ ex_values(2)]
      calculation_returns(1) [OF ex_urgency_valid ex_inputs_valid(3) _ ex_values(3)]
    unfolding ex_observation_def by simp_all
qed

definition ex_waited :: UrgencyDeadlineInput where
  "ex_waited = ex_routine\<lparr>ui_observed_at := ''2026-01-05T00:00:00Z''\<rparr>"

lemma ex_waited_calculated:
  obtains s where "calculate_urgency_deadline ex_urgency ex_waited = Inr s" "so_starvation_state s = STARVED"
proof -
  have i: "UrgencyDeadlineInput_valid ex_zones ex_waited"
    using ex_inputs_valid(2)
    by (auto simp: ex_waited_def ex_routine_def ex_input_def UrgencyDeadlineInput_valid_def
        UrgencyDeadlineInput_post_init_def res_simps)
  obtain v where v: "urgency_deadline_values ex_urgency ex_waited = Inr v" "so_starvation_state v = STARVED"
    by (simp add: ex_value_eval ex_routine_def ex_waited_def)
  have "calculate_urgency_deadline ex_urgency ex_waited = Inr (observation_of ex_urgency ex_waited v)"
    by (rule calculation_returns(1) [OF ex_urgency_valid i _ v(1)])
      (simp add: ex_waited_def ex_routine_def ex_input_def ex_priority_small plain_def plain_char_def)
  then show ?thesis using that v(2) by simp
qed

theorem waiting_never_demotes_witness:
  "\<exists>s s'. calculate_urgency_deadline ex_urgency ex_routine = Inr s \<and>
     calculate_urgency_deadline ex_urgency ex_waited = Inr s' \<and>
     so_starvation_state s = WITHIN_BOUND \<and> so_starvation_state s' = STARVED \<and> so_order_key s' \<le> so_order_key s"
proof -
  obtain s' where s': "calculate_urgency_deadline ex_urgency ex_waited = Inr s'" "so_starvation_state s' = STARVED"
    using ex_waited_calculated .
  have "so_starvation_state (ex_observation ex_routine) = WITHIN_BOUND"
    by (simp add: ex_observation_def ex_values_def ex_values_Inr)
  moreover have "read_utc (ui_observed_at ex_routine) = Some 63903081600"
    by (simp add: ex_routine_def ex_input_def)
  then have "so_order_key s' \<le> so_order_key (ex_observation ex_routine)"
    using waiting_never_demotes [OF ex_calculated(1) s'(1) [unfolded ex_waited_def], of 63903081600 63903168000] by simp
  ultimately show ?thesis using ex_calculated(1) s' by blast
qed

text \<open>
  C28. A calculation for a valid policy and input returns exactly when its values can be computed: the
  byte bound of observations never refuses work whose priority selection takes at most 900000 bytes, and
  what is returned passes all checks of the constructor.
\<close>

theorem calculation_returns_values:
  assumes "UrgencyDeadlinePolicy_valid p" and "UrgencyDeadlineInput_valid zones i"
    and len: "canonical_json_bytes (PrioritySelection_value (ui_priority_selection i)) = Inr b" "length b \<le> 900000"
  shows "calculate_urgency_deadline p i =
      res_bind (urgency_deadline_values p i) (\<lambda>v. Inr (observation_of p i v)) \<and>
    (calculate_urgency_deadline p i = Inr s \<longrightarrow> StarvationObservation_valid zones s)"
proof -
  have "PrioritySelection_valid (ui_priority_selection i)"
    using assms(2) by (simp add: UrgencyDeadlineInput_valid_def)
  then have j: "json_size (view (PrioritySelection_value (ui_priority_selection i))) \<le> 900000"
    using canonical_size(2) [OF priority.value_wf len(1)] len(2) by simp
  note r = calculation_returns [OF assms(1,2) j]
  show ?thesis
  proof (cases "urgency_deadline_values p i")
    case (Inl e)
    then show ?thesis by (simp add: calculate_urgency_deadline_def)
  next
    case (Inr v)
    then show ?thesis using r [OF Inr] by auto
  qed
qed

theorem calculation_returns_values_witness:
  "\<exists>b. canonical_json_bytes (PrioritySelection_value (ui_priority_selection ex_starved)) = Inr b \<and> length b \<le> 900000 \<and>
     calculate_urgency_deadline ex_urgency ex_starved =
       res_bind (urgency_deadline_values ex_urgency ex_starved) (\<lambda>v. Inr (observation_of ex_urgency ex_starved v)) \<and>
     StarvationObservation_valid ex_zones (ex_observation ex_starved)"
proof -
  let ?v = "PrioritySelection_value (ui_priority_selection ex_starved)"
  have p: "PrioritySelection_valid (ui_priority_selection ex_starved)"
    using ex_inputs_valid(3) by (simp add: UrgencyDeadlineInput_valid_def)
  obtain b where b: "canonical_json_bytes ?v = Inr b"
    using canonical_json_bytes_encodable [OF priority.value_wf [OF p]] priority_value_encodable [OF p] by blast
  have "json_size (view ?v) \<le> 500" by (simp add: ex_starved_def ex_input_def size_priority plain_def plain_char_def)
  then have len: "length b \<le> 900000" using canonical_size(2) [OF priority.value_wf [OF p] b] by simp
  from calculation_returns_values [OF ex_urgency_valid ex_inputs_valid(3) b len] ex_calculated(2) b len
  show ?thesis by blast
qed

text \<open>
  The accepted UTC texts are exactly the texts of the instants of the years 1000 to 9999: a text is
  read as an instant iff it is what that instant is printed as.
\<close>

theorem utc_texts:
  "parse_utc t = Inr n \<longleftrightarrow> civil n \<and> t = format_utc n"
  by (auto simp: res_simps dest: read_utc_format)

end
