(* ===== verification/Capacity_Props.thy ===== *)
theory Capacity_Props
  imports Scheduling_Props
begin

text \<open>
  Properties of reserved capacity: what a decision guarantees about the slots, the order of service and
  the members that are granted, and that decisions survive their canonical bytes. All of them speak about
  \<open>allocate_reserved_capacity\<close> on a valid policy and snapshot.
\<close>

section \<open>Decisions of valid snapshots\<close>

lemma allocated:
  assumes "ReservedCapacityPolicy_valid p" and "CapacitySnapshot_valid zones s"
    and "allocate_reserved_capacity p s = Inr d"
  shows "within_reserves p s" and "d = decision_of p s" and "distinct (map identity_key (cs_population s))"
    and "ReservedCapacityDecision_valid zones d"
proof -
  show k: "distinct (map identity_key (cs_population s))"
    by (rule snapshot_keys(1) [OF snapshot_valid_fields(1) [OF assms(2)]])
  show "within_reserves p s" "d = decision_of p s" using assms(3) allocate_Inr [OF assms(1) k] by blast+
  have "ReservedCapacityDecision_post_init d = Inr ()" "cd_policy d = p" "cd_snapshot d = s"
    using assms(3) by (auto simp: allocate_reserved_capacity_def Let_def res_simps)
  then show "ReservedCapacityDecision_valid zones d"
    using assms(1,2) by (simp add: ReservedCapacityDecision_valid_def)
qed

lemma disposition_granted:
  "c \<in> set (cs_population s) \<Longrightarrow> disposition_of p s c = GRANTED \<longleftrightarrow> c \<in> set (urgent_chosen p s @ ordinary_chosen p s)"
proof -
  have "c \<notin> set (urgent_chosen p s @ ordinary_chosen p s)"
    if "ci_capacity_class c = URGENT_RESERVED" "cs_urgent_path_state s \<noteq> AVAILABLE"
    using that chosen_pending(2) [of c p s] pending_of_set [of c ORDINARY s] urgent_hold_none [of s p] by auto
  then show ?thesis by (auto simp: disposition_of_def)
qed

lemma decided:
  assumes "a \<in> set (cd_allocations (decision_of p s))"
  shows "ca_item a \<in> set (cs_population s)" "ci_state (ca_item a) = PENDING" "a = allocation_of p s (ca_item a)"
    "ca_disposition a = disposition_of p s (ca_item a)"
    "ca_disposition a = GRANTED \<longleftrightarrow> ca_item a \<in> set (urgent_chosen p s) \<or> ca_item a \<in> set (ordinary_chosen p s)"
    "ca_protected_routine_grant a \<longleftrightarrow> protected_item s = Some (ca_item a) \<and> ca_disposition a = GRANTED"
proof -
  from assms obtain c where c: "c \<in> set (cs_population s)" "ci_state c = PENDING" "a = allocation_of p s c"
    unfolding decision_allocations by blast
  have i: "ca_item a = c" using c(3) by (simp add: allocation_of_def)
  show "ca_item a \<in> set (cs_population s)" "ci_state (ca_item a) = PENDING" "a = allocation_of p s (ca_item a)"
    using c i by simp_all
  show d: "ca_disposition a = disposition_of p s (ca_item a)" unfolding i using c(3) by (simp add: allocation_of_def)
  show "ca_disposition a = GRANTED \<longleftrightarrow> ca_item a \<in> set (urgent_chosen p s) \<or> ca_item a \<in> set (ordinary_chosen p s)"
    unfolding d i using disposition_granted [OF c(1)] by auto
  show "ca_protected_routine_grant a \<longleftrightarrow> protected_item s = Some (ca_item a) \<and> ca_disposition a = GRANTED"
    unfolding d i using c(3) by (simp add: allocation_of_def)
qed

lemma chosen_class:
  "c \<in> set (urgent_chosen p s) \<Longrightarrow> ci_capacity_class c = URGENT_RESERVED"
  "c \<in> set (ordinary_chosen p s) \<Longrightarrow> ci_capacity_class c = ORDINARY"
  using chosen_pending pending_of_set by blast+

lemma decision_grant_numbers:
  assumes "within_reserves p s" and "distinct (map identity_key (cs_population s))"
  shows "urgent_grants (decision_of p s) = int (length (urgent_chosen p s))"
    "ordinary_grants (decision_of p s) = int (length (ordinary_chosen p s))"
    "int (length (urgent_chosen p s)) \<le> max_urgent_slots p - active_urgent_slots s"
    "int (length (ordinary_chosen p s)) \<le> ordinary_limit p s"
    "cd_unallocated_slots (decision_of p s) =
       free_slots p s - urgent_grants (decision_of p s) - ordinary_grants (decision_of p s)"
proof -
  show g: "urgent_grants (decision_of p s) = int (length (urgent_chosen p s))"
    "ordinary_grants (decision_of p s) = int (length (ordinary_chosen p s))"
    by (rule decision_grants [OF assms(2)])+
  have "urgent_limit p s n \<le> max_urgent_slots p - active_urgent_slots s" for n
    using assms(1) by (auto simp: urgent_limit_def within_reserves_def)
  then show "int (length (urgent_chosen p s)) \<le> max_urgent_slots p - active_urgent_slots s"
    using limits_nonneg(3) [OF assms(1)] order_trans by blast
  show "int (length (ordinary_chosen p s)) \<le> ordinary_limit p s" by (rule limits_nonneg(4) [OF assms(1)])
  show "cd_unallocated_slots (decision_of p s) =
       free_slots p s - urgent_grants (decision_of p s) - ordinary_grants (decision_of p s)"
    unfolding g by (simp add: decision_of_def)
qed

section \<open>Slots\<close>

text \<open>
  C19. The reserves hold: after a decision, urgent work leaves the minimum of slots kept for ordinary work,
  ordinary work leaves the slots reserved for urgent work, and active work, grants and unallocated slots
  add up to the slots of the policy.
\<close>

theorem capacity_reserves_hold:
  assumes "ReservedCapacityPolicy_valid p" and "CapacitySnapshot_valid zones s"
    and "allocate_reserved_capacity p s = Inr d"
  shows "active_after_urgent d \<le> rp_total_slots p - rp_minimum_ordinary_slots p \<and>
    active_after_ordinary d \<le> rp_total_slots p - rp_urgent_reserved_slots p \<and>
    active_after_urgent d + active_after_ordinary d + cd_unallocated_slots d = rp_total_slots p \<and>
    active_urgent_slots s \<le> active_after_urgent d \<and> active_ordinary_slots s \<le> active_after_ordinary d \<and>
    0 \<le> cd_unallocated_slots d"
proof -
  note a = allocated [OF assms]
  note n = decision_grant_numbers [OF a(1,3)] and u = unallocated_bounds(1) [OF a(1)]
  have s: "cd_snapshot d = s" by (simp add: a(2) decision_of_def)
  show ?thesis
    using n u unfolding active_after_urgent_def active_after_ordinary_def s unfolding a(2)
    by (simp add: max_urgent_slots_def ordinary_capacity_ceiling_def ordinary_limit_def free_slots_def)
qed

theorem capacity_reserves_hold_witness:
  "allocate_reserved_capacity ex_policy (ex_snapshot AVAILABLE) = Inr (ex_decision AVAILABLE) \<and>
   active_after_urgent (ex_decision AVAILABLE) \<le> 1 \<and> active_after_ordinary (ex_decision AVAILABLE) \<le> 1 \<and>
   active_after_urgent (ex_decision AVAILABLE) + active_after_ordinary (ex_decision AVAILABLE)
     + cd_unallocated_slots (ex_decision AVAILABLE) = 2"
  using capacity_reserves_hold [OF ex_policy_valid ex_snapshot_valid ex_decision_Inr, of AVAILABLE] ex_decision_Inr [of AVAILABLE] by simp

text \<open>
  C25. An allocation returns exactly when the active work of the snapshot fits the slots and leaves both
  reserves free; otherwise it raises the contract error of the scheduling module.
\<close>

theorem allocation_refuses_overcommitment:
  assumes "ReservedCapacityPolicy_valid p" and "CapacitySnapshot_valid zones s"
  shows "(case allocate_reserved_capacity p s of
      Inr d \<Rightarrow> cd_policy d = p \<and> cd_snapshot d = s \<and>
        active_urgent_slots s + active_ordinary_slots s \<le> rp_total_slots p \<and>
        active_urgent_slots s \<le> max_urgent_slots p \<and> active_ordinary_slots s \<le> ordinary_capacity_ceiling p
    | Inl e \<Rightarrow> exn_class_of e = SchedulingContractError \<and>
        (rp_total_slots p < active_urgent_slots s + active_ordinary_slots s \<or>
         max_urgent_slots p < active_urgent_slots s \<or> ordinary_capacity_ceiling p < active_ordinary_slots s))"
proof (cases "within_reserves p s")
  case True
  have "allocate_reserved_capacity p s = Inr (decision_of p s)"
    by (rule allocate_within [OF assms(1) snapshot_keys(1) [OF snapshot_valid_fields(1) [OF assms(2)]] True])
  then show ?thesis using True by (simp add: within_reserves_def decision_of_def)
next
  case False
  then obtain m where "allocate_reserved_capacity p s = Inl (scheduling_error m)" using allocate_outside by blast
  then show ?thesis using False by (auto simp: within_reserves_def scheduling_error_def)
qed

theorem allocation_refuses_overcommitment_witness:
  "\<exists>d. allocate_reserved_capacity ex_policy (ex_snapshot DEGRADED) = Inr d \<and> cd_policy d = ex_policy"
  using allocation_refuses_overcommitment [OF ex_policy_valid ex_snapshot_valid, of DEGRADED]
  by (simp split: sum.splits)

text \<open>
  C26. A decision accounts for every pending member of the snapshot once, and for no other: none is
  dropped, repeated or invented, and the deferred and held ones stay visible.
\<close>

theorem every_pending_member_is_decided:
  assumes "ReservedCapacityPolicy_valid p" and "CapacitySnapshot_valid zones s"
    and "allocate_reserved_capacity p s = Inr d"
  shows "distinct (map ca_item (cd_allocations d)) \<and>
    set (map ca_item (cd_allocations d)) = {c \<in> set (cs_population s). ci_state c = PENDING}"
proof -
  note a = allocated [OF assms]
  have m: "map ca_item (cd_allocations d) = pending_of URGENT_RESERVED s @ pending_of ORDINARY s"
    by (simp add: a(2) decision_of_def allocations_of_def allocation_of_def comp_def)
  have "set (pending_of URGENT_RESERVED s) \<inter> set (pending_of ORDINARY s) = {}"
    using pending_of_set by fastforce
  then have "distinct (map ca_item (cd_allocations d))"
    unfolding m by (simp only: distinct_append pending_of_distinct [OF a(3)] simp_thms)
  moreover have "set (map ca_item (cd_allocations d)) = {c \<in> set (cs_population s). ci_state c = PENDING}"
    unfolding m using CapacityClass.exhaust by (auto simp: snapshot_items_def)
  ultimately show ?thesis ..
qed


theorem every_pending_member_is_decided_witness:
  "set (map ca_item (cd_allocations (ex_decision AVAILABLE))) =
     {ex_pending ex_urgent, ex_pending ex_routine, ex_pending ex_starved}"
proof -
  have "{c \<in> set (cs_population (ex_snapshot AVAILABLE)). ci_state c = PENDING} =
      {ex_pending ex_urgent, ex_pending ex_routine, ex_pending ex_starved}"
    by (auto simp: ex_snapshot_def)
  then show ?thesis using every_pending_member_is_decided [OF ex_policy_valid ex_snapshot_valid ex_decision_Inr, of AVAILABLE] by blast
qed

section \<open>Order of service\<close>

text \<open>
  C20. Capacity is never left idle and never given out of order: a current pending member of an open
  class is deferred only when every slot its class may use is granted, and every member of its class that
  was granted precedes it in the canonical order or holds the protected routine grant.
\<close>

theorem deferral_is_in_order:
  assumes "ReservedCapacityPolicy_valid p" and "CapacitySnapshot_valid zones s"
    and "allocate_reserved_capacity p s = Inr d"
    and "a \<in> set (cd_allocations d)" and "ca_disposition a = CAPACITY_DEFERRED" and "capacity_eligible (ca_item a)"
  shows "(let free = rp_total_slots p - (active_urgent_slots s + active_ordinary_slots s) in
      if ci_capacity_class (ca_item a) = URGENT_RESERVED
      then urgent_grants d = min free (max_urgent_slots p - active_urgent_slots s)
      else ordinary_grants d =
        min (free - urgent_grants d) (ordinary_capacity_ceiling p - active_ordinary_slots s)) \<and>
    (\<forall>g \<in> set (cd_allocations d). ca_disposition g = GRANTED \<longrightarrow>
      ci_capacity_class (ca_item g) = ci_capacity_class (ca_item a) \<longrightarrow>
      ca_protected_routine_grant g \<or> so_order_key (ci_observation (ca_item g)) \<le> so_order_key (ci_observation (ca_item a)))"
proof -
  note a = allocated [OF assms(1-3)]
  note n = decision_grant_numbers [OF a(1,3), folded a(2)] and m = decided [of _ p s, folded a(2)]
  let ?c = "ca_item a"
  have c: "?c \<notin> set (urgent_chosen p s)" "?c \<notin> set (ordinary_chosen p s)"
    using m(5) [OF assms(4)] assms(5) by auto
  have p: "?c \<in> set (pending_of (ci_capacity_class ?c) s)" using m(1,2) [OF assms(4)] pending_of_set by blast
  show ?thesis
  proof (cases "ci_capacity_class ?c")
    case URGENT_RESERVED
    have av: "cs_urgent_path_state s = AVAILABLE"
      using m(4) [OF assms(4)] assms(5) URGENT_RESERVED by (auto simp: disposition_of_def split: if_splits)
    note o = urgent_in_order [OF a(1) av p [unfolded URGENT_RESERVED] assms(6) c(1)]
    have "item_key (ca_item g) \<le> item_key ?c"
      if "g \<in> set (cd_allocations d)" "ca_disposition g = GRANTED" "ci_capacity_class (ca_item g) = URGENT_RESERVED" for g
      using that m(5) [OF that(1)] chosen_class(2) [of "ca_item g" p s] o(2) by fastforce
    then show ?thesis using o(1) n(1) URGENT_RESERVED by (simp add: free_slots_def Let_def)
  next
    case ORDINARY
    note o = ordinary_in_order [OF a(1) p [unfolded ORDINARY] assms(6) c(2)]
    have "ca_protected_routine_grant g \<or> item_key (ca_item g) \<le> item_key ?c"
      if "g \<in> set (cd_allocations d)" "ca_disposition g = GRANTED" "ci_capacity_class (ca_item g) = ORDINARY" for g
      using that m(5,6) [OF that(1)] chosen_class(1) [of "ca_item g" p s] o(2) [of "ca_item g"] by auto
    then show ?thesis using o(1) n(1,2) ORDINARY by (simp add: free_slots_def ordinary_limit_def Let_def)
  qed
qed

theorem deferral_is_in_order_witness:
  "ca_disposition (ex_allocation ex_routine) = CAPACITY_DEFERRED \<and> ordinary_grants (ex_decision AVAILABLE) = min (2 - 1) (1 - 0) \<and>
   (ca_protected_routine_grant (ex_allocation ex_starved) \<or>
    so_order_key (ex_observation ex_starved) \<le> so_order_key (ex_observation ex_routine))"
  using deferral_is_in_order [OF ex_policy_valid ex_snapshot_valid ex_decision_Inr ex_decided(1,4)] ex_decided ex_item_fields
  by (simp add: Let_def) (drule bspec [where x = "ex_allocation ex_starved"]; simp)

text \<open>
  C21. Starved routine work is protected: as soon as ordinary work may use one slot, a snapshot with a
  starved and revalidated routine member gives the protected grant to the first of them in the canonical
  order, before all other ordinary work, and to no other member.
\<close>

theorem starved_routine_is_protected:
  assumes "ReservedCapacityPolicy_valid p" and "CapacitySnapshot_valid zones s"
    and "allocate_reserved_capacity p s = Inr d"
    and "a \<in> set (cd_allocations d)" and "protected_eligible (ca_item a)"
    and "urgent_grants d < rp_total_slots p - (active_urgent_slots s + active_ordinary_slots s)"
    and "active_ordinary_slots s < ordinary_capacity_ceiling p"
  shows "\<exists>!g. g \<in> set (cd_allocations d) \<and> ca_protected_routine_grant g \<and> ca_disposition g = GRANTED \<and>
    protected_eligible (ca_item g) \<and>
    so_order_key (ci_observation (ca_item g)) \<le> so_order_key (ci_observation (ca_item a))"
proof -
  note a = allocated [OF assms(1-3)]
  note n = decision_grant_numbers [OF a(1,3), folded a(2)] and m = decided [of _ p s, folded a(2)]
  have "ci_capacity_class (ca_item a) = ORDINARY"
    using assms(5) by (simp add: protected_eligible_def ci_capacity_class_def capacity_class_for_lane_def)
  then have "ca_item a \<in> set (pending_of ORDINARY s)" using m(1,2) [OF assms(4)] pending_of_set by blast
  then obtain f where f: "protected_item s = Some f" "item_key f \<le> item_key (ca_item a)"
    using protected_first [of "ca_item a", OF _ assms(5)] by blast
  have "0 < ordinary_limit p s" using assms(6,7) n(1) by (simp add: ordinary_limit_def free_slots_def)
  then have ch: "f \<in> set (ordinary_chosen p s)" by (rule protected_chosen [OF f(1)])
  have fp: "f \<in> set (cs_population s)" "ci_state f = PENDING" "protected_eligible f"
    using protected_item_Some [OF f(1)] pending_of_set by blast+
  let ?g = "allocation_of p s f"
  have g: "?g \<in> set (cd_allocations d)" using fp unfolding a(2) decision_allocations by blast
  have i: "ca_item ?g = f" by (simp add: allocation_of_def)
  have gr: "ca_disposition ?g = GRANTED" using m(5) [OF g] ch i by simp
  have pg: "ca_protected_routine_grant ?g" using m(6) [OF g] gr f(1) i by simp
  have "h = ?g" if "h \<in> set (cd_allocations d)" "ca_protected_routine_grant h" for h
  proof -
    have "ca_item h = f" using m(6) [OF that(1)] that(2) f(1) by simp
    then show ?thesis using m(3) [OF that(1)] by simp
  qed
  then show ?thesis
    by (intro ex1I [of _ ?g]) (simp_all only: g gr pg i fp(3) f(2) simp_thms)
qed

theorem starved_routine_is_protected_witness:
  "\<exists>g. g \<in> set (cd_allocations (ex_decision AVAILABLE)) \<and> ca_protected_routine_grant g \<and> ca_disposition g = GRANTED"
  using starved_routine_is_protected [OF ex_policy_valid ex_snapshot_valid ex_decision_Inr ex_decided(2)] ex_decided ex_item_fields by auto

section \<open>What is granted\<close>

text \<open>
  C22. Only current work is granted: a granted member is pending in the snapshot, was observed at its
  instant under its exact urgency policy, is eligible and ready, and if its observation asked for
  revalidation it carries evidence with the result revalidated that is bound to this very observation.
\<close>

theorem only_current_work_is_granted:
  assumes "ReservedCapacityPolicy_valid p" and "CapacitySnapshot_valid zones s"
    and "allocate_reserved_capacity p s = Inr d"
    and "a \<in> set (cd_allocations d)" and "ca_disposition a = GRANTED"
  shows "ca_item a \<in> set (cs_population s) \<and> ci_state (ca_item a) = PENDING \<and>
    (let o1 = ci_observation (ca_item a); i = so_item o1 in
      ui_observed_at i = cs_observed_at s \<and> so_policy o1 = cs_urgency_policy s \<and>
      ui_eligibility i = CURRENT_ELIGIBLE \<and> ui_dependency_ready i \<and>
      (so_revalidation_required o1 \<longrightarrow>
        (\<exists>e. ci_revalidation_evidence (ca_item a) = Some e \<and> re_result e = REVALIDATED \<and> evidence_binds e o1)))"
proof -
  note a = allocated [OF assms(1-3)]
  note m = decided [OF assms(4) [unfolded a(2)]] and f = snapshot_valid_fields [OF assms(2)]
  let ?c = "ca_item a" and ?o = "ci_observation (ca_item a)"
  have el: "capacity_eligible ?c" using m(5) assms(5) chosen_pending by blast
  have v: "CapacityPopulationItem_post_init ?c = Inr ()" and ov: "StarvationObservation_valid zones ?o"
    using item_valid_fields [OF f(3) [OF m(1)]] by blast+
  have s: "so_schedulable ?o" "so_revalidation_required ?o \<Longrightarrow> ci_revalidation_evidence ?c \<noteq> None"
      "ci_revalidation_evidence ?c = Some e \<Longrightarrow> evidence_binds e ?o" for e
    using v by (auto simp: CapacityPopulationItem_post_init_def Let_def res_simps)
  have "urgency_deadline_values (so_policy ?o) (so_item ?o) = Inr (DeadlineValues.truncate ?o)"
    by (rule observation_valid_fields(3) [OF ov])
  then have "ui_eligibility (so_item ?o) = CURRENT_ELIGIBLE \<and> ui_dependency_ready (so_item ?o)"
    by (rule urgency_values_Inr) (use s(1) in \<open>simp add: DeadlineValues.defs\<close>)
  moreover have "re_result e = REVALIDATED" if "ci_revalidation_evidence ?c = Some e" for e
    using el that by (simp add: capacity_eligible_def ci_revalidation_result_def)
  ultimately show ?thesis
    using m(1,2) s snapshot_keys(3,4) [OF f(1) m(1)] by (auto simp: Let_def)
qed

theorem only_current_work_is_granted_witness:
  "ca_disposition (ex_allocation ex_starved) = GRANTED \<and> so_revalidation_required (ex_observation ex_starved) \<and>
   (\<exists>e. ci_revalidation_evidence (ex_pending ex_starved) = Some e \<and> re_result e = REVALIDATED \<and>
      evidence_binds e (ex_observation ex_starved))"
proof -
  have "so_revalidation_required (ex_observation ex_starved)"
    by (simp add: ex_observation_def ex_values_def ex_values_Inr)
  then show ?thesis
    using only_current_work_is_granted [OF ex_policy_valid ex_snapshot_valid ex_decision_Inr ex_decided(2,5)] ex_decided(3,5) by (simp add: Let_def)
qed

text \<open>
  C23. Urgent work that cannot be served is held, never downgraded: while the urgent path is not
  available every pending urgent member is held visibly, none is granted, and the decision reports the
  hold; a hold occurs in no other case.
\<close>

theorem urgent_work_is_held_visibly:
  assumes "ReservedCapacityPolicy_valid p" and "CapacitySnapshot_valid zones s"
    and "allocate_reserved_capacity p s = Inr d"
  shows "(\<forall>a \<in> set (cd_allocations d). ca_disposition a = URGENT_VISIBLE_OPERATIONAL_HOLD \<longleftrightarrow>
      ci_lane (ca_item a) \<in> {CONTAINMENT, URGENT} \<and> cs_urgent_path_state s \<noteq> AVAILABLE) \<and>
    (cs_urgent_path_state s \<noteq> AVAILABLE \<longrightarrow> urgent_grants d = 0 \<and> urgent_disposition d =
      (if pending_urgent s = 0 then NO_PENDING_WORK else ALL_URGENT_VISIBLE_OPERATIONAL_HOLD))"
proof -
  note a = allocated [OF assms] and n = decision_grant_numbers [of p s] and m = decided [of _ p s]
  have cls: "ci_capacity_class c = URGENT_RESERVED \<longleftrightarrow> ci_lane c \<in> {CONTAINMENT, URGENT}" for c
    by (simp add: ci_capacity_class_def capacity_class_for_lane_def)
  have h: "ca_disposition x = URGENT_VISIBLE_OPERATIONAL_HOLD \<longleftrightarrow>
      ci_capacity_class (ca_item x) = URGENT_RESERVED \<and> cs_urgent_path_state s \<noteq> AVAILABLE"
    if "x \<in> set (cd_allocations d)" for x
    using m(4) [OF that [unfolded a(2)]] by (simp add: disposition_of_def)
  let ?u = "filter (\<lambda>a. ci_capacity_class (ca_item a) = URGENT_RESERVED) (cd_allocations d)"
  have all: "a \<in> set (cd_allocations d) \<longleftrightarrow> (\<exists>c. c \<in> set (cs_population s) \<and> ci_state c = PENDING \<and> a = allocation_of p s c)" for a
    unfolding a(2) by (rule decision_allocations)
  have "?u = [] \<longleftrightarrow> (\<forall>c \<in> set (cs_population s). ci_state c = PENDING \<longrightarrow> ci_capacity_class c \<noteq> URGENT_RESERVED)"
    unfolding filter_empty_conv Ball_def all by (auto simp: allocation_of_def)
  also have "\<dots> \<longleftrightarrow> snapshot_items PENDING URGENT_RESERVED s = []"
    unfolding snapshot_items_def filter_empty_conv by blast
  finally have e: "?u = [] \<longleftrightarrow> pending_urgent s = 0" by (simp add: pending_urgent_def)
  have "urgent_grants d = 0 \<and> urgent_disposition d =
      (if pending_urgent s = 0 then NO_PENDING_WORK else ALL_URGENT_VISIBLE_OPERATIONAL_HOLD)"
    if "cs_urgent_path_state s \<noteq> AVAILABLE"
  proof -
    have all: "ca_disposition x = URGENT_VISIBLE_OPERATIONAL_HOLD" if "x \<in> set ?u" for x
      using that h \<open>cs_urgent_path_state s \<noteq> AVAILABLE\<close> by simp
    then have "\<not> list_ex (\<lambda>a. ca_disposition a = GRANTED) ?u" by (fastforce simp: list_ex_iff)
    moreover have "?u \<noteq> [] \<Longrightarrow> list_ex (\<lambda>a. ca_disposition a = URGENT_VISIBLE_OPERATIONAL_HOLD) ?u"
      using all by (cases ?u) auto
    ultimately show ?thesis
      using e n(1) [OF a(1,3)] urgent_hold_none [OF that, of p] unfolding a(2) [symmetric]
      by (simp only: urgent_disposition_def Let_def list.size of_nat_0) (simp split: if_split)
  qed
  then show ?thesis using h cls by blast
qed

theorem urgent_work_is_held_visibly_witness:
  "urgent_grants (ex_decision DEGRADED) = 0 \<and>
   urgent_disposition (ex_decision DEGRADED) = ALL_URGENT_VISIBLE_OPERATIONAL_HOLD"
  using urgent_work_is_held_visibly [OF ex_policy_valid ex_snapshot_valid ex_decision_Inr, of DEGRADED] by simp

section \<open>Canonical bytes\<close>

text \<open>
  C24. Every decision has canonical bytes, they fit the byte bound of the reader, and the reader
  reconstructs exactly this decision from them, whatever the size of the population and of its members.
\<close>

theorem decision_reads_back:
  assumes "ReservedCapacityPolicy_valid p" and "CapacitySnapshot_valid zones s"
    and "allocate_reserved_capacity p s = Inr d"
  shows "\<exists>b. canonical_json_bytes (ReservedCapacityDecision_value d) = Inr b \<and> length b \<le> MAX_CANONICAL_BYTES \<and>
    ReservedCapacityDecision_from_canonical_bytes zones b = Inr d"
  using decision_bytes [OF allocated(4) [OF assms]] ReservedCapacityDecision_bytes_back [OF allocated(4) [OF assms]]
  by metis

theorem decision_reads_back_witness:
  "\<exists>b. canonical_json_bytes (ReservedCapacityDecision_value (ex_decision AVAILABLE)) = Inr b \<and>
     ReservedCapacityDecision_from_canonical_bytes ex_zones b = Inr (ex_decision AVAILABLE)"
  using decision_reads_back [OF ex_policy_valid ex_snapshot_valid ex_decision_Inr, of AVAILABLE] by blast

end
