(* ===== verification/Triage_Props.thy ===== *)
theory Triage_Props
  imports Triage_Outcomes
begin

text \<open>
  Properties of outcome selections: what every accepted selection promises, that the matrix of Lead
  outcomes is exactly what is accepted, and that selections survive their canonical bytes.
\<close>

section \<open>Lead outcomes\<close>

text \<open>Every entry of the matrix passes the general checks of a selection.\<close>

lemma LEAD_MATRIX_kinds:
  assumes "LEAD_MATRIX o' = Some ps" and "(t, a) \<in> set ps"
  shows "t = PENDING_CONDITION \<Longrightarrow> next_action_kind a \<in> {QUEUE_TRIAGE, RETRY, REVIEW, WAIT_DEPENDENCY,
      RESUME_ON_WATCH, REQUEST_SUPPLEMENTAL_DISCOVERY_KIND}"
    and "t = RETRYABLE_SAME_REQUEST \<Longrightarrow> next_action_kind a = RETRY"
  using assms unfolding LEAD_MATRIX_def WATCH_CONDITION_MAPPING_def SUPPLEMENTAL_ACTION_MAPPING_def mapped_action_def
  by (auto split: if_splits)

lemma action_kind: "NextAction_valid a \<Longrightarrow> na_kind a = next_action_kind (na_action_code a)"
  by (auto simp: NextAction_valid_def NextAction_post_init_def res_simps)

lemma action_condition:
  assumes "NextAction_valid a"
    and "na_kind a \<in> {RETRY, REVIEW, WAIT_DEPENDENCY, RESUME_ON_WATCH, REQUEST_SUPPLEMENTAL_DISCOVERY_KIND}"
  shows "\<exists>c. na_condition_reference a = Some c \<and> c \<noteq> []"
proof -
  have p: "NextAction_post_init a = Inr ()" using assms(1) by (simp add: NextAction_valid_def)
  then have "na_condition_reference a \<noteq> None" using assms(2) by (auto simp: NextAction_post_init_def res_simps)
  then obtain c where c: "na_condition_reference a = Some c" by blast
  moreover from p c have "c \<noteq> []" by (auto simp: NextAction_post_init_def res_simps)
  ultimately show ?thesis by blast
qed

lemma selection_checks:
  assumes "OutcomeSelection_valid s"
  shows "os_terminality s \<in> set (permitted_terminality (os_outcome s))"
    and "os_terminality s = PENDING_CONDITION \<Longrightarrow> \<exists>a. os_next_action s = Some a \<and> na_kind a \<in> {QUEUE_TRIAGE, RETRY,
      REVIEW, WAIT_DEPENDENCY, RESUME_ON_WATCH, REQUEST_SUPPLEMENTAL_DISCOVERY_KIND}"
    and "os_terminality s = RETRYABLE_SAME_REQUEST \<Longrightarrow> \<exists>a. os_next_action s = Some a \<and> na_kind a = RETRY"
    and "os_outcome s \<in> dom LEAD_MATRIX \<Longrightarrow> \<exists>a. os_next_action s = Some a \<and>
      (os_terminality s, na_action_code a) \<in> set (the (LEAD_MATRIX (os_outcome s)))"
    and "\<And>a. os_next_action s = Some a \<Longrightarrow> NextAction_valid a"
proof -
  have p: "OutcomeSelection_post_init s = Inr ()" using assms by (simp add: OutcomeSelection_valid_def)
  then obtain f where c: "os_terminality s \<in> set (permitted_terminality (os_outcome s))"
      "os_terminality s = PENDING_CONDITION \<longrightarrow> (case os_next_action s of None \<Rightarrow> False
          | Some a \<Rightarrow> na_kind a \<in> {QUEUE_TRIAGE, RETRY, REVIEW, WAIT_DEPENDENCY, RESUME_ON_WATCH,
              REQUEST_SUPPLEMENTAL_DISCOVERY_KIND})"
      "os_terminality s = RETRYABLE_SAME_REQUEST \<longrightarrow>
         (case os_next_action s of None \<Rightarrow> False | Some a \<Rightarrow> na_kind a = RETRY)"
    and f: "outcome_family (os_outcome s) = Inr f" "(if f = LEAD then require_lead_action s else Inr ()) = Inr ()"
    unfolding OutcomeSelection_post_init_def by (simp only: res_bind_Inr_iff require_Inr_iff) blast
  show "os_terminality s \<in> set (permitted_terminality (os_outcome s))" by (rule c(1))
  show "os_terminality s = PENDING_CONDITION \<Longrightarrow> \<exists>a. os_next_action s = Some a \<and> na_kind a \<in> {QUEUE_TRIAGE, RETRY,
      REVIEW, WAIT_DEPENDENCY, RESUME_ON_WATCH, REQUEST_SUPPLEMENTAL_DISCOVERY_KIND}"
    using c(2) by (auto split: option.splits)
  show "os_terminality s = RETRYABLE_SAME_REQUEST \<Longrightarrow> \<exists>a. os_next_action s = Some a \<and> na_kind a = RETRY"
    using c(3) by (auto split: option.splits)
  show "os_outcome s \<in> dom LEAD_MATRIX \<Longrightarrow> \<exists>a. os_next_action s = Some a \<and>
      (os_terminality s, na_action_code a) \<in> set (the (LEAD_MATRIX (os_outcome s)))"
  proof -
    assume "os_outcome s \<in> dom LEAD_MATRIX"
    then have "f = LEAD" using f(1) LEAD_MATRIX_total [of "os_outcome s"] by simp
    then have "require_lead_action s = Inr ()" using f(2) by simp
    then show ?thesis by (auto simp: require_lead_action_def res_simps split: option.splits)
  qed
  show "\<And>a. os_next_action s = Some a \<Longrightarrow> NextAction_valid a" using assms by (simp add: OutcomeSelection_valid_def)
qed

section \<open>Properties\<close>

definition ex_hold :: "DecisionTerminality \<Rightarrow> CanonicalNextAction \<Rightarrow> OutcomeSelection" where
  "ex_hold t a = \<lparr>os_outcome = LEAD_OPERATIONAL_HOLD, os_terminality = t,
     os_primary_reason = \<lparr>rs_code = hd ReasonCode_members, rs_basis = hd ReasonBasisClass_members,
       rs_references = [\<lparr>rr_reference_type = ''policy'', rr_identifier = [112], rr_digest = None\<rparr>],
       rs_explanation = [104], rs_schema_version = REASON_TAXONOMY_VERSION\<rparr>,
     os_supporting_reasons = [],
     os_next_action = Some \<lparr>na_kind = next_action_kind a, na_action_code = a,
       na_condition_reference = Some [99], na_instructions = []\<rparr>,
     os_schema_version = OUTCOME_TAXONOMY_VERSION, os_outcome_taxonomy_version = OUTCOME_TAXONOMY_VERSION,
     os_reason_taxonomy_version = REASON_TAXONOMY_VERSION, os_authority = NoAuthority, os_effect = NoEffect\<rparr>"

lemma ex_hold_parts:
  "StructuredReason_valid (os_primary_reason (ex_hold t a))"
  "a \<noteq> CLOSE_DECISION \<Longrightarrow> NextAction_valid (the (os_next_action (ex_hold t a)))"
proof -
  show "StructuredReason_valid (os_primary_reason (ex_hold t a))"
    by (simp add: ex_hold_def StructuredReason_valid_def StructuredReason_post_init_def ReasonReference_valid_def
        ReasonReference_post_init_def contract_token_def contract_token_char_def is_alpha_def is_digit_def Let_def
        control_character_def is_surrogate_def utf8_char_def wf_text_def res_simps)
  show "a \<noteq> CLOSE_DECISION \<Longrightarrow> NextAction_valid (the (os_next_action (ex_hold t a)))"
    by (cases a) (simp_all add: ex_hold_def NextAction_valid_def NextAction_post_init_def
        control_character_def is_surrogate_def utf8_char_def wf_text_def res_simps)
qed

text \<open>
  C29. For a Lead outcome whose parts are valid, a selection without supporting reasons is accepted
  exactly when the matrix pairs its terminality with its next action: the general rules on terminality,
  pending and retryable outcomes never refuse an entry of the matrix.
\<close>

theorem lead_matrix_is_exact:
  assumes "os_outcome s \<in> dom LEAD_MATRIX" and "os_next_action s = Some a" and "NextAction_valid a"
    and "StructuredReason_valid (os_primary_reason s)" and "os_supporting_reasons s = []"
    and "os_schema_version s = OUTCOME_TAXONOMY_VERSION" and "os_outcome_taxonomy_version s = OUTCOME_TAXONOMY_VERSION"
    and "os_reason_taxonomy_version s = REASON_TAXONOMY_VERSION"
  shows "OutcomeSelection_post_init s = Inr () \<longleftrightarrow>
    (os_terminality s, na_action_code a) \<in> set (the (LEAD_MATRIX (os_outcome s)))"
proof
  assume "OutcomeSelection_post_init s = Inr ()"
  then have "OutcomeSelection_valid s" using assms(2-5) by (simp add: OutcomeSelection_valid_def)
  from selection_checks(4) [OF this assms(1)] assms(2)
  show "(os_terminality s, na_action_code a) \<in> set (the (LEAD_MATRIX (os_outcome s)))" by auto
next
  assume m: "(os_terminality s, na_action_code a) \<in> set (the (LEAD_MATRIX (os_outcome s)))"
  obtain ps where ps: "LEAD_MATRIX (os_outcome s) = Some ps" using assms(1) by blast
  have e: "(os_terminality s, na_action_code a) \<in> set ps" using m ps by simp
  have f: "outcome_family (os_outcome s) = Inr LEAD" using assms(1) LEAD_MATRIX_total by blast
  note k = LEAD_MATRIX_kinds [OF ps e, folded action_kind [OF assms(3)]] and t = LEAD_MATRIX_permitted [OF ps e]
  have l: "require_lead_action s = Inr ()" using ps e assms(2) by (simp add: require_lead_action_def res_simps)
  obtain key where r: "reason_key (os_primary_reason s) = Inr key"
    using canonical_json_bytes_encodable [OF reason.value_wf [OF assms(4)]] reason_value_encodable [OF assms(4)]
    unfolding reason_key_def by blast
  have q: "require_supporting (os_primary_reason s) (os_supporting_reasons s) = Inr ()"
    using assms(5) r by (simp add: require_supporting_def res_simps)
  show "OutcomeSelection_post_init s = Inr ()"
    unfolding OutcomeSelection_post_init_def
    using assms(2,6-8) t k q f l by (cases "os_authority s"; cases "os_effect s") (simp add: res_simps)
qed

theorem lead_matrix_is_exact_witness:
  "OutcomeSelection_post_init (ex_hold PENDING_CONDITION REQUEST_REVIEW) = Inr () \<and>
   OutcomeSelection_post_init (ex_hold RETRYABLE_SAME_REQUEST REQUEST_REVIEW) \<noteq> Inr ()"
proof -
  have "OutcomeSelection_post_init (ex_hold t REQUEST_REVIEW) = Inr () \<longleftrightarrow>
      (t, REQUEST_REVIEW) \<in> set (the (LEAD_MATRIX LEAD_OPERATIONAL_HOLD))" for t
    using lead_matrix_is_exact [of "ex_hold t REQUEST_REVIEW", OF _ _ ex_hold_parts(2) ex_hold_parts(1)]
    by (simp add: ex_hold_def LEAD_MATRIX_def)
  then show ?thesis by (simp add: LEAD_MATRIX_def)
qed

lemma ex_hold_valid: "OutcomeSelection_valid (ex_hold PENDING_CONDITION REQUEST_REVIEW)"
proof -
  let ?s = "ex_hold PENDING_CONDITION REQUEST_REVIEW"
  obtain key where r: "reason_key (os_primary_reason ?s) = Inr key"
    using canonical_json_bytes_encodable [OF reason.value_wf [OF ex_hold_parts(1)]] reason_value_encodable [OF ex_hold_parts(1)]
    unfolding reason_key_def by blast
  have "outcome_family LEAD_OPERATIONAL_HOLD = Inr LEAD"
    using LEAD_MATRIX_total [of LEAD_OPERATIONAL_HOLD] by (simp add: LEAD_MATRIX_def)
  then have "OutcomeSelection_post_init ?s = Inr ()"
    using r by (simp add: OutcomeSelection_post_init_def require_supporting_def require_lead_action_def res_simps)
      (simp add: ex_hold_def permitted_terminality_def LEAD_MATRIX_def)
  then show ?thesis
    using ex_hold_parts(1) ex_hold_parts(2) [of REQUEST_REVIEW PENDING_CONDITION]
    by (simp add: OutcomeSelection_valid_def) (simp add: ex_hold_def)
qed

text \<open>
  C30. An accepted outcome can be acted on: a pending one names a pending next action and, unless it only
  queues the work, the condition it waits for; a retryable one names a retry with its condition; a Lead
  outcome names an action of the matrix, and the kind of every action is that of its code.
\<close>

theorem accepted_outcome_is_actionable:
  assumes "OutcomeSelection_valid s"
  shows "os_terminality s \<in> set (permitted_terminality (os_outcome s)) \<and>
    (os_terminality s = PENDING_CONDITION \<longrightarrow> (\<exists>a. os_next_action s = Some a \<and>
      (na_kind a = QUEUE_TRIAGE \<or> (\<exists>c. na_condition_reference a = Some c \<and> c \<noteq> [])))) \<and>
    (os_terminality s = RETRYABLE_SAME_REQUEST \<longrightarrow> (\<exists>a c. os_next_action s = Some a \<and> na_kind a = RETRY \<and>
      na_condition_reference a = Some c \<and> c \<noteq> [])) \<and>
    (outcome_family (os_outcome s) = Inr LEAD \<longrightarrow> (\<exists>a. os_next_action s = Some a \<and>
      (os_terminality s, na_action_code a) \<in> set (the (LEAD_MATRIX (os_outcome s))))) \<and>
    (\<forall>a. os_next_action s = Some a \<longrightarrow> na_kind a = next_action_kind (na_action_code a))"
proof -
  note c = selection_checks [OF assms]
  have "\<exists>a. os_next_action s = Some a \<and> (na_kind a = QUEUE_TRIAGE \<or> (\<exists>c. na_condition_reference a = Some c \<and> c \<noteq> []))"
    if t: "os_terminality s = PENDING_CONDITION"
  proof -
    obtain a where a: "os_next_action s = Some a" "na_kind a \<in> {QUEUE_TRIAGE, RETRY,
      REVIEW, WAIT_DEPENDENCY, RESUME_ON_WATCH, REQUEST_SUPPLEMENTAL_DISCOVERY_KIND}" using c(2) [OF t] by blast
    then show ?thesis using action_condition [OF c(5) [OF a(1)]] by auto
  qed
  moreover have "\<exists>a c. os_next_action s = Some a \<and> na_kind a = RETRY \<and> na_condition_reference a = Some c \<and> c \<noteq> []"
    if "os_terminality s = RETRYABLE_SAME_REQUEST"
    using c(3) [OF that] action_condition c(5) by fastforce
  ultimately show ?thesis using c(1,4) action_kind [OF c(5)] LEAD_MATRIX_total [of "os_outcome s"] by blast
qed

theorem accepted_outcome_is_actionable_witness:
  "\<exists>a c. os_next_action (ex_hold PENDING_CONDITION REQUEST_REVIEW) = Some a \<and> na_condition_reference a = Some c \<and> c \<noteq> []"
  using accepted_outcome_is_actionable [OF ex_hold_valid] by (simp add: ex_hold_def)

text \<open>
  Every accepted outcome selection has canonical bytes, and \<open>from_canonical_bytes\<close> reconstructs
  exactly this selection from them.
\<close>

theorem outcome_selection_reads_back:
  assumes "OutcomeSelection_valid s"
  shows "\<exists>b. canonical_json_bytes (OutcomeSelection_value s) = Inr b \<and> OutcomeSelection_from_canonical_bytes b = Inr s"
  unfolding OutcomeSelection_from_canonical_bytes_def
  by (rule read_canonical_back [OF outcome.wire_record_axioms assms outcome_value_encodable [OF assms]])
    (simp add: OutcomeSelection_value_def)

theorem outcome_selection_reads_back_witness:
  "\<exists>b. canonical_json_bytes (OutcomeSelection_value (ex_hold PENDING_CONDITION REQUEST_REVIEW)) = Inr b \<and>
     OutcomeSelection_from_canonical_bytes b = Inr (ex_hold PENDING_CONDITION REQUEST_REVIEW)"
  by (rule outcome_selection_reads_back [OF ex_hold_valid])

end
