(* ===== verification/Spec2Isabelle.thy ===== *)
theory Spec2Isabelle
  imports Event_Read_Props Cycle_Governor_Circuit Retrieval_Props Capacity_Props Triage_Props
begin

text \<open>
  A verification library for the newsroom: the authority that turns semantic commands into signed
  commit grants, the event store that commits them, the control plane's ledger and cycle governor, hybrid
  retrieval, and the contracts that decide what work is done next.

  \<^bold>\<open>The program.\<close> The newsroom keeps its editorial state in SQLite stores that only deterministic
  controllers may change. A client submits a semantic command; the command service
  (\<open>src/newsroom/authority/service.py\<close>) authenticates and authorises it, resolves its payload under a
  registered schema contract and signs an \<open>AuthorizedCommandGrant\<close> that the event store verifies before
  it commits. Every identity in the system is a SHA-256 digest of canonical JSON. The control plane
  (\<open>src/newsroom/control_plane\<close>) runs governed cycles: the cycle governor gives out one lease at a time,
  enforces a cooldown between cycles and opens a circuit breaker on the writer route when the provider
  fails; every decision is an entry of a hash-chained ledger that refuses public effects. Increment 6
  (\<open>src/newsroom/increment6\<close>) holds pure contracts: a triage outcome with its reasons and next action, the
  priority of a work item, its place in the queue (\<open>calculate_urgency_deadline\<close>) and the allocation of the
  free slots to pending work (\<open>allocate_reserved_capacity\<close>); their records travel as canonical bytes.

  \<^bold>\<open>Theories and sources.\<close>
  \<^item> \<open>Prelude\<close>: exceptions as values (\<open>exn + 'a\<close>), sequencing and guards (\<open>res_bind\<close>, \<open>require\<close>), the
    collection \<open>res_simps\<close>, list and text lemmas. \<open>State_Machine\<close>: the locales \<open>state_machine\<close> and
    \<open>ordered_machine\<close> for step relations with an invariant and a monotone history.
  \<^item> \<open>Sha256\<close>: SHA-256 and HMAC-SHA-256 of the Python standard library, on 32-bit words.
  \<^item> \<open>Canonical\<close>, \<open>Canonical_Facts\<close>, \<open>Canonical_Props\<close>: \<open>authority/canonical.py\<close> and the reader
    \<open>_decode_canonical\<close> of \<open>authority/_event_store_commit.py\<close>. Python values are the datatype \<open>pyval\<close>
    (with exact and subclassed builtins), JSON content is \<open>json\<close>. The lemmas show that the encoder is
    injective on content and that the decoder accepts exactly the canonical encodings.
    \<open>Canonical_Limits\<close>: the documented contract of \<open>orjson\<close>, under which the native path is equivalent, and
    \<open>canonical_json_bytes_in\<close>, the encoder under the recursion limit of the interpreter: it agrees with the
    unlimited encoder but for \<open>RecursionError\<close> on values nested deeper than the limit allows, and raises
    nothing but \<open>CanonicalizationError\<close> on the others.
  \<^item> \<open>Authority_Types\<close>: \<open>authority/types.py\<close>: tokens, scopes, UUIDv4 identifiers, versions, timestamps,
    temporal values. \<open>Iso_Time\<close>: \<open>UtcTimestamp.parse\<close> and the ISO 8601 formats of \<open>datetime.fromisoformat\<close>;
    the text of every timestamp is read back. \<open>Records\<close>: dictionaries of dataclasses and the locale \<open>content_addressed\<close>, which
    gives every record with a faithful canonical value a digest that binds all its fields up to an
    explicit collision. \<open>Command_Models\<close>: \<open>authority/models.py\<close>.
  \<^item> \<open>Registries\<close>: \<open>authority/policy.py\<close>: golden vectors, payload schema contracts, and the two registries
    as interpretations of the locale \<open>versioned_registry\<close>.
  \<^item> \<open>Security\<close>: \<open>authority/_security.py\<close> and \<open>authority/auth.py\<close>: contexts, requests, decisions and the
    static adapters, which interpret the locale \<open>security_adapters\<close>.
  \<^item> \<open>Capability\<close>: \<open>authority/_capability.py\<close>: grants, their issuer and the whole of \<open>verify\<close>.
  \<^item> \<open>Command_Service\<close>, \<open>Command_Service_Props\<close>: \<open>authority/service.py\<close>: first submissions and retries,
    and that grants issued by the service verify, are tamper evident and identify their request.
  \<^item> \<open>Event_Records\<close>: \<open>authority/persistence.py\<close>, the rows of the authority tables
    (\<open>authority/migrations.py\<close>) in the record \<open>authority_db\<close>, and the readers of stored records.
    \<open>Command_Storage\<close>: \<open>authority/command_bound_storage.py\<close>, the compact forms of requests and results.
    \<open>Event_Store\<close>: the transactions of \<open>authority/_event_store_commit.py\<close>; keys, checks, foreign keys and
    triggers are guarded inserts. \<open>Event_Read\<close>: the lookup of identities, the policy-bound reads and the
    checks of an opened database (\<open>_event_store_base.py\<close>, \<open>_event_store_read.py\<close>,
    \<open>_event_store_guards.py\<close>, \<open>_event_store_payload_integrity.py\<close>).
  \<^item> \<open>Event_Store_Facts\<close>: the effect of every insert and phase, and that tables only grow.
    \<open>Event_Store_Invariant\<close>: the history as a list of \<open>CommandUnit\<close>s, the invariant \<open>store_inv\<close> and that a
    new command extends it. \<open>Event_Store_Steps\<close>: the step relation \<open>commit_step\<close> of arbitrary commits,
    an \<open>ordered_machine\<close>. \<open>Event_Store_Progress\<close>: \<open>commit_enabled\<close>, the conditions under which a commit
    goes through, with the lossless rebuilding of compact requests. \<open>Event_Store_Runs\<close>: the command
    service in front of the store and a concrete run. \<open>Event_Store_Types\<close>: grants and identifiers whose
    values passed the constructors of their classes, as all those of the service do; every event they write
    passes the typed checks of an opened database. \<open>Event_Store_Props\<close>, \<open>Event_Read_Props\<close>: the
    properties, among them the refinement of the append-only log \<open>log_submit\<close> and redelivery.
  \<^item> \<open>Control_Ledger\<close>: \<open>control_plane/veto.py\<close> and the ledger of \<open>control_plane/store.py\<close>.
  \<^item> \<open>Cycle_Governor\<close>: every operation of \<open>control_plane/cycle_governor.py\<close> as transactions on the record
    \<open>governor_db\<close> of its tables. \<open>Cycle_Governor_Facts\<close>: the invariant \<open>governor_ok\<close>, the effect lemma of
    each operation, preservation, and \<open>advances\<close>, the append-only history. \<open>Cycle_Governor_Steps\<close>: the
    step relation \<open>governor_step\<close> of several processes on one store, interpreted as an
    \<open>ordered_machine\<close>. \<open>Cycle_Governor_Props\<close>, \<open>Cycle_Governor_Circuit\<close>: the properties.
  \<^item> \<open>Retrieval_Score\<close>: the score texts of \<open>retrieval/models.py\<close> over an exact model of binary64
    rounding and of \<open>format(value, ".17g")\<close>; the lemmas lead to the round trip of seventeen digits.
    \<open>Retrieval_Models\<close>: the records of \<open>retrieval/models.py\<close> with their checks and canonical
    dictionaries. \<open>Retrieval_Fusion\<close>: \<open>retrieval/policy.py\<close>, the root records of
    \<open>retrieval/fixture_v2.py\<close> and \<open>retrieval/fusion.py\<close>. \<open>Retrieval_Fusion_Facts\<close>: the specification
    \<open>ranking\<close>/\<open>root_score\<close> and that fusion computes it. \<open>Retrieval_Props\<close>: the properties.
  \<^item> \<open>Wire\<close>: how decoded objects become records: exact key sets, typed fields, the locale \<open>str_enum\<close> for
    string enumerations and the locale \<open>wire_record\<close> of a record with a canonical value and a reader,
    whose interpretations say that every accepted record is read back. \<open>Wire_Size\<close>: byte sizes and
    nesting of canonical texts. \<open>Civil_Time\<close>: the second-exact UTC and wall time texts.
  \<^item> \<open>Triage_Vocabulary\<close>, \<open>Triage_Outcomes\<close>, \<open>Triage_Props\<close>: \<open>increment6/outcomes.py\<close>: the enumerations,
    the tables of families, terminality and Lead actions, the records and their readers.
  \<^item> \<open>Scheduling\<close>, \<open>Capacity\<close>: the two halves of \<open>increment6/scheduling.py\<close>, deadlines and starvation
    observations, and reserved capacity. \<open>Scheduling_Wire\<close>, \<open>Capacity_Wire\<close>: all records are read back;
    what a calculation computes. \<open>Capacity_Facts\<close>: the specification \<open>decision_of\<close> of an allocation and
    that \<open>capacity_values\<close> computes it, counting, and the order of service. \<open>Capacity_Size\<close>,
    \<open>Observation_Size\<close>: the byte bounds. \<open>Capacity_Example\<close>: a small deployment. \<open>Scheduling_Props\<close>,
    \<open>Capacity_Props\<close>: the properties.

  \<^bold>\<open>Modelling choices.\<close> A raise is \<open>Inl\<close> of the exception's class and message; messages keep their fixed
  part. Strings are HOL strings, code points 0 to 255; the canonical encoder works on arbitrary code
  points. Integers are unbounded as in Python, with SQLite's 64-bit limit and the canonical encoder's
  safe range written out where they raise. Instants are microseconds of UTC within the years 1 to
  9999; the civil times of the increment 6 contracts begin with the year 1000 (years before it are accepted
  only by releases of CPython whose \<open>strftime\<close> pads them); monotonic readings are microseconds. Clock
  readings, fresh identifiers and what external callables return are arguments. No collision-freedom of
  SHA-256 is assumed: properties that depend on it name the byte strings that would have to collide. All
  functions are total; the JSON scanner is given a fuel of twice the length of its input plus two, which
  \<open>Canonical_Facts\<close> shows to be enough.

  A reader of the increment 6 contracts reports an ill-typed field before an ill-valued one, and a
  repeated name in an object is refused by the comparison with the canonical bytes instead of during
  decoding; both only change which error is raised. \<open>isinstance\<close> checks are the types of the model. The
  time zone database is the parameter \<open>zones\<close>, and \<open>C_valid\<close> says that a record of class \<open>C\<close> and the
  records inside it were accepted by their constructors. The bound of the JSON scan is 64 brackets, the
  records nest at most nine. Members of a population are compared by value; their identities are unique.

  A table is the list of its rows in insertion order; a row of the ledger is a live or an expired event.
  A transaction returns the new tables or the old ones with an error. The uniqueness of fresh
  identifiers is checked by the keys, as in the database. \<open>fresh_uuid\<close> says that the fresh payload identifier
  is a UUIDv4 text, all that the relational properties need; \<open>ids_typed\<close> says it of all four identifiers,
  where the properties depend on it. The canonical encoder that the other theories call has no recursion
  limit: what they encode nests a few levels, but for the inline payload of a command, whose nesting is the
  caller's and which raises \<open>RecursionError\<close> beyond the limit.

  \<^bold>\<open>Not modelled.\<close> Of the event store: object-admission payloads (the base class refuses them), the
  retirement of events and the native checkpoint stores (the rows of expired events are modelled, no
  operation creates one), the read \<open>event_provenance\<close>, the writer lock and busy errors. The object store,
  discovery, entities, extraction, relations, the retrieval store and its fixture, sources, checks and projections
  (authority subsystems built on the same commit path), the increments and the rest of the control
  plane (writers, native progress, Graphiti spend and admission, model usage), because they have not
  been reached yet; migrations, Neo4j, network and process code, because they are input and output or
  generated statements.

  \<^bold>\<open>Plan.\<close> Next the stored work items that the schedule is about (\<open>increment6/work_items.py\<close>), then the
  retirement of events.
\<close>

end
